(* ===== verification/Prelude.thy ===== *)
theory Prelude
  imports "HOL-Library.Word" "HOL-Library.Monad_Syntax"
begin

unbundle bit_operations_syntax

text \<open>
  Shared vocabulary of the development.

  \<^item> C integers.  A value of an unsigned C type of width \<open>w\<close> is a natural number below \<open>2 ^ w\<close>.
    Arithmetic is written over \<open>int\<close> and stored through \<open>u8\<close>, \<open>u16\<close> or \<open>u32\<close>, which
    reduce modulo the width exactly where the C code assigns to a variable of that type.  Bytes
    and flag words, on which the code works bitwise, are words.
  \<^item> Undefined behaviour.  An operation that the C code may perform outside an array, through a
    null pointer or with a zero divisor is of \<open>option\<close> type, and \<open>None\<close> is that fault.  The
    \<open>do\<close> notation of the option monad chains such operations.
  \<^item> Status codes.  \<open>A_STATUS\<close> is the driver's own enumeration; error returns are values of it.
\<close>

subsection \<open>Bytes, integers and faults\<close>

type_synonym byte = "8 word"
type_synonym bytes = "8 word list"

definition u8 :: "int \<Rightarrow> nat" where
  "u8 x = nat (x mod 256)"

definition u16 :: "int \<Rightarrow> nat" where
  "u16 x = nat (x mod 65536)"

definition u32 :: "int \<Rightarrow> nat" where
  "u32 x = nat (x mod 4294967296)"

datatype A_STATUS =
    A_ERROR | A_OK | A_DEVICE_NOT_FOUND | A_NO_MEMORY | A_MEMORY_NOT_AVAIL | A_NO_FREE_DESC
  | A_BAD_ADDRESS | A_WIN_DRIVER_ERROR | A_REGS_NOT_MAPPED | A_EPERM | A_EACCES | A_ENOENT
  | A_EEXIST | A_EFAULT | A_EBUSY | A_EINVAL | A_EMSGSIZE | A_ECANCELED | A_ENOTSUP | A_ECOMM
  | A_EPROTO | A_ENODEV | A_EDEVNOTUP | A_NO_RESOURCE | A_HARDWARE | A_PENDING | A_EBADCHANNEL
  | A_DECRYPT_ERROR | A_PHY_ERROR | A_CONSUMED

text \<open>The macros \<open>A_SUCCESS\<close> and \<open>A_FAILED\<close> test for \<open>A_OK\<close> only.\<close>

abbreviation A_FAILED :: "A_STATUS \<Rightarrow> bool" where
  "A_FAILED s \<equiv> s \<noteq> A_OK"

text \<open>Array reads and writes, with the bound the C code must respect made explicit.\<close>

definition at :: "'a list \<Rightarrow> nat \<Rightarrow> 'a option" where
  "at xs i = (if i < length xs then Some (xs ! i) else None)"

definition put :: "'a list \<Rightarrow> nat \<Rightarrow> 'a \<Rightarrow> 'a list option" where
  "put xs i v = (if i < length xs then Some (xs[i := v]) else None)"

text \<open>\<open>blk off n xs\<close> is a \<open>memcpy\<close> of \<open>n\<close> bytes out of the buffer \<open>xs\<close> from \<open>off\<close>.\<close>

definition blk :: "nat \<Rightarrow> nat \<Rightarrow> 'a list \<Rightarrow> 'a list option" where
  "blk off n xs = (if off + n \<le> length xs then Some (take n (drop off xs)) else None)"

definition be16 :: "byte \<Rightarrow> byte \<Rightarrow> nat" where
  "be16 hi lo = 256 * unat hi + unat lo"

definition le16 :: "byte \<Rightarrow> byte \<Rightarrow> nat" where
  "le16 lo hi = unat lo + 256 * unat hi"

definition be16_bytes :: "nat \<Rightarrow> bytes" where
  "be16_bytes n = [word_of_nat (n div 256), word_of_nat n]"

definition le16_bytes :: "nat \<Rightarrow> bytes" where
  "le16_bytes n = [word_of_nat n, word_of_nat (n div 256)]"

definition le32 :: "byte \<Rightarrow> byte \<Rightarrow> byte \<Rightarrow> byte \<Rightarrow> nat" where
  "le32 a b c d = unat a + 256 * unat b + 65536 * unat c + 16777216 * unat d"

subsection \<open>Facts the components share\<close>

named_theorems cint \<open>bounds and identities of the C integer conversions\<close>

lemma u8_less [cint]: "u8 x < 256"
  by (simp add: u8_def nat_less_iff)

lemma u16_less [cint]: "u16 x < 65536"
  by (simp add: u16_def nat_less_iff)

lemma u32_less [cint]: "u32 x < 4294967296"
  by (simp add: u32_def nat_less_iff)

lemma u8_id [cint]: "0 \<le> x \<Longrightarrow> x < 256 \<Longrightarrow> u8 x = nat x"
  by (simp add: u8_def)

lemma u16_id [cint]: "0 \<le> x \<Longrightarrow> x < 65536 \<Longrightarrow> u16 x = nat x"
  by (simp add: u16_def)

lemma u32_id [cint]: "0 \<le> x \<Longrightarrow> x < 4294967296 \<Longrightarrow> u32 x = nat x"
  by (simp add: u32_def)

lemma at_Some [simp]: "i < length xs \<Longrightarrow> at xs i = Some (xs ! i)"
  by (simp add: at_def)

lemma at_eq_Some_iff: "at xs i = Some x \<longleftrightarrow> i < length xs \<and> xs ! i = x"
  by (simp add: at_def)

lemma put_Some [simp]: "i < length xs \<Longrightarrow> put xs i v = Some (xs[i := v])"
  by (simp add: put_def)

lemma put_eq_Some_iff: "put xs i v = Some ys \<longleftrightarrow> i < length xs \<and> ys = xs[i := v]"
  by (auto simp: put_def)

lemma blk_Some [simp]: "off + n \<le> length xs \<Longrightarrow> blk off n xs = Some (take n (drop off xs))"
  by (simp add: blk_def)

lemma blk_eq_Some_iff:
  "blk off n xs = Some ys \<longleftrightarrow> off + n \<le> length xs \<and> ys = take n (drop off xs)"
  by (auto simp: blk_def)

lemma be16_less: "be16 a b < 65536"
proof -
  have "unat a < 256" "unat b < 256"
    using unsigned_less [of a] unsigned_less [of b] by simp_all
  then show ?thesis by (simp add: be16_def)
qed

lemma le16_less: "le16 a b < 65536"
proof -
  have "unat a < 256" "unat b < 256"
    using unsigned_less [of a] unsigned_less [of b] by simp_all
  then show ?thesis by (simp add: le16_def)
qed

lemma be16_be16_bytes:
  "n < 65536 \<Longrightarrow> be16_bytes n = [hi, lo] \<Longrightarrow> be16 hi lo = n"
  by (auto simp: be16_bytes_def be16_def unat_of_nat take_bit_nat_def)

lemma be16_of_bytes: "n < 65536 \<Longrightarrow> be16 (word_of_nat (n div 256)) (word_of_nat n) = n"
  by (simp add: be16_def unat_of_nat take_bit_nat_def)

lemma length_be16_bytes [simp]: "length (be16_bytes n) = 2"
  by (simp add: be16_bytes_def)

end
