(* ===== verification/Frames.thy ===== *)
theory Frames
  imports Prelude
begin

text \<open>
  Network buffers and the Ethernet II (DIX) / 802.3 conversions of \<open>host/wmi/wmi.c\<close>.

  A network buffer is the Linux \<open>sk_buff\<close> behind the \<open>a_netbuf_*\<close> wrappers of
  \<open>host/os/linux/netbuf.c\<close>: the valid bytes and the number of bytes free in front of them.
  \<open>A_NETBUF_PUSH\<close> grows the data to the front, \<open>A_NETBUF_PULL\<close> drops bytes from the front;
  both wrappers always return \<open>A_OK\<close>, and leaving the buffer is a fault (\<open>None\<close>).
  Pushed bytes keep whatever the headroom held, so the model keeps the headroom's bytes.
\<close>

subsection \<open>Buffers\<close>

text \<open>\<open>nb_head\<close> holds the bytes in front of the data, the one nearest to the data first.\<close>

record netbuf =
  nb_head :: bytes
  nb_data :: bytes

definition a_netbuf_headroom :: "netbuf \<Rightarrow> nat" where
  "a_netbuf_headroom b = length (nb_head b)"

definition a_netbuf_to_len :: "netbuf \<Rightarrow> nat" where
  "a_netbuf_to_len b = length (nb_data b)"

definition a_netbuf_push :: "netbuf \<Rightarrow> nat \<Rightarrow> (A_STATUS \<times> netbuf) option" where
  "a_netbuf_push b n =
     (if n \<le> length (nb_head b)
      then Some (A_OK, b\<lparr>nb_head := drop n (nb_head b),
                         nb_data := rev (take n (nb_head b)) @ nb_data b\<rparr>)
      else None)"

definition a_netbuf_pull :: "netbuf \<Rightarrow> nat \<Rightarrow> (A_STATUS \<times> netbuf) option" where
  "a_netbuf_pull b n =
     (if n \<le> length (nb_data b)
      then Some (A_OK, b\<lparr>nb_head := rev (take n (nb_data b)) @ nb_head b,
                         nb_data := drop n (nb_data b)\<rparr>)
      else None)"

text \<open>\<open>A_MEMCPY\<close> of \<open>bs\<close> to the start of the buffer's data.\<close>

definition nb_write :: "netbuf \<Rightarrow> nat \<Rightarrow> bytes \<Rightarrow> netbuf option" where
  "nb_write b off bs =
     (if off + length bs \<le> length (nb_data b)
      then Some (b\<lparr>nb_data := take off (nb_data b) @ bs @ drop (off + length bs) (nb_data b)\<rparr>)
      else None)"

lemma push_pull:
  "n \<le> length (nb_data b) \<Longrightarrow>
   Option.bind (a_netbuf_pull b n) (\<lambda>(_, b'). a_netbuf_push b' n) = Some (A_OK, b)"
  by (simp add: a_netbuf_pull_def a_netbuf_push_def)

subsection \<open>Header layouts\<close>

text \<open>
  \<open>ATH_MAC_HDR\<close> is destination, source (6 bytes each) and a 16-bit type or length;
  \<open>ATH_LLC_SNAP_HDR\<close> is DSAP, SSAP, control, a 3-byte organisation code and the EtherType.
\<close>

abbreviation ATH_MAC_LEN :: nat where "ATH_MAC_LEN \<equiv> 6"
abbreviation SIZEOF_ATH_MAC_HDR :: nat where "SIZEOF_ATH_MAC_HDR \<equiv> 14"
abbreviation SIZEOF_ATH_LLC_SNAP_HDR :: nat where "SIZEOF_ATH_LLC_SNAP_HDR \<equiv> 8"
abbreviation SIZEOF_WMI_DATA_HDR :: nat where "SIZEOF_WMI_DATA_HDR \<equiv> 6"

definition IS_ETHERTYPE :: "nat \<Rightarrow> bool" where
  "IS_ETHERTYPE n \<longleftrightarrow> 1536 \<le> n"

text \<open>A DIX frame and its 802.3 LLC/SNAP form, as byte layouts.\<close>

definition dix_frame :: "bytes \<Rightarrow> bytes \<Rightarrow> nat \<Rightarrow> bytes \<Rightarrow> bytes" where
  "dix_frame dst src ety body = dst @ src @ be16_bytes ety @ body"

definition snap_hdr :: "nat \<Rightarrow> bytes" where
  "snap_hdr ety = [0xAA, 0xAA, 0x03, 0, 0, 0] @ be16_bytes ety"

definition dot3_frame :: "bytes \<Rightarrow> bytes \<Rightarrow> nat \<Rightarrow> bytes \<Rightarrow> bytes" where
  "dot3_frame dst src ety body =
     dst @ src @ be16_bytes (length body + 8) @ snap_hdr ety @ body"

subsection \<open>The conversions\<close>

definition wmi_dix_2_dot3 :: "netbuf \<Rightarrow> (A_STATUS \<times> netbuf) option" where
  "wmi_dix_2_dot3 osbuf =
     (if a_netbuf_headroom osbuf < SIZEOF_ATH_LLC_SNAP_HDR + SIZEOF_WMI_DATA_HDR
      then Some (A_NO_MEMORY, osbuf)
      else do {
        tl \<leftarrow> blk 12 2 (nb_data osbuf);
        if \<not> IS_ETHERTYPE (be16 (tl ! 0) (tl ! 1)) then Some (A_OK, osbuf)
        else do {
          dstMac \<leftarrow> blk 0 ATH_MAC_LEN (nb_data osbuf);
          srcMac \<leftarrow> blk ATH_MAC_LEN ATH_MAC_LEN (nb_data osbuf);
          let typeOrLen = u16 (int (a_netbuf_to_len osbuf) - 14 + 8);
          (status, b) \<leftarrow> a_netbuf_push osbuf SIZEOF_ATH_LLC_SNAP_HDR;
          if status \<noteq> A_OK then Some (A_NO_MEMORY, b)
          else do {
            b \<leftarrow> nb_write b 0 (dstMac @ srcMac @ be16_bytes typeOrLen);
            b \<leftarrow> nb_write b 14 ([0xAA, 0xAA, 0x03, 0, 0, 0] @ tl);
            Some (A_OK, b)
          }
        }
      })"

definition wmi_dot3_2_dix :: "netbuf \<Rightarrow> (A_STATUS \<times> netbuf) option" where
  "wmi_dot3_2_dix osbuf = do {
     mac \<leftarrow> blk 0 12 (nb_data osbuf);
     etherType \<leftarrow> blk 20 2 (nb_data osbuf);
     (status, b) \<leftarrow> a_netbuf_pull osbuf SIZEOF_ATH_LLC_SNAP_HDR;
     if status \<noteq> A_OK then Some (A_NO_MEMORY, b)
     else do {
       b \<leftarrow> nb_write b 0 (mac @ etherType);
       Some (A_OK, b)
     }
   }"

definition wmi_data_hdr_remove :: "netbuf \<Rightarrow> (A_STATUS \<times> netbuf) option" where
  "wmi_data_hdr_remove osbuf = a_netbuf_pull osbuf SIZEOF_WMI_DATA_HDR"


subsection \<open>Layout and round trip\<close>

lemma nb_write_prefix:
  assumes "nb_data b = old @ rest" and "length bs = length old"
  shows "nb_write b 0 bs = Some (b\<lparr>nb_data := bs @ rest\<rparr>)"
  using assms by (simp add: nb_write_def)

lemma nb_write_at:
  assumes "nb_data b = pre @ old @ rest" and "off = length pre" and "length bs = length old"
  shows "nb_write b off bs = Some (b\<lparr>nb_data := pre @ bs @ rest\<rparr>)"
  using assms by (simp add: nb_write_def)

lemma blk_append:
  "off = length pre \<Longrightarrow> n = length mid \<Longrightarrow> blk off n (pre @ mid @ post) = Some mid"
  by (simp add: blk_def)

lemma blk_front: "n = length mid \<Longrightarrow> blk 0 n (mid @ post) = Some mid"
  by (simp add: blk_def)

lemma length_snap_hdr [simp]: "length (snap_hdr ety) = 8"
  by (simp add: snap_hdr_def)

lemma length_dot3_frame:
  "length dst = 6 \<Longrightarrow> length src = 6 \<Longrightarrow> length (dot3_frame dst src ety body) = 22 + length body"
  by (simp add: dot3_frame_def)

lemma dot3_2_dix_frame:
  assumes d: "length dst = 6" and s: "length src = 6"
    and b: "nb_data b = dst @ src @ l @ [x0, x1, x2, x3, x4, x5] @ ety @ body"
    and l: "length l = 2" and e: "length ety = 2"
  shows "\<exists>b'. wmi_dot3_2_dix b = Some (A_OK, b') \<and> nb_data b' = dst @ src @ ety @ body
               \<and> length (nb_head b') = length (nb_head b) + 8"
proof -
  let ?hd = "dst @ src @ l @ [x0, x1, x2, x3, x4, x5]"
  let ?b = "b\<lparr>nb_head := rev (take 8 (nb_data b)) @ nb_head b, nb_data := drop 8 (nb_data b)\<rparr>"
  have mac: "blk 0 12 (nb_data b) = Some (dst @ src)"
    using d s b by (simp add: blk_def)
  have ety: "blk 20 2 (nb_data b) = Some ety"
  proof -
    have "blk 20 2 (?hd @ ety @ body) = Some ety"
      by (rule blk_append) (simp_all add: d s l e)
    then show ?thesis by (simp add: b)
  qed
  have pull: "a_netbuf_pull b 8 = Some (A_OK, ?b)"
    using d s b by (simp add: a_netbuf_pull_def)
  let ?old = "drop 8 ?hd @ ety"
  have old: "nb_data ?b = ?old @ body" "length (dst @ src @ ety) = length ?old"
    using d s l e b by simp_all
  have wr: "nb_write ?b 0 ((dst @ src) @ ety) = Some (?b\<lparr>nb_data := (dst @ src @ ety) @ body\<rparr>)"
    using nb_write_prefix [OF old] by (simp only: append_assoc)
  have "wmi_dot3_2_dix b = Some (A_OK, ?b\<lparr>nb_data := (dst @ src @ ety) @ body\<rparr>)"
    by (simp only: wmi_dot3_2_dix_def mac ety pull wr bind.bind_lunit prod.case if_False
        simp_thms)
  moreover have "length (take 8 (nb_data b)) = 8"
    using d s b by simp
  ultimately show ?thesis by simp
qed

lemma dix_2_dot3_frame:
  assumes d: "length dst = 6" and s: "length src = 6"
    and ety: "1536 \<le> ety" "ety < 65536"
    and room: "14 \<le> length (nb_head b)"
    and b: "nb_data b = dix_frame dst src ety body" and len: "length body + 8 < 65536"
  shows "wmi_dix_2_dot3 b = Some (A_OK, b\<lparr>nb_head := drop 8 (nb_head b),
                                           nb_data := dot3_frame dst src ety body\<rparr>)"
proof -
  let ?pushed = "b\<lparr>nb_head := drop 8 (nb_head b),
                   nb_data := rev (take 8 (nb_head b)) @ nb_data b\<rparr>"
  have data: "nb_data b = (dst @ src) @ be16_bytes ety @ body"
    using b by (simp add: dix_frame_def)
  have tl: "blk 12 2 (nb_data b) = Some (be16_bytes ety)"
    unfolding data by (rule blk_append) (simp_all add: d s)
  have is_ety: "IS_ETHERTYPE (be16 (be16_bytes ety ! 0) (be16_bytes ety ! 1))"
    using ety by (simp add: be16_bytes_def be16_of_bytes IS_ETHERTYPE_def)
  have mac: "blk 0 6 (nb_data b) = Some dst" "blk 6 6 (nb_data b) = Some src"
    using d s data by (simp_all add: blk_def)
  have tol: "u16 (int (a_netbuf_to_len b) - 14 + 8) = length body + 8"
    using len d s data by (simp add: a_netbuf_to_len_def cint)
  let ?hdr = "dst @ src @ be16_bytes (length body + 8)"
  have push: "a_netbuf_push b 8 = Some (A_OK, ?pushed)"
    using room by (simp add: a_netbuf_push_def)
  have "nb_data ?pushed = (rev (take 8 (nb_head b)) @ dst) @
          (src @ be16_bytes ety) @ body"
    by (simp add: data)
  then have w1: "nb_write ?pushed 0 ?hdr = Some (?pushed\<lparr>nb_data := ?hdr @
                   (src @ be16_bytes ety) @ body\<rparr>)"
    using room d s nb_write_prefix
      [of ?pushed "rev (take 8 (nb_head b)) @ dst" _ ?hdr] by simp
  have w2: "nb_write (?pushed\<lparr>nb_data := ?hdr @ (src @ be16_bytes ety) @ body\<rparr>) 14
              (snap_hdr ety)
            = Some (?pushed\<lparr>nb_data := ?hdr @ snap_hdr ety @ body\<rparr>)"
    using d s nb_write_at [of "?pushed\<lparr>nb_data := ?hdr @ (src @ be16_bytes ety) @ body\<rparr>"
        ?hdr "src @ be16_bytes ety" body 14 "snap_hdr ety"] by simp
  show ?thesis
    using room tl is_ety mac tol push w1 w2
    by (simp add: wmi_dix_2_dot3_def a_netbuf_headroom_def snap_hdr_def dot3_frame_def)
qed

text \<open>An Ethernet II frame with an EtherType, given headroom for the SNAP header and the data
  header, becomes the 802.3 LLC/SNAP frame with the same addresses, type and payload, and the
  receive-side conversion restores the original bytes.\<close>

theorem dix_dot3_roundtrip:
  assumes "length dst = 6" and "length src = 6" and "1536 \<le> ety" and "ety < 65536"
    and "14 \<le> length (nb_head b)" and "nb_data b = dix_frame dst src ety body"
    and "length body + 8 < 65536"
  shows "\<exists>b1 b2. wmi_dix_2_dot3 b = Some (A_OK, b1) \<and> nb_data b1 = dot3_frame dst src ety body \<and>
           wmi_dot3_2_dix b1 = Some (A_OK, b2) \<and> nb_data b2 = nb_data b"
proof -
  let ?b1 = "b\<lparr>nb_head := drop 8 (nb_head b), nb_data := dot3_frame dst src ety body\<rparr>"
  have 1: "wmi_dix_2_dot3 b = Some (A_OK, ?b1)"
    by (rule dix_2_dot3_frame) (use assms in simp_all)
  have "nb_data ?b1 = dst @ src @ be16_bytes (length body + 8) @ [0xAA, 0xAA, 0x03, 0, 0, 0] @
          be16_bytes ety @ body"
    by (simp add: dot3_frame_def snap_hdr_def)
  from dot3_2_dix_frame [OF assms(1,2) this] assms(6) 1 show ?thesis
    by (auto simp: dix_frame_def)
qed

end
