(* ===== verification/Reorder.thy ===== *)
theory Reorder
  imports Frames
begin

text \<open>
  The A-MPDU receive reordering of \<open>host/reorder/rcv_aggr.c\<close>.

  Every connection has one \<open>rxtid\<close> per traffic identifier: a ring \<open>hold_q\<close> of \<open>hold_q_sz\<close>
  slots in which the frame with 802.11 sequence number \<open>n\<close> waits at index \<open>n mod hold_q_sz\<close>
  until every frame before it has arrived, the block-ack originator moves the window, or the
  400 ms timer expires.  The model keeps the shape of the code: \<open>aggr_process_recv_frm\<close>,
  \<open>aggr_process_bar\<close>, the ADDBA and DELBA events, the timer handler and the A-MSDU slicer are
  one definition each, over the connection record and an environment that records what leaves
  the module (frames indicated to the network stack, frames freed).
\<close>

subsection \<open>State\<close>

abbreviation IEEE80211_MAX_SEQ_NO :: nat where "IEEE80211_MAX_SEQ_NO \<equiv> 4095"
abbreviation NUM_OF_TIDS :: nat where "NUM_OF_TIDS \<equiv> 8"
abbreviation AGGR_SZ_DEFAULT :: nat where "AGGR_SZ_DEFAULT \<equiv> 8"
abbreviation AGGR_NUM_OF_FREE_NETBUFS :: nat where "AGGR_NUM_OF_FREE_NETBUFS \<equiv> 16"

datatype DELIVERY_ORDER = ALL_SEQNO | CONTIGUOUS_SEQNO

record OSBUF_HOLD_Q =
  osbuf :: "netbuf option"
  is_amsdu :: bool
  slot_seq_no :: nat

record RXTID =
  aggr :: bool
  progress :: bool
  timerMon :: bool
  win_sz :: nat
  seq_next :: nat
  hold_q_sz :: nat
  hold_q :: "OSBUF_HOLD_Q list option"
  rx_q :: "netbuf list"

text \<open>\<open>timer_armed\<close> is the state of the kernel timer behind \<open>A_TIMEOUT_MS\<close> and \<open>A_UNTIMEOUT\<close>.\<close>

record AGGR_CONN_INFO =
  aggr_dev :: "nat option"
  aggr_sz :: nat
  timerScheduled :: bool
  timer_armed :: bool
  RxTid :: "RXTID list"

text \<open>
  The environment: the module's free buffers (\<open>None\<close> when \<open>p_aggr\<close> is null), the outcomes of
  the coming \<open>A_NETBUF_ALLOC\<close> calls (an exhausted list is a failing allocator), the frames
  passed to \<open>rx_fn\<close> with their device, and the frames given to \<open>A_NETBUF_FREE\<close>.
\<close>

record aggr_env =
  freeQ :: "netbuf list option"
  os_alloc :: "netbuf option list"
  rx_out :: "(nat \<times> netbuf) list"
  freed :: "netbuf list"

definition IEEE80211_NEXT_SEQ_NO :: "nat \<Rightarrow> nat" where
  "IEEE80211_NEXT_SEQ_NO n = (n + 1) mod 4096"

definition AGGR_WIN_IDX :: "nat \<Rightarrow> nat \<Rightarrow> nat option" where
  "AGGR_WIN_IDX x y = (if y = 0 then None else Some (x mod y))"

definition TID_WINDOW_SZ :: "nat \<Rightarrow> nat" where
  "TID_WINDOW_SZ w = 2 * w"

definition empty_slot :: OSBUF_HOLD_Q where
  "empty_slot = \<lparr>osbuf = None, is_amsdu = False, slot_seq_no = 0\<rparr>"

definition init_rxtid :: RXTID where
  "init_rxtid = \<lparr>aggr = False, progress = False, timerMon = False, win_sz = 0, seq_next = 0,
                 hold_q_sz = 0, hold_q = None, rx_q = []\<rparr>"

subsection \<open>Free buffers and the A-MSDU slicer\<close>

text \<open>The allocator callback \<open>ar6000_alloc_netbufs\<close>: stop at the first failing allocation.\<close>

fun ar6000_alloc_netbufs :: "netbuf list \<Rightarrow> netbuf option list \<Rightarrow> nat \<Rightarrow>
    netbuf list \<times> netbuf option list" where
  "ar6000_alloc_netbufs q al 0 = (q, al)"
| "ar6000_alloc_netbufs q [] (Suc n) = (q, [])"
| "ar6000_alloc_netbufs q (None # al) (Suc n) = (q, al)"
| "ar6000_alloc_netbufs q (Some b # al) (Suc n) = ar6000_alloc_netbufs (q @ [b]) al n"

definition aggr_init :: "bool \<Rightarrow> netbuf option list \<Rightarrow> aggr_env \<times> A_STATUS" where
  "aggr_init malloc_ok al =
     (if malloc_ok
      then (let (fq, al') = ar6000_alloc_netbufs [] al AGGR_NUM_OF_FREE_NETBUFS
            in (\<lparr>freeQ = Some fq, os_alloc = al', rx_out = [], freed = []\<rparr>, A_OK))
      else (\<lparr>freeQ = None, os_alloc = al, rx_out = [], freed = []\<rparr>, A_ERROR))"

definition aggr_init_conn :: "bool \<Rightarrow> AGGR_CONN_INFO option" where
  "aggr_init_conn malloc_ok =
     (if malloc_ok
      then Some \<lparr>aggr_dev = None, aggr_sz = AGGR_SZ_DEFAULT, timerScheduled = False,
                 timer_armed = False, RxTid = replicate NUM_OF_TIDS init_rxtid\<rparr>
      else None)"

definition aggr_get_osbuf :: "aggr_env \<Rightarrow> (netbuf option \<times> aggr_env) option" where
  "aggr_get_osbuf env = (case freeQ env of
       None \<Rightarrow> None
     | Some fq \<Rightarrow>
         let (fq, al) = (if length fq < AGGR_NUM_OF_FREE_NETBUFS div 4
                         then ar6000_alloc_netbufs fq (os_alloc env) AGGR_NUM_OF_FREE_NETBUFS
                         else (fq, os_alloc env))
         in Some (case fq of
              [] \<Rightarrow> (None, env\<lparr>freeQ := Some [], os_alloc := al\<rparr>)
            | b # fq' \<Rightarrow> (Some b, env\<lparr>freeQ := Some fq', os_alloc := al\<rparr>)))"

text \<open>
  One pass of the slicing loop of \<open>aggr_slice_amsdu\<close>.  \<open>rest\<close> is the buffer from \<open>framep\<close> on
  and \<open>amsdu_len\<close> the 16-bit counter of the code; the two agree only while the subframe lengths
  do.  A subframe that reaches past the buffer is read all the same, which is the fault \<open>None\<close>.
\<close>

function slice_loop :: "bytes \<Rightarrow> nat \<Rightarrow> RXTID \<Rightarrow> aggr_env \<Rightarrow> (RXTID \<times> aggr_env) option" where
  "slice_loop rest amsdu_len rt env =
     (if \<not> amsdu_len > SIZEOF_ATH_MAC_HDR then Some (rt, env)
      else case blk 12 2 rest of None \<Rightarrow> None | Some ty \<Rightarrow>
        (let payload_8023_len = be16 (ty ! 0) (ty ! 1) in
         if payload_8023_len < 46 \<or> payload_8023_len > 1508 then Some (rt, env)
         else
           let frame_8023_len = payload_8023_len + SIZEOF_ATH_MAC_HDR in
           case aggr_get_osbuf env of None \<Rightarrow> None | Some (nb, env1) \<Rightarrow>
           (case nb of None \<Rightarrow> Some (rt, env1) | Some new_buf \<Rightarrow>
             (case blk 0 frame_8023_len rest of None \<Rightarrow> None | Some msdu \<Rightarrow>
               (case wmi_dot3_2_dix (new_buf\<lparr>nb_data := msdu\<rparr>) of None \<Rightarrow> None
                | Some (status, dix) \<Rightarrow>
                  if status \<noteq> A_OK
                  then Some (rt, env1\<lparr>freed := freed env1 @ [dix]\<rparr>)
                  else
                    let rt' = rt\<lparr>rx_q := rx_q rt @ [dix]\<rparr> in
                    if amsdu_len = frame_8023_len then Some (rt', env1)
                    else
                      let padded = (frame_8023_len + 3) div 4 * 4 in
                      slice_loop (drop padded rest) (u16 (int amsdu_len - int padded))
                        rt' env1)))))"
  by pat_completeness auto
termination
  by (relation "measure (\<lambda>(rest, _, _, _). length rest)") (auto simp: blk_eq_Some_iff)

declare slice_loop.simps [simp del]

definition aggr_slice_amsdu :: "RXTID \<Rightarrow> netbuf \<Rightarrow> aggr_env \<Rightarrow> (RXTID \<times> aggr_env) option" where
  "aggr_slice_amsdu rt buf env = do {
     (rt', env') \<leftarrow> slice_loop (drop SIZEOF_ATH_MAC_HDR (nb_data buf))
                      (u16 (int (a_netbuf_to_len buf) - 14)) rt env;
     Some (rt', env'\<lparr>freed := freed env' @ [buf]\<rparr>)
   }"

definition aggr_dispatch_frames :: "AGGR_CONN_INFO \<Rightarrow> netbuf list \<Rightarrow> aggr_env \<Rightarrow> aggr_env" where
  "aggr_dispatch_frames c q env = (case aggr_dev c of
       None \<Rightarrow> env\<lparr>freed := freed env @ q\<rparr>
     | Some d \<Rightarrow> env\<lparr>rx_out := rx_out env @ map (Pair d) q\<rparr>)"

subsection \<open>Dequeuing\<close>

text \<open>
  The \<open>do ... while\<close> loop of \<open>aggr_deque_frms\<close>; \<open>fuel\<close> bounds the passes.  The sequence
  space has 4096 numbers, so 4096 passes are always enough (\<open>deque_loop_all\<close>, \<open>deque_loop_contiguous\<close>).
\<close>

fun deque_loop :: "nat \<Rightarrow> DELIVERY_ORDER \<Rightarrow> nat \<Rightarrow> nat \<Rightarrow> RXTID \<Rightarrow> aggr_env \<Rightarrow>
    (RXTID \<times> aggr_env) option" where
  "deque_loop fuel order idx idx_end rt env =
     (if fuel = 0 then None else do {
        hq \<leftarrow> hold_q rt;
        node \<leftarrow> at hq idx;
        if order = CONTIGUOUS_SEQNO \<and> osbuf node = None then Some (rt, env)
        else do {
          (rt1, env1) \<leftarrow> (case osbuf node of
              None \<Rightarrow> Some (rt, env)
            | Some b \<Rightarrow> do {
                (rt', env') \<leftarrow> (if is_amsdu node then aggr_slice_amsdu rt b env
                                else Some (rt\<lparr>rx_q := rx_q rt @ [b]\<rparr>, env));
                Some (rt'\<lparr>hold_q := Some (hq[idx := node\<lparr>osbuf := None\<rparr>])\<rparr>, env')
              });
          let rt2 = rt1\<lparr>seq_next := IEEE80211_NEXT_SEQ_NO (seq_next rt1)\<rparr>;
          idx' \<leftarrow> AGGR_WIN_IDX (seq_next rt2) (hold_q_sz rt2);
          if idx' \<noteq> idx_end then deque_loop (fuel - 1) order idx' idx_end rt2 env1
          else Some (rt2, env1)
        }
      })"

declare deque_loop.simps [simp del]

definition deque_rxtid :: "AGGR_CONN_INFO \<Rightarrow> RXTID \<Rightarrow> nat \<Rightarrow> DELIVERY_ORDER \<Rightarrow> aggr_env \<Rightarrow>
    (RXTID \<times> aggr_env) option" where
  "deque_rxtid c rt seq_no order env = do {
     idx \<leftarrow> AGGR_WIN_IDX (seq_next rt) (hold_q_sz rt);
     let seq_end = (if seq_no \<noteq> 0 then seq_no else seq_next rt);
     idx_end \<leftarrow> AGGR_WIN_IDX seq_end (hold_q_sz rt);
     (rt', env') \<leftarrow> deque_loop 4096 order idx idx_end rt env;
     Some (rt'\<lparr>rx_q := []\<rparr>, aggr_dispatch_frames c (rx_q rt') env')
   }"

definition set_rxtid :: "AGGR_CONN_INFO \<Rightarrow> nat \<Rightarrow> RXTID \<Rightarrow> AGGR_CONN_INFO" where
  "set_rxtid c tid rt = c\<lparr>RxTid := (RxTid c)[tid := rt]\<rparr>"

definition aggr_deque_frms :: "AGGR_CONN_INFO \<Rightarrow> nat \<Rightarrow> nat \<Rightarrow> DELIVERY_ORDER \<Rightarrow> aggr_env \<Rightarrow>
    (AGGR_CONN_INFO \<times> aggr_env) option" where
  "aggr_deque_frms c tid seq_no order env = do {
     rt \<leftarrow> at (RxTid c) tid;
     (rt', env') \<leftarrow> deque_rxtid c rt seq_no order env;
     Some (set_rxtid c tid rt', env')
   }"

subsection \<open>Events\<close>

definition aggr_delete_tid_state :: "AGGR_CONN_INFO \<Rightarrow> nat \<Rightarrow> aggr_env \<Rightarrow>
    (AGGR_CONN_INFO \<times> aggr_env) option" where
  "aggr_delete_tid_state c tid env =
     (if \<not> (tid < NUM_OF_TIDS \<and> freeQ env \<noteq> None) then Some (c, env)
      else do {
        rt \<leftarrow> at (RxTid c) tid;
        (c, env) \<leftarrow> (if aggr rt then aggr_deque_frms c tid 0 ALL_SEQNO env else Some (c, env));
        rt \<leftarrow> at (RxTid c) tid;
        Some (set_rxtid c tid (rt\<lparr>aggr := False, progress := False, timerMon := False,
                                  win_sz := 0, seq_next := 0, hold_q_sz := 0,
                                  hold_q := None\<rparr>), env)
      })"

definition aggr_process_bar :: "AGGR_CONN_INFO \<Rightarrow> nat \<Rightarrow> nat \<Rightarrow> aggr_env \<Rightarrow>
    (AGGR_CONN_INFO \<times> aggr_env) option" where
  "aggr_process_bar c tid seq_no env = aggr_deque_frms c tid seq_no ALL_SEQNO env"

definition aggr_recv_addba_req_evt :: "AGGR_CONN_INFO \<Rightarrow> nat \<Rightarrow> nat \<Rightarrow> nat \<Rightarrow> bool \<Rightarrow> aggr_env \<Rightarrow>
    (AGGR_CONN_INFO \<times> aggr_env) option" where
  "aggr_recv_addba_req_evt c tid seq_no win malloc_ok env = do {
     rt \<leftarrow> at (RxTid c) tid;
     (c, env) \<leftarrow> (if aggr rt then aggr_delete_tid_state c tid env else Some (c, env));
     rt \<leftarrow> at (RxTid c) tid;
     let rt = rt\<lparr>seq_next := seq_no\<rparr>;
     if \<not> malloc_ok then Some (set_rxtid c tid (rt\<lparr>hold_q := None\<rparr>), env)
     else Some (set_rxtid c tid
            (rt\<lparr>hold_q := Some (replicate (TID_WINDOW_SZ win) empty_slot), win_sz := win,
                hold_q_sz := TID_WINDOW_SZ win, aggr := True\<rparr>), env)
   }"

definition aggr_recv_delba_req_evt :: "AGGR_CONN_INFO \<Rightarrow> nat \<Rightarrow> aggr_env \<Rightarrow>
    (AGGR_CONN_INFO \<times> aggr_env) option" where
  "aggr_recv_delba_req_evt c tid env = do {
     rt \<leftarrow> at (RxTid c) tid;
     if aggr rt then aggr_delete_tid_state c tid env else Some (c, env)
   }"

text \<open>
  The window test and the window move of \<open>aggr_process_recv_frm\<close>: \<open>cur\<close> outside
  \<open>[st, end]\<close> in the 12-bit sequence space, where \<open>end\<close> may have wrapped.
\<close>

definition out_of_window :: "nat \<Rightarrow> nat \<Rightarrow> nat \<Rightarrow> bool" where
  "out_of_window st en cur \<longleftrightarrow>
     (st < en \<and> (cur < st \<or> cur > en)) \<or> (st > en \<and> cur > en \<and> cur < st)"

definition window_end :: "nat \<Rightarrow> nat \<Rightarrow> nat" where
  "window_end st sz = nat ((int st + int sz - 1) mod 4096)"

text \<open>The window start that makes \<open>cur\<close> the last frame of the window (32-bit, then 16-bit).\<close>

definition window_ending_at :: "nat \<Rightarrow> nat \<Rightarrow> nat" where
  "window_ending_at cur sz =
     (if cur \<ge> u32 (int sz - 1) then u16 (int cur - (int sz - 1))
      else u16 (4095 - (int sz - 2 - int cur)))"

definition shift_window :: "AGGR_CONN_INFO \<Rightarrow> nat \<Rightarrow> nat \<Rightarrow> aggr_env \<Rightarrow>
    (AGGR_CONN_INFO \<times> aggr_env) option" where
  "shift_window c tid cur env = do {
     rt \<leftarrow> at (RxTid c) tid;
     let st = seq_next rt;
     let en = window_end st (hold_q_sz rt);
     if \<not> out_of_window st en cur then Some (c, env)
     else do {
       let extended_end = window_end en (hold_q_sz rt);
       if out_of_window en extended_end cur
       then do {
         (c, env) \<leftarrow> aggr_deque_frms c tid 0 ALL_SEQNO env;
         rt \<leftarrow> at (RxTid c) tid;
         Some (set_rxtid c tid (rt\<lparr>seq_next := window_ending_at cur (hold_q_sz rt)\<rparr>), env)
       }
       else aggr_deque_frms c tid (window_ending_at cur (hold_q_sz rt)) ALL_SEQNO env
     }
   }"

text \<open>\<open>node->osbuf = *osbuf\<close> and its companions; an occupied slot drops the frame it held.\<close>

definition hold_frame :: "AGGR_CONN_INFO \<Rightarrow> nat \<Rightarrow> nat \<Rightarrow> bool \<Rightarrow> netbuf \<Rightarrow> aggr_env \<Rightarrow>
    (AGGR_CONN_INFO \<times> aggr_env) option" where
  "hold_frame c tid seq_no amsdu buf env = do {
     rt \<leftarrow> at (RxTid c) tid;
     idx \<leftarrow> AGGR_WIN_IDX seq_no (hold_q_sz rt);
     hq \<leftarrow> hold_q rt;
     node \<leftarrow> at hq idx;
     let env = (case osbuf node of None \<Rightarrow> env | Some old \<Rightarrow> env\<lparr>freed := freed env @ [old]\<rparr>);
     Some (set_rxtid c tid (rt\<lparr>hold_q := Some
       (hq[idx := \<lparr>osbuf = Some buf, is_amsdu = amsdu, slot_seq_no = seq_no\<rparr>])\<rparr>), env)
   }"

definition holds_frame :: "RXTID \<Rightarrow> bool" where
  "holds_frame rt \<longleftrightarrow> (case hold_q rt of None \<Rightarrow> False | Some hq \<Rightarrow>
     list_ex (\<lambda>n. osbuf n \<noteq> None) (take (hold_q_sz rt) hq))"

definition start_timer :: "AGGR_CONN_INFO \<Rightarrow> nat \<Rightarrow> AGGR_CONN_INFO option" where
  "start_timer c tid = do {
     rt \<leftarrow> at (RxTid c) tid;
     if timerScheduled c then Some (set_rxtid c tid (rt\<lparr>progress := True\<rparr>))
     else if holds_frame rt
     then Some ((set_rxtid c tid (rt\<lparr>progress := False, timerMon := True\<rparr>))
                  \<lparr>timerScheduled := True, timer_armed := True\<rparr>)
     else Some c
   }"

text \<open>
  The last component of the result is what \<open>*osbuf\<close> holds on return: the frame itself when the
  caller is left to deliver it, nothing when the module took it.
\<close>

definition aggr_process_recv_frm :: "AGGR_CONN_INFO \<Rightarrow> nat \<Rightarrow> nat \<Rightarrow> bool \<Rightarrow> netbuf \<Rightarrow> aggr_env \<Rightarrow>
    (AGGR_CONN_INFO \<times> aggr_env \<times> netbuf option) option" where
  "aggr_process_recv_frm c tid seq_no amsdu buf env = do {
     rt \<leftarrow> at (RxTid c) tid;
     if \<not> aggr rt then
       if amsdu then do {
         (rt', env') \<leftarrow> aggr_slice_amsdu rt buf env;
         Some (set_rxtid c tid (rt'\<lparr>rx_q := []\<rparr>), aggr_dispatch_frames c (rx_q rt') env', None)
       }
       else Some (c, env, Some buf)
     else do {
       (c, env) \<leftarrow> shift_window c tid seq_no env;
       (c, env) \<leftarrow> hold_frame c tid seq_no amsdu buf env;
       (c, env) \<leftarrow> aggr_deque_frms c tid 0 CONTIGUOUS_SEQNO env;
       c \<leftarrow> start_timer c tid;
       Some (c, env, None)
     }
   }"

fun reset_tids :: "nat list \<Rightarrow> AGGR_CONN_INFO \<Rightarrow> aggr_env \<Rightarrow> (AGGR_CONN_INFO \<times> aggr_env) option"
where
  "reset_tids [] c env = Some (c, env)"
| "reset_tids (t # ts) c env = do {
     (c, env) \<leftarrow> aggr_delete_tid_state c t env;
     reset_tids ts c env
   }"

definition aggr_reset_state :: "AGGR_CONN_INFO \<Rightarrow> nat option \<Rightarrow> aggr_env \<Rightarrow>
    (AGGR_CONN_INFO \<times> aggr_env) option" where
  "aggr_reset_state c d env = reset_tids [0..<NUM_OF_TIDS] (c\<lparr>aggr_dev := d\<rparr>) env"

subsection \<open>The timer\<close>

fun timeout_flush :: "nat list \<Rightarrow> AGGR_CONN_INFO \<Rightarrow> aggr_env \<Rightarrow> (AGGR_CONN_INFO \<times> aggr_env) option"
where
  "timeout_flush [] c env = Some (c, env)"
| "timeout_flush (i # is) c env = do {
     rt \<leftarrow> at (RxTid c) i;
     if \<not> aggr rt \<or> \<not> timerMon rt \<or> progress rt then timeout_flush is c env
     else do {
       (c, env) \<leftarrow> aggr_deque_frms c i 0 ALL_SEQNO env;
       timeout_flush is c env
     }
   }"

text \<open>
  The scan for a waiting frame counts in an 8-bit \<open>j\<close>.  With more than 255 slots it can only
  see the first 256, and if these are empty it never ends (\<open>None\<close>).
\<close>

partial_function (option) slot_scan :: "OSBUF_HOLD_Q list \<Rightarrow> nat \<Rightarrow> byte \<Rightarrow> bool option" where
  "slot_scan hq sz j =
     (if unat j < sz then
        (case at hq (unat j) of
           None \<Rightarrow> None
         | Some node \<Rightarrow> if osbuf node \<noteq> None then Some True else slot_scan hq sz (1 + j))
      else Some False)"

definition timeout_scan :: "OSBUF_HOLD_Q list \<Rightarrow> nat \<Rightarrow> bool option" where
  "timeout_scan hq sz = slot_scan hq sz 0"

fun timeout_rearm :: "nat list \<Rightarrow> AGGR_CONN_INFO \<Rightarrow> AGGR_CONN_INFO option" where
  "timeout_rearm [] c = Some c"
| "timeout_rearm (i # is) c = do {
     rt \<leftarrow> at (RxTid c) i;
     (case hold_q rt of
        Some hq \<Rightarrow>
          if aggr rt then do {
            found \<leftarrow> timeout_scan hq (hold_q_sz rt);
            timeout_rearm is
              (if found
               then (set_rxtid c i (rt\<lparr>timerMon := True, progress := False\<rparr>))\<lparr>timerScheduled := True\<rparr>
               else set_rxtid c i (rt\<lparr>timerMon := False\<rparr>))
          }
          else timeout_rearm is c
      | None \<Rightarrow> timeout_rearm is c)
   }"

definition aggr_timeout :: "AGGR_CONN_INFO \<Rightarrow> aggr_env \<Rightarrow> (AGGR_CONN_INFO \<times> aggr_env) option" where
  "aggr_timeout c env = do {
     (c, env) \<leftarrow> timeout_flush [0..<NUM_OF_TIDS] c env;
     c \<leftarrow> timeout_rearm [0..<NUM_OF_TIDS] (c\<lparr>timerScheduled := False, timer_armed := False\<rparr>);
     Some (if timerScheduled c then c\<lparr>timer_armed := True\<rparr> else c, env)
   }"

subsection \<open>Teardown\<close>

definition aggr_module_destroy :: "aggr_env \<Rightarrow> aggr_env" where
  "aggr_module_destroy env = (case freeQ env of
       None \<Rightarrow> env
     | Some fq \<Rightarrow> env\<lparr>freeQ := None, freed := freed env @ fq\<rparr>)"

definition aggr_module_destroy_timers :: "AGGR_CONN_INFO \<Rightarrow> AGGR_CONN_INFO" where
  "aggr_module_destroy_timers c =
     (if timerScheduled c then c\<lparr>timer_armed := False, timerScheduled := False\<rparr> else c)"

definition tid_frames :: "RXTID \<Rightarrow> netbuf list" where
  "tid_frames rt = (case hold_q rt of None \<Rightarrow> [] | Some hq \<Rightarrow>
     List.map_filter osbuf (take (hold_q_sz rt) hq))"

definition aggr_module_destroy_conn :: "AGGR_CONN_INFO \<Rightarrow> aggr_env \<Rightarrow> aggr_env" where
  "aggr_module_destroy_conn c env =
     env\<lparr>freed := freed env @ concat (map (\<lambda>rt. tid_frames rt @ rx_q rt) (RxTid c))\<rparr>"

end
