(* ===== verification/ReorderWindow.thy ===== *)
theory ReorderWindow
  imports Reorder
begin

text \<open>
  The receive window of one traffic identifier: the invariant of the ring \<open>hold_q\<close>, the abstract
  reorder buffer it implements, and the proof that the dequeue loop of \<open>aggr_deque_frms\<close>
  releases from the ring exactly what the abstract buffer releases.
\<close>

section \<open>The window invariant\<close>

text \<open>Distance from \<open>a\<close> forward to \<open>b\<close> in the 12-bit sequence space.\<close>

definition sdist :: "nat \<Rightarrow> nat \<Rightarrow> nat" where
  "sdist a b = nat ((int b - int a) mod 4096)"

lemma sdist_eq: "a < 4096 \<Longrightarrow> b < 4096 \<Longrightarrow> sdist a b = (if a \<le> b then b - a else b + 4096 - a)"
proof -
  assume ab: "a < 4096" "b < 4096"
  show ?thesis
  proof (cases "a \<le> b")
    case True
    then have "(int b - int a) mod 4096 = int b - int a" using ab by (intro mod_pos_pos_trivial) auto
    then show ?thesis using True by (simp add: sdist_def)
  next
    case False
    then have "(int b - int a + 4096) mod 4096 = int b - int a + 4096"
      using ab by (intro mod_pos_pos_trivial) auto
    then show ?thesis using False by (simp add: sdist_def)
  qed
qed

lemma sdist_less [simp]: "sdist a b < 4096"
  by (simp add: sdist_def nat_less_iff)

lemma sdist_self [simp]: "sdist a a = 0"
  by (simp add: sdist_def)

lemma sdist_next:
  "a < 4096 \<Longrightarrow> b < 4096 \<Longrightarrow> a \<noteq> b \<Longrightarrow> sdist ((a + 1) mod 4096) b = sdist a b - 1"
  by (cases "a = 4095") (auto simp: sdist_eq)

lemma sdist_add: "a < 4096 \<Longrightarrow> k < 4096 \<Longrightarrow> sdist a ((a + k) mod 4096) = k"
proof -
  assume "a < 4096" "k < 4096"
  then have "int ((a + k) mod 4096) - int a = int k \<or> int ((a + k) mod 4096) - int a = int k - 4096"
    by (cases "a + k < 4096") (auto simp: mod_if)
  then show ?thesis using \<open>k < 4096\<close> by (auto simp: sdist_def)
qed

lemma add_sdist: "a < 4096 \<Longrightarrow> b < 4096 \<Longrightarrow> (a + sdist a b) mod 4096 = b"
  by (auto simp: sdist_eq)

lemma same_slot_same_seq:
  assumes "s < 4096" "a < 4096" "b < 4096" and sz: "sz dvd 4096"
    and "sdist s a < sz" "sdist s b < sz" and eq: "a mod sz = b mod sz"
  shows "a = b"
proof -
  have m: "(s + sdist s a) mod sz = a mod sz" "(s + sdist s b) mod sz = b mod sz"
    using add_sdist [of s a] add_sdist [of s b] assms(1-3) sz
    by (metis mod_mod_cancel)+
  have "(s + sdist s a) mod sz = (s + sdist s b) mod sz"
    by (simp only: m eq)
  then have "(int s + int (sdist s a)) mod int sz = (int s + int (sdist s b)) mod int sz"
    by (metis of_nat_add of_nat_mod)
  then have "int (sdist s a) mod int sz = int (sdist s b) mod int sz"
    by (simp add: mod_eq_dvd_iff)
  then have "sdist s a = sdist s b"
    using assms(5,6) by simp
  then show ?thesis using assms(1-3) add_sdist by metis
qed


definition wf_slots :: "nat \<Rightarrow> nat \<Rightarrow> OSBUF_HOLD_Q list \<Rightarrow> bool" where
  "wf_slots s sz hq \<longleftrightarrow> (\<forall>i < sz. osbuf (hq ! i) \<noteq> None \<longrightarrow>
     slot_seq_no (hq ! i) < 4096 \<and> slot_seq_no (hq ! i) mod sz = i
     \<and> sdist s (slot_seq_no (hq ! i)) < sz)"

text \<open>
  The invariant of a traffic identifier whose block-ack agreement is active: the ring has
  \<open>hold_q_sz\<close> slots, \<open>hold_q_sz\<close> divides the sequence space (the condition the comment in
  \<open>aggr_deque_frms\<close> asks of \<open>win_sz\<close>), and every held frame lies in the window that starts at
  \<open>seq_next\<close>, at the index of its own sequence number.
\<close>

definition wf_rxtid :: "RXTID \<Rightarrow> bool" where
  "wf_rxtid rt \<longleftrightarrow> (case hold_q rt of None \<Rightarrow> False | Some hq \<Rightarrow>
     length hq = hold_q_sz rt \<and> 2 \<le> hold_q_sz rt \<and> hold_q_sz rt dvd 4096 \<and>
     seq_next rt < 4096 \<and> wf_slots (seq_next rt) (hold_q_sz rt) hq)"

definition mpdu_only :: "RXTID \<Rightarrow> bool" where
  "mpdu_only rt \<longleftrightarrow> (case hold_q rt of None \<Rightarrow> True | Some hq \<Rightarrow>
     list_all (\<lambda>n. osbuf n \<noteq> None \<longrightarrow> \<not> is_amsdu n) hq)"

text \<open>The abstract content of the ring: which frame is held for which sequence number.\<close>

definition held :: "RXTID \<Rightarrow> nat \<Rightarrow> netbuf option" where
  "held rt n = (case hold_q rt of None \<Rightarrow> None | Some hq \<Rightarrow>
     (let nd = hq ! (n mod hold_q_sz rt)
      in if slot_seq_no nd = n then osbuf nd else None))"

lemma wf_rxtidE:
  assumes "wf_rxtid rt"
  obtains hq where "hold_q rt = Some hq" "length hq = hold_q_sz rt" "2 \<le> hold_q_sz rt"
    "hold_q_sz rt dvd 4096" "seq_next rt < 4096" "wf_slots (seq_next rt) (hold_q_sz rt) hq"
  using assms by (auto simp: wf_rxtid_def split: option.splits)

lemma wf_slotsD:
  "wf_slots s sz hq \<Longrightarrow> i < sz \<Longrightarrow> osbuf (hq ! i) = Some b \<Longrightarrow>
   slot_seq_no (hq ! i) < 4096 \<and> slot_seq_no (hq ! i) mod sz = i \<and>
   sdist s (slot_seq_no (hq ! i)) < sz"
  by (simp add: wf_slots_def)

lemma window_size_bounds: "sz dvd 4096 \<Longrightarrow> 0 < sz \<and> sz \<le> (4096::nat)"
  using dvd_imp_le by (auto intro: Nat.gr0I)

text \<open>The slot the window starts at holds the window's first frame or nothing.\<close>

lemma head_slot:
  assumes "wf_slots s sz hq" "s < 4096" "sz dvd 4096" "osbuf (hq ! (s mod sz)) = Some b"
  shows "slot_seq_no (hq ! (s mod sz)) = s"
proof -
  have sz: "0 < sz" using assms(3) window_size_bounds by blast
  then have "s mod sz < sz" by simp
  from wf_slotsD [OF assms(1) this assms(4)] show ?thesis
    using same_slot_same_seq [of s "slot_seq_no (hq ! (s mod sz))" s sz] assms(2,3) sz by simp
qed

lemma wf_slots_advance:
  assumes wf: "wf_slots s sz hq" and s: "s < 4096" and sz: "sz dvd 4096"
    and len: "length hq = sz" and nd: "osbuf nd = None"
  shows "wf_slots ((s + 1) mod 4096) sz (hq[s mod sz := nd])"
  unfolding wf_slots_def
proof (intro allI impI)
  fix i assume i: "i < sz" and occ: "osbuf (hq[s mod sz := nd] ! i) \<noteq> None"
  then have ne: "i \<noteq> s mod sz" using nd len by (metis nth_list_update_eq)
  then obtain b where b: "osbuf (hq ! i) = Some b" using occ by auto
  note w = wf_slotsD [OF wf i b]
  have "slot_seq_no (hq ! i) \<noteq> s" using w ne by auto
  then show "slot_seq_no (hq[s mod sz := nd] ! i) < 4096 \<and>
      slot_seq_no (hq[s mod sz := nd] ! i) mod sz = i \<and>
      sdist ((s + 1) mod 4096) (slot_seq_no (hq[s mod sz := nd] ! i)) < sz"
    using w ne s sdist_next [of s "slot_seq_no (hq ! i)"] by auto
qed

lemma held_update:
  assumes "hold_q rt = Some hq" "length hq = hold_q_sz rt" "0 < hold_q_sz rt" "wf_slots s (hold_q_sz rt) hq"
    "s < 4096" "hold_q_sz rt dvd 4096"
  shows "held (rt\<lparr>hold_q := Some (hq[s mod hold_q_sz rt :=
           (hq ! (s mod hold_q_sz rt))\<lparr>osbuf := None\<rparr>])\<rparr>) = (held rt)(s := None)"
proof
  fix n
  let ?sz = "hold_q_sz rt" and ?i = "s mod hold_q_sz rt"
  have i: "?i < length hq" using assms by simp
  show "held (rt\<lparr>hold_q := Some (hq[?i := (hq ! ?i)\<lparr>osbuf := None\<rparr>])\<rparr>) n = ((held rt)(s := None)) n"
  proof (cases "n mod ?sz = ?i")
    case True
    then show ?thesis
      using i head_slot [OF assms(4,5,6)] assms(1)
      by (cases "osbuf (hq ! ?i)") (auto simp: held_def Let_def)
  next
    case False
    then show ?thesis using assms(1) by (auto simp: held_def Let_def)
  qed
qed


section \<open>The abstract reorder buffer\<close>

text \<open>
  What the module promises, without ring, indices or loops: the next sequence number to release,
  the frames held by sequence number, and the frames released so far.  \<open>pop\<close> passes one sequence
  number, releasing its frame when there is one.
\<close>

type_synonym reorder = "nat \<times> (nat \<Rightarrow> netbuf option) \<times> netbuf list"

definition pop :: "reorder \<Rightarrow> reorder" where
  "pop = (\<lambda>(s, H, out). ((s + 1) mod 4096, H(s := None),
            out @ (case H s of None \<Rightarrow> [] | Some b \<Rightarrow> [b])))"

fun release :: "nat \<Rightarrow> reorder \<Rightarrow> reorder" where
  "release 0 a = a"
| "release (Suc k) a = release k (pop a)"

fun release_run :: "nat \<Rightarrow> reorder \<Rightarrow> reorder" where
  "release_run 0 a = a"
| "release_run (Suc k) a =
     (case a of (s, H, out) \<Rightarrow> if H s = None then a else release_run k (pop a))"

definition spec_flush :: "nat \<Rightarrow> nat \<Rightarrow> reorder \<Rightarrow> reorder" where
  "spec_flush sz seq_no a = (case a of (s, H, out) \<Rightarrow>
     (let d = (if seq_no = 0 then 0 else nat ((int seq_no - int s) mod int sz))
      in release (if d = 0 then sz else d) a))"

definition spec_shift :: "nat \<Rightarrow> nat \<Rightarrow> reorder \<Rightarrow> reorder" where
  "spec_shift sz n a = (case a of (s, H, out) \<Rightarrow>
     if sdist s n < sz then a
     else if sdist s n \<le> 2 * sz - 2
     then spec_flush sz (nat ((int n - int sz + 1) mod 4096)) a
     else (case spec_flush sz 0 a of (s', H', out') \<Rightarrow> (nat ((int n - int sz + 1) mod 4096), H', out')))"

text \<open>What the code does: a window that would start at 0 is flushed as a whole, as 0 stands for no number.\<close>

definition spec_take :: "nat \<Rightarrow> nat \<Rightarrow> netbuf \<Rightarrow> reorder \<Rightarrow> reorder" where
  "spec_take sz n b a = (case spec_shift sz n a of (s, H, out) \<Rightarrow>
     release_run sz (s, H(n := Some b), out))"

text \<open>
  What the comments in \<open>aggr_process_recv_frm\<close> ask for.  A frame that is a duplicate of a held one, or
  precedes the window (its number is in the half of the sequence space behind it), is dropped.
  A frame beyond the window moves the window forward until the frame is its last, and exactly the frames that fall
  out of it are released; a frame beyond twice the window releases all and starts a fresh window.
\<close>

definition spec_slide :: "nat \<Rightarrow> nat \<Rightarrow> reorder \<Rightarrow> reorder" where
  "spec_slide sz n a = (case a of (s, H, out) \<Rightarrow>
     if sdist s n < sz then a
     else if sdist s n \<le> 2 * sz - 2 then release (sdist s n + 1 - sz) a
     else (case release sz a of (s', H', out') \<Rightarrow> (nat ((int n - int sz + 1) mod 4096), H', out')))"

definition spec_recv :: "nat \<Rightarrow> nat \<Rightarrow> netbuf \<Rightarrow> reorder \<Rightarrow> reorder" where
  "spec_recv sz n b a = (case a of (s, H, out) \<Rightarrow>
     if H n \<noteq> None \<or> 2048 \<le> sdist s n then a
     else (case spec_slide sz n a of (s, H, out) \<Rightarrow> release_run sz (s, H(n := Some b), out)))"

definition abs_rxtid :: "RXTID \<Rightarrow> reorder" where
  "abs_rxtid rt = (seq_next rt, held rt, rx_q rt)"

subsection \<open>One pass of the dequeue loop\<close>

definition advance :: "RXTID \<Rightarrow> RXTID" where
  "advance rt = (case hold_q rt of None \<Rightarrow> rt | Some hq \<Rightarrow>
     (let i = seq_next rt mod hold_q_sz rt
      in rt\<lparr>rx_q := rx_q rt @ (case osbuf (hq ! i) of None \<Rightarrow> [] | Some b \<Rightarrow> [b]),
            hold_q := Some (hq[i := (hq ! i)\<lparr>osbuf := None\<rparr>]),
            seq_next := IEEE80211_NEXT_SEQ_NO (seq_next rt)\<rparr>))"

lemma advance_simps [simp]:
  "hold_q_sz (advance rt) = hold_q_sz rt" "aggr (advance rt) = aggr rt"
  "progress (advance rt) = progress rt" "timerMon (advance rt) = timerMon rt"
  "win_sz (advance rt) = win_sz rt"
  by (auto simp: advance_def Let_def split: option.splits)

lemma seq_next_advance: "wf_rxtid rt \<Longrightarrow> seq_next (advance rt) = (seq_next rt + 1) mod 4096"
  by (auto elim!: wf_rxtidE simp: advance_def Let_def IEEE80211_NEXT_SEQ_NO_def)

lemma held_head:
  assumes "wf_rxtid rt" and "hold_q rt = Some hq"
  shows "osbuf (hq ! (seq_next rt mod hold_q_sz rt)) = held rt (seq_next rt)"
  using assms head_slot [of "seq_next rt" "hold_q_sz rt" hq]
  by (cases "osbuf (hq ! (seq_next rt mod hold_q_sz rt))") (auto elim!: wf_rxtidE simp: held_def Let_def)

lemma wf_advance [intro]: "wf_rxtid rt \<Longrightarrow> wf_rxtid (advance rt)"
proof (erule wf_rxtidE)
  fix hq assume hq: "hold_q rt = Some hq" "length hq = hold_q_sz rt" "2 \<le> hold_q_sz rt"
    "hold_q_sz rt dvd 4096" "seq_next rt < 4096" "wf_slots (seq_next rt) (hold_q_sz rt) hq"
  show "wf_rxtid (advance rt)"
    using hq wf_slots_advance [OF hq(6,5,4,2)]
    by (simp add: wf_rxtid_def advance_def Let_def IEEE80211_NEXT_SEQ_NO_def)
qed

lemma mpdu_only_advance [intro]: "wf_rxtid rt \<Longrightarrow> mpdu_only rt \<Longrightarrow> mpdu_only (advance rt)"
  by (auto elim!: wf_rxtidE simp: advance_def mpdu_only_def Let_def list_all_length nth_list_update)

lemma abs_advance: "wf_rxtid rt \<Longrightarrow> abs_rxtid (advance rt) = pop (abs_rxtid rt)"
proof (erule wf_rxtidE)
  fix hq assume wf: "hold_q rt = Some hq" "length hq = hold_q_sz rt" "2 \<le> hold_q_sz rt"
    "hold_q_sz rt dvd 4096" "seq_next rt < 4096" "wf_slots (seq_next rt) (hold_q_sz rt) hq"
  then have w: "wf_rxtid rt" by (simp add: wf_rxtid_def)
  have "held (advance rt) = (held rt)(seq_next rt := None)"
    using held_update [OF wf(1,2) _ wf(6,5,4)] wf
    by (simp add: advance_def Let_def held_def fun_eq_iff)
  then show ?thesis
    using wf held_head [OF w wf(1)]
    by (simp add: abs_rxtid_def pop_def advance_def Let_def IEEE80211_NEXT_SEQ_NO_def)
qed

lemma mod_4096_mod: "sz dvd 4096 \<Longrightarrow> (n mod 4096) mod sz = n mod (sz::nat)"
  by (rule mod_mod_cancel)

lemma deque_step:
  assumes wf: "wf_rxtid rt" and mp: "mpdu_only rt" and fuel: "0 < fuel"
  shows "deque_loop fuel order (seq_next rt mod hold_q_sz rt) e rt env =
    (if order = CONTIGUOUS_SEQNO \<and> held rt (seq_next rt) = None then Some (rt, env)
     else let i' = seq_next (advance rt) mod hold_q_sz rt in
       if i' \<noteq> e then deque_loop (fuel - 1) order i' e (advance rt) env
       else Some (advance rt, env))"
proof -
  from wf obtain hq where hq: "hold_q rt = Some hq" "length hq = hold_q_sz rt" "2 \<le> hold_q_sz rt"
    by (auto elim: wf_rxtidE)
  let ?i = "seq_next rt mod hold_q_sz rt"
  have i: "?i < length hq" using hq by simp
  have hd: "osbuf (hq ! ?i) = held rt (seq_next rt)" by (rule held_head [OF wf hq(1)])
  have mpdu: "osbuf (hq ! ?i) = Some b \<Longrightarrow> \<not> is_amsdu (hq ! ?i)" for b
    using mp hq(1) i by (auto simp: mpdu_only_def list_all_length)
  show ?thesis
  proof (cases "osbuf (hq ! ?i)")
    case None
    then have "(hq ! ?i)\<lparr>osbuf := None\<rparr> = hq ! ?i" by simp
    then have "hq[?i := (hq ! ?i)\<lparr>osbuf := None\<rparr>] = hq" using i by (metis list_update_id)
    moreover have same: "rt\<lparr>hold_q := Some hq\<rparr> = rt"
      using hq(1) by (cases rt) simp
    ultimately show ?thesis
      using fuel hq i hd None
      by (subst deque_loop.simps) (simp add: same advance_def Let_def AGGR_WIN_IDX_def)
  next
    case (Some b)
    then show ?thesis
      using fuel hq i hd mpdu
      by (subst deque_loop.simps) (simp add: advance_def Let_def AGGR_WIN_IDX_def)
  qed
qed


lemma next_idx_ne:
  assumes "1 < k" "k \<le> sz" "(0::nat) < sz"
  shows "(s + 1) mod sz \<noteq> (s + k) mod sz"
proof
  assume eq: "(s + 1) mod sz = (s + k) mod sz"
  then have "(int s + 1) mod int sz = (int s + int k) mod int sz"
    by (metis of_nat_1 of_nat_add of_nat_mod)
  then have "int sz dvd int k - 1"
    by (simp add: mod_eq_dvd_iff dvd_diff_commute)
  then show False using assms zdvd_imp_le by fastforce
qed

lemma deque_loop_all:
  assumes "wf_rxtid rt" "mpdu_only rt" "1 \<le> k" "k \<le> hold_q_sz rt" "k \<le> fuel"
    and "e = (seq_next rt + k) mod hold_q_sz rt"
  shows "deque_loop fuel ALL_SEQNO (seq_next rt mod hold_q_sz rt) e rt env
           = Some ((advance ^^ k) rt, env)"
  using assms
proof (induction k arbitrary: rt fuel)
  case 0
  then show ?case by simp
next
  case (Suc k)
  note wf = Suc.prems(1) and mp = Suc.prems(2)
  have sz: "hold_q_sz rt dvd 4096" "0 < hold_q_sz rt" using wf by (auto elim: wf_rxtidE)
  have idx: "seq_next (advance rt) mod hold_q_sz rt = (seq_next rt + 1) mod hold_q_sz rt"
    using seq_next_advance [OF wf] mod_4096_mod [OF sz(1)] by simp
  have step: "deque_loop fuel ALL_SEQNO (seq_next rt mod hold_q_sz rt) e rt env =
      (if (seq_next rt + 1) mod hold_q_sz rt \<noteq> e
       then deque_loop (fuel - 1) ALL_SEQNO (seq_next (advance rt) mod hold_q_sz (advance rt)) e (advance rt) env
       else Some (advance rt, env))"
    using deque_step [OF wf mp, of fuel] Suc.prems(5) by (simp add: idx Let_def)
  show ?case
  proof (cases "k = 0")
    case True
    then show ?thesis using step Suc.prems(6) by simp
  next
    case False
    then have ne: "(seq_next rt + 1) mod hold_q_sz rt \<noteq> e"
      using Suc.prems next_idx_ne [of "Suc k" "hold_q_sz rt" "seq_next rt"] by simp
    have e: "e = (seq_next (advance rt) + k) mod hold_q_sz (advance rt)"
      using Suc.prems(6) idx by (metis add.assoc add.commute add_Suc_right advance_simps(1)
          mod_add_left_eq plus_1_eq_Suc)
    have "deque_loop (fuel - 1) ALL_SEQNO (seq_next (advance rt) mod hold_q_sz (advance rt)) e
            (advance rt) env = Some ((advance ^^ k) (advance rt), env)"
      by (rule Suc.IH) (use Suc.prems False wf mp e in auto)
    then show ?thesis
      using step ne by (simp only: if_True not_False_eq_True simp_thms funpow_Suc_right o_apply)
  qed
qed

lemma deque_loop_contiguous:
  assumes "wf_rxtid rt" "mpdu_only rt" "1 \<le> k" "k \<le> hold_q_sz rt" "k \<le> fuel"
    and "e = (seq_next rt + k) mod hold_q_sz rt"
  shows "\<exists>m\<le>k. deque_loop fuel CONTIGUOUS_SEQNO (seq_next rt mod hold_q_sz rt) e rt env
           = Some ((advance ^^ m) rt, env)
         \<and> release_run k (abs_rxtid rt) = release m (abs_rxtid rt)"
  using assms
proof (induction k arbitrary: rt fuel)
  case 0
  then show ?case by simp
next
  case (Suc k)
  note wf = Suc.prems(1) and mp = Suc.prems(2)
  have sz: "hold_q_sz rt dvd 4096" "0 < hold_q_sz rt" using wf by (auto elim: wf_rxtidE)
  have idx: "seq_next (advance rt) mod hold_q_sz rt = (seq_next rt + 1) mod hold_q_sz rt"
    using seq_next_advance [OF wf] mod_4096_mod [OF sz(1)] by simp
  show ?case
  proof (cases "held rt (seq_next rt)")
    case None
    then show ?thesis
      using deque_step [OF wf mp, of fuel] Suc.prems(5)
      by (intro exI [of _ 0]) (simp add: abs_rxtid_def)
  next
    case (Some b)
    have step: "deque_loop fuel CONTIGUOUS_SEQNO (seq_next rt mod hold_q_sz rt) e rt env =
      (if (seq_next rt + 1) mod hold_q_sz rt \<noteq> e
       then deque_loop (fuel - 1) CONTIGUOUS_SEQNO (seq_next (advance rt) mod hold_q_sz (advance rt)) e (advance rt) env
       else Some (advance rt, env))"
      using deque_step [OF wf mp, of fuel] Suc.prems(5) Some by (simp add: idx Let_def)
    have run: "release_run (Suc j) (abs_rxtid rt) = release_run j (abs_rxtid (advance rt))" for j
      using Some abs_advance [OF wf] by (simp add: abs_rxtid_def)
    have rel: "release (Suc j) (abs_rxtid rt) = release j (abs_rxtid (advance rt))" for j
      using abs_advance [OF wf] by simp
    show ?thesis
    proof (cases "k = 0")
      case True
      then show ?thesis using step Suc.prems(6) run [of 0] rel [of 0]
        by (intro exI [of _ 1]) simp
    next
      case False
      then have ne: "(seq_next rt + 1) mod hold_q_sz rt \<noteq> e"
        using Suc.prems next_idx_ne [of "Suc k" "hold_q_sz rt" "seq_next rt"] by simp
      have e: "e = (seq_next (advance rt) + k) mod hold_q_sz (advance rt)"
        using Suc.prems(6) idx by (metis add.assoc add.commute add_Suc_right advance_simps(1)
            mod_add_left_eq plus_1_eq_Suc)
      have "\<exists>m\<le>k. deque_loop (fuel - 1) CONTIGUOUS_SEQNO (seq_next (advance rt) mod hold_q_sz (advance rt)) e
            (advance rt) env = Some ((advance ^^ m) (advance rt), env)
            \<and> release_run k (abs_rxtid (advance rt)) = release m (abs_rxtid (advance rt))"
        by (rule Suc.IH) (use Suc.prems False wf mp e in auto)
      then obtain m where m: "m \<le> k" "deque_loop (fuel - 1) CONTIGUOUS_SEQNO
            (seq_next (advance rt) mod hold_q_sz (advance rt)) e (advance rt) env
            = Some ((advance ^^ m) (advance rt), env)"
          "release_run k (abs_rxtid (advance rt)) = release m (abs_rxtid (advance rt))"
        by blast
      show ?thesis
        by (rule exI [of _ "Suc m"])
          (use m step ne run [of k] rel [of m] in \<open>simp only: if_True not_False_eq_True simp_thms
             funpow_Suc_right o_apply Suc_le_mono\<close>)
    qed
  qed
qed

lemma funpow_advance:
  assumes "wf_rxtid rt" "mpdu_only rt"
  shows "wf_rxtid ((advance ^^ k) rt) \<and> mpdu_only ((advance ^^ k) rt)
       \<and> abs_rxtid ((advance ^^ k) rt) = release k (abs_rxtid rt)
       \<and> hold_q_sz ((advance ^^ k) rt) = hold_q_sz rt \<and> aggr ((advance ^^ k) rt) = aggr rt
       \<and> progress ((advance ^^ k) rt) = progress rt \<and> timerMon ((advance ^^ k) rt) = timerMon rt
       \<and> win_sz ((advance ^^ k) rt) = win_sz rt"
  using assms
proof (induction k arbitrary: rt)
  case (Suc k)
  then have "wf_rxtid (advance rt)" "mpdu_only (advance rt)" by auto
  from Suc.IH [OF this] show ?case
    using abs_advance [OF Suc.prems(1)] by (simp add: funpow_swap1)
qed simp


subsection \<open>Facts about the abstract buffer\<close>

definition prefix_out :: "netbuf list \<Rightarrow> reorder \<Rightarrow> reorder" where
  "prefix_out p a = (case a of (s, H, out) \<Rightarrow> (s, H, p @ out))"

lemma prefix_out_simps [simp]:
  "prefix_out [] a = a" "prefix_out p (s, H, out) = (s, H, p @ out)"
  "fst (prefix_out p a) = fst a" "fst (snd (prefix_out p a)) = fst (snd a)"
  by (cases a; simp add: prefix_out_def)+

lemma pop_prefix: "pop (prefix_out p a) = prefix_out p (pop a)"
  by (cases a) (simp add: pop_def split: option.splits)

lemma release_prefix: "release k (prefix_out p a) = prefix_out p (release k a)"
  by (induction k arbitrary: a) (simp_all add: pop_prefix)

lemma release_run_prefix: "release_run k (prefix_out p a) = prefix_out p (release_run k a)"
proof (induction k arbitrary: a)
  case (Suc k)
  obtain s H out where a: "a = (s, H, out)" by (cases a)
  show ?case
    using Suc.IH [of "pop a"] pop_prefix [of p a] by (simp add: a)
qed simp

lemma map_filter_map_cong:
  "(\<And>x. x \<in> set xs \<Longrightarrow> f (g x) = f' (g' x)) \<Longrightarrow>
   List.map_filter f (map g xs) = List.map_filter f' (map g' xs)"
  by (induction xs) (auto simp: List.map_filter_simps split: option.splits)

lemma release_out:
  "s < 4096 \<Longrightarrow> k \<le> 4096 \<Longrightarrow>
   release k (s, H, out) =
     ((s + k) mod 4096, (\<lambda>n. if n < 4096 \<and> sdist s n < k then None else H n),
      out @ List.map_filter H (map (\<lambda>i. (s + i) mod 4096) [0..<k]))"
proof (induction k arbitrary: s H out)
  case 0
  then show ?case by (simp add: List.map_filter_def)
next
  case (Suc k)
  let ?s = "(s + 1) mod 4096"
  let ?H = "H(s := None)"
  have IH: "release k (?s, ?H, out') =
     ((?s + k) mod 4096, (\<lambda>n. if n < 4096 \<and> sdist ?s n < k then None else ?H n),
      out' @ List.map_filter ?H (map (\<lambda>i. (?s + i) mod 4096) [0..<k]))" for out'
    by (rule Suc.IH) (use Suc.prems in simp_all)
  have H: "(\<lambda>n. if n < 4096 \<and> sdist ?s n < k then None else ?H n) =
      (\<lambda>n. if n < 4096 \<and> sdist s n < Suc k then None else H n)"
  proof
    fix n
    show "(if n < 4096 \<and> sdist ?s n < k then None else ?H n) =
        (if n < 4096 \<and> sdist s n < Suc k then None else H n)"
    proof (cases "n = s")
      case True then show ?thesis using Suc.prems by simp
    next
      case False
      then have "n < 4096 \<Longrightarrow> sdist ?s n = sdist s n - 1 \<and> 0 < sdist s n"
        using Suc.prems sdist_next [of s n] sdist_eq [of s n] by (auto split: if_splits)
      then show ?thesis using False by auto
    qed
  qed
  have keep: "?H ((?s + i) mod 4096) = H ((s + Suc i) mod 4096)" if "i < k" for i
  proof -
    have "sdist s ((s + Suc i) mod 4096) = Suc i"
      by (rule sdist_add) (use that Suc.prems in auto)
    then have "(s + Suc i) mod 4096 \<noteq> s" by (metis nat.distinct(1) sdist_self)
    then show ?thesis by (simp add: mod_add_left_eq)
  qed
  have L: "map (\<lambda>i. (s + i) mod 4096) [0..<Suc k] = s # map (\<lambda>i. (s + Suc i) mod 4096) [0..<k]"
    using Suc.prems by (simp add: upt_conv_Cons map_Suc_upt [symmetric] del: upt_Suc map_Suc_upt)
  have "List.map_filter ?H (map (\<lambda>i. (?s + i) mod 4096) [0..<k]) =
      List.map_filter H (map (\<lambda>i. (s + Suc i) mod 4096) [0..<k])"
    by (rule map_filter_map_cong) (use keep in simp)
  then show ?case
    using IH H L by (simp add: pop_def List.map_filter_simps mod_add_left_eq split: option.splits)
qed


section \<open>The ring implements the abstract buffer\<close>

lemma window_end_eq: "s < 4096 \<Longrightarrow> 0 < sz \<Longrightarrow> sz \<le> 4096 \<Longrightarrow>
  window_end s sz = (if s + sz \<le> 4096 then s + sz - 1 else s + sz - 4097)"
proof -
  assume a: "s < 4096" "0 < sz" "sz \<le> 4096"
  show ?thesis
  proof (cases "s + sz \<le> 4096")
    case True
    then have "(int s + int sz - 1) mod 4096 = int s + int sz - 1"
      using a by (intro mod_pos_pos_trivial) auto
    then show ?thesis using True by (simp add: window_end_def nat_diff_distrib' nat_add_distrib)
  next
    case False
    then have "(int s + int sz - 1) mod 4096 = (int s + int sz - 1 - 4096) mod 4096"
      by (subst minus_mod_self2) (rule refl)
    also have "\<dots> = int s + int sz - 1 - 4096"
      using a False by (intro mod_pos_pos_trivial) auto
    finally show ?thesis using False by (simp add: window_end_def)
  qed
qed

lemma out_of_window_iff:
  assumes "s < 4096" "n < 4096" "2 \<le> sz" "sz \<le> 4096"
  shows "out_of_window s (window_end s sz) n \<longleftrightarrow> \<not> sdist s n < sz"
  using assms by (auto simp: out_of_window_def window_end_eq sdist_eq)

lemma window_end_less: "s < 4096 \<Longrightarrow> 0 < sz \<Longrightarrow> sz \<le> 4096 \<Longrightarrow> window_end s sz < 4096"
  by (auto simp: window_end_eq)

lemma sdist_window_end:
  assumes "s < 4096" "n < 4096" "2 \<le> sz" "sz \<le> 4096" "\<not> sdist s n < sz"
  shows "sdist (window_end s sz) n = sdist s n - (sz - 1)"
  using assms window_end_less [of s sz] by (auto simp: window_end_eq sdist_eq split: if_splits)

lemma window_ending_at_eq:
  assumes "n < 4096" "2 \<le> sz" "sz \<le> 4096"
  shows "window_ending_at n sz = nat ((int n - int sz + 1) mod 4096)"
proof (cases "sz - 1 \<le> n")
  case True
  then have "(int n - int sz + 1) mod 4096 = int n - int sz + 1"
    using assms by (intro mod_pos_pos_trivial) auto
  then show ?thesis using True assms by (auto simp: window_ending_at_def cint algebra_simps)
next
  case False
  have "(int n - int sz + 1) mod 4096 = (int n - int sz + 1 + 4096) mod 4096"
    by (subst mod_add_self2) (rule refl)
  also have "\<dots> = int n - int sz + 1 + 4096"
    using False assms by (intro mod_pos_pos_trivial) auto
  finally show ?thesis using False assms by (auto simp: window_ending_at_def cint algebra_simps)
qed

lemma window_ending_at_less: "n < 4096 \<Longrightarrow> 2 \<le> sz \<Longrightarrow> sz \<le> 4096 \<Longrightarrow> window_ending_at n sz < 4096"
  by (simp add: window_ending_at_eq nat_less_iff)

lemma wf_clear_rx_q [simp]: "wf_rxtid (rt\<lparr>rx_q := q\<rparr>) = wf_rxtid rt"
    "mpdu_only (rt\<lparr>rx_q := q\<rparr>) = mpdu_only rt" "held (rt\<lparr>rx_q := q\<rparr>) = held rt"
  by (cases "hold_q rt"; simp add: wf_rxtid_def mpdu_only_def held_def fun_eq_iff)+

text \<open>What a step of a traffic identifier keeps: \<open>rt'\<close> differs from \<open>rt\<close> in its ring only.\<close>

definition same_agreement :: "RXTID \<Rightarrow> RXTID \<Rightarrow> bool" where
  "same_agreement rt rt' \<longleftrightarrow> hold_q_sz rt' = hold_q_sz rt \<and> aggr rt' = aggr rt \<and>
     progress rt' = progress rt \<and> timerMon rt' = timerMon rt \<and> win_sz rt' = win_sz rt"

definition refines :: "RXTID \<Rightarrow> netbuf list \<Rightarrow> RXTID \<Rightarrow> reorder \<Rightarrow> bool" where
  "refines rt out rt' a \<longleftrightarrow> wf_rxtid rt' \<and> mpdu_only rt' \<and> rx_q rt' = [] \<and>
     same_agreement rt rt' \<and> a = (seq_next rt', held rt', out)"

lemma deque_result:
  assumes "wf_rxtid rt" "mpdu_only rt" "rx_q rt = []"
    and "deque_loop 4096 order (seq_next rt mod hold_q_sz rt) e rt env = Some ((advance ^^ k) rt, env)"
    and "AGGR_WIN_IDX (if n \<noteq> 0 then n else seq_next rt) (hold_q_sz rt) = Some e"
  shows "\<exists>out rt'. deque_rxtid c rt n order env = Some (rt', aggr_dispatch_frames c out env) \<and>
           refines rt out rt' (release k (abs_rxtid rt))"
proof (intro exI conjI)
  let ?rt = "(advance ^^ k) rt"
  note f = funpow_advance [OF assms(1,2), of k]
  have sz: "0 < hold_q_sz rt" using assms(1) by (auto elim: wf_rxtidE)
  show "deque_rxtid c rt n order env =
      Some (?rt\<lparr>rx_q := []\<rparr>, aggr_dispatch_frames c (rx_q ?rt) env)"
    using assms(4,5) sz by (simp add: deque_rxtid_def AGGR_WIN_IDX_def split: if_splits)
  show "refines rt (rx_q ?rt) (?rt\<lparr>rx_q := []\<rparr>) (release k (abs_rxtid rt))"
    using f by (auto simp: refines_def same_agreement_def abs_rxtid_def)
qed

lemma deque_rxtid_flush:
  assumes "wf_rxtid rt" "mpdu_only rt" "rx_q rt = []"
  shows "\<exists>out rt'. deque_rxtid c rt n ALL_SEQNO env = Some (rt', aggr_dispatch_frames c out env) \<and>
           refines rt out rt' (spec_flush (hold_q_sz rt) n (abs_rxtid rt))"
proof -
  let ?sz = "hold_q_sz rt" and ?s = "seq_next rt"
  define d where "d = (if n = 0 then 0 else nat ((int n - int ?s) mod int ?sz))"
  define k where "k = (if d = 0 then ?sz else d)"
  have sz: "2 \<le> ?sz" "?sz \<le> 4096"
    using assms(1) window_size_bounds by (auto elim: wf_rxtidE)
  have "int d < int ?sz" using sz by (auto simp: d_def nat_less_iff)
  then have k: "1 \<le> k" "k \<le> ?sz" using sz by (auto simp: k_def)
  have "(if n \<noteq> 0 then n else ?s) mod ?sz = (?s + k) mod ?sz"
  proof (cases "n = 0")
    case False
    then have "int d = (int n - int ?s) mod int ?sz" using sz by (simp add: d_def)
    then have "int ((?s + d) mod ?sz) = int (n mod ?sz)"
      by (simp add: zmod_int mod_add_right_eq)
    then show ?thesis using False by (auto simp: k_def)
  qed (simp add: k_def d_def)
  then have e: "AGGR_WIN_IDX (if n \<noteq> 0 then n else ?s) ?sz = Some ((?s + k) mod ?sz)"
    using sz by (simp add: AGGR_WIN_IDX_def)
  have "deque_loop 4096 ALL_SEQNO (?s mod ?sz) ((?s + k) mod ?sz) rt env = Some ((advance ^^ k) rt, env)"
    by (rule deque_loop_all) (use assms k sz in auto)
  moreover have "spec_flush ?sz n (abs_rxtid rt) = release k (abs_rxtid rt)"
    by (simp add: spec_flush_def abs_rxtid_def k_def d_def Let_def)
  ultimately show ?thesis using deque_result [OF assms _ e] by simp
qed

lemma deque_rxtid_run:
  assumes "wf_rxtid rt" "mpdu_only rt" "rx_q rt = []"
  shows "\<exists>out rt'. deque_rxtid c rt 0 CONTIGUOUS_SEQNO env = Some (rt', aggr_dispatch_frames c out env) \<and>
           refines rt out rt' (release_run (hold_q_sz rt) (abs_rxtid rt))"
proof -
  let ?sz = "hold_q_sz rt" and ?s = "seq_next rt"
  have sz: "2 \<le> ?sz" "?sz \<le> 4096"
    using assms(1) window_size_bounds by (auto elim: wf_rxtidE)
  obtain m where m: "deque_loop 4096 CONTIGUOUS_SEQNO (?s mod ?sz) (?s mod ?sz) rt env
        = Some ((advance ^^ m) rt, env)"
      "release_run ?sz (abs_rxtid rt) = release m (abs_rxtid rt)"
    using deque_loop_contiguous [of rt ?sz 4096 "?s mod ?sz" env] assms sz by auto
  have e: "AGGR_WIN_IDX (if (0::nat) \<noteq> 0 then 0 else ?s) ?sz = Some (?s mod ?sz)"
    using sz by (simp add: AGGR_WIN_IDX_def)
  from deque_result [OF assms m(1) e] show ?thesis by (simp add: m(2))
qed

end
