(* ===== verification/ReorderProps.thy ===== *)
theory ReorderProps
  imports ReorderWindow
begin

text \<open>
  The receive reordering of a whole connection: \<open>aggr_process_recv_frm\<close> refines the abstract
  reorder buffer, and every operation keeps the connection invariant.
\<close>

subsection \<open>Connections\<close>

lemma set_rxtid_simps [simp]:
  "aggr_dev (set_rxtid c t rt) = aggr_dev c" "timerScheduled (set_rxtid c t rt) = timerScheduled c"
  "timer_armed (set_rxtid c t rt) = timer_armed c" "aggr_sz (set_rxtid c t rt) = aggr_sz c"
  "RxTid (set_rxtid c t rt) = (RxTid c)[t := rt]"
  "set_rxtid (set_rxtid c t rt) t rt2 = set_rxtid c t rt2"
  by (simp_all add: set_rxtid_def)

lemma dispatch_dev [simp]: "aggr_dispatch_frames (set_rxtid c t rt) = aggr_dispatch_frames c"
  by (simp add: aggr_dispatch_frames_def fun_eq_iff)

lemma dispatch_dispatch:
  "aggr_dispatch_frames c q2 (aggr_dispatch_frames c q1 env) = aggr_dispatch_frames c (q1 @ q2) env"
  by (simp add: aggr_dispatch_frames_def split: option.splits)

lemma dispatch_nil [simp]: "aggr_dispatch_frames c [] env = env"
  by (simp add: aggr_dispatch_frames_def split: option.splits)

lemma aggr_deque_frms_Some:
  assumes "tid < length (RxTid c)" and "deque_rxtid c (RxTid c ! tid) n order env = Some (rt', env')"
  shows "aggr_deque_frms c tid n order env = Some (set_rxtid c tid rt', env')"
  using assms by (simp add: aggr_deque_frms_def)

lemma same_agreement_trans:
  "same_agreement a b \<Longrightarrow> same_agreement b d \<Longrightarrow> same_agreement a d"
  by (simp add: same_agreement_def)

lemma held_in_window:
  assumes "wf_rxtid rt" "held rt n = Some b" and "n < 4096"
  shows "sdist (seq_next rt) n < hold_q_sz rt"
proof -
  from assms(1) obtain hq where hq: "hold_q rt = Some hq" "2 \<le> hold_q_sz rt"
      "wf_slots (seq_next rt) (hold_q_sz rt) hq"
    by (auto elim: wf_rxtidE)
  then show ?thesis
    using assms(2) wf_slotsD [OF hq(3), of "n mod hold_q_sz rt"]
    by (auto simp: held_def Let_def split: if_splits)
qed

lemma wf_rxtid_restart:
  assumes wf: "wf_rxtid rt" and none: "\<And>n. n < 4096 \<Longrightarrow> held rt n = None" and s: "s < 4096"
  shows "wf_rxtid (rt\<lparr>seq_next := s\<rparr>)"
proof -
  from wf obtain hq where hq: "hold_q rt = Some hq" "length hq = hold_q_sz rt" "2 \<le> hold_q_sz rt"
    "hold_q_sz rt dvd 4096" "wf_slots (seq_next rt) (hold_q_sz rt) hq"
    by (auto elim: wf_rxtidE)
  have "osbuf (hq ! i) = None" if i: "i < hold_q_sz rt" for i
  proof (rule ccontr)
    assume "osbuf (hq ! i) \<noteq> None"
    then obtain b where b: "osbuf (hq ! i) = Some b" by auto
    from wf_slotsD [OF hq(5) i b] none [of "slot_seq_no (hq ! i)"] show False
      using b hq(1) by (auto simp: held_def Let_def)
  qed
  then show ?thesis using hq s by (simp add: wf_rxtid_def wf_slots_def)
qed

lemma refines_flush_empty:
  assumes "wf_rxtid rt" "refines rt out rt' (spec_flush (hold_q_sz rt) 0 (abs_rxtid rt))" "n < 4096"
  shows "held rt' n = None"
proof -
  have s: "seq_next rt < 4096" "hold_q_sz rt \<le> 4096"
    using assms(1) window_size_bounds by (auto elim: wf_rxtidE)
  then have "held rt' = (\<lambda>n. if n < 4096 \<and> sdist (seq_next rt) n < hold_q_sz rt then None else held rt n)"
    using assms(2) by (simp add: refines_def spec_flush_def abs_rxtid_def release_out)
  then show ?thesis using held_in_window [OF assms(1)] assms(3)
    by (cases "held rt n") auto
qed

lemma sdist_shift:
  "k \<le> sdist s n \<Longrightarrow> sdist ((s + k) mod 4096) n = sdist s n - k"
proof -
  assume k: "k \<le> sdist s n"
  have "(int n - int ((s + k) mod 4096)) mod 4096 = (int n - (int s + int k)) mod 4096"
    by (simp add: zmod_int mod_diff_right_eq)
  also have "\<dots> = ((int n - int s) mod 4096 - int k) mod 4096"
    by (simp add: mod_diff_left_eq algebra_simps)
  also have "\<dots> = (int n - int s) mod 4096 - int k"
    using k by (intro mod_pos_pos_trivial) (auto simp: sdist_def le_nat_iff intro: order_le_less_trans
        [OF _ pos_mod_bound [of "4096::int" "int n - int s"]])
  finally show ?thesis using k by (simp add: sdist_def nat_diff_distrib)
qed

lemma near_window_start:
  assumes b: "s < 4096" "2 \<le> sz" "sz \<le> 4096" "sz dvd 4096" and n: "n < 4096"
    and far: "\<not> sdist s n < sz" and near: "sdist s n \<le> 2 * sz - 2"
    and w: "w = nat ((int n - int sz + 1) mod 4096)"
    and s': "spec_flush sz w (s, H, q) = (s', H', out)"
  shows "sdist s' n < sz"
proof (cases "w = 0")
  case True
  then have "s' = (s + sz) mod 4096"
    using s' b by (simp add: spec_flush_def release_out)
  then show ?thesis using sdist_shift [of sz s n] far near b by simp
next
  case False
  define x where "x = sdist s n - (sz - 1)"
  have x: "1 \<le> x" "x < sz" "sdist s n = x + (sz - 1)" using far near b by (auto simp: x_def)
  have "int n = (int s + int (sdist s n)) mod 4096"
    using add_sdist [OF b(1) n] by (metis of_nat_add of_nat_mod of_nat_numeral)
  then have "int w = ((int s + int (sdist s n)) mod 4096 - int sz + 1) mod 4096"
    using w by simp
  also have "\<dots> = (int s + int (sdist s n) - int sz + 1) mod 4096"
    by (metis mod_add_left_eq mod_diff_left_eq)
  also have "\<dots> = (int s + int x) mod 4096"
    using x b by (simp add: of_nat_diff algebra_simps)
  finally have wx: "w = (s + x) mod 4096"
    by (metis of_nat_add of_nat_eq_iff of_nat_mod of_nat_numeral)
  have "int sz dvd 4096" using b(4) by (metis of_nat_dvd_iff of_nat_numeral)
  then have "(int w - int s) mod int sz = (int w - int s) mod 4096 mod int sz"
    by (rule mod_mod_cancel [symmetric])
  also have "(int w - int s) mod 4096 = int x"
    using sdist_add [OF b(1), of x] x(2) b(3) wx unfolding sdist_def by simp
  finally have d: "nat ((int w - int s) mod int sz) = x" using x by simp
  have "x \<noteq> 0" using x by simp
  then have "spec_flush sz w (s, H, q) = release x (s, H, q)"
    by (simp only: spec_flush_def prod.case Let_def d False if_False)
  then have "s' = w"
    using s' x b wx by (simp add: release_out)
  then show ?thesis using sdist_shift [of x s n] x wx by simp
qed

lemma shift_window_refines:
  assumes wf: "wf_rxtid rt" and mp: "mpdu_only rt" and q: "rx_q rt = []"
    and t: "tid < length (RxTid c)" "RxTid c ! tid = rt" and n: "n < 4096"
  shows "\<exists>out rt'. shift_window c tid n env =
           Some (set_rxtid c tid rt', aggr_dispatch_frames c out env) \<and>
           refines rt out rt' (spec_shift (hold_q_sz rt) n (abs_rxtid rt)) \<and>
           sdist (seq_next rt') n < hold_q_sz rt"
proof -
  let ?s = "seq_next rt" and ?sz = "hold_q_sz rt"
  let ?en = "window_end ?s ?sz"
  have b: "?s < 4096" "2 \<le> ?sz" "?sz \<le> 4096" "?sz dvd 4096"
    using wf window_size_bounds by (auto elim: wf_rxtidE)
  note inw = out_of_window_iff [OF b(1) n b(2,3)]
  show ?thesis
  proof (cases "sdist ?s n < ?sz")
    case True
    have "set_rxtid c tid rt = c" using t by (cases c) (auto simp: set_rxtid_def)
    then show ?thesis using True inw t wf mp q
      by (intro exI [of _ "[]"] exI [of _ rt])
        (simp add: shift_window_def Let_def spec_shift_def abs_rxtid_def refines_def same_agreement_def)
  next
    case False
    have d: "sdist ?en n = sdist ?s n - (?sz - 1)"
      by (rule sdist_window_end) (use b n False in auto)
    have en: "?en < 4096" by (rule window_end_less) (use b in auto)
    let ?w = "window_ending_at n ?sz"
    have w: "?w = nat ((int n - int ?sz + 1) mod 4096)" "?w < 4096"
      using window_ending_at_eq [OF n b(2,3)] window_ending_at_less [OF n b(2,3)] by auto
    have far: "out_of_window ?en (window_end ?en ?sz) n \<longleftrightarrow> \<not> sdist ?s n \<le> 2 * ?sz - 2"
      using out_of_window_iff [OF en n b(2,3)] d False b by auto
    have wn: "sdist ?w n = ?sz - 1" "(?w + (?sz - 1)) mod 4096 = n"
    proof -
      have iw: "int ?w = (int n - int ?sz + 1) mod 4096" using w by simp
      have "(int n - int ?w) mod 4096 = (int n - (int n - int ?sz + 1)) mod 4096"
        unfolding iw by (rule mod_diff_right_eq)
      also have "\<dots> = (int ?sz - 1) mod 4096" by (simp only: diff_diff_eq2 diff_add_eq_diff_diff_swap add_diff_cancel_left' diff_add_cancel) (simp add: algebra_simps)
      also have "\<dots> = int ?sz - 1" using b by (intro mod_pos_pos_trivial) auto
      finally show "sdist ?w n = ?sz - 1" using b by (simp add: sdist_def nat_diff_distrib)
      then show "(?w + (?sz - 1)) mod 4096 = n" using add_sdist [OF w(2) n] by simp
    qed
    show ?thesis
    proof (cases "sdist ?s n \<le> 2 * ?sz - 2")
      case near: True
      obtain out rt' where r: "deque_rxtid c rt ?w ALL_SEQNO env = Some (rt', aggr_dispatch_frames c out env)"
          "refines rt out rt' (spec_flush ?sz ?w (abs_rxtid rt))"
        using deque_rxtid_flush [OF wf mp q] by blast
      have sp: "spec_shift ?sz n (abs_rxtid rt) = spec_flush ?sz ?w (abs_rxtid rt)"
        using False near w by (simp add: spec_shift_def abs_rxtid_def)
      have sh: "shift_window c tid n env = Some (set_rxtid c tid rt', aggr_dispatch_frames c out env)"
        using aggr_deque_frms_Some [of tid c ?w ALL_SEQNO env rt'] r(1) t False inw far near
        by (simp add: shift_window_def Let_def)
      have "sdist (seq_next rt') n < ?sz"
      proof (rule near_window_start [OF b n False near w(1)])
        show "spec_flush ?sz ?w (seq_next rt, held rt, rx_q rt) = (seq_next rt', held rt', out)"
          using r(2) by (simp add: refines_def abs_rxtid_def)
      qed
      then show ?thesis using r sp sh by auto
    next
      case away: False
      obtain out rt' where r: "deque_rxtid c rt 0 ALL_SEQNO env = Some (rt', aggr_dispatch_frames c out env)"
          "refines rt out rt' (spec_flush ?sz 0 (abs_rxtid rt))"
        using deque_rxtid_flush [OF wf mp q] by blast
      have sz': "hold_q_sz rt' = ?sz" using r(2) by (simp add: refines_def same_agreement_def)
      have sh: "shift_window c tid n env =
          Some (set_rxtid c tid (rt'\<lparr>seq_next := ?w\<rparr>), aggr_dispatch_frames c out env)"
        using aggr_deque_frms_Some [of tid c 0 ALL_SEQNO env rt'] r(1) t False inw far away sz'
        by (simp add: shift_window_def Let_def)
      have "wf_rxtid (rt'\<lparr>seq_next := ?w\<rparr>)"
        by (rule wf_rxtid_restart) (use r w refines_flush_empty [OF wf r(2)] in \<open>auto simp: refines_def\<close>)
      then have "refines rt out (rt'\<lparr>seq_next := ?w\<rparr>) (spec_shift ?sz n (abs_rxtid rt))"
        using r(2) False away w
        by (auto simp: refines_def spec_shift_def abs_rxtid_def same_agreement_def mpdu_only_def
            held_def fun_eq_iff split: option.splits)
      then show ?thesis using sh wn b by (intro exI [of _ out] exI [of _ "rt'\<lparr>seq_next := ?w\<rparr>"]) auto
    qed
  qed
qed


subsection \<open>Holding a frame\<close>

definition dropped_duplicate :: "RXTID \<Rightarrow> nat \<Rightarrow> netbuf list" where
  "dropped_duplicate rt n = (case held rt n of None \<Rightarrow> [] | Some old \<Rightarrow> [old])"

lemma hold_frame_refines:
  assumes wf: "wf_rxtid rt" and mp: "mpdu_only rt" and q: "rx_q rt = []"
    and t: "tid < length (RxTid c)" "RxTid c ! tid = rt" and n: "n < 4096"
    and win: "sdist (seq_next rt) n < hold_q_sz rt"
  shows "\<exists>rt'. hold_frame c tid n False buf env =
           Some (set_rxtid c tid rt', env\<lparr>freed := freed env @ dropped_duplicate rt n\<rparr>) \<and>
           refines rt [] rt' (seq_next rt, (held rt)(n := Some buf), [])"
proof -
  from wf obtain hq where hq: "hold_q rt = Some hq" "length hq = hold_q_sz rt" "2 \<le> hold_q_sz rt"
    "hold_q_sz rt dvd 4096" "seq_next rt < 4096" "wf_slots (seq_next rt) (hold_q_sz rt) hq"
    by (auto elim: wf_rxtidE)
  let ?sz = "hold_q_sz rt"
  let ?i = "n mod ?sz"
  let ?nd = "\<lparr>osbuf = Some buf, is_amsdu = False, slot_seq_no = n\<rparr>"
  let ?rt = "rt\<lparr>hold_q := Some (hq[?i := ?nd])\<rparr>"
  have i: "?i < ?sz" using hq by simp
  have same: "m = n" if "m < 4096" "sdist (seq_next rt) m < ?sz" "m mod ?sz = ?i" for m
    using same_slot_same_seq [OF hq(5) that(1) n hq(4) that(2) win that(3)] .
  have occ: "slot_seq_no (hq ! ?i) = n" if "osbuf (hq ! ?i) = Some b" for b
    using wf_slotsD [OF hq(6) i that] same by blast
  have "hold_frame c tid n False buf env =
      Some (set_rxtid c tid ?rt, env\<lparr>freed := freed env @ dropped_duplicate rt n\<rparr>)"
    using hq i t occ
    by (cases "osbuf (hq ! ?i)") (auto simp: hold_frame_def AGGR_WIN_IDX_def dropped_duplicate_def
        held_def Let_def)
  moreover have "wf_rxtid ?rt"
    using hq i n win by (auto simp: wf_rxtid_def wf_slots_def nth_list_update)
  moreover have "mpdu_only ?rt"
    using mp hq(1,2) i by (auto simp: mpdu_only_def list_all_length nth_list_update)
  moreover have "held ?rt = (held rt)(n := Some buf)"
  proof
    fix m
    show "held ?rt m = ((held rt)(n := Some buf)) m"
    proof (cases "m mod ?sz = ?i")
      case True
      then show ?thesis
        using occ i hq(1,2) by (cases "osbuf (hq ! ?i)") (auto simp: held_def Let_def)
    next
      case False
      then show ?thesis using hq(1) by (auto simp: held_def Let_def)
    qed
  qed
  ultimately show ?thesis using q
    by (intro exI [of _ ?rt]) (simp add: refines_def same_agreement_def)
qed

subsection \<open>Receiving a frame\<close>

definition wf_conn :: "AGGR_CONN_INFO \<Rightarrow> bool" where
  "wf_conn c \<longleftrightarrow> length (RxTid c) = NUM_OF_TIDS \<and>
     (\<forall>rt \<in> set (RxTid c). rx_q rt = [] \<and> (aggr rt \<longrightarrow> wf_rxtid rt \<and> mpdu_only rt)
        \<and> (\<not> aggr rt \<longrightarrow> \<not> holds_frame rt))"

definition same_dev :: "AGGR_CONN_INFO \<Rightarrow> AGGR_CONN_INFO \<Rightarrow> bool" where
  "same_dev c c' \<longleftrightarrow> aggr_dev c' = aggr_dev c \<and> aggr_sz c' = aggr_sz c"

lemma recv_chain:
  assumes wf: "wf_rxtid rt" "mpdu_only rt" "rx_q rt = []" and a: "aggr rt"
    and t: "tid < length (RxTid c)" "RxTid c ! tid = rt" and n: "n < 4096"
  shows "\<exists>out1 out2 dup rt' c'. aggr_process_recv_frm c tid n False buf env =
            Some (c', aggr_dispatch_frames c out2
                        ((aggr_dispatch_frames c out1 env)\<lparr>freed := freed (aggr_dispatch_frames c out1 env) @ dup\<rparr>),
                  None) \<and>
         start_timer (set_rxtid c tid rt') tid = Some c' \<and>
         refines rt (out1 @ out2) rt' (spec_take (hold_q_sz rt) n buf (abs_rxtid rt))"
proof -
  obtain out1 rt1 where s1: "shift_window c tid n env =
        Some (set_rxtid c tid rt1, aggr_dispatch_frames c out1 env)"
      "refines rt out1 rt1 (spec_shift (hold_q_sz rt) n (abs_rxtid rt))"
      "sdist (seq_next rt1) n < hold_q_sz rt"
    using shift_window_refines [OF wf t n] by blast
  let ?c1 = "set_rxtid c tid rt1" and ?env1 = "aggr_dispatch_frames c out1 env"
  have r1: "wf_rxtid rt1" "mpdu_only rt1" "rx_q rt1 = []" "hold_q_sz rt1 = hold_q_sz rt"
      "same_agreement rt rt1"
    using s1(2) by (auto simp: refines_def same_agreement_def)
  have t1: "tid < length (RxTid ?c1)" "RxTid ?c1 ! tid = rt1" using t by auto
  obtain rt2 where s2: "hold_frame ?c1 tid n False buf ?env1 =
        Some (set_rxtid ?c1 tid rt2, ?env1\<lparr>freed := freed ?env1 @ dropped_duplicate rt1 n\<rparr>)"
      "refines rt1 [] rt2 (seq_next rt1, (held rt1)(n := Some buf), [])"
    using hold_frame_refines [OF r1(1-3) t1 n] s1(3) r1(4) by metis
  let ?c2 = "set_rxtid c tid rt2" and ?env2 = "?env1\<lparr>freed := freed ?env1 @ dropped_duplicate rt1 n\<rparr>"
  have r2: "wf_rxtid rt2" "mpdu_only rt2" "rx_q rt2 = []" "hold_q_sz rt2 = hold_q_sz rt"
      "same_agreement rt1 rt2" "abs_rxtid rt2 = (seq_next rt1, (held rt1)(n := Some buf), [])"
    using s2(2) r1(4) by (auto simp: refines_def same_agreement_def abs_rxtid_def)
  have t2: "tid < length (RxTid ?c2)" "RxTid ?c2 ! tid = rt2" using t by auto
  obtain out2 rt3 where s3: "deque_rxtid ?c2 rt2 0 CONTIGUOUS_SEQNO ?env2 =
        Some (rt3, aggr_dispatch_frames ?c2 out2 ?env2)"
      "refines rt2 out2 rt3 (release_run (hold_q_sz rt) (abs_rxtid rt2))"
    using deque_rxtid_run [OF r2(1-3)] r2(4) by metis
  have d3: "aggr_deque_frms ?c2 tid 0 CONTIGUOUS_SEQNO ?env2 =
      Some (set_rxtid c tid rt3, aggr_dispatch_frames c out2 ?env2)"
    using aggr_deque_frms_Some [OF t2(1), of 0 CONTIGUOUS_SEQNO ?env2 rt3] s3(1) t2(2) by simp
  have "start_timer (set_rxtid c tid rt3) tid \<noteq> None"
    using t by (simp add: start_timer_def)
  then obtain c' where st: "start_timer (set_rxtid c tid rt3) tid = Some c'" by blast
  have sp: "spec_take (hold_q_sz rt) n buf (abs_rxtid rt) = (seq_next rt3, held rt3, out1 @ out2)"
  proof -
    have "spec_shift (hold_q_sz rt) n (abs_rxtid rt) = (seq_next rt1, held rt1, out1)"
      using s1(2) by (simp add: refines_def)
    moreover have "release_run (hold_q_sz rt) (seq_next rt1, (held rt1)(n := Some buf), []) =
        (seq_next rt3, held rt3, out2)"
      using s3(2) r2(6) by (simp add: refines_def)
    ultimately show ?thesis
      using release_run_prefix [of "hold_q_sz rt" out1 "(seq_next rt1, (held rt1)(n := Some buf), [])"]
      by (simp add: spec_take_def)
  qed
  have "aggr_process_recv_frm c tid n False buf env = Some (c', aggr_dispatch_frames c out2 ?env2, None)"
    using t a s1(1) s2(1) d3 st by (simp add: aggr_process_recv_frm_def)
  moreover have "refines rt (out1 @ out2) rt3 (spec_take (hold_q_sz rt) n buf (abs_rxtid rt))"
    using s3(2) sp r1(5) r2(5) by (auto simp: refines_def same_agreement_def)
  ultimately show ?thesis using st by blast
qed


lemma start_timer_cases:
  assumes "start_timer c tid = Some c'" and "tid < length (RxTid c)"
  shows "\<exists>p m. RxTid c' = (RxTid c)[tid := (RxTid c ! tid)\<lparr>progress := p, timerMon := m\<rparr>] \<and>
    same_dev c c' \<and> (holds_frame (RxTid c ! tid) \<longrightarrow> timerScheduled c') \<and>
    (timerScheduled c \<longrightarrow> timerScheduled c') \<and>
    (timerScheduled c = timer_armed c \<longrightarrow> timerScheduled c' = timer_armed c')"
proof -
  let ?rt = "RxTid c ! tid"
  show ?thesis
  proof (cases "timerScheduled c")
    case True
    then show ?thesis using assms
      by (intro exI [of _ True] exI [of _ "timerMon ?rt"]) (auto simp: start_timer_def same_dev_def)
  next
    case False
    note ns = this
    show ?thesis
    proof (cases "holds_frame ?rt")
      case True
      then show ?thesis using assms ns
        by (intro exI [of _ False] exI [of _ True]) (auto simp: start_timer_def same_dev_def)
    next
      case False
      then have "c' = c" using assms ns by (simp add: start_timer_def)
      then show ?thesis using False
        by (intro exI [of _ "progress ?rt"] exI [of _ "timerMon ?rt"]) (simp add: same_dev_def)
    qed
  qed
qed

lemma flags_irrelevant [simp]:
  "wf_rxtid (rt\<lparr>progress := p\<rparr>) = wf_rxtid rt" "wf_rxtid (rt\<lparr>timerMon := m\<rparr>) = wf_rxtid rt"
  "mpdu_only (rt\<lparr>progress := p\<rparr>) = mpdu_only rt" "mpdu_only (rt\<lparr>timerMon := m\<rparr>) = mpdu_only rt"
  "held (rt\<lparr>progress := p\<rparr>) = held rt" "held (rt\<lparr>timerMon := m\<rparr>) = held rt"
  "holds_frame (rt\<lparr>progress := p\<rparr>) = holds_frame rt"
  "holds_frame (rt\<lparr>timerMon := m\<rparr>) = holds_frame rt"
  by (cases "hold_q rt"; simp add: wf_rxtid_def mpdu_only_def held_def holds_frame_def fun_eq_iff)+

lemma wf_connD:
  "wf_conn c \<Longrightarrow> tid < 8 \<Longrightarrow> aggr (RxTid c ! tid) \<Longrightarrow>
   wf_rxtid (RxTid c ! tid) \<and> mpdu_only (RxTid c ! tid) \<and> rx_q (RxTid c ! tid) = [] \<and>
   tid < length (RxTid c)"
  by (auto simp: wf_conn_def)

lemma wf_conn_update:
  "wf_conn c \<Longrightarrow> RxTid c' = (RxTid c)[tid := rt] \<Longrightarrow> rx_q rt = [] \<Longrightarrow>
   (aggr rt \<longrightarrow> wf_rxtid rt \<and> mpdu_only rt) \<Longrightarrow> (\<not> aggr rt \<longrightarrow> \<not> holds_frame rt) \<Longrightarrow> wf_conn c'"
  by (auto simp: wf_conn_def dest!: set_update_subset_insert [THEN subsetD])

lemma recv_refines:
  assumes c: "wf_conn c" "tid < 8" "aggr (RxTid c ! tid)" and n: "n < 4096"
    and d: "aggr_dev c = Some d"
  shows "\<exists>c' env' out rt'. aggr_process_recv_frm c tid n False buf env = Some (c', env', None) \<and>
     wf_conn c' \<and> same_dev c c' \<and> RxTid c' = (RxTid c)[tid := rt'] \<and> aggr rt' \<and>
     hold_q_sz rt' = hold_q_sz (RxTid c ! tid) \<and>
     rx_out env' = rx_out env @ map (Pair d) out \<and>
     (holds_frame rt' \<longrightarrow> timerScheduled c') \<and> (timerScheduled c \<longrightarrow> timerScheduled c') \<and>
     (timerScheduled c = timer_armed c \<longrightarrow> timerScheduled c' = timer_armed c') \<and> freeQ env' = freeQ env \<and>
     spec_take (hold_q_sz (RxTid c ! tid)) n buf
       (seq_next (RxTid c ! tid), held (RxTid c ! tid), []) = (seq_next rt', held rt', out)"
proof -
  let ?rt = "RxTid c ! tid"
  note w = wf_connD [OF c]
  obtain out1 out2 dup rt3 c' where r: "aggr_process_recv_frm c tid n False buf env =
            Some (c', aggr_dispatch_frames c out2
                        ((aggr_dispatch_frames c out1 env)\<lparr>freed := freed (aggr_dispatch_frames c out1 env) @ dup\<rparr>),
                  None)"
        "start_timer (set_rxtid c tid rt3) tid = Some c'"
        "refines ?rt (out1 @ out2) rt3 (spec_take (hold_q_sz ?rt) n buf (abs_rxtid ?rt))"
    using recv_chain [of ?rt tid c n buf env] w c(3) n by blast
  obtain p m where st: "RxTid c' = (RxTid c)[tid := rt3\<lparr>progress := p, timerMon := m\<rparr>]"
      "same_dev c c'" "holds_frame rt3 \<longrightarrow> timerScheduled c'" "timerScheduled c \<longrightarrow> timerScheduled c'"
      "timerScheduled c = timer_armed c \<longrightarrow> timerScheduled c' = timer_armed c'"
    using start_timer_cases [OF r(2)] w by (auto simp: same_dev_def)
  have w3: "wf_rxtid rt3" "mpdu_only rt3" "rx_q rt3 = []" "aggr rt3" "hold_q_sz rt3 = hold_q_sz ?rt"
    using r(3) c(3) by (auto simp: refines_def same_agreement_def)
  have "wf_conn c'"
    by (rule wf_conn_update [OF c(1) st(1)]) (use w3 in simp_all)
  then show ?thesis
    using r(1,3) st w3 w d
    by (intro exI [of _ c'] exI [of _ "rt3\<lparr>progress := p, timerMon := m\<rparr>"] exI [of _ "out1 @ out2"])
      (auto simp: refines_def abs_rxtid_def aggr_dispatch_frames_def)
qed


subsection \<open>Flushing, agreements and the timer\<close>

lemma holds_frame_iff:
  assumes "wf_rxtid rt"
  shows "holds_frame rt \<longleftrightarrow> (\<exists>n<4096. held rt n \<noteq> None)"
proof -
  from assms obtain hq where hq: "hold_q rt = Some hq" "length hq = hold_q_sz rt" "2 \<le> hold_q_sz rt"
    "wf_slots (seq_next rt) (hold_q_sz rt) hq"
    by (auto elim: wf_rxtidE)
  have "holds_frame rt \<longleftrightarrow> (\<exists>i<hold_q_sz rt. osbuf (hq ! i) \<noteq> None)"
    using hq(1,2) by (simp add: holds_frame_def list_ex_length)
  also have "\<dots> \<longleftrightarrow> (\<exists>n<4096. held rt n \<noteq> None)"
  proof
    assume "\<exists>i<hold_q_sz rt. osbuf (hq ! i) \<noteq> None"
    then obtain i b where i: "i < hold_q_sz rt" "osbuf (hq ! i) = Some b" by auto
    then show "\<exists>n<4096. held rt n \<noteq> None"
      using wf_slotsD [OF hq(4) i] hq(1)
      by (intro exI [of _ "slot_seq_no (hq ! i)"]) (simp add: held_def Let_def)
  next
    assume "\<exists>n<4096. held rt n \<noteq> None"
    then obtain n where "osbuf (hq ! (n mod hold_q_sz rt)) \<noteq> None"
      using hq(1) by (auto simp: held_def Let_def split: if_splits)
    moreover have "n mod hold_q_sz rt < hold_q_sz rt" using hq(3) by simp
    ultimately show "\<exists>i<hold_q_sz rt. osbuf (hq ! i) \<noteq> None" by blast
  qed
  finally show ?thesis .
qed

lemma deque_frms_refines:
  assumes c: "wf_conn c" "tid < 8" "aggr (RxTid c ! tid)"
  shows "\<exists>out rt'. aggr_deque_frms c tid n ALL_SEQNO env =
            Some (set_rxtid c tid rt', aggr_dispatch_frames c out env) \<and>
          refines (RxTid c ! tid) out rt'
            (spec_flush (hold_q_sz (RxTid c ! tid)) n (abs_rxtid (RxTid c ! tid))) \<and>
          wf_conn (set_rxtid c tid rt')"
proof -
  let ?rt = "RxTid c ! tid"
  note w = wf_connD [OF c]
  obtain out rt' where r: "deque_rxtid c ?rt n ALL_SEQNO env = Some (rt', aggr_dispatch_frames c out env)"
      "refines ?rt out rt' (spec_flush (hold_q_sz ?rt) n (abs_rxtid ?rt))"
    using deque_rxtid_flush w by blast
  have "wf_conn (set_rxtid c tid rt')"
    by (rule wf_conn_update [OF c(1) set_rxtid_simps(5)]) (use r(2) c(3) in \<open>auto simp: refines_def same_agreement_def\<close>)
  then show ?thesis
    using r aggr_deque_frms_Some [of tid c n ALL_SEQNO env rt'] w by auto
qed

lemma full_flush_empties:
  assumes c: "wf_conn c" "tid < 8" "aggr (RxTid c ! tid)"
    and "refines (RxTid c ! tid) out rt'
            (spec_flush (hold_q_sz (RxTid c ! tid)) 0 (abs_rxtid (RxTid c ! tid)))"
  shows "\<not> holds_frame rt'"
  using refines_flush_empty [OF _ assms(4)] wf_connD [OF c] assms(4)
  by (auto simp: holds_frame_iff refines_def)

lemma dispatch_freeQ [simp]: "freeQ (aggr_dispatch_frames c q env) = freeQ env"
  by (simp add: aggr_dispatch_frames_def split: option.splits)

definition idle_rxtid :: "RXTID \<Rightarrow> bool" where
  "idle_rxtid rt \<longleftrightarrow> \<not> aggr rt \<and> \<not> progress rt \<and> \<not> timerMon rt \<and> win_sz rt = 0 \<and>
     seq_next rt = 0 \<and> hold_q_sz rt = 0 \<and> hold_q rt = None \<and> rx_q rt = []"

lemma delete_tid_state_ok:
  assumes c: "wf_conn c" "tid < 8" and f: "freeQ env \<noteq> None"
  shows "\<exists>rt env'. aggr_delete_tid_state c tid env = Some (set_rxtid c tid rt, env') \<and>
           idle_rxtid rt \<and> freeQ env' \<noteq> None \<and> wf_conn (set_rxtid c tid rt)"
proof -
  have len: "tid < length (RxTid c)" using c by (simp add: wf_conn_def)
  show ?thesis
  proof (cases "aggr (RxTid c ! tid)")
    case True
    obtain out rt' where r: "aggr_deque_frms c tid 0 ALL_SEQNO env =
            Some (set_rxtid c tid rt', aggr_dispatch_frames c out env)"
        "refines (RxTid c ! tid) out rt'
            (spec_flush (hold_q_sz (RxTid c ! tid)) 0 (abs_rxtid (RxTid c ! tid)))"
      using deque_frms_refines [OF c True] by blast
    let ?rt = "rt'\<lparr>aggr := False, progress := False, timerMon := False, win_sz := 0,
                   seq_next := 0, hold_q_sz := 0, hold_q := None\<rparr>"
    have "wf_conn (set_rxtid c tid ?rt)"
      by (rule wf_conn_update [OF c(1) set_rxtid_simps(5)]) (use r(2) in \<open>auto simp: refines_def holds_frame_def\<close>)
    then show ?thesis
      using r f len c(2) True
      by (intro exI [of _ ?rt]) (auto simp: aggr_delete_tid_state_def idle_rxtid_def refines_def)
  next
    case False
    let ?rt = "(RxTid c ! tid)\<lparr>aggr := False, progress := False, timerMon := False, win_sz := 0,
                   seq_next := 0, hold_q_sz := 0, hold_q := None\<rparr>"
    have q: "rx_q (RxTid c ! tid) = []" using c len by (simp add: wf_conn_def)
    have "wf_conn (set_rxtid c tid ?rt)"
      by (rule wf_conn_update [OF c(1) set_rxtid_simps(5)]) (use q in \<open>auto simp: holds_frame_def\<close>)
    then show ?thesis
      using f len c(2) False q
      by (intro exI [of _ ?rt]) (auto simp: aggr_delete_tid_state_def idle_rxtid_def)
  qed
qed

lemma new_agreement_wf:
  assumes "rx_q rt = []" "0 < w" "2 * w dvd 4096" "n < 4096"
    and "rt' = rt\<lparr>seq_next := n, hold_q := Some (replicate (TID_WINDOW_SZ w) empty_slot),
                  win_sz := w, hold_q_sz := TID_WINDOW_SZ w, aggr := True\<rparr>"
  shows "wf_rxtid rt' \<and> mpdu_only rt' \<and> rx_q rt' = [] \<and> \<not> holds_frame rt' \<and> held rt' = (\<lambda>_. None)"
proof -
  have m: "x mod (2 * w) < 2 * w" for x using assms(2) by simp
  show ?thesis
    using assms m by (auto simp: wf_rxtid_def mpdu_only_def wf_slots_def TID_WINDOW_SZ_def empty_slot_def
        holds_frame_def held_def fun_eq_iff list_ex_iff list_all_iff Let_def)
qed

lemma addba_ok:
  assumes c: "wf_conn c" "tid < 8" and f: "freeQ env \<noteq> None"
    and w: "0 < w" "2 * w dvd 4096" "n < 4096"
  shows "\<exists>rt env'. aggr_recv_addba_req_evt c tid n w ok env = Some (set_rxtid c tid rt, env') \<and>
           wf_conn (set_rxtid c tid rt) \<and> freeQ env' \<noteq> None \<and> \<not> holds_frame rt \<and> aggr rt = ok \<and>
           hold_q_sz rt \<in> {2 * w, 0, hold_q_sz (RxTid c ! tid)} \<and>
           (ok \<longrightarrow> seq_next rt = n \<and> hold_q_sz rt = 2 * w \<and> held rt = (\<lambda>_. None))"
proof -
  have len: "tid < length (RxTid c)" using c by (simp add: wf_conn_def)
  obtain rt env1 where r: "(if aggr (RxTid c ! tid) then aggr_delete_tid_state c tid env else Some (c, env))
        = Some (set_rxtid c tid rt, env1)" and rt: "rx_q rt = []" "\<not> aggr rt" "freeQ env1 \<noteq> None"
      "hold_q_sz rt \<in> {0, hold_q_sz (RxTid c ! tid)}"
  proof (cases "aggr (RxTid c ! tid)")
    case True
    then show ?thesis using delete_tid_state_ok [OF c f] that by (auto simp: idle_rxtid_def)
  next
    case False
    then show ?thesis using that [of "RxTid c ! tid" env] c f len
      by (cases c) (auto simp: wf_conn_def set_rxtid_def)
  qed
  let ?no = "rt\<lparr>seq_next := n, hold_q := None\<rparr>"
  let ?yes = "rt\<lparr>seq_next := n, hold_q := Some (replicate (TID_WINDOW_SZ w) empty_slot),
                  win_sz := w, hold_q_sz := TID_WINDOW_SZ w, aggr := True\<rparr>"
  note y = new_agreement_wf [OF rt(1) w refl]
  have "wf_conn (set_rxtid c tid ?no)"
    by (rule wf_conn_update [OF c(1) set_rxtid_simps(5)]) (use rt in \<open>auto simp: holds_frame_def\<close>)
  moreover have "wf_conn (set_rxtid c tid ?yes)"
    by (rule wf_conn_update [OF c(1) set_rxtid_simps(5)]) (use y in auto)
  moreover have "aggr_recv_addba_req_evt c tid n w ok env =
      Some (set_rxtid c tid (if ok then ?yes else ?no), env1)"
    using r len by (auto simp: aggr_recv_addba_req_evt_def Let_def)
  ultimately show ?thesis
    using y rt by (intro exI [of _ "if ok then ?yes else ?no"] exI [of _ env1])
      (auto simp: TID_WINDOW_SZ_def holds_frame_def)
qed


definition small_windows :: "AGGR_CONN_INFO \<Rightarrow> bool" where
  "small_windows c \<longleftrightarrow> (\<forall>rt \<in> set (RxTid c). hold_q_sz rt \<le> 255)"

lemma small_windowsD: "small_windows c \<Longrightarrow> t < length (RxTid c) \<Longrightarrow> hold_q_sz (RxTid c ! t) \<le> 255"
  by (simp add: small_windows_def)

lemma small_windows_update:
  "small_windows c \<Longrightarrow> RxTid c' = (RxTid c)[t := rt] \<Longrightarrow> hold_q_sz rt \<le> 255 \<Longrightarrow> small_windows c'"
  by (auto simp: small_windows_def dest!: set_update_subset_insert [THEN subsetD])

lemma timeout_flush_ok:
  assumes "wf_conn c" "small_windows c" "set ts \<subseteq> {..<8}" "distinct ts"
  shows "\<exists>c' env'. timeout_flush ts c env = Some (c', env') \<and> wf_conn c' \<and> small_windows c' \<and>
    same_dev c c' \<and> freeQ env' = freeQ env \<and>
    (\<forall>t<8. same_agreement (RxTid c ! t) (RxTid c' ! t) \<and>
       (holds_frame (RxTid c' ! t) \<longrightarrow> holds_frame (RxTid c ! t)) \<and>
       (t \<in> set ts \<and> aggr (RxTid c ! t) \<and> timerMon (RxTid c ! t) \<and> \<not> progress (RxTid c ! t)
          \<longrightarrow> \<not> holds_frame (RxTid c' ! t)))"
  using assms
proof (induction ts arbitrary: c env)
  case Nil
  then show ?case by (simp add: same_agreement_def same_dev_def)
next
  case (Cons i ts)
  have i: "i < 8" "i < length (RxTid c)" and len: "length (RxTid c) = 8"
    using Cons.prems by (auto simp: wf_conn_def)
  let ?rt = "RxTid c ! i"
  show ?case
  proof (cases "\<not> aggr ?rt \<or> \<not> timerMon ?rt \<or> progress ?rt")
    case True
    then have "timeout_flush (i # ts) c env = timeout_flush ts c env" using i by simp
    with Cons.IH [OF Cons.prems(1,2), of env] Cons.prems(3,4) True show ?thesis by fastforce
  next
    case False
    then obtain out rt' where r: "aggr_deque_frms c i 0 ALL_SEQNO env =
            Some (set_rxtid c i rt', aggr_dispatch_frames c out env)"
        "refines ?rt out rt' (spec_flush (hold_q_sz ?rt) 0 (abs_rxtid ?rt))"
        "wf_conn (set_rxtid c i rt')"
      using deque_frms_refines [OF Cons.prems(1) i(1)] by blast
    have e: "\<not> holds_frame rt'" by (rule full_flush_empties [OF Cons.prems(1) i(1) _ r(2)]) (use False in simp)
    have sa: "same_agreement ?rt rt'" using r(2) by (simp add: refines_def)
    let ?c = "set_rxtid c i rt'" and ?env = "aggr_dispatch_frames c out env"
    have sw: "small_windows ?c"
      by (rule small_windows_update [OF Cons.prems(2) set_rxtid_simps(5)])
        (use sa small_windowsD [OF Cons.prems(2) i(2)] in \<open>simp add: same_agreement_def\<close>)
    have step: "timeout_flush (i # ts) c env = timeout_flush ts ?c ?env" using i False r(1) by simp
    obtain c' env' where IH: "timeout_flush ts ?c ?env = Some (c', env')" "wf_conn c'" "small_windows c'"
        "same_dev ?c c'" "freeQ env' = freeQ ?env"
        "\<And>t. t < 8 \<Longrightarrow> same_agreement (RxTid ?c ! t) (RxTid c' ! t) \<and>
          (holds_frame (RxTid c' ! t) \<longrightarrow> holds_frame (RxTid ?c ! t)) \<and>
          (t \<in> set ts \<and> aggr (RxTid ?c ! t) \<and> timerMon (RxTid ?c ! t) \<and> \<not> progress (RxTid ?c ! t)
          \<longrightarrow> \<not> holds_frame (RxTid c' ! t))"
      using Cons.IH [OF r(3) sw, of ?env] Cons.prems(3,4) by auto
    have "same_agreement (RxTid c ! t) (RxTid c' ! t) \<and>
       (holds_frame (RxTid c' ! t) \<longrightarrow> holds_frame (RxTid c ! t)) \<and>
       (t \<in> set (i # ts) \<and> aggr (RxTid c ! t) \<and> timerMon (RxTid c ! t) \<and> \<not> progress (RxTid c ! t)
          \<longrightarrow> \<not> holds_frame (RxTid c' ! t))" if t: "t < 8" for t
      using IH(6) [OF t] e sa i len t same_agreement_trans [OF sa]
      by (cases "t = i") auto
    then show ?thesis using step IH(1-5) by (auto simp: same_dev_def)
  qed
qed

lemma slot_scan_ok:
  assumes "length hq = sz" "sz \<le> 255" "k \<le> sz"
  shows "slot_scan hq sz (word_of_nat k) = Some (\<exists>n\<in>set (drop k hq). osbuf n \<noteq> None)"
  using assms(3)
proof (induction k rule: inc_induct)
  case base
  then show ?case using assms by (simp add: slot_scan.simps unat_of_nat take_bit_nat_def)
next
  case (step k)
  have "1 + word_of_nat k = (word_of_nat (Suc k) :: byte)" by simp
  then show ?case
    using step assms(1,2)
    by (subst slot_scan.simps) (auto simp: unat_of_nat take_bit_nat_def Cons_nth_drop_Suc [symmetric])
qed

lemma slot_scan_stuck:
  assumes "length hq = sz" "256 \<le> sz" "\<forall>n \<in> set hq. osbuf n = None"
  shows "slot_scan hq sz j = None"
proof -
  have "\<not> (hq' = hq \<and> sz' = sz)" if "slot_scan hq' sz' j = Some r" for hq' sz' j r
    using that
  proof (rule slot_scan.raw_induct [rotated])
    fix scan hq' sz' r and j :: byte
    assume IH: "\<And>hq' sz' j r. scan hq' sz' j = Some r \<Longrightarrow> \<not> (hq' = hq \<and> sz' = sz)"
      and step: "(if unat j < sz' then case at hq' (unat j) of None \<Rightarrow> None
        | Some node \<Rightarrow> if osbuf node \<noteq> None then Some True else scan hq' sz' (1 + j) else Some False) = Some r"
    have "unat j < 256" using unsigned_less [of j] by simp
    then show "\<not> (hq' = hq \<and> sz' = sz)"
      using assms step IH [of hq' sz' "1 + j" r] by (auto simp: at_def split: if_splits option.splits)
  qed
  then show ?thesis by (cases "slot_scan hq sz j") auto
qed

lemma timeout_scan_ok:
  "hold_q rt = Some hq \<Longrightarrow> length hq = hold_q_sz rt \<Longrightarrow> hold_q_sz rt \<le> 255 \<Longrightarrow>
   timeout_scan hq (hold_q_sz rt) = Some (holds_frame rt)"
  using slot_scan_ok [of hq "hold_q_sz rt" 0] by (simp add: timeout_scan_def holds_frame_def list_ex_iff)

lemma flags_swap: "rt\<lparr>timerMon := m, progress := p\<rparr> = rt\<lparr>progress := p, timerMon := m\<rparr>"
  by simp

lemma timeout_rearm_ok:
  assumes "wf_conn c" "small_windows c" "set ts \<subseteq> {..<8}" "distinct ts"
  shows "\<exists>c'. timeout_rearm ts c = Some c' \<and> wf_conn c' \<and> small_windows c' \<and> same_dev c c' \<and>
    timer_armed c' = timer_armed c \<and>
    (timerScheduled c' \<longleftrightarrow> timerScheduled c \<or> (\<exists>t\<in>set ts. holds_frame (RxTid c ! t))) \<and>
    (\<forall>t<8. aggr (RxTid c' ! t) = aggr (RxTid c ! t) \<and>
       holds_frame (RxTid c' ! t) = holds_frame (RxTid c ! t) \<and>
       (t \<notin> set ts \<longrightarrow> RxTid c' ! t = RxTid c ! t) \<and>
       (t \<in> set ts \<and> holds_frame (RxTid c ! t) \<longrightarrow>
          timerMon (RxTid c' ! t) \<and> \<not> progress (RxTid c' ! t)))"
  using assms
proof (induction ts arbitrary: c)
  case Nil
  then show ?case by (simp add: same_dev_def)
next
  case (Cons i ts)
  have i: "i < 8" "i < length (RxTid c)" and len: "length (RxTid c) = 8"
    using Cons.prems by (auto simp: wf_conn_def)
  let ?rt = "RxTid c ! i"
  have sz: "hold_q_sz ?rt \<le> 255" by (rule small_windowsD [OF Cons.prems(2) i(2)])
  show ?case
  proof (cases "aggr ?rt")
    case False
    then have "timeout_rearm (i # ts) c = timeout_rearm ts c"
      using i by (simp split: option.splits)
    moreover have "\<not> holds_frame ?rt" using False Cons.prems(1) i by (auto simp: wf_conn_def)
    ultimately show ?thesis using Cons.IH [OF Cons.prems(1,2)] Cons.prems(3,4) by fastforce
  next
    case True
    note w = wf_connD [OF Cons.prems(1) i(1) True]
    then obtain hq where hq: "hold_q ?rt = Some hq" "length hq = hold_q_sz ?rt"
      by (auto elim: wf_rxtidE)
    let ?rt' = "if holds_frame ?rt then ?rt\<lparr>progress := False, timerMon := True\<rparr>
                else ?rt\<lparr>progress := progress ?rt, timerMon := False\<rparr>"
    let ?c = "(set_rxtid c i ?rt')\<lparr>timerScheduled := timerScheduled c \<or> holds_frame ?rt\<rparr>"
    have upd: "RxTid ?c = (RxTid c)[i := ?rt']" by simp
    have step: "timeout_rearm (i # ts) c = timeout_rearm ts ?c"
      using i True hq timeout_scan_ok [OF hq sz] by (simp add: set_rxtid_def flags_swap)
    have wfc: "wf_conn ?c"
      by (rule wf_conn_update [OF Cons.prems(1) upd]) (use w True in auto)
    have swc: "small_windows ?c"
      by (rule small_windows_update [OF Cons.prems(2) upd]) (use sz in simp)
    obtain c' where IH: "timeout_rearm ts ?c = Some c'" "wf_conn c'" "small_windows c'" "same_dev ?c c'"
        "timer_armed c' = timer_armed ?c"
        "timerScheduled c' \<longleftrightarrow> timerScheduled ?c \<or> (\<exists>t\<in>set ts. holds_frame (RxTid ?c ! t))"
        "\<And>t. t < 8 \<Longrightarrow> aggr (RxTid c' ! t) = aggr (RxTid ?c ! t) \<and>
          holds_frame (RxTid c' ! t) = holds_frame (RxTid ?c ! t) \<and>
          (t \<notin> set ts \<longrightarrow> RxTid c' ! t = RxTid ?c ! t) \<and>
          (t \<in> set ts \<and> holds_frame (RxTid ?c ! t) \<longrightarrow>
             timerMon (RxTid c' ! t) \<and> \<not> progress (RxTid c' ! t))"
      using Cons.IH [OF wfc swc] Cons.prems(3,4) by auto
    have other: "RxTid ?c ! t = RxTid c ! t" if "t \<noteq> i" for t using that by simp
    have self: "RxTid ?c ! i = ?rt'" using i by simp
    have "aggr (RxTid c' ! t) = aggr (RxTid c ! t) \<and>
       holds_frame (RxTid c' ! t) = holds_frame (RxTid c ! t) \<and>
       (t \<notin> set (i # ts) \<longrightarrow> RxTid c' ! t = RxTid c ! t) \<and>
       (t \<in> set (i # ts) \<and> holds_frame (RxTid c ! t) \<longrightarrow>
          timerMon (RxTid c' ! t) \<and> \<not> progress (RxTid c' ! t))" if t: "t < 8" for t
      using IH(7) [OF t] self other [of t] Cons.prems(4)
      by (cases "t = i") (auto split: if_splits)
    moreover have "(\<exists>t\<in>set ts. holds_frame (RxTid ?c ! t)) \<longleftrightarrow> (\<exists>t\<in>set ts. holds_frame (RxTid c ! t))"
      using other Cons.prems(4) by (metis distinct.simps(2))
    ultimately show ?thesis
      using step IH(1-6) by (auto simp: same_dev_def)
  qed
qed


lemma aggr_timeout_ok:
  assumes "wf_conn c" "small_windows c"
  shows "\<exists>c' env'. aggr_timeout c env = Some (c', env') \<and> wf_conn c' \<and> small_windows c' \<and>
    same_dev c c' \<and> freeQ env' = freeQ env \<and> timer_armed c' = timerScheduled c' \<and>
    (timerScheduled c' \<longleftrightarrow> (\<exists>t<8. holds_frame (RxTid c' ! t))) \<and>
    (\<forall>t<8. (holds_frame (RxTid c' ! t) \<longrightarrow> holds_frame (RxTid c ! t) \<and>
              timerMon (RxTid c' ! t) \<and> \<not> progress (RxTid c' ! t)) \<and>
       (aggr (RxTid c ! t) \<and> timerMon (RxTid c ! t) \<and> \<not> progress (RxTid c ! t) \<longrightarrow>
          \<not> holds_frame (RxTid c' ! t)))"
proof -
  let ?ts = "[0..<8]"
  have ts: "set ?ts \<subseteq> {..<8}" "distinct ?ts" by auto
  obtain c1 env1 where f: "timeout_flush ?ts c env = Some (c1, env1)" "wf_conn c1" "small_windows c1"
      "same_dev c c1" "freeQ env1 = freeQ env"
      "\<And>t. t < 8 \<Longrightarrow> (holds_frame (RxTid c1 ! t) \<longrightarrow> holds_frame (RxTid c ! t)) \<and>
       (aggr (RxTid c ! t) \<and> timerMon (RxTid c ! t) \<and> \<not> progress (RxTid c ! t)
          \<longrightarrow> \<not> holds_frame (RxTid c1 ! t))"
    using timeout_flush_ok [OF assms ts, of env] by auto
  let ?c = "c1\<lparr>timerScheduled := False, timer_armed := False\<rparr>"
  have wf: "wf_conn ?c" "small_windows ?c" using f by (simp_all add: wf_conn_def small_windows_def)
  obtain c2 where r: "timeout_rearm ?ts ?c = Some c2" "wf_conn c2" "small_windows c2" "same_dev ?c c2"
      "timer_armed c2 = False"
      "timerScheduled c2 \<longleftrightarrow> (\<exists>t\<in>set ?ts. holds_frame (RxTid c1 ! t))"
      "\<And>t. t < 8 \<Longrightarrow> holds_frame (RxTid c2 ! t) = holds_frame (RxTid c1 ! t) \<and>
       (holds_frame (RxTid c1 ! t) \<longrightarrow> timerMon (RxTid c2 ! t) \<and> \<not> progress (RxTid c2 ! t))"
    using timeout_rearm_ok [OF wf ts] by auto
  let ?c' = "if timerScheduled c2 then c2\<lparr>timer_armed := True\<rparr> else c2"
  have eq: "aggr_timeout c env = Some (?c', env1)" using f(1) r(1) by (simp add: aggr_timeout_def)
  have ex: "timerScheduled c2 \<longleftrightarrow> (\<exists>t<8. holds_frame (RxTid c2 ! t))"
    using r(6,7) by (simp only: set_upt atLeastLessThan_iff Bex_def le0 simp_thms) blast
  show ?thesis
    using eq f r ex
    by (intro exI [of _ ?c'] exI [of _ env1]) (auto simp: wf_conn_def small_windows_def same_dev_def)
qed

lemma reset_tids_ok:
  assumes "wf_conn c" "freeQ env \<noteq> None" "set ts \<subseteq> {..<8}"
  shows "\<exists>c' env'. reset_tids ts c env = Some (c', env') \<and> wf_conn c' \<and> freeQ env' \<noteq> None \<and>
    same_dev c c' \<and> timerScheduled c' = timerScheduled c \<and> timer_armed c' = timer_armed c \<and>
    (\<forall>t<8. (t \<in> set ts \<longrightarrow> idle_rxtid (RxTid c' ! t)) \<and>
      (t \<notin> set ts \<longrightarrow> RxTid c' ! t = RxTid c ! t) \<and>
      (idle_rxtid (RxTid c ! t) \<longrightarrow> idle_rxtid (RxTid c' ! t)))"
  using assms
proof (induction ts arbitrary: c env)
  case Nil
  then show ?case by (auto simp: same_dev_def)
next
  case (Cons i ts)
  have i: "i < 8" "i < length (RxTid c)" using Cons.prems by (auto simp: wf_conn_def)
  obtain rt env1 where d: "aggr_delete_tid_state c i env = Some (set_rxtid c i rt, env1)"
      "idle_rxtid rt" "freeQ env1 \<noteq> None" "wf_conn (set_rxtid c i rt)"
    using delete_tid_state_ok [OF Cons.prems(1) i(1) Cons.prems(2)] by blast
  let ?c = "set_rxtid c i rt"
  obtain c' env' where IH: "reset_tids ts ?c env1 = Some (c', env')" "wf_conn c'" "freeQ env' \<noteq> None"
      "same_dev ?c c'" "timerScheduled c' = timerScheduled ?c" "timer_armed c' = timer_armed ?c"
      "\<And>t. t < 8 \<Longrightarrow> (t \<in> set ts \<longrightarrow> idle_rxtid (RxTid c' ! t)) \<and>
         (t \<notin> set ts \<longrightarrow> RxTid c' ! t = RxTid ?c ! t) \<and>
         (idle_rxtid (RxTid ?c ! t) \<longrightarrow> idle_rxtid (RxTid c' ! t))"
    using Cons.IH [OF d(4,3)] Cons.prems(3) by auto
  have "(t \<in> set (i # ts) \<longrightarrow> idle_rxtid (RxTid c' ! t)) \<and>
      (t \<notin> set (i # ts) \<longrightarrow> RxTid c' ! t = RxTid c ! t) \<and>
      (idle_rxtid (RxTid c ! t) \<longrightarrow> idle_rxtid (RxTid c' ! t))" if "t < 8" for t
    using IH(7) [OF that] d(2) i by (cases "t = i") auto
  then show ?case using d(1) IH(1-6) by (auto simp: same_dev_def)
qed

section \<open>Reachable connections\<close>

text \<open>
  The events the driver delivers to a connection.  A traffic identifier is below
  \<open>NUM_OF_TIDS\<close>, sequence numbers are 12-bit, a window is a power of two that the 8-bit scan
  of the timer handler can see, and a block-ack request names an active agreement.
\<close>

inductive aggr_reach :: "AGGR_CONN_INFO \<Rightarrow> aggr_env \<Rightarrow> bool" where
  init: "aggr_init_conn True = Some c \<Longrightarrow> fst (aggr_init True al) = env \<Longrightarrow> aggr_reach c env"
| recv: "aggr_reach c env \<Longrightarrow> tid < 8 \<Longrightarrow> n < 4096 \<Longrightarrow> aggr_dev c \<noteq> None \<Longrightarrow>
     aggr_process_recv_frm c tid n False buf env = Some (c', env', left) \<Longrightarrow> aggr_reach c' env'"
| bar: "aggr_reach c env \<Longrightarrow> tid < 8 \<Longrightarrow> aggr (RxTid c ! tid) \<Longrightarrow>
     aggr_process_bar c tid n env = Some (c', env') \<Longrightarrow> aggr_reach c' env'"
| addba: "aggr_reach c env \<Longrightarrow> tid < 8 \<Longrightarrow> n < 4096 \<Longrightarrow> 0 < w \<Longrightarrow> w \<le> 127 \<Longrightarrow> 2 * w dvd 4096 \<Longrightarrow>
     aggr_recv_addba_req_evt c tid n w ok env = Some (c', env') \<Longrightarrow> aggr_reach c' env'"
| delba: "aggr_reach c env \<Longrightarrow> tid < 8 \<Longrightarrow>
     aggr_recv_delba_req_evt c tid env = Some (c', env') \<Longrightarrow> aggr_reach c' env'"
| reset: "aggr_reach c env \<Longrightarrow> aggr_reset_state c d env = Some (c', env') \<Longrightarrow> aggr_reach c' env'"
| timeout: "aggr_reach c env \<Longrightarrow> timerScheduled c \<Longrightarrow> aggr_timeout c env = Some (c', env') \<Longrightarrow>
     aggr_reach c' env'"

definition timer_ok :: "AGGR_CONN_INFO \<Rightarrow> bool" where
  "timer_ok c \<longleftrightarrow> (timerScheduled c = timer_armed c) \<and>
     ((\<exists>rt \<in> set (RxTid c). holds_frame rt) \<longrightarrow> timerScheduled c)"

definition conn_ok :: "AGGR_CONN_INFO \<Rightarrow> aggr_env \<Rightarrow> bool" where
  "conn_ok c env \<longleftrightarrow> wf_conn c \<and> small_windows c \<and> timer_ok c \<and> freeQ env \<noteq> None"

lemma timer_ok_update:
  "timer_ok c \<Longrightarrow> RxTid c' = (RxTid c)[t := rt] \<Longrightarrow> timerScheduled c' = timerScheduled c \<Longrightarrow>
   timer_armed c' = timer_armed c \<Longrightarrow>
   (holds_frame rt \<longrightarrow> timerScheduled c') \<Longrightarrow> timer_ok c'"
  by (auto simp: timer_ok_def dest!: set_update_subset_insert [THEN subsetD])


lemma conn_ok_init:
  assumes "aggr_init_conn True = Some c"
  shows "conn_ok c (fst (aggr_init True al))"
proof -
  have c: "c = \<lparr>aggr_dev = None, aggr_sz = 8, timerScheduled = False, timer_armed = False,
                RxTid = replicate 8 init_rxtid\<rparr>"
    using assms by (simp add: aggr_init_conn_def)
  have "\<not> holds_frame init_rxtid" by (simp add: holds_frame_def init_rxtid_def)
  then show ?thesis
    by (auto simp: c conn_ok_def wf_conn_def small_windows_def timer_ok_def init_rxtid_def aggr_init_def
        split: prod.splits)
qed

lemma flush_shrinks:
  assumes c: "wf_conn c" "tid < 8" "aggr (RxTid c ! tid)"
    and r: "refines (RxTid c ! tid) out rt'
            (spec_flush (hold_q_sz (RxTid c ! tid)) n (abs_rxtid (RxTid c ! tid)))"
    and h: "holds_frame rt'"
  shows "holds_frame (RxTid c ! tid)"
proof -
  let ?rt = "RxTid c ! tid" and ?sz = "hold_q_sz (RxTid c ! tid)"
  have w: "wf_rxtid ?rt" using wf_connD [OF c] by simp
  then have s: "seq_next ?rt < 4096" "0 < ?sz" "?sz \<le> 4096"
    using window_size_bounds by (auto elim: wf_rxtidE)
  obtain k where k: "k \<le> 4096" "spec_flush ?sz n (abs_rxtid ?rt) = release k (abs_rxtid ?rt)"
  proof -
    let ?d = "if n = 0 then 0 else nat ((int n - int (seq_next ?rt)) mod int ?sz)"
    have "?d \<le> ?sz" using s by (simp add: nat_le_iff order_less_imp_le)
    then show ?thesis using s
      by (intro that [of "if ?d = 0 then ?sz else ?d"]) (auto simp: spec_flush_def abs_rxtid_def Let_def)
  qed
  have "held rt' = (\<lambda>m. if m < 4096 \<and> sdist (seq_next ?rt) m < k then None else held ?rt m)"
    using r k(2) release_out [OF s(1) k(1)] by (simp add: refines_def abs_rxtid_def)
  moreover have "wf_rxtid rt'" using r by (simp add: refines_def)
  ultimately show ?thesis
    using h holds_frame_iff [OF w] holds_frame_iff [of rt'] by (auto split: if_splits)
qed

lemma conn_ok_recv:
  assumes ok: "conn_ok c env" and t: "tid < 8" "n < 4096" and d: "aggr_dev c \<noteq> None"
  shows "\<exists>c' env' left. aggr_process_recv_frm c tid n False buf env = Some (c', env', left) \<and> conn_ok c' env'"
proof (cases "aggr (RxTid c ! tid)")
  case False
  then show ?thesis using ok t by (simp add: aggr_process_recv_frm_def conn_ok_def wf_conn_def)
next
  case True
  have wf: "wf_conn c" "small_windows c" "timer_ok c" using ok by (auto simp: conn_ok_def)
  obtain dv where dv: "aggr_dev c = Some dv" using d by auto
  obtain c' env' rt' where r: "aggr_process_recv_frm c tid n False buf env = Some (c', env', None)"
      "wf_conn c'" "RxTid c' = (RxTid c)[tid := rt']" "hold_q_sz rt' = hold_q_sz (RxTid c ! tid)"
      "holds_frame rt' \<longrightarrow> timerScheduled c'" "timerScheduled c \<longrightarrow> timerScheduled c'"
      "timerScheduled c = timer_armed c \<longrightarrow> timerScheduled c' = timer_armed c'" "freeQ env' = freeQ env"
    using recv_refines [OF wf(1) t(1) True t(2) dv, of buf env] by blast
  have "small_windows c'"
    by (rule small_windows_update [OF wf(2) r(3)])
      (use r(4) small_windowsD [OF wf(2), of tid] wf(1) t in \<open>simp add: wf_conn_def\<close>)
  moreover have "timer_ok c'"
    using wf(3) r(3,5-7) by (auto simp: timer_ok_def dest!: set_update_subset_insert [THEN subsetD])
  ultimately show ?thesis using r ok by (auto simp: conn_ok_def)
qed

lemma conn_ok_bar:
  assumes ok: "conn_ok c env" and t: "tid < 8" "aggr (RxTid c ! tid)"
  shows "\<exists>c' env'. aggr_process_bar c tid n env = Some (c', env') \<and> conn_ok c' env'"
proof -
  let ?rt = "RxTid c ! tid"
  have wf: "wf_conn c" "small_windows c" "timer_ok c" using ok by (auto simp: conn_ok_def)
  have len: "tid < length (RxTid c)" using wf(1) t by (simp add: wf_conn_def)
  obtain out rt' where r: "aggr_deque_frms c tid n ALL_SEQNO env =
        Some (set_rxtid c tid rt', aggr_dispatch_frames c out env)"
      "refines ?rt out rt' (spec_flush (hold_q_sz ?rt) n (abs_rxtid ?rt))"
      "wf_conn (set_rxtid c tid rt')"
    using deque_frms_refines [OF wf(1) t] by blast
  have h: "holds_frame rt' \<longrightarrow> holds_frame ?rt" using flush_shrinks [OF wf(1) t r(2)] by blast
  have "small_windows (set_rxtid c tid rt')"
    by (rule small_windows_update [OF wf(2) set_rxtid_simps(5)])
      (use r(2) small_windowsD [OF wf(2) len] in \<open>simp add: refines_def same_agreement_def\<close>)
  moreover have "timer_ok (set_rxtid c tid rt')"
    by (rule timer_ok_update [OF wf(3) set_rxtid_simps(5)])
      (use h wf(3) nth_mem [OF len] in \<open>auto simp: timer_ok_def\<close>)
  ultimately show ?thesis using r ok by (auto simp: conn_ok_def aggr_process_bar_def)
qed

lemma conn_ok_set:
  assumes ok: "conn_ok c env" and "wf_conn (set_rxtid c tid rt)" "\<not> holds_frame rt"
    "hold_q_sz rt \<le> 255" "freeQ env' \<noteq> None"
  shows "conn_ok (set_rxtid c tid rt) env'"
  using assms small_windows_update [OF _ set_rxtid_simps(5), of c rt tid]
    timer_ok_update [OF _ set_rxtid_simps(5), of c tid rt]
  by (simp add: conn_ok_def)

lemma conn_ok_addba:
  assumes ok: "conn_ok c env" and t: "tid < 8" and w: "0 < w" "w \<le> 127" "2 * w dvd 4096" "n < 4096"
  shows "\<exists>c' env'. aggr_recv_addba_req_evt c tid n w mem env = Some (c', env') \<and> conn_ok c' env'"
proof -
  have wf: "wf_conn c" "freeQ env \<noteq> None" using ok by (auto simp: conn_ok_def)
  obtain rt env' where r: "aggr_recv_addba_req_evt c tid n w mem env = Some (set_rxtid c tid rt, env')"
      "wf_conn (set_rxtid c tid rt)" "freeQ env' \<noteq> None" "\<not> holds_frame rt" "hold_q_sz rt \<le> 255"
    using addba_ok [OF wf(1) t wf(2) w(1,3,4), of mem] w(2) small_windowsD [of c tid] ok t
    by (auto simp: conn_ok_def wf_conn_def)
  then show ?thesis using conn_ok_set [OF ok r(2,4,5,3)] by blast
qed


lemma conn_ok_delba:
  assumes ok: "conn_ok c env" and t: "tid < 8"
  shows "\<exists>c' env'. aggr_recv_delba_req_evt c tid env = Some (c', env') \<and> conn_ok c' env'"
proof (cases "aggr (RxTid c ! tid)")
  case False
  then show ?thesis using ok t by (simp add: aggr_recv_delba_req_evt_def conn_ok_def wf_conn_def)
next
  case True
  have wf: "wf_conn c" "freeQ env \<noteq> None" using ok by (auto simp: conn_ok_def)
  obtain rt env' where r: "aggr_delete_tid_state c tid env = Some (set_rxtid c tid rt, env')"
      "idle_rxtid rt" "freeQ env' \<noteq> None" "wf_conn (set_rxtid c tid rt)"
    using delete_tid_state_ok [OF wf(1) t wf(2)] by blast
  have "\<not> holds_frame rt" "hold_q_sz rt \<le> 255" using r(2) by (auto simp: idle_rxtid_def holds_frame_def)
  then show ?thesis using conn_ok_set [OF ok r(4) _ _ r(3)] r(1) True wf(1) t
    by (auto simp: aggr_recv_delba_req_evt_def wf_conn_def)
qed

lemma conn_ok_reset:
  assumes ok: "conn_ok c env"
  shows "\<exists>c' env'. aggr_reset_state c d env = Some (c', env') \<and>
    conn_ok c' env' \<and> (\<forall>t<8. idle_rxtid (RxTid c' ! t)) \<and> aggr_dev c' = d"
proof -
  let ?c = "c\<lparr>aggr_dev := d\<rparr>"
  have ts: "set [0..<8] \<subseteq> {..<8::nat}" "\<And>t. t \<in> set [0..<8] \<longleftrightarrow> t < (8::nat)" by auto
  have wf: "wf_conn ?c" "freeQ env \<noteq> None" using ok by (auto simp: conn_ok_def wf_conn_def)
  obtain c' env' where r: "reset_tids [0..<8] ?c env = Some (c', env')" "wf_conn c'" "freeQ env' \<noteq> None"
      "same_dev ?c c'" "timerScheduled c' = timerScheduled c" "timer_armed c' = timer_armed c"
      and idle: "\<And>t. t < 8 \<Longrightarrow> idle_rxtid (RxTid c' ! t)"
    using reset_tids_ok [OF wf, of "[0..<8]"] ts by auto
  have "\<forall>rt \<in> set (RxTid c'). idle_rxtid rt"
    using idle r(2) by (auto simp: wf_conn_def in_set_conv_nth)
  then have "small_windows c' \<and> (\<forall>rt \<in> set (RxTid c'). \<not> holds_frame rt)"
    by (auto simp: small_windows_def idle_rxtid_def holds_frame_def)
  then show ?thesis using r idle ok
    by (auto simp: aggr_reset_state_def conn_ok_def timer_ok_def same_dev_def)
qed

lemma conn_ok_timeout:
  assumes ok: "conn_ok c env"
  shows "\<exists>c' env'. aggr_timeout c env = Some (c', env') \<and> conn_ok c' env'"
proof -
  have wf: "wf_conn c" "small_windows c" using ok by (auto simp: conn_ok_def)
  obtain c' env' where r: "aggr_timeout c env = Some (c', env')" "wf_conn c'" "small_windows c'"
      "freeQ env' = freeQ env" "timer_armed c' = timerScheduled c'"
      "timerScheduled c' \<longleftrightarrow> (\<exists>t<8. holds_frame (RxTid c' ! t))"
    using aggr_timeout_ok [OF wf, of env] by blast
  have "timer_ok c'"
    using r(2,5,6) by (auto simp: timer_ok_def wf_conn_def in_set_conv_nth)
  then show ?thesis using r ok by (auto simp: conn_ok_def)
qed


section \<open>Properties\<close>

lemma release_run_release:
  assumes "s < 4096" "j \<le> 4096"
  shows "\<exists>k\<le>j. release_run j (s, H, out) = release k (s, H, out) \<and>
    (\<forall>i<k. H ((s + i) mod 4096) \<noteq> None) \<and> (k < j \<longrightarrow> H ((s + k) mod 4096) = None)"
  using assms
proof (induction j arbitrary: s H out)
  case 0
  then show ?case by simp
next
  case (Suc j)
  show ?case
  proof (cases "H s")
    case None
    then show ?thesis using Suc.prems by (intro exI [of _ 0]) simp
  next
    case (Some b)
    let ?s = "(s + 1) mod 4096" and ?H = "H(s := None)"
    have "?s < 4096" "j \<le> 4096" using Suc.prems by simp_all
    then obtain k where k: "k \<le> j" "release_run j (?s, ?H, out @ [b]) = release k (?s, ?H, out @ [b])"
        "\<forall>i<k. ?H ((?s + i) mod 4096) \<noteq> None" "k < j \<longrightarrow> ?H ((?s + k) mod 4096) = None"
      using Suc.IH [of ?s ?H "out @ [b]"] by blast
    have sh: "(?s + i) mod 4096 = (s + Suc i) mod 4096" for i by (simp add: mod_add_left_eq)
    have ne: "(s + Suc i) mod 4096 \<noteq> s" if "i < j" for i
      using sdist_add [OF Suc.prems(1), of "Suc i"] that Suc.prems(2) by (metis nat.distinct(1) sdist_self
          Suc_le_lessD Suc_less_eq le_less_trans less_le_trans)
    have "\<forall>i<Suc k. H ((s + i) mod 4096) \<noteq> None"
    proof (intro allI impI)
      fix i assume "i < Suc k"
      then show "H ((s + i) mod 4096) \<noteq> None"
      proof (cases i)
        case 0
        then show ?thesis using Some Suc.prems by simp
      next
        case (Suc i')
        then show ?thesis using k(3) \<open>i < Suc k\<close> unfolding sh by (metis fun_upd_other fun_upd_same Suc_less_eq)
      qed
    qed
    moreover have "k < j \<longrightarrow> H ((s + Suc k) mod 4096) = None"
      using k(4) ne [of k] unfolding sh by (metis fun_upd_other)
    ultimately show ?thesis using k(1,2) Some
      by (intro exI [of _ "Suc k"]) (simp add: pop_def)
  qed
qed

text \<open>Away from the window that starts at 0 the code releases what the comments ask for.\<close>

lemma spec_slide_shift:
  assumes "s < 4096" "n < 4096" "2 \<le> sz" "sz dvd 4096" "n + 1 = sz \<longrightarrow> sdist s n < sz"
  shows "spec_slide sz n (s, H, out) = spec_shift sz n (s, H, out)"
proof (cases "sz \<le> sdist s n \<and> sdist s n \<le> 2 * sz - 2")
  case True
  let ?w = "(int n - int sz + 1) mod 4096"
  have sz: "sz \<le> 4096" using assms(4) by (rule dvd_imp_le) simp
  have nz: "?w \<noteq> 0"
  proof
    assume "?w = 0"
    then have "(4096::int) dvd int n - int sz + 1" by (rule mod_0_imp_dvd)
    moreover have "\<bar>int n - int sz + 1\<bar> < 4096" using sz assms(2,3) by linarith
    ultimately have "int n - int sz + 1 = 0" using zdvd_not_zless [of "\<bar>int n - int sz + 1\<bar>" 4096] by auto
    then have "n + 1 = sz" by linarith
    then show False using assms(5) True by simp
  qed
  have sd: "int (sdist s n) = (int n - int s) mod 4096" by (simp add: sdist_def)
  have "(?w - int s) mod 4096 = (int (sdist s n) + 1 - int sz) mod 4096"
  proof -
    have "(?w - int s) mod 4096 = (int n - int sz + 1 - int s) mod 4096" by (rule mod_diff_left_eq)
    also have "\<dots> = ((int n - int s) + (1 - int sz)) mod 4096" by (simp add: algebra_simps)
    also have "\<dots> = ((int n - int s) mod 4096 + (1 - int sz)) mod 4096" by (rule mod_add_left_eq [symmetric])
    finally show ?thesis unfolding sd by (simp add: add_diff_eq)
  qed
  then have "(?w - int s) mod 4096 mod int sz = (int (sdist s n) + 1 - int sz) mod 4096 mod int sz" by (rule arg_cong)
  moreover have "int sz dvd 4096" using assms(4) int_dvd_int_iff [of sz 4096] by simp
  ultimately have "(?w - int s) mod int sz = (int (sdist s n) + 1 - int sz) mod int sz"
    by (simp only: mod_mod_cancel)
  also have "\<dots> = int (sdist s n) + 1 - int sz"
    using True assms(3) by (intro mod_pos_pos_trivial) linarith+
  finally have "nat ((?w - int s) mod int sz) = sdist s n + 1 - sz" "\<not> (?w - int s) mod int sz \<le> 0"
    using True by linarith+
  moreover have "0 < ?w" using nz pos_mod_sign [of 4096 "int n - int sz + 1"] by linarith
  ultimately show ?thesis using True assms(3) by (simp add: spec_slide_def spec_shift_def spec_flush_def Let_def)
qed (auto simp: spec_slide_def spec_shift_def spec_flush_def)

text \<open>C4: An MPDU on an active agreement that is neither a duplicate of a held frame nor behind the window never faults
  and does to the ring what the documented reorder buffer does to its map: the same frames go up, in the
  same order, to the connection's device, the new ring represents the new map, and the connection stays
  well formed.  One more case is left out, a frame that moves the window to one that starts at 0.  What the code
  does with these three is in the next two lemmas and, for the duplicate, in \<open>ReorderWitness\<close>.\<close>

theorem aggr_recv_refines_reorder:
  assumes "wf_conn c" and "tid < 8" and "aggr (RxTid c ! tid)" and "n < 4096"
    and "aggr_dev c = Some d"
    and "held (RxTid c ! tid) n = None" and "sdist (seq_next (RxTid c ! tid)) n < 2048"
    and "n + 1 = hold_q_sz (RxTid c ! tid) \<longrightarrow> sdist (seq_next (RxTid c ! tid)) n < hold_q_sz (RxTid c ! tid)"
  shows "\<exists>c' env' out. aggr_process_recv_frm c tid n False buf env = Some (c', env', None) \<and>
     wf_conn c' \<and> rx_out env' = rx_out env @ map (Pair d) out \<and>
     spec_recv (hold_q_sz (RxTid c ! tid)) n buf
       (seq_next (RxTid c ! tid), held (RxTid c ! tid), [])
     = (seq_next (RxTid c' ! tid), held (RxTid c' ! tid), out)"
proof -
  let ?rt = "RxTid c ! tid"
  have t: "tid < length (RxTid c)" "wf_rxtid ?rt" using wf_connD [OF assms(1-3)] by simp_all
  then have "spec_slide (hold_q_sz ?rt) n (seq_next ?rt, held ?rt, []) = spec_shift (hold_q_sz ?rt) n (seq_next ?rt, held ?rt, [])"
    by (intro spec_slide_shift assms(4,8)) (auto elim: wf_rxtidE)
  then show ?thesis
    using recv_refines [OF assms(1-5), of buf env] assms(6,7) t(1) by (auto simp: spec_recv_def spec_take_def)
qed

text \<open>A frame that moves the window to one starting at 0 flushes all of the old window, also the frames that lie in the new one.\<close>

lemma aggr_window_zero_flushes:
  assumes "wf_conn c" and "tid < 8" and "aggr (RxTid c ! tid)" and "n < 4096" and "aggr_dev c = Some d"
    and "n + 1 = hold_q_sz (RxTid c ! tid)" and "hold_q_sz (RxTid c ! tid) \<le> sdist (seq_next (RxTid c ! tid)) n"
  shows "\<exists>c' env' out s H out'. aggr_process_recv_frm c tid n False buf env = Some (c', env', None) \<and>
     rx_out env' = rx_out env @ map (Pair d) out \<and>
     release (hold_q_sz (RxTid c ! tid)) (seq_next (RxTid c ! tid), held (RxTid c ! tid), []) = (s, H, out') \<and>
     release_run (hold_q_sz (RxTid c ! tid)) (if sdist (seq_next (RxTid c ! tid)) n \<le> 2 * hold_q_sz (RxTid c ! tid) - 2
       then s else 0, H(n := Some buf), out') = (seq_next (RxTid c' ! tid), held (RxTid c' ! tid), out)"
proof -
  have "tid < length (RxTid c)" using wf_connD [OF assms(1-3)] by simp
  moreover have "(int n - int (hold_q_sz (RxTid c ! tid)) + 1) mod 4096 = 0" using assms(6) by simp
  ultimately show ?thesis
    using recv_refines [OF assms(1-5), of buf env] assms(7)
    by (cases "release (hold_q_sz (RxTid c ! tid)) (seq_next (RxTid c ! tid), held (RxTid c ! tid), [])")
      (auto simp: spec_take_def spec_shift_def spec_flush_def)
qed

text \<open>A frame behind the window is not dropped: all held frames go up, the window goes back so that this frame is its
  last, and the frame is held.\<close>

lemma aggr_old_frame_rewinds:
  assumes "wf_conn c" and "tid < 8" and "aggr (RxTid c ! tid)" and "n < 4096"
    and "aggr_dev c = Some d" and "2048 \<le> sdist (seq_next (RxTid c ! tid)) n" and "hold_q_sz (RxTid c ! tid) \<le> 1024"
  shows "\<exists>c' env'. aggr_process_recv_frm c tid n False buf env = Some (c', env', None) \<and>
     sdist (seq_next (RxTid c' ! tid)) n = hold_q_sz (RxTid c ! tid) - 1 \<and>
     (\<forall>m<4096. held (RxTid c' ! tid) m = (if m = n then Some buf else None)) \<and>
     rx_out env' = rx_out env @ map (Pair d) (List.map_filter (held (RxTid c ! tid))
       (map (\<lambda>i. (seq_next (RxTid c ! tid) + i) mod 4096) [0..<hold_q_sz (RxTid c ! tid)]))"
proof -
  let ?rt = "RxTid c ! tid"
  let ?s = "seq_next ?rt" and ?sz = "hold_q_sz ?rt"
  let ?w = "nat ((int n - int ?sz + 1) mod 4096)"
  have w: "wf_rxtid ?rt" using wf_connD [OF assms(1-3)] by simp
  have b: "?s < 4096" "2 \<le> ?sz" "?sz \<le> 4096" "tid < length (RxTid c)"
    using w wf_connD [OF assms(1-3)] window_size_bounds by (auto elim: wf_rxtidE)
  obtain c' env' out rt' where r: "aggr_process_recv_frm c tid n False buf env = Some (c', env', None)"
      "RxTid c' = (RxTid c)[tid := rt']" "rx_out env' = rx_out env @ map (Pair d) out"
      "spec_take ?sz n buf (?s, held ?rt, []) = (seq_next rt', held rt', out)"
    using recv_refines [OF assms(1-5), of buf env] by blast
  define H where "H = (\<lambda>m. if m < 4096 \<and> sdist ?s m < ?sz then None else held ?rt m)"
  have H: "H m = None" if "m < 4096" for m
    using held_in_window [OF w _ that] that by (cases "held ?rt m") (auto simp: H_def)
  have sh: "spec_shift ?sz n (?s, held ?rt, []) = (?w, H, List.map_filter (held ?rt) (map (\<lambda>i. (?s + i) mod 4096) [0..<?sz]))"
    using assms(6,7) b release_out [OF b(1,3), of "held ?rt" "[]"] by (simp add: spec_shift_def spec_flush_def H_def)
  have iw: "int ?w = (int n - int ?sz + 1) mod 4096" by simp
  have "(int n - int ?w) mod 4096 = (int n - (int n - int ?sz + 1)) mod 4096"
    unfolding iw by (rule mod_diff_right_eq)
  also have "\<dots> = int ?sz - 1" using b by (simp add: algebra_simps)
  finally have d: "sdist ?w n = ?sz - 1" using b(2) by (simp add: sdist_def nat_diff_distrib)
  then have "?w \<noteq> n" using b(2) by (metis One_nat_def Suc_1 diff_is_0_eq not_less_eq_eq sdist_self)
  moreover have "?w < 4096" by (simp add: nat_less_iff)
  ultimately have "release_run ?sz (?w, H(n := Some buf), out') = (?w, H(n := Some buf), out')" for out'
    using H by (cases ?sz) simp_all
  then have "seq_next rt' = ?w" "held rt' = H(n := Some buf)"
    "out = List.map_filter (held ?rt) (map (\<lambda>i. (?s + i) mod 4096) [0..<?sz])"
    using r(4) sh by (simp_all add: spec_take_def)
  then show ?thesis using r b(4) d H by (intro exI [of _ c'] exI [of _ env']) simp
qed

text \<open>In-order delivery: a frame inside the window releases exactly the unbroken run of frames
  that starts at the next expected sequence number, in sequence order, and afterwards the next
  expected frame is one that has not arrived.\<close>

theorem aggr_recv_in_order:
  assumes "wf_conn c" and "tid < 8" and "aggr (RxTid c ! tid)" and "n < 4096"
    and "aggr_dev c = Some d"
    and "sdist (seq_next (RxTid c ! tid)) n < hold_q_sz (RxTid c ! tid)"
  shows "\<exists>c' env' k. aggr_process_recv_frm c tid n False buf env = Some (c', env', None) \<and>
     k \<le> hold_q_sz (RxTid c ! tid) \<and>
     seq_next (RxTid c' ! tid) = (seq_next (RxTid c ! tid) + k) mod 4096 \<and>
     (\<forall>i<k. ((held (RxTid c ! tid))(n := Some buf)) ((seq_next (RxTid c ! tid) + i) mod 4096) \<noteq> None) \<and>
     rx_out env' = rx_out env @ map (\<lambda>i. (d, the (((held (RxTid c ! tid))(n := Some buf))
                     ((seq_next (RxTid c ! tid) + i) mod 4096)))) [0..<k] \<and>
     held (RxTid c' ! tid) (seq_next (RxTid c' ! tid)) = None"
proof -
  let ?rt = "RxTid c ! tid"
  let ?s = "seq_next ?rt" and ?sz = "hold_q_sz ?rt" and ?H = "(held ?rt)(n := Some buf)"
  have b: "?s < 4096" "?sz \<le> 4096" "tid < length (RxTid c)"
    using wf_connD [OF assms(1-3)] window_size_bounds by (auto elim: wf_rxtidE)
  obtain c' env' out rt' where r: "aggr_process_recv_frm c tid n False buf env = Some (c', env', None)"
      "wf_conn c'" "RxTid c' = (RxTid c)[tid := rt']" "aggr rt'" "hold_q_sz rt' = ?sz"
      "rx_out env' = rx_out env @ map (Pair d) out"
      "spec_take ?sz n buf (?s, held ?rt, []) = (seq_next rt', held rt', out)"
    using recv_refines [OF assms(1-5), of buf env] by blast
  obtain k where k: "k \<le> ?sz" "release_run ?sz (?s, ?H, []) = release k (?s, ?H, [])"
      "\<forall>i<k. ?H ((?s + i) mod 4096) \<noteq> None" "k < ?sz \<longrightarrow> ?H ((?s + k) mod 4096) = None"
    using release_run_release [OF b(1,2)] by blast
  have rel: "release k (?s, ?H, []) = (seq_next rt', held rt', out)"
    using r(7) assms(6) k(2) by (simp add: spec_take_def spec_shift_def)
  have out: "seq_next rt' = (?s + k) mod 4096"
      "held rt' = (\<lambda>m. if m < 4096 \<and> sdist ?s m < k then None else ?H m)"
      "out = List.map_filter ?H (map (\<lambda>i. (?s + i) mod 4096) [0..<k])"
    using rel release_out [OF b(1), of k ?H "[]"] k(1) b(2) by auto
  have mf: "(\<forall>x \<in> set xs. f x \<noteq> None) \<Longrightarrow> List.map_filter f xs = map (\<lambda>x. the (f x)) xs"
    for f :: "nat \<Rightarrow> netbuf option" and xs
    by (induction xs) (auto simp: List.map_filter_simps)
  have o: "out = map (\<lambda>i. the (?H ((?s + i) mod 4096))) [0..<k]"
    unfolding out(3) using k(3) by (subst mf) (auto simp: o_def)
  have rt': "RxTid c' ! tid = rt'" using r(3) b(3) by simp
  have w': "wf_rxtid rt'" using wf_connD [OF r(2) assms(2)] r(4) rt' by simp
  have "held rt' (seq_next rt') = None"
  proof (rule ccontr)
    assume ne: "held rt' (seq_next rt') \<noteq> None"
    then have H: "?H ((?s + k) mod 4096) \<noteq> None" using out(1,2) by (auto split: if_splits)
    then have "k = ?sz" using k(1,4) by auto
    moreover have "sdist ?s ((?s + k) mod 4096) < ?sz"
    proof (cases "(?s + k) mod 4096 = n")
      case False
      then show ?thesis using H held_in_window [of ?rt "(?s + k) mod 4096"] wf_connD [OF assms(1-3)]
        by auto
    qed (use assms(6) in simp)
    ultimately show False
    proof (cases "?sz = 4096")
      case True
      then have "sdist ?s ((?s + k) mod 4096) < k" using \<open>k = ?sz\<close> by simp
      then show False using ne out(1,2) by simp
    qed (use sdist_add [OF b(1), of k] b(2) in auto)
  qed
  then show ?thesis using r k(1,3) out(1) o rt' by (auto simp: o_def intro!: exI [of _ k])
qed


lemma aggr_reach_conn_ok: "aggr_reach c env \<Longrightarrow> conn_ok c env"
proof (induction rule: aggr_reach.induct)
  case (init c al env)
  then show ?case using conn_ok_init by blast
next
  case (recv c env tid n buf c' env' left)
  then show ?case using conn_ok_recv [of c env tid n buf] by auto
next
  case (bar c env tid n c' env')
  then show ?case using conn_ok_bar [of c env tid n] by auto
next
  case (addba c env tid n w ok c' env')
  then show ?case using conn_ok_addba [of c env tid w n ok] by auto
next
  case (delba c env tid c' env')
  then show ?case using conn_ok_delba [of c env tid] by auto
next
  case (reset c env d c' env')
  then show ?case using conn_ok_reset [of c env d] by auto
next
  case (timeout c env c' env')
  then show ?case using conn_ok_timeout [of c env] by auto
qed

text \<open>A block-ack request for a sequence number \<open>n\<close> inside the window moves the window to
  \<open>n\<close>: the frames held before \<open>n\<close> go up in sequence order and those from \<open>n\<close> on stay.\<close>

theorem aggr_bar_moves_window:
  assumes "wf_conn c" and "tid < 8" and "aggr (RxTid c ! tid)" and "aggr_dev c = Some d"
    and "n < 4096" and "n \<noteq> 0" and "n \<noteq> seq_next (RxTid c ! tid)"
    and "sdist (seq_next (RxTid c ! tid)) n < hold_q_sz (RxTid c ! tid)"
  shows "\<exists>c' env'. aggr_process_bar c tid n env = Some (c', env') \<and>
     seq_next (RxTid c' ! tid) = n \<and>
     rx_out env' = rx_out env @ map (Pair d) (List.map_filter (held (RxTid c ! tid))
       (map (\<lambda>i. (seq_next (RxTid c ! tid) + i) mod 4096) [0..<sdist (seq_next (RxTid c ! tid)) n])) \<and>
     (\<forall>m<4096. held (RxTid c' ! tid) m =
       (if sdist (seq_next (RxTid c ! tid)) m < sdist (seq_next (RxTid c ! tid)) n then None
        else held (RxTid c ! tid) m))"
proof -
  let ?rt = "RxTid c ! tid"
  let ?s = "seq_next ?rt" and ?sz = "hold_q_sz ?rt"
  have b: "?s < 4096" "0 < ?sz" "?sz \<le> 4096" "?sz dvd 4096" "tid < length (RxTid c)" "rx_q ?rt = []"
    using wf_connD [OF assms(1-3)] window_size_bounds by (auto elim: wf_rxtidE)
  obtain out rt' where r: "aggr_deque_frms c tid n ALL_SEQNO env =
        Some (set_rxtid c tid rt', aggr_dispatch_frames c out env)"
      "refines ?rt out rt' (spec_flush ?sz n (abs_rxtid ?rt))"
    using deque_frms_refines [OF assms(1-3)] by blast
  let ?x = "sdist ?s n"
  have "?x \<noteq> 0" using add_sdist [OF b(1) assms(5)] assms(7) b(1) by (metis add_0_right mod_less)
  have "int ?sz dvd 4096" using b(4) by (metis of_nat_dvd_iff of_nat_numeral)
  then have "(int n - int ?s) mod int ?sz = (int n - int ?s) mod 4096 mod int ?sz"
    by (rule mod_mod_cancel [symmetric])
  also have "(int n - int ?s) mod 4096 = int ?x" by (simp add: sdist_def)
  finally have x: "nat ((int n - int ?s) mod int ?sz) = ?x" using assms(8) by simp
  have "spec_flush ?sz n (abs_rxtid ?rt) = release ?x (?s, held ?rt, [])"
    using x \<open>?x \<noteq> 0\<close> assms(6) b(6) by (simp only: spec_flush_def abs_rxtid_def prod.case Let_def if_False)
  then have "seq_next rt' = n" "held rt' = (\<lambda>m. if m < 4096 \<and> sdist ?s m < ?x then None else held ?rt m)"
      "out = List.map_filter (held ?rt) (map (\<lambda>i. (?s + i) mod 4096) [0..<?x])"
    using r(2) release_out [OF b(1), of ?x "held ?rt" "[]"] add_sdist [OF b(1) assms(5)]
      less_imp_le [OF sdist_less [of ?s n]]
    by (auto simp: refines_def)
  then show ?thesis using r(1) b(5) assms(4)
    by (auto simp: aggr_process_bar_def aggr_dispatch_frames_def)
qed

text \<open>Sequence number 0 is not treated as a number: a block-ack request for 0, though 0 lies
  inside the window, empties the whole window and moves it a full window length past its start.\<close>

theorem aggr_bar_seq_zero:
  assumes "wf_conn c" and "tid < 8" and "aggr (RxTid c ! tid)"
  shows "\<exists>c' env'. aggr_process_bar c tid 0 env = Some (c', env') \<and>
     seq_next (RxTid c' ! tid) = (seq_next (RxTid c ! tid) + hold_q_sz (RxTid c ! tid)) mod 4096 \<and>
     \<not> holds_frame (RxTid c' ! tid)"
proof -
  let ?rt = "RxTid c ! tid"
  have b: "seq_next ?rt < 4096" "hold_q_sz ?rt \<le> 4096" "tid < length (RxTid c)"
    using wf_connD [OF assms(1-3)] window_size_bounds by (auto elim: wf_rxtidE)
  obtain out rt' where r: "aggr_deque_frms c tid 0 ALL_SEQNO env =
        Some (set_rxtid c tid rt', aggr_dispatch_frames c out env)"
      "refines ?rt out rt' (spec_flush (hold_q_sz ?rt) 0 (abs_rxtid ?rt))"
    using deque_frms_refines [OF assms(1-3)] by blast
  then have "seq_next rt' = (seq_next ?rt + hold_q_sz ?rt) mod 4096"
    using release_out [OF b(1,2)] by (auto simp: refines_def spec_flush_def abs_rxtid_def)
  then show ?thesis using r b(3) full_flush_empties [OF assms(1-3) r(2)]
    by (auto simp: aggr_process_bar_def)
qed

text \<open>The traffic identifier of an ADDBA or DELBA event is four bits wide and is not checked:
  a value of 8 or more indexes past the \<open>RxTid\<close> array.\<close>

theorem aggr_addba_tid_unchecked:
  assumes "length (RxTid c) = NUM_OF_TIDS" and "8 \<le> tid"
  shows "aggr_recv_addba_req_evt c tid n w ok env = None \<and> aggr_recv_delba_req_evt c tid env = None"
  using assms by (simp add: aggr_recv_addba_req_evt_def aggr_recv_delba_req_evt_def at_def)

lemma timeout_rearm_stuck:
  assumes "i \<in> set ts" "i < length (RxTid c)" "aggr (RxTid c ! i)" "hold_q (RxTid c ! i) = Some hq"
    "\<forall>n \<in> set hq. osbuf n = None" "length hq = hold_q_sz (RxTid c ! i)" "256 \<le> hold_q_sz (RxTid c ! i)"
  shows "timeout_rearm ts c = None"
  using assms
proof (induction ts arbitrary: c)
  case (Cons j ts)
  have stuck: "timeout_scan hq (hold_q_sz (RxTid c ! i)) = None"
    using Cons.prems slot_scan_stuck [of hq "hold_q_sz (RxTid c ! i)" 0] by (simp add: timeout_scan_def)
  show ?case
  proof (cases "j = i")
    case True
    then show ?thesis using Cons.prems stuck by simp
  next
    case False
    then have i: "i \<in> set ts" using Cons.prems(1) by simp
    have IH: "timeout_rearm ts (c\<lparr>RxTid := (RxTid c)[j := rt], timerScheduled := b\<rparr>) = None" for rt b
      by (rule Cons.IH) (use Cons.prems i False in auto)
    have IH': "timeout_rearm ts (c\<lparr>RxTid := (RxTid c)[j := rt]\<rparr>) = None" for rt
      by (rule Cons.IH) (use Cons.prems i False in auto)
    have IH0: "timeout_rearm ts c = None" by (rule Cons.IH) (use Cons.prems i in auto)
    show ?thesis
      using IH IH' IH0
      by (auto simp: at_def set_rxtid_def split: option.splits Option.bind_splits)
  qed
qed simp

text \<open>C32: The timer handler scans the ring with an 8-bit counter.  With an agreed window of 128 or
  more (256 or more slots) and no frame waiting, the scan never ends.\<close>

theorem aggr_timeout_wide_window_diverges:
  assumes "length (RxTid c) = NUM_OF_TIDS" and "\<forall>rt \<in> set (RxTid c). \<not> timerMon rt"
    and "i < 8" and "aggr (RxTid c ! i)" and "hold_q (RxTid c ! i) = Some hq"
    and "\<forall>n \<in> set hq. osbuf n = None" and "length hq = hold_q_sz (RxTid c ! i)"
    and "256 \<le> hold_q_sz (RxTid c ! i)"
  shows "aggr_timeout c env = None"
proof -
  have fl: "timeout_flush ts c env = Some (c, env)" if "set ts \<subseteq> {..<8}" for ts
    using that assms(1,2) by (induction ts) auto
  have "timeout_rearm [0..<8] (c\<lparr>timerScheduled := False, timer_armed := False\<rparr>) = None"
    by (rule timeout_rearm_stuck [of i]) (use assms in auto)
  moreover have "timeout_flush [0..<8] c env = Some (c, env)" by (rule fl) auto
  ultimately show ?thesis by (simp add: aggr_timeout_def)
qed

end
