(* ===== verification/ReorderTimer.thy ===== *)
theory ReorderTimer
  imports ReorderProps
begin

text \<open>
  The flush timer of \<open>host/reorder/rcv_aggr.c\<close> under every event there is: any traffic identifier and
  sequence number, aggregates of subframes, any window.  An event that leaves an array or does not end
  (\<open>None\<close>) has no next state.
\<close>

datatype aggr_event =
    AgRecv nat nat bool netbuf
  | AgBar nat nat
  | AgAddba nat nat nat bool
  | AgDelba nat
  | AgReset "nat option"
  | AgTimeout

fun aggr_apply :: "aggr_event \<Rightarrow> AGGR_CONN_INFO \<Rightarrow> aggr_env \<Rightarrow> (AGGR_CONN_INFO \<times> aggr_env) option" where
  "aggr_apply (AgRecv tid n amsdu buf) c env =
     map_option (\<lambda>(c, env, _). (c, env)) (aggr_process_recv_frm c tid n amsdu buf env)"
| "aggr_apply (AgBar tid n) c env = aggr_process_bar c tid n env"
| "aggr_apply (AgAddba tid n w ok) c env = aggr_recv_addba_req_evt c tid n w ok env"
| "aggr_apply (AgDelba tid) c env = aggr_recv_delba_req_evt c tid env"
| "aggr_apply (AgReset d) c env = aggr_reset_state c d env"
| "aggr_apply AgTimeout c env = aggr_timeout c env"

inductive conn_reach :: "AGGR_CONN_INFO \<Rightarrow> aggr_env \<Rightarrow> bool" where
  init: "aggr_init_conn True = Some c \<Longrightarrow> fst (aggr_init ok al) = env \<Longrightarrow> conn_reach c env"
| step: "conn_reach c env \<Longrightarrow> aggr_apply e c env = Some (c', env') \<Longrightarrow> conn_reach c' env'"

subsection \<open>Dequeuing holds back no more\<close>

definition eases :: "AGGR_CONN_INFO \<Rightarrow> AGGR_CONN_INFO \<Rightarrow> bool" where
  "eases c c' \<longleftrightarrow> length (RxTid c') = length (RxTid c) \<and> timerScheduled c' = timerScheduled c \<and> timer_armed c' = timer_armed c \<and>
     (\<forall>t<length (RxTid c). aggr (RxTid c' ! t) = aggr (RxTid c ! t) \<and>
        (holds_frame (RxTid c' ! t) \<longrightarrow> holds_frame (RxTid c ! t)) \<and>
        (hold_q (RxTid c ! t) = None \<longrightarrow> hold_q (RxTid c' ! t) = None))"

lemma eases_refl [simp]: "eases c c"
  by (simp add: eases_def)

lemma eases_trans: "eases a b \<Longrightarrow> eases b c \<Longrightarrow> eases a c"
  by (simp add: eases_def)

lemma nth_upd: "xs[t := x] ! s = (if s = t \<and> t < length xs then x else xs ! s)"
  by (cases "t < length xs") (auto simp: nth_list_update list_update_beyond)

lemma eases_set:
  "aggr rt = aggr (RxTid c ! t) \<Longrightarrow> (holds_frame rt \<Longrightarrow> holds_frame (RxTid c ! t)) \<Longrightarrow>
   (hold_q (RxTid c ! t) = None \<Longrightarrow> hold_q rt = None) \<Longrightarrow> eases c (set_rxtid c t rt)"
  by (auto simp: eases_def nth_upd)

lemma holds_other [simp]:
  "holds_frame (rt\<lparr>rx_q := q\<rparr>) = holds_frame rt" "holds_frame (rt\<lparr>seq_next := n\<rparr>) = holds_frame rt"
  by (simp_all add: holds_frame_def split: option.split)

definition q_only :: "RXTID \<Rightarrow> RXTID \<Rightarrow> bool" where
  "q_only rt rt' \<longleftrightarrow> (\<exists>q. rt' = rt\<lparr>rx_q := q\<rparr>)"

lemma q_only_simps [simp]: "q_only rt rt" "q_only rt (rt\<lparr>rx_q := q\<rparr>)"
proof -
  show "q_only rt rt" unfolding q_only_def by (rule exI [of _ "rx_q rt"]) simp
qed (auto simp: q_only_def)

lemma q_only_step: "q_only (rt\<lparr>rx_q := q\<rparr>) rt' \<Longrightarrow> q_only rt rt'"
  by (auto simp: q_only_def)

lemma slice_loop_only_q: "slice_loop rest len rt env = Some (rt', env') \<Longrightarrow> q_only rt rt'"
proof (induction rest arbitrary: len rt env rule: length_induct)
  case (1 rest)
  have IH: "q_only rt rt'" if "slice_loop (drop k rest) m (rt\<lparr>rx_q := q\<rparr>) e = Some (rt', env')" "0 < k" "blk 12 2 rest = Some ty" for k m q e ty
  proof (rule q_only_step)
    have "length (drop k rest) < length rest" using that(2,3) by (auto simp: blk_eq_Some_iff)
    with 1(1) that(1) show "q_only (rt\<lparr>rx_q := q\<rparr>) rt'" by blast
  qed
  show ?case using 1(2)
    by (subst (asm) slice_loop.simps)
      (auto simp: Let_def split: if_split_asm option.split_asm prod.split_asm dest: IH)
qed

lemma slice_only_q: "aggr_slice_amsdu rt b env = Some (rt', env') \<Longrightarrow> \<exists>q. rt' = rt\<lparr>rx_q := q\<rparr>"
  by (auto simp: aggr_slice_amsdu_def bind_eq_Some_conv q_only_def dest!: slice_loop_only_q)

lemma holds_emptied:
  assumes "hold_q rt = Some hq" "osbuf node = None" "holds_frame (rt\<lparr>hold_q := Some (hq[i := node])\<rparr>)"
  shows "holds_frame rt"
  using assms by (auto simp: holds_frame_def list_ex_iff take_update_swap dest!: set_update_subset_insert [THEN subsetD])

lemma deque_loop_eases:
  "deque_loop fuel order idx e rt env = Some (rt', env') \<Longrightarrow>
   aggr rt' = aggr rt \<and> (holds_frame rt' \<longrightarrow> holds_frame rt) \<and> hold_q rt \<noteq> None"
proof (induction fuel order idx e rt env rule: deque_loop.induct)
  case (1 fuel order idx e rt env)
  obtain hq node where h: "fuel \<noteq> 0" "hold_q rt = Some hq" "at hq idx = Some node"
    using 1(2) by (subst (asm) deque_loop.simps) (auto simp: bind_eq_Some_conv split: if_split_asm)
  show ?case
  proof (cases "order = CONTIGUOUS_SEQNO \<and> osbuf node = None")
    case True
    then show ?thesis using 1(2) h by (subst (asm) deque_loop.simps) simp
  next
    case False
    let ?take = "case osbuf node of None \<Rightarrow> Some (rt, env)
            | Some b \<Rightarrow> do {
                (rt', env') \<leftarrow> (if is_amsdu node then aggr_slice_amsdu rt b env
                                else Some (rt\<lparr>rx_q := rx_q rt @ [b]\<rparr>, env));
                Some (rt'\<lparr>hold_q := Some (hq[idx := node\<lparr>osbuf := None\<rparr>])\<rparr>, env')
              }"
    obtain rt1 env1 where t: "?take = Some (rt1, env1)"
      using 1(2) h False by (subst (asm) deque_loop.simps) (auto simp: bind_eq_Some_conv)
    have k: "aggr rt1 = aggr rt \<and> (holds_frame rt1 \<longrightarrow> holds_frame rt)"
    proof (cases "osbuf node")
      case (Some b)
      then obtain q where "rt1 = rt\<lparr>rx_q := q\<rparr>\<lparr>hold_q := Some (hq[idx := node\<lparr>osbuf := None\<rparr>])\<rparr>"
        using t by (auto simp: bind_eq_Some_conv split: if_split_asm dest!: slice_only_q)
      then show ?thesis using holds_emptied [of "rt\<lparr>rx_q := q\<rparr>" hq "node\<lparr>osbuf := None\<rparr>" idx] h(2) by auto
    qed (use t in simp)
    let ?rt2 = "rt1\<lparr>seq_next := IEEE80211_NEXT_SEQ_NO (seq_next rt1)\<rparr>"
    obtain idx' where i: "AGGR_WIN_IDX (seq_next ?rt2) (hold_q_sz ?rt2) = Some idx'"
      using 1(2) h False t by (subst (asm) deque_loop.simps) (auto simp: bind_eq_Some_conv Let_def)
    have e: "(if idx' \<noteq> e then deque_loop (fuel - 1) order idx' e ?rt2 env1 else Some (?rt2, env1)) = Some (rt', env')"
      using 1(2) h False t i by (subst (asm) deque_loop.simps) (simp add: Let_def)
    show ?thesis
    proof (cases "idx' = e")
      case True
      then show ?thesis using e k h(2) by auto
    next
      case False
      then have "deque_loop (fuel - 1) order idx' e ?rt2 env1 = Some (rt', env')" using e by simp
      with 1(1) [OF h \<open>\<not> (order = CONTIGUOUS_SEQNO \<and> osbuf node = None)\<close> t refl refl i False] k h(2) show ?thesis by simp
    qed
  qed
qed

lemma deque_frms_eases:
  assumes "aggr_deque_frms c tid n order env = Some (c', env')"
  shows "eases c c'"
proof -
  obtain rt' where d: "tid < length (RxTid c)" "deque_rxtid c (RxTid c ! tid) n order env = Some (rt', env')"
      "c' = set_rxtid c tid rt'"
    using assms by (auto simp: aggr_deque_frms_def bind_eq_Some_conv at_def split: if_split_asm)
  then have "aggr rt' = aggr (RxTid c ! tid) \<and> (holds_frame rt' \<longrightarrow> holds_frame (RxTid c ! tid)) \<and> hold_q (RxTid c ! tid) \<noteq> None"
    by (auto simp: deque_rxtid_def bind_eq_Some_conv Let_def dest!: deque_loop_eases)
  then show ?thesis unfolding d(3) by (auto intro: eases_set)
qed

subsection \<open>The invariant\<close>

definition timed :: "AGGR_CONN_INFO \<Rightarrow> bool" where
  "timed c \<longleftrightarrow> length (RxTid c) = NUM_OF_TIDS \<and> timerScheduled c = timer_armed c \<and>
     (\<forall>t<NUM_OF_TIDS. (\<not> aggr (RxTid c ! t) \<longrightarrow> hold_q (RxTid c ! t) = None) \<and>
        (holds_frame (RxTid c ! t) \<longrightarrow> timerScheduled c))"

lemma holds_ring: "holds_frame rt \<Longrightarrow> hold_q rt \<noteq> None"
  by (auto simp: holds_frame_def split: option.split_asm)

lemma timed_aggr: "timed c \<Longrightarrow> t < NUM_OF_TIDS \<Longrightarrow> holds_frame (RxTid c ! t) \<Longrightarrow> aggr (RxTid c ! t)"
  using holds_ring unfolding timed_def by blast

lemma timed_eases: "timed c \<Longrightarrow> eases c c' \<Longrightarrow> timed c'"
  by (auto simp: timed_def eases_def)

lemma timed_set: "timed c \<Longrightarrow> \<not> holds_frame rt \<Longrightarrow> \<not> aggr rt \<longrightarrow> hold_q rt = None \<Longrightarrow> timed (set_rxtid c t rt)"
  by (auto simp: timed_def nth_upd)

lemma timed_delete:
  assumes "timed c" "aggr_delete_tid_state c tid env = Some (c', env')"
  shows "timed c'"
proof (cases "tid < NUM_OF_TIDS \<and> freeQ env \<noteq> None")
  case False
  then show ?thesis using assms by (simp add: aggr_delete_tid_state_def)
next
  case True
  obtain c1 env1 where 1: "(if aggr (RxTid c ! tid) then aggr_deque_frms c tid 0 ALL_SEQNO env else Some (c, env)) = Some (c1, env1)"
    and 2: "c' = set_rxtid c1 tid ((RxTid c1 ! tid)\<lparr>aggr := False, progress := False, timerMon := False,
                                  win_sz := 0, seq_next := 0, hold_q_sz := 0, hold_q := None\<rparr>)"
    using assms(2) True by (auto simp: aggr_delete_tid_state_def bind_eq_Some_conv at_def split: if_split_asm)
  have "timed c1" using 1 assms(1) deque_frms_eases timed_eases by (auto split: if_split_asm)
  then show ?thesis unfolding 2 by (rule timed_set) (simp_all add: holds_frame_def)
qed

lemma timed_reset_tids: "timed c \<Longrightarrow> reset_tids ts c env = Some (c', env') \<Longrightarrow> timed c'"
  by (induction ts arbitrary: c env) (auto simp: bind_eq_Some_conv dest: timed_delete)

lemma timed_addba:
  assumes "timed c" "aggr_recv_addba_req_evt c tid n w ok env = Some (c', env')"
  shows "timed c'"
proof -
  obtain c1 env1 where 1: "(if aggr (RxTid c ! tid) then aggr_delete_tid_state c tid env else Some (c, env)) = Some (c1, env1)"
    and 2: "\<exists>rt. c' = set_rxtid c1 tid rt \<and> \<not> holds_frame rt \<and> (\<not> aggr rt \<longrightarrow> hold_q rt = None)"
  proof -
    let ?no = "\<lambda>c1. (RxTid c1 ! tid)\<lparr>seq_next := n, hold_q := None\<rparr>"
    let ?yes = "\<lambda>c1. (RxTid c1 ! tid)\<lparr>seq_next := n, hold_q := Some (replicate (TID_WINDOW_SZ w) empty_slot), win_sz := w,
                hold_q_sz := TID_WINDOW_SZ w, aggr := True\<rparr>"
    obtain c1 env1 where 1: "(if aggr (RxTid c ! tid) then aggr_delete_tid_state c tid env else Some (c, env)) = Some (c1, env1)"
        "c' = set_rxtid c1 tid (if ok then ?yes c1 else ?no c1)"
      using assms(2) by (auto simp: aggr_recv_addba_req_evt_def bind_eq_Some_conv Let_def at_def split: if_split_asm)
    moreover have "\<not> holds_frame (?yes c1)" "\<not> holds_frame (?no c1)"
      by (auto simp: holds_frame_def list_ex_iff empty_slot_def)
    ultimately show thesis
      by (intro that [of c1 env1] exI [of _ "if ok then ?yes c1 else ?no c1"]) (simp_all split: if_split)
  qed
  have "timed c1" using 1 assms(1) timed_delete by (auto split: if_split_asm)
  then show ?thesis using 2 timed_set by blast
qed

lemma shift_eases:
  assumes "shift_window c tid n env = Some (c', env')"
  shows "eases c c'"
proof -
  have "eases c (set_rxtid d tid ((RxTid d ! tid)\<lparr>seq_next := x\<rparr>))" if "aggr_deque_frms c tid m order env = Some (d, env1)" for d m x order env1
    by (rule eases_trans [OF deque_frms_eases [OF that]], rule eases_set) simp_all
  then show ?thesis using assms
    by (auto simp: shift_window_def bind_eq_Some_conv Let_def at_def deque_frms_eases split: if_split_asm)
qed

lemma timed_start:
  assumes "start_timer c tid = Some c'" "length (RxTid c) = NUM_OF_TIDS" "timerScheduled c = timer_armed c"
    "\<forall>t<NUM_OF_TIDS. (\<not> aggr (RxTid c ! t) \<longrightarrow> hold_q (RxTid c ! t) = None) \<and>
       (holds_frame (RxTid c ! t) \<and> t \<noteq> tid \<longrightarrow> timerScheduled c)"
  shows "timed c'"
proof -
  have tid: "tid < length (RxTid c)" using assms(1) by (auto simp: start_timer_def at_def split: if_split_asm)
  obtain p m where st: "RxTid c' = (RxTid c)[tid := (RxTid c ! tid)\<lparr>progress := p, timerMon := m\<rparr>]"
      "holds_frame (RxTid c ! tid) \<longrightarrow> timerScheduled c'" "timerScheduled c \<longrightarrow> timerScheduled c'"
      "timerScheduled c' = timer_armed c'"
    using start_timer_cases [OF assms(1) tid] assms(3) by auto
  then show ?thesis using assms(2,4) by (auto simp: timed_def nth_upd)
qed

lemma timed_recv:
  assumes "timed c" "aggr_process_recv_frm c tid n amsdu buf env = Some (c', env', left)"
  shows "timed c'"
proof (cases "aggr (RxTid c ! tid)")
  case False
  have "eases c (set_rxtid c tid ((RxTid c ! tid)\<lparr>rx_q := q\<rparr>))" for q by (rule eases_set) simp_all
  then show ?thesis using assms False timed_eases [OF assms(1)]
    by (auto simp: aggr_process_recv_frm_def bind_eq_Some_conv at_def dest!: slice_only_q split: if_split_asm)
next
  case True
  obtain c1 env1 c2 env2 c3 env3 where s: "shift_window c tid n env = Some (c1, env1)"
      "hold_frame c1 tid n amsdu buf env1 = Some (c2, env2)"
      "aggr_deque_frms c2 tid 0 CONTIGUOUS_SEQNO env2 = Some (c3, env3)" "start_timer c3 tid = Some c'" "tid < length (RxTid c)"
    using assms(2) True by (auto simp: aggr_process_recv_frm_def bind_eq_Some_conv at_def split: if_split_asm)
  note e1 = shift_eases [OF s(1)] and e3 = deque_frms_eases [OF s(3)]
  obtain rt where h: "c2 = set_rxtid c1 tid rt" "aggr rt = aggr (RxTid c1 ! tid)"
    using s(2) by (auto simp: hold_frame_def bind_eq_Some_conv Let_def at_def split: if_split_asm)
  have t1: "timed c1" by (rule timed_eases [OF assms(1) e1])
  have a: "aggr (RxTid c1 ! tid)" using e1 s(5) True by (simp add: eases_def)
  have "\<forall>t<NUM_OF_TIDS. (\<not> aggr (RxTid c2 ! t) \<longrightarrow> hold_q (RxTid c2 ! t) = None) \<and>
       (holds_frame (RxTid c2 ! t) \<and> t \<noteq> tid \<longrightarrow> timerScheduled c2)"
    using t1 a by (auto simp: timed_def h nth_upd)
  moreover have "length (RxTid c2) = NUM_OF_TIDS" "timerScheduled c2 = timer_armed c2" using t1 by (simp_all add: timed_def h(1))
  ultimately show ?thesis using e3 by (intro timed_start [OF s(4)]) (auto simp: eases_def)
qed

subsection \<open>The expiry\<close>

lemma timeout_flush_eases: "timeout_flush ts c env = Some (c', env') \<Longrightarrow> eases c c'"
  by (induction ts arbitrary: c env)
    (auto simp: bind_eq_Some_conv split: if_split_asm dest: deque_frms_eases intro: eases_trans)

lemma slot_scan_False:
  assumes "slot_scan hq sz j = Some False" "unat j \<le> i" "i < sz"
  shows "i < length hq \<and> osbuf (hq ! i) = None"
proof -
  have "r = False \<longrightarrow> (\<forall>i. unat j \<le> i \<and> i < sz \<longrightarrow> i < length hq \<and> osbuf (hq ! i) = None)" if "slot_scan hq sz j = Some r" for hq sz j r
    using that
  proof (rule slot_scan.raw_induct [rotated])
    fix scan hq sz r and j :: byte
    assume IH: "\<And>hq sz j r. scan hq sz j = Some r \<Longrightarrow>
        r = False \<longrightarrow> (\<forall>i. unat j \<le> i \<and> i < sz \<longrightarrow> i < length hq \<and> osbuf (hq ! i) = None)"
      and step: "(if unat j < sz then case at hq (unat j) of None \<Rightarrow> None
        | Some node \<Rightarrow> if osbuf node \<noteq> None then Some True else scan hq sz (1 + j) else Some False) = Some r"
    show "r = False \<longrightarrow> (\<forall>i. unat j \<le> i \<and> i < sz \<longrightarrow> i < length hq \<and> osbuf (hq ! i) = None)"
    proof (intro impI allI)
      fix i
      assume r: "r = False" and i: "unat j \<le> i \<and> i < sz"
      then have j: "unat j < sz" by simp
      with step r have n: "unat j < length hq" "osbuf (hq ! unat j) = None" "scan hq sz (1 + j) = Some False"
        by (auto simp: at_def split: if_split_asm)
      show "i < length hq \<and> osbuf (hq ! i) = None"
      proof (cases "i = unat j")
        case False
        have "unat (1 + j) = (1 + unat j) mod 256" by (simp add: unat_word_ariths)
        then have "unat (1 + j) \<le> unat j + 1" using mod_less_eq_dividend [of "1 + unat j" 256] by simp
        then show ?thesis using IH [OF n(3)] i False by auto
      qed (use n in simp)
    qed
  qed
  with assms show ?thesis by blast
qed

lemma timeout_scan_False: "hold_q rt = Some hq \<Longrightarrow> timeout_scan hq (hold_q_sz rt) = Some False \<Longrightarrow> \<not> holds_frame rt"
  using slot_scan_False [of hq "hold_q_sz rt" 0] by (auto simp: timeout_scan_def holds_frame_def list_ex_iff in_set_conv_nth)

lemma timeout_rearm_timed:
  assumes "timeout_rearm ts c = Some c'"
  shows "length (RxTid c') = length (RxTid c) \<and> timer_armed c' = timer_armed c \<and> (timerScheduled c \<longrightarrow> timerScheduled c') \<and>
    (\<forall>t<length (RxTid c). aggr (RxTid c' ! t) = aggr (RxTid c ! t) \<and> holds_frame (RxTid c' ! t) = holds_frame (RxTid c ! t) \<and>
      hold_q (RxTid c' ! t) = hold_q (RxTid c ! t) \<and> (t \<in> set ts \<and> aggr (RxTid c ! t) \<and> holds_frame (RxTid c ! t) \<longrightarrow> timerScheduled c'))"
  using assms
proof (induction ts arbitrary: c)
  case (Cons i ts)
  have i: "i < length (RxTid c)" using Cons.prems by (auto simp: at_def split: if_split_asm)
  let ?rt = "RxTid c ! i"
  show ?case
  proof (cases "hold_q ?rt \<noteq> None \<and> aggr ?rt")
    case False
    then have "timeout_rearm ts c = Some c'" using Cons.prems i by (auto split: option.split_asm if_split_asm)
    moreover have "\<not> (aggr ?rt \<and> holds_frame ?rt)" using False by (auto simp: holds_frame_def)
    ultimately show ?thesis using Cons.IH by auto
  next
    case True
    then obtain hq found where f: "hold_q ?rt = Some hq" "timeout_scan hq (hold_q_sz ?rt) = Some found"
      using Cons.prems i by (auto simp: bind_eq_Some_conv)
    define d where "d = (if found
         then (set_rxtid c i (?rt\<lparr>timerMon := True, progress := False\<rparr>))\<lparr>timerScheduled := True\<rparr>
         else set_rxtid c i (?rt\<lparr>timerMon := False\<rparr>))"
    have r: "timeout_rearm ts d = Some c'" using Cons.prems i True f by (simp add: d_def)
    have "holds_frame ?rt \<longrightarrow> found" using timeout_scan_False [OF f(1)] f(2) by (cases found) auto
    moreover have "length (RxTid d) = length (RxTid c)" "timer_armed d = timer_armed c"
      "timerScheduled d = (found \<or> timerScheduled c)" by (simp_all add: d_def)
    moreover have "aggr (RxTid d ! t) = aggr (RxTid c ! t) \<and> hold_q (RxTid d ! t) = hold_q (RxTid c ! t) \<and> holds_frame (RxTid d ! t) = holds_frame (RxTid c ! t)"
      if "t < length (RxTid c)" for t
      using that by (auto simp: d_def nth_upd)
    ultimately show ?thesis using Cons.IH [OF r] by auto
  qed
qed simp

lemma timed_timeout:
  assumes "timed c" "aggr_timeout c env = Some (c', env')"
  shows "timed c'"
proof -
  obtain c1 env1 c2 where s: "timeout_flush [0..<8] c env = Some (c1, env1)"
      "timeout_rearm [0..<8] (c1\<lparr>timerScheduled := False, timer_armed := False\<rparr>) = Some c2"
      "c' = (if timerScheduled c2 then c2\<lparr>timer_armed := True\<rparr> else c2)"
    using assms(2) by (auto simp: aggr_timeout_def bind_eq_Some_conv)
  have t: "timed c1" by (rule timed_eases [OF assms(1) timeout_flush_eases [OF s(1)]])
  note r = timeout_rearm_timed [OF s(2)]
  have "timerScheduled c2" if "t < NUM_OF_TIDS" "holds_frame (RxTid c2 ! t)" for t
    using r t that timed_aggr [OF t that(1)] by (simp add: timed_def)
  then show ?thesis using t r unfolding s(3) timed_def by auto
qed

lemma timed_apply: "timed c \<Longrightarrow> aggr_apply e c env = Some (c', env') \<Longrightarrow> timed c'"
proof (cases e)
  case (AgReset d)
  assume a: "timed c" "aggr_apply e c env = Some (c', env')"
  have "timed (c\<lparr>aggr_dev := d\<rparr>)" using a(1) by (auto simp: timed_def)
  then show ?thesis using a(2) AgReset timed_reset_tids by (auto simp: aggr_reset_state_def)
qed (auto simp: aggr_process_bar_def aggr_recv_delba_req_evt_def bind_eq_Some_conv split: if_split_asm
    intro: timed_recv timed_addba timed_timeout timed_delete timed_eases dest: deque_frms_eases)

lemma conn_reach_timed: "conn_reach c env \<Longrightarrow> timed c"
proof (induction rule: conn_reach.induct)
  case (init c ok al env)
  then show ?case by (auto simp: timed_def aggr_init_conn_def init_rxtid_def holds_frame_def)
qed (rule timed_apply)

lemma aggr_reach_conn_reach: "aggr_reach c env \<Longrightarrow> conn_reach c env"
proof (induction rule: aggr_reach.induct)
  case (recv c env tid n buf c' env' left)
  then show ?case using conn_reach.step [where e = "AgRecv tid n False buf"] by force
next
  case (bar c env tid n c' env')
  then show ?case using conn_reach.step [where e = "AgBar tid n"] by force
next
  case (addba c env tid n w ok c' env')
  then show ?case using conn_reach.step [where e = "AgAddba tid n w ok"] by force
next
  case (delba c env tid c' env')
  then show ?case using conn_reach.step [where e = "AgDelba tid"] by force
next
  case (reset c env d c' env')
  then show ?case using conn_reach.step [where e = "AgReset d"] by force
next
  case (timeout c env c' env')
  then show ?case using conn_reach.step [where e = AgTimeout] by force
qed (rule conn_reach.init)

text \<open>C5: In every state a connection can get into, by any events whatever as long as none of them faults, there are eight
  traffic identifiers, frames are held back only under an agreement, and as long as some frame is held back
  the flush timer is armed: no frame waits without a deadline.\<close>

theorem aggr_reachable_timer:
  assumes "conn_reach c env"
  shows "length (RxTid c) = NUM_OF_TIDS \<and>
    (\<forall>rt \<in> set (RxTid c). holds_frame rt \<longrightarrow> aggr rt \<and> timerScheduled c \<and> timer_armed c)"
  using conn_reach_timed [OF assms] timed_aggr [OF conn_reach_timed [OF assms]] by (auto simp: timed_def in_set_conv_nth)

subsection \<open>Faults\<close>

lemma deque_no_ring: "hold_q rt = None \<Longrightarrow> deque_rxtid c rt n order env = None"
  by (auto simp: deque_rxtid_def deque_loop.simps Let_def split: Option.bind_splits)

text \<open>C10: When an event faults, in a state reached by well-formed events (\<open>aggr_reach\<close>: single MPDUs, identifiers below
  eight, 12-bit numbers, windows that are powers of two up to 64, block-ack requests under an agreement).  An
  MPDU, an ADDBA with any window and a DELBA fault exactly for an identifier of eight or more, which
  indexes past the array; a block-ack request also where there is no agreement, when it divides by a window of
  size zero or reads a ring that is not there; a reset and an expiry of the timer never do.\<close>

theorem aggr_events_never_fault:
  assumes "aggr_reach c env" and "n < 4096" and "aggr_dev c \<noteq> None"
  shows "(aggr_process_recv_frm c tid n False buf env = None \<longleftrightarrow> 8 \<le> tid) \<and>
     (aggr_process_bar c tid n env = None \<longleftrightarrow> 8 \<le> tid \<or> \<not> aggr (RxTid c ! tid)) \<and>
     (aggr_recv_addba_req_evt c tid n w ok env = None \<longleftrightarrow> 8 \<le> tid) \<and>
     (aggr_recv_delba_req_evt c tid env = None \<longleftrightarrow> 8 \<le> tid) \<and>
     aggr_reset_state c d env \<noteq> None \<and> aggr_timeout c env \<noteq> None"
proof -
  have ok: "conn_ok c env" by (rule aggr_reach_conn_ok [OF assms(1)])
  have wf: "wf_conn c" "freeQ env \<noteq> None" and t: "timed c"
    using ok conn_reach_timed [OF aggr_reach_conn_reach [OF assms(1)]] by (auto simp: conn_ok_def)
  have len: "length (RxTid c) = 8" using wf(1) by (simp add: wf_conn_def)
  show ?thesis
  proof (cases "8 \<le> tid")
    case True
    then have "at (RxTid c) tid = None" using len by (simp add: at_def)
    then show ?thesis using True conn_ok_reset [OF ok, of d] conn_ok_timeout [OF ok]
      by (auto simp: aggr_process_recv_frm_def aggr_process_bar_def aggr_deque_frms_def aggr_recv_addba_req_evt_def
          aggr_recv_delba_req_evt_def)
  next
    case False
    then have tid: "tid < 8" by simp
    have "aggr_process_bar c tid n env = None" if "\<not> aggr (RxTid c ! tid)"
      using that t tid by (simp add: timed_def aggr_process_bar_def aggr_deque_frms_def deque_no_ring)
    moreover have "aggr_recv_addba_req_evt c tid n w ok env \<noteq> None"
      using delete_tid_state_ok [OF wf(1) tid wf(2)] len tid by (auto simp: aggr_recv_addba_req_evt_def Let_def)
    ultimately show ?thesis
      using False conn_ok_recv [OF ok tid assms(2,3), of buf] conn_ok_bar [OF ok tid, of n] conn_ok_delba [OF ok tid]
        conn_ok_reset [OF ok, of d] conn_ok_timeout [OF ok] by auto
  qed
qed

subsection \<open>What an expiry delivers\<close>

text \<open>The frames that are held, in the order of their sequence numbers.\<close>

definition held_frames :: "RXTID \<Rightarrow> netbuf list" where
  "held_frames rt = List.map_filter (held rt) (map (\<lambda>i. (seq_next rt + i) mod 4096) [0..<hold_q_sz rt])"



lemma held_frames_flags [simp]: "held_frames (rt\<lparr>progress := p, timerMon := m\<rparr>) = held_frames rt"
  by (simp add: held_frames_def)




text \<open>Only the flags of the timer change when it is armed again.\<close>

definition flags_only :: "RXTID \<Rightarrow> RXTID \<Rightarrow> bool" where
  "flags_only rt rt' \<longleftrightarrow> (\<exists>p m. rt' = rt\<lparr>progress := p, timerMon := m\<rparr>)"

lemma flags_only_refl [simp]: "flags_only rt rt"
  unfolding flags_only_def by (rule exI [of _ "progress rt"], rule exI [of _ "timerMon rt"]) simp

lemma flags_only_upd [simp]: "flags_only rt (rt\<lparr>timerMon := m, progress := p\<rparr>)" "flags_only rt (rt\<lparr>timerMon := m\<rparr>)"
proof -
  show "flags_only rt (rt\<lparr>timerMon := m, progress := p\<rparr>)" unfolding flags_only_def by (rule exI [of _ p], rule exI [of _ m]) simp
  show "flags_only rt (rt\<lparr>timerMon := m\<rparr>)" unfolding flags_only_def by (rule exI [of _ "progress rt"], rule exI [of _ m]) simp
qed







end
