(* ===== verification/AmsduSlice.thy ===== *)
theory AmsduSlice
  imports Reorder
begin

text \<open>
  The A-MSDU slicer \<open>aggr_slice_amsdu\<close>: a well-formed aggregate comes apart into exactly its
  subframes, each as an Ethernet II frame; an aggregate whose last subframe lies about its length
  makes the slicer read past the buffer.
\<close>

subsection \<open>Well-formed aggregates\<close>

text \<open>A subframe is an 802.3 LLC/SNAP frame; all but the last are padded to a multiple of four.\<close>

record msdu =
  m_dst :: bytes
  m_src :: bytes
  m_type :: nat
  m_body :: bytes

definition ok_msdu :: "msdu \<Rightarrow> bool" where
  "ok_msdu m \<longleftrightarrow> length (m_dst m) = 6 \<and> length (m_src m) = 6 \<and> m_type m < 65536 \<and>
     38 \<le> length (m_body m) \<and> length (m_body m) \<le> 1500"

definition subframe :: "msdu \<Rightarrow> bytes" where
  "subframe m = dot3_frame (m_dst m) (m_src m) (m_type m) (m_body m)"

definition msdu_dix :: "msdu \<Rightarrow> bytes" where
  "msdu_dix m = dix_frame (m_dst m) (m_src m) (m_type m) (m_body m)"

definition pad4 :: "bytes \<Rightarrow> bytes" where
  "pad4 bs = bs @ replicate ((4 - length bs mod 4) mod 4) 0"

fun amsdu_payload :: "msdu list \<Rightarrow> bytes" where
  "amsdu_payload [] = []"
| "amsdu_payload [m] = subframe m"
| "amsdu_payload (m # ms) = pad4 (subframe m) @ amsdu_payload ms"

lemma length_subframe: "ok_msdu m \<Longrightarrow> length (subframe m) = 22 + length (m_body m)"
  by (simp add: subframe_def length_dot3_frame ok_msdu_def)

lemma pad_to_4: "(n::nat) + (4 - n mod 4) mod 4 = (n + 3) div 4 * 4"
proof -
  define q r where "q = n div 4" and "r = n mod 4"
  then have n: "n = 4 * q + r" and "r < 4" by simp_all
  then consider "r = 0" | "r = 1" | "r = 2" | "r = 3" by linarith
  then have "r + (4 - r) mod 4 = (r + 3) div 4 * 4" by cases simp_all
  moreover have "(n + 3) div 4 = q + (r + 3) div 4" using n by simp
  ultimately show ?thesis by (simp only: r_def [symmetric]) (simp add: n)
qed

lemma length_pad4: "length (pad4 bs) = (length bs + 3) div 4 * 4"
  unfolding pad4_def length_append length_replicate by (rule pad_to_4)

lemma drop_pad4: "drop (length (pad4 bs)) (pad4 bs @ rest) = rest"
  by simp

text \<open>One subframe at the front of the remaining buffer.\<close>

lemma subframe_length_field:
  assumes "ok_msdu m"
  shows "\<exists>tl. blk 12 2 (subframe m @ rest) = Some tl \<and> be16 (tl ! 0) (tl ! 1) = length (m_body m) + 8"
proof -
  let ?pre = "m_dst m @ m_src m" and ?post = "snap_hdr (m_type m) @ m_body m @ rest"
  have "subframe m @ rest = ?pre @ be16_bytes (length (m_body m) + 8) @ ?post"
    by (simp add: subframe_def dot3_frame_def)
  moreover have "blk 12 2 (?pre @ be16_bytes (length (m_body m) + 8) @ ?post) =
      Some (be16_bytes (length (m_body m) + 8))"
    by (rule blk_append) (use assms in \<open>simp_all add: ok_msdu_def\<close>)
  moreover obtain hi lo where hl: "be16_bytes (length (m_body m) + 8) = [hi, lo]"
    by (rule that [OF be16_bytes_def])
  moreover from hl have "be16 hi lo = length (m_body m) + 8"
    using be16_be16_bytes [of "length (m_body m) + 8" hi lo] assms by (simp add: ok_msdu_def)
  ultimately show ?thesis by (intro exI [of _ "[hi, lo]"]) simp
qed

lemma subframe_to_dix:
  assumes "ok_msdu m"
  shows "\<exists>b'. wmi_dot3_2_dix (nb\<lparr>nb_data := subframe m\<rparr>) = Some (A_OK, b') \<and> nb_data b' = msdu_dix m"
proof -
  let ?b = "nb\<lparr>nb_data := subframe m\<rparr>"
  have 1: "length (m_dst m) = 6" "length (m_src m) = 6" using assms by (auto simp: ok_msdu_def)
  have 2: "nb_data ?b = m_dst m @ m_src m @ be16_bytes (length (m_body m) + 8) @
      [0xAA, 0xAA, 0x03, 0, 0, 0] @ be16_bytes (m_type m) @ m_body m"
    by (simp add: subframe_def dot3_frame_def snap_hdr_def)
  from dot3_2_dix_frame [OF 1 2] show ?thesis by (auto simp: msdu_dix_def dix_frame_def)
qed

lemma get_osbuf_stocked:
  "freeQ env = Some (b # fq) \<Longrightarrow> 3 \<le> length fq \<Longrightarrow>
   aggr_get_osbuf env = Some (Some b, env\<lparr>freeQ := Some fq\<rparr>)"
  by (simp add: aggr_get_osbuf_def)

lemma slice_step:
  assumes m: "ok_msdu m" and fq: "freeQ env = Some (b # fq)" "3 \<le> length fq"
    and len: "length (subframe m) \<le> amsdu_len"
  shows "\<exists>dix. nb_data dix = msdu_dix m \<and>
    slice_loop (subframe m @ rest) amsdu_len rt env =
      (if amsdu_len = length (subframe m)
       then Some (rt\<lparr>rx_q := rx_q rt @ [dix]\<rparr>, env\<lparr>freeQ := Some fq\<rparr>)
       else slice_loop (drop (length (pad4 (subframe m))) (subframe m @ rest))
              (u16 (int amsdu_len - int (length (pad4 (subframe m)))))
              (rt\<lparr>rx_q := rx_q rt @ [dix]\<rparr>) (env\<lparr>freeQ := Some fq\<rparr>))"
proof -
  obtain tl where tl: "blk 12 2 (subframe m @ rest) = Some tl"
      "be16 (tl ! 0) (tl ! 1) = length (m_body m) + 8"
    using subframe_length_field [OF m] by blast
  obtain dix where dix: "wmi_dot3_2_dix (b\<lparr>nb_data := subframe m\<rparr>) = Some (A_OK, dix)"
      "nb_data dix = msdu_dix m"
    using subframe_to_dix [OF m] by blast
  have L: "length (m_body m) + 8 + 14 = length (subframe m)" using length_subframe [OF m] by simp
  have copy: "blk 0 (length (subframe m)) (subframe m @ rest) = Some (subframe m)"
    by (rule blk_front) simp
  have bnd: "14 < amsdu_len" "\<not> (length (m_body m) + 8 < 46 \<or> 1508 < length (m_body m) + 8)"
    using m len L by (auto simp: ok_msdu_def)
  have pad: "(length (subframe m) + 3) div 4 * 4 = length (pad4 (subframe m))"
    by (simp add: length_pad4)
  have tl2: "be16 (tl ! 0) (tl ! Suc 0) = length (m_body m) + 8" using tl(2) by simp
  have "slice_loop (subframe m @ rest) amsdu_len rt env =
      (if amsdu_len = length (subframe m)
       then Some (rt\<lparr>rx_q := rx_q rt @ [dix]\<rparr>, env\<lparr>freeQ := Some fq\<rparr>)
       else slice_loop (drop (length (pad4 (subframe m))) (subframe m @ rest))
              (u16 (int amsdu_len - int (length (pad4 (subframe m)))))
              (rt\<lparr>rx_q := rx_q rt @ [dix]\<rparr>) (env\<lparr>freeQ := Some fq\<rparr>))"
    unfolding slice_loop.simps [of "subframe m @ rest" amsdu_len rt env] Let_def tl option.case
      tl(2) get_osbuf_stocked [OF fq] prod.case L copy dix(1) pad
    using bnd by simp
  with dix(2) show ?thesis by blast
qed

lemma amsdu_payload_Cons:
  "ms \<noteq> [] \<Longrightarrow> amsdu_payload (m # ms) = pad4 (subframe m) @ amsdu_payload ms"
  by (cases ms) simp_all

lemma amsdu_payload_pos: "ms \<noteq> [] \<Longrightarrow> ok_msdu (hd ms) \<Longrightarrow> 22 \<le> length (amsdu_payload ms)"
  by (cases ms; cases "tl ms") (auto simp: length_subframe length_pad4)

lemma slice_loop_amsdu:
  assumes "\<forall>m \<in> set ms. ok_msdu m" "ms \<noteq> []" "freeQ env = Some fq" "length ms + 3 \<le> length fq"
    "length (amsdu_payload ms) < 65536"
  shows "\<exists>dixs. map nb_data dixs = map msdu_dix ms \<and>
    slice_loop (amsdu_payload ms) (length (amsdu_payload ms)) rt env =
      Some (rt\<lparr>rx_q := rx_q rt @ dixs\<rparr>, env\<lparr>freeQ := Some (drop (length ms) fq)\<rparr>)"
  using assms
proof (induction ms arbitrary: rt env fq)
  case (Cons m ms)
  obtain b fq' where fq: "fq = b # fq'" using Cons.prems by (cases fq) auto
  have m: "ok_msdu m" and fq': "freeQ env = Some (b # fq')" "3 \<le> length fq'"
    using Cons.prems fq by auto
  show ?case
  proof (cases "ms = []")
    case True
    have "length (subframe m) \<le> length (subframe m)" by simp
    from slice_step [OF m fq' this, of "[]" rt] obtain dix where "nb_data dix = msdu_dix m"
      "slice_loop (subframe m) (length (subframe m)) rt env =
        Some (rt\<lparr>rx_q := rx_q rt @ [dix]\<rparr>, env\<lparr>freeQ := Some fq'\<rparr>)"
      by auto
    then show ?thesis using True fq by (intro exI [of _ "[dix]"]) simp
  next
    case False
    let ?rest = "amsdu_payload ms" and ?p = "pad4 (subframe m)"
    have pl: "amsdu_payload (m # ms) = ?p @ ?rest" by (rule amsdu_payload_Cons [OF False])
    define pad where "pad = replicate ((4 - length (subframe m) mod 4) mod 4) (0::byte)"
    have p: "?p = subframe m @ pad" by (simp add: pad_def pad4_def)
    have pos: "22 \<le> length ?rest"
      using amsdu_payload_pos [OF False] Cons.prems(1) False by (cases ms) auto
    have len: "length (subframe m) \<le> length (?p @ ?rest)" using p by simp
    from slice_step [OF m fq' len, of "pad @ ?rest" rt] obtain dix where
      dix: "nb_data dix = msdu_dix m" and
      step: "slice_loop (?p @ ?rest) (length (?p @ ?rest)) rt env =
        slice_loop (drop (length ?p) (?p @ ?rest)) (u16 (int (length (?p @ ?rest)) - int (length ?p)))
          (rt\<lparr>rx_q := rx_q rt @ [dix]\<rparr>) (env\<lparr>freeQ := Some fq'\<rparr>)"
      using pos p by (auto split: if_splits)
    have "length ?rest < 65536" using Cons.prems(5) pl by simp
    moreover from this have "u16 (int (length (?p @ ?rest)) - int (length ?p)) = length ?rest"
      by (simp add: u16_id)
    moreover have "length ms + 3 \<le> length fq'" using Cons.prems(4) fq by simp
    ultimately obtain dixs where "map nb_data dixs = map msdu_dix ms"
      "slice_loop (?p @ ?rest) (length (?p @ ?rest)) rt env =
        Some (rt\<lparr>rx_q := rx_q rt @ dix # dixs\<rparr>, env\<lparr>freeQ := Some (drop (length ms) fq')\<rparr>)"
      using Cons.IH [of "env\<lparr>freeQ := Some fq'\<rparr>" fq' "rt\<lparr>rx_q := rx_q rt @ [dix]\<rparr>"]
        Cons.prems(1) False step by auto
    then show ?thesis
      using pl dix fq by (intro exI [of _ "dix # dixs"]) simp
  qed
qed simp

subsection \<open>Properties\<close>

text \<open>
  C31: an A-MSDU that arrives on a TID without a block-ack agreement leaves the module as exactly
  its subframes, in order, each as an Ethernet II frame with the subframe's addresses, type and
  payload, on the connection's device; the aggregate itself is freed.
\<close>
theorem amsdu_delivered_as_subframes:
  assumes "\<forall>m \<in> set ms. ok_msdu m" "ms \<noteq> []" "length (amsdu_payload ms) + 14 < 65536"
    and "length hdr = 14" "nb_data buf = hdr @ amsdu_payload ms"
    and "freeQ env = Some fq" "length ms + 3 \<le> length fq"
    and "tid < length (RxTid c)" "\<not> aggr (RxTid c ! tid)" "rx_q (RxTid c ! tid) = []"
    and "aggr_dev c = Some d"
  shows "\<exists>dixs c' env'. aggr_process_recv_frm c tid seq_no True buf env = Some (c', env', None) \<and>
    map nb_data dixs = map msdu_dix ms \<and> rx_out env' = rx_out env @ map (Pair d) dixs \<and>
    freed env' = freed env @ [buf]"
proof -
  have len: "a_netbuf_to_len buf = 14 + length (amsdu_payload ms)"
    using assms by (simp add: a_netbuf_to_len_def)
  have "length (amsdu_payload ms) < 65536" using assms by simp
  from slice_loop_amsdu [OF assms(1,2,6,7) this, of "RxTid c ! tid"] obtain dixs where
    d: "map nb_data dixs = map msdu_dix ms" and
    s: "slice_loop (amsdu_payload ms) (length (amsdu_payload ms)) (RxTid c ! tid) env =
      Some ((RxTid c ! tid)\<lparr>rx_q := dixs\<rparr>, env\<lparr>freeQ := Some (drop (length ms) fq)\<rparr>)"
    using assms(10) by auto
  have "u16 (int (a_netbuf_to_len buf) - 14) = length (amsdu_payload ms)"
    using assms(3) len by (simp add: u16_id)
  with s have "aggr_slice_amsdu (RxTid c ! tid) buf env =
      Some ((RxTid c ! tid)\<lparr>rx_q := dixs\<rparr>,
        env\<lparr>freeQ := Some (drop (length ms) fq), freed := freed env @ [buf]\<rparr>)"
    using assms(4,5) by (simp add: aggr_slice_amsdu_def)
  with d show ?thesis
    using assms(8,9,11)
    by (auto simp: aggr_process_recv_frm_def aggr_dispatch_frames_def intro!: exI [of _ dixs])
qed

text \<open>The slicer trusts the length field of a subframe.  When it names between 46 and 1508 bytes
  but the aggregate ends before them, the copy reads past the end of the receive buffer.
\<close>
theorem amsdu_subframe_length_unchecked:
  assumes "nb_data buf = hdr @ body" "length hdr = 14" "15 \<le> length body" "length body < 65500"
    and "be16 (body ! 12) (body ! 13) = n" "46 \<le> n" "n \<le> 1508" "length body < n + 14"
    and "freeQ env = Some fq" "4 \<le> length fq"
  shows "aggr_slice_amsdu rt buf env = None"
proof -
  obtain b fq' where fq: "fq = b # fq'" using assms by (cases fq) auto
  have fq': "freeQ env = Some (b # fq')" "3 \<le> length fq'" using assms fq by auto
  have "u16 (int (a_netbuf_to_len buf) - 14) = length body"
    using assms by (simp add: a_netbuf_to_len_def u16_id)
  moreover have "blk 12 2 body = Some [body ! 12, body ! 13]"
  proof -
    have "take 2 (drop 12 body) = [body ! 12, body ! 13]"
      using assms(3) by (simp add: numeral_2_eq_2 take_Suc_conv_app_nth)
    then show ?thesis using assms(3) by simp
  qed
  moreover have "blk 0 (n + 14) body = None" using assms(8) by (simp add: blk_def)
  ultimately have "slice_loop body (length body) rt env = None"
    using assms(3,5-7) by (subst slice_loop.simps) (simp add: get_osbuf_stocked [OF fq'] Let_def)
  then show ?thesis
    using assms(1,2) \<open>u16 _ = length body\<close> by (simp add: aggr_slice_amsdu_def)
qed

end
