(* ===== verification/ReorderWitness.thy ===== *)
theory ReorderWitness
  imports ReorderTimer AmsduSlice
begin

text \<open>
  Concrete states at which the hypotheses of the reordering properties hold: a connection whose
  traffic identifier 0 has an agreement with four slots, the next expected frame being 10, and the
  same connection after frame 11 arrived early.
\<close>

definition frame :: "nat \<Rightarrow> netbuf" where
  "frame n = \<lparr>nb_head = [], nb_data = [word_of_nat n]\<rparr>"

definition demo_rxtid :: "nat \<Rightarrow> nat \<Rightarrow> RXTID" where
  "demo_rxtid n w = init_rxtid\<lparr>seq_next := n, hold_q := Some (replicate (TID_WINDOW_SZ w) empty_slot),
     win_sz := w, hold_q_sz := TID_WINDOW_SZ w, aggr := True\<rparr>"

definition demo_conn :: "nat \<Rightarrow> nat \<Rightarrow> AGGR_CONN_INFO" where
  "demo_conn n w = \<lparr>aggr_dev = Some 0, aggr_sz = 8, timerScheduled = False, timer_armed = False,
     RxTid = demo_rxtid n w # replicate 7 init_rxtid\<rparr>"

definition demo_env :: aggr_env where
  "demo_env = \<lparr>freeQ = Some [], os_alloc = [], rx_out = [], freed = []\<rparr>"

lemma replicate8: "replicate 8 x = [x, x, x, x, x, x, x, x]"
  by (simp add: eval_nat_numeral)

lemma replicate7: "replicate 7 x = [x, x, x, x, x, x, x]"
  by (simp add: eval_nat_numeral)

lemma upt8: "[0..<8] = [0, 1, 2, 3, 4, 5, 6, 7::nat]"
  by (simp add: upt_rec)

lemma demo_tid0 [simp]: "RxTid (demo_conn n w) ! 0 = demo_rxtid n w" "length (RxTid (demo_conn n w)) = 8"
  by (simp_all add: demo_conn_def)

lemma demo_fields [simp]:
  "aggr (demo_rxtid n w)" "seq_next (demo_rxtid n w) = n" "hold_q_sz (demo_rxtid n w) = 2 * w"
  "hold_q (demo_rxtid n w) = Some (replicate (2 * w) empty_slot)" "\<not> timerMon (demo_rxtid n w)"
  "aggr_dev (demo_conn n w) = Some 0"
  by (simp_all add: demo_rxtid_def demo_conn_def init_rxtid_def TID_WINDOW_SZ_def)

lemma demo_rxtid_wf:
  assumes "0 < w" "2 * w dvd 4096" "n < 4096"
  shows "wf_rxtid (demo_rxtid n w) \<and> mpdu_only (demo_rxtid n w) \<and> rx_q (demo_rxtid n w) = [] \<and>
    \<not> holds_frame (demo_rxtid n w) \<and> held (demo_rxtid n w) = (\<lambda>_. None)"
  by (rule new_agreement_wf [OF _ assms demo_rxtid_def]) (simp add: init_rxtid_def)

lemma demo_wf: "0 < w \<Longrightarrow> 2 * w dvd 4096 \<Longrightarrow> n < 4096 \<Longrightarrow> wf_conn (demo_conn n w)"
  using demo_rxtid_wf [of w n]
  by (auto simp: wf_conn_def demo_conn_def init_rxtid_def holds_frame_def)

lemma demo_small: "w < 128 \<Longrightarrow> small_windows (demo_conn n w)"
  by (auto simp: small_windows_def demo_conn_def init_rxtid_def demo_rxtid_def TID_WINDOW_SZ_def)

lemma demo_reset:
  "aggr_reset_state \<lparr>aggr_dev = None, aggr_sz = 8, timerScheduled = False, timer_armed = False, RxTid = replicate 8 init_rxtid\<rparr>
     (Some 0) demo_env =
   Some (\<lparr>aggr_dev = Some 0, aggr_sz = 8, timerScheduled = False, timer_armed = False, RxTid = replicate 8 init_rxtid\<rparr>, demo_env)"
  by (simp add: aggr_reset_state_def upt8 replicate8 aggr_delete_tid_state_def init_rxtid_def set_rxtid_def)

lemma demo_addba:
  "aggr_recv_addba_req_evt \<lparr>aggr_dev = Some 0, aggr_sz = 8, timerScheduled = False, timer_armed = False,
      RxTid = replicate 8 init_rxtid\<rparr> 0 10 2 True demo_env = Some (demo_conn 10 2, demo_env)"
  by (simp add: aggr_recv_addba_req_evt_def replicate8 replicate7 init_rxtid_def set_rxtid_def demo_conn_def demo_rxtid_def)

lemma demo_reach: "aggr_reach (demo_conn 10 2) demo_env"
proof -
  have 0: "aggr_reach \<lparr>aggr_dev = None, aggr_sz = 8, timerScheduled = False, timer_armed = False,
      RxTid = replicate 8 init_rxtid\<rparr> demo_env"
    by (rule aggr_reach.init [where al = "[]"])
      (simp_all add: aggr_init_conn_def aggr_init_def demo_env_def numeral_eq_Suc)
  from aggr_reach.addba [OF aggr_reach.reset [OF 0 demo_reset] _ _ _ _ _ demo_addba] show ?thesis by simp
qed

theorem aggr_recv_refines_reorder_witness:
  "\<exists>c' env' out. aggr_process_recv_frm (demo_conn 10 2) 0 11 False (frame 5) demo_env = Some (c', env', None) \<and>
     wf_conn c' \<and> rx_out env' = map (Pair 0) out \<and>
     spec_recv 4 11 (frame 5) (10, \<lambda>_. None, []) = (seq_next (RxTid c' ! 0), held (RxTid c' ! 0), out)"
  using aggr_recv_refines_reorder [of "demo_conn 10 2" 0 11 0 "frame 5" demo_env]
    demo_wf [of 2 10] demo_rxtid_wf [of 2 10]
  by (simp add: demo_env_def sdist_def)

theorem aggr_recv_in_order_witness:
  "\<exists>c' env' k. aggr_process_recv_frm (demo_conn 10 2) 0 10 False (frame 5) demo_env = Some (c', env', None) \<and>
     k \<le> 4 \<and> seq_next (RxTid c' ! 0) = (10 + k) mod 4096"
  using aggr_recv_in_order [of "demo_conn 10 2" 0 10 0 "frame 5" demo_env] demo_wf [of 2 10]
  by auto

text \<open>Frame 11 arrived while frame 10 is missing: it is held, and the timer runs.\<close>

definition demo_held :: AGGR_CONN_INFO where
  "demo_held = \<lparr>aggr_dev = Some 0, aggr_sz = 8, timerScheduled = True, timer_armed = True,
     RxTid = (demo_rxtid 10 2)\<lparr>hold_q := Some [empty_slot, empty_slot, empty_slot,
         \<lparr>osbuf = Some (frame 5), is_amsdu = False, slot_seq_no = 11\<rparr>],
       progress := False, timerMon := True\<rparr> # replicate 7 init_rxtid\<rparr>"

lemma demo_held_recv:
  "aggr_process_recv_frm (demo_conn 10 2) 0 11 False (frame 5) demo_env = Some (demo_held, demo_env, None)"
proof -
  have r4: "replicate 4 x = [x, x, x, x]" for x :: OSBUF_HOLD_Q by (simp add: eval_nat_numeral)
  let ?c = "(demo_conn 10 2)\<lparr>RxTid := (demo_rxtid 10 2)\<lparr>hold_q := Some [empty_slot, empty_slot, empty_slot,
         \<lparr>osbuf = Some (frame 5), is_amsdu = False, slot_seq_no = 11\<rparr>]\<rparr> # replicate 7 init_rxtid\<rparr>"
  have 1: "shift_window (demo_conn 10 2) 0 11 demo_env = Some (demo_conn 10 2, demo_env)"
    by (simp add: shift_window_def window_end_def out_of_window_def)
  have 2: "hold_frame (demo_conn 10 2) 0 11 False (frame 5) demo_env = Some (?c, demo_env)"
    by (simp add: hold_frame_def AGGR_WIN_IDX_def r4 at_def empty_slot_def set_rxtid_def)
      (simp add: demo_conn_def)
  have 3: "aggr_deque_frms ?c 0 0 CONTIGUOUS_SEQNO demo_env = Some (?c, demo_env)"
    by (simp add: aggr_deque_frms_def deque_rxtid_def AGGR_WIN_IDX_def deque_loop.simps at_def
        empty_slot_def set_rxtid_def demo_rxtid_def init_rxtid_def TID_WINDOW_SZ_def)
  have 4: "start_timer ?c 0 = Some demo_held"
    by (simp add: start_timer_def demo_conn_def holds_frame_def set_rxtid_def demo_held_def)
  show ?thesis by (simp add: aggr_process_recv_frm_def 1 2 3 4)
qed

text \<open>Frame 11 once more: the frame that was held is freed, and the new one takes its place.\<close>

lemma demo_held_tid [simp]: "length (RxTid demo_held) = 8" "aggr (RxTid demo_held ! 0)"
  by (simp_all add: demo_held_def demo_rxtid_def)

lemma aggr_duplicate_replaces:
  "\<exists>c' env'. aggr_process_recv_frm demo_held 0 11 False (frame 6) demo_env = Some (c', env', None) \<and>
    freed env' = [frame 5] \<and> rx_out env' = [] \<and> held (RxTid c' ! 0) 11 = Some (frame 6)"
proof -
  let ?rt = "(RxTid demo_held ! 0)\<lparr>hold_q := Some [empty_slot, empty_slot, empty_slot,
         \<lparr>osbuf = Some (frame 6), is_amsdu = False, slot_seq_no = 11\<rparr>]\<rparr>"
  let ?c = "set_rxtid demo_held 0 ?rt" and ?env = "demo_env\<lparr>freed := [frame 5]\<rparr>"
  have 1: "shift_window demo_held 0 11 demo_env = Some (demo_held, demo_env)"
    by (simp add: shift_window_def window_end_def out_of_window_def demo_held_def)
  have 2: "hold_frame demo_held 0 11 False (frame 6) demo_env = Some (?c, ?env)"
    by (simp add: hold_frame_def AGGR_WIN_IDX_def at_def set_rxtid_def demo_held_def demo_env_def)
  have 3: "aggr_deque_frms ?c 0 0 CONTIGUOUS_SEQNO ?env = Some (?c, ?env)"
    by (simp add: aggr_deque_frms_def deque_rxtid_def AGGR_WIN_IDX_def deque_loop.simps at_def demo_held_def
        empty_slot_def set_rxtid_def demo_rxtid_def init_rxtid_def TID_WINDOW_SZ_def)
  have 4: "start_timer ?c 0 = Some (set_rxtid ?c 0 (?rt\<lparr>progress := True\<rparr>))"
    by (simp add: start_timer_def demo_held_def)
  have "aggr_process_recv_frm demo_held 0 11 False (frame 6) demo_env =
      Some (set_rxtid ?c 0 (?rt\<lparr>progress := True\<rparr>), ?env, None)"
    by (simp add: aggr_process_recv_frm_def 1 2 3 4)
  then show ?thesis by (simp add: held_def demo_held_def demo_env_def)
qed

lemma demo_held_reach: "conn_reach demo_held demo_env"
proof -
  let ?c0 = "\<lparr>aggr_dev = None, aggr_sz = 8, timerScheduled = False, timer_armed = False,
    RxTid = replicate 8 init_rxtid\<rparr>"
  have "conn_reach ?c0 demo_env"
    by (rule conn_reach.init [where ok = True and al = "[]"])
      (simp_all add: aggr_init_conn_def aggr_init_def demo_env_def numeral_eq_Suc)
  from conn_reach.step [OF this, where e = "AgReset (Some 0)"]
  have "conn_reach (?c0\<lparr>aggr_dev := Some 0\<rparr>) demo_env" using demo_reset by simp
  from conn_reach.step [OF this, where e = "AgAddba 0 10 2 True"]
  have "conn_reach (demo_conn 10 2) demo_env" using demo_addba by simp
  from conn_reach.step [OF this, where e = "AgRecv 0 11 False (frame 5)"]
  show ?thesis using demo_held_recv by simp
qed

theorem aggr_reachable_timer_witness:
  "length (RxTid demo_held) = 8 \<and> aggr (RxTid demo_held ! 0) \<and> timerScheduled demo_held \<and> timer_armed demo_held"
proof -
  have "holds_frame (RxTid demo_held ! 0)" by (simp add: demo_held_def holds_frame_def)
  moreover have "RxTid demo_held ! 0 \<in> set (RxTid demo_held)" by simp
  ultimately show ?thesis using aggr_reachable_timer [OF demo_held_reach] by blast
qed

theorem aggr_events_never_fault_witness:
  "aggr_process_recv_frm (demo_conn 10 2) 0 12 False (frame 5) demo_env \<noteq> None \<and>
   aggr_process_bar (demo_conn 10 2) 0 12 demo_env \<noteq> None \<and>
   aggr_recv_addba_req_evt (demo_conn 10 2) 0 12 8 True demo_env \<noteq> None \<and>
   aggr_recv_delba_req_evt (demo_conn 10 2) 0 demo_env \<noteq> None \<and>
   aggr_reset_state (demo_conn 10 2) None demo_env \<noteq> None \<and>
   aggr_timeout (demo_conn 10 2) demo_env \<noteq> None"
  using aggr_events_never_fault [OF demo_reach, of 12 0 "frame 5" 8 True None] by simp



theorem aggr_bar_moves_window_witness:
  "\<exists>c' env'. aggr_process_bar (demo_conn 10 2) 0 12 demo_env = Some (c', env') \<and>
     seq_next (RxTid c' ! 0) = 12"
  using aggr_bar_moves_window [of "demo_conn 10 2" 0 0 12 demo_env] demo_wf [of 2 10]
  by (auto simp: sdist_def)

theorem aggr_bar_seq_zero_witness:
  "\<exists>c' env'. aggr_process_bar (demo_conn 4094 2) 0 0 demo_env = Some (c', env') \<and>
     seq_next (RxTid c' ! 0) = 2 \<and> \<not> holds_frame (RxTid c' ! 0)"
  using aggr_bar_seq_zero [of "demo_conn 4094 2" 0 demo_env] demo_wf [of 2 4094] by simp

theorem aggr_addba_tid_unchecked_witness:
  "aggr_recv_addba_req_evt (demo_conn 10 2) 15 0 8 True demo_env = None \<and>
   aggr_recv_delba_req_evt (demo_conn 10 2) 15 demo_env = None"
  by (rule aggr_addba_tid_unchecked) simp_all

theorem aggr_timeout_wide_window_diverges_witness:
  "aggr_timeout (demo_conn 10 128) demo_env = None"
proof (rule aggr_timeout_wide_window_diverges [where i = 0])
  show "\<forall>rt \<in> set (RxTid (demo_conn 10 128)). \<not> timerMon rt"
    by (simp add: demo_conn_def init_rxtid_def demo_rxtid_def)
  show "\<forall>n \<in> set (replicate 256 empty_slot). osbuf n = None"
    by (auto simp: empty_slot_def)
  show "length (replicate 256 empty_slot) = hold_q_sz (RxTid (demo_conn 10 128) ! 0)"
    by (simp only: demo_tid0 demo_fields length_replicate)
qed simp_all

definition demo_msdu :: "nat \<Rightarrow> msdu" where
  "demo_msdu n = \<lparr>m_dst = replicate 6 1, m_src = replicate 6 2, m_type = 0x0800,
     m_body = replicate n 7\<rparr>"

definition stocked_env :: aggr_env where
  "stocked_env = \<lparr>freeQ = Some (replicate 16 (frame 0)), os_alloc = [], rx_out = [], freed = []\<rparr>"

theorem amsdu_delivered_as_subframes_witness:
  "\<exists>dixs c' env'. aggr_process_recv_frm ((demo_conn 10 2)\<lparr>RxTid := replicate 8 init_rxtid\<rparr>) 3 7 True
       \<lparr>nb_head = [], nb_data = replicate 14 0 @ amsdu_payload [demo_msdu 39, demo_msdu 50]\<rparr>
       stocked_env = Some (c', env', None) \<and>
    map nb_data dixs = map msdu_dix [demo_msdu 39, demo_msdu 50] \<and>
    rx_out env' = rx_out stocked_env @ map (Pair 0) dixs \<and>
    freed env' = freed stocked_env @
      [\<lparr>nb_head = [], nb_data = replicate 14 0 @ amsdu_payload [demo_msdu 39, demo_msdu 50]\<rparr>]"
proof (rule amsdu_delivered_as_subframes)
  have ok: "ok_msdu (demo_msdu 39)" "ok_msdu (demo_msdu 50)" by (simp_all add: ok_msdu_def demo_msdu_def)
  then show "\<forall>m \<in> set [demo_msdu 39, demo_msdu 50]. ok_msdu m" by simp
  show "length (amsdu_payload [demo_msdu 39, demo_msdu 50]) + 14 < 65536"
    using ok by (simp add: length_pad4 length_subframe) (simp add: demo_msdu_def)
  show "freeQ stocked_env = Some (replicate 16 (frame 0))" by (simp add: stocked_env_def)
qed (simp_all add: init_rxtid_def demo_conn_def)

theorem amsdu_subframe_length_unchecked_witness:
  "aggr_slice_amsdu init_rxtid \<lparr>nb_head = [],
     nb_data = replicate 14 0 @ (replicate 12 1 @ [0, 100] @ replicate 20 2)\<rparr> stocked_env = None"
proof (rule amsdu_subframe_length_unchecked)
  show "be16 ((replicate 12 1 @ [0, 100] @ replicate 20 2) ! 12)
      ((replicate 12 1 @ [0, 100] @ replicate 20 2) ! 13) = 100"
    by (simp add: nth_append be16_def)
  show "freeQ stocked_env = Some (replicate 16 (frame 0))" by (simp add: stocked_env_def)
  show "length (replicate 14 (0::byte)) = 14" by (rule length_replicate)
qed simp_all

definition demo_netbuf :: netbuf where
  "demo_netbuf = \<lparr>nb_head = replicate 32 0,
     nb_data = dix_frame (replicate 6 1) (replicate 6 2) 0x0800 [1, 2, 3]\<rparr>"

theorem dix_dot3_roundtrip_witness:
  "\<exists>b1 b2. wmi_dix_2_dot3 demo_netbuf = Some (A_OK, b1) \<and>
     nb_data b1 = dot3_frame (replicate 6 1) (replicate 6 2) 0x0800 [1, 2, 3] \<and>
     wmi_dot3_2_dix b1 = Some (A_OK, b2) \<and> nb_data b2 = nb_data demo_netbuf"
  by (rule dix_dot3_roundtrip) (simp_all add: demo_netbuf_def)

end
