(* ===== verification/Credits.thy ===== *)
theory Credits
  imports Prelude
begin

text \<open>
  Transmit credit distribution: \<open>host/miscdrv/credit_dist.c\<close>, and the default scheme of
  \<open>host/htc2/htc_services.c\<close>.

  The target grants the host a number of credits; the host keeps a free pool
  (\<open>CurrentFreeCredits\<close>) and gives credits to the endpoints of a list that is ordered by
  priority.  The distribution structures are a map from endpoint numbers, and the doubly linked
  list through \<open>pNext\<close> and \<open>pPrev\<close> is the list \<open>order\<close> of the endpoints on it; a pointer into the
  list is an endpoint number, and \<open>None\<close> is the null pointer.  \<open>credit_distribution\<close> is the
  contract HTC relies on when it calls the distribution function through a pointer.
\<close>

subsection \<open>Data\<close>

abbreviation (input) HTC_CTRL_RSVD_SVC :: nat where "HTC_CTRL_RSVD_SVC \<equiv> 1"
abbreviation (input) WMI_CONTROL_SVC :: nat where "WMI_CONTROL_SVC \<equiv> 256"
abbreviation (input) WMI_DATA_BE_SVC :: nat where "WMI_DATA_BE_SVC \<equiv> 257"
abbreviation (input) WMI_DATA_BK_SVC :: nat where "WMI_DATA_BK_SVC \<equiv> 258"
abbreviation (input) WMI_DATA_VI_SVC :: nat where "WMI_DATA_VI_SVC \<equiv> 259"
abbreviation (input) WMI_DATA_VO_SVC :: nat where "WMI_DATA_VO_SVC \<equiv> 260"

record HTC_ENDPOINT_CREDIT_DIST =
  cd_ServiceID :: nat
  DistFlags :: "32 word"
  TxCreditsNorm :: int
  TxCreditsMin :: int
  TxCreditsAssigned :: int
  TxCredits :: int
  TxCreditsToDist :: int
  TxCreditsSeek :: int
  TxCreditSize :: int
  TxCreditsPerMaxMsg :: int
  cd_TxQueueDepth :: nat

record COMMON_CREDIT_STATE_INFO =
  TotalAvailableCredits :: int
  CurrentFreeCredits :: int
  pLowestPriEpDist :: "nat option"

datatype HTC_CREDIT_DIST_REASON =
    HTC_CREDIT_DIST_SEND_COMPLETE | HTC_CREDIT_DIST_ACTIVITY_CHANGE
  | HTC_CREDIT_DIST_SEEK_CREDITS | HTC_DUMP_CREDIT_STATE

type_synonym dists = "nat \<Rightarrow> HTC_ENDPOINT_CREDIT_DIST"
type_synonym credit_st = "COMMON_CREDIT_STATE_INFO \<times> dists"

abbreviation (input) HTC_EP_ACTIVE :: "32 word" where "HTC_EP_ACTIVE \<equiv> 0x80000000"

definition IS_EP_ACTIVE :: "HTC_ENDPOINT_CREDIT_DIST \<Rightarrow> bool" where
  "IS_EP_ACTIVE d \<longleftrightarrow> DistFlags d AND HTC_EP_ACTIVE \<noteq> 0"

definition SET_EP_ACTIVE :: "HTC_ENDPOINT_CREDIT_DIST \<Rightarrow> HTC_ENDPOINT_CREDIT_DIST" where
  "SET_EP_ACTIVE d = d\<lparr>DistFlags := DistFlags d OR HTC_EP_ACTIVE\<rparr>"

text \<open>The part of the list a walk along \<open>pNext\<close> visits, and the way back along \<open>pPrev\<close>.\<close>

definition from_ep :: "nat list \<Rightarrow> nat option \<Rightarrow> nat list" where
  "from_ep order p = (case p of None \<Rightarrow> [] | Some e \<Rightarrow> dropWhile (\<lambda>x. x \<noteq> e) order)"

definition back_from :: "nat list \<Rightarrow> nat option \<Rightarrow> nat list" where
  "back_from order p = (case p of None \<Rightarrow> []
     | Some e \<Rightarrow> rev (takeWhile (\<lambda>x. x \<noteq> e) order @ [e]))"

subsection \<open>The driver's distribution functions\<close>

definition ReduceCredits :: "nat \<Rightarrow> int \<Rightarrow> credit_st \<Rightarrow> credit_st" where
  "ReduceCredits e Limit s =
     (let (ci, cd) = s; d = (cd e)\<lparr>TxCreditsAssigned := Limit\<rparr>
      in if TxCredits d \<le> Limit then (ci, cd(e := d))
         else let credits = TxCredits d - Limit
           in (ci\<lparr>CurrentFreeCredits := CurrentFreeCredits ci + credits\<rparr>,
               cd(e := d\<lparr>TxCredits := TxCredits d - credits\<rparr>)))"

definition GiveCredits :: "nat \<Rightarrow> int \<Rightarrow> credit_st \<Rightarrow> credit_st" where
  "GiveCredits e credits s =
     (let (ci, cd) = s
      in (ci\<lparr>CurrentFreeCredits := CurrentFreeCredits ci - credits\<rparr>,
          cd(e := (cd e)\<lparr>TxCreditsAssigned := TxCreditsAssigned (cd e) + credits,
                        TxCredits := TxCredits (cd e) + credits\<rparr>)))"

definition set_active :: "nat \<Rightarrow> credit_st \<Rightarrow> credit_st" where
  "set_active e s = (let (ci, cd) = s in (ci, cd(e := SET_EP_ACTIVE (cd e))))"

text \<open>One pass of the first loop of \<open>ar6000_credit_init\<close>.\<close>

definition init_credits_ep :: "int \<Rightarrow> nat \<Rightarrow> credit_st \<Rightarrow> credit_st" where
  "init_credits_ep TotalCredits e s =
     (let (ci, cd) = s;
          svc = cd_ServiceID (cd e);
          m = TxCreditsPerMaxMsg (cd e);
          s = (ci, cd(e := (cd e)\<lparr>TxCreditsMin := m\<rparr>));
          s = (if TotalCredits > 4 \<and> (svc = WMI_DATA_BK_SVC \<or> svc = WMI_DATA_BE_SVC)
               then set_active e (GiveCredits e m s) else s)
      in if svc = WMI_CONTROL_SVC then set_active e (GiveCredits e m s)
         else if svc = WMI_DATA_BK_SVC then ((fst s)\<lparr>pLowestPriEpDist := Some e\<rparr>, snd s)
         else s)"

text \<open>One pass of the second loop; the division is by zero when \<open>TxCreditsPerMaxMsg\<close> is.\<close>

definition init_norm_ep :: "int \<Rightarrow> nat \<Rightarrow> dists \<Rightarrow> dists option" where
  "init_norm_ep free e cd =
     (let d = cd e; m = TxCreditsPerMaxMsg d
      in if cd_ServiceID d = WMI_CONTROL_SVC then Some (cd(e := d\<lparr>TxCreditsNorm := m\<rparr>))
         else if m = 0 then None
         else let count = (free div m) * m; count = (count * 3) div 4
           in Some (cd(e := d\<lparr>TxCreditsNorm := max count m\<rparr>)))"

fun init_norms :: "int \<Rightarrow> nat list \<Rightarrow> dists \<Rightarrow> dists option" where
  "init_norms free [] cd = Some cd"
| "init_norms free (e # es) cd = Option.bind (init_norm_ep free e cd) (init_norms free es)"

definition ar6000_credit_init :: "nat list \<Rightarrow> nat option \<Rightarrow> int \<Rightarrow> credit_st \<Rightarrow> credit_st option" where
  "ar6000_credit_init order pEPList TotalCredits s =
     (let (ci, cd) = s;
          ci = ci\<lparr>TotalAvailableCredits := TotalCredits, CurrentFreeCredits := TotalCredits\<rparr>;
          (ci, cd) = fold (init_credits_ep TotalCredits) (from_ep order pEPList) (ci, cd)
      in if CurrentFreeCredits ci \<le> 0 then Some (ci, cd)
         else map_option (Pair ci) (init_norms (CurrentFreeCredits ci) (from_ep order pEPList) cd))"

text \<open>One endpoint of the \<open>HTC_CREDIT_DIST_SEND_COMPLETE\<close> loop.\<close>

definition send_complete_ep :: "nat \<Rightarrow> credit_st \<Rightarrow> credit_st" where
  "send_complete_ep e s =
     (let (ci, cd) = s
      in if TxCreditsToDist (cd e) > 0 then
           let cd = cd(e := (cd e)\<lparr>TxCredits := TxCredits (cd e) + TxCreditsToDist (cd e),
                                   TxCreditsToDist := 0\<rparr>);
               (ci, cd) = (if TxCredits (cd e) > TxCreditsAssigned (cd e)
                           then ReduceCredits e (TxCreditsAssigned (cd e)) (ci, cd) else (ci, cd));
               (ci, cd) = (if TxCredits (cd e) > TxCreditsNorm (cd e)
                           then ReduceCredits e (TxCreditsNorm (cd e)) (ci, cd) else (ci, cd))
           in if \<not> IS_EP_ACTIVE (cd e) \<and> cd_TxQueueDepth (cd e) = 0
              then ReduceCredits e 0 (ci, cd) else (ci, cd)
         else s)"

text \<open>One endpoint of \<open>RedistributeCredits\<close>.\<close>

definition redistribute_ep :: "nat \<Rightarrow> credit_st \<Rightarrow> credit_st" where
  "redistribute_ep e s =
     (let svc = cd_ServiceID (snd s e);
          (ci, cd) = (if svc = WMI_DATA_BK_SVC \<or> svc = WMI_DATA_BE_SVC then set_active e s else s)
      in if svc \<noteq> WMI_CONTROL_SVC \<and> \<not> IS_EP_ACTIVE (cd e) then
           if cd_TxQueueDepth (cd e) = 0 then ReduceCredits e 0 (ci, cd)
           else ReduceCredits e (TxCreditsMin (cd e)) (ci, cd)
         else (ci, cd))"

definition RedistributeCredits :: "nat list \<Rightarrow> nat option \<Rightarrow> credit_st \<Rightarrow> credit_st" where
  "RedistributeCredits order pEPDistList s = fold redistribute_ep (from_ep order pEPDistList) s"

text \<open>
  The loop of \<open>SeekCredits\<close> that takes credits from endpoints of lower priority, over the way
  back from the lowest one; running off the list is a null pointer access.
\<close>

fun seek_lower :: "nat \<Rightarrow> nat list \<Rightarrow> credit_st \<Rightarrow> credit_st option" where
  "seek_lower ep [] s = None"
| "seek_lower ep (cur # path) s =
     (if cur = ep then Some s else
      let (ci, cd) = s; need = TxCreditsSeek (cd ep) - CurrentFreeCredits ci
      in if TxCreditsAssigned (cd cur) - need \<ge> TxCreditsMin (cd cur) then
           let s' = ReduceCredits cur (TxCreditsAssigned (cd cur) - need) s
           in if CurrentFreeCredits (fst s') \<ge> TxCreditsSeek (snd s' ep) then Some s'
              else seek_lower ep path s'
         else seek_lower ep path s)"

definition give_if :: "nat \<Rightarrow> int \<Rightarrow> credit_st \<Rightarrow> credit_st" where
  "give_if ep credits s = (if credits \<noteq> 0 then GiveCredits ep credits s else s)"

definition SeekCredits :: "nat list \<Rightarrow> nat \<Rightarrow> credit_st \<Rightarrow> credit_st option" where
  "SeekCredits order ep s =
     (let (ci, cd) = s; d = cd ep
      in if cd_ServiceID d = WMI_CONTROL_SVC
            \<or> (cd_ServiceID d = WMI_DATA_VI_SVC \<and> TxCreditsAssigned d \<ge> TxCreditsNorm d)
            \<or> (cd_ServiceID d = WMI_DATA_VO_SVC \<and> TxCreditsAssigned d \<ge> TxCreditsNorm d)
         then Some s
         else
           let credits = min (CurrentFreeCredits ci) (TxCreditsSeek d)
           in if credits \<ge> TxCreditsSeek d then Some (give_if ep credits s)
              else map_option
                (\<lambda>s'. give_if ep (min (CurrentFreeCredits (fst s')) (TxCreditsSeek (snd s' ep))) s')
                (seek_lower ep (back_from order (pLowestPriEpDist ci)) s))"

definition ar6000_credit_distribute :: "nat list \<Rightarrow> nat option \<Rightarrow> HTC_CREDIT_DIST_REASON \<Rightarrow>
    credit_st \<Rightarrow> credit_st option" where
  "ar6000_credit_distribute order pEPDistList Reason s = (case Reason of
       HTC_CREDIT_DIST_SEND_COMPLETE \<Rightarrow> Some (fold send_complete_ep (from_ep order pEPDistList) s)
     | HTC_CREDIT_DIST_ACTIVITY_CHANGE \<Rightarrow> Some (RedistributeCredits order pEPDistList s)
     | HTC_CREDIT_DIST_SEEK_CREDITS \<Rightarrow> (case pEPDistList of
           None \<Rightarrow> None | Some ep \<Rightarrow> SeekCredits order ep s)
     | HTC_DUMP_CREDIT_STATE \<Rightarrow> Some s)"

subsection \<open>The default scheme of HTC\<close>

fun default_init_eps :: "int \<Rightarrow> nat list \<Rightarrow> dists \<Rightarrow> dists" where
  "default_init_eps n [] cd = cd"
| "default_init_eps n (e # es) cd =
     (if n < TxCreditsPerMaxMsg (cd e) then cd
      else default_init_eps n es (cd(e := (cd e)\<lparr>TxCreditsMin := TxCreditsPerMaxMsg (cd e),
             TxCreditsNorm := 0xFFFF, TxCredits := n, TxCreditsAssigned := n\<rparr>)))"

definition HTCDefaultCreditInit :: "nat list \<Rightarrow> nat option \<Rightarrow> int \<Rightarrow> credit_st \<Rightarrow> credit_st option" where
  "HTCDefaultCreditInit order pEPList TotalCredits s =
     (let eps = from_ep order pEPList; (ci, cd) = s
      in if eps = [] then None
         else Some (ci, default_init_eps (TotalCredits div int (length eps)) eps cd))"

definition default_dist_ep :: "nat \<Rightarrow> credit_st \<Rightarrow> credit_st" where
  "default_dist_ep e s =
     (let (ci, cd) = s
      in if TxCreditsToDist (cd e) > 0
         then (ci, cd(e := (cd e)\<lparr>TxCredits := TxCredits (cd e) + TxCreditsToDist (cd e),
                                 TxCreditsToDist := 0\<rparr>))
         else s)"

definition HTCDefaultCreditDist :: "nat list \<Rightarrow> nat option \<Rightarrow> HTC_CREDIT_DIST_REASON \<Rightarrow>
    credit_st \<Rightarrow> credit_st option" where
  "HTCDefaultCreditDist order pEPDistList Reason s =
     (if Reason = HTC_CREDIT_DIST_SEND_COMPLETE
      then Some (fold default_dist_ep (from_ep order pEPDistList) s)
      else Some s)"

end
