(* ===== verification/CreditProps.thy ===== *)
theory CreditProps
  imports Credits
begin

text \<open>
  What a distribution function promises HTC: credits are neither created nor lost, no count turns
  negative, endpoints outside the part of the list it was given stay as they are, and the limits
  HTC configured stay as they are.  \<open>credit_distribution\<close> states it as an interface; the driver's
  function and the default one are its two instances.
\<close>

subsection \<open>The contract\<close>

definition pool :: "nat set \<Rightarrow> credit_st \<Rightarrow> int" where
  "pool A s = CurrentFreeCredits (fst s) +
     (\<Sum>e \<in> A. TxCredits (snd s e) + TxCreditsToDist (snd s e))"

definition credits_ok :: "nat set \<Rightarrow> credit_st \<Rightarrow> bool" where
  "credits_ok A s \<longleftrightarrow> 0 \<le> CurrentFreeCredits (fst s) \<and>
     (\<forall>e \<in> A. 0 \<le> TxCredits (snd s e) \<and> 0 \<le> TxCreditsToDist (snd s e) \<and>
        0 \<le> TxCreditsAssigned (snd s e) \<and> 0 \<le> TxCreditsMin (snd s e) \<and> 0 \<le> TxCreditsNorm (snd s e))"

definition same_limits :: "HTC_ENDPOINT_CREDIT_DIST \<Rightarrow> HTC_ENDPOINT_CREDIT_DIST \<Rightarrow> bool" where
  "same_limits d d' \<longleftrightarrow> cd_ServiceID d' = cd_ServiceID d \<and> TxCreditsNorm d' = TxCreditsNorm d \<and>
     TxCreditsMin d' = TxCreditsMin d \<and> TxCreditsSeek d' = TxCreditsSeek d \<and>
     TxCreditSize d' = TxCreditSize d \<and> TxCreditsPerMaxMsg d' = TxCreditsPerMaxMsg d \<and>
     cd_TxQueueDepth d' = cd_TxQueueDepth d"

text \<open>\<open>A\<close> is the whole list, \<open>B\<close> the endpoints that may change.\<close>

definition credit_step :: "nat set \<Rightarrow> nat set \<Rightarrow> credit_st \<Rightarrow> credit_st \<Rightarrow> bool" where
  "credit_step A B s s' \<longleftrightarrow> pool A s' = pool A s \<and> credits_ok A s' \<and>
     (\<forall>e. e \<notin> B \<longrightarrow> snd s' e = snd s e) \<and> (\<forall>e. same_limits (snd s e) (snd s' e)) \<and>
     TotalAvailableCredits (fst s') = TotalAvailableCredits (fst s) \<and>
     pLowestPriEpDist (fst s') = pLowestPriEpDist (fst s)"

definition call_ok :: "nat list \<Rightarrow> nat option \<Rightarrow> HTC_CREDIT_DIST_REASON \<Rightarrow> credit_st \<Rightarrow> bool" where
  "call_ok order p r s \<longleftrightarrow> (r = HTC_CREDIT_DIST_SEEK_CREDITS \<longrightarrow>
     (case p of None \<Rightarrow> False | Some e \<Rightarrow> e \<in> set order \<and> 0 \<le> TxCreditsSeek (snd s e)))"

locale credit_distribution =
  fixes distribute :: "nat list \<Rightarrow> nat option \<Rightarrow> HTC_CREDIT_DIST_REASON \<Rightarrow> credit_st \<Rightarrow> credit_st option"
    and ready :: "nat list \<Rightarrow> COMMON_CREDIT_STATE_INFO \<Rightarrow> bool"
  assumes distribute_step: "ready order (fst s) \<Longrightarrow> credits_ok (set order) s \<Longrightarrow> call_ok order p r s \<Longrightarrow>
      \<exists>s'. distribute order p r s = Some s' \<and> credit_step (set order) (set (from_ep order p)) s s'"
    and ready_stays: "pLowestPriEpDist ci' = pLowestPriEpDist ci \<Longrightarrow> ready order ci \<Longrightarrow> ready order ci'"

subsection \<open>Each operation keeps the contract\<close>

lemma same_limits_refl [simp]: "same_limits d d"
  by (simp add: same_limits_def)

lemma same_limits_trans: "same_limits a b \<Longrightarrow> same_limits b c \<Longrightarrow> same_limits a c"
  by (simp add: same_limits_def)

lemma credit_step_refl: "credits_ok A s \<Longrightarrow> credit_step A B s s"
  by (simp add: credit_step_def)

lemma credit_step_trans:
  "credit_step A B s s' \<Longrightarrow> credit_step A B s' s'' \<Longrightarrow> credit_step A B s s''"
  by (auto simp: credit_step_def intro: same_limits_trans)

lemma credit_step_mono: "credit_step A B s s' \<Longrightarrow> B \<subseteq> C \<Longrightarrow> credit_step A C s s'"
  by (auto simp: credit_step_def)

lemma credit_step_ok: "credit_step A B s s' \<Longrightarrow> credits_ok A s'"
  by (simp add: credit_step_def)

lemma sum_update:
  assumes "finite A" "e \<in> A"
  shows "(\<Sum>x \<in> A. f ((cd(e := d)) x)) = (\<Sum>x \<in> A. f (cd x)) - f (cd e) + (f d :: int)"
proof -
  have "(\<Sum>x \<in> A. f ((cd(e := d)) x)) = f d + (\<Sum>x \<in> A - {e}. f (cd x))"
    using assms by (simp add: sum.remove [of A e])
  moreover have "(\<Sum>x \<in> A. f (cd x)) = f (cd e) + (\<Sum>x \<in> A - {e}. f (cd x))"
    using assms by (simp add: sum.remove [of A e])
  ultimately show ?thesis by simp
qed

text \<open>The one shape all operations have: an update of the pool counter and of one endpoint.\<close>

lemma credit_step_update:
  assumes "finite A" "e \<in> A" "credits_ok A (ci, cd)"
    and "same_limits (cd e) d" "0 \<le> TxCredits d" "0 \<le> TxCreditsToDist d" "0 \<le> TxCreditsAssigned d"
    and "pLowestPriEpDist ci' = pLowestPriEpDist ci"
    and "TotalAvailableCredits ci' = TotalAvailableCredits ci" "0 \<le> CurrentFreeCredits ci'"
    and "CurrentFreeCredits ci' + TxCredits d + TxCreditsToDist d =
         CurrentFreeCredits ci + TxCredits (cd e) + TxCreditsToDist (cd e)"
  shows "credit_step A {e} (ci, cd) (ci', cd(e := d))"
proof -
  have "pool A (ci', cd(e := d)) = pool A (ci, cd)"
    using sum_update [OF assms(1,2), of "\<lambda>x. TxCredits x + TxCreditsToDist x" cd d] assms(11)
    by (simp add: pool_def)
  then show ?thesis
    using assms by (auto simp: credit_step_def credits_ok_def same_limits_def)
qed

lemma reduce_step:
  assumes "finite A" "e \<in> A" "credits_ok A s" "0 \<le> L"
  shows "credit_step A {e} s (ReduceCredits e L s)"
proof (cases s)
  case (Pair ci cd)
  with assms show ?thesis
    unfolding ReduceCredits_def
    by (auto simp: Let_def credits_ok_def same_limits_def intro!: credit_step_update)
qed

lemma give_step:
  assumes "finite A" "e \<in> A" "credits_ok A s" "0 \<le> n" "n \<le> CurrentFreeCredits (fst s)"
  shows "credit_step A {e} s (GiveCredits e n s)"
proof (cases s)
  case (Pair ci cd)
  with assms show ?thesis
    unfolding GiveCredits_def
    by (auto simp: credits_ok_def same_limits_def intro!: credit_step_update)
qed

lemma set_active_step:
  assumes "finite A" "e \<in> A" "credits_ok A s"
  shows "credit_step A {e} s (set_active e s)"
proof (cases s)
  case (Pair ci cd)
  with assms show ?thesis
    unfolding set_active_def SET_EP_ACTIVE_def
    by (auto simp: credits_ok_def same_limits_def intro!: credit_step_update)
qed

lemma fold_step:
  assumes "\<And>e s. e \<in> B \<Longrightarrow> credits_ok A s \<Longrightarrow> credit_step A {e} s (f e s)"
    and "set es \<subseteq> B" "credits_ok A s"
  shows "credit_step A B s (fold f es s)"
  using assms(2,3)
proof (induction es arbitrary: s)
  case Nil
  then show ?case by (simp add: credit_step_refl)
next
  case (Cons e es)
  have 1: "credit_step A B s (f e s)"
    using assms(1) [of e s] Cons.prems by (auto intro: credit_step_mono)
  then have "credit_step A B (f e s) (fold f es (f e s))"
    using Cons.IH [of "f e s"] Cons.prems(1) credit_step_ok by auto
  with 1 show ?case by (simp add: credit_step_trans)
qed

lemma return_credits_step:
  assumes "finite A" "e \<in> A" "credits_ok A (ci, cd)"
  shows "credit_step A {e} (ci, cd) (ci, cd(e := (cd e)\<lparr>TxCredits := TxCredits (cd e) +
    TxCreditsToDist (cd e), TxCreditsToDist := 0\<rparr>))"
  using assms by (auto simp: credits_ok_def same_limits_def intro!: credit_step_update)

lemma reduce_if_step:
  assumes "credit_step A {e} s s1" "finite A" "e \<in> A" "P \<Longrightarrow> 0 \<le> L"
  shows "credit_step A {e} s (if P then ReduceCredits e L s1 else s1)"
  using assms reduce_step [OF assms(2,3) credit_step_ok [OF assms(1)]]
  by (auto intro: credit_step_trans)

lemma credits_okD:
  "credits_ok A s \<Longrightarrow> e \<in> A \<Longrightarrow> 0 \<le> TxCredits (snd s e) \<and> 0 \<le> TxCreditsToDist (snd s e) \<and>
     0 \<le> TxCreditsAssigned (snd s e) \<and> 0 \<le> TxCreditsMin (snd s e) \<and> 0 \<le> TxCreditsNorm (snd s e)"
  by (simp add: credits_ok_def)

text \<open>\<open>send_complete_ep\<close> as a chain of the operations above.\<close>

definition returned :: "nat \<Rightarrow> credit_st \<Rightarrow> credit_st" where
  "returned e s = (fst s, (snd s)(e := (snd s e)\<lparr>TxCredits := TxCredits (snd s e) +
     TxCreditsToDist (snd s e), TxCreditsToDist := 0\<rparr>))"

definition trim :: "(HTC_ENDPOINT_CREDIT_DIST \<Rightarrow> int) \<Rightarrow> nat \<Rightarrow> credit_st \<Rightarrow> credit_st" where
  "trim lim e s = (if TxCredits (snd s e) > lim (snd s e) then ReduceCredits e (lim (snd s e)) s else s)"

definition idle :: "HTC_ENDPOINT_CREDIT_DIST \<Rightarrow> bool" where
  "idle d \<longleftrightarrow> \<not> IS_EP_ACTIVE d \<and> cd_TxQueueDepth d = 0"

lemma send_complete_ep_eq:
  "send_complete_ep e s =
     (if TxCreditsToDist (snd s e) > 0
      then let s3 = trim TxCreditsNorm e (trim TxCreditsAssigned e (returned e s))
        in if idle (snd s3 e) then ReduceCredits e 0 s3 else s3
      else s)"
  by (cases s) (simp add: send_complete_ep_def returned_def trim_def idle_def Let_def
      split: prod.splits)

lemma trim_step:
  assumes "credit_step A {e} s s1" "finite A" "e \<in> A" "0 \<le> lim (snd s1 e)"
  shows "credit_step A {e} s (trim lim e s1)"
  unfolding trim_def by (rule reduce_if_step [OF assms(1-3)]) (use assms(4) in simp)

lemma send_complete_step:
  assumes "finite A" "e \<in> A" "credits_ok A s"
  shows "credit_step A {e} s (send_complete_ep e s)"
proof -
  have 1: "credit_step A {e} s (returned e s)"
    using return_credits_step [OF assms(1,2), of "fst s" "snd s"] assms(3) by (simp add: returned_def)
  have 2: "credit_step A {e} s (trim TxCreditsAssigned e (returned e s))"
    by (rule trim_step [OF 1 assms(1,2)]) (use credits_okD [OF credit_step_ok [OF 1] assms(2)] in simp)
  have 3: "credit_step A {e} s (trim TxCreditsNorm e (trim TxCreditsAssigned e (returned e s)))"
    by (rule trim_step [OF 2 assms(1,2)]) (use credits_okD [OF credit_step_ok [OF 2] assms(2)] in simp)
  show ?thesis
    unfolding send_complete_ep_eq Let_def
    using reduce_if_step [OF 3 assms(1,2), of "idle _" 0] credit_step_refl [OF assms(3)] by simp
qed

lemma redistribute_step:
  assumes "finite A" "e \<in> A" "credits_ok A s"
  shows "credit_step A {e} s (redistribute_ep e s)"
proof -
  let ?low = "cd_ServiceID (snd s e) = WMI_DATA_BK_SVC \<or> cd_ServiceID (snd s e) = WMI_DATA_BE_SVC"
  define s1 where "s1 = (if ?low then set_active e s else s)"
  have 1: "credit_step A {e} s s1"
    using set_active_step [OF assms] credit_step_refl [OF assms(3)] by (simp add: s1_def)
  note ok = credits_okD [OF credit_step_ok [OF 1] assms(2)]
  have "redistribute_ep e s =
      (if cd_ServiceID (snd s e) \<noteq> WMI_CONTROL_SVC \<and> \<not> IS_EP_ACTIVE (snd s1 e)
       then ReduceCredits e (if cd_TxQueueDepth (snd s1 e) = 0 then 0 else TxCreditsMin (snd s1 e)) s1
       else s1)"
    by (cases s1) (simp add: redistribute_ep_def Let_def s1_def [symmetric])
  with reduce_if_step [OF 1 assms(1,2)] ok show ?thesis by (auto split: if_splits)
qed

lemma default_dist_step:
  assumes "finite A" "e \<in> A" "credits_ok A s"
  shows "credit_step A {e} s (default_dist_ep e s)"
proof (cases s)
  case (Pair ci cd)
  with return_credits_step [OF assms(1,2), of ci cd] assms(3) show ?thesis
    by (simp add: default_dist_ep_def credit_step_refl)
qed

subsection \<open>Seeking credits\<close>

text \<open>What the walk over the endpoints of lower priority does to each of them.\<close>

definition took_from :: "HTC_ENDPOINT_CREDIT_DIST \<Rightarrow> HTC_ENDPOINT_CREDIT_DIST \<Rightarrow> bool" where
  "took_from d d' \<longleftrightarrow> d' = d \<or>
     (TxCreditsMin d \<le> TxCreditsAssigned d' \<and> TxCreditsAssigned d' < TxCreditsAssigned d \<and>
      TxCredits d' = min (TxCredits d) (TxCreditsAssigned d'))"

lemma seek_lower_step:
  assumes "finite A" "set path \<subseteq> A" "ep \<in> set path" "distinct path" "credits_ok A s"
    and "CurrentFreeCredits (fst s) < TxCreditsSeek (snd s ep)"
  shows "\<exists>s'. seek_lower ep path s = Some s' \<and> credit_step A (set (takeWhile (\<lambda>x. x \<noteq> ep) path)) s s' \<and>
     (\<forall>e \<in> set path. took_from (snd s e) (snd s' e)) \<and>
     CurrentFreeCredits (fst s) \<le> CurrentFreeCredits (fst s') \<and>
     ((\<forall>e \<in> set path. TxCredits (snd s e) \<le> TxCreditsAssigned (snd s e)) \<longrightarrow>
        CurrentFreeCredits (fst s') \<le> TxCreditsSeek (snd s ep))"
  using assms(2-)
proof (induction path arbitrary: s)
  case Nil
  from Nil.prems(2) show ?case by simp
next
  case (Cons cur path)
  show ?case
  proof (cases "cur = ep")
    case True
    then show ?thesis using Cons.prems by (auto simp: credit_step_refl took_from_def)
  next
    case False
    let ?B = "set (takeWhile (\<lambda>x. x \<noteq> ep) (cur # path))"
    obtain ci cd where s: "s = (ci, cd)" by (cases s)
    define need where "need = TxCreditsSeek (cd ep) - CurrentFreeCredits ci"
    have need: "0 < need" using Cons.prems(5) by (simp add: need_def s)
    define s1 where "s1 = (if TxCreditsAssigned (cd cur) - need \<ge> TxCreditsMin (cd cur)
        then ReduceCredits cur (TxCreditsAssigned (cd cur) - need) s else s)"
    have cur: "cur \<in> A" using Cons.prems(1) by simp
    have 1: "credit_step A {cur} s s1"
      unfolding s1_def
      by (rule reduce_if_step [OF credit_step_refl [OF Cons.prems(4)] assms(1) cur])
        (use credits_okD [OF Cons.prems(4) cur] s in simp)
    have one: "credit_step A ?B s s1" by (rule credit_step_mono [OF 1]) (use False in simp)
    have took: "took_from (cd cur) (snd s1 cur)"
      using need by (auto simp: s1_def s ReduceCredits_def took_from_def Let_def)
    have ep: "snd s1 ep = cd ep" using 1 False by (simp add: credit_step_def s)
    have free: "CurrentFreeCredits ci \<le> CurrentFreeCredits (fst s1)"
      "TxCredits (cd cur) \<le> TxCreditsAssigned (cd cur) \<longrightarrow>
         CurrentFreeCredits (fst s1) \<le> TxCreditsSeek (cd ep)"
      using need by (auto simp: s1_def s ReduceCredits_def need_def Let_def)
    have loop: "seek_lower ep (cur # path) s =
        (if CurrentFreeCredits (fst s1) \<ge> TxCreditsSeek (snd s1 ep) then Some s1
         else seek_lower ep path s1)"
      using False need ep by (auto simp: s1_def s need_def Let_def)
    have other: "snd s1 e = cd e" if "e \<noteq> cur" for e using 1 that by (simp add: credit_step_def s)
    have took1: "took_from (cd e) (snd s1 e)" for e
      using took other [of e] by (cases "e = cur") (auto simp: took_from_def)
    show ?thesis
    proof (cases "CurrentFreeCredits (fst s1) \<ge> TxCreditsSeek (snd s1 ep)")
      case True
      then show ?thesis using loop one took1 free by (auto simp: s)
    next
      case more: False
      obtain s' where s': "seek_lower ep path s1 = Some s'"
        "credit_step A (set (takeWhile (\<lambda>x. x \<noteq> ep) path)) s1 s'"
        "\<forall>e \<in> set path. took_from (snd s1 e) (snd s' e)"
        "CurrentFreeCredits (fst s1) \<le> CurrentFreeCredits (fst s')"
        "(\<forall>e \<in> set path. TxCredits (snd s1 e) \<le> TxCreditsAssigned (snd s1 e)) \<longrightarrow>
           CurrentFreeCredits (fst s') \<le> TxCreditsSeek (snd s1 ep)"
      proof -
        have "set path \<subseteq> A" "ep \<in> set path" "distinct path" "credits_ok A s1"
          "CurrentFreeCredits (fst s1) < TxCreditsSeek (snd s1 ep)"
          using Cons.prems False more credit_step_ok [OF 1] by auto
        from Cons.IH [OF this] show ?thesis using that by blast
      qed
      have "credit_step A ?B s1 s'" by (rule credit_step_mono [OF s'(2)]) (use False in auto)
      with one have step: "credit_step A ?B s s'" by (rule credit_step_trans)
      have notin: "cur \<notin> set path" using Cons.prems(3) by simp
      then have cur': "snd s' cur = snd s1 cur"
        using s'(2) by (auto simp: credit_step_def dest: set_takeWhileD)
      have "took_from (cd e) (snd s' e)" if "e \<in> set (cur # path)" for e
        using that s'(3) other cur' took notin by (cases "e = cur") auto
      moreover have "snd s1 e = cd e" if "e \<in> set path" for e
        using other [of e] notin that by (cases "e = cur") auto
      then have "(\<forall>e \<in> set path. TxCredits (cd e) \<le> TxCreditsAssigned (cd e)) \<longrightarrow>
          CurrentFreeCredits (fst s') \<le> TxCreditsSeek (cd ep)"
        using s'(5) ep by simp
      ultimately show ?thesis
        using loop more s'(1,4) step free(1) by (simp add: s del: seek_lower.simps)
    qed
  qed
qed


lemma back_from_last:
  assumes "distinct order" "order \<noteq> []"
  shows "back_from order (Some (last order)) = rev order"
proof -
  obtain ys z where o: "order = ys @ [z]" using assms(2) by (cases order rule: rev_cases) auto
  then have "takeWhile (\<lambda>x. x \<noteq> z) (ys @ [z]) = ys"
    using assms(1) by (auto simp: takeWhile_append)
  then show ?thesis using o by (simp add: back_from_def)
qed

lemma from_ep_mem: "e \<in> set order \<Longrightarrow> \<exists>es. from_ep order (Some e) = e # es"
  by (induction order) (auto simp: from_ep_def)

lemma set_from_ep: "set (from_ep order p) \<subseteq> set order"
  by (auto simp: from_ep_def dest: set_dropWhileD split: option.splits)

lemma takeWhile_rev_from_ep:
  "distinct order \<Longrightarrow> e \<in> set order \<Longrightarrow>
   set (takeWhile (\<lambda>x. x \<noteq> e) (rev order)) \<union> {e} = set (from_ep order (Some e))"
proof -
  assume d: "distinct order" and e: "e \<in> set order"
  then obtain xs ys where o: "order = xs @ e # ys" "e \<notin> set xs" "e \<notin> set ys"
    using d by (auto simp: in_set_conv_decomp)
  then have "from_ep order (Some e) = e # ys"
    by (auto simp: from_ep_def dropWhile_append)
  moreover have "takeWhile (\<lambda>x. x \<noteq> e) (rev order) = rev ys"
    using o by (auto simp: takeWhile_append)
  ultimately show ?thesis by simp
qed

lemma give_if_step:
  assumes "finite A" "e \<in> A" "credits_ok A s" "0 \<le> n" "n \<le> CurrentFreeCredits (fst s)"
  shows "credit_step A {e} s (give_if e n s) \<and>
    TxCredits (snd (give_if e n s) e) = TxCredits (snd s e) + n \<and>
    CurrentFreeCredits (fst (give_if e n s)) = CurrentFreeCredits (fst s) - n"
  using give_step [OF assms] credit_step_refl [OF assms(3)]
  by (cases s) (auto simp: give_if_def GiveCredits_def)

text \<open>The services that may not take more than their normal share.\<close>

definition seek_refused :: "HTC_ENDPOINT_CREDIT_DIST \<Rightarrow> bool" where
  "seek_refused d \<longleftrightarrow> cd_ServiceID d = WMI_CONTROL_SVC \<or>
     (cd_ServiceID d \<in> {WMI_DATA_VI_SVC, WMI_DATA_VO_SVC} \<and> TxCreditsNorm d \<le> TxCreditsAssigned d)"

lemma SeekCredits_eq:
  "SeekCredits order ep s =
     (let d = snd s ep; n = min (CurrentFreeCredits (fst s)) (TxCreditsSeek d)
      in if seek_refused d then Some s
         else if TxCreditsSeek d \<le> n then Some (give_if ep n s)
         else map_option (\<lambda>s'. give_if ep (min (CurrentFreeCredits (fst s')) (TxCreditsSeek (snd s' ep))) s')
                (seek_lower ep (back_from order (pLowestPriEpDist (fst s))) s))"
  by (cases s) (auto simp: SeekCredits_def seek_refused_def Let_def)

text \<open>What a seek does, as one fact; \<open>lower\<close> are the endpoints from \<open>ep\<close> on.\<close>

definition seek_result :: "nat list \<Rightarrow> nat \<Rightarrow> credit_st \<Rightarrow> credit_st \<Rightarrow> bool" where
  "seek_result order ep s s' \<longleftrightarrow>
     credit_step (set order) (set (from_ep order (Some ep))) s s' \<and>
     (\<forall>e \<in> set order. e \<noteq> ep \<longrightarrow> took_from (snd s e) (snd s' e)) \<and>
     TxCredits (snd s ep) \<le> TxCredits (snd s' ep) \<and>
     TxCredits (snd s' ep) \<le> TxCredits (snd s ep) + TxCreditsSeek (snd s ep) \<and>
     (seek_refused (snd s ep) \<or> CurrentFreeCredits (fst s') = 0 \<or>
      TxCredits (snd s' ep) = TxCredits (snd s ep) + TxCreditsSeek (snd s ep))"

lemma SeekCredits_result:
  assumes d: "distinct order" and ep: "ep \<in> set order"
    and low: "pLowestPriEpDist (fst s) = Some (last order)"
    and ok: "credits_ok (set order) s" and seek: "0 \<le> TxCreditsSeek (snd s ep)"
  shows "\<exists>s'. SeekCredits order ep s = Some s' \<and> seek_result order ep s s'"
proof -
  let ?A = "set order" and ?B = "set (from_ep order (Some ep))" and ?k = "TxCreditsSeek (snd s ep)"
  have epB: "ep \<in> ?B" using from_ep_mem [OF ep] by auto
  have free: "0 \<le> CurrentFreeCredits (fst s)" using ok by (simp add: credits_ok_def)
  consider (no) "seek_refused (snd s ep)"
    | (enough) "\<not> seek_refused (snd s ep)" "?k \<le> CurrentFreeCredits (fst s)"
    | (more) "\<not> seek_refused (snd s ep)" "CurrentFreeCredits (fst s) < ?k" by fastforce
  then show ?thesis
  proof cases
    case no
    then show ?thesis
      using credit_step_refl [OF ok] seek
      by (simp add: SeekCredits_eq seek_result_def took_from_def)
  next
    case enough
    have g: "credit_step ?A {ep} s (give_if ep ?k s)"
      "TxCredits (snd (give_if ep ?k s) ep) = TxCredits (snd s ep) + ?k"
      using give_if_step [OF _ ep ok seek enough(2)] by simp_all
    then have "seek_result order ep s (give_if ep ?k s)"
      using seek credit_step_mono [OF g(1), of ?B] epB
      by (auto simp: seek_result_def took_from_def credit_step_def [of _ "{ep}"])
    moreover have "SeekCredits order ep s = Some (give_if ep ?k s)"
      using enough by (simp add: SeekCredits_eq Let_def min_def)
    ultimately show ?thesis by blast
  next
    case more
    have "back_from order (Some (last order)) = rev order"
      using d ep by (intro back_from_last) auto
    then obtain s1 where s1: "seek_lower ep (back_from order (pLowestPriEpDist (fst s))) s = Some s1"
      "credit_step ?A (set (takeWhile (\<lambda>x. x \<noteq> ep) (rev order))) s s1"
      "\<forall>e \<in> ?A. took_from (snd s e) (snd s1 e)"
      using seek_lower_step [of ?A "rev order" ep s] d ep ok more(2) low by auto
    have ep1: "snd s1 ep = snd s ep"
      using s1(2) by (auto simp: credit_step_def dest: set_takeWhileD)
    let ?n = "min (CurrentFreeCredits (fst s1)) ?k"
    have ok1: "credits_ok ?A s1" by (rule credit_step_ok [OF s1(2)])
    have n: "0 \<le> ?n" "?n \<le> CurrentFreeCredits (fst s1)" using ok1 seek by (auto simp: credits_ok_def)
    note g = give_if_step [OF _ ep ok1 n]
    have "credit_step ?A ?B s s1"
      by (rule credit_step_mono [OF s1(2)]) (use takeWhile_rev_from_ep [OF d ep] in auto)
    moreover have "credit_step ?A ?B s1 (give_if ep ?n s1)"
      by (rule credit_step_mono [of _ "{ep}"]) (use g epB in auto)
    ultimately have "credit_step ?A ?B s (give_if ep ?n s1)" by (rule credit_step_trans)
    moreover have "took_from (snd s e) (snd (give_if ep ?n s1) e)" if "e \<in> ?A" "e \<noteq> ep" for e
      using s1(3) g that by (auto simp: credit_step_def)
    ultimately have "seek_result order ep s (give_if ep ?n s1)"
      using g ep1 n by (auto simp: seek_result_def)
    moreover have "SeekCredits order ep s = Some (give_if ep ?n s1)"
      using more s1(1) ep1 by (simp add: SeekCredits_eq Let_def min_def)
    ultimately show ?thesis by blast
  qed
qed

subsection \<open>The two distribution functions keep the contract\<close>

lemma fold_from_ep_step:
  assumes "\<And>e s. e \<in> set order \<Longrightarrow> credits_ok (set order) s \<Longrightarrow> credit_step (set order) {e} s (f e s)"
    and "credits_ok (set order) s"
  shows "credit_step (set order) (set (from_ep order p)) s (fold f (from_ep order p) s)"
  by (rule fold_step [OF _ order.refl assms(2)]) (use assms(1) set_from_ep [of order p] in blast)

definition ar6000_ready :: "nat list \<Rightarrow> COMMON_CREDIT_STATE_INFO \<Rightarrow> bool" where
  "ar6000_ready order ci \<longleftrightarrow> distinct order \<and> pLowestPriEpDist ci = Some (last order)"

lemma ar6000_distribute_step:
  assumes "ar6000_ready order (fst s)" "credits_ok (set order) s" "call_ok order p r s"
  shows "\<exists>s'. ar6000_credit_distribute order p r s = Some s' \<and>
    credit_step (set order) (set (from_ep order p)) s s'"
proof (cases r)
  case HTC_CREDIT_DIST_SEND_COMPLETE
  moreover have "credit_step (set order) (set (from_ep order p)) s
      (fold send_complete_ep (from_ep order p) s)"
    by (rule fold_from_ep_step [OF send_complete_step assms(2)]) simp_all
  ultimately show ?thesis by (simp add: ar6000_credit_distribute_def)
next
  case HTC_CREDIT_DIST_ACTIVITY_CHANGE
  moreover have "credit_step (set order) (set (from_ep order p)) s (RedistributeCredits order p s)"
    unfolding RedistributeCredits_def
    by (rule fold_from_ep_step [OF redistribute_step assms(2)]) simp_all
  ultimately show ?thesis by (simp add: ar6000_credit_distribute_def)
next
  case HTC_CREDIT_DIST_SEEK_CREDITS
  then obtain e where e: "p = Some e" "e \<in> set order" "0 \<le> TxCreditsSeek (snd s e)"
    using assms(3) by (auto simp: call_ok_def split: option.splits)
  then show ?thesis
    using SeekCredits_result [of order e s] assms HTC_CREDIT_DIST_SEEK_CREDITS
    by (auto simp: ar6000_ready_def ar6000_credit_distribute_def seek_result_def)
next
  case HTC_DUMP_CREDIT_STATE
  then show ?thesis using credit_step_refl [OF assms(2)] by (simp add: ar6000_credit_distribute_def)
qed

interpretation ar6000: credit_distribution ar6000_credit_distribute ar6000_ready
proof unfold_locales
  fix order s p r
  assume "ar6000_ready order (fst s)" "credits_ok (set order) s" "call_ok order p r s"
  then show "\<exists>s'. ar6000_credit_distribute order p r s = Some s' \<and>
      credit_step (set order) (set (from_ep order p)) s s'"
    by (rule ar6000_distribute_step)
qed (simp add: ar6000_ready_def)

interpretation htc_default: credit_distribution HTCDefaultCreditDist "\<lambda>_ _. True"
proof unfold_locales
  fix order s p r
  assume ok: "credits_ok (set order) s"
  have "credit_step (set order) (set (from_ep order p)) s (fold default_dist_ep (from_ep order p) s)"
    by (rule fold_from_ep_step [OF default_dist_step ok]) simp_all
  then show "\<exists>s'. HTCDefaultCreditDist order p r s = Some s' \<and>
      credit_step (set order) (set (from_ep order p)) s s'"
    using credit_step_refl [OF ok] by (auto simp: HTCDefaultCreditDist_def simp del: split_paired_Ex)
qed simp

subsection \<open>Walks over the list, one endpoint at a time\<close>

definition local_op :: "(nat \<Rightarrow> credit_st \<Rightarrow> credit_st) \<Rightarrow> bool" where
  "local_op f \<longleftrightarrow> (\<forall>e s x. x \<noteq> e \<longrightarrow> snd (f e s) x = snd s x)"

lemma reduce_other [simp]: "x \<noteq> e \<Longrightarrow> snd (ReduceCredits e L s) x = snd s x"
  by (cases s) (simp add: ReduceCredits_def Let_def)

lemma give_other [simp]: "x \<noteq> e \<Longrightarrow> snd (GiveCredits e n s) x = snd s x"
  by (cases s) (simp add: GiveCredits_def)

lemma set_active_other [simp]: "x \<noteq> e \<Longrightarrow> snd (set_active e s) x = snd s x"
  by (cases s) (simp add: set_active_def)

lemma local_send_complete: "local_op send_complete_ep"
  by (auto simp: local_op_def send_complete_ep_eq trim_def returned_def Let_def)

lemma local_init: "local_op (init_credits_ep T)"
  by (auto simp: local_op_def init_credits_ep_def Let_def split: prod.splits)

lemma local_opD: "local_op f \<Longrightarrow> x \<noteq> e \<Longrightarrow> snd (f e s) x = snd s x"
  by (simp add: local_op_def del: split_paired_All)

lemma fold_local_other:
  "local_op f \<Longrightarrow> x \<notin> set es \<Longrightarrow> snd (fold f es s) x = snd s x"
  by (induction es arbitrary: s) (auto simp: local_op_def)

text \<open>After a walk, each endpoint is as its own pass left it, and its pass found it as it was.\<close>

lemma fold_local_at:
  assumes "local_op f" "distinct es" "e \<in> set es"
  shows "\<exists>s1. snd s1 e = snd s e \<and> snd (fold f es s) e = snd (f e s1) e"
  using assms(2,3)
proof (induction es arbitrary: s)
  case (Cons y es)
  show ?case
  proof (cases "e = y")
    case True
    then have "snd (fold f (y # es) s) e = snd (f e s) e"
      using fold_local_other [OF assms(1), of e es] Cons.prems by simp
    then show ?thesis by (intro exI [of _ s]) simp
  next
    case False
    then obtain s1 where s1: "snd s1 e = snd (f y s) e" "snd (fold f es (f y s)) e = snd (f e s1) e"
      using Cons.IH [of "f y s"] Cons.prems by auto
    moreover have "snd (f y s) e = snd s e" by (rule local_opD [OF assms(1) False])
    ultimately show ?thesis by (intro exI [of _ s1]) simp
  qed
qed simp

lemma distinct_from_ep: "distinct order \<Longrightarrow> distinct (from_ep order p)"
  by (simp add: from_ep_def distinct_dropWhile split: option.split)

lemma reduce_at:
  "snd (ReduceCredits e L s) e = (snd s e)\<lparr>TxCreditsAssigned := L, TxCredits := min (TxCredits (snd s e)) L\<rparr>"
  by (cases s) (simp add: ReduceCredits_def Let_def min_def)

lemma send_complete_at:
  assumes "0 < TxCreditsToDist (snd s e)" "d = snd (send_complete_ep e s) e"
    and "0 \<le> TxCredits (snd s e)" "0 \<le> TxCreditsAssigned (snd s e)" "0 \<le> TxCreditsNorm (snd s e)"
  shows "TxCreditsToDist d = 0 \<and> TxCredits d \<le> TxCreditsAssigned d \<and> TxCredits d \<le> TxCreditsNorm d \<and>
    (idle (snd s e) \<longrightarrow> TxCredits d = 0 \<and> TxCreditsAssigned d = 0)"
  using assms
  by (auto simp: send_complete_ep_eq trim_def returned_def reduce_at idle_def IS_EP_ACTIVE_def Let_def
      split: if_splits)

lemma pool_update:
  assumes "finite A" "e \<in> A"
    and "CurrentFreeCredits ci' + TxCredits d + TxCreditsToDist d =
         CurrentFreeCredits ci + TxCredits (cd e) + TxCreditsToDist (cd e)"
  shows "pool A (ci', cd(e := d)) = pool A (ci, cd)"
  using sum_update [OF assms(1,2), of "\<lambda>x. TxCredits x + TxCreditsToDist x" cd d] assms(3)
  by (simp add: pool_def)

lemma init_pool:
  assumes "finite A" "e \<in> A"
  shows "pool A (init_credits_ep T e s) = pool A s"
  using assms
  by (cases s) (auto simp: init_credits_ep_def set_active_def SET_EP_ACTIVE_def GiveCredits_def Let_def
      intro!: pool_update)

lemma init_pool_fold:
  "finite A \<Longrightarrow> set es \<subseteq> A \<Longrightarrow> pool A (fold (init_credits_ep T) es s) = pool A s"
  by (induction es arbitrary: s) (auto simp: init_pool)

lemma init_at:
  assumes "d = snd s e"
  shows "\<exists>fl. snd (init_credits_ep T e s) e =
    (let svc = cd_ServiceID d; m = TxCreditsPerMaxMsg d;
         n = (if svc = WMI_CONTROL_SVC \<or> (4 < T \<and> svc \<in> {WMI_DATA_BK_SVC, WMI_DATA_BE_SVC}) then m else 0)
     in d\<lparr>TxCreditsMin := m, TxCreditsAssigned := TxCreditsAssigned d + n,
          TxCredits := TxCredits d + n, DistFlags := fl\<rparr>)"
  using assms
  by (cases s) (auto simp: init_credits_ep_def set_active_def SET_EP_ACTIVE_def GiveCredits_def Let_def
      intro: exI [of _ "DistFlags d"])

lemma init_norms_ok:
  "\<forall>e \<in> set es. 0 < TxCreditsPerMaxMsg (cd e) \<Longrightarrow>
   \<exists>cd'. init_norms f es cd = Some cd' \<and> (\<forall>e. \<exists>n. cd' e = (cd e)\<lparr>TxCreditsNorm := n\<rparr>) \<and>
     (\<forall>e. e \<notin> set es \<longrightarrow> cd' e = cd e) \<and> (\<forall>e \<in> set es. TxCreditsPerMaxMsg (cd e) \<le> TxCreditsNorm (cd' e))"
proof (induction es arbitrary: cd)
  case Nil
  have "\<exists>n. cd e = (cd e)\<lparr>TxCreditsNorm := n\<rparr>" for e
    by (rule exI [of _ "TxCreditsNorm (cd e)"]) simp
  then show ?case by simp
next
  case (Cons y es)
  obtain n where n: "init_norm_ep f y cd = Some (cd(y := (cd y)\<lparr>TxCreditsNorm := n\<rparr>))"
      "TxCreditsPerMaxMsg (cd y) \<le> n"
  proof (cases "cd_ServiceID (cd y) = WMI_CONTROL_SVC")
    case True
    then show ?thesis using that [of "TxCreditsPerMaxMsg (cd y)"] by (simp add: init_norm_ep_def Let_def)
  next
    case False
    let ?m = "TxCreditsPerMaxMsg (cd y)"
    from False show ?thesis
      using that [of "max (f div ?m * ?m * 3 div 4) ?m"] Cons.prems
      by (simp add: init_norm_ep_def Let_def)
  qed
  let ?cd = "cd(y := (cd y)\<lparr>TxCreditsNorm := n\<rparr>)"
  have "\<forall>e \<in> set es. 0 < TxCreditsPerMaxMsg (?cd e)" using Cons.prems by auto
  from Cons.IH [OF this] obtain cd' where cd': "init_norms f es ?cd = Some cd'"
      "\<And>e. \<exists>n. cd' e = (?cd e)\<lparr>TxCreditsNorm := n\<rparr>" "\<And>e. e \<notin> set es \<Longrightarrow> cd' e = ?cd e"
      "\<And>e. e \<in> set es \<Longrightarrow> TxCreditsPerMaxMsg (?cd e) \<le> TxCreditsNorm (cd' e)"
    by blast
  have upd: "\<exists>n. cd' e = (cd e)\<lparr>TxCreditsNorm := n\<rparr>" for e
    using cd'(2) [of e] by (cases "e = y") auto
  have "TxCreditsPerMaxMsg (cd e) \<le> TxCreditsNorm (cd' e)" if "e \<in> set (y # es)" for e
    using cd'(3,4) [of e] n(2) that by (cases "e \<in> set es"; cases "e = y") auto
  then show ?case using n(1) cd' upd by (intro exI [of _ cd']) auto
qed

subsection \<open>Properties\<close>

text \<open>Whatever the reason it is called for, the driver's distribution function neither creates
  nor loses a credit (free pool, credits held and credits returned but not yet given out add up to
  the same sum), leaves no count negative, and touches only the endpoints from the one it was
  given on, which are those of the same or a lower priority.\<close>

theorem credit_distribute_conserves:
  assumes "ar6000_ready order (fst s)" and "credits_ok (set order) s" and "call_ok order p r s"
  shows "\<exists>s'. ar6000_credit_distribute order p r s = Some s' \<and>
    pool (set order) s' = pool (set order) s \<and> credits_ok (set order) s' \<and>
    (\<forall>e. e \<notin> set (from_ep order p) \<longrightarrow> snd s' e = snd s e)"
  using ar6000.distribute_step [OF assms] by (auto simp: credit_step_def)

text \<open>An endpoint that seeks credits gains at most what it asked for, and exactly that unless
  the free pool is exhausted or its service may not oversubscribe.  Endpoints of higher priority
  keep everything; an endpoint of lower priority either keeps everything or has its assignment cut,
  never below its minimum, with its credits cut to the new assignment.\<close>

theorem credit_seek_rules:
  assumes "distinct order" and "ep \<in> set order" and "pLowestPriEpDist (fst s) = Some (last order)"
    and "credits_ok (set order) s" and "0 \<le> TxCreditsSeek (snd s ep)"
  shows "\<exists>s'. SeekCredits order ep s = Some s' \<and>
    TxCredits (snd s ep) \<le> TxCredits (snd s' ep) \<and>
    TxCredits (snd s' ep) \<le> TxCredits (snd s ep) + TxCreditsSeek (snd s ep) \<and>
    (TxCredits (snd s' ep) = TxCredits (snd s ep) + TxCreditsSeek (snd s ep) \<or>
       CurrentFreeCredits (fst s') = 0 \<or> seek_refused (snd s ep)) \<and>
    (\<forall>e \<in> set (takeWhile (\<lambda>x. x \<noteq> ep) order). snd s' e = snd s e) \<and>
    (\<forall>e \<in> set order. e \<noteq> ep \<longrightarrow> took_from (snd s e) (snd s' e))"
proof -
  obtain s' where s': "SeekCredits order ep s = Some s'" "seek_result order ep s s'"
    using SeekCredits_result [OF assms] by blast
  have "e \<notin> set (from_ep order (Some ep))" if "e \<in> set (takeWhile (\<lambda>x. x \<noteq> ep) order)" for e
  proof -
    have "distinct (takeWhile (\<lambda>x. x \<noteq> ep) order @ dropWhile (\<lambda>x. x \<noteq> ep) order)"
      using assms(1) by simp
    with that show ?thesis by (auto simp: from_ep_def simp del: takeWhile_dropWhile_id)
  qed
  with s' show ?thesis by (auto simp: seek_result_def credit_step_def)
qed

text \<open>When sent messages complete, an endpoint with returned credits ends with none of them
  pending, holding no more than its assignment and no more than its normal share; an inactive
  endpoint with an empty queue gives everything back to the pool.\<close>

theorem credit_send_complete_recovers:
  assumes "distinct order" and "credits_ok (set order) s" and "e \<in> set (from_ep order p)"
    and "0 < TxCreditsToDist (snd s e)"
  shows "\<exists>s'. ar6000_credit_distribute order p HTC_CREDIT_DIST_SEND_COMPLETE s = Some s' \<and>
    TxCreditsToDist (snd s' e) = 0 \<and> TxCredits (snd s' e) \<le> TxCreditsAssigned (snd s' e) \<and>
    TxCredits (snd s' e) \<le> TxCreditsNorm (snd s' e) \<and>
    (idle (snd s e) \<longrightarrow> TxCredits (snd s' e) = 0 \<and> TxCreditsAssigned (snd s' e) = 0)"
proof -
  let ?s' = "fold send_complete_ep (from_ep order p) s"
  obtain s1 where s1: "snd s1 e = snd s e" "snd ?s' e = snd (send_complete_ep e s1) e"
    using fold_local_at [OF local_send_complete distinct_from_ep [OF assms(1)] assms(3)] by blast
  have "e \<in> set order" using assms(3) set_from_ep [of order p] by auto
  from credits_okD [OF assms(2) this] show ?thesis
    using send_complete_at [of s1 e "snd ?s' e"] s1 assms(4) by (simp add: ar6000_credit_distribute_def)
qed

text \<open>Initialisation hands out the credits of the target and no others: what the endpoints got
  and the free pool add up to the total; the control service, and with more than four credits the
  best-effort and background services, start with one maximal message, all others with nothing;
  and as long as credits are left every normal share covers a maximal message.\<close>

theorem credit_init_distributes:
  assumes "distinct order" and "eps = set (from_ep order p)"
    and "\<forall>e \<in> eps. TxCredits (cd e) = 0 \<and> TxCreditsToDist (cd e) = 0 \<and> 0 < TxCreditsPerMaxMsg (cd e)"
  shows "\<exists>ci' cd'. ar6000_credit_init order p T (ci, cd) = Some (ci', cd') \<and>
    CurrentFreeCredits ci' + (\<Sum>e \<in> eps. TxCredits (cd' e)) = T \<and>
    (\<forall>e \<in> eps. TxCredits (cd' e) =
       (if cd_ServiceID (cd e) = WMI_CONTROL_SVC \<or>
           (4 < T \<and> cd_ServiceID (cd e) \<in> {WMI_DATA_BK_SVC, WMI_DATA_BE_SVC})
        then TxCreditsPerMaxMsg (cd e) else 0) \<and>
       (0 < CurrentFreeCredits ci' \<longrightarrow> TxCreditsPerMaxMsg (cd e) \<le> TxCreditsNorm (cd' e)))"
proof -
  let ?l = "from_ep order p"
  let ?ci = "ci\<lparr>TotalAvailableCredits := T, CurrentFreeCredits := T\<rparr>"
  obtain ci1 cd1 where f: "fold (init_credits_ep T) ?l (?ci, cd) = (ci1, cd1)" by fastforce
  have at: "TxCredits (cd1 e) = (if cd_ServiceID (cd e) = WMI_CONTROL_SVC \<or>
           (4 < T \<and> cd_ServiceID (cd e) \<in> {WMI_DATA_BK_SVC, WMI_DATA_BE_SVC})
        then TxCreditsPerMaxMsg (cd e) else 0)" "TxCreditsPerMaxMsg (cd1 e) = TxCreditsPerMaxMsg (cd e)"
      "TxCreditsToDist (cd1 e) = 0" if e: "e \<in> eps" for e
  proof -
    obtain s1 where s1: "snd s1 e = cd e" "cd1 e = snd (init_credits_ep T e s1) e"
      using fold_local_at [OF local_init distinct_from_ep [OF assms(1)], of e p "(?ci, cd)" T] e f
        assms(2) by auto
    from init_at [of "cd e" s1 e T] s1 show "TxCredits (cd1 e) = (if cd_ServiceID (cd e) = WMI_CONTROL_SVC \<or>
           (4 < T \<and> cd_ServiceID (cd e) \<in> {WMI_DATA_BK_SVC, WMI_DATA_BE_SVC})
        then TxCreditsPerMaxMsg (cd e) else 0)" "TxCreditsPerMaxMsg (cd1 e) = TxCreditsPerMaxMsg (cd e)"
        "TxCreditsToDist (cd1 e) = 0"
      using assms(3) e by (auto simp: Let_def)
  qed
  have "pool eps (ci1, cd1) = pool eps (?ci, cd)"
    using init_pool_fold [of eps ?l T "(?ci, cd)"] assms(2) f by simp
  moreover have "pool eps (?ci, cd) = T" using assms(3) by (simp add: pool_def)
  ultimately have sum: "CurrentFreeCredits ci1 + (\<Sum>e \<in> eps. TxCredits (cd1 e)) = T"
    using at(3) by (simp add: pool_def)
  show ?thesis
  proof (cases "0 < CurrentFreeCredits ci1")
    case True
    obtain cd2 where n: "init_norms (CurrentFreeCredits ci1) ?l cd1 = Some cd2"
        "\<And>e. \<exists>n. cd2 e = (cd1 e)\<lparr>TxCreditsNorm := n\<rparr>"
        "\<And>e. e \<in> eps \<Longrightarrow> TxCreditsPerMaxMsg (cd1 e) \<le> TxCreditsNorm (cd2 e)"
      using init_norms_ok [of ?l cd1 "CurrentFreeCredits ci1"] assms(2,3) at(2) by auto
    have tx: "TxCredits (cd2 e) = TxCredits (cd1 e)" for e using n(2) [of e] by auto
    show ?thesis
      using True f n(1,3) sum at tx
      by (intro exI [of _ ci1] exI [of _ cd2]) (simp add: ar6000_credit_init_def)
  next
    case False
    then show ?thesis
      using f sum at by (intro exI [of _ ci1] exI [of _ cd1]) (simp add: ar6000_credit_init_def)
  qed
qed

text \<open>The walk over the endpoints of lower priority starts at the background endpoint and
  relies on it: when no background service is connected, an endpoint that cannot be served from
  the free pool makes it run into a null pointer.\<close>

theorem credit_seek_needs_background:
  assumes "pLowestPriEpDist (fst s) = None" and "\<not> seek_refused (snd s ep)"
    and "CurrentFreeCredits (fst s) < TxCreditsSeek (snd s ep)"
  shows "SeekCredits order ep s = None"
  using assms by (simp add: SeekCredits_eq back_from_def Let_def)

end
