(* ===== verification/HtcSend.thy ===== *)
theory HtcSend
  imports CreditProps
begin

text \<open>
  The transmit side of HTC, \<open>host/htc2/htc_send.c\<close>.

  A target has \<open>ENDPOINT_MAX\<close> endpoints with a queue of packets each.  A packet leaves its queue
  when its endpoint holds enough credits for it, alone or in a scatter request together with
  others.  The distribution function behind the pointer \<open>DistributeCredits\<close> is an argument \<open>D\<close>
  of the operations that call it.  The device is a log: \<open>sent\<close> lists the transfers handed to it,
  \<open>indicated\<close> the completions delivered to the endpoints' owners.  Completions of the device are
  operations of their own (\<open>HTCSendPktCompletionHandler\<close>, \<open>HTCAsyncSendScatterCompletion\<close>).  The
  locks serialise the operations and are left out; a fault is \<open>None\<close>.
\<close>

subsection \<open>Data\<close>

abbreviation (input) ENDPOINT_MAX :: nat where "ENDPOINT_MAX \<equiv> 9"
abbreviation (input) HTC_HDR_LENGTH :: nat where "HTC_HDR_LENGTH \<equiv> 6"
abbreviation (input) HTC_MIN_HTC_MSGS_TO_BUNDLE :: nat where "HTC_MIN_HTC_MSGS_TO_BUNDLE \<equiv> 2"
abbreviation (input) HTC_TX_PACKET_TAG_ALL :: nat where "HTC_TX_PACKET_TAG_ALL \<equiv> 0"
abbreviation (input) HTC_FLAGS_NEED_CREDIT_UPDATE :: byte where "HTC_FLAGS_NEED_CREDIT_UPDATE \<equiv> 1"
abbreviation (input) HTC_FLAGS_SEND_BUNDLE :: byte where "HTC_FLAGS_SEND_BUNDLE \<equiv> 2"

record HTC_FRAME_HDR =
  EndpointID :: nat
  Flags :: byte
  PayloadLen :: nat
  ControlBytes0 :: nat
  ControlBytes1 :: nat

text \<open>
  \<open>pk_id\<close> stands for the address of the packet.  \<open>pBuffer\<close> is the buffer pointer relative to the
  payload, \<open>pHdr\<close> the bytes in front of the payload; \<open>Completion\<close> tells whether the completion
  routine is set.
\<close>

record HTC_PACKET =
  pk_id :: nat
  pBuffer :: int
  pHdr :: HTC_FRAME_HDR
  ActualLength :: nat
  pk_Endpoint :: nat
  pk_Status :: A_STATUS
  Tag :: nat
  CreditsUsed :: int
  SendFlags :: byte
  pk_SeqNo :: nat
  Completion :: bool

record HTC_ENDPOINT =
  ep_ServiceID :: nat
  TxQueue :: "HTC_PACKET list"
  EpSendFull :: "(HTC_PACKET \<Rightarrow> bool) option"
  EpTxCompleteMultiple :: bool
  MaxTxQueueDepth :: int
  MaxMsgLength :: nat
  TxProcessCount :: int
  ep_SeqNo :: nat
  SendBundlePadding :: bool

datatype htc_xfer =
    XferSingle HTC_PACKET nat
  | XferScatter nat "(HTC_PACKET \<times> nat) list"

record HTC_TARGET =
  EndPoint :: "nat \<Rightarrow> HTC_ENDPOINT"
  CreditDist :: dists
  DistList :: "nat list"
  CredInfo :: COMMON_CREDIT_STATE_INFO
  TargetCredits :: int
  TargetCreditSize :: nat
  BlockMask :: "32 word"
  MaxMsgPerBundle :: int
  SendBundlingEnabled :: bool
  MaxSendBundleSize :: nat
  scatter_free :: nat
  Stopping :: bool
  sent :: "htc_xfer list"
  indicated :: "(nat \<times> HTC_PACKET list) list"

type_synonym dist_fn =
  "nat list \<Rightarrow> nat option \<Rightarrow> HTC_CREDIT_DIST_REASON \<Rightarrow> credit_st \<Rightarrow> credit_st option"

datatype HTC_SEND_QUEUE_RESULT = HTC_SEND_QUEUE_OK | HTC_SEND_QUEUE_DROP

text \<open>Updates of one endpoint and of one distribution structure.\<close>

definition upd_ep :: "nat \<Rightarrow> (HTC_ENDPOINT \<Rightarrow> HTC_ENDPOINT) \<Rightarrow> HTC_TARGET \<Rightarrow> HTC_TARGET" where
  "upd_ep e f t = t\<lparr>EndPoint := (EndPoint t)(e := f (EndPoint t e))\<rparr>"

definition upd_cd :: "nat \<Rightarrow> (HTC_ENDPOINT_CREDIT_DIST \<Rightarrow> HTC_ENDPOINT_CREDIT_DIST) \<Rightarrow> HTC_TARGET \<Rightarrow>
    HTC_TARGET" where
  "upd_cd e f t = t\<lparr>CreditDist := (CreditDist t)(e := f (CreditDist t e))\<rparr>"

definition tx_depth :: "nat \<Rightarrow> HTC_TARGET \<Rightarrow> nat" where
  "tx_depth e t = length (TxQueue (EndPoint t e))"

subsection \<open>Distribution calls and completion\<close>

definition DO_DISTRIBUTION :: "dist_fn \<Rightarrow> HTC_CREDIT_DIST_REASON \<Rightarrow> nat option \<Rightarrow> HTC_TARGET \<Rightarrow>
    HTC_TARGET option" where
  "DO_DISTRIBUTION D reason pList t =
     map_option (\<lambda>(ci, cd). t\<lparr>CredInfo := ci, CreditDist := cd\<rparr>)
       (D (DistList t) pList reason (CredInfo t, CreditDist t))"

text \<open>\<open>EpCreditDistributionListHead->pNext\<close>; there is none without a head.\<close>

definition head_next :: "HTC_TARGET \<Rightarrow> nat option option" where
  "head_next t = (case DistList t of [] \<Rightarrow> None | [_] \<Rightarrow> Some None | _ # e # _ \<Rightarrow> Some (Some e))"

definition DoSendCompletion :: "nat \<Rightarrow> HTC_PACKET list \<Rightarrow> HTC_TARGET \<Rightarrow> HTC_TARGET" where
  "DoSendCompletion e q t =
     (if q = [] then t
      else if EpTxCompleteMultiple (EndPoint t e) then t\<lparr>indicated := indicated t @ [(e, q)]\<rparr>
      else t\<lparr>indicated := indicated t @ map (\<lambda>p. (e, [p])) q\<rparr>)"

definition CompleteSentPacket :: "dist_fn \<Rightarrow> nat \<Rightarrow> HTC_PACKET \<Rightarrow> HTC_TARGET \<Rightarrow>
    (HTC_TARGET \<times> HTC_PACKET) option" where
  "CompleteSentPacket D e p t = do {
     let p = p\<lparr>Completion := False\<rparr>;
     t \<leftarrow> (if A_FAILED (pk_Status p) then do {
            let t = upd_cd e (\<lambda>d. d\<lparr>TxCreditsToDist := TxCreditsToDist d + CreditsUsed p,
                                    cd_TxQueueDepth := tx_depth e t\<rparr>) t;
            nxt \<leftarrow> head_next t;
            DO_DISTRIBUTION D HTC_CREDIT_DIST_SEND_COMPLETE nxt t
          } else Some t);
     Some (t, p\<lparr>pBuffer := pBuffer p + int HTC_HDR_LENGTH\<rparr>)
   }"

definition HTCSendPktCompletionHandler :: "dist_fn \<Rightarrow> HTC_PACKET \<Rightarrow> HTC_TARGET \<Rightarrow> HTC_TARGET option" where
  "HTCSendPktCompletionHandler D p t = do {
     let e = pk_Endpoint p;
     (t, p) \<leftarrow> CompleteSentPacket D e p t;
     Some (DoSendCompletion e [p] t)
   }"

fun complete_all :: "dist_fn \<Rightarrow> nat \<Rightarrow> A_STATUS \<Rightarrow> HTC_PACKET list \<Rightarrow> HTC_TARGET \<Rightarrow>
    (HTC_TARGET \<times> HTC_PACKET list) option" where
  "complete_all D e st [] t = Some (t, [])"
| "complete_all D e st (p # ps) t = do {
     (t, p) \<leftarrow> CompleteSentPacket D e (p\<lparr>pk_Status := st\<rparr>) t;
     (t, ps) \<leftarrow> complete_all D e st ps t;
     Some (t, p # ps)
   }"

definition HTCAsyncSendScatterCompletion :: "dist_fn \<Rightarrow> nat \<Rightarrow> A_STATUS \<Rightarrow> (HTC_PACKET \<times> nat) list \<Rightarrow>
    HTC_TARGET \<Rightarrow> HTC_TARGET option" where
  "HTCAsyncSendScatterCompletion D e CompletionStatus entries t = do {
     let status = (if A_FAILED CompletionStatus then A_ERROR else A_OK);
     (t, ps) \<leftarrow> complete_all D e status (map fst entries) t;
     Some (DoSendCompletion e ps (t\<lparr>scatter_free := scatter_free t + 1\<rparr>))
   }"

subsection \<open>Handing packets to the device\<close>

definition DEV_CALC_SEND_PADDED_LEN :: "HTC_TARGET \<Rightarrow> nat \<Rightarrow> nat" where
  "DEV_CALC_SEND_PADDED_LEN t n = unat ((word_of_nat n + BlockMask t) AND NOT (BlockMask t))"

definition HTC_PREPARE_SEND_PKT :: "HTC_PACKET \<Rightarrow> byte \<Rightarrow> nat \<Rightarrow> nat \<Rightarrow> HTC_PACKET" where
  "HTC_PREPARE_SEND_PKT p flags ctrl0 ctrl1 =
     p\<lparr>pBuffer := pBuffer p - int HTC_HDR_LENGTH,
       pHdr := \<lparr>EndpointID = u8 (int (pk_Endpoint p)), Flags = flags,
                PayloadLen = u16 (int (ActualLength p)),
                ControlBytes0 = u8 (int ctrl0), ControlBytes1 = u8 (int ctrl1)\<rparr>\<rparr>"

definition HTC_UNPREPARE_SEND_PKT :: "HTC_PACKET \<Rightarrow> HTC_PACKET" where
  "HTC_UNPREPARE_SEND_PKT p = p\<lparr>pBuffer := pBuffer p + int HTC_HDR_LENGTH\<rparr>"

text \<open>
  \<open>DevSendPacket\<close> pads the length and passes the packet on.  \<open>hif\<close> is what \<open>HIFReadWrite\<close> answers.
  For a synchronous request (no completion routine) that is the packet's status and the result,
  and \<open>HTCIssueSend\<close> moves the buffer back to the payload.
\<close>

definition HTCIssueSend :: "A_STATUS \<Rightarrow> HTC_PACKET \<Rightarrow> HTC_TARGET \<Rightarrow> HTC_TARGET \<times> A_STATUS \<times> HTC_PACKET" where
  "HTCIssueSend hif p t =
     (let sync = \<not> Completion p;
          t' = t\<lparr>sent := sent t @ [XferSingle p
                 (DEV_CALC_SEND_PADDED_LEN t (ActualLength p + HTC_HDR_LENGTH))]\<rparr>
      in if sync then (t', hif, p\<lparr>pk_Status := hif, pBuffer := pBuffer p + int HTC_HDR_LENGTH\<rparr>)
         else (t', if hif = A_PENDING then A_OK else hif, p))"

subsection \<open>Taking packets off a queue\<close>

definition creditsRequired :: "HTC_TARGET \<Rightarrow> HTC_PACKET \<Rightarrow> int option" where
  "creditsRequired t p =
     (let transferLength = DEV_CALC_SEND_PADDED_LEN t (ActualLength p + HTC_HDR_LENGTH);
          sz = TargetCreditSize t
      in if transferLength \<le> sz then Some 1
         else if sz = 0 then None
         else Some (int (transferLength div sz) + (if transferLength mod sz \<noteq> 0 then 1 else 0)))"

text \<open>Ask the distribution function for \<open>n\<close> credits.\<close>

definition seek_credits :: "dist_fn \<Rightarrow> nat \<Rightarrow> int \<Rightarrow> HTC_TARGET \<Rightarrow> HTC_TARGET option" where
  "seek_credits D e n t = do {
     t \<leftarrow> DO_DISTRIBUTION D HTC_CREDIT_DIST_SEEK_CREDITS (Some e) (upd_cd e (\<lambda>d. d\<lparr>TxCreditsSeek := n\<rparr>) t);
     Some (upd_cd e (\<lambda>d. d\<lparr>TxCreditsSeek := 0\<rparr>) t)
   }"

abbreviation "credits_of t e \<equiv> TxCredits (CreditDist t e)"
abbreviation "per_max t e \<equiv> TxCreditsPerMaxMsg (CreditDist t e)"

text \<open>
  The loop of \<open>GetHTCSendPackets\<close> over the queue; the second argument is what is left of the
  queue of endpoint \<open>e\<close>.  The packets that may be sent come out in order.
\<close>

fun get_send_packets :: "dist_fn \<Rightarrow> nat \<Rightarrow> HTC_PACKET list \<Rightarrow> HTC_TARGET \<Rightarrow>
    (HTC_TARGET \<times> HTC_PACKET list) option" where
  "get_send_packets D e [] t = Some (t, [])"
| "get_send_packets D e (p # q) t = do {
     need \<leftarrow> creditsRequired t p;
     t1 \<leftarrow> (if credits_of t e < need \<and> pk_Endpoint p \<noteq> 0 then seek_credits D e (need - credits_of t e) t
            else Some t);
     if credits_of t1 e < need then Some (t1, [])
     else do {
       let t2 = upd_cd e (\<lambda>d. d\<lparr>TxCredits := TxCredits d - need\<rparr>) t1;
       t3 \<leftarrow> (if credits_of t2 e < per_max t2 e
              then seek_credits D e (per_max t2 e - credits_of t2 e) t2 else Some t2);
       let flags = (if credits_of t2 e < per_max t2 e \<and> credits_of t3 e < per_max t3 e
                    then HTC_FLAGS_NEED_CREDIT_UPDATE else 0);
       let p' = p\<lparr>CreditsUsed := need, Completion := True, SendFlags := flags,
                  pk_SeqNo := ep_SeqNo (EndPoint t3 e)\<rparr>;
       let t4 = upd_ep e (\<lambda>x. x\<lparr>TxQueue := q, ep_SeqNo := u8 (int (ep_SeqNo x) + 1)\<rparr>) t3;
       (t5, out) \<leftarrow> get_send_packets D e q t4;
       Some (t5, p' # out)
     }
   }"

definition GetHTCSendPackets :: "dist_fn \<Rightarrow> nat \<Rightarrow> HTC_TARGET \<Rightarrow> (HTC_TARGET \<times> HTC_PACKET list) option" where
  "GetHTCSendPackets D e t = get_send_packets D e (TxQueue (EndPoint t e)) t"

subsection \<open>Bundles\<close>

text \<open>
  The padding decision of \<open>HTCIssueSendBundle\<close> for one packet: \<open>None\<close> in the outer option is a
  division by a zero credit size, in the inner one a packet that cannot be part of a bundle.
  The result is the padding and the transfer length with it.
\<close>

definition bundle_padding :: "HTC_TARGET \<Rightarrow> bool \<Rightarrow> HTC_PACKET \<Rightarrow> (nat \<times> nat) option option" where
  "bundle_padding t pad p =
     (let transferLength = DEV_CALC_SEND_PADDED_LEN t (ActualLength p + HTC_HDR_LENGTH);
          sz = TargetCreditSize t;
          creditRemainder = transferLength mod sz
      in if sz = 0 then None
         else if creditRemainder = 0 then Some (Some (0, transferLength))
         else if \<not> pad then Some None
         else let creditPad = (if transferLength < sz then sz - transferLength else creditRemainder)
           in if creditPad > 0 \<and> creditPad \<le> 255
              then Some (Some (creditPad, transferLength + creditPad)) else Some None)"

text \<open>
  The \<open>for\<close> loop that fills a scatter request with at most \<open>n\<close> packets: the entries, the packets
  left in the queue, and whether bundling is \<open>done\<close>.
\<close>

fun fill_scatter :: "HTC_TARGET \<Rightarrow> bool \<Rightarrow> nat \<Rightarrow> nat \<Rightarrow> HTC_PACKET list \<Rightarrow>
    ((HTC_PACKET \<times> nat) list \<times> HTC_PACKET list \<times> bool) option" where
  "fill_scatter t pad 0 space q = Some ([], q, False)"
| "fill_scatter t pad (Suc n) space [] = Some ([], [], False)"
| "fill_scatter t pad (Suc n) space (p # q) = (case bundle_padding t pad p of
       None \<Rightarrow> None
     | Some None \<Rightarrow> Some ([], p # q, True)
     | Some (Some (creditPad, len)) \<Rightarrow>
         if space < len then Some ([], p # q, False)
         else (case fill_scatter t pad n (space - len) q of
             None \<Rightarrow> None
           | Some (entries, rest, stop) \<Rightarrow>
               Some ((HTC_PREPARE_SEND_PKT p (SendFlags p OR HTC_FLAGS_SEND_BUNDLE) creditPad
                        (pk_SeqNo p), len) # entries, rest, stop)))"

lemma fill_scatter_length:
  "fill_scatter t pad n space q = Some (entries, rest, stop) \<Longrightarrow> length q = length entries + length rest"
  by (induction t pad n space q arbitrary: entries rest stop rule: fill_scatter.induct)
    (auto split: option.splits if_splits)

text \<open>The result has the target, the packets left, and the two counts of bundles and packets.\<close>

function HTCIssueSendBundle :: "nat \<Rightarrow> HTC_PACKET list \<Rightarrow> HTC_TARGET \<Rightarrow>
    (HTC_TARGET \<times> HTC_PACKET list \<times> nat \<times> nat) option" where
  "HTCIssueSendBundle e q t =
     (let pktsToScatter = min (int (length q)) (MaxMsgPerBundle t)
      in if pktsToScatter < int HTC_MIN_HTC_MSGS_TO_BUNDLE \<or> scatter_free t = 0
         then Some (t, q, 0, 0)
         else (case fill_scatter t (SendBundlePadding (EndPoint t e)) (nat pktsToScatter)
                      (MaxSendBundleSize t) q of
             None \<Rightarrow> None
           | Some (entries, rest, stop) \<Rightarrow>
               if length entries \<ge> HTC_MIN_HTC_MSGS_TO_BUNDLE then
                 let t' = t\<lparr>sent := sent t @ [XferScatter e entries], scatter_free := scatter_free t - 1\<rparr>
                 in if stop then Some (t', rest, 1, length entries)
                    else (case HTCIssueSendBundle e rest t' of
                        None \<Rightarrow> None
                      | Some (t2, rest2, bundles, pkts) \<Rightarrow>
                          Some (t2, rest2, bundles + 1, pkts + length entries))
               else Some (t, map (HTC_UNPREPARE_SEND_PKT \<circ> fst) entries @ rest, 0, 0)))"
  by pat_completeness auto
termination
  by (relation "measure (\<lambda>(e, q, t). length q)") (auto dest!: fill_scatter_length)

declare HTCIssueSendBundle.simps [simp del]

lemma HTCIssueSendBundle_length:
  "HTCIssueSendBundle e q t = Some (t', q', b, n) \<Longrightarrow> length q' \<le> length q"
proof (induction e q t arbitrary: t' q' b n rule: HTCIssueSendBundle.induct)
  case (1 e q t)
  let ?n = "min (int (length q)) (MaxMsgPerBundle t)"
  let ?f = "fill_scatter t (SendBundlePadding (EndPoint t e)) (nat ?n) (MaxSendBundleSize t) q"
  note eq = 1(2) [unfolded HTCIssueSendBundle.simps [of e q t] Let_def]
  show ?case
  proof (cases "?n < int HTC_MIN_HTC_MSGS_TO_BUNDLE \<or> scatter_free t = 0")
    case True
    then show ?thesis using eq by simp
  next
    case False
    then obtain entries rest stop where f: "?f = Some (entries, rest, stop)"
      using eq by (auto split: option.splits)
    have len: "length q = length entries + length rest" by (rule fill_scatter_length [OF f])
    let ?t = "t\<lparr>sent := sent t @ [XferScatter e entries], scatter_free := scatter_free t - 1\<rparr>"
    consider (small) "length entries < 2" | (last) "2 \<le> length entries" "stop"
      | (more) "2 \<le> length entries" "\<not> stop" by fastforce
    then show ?thesis
    proof cases
      case more
      then obtain t2 r2 b2 n2 where r: "HTCIssueSendBundle e rest ?t = Some (t2, r2, b2, n2)" "q' = r2"
        using eq False f by (auto split: option.splits)
      have "length r2 \<le> length rest"
        by (rule 1(1) [OF refl False f refl refl more(1) refl more(2) r(1)])
      then show ?thesis using r len by simp
    qed (use eq False f len in auto)
  qed
qed

text \<open>
  The inner loop of \<open>HTCTrySend\<close>: as many bundles as possible, then one packet the normal way,
  until the local queue is empty.
\<close>

function send_all :: "nat \<Rightarrow> HTC_PACKET list \<Rightarrow> HTC_TARGET \<Rightarrow> HTC_TARGET option" where
  "send_all e q t =
     (case (if SendBundlingEnabled t \<and> length q \<ge> HTC_MIN_HTC_MSGS_TO_BUNDLE
            then HTCIssueSendBundle e q t else Some (t, q, 0, 0)) of
        None \<Rightarrow> None
      | Some (t1, q1, _, _) \<Rightarrow> (case q1 of
            [] \<Rightarrow> Some t1
          | p # q2 \<Rightarrow>
              send_all e q2 (fst (HTCIssueSend A_OK
                (HTC_PREPARE_SEND_PKT p (SendFlags p) 0 (pk_SeqNo p)) t1))))"
  by pat_completeness auto
termination
  by (relation "measure (\<lambda>(e, q, t). length q)")
    (auto split: if_splits dest: HTCIssueSendBundle_length)

declare send_all.simps [simp del]

subsection \<open>What an operation leaves alone\<close>

text \<open>Two targets that differ in the credits only, and in one endpoint's queue and the credits.\<close>

definition credits_only :: "HTC_TARGET \<Rightarrow> HTC_TARGET \<Rightarrow> bool" where
  "credits_only t t' \<longleftrightarrow> t' = t\<lparr>CredInfo := CredInfo t', CreditDist := CreditDist t'\<rparr>"

definition queue_only :: "nat \<Rightarrow> HTC_TARGET \<Rightarrow> HTC_TARGET \<Rightarrow> bool" where
  "queue_only e t t' \<longleftrightarrow> (\<exists>q n ci cd.
     t' = t\<lparr>EndPoint := (EndPoint t)(e := (EndPoint t e)\<lparr>TxQueue := q, ep_SeqNo := n\<rparr>),
            CredInfo := ci, CreditDist := cd\<rparr>)"

lemma credits_only_refl [simp]: "credits_only t t"
  by (simp add: credits_only_def)

lemma credits_only_upd [simp]: "credits_only t (upd_cd e f t)"
  by (simp add: credits_only_def upd_cd_def)

lemma credits_only_trans: "credits_only t t' \<Longrightarrow> credits_only t' t'' \<Longrightarrow> credits_only t t''"
  by (cases t; cases t'; cases t'') (simp add: credits_only_def)

lemma DO_DISTRIBUTION_only: "DO_DISTRIBUTION D r p t = Some t' \<Longrightarrow> credits_only t t'"
  by (auto simp: DO_DISTRIBUTION_def credits_only_def)

lemma seek_credits_only: "seek_credits D e n t = Some t' \<Longrightarrow> credits_only t t'"
  by (auto simp: seek_credits_def bind_eq_Some_conv dest!: DO_DISTRIBUTION_only
      intro: credits_only_trans [OF credits_only_upd credits_only_trans [OF _ credits_only_upd]])

lemma credits_onlyD:
  "credits_only t t' \<Longrightarrow> EndPoint t' = EndPoint t \<and> DistList t' = DistList t \<and>
     TargetCreditSize t' = TargetCreditSize t \<and> BlockMask t' = BlockMask t \<and> sent t' = sent t \<and>
     indicated t' = indicated t"
  unfolding credits_only_def by (cases t; cases t') simp

lemma queue_onlyI:
  "EndPoint t' = (EndPoint t)(e := (EndPoint t e)\<lparr>TxQueue := q, ep_SeqNo := n\<rparr>) \<Longrightarrow>
   t' = t\<lparr>EndPoint := EndPoint t', CredInfo := CredInfo t', CreditDist := CreditDist t'\<rparr> \<Longrightarrow> queue_only e t t'"
  unfolding queue_only_def by (metis (no_types))

lemma queue_only_credits: "credits_only t t' \<Longrightarrow> queue_only e t t'"
  by (rule queue_onlyI [where q = "TxQueue (EndPoint t e)" and n = "ep_SeqNo (EndPoint t e)"])
    (cases t; cases t'; simp add: credits_only_def)+

lemma queue_only_trans: "queue_only e t t' \<Longrightarrow> queue_only e t' t'' \<Longrightarrow> queue_only e t t''"
  unfolding queue_only_def by fastforce

lemma queue_only_take [simp]: "queue_only e t (upd_ep e (\<lambda>x. x\<lparr>TxQueue := q, ep_SeqNo := n x\<rparr>) t)"
  by (rule queue_onlyI [where q = q and n = "n (EndPoint t e)"]) (simp_all add: upd_ep_def)

lemma queue_onlyD:
  "queue_only e t t' \<Longrightarrow> DistList t' = DistList t \<and> TargetCreditSize t' = TargetCreditSize t \<and>
     BlockMask t' = BlockMask t \<and> sent t' = sent t \<and> indicated t' = indicated t \<and>
     (\<forall>x. x \<noteq> e \<longrightarrow> EndPoint t' x = EndPoint t x)"
  unfolding queue_only_def by auto

text \<open>
  The case that sends the head packet, taken apart: the target with the credits found, the target
  with the packet's credits taken, and the target after asking for more.
\<close>

lemma get_send_packets_Cons:
  assumes "get_send_packets D e (p # q) t = Some (t', out)"
  obtains (stuck) need t1 where "creditsRequired t p = Some need" "out = []" "t' = t1"
      "credits_only t t1" "credits_of t1 e < need"
      "t1 = t \<or> seek_credits D e (need - credits_of t e) t = Some t1"
  | (taken) need t1 t2 t3 t4 p' out' where "creditsRequired t p = Some need" "out = p' # out'"
      "(t1 = t \<and> need \<le> credits_of t e) \<or>
         (seek_credits D e (need - credits_of t e) t = Some t1 \<and> credits_of t e < need)"
      "need \<le> credits_of t1 e"
      "t2 = upd_cd e (\<lambda>d. d\<lparr>TxCredits := TxCredits d - need\<rparr>) t1"
      "(t3 = t2 \<and> per_max t2 e \<le> credits_of t2 e) \<or>
         (seek_credits D e (per_max t2 e - credits_of t2 e) t2 = Some t3 \<and> credits_of t2 e < per_max t2 e)"
      "\<exists>fl sq. p' = p\<lparr>CreditsUsed := need, Completion := True, SendFlags := fl, pk_SeqNo := sq\<rparr>"
      "t4 = upd_ep e (\<lambda>x. x\<lparr>TxQueue := q, ep_SeqNo := u8 (int (ep_SeqNo x) + 1)\<rparr>) t3"
      "get_send_packets D e q t4 = Some (t', out')"
proof -
  from assms obtain need where need: "creditsRequired t p = Some need"
    by (auto simp: bind_eq_Some_conv)
  from assms need obtain t1 where t1:
    "(if credits_of t e < need \<and> pk_Endpoint p \<noteq> 0 then seek_credits D e (need - credits_of t e) t
            else Some t) = Some t1"
    by (auto simp: bind_eq_Some_conv)
  then have only: "credits_only t t1" by (auto split: if_splits dest: seek_credits_only)
  show thesis
  proof (cases "credits_of t1 e < need")
    case True
    with assms need t1 have "out = []" "t' = t1" by auto
    with True need only t1 show thesis by (intro stuck) (auto split: if_splits)
  next
    case False
    let ?t2 = "upd_cd e (\<lambda>d. d\<lparr>TxCredits := TxCredits d - need\<rparr>) t1"
    from assms need t1 False obtain t3 out' where
      t3: "(if credits_of ?t2 e < per_max ?t2 e
              then seek_credits D e (per_max ?t2 e - credits_of ?t2 e) ?t2 else Some ?t2) = Some t3" and
      rest: "get_send_packets D e q
        (upd_ep e (\<lambda>x. x\<lparr>TxQueue := q, ep_SeqNo := u8 (int (ep_SeqNo x) + 1)\<rparr>) t3) = Some (t', out')" and
      out: "\<exists>fl sq. out = p\<lparr>CreditsUsed := need, Completion := True, SendFlags := fl, pk_SeqNo := sq\<rparr> # out'"
      by (fastforce simp: bind_eq_Some_conv Let_def)
    from out obtain p' where "out = p' # out'"
      "\<exists>fl sq. p' = p\<lparr>CreditsUsed := need, Completion := True, SendFlags := fl, pk_SeqNo := sq\<rparr>"
      by blast
    with t1 t3 False show thesis
      by (intro taken [OF need _ _ _ refl _ _ refl rest]) (auto split: if_splits)
  qed
qed

declare get_send_packets.simps(2) [simp del]

text \<open>First in, first out: what comes out are the first packets of the queue, the rest stays.\<close>

lemma get_send_packets_fifo:
  assumes "get_send_packets D e q t = Some (t', out)" "TxQueue (EndPoint t e) = q"
  shows "queue_only e t t' \<and> q = take (length out) q @ TxQueue (EndPoint t' e) \<and>
    map pk_id out @ map pk_id (TxQueue (EndPoint t' e)) = map pk_id q"
  using assms
proof (induction q arbitrary: t t' out)
  case Nil
  then show ?case by (simp add: queue_only_credits)
next
  case (Cons p q)
  from Cons.prems(1) show ?case
  proof (cases rule: get_send_packets_Cons)
    case (stuck need t1)
    then show ?thesis
      using Cons.prems(2) credits_onlyD [of t t1] by (simp add: queue_only_credits)
  next
    case (taken need t1 t2 t3 t4 p' out')
    have "credits_only t t1" "credits_only t2 t3"
      using taken(3,6) seek_credits_only by (auto intro: credits_only_refl)
    then have "credits_only t t3"
      using taken(5) credits_only_trans [of t t1 t2] credits_only_trans [of t t2 t3] by simp
    then have 3: "queue_only e t t3" by (rule queue_only_credits)
    have "queue_only e t3 t4" unfolding taken(8) by (rule queue_only_take)
    with 3 have 4: "queue_only e t t4" by (rule queue_only_trans)
    have "TxQueue (EndPoint t4 e) = q" by (simp add: taken(8) upd_ep_def)
    from Cons.IH [OF taken(9) this] 4 taken(2,7) show ?thesis
      by (auto intro: queue_only_trans)
  qed
qed

subsection \<open>What reaches the device\<close>

text \<open>A packet is recognised by its address and the credits it took.\<close>

definition key :: "HTC_PACKET \<Rightarrow> nat \<times> int" where
  "key p = (pk_id p, CreditsUsed p)"

fun xfer_packets :: "htc_xfer \<Rightarrow> HTC_PACKET list" where
  "xfer_packets (XferSingle p n) = [p]"
| "xfer_packets (XferScatter e es) = map fst es"

definition sent_keys :: "HTC_TARGET \<Rightarrow> (nat \<times> int) list" where
  "sent_keys t = concat (map (map key \<circ> xfer_packets) (sent t))"

definition device_only :: "HTC_TARGET \<Rightarrow> HTC_TARGET \<Rightarrow> bool" where
  "device_only t t' \<longleftrightarrow> (\<exists>n xs. t' = t\<lparr>sent := sent t @ xs, scatter_free := n\<rparr>)"

lemma device_only_refl [simp]: "device_only t t"
  unfolding device_only_def by (intro exI [of _ "scatter_free t"] exI [of _ "[]"]) simp

lemma device_only_trans: "device_only t t' \<Longrightarrow> device_only t' t'' \<Longrightarrow> device_only t t''"
  unfolding device_only_def by fastforce

lemma device_onlyD:
  "device_only t t' \<Longrightarrow> EndPoint t' = EndPoint t \<and> CreditDist t' = CreditDist t \<and>
     CredInfo t' = CredInfo t \<and> DistList t' = DistList t \<and> indicated t' = indicated t \<and>
     TargetCreditSize t' = TargetCreditSize t \<and> BlockMask t' = BlockMask t"
  unfolding device_only_def by auto

lemma key_prepare [simp]:
  "key (HTC_PREPARE_SEND_PKT p fl a b) = key p" "key (HTC_UNPREPARE_SEND_PKT p) = key p"
  by (simp_all add: key_def HTC_PREPARE_SEND_PKT_def HTC_UNPREPARE_SEND_PKT_def)

lemma fill_scatter_keys:
  "fill_scatter t pad n space q = Some (entries, rest, stop) \<Longrightarrow>
   map key q = map (key \<circ> fst) entries @ map key rest"
  by (induction t pad n space q arbitrary: entries rest stop rule: fill_scatter.induct)
    (auto split: option.splits if_splits)

text \<open>The three ways one pass of the bundling loop ends.\<close>

lemma HTCIssueSendBundle_cases:
  assumes "HTCIssueSendBundle e q t = Some (t', q', b, n)"
  obtains (none) "t' = t" "map key q' = map key q"
  | (last) entries where "map key q = map (key \<circ> fst) entries @ map key q'"
      "t' = t\<lparr>sent := sent t @ [XferScatter e entries], scatter_free := scatter_free t - 1\<rparr>"
  | (more) entries rest b' n' where "map key q = map (key \<circ> fst) entries @ map key rest"
      "length rest < length q"
      "HTCIssueSendBundle e rest
         (t\<lparr>sent := sent t @ [XferScatter e entries], scatter_free := scatter_free t - 1\<rparr>)
       = Some (t', q', b', n')"
proof -
  let ?n = "min (int (length q)) (MaxMsgPerBundle t)"
  let ?f = "fill_scatter t (SendBundlePadding (EndPoint t e)) (nat ?n) (MaxSendBundleSize t) q"
  note eq = assms [unfolded HTCIssueSendBundle.simps [of e q t] Let_def]
  show thesis
  proof (cases "?n < int HTC_MIN_HTC_MSGS_TO_BUNDLE \<or> scatter_free t = 0")
    case True
    then show thesis using eq none by simp
  next
    case False
    then obtain entries rest stop where f: "?f = Some (entries, rest, stop)"
      using eq by (auto split: option.splits)
    note keys = fill_scatter_keys [OF f] and len = fill_scatter_length [OF f]
    consider (small) "length entries < 2" | (stop) "2 \<le> length entries" "stop"
      | (go) "2 \<le> length entries" "\<not> stop" by fastforce
    then show thesis
    proof cases
      case small
      then show thesis using eq False f keys by (intro none) auto
    next
      case stop
      then show thesis using eq False f keys by (intro last) auto
    next
      case go
      then obtain b' n' where "HTCIssueSendBundle e rest
          (t\<lparr>sent := sent t @ [XferScatter e entries], scatter_free := scatter_free t - 1\<rparr>) = Some (t', q', b', n')"
        using eq False f by (auto split: option.splits)
      then show thesis using keys len go by (intro more) auto
    qed
  qed
qed

lemma HTCIssueSendBundle_keys:
  "HTCIssueSendBundle e q t = Some (t', q', b, n) \<Longrightarrow>
   device_only t t' \<and> sent_keys t' @ map key q' = sent_keys t @ map key q"
proof (induction "length q" arbitrary: q t t' q' b n rule: less_induct)
  case less
  have step: "device_only t (t\<lparr>sent := sent t @ [x], scatter_free := m\<rparr>)" for m x
    unfolding device_only_def by blast
  from less.prems show ?case
  proof (cases rule: HTCIssueSendBundle_cases)
    case none
    then show ?thesis by simp
  next
    case (last entries)
    then show ?thesis using step by (simp add: sent_keys_def comp_def)
  next
    case (more entries rest b' n')
    from less.hyps [OF more(2,3)] more(1) show ?thesis
      using device_only_trans [OF step] by (auto simp: sent_keys_def comp_def)
  qed
qed

lemma send_all_keys:
  "send_all e q t = Some t' \<Longrightarrow> device_only t t' \<and> sent_keys t' = sent_keys t @ map key q"
proof (induction "length q" arbitrary: q t rule: less_induct)
  case less
  note eq = less.prems [unfolded send_all.simps [of e q t]]
  then obtain t1 q1 b n where b: "(if SendBundlingEnabled t \<and> length q \<ge> HTC_MIN_HTC_MSGS_TO_BUNDLE
            then HTCIssueSendBundle e q t else Some (t, q, 0, 0)) = Some (t1, q1, b, n)"
    by (auto split: option.splits)
  then have 1: "device_only t t1" "sent_keys t1 @ map key q1 = sent_keys t @ map key q"
      "length q1 \<le> length q"
    using HTCIssueSendBundle_keys HTCIssueSendBundle_length by (fastforce split: if_splits)+
  show ?case
  proof (cases q1)
    case Nil
    then show ?thesis using eq b 1 by simp
  next
    case (Cons p q2)
    define p' where "p' = HTC_PREPARE_SEND_PKT p (SendFlags p) 0 (pk_SeqNo p)"
    obtain t2 where t2: "fst (HTCIssueSend A_OK p' t1) = t2" "device_only t1 t2"
        "sent_keys t2 = sent_keys t1 @ [key p]"
    proof
      show "device_only t1 (fst (HTCIssueSend A_OK p' t1))"
        unfolding device_only_def HTCIssueSend_def
        by (intro exI [of _ "scatter_free t1"]) (auto simp: Let_def)
      show "sent_keys (fst (HTCIssueSend A_OK p' t1)) = sent_keys t1 @ [key p]"
        by (simp add: sent_keys_def HTCIssueSend_def Let_def p'_def)
    qed simp
    have "send_all e q2 t2 = Some t'" using eq b Cons t2(1) by (simp add: p'_def)
    moreover have "length q2 < length q" using 1(3) Cons by simp
    ultimately have "device_only t2 t'" "sent_keys t' = sent_keys t2 @ map key q2"
      using less.hyps by blast+
    then show ?thesis
      using 1(1,2) t2(2,3) Cons device_only_trans by (auto simp: append_eq_append_conv2)
  qed
qed

subsection \<open>Trying to send\<close>

text \<open>The draining loop of \<open>HTCTrySend\<close>.\<close>

function drain_queue :: "dist_fn \<Rightarrow> nat \<Rightarrow> HTC_TARGET \<Rightarrow> HTC_TARGET option" where
  "drain_queue D e t =
     (if TxQueue (EndPoint t e) = [] then Some t
      else case GetHTCSendPackets D e t of None \<Rightarrow> None | Some (t1, out) \<Rightarrow>
        if out = [] then Some t1
        else case send_all e out t1 of None \<Rightarrow> None | Some t2 \<Rightarrow> drain_queue D e t2)"
  by pat_completeness auto

lemma drain_decreases:
  assumes "GetHTCSendPackets D e t = Some (t1, out)" "out \<noteq> []" "send_all e out t1 = Some t2"
  shows "length (TxQueue (EndPoint t2 e)) < length (TxQueue (EndPoint t e))"
proof -
  have "map pk_id out @ map pk_id (TxQueue (EndPoint t1 e)) = map pk_id (TxQueue (EndPoint t e))"
    using get_send_packets_fifo [OF assms(1) [unfolded GetHTCSendPackets_def] refl] by blast
  then have "length out + length (TxQueue (EndPoint t1 e)) = length (TxQueue (EndPoint t e))"
    by (metis length_append length_map)
  moreover have "EndPoint t2 = EndPoint t1"
    using send_all_keys [OF assms(3)] device_onlyD by blast
  ultimately show ?thesis using assms(2) by (cases out) auto
qed

termination drain_queue
  by (relation "measure (\<lambda>(D, e, t). length (TxQueue (EndPoint t e)))") (auto dest: drain_decreases)

declare drain_queue.simps [simp del]

text \<open>
  The packets of the caller that are taken over and those left with the caller.  \<open>full p\<close> is the
  answer of the endpoint's \<open>EpSendFull\<close>, with \<open>True\<close> for \<open>HTC_SEND_FULL_DROP\<close>.
\<close>

definition accept_packets :: "HTC_ENDPOINT \<Rightarrow> HTC_PACKET list \<Rightarrow> HTC_PACKET list \<times> HTC_PACKET list" where
  "accept_packets ep q =
     (let depth = int (length (TxQueue ep));
          overflow = (if depth \<ge> MaxTxQueueDepth ep then int (length q)
                      else depth + int (length q) - MaxTxQueueDepth ep)
      in case EpSendFull ep of
           None \<Rightarrow> (q, [])
         | Some full \<Rightarrow>
             if overflow \<le> 0 then (q, [])
             else let goodPkts = nat (int (length q) - overflow)
               in (take goodPkts q @ filter (\<lambda>p. \<not> full p) (drop goodPkts q),
                   filter full (drop goodPkts q)))"

text \<open>\<open>callers\<close> is \<open>None\<close> when no queue is passed; the result has the caller's queue on return.\<close>

definition HTCTrySend :: "dist_fn \<Rightarrow> nat \<Rightarrow> HTC_PACKET list option \<Rightarrow> HTC_TARGET \<Rightarrow>
    (HTC_SEND_QUEUE_RESULT \<times> HTC_TARGET \<times> HTC_PACKET list) option" where
  "HTCTrySend D e callers t =
     (let (sendQueue, left) = (case callers of None \<Rightarrow> ([], [])
            | Some q \<Rightarrow> accept_packets (EndPoint t e) q)
      in if callers \<noteq> None \<and> sendQueue = [] then Some (HTC_SEND_QUEUE_DROP, t, left)
         else
           let t1 = upd_ep e (\<lambda>x. x\<lparr>TxQueue := TxQueue x @ sendQueue,
                                   TxProcessCount := TxProcessCount x + 1\<rparr>) t
           in if TxProcessCount (EndPoint t1 e) > 1
              then Some (HTC_SEND_QUEUE_OK,
                         upd_ep e (\<lambda>x. x\<lparr>TxProcessCount := TxProcessCount x - 1\<rparr>) t1, left)
              else (case drain_queue D e t1 of None \<Rightarrow> None
                | Some t2 \<Rightarrow> Some (HTC_SEND_QUEUE_OK,
                               upd_ep e (\<lambda>x. x\<lparr>TxProcessCount := 0\<rparr>) t2, left)))"

definition HTCSendPktsMultiple :: "dist_fn \<Rightarrow> HTC_PACKET list \<Rightarrow> HTC_TARGET \<Rightarrow>
    (A_STATUS \<times> HTC_TARGET) option" where
  "HTCSendPktsMultiple D q t = (case q of
       [] \<Rightarrow> Some (A_EINVAL, t)
     | p # _ \<Rightarrow> (let e = pk_Endpoint p in
         if e \<ge> ENDPOINT_MAX then None
         else (case HTCTrySend D e (Some q) t of None \<Rightarrow> None
           | Some (_, t1, left) \<Rightarrow>
               Some (A_OK, DoSendCompletion e
                 (map (\<lambda>p. p\<lparr>pk_Status := (if Stopping t1 then A_ECANCELED else A_NO_RESOURCE)\<rparr>) left) t1))))"

definition HTCSendPkt :: "dist_fn \<Rightarrow> HTC_PACKET \<Rightarrow> HTC_TARGET \<Rightarrow> (A_STATUS \<times> HTC_TARGET) option" where
  "HTCSendPkt D p t = HTCSendPktsMultiple D [p] t"

fun check_queues :: "dist_fn \<Rightarrow> nat list \<Rightarrow> HTC_TARGET \<Rightarrow> HTC_TARGET option" where
  "check_queues D [] t = Some t"
| "check_queues D (e # es) t =
     (if TxQueue (EndPoint t e) = [] then check_queues D es t
      else case HTCTrySend D e None t of None \<Rightarrow> None | Some (_, t1, _) \<Rightarrow> check_queues D es t1)"

definition HTCCheckEndpointTxQueues :: "dist_fn \<Rightarrow> HTC_TARGET \<Rightarrow> HTC_TARGET option" where
  "HTCCheckEndpointTxQueues D t = check_queues D (DistList t) t"

subsection \<open>Credit reports\<close>

text \<open>
  The loop over the records of a report, pairs of endpoint and credits; a record for an endpoint
  that does not exist ends it.  The result has the sum of the credits and the flag \<open>doDist\<close>.
\<close>

fun take_reports :: "(nat \<times> nat) list \<Rightarrow> HTC_TARGET \<Rightarrow> HTC_TARGET \<times> nat \<times> bool" where
  "take_reports [] t = (t, 0, False)"
| "take_reports ((e, c) # rpts) t =
     (if e \<ge> ENDPOINT_MAX then (t, 0, False)
      else let t1 = (if e = 0 then upd_cd e (\<lambda>d. d\<lparr>TxCredits := TxCredits d + int c\<rparr>) t
                     else upd_cd e (\<lambda>d. d\<lparr>TxCreditsToDist := TxCreditsToDist d + int c\<rparr>) t);
               t2 = upd_cd e (\<lambda>d. d\<lparr>cd_TxQueueDepth := tx_depth e t\<rparr>) t1;
               (t3, total, dist) = take_reports rpts t2
        in (t3, total + c, dist \<or> e \<noteq> 0))"

definition HTCProcessCreditRpt :: "dist_fn \<Rightarrow> (nat \<times> nat) list \<Rightarrow> HTC_TARGET \<Rightarrow> HTC_TARGET option" where
  "HTCProcessCreditRpt D rpts t = do {
     let (t1, totalCredits, doDist) = take_reports rpts t;
     t2 \<leftarrow> (if doDist then do {
             nxt \<leftarrow> head_next t1;
             DO_DISTRIBUTION D HTC_CREDIT_DIST_SEND_COMPLETE nxt t1
           } else Some t1);
     if totalCredits \<noteq> 0 then HTCCheckEndpointTxQueues D t2 else Some t2
   }"

subsection \<open>Flushing and activity\<close>

definition HTCFlushEndpointTX :: "nat \<Rightarrow> nat \<Rightarrow> HTC_TARGET \<Rightarrow> HTC_TARGET" where
  "HTCFlushEndpointTX e tag t =
     (let hit = (\<lambda>p. tag = HTC_TX_PACKET_TAG_ALL \<or> tag = Tag p);
          discard = filter hit (TxQueue (EndPoint t e));
          t1 = upd_ep e (\<lambda>x. x\<lparr>TxQueue := filter (\<lambda>p. \<not> hit p) (TxQueue x)\<rparr>) t;
          st = (if tag = HTC_TX_PACKET_TAG_ALL then A_ECANCELED else A_ECOMM)
      in fold (\<lambda>p. DoSendCompletion e [p\<lparr>pk_Status := st\<rparr>]) discard t1)"

definition HTCFlushSendPkts :: "HTC_TARGET \<Rightarrow> HTC_TARGET" where
  "HTCFlushSendPkts t =
     fold (\<lambda>e t. if ep_ServiceID (EndPoint t e) = 0 then t
                 else HTCFlushEndpointTX e HTC_TX_PACKET_TAG_ALL t) [0..<ENDPOINT_MAX] t"

definition HTCFlushEndpoint :: "nat \<Rightarrow> nat \<Rightarrow> HTC_TARGET \<Rightarrow> HTC_TARGET option" where
  "HTCFlushEndpoint e tag t =
     (if e \<ge> ENDPOINT_MAX then None
      else if ep_ServiceID (EndPoint t e) = 0 then Some t
      else Some (HTCFlushEndpointTX e tag t))"

definition HTCIndicateActivityChange :: "dist_fn \<Rightarrow> nat \<Rightarrow> bool \<Rightarrow> HTC_TARGET \<Rightarrow> HTC_TARGET option" where
  "HTCIndicateActivityChange D e Active t =
     (if e \<ge> ENDPOINT_MAX then None
      else if ep_ServiceID (EndPoint t e) = 0 then Some t
      else if Active = IS_EP_ACTIVE (CreditDist t e) then Some t
      else do {
        let t1 = upd_cd e (\<lambda>d. if Active then SET_EP_ACTIVE d
                               else d\<lparr>DistFlags := DistFlags d AND NOT HTC_EP_ACTIVE\<rparr>) t;
        let t2 = upd_cd e (\<lambda>d. d\<lparr>cd_TxQueueDepth := tx_depth e t1\<rparr>) t1;
        nxt \<leftarrow> head_next t2;
        t3 \<leftarrow> DO_DISTRIBUTION D HTC_CREDIT_DIST_ACTIVITY_CHANGE nxt t2;
        if \<not> Active then HTCCheckEndpointTxQueues D t3 else Some t3
      })"

definition HTCIsEndpointActive :: "nat \<Rightarrow> HTC_TARGET \<Rightarrow> bool option" where
  "HTCIsEndpointActive e t =
     (if e \<ge> ENDPOINT_MAX then None
      else Some (ep_ServiceID (EndPoint t e) \<noteq> 0 \<and> IS_EP_ACTIVE (CreditDist t e)))"

end
