(* ===== verification/HtcRecv.thy ===== *)
theory HtcRecv
  imports HtcSend
begin

text \<open>
  The receive side of HTC, \<open>host/htc2/htc_recv.c\<close>, on top of the transmit side, which it feeds
  with credit reports.

  The device announces a message by a lookahead, the first four bytes of its header.  HTC finds a
  buffer for it, fetches it, checks the header against the lookahead, unpacks the records of the
  trailer (credits, further lookaheads) and hands the payload to the owner of the endpoint.

  The device is the list \<open>dev_in\<close> of its answers to read requests, each a status and the data of
  the packets read; \<open>recv_on\<close> is the last request to enable or to stop the receiver.  A callback
  of an endpoint's owner is the list of the answers it will give (\<open>None\<close> for a null pointer);
  \<open>rx_indicated\<close> logs what is handed to the owners, whose calls back into HTC are operations of
  their own.  Assertions only print.  Integers in the headers are little endian.  A fault is \<open>None\<close>.
\<close>

subsection \<open>Data\<close>

abbreviation (input) HTC_HOST_MAX_MSG_PER_BUNDLE :: nat where "HTC_HOST_MAX_MSG_PER_BUNDLE \<equiv> 8"
abbreviation (input) HTC_MAX_PAYLOAD_LENGTH :: nat where "HTC_MAX_PAYLOAD_LENGTH \<equiv> 4090"
abbreviation (input) HTC_FLAGS_RECV_TRAILER :: byte where "HTC_FLAGS_RECV_TRAILER \<equiv> 2"
abbreviation (input) HTC_FLAGS_RECV_BUNDLE_CNT_MASK :: byte where "HTC_FLAGS_RECV_BUNDLE_CNT_MASK \<equiv> 0xF0"
abbreviation (input) HTC_RECORD_CREDITS :: byte where "HTC_RECORD_CREDITS \<equiv> 1"
abbreviation (input) HTC_RECORD_LOOKAHEAD :: byte where "HTC_RECORD_LOOKAHEAD \<equiv> 2"
abbreviation (input) HTC_RECORD_LOOKAHEAD_BUNDLE :: byte where "HTC_RECORD_LOOKAHEAD_BUNDLE \<equiv> 3"

text \<open>A lookahead is the first four bytes of a frame header.\<close>

type_synonym lookahead = "byte \<times> byte \<times> byte \<times> byte"

fun la_endpoint :: "lookahead \<Rightarrow> nat" where "la_endpoint (e, f, l, h) = unat e"
fun la_flags :: "lookahead \<Rightarrow> byte" where "la_flags (e, f, l, h) = f"
fun la_length :: "lookahead \<Rightarrow> nat" where "la_length (e, f, l, h) = le16 l h"

text \<open>
  \<open>rx_id\<close> stands for the address of the packet, \<open>rx_buf\<close> is the buffer from \<open>pBufferStart\<close> on and
  \<open>rx_off\<close> is \<open>pBuffer - pBufferStart\<close>.  The bits of \<open>HTCRxFlags\<close> are fields of their own.
\<close>

record HTC_RX_PACKET =
  rx_id :: nat
  rx_buf :: bytes
  rx_off :: nat
  BufferLength :: nat
  rx_Length :: nat
  rx_Endpoint :: nat
  rx_Status :: A_STATUS
  ExpectedHdr :: lookahead
  IGNORE_LOOKAHEAD :: bool
  REFRESH_HDR :: bool
  PART_OF_BUNDLE :: bool
  NO_RECYCLE :: bool
  INDICATE_MORE_PKTS :: bool

record HTC_RX_ENDPOINT =
  RxBuffers :: "HTC_RX_PACKET list"
  RecvIndicationQueue :: "HTC_RX_PACKET list"
  RxProcessCount :: int
  EpRecvPktMultiple :: bool
  EpRecvAlloc :: "HTC_RX_PACKET option list option"
  EpRecvAllocThresh :: "HTC_RX_PACKET option list option"
  RecvAllocThreshold :: nat
  EpRecvRefill :: "HTC_RX_PACKET list list option"
  RecvRefillWaterMark :: int

datatype rx_request =
    ReqSingle HTC_RX_PACKET
  | ReqScatter bool "HTC_RX_PACKET list"

record HTC_RX_TARGET =
  RxEp :: "nat \<Rightarrow> HTC_RX_ENDPOINT"
  tx :: HTC_TARGET
  WAIT_BUFFERS :: bool
  EpWaitingForBuffers :: nat
  RecvBundlingEnabled :: bool
  MaxRecvBundleSize :: nat
  DSRCanYield :: bool
  CurrentDSRRecvCount :: nat
  RecvPacketYieldCount :: nat
  ASYNC_ALLOWED :: bool
  ControlBufferRXFreeList :: "HTC_RX_PACKET list"
  dev_in :: "(A_STATUS \<times> bytes list) list"
  recv_on :: bool
  in_flight :: "rx_request list"
  rx_indicated :: "(nat \<times> HTC_RX_PACKET list) list"

definition upd_rx :: "nat \<Rightarrow> (HTC_RX_ENDPOINT \<Rightarrow> HTC_RX_ENDPOINT) \<Rightarrow> HTC_RX_TARGET \<Rightarrow> HTC_RX_TARGET" where
  "upd_rx e f t = t\<lparr>RxEp := (RxEp t)(e := f (RxEp t e))\<rparr>"

definition DEV_CALC_RECV_PADDED_LEN :: "HTC_RX_TARGET \<Rightarrow> nat \<Rightarrow> nat" where
  "DEV_CALC_RECV_PADDED_LEN t n = DEV_CALC_SEND_PADDED_LEN (tx t) n"

subsection \<open>Handing packets over and taking buffers back\<close>

definition DoRecvCompletion :: "nat \<Rightarrow> HTC_RX_PACKET list \<Rightarrow> HTC_RX_TARGET \<Rightarrow> HTC_RX_TARGET" where
  "DoRecvCompletion e q t =
     (if q = [] then t
      else if EpRecvPktMultiple (RxEp t e) then t\<lparr>rx_indicated := rx_indicated t @ [(e, q)]\<rparr>
      else t\<lparr>rx_indicated := rx_indicated t @ map (\<lambda>p. (e, [p])) q\<rparr>)"

definition HTCAddReceivePktMultiple :: "HTC_RX_PACKET list \<Rightarrow> HTC_RX_TARGET \<Rightarrow>
    (A_STATUS \<times> HTC_RX_TARGET) option" where
  "HTCAddReceivePktMultiple q t = (case q of
       [] \<Rightarrow> Some (A_EINVAL, t)
     | p # _ \<Rightarrow> (let e = rx_Endpoint p in
         if e \<ge> ENDPOINT_MAX then None
         else if Stopping (tx t)
         then Some (A_OK, DoRecvCompletion e (map (\<lambda>p. p\<lparr>rx_Status := A_ECANCELED\<rparr>) q) t)
         else
           let t1 = upd_rx e (\<lambda>x. x\<lparr>RxBuffers := RxBuffers x @ q\<rparr>) t
           in if WAIT_BUFFERS t1 \<and> EpWaitingForBuffers t1 = e
              then Some (A_OK, t1\<lparr>WAIT_BUFFERS := False, EpWaitingForBuffers := ENDPOINT_MAX, recv_on := True\<rparr>)
              else Some (A_OK, t1)))"

definition HTCAddReceivePkt :: "HTC_RX_PACKET \<Rightarrow> HTC_RX_TARGET \<Rightarrow> (A_STATUS \<times> HTC_RX_TARGET) option" where
  "HTCAddReceivePkt p t = HTCAddReceivePktMultiple [p] t"

definition HTC_PACKET_RESET_RX :: "HTC_RX_PACKET \<Rightarrow> HTC_RX_PACKET" where
  "HTC_PACKET_RESET_RX p = p\<lparr>rx_off := 0, rx_Length := 0\<rparr>"

definition HTC_RECYCLE_RX_PKT :: "HTC_RX_PACKET \<Rightarrow> nat \<Rightarrow> HTC_RX_TARGET \<Rightarrow> HTC_RX_TARGET option" where
  "HTC_RECYCLE_RX_PKT p e t =
     (if NO_RECYCLE p then
        Some (t\<lparr>rx_indicated := rx_indicated t @ [(e, [(HTC_PACKET_RESET_RX p)\<lparr>rx_Status := A_ECANCELED\<rparr>])]\<rparr>)
      else map_option snd (HTCAddReceivePkt (HTC_PACKET_RESET_RX p) t))"

fun recycle_all :: "HTC_RX_PACKET list \<Rightarrow> HTC_RX_TARGET \<Rightarrow> HTC_RX_TARGET option" where
  "recycle_all [] t = Some t"
| "recycle_all (p # ps) t = do {
     t \<leftarrow> HTC_RECYCLE_RX_PKT p (rx_Endpoint p) t;
     recycle_all ps t
   }"

definition HTCControlRecv :: "HTC_RX_PACKET \<Rightarrow> HTC_RX_TARGET \<Rightarrow> HTC_RX_TARGET option" where
  "HTCControlRecv p t =
     (if rx_Status p = A_ECANCELED
      then Some (t\<lparr>ControlBufferRXFreeList := ControlBufferRXFreeList t @ [HTC_PACKET_RESET_RX p]\<rparr>)
      else HTC_RECYCLE_RX_PKT p 0 t)"

subsection \<open>Trailers\<close>

text \<open>The reports of a credit record and the lookaheads of a bundle record, as byte groups.\<close>

fun byte_pairs :: "bytes \<Rightarrow> (nat \<times> nat) list" where
  "byte_pairs (a # b # bs) = (unat a, unat b) # byte_pairs bs"
| "byte_pairs _ = []"

fun lookaheads :: "bytes \<Rightarrow> lookahead list" where
  "lookaheads (a # b # c # d # bs) = (a, b, c, d) # lookaheads bs"
| "lookaheads _ = []"

text \<open>
  One record with \<open>len\<close> bytes of data at the front of \<open>mem\<close>.  \<open>next\<close> is what the two output
  arguments for lookaheads hold, \<open>None\<close> when the caller passes null pointers.
\<close>

definition process_record :: "dist_fn \<Rightarrow> byte \<Rightarrow> nat \<Rightarrow> bytes \<Rightarrow> lookahead list option \<Rightarrow> HTC_TARGET \<Rightarrow>
    (A_STATUS \<times> lookahead list option \<times> HTC_TARGET) option" where
  "process_record D rid len mem nla t =
     (if rid = HTC_RECORD_CREDITS then do {
        rpts \<leftarrow> blk 0 (len div 2 * 2) mem;
        t \<leftarrow> HTCProcessCreditRpt D (byte_pairs rpts) t;
        Some (A_OK, nla, t)
      }
      else if rid = HTC_RECORD_LOOKAHEAD then do {
        r \<leftarrow> blk 0 6 mem;
        Some (A_OK, (if r ! 0 = NOT (r ! 5) \<and> nla \<noteq> None then Some [(r ! 1, r ! 2, r ! 3, r ! 4)] else nla), t)
      }
      else if rid = HTC_RECORD_LOOKAHEAD_BUNDLE \<and> len \<ge> 4 \<and> nla \<noteq> None then
        if len div 4 > HTC_HOST_MAX_MSG_PER_BUNDLE then Some (A_EPROTO, nla, t)
        else do {
          r \<leftarrow> blk 0 (len div 4 * 4) mem;
          Some (A_OK, Some (lookaheads r), t)
        }
      else Some (A_OK, nla, t))"

text \<open>
  \<open>mem\<close> is the buffer from the trailer on and \<open>len\<close> the bytes of the trailer left.  A record is
  checked against \<open>len\<close>, but a lookahead record is read in full whatever length it states.
\<close>

function HTCProcessTrailer :: "dist_fn \<Rightarrow> bytes \<Rightarrow> nat \<Rightarrow> lookahead list option \<Rightarrow> HTC_TARGET \<Rightarrow>
    (A_STATUS \<times> lookahead list option \<times> HTC_TARGET) option" where
  "HTCProcessTrailer D mem len nla t =
     (if len = 0 then Some (A_OK, nla, t)
      else if len < 2 then Some (A_EPROTO, nla, t)
      else case blk 0 2 mem of None \<Rightarrow> None | Some hdr \<Rightarrow>
        (let rid = hdr ! 0; n = unat (hdr ! 1) in
         if n > len - 2 then Some (A_EPROTO, nla, t)
         else case process_record D rid n (drop 2 mem) nla t of
             None \<Rightarrow> None
           | Some (st, nla, t) \<Rightarrow>
               if A_FAILED st then Some (st, nla, t)
               else HTCProcessTrailer D (drop (2 + n) mem) (len - 2 - n) nla t))"
  by pat_completeness auto
termination
  by (relation "measure (\<lambda>(D, mem, len, nla, t). len)") auto

declare HTCProcessTrailer.simps [simp del]

text \<open>
  \<open>want\<close> tells whether the caller takes lookaheads; the last component but one of the result are
  those found.
\<close>

definition HTCProcessRecvHeader :: "dist_fn \<Rightarrow> bool \<Rightarrow> HTC_RX_PACKET \<Rightarrow> HTC_TARGET \<Rightarrow>
    (A_STATUS \<times> HTC_RX_PACKET \<times> lookahead list \<times> HTC_TARGET) option" where
  "HTCProcessRecvHeader D want p t = do {
     hdr \<leftarrow> blk (rx_off p) HTC_HDR_LENGTH (rx_buf p);
     let payloadLen = le16 (hdr ! 2) (hdr ! 3);
     let lookAhead = (hdr ! 0, hdr ! 1, hdr ! 2, hdr ! 3);
     let p1 = (if REFRESH_HDR p
               then p\<lparr>ExpectedHdr := lookAhead, rx_Length := payloadLen + HTC_HDR_LENGTH\<rparr> else p);
     if REFRESH_HDR p \<and> rx_Length p1 > BufferLength p1
     then Some (A_EPROTO, p1\<lparr>rx_Length := min (rx_Length p1) (BufferLength p1)\<rparr>, [], t)
     else if REFRESH_HDR p \<and> rx_Endpoint p \<noteq> unat (hdr ! 0) then Some (A_EPROTO, p1, [], t)
     else if lookAhead \<noteq> ExpectedHdr p1 then Some (A_EPROTO, p1, [], t)
     else if hdr ! 1 AND HTC_FLAGS_RECV_TRAILER \<noteq> 0 then
       (let n = unat (hdr ! 4) in
        if n < 2 \<or> n > payloadLen then Some (A_EPROTO, p1, [], t)
        else do {
          let nla = (if want \<and> \<not> IGNORE_LOOKAHEAD p1 then Some [] else None);
          (st, nla, t) \<leftarrow> HTCProcessTrailer D
             (drop (rx_off p + HTC_HDR_LENGTH + payloadLen - n) (rx_buf p)) n nla t;
          let las = (case nla of None \<Rightarrow> [] | Some l \<Rightarrow> l);
          if A_FAILED st then Some (st, p1, las, t)
          else Some (A_OK, p1\<lparr>rx_off := rx_off p1 + HTC_HDR_LENGTH,
                 rx_Length := u32 (int (rx_Length p1) - int n - int HTC_HDR_LENGTH)\<rparr>, las, t)
        })
     else Some (A_OK, p1\<lparr>rx_off := rx_off p1 + HTC_HDR_LENGTH,
            rx_Length := u32 (int (rx_Length p1) - int HTC_HDR_LENGTH)\<rparr>, [], t)
   }"

subsection \<open>Finding buffers\<close>

text \<open>The next answer of an allocation callback.\<close>

fun next_alloc :: "HTC_RX_PACKET option list \<Rightarrow> HTC_RX_PACKET option \<times> HTC_RX_PACKET option list" where
  "next_alloc [] = (None, [])"
| "next_alloc (a # as) = (a, as)"

definition dequeue_rx :: "nat \<Rightarrow> HTC_RX_TARGET \<Rightarrow> HTC_RX_PACKET option \<times> HTC_RX_TARGET" where
  "dequeue_rx e t = (case RxBuffers (RxEp t e) of
       [] \<Rightarrow> (None, t)
     | p # ps \<Rightarrow> (Some p, upd_rx e (\<lambda>x. x\<lparr>RxBuffers := ps\<rparr>) t))"

definition call_refill :: "nat \<Rightarrow> HTC_RX_TARGET \<Rightarrow> HTC_RX_TARGET option" where
  "call_refill e t = (case EpRecvRefill (RxEp t e) of
       Some (r # rs) \<Rightarrow>
         (let t1 = upd_rx e (\<lambda>x. x\<lparr>EpRecvRefill := Some rs\<rparr>) t
          in if r = [] then Some t1 else map_option snd (HTCAddReceivePktMultiple r t1))
     | Some [] \<Rightarrow> Some t
     | None \<Rightarrow> None)"

text \<open>A buffer for a message of \<open>full\<close> bytes, and whether it may not be recycled.\<close>

definition take_buffer :: "nat \<Rightarrow> nat \<Rightarrow> HTC_RX_TARGET \<Rightarrow>
    (HTC_RX_PACKET option \<times> bool \<times> HTC_RX_TARGET) option" where
  "take_buffer e full t =
     (let ep = RxEp t e in
      case EpRecvAlloc ep of
        Some as \<Rightarrow> (let (p, as') = next_alloc as
                   in Some (p, True, upd_rx e (\<lambda>x. x\<lparr>EpRecvAlloc := Some as'\<rparr>) t))
      | None \<Rightarrow> (case (if full > RecvAllocThreshold ep then EpRecvAllocThresh ep else None) of
          Some as \<Rightarrow> (let (p, as') = next_alloc as
                     in Some (p, True, upd_rx e (\<lambda>x. x\<lparr>EpRecvAllocThresh := Some as'\<rparr>) t))
        | None \<Rightarrow> (case dequeue_rx e t of
            (Some p, t1) \<Rightarrow> Some (Some p, False, t1)
          | (None, t1) \<Rightarrow>
              if EpRecvRefill ep = None then Some (None, False, t1)
              else (case call_refill e t1 of
                  None \<Rightarrow> None
                | Some t2 \<Rightarrow> (let (p, t3) = dequeue_rx e t2 in Some (p, False, t3))))))"

text \<open>
  The loop over the messages of one lookahead \<open>la\<close>: \<open>n\<close> are left, \<open>first\<close> tells whether none was
  prepared yet.  The packets come out in the order of the queue.
\<close>

fun alloc_messages :: "nat \<Rightarrow> bool \<Rightarrow> lookahead \<Rightarrow> nat \<Rightarrow> nat \<Rightarrow> HTC_RX_TARGET \<Rightarrow>
    (A_STATUS \<times> HTC_RX_PACKET list \<times> HTC_RX_TARGET) option" where
  "alloc_messages 0 first la full e t = Some (A_OK, [], t)"
| "alloc_messages (Suc n) first la full e t = do {
     (b, noRecycle, t) \<leftarrow> take_buffer e full t;
     case b of
       None \<Rightarrow> Some (A_NO_RESOURCE, [], t\<lparr>WAIT_BUFFERS := True, EpWaitingForBuffers := e\<rparr>)
     | Some b \<Rightarrow> do {
         let p = b\<lparr>IGNORE_LOOKAHEAD := False, REFRESH_HDR := False, PART_OF_BUNDLE := False,
                   NO_RECYCLE := noRecycle, INDICATE_MORE_PKTS := False, rx_Status := A_OK\<rparr>;
         if Stopping (tx t) then Some (A_ECANCELED, [p], t)
         else if full > BufferLength p then Some (A_EPROTO, [p], t)
         else do {
           let p = (if first then p\<lparr>ExpectedHdr := la\<rparr>
                    else p\<lparr>REFRESH_HDR := True, ExpectedHdr := (-1, -1, -1, -1)\<rparr>);
           (st, ps, t) \<leftarrow> alloc_messages n False la full e t;
           Some (st, p\<lparr>rx_Length := la_length la + HTC_HDR_LENGTH\<rparr> # ps, t)
         }
       }
   }"

definition num_messages :: "lookahead \<Rightarrow> nat" where
  "num_messages la =
     (if la_flags la AND HTC_FLAGS_RECV_BUNDLE_CNT_MASK = 0 then 1
      else unat (drop_bit 4 (la_flags la AND HTC_FLAGS_RECV_BUNDLE_CNT_MASK)) + 1)"

fun alloc_packets :: "lookahead list \<Rightarrow> nat \<Rightarrow> HTC_RX_TARGET \<Rightarrow>
    (A_STATUS \<times> HTC_RX_PACKET list \<times> HTC_RX_TARGET) option" where
  "alloc_packets [] e t = Some (A_OK, [], t)"
| "alloc_packets (la # las) e t =
     (if la_endpoint la \<ge> ENDPOINT_MAX \<or> la_endpoint la \<noteq> e \<or> la_length la > HTC_MAX_PAYLOAD_LENGTH
         \<or> ep_ServiceID (EndPoint (tx t) e) = 0
      then Some (A_EPROTO, [], t)
      else do {
        let full = DEV_CALC_RECV_PADDED_LEN t (la_length la + HTC_HDR_LENGTH);
        (st, ps, t) \<leftarrow> alloc_messages (num_messages la) True la full e t;
        if A_FAILED st then Some (if st = A_NO_RESOURCE then A_OK else st, ps, t)
        else do {
          (st, qs, t) \<leftarrow> alloc_packets las e t;
          Some (st, ps @ qs, t)
        }
      })"

definition AllocAndPrepareRxPackets :: "lookahead list \<Rightarrow> nat \<Rightarrow> HTC_RX_TARGET \<Rightarrow>
    (A_STATUS \<times> HTC_RX_PACKET list \<times> HTC_RX_TARGET) option" where
  "AllocAndPrepareRxPackets las e t = do {
     (st, q, t) \<leftarrow> alloc_packets las e t;
     if A_FAILED st then do {
       t \<leftarrow> recycle_all q t;
       Some (st, [], t)
     }
     else Some (st, q, t)
   }"

subsection \<open>Fetching packets\<close>

text \<open>
  A read request takes the next answer of the device; there is none left when \<open>dev_in\<close> is empty.
  The data goes to the front of the buffer, where \<open>pBuffer\<close> points.
\<close>

definition device_read :: "HTC_RX_TARGET \<Rightarrow> A_STATUS \<times> bytes list \<times> HTC_RX_TARGET" where
  "device_read t = (case dev_in t of
       [] \<Rightarrow> (A_ERROR, [], t)
     | (st, ds) # as \<Rightarrow> (st, ds, t\<lparr>dev_in := as\<rparr>))"

definition store_data :: "nat \<Rightarrow> bytes \<Rightarrow> HTC_RX_PACKET \<Rightarrow> HTC_RX_PACKET" where
  "store_data n d p =
     (let k = min n (length d)
      in p\<lparr>rx_buf := take (rx_off p) (rx_buf p) @ take k d @ drop (rx_off p + k) (rx_buf p)\<rparr>)"

text \<open>
  \<open>HTCIssueRecv\<close>, that is \<open>DevRecvPacket\<close>.  In asynchronous mode the device's answer is the result
  of queueing the request; a request it accepts is in flight and completes later.  A completion
  that the device layer runs at once, for a packet too small, is in flight as well.
\<close>

abbreviation accepted :: "A_STATUS \<Rightarrow> bool" where
  "accepted st \<equiv> st = A_OK \<or> st = A_PENDING"

definition HTCIssueRecv :: "bool \<Rightarrow> HTC_RX_PACKET \<Rightarrow> HTC_RX_TARGET \<Rightarrow>
    A_STATUS \<times> HTC_RX_PACKET \<times> HTC_RX_TARGET" where
  "HTCIssueRecv sync p t =
     (let padded = DEV_CALC_RECV_PADDED_LEN t (rx_Length p)
      in if padded > BufferLength p
         then (if sync then (A_EINVAL, p, t)
               else (A_OK, p, t\<lparr>in_flight := in_flight t @ [ReqSingle (p\<lparr>rx_Status := A_EINVAL\<rparr>)]\<rparr>))
         else (let (st, ds, t1) = device_read t
               in if sync
                  then (st, (case ds of [] \<Rightarrow> p | d # _ \<Rightarrow> store_data padded d p)\<lparr>rx_Status := st\<rparr>, t1)
                  else (st, p, if accepted st then t1\<lparr>in_flight := in_flight t1 @ [ReqSingle p]\<rparr> else t1)))"

text \<open>
  The loop that fills a scatter request with at most \<open>n\<close> packets in \<open>space\<close> bytes: the packets
  taken, with their padded lengths, and those left.
\<close>

fun fill_recv_scatter :: "HTC_RX_TARGET \<Rightarrow> bool \<Rightarrow> nat \<Rightarrow> nat \<Rightarrow> HTC_RX_PACKET list \<Rightarrow>
    (HTC_RX_PACKET \<times> nat) list \<times> HTC_RX_PACKET list" where
  "fill_recv_scatter t partial 0 space q = ([], q)"
| "fill_recv_scatter t partial (Suc n) space [] = ([], [])"
| "fill_recv_scatter t partial (Suc n) space (p # q) =
     (let padded = DEV_CALC_RECV_PADDED_LEN t (rx_Length p)
      in if space < padded then ([], p # q)
         else (let p = (if partial \<or> n > 0 then p\<lparr>IGNORE_LOOKAHEAD := True\<rparr> else p);
                   (es, rest) = fill_recv_scatter t partial n (space - padded) q
               in ((p\<lparr>PART_OF_BUNDLE := True\<rparr>, padded) # es, rest)))"

fun store_all :: "(HTC_RX_PACKET \<times> nat) list \<Rightarrow> bytes list \<Rightarrow> HTC_RX_PACKET list" where
  "store_all ((p, n) # es) (d # ds) = store_data n d p # store_all es ds"
| "store_all es _ = map fst es"

text \<open>
  The result: status, packets for synchronous completion, packets left, number of packets
  fetched.  In asynchronous mode a request that the device accepts is in flight.
\<close>

definition HTCIssueRecvPacketBundle :: "bool \<Rightarrow> bool \<Rightarrow> HTC_RX_PACKET list \<Rightarrow> HTC_RX_TARGET \<Rightarrow>
    A_STATUS \<times> HTC_RX_PACKET list \<times> HTC_RX_PACKET list \<times> nat \<times> HTC_RX_TARGET" where
  "HTCIssueRecvPacketBundle sync partial q t =
     (let n = nat (min (int (length q)) (MaxMsgPerBundle (tx t)));
          partial = (partial \<or> length q > n)
      in if scatter_free (tx t) = 0 then (A_OK, [], q, 0, t)
         else
           let (es, rest) = fill_recv_scatter t partial n (MaxRecvBundleSize t) q;
               (st, ds, t1) = device_read t
           in if sync then (st, store_all es ds, rest, if st = A_OK then length es else 0, t1)
              else let t2 = t1\<lparr>tx := (tx t1)\<lparr>scatter_free := scatter_free (tx t1) - 1\<rparr>,
                               in_flight := in_flight t1 @
                                 (if accepted st then [ReqScatter partial (map fst es)] else [])\<rparr>;
                       st = (if st = A_PENDING then A_OK else st)
                   in (st, [], rest, if st = A_OK then length es else 0, t2))"

lemma fill_recv_scatter_length:
  "fill_recv_scatter t partial n space q = (es, rest) \<Longrightarrow> length q = length es + length rest"
  by (induction t partial n space q arbitrary: es rest rule: fill_recv_scatter.induct)
    (auto simp: Let_def split: if_splits prod.splits)

lemma HTCIssueRecvPacketBundle_length:
  "HTCIssueRecvPacketBundle sync partial q t = (st, fin, rest, n, t1) \<Longrightarrow> length rest + n \<le> length q"
  by (auto simp: HTCIssueRecvPacketBundle_def Let_def dest: fill_recv_scatter_length
      split: if_splits prod.splits)

text \<open>
  The loop that fetches all packets of \<open>q\<close>.  The result: status, packets for synchronous
  completion, packets not fetched.
\<close>

function fetch_packets :: "bool \<Rightarrow> bool \<Rightarrow> HTC_RX_PACKET list \<Rightarrow> HTC_RX_TARGET \<Rightarrow>
    A_STATUS \<times> HTC_RX_PACKET list \<times> HTC_RX_PACKET list \<times> HTC_RX_TARGET" where
  "fetch_packets sync partial q t =
     (if q = [] then (A_OK, [], [], t)
      else let bundle = RecvBundlingEnabled t \<and> length q > 1 in
        case (if bundle then HTCIssueRecvPacketBundle sync partial q t else (A_OK, [], q, 0, t)) of
          (st, fin, rest, n, t1) \<Rightarrow>
            let partial1 = (partial \<or> (bundle \<and> rest \<noteq> [])) in
            if A_FAILED st then (st, fin, rest, t1)
            else if n > 0 then
              (case fetch_packets sync partial1 rest t1 of
                 (st2, fin2, left, t2) \<Rightarrow> (st2, fin @ fin2, left, t2))
            else (case rest of
                [] \<Rightarrow> (A_OK, fin, [], t1)
              | p # ps \<Rightarrow>
                  (case HTCIssueRecv sync (if ps \<noteq> [] then p\<lparr>IGNORE_LOOKAHEAD := True\<rparr> else p) t1 of
                     (st1, p1, t2) \<Rightarrow>
                       if A_FAILED st1 then (st1, fin, ps, t2)
                       else (case fetch_packets sync partial1 ps t2 of
                           (st2, fin2, left, t3) \<Rightarrow>
                             (st2, fin @ (if sync then [p1] else []) @ fin2, left, t3)))))"
  by pat_completeness auto
termination
  by (relation "measure (\<lambda>(sync, partial, q, t). length q)")
    (auto split: if_splits dest!: HTCIssueRecvPacketBundle_length [OF sym])

declare fetch_packets.simps [simp del]

definition CheckRecvWaterMark :: "nat \<Rightarrow> HTC_RX_TARGET \<Rightarrow> HTC_RX_TARGET option" where
  "CheckRecvWaterMark e t =
     (let ep = RxEp t e
      in if RecvRefillWaterMark ep > 0 \<and> int (length (RxBuffers ep)) < RecvRefillWaterMark ep
         then call_refill e t else Some t)"

subsection \<open>Indicating packets\<close>

text \<open>\<open>las\<close> are the lookaheads found with the packet, the first is that of the next message.\<close>

definition SetRxPacketIndicationFlags :: "lookahead list \<Rightarrow> nat \<Rightarrow> HTC_RX_TARGET \<Rightarrow> HTC_RX_PACKET \<Rightarrow>
    HTC_RX_PACKET" where
  "SetRxPacketIndicationFlags las e t p = (case las of
       [] \<Rightarrow> p
     | la # _ \<Rightarrow> if la_endpoint la = rx_Endpoint p \<and> RxBuffers (RxEp t e) \<noteq> []
                then p\<lparr>INDICATE_MORE_PKTS := True\<rparr> else p)"

text \<open>
  The loop of \<open>HTCRecvMessagePendingHandler\<close> over the packets fetched synchronously.  \<open>st\<close> and
  \<open>las\<close> are the status and the lookaheads of the pass before; the result has those of the last
  pass and the packets not processed.
\<close>

fun process_sync :: "dist_fn \<Rightarrow> HTC_RX_PACKET list \<Rightarrow> A_STATUS \<Rightarrow> lookahead list \<Rightarrow> HTC_RX_TARGET \<Rightarrow>
    (A_STATUS \<times> lookahead list \<times> HTC_RX_PACKET list \<times> HTC_RX_TARGET) option" where
  "process_sync D [] st las t = Some (st, las, [], t)"
| "process_sync D (p # ps) st las t = do {
     let e = rx_Endpoint p;
     (st, p, las, x) \<leftarrow> HTCProcessRecvHeader D True p (tx t);
     let t = t\<lparr>tx := x\<rparr>;
     if A_FAILED st then Some (st, las, ps, t)
     else do {
       let p = (if ps = [] then SetRxPacketIndicationFlags las e t p
                else p\<lparr>INDICATE_MORE_PKTS := True\<rparr>);
       process_sync D ps st las (DoRecvCompletion e [p] t)
     }
   }"

subsection \<open>The message pending handler\<close>

text \<open>
  What is on hand for packets: buffers and answers of the allocation callbacks.  Every pass of
  the handler's loop uses some up, which is why the loop ends.
\<close>

definition ep_avail :: "HTC_RX_ENDPOINT \<Rightarrow> nat" where
  "ep_avail x = length (RxBuffers x)
     + (case EpRecvAlloc x of None \<Rightarrow> 0 | Some as \<Rightarrow> length as)
     + (case EpRecvAllocThresh x of None \<Rightarrow> 0 | Some as \<Rightarrow> length as)
     + (case EpRecvRefill x of None \<Rightarrow> 0 | Some rs \<Rightarrow> length (concat rs))"

definition avail :: "HTC_RX_TARGET \<Rightarrow> nat" where
  "avail t = (\<Sum>e<ENDPOINT_MAX. ep_avail (RxEp t e))"

lemma avail_upd_rx:
  assumes "e < ENDPOINT_MAX"
  shows "avail (upd_rx e f t) + ep_avail (RxEp t e) = avail t + ep_avail (f (RxEp t e))"
proof -
  have "avail (upd_rx e f t) = ep_avail (f (RxEp t e)) + (\<Sum>x\<in>{..<ENDPOINT_MAX} - {e}. ep_avail (RxEp t x))"
    using assms by (simp add: avail_def upd_rx_def sum.remove [of _ e])
  moreover have "avail t = ep_avail (RxEp t e) + (\<Sum>x\<in>{..<ENDPOINT_MAX} - {e}. ep_avail (RxEp t x))"
    using assms by (simp add: avail_def sum.remove [of _ e])
  ultimately show ?thesis by simp
qed

lemma avail_cong: "RxEp t' = RxEp t \<Longrightarrow> avail t' = avail t"
  by (simp add: avail_def)

lemma RxEp_DoRecvCompletion [simp]: "RxEp (DoRecvCompletion e q t) = RxEp t"
  by (simp add: DoRecvCompletion_def)

lemma avail_add:
  "HTCAddReceivePktMultiple q t = Some (st, t') \<Longrightarrow> avail t' \<le> avail t + length q"
proof (cases q)
  case (Cons p ps)
  assume a: "HTCAddReceivePktMultiple q t = Some (st, t')"
  let ?e = "rx_Endpoint p" and ?f = "\<lambda>x. x\<lparr>RxBuffers := RxBuffers x @ q\<rparr>"
  have e: "?e < ENDPOINT_MAX" using a Cons by (simp add: HTCAddReceivePktMultiple_def Let_def split: if_splits)
  have *: "avail (upd_rx ?e ?f t) = avail t + length q"
    using avail_upd_rx [OF e, of ?f t] by (simp add: ep_avail_def)
  have "RxEp t' = RxEp t \<or> RxEp t' = RxEp (upd_rx ?e ?f t)"
    using a e Cons by (auto simp: HTCAddReceivePktMultiple_def Let_def split: if_splits)
  then show ?thesis using * avail_cong [of t' t] avail_cong [of t' "upd_rx ?e ?f t"] by auto
qed (simp add: HTCAddReceivePktMultiple_def)

lemma avail_refill:
  assumes "call_refill e t = Some t'" "e < ENDPOINT_MAX"
  shows "avail t' \<le> avail t"
proof (cases "EpRecvRefill (RxEp t e)")
  case None
  then show ?thesis using assms by (simp add: call_refill_def)
next
  case (Some rs)
  show ?thesis
  proof (cases rs)
    case Nil
    then show ?thesis using assms Some by (simp add: call_refill_def)
  next
    case (Cons r rs')
    let ?t1 = "upd_rx e (\<lambda>x. x\<lparr>EpRecvRefill := Some rs'\<rparr>) t"
    have 1: "avail ?t1 + length r = avail t"
      using avail_upd_rx [OF assms(2), of "\<lambda>x. x\<lparr>EpRecvRefill := Some rs'\<rparr>" t] Some Cons
      by (simp add: ep_avail_def)
    show ?thesis
    proof (cases "r = []")
      case True
      then show ?thesis using assms(1) Some Cons 1 by (simp add: call_refill_def)
    next
      case False
      then obtain st where "HTCAddReceivePktMultiple r ?t1 = Some (st, t')"
        using assms(1) Some Cons by (auto simp: call_refill_def)
      from avail_add [OF this] 1 show ?thesis by simp
    qed
  qed
qed

lemma avail_dequeue:
  assumes "dequeue_rx e t = (b, t')" "e < ENDPOINT_MAX"
  shows "avail t' + (if b = None then 0 else 1) = avail t"
proof (cases "RxBuffers (RxEp t e)")
  case Nil
  then show ?thesis using assms by (auto simp: dequeue_rx_def)
next
  case (Cons p ps)
  then show ?thesis
    using assms(1) avail_upd_rx [OF assms(2), of "\<lambda>x. x\<lparr>RxBuffers := ps\<rparr>" t]
    by (auto simp: dequeue_rx_def ep_avail_def)
qed

text \<open>The four ways to find a buffer.\<close>

lemma take_buffer_cases:
  assumes "take_buffer e full t = Some (b, nr, t')"
  obtains (alloc) as where "EpRecvAlloc (RxEp t e) = Some as" "b = fst (next_alloc as)" "nr"
      "t' = upd_rx e (\<lambda>x. x\<lparr>EpRecvAlloc := Some (snd (next_alloc as))\<rparr>) t"
  | (thresh) as where "EpRecvAlloc (RxEp t e) = None" "full > RecvAllocThreshold (RxEp t e)"
      "EpRecvAllocThresh (RxEp t e) = Some as" "b = fst (next_alloc as)" "nr"
      "t' = upd_rx e (\<lambda>x. x\<lparr>EpRecvAllocThresh := Some (snd (next_alloc as))\<rparr>) t"
  | (queue) "dequeue_rx e t = (b, t')" "\<not> nr" "b \<noteq> None \<or> EpRecvRefill (RxEp t e) = None"
  | (refill) t1 t2 where "dequeue_rx e t = (None, t1)" "call_refill e t1 = Some t2"
      "dequeue_rx e t2 = (b, t')" "\<not> nr"
proof (cases "EpRecvAlloc (RxEp t e)")
  case (Some as)
  then show thesis using assms by (intro alloc) (auto simp: take_buffer_def split: prod.splits)
next
  case none: None
  show thesis
  proof (cases "if full > RecvAllocThreshold (RxEp t e) then EpRecvAllocThresh (RxEp t e) else None")
    case (Some as)
    then show thesis
      using assms none by (intro thresh) (auto simp: take_buffer_def split: prod.splits if_splits)
  next
    case None
    obtain b1 t1 where d: "dequeue_rx e t = (b1, t1)" by fastforce
    show thesis
    proof (cases "b1 \<noteq> None \<or> EpRecvRefill (RxEp t e) = None")
      case True
      then show thesis using assms none None d by (intro queue) (auto simp: take_buffer_def Let_def split: option.splits)
    next
      case False
      then obtain t2 where "call_refill e t1 = Some t2" "dequeue_rx e t2 = (b, t')" "\<not> nr"
        using assms none None d by (auto simp: take_buffer_def Let_def split: option.splits prod.splits)
      then show thesis using d False by (intro refill) auto
    qed
  qed
qed

lemma avail_take:
  assumes "take_buffer e full t = Some (b, nr, t')" "e < ENDPOINT_MAX"
  shows "avail t' + (if b = None then 0 else 1) \<le> avail t"
  using assms(1)
proof (cases rule: take_buffer_cases)
  case (alloc as)
  then show ?thesis
    using avail_upd_rx [OF assms(2), of "\<lambda>x. x\<lparr>EpRecvAlloc := Some (snd (next_alloc as))\<rparr>" t]
    by (cases as) (auto simp: ep_avail_def)
next
  case (thresh as)
  then show ?thesis
    using avail_upd_rx [OF assms(2), of "\<lambda>x. x\<lparr>EpRecvAllocThresh := Some (snd (next_alloc as))\<rparr>" t]
    by (cases as) (auto simp: ep_avail_def)
next
  case queue
  then show ?thesis using avail_dequeue [OF _ assms(2)] by fastforce
next
  case (refill t1 t2)
  from avail_dequeue [OF refill(1) assms(2)] avail_refill [OF refill(2) assms(2)]
    avail_dequeue [OF refill(3) assms(2)] show ?thesis by simp
qed

lemma avail_messages:
  "alloc_messages n first la full e t = Some (st, q, t') \<Longrightarrow> e < ENDPOINT_MAX \<Longrightarrow>
   avail t' + length q \<le> avail t"
proof (induction n arbitrary: first t st q t')
  case (Suc n)
  from Suc.prems(1) obtain b nr t1 where tb: "take_buffer e full t = Some (b, nr, t1)"
    by (auto simp: bind_eq_Some_conv)
  note 1 = avail_take [OF tb Suc.prems(2)]
  show ?case
  proof (cases b)
    case None
    then have "RxEp t' = RxEp t1" "q = []" using Suc.prems(1) tb by auto
    then show ?thesis using 1 None avail_cong [of t' t1] by simp
  next
    case (Some p)
    show ?thesis
    proof (cases "Stopping (tx t1) \<or> full > BufferLength p")
      case True
      then have "t' = t1" "length q = 1"
        using Suc.prems(1) tb Some by (auto simp: Let_def split: if_splits)
      then show ?thesis using 1 Some by simp
    next
      case False
      then obtain qs where "alloc_messages n False la full e t1 = Some (st, qs, t')" "length q = Suc (length qs)"
        using Suc.prems(1) tb Some by (auto simp: Let_def bind_eq_Some_conv)
      with Suc.IH Suc.prems(2) 1 Some show ?thesis by fastforce
    qed
  qed
qed simp

lemma avail_packets:
  "alloc_packets las e t = Some (st, q, t') \<Longrightarrow> e < ENDPOINT_MAX \<Longrightarrow> avail t' + length q \<le> avail t"
proof (induction las arbitrary: t st q t')
  case (Cons la las)
  show ?case
  proof (cases "la_endpoint la \<ge> ENDPOINT_MAX \<or> la_endpoint la \<noteq> e \<or> la_length la > HTC_MAX_PAYLOAD_LENGTH
         \<or> ep_ServiceID (EndPoint (tx t) e) = 0")
    case True
    then show ?thesis using Cons.prems by simp
  next
    case False
    then obtain st1 ps t1 where m: "alloc_messages (num_messages la) True la
        (DEV_CALC_RECV_PADDED_LEN t (la_length la + HTC_HDR_LENGTH)) e t = Some (st1, ps, t1)"
      using Cons.prems(1) by (auto simp: bind_eq_Some_conv Let_def)
    note 1 = avail_messages [OF m Cons.prems(2)]
    show ?thesis
    proof (cases "A_FAILED st1")
      case True
      then show ?thesis using Cons.prems(1) False m 1 by (auto simp: Let_def)
    next
      case f: False
      then obtain qs where "alloc_packets las e t1 = Some (st, qs, t')" "q = ps @ qs"
        using Cons.prems(1) False m by (auto simp: Let_def bind_eq_Some_conv)
      with Cons.IH Cons.prems(2) 1 show ?thesis by fastforce
    qed
  qed
qed simp

lemma avail_alloc:
  "AllocAndPrepareRxPackets las e t = Some (A_OK, q, t') \<Longrightarrow> e < ENDPOINT_MAX \<Longrightarrow>
   avail t' + length q \<le> avail t"
  by (auto simp: AllocAndPrepareRxPackets_def bind_eq_Some_conv split: if_splits dest: avail_packets)

lemma avail_watermark: "CheckRecvWaterMark e t = Some t' \<Longrightarrow> e < ENDPOINT_MAX \<Longrightarrow> avail t' \<le> avail t"
  by (auto simp: CheckRecvWaterMark_def Let_def split: if_splits dest: avail_refill)

lemma RxEp_device: "device_read t = (st, ds, t') \<Longrightarrow> RxEp t' = RxEp t"
  by (auto simp: device_read_def split: list.splits)

lemma RxEp_bundle: "HTCIssueRecvPacketBundle sync partial q t = (st, fin, rest, n, t') \<Longrightarrow> RxEp t' = RxEp t"
  by (auto simp: HTCIssueRecvPacketBundle_def Let_def split: if_splits prod.splits dest: RxEp_device)

lemma RxEp_issue: "HTCIssueRecv sync p t = (st, p', t') \<Longrightarrow> RxEp t' = RxEp t"
  by (auto simp: HTCIssueRecv_def Let_def split: if_splits prod.splits dest: RxEp_device)

lemma fill_none: "fill_recv_scatter t partial n space q = ([], rest) \<Longrightarrow> rest = q"
  by (induction t partial n space q rule: fill_recv_scatter.induct)
    (auto simp: Let_def split: if_splits prod.splits)

text \<open>The five ways a pass of the fetching loop ends.\<close>

lemma HTCIssueRecvPacketBundle_none:
  "HTCIssueRecvPacketBundle sync partial q t = (A_OK, fin, rest, 0, t1) \<Longrightarrow> rest = q \<and> fin = []"
  by (auto simp: HTCIssueRecvPacketBundle_def Let_def dest: fill_none split: if_splits prod.splits)

lemma fetch_packets_cases:
  assumes "fetch_packets sync partial q t = (st, fin, left, t')"
  obtains (empty) "q = []" "st = A_OK" "fin = []" "left = []" "t' = t"
  | (bundle_failed) n where "HTCIssueRecvPacketBundle sync partial q t = (st, fin, left, n, t')"
      "A_FAILED st" "RecvBundlingEnabled t" "1 < length q"
  | (bundled) fin1 rest n t1 fin2 where "HTCIssueRecvPacketBundle sync partial q t = (A_OK, fin1, rest, n, t1)"
      "0 < n" "RecvBundlingEnabled t" "1 < length q"
      "fetch_packets sync (partial \<or> rest \<noteq> []) rest t1 = (st, fin2, left, t')" "fin = fin1 @ fin2"
  | (single_failed) p ps t1 p1 where "q = p # ps" "fin = []" "left = ps" "A_FAILED st"
      "t1 = t \<or> (RecvBundlingEnabled t \<and> 1 < length q \<and>
         HTCIssueRecvPacketBundle sync partial q t = (A_OK, [], q, 0, t1))"
      "HTCIssueRecv sync (if ps \<noteq> [] then p\<lparr>IGNORE_LOOKAHEAD := True\<rparr> else p) t1 = (st, p1, t')"
  | (single) p ps t1 p1 t2 partial1 fin2 where "q = p # ps" "fin = (if sync then [p1] else []) @ fin2"
      "t1 = t \<or> (RecvBundlingEnabled t \<and> 1 < length q \<and>
         HTCIssueRecvPacketBundle sync partial q t = (A_OK, [], q, 0, t1))"
      "HTCIssueRecv sync (if ps \<noteq> [] then p\<lparr>IGNORE_LOOKAHEAD := True\<rparr> else p) t1 = (A_OK, p1, t2)"
      "fetch_packets sync partial1 ps t2 = (st, fin2, left, t')"
proof (cases "q = []")
  case True
  then show thesis using assms empty by (simp add: fetch_packets.simps)
next
  case q: False
  note eq = assms [unfolded fetch_packets.simps [of sync partial q t] Let_def]
  define bnd where "bnd \<longleftrightarrow> RecvBundlingEnabled t \<and> length q > 1"
  obtain st1 fin1 rest n t1 where b: "(if bnd then HTCIssueRecvPacketBundle sync partial q t
      else (A_OK, [], q, 0, t)) = (st1, fin1, rest, n, t1)"
    by (metis prod_cases5)
  note eq = eq [folded bnd_def, unfolded b, simplified q]
  show thesis
  proof (cases "A_FAILED st1 \<or> 0 < n")
    case True
    then have "bnd" using b by (auto split: if_splits)
    then show thesis
      using True eq b bnd_def q
      by (cases "A_FAILED st1") (auto split: prod.splits intro: bundle_failed bundled)
  next
    case False
    then have rest: "rest = q" "fin1 = []" "t1 = t \<or> (RecvBundlingEnabled t \<and> 1 < length q \<and>
         HTCIssueRecvPacketBundle sync partial q t = (A_OK, [], q, 0, t1))"
      using b HTCIssueRecvPacketBundle_none [of sync partial q t fin1 rest t1]
      by (auto simp: bnd_def split: if_splits)
    obtain p ps where ps: "q = p # ps" using q by (cases q) auto
    obtain sti p1 t2 where i: "HTCIssueRecv sync (if ps \<noteq> [] then p\<lparr>IGNORE_LOOKAHEAD := True\<rparr> else p) t1 = (sti, p1, t2)"
      by (metis prod_cases3)
    show thesis
    proof (cases "A_FAILED sti")
      case True
      then show thesis
        using eq False rest ps i by (intro single_failed [OF ps]) auto
    next
      case ok: False
      obtain st2 fin2 left2 t3 where f: "fetch_packets sync (partial \<or> bnd \<and> rest \<noteq> []) ps t2 = (st2, fin2, left2, t3)"
        by (metis prod_cases4)
      then have "st2 = st" "left2 = left" "t3 = t'" "fin = (if sync then [p1] else []) @ fin2"
        using eq False rest ps i ok by auto
      with f i ok rest(3) show thesis by (intro single [OF ps _ rest(3)]) auto
    qed
  qed
qed

lemma RxEp_fetch: "fetch_packets sync partial q t = (st, fin, left, t') \<Longrightarrow> RxEp t' = RxEp t"
proof (induction "length q" arbitrary: sync partial q t st fin left t' rule: less_induct)
  case less
  from less.prems show ?case
  proof (cases rule: fetch_packets_cases)
    case (bundled fin1 rest n t1 fin2)
    have "length rest < length q" using HTCIssueRecvPacketBundle_length [OF bundled(1)] bundled(2) by simp
    from less.hyps [OF this bundled(5)] RxEp_bundle [OF bundled(1)] show ?thesis by simp
  next
    case (single p ps t1 p1 t2 partial1 fin2)
    have "length ps < length q" using single(1) by simp
    from less.hyps [OF this single(5)] single(3) RxEp_issue [OF single(4)] show ?thesis
      by (auto dest: RxEp_bundle)
  next
    case (single_failed p ps t1 p1)
    from RxEp_issue [OF single_failed(6)] single_failed(5) show ?thesis
      by (auto dest: RxEp_bundle)
  qed (auto dest: RxEp_bundle)
qed

lemma RxEp_sync: "process_sync D q st las t = Some (st', las', rest, t') \<Longrightarrow> RxEp t' = RxEp t"
proof (induction q arbitrary: st las t)
  case (Cons p ps)
  obtain st1 p1 las1 x where h: "HTCProcessRecvHeader D True p (tx t) = Some (st1, p1, las1, x)"
    using Cons.prems by (auto simp: Let_def bind_eq_Some_conv)
  show ?case
  proof (cases "A_FAILED st1")
    case True
    then show ?thesis using Cons.prems h by (auto simp: Let_def)
  next
    case False
    then show ?thesis using Cons.prems h Cons.IH by (fastforce simp: Let_def)
  qed
qed simp

text \<open>
  The loop of the handler.  The result: status, packets allocated but not fetched, packets
  fetched but not processed, total number of packets allocated.  A synchronous pass goes on to
  process the packets at hand even after a fetch that failed.
\<close>

function recv_loop :: "dist_fn \<Rightarrow> lookahead list \<Rightarrow> nat \<Rightarrow> HTC_RX_TARGET \<Rightarrow>
    (A_STATUS \<times> HTC_RX_PACKET list \<times> HTC_RX_PACKET list \<times> nat \<times> HTC_RX_TARGET) option" where
  "recv_loop D las got t =
     (if length las > HTC_HOST_MAX_MSG_PER_BUNDLE then Some (A_EPROTO, [], [], got, t)
      else if las = [] then None
      else let e = la_endpoint (hd las) in
        if e \<ge> ENDPOINT_MAX then Some (A_EPROTO, [], [], got, t)
        else case AllocAndPrepareRxPackets las e t of None \<Rightarrow> None | Some (st, q, t1) \<Rightarrow>
          if A_FAILED st then Some (st, q, [], got, t1)
          else case fetch_packets (\<not> ASYNC_ALLOWED t) False q t1 of (st, fin, left, t2) \<Rightarrow>
            (case (if A_FAILED st then Some t2 else CheckRecvWaterMark e t2) of None \<Rightarrow> None
             | Some t3 \<Rightarrow>
                 if ASYNC_ALLOWED t then Some (st, left, [], got + length q, t3)
                 else
                   let t4 = (if DSRCanYield t3
                             then t3\<lparr>CurrentDSRRecvCount := CurrentDSRRecvCount t3 + 1\<rparr> else t3)
                   in (case process_sync D fin st [] t4 of None \<Rightarrow> None
                       | Some (st, las1, rest, t5) \<Rightarrow>
                           if A_FAILED st \<or> las1 = [] \<or>
                              (DSRCanYield t5 \<and> CurrentDSRRecvCount t5 \<ge> RecvPacketYieldCount t5)
                           then Some (st, left, rest, got + length q, t5)
                           else recv_loop D las1 (got + length q) t5)))"
  by pat_completeness auto

lemma recv_loop_uses_up:
  assumes "AllocAndPrepareRxPackets las e t = Some (A_OK, q, t1)" "e < ENDPOINT_MAX"
    and "fetch_packets sync False q t1 = (st, fin, left, t2)"
    and "(if A_FAILED st then Some t2 else CheckRecvWaterMark e t2) = Some t3"
    and "process_sync D fin st [] (if c then t3\<lparr>CurrentDSRRecvCount := n\<rparr> else t3) = Some (st2, las1, rest, t5)"
    and "las1 \<noteq> []"
  shows "avail t5 < avail t"
proof -
  have "fin \<noteq> []" using assms(5,6) by auto
  then have "q \<noteq> []" using assms(3) by (auto simp: fetch_packets.simps)
  moreover have "avail t1 + length q \<le> avail t" by (rule avail_alloc [OF assms(1,2)])
  moreover have "avail t2 = avail t1" by (rule avail_cong [OF RxEp_fetch [OF assms(3)]])
  moreover have "avail t3 \<le> avail t2"
    using assms(2,4) by (auto split: if_splits dest: avail_watermark)
  moreover have "avail t5 = avail t3"
    by (rule avail_cong) (use RxEp_sync [OF assms(5)] in simp)
  ultimately show ?thesis by (cases q) auto
qed

termination recv_loop
  by (relation "measure (\<lambda>(D, las, got, t). avail t)")
    (auto split: if_splits dest!: sym [of "(_, _)" "fetch_packets _ _ _ _"] dest: recv_loop_uses_up)

declare recv_loop.simps [simp del]

definition HTCRecvMessagePendingHandler :: "dist_fn \<Rightarrow> lookahead list \<Rightarrow> HTC_RX_TARGET \<Rightarrow>
    (A_STATUS \<times> nat \<times> HTC_RX_TARGET) option" where
  "HTCRecvMessagePendingHandler D las t =
     (if length las > HTC_HOST_MAX_MSG_PER_BUNDLE then Some (A_EPROTO, 0, t)
      else do {
        (st, left, rest, n, t) \<leftarrow> recv_loop D las 0 t;
        t \<leftarrow> (if A_FAILED st then do {
               t \<leftarrow> recycle_all left t;
               t \<leftarrow> recycle_all rest t;
               Some (if Stopping (tx t) then t\<lparr>recv_on := False\<rparr> else t)
             } else Some t);
        Some (st, n, if WAIT_BUFFERS t then t\<lparr>recv_on := False\<rparr> else t)
      })"

subsection \<open>Asynchronous completion\<close>

text \<open>
  What \<open>HTCAsyncRecvCheckMorePackets\<close> asks of the device besides fetching announced messages,
  the acknowledgement of the interrupt or a new check for messages, does not touch HTC's state.
\<close>

definition HTCAsyncRecvCheckMorePackets :: "dist_fn \<Rightarrow> lookahead list \<Rightarrow> HTC_RX_TARGET \<Rightarrow>
    HTC_RX_TARGET option" where
  "HTCAsyncRecvCheckMorePackets D las t =
     (if las = [] then Some t
      else map_option (snd \<circ> snd) (HTCRecvMessagePendingHandler D las t))"

text \<open>
  The handlers that complete packets run to the end of the queue; the owner's callbacks put no
  packet on it.
\<close>

definition DrainRecvIndicationQueue :: "nat \<Rightarrow> HTC_RX_TARGET \<Rightarrow> HTC_RX_TARGET" where
  "DrainRecvIndicationQueue e t =
     (if RxProcessCount (RxEp t e) + 1 > 1 then t
      else upd_rx e (\<lambda>x. x\<lparr>RxProcessCount := 0\<rparr>)
             (DoRecvCompletion e (RecvIndicationQueue (RxEp t e))
               (upd_rx e (\<lambda>x. x\<lparr>RecvIndicationQueue := []\<rparr>) t)))"

definition enqueue_indication :: "nat \<Rightarrow> HTC_RX_PACKET list \<Rightarrow> HTC_RX_TARGET \<Rightarrow> HTC_RX_TARGET" where
  "enqueue_indication e q t = upd_rx e (\<lambda>x. x\<lparr>RecvIndicationQueue := RecvIndicationQueue x @ q\<rparr>) t"

definition HTCRecvCompleteHandler :: "dist_fn \<Rightarrow> HTC_RX_PACKET \<Rightarrow> HTC_RX_TARGET \<Rightarrow>
    HTC_RX_TARGET option" where
  "HTCRecvCompleteHandler D p t =
     (let e = rx_Endpoint p in
      if e \<ge> ENDPOINT_MAX then None
      else if A_FAILED (rx_Status p) then HTC_RECYCLE_RX_PKT p e t
      else do {
        (st, p, las, x) \<leftarrow> HTCProcessRecvHeader D True p (tx t);
        let t = t\<lparr>tx := x\<rparr>;
        if A_FAILED st then HTC_RECYCLE_RX_PKT p e t
        else do {
          t \<leftarrow> HTCAsyncRecvCheckMorePackets D las
                 (enqueue_indication e [SetRxPacketIndicationFlags las e t p] t);
          Some (DrainRecvIndicationQueue e t)
        }
      })"

text \<open>
  One pass over the entries of a scatter request: the packets that are good, the lookaheads of
  the last entry, and whether an entry failed.
\<close>

fun scatter_entries :: "dist_fn \<Rightarrow> nat \<Rightarrow> A_STATUS \<Rightarrow> HTC_RX_PACKET list \<Rightarrow> HTC_RX_TARGET \<Rightarrow>
    (HTC_RX_PACKET list \<times> lookahead list \<times> bool \<times> HTC_RX_TARGET) option" where
  "scatter_entries D e cst [] t = Some ([], [], False, t)"
| "scatter_entries D e cst (p # ps) t = do {
     (st, p, las, x) \<leftarrow> (if A_FAILED cst then Some (A_ERROR, p, [], tx t)
                        else HTCProcessRecvHeader D True p (tx t));
     let t = t\<lparr>tx := x\<rparr>;
     if A_FAILED st then do {
       t \<leftarrow> HTC_RECYCLE_RX_PKT p e t;
       (good, las', bad, t) \<leftarrow> scatter_entries D e cst ps t;
       Some (good, if ps = [] then las else las', True, t)
     }
     else do {
       let p = (if ps = [] then SetRxPacketIndicationFlags las e t p else p\<lparr>INDICATE_MORE_PKTS := True\<rparr>);
       (good, las', bad, t) \<leftarrow> scatter_entries D e cst ps t;
       Some (p # good, if ps = [] then las else las', bad, t)
     }
   }"

definition HTCAsyncRecvScatterCompletion :: "dist_fn \<Rightarrow> A_STATUS \<Rightarrow> HTC_RX_PACKET list \<Rightarrow>
    HTC_RX_TARGET \<Rightarrow> HTC_RX_TARGET option" where
  "HTCAsyncRecvScatterCompletion D CompletionStatus q t = (case q of
       [] \<Rightarrow> None
     | p # _ \<Rightarrow> (let e = rx_Endpoint p in
         if e \<ge> ENDPOINT_MAX then None
         else do {
           (good, las, procError, t) \<leftarrow> scatter_entries D e CompletionStatus q t;
           let t = t\<lparr>tx := (tx t)\<lparr>scatter_free := scatter_free (tx t) + 1\<rparr>\<rparr>;
           let t = enqueue_indication e good t;
           t \<leftarrow> (if procError then Some t else HTCAsyncRecvCheckMorePackets D las t);
           Some (DrainRecvIndicationQueue e t)
         }))"

subsection \<open>Control messages, flushing, switches\<close>

definition HTC_FREE_CONTROL_RX :: "HTC_RX_PACKET \<Rightarrow> HTC_RX_TARGET \<Rightarrow> HTC_RX_TARGET" where
  "HTC_FREE_CONTROL_RX p t =
     t\<lparr>ControlBufferRXFreeList := ControlBufferRXFreeList t @ [HTC_PACKET_RESET_RX p]\<rparr>"

text \<open>
  \<open>poll\<close> is the answer of \<open>DevPollMboxMsgRecv\<close>.  The result: status, the control packet for the
  caller, the state.
\<close>

definition HTCWaitforControlMessage :: "dist_fn \<Rightarrow> A_STATUS \<times> lookahead \<Rightarrow> HTC_RX_TARGET \<Rightarrow>
    (A_STATUS \<times> HTC_RX_PACKET option \<times> HTC_RX_TARGET) option" where
  "HTCWaitforControlMessage D poll t =
     (let (st, lookAhead) = poll in
      if A_FAILED st then Some (st, None, t)
      else if la_endpoint lookAhead \<noteq> 0 then Some (A_EPROTO, None, t)
      else (case ControlBufferRXFreeList t of
          [] \<Rightarrow> Some (A_NO_MEMORY, None, t)
        | p # ps \<Rightarrow>
            let t = t\<lparr>ControlBufferRXFreeList := ps\<rparr>;
                p = p\<lparr>IGNORE_LOOKAHEAD := False, REFRESH_HDR := False, PART_OF_BUNDLE := False,
                      NO_RECYCLE := False, ExpectedHdr := lookAhead,
                      rx_Length := la_length lookAhead + HTC_HDR_LENGTH\<rparr>
            in if rx_Length p > BufferLength p then Some (A_EPROTO, None, HTC_FREE_CONTROL_RX p t)
               else (case HTCIssueRecv True p t of (st, p, t) \<Rightarrow>
                 if A_FAILED st then Some (st, None, HTC_FREE_CONTROL_RX p t)
                 else do {
                   (st, p, las, x) \<leftarrow> HTCProcessRecvHeader D False p (tx t);
                   let p = p\<lparr>rx_Status := st\<rparr>;
                   let t = t\<lparr>tx := x\<rparr>;
                   Some (if A_FAILED st then (st, None, HTC_FREE_CONTROL_RX p t) else (st, Some p, t))
                 })))"

definition flush_packet :: "nat \<Rightarrow> HTC_RX_PACKET \<Rightarrow> HTC_RX_TARGET \<Rightarrow> HTC_RX_TARGET" where
  "flush_packet e p t = DoRecvCompletion e [p\<lparr>rx_Status := A_ECANCELED, rx_Length := 0\<rparr>] t"

definition HTCFlushEndpointRX :: "nat \<Rightarrow> HTC_RX_TARGET \<Rightarrow> HTC_RX_TARGET" where
  "HTCFlushEndpointRX e t =
     (let q1 = RecvIndicationQueue (RxEp t e);
          t1 = fold (flush_packet e) q1 (upd_rx e (\<lambda>x. x\<lparr>RecvIndicationQueue := []\<rparr>) t);
          q2 = RxBuffers (RxEp t1 e)
      in fold (flush_packet e) q2 (upd_rx e (\<lambda>x. x\<lparr>RxBuffers := []\<rparr>) t1))"

definition HTCFlushRecvBuffers :: "HTC_RX_TARGET \<Rightarrow> HTC_RX_TARGET" where
  "HTCFlushRecvBuffers t =
     fold (\<lambda>e t. if ep_ServiceID (EndPoint (tx t) e) = 0 then t else HTCFlushEndpointRX e t)
       [0..<ENDPOINT_MAX] t"

definition HTCUnblockRecv :: "HTC_RX_TARGET \<Rightarrow> HTC_RX_TARGET" where
  "HTCUnblockRecv t =
     (if WAIT_BUFFERS t
      then (let t = t\<lparr>WAIT_BUFFERS := False, EpWaitingForBuffers := ENDPOINT_MAX\<rparr>
            in if Stopping (tx t) then t else t\<lparr>recv_on := True\<rparr>)
      else t)"

definition HTCEnableRecv :: "HTC_RX_TARGET \<Rightarrow> HTC_RX_TARGET" where
  "HTCEnableRecv t = (if Stopping (tx t) then t else t\<lparr>recv_on := True\<rparr>)"

definition HTCDisableRecv :: "HTC_RX_TARGET \<Rightarrow> HTC_RX_TARGET" where
  "HTCDisableRecv t = (if Stopping (tx t) then t else t\<lparr>recv_on := False\<rparr>)"

definition HTCGetNumRecvBuffers :: "nat \<Rightarrow> HTC_RX_TARGET \<Rightarrow> nat option" where
  "HTCGetNumRecvBuffers e t = (if e \<ge> ENDPOINT_MAX then None else Some (length (RxBuffers (RxEp t e))))"

end
