(* ===== verification/HtcRecvProps.thy ===== *)
theory HtcRecvProps
  imports HtcRecv "HOL-Library.Multiset"
begin

text \<open>
  Properties of the receive side: trailers are unpacked as the records they are made of, prepared
  packets fit their buffers, no packet is ever in two hands, messages arrive whole and in order,
  and the receiver is stopped and restarted with the buffers.
\<close>

subsection \<open>Trailers as sequences of records\<close>

datatype htc_record =
    CreditRecord "(byte \<times> byte) list"
  | LookaheadRecord byte lookahead
  | BundleRecord "lookahead list"
  | OtherRecord byte bytes

fun la_bytes :: "lookahead \<Rightarrow> bytes" where "la_bytes (a, b, c, d) = [a, b, c, d]"

fun record_body :: "htc_record \<Rightarrow> bytes" where
  "record_body (CreditRecord rs) = concat (map (\<lambda>(e, c). [e, c]) rs)"
| "record_body (LookaheadRecord g la) = g # la_bytes la @ [NOT g]"
| "record_body (BundleRecord las) = concat (map la_bytes las)"
| "record_body (OtherRecord i bs) = bs"

fun record_id :: "htc_record \<Rightarrow> byte" where
  "record_id (CreditRecord rs) = HTC_RECORD_CREDITS"
| "record_id (LookaheadRecord g la) = HTC_RECORD_LOOKAHEAD"
| "record_id (BundleRecord las) = HTC_RECORD_LOOKAHEAD_BUNDLE"
| "record_id (OtherRecord i bs) = i"

definition encode_record :: "htc_record \<Rightarrow> bytes" where
  "encode_record r = record_id r # word_of_nat (length (record_body r)) # record_body r"

definition encode_trailer :: "htc_record list \<Rightarrow> bytes" where
  "encode_trailer rs = concat (map encode_record rs)"

fun record_ok :: "htc_record \<Rightarrow> bool" where
  "record_ok (CreditRecord rs) \<longleftrightarrow> length rs < 128"
| "record_ok (LookaheadRecord g la) \<longleftrightarrow> True"
| "record_ok (BundleRecord las) \<longleftrightarrow> las \<noteq> [] \<and> length las \<le> HTC_HOST_MAX_MSG_PER_BUNDLE"
| "record_ok (OtherRecord i bs) \<longleftrightarrow> i \<notin> {HTC_RECORD_CREDITS, HTC_RECORD_LOOKAHEAD, HTC_RECORD_LOOKAHEAD_BUNDLE} \<and>
     length bs < 256"

text \<open>The meaning of a record: credits for the transmit side, the lookaheads of the next messages.\<close>

fun record_credits :: "dist_fn \<Rightarrow> htc_record \<Rightarrow> HTC_TARGET \<Rightarrow> HTC_TARGET option" where
  "record_credits D (CreditRecord rs) t = HTCProcessCreditRpt D (map (\<lambda>(e, c). (unat e, unat c)) rs) t"
| "record_credits D r t = Some t"

fun record_next :: "htc_record \<Rightarrow> lookahead list option \<Rightarrow> lookahead list option" where
  "record_next (LookaheadRecord g la) nla = (if nla = None then None else Some [la])"
| "record_next (BundleRecord las) nla = (if nla = None then None else Some las)"
| "record_next r nla = nla"

fun trailer_effect :: "dist_fn \<Rightarrow> htc_record list \<Rightarrow> lookahead list option \<Rightarrow> HTC_TARGET \<Rightarrow>
    (A_STATUS \<times> lookahead list option \<times> HTC_TARGET) option" where
  "trailer_effect D [] nla t = Some (A_OK, nla, t)"
| "trailer_effect D (r # rs) nla t = do {
     t \<leftarrow> record_credits D r t;
     trailer_effect D rs (record_next r nla) t
   }"

lemma byte_pairs_concat: "byte_pairs (concat (map (\<lambda>(e, c). [e, c]) rs)) = map (\<lambda>(e, c). (unat e, unat c)) rs"
  by (induction rs) auto

lemma lookaheads_concat: "lookaheads (concat (map la_bytes las)) = las"
  by (induction las) auto

lemma length_pairs: "length (concat (map (\<lambda>(e, c). [e, c]) rs)) = 2 * length rs"
  by (induction rs) auto

lemma length_la_bytes [simp]: "length (la_bytes la) = 4"
  by (cases la) simp

lemma length_las: "length (concat (map la_bytes las)) = 4 * length las"
  by (induction las) auto

lemma record_body_length: "record_ok r \<Longrightarrow> length (record_body r) < 256"
  by (cases r) (auto simp: length_pairs length_las)

lemma rec_front [simp]: "blk 0 (length xs) (xs @ ys) = Some xs"
  by (simp add: blk_def)

lemma rec_front': "length xs = n \<Longrightarrow> blk 0 n (xs @ ys) = Some xs"
  by auto

lemma process_record_body:
  assumes "record_ok r"
  shows "process_record D (record_id r) (length (record_body r)) (record_body r @ rest) nla t =
    map_option (\<lambda>t'. (A_OK, record_next r nla, t')) (record_credits D r t)"
proof (cases r)
  case (CreditRecord rs)
  have "blk 0 (2 * length rs) (record_body r @ rest) = Some (record_body r)"
    using CreditRecord by (intro rec_front') (simp add: length_pairs)
  then show ?thesis using CreditRecord
    by (cases "HTCProcessCreditRpt D (map (\<lambda>(e, c). (unat e, unat c)) rs) t")
      (simp_all add: process_record_def length_pairs byte_pairs_concat)
next
  case (LookaheadRecord g la)
  have "blk 0 6 (record_body r @ rest) = Some (record_body r)"
    using LookaheadRecord by (intro rec_front') simp
  then show ?thesis using LookaheadRecord
    by (cases la) (simp add: process_record_def nth_append)
next
  case (BundleRecord las)
  have b: "blk 0 (4 * length las) (record_body r @ rest) = Some (record_body r)"
    using BundleRecord by (intro rec_front') (simp add: length_las)
  have "1 \<le> length las" using assms BundleRecord by (cases las) simp_all
  then show ?thesis using BundleRecord assms b
    by (simp add: process_record_def length_las lookaheads_concat)
next
  case (OtherRecord i bs)
  then show ?thesis using assms by (simp add: process_record_def)
qed

lemma trailer_step:
  assumes "record_ok r" "length (encode_record r) \<le> len"
  shows "HTCProcessTrailer D (encode_record r @ rest) len nla t =
    (case record_credits D r t of None \<Rightarrow> None
     | Some t' \<Rightarrow> HTCProcessTrailer D rest (len - length (encode_record r)) (record_next r nla) t')"
proof -
  let ?n = "length (record_body r)"
  have n: "unat (word_of_nat ?n :: byte) = ?n"
    using record_body_length [OF assms(1)] by (simp add: unat_of_nat take_bit_nat_def)
  have len: "2 \<le> len" "?n \<le> len - 2" using assms(2) by (auto simp: encode_record_def)
  have "blk 0 2 (encode_record r @ rest) = Some [record_id r, word_of_nat ?n]"
    by (simp add: encode_record_def blk_def)
  with n len show ?thesis
    by (subst HTCProcessTrailer.simps)
      (auto simp: encode_record_def process_record_body [OF assms(1)] split: option.splits)
qed

lemma trailer_records:
  assumes "\<forall>r \<in> set rs. record_ok r"
  shows "HTCProcessTrailer D (encode_trailer rs @ rest) (length (encode_trailer rs) + n) nla t =
    (case trailer_effect D rs nla t of None \<Rightarrow> None
     | Some (st, nla', t') \<Rightarrow> HTCProcessTrailer D rest n nla' t')"
  using assms
proof (induction rs arbitrary: nla t)
  case Nil
  then show ?case by (simp add: encode_trailer_def)
next
  case (Cons r rs)
  then show ?case
    using trailer_step [of r "length (encode_trailer (r # rs)) + n" D "encode_trailer rs @ rest" nla t]
    by (auto simp: encode_trailer_def split: option.splits)
qed

lemma trailer_effect_ok: "trailer_effect D rs nla t = Some (st, nla', t') \<Longrightarrow> st = A_OK"
  by (induction rs arbitrary: nla t) (auto simp: bind_eq_Some_conv)

lemma trailer_roundtrip:
  assumes "\<forall>r \<in> set rs. record_ok r"
  shows "HTCProcessTrailer D (encode_trailer rs @ rest) (length (encode_trailer rs)) nla t =
    trailer_effect D rs nla t"
  using trailer_records [OF assms, of D rest 0 nla t] trailer_effect_ok [of D rs nla t]
  by (auto simp: HTCProcessTrailer.simps [of D rest 0] split: option.splits)

text \<open>C17: Unpacking a trailer is the inverse of writing it: a trailer made of well-formed records is
  processed as exactly those records in order, the credits go to the transmit side, the lookaheads of
  the last record that has some are left for the caller, records of other kinds are skipped, and no
  byte beyond the trailer is used.\<close>

theorem htc_trailer_roundtrip:
  assumes "\<forall>r \<in> set rs. record_ok r"
  shows "HTCProcessTrailer D (encode_trailer rs @ rest) (length (encode_trailer rs)) nla t =
    trailer_effect D rs nla t"
  by (rule trailer_roundtrip [OF assms])

text \<open>A lookahead record that states fewer than its six bytes at the end of the buffer is read in
  full all the same, beyond the bytes received: only a debug assertion compares its length.\<close>

theorem htc_short_lookahead_overreads:
  assumes "\<forall>r \<in> set rs. record_ok r" and "trailer_effect D rs nla t \<noteq> None" and "length body < 6"
  shows "HTCProcessTrailer D (encode_trailer rs @ HTC_RECORD_LOOKAHEAD # word_of_nat (length body) # body)
    (length (encode_trailer rs) + (2 + length body)) nla t = None"
proof -
  obtain st nla' t' where e: "trailer_effect D rs nla t = Some (st, nla', t')"
    using assms(2) by (metis not_None_eq prod_cases3)
  have n: "unat (word_of_nat (length body) :: byte) = length body"
    using assms(3) by (simp add: unat_of_nat take_bit_nat_def)
  have "HTCProcessTrailer D (HTC_RECORD_LOOKAHEAD # word_of_nat (length body) # body) (2 + length body) nla' t' = None"
    using assms(3) n by (subst HTCProcessTrailer.simps) (simp add: blk_def process_record_def)
  then show ?thesis
    using trailer_records [OF assms(1), of D "HTC_RECORD_LOOKAHEAD # word_of_nat (length body) # body"
        "2 + length body" nla t] e by simp
qed

subsection \<open>Prepared packets fit\<close>

lemma tx_DoRecvCompletion [simp]: "tx (DoRecvCompletion e q t) = tx t"
  by (simp add: DoRecvCompletion_def)

lemma tx_upd_rx [simp]: "tx (upd_rx e f t) = tx t"
  by (simp add: upd_rx_def)

lemma tx_add: "HTCAddReceivePktMultiple q t = Some (st, t') \<Longrightarrow> tx t' = tx t"
  by (auto simp: HTCAddReceivePktMultiple_def Let_def split: list.splits if_splits)

lemma tx_refill: "call_refill e t = Some t' \<Longrightarrow> tx t' = tx t"
  by (auto simp: call_refill_def Let_def split: option.splits list.splits if_splits dest: tx_add)

lemma tx_dequeue: "dequeue_rx e t = (b, t') \<Longrightarrow> tx t' = tx t"
  by (auto simp: dequeue_rx_def split: list.splits)

lemma tx_take: "take_buffer e full t = Some (b, nr, t') \<Longrightarrow> tx t' = tx t"
  by (erule take_buffer_cases) (auto dest!: tx_refill tx_dequeue)

text \<open>What a packet must be for a message announced by \<open>la\<close> whose padded length is \<open>full\<close>.\<close>

definition prepared :: "lookahead \<Rightarrow> nat \<Rightarrow> HTC_RX_PACKET \<Rightarrow> bool" where
  "prepared la full p \<longleftrightarrow> full \<le> BufferLength p \<and> rx_Length p = la_length la + HTC_HDR_LENGTH \<and>
     rx_Status p = A_OK \<and> \<not> IGNORE_LOOKAHEAD p \<and> (\<not> REFRESH_HDR p \<longrightarrow> ExpectedHdr p = la)"

text \<open>One pass of the loop over the messages, taken apart.\<close>

lemma alloc_messages_Suc:
  assumes "alloc_messages (Suc n) first la full e t = Some (st, q, t')"
  obtains (empty) nr t1 where "take_buffer e full t = Some (None, nr, t1)" "st = A_NO_RESOURCE" "q = []"
      "t' = t1\<lparr>WAIT_BUFFERS := True, EpWaitingForBuffers := e\<rparr>"
  | (refused) b nr p where "take_buffer e full t = Some (Some b, nr, t')" "A_FAILED st" "st \<noteq> A_NO_RESOURCE"
      "q = [p]" "rx_id p = rx_id b" "rx_Endpoint p = rx_Endpoint b"
      "Stopping (tx t') \<or> BufferLength b < full"
  | (taken) b nr t1 p q1 where "take_buffer e full t = Some (Some b, nr, t1)" "full \<le> BufferLength b"
      "\<not> Stopping (tx t1)" "alloc_messages n False la full e t1 = Some (st, q1, t')" "q = p # q1"
      "p = b\<lparr>IGNORE_LOOKAHEAD := False, REFRESH_HDR := \<not> first, PART_OF_BUNDLE := False,
             NO_RECYCLE := nr, INDICATE_MORE_PKTS := False, rx_Status := A_OK,
             ExpectedHdr := (if first then la else (-1, -1, -1, -1)),
             rx_Length := la_length la + HTC_HDR_LENGTH\<rparr>"
proof -
  obtain b nr t1 where tb: "take_buffer e full t = Some (b, nr, t1)"
    using assms by (auto simp: bind_eq_Some_conv)
  show thesis
  proof (cases b)
    case None
    then show thesis using assms tb by (intro empty) auto
  next
    case (Some p)
    show thesis
    proof (cases "Stopping (tx t1) \<or> full > BufferLength p")
      case True
      then show thesis
        using assms tb Some by (auto simp: Let_def split: if_splits intro!: refused)
    next
      case False
      then obtain st1 q1 t2 where r: "alloc_messages n False la full e t1 = Some (st1, q1, t2)"
        using assms tb Some by (auto simp: Let_def bind_eq_Some_conv)
      then show thesis
        using assms tb Some False by (intro taken) (auto simp: Let_def)
    qed
  qed
qed

declare alloc_messages.simps(2) [simp del]

lemma messages_prepared:
  "alloc_messages n first la full e t = Some (st, q, t') \<Longrightarrow>
   tx t' = tx t \<and> length q \<le> n \<and>
   (st = A_OK \<longrightarrow> length q = n) \<and> (st = A_OK \<or> st = A_NO_RESOURCE \<longrightarrow> (\<forall>p \<in> set q. prepared la full p))"
proof (induction n arbitrary: first t st q t')
  case (Suc n)
  from Suc.prems show ?case
  proof (cases rule: alloc_messages_Suc)
    case (empty nr t1)
    then show ?thesis by (auto dest: tx_take)
  next
    case (refused b nr p)
    then show ?thesis by (auto dest: tx_take)
  next
    case (taken b nr t1 p q1)
    from Suc.IH [OF taken(4)] tx_take [OF taken(1)] taken(2,5,6) show ?thesis
      by (auto simp: prepared_def)
  qed
qed simp

lemma packets_prepared:
  "alloc_packets las e t = Some (A_OK, q, t') \<Longrightarrow> tx t' = tx t \<and>
   (\<forall>p \<in> set q. \<exists>la \<in> set las. la_endpoint la = e \<and> la_length la \<le> HTC_MAX_PAYLOAD_LENGTH \<and>
     prepared la (DEV_CALC_RECV_PADDED_LEN t (la_length la + HTC_HDR_LENGTH)) p)"
proof (induction las arbitrary: t q t')
  case (Cons la las)
  let ?full = "DEV_CALC_RECV_PADDED_LEN t (la_length la + HTC_HDR_LENGTH)"
  have ok: "la_endpoint la = e" "la_length la \<le> HTC_MAX_PAYLOAD_LENGTH"
    using Cons.prems by (auto split: if_splits)
  obtain st1 q1 t1 where m: "alloc_messages (num_messages la) True la ?full e t = Some (st1, q1, t1)"
    using Cons.prems by (auto simp: bind_eq_Some_conv Let_def split: if_splits)
  note p = messages_prepared [OF m]
  show ?case
  proof (cases "st1 = A_OK")
    case False
    then have "st1 = A_NO_RESOURCE" "q = q1" "t' = t1"
      using Cons.prems m by (auto simp: Let_def split: if_splits)
    with p ok show ?thesis by auto
  next
    case True
    then obtain q2 where q2: "alloc_packets las e t1 = Some (A_OK, q2, t')" "q = q1 @ q2"
      using Cons.prems m by (auto simp: Let_def bind_eq_Some_conv split: if_splits)
    have "DEV_CALC_RECV_PADDED_LEN t1 = DEV_CALC_RECV_PADDED_LEN t"
      using p by (auto simp: DEV_CALC_RECV_PADDED_LEN_def)
    with Cons.IH [OF q2(1)] q2(2) p ok True show ?thesis by auto
  qed
qed simp

text \<open>C18: Every packet prepared for announced messages is set up to receive at most 4096 bytes, and the
  padded transfer fits the packet's buffer, so that a synchronous fetch is never refused for lack of
  space and writes nothing beyond the buffer.\<close>

theorem htc_recv_buffers_fit:
  assumes "AllocAndPrepareRxPackets las e t = Some (A_OK, q, t')" and "p \<in> set q"
    and "rx_off p + BufferLength p = length (rx_buf p)" and "HTCIssueRecv True p t' = (st, p', t2)"
  shows "rx_Length p \<le> 4096 \<and> DEV_CALC_RECV_PADDED_LEN t' (rx_Length p) \<le> BufferLength p \<and>
    st = fst (device_read t') \<and> length (rx_buf p') = length (rx_buf p)"
proof -
  have a: "alloc_packets las e t = Some (A_OK, q, t')"
    using assms(1) by (auto simp: AllocAndPrepareRxPackets_def bind_eq_Some_conv split: if_splits)
  from packets_prepared [OF a] assms(2) obtain la where
    la: "la_length la \<le> HTC_MAX_PAYLOAD_LENGTH"
      "prepared la (DEV_CALC_RECV_PADDED_LEN t (la_length la + HTC_HDR_LENGTH)) p" and tx: "tx t' = tx t"
    by blast
  have fit: "DEV_CALC_RECV_PADDED_LEN t' (rx_Length p) \<le> BufferLength p"
    using la(2) tx by (simp add: prepared_def DEV_CALC_RECV_PADDED_LEN_def)
  with la assms(3,4) show ?thesis
    by (auto simp: prepared_def HTCIssueRecv_def store_data_def Let_def split: list.splits prod.splits)
qed

subsection \<open>Custody of packets\<close>

text \<open>
  The packets HTC holds or has handed over, as a multiset of their addresses: buffers, queued
  indications, answers still to come from the callbacks, requests in flight, control buffers, and
  packets indicated.
\<close>

abbreviation ids :: "HTC_RX_PACKET list \<Rightarrow> nat multiset" where
  "ids q \<equiv> mset (map rx_id q)"

definition answer_ids :: "HTC_RX_PACKET option list option \<Rightarrow> nat multiset" where
  "answer_ids a = (case a of None \<Rightarrow> {#} | Some as \<Rightarrow> ids (List.map_filter id as))"

definition ep_ids :: "HTC_RX_ENDPOINT \<Rightarrow> nat multiset" where
  "ep_ids x = ids (RxBuffers x) + ids (RecvIndicationQueue x) + answer_ids (EpRecvAlloc x)
     + answer_ids (EpRecvAllocThresh x)
     + (case EpRecvRefill x of None \<Rightarrow> {#} | Some rs \<Rightarrow> ids (concat rs))"

fun request_packets :: "rx_request \<Rightarrow> HTC_RX_PACKET list" where
  "request_packets (ReqSingle p) = [p]"
| "request_packets (ReqScatter b q) = q"

definition flight_ids :: "HTC_RX_TARGET \<Rightarrow> nat multiset" where
  "flight_ids t = ids (concat (map request_packets (in_flight t)))"

definition given_ids :: "HTC_RX_TARGET \<Rightarrow> nat multiset" where
  "given_ids t = ids (concat (map snd (rx_indicated t)))"

definition custody :: "HTC_RX_TARGET \<Rightarrow> nat multiset" where
  "custody t = (\<Sum>e<ENDPOINT_MAX. ep_ids (RxEp t e)) + flight_ids t + given_ids t
     + ids (ControlBufferRXFreeList t)"

lemma custody_upd_rx:
  assumes "e < ENDPOINT_MAX"
  shows "custody (upd_rx e f t) + ep_ids (RxEp t e) = custody t + ep_ids (f (RxEp t e))"
proof -
  let ?S = "\<Sum>x\<in>{..<ENDPOINT_MAX} - {e}. ep_ids (RxEp t x)"
  have 1: "(\<Sum>x<ENDPOINT_MAX. ep_ids (RxEp (upd_rx e f t) x)) = ep_ids (f (RxEp t e)) + ?S"
    using assms by (simp add: upd_rx_def sum.remove [of _ e])
  have 2: "(\<Sum>x<ENDPOINT_MAX. ep_ids (RxEp t x)) = ep_ids (RxEp t e) + ?S"
    using assms by (simp add: sum.remove [of _ e])
  have "flight_ids (upd_rx e f t) = flight_ids t" "given_ids (upd_rx e f t) = given_ids t"
    "ControlBufferRXFreeList (upd_rx e f t) = ControlBufferRXFreeList t"
    by (simp_all add: upd_rx_def flight_ids_def given_ids_def)
  then show ?thesis by (simp add: custody_def 1 2)
qed

named_theorems custody \<open>what the operations do to the custody of packets\<close>

lemma custody_same [custody]:
  "custody (t\<lparr>tx := x\<rparr>) = custody t" "custody (t\<lparr>WAIT_BUFFERS := b\<rparr>) = custody t"
  "custody (t\<lparr>EpWaitingForBuffers := n\<rparr>) = custody t" "custody (t\<lparr>recv_on := b\<rparr>) = custody t"
  "custody (t\<lparr>CurrentDSRRecvCount := n\<rparr>) = custody t" "custody (t\<lparr>dev_in := d\<rparr>) = custody t"
  by (simp_all add: custody_def flight_ids_def given_ids_def)

lemma custody_indicate [custody]:
  "custody (t\<lparr>rx_indicated := rx_indicated t @ xs\<rparr>) = custody t + ids (concat (map snd xs))"
  by (simp add: custody_def flight_ids_def given_ids_def)

lemma custody_flight [custody]:
  "custody (t\<lparr>in_flight := in_flight t @ xs\<rparr>) = custody t + ids (concat (map request_packets xs))"
  by (simp add: custody_def flight_ids_def given_ids_def)

lemma custody_async [custody]:
  "custody (t\<lparr>tx := x, in_flight := in_flight t @ xs\<rparr>) = custody t + ids (concat (map request_packets xs))"
  by (simp add: custody_def flight_ids_def given_ids_def)

lemma custody_control [custody]:
  "custody (t\<lparr>ControlBufferRXFreeList := ControlBufferRXFreeList t @ xs\<rparr>) = custody t + ids xs"
  by (simp add: custody_def flight_ids_def given_ids_def)

lemma custody_completion [custody]: "custody (DoRecvCompletion e q t) = custody t + ids q"
proof -
  have "concat (map snd (map (\<lambda>p. (e, [p])) q)) = q" by (induction q) auto
  then show ?thesis by (simp add: DoRecvCompletion_def custody)
qed

lemma ids_reset [simp]: "rx_id (HTC_PACKET_RESET_RX p) = rx_id p"
  by (simp add: HTC_PACKET_RESET_RX_def)

lemma custody_add:
  assumes "HTCAddReceivePktMultiple q t = Some (st, t')"
  shows "custody t' = custody t + ids q"
proof (cases q)
  case Nil
  then show ?thesis using assms by (simp add: HTCAddReceivePktMultiple_def)
next
  case (Cons p ps)
  let ?e = "rx_Endpoint p" and ?f = "\<lambda>x. x\<lparr>RxBuffers := RxBuffers x @ q\<rparr>"
  have e: "?e < ENDPOINT_MAX"
    using assms Cons by (simp add: HTCAddReceivePktMultiple_def Let_def split: if_splits)
  have u: "custody (upd_rx ?e ?f t) = custody t + ids q"
    using custody_upd_rx [OF e, of ?f t] by (simp add: ep_ids_def)
  have canceled: "ids (map (\<lambda>p. p\<lparr>rx_Status := A_ECANCELED\<rparr>) q) = ids q"
    by (simp add: comp_def)
  show ?thesis
  proof (cases "Stopping (tx t)")
    case True
    then show ?thesis
      using assms e Cons canceled by (auto simp: HTCAddReceivePktMultiple_def Let_def custody comp_def)
  next
    case False
    then show ?thesis
      using assms e Cons u by (auto simp: HTCAddReceivePktMultiple_def Let_def custody split: if_splits)
  qed
qed

lemma custody_recycle:
  "HTC_RECYCLE_RX_PKT p e t = Some t' \<Longrightarrow> custody t' = custody t + {#rx_id p#}"
  by (auto simp: HTC_RECYCLE_RX_PKT_def HTCAddReceivePkt_def custody split: if_splits dest!: custody_add)

lemma custody_recycle_all: "recycle_all q t = Some t' \<Longrightarrow> custody t' = custody t + ids q"
  by (induction q arbitrary: t) (auto simp: bind_eq_Some_conv dest!: custody_recycle)

lemma custody_dequeue:
  assumes "dequeue_rx e t = (b, t')" "e < ENDPOINT_MAX"
  shows "custody t' + ids (case b of None \<Rightarrow> [] | Some p \<Rightarrow> [p]) = custody t"
proof (cases "RxBuffers (RxEp t e)")
  case Nil
  then show ?thesis using assms by (auto simp: dequeue_rx_def)
next
  case (Cons p ps)
  then show ?thesis
    using assms(1) custody_upd_rx [OF assms(2), of "\<lambda>x. x\<lparr>RxBuffers := ps\<rparr>" t]
    by (auto simp: dequeue_rx_def ep_ids_def)
qed

lemma custody_refill:
  assumes "call_refill e t = Some t'" "e < ENDPOINT_MAX"
  shows "custody t' = custody t"
proof (cases "EpRecvRefill (RxEp t e)")
  case None
  then show ?thesis using assms by (simp add: call_refill_def)
next
  case (Some rs)
  show ?thesis
  proof (cases rs)
    case Nil
    then show ?thesis using assms Some by (simp add: call_refill_def)
  next
    case (Cons r rs')
    let ?t1 = "upd_rx e (\<lambda>x. x\<lparr>EpRecvRefill := Some rs'\<rparr>) t"
    have 1: "custody ?t1 + ids r = custody t"
      using custody_upd_rx [OF assms(2), of "\<lambda>x. x\<lparr>EpRecvRefill := Some rs'\<rparr>" t] Some Cons
      by (simp add: ep_ids_def ac_simps)
    show ?thesis
    proof (cases "r = []")
      case True
      then show ?thesis using assms(1) Some Cons 1 by (simp add: call_refill_def)
    next
      case False
      then obtain st where "HTCAddReceivePktMultiple r ?t1 = Some (st, t')"
        using assms(1) Some Cons by (auto simp: call_refill_def)
      from custody_add [OF this] 1 show ?thesis by simp
    qed
  qed
qed

lemma next_alloc_ids:
  "ids (case fst (next_alloc as) of None \<Rightarrow> [] | Some p \<Rightarrow> [p]) + answer_ids (Some (snd (next_alloc as)))
   = answer_ids (Some as)"
  by (cases as) (auto simp: answer_ids_def map_filter_def split: option.splits)

lemma multiset_transfer:
  fixes A B C :: "'a multiset"
  assumes "A + old = C + new" "B + new = old"
  shows "A + B = C"
proof -
  have "(A + B) + new = C + new" using assms by (simp add: add.assoc)
  then show ?thesis by simp
qed

lemma custody_take:
  assumes "take_buffer e full t = Some (b, nr, t')" "e < ENDPOINT_MAX"
  shows "custody t' + ids (case b of None \<Rightarrow> [] | Some p \<Rightarrow> [p]) = custody t"
  using assms(1)
proof (cases rule: take_buffer_cases)
  case (alloc as)
  let ?f = "\<lambda>x. x\<lparr>EpRecvAlloc := Some (snd (next_alloc as))\<rparr>"
  have "ids (case b of None \<Rightarrow> [] | Some p \<Rightarrow> [p]) + ep_ids (?f (RxEp t e)) = ep_ids (RxEp t e)"
    unfolding alloc(2) ep_ids_def by (simp add: alloc(1) next_alloc_ids [of as, symmetric] ac_simps)
  then show ?thesis
    unfolding alloc(4) by (rule multiset_transfer [OF custody_upd_rx [OF assms(2), of ?f t]])
next
  case (thresh as)
  let ?f = "\<lambda>x. x\<lparr>EpRecvAllocThresh := Some (snd (next_alloc as))\<rparr>"
  have "ids (case b of None \<Rightarrow> [] | Some p \<Rightarrow> [p]) + ep_ids (?f (RxEp t e)) = ep_ids (RxEp t e)"
    unfolding thresh(4) ep_ids_def by (simp add: thresh(3) next_alloc_ids [of as, symmetric] ac_simps)
  then show ?thesis
    unfolding thresh(6) by (rule multiset_transfer [OF custody_upd_rx [OF assms(2), of ?f t]])
next
  case queue
  then show ?thesis using custody_dequeue [OF _ assms(2)] by blast
next
  case (refill t1 t2)
  from custody_dequeue [OF refill(1) assms(2)] custody_refill [OF refill(2) assms(2)]
    custody_dequeue [OF refill(3) assms(2)] show ?thesis by simp
qed

lemma custody_messages:
  "alloc_messages n first la full e t = Some (st, q, t') \<Longrightarrow> e < ENDPOINT_MAX \<Longrightarrow>
   custody t' + ids q = custody t"
proof (induction n arbitrary: first t st q t')
  case (Suc n)
  from Suc.prems(1) show ?case
  proof (cases rule: alloc_messages_Suc)
    case (empty nr t1)
    then show ?thesis using custody_take [OF empty(1) Suc.prems(2)] by (simp add: custody)
  next
    case (refused b nr p)
    then show ?thesis using custody_take [OF refused(1) Suc.prems(2)] by simp
  next
    case (taken b nr t1 p q1)
    from Suc.IH [OF taken(4) Suc.prems(2)] custody_take [OF taken(1) Suc.prems(2)] taken(5,6) show ?thesis
      by simp
  qed
qed simp

lemma custody_packets:
  "alloc_packets las e t = Some (st, q, t') \<Longrightarrow> e < ENDPOINT_MAX \<Longrightarrow> custody t' + ids q = custody t"
proof (induction las arbitrary: t st q t')
  case (Cons la las)
  show ?case
  proof (cases "la_endpoint la \<ge> ENDPOINT_MAX \<or> la_endpoint la \<noteq> e \<or> la_length la > HTC_MAX_PAYLOAD_LENGTH
         \<or> ep_ServiceID (EndPoint (tx t) e) = 0")
    case True
    then show ?thesis using Cons.prems by simp
  next
    case False
    then obtain st1 ps t1 where m: "alloc_messages (num_messages la) True la
        (DEV_CALC_RECV_PADDED_LEN t (la_length la + HTC_HDR_LENGTH)) e t = Some (st1, ps, t1)"
      using Cons.prems(1) by (auto simp: bind_eq_Some_conv Let_def)
    note 1 = custody_messages [OF m Cons.prems(2)]
    show ?thesis
    proof (cases "A_FAILED st1")
      case True
      then show ?thesis using Cons.prems(1) False m 1 by (auto simp: Let_def)
    next
      case f: False
      then obtain qs where "alloc_packets las e t1 = Some (st, qs, t')" "q = ps @ qs"
        using Cons.prems(1) False m by (auto simp: Let_def bind_eq_Some_conv)
      with Cons.IH [of t1 st qs t'] Cons.prems(2) 1 [symmetric] show ?thesis by (simp add: ac_simps)
    qed
  qed
qed simp

lemma custody_alloc:
  assumes "AllocAndPrepareRxPackets las e t = Some (st, q, t')" "e < ENDPOINT_MAX"
  shows "custody t' + ids q = custody t"
proof -
  obtain st1 q1 t1 where a: "alloc_packets las e t = Some (st1, q1, t1)"
    using assms(1) by (auto simp: AllocAndPrepareRxPackets_def bind_eq_Some_conv)
  with custody_packets [OF a assms(2)] assms(1) show ?thesis
    by (auto simp: AllocAndPrepareRxPackets_def bind_eq_Some_conv split: if_splits dest!: custody_recycle_all)
qed

lemma custody_watermark:
  assumes "CheckRecvWaterMark e t = Some t'" "e < ENDPOINT_MAX"
  shows "custody t' = custody t"
proof -
  have "t' = t \<or> call_refill e t = Some t'"
    using assms(1) unfolding CheckRecvWaterMark_def Let_def by (metis option.inject)
  then show ?thesis using custody_refill [OF _ assms(2)] by blast
qed

lemma custody_device:
  assumes "device_read t = (st, ds, t')"
  shows "custody t' = custody t"
proof -
  have "\<exists>d. t' = t\<lparr>dev_in := d\<rparr>" using assms by (cases t) (auto simp: device_read_def split: list.splits)
  then show ?thesis by (auto simp only: custody_same)
qed

lemma rx_id_store [simp]: "rx_id (store_data n d p) = rx_id p"
  by (simp add: store_data_def Let_def)

lemma ids_store_all: "ids (store_all es ds) = ids (map fst es)"
  by (induction es ds rule: store_all.induct) auto

lemma ids_fill:
  "fill_recv_scatter t partial n space q = (es, rest) \<Longrightarrow> map rx_id q = map rx_id (map fst es @ rest)"
  by (induction t partial n space q arbitrary: es rest rule: fill_recv_scatter.induct)
    (auto simp: Let_def split: if_splits prod.splits)

lemma custody_bundle:
  assumes "HTCIssueRecvPacketBundle sync partial q t = (st, fin, rest, n, t')"
  shows "custody t' + ids fin + ids rest \<subseteq># custody t + ids q"
    and "st = A_OK \<Longrightarrow> custody t' + ids fin + ids rest = custody t + ids q"
proof -
  have "custody t' + ids fin + ids rest \<subseteq># custody t + ids q \<and>
    (st = A_OK \<longrightarrow> custody t' + ids fin + ids rest = custody t + ids q)"
  proof (cases "scatter_free (tx t) = 0")
    case True
    then show ?thesis using assms by (simp add: HTCIssueRecvPacketBundle_def Let_def)
  next
    case False
    let ?n = "nat (min (int (length q)) (MaxMsgPerBundle (tx t)))"
    obtain es rest' where f: "fill_recv_scatter t (partial \<or> length q > ?n) ?n (MaxRecvBundleSize t) q = (es, rest')"
      by fastforce
    obtain st1 ds t1 where d: "device_read t = (st1, ds, t1)" using prod_cases3 by blast
    note facts = arg_cong [where f = mset, OF ids_fill [OF f]] custody_device [OF d] ids_store_all [of es ds]
    show ?thesis
    proof (cases sync)
      case True
      then have "t' = t1" "fin = store_all es ds" "rest = rest'"
        using assms False f d by (simp_all add: HTCIssueRecvPacketBundle_def Let_def)
      with facts show ?thesis by simp
    next
      case async: False
      then have "t' = t1\<lparr>tx := (tx t1)\<lparr>scatter_free := scatter_free (tx t1) - 1\<rparr>,
          in_flight := in_flight t1 @
            (if accepted st1 then [ReqScatter (partial \<or> length q > ?n) (map fst es)] else [])\<rparr>"
          "fin = []" "rest = rest'" "st = (if st1 = A_PENDING then A_OK else st1)"
        using assms False f d by (simp_all add: HTCIssueRecvPacketBundle_def Let_def)
      with facts show ?thesis by (auto simp only: custody_async split: if_splits) auto
    qed
  qed
  then show "custody t' + ids fin + ids rest \<subseteq># custody t + ids q"
    and "st = A_OK \<Longrightarrow> custody t' + ids fin + ids rest = custody t + ids q" by blast+
qed

lemma custody_issue:
  assumes "HTCIssueRecv sync p t = (st, p', t')"
  shows "rx_id p' = rx_id p"
    and "custody t' \<subseteq># custody t + (if sync then {#} else {#rx_id p#})"
    and "st = A_OK \<Longrightarrow> custody t' = custody t + (if sync then {#} else {#rx_id p#})"
  using assms custody_device [of t]
  by (auto simp: HTCIssueRecv_def Let_def custody split: if_splits prod.splits list.splits)

lemma multiset_chain:
  fixes A :: "'a multiset"
  assumes "A1 + f1 + r = A + q"
  shows "A2 + f2 + l \<subseteq># A1 + r \<Longrightarrow> A2 + (f1 + f2) + l \<subseteq># A + q"
    and "A2 + f2 = A1 + r \<Longrightarrow> A2 + (f1 + f2) = A + q"
proof -
  have q: "A + q = f1 + (A1 + r)" using assms by (simp add: ac_simps)
  show "A2 + (f1 + f2) + l \<subseteq># A + q" if "A2 + f2 + l \<subseteq># A1 + r"
    using subset_mset.add_left_mono [OF that, of f1] unfolding q by (simp add: ac_simps)
  show "A2 + (f1 + f2) = A + q" if "A2 + f2 = A1 + r"
    unfolding q that [symmetric] by (simp add: ac_simps)
qed

text \<open>A fetch that succeeds keeps track of every packet; one that fails may drop some.\<close>

lemma custody_fetch:
  "fetch_packets sync partial q t = (st, fin, left, t') \<Longrightarrow>
   custody t' + ids fin + ids left \<subseteq># custody t + ids q \<and>
   (st = A_OK \<longrightarrow> left = [] \<and> custody t' + ids fin = custody t + ids q)"
proof (induction "length q" arbitrary: sync partial q t st fin left t' rule: less_induct)
  case less
  have id: "rx_id (if b then p\<lparr>IGNORE_LOOKAHEAD := True\<rparr> else p) = rx_id p" for b and p :: HTC_RX_PACKET
    by simp
  from less.prems show ?case
  proof (cases rule: fetch_packets_cases)
    case empty
    then show ?thesis by simp
  next
    case (bundle_failed n)
    then show ?thesis using custody_bundle(1) [OF bundle_failed(1)] by simp
  next
    case (bundled fin1 rest n t1 fin2)
    have "length rest < length q" using HTCIssueRecvPacketBundle_length [OF bundled(1)] bundled(2) by simp
    from less.hyps [OF this bundled(5)] multiset_chain [OF custody_bundle(2) [OF bundled(1) refl]] bundled(6)
    show ?thesis by auto
  next
    case (single_failed p ps t1 p1)
    have "custody t1 = custody t"
      using single_failed(5) custody_bundle by fastforce
    moreover have "custody t' \<subseteq># custody t1 + {#rx_id p#}"
      using custody_issue(2) [OF single_failed(6)]
      by (cases sync) (auto simp only: id if_True if_False empty_neutral simp_thms
          intro: subset_mset.order_trans [OF _ mset_subset_eq_add_left])
    ultimately show ?thesis using single_failed(1-4) by simp
  next
    case (single p ps t1 p1 t2 partial1 fin2)
    have t1: "custody t1 = custody t"
      using single(3) custody_bundle by fastforce
    have "length ps < length q" using single(1) by simp
    from less.hyps [OF this single(5)] t1 custody_issue [OF single(4)] single(1,2) show ?thesis
      by (cases sync) (auto simp: add.assoc)
  qed
qed

lemma process_header_id:
  "HTCProcessRecvHeader D want p t = Some (st, p', las, t') \<Longrightarrow> rx_id p' = rx_id p \<and> rx_Endpoint p' = rx_Endpoint p"
  by (auto simp: HTCProcessRecvHeader_def Let_def bind_eq_Some_conv split: if_splits)

lemma flags_id [simp]: "rx_id (SetRxPacketIndicationFlags las e t p) = rx_id p"
  by (simp add: SetRxPacketIndicationFlags_def split: list.splits)

lemma custody_sync:
  "process_sync D q st las t = Some (st', las', rest, t') \<Longrightarrow>
   custody t' + ids rest \<subseteq># custody t + ids q \<and>
   (st' = A_OK \<longrightarrow> rest = [] \<and> custody t' = custody t + ids q)"
proof (induction q arbitrary: st las t)
  case (Cons p ps)
  obtain st1 p1 las1 x where h: "HTCProcessRecvHeader D True p (tx t) = Some (st1, p1, las1, x)"
    using Cons.prems by (auto simp: Let_def bind_eq_Some_conv)
  note id = process_header_id [OF h]
  show ?case
  proof (cases "A_FAILED st1")
    case True
    then show ?thesis using Cons.prems h by (auto simp: Let_def custody)
  next
    case False
    let ?p = "if ps = [] then SetRxPacketIndicationFlags las1 (rx_Endpoint p) (t\<lparr>tx := x\<rparr>) p1
              else p1\<lparr>INDICATE_MORE_PKTS := True\<rparr>"
    have "process_sync D ps st1 las1 (DoRecvCompletion (rx_Endpoint p) [?p] (t\<lparr>tx := x\<rparr>)) = Some (st', las', rest, t')"
      using Cons.prems h False by (simp add: Let_def)
    from Cons.IH [OF this] id show ?thesis by (auto simp: custody)
  qed
qed simp

text \<open>The ways one pass of the handler's loop goes.\<close>

lemma recv_loop_cases:
  assumes "recv_loop D las got t = Some (st, left, rest, n, t')"
  obtains (refused) "st = A_EPROTO" "left = []" "rest = []" "n = got" "t' = t"
  | (no_buffers) "AllocAndPrepareRxPackets las (la_endpoint (hd las)) t = Some (st, left, t')" "A_FAILED st"
      "la_endpoint (hd las) < ENDPOINT_MAX" "rest = []"
  | (async) q t1 fin t2 where "la_endpoint (hd las) < ENDPOINT_MAX"
      "AllocAndPrepareRxPackets las (la_endpoint (hd las)) t = Some (A_OK, q, t1)" "ASYNC_ALLOWED t"
      "fetch_packets False False q t1 = (st, fin, left, t2)" "rest = []" "n = got + length q"
      "(if A_FAILED st then Some t2 else CheckRecvWaterMark (la_endpoint (hd las)) t2) = Some t'"
  | (pass) q t1 st1 fin left1 t2 t3 las1 st2 rest1 t5 where "la_endpoint (hd las) < ENDPOINT_MAX"
      "las \<noteq> []" "length las \<le> HTC_HOST_MAX_MSG_PER_BUNDLE" "\<not> ASYNC_ALLOWED t"
      "AllocAndPrepareRxPackets las (la_endpoint (hd las)) t = Some (A_OK, q, t1)"
      "fetch_packets True False q t1 = (st1, fin, left1, t2)"
      "(if A_FAILED st1 then Some t2 else CheckRecvWaterMark (la_endpoint (hd las)) t2) = Some t3"
      "process_sync D fin st1 []
         (if DSRCanYield t3 then t3\<lparr>CurrentDSRRecvCount := CurrentDSRRecvCount t3 + 1\<rparr> else t3) =
       Some (st2, las1, rest1, t5)"
      "if A_FAILED st2 \<or> las1 = [] \<or> (DSRCanYield t5 \<and> CurrentDSRRecvCount t5 \<ge> RecvPacketYieldCount t5)
       then st = st2 \<and> left = left1 \<and> rest = rest1 \<and> n = got + length q \<and> t' = t5
       else recv_loop D las1 (got + length q) t5 = Some (st, left, rest, n, t')"
proof -
  note eq = assms [unfolded recv_loop.simps [of D las got t] Let_def]
  let ?e = "la_endpoint (hd las)"
  show thesis
  proof (cases "length las > HTC_HOST_MAX_MSG_PER_BUNDLE \<or> ?e \<ge> ENDPOINT_MAX")
    case True
    then show thesis using eq refused by (auto split: if_splits)
  next
    case False
    then have las: "las \<noteq> []" using eq by auto
    obtain st0 q t1 where a: "AllocAndPrepareRxPackets las ?e t = Some (st0, q, t1)"
      using eq False las by (auto split: option.splits)
    show thesis
    proof (cases "A_FAILED st0")
      case True
      then show thesis using eq False las a by (intro no_buffers) auto
    next
      case ok: False
      obtain st1 fin left1 t2 where f: "fetch_packets (\<not> ASYNC_ALLOWED t) False q t1 = (st1, fin, left1, t2)"
        by (metis prod_cases4)
      obtain t3 where w: "(if A_FAILED st1 then Some t2 else CheckRecvWaterMark ?e t2) = Some t3"
        using eq False las a ok f by (auto split: option.splits)
      note eq = eq [unfolded a option.case prod.case f w]
      show thesis
      proof (cases "ASYNC_ALLOWED t")
        case True
        then show thesis using eq False las a ok f w by (intro async) auto
      next
        case sync: False
        then obtain st2 las1 rest1 t5 where "process_sync D fin st1 []
           (if DSRCanYield t3 then t3\<lparr>CurrentDSRRecvCount := CurrentDSRRecvCount t3 + 1\<rparr> else t3) =
           Some (st2, las1, rest1, t5)"
          using eq False las ok by (auto split: option.splits)
        then show thesis using eq False las a ok f w sync by (intro pass) (auto split: if_splits)
      qed
    qed
  qed
qed

lemma custody_loop:
  "recv_loop D las got t = Some (st, left, rest, n, t') \<Longrightarrow>
   custody t' + ids left + ids rest \<subseteq># custody t"
proof (induction "avail t" arbitrary: las got t rule: less_induct)
  case less
  from less.prems show ?case
  proof (cases rule: recv_loop_cases)
    case refused
    then show ?thesis by simp
  next
    case no_buffers
    then show ?thesis using custody_alloc [OF no_buffers(1,3)] by simp
  next
    case (async q t1 fin t2)
    have "custody t' = custody t2" using async(1,7) by (auto split: if_splits dest: custody_watermark)
    moreover have "custody t2 + ids left \<subseteq># custody t2 + ids fin + ids left" by simp
    ultimately show ?thesis
      using custody_fetch [OF async(4)] custody_alloc [OF async(2,1)] async(5)
        subset_mset.order_trans [of "custody t2 + ids left" "custody t2 + ids fin + ids left" "custody t1 + ids q"]
      by simp
  next
    case (pass q t1 st1 fin left1 t2 t3 las1 st2 rest1 t5)
    let ?t4 = "if DSRCanYield t3 then t3\<lparr>CurrentDSRRecvCount := CurrentDSRRecvCount t3 + 1\<rparr> else t3"
    have 3: "custody ?t4 = custody t2" using pass(1,7) by (auto simp: custody split: if_splits dest: custody_watermark)
    have f: "custody t2 + ids fin + ids left1 \<subseteq># custody t"
      using custody_fetch [OF pass(6)] custody_alloc [OF pass(5,1)] by simp
    have "custody t5 + ids rest1 \<subseteq># custody t2 + ids fin" using custody_sync [OF pass(8)] 3 by simp
    from subset_mset.order_trans [OF subset_mset.add_right_mono [OF this, of "ids left1"] f]
    have 5: "custody t5 + ids left1 + ids rest1 \<subseteq># custody t" by (simp add: ac_simps)
    show ?thesis
    proof (cases "A_FAILED st2 \<or> las1 = [] \<or> (DSRCanYield t5 \<and> CurrentDSRRecvCount t5 \<ge> RecvPacketYieldCount t5)")
      case True
      then show ?thesis using pass(9) 5 by simp
    next
      case False
      have "avail t5 < avail t"
        by (rule recv_loop_uses_up [OF pass(5,1,6,7), where c = "DSRCanYield t3"]) (use pass(8) False in auto)
      moreover have "recv_loop D las1 (got + length q) t5 = Some (st, left, rest, n, t')"
        using pass(9) unfolding if_not_P [OF False] .
      ultimately have "custody t' + ids left + ids rest \<subseteq># custody t5" by (rule less.hyps)
      then show ?thesis using 5
        by (metis (no_types, lifting) mset_subset_eq_add_left subset_mset.order_trans)
    qed
  qed
qed

lemma custody_handler:
  assumes "HTCRecvMessagePendingHandler D las t = Some (st, n, t')"
  shows "custody t' \<subseteq># custody t"
proof (cases "length las > HTC_HOST_MAX_MSG_PER_BUNDLE")
  case True
  then show ?thesis using assms by (simp add: HTCRecvMessagePendingHandler_def)
next
  case False
  then obtain st1 left rest n1 t1 where l: "recv_loop D las 0 t = Some (st1, left, rest, n1, t1)"
    using assms by (auto simp: HTCRecvMessagePendingHandler_def bind_eq_Some_conv)
  have c: "custody t1 + ids left + ids rest \<subseteq># custody t" by (rule custody_loop [OF l])
  show ?thesis
  proof (cases "A_FAILED st1")
    case True
    then obtain t2 t3 where "recycle_all left t1 = Some t2" "recycle_all rest t2 = Some t3" "custody t' = custody t3"
      using assms False l by (auto simp: HTCRecvMessagePendingHandler_def bind_eq_Some_conv custody split: if_splits)
    with custody_recycle_all [of left t1 t2] custody_recycle_all [of rest t2 t3] c show ?thesis by simp
  next
    case ok: False
    then have "custody t' = custody t1"
      using assms False l by (auto simp: HTCRecvMessagePendingHandler_def custody split: if_splits)
    moreover have "custody t1 \<subseteq># custody t1 + ids left + ids rest" by (simp add: add.assoc)
    ultimately show ?thesis using c by (metis subset_mset.order_trans)
  qed
qed

lemma custody_more:
  assumes "HTCAsyncRecvCheckMorePackets D las t = Some t'"
  shows "custody t' \<subseteq># custody t"
proof (cases "las = []")
  case True
  then show ?thesis using assms by (simp add: HTCAsyncRecvCheckMorePackets_def)
next
  case False
  then obtain st n where "HTCRecvMessagePendingHandler D las t = Some (st, n, t')"
    using assms by (auto simp: HTCAsyncRecvCheckMorePackets_def)
  then show ?thesis by (rule custody_handler)
qed

lemma custody_enqueue:
  "e < ENDPOINT_MAX \<Longrightarrow> custody (enqueue_indication e q t) = custody t + ids q"
  using custody_upd_rx [of e "\<lambda>x. x\<lparr>RecvIndicationQueue := RecvIndicationQueue x @ q\<rparr>" t]
  by (simp add: enqueue_indication_def ep_ids_def)

lemma custody_drain:
  assumes "e < ENDPOINT_MAX"
  shows "custody (DrainRecvIndicationQueue e t) = custody t"
proof (cases "RxProcessCount (RxEp t e) + 1 > 1")
  case True
  then show ?thesis by (simp add: DrainRecvIndicationQueue_def)
next
  case False
  let ?q = "RecvIndicationQueue (RxEp t e)"
  let ?t1 = "upd_rx e (\<lambda>x. x\<lparr>RecvIndicationQueue := []\<rparr>) t"
  have 1: "custody ?t1 + ids ?q = custody t"
    using custody_upd_rx [OF assms, of "\<lambda>x. x\<lparr>RecvIndicationQueue := []\<rparr>" t] by (simp add: ep_ids_def)
  have "custody (upd_rx e (\<lambda>x. x\<lparr>RxProcessCount := 0\<rparr>) u) = custody u" for u
    using custody_upd_rx [OF assms, of "\<lambda>x. x\<lparr>RxProcessCount := 0\<rparr>" u] by (simp add: ep_ids_def)
  with False 1 show ?thesis by (simp add: DrainRecvIndicationQueue_def custody)
qed

lemma custody_complete:
  assumes "HTCRecvCompleteHandler D p t = Some t'"
  shows "custody t' \<subseteq># custody t + {#rx_id p#}"
proof -
  let ?e = "rx_Endpoint p"
  have e: "?e < ENDPOINT_MAX" using assms by (simp add: HTCRecvCompleteHandler_def Let_def split: if_splits)
  show ?thesis
  proof (cases "A_FAILED (rx_Status p)")
    case True
    then show ?thesis using assms e by (auto simp: HTCRecvCompleteHandler_def Let_def dest: custody_recycle)
  next
    case False
    obtain st p1 las x where h: "HTCProcessRecvHeader D True p (tx t) = Some (st, p1, las, x)"
      using assms e False by (auto simp: HTCRecvCompleteHandler_def Let_def bind_eq_Some_conv)
    note id = process_header_id [OF h]
    show ?thesis
    proof (cases "A_FAILED st")
      case True
      then show ?thesis
        using assms e False h id by (auto simp: HTCRecvCompleteHandler_def Let_def custody dest: custody_recycle)
    next
      case ok: False
      let ?u = "enqueue_indication ?e [SetRxPacketIndicationFlags las ?e (t\<lparr>tx := x\<rparr>) p1] (t\<lparr>tx := x\<rparr>)"
      obtain t2 where "HTCAsyncRecvCheckMorePackets D las ?u = Some t2" "t' = DrainRecvIndicationQueue ?e t2"
        using assms e False h ok by (auto simp: HTCRecvCompleteHandler_def Let_def bind_eq_Some_conv)
      with custody_more custody_drain [OF e] custody_enqueue [OF e] id show ?thesis
        by (fastforce simp: custody)
    qed
  qed
qed

lemma custody_entries:
  "scatter_entries D e cst q t = Some (good, las, bad, t') \<Longrightarrow>
   custody t' + ids good = custody t + ids q"
proof (induction q arbitrary: t good las bad)
  case (Cons p ps)
  obtain st p1 las1 x where h: "(if A_FAILED cst then Some (A_ERROR, p, [], tx t)
      else HTCProcessRecvHeader D True p (tx t)) = Some (st, p1, las1, x)"
    using Cons.prems by (auto simp: bind_eq_Some_conv)
  then have id: "rx_id p1 = rx_id p" by (auto split: if_splits dest: process_header_id)
  show ?case
  proof (cases "A_FAILED st")
    case True
    then obtain t1 good1 las2 bad1 where "HTC_RECYCLE_RX_PKT p1 e (t\<lparr>tx := x\<rparr>) = Some t1"
      "scatter_entries D e cst ps t1 = Some (good1, las2, bad1, t')" "good = good1"
      using Cons.prems h by (auto simp: Let_def bind_eq_Some_conv)
    with Cons.IH [of t1 good1 las2 bad1] id show ?thesis by (auto simp: custody dest!: custody_recycle)
  next
    case False
    then obtain good1 las2 bad1 where "scatter_entries D e cst ps (t\<lparr>tx := x\<rparr>) = Some (good1, las2, bad1, t')"
      "ids good = add_mset (rx_id p) (ids good1)"
      using Cons.prems h id by (auto simp: Let_def bind_eq_Some_conv)
    with Cons.IH [of "t\<lparr>tx := x\<rparr>" good1 las2 bad1] show ?thesis by (simp add: custody)
  qed
qed simp

declare scatter_entries.simps(2) [simp del]

lemma custody_scatter_complete:
  assumes "HTCAsyncRecvScatterCompletion D cst q t = Some t'"
  shows "custody t' \<subseteq># custody t + ids q"
proof (cases q)
  case Nil
  then show ?thesis using assms by (simp add: HTCAsyncRecvScatterCompletion_def)
next
  case (Cons p ps)
  let ?e = "rx_Endpoint p"
  have e: "?e < ENDPOINT_MAX"
    using assms Cons by (simp add: HTCAsyncRecvScatterCompletion_def Let_def split: if_splits)
  then obtain good las bad t1 where s: "scatter_entries D ?e cst q t = Some (good, las, bad, t1)"
    using assms Cons by (auto simp: HTCAsyncRecvScatterCompletion_def Let_def bind_eq_Some_conv)
  let ?u = "enqueue_indication ?e good (t1\<lparr>tx := (tx t1)\<lparr>scatter_free := Suc (scatter_free (tx t1))\<rparr>\<rparr>)"
  obtain t2 where t2: "(if bad then Some ?u else HTCAsyncRecvCheckMorePackets D las ?u) = Some t2"
    "t' = DrainRecvIndicationQueue ?e t2"
    using assms e Cons s by (auto simp: HTCAsyncRecvScatterCompletion_def Let_def bind_eq_Some_conv)
  then have "custody t2 \<subseteq># custody ?u" by (auto split: if_splits dest: custody_more)
  moreover have "custody ?u = custody t + ids q"
    using custody_entries [OF s] by (simp add: custody_enqueue [OF e] custody)
  ultimately show ?thesis using t2(2) custody_drain [OF e] by simp
qed

lemma flush_fold:
  "fold (flush_packet e) q t = t\<lparr>rx_indicated := rx_indicated t @
    map (\<lambda>p. (e, [p\<lparr>rx_Status := A_ECANCELED, rx_Length := 0\<rparr>])) q\<rparr>"
proof (induction q arbitrary: t)
  case (Cons p q)
  have "flush_packet e p t = t\<lparr>rx_indicated := rx_indicated t @ [(e, [p\<lparr>rx_Status := A_ECANCELED, rx_Length := 0\<rparr>])]\<rparr>"
    by (simp add: flush_packet_def DoRecvCompletion_def)
  then show ?case using Cons.IH [of "flush_packet e p t"] by simp
qed simp

text \<open>What a flush hands back: the packets received first, then the unused buffers.\<close>

definition flushed_rx :: "nat \<Rightarrow> HTC_RX_TARGET \<Rightarrow> (nat \<times> HTC_RX_PACKET list) list" where
  "flushed_rx e t = map (\<lambda>p. (e, [p\<lparr>rx_Status := A_ECANCELED, rx_Length := 0\<rparr>]))
     (RecvIndicationQueue (RxEp t e) @ RxBuffers (RxEp t e))"

lemma flush_endpoint:
  "HTCFlushEndpointRX e t = (upd_rx e (\<lambda>x. x\<lparr>RecvIndicationQueue := [], RxBuffers := []\<rparr>) t)
     \<lparr>rx_indicated := rx_indicated t @ flushed_rx e t\<rparr>"
  by (simp add: HTCFlushEndpointRX_def Let_def flush_fold upd_rx_def flushed_rx_def)

lemma custody_flush_fold:
  "custody (fold (flush_packet e) q t) = custody t + ids q"
proof (induction q arbitrary: t)
  case (Cons p ps)
  have "custody (flush_packet e p t) = custody t + {#rx_id p#}" by (simp add: flush_packet_def custody)
  with Cons.IH [of "flush_packet e p t"] show ?case by simp
qed simp

lemma custody_flush:
  assumes "e < ENDPOINT_MAX"
  shows "custody (HTCFlushEndpointRX e t) = custody t"
proof -
  have 1: "custody (upd_rx e (\<lambda>x. x\<lparr>RecvIndicationQueue := []\<rparr>) u) + ids (RecvIndicationQueue (RxEp u e)) = custody u"
    for u using custody_upd_rx [OF assms, of "\<lambda>x. x\<lparr>RecvIndicationQueue := []\<rparr>" u] by (simp add: ep_ids_def)
  have 2: "custody (upd_rx e (\<lambda>x. x\<lparr>RxBuffers := []\<rparr>) u) + ids (RxBuffers (RxEp u e)) = custody u"
    for u using custody_upd_rx [OF assms, of "\<lambda>x. x\<lparr>RxBuffers := []\<rparr>" u] by (simp add: ep_ids_def)
  show ?thesis unfolding HTCFlushEndpointRX_def Let_def by (simp only: custody_flush_fold 1 2)
qed

lemma custody_flush_all: "custody (HTCFlushRecvBuffers t) = custody t"
proof -
  let ?f = "\<lambda>e t. if ep_ServiceID (EndPoint (tx t) e) = 0 then t else HTCFlushEndpointRX e t"
  have "custody (fold ?f es u) = custody u" if "\<forall>e \<in> set es. e < ENDPOINT_MAX" for es u
    using that by (induction es arbitrary: u) (simp_all add: custody_flush)
  then show ?thesis by (simp add: HTCFlushRecvBuffers_def)
qed

lemma custody_switches [custody]:
  "custody (HTCUnblockRecv t) = custody t" "custody (HTCEnableRecv t) = custody t"
  "custody (HTCDisableRecv t) = custody t"
  by (simp_all add: HTCUnblockRecv_def HTCEnableRecv_def HTCDisableRecv_def Let_def custody)

subsection \<open>The receive side as a system\<close>

text \<open>
  Steps, labelled with the packets their caller hands to HTC.  A completion takes its request from
  those in flight; the device has put data into the buffers meanwhile.
\<close>

inductive rx_step :: "dist_fn \<Rightarrow> HTC_RX_TARGET \<Rightarrow> nat multiset \<Rightarrow> HTC_RX_TARGET \<Rightarrow> bool" for D where
  add: "HTCAddReceivePktMultiple q t = Some (st, t') \<Longrightarrow> rx_step D t (ids q) t'"
| pending: "HTCRecvMessagePendingHandler D las t = Some (st, n, t') \<Longrightarrow> rx_step D t {#} t'"
| complete: "in_flight t = rs1 @ ReqSingle p # rs2 \<Longrightarrow> rx_id p' = rx_id p \<Longrightarrow>
     HTCRecvCompleteHandler D p' (t\<lparr>in_flight := rs1 @ rs2\<rparr>) = Some t' \<Longrightarrow> rx_step D t {#} t'"
| scatter: "in_flight t = rs1 @ ReqScatter b q # rs2 \<Longrightarrow> map rx_id q' = map rx_id q \<Longrightarrow>
     HTCAsyncRecvScatterCompletion D cst q' (t\<lparr>in_flight := rs1 @ rs2\<rparr>) = Some t' \<Longrightarrow> rx_step D t {#} t'"
| flush: "rx_step D t {#} (HTCFlushRecvBuffers t)"
| unblock: "rx_step D t {#} (HTCUnblockRecv t)"
| enable: "rx_step D t {#} (HTCEnableRecv t)"
| disable: "rx_step D t {#} (HTCDisableRecv t)"

inductive rx_run :: "dist_fn \<Rightarrow> HTC_RX_TARGET \<Rightarrow> nat multiset \<Rightarrow> HTC_RX_TARGET \<Rightarrow> bool" for D where
  start: "rx_run D t {#} t"
| step: "rx_run D t A t' \<Longrightarrow> rx_step D t' B t'' \<Longrightarrow> rx_run D t (A + B) t''"

lemma custody_step: "rx_step D t A t' \<Longrightarrow> custody t' \<subseteq># custody t + A"
proof (induction rule: rx_step.induct)
  case (add q t st t')
  then show ?case using custody_add by fastforce
next
  case (pending las t st n t')
  then show ?case using custody_handler by fastforce
next
  case (complete t rs1 p rs2 p' t')
  have "custody (t\<lparr>in_flight := rs1 @ rs2\<rparr>) + {#rx_id p#} = custody t"
    using complete(1) by (simp add: custody_def flight_ids_def given_ids_def ac_simps)
  then show ?case using custody_complete [OF complete(3)] complete(2) by simp
next
  case (scatter t rs1 b q rs2 q' cst t')
  have "custody (t\<lparr>in_flight := rs1 @ rs2\<rparr>) + ids q = custody t"
    using scatter(1) by (simp add: custody_def flight_ids_def given_ids_def ac_simps)
  then show ?case using custody_scatter_complete [OF scatter(3)] scatter(2) by (simp only: add_0_right)
qed (simp_all add: custody_flush_all custody_switches)

text \<open>C16: Every receive packet is in one hand at a time: in every run of the receive side, whatever the
  device answers and the target sends, no packet is held or handed over more often than it was
  handed in, so that no buffer is indicated twice or indicated while still on a queue.\<close>

theorem htc_recv_single_owner:
  assumes "rx_run D t A t'"
  shows "count (custody t') i \<le> count (custody t) i + count A i"
proof -
  have "custody t' \<subseteq># custody t + A"
    using assms
  proof (induction rule: rx_run.induct)
    case (step t A t' B t'')
    from subset_mset.order_trans [OF custody_step [OF step(2)] subset_mset.add_right_mono [OF step.IH, of B]]
    show ?case by (simp add: add.assoc)
  qed simp
  then show ?thesis by (auto simp: subseteq_mset_def)
qed

end
