(* ===== verification/HtcSetup.thy ===== *)
theory HtcSetup
  imports HtcRecvProps
begin

text \<open>
  Setting HTC up and taking it down: \<open>host/htc2/htc.c\<close>, the service connections of
  \<open>host/htc2/htc_services.c\<close>, and the choice of a credit distribution scheme.

  An instance adds to the receive side (which holds the transmit side) the control buffers, the
  protocol version and the two functions behind \<open>InitCredits\<close> and \<open>DistributeCredits\<close>.
  \<open>ctrl_out\<close> logs the control messages sent.  What the device layer answers is an argument:
  \<open>poll\<close> is the lookahead \<open>DevPollMboxMsgRecv\<close> finds, \<open>hif\<close> the status of the synchronous write,
  \<open>scatter\<close> what HIF says of scatter requests and whether memory for emulated ones is found.  Numbers in messages are little endian.
\<close>

subsection \<open>Data\<close>

abbreviation (input) HTC_MSG_READY_ID :: nat where "HTC_MSG_READY_ID \<equiv> 1"
abbreviation (input) HTC_MSG_CONNECT_SERVICE_RESPONSE_ID :: nat where "HTC_MSG_CONNECT_SERVICE_RESPONSE_ID \<equiv> 3"
abbreviation (input) HTC_MAX_CONTROL_MESSAGE_LENGTH :: nat where "HTC_MAX_CONTROL_MESSAGE_LENGTH \<equiv> 256"
abbreviation (input) HTC_SERVICE_META_DATA_MAX_LENGTH :: nat where "HTC_SERVICE_META_DATA_MAX_LENGTH \<equiv> 128"
abbreviation (input) HTC_LOCAL_CONN_FLAGS_ENABLE_SEND_BUNDLE_PADDING :: "32 word" where
  "HTC_LOCAL_CONN_FLAGS_ENABLE_SEND_BUNDLE_PADDING \<equiv> 1"

type_synonym init_fn = "nat list \<Rightarrow> nat option \<Rightarrow> int \<Rightarrow> credit_st \<Rightarrow> credit_st option"

record HTC_INSTANCE =
  rx :: HTC_RX_TARGET
  ControlBufferTXFreeList :: "HTC_PACKET list"
  HTCTargetVersion :: nat
  InitCredits :: "init_fn option"
  DistributeCredits :: "dist_fn option"
  ctrl_out :: "bytes list"

record HTC_EP_CALLBACKS =
  cb_SendFull :: "(HTC_PACKET \<Rightarrow> bool) option"
  cb_TxCompleteMultiple :: bool
  cb_RecvPktMultiple :: bool
  cb_RecvAlloc :: "HTC_RX_PACKET option list option"
  cb_RecvAllocThresh :: "HTC_RX_PACKET option list option"
  cb_RecvAllocThreshold :: nat
  cb_RecvRefill :: "HTC_RX_PACKET list list option"
  cb_RecvRefillWaterMark :: int

text \<open>\<open>pMetaData\<close> is \<open>None\<close> for a null pointer; in the response it is the size of the caller's buffer.\<close>

record HTC_SERVICE_CONNECT_REQ =
  req_ServiceID :: nat
  ConnectionFlags :: nat
  req_MetaData :: "bytes option"
  EpCallbacks :: HTC_EP_CALLBACKS
  MaxSendQueueDepth :: int
  LocalConnectionFlags :: "32 word"
  MaxSendMsgSize :: nat
  resp_room :: "nat option"

record HTC_SERVICE_CONNECT_RESP =
  resp_MetaData :: bytes
  resp_Endpoint :: nat
  MaxMsgLengthResp :: nat
  ConnectRespCode :: nat

record hif_scatter =
  NO_BUNDLING :: bool
  scatter_status :: A_STATUS
  MaxScatterEntries :: nat
  MaxTransferSize :: nat
  ExtendedSize :: "nat option"
  request_alloc :: "nat \<Rightarrow> bool"

definition upd_tx :: "(HTC_TARGET \<Rightarrow> HTC_TARGET) \<Rightarrow> HTC_INSTANCE \<Rightarrow> HTC_INSTANCE" where
  "upd_tx f h = h\<lparr>rx := (rx h)\<lparr>tx := f (tx (rx h))\<rparr>\<rparr>"

text \<open>The distribution function in use; a call through a null pointer faults.\<close>

definition dist_of :: "HTC_INSTANCE \<Rightarrow> dist_fn" where
  "dist_of h order p r s = (case DistributeCredits h of None \<Rightarrow> None | Some D \<Rightarrow> D order p r s)"

subsection \<open>Creating an instance\<close>

text \<open>What HIF answers to the queries of \<open>DevSetup\<close>.\<close>

record hif_config =
  attach_status :: A_STATUS
  mbox_status :: A_STATUS
  block_status :: A_STATUS
  block_size :: "32 word"
  sync_only :: bool
  yield_count :: nat
  disable_status :: A_STATUS

definition DevSetup :: "hif_config \<Rightarrow> HTC_RX_TARGET \<Rightarrow> A_STATUS \<times> HTC_RX_TARGET" where
  "DevSetup c t =
     (if A_FAILED (attach_status c) then (attach_status c, t)
      else if A_FAILED (mbox_status c) then (mbox_status c, t)
      else if A_FAILED (block_status c) then (block_status c, t)
      else (disable_status c,
        t\<lparr>tx := (tx t)\<lparr>BlockMask := block_size c - 1\<rparr>, ASYNC_ALLOWED := \<not> sync_only c,
          DSRCanYield := sync_only c \<and> yield_count c > 0,
          RecvPacketYieldCount := (if sync_only c then yield_count c else 0)\<rparr>))"

text \<open>The cleared structure.\<close>

definition zero_dist :: HTC_ENDPOINT_CREDIT_DIST where
  "zero_dist = \<lparr>cd_ServiceID = 0, DistFlags = 0, TxCreditsNorm = 0, TxCreditsMin = 0, TxCreditsAssigned = 0,
     TxCredits = 0, TxCreditsToDist = 0, TxCreditsSeek = 0, TxCreditSize = 0, TxCreditsPerMaxMsg = 0,
     cd_TxQueueDepth = 0\<rparr>"

definition zero_target :: HTC_RX_TARGET where
  "zero_target = \<lparr>
     RxEp = (\<lambda>e. \<lparr>RxBuffers = [], RecvIndicationQueue = [], RxProcessCount = 0, EpRecvPktMultiple = False,
       EpRecvAlloc = None, EpRecvAllocThresh = None, RecvAllocThreshold = 0, EpRecvRefill = None,
       RecvRefillWaterMark = 0\<rparr>),
     tx = \<lparr>EndPoint = (\<lambda>e. \<lparr>ep_ServiceID = 0, TxQueue = [], EpSendFull = None, EpTxCompleteMultiple = False,
         MaxTxQueueDepth = 0, MaxMsgLength = 0, TxProcessCount = 0, ep_SeqNo = 0, SendBundlePadding = False\<rparr>),
       CreditDist = (\<lambda>e. zero_dist), DistList = [],
       CredInfo = \<lparr>TotalAvailableCredits = 0, CurrentFreeCredits = 0, pLowestPriEpDist = None\<rparr>,
       TargetCredits = 0, TargetCreditSize = 0, BlockMask = 0, MaxMsgPerBundle = 0, SendBundlingEnabled = False,
       MaxSendBundleSize = 0, scatter_free = 0, Stopping = False, sent = [], indicated = []\<rparr>,
     WAIT_BUFFERS = False, EpWaitingForBuffers = ENDPOINT_MAX, RecvBundlingEnabled = False,
     MaxRecvBundleSize = 0, DSRCanYield = False, CurrentDSRRecvCount = 0, RecvPacketYieldCount = 0,
     ASYNC_ALLOWED = False, ControlBufferRXFreeList = [], dev_in = [], recv_on = False, in_flight = [],
     rx_indicated = []\<rparr>"

text \<open>
  \<open>malloc i\<close> tells whether the \<open>i\<close>th allocation succeeds (the structure, then the eight buffers) and
  \<open>heap i\<close> is the uninitialised memory it returns.  \<open>None\<close> is the null handle of a failed creation.
\<close>

definition control_rx :: "nat \<Rightarrow> (nat \<Rightarrow> nat \<Rightarrow> byte) \<Rightarrow> nat \<Rightarrow> HTC_RX_PACKET" where
  "control_rx n heap i = HTC_PACKET_RESET_RX \<lparr>rx_id = i, rx_buf = map (heap i) [0..<n], rx_off = 0,
     BufferLength = n, rx_Length = 0, rx_Endpoint = 0, rx_Status = A_ERROR, ExpectedHdr = (0, 0, 0, 0),
     IGNORE_LOOKAHEAD = False, REFRESH_HDR = False, PART_OF_BUNDLE = False, NO_RECYCLE = False,
     INDICATE_MORE_PKTS = False\<rparr>"

definition control_tx :: "nat \<Rightarrow> HTC_PACKET" where
  "control_tx i = \<lparr>pk_id = i, pBuffer = 0,
     pHdr = \<lparr>EndpointID = 0, Flags = 0, PayloadLen = 0, ControlBytes0 = 0, ControlBytes1 = 0\<rparr>,
     ActualLength = 0, pk_Endpoint = 0, pk_Status = A_ERROR, Tag = 0, CreditsUsed = 0, SendFlags = 0,
     pk_SeqNo = 0, Completion = False\<rparr>"

definition HTCCreate :: "(nat \<Rightarrow> bool) \<Rightarrow> (nat \<Rightarrow> nat \<Rightarrow> byte) \<Rightarrow> hif_config \<Rightarrow> HTC_INSTANCE option" where
  "HTCCreate malloc heap c =
     (let (st, t) = DevSetup c zero_target;
          n = (if unat (block_size c) > HTC_MAX_CONTROL_MESSAGE_LENGTH
               then unat (block_size c) + HTC_HDR_LENGTH else HTC_MAX_CONTROL_MESSAGE_LENGTH + HTC_HDR_LENGTH)
      in if \<not> malloc 0 \<or> A_FAILED st \<or> A_FAILED (block_status c) \<or> \<not> (\<forall>i \<in> {1..8}. malloc i) then None
         else Some \<lparr>rx = t\<lparr>ControlBufferRXFreeList := map (control_rx n heap) [1..<7]\<rparr>,
           ControlBufferTXFreeList = map control_tx [7..<9], HTCTargetVersion = 0,
           InitCredits = None, DistributeCredits = None, ctrl_out = []\<rparr>)"

subsection \<open>Control messages\<close>

definition HTC_ALLOC_CONTROL_TX :: "HTC_INSTANCE \<Rightarrow> (HTC_PACKET \<times> HTC_INSTANCE) option" where
  "HTC_ALLOC_CONTROL_TX h = (case ControlBufferTXFreeList h of
       [] \<Rightarrow> None
     | p # ps \<Rightarrow> Some (p\<lparr>pBuffer := 0\<rparr>, h\<lparr>ControlBufferTXFreeList := ps\<rparr>))"

definition HTC_FREE_CONTROL_TX :: "HTC_PACKET \<Rightarrow> HTC_INSTANCE \<Rightarrow> HTC_INSTANCE" where
  "HTC_FREE_CONTROL_TX p h = h\<lparr>ControlBufferTXFreeList := ControlBufferTXFreeList h @ [p]\<rparr>"

text \<open>
  A control message: \<open>SET_HTC_PACKET_INFO_TX\<close>, \<open>HTC_PREPARE_SEND_PKT\<close> and \<open>HTCIssueSend\<close>, without a
  completion routine and thus synchronous.
\<close>

definition send_control :: "A_STATUS \<Rightarrow> bytes \<Rightarrow> HTC_PACKET \<Rightarrow> HTC_INSTANCE \<Rightarrow>
    A_STATUS \<times> HTC_PACKET \<times> HTC_INSTANCE" where
  "send_control hif msg p h =
     (let p = p\<lparr>ActualLength := length msg, pk_Endpoint := 0, Tag := 1, Completion := False\<rparr>;
          p = HTC_PREPARE_SEND_PKT p 0 0 0;
          (t, st, p) = HTCIssueSend hif p (tx (rx h))
      in (st, p, (upd_tx (\<lambda>_. t) h)\<lparr>ctrl_out := ctrl_out h @ [msg]\<rparr>))"

definition HTCSendSetupComplete :: "A_STATUS \<Rightarrow> HTC_INSTANCE \<Rightarrow> A_STATUS \<times> HTC_INSTANCE" where
  "HTCSendSetupComplete hif h = (case HTC_ALLOC_CONTROL_TX h of
       None \<Rightarrow> (A_NO_MEMORY, h)
     | Some (p, h) \<Rightarrow>
         let n = MaxMsgPerBundle (tx (rx h));
             msg = (if HTCTargetVersion h \<ge> 1
                    then le16_bytes 5 @ (if n > 0 then [1, 0, 0, 0, word_of_int n] else [0, 0, 0, 0, 0]) @ [0, 0, 0]
                    else le16_bytes 4);
             (st, p, h) = send_control hif msg p h
         in (st, HTC_FREE_CONTROL_TX p h))"

subsection \<open>Connecting a service\<close>

text \<open>
  The parameter checks and the set-up of the endpoint, the last part of \<open>HTCConnectService\<close>.  An
  endpoint is marked as in use before the size the caller asks for is checked.
\<close>

definition connect_endpoint :: "nat \<Rightarrow> nat \<Rightarrow> HTC_SERVICE_CONNECT_REQ \<Rightarrow> HTC_SERVICE_CONNECT_RESP \<Rightarrow>
    HTC_INSTANCE \<Rightarrow> (A_STATUS \<times> HTC_SERVICE_CONNECT_RESP \<times> HTC_INSTANCE) option" where
  "connect_endpoint e maxMsgSize req resp h =
     (if e \<ge> ENDPOINT_MAX \<or> maxMsgSize = 0 \<or> ep_ServiceID (EndPoint (tx (rx h)) e) \<noteq> 0
      then Some (A_EPROTO, resp, h)
      else
        let resp = resp\<lparr>resp_Endpoint := e, MaxMsgLengthResp := maxMsgSize\<rparr>;
            cb = EpCallbacks req; svc = req_ServiceID req;
            csize = TargetCreditSize (tx (rx h));
            h = upd_tx (upd_ep e (\<lambda>x. x\<lparr>ep_ServiceID := svc, MaxTxQueueDepth := MaxSendQueueDepth req,
                  MaxMsgLength := maxMsgSize, EpSendFull := cb_SendFull cb,
                  EpTxCompleteMultiple := cb_TxCompleteMultiple cb\<rparr>)) h;
            h = h\<lparr>rx := upd_rx e (\<lambda>x. x\<lparr>EpRecvPktMultiple := cb_RecvPktMultiple cb,
                  EpRecvAlloc := cb_RecvAlloc cb, EpRecvAllocThresh := cb_RecvAllocThresh cb,
                  RecvAllocThreshold := cb_RecvAllocThreshold cb, EpRecvRefill := cb_RecvRefill cb,
                  RecvRefillWaterMark := cb_RecvRefillWaterMark cb\<rparr>) (rx h)\<rparr>;
            h = upd_tx (upd_cd e (\<lambda>d. d\<lparr>cd_ServiceID := svc, TxCreditSize := int csize\<rparr>)) h
        in if MaxSendMsgSize req > maxMsgSize then Some (A_EPROTO, resp, h)
           else if csize = 0 then None
           else
             let msg = (if MaxSendMsgSize req \<noteq> 0 then MaxSendMsgSize req else maxMsgSize);
                 n = (if msg div csize = 0 then 1 else msg div csize)
             in Some (A_OK, resp,
                  upd_tx (upd_ep e (\<lambda>x. x\<lparr>SendBundlePadding := LocalConnectionFlags req
                       AND HTC_LOCAL_CONN_FLAGS_ENABLE_SEND_BUNDLE_PADDING \<noteq> 0\<rparr>)
                     \<circ> upd_cd e (\<lambda>d. d\<lparr>TxCreditsPerMaxMsg := int n\<rparr>)) h))"

definition connect_message :: "HTC_SERVICE_CONNECT_REQ \<Rightarrow> bytes" where
  "connect_message req =
     (let m = (case req_MetaData req of None \<Rightarrow> []
               | Some m \<Rightarrow> if length m \<le> HTC_SERVICE_META_DATA_MAX_LENGTH then m else [])
      in le16_bytes 2 @ le16_bytes (req_ServiceID req) @ le16_bytes (ConnectionFlags req)
           @ [word_of_nat (length m), 0] @ m)"

text \<open>
  The response in the packet \<open>p\<close>: the endpoint and its message size, or the failure.  The meta
  data is copied as long as its stated length, which is not compared with that of the packet.
\<close>

definition connect_response :: "HTC_SERVICE_CONNECT_REQ \<Rightarrow> HTC_SERVICE_CONNECT_RESP \<Rightarrow> HTC_RX_PACKET \<Rightarrow>
    (A_STATUS \<times> HTC_SERVICE_CONNECT_RESP \<times> nat \<times> nat) option" where
  "connect_response req resp p = do {
     msg \<leftarrow> blk (rx_off p) 10 (rx_buf p);
     if le16 (msg ! 0) (msg ! 1) \<noteq> HTC_MSG_CONNECT_SERVICE_RESPONSE_ID \<or> rx_Length p < 10
     then Some (A_EPROTO, resp, 0, 0)
     else do {
       let resp = resp\<lparr>ConnectRespCode := unat (msg ! 4)\<rparr>;
       if msg ! 4 \<noteq> 0 then Some (A_EPROTO, resp, 0, 0)
       else do {
         let n = unat (msg ! 8);
         meta \<leftarrow> (case resp_room req of
             Some room \<Rightarrow> if n > 0 \<and> n \<le> HTC_SERVICE_META_DATA_MAX_LENGTH
                         then blk (rx_off p + 10) (min room n) (rx_buf p) else Some (resp_MetaData resp)
           | None \<Rightarrow> Some (resp_MetaData resp));
         Some (A_OK, resp\<lparr>resp_MetaData := meta\<rparr>, unat (msg ! 5), le16 (msg ! 6) (msg ! 7))
       }
     }
   }"

definition HTCConnectService :: "A_STATUS \<Rightarrow> A_STATUS \<times> lookahead \<Rightarrow> HTC_SERVICE_CONNECT_REQ \<Rightarrow>
    HTC_SERVICE_CONNECT_RESP \<Rightarrow> HTC_INSTANCE \<Rightarrow>
    (A_STATUS \<times> HTC_SERVICE_CONNECT_RESP \<times> HTC_INSTANCE) option" where
  "HTCConnectService hif poll req resp h =
     (if req_ServiceID req = HTC_CTRL_RSVD_SVC
      then connect_endpoint 0 HTC_MAX_CONTROL_MESSAGE_LENGTH req resp h
      else case HTC_ALLOC_CONTROL_TX h of
          None \<Rightarrow> Some (A_NO_MEMORY, resp, h)
        | Some (sp, h) \<Rightarrow>
            (case send_control hif (connect_message req) sp h of (st, sp, h) \<Rightarrow>
              if A_FAILED st then Some (st, resp, HTC_FREE_CONTROL_TX sp h)
              else do {
                (st, rp, t) \<leftarrow> HTCWaitforControlMessage (dist_of h) poll (rx h);
                let h = h\<lparr>rx := t\<rparr>;
                case rp of
                  None \<Rightarrow> Some (st, resp, HTC_FREE_CONTROL_TX sp h)
                | Some rp \<Rightarrow> do {
                    (st, resp, e, maxMsgSize) \<leftarrow> connect_response req resp rp;
                    (st, resp, h) \<leftarrow> (if A_FAILED st then Some (st, resp, h)
                                      else connect_endpoint e maxMsgSize req resp h);
                    let h = HTC_FREE_CONTROL_TX sp h;
                    Some (st, resp, h\<lparr>rx := HTC_FREE_CONTROL_RX rp (rx h)\<rparr>)
                  }
              }))"

subsection \<open>Choosing the distribution scheme\<close>

text \<open>
  Appending to the list of distribution structures.  A structure that is on the list already
  would cut it short, with a back pointer that leaves the list: outside the model, \<open>None\<close>.
\<close>

definition AddToEndpointDistList :: "nat \<Rightarrow> nat list \<Rightarrow> nat list option" where
  "AddToEndpointDistList e order = (if e \<in> set order then None else Some (order @ [e]))"

text \<open>The first endpoint, after endpoint 0, that is connected to a service.\<close>

definition endpoint_of :: "HTC_TARGET \<Rightarrow> nat \<Rightarrow> nat option" where
  "endpoint_of t svc = find (\<lambda>e. ep_ServiceID (EndPoint t e) = svc) [1..<ENDPOINT_MAX]"

fun add_services :: "HTC_TARGET \<Rightarrow> nat list \<Rightarrow> nat list \<Rightarrow> nat list option" where
  "add_services t [] order = Some order"
| "add_services t (s # ss) order = (case endpoint_of t s of
       None \<Rightarrow> add_services t ss order
     | Some e \<Rightarrow> Option.bind (AddToEndpointDistList e order) (add_services t ss))"

definition HTCSetCreditDistribution :: "init_fn option \<Rightarrow> dist_fn option \<Rightarrow> nat list \<Rightarrow> HTC_INSTANCE \<Rightarrow>
    HTC_INSTANCE option" where
  "HTCSetCreditDistribution init dist services h =
     (let h = (if init \<noteq> None then h\<lparr>InitCredits := init, DistributeCredits := dist\<rparr>
               else h\<lparr>InitCredits := Some HTCDefaultCreditInit, DistributeCredits := Some HTCDefaultCreditDist\<rparr>)
      in do {
        order \<leftarrow> AddToEndpointDistList 0 (DistList (tx (rx h)));
        order \<leftarrow> add_services (tx (rx h)) services order;
        Some (upd_tx (\<lambda>t. t\<lparr>DistList := order\<rparr>) h)
      })"

definition ar6000_setup_credit_dist :: "HTC_INSTANCE \<Rightarrow> HTC_INSTANCE option" where
  "ar6000_setup_credit_dist h =
     HTCSetCreditDistribution (Some ar6000_credit_init) (Some ar6000_credit_distribute)
       [WMI_CONTROL_SVC, WMI_DATA_VO_SVC, WMI_DATA_VI_SVC, WMI_DATA_BE_SVC, WMI_DATA_BK_SVC]
       (upd_tx (\<lambda>t. t\<lparr>CredInfo := \<lparr>TotalAvailableCredits = 0, CurrentFreeCredits = 0,
          pLowestPriEpDist = None\<rparr>\<rparr>) h)"

subsection \<open>Waiting for the target\<close>

text \<open>
  Scatter requests emulated by the device layer, for a HIF that has none: four requests are
  allocated, and all are freed again when one is missing.
\<close>

definition DevSetupVirtualScatterSupport :: "hif_scatter \<Rightarrow> A_STATUS \<times> hif_scatter" where
  "DevSetupVirtualScatterSupport s =
     (if \<forall>i \<in> {0..<4}. request_alloc s i
      then (A_OK, s\<lparr>MaxScatterEntries := 16, MaxTransferSize := 16 * 1024\<rparr>) else (A_NO_MEMORY, s))"

definition scatter_support :: "hif_scatter \<Rightarrow> A_STATUS \<times> hif_scatter" where
  "scatter_support s =
     (if A_FAILED (scatter_status s) then DevSetupVirtualScatterSupport s else (scatter_status s, s))"

definition DevSetupMsgBundling :: "hif_scatter \<Rightarrow> HTC_RX_TARGET \<Rightarrow> A_STATUS \<times> HTC_RX_TARGET" where
  "DevSetupMsgBundling s t =
     (if NO_BUNDLING s then (A_ENOTSUP, t)
      else let (st, s) = scatter_support s
        in if A_FAILED st then (st, t)
           else
             let n = (case ExtendedSize s of Some n \<Rightarrow> n | None \<Rightarrow> 2048);
                 n = (if n > MaxTransferSize s then MaxTransferSize s else n)
             in (st, t\<lparr>MaxRecvBundleSize := MaxTransferSize s, tx := (tx t)\<lparr>MaxSendBundleSize := n\<rparr>\<rparr>))"

text \<open>The bundle limits, from what the target offers and what the device layer can do.\<close>

definition setup_bundling :: "hif_scatter \<Rightarrow> nat \<Rightarrow> HTC_RX_TARGET \<Rightarrow> HTC_RX_TARGET" where
  "setup_bundling s offered t =
     (if offered > 0 then
        let n = min HTC_HOST_MAX_MSG_PER_BUNDLE offered;
            (st, t) = DevSetupMsgBundling s t;
            n = (if A_FAILED st then 0 else min (MaxScatterEntries (snd (scatter_support s))) n);
            t = t\<lparr>tx := (tx t)\<lparr>MaxMsgPerBundle := int n\<rparr>\<rparr>
        in if n > 0 then t\<lparr>RecvBundlingEnabled := True,
               tx := (tx t)\<lparr>SendBundlingEnabled :=
                 TargetCreditSize (tx t) mod Suc (unat (BlockMask (tx t))) = 0\<rparr>\<rparr>
           else t
      else t\<lparr>tx := (tx t)\<lparr>MaxMsgPerBundle := 0\<rparr>\<rparr>)"

definition control_connect :: HTC_SERVICE_CONNECT_REQ where
  "control_connect = \<lparr>req_ServiceID = HTC_CTRL_RSVD_SVC, ConnectionFlags = 0, req_MetaData = None,
     EpCallbacks = \<lparr>cb_SendFull = None, cb_TxCompleteMultiple = False, cb_RecvPktMultiple = False,
       cb_RecvAlloc = None, cb_RecvAllocThresh = None, cb_RecvAllocThreshold = 0, cb_RecvRefill = None,
       cb_RecvRefillWaterMark = 0\<rparr>,
     MaxSendQueueDepth = 8, LocalConnectionFlags = 0, MaxSendMsgSize = 0, resp_room = None\<rparr>"

definition empty_resp :: HTC_SERVICE_CONNECT_RESP where
  "empty_resp = \<lparr>resp_MetaData = [], resp_Endpoint = 0, MaxMsgLengthResp = 0, ConnectRespCode = 0\<rparr>"

text \<open>
  The ready message in the packet \<open>p\<close>: credits, size of a credit, and for the extended message
  the protocol version and the bundle size offered.
\<close>

definition ready_message :: "HTC_RX_PACKET \<Rightarrow> (nat \<times> nat \<times> nat \<times> nat) option option" where
  "ready_message p = do {
     msg \<leftarrow> blk (rx_off p) 8 (rx_buf p);
     let credits = le16 (msg ! 2) (msg ! 3);
     let csize = le16 (msg ! 4) (msg ! 5);
     if le16 (msg ! 0) (msg ! 1) \<noteq> HTC_MSG_READY_ID \<or> rx_Length p < 8 \<or> credits = 0 \<or> csize = 0 then Some None
     else if rx_Length p < 10 then Some (Some (credits, csize, 0, 0))
     else do {
       ext \<leftarrow> blk (rx_off p + 8) 2 (rx_buf p);
       Some (Some (credits, csize, unat (ext ! 0), unat (ext ! 1)))
     }
   }"

definition HTCWaitTarget :: "A_STATUS \<times> lookahead \<Rightarrow> hif_scatter \<Rightarrow> A_STATUS \<Rightarrow> HTC_INSTANCE \<Rightarrow>
    (A_STATUS \<times> HTC_INSTANCE) option" where
  "HTCWaitTarget poll scatter gmbox h = do {
     (st, rp, t) \<leftarrow> HTCWaitforControlMessage (dist_of h) poll (rx h);
     let h = h\<lparr>rx := t\<rparr>;
     case rp of
       None \<Rightarrow> Some (st, h)
     | Some p \<Rightarrow> do {
         ready \<leftarrow> ready_message p;
         (st, h) \<leftarrow> (case ready of
             None \<Rightarrow> Some (A_EPROTO, h)
           | Some (credits, csize, version, offered) \<Rightarrow> do {
               let h = (upd_tx (\<lambda>t. t\<lparr>TargetCredits := int credits, TargetCreditSize := csize\<rparr>) h)
                         \<lparr>HTCTargetVersion := version\<rparr>;
               let h = h\<lparr>rx := setup_bundling scatter offered (rx h)\<rparr>;
               if A_FAILED gmbox then Some (gmbox, h)
               else do {
                 (st, resp, h) \<leftarrow> HTCConnectService A_OK (A_OK, 0, 0, 0, 0) control_connect empty_resp h;
                 Some (st, h)
               }
             });
         Some (st, h\<lparr>rx := HTC_FREE_CONTROL_RX p (rx h)\<rparr>)
       }
   }"

subsection \<open>Starting and stopping\<close>

definition ResetEndpointStates :: "HTC_INSTANCE \<Rightarrow> HTC_INSTANCE" where
  "ResetEndpointStates h =
     (let in_range = (\<lambda>e. e < ENDPOINT_MAX)
      in h\<lparr>rx := (rx h)\<lparr>
           RxEp := (\<lambda>e. if in_range e then (RxEp (rx h) e)\<lparr>RxBuffers := [], RecvIndicationQueue := []\<rparr>
                        else RxEp (rx h) e),
           tx := (tx (rx h))\<lparr>
             CreditDist := (\<lambda>e. if in_range e then zero_dist else CreditDist (tx (rx h)) e),
             EndPoint := (\<lambda>e. if in_range e
                then (EndPoint (tx (rx h)) e)\<lparr>ep_ServiceID := 0, MaxMsgLength := 0, MaxTxQueueDepth := 0, TxQueue := []\<rparr>
                else EndPoint (tx (rx h)) e),
             DistList := []\<rparr>\<rparr>\<rparr>)"

text \<open>HTC itself owns endpoint 0: what is indicated there goes to \<open>HTCControlRecv\<close>.\<close>

fun serve_control :: "(nat \<times> HTC_RX_PACKET list) list \<Rightarrow> HTC_RX_TARGET \<Rightarrow> HTC_RX_TARGET option" where
  "serve_control [] t = Some t"
| "serve_control ((e, q) # xs) t = do {
     t \<leftarrow> (if e = 0 then fold (\<lambda>p t. Option.bind t (HTCControlRecv p)) q (Some t) else Some t);
     serve_control xs t
   }"

definition HTCStop :: "HTC_INSTANCE \<Rightarrow> HTC_INSTANCE option" where
  "HTCStop h =
     (let h = upd_tx (\<lambda>t. HTCFlushSendPkts (t\<lparr>Stopping := True\<rparr>)) h;
          t = HTCFlushRecvBuffers (rx h);
          fresh = drop (length (rx_indicated (rx h))) (rx_indicated t)
      in do {
        t \<leftarrow> (if ep_ServiceID (EndPoint (tx t) 0) = HTC_CTRL_RSVD_SVC then serve_control fresh t else Some t);
        Some (ResetEndpointStates (h\<lparr>rx := t\<rparr>))
      })"

fun push_control :: "HTC_RX_PACKET list \<Rightarrow> HTC_RX_TARGET \<Rightarrow> HTC_RX_TARGET option" where
  "push_control [] t = Some t"
| "push_control (p # ps) t = do {
     (st, t) \<leftarrow> HTCAddReceivePkt p t;
     push_control ps t
   }"

definition HTCStart :: "A_STATUS \<Rightarrow> A_STATUS \<Rightarrow> HTC_INSTANCE \<Rightarrow> (A_STATUS \<times> HTC_INSTANCE) option" where
  "HTCStart hif unmask h = do {
     let t = (rx h)\<lparr>WAIT_BUFFERS := False, tx := (tx (rx h))\<lparr>Stopping := False\<rparr>\<rparr>;
     t \<leftarrow> push_control (ControlBufferRXFreeList t) (t\<lparr>ControlBufferRXFreeList := []\<rparr>);
     init \<leftarrow> InitCredits h;
     nxt \<leftarrow> head_next (tx t);
     (ci, cd) \<leftarrow> init (DistList (tx t)) nxt (TargetCredits (tx t)) (CredInfo (tx t), CreditDist (tx t));
     let h = h\<lparr>rx := t\<lparr>tx := (tx t)\<lparr>CredInfo := ci, CreditDist := cd\<rparr>\<rparr>\<rparr>;
     let (st, h) = HTCSendSetupComplete hif h;
     if A_FAILED st then Some (st, h)
     else if A_FAILED unmask then map_option (Pair unmask) (HTCStop h)
     else Some (A_OK, h)
   }"

end
