(* ===== verification/HtcSendProps.thy ===== *)
theory HtcSendProps
  imports HtcSend "HOL-Library.Multiset"
begin

text \<open>
  The transmit side over any distribution function that keeps the contract
  \<open>credit_distribution\<close>: no operation faults, packets leave in order and none is lost or sent
  twice, and the credits of the target are accounted for.  The lemmas are proved once in the
  locale and reach the properties through its interpretations.
\<close>

subsection \<open>The invariant and the credit ledger\<close>

definition credit_view :: "HTC_TARGET \<Rightarrow> credit_st" where
  "credit_view t = (CredInfo t, CreditDist t)"

definition target_ok :: "(nat list \<Rightarrow> COMMON_CREDIT_STATE_INFO \<Rightarrow> bool) \<Rightarrow> HTC_TARGET \<Rightarrow> bool" where
  "target_ok ready t \<longleftrightarrow> ready (DistList t) (CredInfo t) \<and> DistList t \<noteq> [] \<and> 0 < TargetCreditSize t \<and>
     credits_ok (set (DistList t)) (credit_view t)"

text \<open>Credits the host has, and credits it has spent on packets handed to the device.\<close>

definition ledger :: "HTC_TARGET \<Rightarrow> int" where
  "ledger t = pool (set (DistList t)) (credit_view t)"

definition spent :: "HTC_TARGET \<Rightarrow> int" where
  "spent t = sum_list (map snd (sent_keys t))"

definition queue_ids :: "nat \<Rightarrow> HTC_TARGET \<Rightarrow> nat list" where
  "queue_ids e t = map pk_id (TxQueue (EndPoint t e))"

definition sent_ids :: "HTC_TARGET \<Rightarrow> nat list" where
  "sent_ids t = map fst (sent_keys t)"

text \<open>Why sending stopped: the queue is empty, or its head needs more credits than there are.\<close>

definition exhausted :: "nat \<Rightarrow> HTC_TARGET \<Rightarrow> bool" where
  "exhausted e t \<longleftrightarrow> (case TxQueue (EndPoint t e) of [] \<Rightarrow> True
     | p # _ \<Rightarrow> (case creditsRequired t p of None \<Rightarrow> False | Some n \<Rightarrow> credits_of t e < n))"

named_theorems htc_view \<open>the projections that the ledger and the invariant read\<close>

lemma view_upd_cd [htc_view]:
  "credit_view (upd_cd e f t) = (CredInfo t, (CreditDist t)(e := f (CreditDist t e)))"
  "DistList (upd_cd e f t) = DistList t" "TargetCreditSize (upd_cd e f t) = TargetCreditSize t"
  "CredInfo (upd_cd e f t) = CredInfo t" "EndPoint (upd_cd e f t) = EndPoint t"
  "sent (upd_cd e f t) = sent t" "BlockMask (upd_cd e f t) = BlockMask t"
  "CreditDist (upd_cd e f t) = (CreditDist t)(e := f (CreditDist t e))"
  "indicated (upd_cd e f t) = indicated t"
  by (simp_all add: credit_view_def upd_cd_def)

lemma view_upd_ep [htc_view]:
  "credit_view (upd_ep e g t) = credit_view t" "DistList (upd_ep e g t) = DistList t"
  "TargetCreditSize (upd_ep e g t) = TargetCreditSize t" "CredInfo (upd_ep e g t) = CredInfo t"
  "EndPoint (upd_ep e g t) = (EndPoint t)(e := g (EndPoint t e))" "sent (upd_ep e g t) = sent t"
  "BlockMask (upd_ep e g t) = BlockMask t" "CreditDist (upd_ep e g t) = CreditDist t"
  "indicated (upd_ep e g t) = indicated t"
  by (simp_all add: credit_view_def upd_ep_def)

lemma target_ok_upd_ep [simp]: "target_ok ready (upd_ep e g t) = target_ok ready t"
  by (simp add: target_ok_def htc_view)

lemma ledger_upd_ep [simp]: "ledger (upd_ep e g t) = ledger t"
  by (simp add: ledger_def htc_view)

lemma spent_upd [simp]: "spent (upd_ep e g t) = spent t" "spent (upd_cd e f t) = spent t"
  by (simp_all add: spent_def sent_keys_def htc_view)

lemma credits_only_spent: "credits_only t t' \<Longrightarrow> spent t' = spent t \<and> sent_keys t' = sent_keys t"
  using credits_onlyD [of t t'] by (simp add: spent_def sent_keys_def)

text \<open>Updates of a distribution structure that HTC makes itself.\<close>

lemma ledger_upd_cd:
  assumes "e \<in> set (DistList t)"
  shows "ledger (upd_cd e f t) = ledger t
    + (TxCredits (f (CreditDist t e)) + TxCreditsToDist (f (CreditDist t e)))
    - (TxCredits (CreditDist t e) + TxCreditsToDist (CreditDist t e))"
  using sum_update [of "set (DistList t)" e "\<lambda>d. TxCredits d + TxCreditsToDist d" "CreditDist t"
      "f (CreditDist t e)"] assms
  by (simp add: ledger_def pool_def htc_view) (simp add: credit_view_def)

lemma ledger_upd_cd_same:
  assumes "\<And>d. TxCredits (f d) = TxCredits d" "\<And>d. TxCreditsToDist (f d) = TxCreditsToDist d"
  shows "ledger (upd_cd e f t) = ledger t"
proof -
  have "TxCredits (((CreditDist t)(e := f (CreditDist t e))) x) = TxCredits (CreditDist t x)"
    "TxCreditsToDist (((CreditDist t)(e := f (CreditDist t e))) x) = TxCreditsToDist (CreditDist t x)" for x
    using assms by simp_all
  then show ?thesis by (simp add: ledger_def pool_def htc_view) (simp add: credit_view_def)
qed

lemma target_ok_upd_cd:
  assumes "target_ok ready t" "0 \<le> TxCredits (f (CreditDist t e))"
    and "0 \<le> TxCreditsToDist (f (CreditDist t e))"
    and "TxCreditsAssigned (f (CreditDist t e)) = TxCreditsAssigned (CreditDist t e)"
    and "TxCreditsMin (f (CreditDist t e)) = TxCreditsMin (CreditDist t e)"
    and "TxCreditsNorm (f (CreditDist t e)) = TxCreditsNorm (CreditDist t e)"
  shows "target_ok ready (upd_cd e f t)"
  using assms by (auto simp: target_ok_def htc_view credits_ok_def credit_view_def)

lemma creditsRequired_cong:
  "TargetCreditSize t' = TargetCreditSize t \<Longrightarrow> BlockMask t' = BlockMask t \<Longrightarrow>
   ActualLength p' = ActualLength p \<Longrightarrow> creditsRequired t' p' = creditsRequired t p"
  by (simp add: creditsRequired_def DEV_CALC_SEND_PADDED_LEN_def)

lemma creditsRequired_ok:
  "0 < TargetCreditSize t \<Longrightarrow> \<exists>n. creditsRequired t p = Some n \<and> 0 < n"
proof -
  assume sz: "0 < TargetCreditSize t"
  let ?l = "DEV_CALC_SEND_PADDED_LEN t (ActualLength p + HTC_HDR_LENGTH)"
  have "0 < ?l div TargetCreditSize t" if "TargetCreditSize t < ?l"
    using that sz by (simp add: div_greater_zero_iff)
  then show ?thesis using sz by (auto simp: creditsRequired_def Let_def)
qed

text \<open>The credits taken for a packet cover its padded length, and one fewer would not.\<close>

lemma creditsRequired_covers:
  assumes "creditsRequired t p = Some n" "0 < TargetCreditSize t"
    and "len = DEV_CALC_SEND_PADDED_LEN t (ActualLength p + HTC_HDR_LENGTH)"
  shows "int len \<le> n * int (TargetCreditSize t) \<and>
    (1 < n \<longrightarrow> (n - 1) * int (TargetCreditSize t) < int len)"
proof (cases "len \<le> TargetCreditSize t")
  case True
  then show ?thesis using assms by (simp add: creditsRequired_def Let_def)
next
  case False
  let ?s = "TargetCreditSize t"
  have n: "n = int (len div ?s) + (if len mod ?s \<noteq> 0 then 1 else 0)"
    using assms False by (simp add: creditsRequired_def Let_def)
  have d: "len = len div ?s * ?s + len mod ?s" by simp
  have m: "len mod ?s < ?s" using assms(2) by simp
  have dz: "int len = int (len div ?s) * int ?s + int (len mod ?s)"
    by (metis d of_nat_add of_nat_mult)
  show ?thesis
  proof (cases "len mod ?s = 0")
    case True
    then have "n = int (len div ?s)" "int len = n * int ?s" using n dz by simp_all
    then show ?thesis using assms(2) by (simp add: algebra_simps)
  next
    case nz: False
    then have "n = int (len div ?s) + 1" using n by simp
    then have "n * int ?s = int (len div ?s) * int ?s + int ?s" "(n - 1) * int ?s = int (len div ?s) * int ?s"
      by (simp_all add: algebra_simps)
    then show ?thesis using dz m nz by simp
  qed
qed

subsection \<open>Sending to the device never faults\<close>

lemma fill_scatter_Some:
  "0 < TargetCreditSize t \<Longrightarrow> \<exists>r. fill_scatter t pad n space q = Some r"
proof (induction t pad n space q rule: fill_scatter.induct)
  case (3 t pad n space p q)
  have "bundle_padding t pad p \<noteq> None" using 3(2) by (auto simp: bundle_padding_def Let_def)
  with 3 show ?case by (fastforce split: option.splits)
qed auto

lemma HTCIssueSendBundle_Some:
  "0 < TargetCreditSize t \<Longrightarrow> \<exists>r. HTCIssueSendBundle e q t = Some r"
proof (induction "length q" arbitrary: q t rule: less_induct)
  case less
  obtain entries rest stop where f: "fill_scatter t (SendBundlePadding (EndPoint t e))
      (nat (min (int (length q)) (MaxMsgPerBundle t))) (MaxSendBundleSize t) q = Some (entries, rest, stop)"
    using fill_scatter_Some [OF less.prems] by (metis prod_cases3)
  have len: "length q = length entries + length rest" by (rule fill_scatter_length [OF f])
  show ?case
  proof (cases "2 \<le> length entries")
    case True
    let ?t' = "t\<lparr>sent := sent t @ [XferScatter e entries], scatter_free := scatter_free t - 1\<rparr>"
    have "length rest < length q" using True len by linarith
    moreover have "0 < TargetCreditSize ?t'" using less.prems by simp
    ultimately have "\<exists>r. HTCIssueSendBundle e rest ?t' = Some r" by (rule less.hyps)
    then show ?thesis
      using f by (subst HTCIssueSendBundle.simps) (auto simp: Let_def)
  next
    case False
    then show ?thesis using f by (subst HTCIssueSendBundle.simps) (auto simp: Let_def)
  qed
qed

lemma send_all_Some: "0 < TargetCreditSize t \<Longrightarrow> \<exists>t'. send_all e q t = Some t'"
proof (induction "length q" arbitrary: q t rule: less_induct)
  case less
  obtain t1 q1 b n where b: "(if SendBundlingEnabled t \<and> length q \<ge> HTC_MIN_HTC_MSGS_TO_BUNDLE
            then HTCIssueSendBundle e q t else Some (t, q, 0, 0)) = Some (t1, q1, b, n)"
    using HTCIssueSendBundle_Some [OF less.prems, of e q] by (metis prod_cases4)
  then have t1: "length q1 \<le> length q" "TargetCreditSize t1 = TargetCreditSize t"
    using HTCIssueSendBundle_keys HTCIssueSendBundle_length device_onlyD
    by (fastforce split: if_splits)+
  show ?case
  proof (cases q1)
    case Nil
    then show ?thesis by (subst send_all.simps) (simp add: b)
  next
    case (Cons p q2)
    then have "length q2 < length q" using t1 by simp
    moreover have "0 < TargetCreditSize (fst (HTCIssueSend A_OK x t1))" for x
      using t1 less.prems by (simp add: HTCIssueSend_def Let_def)
    ultimately show ?thesis
      using less.hyps Cons by (subst send_all.simps) (simp add: b)
  qed
qed

subsection \<open>Sending over a distribution function that keeps the contract\<close>

text \<open>
  Only endpoint \<open>e\<close> and those after it on the list may gain or lose credits, and the
  configuration stays.
\<close>

definition credits_below :: "nat \<Rightarrow> HTC_TARGET \<Rightarrow> HTC_TARGET \<Rightarrow> bool" where
  "credits_below e t t' \<longleftrightarrow> DistList t' = DistList t \<and>
     TargetCreditSize t' = TargetCreditSize t \<and> BlockMask t' = BlockMask t \<and>
     (\<forall>x. x \<notin> set (from_ep (DistList t) (Some e)) \<longrightarrow> CreditDist t' x = CreditDist t x)"

lemma credits_below_refl [simp]: "credits_below e t t"
  by (simp add: credits_below_def)

lemma credits_below_trans: "credits_below e t t' \<Longrightarrow> credits_below e t' t'' \<Longrightarrow> credits_below e t t''"
  by (simp add: credits_below_def)

lemma credits_below_upd:
  "e \<in> set (DistList t) \<Longrightarrow> credits_below e t (upd_cd e f t)" "credits_below e t (upd_ep x g t)"
  using from_ep_mem [of e "DistList t"] by (auto simp: credits_below_def htc_view)

context credit_distribution
begin

lemma distribute_ok:
  assumes "target_ok ready t" "call_ok (DistList t) p r (credit_view t)"
  shows "\<exists>t'. DO_DISTRIBUTION distribute r p t = Some t' \<and> target_ok ready t' \<and> ledger t' = ledger t \<and>
    credits_only t t' \<and> (\<forall>e. same_limits (CreditDist t e) (CreditDist t' e)) \<and>
    (\<forall>e. e \<notin> set (from_ep (DistList t) p) \<longrightarrow> CreditDist t' e = CreditDist t e)"
proof -
  have ready: "ready (DistList t) (CredInfo t)" "credits_ok (set (DistList t)) (credit_view t)"
    using assms(1) by (auto simp: target_ok_def)
  then obtain ci cd where d: "distribute (DistList t) p r (credit_view t) = Some (ci, cd)"
      "credit_step (set (DistList t)) (set (from_ep (DistList t) p)) (credit_view t) (ci, cd)"
    using distribute_step [of "DistList t" "credit_view t" p r] assms(2) by (auto simp: credit_view_def)
  define t' where "t' = t\<lparr>CredInfo := ci, CreditDist := cd\<rparr>"
  have "DO_DISTRIBUTION distribute r p t = Some t'"
    using d(1) by (simp add: DO_DISTRIBUTION_def t'_def credit_view_def)
  moreover have "ready (DistList t) ci"
    using ready_stays [OF _ ready(1), of ci] d(2) by (simp add: credit_step_def credit_view_def)
  ultimately show ?thesis
    using d(2) assms(1)
    by (auto simp: t'_def target_ok_def ledger_def credit_step_def credit_view_def credits_only_def)
qed

lemma seek_ok:
  assumes "target_ok ready t" "e \<in> set (DistList t)" "0 \<le> n"
  shows "\<exists>t'. seek_credits distribute e n t = Some t' \<and> target_ok ready t' \<and> ledger t' = ledger t \<and>
    credits_only t t' \<and> credits_below e t t'"
proof -
  let ?t1 = "upd_cd e (\<lambda>d. d\<lparr>TxCreditsSeek := n\<rparr>) t"
  have ok: "0 \<le> TxCredits (CreditDist t e)" "0 \<le> TxCreditsToDist (CreditDist t e)"
    using assms(1,2) by (auto simp: target_ok_def credits_ok_def credit_view_def)
  have 1: "target_ok ready ?t1" by (rule target_ok_upd_cd [OF assms(1)]) (simp_all add: ok)
  moreover have "call_ok (DistList ?t1) (Some e) HTC_CREDIT_DIST_SEEK_CREDITS (credit_view ?t1)"
    using assms(2,3) by (simp add: call_ok_def htc_view)
  ultimately obtain t2 where t2: "DO_DISTRIBUTION distribute HTC_CREDIT_DIST_SEEK_CREDITS (Some e) ?t1 = Some t2"
      "target_ok ready t2" "ledger t2 = ledger ?t1" "credits_only ?t1 t2"
      "\<forall>x. x \<notin> set (from_ep (DistList ?t1) (Some e)) \<longrightarrow> CreditDist t2 x = CreditDist ?t1 x"
    using distribute_ok by blast
  have e2: "e \<in> set (DistList t2)" using credits_onlyD [OF t2(4)] assms(2) by (simp add: htc_view)
  let ?t3 = "upd_cd e (\<lambda>d. d\<lparr>TxCreditsSeek := 0\<rparr>) t2"
  have "target_ok ready ?t3"
    by (rule target_ok_upd_cd [OF t2(2)])
      (use t2(2) e2 in \<open>simp_all add: target_ok_def credits_ok_def credit_view_def\<close>)
  moreover have "ledger ?t3 = ledger t" using t2(3) by (simp add: ledger_upd_cd_same)
  moreover have "credits_only t ?t3"
    using credits_only_trans [OF credits_only_trans [OF credits_only_upd t2(4)] credits_only_upd] .
  moreover have "credits_below e ?t1 t2"
    using t2(5) credits_onlyD [OF t2(4)] by (simp add: credits_below_def)
  then have "credits_below e t ?t3"
    using credits_below_upd(1) [OF assms(2)] credits_below_upd(1) [OF e2] credits_below_trans by blast
  ultimately show ?thesis using t2(1) by (simp add: seek_credits_def)
qed

text \<open>One packet: what it costs leaves the ledger with it.\<close>

lemma get_send_packets_ok:
  assumes "target_ok ready t" "e \<in> set (DistList t)" "TxQueue (EndPoint t e) = q"
  shows "\<exists>t' out. get_send_packets distribute e q t = Some (t', out) \<and> target_ok ready t' \<and>
    ledger t' + sum_list (map CreditsUsed out) = ledger t \<and> (out = [] \<longrightarrow> exhausted e t') \<and>
    (\<forall>p \<in> set out. creditsRequired t p = Some (CreditsUsed p)) \<and> credits_below e t t'"
  using assms
proof (induction q arbitrary: t)
  case Nil
  then show ?case by (simp add: exhausted_def)
next
  case (Cons p q)
  have sz: "0 < TargetCreditSize t" using Cons.prems(1) by (simp add: target_ok_def)
  obtain need where need: "creditsRequired t p = Some need" "0 < need"
    using creditsRequired_ok [OF sz] by blast
  obtain t1 where t1: "(if credits_of t e < need \<and> pk_Endpoint p \<noteq> 0
        then seek_credits distribute e (need - credits_of t e) t else Some t) = Some t1"
      "target_ok ready t1" "ledger t1 = ledger t" "credits_only t t1" "credits_below e t t1"
    using seek_ok [OF Cons.prems(1,2), of "need - credits_of t e"] Cons.prems(1)
    by (cases "credits_of t e < need \<and> pk_Endpoint p \<noteq> 0") auto
  note only1 = credits_onlyD [OF t1(4)]
  show ?case
  proof (cases "credits_of t1 e < need")
    case True
    have "creditsRequired t1 p = Some need"
      using need(1) only1 creditsRequired_cong [of t1 t p p] by simp
    then have "exhausted e t1"
      using True only1 Cons.prems(3) by (simp add: exhausted_def)
    then show ?thesis
      using need(1) t1 True by (simp add: get_send_packets.simps(2))
  next
    case False
    let ?t2 = "upd_cd e (\<lambda>d. d\<lparr>TxCredits := TxCredits d - need\<rparr>) t1"
    have e1: "e \<in> set (DistList t1)" using only1 Cons.prems(2) by simp
    have ok2: "target_ok ready ?t2"
      by (rule target_ok_upd_cd [OF t1(2)])
        (use False t1(2) e1 in \<open>simp_all add: target_ok_def credits_ok_def credit_view_def\<close>)
    have l2: "ledger ?t2 = ledger t - need"
      using ledger_upd_cd [OF e1, of "\<lambda>d. d\<lparr>TxCredits := TxCredits d - need\<rparr>"] t1(3) by simp
    have e2: "e \<in> set (DistList ?t2)" using e1 by (simp add: htc_view)
    obtain t3 where t3: "(if credits_of ?t2 e < per_max ?t2 e
          then seek_credits distribute e (per_max ?t2 e - credits_of ?t2 e) ?t2 else Some ?t2) = Some t3"
        "target_ok ready t3" "ledger t3 = ledger ?t2" "credits_only ?t2 t3" "credits_below e ?t2 t3"
      using seek_ok [OF ok2 e2, of "per_max ?t2 e - credits_of ?t2 e"] ok2
      by (cases "credits_of ?t2 e < per_max ?t2 e") auto
    note only3 = credits_onlyD [OF t3(4)]
    let ?t4 = "upd_ep e (\<lambda>x. x\<lparr>TxQueue := q, ep_SeqNo := u8 (int (ep_SeqNo x) + 1)\<rparr>) t3"
    have 4: "target_ok ready ?t4" "e \<in> set (DistList ?t4)" "TxQueue (EndPoint ?t4 e) = q"
      using t3(2) only3 e2 by (simp_all add: htc_view)
    obtain t5 out where r: "get_send_packets distribute e q ?t4 = Some (t5, out)" "target_ok ready t5"
        "ledger t5 + sum_list (map CreditsUsed out) = ledger ?t4" "out = [] \<longrightarrow> exhausted e t5"
        "\<forall>p \<in> set out. creditsRequired ?t4 p = Some (CreditsUsed p)" "credits_below e ?t4 t5"
      using Cons.IH [OF 4] by blast
    have below: "credits_below e t t5"
      using t1(5) credits_below_upd(1) [OF e1] t3(5) credits_below_upd(2) r(6) credits_below_trans by metis
    have cong: "creditsRequired ?t4 x = creditsRequired t y" if "ActualLength x = ActualLength y" for x y
      by (rule creditsRequired_cong) (use that only1 only3 in \<open>simp_all add: htc_view\<close>)
    have "get_send_packets distribute e (p # q) t = Some (t5, p\<lparr>CreditsUsed := need, Completion := True,
          SendFlags := (if credits_of ?t2 e < per_max ?t2 e \<and> credits_of t3 e < per_max t3 e
                    then HTC_FLAGS_NEED_CREDIT_UPDATE else 0), pk_SeqNo := ep_SeqNo (EndPoint t3 e)\<rparr> # out)"
      using need(1) t1(1) False t3(1) r(1) by (simp add: get_send_packets.simps(2) Let_def)
    moreover have "creditsRequired t x = Some (CreditsUsed x)" if "x \<in> set out" for x
      using r(5) that cong [of x x] by simp
    moreover have "creditsRequired t (p\<lparr>CreditsUsed := n, Completion := b, SendFlags := f, pk_SeqNo := sq\<rparr>) =
        Some need" for n b f sq
      using need(1) creditsRequired_cong [of t t "p\<lparr>CreditsUsed := n, Completion := b, SendFlags := f, pk_SeqNo := sq\<rparr>" p]
      by simp
    ultimately show ?thesis
      using r t3(3) l2 below by simp
  qed
qed

end

text \<open>
  What a sending operation on endpoint \<open>e\<close> does to the packets: those sent are the first of the
  queue, in order, and the rest is still queued; no other endpoint is touched.
\<close>

definition sends_from :: "nat \<Rightarrow> HTC_TARGET \<Rightarrow> HTC_TARGET \<Rightarrow> bool" where
  "sends_from e t t' \<longleftrightarrow> (\<exists>new. sent_keys t' = sent_keys t @ new \<and>
     map fst new @ queue_ids e t' = queue_ids e t) \<and>
   (\<forall>x. x \<noteq> e \<longrightarrow> EndPoint t' x = EndPoint t x) \<and> DistList t' = DistList t \<and> indicated t' = indicated t"

lemma sends_from_refl [simp]: "sends_from e t t"
  by (simp add: sends_from_def)

lemma sends_from_trans: "sends_from e t t' \<Longrightarrow> sends_from e t' t'' \<Longrightarrow> sends_from e t t''"
  unfolding sends_from_def by (fastforce simp: map_append)

lemma spent_add: "sent_keys t' = sent_keys t @ new \<Longrightarrow> spent t' = spent t + sum_list (map snd new)"
  by (simp add: spent_def)

lemma exhausted_cong:
  "TxQueue (EndPoint t' e) = TxQueue (EndPoint t e) \<Longrightarrow> CreditDist t' e = CreditDist t e \<Longrightarrow>
   TargetCreditSize t' = TargetCreditSize t \<Longrightarrow> BlockMask t' = BlockMask t \<Longrightarrow> exhausted e t' = exhausted e t"
  using creditsRequired_cong [of t' t] by (simp add: exhausted_def split: list.splits option.splits)

lemma key_proj: "snd \<circ> key = CreditsUsed" "fst \<circ> key = pk_id"
  by (simp_all add: key_def fun_eq_iff)

context credit_distribution
begin

text \<open>One turn of the draining loop.\<close>

lemma drain_step:
  assumes "target_ok ready t" "e \<in> set (DistList t)"
  shows "\<exists>t1 out t2. GetHTCSendPackets distribute e t = Some (t1, out) \<and> send_all e out t1 = Some t2 \<and>
    target_ok ready t2 \<and> ledger t2 + spent t2 = ledger t + spent t \<and> sends_from e t t2 \<and>
    (out = [] \<longrightarrow> t2 = t1 \<and> exhausted e t1) \<and> credits_below e t t2"
proof -
  obtain t1 out where g: "get_send_packets distribute e (TxQueue (EndPoint t e)) t = Some (t1, out)"
      "target_ok ready t1" "ledger t1 + sum_list (map CreditsUsed out) = ledger t"
      "out = [] \<longrightarrow> exhausted e t1" "credits_below e t t1"
    using get_send_packets_ok [OF assms refl] by blast
  have q: "queue_only e t t1" "map pk_id out @ map pk_id (TxQueue (EndPoint t1 e)) = queue_ids e t"
    using get_send_packets_fifo [OF g(1) refl] by (auto simp: queue_ids_def)
  note qD = queue_onlyD [OF q(1)]
  obtain t2 where t2: "send_all e out t1 = Some t2"
    using send_all_Some [of t1 e out] g(2) by (auto simp: target_ok_def)
  have d: "device_only t1 t2" "sent_keys t2 = sent_keys t1 @ map key out"
    using send_all_keys [OF t2] by auto
  note dD = device_onlyD [OF d(1)]
  have keys: "sent_keys t2 = sent_keys t @ map key out" using d(2) qD by (simp add: sent_keys_def)
  have "spent t2 = spent t + sum_list (map CreditsUsed out)"
    using spent_add [OF keys] by (simp add: key_proj)
  moreover have "map fst (map key out) @ queue_ids e t2 = queue_ids e t"
    using q(2) dD by (simp add: queue_ids_def key_proj)
  ultimately have "ledger t2 + spent t2 = ledger t + spent t" "sends_from e t t2"
    using g(3) dD qD keys by (auto simp: ledger_def credit_view_def sends_from_def)
  moreover have "target_ok ready t2"
    using g(2) dD by (simp add: target_ok_def credit_view_def)
  moreover have "t2 = t1" if "out = []"
    using t2 that by (simp add: send_all.simps)
  moreover have "credits_below e t t2" using g(5) dD by (simp add: credits_below_def)
  ultimately show ?thesis using g(1,4) t2 by (simp add: GetHTCSendPackets_def)
qed

lemma drain_ok:
  assumes "target_ok ready t" "e \<in> set (DistList t)"
  shows "\<exists>t'. drain_queue distribute e t = Some t' \<and> target_ok ready t' \<and>
    ledger t' + spent t' = ledger t + spent t \<and> sends_from e t t' \<and> exhausted e t' \<and>
    credits_below e t t'"
  using assms
proof (induction "length (TxQueue (EndPoint t e))" arbitrary: t rule: less_induct)
  case less
  show ?case
  proof (cases "TxQueue (EndPoint t e) = []")
    case True
    then show ?thesis using less.prems by (simp add: drain_queue.simps exhausted_def)
  next
    case False
    obtain t1 out t2 where s: "GetHTCSendPackets distribute e t = Some (t1, out)" "send_all e out t1 = Some t2"
        "target_ok ready t2" "ledger t2 + spent t2 = ledger t + spent t" "sends_from e t t2"
        "out = [] \<longrightarrow> t2 = t1 \<and> exhausted e t1" "credits_below e t t2"
      using drain_step [OF less.prems] by blast
    show ?thesis
    proof (cases "out = []")
      case True
      then show ?thesis using s False by (simp add: drain_queue.simps)
    next
      case out: False
      have "length (TxQueue (EndPoint t2 e)) < length (TxQueue (EndPoint t e))"
        by (rule drain_decreases [OF s(1) out s(2)])
      moreover have "e \<in> set (DistList t2)" using s(5) less.prems(2) by (simp add: sends_from_def)
      ultimately obtain t' where t': "drain_queue distribute e t2 = Some t'" "target_ok ready t'"
          "ledger t' + spent t' = ledger t2 + spent t2" "sends_from e t2 t'" "exhausted e t'"
          "credits_below e t2 t'"
        using less.hyps [of t2] s(3) by blast
      moreover have "drain_queue distribute e t = drain_queue distribute e t2"
        using False out s(1,2) by (subst drain_queue.simps) simp
      ultimately show ?thesis using s(4,5,7) sends_from_trans credits_below_trans by auto
    qed
  qed
qed

end

text \<open>The packets taken over and the packets handed back are those that were passed.\<close>

lemma accept_packets_mset:
  "mset (fst (accept_packets ep q)) + mset (snd (accept_packets ep q)) = mset q"
proof -
  have "mset (take n q @ filter (\<lambda>p. \<not> f p) (drop n q)) + mset (filter f (drop n q)) = mset q" for n f
  proof -
    have "mset (filter (\<lambda>p. \<not> f p) xs) + mset (filter f xs) = mset xs" for xs
      by (induction xs) auto
    moreover have "mset (take n q) + mset (drop n q) = mset q" by (metis append_take_drop_id mset_append)
    ultimately show ?thesis by (simp add: add.assoc)
  qed
  then show ?thesis by (auto simp: accept_packets_def Let_def split: option.splits)
qed

text \<open>With a callback that drops whatever does not fit, the queue never exceeds its limit.\<close>

lemma accept_packets_bound:
  assumes "EpSendFull ep = Some (\<lambda>_. True)" "int (length (TxQueue ep)) \<le> MaxTxQueueDepth ep"
  shows "int (length (TxQueue ep @ fst (accept_packets ep q))) \<le> MaxTxQueueDepth ep"
  using assms by (auto simp: accept_packets_def Let_def)

lemma exhausted_process_count: "exhausted e (upd_ep e (\<lambda>x. x\<lparr>TxProcessCount := n\<rparr>) t) = exhausted e t"
  by (rule exhausted_cong) (simp_all add: htc_view)

lemma ledger_ep_cong:
  "queue_ids x (upd_ep e (\<lambda>x. x\<lparr>TxProcessCount := n\<rparr>) t) = queue_ids x t"
  "sent_keys (upd_ep e f t) = sent_keys t"
  by (auto simp: queue_ids_def htc_view sent_keys_def)

definition accepted :: "nat \<Rightarrow> HTC_PACKET list option \<Rightarrow> HTC_TARGET \<Rightarrow> HTC_PACKET list" where
  "accepted e callers t = (case callers of None \<Rightarrow> [] | Some q \<Rightarrow> fst (accept_packets (EndPoint t e) q))"

definition refused :: "nat \<Rightarrow> HTC_PACKET list option \<Rightarrow> HTC_TARGET \<Rightarrow> HTC_PACKET list" where
  "refused e callers t = (case callers of None \<Rightarrow> [] | Some q \<Rightarrow> snd (accept_packets (EndPoint t e) q))"

text \<open>
  What \<open>HTCTrySend\<close> does to the packets: those sent and those still queued are the queue as it
  was, followed by the accepted ones, in this order.
\<close>

definition try_result :: "nat \<Rightarrow> HTC_PACKET list \<Rightarrow> HTC_TARGET \<Rightarrow> HTC_TARGET \<Rightarrow> bool" where
  "try_result e acc t t' \<longleftrightarrow> (\<exists>new. sent_keys t' = sent_keys t @ new \<and>
      map fst new @ queue_ids e t' = queue_ids e t @ map pk_id acc) \<and>
    (\<forall>x. x \<noteq> e \<longrightarrow> EndPoint t' x = EndPoint t x) \<and> indicated t' = indicated t \<and>
    credits_below e t t' \<and> ledger t' + spent t' = ledger t + spent t"

context credit_distribution
begin

lemma try_send_ok:
  assumes "target_ok ready t" "e \<in> set (DistList t)" "TxProcessCount (EndPoint t e) = 0"
  shows "\<exists>r t'. HTCTrySend distribute e callers t = Some (r, t', refused e callers t) \<and>
    target_ok ready t' \<and> try_result e (accepted e callers t) t t' \<and>
    TxProcessCount (EndPoint t' e) = 0 \<and> (r = HTC_SEND_QUEUE_OK \<longrightarrow> exhausted e t') \<and>
    (callers = None \<longrightarrow> r = HTC_SEND_QUEUE_OK)"
proof -
  let ?acc = "accepted e callers t"
  have split: "(case callers of None \<Rightarrow> ([], []) | Some q \<Rightarrow> accept_packets (EndPoint t e) q) =
      (?acc, refused e callers t)"
    by (simp add: accepted_def refused_def split: option.splits)
  show ?thesis
  proof (cases "callers \<noteq> None \<and> ?acc = []")
    case True
    then have "HTCTrySend distribute e callers t = Some (HTC_SEND_QUEUE_DROP, t, refused e callers t)"
      by (simp add: HTCTrySend_def split)
    then show ?thesis using True assms by (auto simp: try_result_def)
  next
    case False
    let ?t1 = "upd_ep e (\<lambda>x. x\<lparr>TxQueue := TxQueue x @ ?acc, TxProcessCount := TxProcessCount x + 1\<rparr>) t"
    have e1: "e \<in> set (DistList ?t1)" using assms(2) by (simp add: htc_view)
    obtain t2 where t2: "drain_queue distribute e ?t1 = Some t2" "target_ok ready t2"
        "ledger t2 + spent t2 = ledger ?t1 + spent ?t1" "sends_from e ?t1 t2" "exhausted e t2"
        "credits_below e ?t1 t2"
      using drain_ok [OF _ e1] assms(1) by auto
    let ?t3 = "upd_ep e (\<lambda>x. x\<lparr>TxProcessCount := 0\<rparr>) t2"
    have call: "HTCTrySend distribute e callers t = Some (HTC_SEND_QUEUE_OK, ?t3, refused e callers t)"
      using False assms(3) t2(1) by (auto simp: HTCTrySend_def split htc_view)
    have "queue_ids e ?t1 = queue_ids e t @ map pk_id ?acc"
      by (simp add: queue_ids_def htc_view)
    moreover have "credits_below e t ?t3"
      using credits_below_trans [OF credits_below_trans [OF credits_below_upd(2) t2(6)] credits_below_upd(2)] .
    ultimately have "try_result e ?acc t ?t3"
      using t2(3,4) by (auto simp: try_result_def sends_from_def ledger_ep_cong htc_view)
    with call show ?thesis using t2 by (simp add: ledger_ep_cong exhausted_process_count htc_view)
  qed
qed

end

definition idle_process :: "HTC_TARGET \<Rightarrow> bool" where
  "idle_process t \<longleftrightarrow> (\<forall>e. TxProcessCount (EndPoint t e) = 0)"

lemma later_not_from_ep:
  "distinct (pre @ e # es) \<Longrightarrow> x \<in> set pre \<Longrightarrow> x \<notin> set (from_ep (pre @ e # es) (Some e))"
proof -
  assume d: "distinct (pre @ e # es)" and x: "x \<in> set pre"
  then have "e \<notin> set pre" by auto
  then have "from_ep (pre @ e # es) (Some e) = e # es"
    by (auto simp: from_ep_def dropWhile_append)
  then show ?thesis using d x by auto
qed

context credit_distribution
begin

lemma check_queues_ok:
  assumes "target_ok ready t" "idle_process t" "distinct (DistList t)" "DistList t = pre @ es"
    and "\<forall>e \<in> set pre. exhausted e t"
  shows "\<exists>t'. check_queues distribute es t = Some t' \<and> target_ok ready t' \<and> idle_process t' \<and>
    ledger t' + spent t' = ledger t + spent t \<and> DistList t' = DistList t \<and> indicated t' = indicated t \<and>
    (\<forall>e \<in> set (DistList t). exhausted e t')"
  using assms
proof (induction es arbitrary: t pre)
  case Nil
  then show ?case by simp
next
  case (Cons e es)
  show ?case
  proof (cases "TxQueue (EndPoint t e) = []")
    case True
    then have "exhausted e t" by (simp add: exhausted_def)
    then show ?thesis using Cons.IH [of t "pre @ [e]"] Cons.prems True by simp
  next
    case False
    have e: "e \<in> set (DistList t)" "TxProcessCount (EndPoint t e) = 0"
      using Cons.prems(2,4) by (auto simp: idle_process_def)
    obtain t1 where t1: "HTCTrySend distribute e None t = Some (HTC_SEND_QUEUE_OK, t1, [])"
        "target_ok ready t1" "try_result e [] t t1" "TxProcessCount (EndPoint t1 e) = 0" "exhausted e t1"
      using try_send_ok [OF Cons.prems(1) e, of None] by (auto simp: refused_def accepted_def)
    have below: "DistList t1 = DistList t" "TargetCreditSize t1 = TargetCreditSize t"
        "BlockMask t1 = BlockMask t" "\<And>x. x \<in> set pre \<Longrightarrow> CreditDist t1 x = CreditDist t x"
      using t1(3) later_not_from_ep [of pre e es] Cons.prems(3,4)
      by (auto simp: try_result_def credits_below_def)
    have other: "EndPoint t1 x = EndPoint t x" if "x \<noteq> e" for x
      using t1(3) that by (simp add: try_result_def)
    have "exhausted x t1" if "x \<in> set pre" for x
    proof -
      have "x \<noteq> e" using that Cons.prems(3,4) by auto
      then have "exhausted x t1 = exhausted x t"
        using below that other by (intro exhausted_cong) simp_all
      then show ?thesis using Cons.prems(5) that by simp
    qed
    moreover have "idle_process t1"
      using Cons.prems(2) other t1(4) by (metis idle_process_def)
    ultimately obtain t' where t': "check_queues distribute es t1 = Some t'" "target_ok ready t'"
        "idle_process t'" "ledger t' + spent t' = ledger t1 + spent t1" "DistList t' = DistList t1"
        "indicated t' = indicated t1" "\<forall>e \<in> set (DistList t1). exhausted e t'"
      using Cons.IH [OF t1(2), of "pre @ [e]"] below(1) Cons.prems(3,4) t1(5) by auto
    then show ?thesis using False t1(1,3) below(1) by (auto simp: try_result_def)
  qed
qed

end

subsection \<open>The operations of the interface\<close>

definition htc_inv :: "(nat list \<Rightarrow> COMMON_CREDIT_STATE_INFO \<Rightarrow> bool) \<Rightarrow> HTC_TARGET \<Rightarrow> bool" where
  "htc_inv ready t \<longleftrightarrow> target_ok ready t \<and> idle_process t \<and> distinct (DistList t) \<and>
     set (DistList t) \<subseteq> {..<ENDPOINT_MAX}"

text \<open>\<open>c\<close> credits came back in a step that keeps the invariant.\<close>

definition accounts :: "(nat list \<Rightarrow> COMMON_CREDIT_STATE_INFO \<Rightarrow> bool) \<Rightarrow> HTC_TARGET \<Rightarrow> int \<Rightarrow> HTC_TARGET \<Rightarrow> bool"
where
  "accounts ready t c t' \<longleftrightarrow> htc_inv ready t' \<and> DistList t' = DistList t \<and>
     ledger t' + spent t' = ledger t + spent t + c"

lemma view_indicate [simp]:
  "DoSendCompletion e q t = t\<lparr>indicated := indicated (DoSendCompletion e q t)\<rparr>"
  by (simp add: DoSendCompletion_def)

lemma htc_inv_cong:
  "credit_view t' = credit_view t \<Longrightarrow> DistList t' = DistList t \<Longrightarrow> TargetCreditSize t' = TargetCreditSize t \<Longrightarrow>
   (\<forall>e. TxProcessCount (EndPoint t' e) = TxProcessCount (EndPoint t e)) \<Longrightarrow> htc_inv ready t' = htc_inv ready t"
  by (simp add: htc_inv_def target_ok_def idle_process_def credit_view_def)

declare view_indicate [simp del]

lemma indicate_accounts:
  "accounts ready t c t' \<Longrightarrow> accounts ready t c (DoSendCompletion e q t')"
proof -
  assume a: "accounts ready t c t'"
  let ?t = "DoSendCompletion e q t'"
  have "credit_view ?t = credit_view t' \<and> DistList ?t = DistList t' \<and>
      TargetCreditSize ?t = TargetCreditSize t' \<and> EndPoint ?t = EndPoint t' \<and> sent ?t = sent t'"
    by (subst (1 2 3 4 5) view_indicate) (simp add: credit_view_def)
  moreover from this have "htc_inv ready ?t = htc_inv ready t'" by (intro htc_inv_cong) simp_all
  ultimately show ?thesis
    using a by (auto simp: accounts_def ledger_def spent_def sent_keys_def)
qed

lemma accounts_refl: "htc_inv ready t \<Longrightarrow> accounts ready t 0 t"
  by (simp add: accounts_def)

lemma accounts_trans:
  "accounts ready t c t' \<Longrightarrow> accounts ready t' d t'' \<Longrightarrow> accounts ready t (c + d) t''"
  by (simp add: accounts_def)

lemma head_next_Some: "DistList t \<noteq> [] \<Longrightarrow> \<exists>p. head_next t = Some p"
  by (cases "DistList t"; cases "tl (DistList t)") (auto simp: head_next_def)

lemma accounts_upd_ep:
  assumes "accounts ready t c t'" "\<And>x. TxProcessCount (g x) = TxProcessCount x"
  shows "accounts ready t c (upd_ep e g t')"
proof -
  have "htc_inv ready (upd_ep e g t') = htc_inv ready t'"
    by (rule htc_inv_cong) (use assms(2) in \<open>simp_all add: htc_view\<close>)
  then show ?thesis using assms(1) by (simp add: accounts_def htc_view)
qed

text \<open>Credits that HTC books on an endpoint of the list.\<close>

lemma accounts_book:
  assumes "htc_inv ready t" "e \<in> set (DistList t)" "0 \<le> c"
    and "TxCredits (f (CreditDist t e)) + TxCreditsToDist (f (CreditDist t e)) =
         TxCredits (CreditDist t e) + TxCreditsToDist (CreditDist t e) + c"
    and "TxCredits (CreditDist t e) \<le> TxCredits (f (CreditDist t e))"
    and "TxCreditsToDist (CreditDist t e) \<le> TxCreditsToDist (f (CreditDist t e))"
    and "TxCreditsAssigned (f (CreditDist t e)) = TxCreditsAssigned (CreditDist t e)"
    and "TxCreditsMin (f (CreditDist t e)) = TxCreditsMin (CreditDist t e)"
    and "TxCreditsNorm (f (CreditDist t e)) = TxCreditsNorm (CreditDist t e)"
  shows "accounts ready t c (upd_cd e f t)"
proof -
  have ok: "target_ok ready t" "0 \<le> TxCredits (CreditDist t e)" "0 \<le> TxCreditsToDist (CreditDist t e)"
    using assms(1,2) by (auto simp: htc_inv_def target_ok_def credits_ok_def credit_view_def)
  have "target_ok ready (upd_cd e f t)"
    by (rule target_ok_upd_cd [OF ok(1)]) (use ok assms in simp_all)
  then have "htc_inv ready (upd_cd e f t)" using assms(1) by (simp add: htc_inv_def idle_process_def htc_view)
  then show ?thesis
    using ledger_upd_cd [OF assms(2), of f] assms(4) by (simp add: accounts_def htc_view)
qed

lemma take_reports_accounts:
  assumes "htc_inv ready t" "\<forall>(e, c) \<in> set rpts. e \<in> set (DistList t)"
  shows "\<exists>t' d. take_reports rpts t = (t', sum_list (map snd rpts), d) \<and>
    accounts ready t (int (sum_list (map snd rpts))) t' \<and> EndPoint t' = EndPoint t \<and>
    indicated t' = indicated t"
  using assms
proof (induction rpts arbitrary: t)
  case Nil
  then show ?case by (auto simp: accounts_refl)
next
  case (Cons r rpts)
  obtain e c where r: "r = (e, c)" by (cases r)
  have e: "e \<in> set (DistList t)" "e < ENDPOINT_MAX"
    using Cons.prems r by (auto simp: htc_inv_def)
  let ?t1 = "if e = 0 then upd_cd e (\<lambda>d. d\<lparr>TxCredits := TxCredits d + int c\<rparr>) t
             else upd_cd e (\<lambda>d. d\<lparr>TxCreditsToDist := TxCreditsToDist d + int c\<rparr>) t"
  let ?t2 = "upd_cd e (\<lambda>d. d\<lparr>cd_TxQueueDepth := tx_depth e t\<rparr>) ?t1"
  have 1: "accounts ready t (int c) ?t1"
    using Cons.prems(1) e by (auto intro!: accounts_book)
  then have "htc_inv ready ?t1" "DistList ?t1 = DistList t" by (simp_all add: accounts_def)
  then have "accounts ready ?t1 0 ?t2" using e by (intro accounts_book) simp_all
  with 1 have 2: "accounts ready t (int c) ?t2" using accounts_trans by fastforce
  have dl: "DistList ?t2 = DistList t" "htc_inv ready ?t2" using 2 by (simp_all add: accounts_def)
  have "\<forall>(e, c) \<in> set rpts. e \<in> set (DistList ?t2)"
    unfolding dl(1) using Cons.prems(2) by (metis list.set_intros(2))
  from Cons.IH [OF dl(2) this] obtain t3 d where
    t3: "take_reports rpts ?t2 = (t3, sum_list (map snd rpts), d)"
      "accounts ready ?t2 (int (sum_list (map snd rpts))) t3" "EndPoint t3 = EndPoint ?t2"
      "indicated t3 = indicated ?t2"
    by blast
  have "accounts ready t (int (c + sum_list (map snd rpts))) t3"
    using accounts_trans [OF 2 t3(2)] by simp
  then show ?case
    using t3 e r by (simp add: htc_view add.commute Let_def)
qed

context credit_distribution
begin

lemma distribution_accounts:
  assumes "htc_inv ready t" "r \<noteq> HTC_CREDIT_DIST_SEEK_CREDITS"
  shows "\<exists>p t'. head_next t = Some p \<and> DO_DISTRIBUTION distribute r p t = Some t' \<and>
    accounts ready t 0 t' \<and> EndPoint t' = EndPoint t \<and> indicated t' = indicated t"
proof -
  have ok: "target_ok ready t" using assms(1) by (simp add: htc_inv_def)
  obtain p where p: "head_next t = Some p"
    using head_next_Some [of t] ok by (auto simp: target_ok_def)
  obtain t' where t': "DO_DISTRIBUTION distribute r p t = Some t'" "target_ok ready t'" "ledger t' = ledger t"
      "credits_only t t'"
    using distribute_ok [OF ok, of p r] assms(2) by (auto simp: call_ok_def)
  have "accounts ready t 0 t'"
    using assms(1) t' credits_onlyD [OF t'(4)] credits_only_spent [OF t'(4)]
    by (simp add: accounts_def htc_inv_def idle_process_def)
  then show ?thesis using p t'(1) credits_onlyD [OF t'(4)] by blast
qed

lemma check_accounts:
  assumes "htc_inv ready t"
  shows "\<exists>t'. HTCCheckEndpointTxQueues distribute t = Some t' \<and> accounts ready t 0 t' \<and>
    indicated t' = indicated t \<and> (\<forall>e \<in> set (DistList t). exhausted e t')"
  using check_queues_ok [of t "[]" "DistList t"] assms
  by (auto simp: HTCCheckEndpointTxQueues_def accounts_def htc_inv_def)

lemma credit_report_accounts:
  assumes "htc_inv ready t" "\<forall>(e, c) \<in> set rpts. e \<in> set (DistList t)"
    and n: "n = sum_list (map snd rpts)"
  shows "\<exists>t'. HTCProcessCreditRpt distribute rpts t = Some t' \<and>
    accounts ready t (int n) t' \<and> indicated t' = indicated t \<and> (n \<noteq> 0 \<longrightarrow> (\<forall>e \<in> set (DistList t). exhausted e t'))"
proof -
  obtain t1 d where t1: "take_reports rpts t = (t1, n, d)" "accounts ready t (int n) t1"
      "indicated t1 = indicated t"
    using take_reports_accounts [OF assms(1,2)] n by blast
  have inv1: "htc_inv ready t1" "DistList t1 = DistList t" using t1(2) by (simp_all add: accounts_def)
  obtain p t2 where t2: "head_next t1 = Some p"
      "DO_DISTRIBUTION distribute HTC_CREDIT_DIST_SEND_COMPLETE p t1 = Some t2"
      "accounts ready t1 0 t2" "indicated t2 = indicated t1"
    using distribution_accounts [OF inv1(1)] by blast
  define t3 where "t3 = (if d then t2 else t1)"
  have t3: "accounts ready t (int n) t3" "indicated t3 = indicated t" "DistList t3 = DistList t"
    using t1 t2 accounts_trans [OF t1(2) t2(3)] inv1(2) by (auto simp: t3_def accounts_def)
  have run: "HTCProcessCreditRpt distribute rpts t =
      (if n \<noteq> 0 then HTCCheckEndpointTxQueues distribute t3 else Some t3)"
    using t1(1) t2 by (simp add: HTCProcessCreditRpt_def t3_def)
  have inv3: "htc_inv ready t3" using t3(1) by (simp add: accounts_def)
  show ?thesis
  proof (cases "n = 0")
    case True
    then show ?thesis using run t3 by simp
  next
    case False
    obtain t4 where t4: "HTCCheckEndpointTxQueues distribute t3 = Some t4" "accounts ready t3 0 t4"
        "indicated t4 = indicated t3" "\<forall>e \<in> set (DistList t3). exhausted e t4"
      using check_accounts [OF inv3] by blast
    then show ?thesis using run False t3 accounts_trans [OF t3(1) t4(2)] by auto
  qed
qed

end

text \<open>Completions: a packet that failed gives its credits back.\<close>

definition reclaimed :: "A_STATUS \<Rightarrow> HTC_PACKET \<Rightarrow> int" where
  "reclaimed st p = (if A_FAILED st then CreditsUsed p else 0)"

context credit_distribution
begin

lemma complete_packet_accounts:
  assumes "htc_inv ready t" "e \<in> set (DistList t)" "0 \<le> CreditsUsed p"
  shows "\<exists>t'. CompleteSentPacket distribute e p t =
      Some (t', p\<lparr>Completion := False, pBuffer := pBuffer p + 6\<rparr>) \<and>
    accounts ready t (reclaimed (pk_Status p) p) t' \<and> EndPoint t' = EndPoint t \<and> indicated t' = indicated t"
proof (cases "A_FAILED (pk_Status p)")
  case False
  then show ?thesis using accounts_refl [OF assms(1)] by (simp add: CompleteSentPacket_def reclaimed_def)
next
  case True
  let ?f = "\<lambda>d. d\<lparr>TxCreditsToDist := TxCreditsToDist d + CreditsUsed p, cd_TxQueueDepth := tx_depth e t\<rparr>"
  have 1: "accounts ready t (CreditsUsed p) (upd_cd e ?f t)"
    by (rule accounts_book) (use assms in simp_all)
  then obtain n t' where t': "head_next (upd_cd e ?f t) = Some n"
      "DO_DISTRIBUTION distribute HTC_CREDIT_DIST_SEND_COMPLETE n (upd_cd e ?f t) = Some t'"
      "accounts ready (upd_cd e ?f t) 0 t'" "EndPoint t' = EndPoint t" "indicated t' = indicated t"
    using distribution_accounts [of "upd_cd e ?f t" HTC_CREDIT_DIST_SEND_COMPLETE]
    by (auto simp: accounts_def htc_view)
  have "accounts ready t (CreditsUsed p) t'" using accounts_trans [OF 1 t'(3)] by simp
  then show ?thesis using t' True by (simp add: CompleteSentPacket_def reclaimed_def)
qed

lemma completion_accounts:
  assumes "htc_inv ready t" "pk_Endpoint p \<in> set (DistList t)" "0 \<le> CreditsUsed p"
  shows "\<exists>t'. HTCSendPktCompletionHandler distribute p t = Some t' \<and>
    accounts ready t (reclaimed (pk_Status p) p) t'"
proof -
  obtain t1 p' where t1: "CompleteSentPacket distribute (pk_Endpoint p) p t = Some (t1, p')"
      "accounts ready t (reclaimed (pk_Status p) p) t1"
    using complete_packet_accounts [OF assms] by blast
  then show ?thesis using indicate_accounts [OF t1(2)] by (simp add: HTCSendPktCompletionHandler_def)
qed

lemma complete_all_accounts:
  assumes "htc_inv ready t" "e \<in> set (DistList t)" "\<forall>p \<in> set ps. 0 \<le> CreditsUsed p"
  shows "\<exists>t' ps'. complete_all distribute e st ps t = Some (t', ps') \<and>
    accounts ready t (sum_list (map (reclaimed st) ps)) t' \<and> EndPoint t' = EndPoint t"
  using assms
proof (induction ps arbitrary: t)
  case Nil
  then show ?case by (simp add: accounts_refl)
next
  case (Cons p ps)
  let ?p = "p\<lparr>pk_Status := st\<rparr>"
  obtain t1 p1 where t1: "CompleteSentPacket distribute e ?p t = Some (t1, p1)"
      "accounts ready t (reclaimed st p) t1" "EndPoint t1 = EndPoint t"
    using complete_packet_accounts [of t e ?p] Cons.prems by (auto simp: reclaimed_def split: if_splits)
  then obtain t2 ps2 where t2: "complete_all distribute e st ps t1 = Some (t2, ps2)"
      "accounts ready t1 (sum_list (map (reclaimed st) ps)) t2" "EndPoint t2 = EndPoint t1"
    using Cons.IH [of t1] Cons.prems by (auto simp: accounts_def)
  then show ?case using t1 accounts_trans [OF t1(2) t2(2)] by simp
qed

lemma scatter_completion_accounts:
  assumes "htc_inv ready t" "e \<in> set (DistList t)" "\<forall>x \<in> set entries. 0 \<le> CreditsUsed (fst x)"
  shows "\<exists>t'. HTCAsyncSendScatterCompletion distribute e st entries t = Some t' \<and>
    accounts ready t (sum_list (map (reclaimed st \<circ> fst) entries)) t'"
proof -
  let ?st = "if A_FAILED st then A_ERROR else A_OK"
  obtain t1 ps where t1: "complete_all distribute e ?st (map fst entries) t = Some (t1, ps)"
      "accounts ready t (sum_list (map (reclaimed ?st) (map fst entries))) t1"
    using complete_all_accounts [OF assms(1,2), of "map fst entries" ?st] assms(3) by auto
  have "reclaimed ?st = reclaimed st" by (auto simp: reclaimed_def fun_eq_iff)
  with t1(2) have "accounts ready t (sum_list (map (reclaimed st \<circ> fst) entries)) t1" by simp
  moreover have "accounts ready t c t1 \<Longrightarrow> accounts ready t c (t1\<lparr>scatter_free := n\<rparr>)" for c n
    by (auto simp: accounts_def htc_inv_def target_ok_def idle_process_def ledger_def spent_def
        sent_keys_def credit_view_def)
  ultimately show ?thesis
    using t1(1) indicate_accounts by (simp add: HTCAsyncSendScatterCompletion_def Let_def)
qed

lemma send_accounts:
  assumes "htc_inv ready t" "q \<noteq> [] \<longrightarrow> pk_Endpoint (hd q) \<in> set (DistList t)"
  shows "\<exists>st t'. HTCSendPktsMultiple distribute q t = Some (st, t') \<and> accounts ready t 0 t'"
proof (cases q)
  case Nil
  then show ?thesis using accounts_refl [OF assms(1)] by (simp add: HTCSendPktsMultiple_def)
next
  case (Cons p qs)
  let ?e = "pk_Endpoint p"
  have e: "?e \<in> set (DistList t)" "?e < ENDPOINT_MAX" "TxProcessCount (EndPoint t ?e) = 0"
    using assms Cons by (auto simp: htc_inv_def idle_process_def)
  obtain r t1 where t1: "HTCTrySend distribute ?e (Some q) t = Some (r, t1, refused ?e (Some q) t)"
      "target_ok ready t1" "try_result ?e (accepted ?e (Some q) t) t t1" "TxProcessCount (EndPoint t1 ?e) = 0"
    using try_send_ok [OF _ e(1,3), of "Some q"] assms(1) by (auto simp: htc_inv_def)
  have "TxProcessCount (EndPoint t1 x) = 0" for x
    using t1(3,4) assms(1) by (cases "x = ?e") (auto simp: try_result_def htc_inv_def idle_process_def)
  then have "accounts ready t 0 t1"
    using t1(2,3) assms(1) by (auto simp: accounts_def htc_inv_def idle_process_def try_result_def
        credits_below_def)
  then show ?thesis using t1(1) e(2) Cons indicate_accounts by (simp add: HTCSendPktsMultiple_def Let_def)
qed

lemma activity_accounts:
  assumes "htc_inv ready t" "e \<in> set (DistList t)"
  shows "\<exists>t'. HTCIndicateActivityChange distribute e a t = Some t' \<and> accounts ready t 0 t'"
proof (cases "ep_ServiceID (EndPoint t e) = 0 \<or> a = IS_EP_ACTIVE (CreditDist t e)")
  case True
  then show ?thesis
    using assms accounts_refl [OF assms(1)] by (auto simp: HTCIndicateActivityChange_def htc_inv_def)
next
  case False
  let ?t1 = "upd_cd e (\<lambda>d. if a then SET_EP_ACTIVE d else d\<lparr>DistFlags := DistFlags d AND NOT HTC_EP_ACTIVE\<rparr>) t"
  let ?t2 = "upd_cd e (\<lambda>d. d\<lparr>cd_TxQueueDepth := tx_depth e ?t1\<rparr>) ?t1"
  have "accounts ready t 0 ?t1"
    by (rule accounts_book) (use assms in \<open>simp_all add: SET_EP_ACTIVE_def\<close>)
  moreover from this have "accounts ready ?t1 0 ?t2"
    by (intro accounts_book) (use assms(2) in \<open>simp_all add: accounts_def\<close>)
  ultimately have 2: "accounts ready t 0 ?t2" using accounts_trans by fastforce
  then obtain p t3 where t3: "head_next ?t2 = Some p"
      "DO_DISTRIBUTION distribute HTC_CREDIT_DIST_ACTIVITY_CHANGE p ?t2 = Some t3" "accounts ready ?t2 0 t3"
    using distribution_accounts [of ?t2 HTC_CREDIT_DIST_ACTIVITY_CHANGE] by (auto simp: accounts_def)
  have 3: "accounts ready t 0 t3" using accounts_trans [OF 2 t3(3)] by simp
  obtain t4 where t4: "HTCCheckEndpointTxQueues distribute t3 = Some t4" "accounts ready t3 0 t4"
    using check_accounts [of t3] 3 by (auto simp: accounts_def)
  have "accounts ready t 0 t4" using accounts_trans [OF 3 t4(2)] by simp
  moreover have "e < ENDPOINT_MAX" using assms by (auto simp: htc_inv_def)
  moreover have "HTCIndicateActivityChange distribute e a t =
      (if \<not> a then HTCCheckEndpointTxQueues distribute t3 else Some t3)"
    using False t3(1,2) \<open>e < ENDPOINT_MAX\<close> by (simp add: HTCIndicateActivityChange_def)
  ultimately show ?thesis using t4 3 by auto
qed

end

end
