(* ===== verification/HtcSystem.thy ===== *)
theory HtcSystem
  imports HtcSendProps
begin

text \<open>
  HTC's transmit side as a system: the operations of its interface as steps, each labelled with
  the credits it returns to the host, and the properties that hold in every state they reach.
\<close>

subsection \<open>Steps\<close>

inductive htc_step :: "dist_fn \<Rightarrow> HTC_TARGET \<Rightarrow> int \<Rightarrow> HTC_TARGET \<Rightarrow> bool" for D where
  send: "q \<noteq> [] \<longrightarrow> pk_Endpoint (hd q) \<in> set (DistList t) \<Longrightarrow>
     HTCSendPktsMultiple D q t = Some (st, t') \<Longrightarrow> htc_step D t 0 t'"
| report: "\<forall>(e, c) \<in> set rpts. e \<in> set (DistList t) \<Longrightarrow> HTCProcessCreditRpt D rpts t = Some t' \<Longrightarrow>
     htc_step D t (int (sum_list (map snd rpts))) t'"
| complete: "pk_Endpoint p \<in> set (DistList t) \<Longrightarrow> 0 \<le> CreditsUsed p \<Longrightarrow>
     HTCSendPktCompletionHandler D p t = Some t' \<Longrightarrow> htc_step D t (reclaimed (pk_Status p) p) t'"
| scatter: "e \<in> set (DistList t) \<Longrightarrow> \<forall>x \<in> set entries. 0 \<le> CreditsUsed (fst x) \<Longrightarrow>
     HTCAsyncSendScatterCompletion D e st entries t = Some t' \<Longrightarrow>
     htc_step D t (sum_list (map (reclaimed st \<circ> fst) entries)) t'"
| flush: "HTCFlushEndpoint e tag t = Some t' \<Longrightarrow> htc_step D t 0 t'"
| activity: "e \<in> set (DistList t) \<Longrightarrow> HTCIndicateActivityChange D e active t = Some t' \<Longrightarrow>
     htc_step D t 0 t'"

inductive htc_run :: "dist_fn \<Rightarrow> HTC_TARGET \<Rightarrow> int \<Rightarrow> HTC_TARGET \<Rightarrow> bool" for D t0 where
  start: "htc_run D t0 0 t0"
| step: "htc_run D t0 c t \<Longrightarrow> htc_step D t d t' \<Longrightarrow> htc_run D t0 (c + d) t'"

lemma fold_indicate_accounts:
  "accounts ready t c t' \<Longrightarrow> accounts ready t c (fold (\<lambda>p. DoSendCompletion e (f p)) ps t')"
  by (induction ps arbitrary: t') (auto intro: indicate_accounts)

lemma flush_accounts:
  assumes "htc_inv ready t" "HTCFlushEndpoint e tag t = Some t'"
  shows "accounts ready t 0 t'"
proof -
  let ?hit = "\<lambda>p. tag = 0 \<or> tag = Tag p"
  let ?t1 = "upd_ep e (\<lambda>x. x\<lparr>TxQueue := filter (\<lambda>p. \<not> ?hit p) (TxQueue x)\<rparr>) t"
  have "accounts ready t 0 ?t1"
    by (rule accounts_upd_ep [OF accounts_refl [OF assms(1)]]) simp
  from fold_indicate_accounts [OF this] assms(2) accounts_refl [OF assms(1)] show ?thesis
    by (auto simp: HTCFlushEndpoint_def HTCFlushEndpointTX_def Let_def split: if_splits)
qed

context credit_distribution
begin

lemma step_accounts:
  assumes "htc_inv ready t" "htc_step distribute t c t'"
  shows "accounts ready t c t'"
  using assms(2)
proof cases
  case (send q st)
  then show ?thesis using send_accounts [OF assms(1) send(2)] by auto
next
  case (report rpts)
  then show ?thesis using credit_report_accounts [OF assms(1) report(2) refl] by auto
next
  case (complete p)
  then show ?thesis using completion_accounts [OF assms(1) complete(2,3)] by auto
next
  case (scatter e entries st)
  then show ?thesis using scatter_completion_accounts [OF assms(1) scatter(2,3), of st] by auto
next
  case (flush e tag)
  then show ?thesis using flush_accounts [OF assms(1)] by simp
next
  case (activity e active)
  then show ?thesis using activity_accounts [OF assms(1) activity(2), of active] by auto
qed

lemma run_accounts:
  assumes "htc_run distribute t0 c t" "htc_inv ready t0"
  shows "accounts ready t0 c t"
  using assms
proof (induction rule: htc_run.induct)
  case start
  then show ?case by (rule accounts_refl)
next
  case (step c t d t')
  then have c: "accounts ready t0 c t" by simp
  then have "htc_inv ready t" by (simp add: accounts_def)
  from accounts_trans [OF c step_accounts [OF this step(2)]] show ?case .
qed

end

subsection \<open>Properties\<close>

text \<open>C1: In every run of sends, credit reports, completions, flushes and activity changes with the
  driver's distribution function, the credits are accounted for: what the host holds and what it
  has spent on packets is what it had at the start and what came back.  No count turns negative.\<close>

theorem htc_credits_accounted:
  assumes "htc_inv ar6000_ready t0" and "htc_run ar6000_credit_distribute t0 c t"
  shows "ledger t + spent t = ledger t0 + spent t0 + c \<and> credits_ok (set (DistList t)) (credit_view t)"
  using ar6000.run_accounts [OF assms(2,1)] by (auto simp: accounts_def htc_inv_def target_ok_def)

text \<open>C33: In a state that a run reaches, none of the operations of \<open>htc_send.c\<close> on connected endpoints
  faults: no null list head, no division by zero, no endless loop.  They are a send of any queue
  of packets, a credit report with any number of records, the completion of a packet or of a
  scatter request with any status, a change of activity, all for endpoints on the distribution
  list; a flush with any tag and the activity query are total on every endpoint index.
  (\<open>HTCStop\<close> is a property of HtcStop.)\<close>

theorem htc_send_never_faults:
  assumes "htc_inv ar6000_ready t0" and "htc_run ar6000_credit_distribute t0 c t"
  shows "(\<forall>q. (q \<noteq> [] \<longrightarrow> pk_Endpoint (hd q) \<in> set (DistList t)) \<longrightarrow>
       HTCSendPktsMultiple ar6000_credit_distribute q t \<noteq> None) \<and>
    (\<forall>rpts. (\<forall>(e, n) \<in> set rpts. e \<in> set (DistList t)) \<longrightarrow>
       HTCProcessCreditRpt ar6000_credit_distribute rpts t \<noteq> None) \<and>
    (\<forall>p. pk_Endpoint p \<in> set (DistList t) \<and> 0 \<le> CreditsUsed p \<longrightarrow>
       HTCSendPktCompletionHandler ar6000_credit_distribute p t \<noteq> None) \<and>
    (\<forall>e st entries. e \<in> set (DistList t) \<and> (\<forall>x \<in> set entries. 0 \<le> CreditsUsed (fst x)) \<longrightarrow>
       HTCAsyncSendScatterCompletion ar6000_credit_distribute e st entries t \<noteq> None) \<and>
    (\<forall>e active. e \<in> set (DistList t) \<longrightarrow>
       HTCIndicateActivityChange ar6000_credit_distribute e active t \<noteq> None) \<and>
    (\<forall>e tag. e < ENDPOINT_MAX \<longrightarrow> HTCFlushEndpoint e tag t \<noteq> None \<and> HTCIsEndpointActive e t \<noteq> None)"
proof -
  have inv: "htc_inv ar6000_ready t" using ar6000.run_accounts [OF assms(2,1)] by (simp add: accounts_def)
  have "HTCSendPktsMultiple ar6000_credit_distribute q t \<noteq> None"
    if "q \<noteq> [] \<longrightarrow> pk_Endpoint (hd q) \<in> set (DistList t)" for q
    using ar6000.send_accounts [OF inv that] by auto
  moreover have "HTCProcessCreditRpt ar6000_credit_distribute rpts t \<noteq> None"
    if "\<forall>(e, n) \<in> set rpts. e \<in> set (DistList t)" for rpts
    using ar6000.credit_report_accounts [OF inv that refl] by auto
  moreover have "HTCSendPktCompletionHandler ar6000_credit_distribute p t \<noteq> None"
    if "pk_Endpoint p \<in> set (DistList t) \<and> 0 \<le> CreditsUsed p" for p
    using ar6000.completion_accounts [OF inv, of p] that by auto
  moreover have "HTCAsyncSendScatterCompletion ar6000_credit_distribute e st entries t \<noteq> None"
    if "e \<in> set (DistList t) \<and> (\<forall>x \<in> set entries. 0 \<le> CreditsUsed (fst x))" for e st entries
    using ar6000.scatter_completion_accounts [OF inv, of e entries st] that by auto
  moreover have "HTCIndicateActivityChange ar6000_credit_distribute e active t \<noteq> None"
    if "e \<in> set (DistList t)" for e active
    using ar6000.activity_accounts [OF inv that, of active] by auto
  moreover have "HTCFlushEndpoint e tag t \<noteq> None \<and> HTCIsEndpointActive e t \<noteq> None"
    if "e < ENDPOINT_MAX" for e tag
    using that by (simp add: HTCFlushEndpoint_def HTCIsEndpointActive_def)
  ultimately show ?thesis by blast
qed

text \<open>C2: Packets handed to \<open>HTCTrySend\<close> are neither lost nor sent twice nor reordered: those that
  went to the device followed by those still queued are the old queue followed by the accepted
  ones, the others are handed back, and sending stopped only because the queue is empty or its
  head needs more credits than the endpoint holds.\<close>

theorem htc_send_fifo:
  assumes "target_ok ar6000_ready t" and "e \<in> set (DistList t)" and "TxProcessCount (EndPoint t e) = 0"
  shows "\<exists>r t' left new. HTCTrySend ar6000_credit_distribute e (Some q) t = Some (r, t', left) \<and>
    sent_keys t' = sent_keys t @ new \<and>
    map fst new @ queue_ids e t' = queue_ids e t @ map pk_id (accepted e (Some q) t) \<and>
    mset (accepted e (Some q) t) + mset left = mset q \<and>
    (r = HTC_SEND_QUEUE_OK \<longrightarrow> exhausted e t') \<and>
    (\<forall>x. x \<noteq> e \<longrightarrow> queue_ids x t' = queue_ids x t)"
proof -
  obtain r t' where t': "HTCTrySend ar6000_credit_distribute e (Some q) t = Some (r, t', refused e (Some q) t)"
      "try_result e (accepted e (Some q) t) t t'" "r = HTC_SEND_QUEUE_OK \<longrightarrow> exhausted e t'"
    using ar6000.try_send_ok [OF assms, of "Some q"] by auto
  moreover have "mset (accepted e (Some q) t) + mset (refused e (Some q) t) = mset q"
    using accept_packets_mset [of "EndPoint t e" q] by (simp add: accepted_def refused_def)
  ultimately show ?thesis by (auto simp: try_result_def queue_ids_def)
qed

text \<open>A packet leaves the queue with exactly the credits its padded length needs: they cover it
  and one fewer would not; the endpoint's credits and the pool pay for all of them.\<close>

theorem htc_credits_cover_packets:
  assumes "target_ok ar6000_ready t" and "e \<in> set (DistList t)"
  shows "\<exists>t' out. GetHTCSendPackets ar6000_credit_distribute e t = Some (t', out) \<and>
    ledger t' + sum_list (map CreditsUsed out) = ledger t \<and>
    (\<forall>p \<in> set out. let len = int (DEV_CALC_SEND_PADDED_LEN t (ActualLength p + HTC_HDR_LENGTH));
                      sz = int (TargetCreditSize t)
       in len \<le> CreditsUsed p * sz \<and> (1 < CreditsUsed p \<longrightarrow> (CreditsUsed p - 1) * sz < len))"
proof -
  obtain t' out where g: "get_send_packets ar6000_credit_distribute e (TxQueue (EndPoint t e)) t = Some (t', out)"
      "ledger t' + sum_list (map CreditsUsed out) = ledger t"
      "\<forall>p \<in> set out. creditsRequired t p = Some (CreditsUsed p)"
    using ar6000.get_send_packets_ok [OF assms refl] by blast
  then show ?thesis
    using creditsRequired_covers [OF _ _ refl] assms(1)
    by (simp add: GetHTCSendPackets_def Let_def target_ok_def)
qed

text \<open>A credit report that returns any credit leaves no endpoint with a packet it could send:
  every queue on the distribution list is empty or its head needs more credits than are held.\<close>

theorem htc_report_restarts_queues:
  assumes "htc_inv ar6000_ready t" and "\<forall>(e, c) \<in> set rpts. e \<in> set (DistList t)"
    and "0 < sum_list (map snd rpts)"
  shows "\<exists>t'. HTCProcessCreditRpt ar6000_credit_distribute rpts t = Some t' \<and>
    (\<forall>e \<in> set (DistList t). exhausted e t') \<and>
    ledger t' + spent t' = ledger t + spent t + int (sum_list (map snd rpts))"
proof -
  define n where "n = sum_list (map snd rpts)"
  from ar6000.credit_report_accounts [OF assms(1,2) n_def] assms(3) show ?thesis
    unfolding n_def [symmetric] by (auto simp: accounts_def)
qed

text \<open>With a full handler that drops what does not fit, the transmit queue of an endpoint never
  grows past the depth its owner asked for.\<close>

theorem htc_queue_bounded:
  assumes "target_ok ar6000_ready t" and "e \<in> set (DistList t)" and "TxProcessCount (EndPoint t e) = 0"
    and "EpSendFull (EndPoint t e) = Some (\<lambda>_. True)" and "int (tx_depth e t) \<le> MaxTxQueueDepth (EndPoint t e)"
  shows "\<exists>r t' left. HTCTrySend ar6000_credit_distribute e (Some q) t = Some (r, t', left) \<and>
    int (tx_depth e t') \<le> MaxTxQueueDepth (EndPoint t e)"
proof -
  obtain r t' where r: "HTCTrySend ar6000_credit_distribute e (Some q) t = Some (r, t', refused e (Some q) t)"
      "try_result e (accepted e (Some q) t) t t'"
    using ar6000.try_send_ok [OF assms(1-3), of "Some q"] by blast
  then obtain new :: "(nat \<times> int) list" where t': "HTCTrySend ar6000_credit_distribute e (Some q) t = Some (r, t', refused e (Some q) t)"
      "map fst new @ queue_ids e t' = queue_ids e t @ map pk_id (accepted e (Some q) t)"
    by (auto simp: try_result_def)
  from arg_cong [OF t'(2), of length]
  have "length new + tx_depth e t' = length (TxQueue (EndPoint t e) @ accepted e (Some q) t)"
    by (simp add: queue_ids_def tx_depth_def)
  then have "int (tx_depth e t') \<le> MaxTxQueueDepth (EndPoint t e)"
    using accept_packets_bound [OF assms(4), of q] assms(5) by (simp add: accepted_def tx_depth_def)
  with t'(1) show ?thesis by blast
qed

lemma flush_indications:
  "indicated (fold (\<lambda>p. DoSendCompletion e [g p]) ps t) = indicated t @ map (\<lambda>p. (e, [g p])) ps \<and>
   EndPoint (fold (\<lambda>p. DoSendCompletion e [g p]) ps t) = EndPoint t"
  by (induction ps arbitrary: t) (simp_all add: DoSendCompletion_def)

text \<open>Flushing an endpoint completes every packet of its queue as cancelled, in order and exactly
  once, leaves the queue empty and touches no other endpoint.\<close>

theorem htc_flush_completes_all:
  assumes "e < ENDPOINT_MAX" and "ep_ServiceID (EndPoint t e) \<noteq> 0"
  shows "\<exists>t'. HTCFlushEndpoint e HTC_TX_PACKET_TAG_ALL t = Some t' \<and> TxQueue (EndPoint t' e) = [] \<and>
    indicated t' = indicated t @
      map (\<lambda>p. (e, [p\<lparr>pk_Status := A_ECANCELED\<rparr>])) (TxQueue (EndPoint t e)) \<and>
    (\<forall>x. x \<noteq> e \<longrightarrow> EndPoint t' x = EndPoint t x) \<and> sent t' = sent t"
proof -
  let ?t1 = "upd_ep e (\<lambda>x. x\<lparr>TxQueue := filter (\<lambda>p. False) (TxQueue x)\<rparr>) t"
  have sent: "sent (fold (\<lambda>p. DoSendCompletion e [g p]) ps u) = sent u" for g ps u
    by (induction ps arbitrary: u) (simp_all add: DoSendCompletion_def)
  have "HTCFlushEndpoint e 0 t = Some (fold (\<lambda>p. DoSendCompletion e [p\<lparr>pk_Status := A_ECANCELED\<rparr>])
      (TxQueue (EndPoint t e)) ?t1)"
    using assms by (simp add: HTCFlushEndpoint_def HTCFlushEndpointTX_def Let_def)
  then show ?thesis
    using flush_indications [of e "\<lambda>p. p\<lparr>pk_Status := A_ECANCELED\<rparr>" "TxQueue (EndPoint t e)" ?t1]
      sent [of "\<lambda>p. p\<lparr>pk_Status := A_ECANCELED\<rparr>" "TxQueue (EndPoint t e)" ?t1]
    by (simp add: htc_view)
qed

text \<open>When a packet on endpoint 0 fails, its credits are booked as to be distributed but never
  are: the distribution starts after endpoint 0, which is the head of the list, so the endpoint
  can send less from then on.\<close>

theorem htc_ep0_failure_loses_credits:
  assumes "htc_inv ar6000_ready t" and "DistList t = 0 # rest" and "A_FAILED (pk_Status p)"
    and "0 \<le> CreditsUsed p"
  shows "\<exists>t' p'. CompleteSentPacket ar6000_credit_distribute 0 p t = Some (t', p') \<and>
    TxCredits (CreditDist t' 0) = TxCredits (CreditDist t 0) \<and>
    TxCreditsToDist (CreditDist t' 0) = TxCreditsToDist (CreditDist t 0) + CreditsUsed p"
proof -
  let ?t1 = "upd_cd 0 (\<lambda>d. d\<lparr>TxCreditsToDist := TxCreditsToDist d + CreditsUsed p,
                           cd_TxQueueDepth := tx_depth 0 t\<rparr>) t"
  have "accounts ar6000_ready t (CreditsUsed p) ?t1"
    by (rule accounts_book) (use assms in simp_all)
  then have ok: "target_ok ar6000_ready ?t1" by (simp add: accounts_def htc_inv_def)
  obtain n where n: "head_next ?t1 = Some n" "n = None \<or> (\<exists>x. n = Some x \<and> x \<in> set rest)"
    using assms(2) by (cases rest) (auto simp: head_next_def htc_view)
  have "0 \<notin> set rest" using assms(1,2) by (auto simp: htc_inv_def)
  then have notin: "0 \<notin> set (from_ep (DistList ?t1) n)"
    using n(2) assms(2) by (auto simp: htc_view from_ep_def dest: set_dropWhileD)
  obtain t2 where t2: "DO_DISTRIBUTION ar6000_credit_distribute HTC_CREDIT_DIST_SEND_COMPLETE n ?t1 = Some t2"
      "CreditDist t2 0 = CreditDist ?t1 0"
    using ar6000.distribute_ok [OF ok, of n HTC_CREDIT_DIST_SEND_COMPLETE] notin
    by (auto simp: call_ok_def)
  then show ?thesis using n(1) assms(3) by (simp add: CompleteSentPacket_def htc_view)
qed

text \<open>The padding of a bundled packet that takes more than one credit does not fill its last
  credit: a transfer with \<open>r\<close> bytes in its last credit is padded by \<open>r\<close> bytes, so that the next
  packet of the bundle starts on a credit boundary only when \<open>r\<close> is half a credit.\<close>

theorem htc_bundle_padding_off_boundary:
  assumes "len = DEV_CALC_SEND_PADDED_LEN t (ActualLength p + HTC_HDR_LENGTH)"
    and "0 < TargetCreditSize t" and "TargetCreditSize t < len" and "r = len mod TargetCreditSize t"
    and "0 < r" and "r \<le> 255" and "2 * r \<noteq> TargetCreditSize t"
  shows "bundle_padding t True p = Some (Some (r, len + r)) \<and> (len + r) mod TargetCreditSize t \<noteq> 0"
proof -
  let ?s = "TargetCreditSize t"
  have "(len + r) mod ?s = (2 * r) mod ?s"
    using assms(4) by (metis mod_add_left_eq mult_2)
  moreover have "r < ?s" using assms(2,4) by simp
  then have "(2 * r) mod ?s \<noteq> 0" using assms(5,7) by (cases "2 * r < ?s") (auto simp: mod_if)
  ultimately show ?thesis using assms by (simp add: bundle_padding_def Let_def)
qed

end
