(* ===== verification/HtcSetupProps.thy ===== *)
theory HtcSetupProps
  imports HtcSetup HtcSystem
begin

text \<open>
  Set-up reaches the states the other theories start from.  \<open>credit_scheme\<close> extends the contract of
  a distribution function by that of the function that hands out the first credits; both schemes
  keep it.
\<close>

subsection \<open>Handing out the first credits\<close>

definition fresh_dist :: "HTC_ENDPOINT_CREDIT_DIST \<Rightarrow> bool" where
  "fresh_dist d \<longleftrightarrow> TxCredits d = 0 \<and> TxCreditsToDist d = 0 \<and> TxCreditsAssigned d = 0 \<and>
     TxCreditsMin d = 0 \<and> TxCreditsNorm d = 0"

text \<open>The credits the driver's scheme needs to start with.\<close>

definition start_credits :: "HTC_ENDPOINT_CREDIT_DIST \<Rightarrow> int" where
  "start_credits d = (if cd_ServiceID d \<in> {WMI_CONTROL_SVC, WMI_DATA_BK_SVC, WMI_DATA_BE_SVC}
                      then TxCreditsPerMaxMsg d else 0)"

definition ar6000_funded :: "nat list \<Rightarrow> dists \<Rightarrow> int \<Rightarrow> bool" where
  "ar6000_funded es cd T \<longleftrightarrow> (\<Sum>e \<leftarrow> es. start_credits (cd e)) \<le> T \<and>
     (\<forall>e \<in> set es. cd_ServiceID (cd e) = WMI_DATA_BK_SVC \<longleftrightarrow> e = last es)"

locale credit_scheme = credit_distribution +
  fixes init :: init_fn and funded :: "nat list \<Rightarrow> dists \<Rightarrow> int \<Rightarrow> bool"
  assumes init_ready: "distinct (0 # es) \<Longrightarrow> es \<noteq> [] \<Longrightarrow> 0 \<le> T \<Longrightarrow> 0 \<le> CurrentFreeCredits ci \<Longrightarrow>
      \<forall>e \<in> set (0 # es). fresh_dist (cd e) \<Longrightarrow> \<forall>e \<in> set es. 0 < TxCreditsPerMaxMsg (cd e) \<Longrightarrow>
      funded es cd T \<Longrightarrow>
      \<exists>s. init (0 # es) (Some (hd es)) T (ci, cd) = Some s \<and> ready (0 # es) (fst s) \<and>
        credits_ok (set (0 # es)) s"

lemma from_second: "0 \<notin> set es \<Longrightarrow> es \<noteq> [] \<Longrightarrow> from_ep (0 # es) (Some (hd es)) = es"
  by (cases es) (auto simp: from_ep_def)

text \<open>What the first loop of the driver's scheme does to the free pool and to the pointer.\<close>

lemma init_free:
  "CurrentFreeCredits (fst (init_credits_ep T e s)) \<ge> CurrentFreeCredits (fst s) - start_credits (snd s e)"
  if "0 \<le> TxCreditsPerMaxMsg (snd s e)"
  using that by (cases s) (auto simp: init_credits_ep_def start_credits_def set_active_def GiveCredits_def Let_def)

lemma init_lowest:
  "pLowestPriEpDist (fst (init_credits_ep T e s)) =
    (if cd_ServiceID (snd s e) = WMI_DATA_BK_SVC then Some e else pLowestPriEpDist (fst s))"
  by (cases s) (auto simp: init_credits_ep_def set_active_def GiveCredits_def Let_def)

lemma init_other: "x \<noteq> e \<Longrightarrow> snd (init_credits_ep T e s) x = snd s x"
  by (rule local_opD [OF local_init])

lemma init_fold_free:
  "distinct es \<Longrightarrow> \<forall>e \<in> set es. 0 \<le> TxCreditsPerMaxMsg (snd s e) \<Longrightarrow>
   CurrentFreeCredits (fst s) - (\<Sum>e \<leftarrow> es. start_credits (snd s e))
     \<le> CurrentFreeCredits (fst (fold (init_credits_ep T) es s))"
proof (induction es arbitrary: s)
  case (Cons e es)
  let ?s = "init_credits_ep T e s"
  have same: "snd ?s x = snd s x" if "x \<in> set es" for x
    using that Cons.prems(1) by (auto intro: init_other)
  then have "(\<Sum>x \<leftarrow> es. start_credits (snd ?s x)) = (\<Sum>x \<leftarrow> es. start_credits (snd s x))"
    by (simp cong: map_cong)
  moreover have "CurrentFreeCredits (fst ?s) - (\<Sum>e \<leftarrow> es. start_credits (snd ?s e))
      \<le> CurrentFreeCredits (fst (fold (init_credits_ep T) es ?s))"
    by (rule Cons.IH) (use Cons.prems same in auto)
  ultimately show ?case using init_free [of s e T] Cons.prems(2) by simp
qed simp

lemma init_fold_lowest:
  "distinct es \<Longrightarrow> es \<noteq> [] \<Longrightarrow>
   \<forall>e \<in> set es. cd_ServiceID (snd s e) = WMI_DATA_BK_SVC \<longleftrightarrow> e = last es \<Longrightarrow>
   pLowestPriEpDist (fst (fold (init_credits_ep T) es s)) = Some (last es)"
proof (induction es arbitrary: s)
  case (Cons e es)
  have same: "snd (init_credits_ep T e s) x = snd s x" if "x \<in> set es" for x
    using that Cons.prems(1) by (auto intro: init_other)
  show ?case
  proof (cases "es = []")
    case True
    then show ?thesis using Cons.prems by (simp add: init_lowest)
  next
    case False
    then show ?thesis using Cons.IH [of "init_credits_ep T e s"] Cons.prems same by auto
  qed
qed simp

text \<open>What it leaves on the structures: nothing negative.\<close>

definition started :: "HTC_ENDPOINT_CREDIT_DIST \<Rightarrow> HTC_ENDPOINT_CREDIT_DIST \<Rightarrow> bool" where
  "started d0 d \<longleftrightarrow> 0 \<le> TxCredits d \<and> TxCreditsToDist d = 0 \<and> 0 \<le> TxCreditsAssigned d \<and> 0 \<le> TxCreditsMin d \<and>
     TxCreditsNorm d = 0 \<and> TxCreditsPerMaxMsg d = TxCreditsPerMaxMsg d0"

lemma init_fold_at:
  assumes "distinct es" "e \<in> set es" "fresh_dist (snd s e)" "0 < TxCreditsPerMaxMsg (snd s e)"
  shows "started (snd s e) (snd (fold (init_credits_ep T) es s) e)"
proof -
  obtain s1 where s1: "snd s1 e = snd s e"
      "snd (fold (init_credits_ep T) es s) e = snd (init_credits_ep T e s1) e"
    using fold_local_at [OF local_init assms(1,2), of s T] by auto
  from init_at [of "snd s e" s1 e T] s1 show ?thesis
    using assms(3,4) by (auto simp: Let_def fresh_dist_def started_def)
qed

lemma init_fold_other: "e \<notin> set es \<Longrightarrow> snd (fold (init_credits_ep T) es s) e = snd s e"
  by (induction es arbitrary: s) (auto simp: init_other)

lemma ar6000_init_ready:
  assumes "distinct (0 # es)" "es \<noteq> []" "0 \<le> T" "\<forall>e \<in> set (0 # es). fresh_dist (cd e)"
    and "\<forall>e \<in> set es. 0 < TxCreditsPerMaxMsg (cd e)" "ar6000_funded es cd T"
  shows "\<exists>s. ar6000_credit_init (0 # es) (Some (hd es)) T (ci, cd) = Some s \<and>
    ar6000_ready (0 # es) (fst s) \<and> credits_ok (set (0 # es)) s \<and> pool (set (0 # es)) s = T"
proof -
  let ?ci = "ci\<lparr>TotalAvailableCredits := T, CurrentFreeCredits := T\<rparr>"
  obtain ci1 cd1 where f: "fold (init_credits_ep T) es (?ci, cd) = (ci1, cd1)" by fastforce
  have at: "started (cd e) (cd1 e)" if "e \<in> set es" for e
    using init_fold_at [of es e "(?ci, cd)" T] that assms(1,4,5) f by simp
  have es: "from_ep (0 # es) (Some (hd es)) = es" using assms(1,2) by (intro from_second) auto
  have "T - (\<Sum>e \<leftarrow> es. start_credits (cd e)) \<le> CurrentFreeCredits ci1"
    using init_fold_free [of es "(?ci, cd)" T] assms(1,5) f by fastforce
  then have free: "0 \<le> CurrentFreeCredits ci1" using assms(6) by (simp add: ar6000_funded_def)
  have low: "pLowestPriEpDist ci1 = Some (last es)"
    using init_fold_lowest [of es "(?ci, cd)" T] assms(1,2,6) f by (simp add: ar6000_funded_def)
  have pool1: "pool (set (0 # es)) (ci1, cd1) = T"
  proof -
    have "pool (set (0 # es)) (ci1, cd1) = pool (set (0 # es)) (?ci, cd)"
      using init_pool_fold [of "set (0 # es)" es T "(?ci, cd)"] f by (simp add: subset_insertI)
    moreover have "(\<Sum>e \<in> set (0 # es). TxCredits (cd e) + TxCreditsToDist (cd e)) = 0"
      by (rule sum.neutral) (use assms(4) in \<open>auto simp: fresh_dist_def\<close>)
    ultimately show ?thesis by (simp add: pool_def)
  qed
  have z: "fresh_dist (cd1 0)"
    using init_fold_other [of 0 es T "(?ci, cd)"] f assms(1,4) by simp
  have ok1: "credits_ok (set (0 # es)) (ci1, cd1)"
    using free z at by (auto simp: credits_ok_def fresh_dist_def started_def)
  show ?thesis
  proof (cases "CurrentFreeCredits ci1 \<le> 0")
    case True
    then show ?thesis using es f ok1 pool1 low assms(1,2)
      by (intro exI [of _ "(ci1, cd1)"]) (simp add: ar6000_credit_init_def ar6000_ready_def)
  next
    case False
    have pos: "\<forall>e \<in> set es. 0 < TxCreditsPerMaxMsg (cd1 e)" using at assms(5) by (auto simp: started_def)
    from init_norms_ok [OF this, of "CurrentFreeCredits ci1"] obtain cd2 where
      n: "init_norms (CurrentFreeCredits ci1) es cd1 = Some cd2"
        "\<And>e. \<exists>n. cd2 e = (cd1 e)\<lparr>TxCreditsNorm := n\<rparr>" "\<And>e. e \<notin> set es \<Longrightarrow> cd2 e = cd1 e"
        "\<And>e. e \<in> set es \<Longrightarrow> TxCreditsPerMaxMsg (cd1 e) \<le> TxCreditsNorm (cd2 e)" by blast
    have same: "TxCredits (cd2 e) = TxCredits (cd1 e)" "TxCreditsToDist (cd2 e) = TxCreditsToDist (cd1 e)"
      "TxCreditsAssigned (cd2 e) = TxCreditsAssigned (cd1 e)" "TxCreditsMin (cd2 e) = TxCreditsMin (cd1 e)" for e
      using n(2) [of e] by auto
    have norm: "0 \<le> TxCreditsNorm (cd2 e)" if "e \<in> set (0 # es)" for e
    proof (cases "e \<in> set es")
      case True
      then show ?thesis using n(4) [OF True] pos by fastforce
    next
      case False
      then show ?thesis using n(3) [OF False] z that by (simp add: fresh_dist_def)
    qed
    have "credits_ok (set (0 # es)) (ci1, cd2)" "pool (set (0 # es)) (ci1, cd2) = T"
      using ok1 norm pool1 by (simp_all add: credits_ok_def pool_def same)
    then show ?thesis using False es f n(1) low assms(1,2)
      by (intro exI [of _ "(ci1, cd2)"]) (simp add: ar6000_credit_init_def ar6000_ready_def)
  qed
qed

lemma default_init_ok:
  "0 \<le> n \<Longrightarrow> \<forall>e \<in> set es. 0 < TxCreditsPerMaxMsg (cd e) \<Longrightarrow> credits_ok A (ci, cd) \<Longrightarrow> distinct es \<Longrightarrow>
   credits_ok A (ci, default_init_eps n es cd)"
proof (induction es arbitrary: cd)
  case (Cons e es)
  show ?case
  proof (cases "n < TxCreditsPerMaxMsg (cd e)")
    case False
    have "credits_ok A (ci, cd(e := (cd e)\<lparr>TxCreditsMin := TxCreditsPerMaxMsg (cd e),
             TxCreditsNorm := 0xFFFF, TxCredits := n, TxCreditsAssigned := n\<rparr>))"
      using Cons.prems(1-3) False by (auto simp: credits_ok_def)
    from Cons.IH [OF Cons.prems(1) _ this] False Cons.prems(2,4) show ?thesis by fastforce
  qed (use Cons.prems in simp)
qed simp

lemma default_init_ready:
  assumes "distinct (0 # es)" "es \<noteq> []" "0 \<le> T" "0 \<le> CurrentFreeCredits ci"
    "\<forall>e \<in> set (0 # es). fresh_dist (cd e)" "\<forall>e \<in> set es. 0 < TxCreditsPerMaxMsg (cd e)"
  shows "\<exists>s. HTCDefaultCreditInit (0 # es) (Some (hd es)) T (ci, cd) = Some s \<and> credits_ok (set (0 # es)) s"
proof -
  have "credits_ok (set (0 # es)) (ci, default_init_eps (T div int (length es)) es cd)"
    by (rule default_init_ok)
      (use assms in \<open>auto simp: credits_ok_def fresh_dist_def pos_imp_zdiv_nonneg_iff\<close>)
  then show ?thesis using assms(1,2) by (simp add: HTCDefaultCreditInit_def from_second)
qed

interpretation ar6000_start: credit_scheme ar6000_credit_distribute ar6000_ready ar6000_credit_init ar6000_funded
  by unfold_locales (use ar6000_init_ready in blast)

interpretation default_start: credit_scheme HTCDefaultCreditDist "\<lambda>_ _. True" HTCDefaultCreditInit "\<lambda>_ _ _. True"
  by unfold_locales (use default_init_ready in blast)

subsection \<open>Control buffers\<close>

abbreviation free_rx :: "HTC_INSTANCE \<Rightarrow> HTC_RX_PACKET list" where
  "free_rx h \<equiv> ControlBufferRXFreeList (rx h)"

definition free_tx :: "HTC_INSTANCE \<Rightarrow> nat multiset" where
  "free_tx h = mset (map pk_id (ControlBufferTXFreeList h))"

definition control_buffers :: "HTC_RX_PACKET list \<Rightarrow> bool" where
  "control_buffers ps \<longleftrightarrow> (\<forall>p \<in> set ps. rx_Endpoint p = 0)"

lemma control_buffers_simps [simp]:
  "control_buffers []" "control_buffers (p # ps) \<longleftrightarrow> rx_Endpoint p = 0 \<and> control_buffers ps"
  "control_buffers (ps @ qs) \<longleftrightarrow> control_buffers ps \<and> control_buffers qs"
  by (auto simp: control_buffers_def)

definition no_trailer :: "A_STATUS \<times> lookahead \<Rightarrow> bool" where
  "no_trailer poll \<longleftrightarrow> la_flags (snd poll) AND HTC_FLAGS_RECV_TRAILER = 0"

lemma header_no_trailer:
  assumes "HTCProcessRecvHeader D want p t = Some (st, p', las, t')" "\<not> REFRESH_HDR p"
    and "la_flags (ExpectedHdr p) AND HTC_FLAGS_RECV_TRAILER = 0"
  shows "t' = t"
  using assms by (cases "ExpectedHdr p")
    (auto simp: HTCProcessRecvHeader_def Let_def bind_eq_Some_conv split: if_splits)

lemma issue_sync_fields:
  assumes "HTCIssueRecv True p t = (st, p', t')"
  shows "tx t' = tx t" "RxEp t' = RxEp t" "ControlBufferRXFreeList t' = ControlBufferRXFreeList t"
    "rx_Endpoint p' = rx_Endpoint p" "REFRESH_HDR p' = REFRESH_HDR p" "ExpectedHdr p' = ExpectedHdr p"
    "rx_id p' = rx_id p"
  using assms
  by (auto simp: HTCIssueRecv_def device_read_def store_data_def Let_def split: if_splits list.splits prod.splits)

text \<open>The receive side after a control message: nothing but the free list and the device moved.\<close>

definition control_wait :: "HTC_RX_TARGET \<Rightarrow> HTC_RX_PACKET option \<Rightarrow> HTC_RX_TARGET \<Rightarrow> bool" where
  "control_wait t rp t' \<longleftrightarrow> RxEp t' = RxEp t \<and>
     ids (ControlBufferRXFreeList t') + ids (case rp of None \<Rightarrow> [] | Some p \<Rightarrow> [p]) = ids (ControlBufferRXFreeList t) \<and>
     (control_buffers (ControlBufferRXFreeList t) \<longrightarrow>
        control_buffers (ControlBufferRXFreeList t' @ (case rp of None \<Rightarrow> [] | Some p \<Rightarrow> [p])))"

lemma wait_control:
  assumes "HTCWaitforControlMessage D poll t = Some (st, rp, t')"
  shows "control_wait t rp t' \<and> (rp = None \<longleftrightarrow> st \<noteq> A_OK) \<and> (no_trailer poll \<longrightarrow> tx t' = tx t)"
proof -
  obtain st0 la where poll: "poll = (st0, la)" using prod.exhaust by blast
  show ?thesis
  proof (cases "A_FAILED st0 \<or> la_endpoint la \<noteq> 0 \<or> ControlBufferRXFreeList t = []")
    case True
    then show ?thesis using assms poll
      by (auto simp: HTCWaitforControlMessage_def control_wait_def Let_def split: if_splits list.splits)
  next
    case False
    then obtain p0 ps where free: "ControlBufferRXFreeList t = p0 # ps" by (cases "ControlBufferRXFreeList t") auto
    define p where "p = p0\<lparr>IGNORE_LOOKAHEAD := False, REFRESH_HDR := False, PART_OF_BUNDLE := False,
      NO_RECYCLE := False, ExpectedHdr := la, rx_Length := la_length la + HTC_HDR_LENGTH\<rparr>"
    define t1 where "t1 = t\<lparr>ControlBufferRXFreeList := ps\<rparr>"
    have p: "rx_id p = rx_id p0" "rx_Endpoint p = rx_Endpoint p0" "\<not> REFRESH_HDR p" "ExpectedHdr p = la"
      by (simp_all add: p_def)
    note free_def = HTC_FREE_CONTROL_RX_def HTC_PACKET_RESET_RX_def
    obtain st1 p1 t2 where i: "HTCIssueRecv True p t1 = (st1, p1, t2)" using prod_cases3 by blast
    note i' = issue_sync_fields [OF i]
    have eq: "(if rx_Length p > BufferLength p then Some (A_EPROTO, None, HTC_FREE_CONTROL_RX p t1)
       else if A_FAILED st1 then Some (st1, None, HTC_FREE_CONTROL_RX p1 t2)
       else do {
         (st, p, las, x) \<leftarrow> HTCProcessRecvHeader D False p1 (tx t2);
         let p = p\<lparr>rx_Status := st\<rparr>;
         let t = t2\<lparr>tx := x\<rparr>;
         Some (if A_FAILED st then (st, None, HTC_FREE_CONTROL_RX p t) else (st, Some p, t)) }) = Some (st, rp, t')"
      using assms False free i unfolding poll HTCWaitforControlMessage_def p_def t1_def
      by (simp add: Let_def cong: if_cong)
    show ?thesis
    proof (cases "rx_Length p > BufferLength p \<or> A_FAILED st1")
      case True
      then show ?thesis using eq i' p free
        by (auto simp: free_def control_wait_def t1_def split: if_splits)
    next
      case False
      then obtain st2 p2 las x where h: "HTCProcessRecvHeader D False p1 (tx t2) = Some (st2, p2, las, x)"
        using eq by (auto simp: bind_eq_Some_conv Let_def split: if_splits)
      have x: "no_trailer poll \<longrightarrow> x = tx t"
        using header_no_trailer [OF h] i' p by (simp add: no_trailer_def poll t1_def)
      from eq False h have "(let p = p2\<lparr>rx_Status := st2\<rparr>; t = t2\<lparr>tx := x\<rparr>
          in if A_FAILED st2 then (st2, None, HTC_FREE_CONTROL_RX p t) else (st2, Some p, t)) = (st, rp, t')"
        by (simp add: Let_def)
      then show ?thesis using x i' p free process_header_id [OF h]
        by (auto simp: free_def control_wait_def t1_def Let_def split: if_splits)
    qed
  qed
qed

text \<open>
  What a step of the set-up does at most: the control buffers stay in HTC's hands, and the transmit
  side changes as \<open>R\<close> says.
\<close>

definition keeps_buffers :: "HTC_INSTANCE \<Rightarrow> HTC_INSTANCE \<Rightarrow> bool" where
  "keeps_buffers h h' \<longleftrightarrow> ids (free_rx h') = ids (free_rx h) \<and> free_tx h' = free_tx h \<and>
     (control_buffers (free_rx h) \<longrightarrow> control_buffers (free_rx h'))"

definition quiet :: "HTC_TARGET \<Rightarrow> HTC_TARGET \<Rightarrow> bool" where
  "quiet t t' \<longleftrightarrow> t' = t\<lparr>sent := sent t'\<rparr>"

lemma quiet_refl [simp]: "quiet t t"
  by (simp add: quiet_def)

lemma send_control_eq:
  assumes "send_control hif msg p h = (st, p', h')"
  shows "pk_id p' = pk_id p" "quiet (tx (rx h)) (tx (rx h'))" "RxEp (rx h') = RxEp (rx h)"
    "free_rx h' = free_rx h" "ControlBufferTXFreeList h' = ControlBufferTXFreeList h"
    "DistributeCredits h' = DistributeCredits h" "InitCredits h' = InitCredits h" "st = hif"
  using assms
  by (auto simp: send_control_def HTCIssueSend_def HTC_PREPARE_SEND_PKT_def upd_tx_def quiet_def Let_def)

lemma connect_endpoint_buffers:
  "connect_endpoint e m req resp h = Some (st, resp', h') \<Longrightarrow>
   free_rx h' = free_rx h \<and> ControlBufferTXFreeList h' = ControlBufferTXFreeList h"
  by (auto simp: connect_endpoint_def Let_def upd_tx_def upd_rx_def split: if_splits)

text \<open>The ways \<open>HTCConnectService\<close> goes.\<close>

lemma connect_service_cases:
  assumes "HTCConnectService hif poll req resp h = Some (st, resp', h')"
  obtains (pseudo) "req_ServiceID req = HTC_CTRL_RSVD_SVC"
      "connect_endpoint 0 HTC_MAX_CONTROL_MESSAGE_LENGTH req resp h = Some (st, resp', h')"
  | (no_buffer) "h' = h" "st = A_NO_MEMORY"
  | (failed) "A_FAILED st" "keeps_buffers h h'" "no_trailer poll \<Longrightarrow> quiet (tx (rx h)) (tx (rx h'))"
      "InitCredits h' = InitCredits h" "DistributeCredits h' = DistributeCredits h"
  | (answered) h1 e m resp1 h2 where "no_trailer poll \<Longrightarrow> quiet (tx (rx h)) (tx (rx h1))"
      "connect_endpoint e m req resp1 h1 = Some (st, resp', h2)" "keeps_buffers h h'"
      "tx (rx h') = tx (rx h2)" "RxEp (rx h') = RxEp (rx h2)"
proof (cases "req_ServiceID req = HTC_CTRL_RSVD_SVC")
  case True
  then show thesis using assms pseudo by (simp add: HTCConnectService_def)
next
  case False
  show thesis
  proof (cases "ControlBufferTXFreeList h")
    case Nil
    then show thesis using assms False no_buffer by (simp add: HTCConnectService_def HTC_ALLOC_CONTROL_TX_def)
  next
    case (Cons p ps)
    define h0 where "h0 = h\<lparr>ControlBufferTXFreeList := ps\<rparr>"
    have h0: "rx h0 = rx h" "ControlBufferTXFreeList h0 = ps" "DistributeCredits h0 = DistributeCredits h"
      "InitCredits h0 = InitCredits h" by (simp_all add: h0_def)
    obtain st1 sp h1 where s: "send_control hif (connect_message req) (p\<lparr>pBuffer := 0\<rparr>) h0 = (st1, sp, h1)"
      using prod_cases3 by blast
    note s' = send_control_eq [OF s, unfolded h0]
    have tx_free: "free_tx (HTC_FREE_CONTROL_TX sp x) = free_tx h" if "ControlBufferTXFreeList x = ps" for x
      using that Cons s'(1) by (simp add: free_tx_def HTC_FREE_CONTROL_TX_def)
    have eq: "(if A_FAILED st1 then Some (st1, resp, HTC_FREE_CONTROL_TX sp h1) else do {
        (st, rp, t) \<leftarrow> HTCWaitforControlMessage (dist_of h1) poll (rx h1);
        let h = h1\<lparr>rx := t\<rparr>;
        case rp of None \<Rightarrow> Some (st, resp, HTC_FREE_CONTROL_TX sp h)
        | Some rp \<Rightarrow> do {
            (st, resp, e, maxMsgSize) \<leftarrow> connect_response req resp rp;
            (st, resp, h) \<leftarrow> (if A_FAILED st then Some (st, resp, h) else connect_endpoint e maxMsgSize req resp h);
            let h = HTC_FREE_CONTROL_TX sp h;
            Some (st, resp, h\<lparr>rx := HTC_FREE_CONTROL_RX rp (rx h)\<rparr>) } }) = Some (st, resp', h')"
      using assms False Cons s
      by (simp add: HTCConnectService_def HTC_ALLOC_CONTROL_TX_def h0_def [symmetric] cong: if_cong)
    show thesis
    proof (cases "A_FAILED st1")
      case True
      then show thesis using eq s' tx_free [of h1]
        by (intro failed) (auto simp: keeps_buffers_def HTC_FREE_CONTROL_TX_def)
    next
      case ok: False
      then obtain st2 rp t2 where w: "HTCWaitforControlMessage (dist_of h1) poll (rx h1) = Some (st2, rp, t2)"
        using eq by (auto simp: bind_eq_Some_conv)
      from wait_control [OF w] s' have w': "ids (ControlBufferRXFreeList t2) +
            ids (case rp of None \<Rightarrow> [] | Some p \<Rightarrow> [p]) = ids (free_rx h)"
          "control_buffers (free_rx h) \<Longrightarrow> control_buffers (ControlBufferRXFreeList t2 @
             (case rp of None \<Rightarrow> [] | Some p \<Rightarrow> [p]))"
          "rp = None \<longleftrightarrow> st2 \<noteq> A_OK" "no_trailer poll \<Longrightarrow> quiet (tx (rx h)) (tx t2)"
        by (auto simp: control_wait_def)
      show thesis
      proof (cases rp)
        case None
        have "st = st2" "h' = HTC_FREE_CONTROL_TX sp (h1\<lparr>rx := t2\<rparr>)"
          using eq ok w None by (simp_all add: Let_def)
        then show thesis using None w' s' tx_free [of "h1\<lparr>rx := t2\<rparr>"]
          by (intro failed) (auto simp: keeps_buffers_def HTC_FREE_CONTROL_TX_def)
      next
        case (Some q)
        obtain st3 resp3 e m where r: "connect_response req resp q = Some (st3, resp3, e, m)"
          using eq ok w Some by (auto simp: bind_eq_Some_conv Let_def)
        note buf = tx_free HTC_FREE_CONTROL_RX_def keeps_buffers_def
        show thesis
        proof (cases "A_FAILED st3")
          case True
          have "st = st3" "h' = (HTC_FREE_CONTROL_TX sp (h1\<lparr>rx := t2\<rparr>))\<lparr>rx := HTC_FREE_CONTROL_RX q t2\<rparr>"
            using eq ok w Some r True by (simp_all add: Let_def HTC_FREE_CONTROL_TX_def)
          then show thesis using Some w' s' True Cons
            by (intro failed)
              (auto simp: keeps_buffers_def free_tx_def HTC_FREE_CONTROL_RX_def HTC_FREE_CONTROL_TX_def HTC_PACKET_RESET_RX_def)
        next
          case False
          then obtain h2 where c: "connect_endpoint e m req resp3 (h1\<lparr>rx := t2\<rparr>) = Some (st, resp', h2)"
              "h' = (HTC_FREE_CONTROL_TX sp h2)\<lparr>rx := HTC_FREE_CONTROL_RX q (rx h2)\<rparr>"
            using eq ok w Some r by (auto simp: Let_def bind_eq_Some_conv HTC_FREE_CONTROL_TX_def)
          show thesis
          proof (rule answered [OF _ c(1)])
            show "keeps_buffers h h'" using connect_endpoint_buffers [OF c(1)] c(2) Some w' s' Cons
              by (auto simp: keeps_buffers_def free_tx_def HTC_FREE_CONTROL_RX_def HTC_FREE_CONTROL_TX_def
                  HTC_PACKET_RESET_RX_def)
          qed (use w' c(2) in \<open>simp_all add: HTC_FREE_CONTROL_RX_def HTC_FREE_CONTROL_TX_def\<close>)
        qed
      qed
    qed
  qed
qed

subsection \<open>The state between creation and start\<close>

definition setup_tx :: "HTC_TARGET \<Rightarrow> bool" where
  "setup_tx t \<longleftrightarrow> DistList t = [] \<and> 0 \<le> CurrentFreeCredits (CredInfo t) \<and> 0 \<le> TargetCredits t \<and> idle_process t \<and>
     (\<forall>e < ENDPOINT_MAX. fresh_dist (CreditDist t e) \<and> (ep_ServiceID (EndPoint t e) \<noteq> 0 \<longrightarrow>
        0 < TxCreditsPerMaxMsg (CreditDist t e) \<and> cd_ServiceID (CreditDist t e) = ep_ServiceID (EndPoint t e) \<and>
        0 < TargetCreditSize t))"

lemma setup_tx_quiet: "quiet t t' \<Longrightarrow> setup_tx t' = setup_tx t"
  by (auto simp: quiet_def setup_tx_def idle_process_def dest: arg_cong [where f = setup_tx])

lemma setup_tx_bundles:
  "setup_tx (t\<lparr>MaxMsgPerBundle := n\<rparr>) = setup_tx t" "setup_tx (t\<lparr>SendBundlingEnabled := b\<rparr>) = setup_tx t"
  "setup_tx (t\<lparr>MaxSendBundleSize := k\<rparr>) = setup_tx t"
  by (simp_all add: setup_tx_def idle_process_def)

lemma setup_tx_ready:
  "setup_tx t \<Longrightarrow> 0 < n \<Longrightarrow> setup_tx (t\<lparr>TargetCredits := int c, TargetCreditSize := n\<rparr>)"
  by (simp add: setup_tx_def idle_process_def)

lemma connect_endpoint_setup:
  assumes "setup_tx (tx (rx h))" "connect_endpoint e m req resp h = Some (st, resp', h')"
    and "st = A_OK \<or> MaxSendMsgSize req = 0"
  shows "setup_tx (tx (rx h'))"
proof -
  let ?t = "tx (rx h)"
  show ?thesis
  proof (cases "e \<ge> ENDPOINT_MAX \<or> m = 0 \<or> ep_ServiceID (EndPoint ?t e) \<noteq> 0")
    case True
    then show ?thesis using assms by (simp add: connect_endpoint_def)
  next
    case False
    define n where "n = (let msg = (if MaxSendMsgSize req \<noteq> 0 then MaxSendMsgSize req else m); s = TargetCreditSize ?t
      in if msg div s = 0 then 1 else msg div s)"
    have n: "0 < n" by (simp add: n_def Let_def)
    have "\<not> MaxSendMsgSize req > m" "TargetCreditSize ?t \<noteq> 0"
      using assms(2,3) False by (auto simp: connect_endpoint_def Let_def upd_tx_def upd_rx_def upd_ep_def upd_cd_def
          split: if_splits)
    moreover from this assms(2) False obtain t' where "tx (rx h') = t'" and t':
      "EndPoint t' = (EndPoint ?t)(e := EndPoint t' e)" "CreditDist t' = (CreditDist ?t)(e := CreditDist t' e)"
      "TxProcessCount (EndPoint t' e) = TxProcessCount (EndPoint ?t e)"
      "ep_ServiceID (EndPoint t' e) = req_ServiceID req"
      "CreditDist t' e = (CreditDist ?t e)\<lparr>cd_ServiceID := req_ServiceID req, TxCreditSize := int (TargetCreditSize ?t),
         TxCreditsPerMaxMsg := int n\<rparr>"
      "DistList t' = DistList ?t" "CredInfo t' = CredInfo ?t" "TargetCredits t' = TargetCredits ?t"
      "TargetCreditSize t' = TargetCreditSize ?t"
      by (auto simp: connect_endpoint_def Let_def upd_tx_def upd_rx_def upd_ep_def upd_cd_def n_def split: if_splits)
    moreover have "TxProcessCount (EndPoint t' x) = TxProcessCount (EndPoint ?t x)" for x
      using t'(1,3) by (metis fun_upd_other)
    ultimately show ?thesis using assms(1) n
      by (auto simp: setup_tx_def idle_process_def fresh_dist_def) (metis fun_upd_apply)+
  qed
qed

lemma connect_setup:
  assumes "setup_tx (tx (rx h))" "HTCConnectService hif poll req resp h = Some (st, resp', h')"
    and "st = A_OK \<or> MaxSendMsgSize req = 0" "no_trailer poll"
  shows "setup_tx (tx (rx h'))"
  using assms(2)
proof (cases rule: connect_service_cases)
  case pseudo
  then show ?thesis using connect_endpoint_setup assms(1,3) by blast
next
  case no_buffer
  then show ?thesis using assms(1) by simp
next
  case failed
  then show ?thesis using assms(1,4) setup_tx_quiet by blast
next
  case (answered h1 e m resp1 h2)
  then have "setup_tx (tx (rx h1))" using assms(1,4) setup_tx_quiet by blast
  from connect_endpoint_setup [OF this answered(2) assms(3)] answered(4) show ?thesis by simp
qed

lemma setup_bundling_fields:
  "free_rx (h\<lparr>rx := setup_bundling s k (rx h)\<rparr>) = free_rx h"
  "setup_tx (tx (setup_bundling s k t)) = setup_tx (tx t)"
  by (auto simp: setup_bundling_def DevSetupMsgBundling_def Let_def setup_tx_bundles split: option.splits prod.splits)

lemma control_connect_service:
  "HTCConnectService hif poll control_connect resp h =
   connect_endpoint 0 HTC_MAX_CONTROL_MESSAGE_LENGTH control_connect resp h"
  by (simp add: HTCConnectService_def control_connect_def)

text \<open>The ways \<open>HTCWaitTarget\<close> goes.\<close>

lemma wait_target_cases:
  assumes "HTCWaitTarget poll scatter gmbox h = Some (st, h')"
  obtains (unchanged) "A_FAILED st" "keeps_buffers h h'" "no_trailer poll \<Longrightarrow> tx (rx h') = tx (rx h)"
  | (ready) t p credits csize version offered h1 h2 where
      "HTCWaitforControlMessage (dist_of h) poll (rx h) = Some (A_OK, Some p, t)"
      "ready_message p = Some (Some (credits, csize, version, offered))"
      "h1 = (upd_tx (\<lambda>t. t\<lparr>TargetCredits := int credits, TargetCreditSize := csize\<rparr>) (h\<lparr>rx := t\<rparr>))
                         \<lparr>HTCTargetVersion := version\<rparr>"
      "(A_FAILED st \<and> h2 = h1\<lparr>rx := setup_bundling scatter offered (rx h1)\<rparr>) \<or>
       (\<exists>resp. connect_endpoint 0 HTC_MAX_CONTROL_MESSAGE_LENGTH control_connect empty_resp
          (h1\<lparr>rx := setup_bundling scatter offered (rx h1)\<rparr>) = Some (st, resp, h2))"
      "h' = h2\<lparr>rx := HTC_FREE_CONTROL_RX p (rx h2)\<rparr>"
proof -
  obtain st1 rp t where w: "HTCWaitforControlMessage (dist_of h) poll (rx h) = Some (st1, rp, t)"
    using assms by (auto simp: HTCWaitTarget_def bind_eq_Some_conv)
  note w' = wait_control [OF w]
  show thesis
  proof (cases rp)
    case None
    then show thesis using assms w w' unchanged
      by (auto simp: HTCWaitTarget_def Let_def control_wait_def keeps_buffers_def free_tx_def)
  next
    case (Some p)
    have ok: "st1 = A_OK" using w' Some by simp
    show thesis
    proof (cases "ready_message p = Some None")
      case True
      then have "st = A_EPROTO" "h' = h\<lparr>rx := HTC_FREE_CONTROL_RX p t\<rparr>"
        using assms w Some by (simp_all add: HTCWaitTarget_def Let_def)
      then show thesis using w' Some
        by (intro unchanged) (auto simp: control_wait_def keeps_buffers_def free_tx_def HTC_FREE_CONTROL_RX_def
            HTC_PACKET_RESET_RX_def)
    next
      case False
      then obtain credits csize version offered where
        r: "ready_message p = Some (Some (credits, csize, version, offered))"
        using assms w Some by (auto simp: HTCWaitTarget_def Let_def bind_eq_Some_conv split: option.splits)
      define h1 where "h1 = (upd_tx (\<lambda>t. t\<lparr>TargetCredits := int credits, TargetCreditSize := csize\<rparr>) (h\<lparr>rx := t\<rparr>))
                         \<lparr>HTCTargetVersion := version\<rparr>"
      define h2 where "h2 = h1\<lparr>rx := setup_bundling scatter offered (rx h1)\<rparr>"
      have w1: "HTCWaitforControlMessage (dist_of h) poll (rx h) = Some (A_OK, Some p, t)"
        using w Some ok by simp
      have eq: "(if A_FAILED gmbox then Some (gmbox, h2) else do {
          (st, resp, h) \<leftarrow> connect_endpoint 0 HTC_MAX_CONTROL_MESSAGE_LENGTH control_connect empty_resp h2;
          Some (st, h) }) \<bind> (\<lambda>(st, h). Some (st, h\<lparr>rx := HTC_FREE_CONTROL_RX p (rx h)\<rparr>)) = Some (st, h')"
        using assms w1 r unfolding h2_def h1_def
        by (simp add: HTCWaitTarget_def Let_def control_connect_service cong: if_cong)
      show thesis
      proof (cases "A_FAILED gmbox")
        case True
        then show thesis using eq by (intro ready [OF w1 r h1_def, of h2]) (auto simp: h2_def)
      next
        case False
        then obtain resp h3 where "connect_endpoint 0 HTC_MAX_CONTROL_MESSAGE_LENGTH control_connect empty_resp h2 =
            Some (st, resp, h3)" "h' = h3\<lparr>rx := HTC_FREE_CONTROL_RX p (rx h3)\<rparr>"
          using eq by (auto simp: bind_eq_Some_conv)
        then show thesis by (intro ready [OF w1 r h1_def, of h3]) (auto simp: h2_def)
      qed
    qed
  qed
qed

lemma ready_message_pos:
  "ready_message p = Some (Some (credits, csize, version, offered)) \<Longrightarrow>
   0 < credits \<and> credits < 65536 \<and> 0 < csize \<and> csize < 65536 \<and> offered < 256"
  by (auto simp: ready_message_def Let_def bind_eq_Some_conv le16_less unsigned_less [where 'b = 8, simplified]
      split: if_splits)

lemma wait_target_buffers:
  assumes "HTCWaitTarget poll scatter gmbox h = Some (st, h')"
  shows "keeps_buffers h h'"
  using assms
proof (cases rule: wait_target_cases)
  case (ready t p credits csize version offered h1 h2)
  have "free_rx h2 = ControlBufferRXFreeList t \<and> ControlBufferTXFreeList h2 = ControlBufferTXFreeList h"
  proof -
    let ?h = "h1\<lparr>rx := setup_bundling scatter offered (rx h1)\<rparr>"
    have "free_rx ?h = ControlBufferRXFreeList t \<and> ControlBufferTXFreeList ?h = ControlBufferTXFreeList h"
      using ready(3) setup_bundling_fields(1) [of scatter offered h1] by (simp add: upd_tx_def)
    moreover have "free_rx h2 = free_rx ?h \<and> ControlBufferTXFreeList h2 = ControlBufferTXFreeList ?h"
      using ready(4) connect_endpoint_buffers [of 0 _ _ _ ?h st _ h2] by auto
    ultimately show ?thesis by simp
  qed
  then show ?thesis using wait_control [OF ready(1)] ready(5)
    by (auto simp: control_wait_def keeps_buffers_def free_tx_def HTC_FREE_CONTROL_RX_def HTC_PACKET_RESET_RX_def)
qed

lemma wait_target_setup:
  assumes "HTCWaitTarget poll scatter gmbox h = Some (st, h')" "no_trailer poll" "setup_tx (tx (rx h))"
  shows "setup_tx (tx (rx h'))"
  using assms(1)
proof (cases rule: wait_target_cases)
  case unchanged
  then show ?thesis using assms(2,3) by simp
next
  case (ready t p credits csize version offered h1 h2)
  let ?h = "h1\<lparr>rx := setup_bundling scatter offered (rx h1)\<rparr>"
  have "tx t = tx (rx h)" using wait_control [OF ready(1)] assms(2) by simp
  then have "setup_tx (tx (rx ?h))"
    using ready(3) ready_message_pos [OF ready(2)] assms(3)
    by (simp add: setup_bundling_fields upd_tx_def setup_tx_ready)
  then have "setup_tx (tx (rx h2))"
    using ready(4) connect_endpoint_setup [of ?h] by (auto simp: control_connect_def)
  then show ?thesis using ready(5) by (simp add: HTC_FREE_CONTROL_RX_def)
qed

text \<open>The set-up phase: creation, then any number of waits and connections.\<close>

inductive setup_step :: "HTC_INSTANCE \<Rightarrow> HTC_INSTANCE \<Rightarrow> bool" where
  wait: "no_trailer poll \<Longrightarrow> HTCWaitTarget poll scatter gmbox h = Some (st, h') \<Longrightarrow> setup_step h h'"
| connect: "no_trailer poll \<Longrightarrow> HTCConnectService hif poll req resp h = Some (st, resp', h') \<Longrightarrow>
     st = A_OK \<or> MaxSendMsgSize req = 0 \<Longrightarrow> setup_step h h'"
| device: "setup_step h (h\<lparr>rx := (rx h)\<lparr>dev_in := d\<rparr>\<rparr>)"

inductive setup_reach :: "HTC_INSTANCE \<Rightarrow> bool" where
  create: "HTCCreate malloc heap c = Some h \<Longrightarrow> setup_reach h"
| step: "setup_reach h \<Longrightarrow> setup_step h h' \<Longrightarrow> setup_reach h'"

inductive_cases setup_stepE: "setup_step h h'"

lemma create_setup:
  assumes "HTCCreate malloc heap c = Some h"
  shows "setup_tx (tx (rx h)) \<and> control_buffers (free_rx h) \<and> ids (free_rx h) = mset [1..<7] \<and> free_tx h = mset [7..<9]"
proof -
  obtain st t where d: "DevSetup c zero_target = (st, t)" by fastforce
  have "setup_tx (tx zero_target)"
    by (simp add: setup_tx_def zero_target_def idle_process_def fresh_dist_def zero_dist_def)
  moreover have "setup_tx (tx t) = setup_tx (tx zero_target)"
    using d by (auto simp: DevSetup_def setup_tx_def idle_process_def split: if_splits)
  ultimately have t: "setup_tx (tx t)" by simp
  obtain n where h: "tx (rx h) = tx t" "free_rx h = map (control_rx n heap) [1..<7]"
      "ControlBufferTXFreeList h = map control_tx [7..<9]"
    using assms d that by (fastforce simp: HTCCreate_def Let_def split: if_splits)
  have "map rx_id (map (control_rx n heap) [1..<7]) = [1..<7]" "map pk_id (map control_tx [7..<9]) = [7..<9]"
    by (simp_all add: control_rx_def control_tx_def HTC_PACKET_RESET_RX_def comp_def)
  moreover have "control_buffers (map (control_rx n heap) [1..<7])"
    by (simp add: control_buffers_def control_rx_def HTC_PACKET_RESET_RX_def)
  ultimately show ?thesis using t h by (simp add: free_tx_def del: map_map)
qed

lemma setup_reach_inv:
  "setup_reach h \<Longrightarrow> setup_tx (tx (rx h)) \<and> control_buffers (free_rx h) \<and>
     ids (free_rx h) = mset [1..<7] \<and> free_tx h = mset [7..<9]"
proof (induction rule: setup_reach.induct)
  case (create malloc heap c h)
  then show ?case by (rule create_setup)
next
  case (step h h')
  have "keeps_buffers h h' \<and> setup_tx (tx (rx h'))"
    using step(2)
  proof (cases rule: setup_step.cases)
    case (wait poll scatter gmbox st)
    then show ?thesis using wait_target_buffers wait_target_setup step.IH by blast
  next
    case (connect poll hif req resp st resp')
    have "keeps_buffers h h'"
      using connect(2) by (cases rule: connect_service_cases)
        (auto simp: keeps_buffers_def free_tx_def dest: connect_endpoint_buffers)
    then show ?thesis using connect_setup [OF _ connect(2,3,1)] step.IH by blast
  next
    case (device d)
    then show ?thesis using step.IH by (simp add: keeps_buffers_def free_tx_def)
  qed
  then show ?case using step.IH by (simp add: keeps_buffers_def)
qed

subsection \<open>Starting\<close>

lemma push_control_ok:
  "control_buffers ps \<Longrightarrow> \<not> Stopping (tx t) \<Longrightarrow> \<not> WAIT_BUFFERS t \<Longrightarrow>
   push_control ps t = Some (upd_rx 0 (\<lambda>x. x\<lparr>RxBuffers := RxBuffers x @ ps\<rparr>) t)"
proof (induction ps arbitrary: t)
  case Nil
  then show ?case by (simp add: upd_rx_def)
next
  case (Cons p ps)
  let ?t = "upd_rx 0 (\<lambda>x. x\<lparr>RxBuffers := RxBuffers x @ [p]\<rparr>) t"
  have "HTCAddReceivePkt p t = Some (A_OK, ?t)"
    using Cons.prems by (simp add: HTCAddReceivePkt_def HTCAddReceivePktMultiple_def Let_def upd_rx_def)
  moreover have "push_control ps ?t = Some (upd_rx 0 (\<lambda>x. x\<lparr>RxBuffers := RxBuffers x @ ps\<rparr>) ?t)"
    using Cons.prems by (intro Cons.IH) (simp_all add: upd_rx_def)
  ultimately show ?case by (simp add: upd_rx_def)
qed

lemma setup_complete_quiet:
  assumes "HTCSendSetupComplete hif h = (st, h')"
  shows "quiet (tx (rx h)) (tx (rx h'))" "ControlBufferTXFreeList h \<noteq> [] \<Longrightarrow> st = hif"
proof -
  have "quiet (tx (rx h)) (tx (rx h')) \<and> (ControlBufferTXFreeList h \<noteq> [] \<longrightarrow> st = hif)"
  proof (cases "ControlBufferTXFreeList h")
    case Nil
    then show ?thesis using assms by (simp add: HTCSendSetupComplete_def HTC_ALLOC_CONTROL_TX_def)
  next
    case (Cons p ps)
    then show ?thesis using assms
      by (auto simp: HTCSendSetupComplete_def HTC_ALLOC_CONTROL_TX_def HTC_FREE_CONTROL_TX_def Let_def
          dest: send_control_eq(2,8) split: prod.splits)
  qed
  then show "quiet (tx (rx h)) (tx (rx h'))" "ControlBufferTXFreeList h \<noteq> [] \<Longrightarrow> st = hif" by blast+
qed

lemma htc_inv_quiet: "quiet t t' \<Longrightarrow> htc_inv ready t' = htc_inv ready t \<and> ledger t' = ledger t"
  unfolding quiet_def
  by (metis (no_types, lifting) HTC_TARGET.update_convs credit_view_def htc_inv_cong ledger_def
      HTC_TARGET.select_convs HTC_TARGET.surjective)

context credit_scheme
begin

lemma start_inv:
  assumes "InitCredits h = Some init" "t = tx (rx h)" "DistList t = 0 # es" "distinct (0 # es)" "es \<noteq> []"
    and "set (0 # es) \<subseteq> {..<ENDPOINT_MAX}" "0 \<le> CurrentFreeCredits (CredInfo t)" "0 \<le> TargetCredits t"
    and "0 < TargetCreditSize t" "idle_process t" "\<forall>e \<in> set (0 # es). fresh_dist (CreditDist t e)"
    and "\<forall>e \<in> set es. 0 < TxCreditsPerMaxMsg (CreditDist t e)" "funded es (CreditDist t) (TargetCredits t)"
    and "control_buffers (free_rx h)" "ControlBufferTXFreeList h \<noteq> []"
  shows "\<exists>s h'. init (0 # es) (Some (hd es)) (TargetCredits t) (CredInfo t, CreditDist t) = Some s \<and>
    HTCStart hif A_OK h = Some (hif, h') \<and> htc_inv ready (tx (rx h')) \<and>
    ledger (tx (rx h')) = pool (set (0 # es)) s"
proof -
  obtain s where s: "init (0 # es) (Some (hd es)) (TargetCredits t) (CredInfo t, CreditDist t) = Some s"
      "ready (0 # es) (fst s)" "credits_ok (set (0 # es)) s"
    using init_ready [OF assms(4,5,8,7,11,12,13)] by blast
  obtain ci cd where ci: "s = (ci, cd)" by fastforce
  define r where "r = (upd_rx 0 (\<lambda>x. x\<lparr>RxBuffers := RxBuffers x @ free_rx h\<rparr>)
    ((rx h)\<lparr>WAIT_BUFFERS := False, tx := t\<lparr>Stopping := False\<rparr>, ControlBufferRXFreeList := []\<rparr>))"
  define h1 where "h1 = h\<lparr>rx := r\<lparr>tx := (tx r)\<lparr>CredInfo := ci, CreditDist := cd\<rparr>\<rparr>\<rparr>"
  have r: "tx r = t\<lparr>Stopping := False\<rparr>" by (simp add: r_def upd_rx_def)
  have push: "push_control (free_rx h) ((rx h)\<lparr>WAIT_BUFFERS := False, tx := t\<lparr>Stopping := False\<rparr>,
      ControlBufferRXFreeList := []\<rparr>) = Some r"
    unfolding r_def by (rule push_control_ok [OF assms(14)]) simp_all
  obtain st h' where c: "HTCSendSetupComplete hif h1 = (st, h')" by fastforce
  have st: "st = hif" using setup_complete_quiet(2) [OF c] assms(15) by (simp add: h1_def)
  have nxt: "head_next (t\<lparr>Stopping := False\<rparr>) = Some (Some (hd es))"
    using assms(3,5) by (cases es) (auto simp: head_next_def)
  have start: "HTCStart hif A_OK h = Some (hif, h')"
    using push assms(1,3) c s(1) st nxt
    by (simp add: HTCStart_def Let_def assms(2) [symmetric] r ci h1_def)
  have t1: "tx (rx h1) = t\<lparr>Stopping := False, CredInfo := ci, CreditDist := cd\<rparr>"
    by (simp add: h1_def r)
  have "htc_inv ready (tx (rx h1))"
    using assms(3,4,6,9,10) s(2,3) ci
    by (simp add: t1 htc_inv_def target_ok_def idle_process_def credit_view_def)
  moreover have "ledger (tx (rx h1)) = pool (set (0 # es)) s"
    using assms(3) by (simp add: t1 ledger_def credit_view_def ci)
  ultimately have "htc_inv ready (tx (rx h'))" "ledger (tx (rx h')) = pool (set (0 # es)) s"
    using htc_inv_quiet [OF setup_complete_quiet(1) [OF c]] by simp_all
  then show ?thesis using start s(1) by (intro exI [of _ s] exI [of _ h']) simp
qed

end

end
