(* ===== verification/HtcStart.thy ===== *)
theory HtcStart
  imports HtcSetupProps
begin

text \<open>
  Starting: from any state of the set-up phase the driver's scheme reaches the invariant of the
  transmit side.
\<close>

subsection \<open>The distribution list\<close>

lemma endpoint_ofD:
  "endpoint_of t s = Some e \<Longrightarrow> e \<in> {1..<ENDPOINT_MAX} \<and> ep_ServiceID (EndPoint t e) = s"
  by (auto simp: endpoint_of_def find_Some_iff dest: nth_mem)

abbreviation listed :: "HTC_TARGET \<Rightarrow> nat list \<Rightarrow> nat list" where
  "listed t ss \<equiv> List.map_filter (endpoint_of t) ss"

lemma set_listed: "e \<in> set (listed t ss) \<longleftrightarrow> (\<exists>s \<in> set ss. endpoint_of t s = Some e)"
  by (induction ss) (auto split: option.splits)

lemma listed_mem: "e \<in> set (listed t ss) \<Longrightarrow> ep_ServiceID (EndPoint t e) \<in> set ss \<and> e \<in> {1..<ENDPOINT_MAX}"
  by (auto simp: set_listed dest: endpoint_ofD)

lemma distinct_listed: "distinct ss \<Longrightarrow> distinct (listed t ss)"
proof (induction ss)
  case (Cons s ss)
  then show ?case
    by (cases "endpoint_of t s") (auto dest: listed_mem endpoint_ofD)
qed simp

lemma add_services_listed:
  "distinct ss \<Longrightarrow> \<forall>e \<in> set order. e = 0 \<or> ep_ServiceID (EndPoint t e) \<notin> set ss \<Longrightarrow>
   add_services t ss order = Some (order @ listed t ss)"
proof (induction ss arbitrary: order)
  case (Cons s ss)
  show ?case
  proof (cases "endpoint_of t s")
    case None
    then show ?thesis using Cons.IH [of order] Cons.prems by auto
  next
    case (Some e)
    then have e: "e \<notin> set order" "e \<noteq> 0" "ep_ServiceID (EndPoint t e) = s"
      using Cons.prems(2) endpoint_ofD [OF Some] by auto
    moreover have "add_services t ss (order @ [e]) = Some ((order @ [e]) @ listed t ss)"
      by (rule Cons.IH) (use Cons.prems e in auto)
    ultimately show ?thesis using Some by (simp add: AddToEndpointDistList_def)
  qed
qed simp

definition ar6000_services :: "nat list" where
  "ar6000_services = [WMI_CONTROL_SVC, WMI_DATA_VO_SVC, WMI_DATA_VI_SVC, WMI_DATA_BE_SVC, WMI_DATA_BK_SVC]"

lemma distinct_ar6000_services [simp]: "distinct ar6000_services"
  by (simp add: ar6000_services_def)

lemma setup_credit_dist_eq:
  assumes "DistList (tx (rx h)) = []"
  shows "ar6000_setup_credit_dist h = Some (upd_tx
      (\<lambda>t. t\<lparr>CredInfo := \<lparr>TotalAvailableCredits = 0, CurrentFreeCredits = 0, pLowestPriEpDist = None\<rparr>,
             DistList := 0 # listed t ar6000_services\<rparr>)
      (h\<lparr>InitCredits := Some ar6000_credit_init, DistributeCredits := Some ar6000_credit_distribute\<rparr>))"
proof -
  let ?t = "(tx (rx h))\<lparr>CredInfo := \<lparr>TotalAvailableCredits = 0, CurrentFreeCredits = 0, pLowestPriEpDist = None\<rparr>\<rparr>"
  have "endpoint_of ?t = endpoint_of (tx (rx h))" by (simp add: endpoint_of_def fun_eq_iff)
  moreover have "add_services ?t ar6000_services [0] = Some ([0] @ listed ?t ar6000_services)"
    by (rule add_services_listed) (simp_all add: ar6000_services_def)
  ultimately show ?thesis using assms
    by (simp add: ar6000_setup_credit_dist_def HTCSetCreditDistribution_def upd_tx_def AddToEndpointDistList_def
        ar6000_services_def [symmetric] Let_def)
qed

text \<open>The endpoints on the driver's list, at the end of the set-up phase.\<close>

lemma setup_listed:
  assumes "setup_tx t" "endpoint_of t WMI_DATA_BK_SVC = Some bk" "es = listed t ar6000_services"
  shows "distinct (0 # es)" "es \<noteq> []" "set (0 # es) \<subseteq> {..<ENDPOINT_MAX}" "0 < TargetCreditSize t"
    "\<forall>e \<in> set (0 # es). fresh_dist (CreditDist t e)" "\<forall>e \<in> set es. 0 < TxCreditsPerMaxMsg (CreditDist t e)"
    "\<forall>e \<in> set es. cd_ServiceID (CreditDist t e) = WMI_DATA_BK_SVC \<longleftrightarrow> e = last es"
proof -
  have last: "es = listed t (butlast ar6000_services) @ [bk]"
    using assms(2,3) by (simp add: ar6000_services_def List.map_filter_def)
  then show "es \<noteq> []" by simp
  show "distinct (0 # es)"
    using distinct_listed [of ar6000_services t] listed_mem [of 0 t ar6000_services] assms(3) by auto
  have mem: "e < ENDPOINT_MAX \<and> ep_ServiceID (EndPoint t e) \<in> set ar6000_services" if "e \<in> set es" for e
    using listed_mem [of e t ar6000_services] that assms(3) by simp
  then show "set (0 # es) \<subseteq> {..<ENDPOINT_MAX}" by auto
  have conn: "0 < TxCreditsPerMaxMsg (CreditDist t e)" "cd_ServiceID (CreditDist t e) = ep_ServiceID (EndPoint t e)"
    "0 < TargetCreditSize t" if "e \<in> set es" for e
    using mem [OF that] assms(1) by (auto simp: setup_tx_def ar6000_services_def)
  show "0 < TargetCreditSize t" using conn(3) [of bk] last by simp
  show "\<forall>e \<in> set es. 0 < TxCreditsPerMaxMsg (CreditDist t e)" using conn(1) by blast
  show "\<forall>e \<in> set (0 # es). fresh_dist (CreditDist t e)" using mem assms(1) by (auto simp: setup_tx_def)
  have "e = bk" if "e \<in> set es" "ep_ServiceID (EndPoint t e) = WMI_DATA_BK_SVC" for e
  proof -
    have "e \<notin> set (listed t (butlast ar6000_services))"
    proof
      assume "e \<in> set (listed t (butlast ar6000_services))"
      from listed_mem [OF this] that(2) show False by (simp add: ar6000_services_def)
    qed
    then show ?thesis using that(1) last by simp
  qed
  then show "\<forall>e \<in> set es. cd_ServiceID (CreditDist t e) = WMI_DATA_BK_SVC \<longleftrightarrow> e = last es"
    using conn(2) last endpoint_ofD [OF assms(2)] by auto
qed

subsection \<open>Properties\<close>

definition start_cost :: "HTC_TARGET \<Rightarrow> int" where
  "start_cost t = (\<Sum>e \<leftarrow> listed t ar6000_services. start_credits (CreditDist t e))"

text \<open>C3: Set-up establishes the invariant.  After any sequence of waits for the target and service
  connections, with the background service connected and enough credits for the first maximal
  messages, the driver's scheme is installed, HTC starts with the status of its last message, and
  the state it starts in is one from which the transmit side never faults; every credit the
  target granted is in the ledger.\<close>

theorem htc_start_establishes_invariant:
  assumes "setup_reach h" and "t = tx (rx h)" and "endpoint_of t WMI_DATA_BK_SVC \<noteq> None"
    and "start_cost t \<le> TargetCredits t"
  shows "\<exists>h1 h2. ar6000_setup_credit_dist h = Some h1 \<and> HTCStart hif A_OK h1 = Some (hif, h2) \<and>
    htc_inv ar6000_ready (tx (rx h2)) \<and> ledger (tx (rx h2)) = TargetCredits t"
proof -
  let ?es = "listed t ar6000_services"
  have inv: "setup_tx t" "control_buffers (free_rx h)" "free_tx h \<noteq> {#}"
    using setup_reach_inv [OF assms(1)] assms(2) by (simp_all add: upt_rec)
  obtain bk where "endpoint_of t WMI_DATA_BK_SVC = Some bk" using assms(3) by blast
  note es = setup_listed [OF inv(1) this refl]
  define h1 where "h1 = upd_tx
      (\<lambda>t. t\<lparr>CredInfo := \<lparr>TotalAvailableCredits = 0, CurrentFreeCredits = 0, pLowestPriEpDist = None\<rparr>,
             DistList := 0 # listed t ar6000_services\<rparr>)
      (h\<lparr>InitCredits := Some ar6000_credit_init, DistributeCredits := Some ar6000_credit_distribute\<rparr>)"
  let ?t1 = "tx (rx h1)"
  have h1: "ar6000_setup_credit_dist h = Some h1"
    using setup_credit_dist_eq [of h] inv(1) assms(2) unfolding h1_def by (simp add: setup_tx_def)
  have h1': "InitCredits h1 = Some ar6000_credit_init" "control_buffers (free_rx h1)"
    "ControlBufferTXFreeList h1 \<noteq> []" "DistList ?t1 = 0 # ?es" "CreditDist ?t1 = CreditDist t"
    "TargetCredits ?t1 = TargetCredits t" "TargetCreditSize ?t1 = TargetCreditSize t"
    "0 \<le> CurrentFreeCredits (CredInfo ?t1)" "idle_process ?t1" "0 \<le> TargetCredits t"
    using inv assms(2) by (auto simp: h1_def upd_tx_def free_tx_def setup_tx_def idle_process_def)
  have f: "ar6000_funded ?es (CreditDist t) (TargetCredits t)"
    using assms(4) es(7) by (simp add: ar6000_funded_def start_cost_def)
  obtain s h2 where start: "ar6000_credit_init (0 # ?es) (Some (hd ?es)) (TargetCredits t)
        (CredInfo ?t1, CreditDist t) = Some s"
      "HTCStart hif A_OK h1 = Some (hif, h2)" "htc_inv ar6000_ready (tx (rx h2))"
      "ledger (tx (rx h2)) = pool (set (0 # ?es)) s"
    using ar6000_start.start_inv [OF h1'(1) refl h1'(4) es(1-3) h1'(8) _ _ h1'(9) _ _ _ h1'(2,3), of hif,
        unfolded h1'(5-7)] h1'(10) es(4-6) f by metis
  have "pool (set (0 # ?es)) s = TargetCredits t"
    using ar6000_init_ready [OF es(1,2) h1'(10) es(5,6) f, of "CredInfo ?t1"] start(1) by auto
  then show ?thesis using h1 start(2-4) by auto
qed

end
