(* ===== verification/HtcStop.thy ===== *)
theory HtcStop
  imports HtcStart
begin

text \<open>
  The rest of an instance's life: control buffers are never lost, the limits agreed with the
  target, what a refused connection leaves behind, and what stopping gives back.
\<close>

subsection \<open>Flushing all endpoints\<close>

abbreviation connected :: "HTC_TARGET \<Rightarrow> nat \<Rightarrow> bool" where
  "connected t e \<equiv> ep_ServiceID (EndPoint t e) \<noteq> 0"

definition all_flushed_rx :: "HTC_RX_TARGET \<Rightarrow> (nat \<times> HTC_RX_PACKET list) list" where
  "all_flushed_rx t = concat (map (\<lambda>e. if connected (tx t) e then flushed_rx e t else []) [0..<ENDPOINT_MAX])"

definition flushed_tx :: "nat \<Rightarrow> HTC_TARGET \<Rightarrow> (nat \<times> HTC_PACKET list) list" where
  "flushed_tx e t = map (\<lambda>p. (e, [p\<lparr>pk_Status := A_ECANCELED\<rparr>])) (TxQueue (EndPoint t e))"

definition all_flushed_tx :: "HTC_TARGET \<Rightarrow> (nat \<times> HTC_PACKET list) list" where
  "all_flushed_tx t = concat (map (\<lambda>e. if connected t e then flushed_tx e t else []) [0..<ENDPOINT_MAX])"

lemma flush_rx_fold:
  assumes "distinct es"
  defines "f \<equiv> \<lambda>e t. if ep_ServiceID (EndPoint (tx t) e) = 0 then t else HTCFlushEndpointRX e t"
  shows "rx_indicated (fold f es t) = rx_indicated t @
      concat (map (\<lambda>e. if connected (tx t) e then flushed_rx e t else []) es) \<and>
    tx (fold f es t) = tx t \<and> ControlBufferRXFreeList (fold f es t) = ControlBufferRXFreeList t"
  using assms(1)
proof (induction es arbitrary: t)
  case (Cons e es)
  have tx: "tx (f e t) = tx t" "ControlBufferRXFreeList (f e t) = ControlBufferRXFreeList t"
    "rx_indicated (f e t) = rx_indicated t @ (if connected (tx t) e then flushed_rx e t else [])"
    by (simp_all add: f_def flush_endpoint upd_rx_def)
  have "flushed_rx x (f e t) = flushed_rx x t" if "x \<in> set es" for x
    using that Cons.prems by (auto simp: f_def flush_endpoint upd_rx_def flushed_rx_def)
  then have "concat (map (\<lambda>x. if connected (tx t) x then flushed_rx x (f e t) else []) es) =
      concat (map (\<lambda>x. if connected (tx t) x then flushed_rx x t else []) es)"
    by (intro arg_cong [where f = concat] map_cong) simp_all
  then show ?case using Cons.IH [of "f e t"] Cons.prems tx by simp
qed simp

lemma flush_all_rx:
  "rx_indicated (HTCFlushRecvBuffers t) = rx_indicated t @ all_flushed_rx t"
  "tx (HTCFlushRecvBuffers t) = tx t"
  "ControlBufferRXFreeList (HTCFlushRecvBuffers t) = ControlBufferRXFreeList t"
  using flush_rx_fold [of "[0..<ENDPOINT_MAX]" t] by (simp_all add: HTCFlushRecvBuffers_def all_flushed_rx_def)

lemma flush_tx_endpoint:
  "indicated (HTCFlushEndpointTX e 0 t) = indicated t @ flushed_tx e t"
  "EndPoint (HTCFlushEndpointTX e 0 t) = (EndPoint t)(e := (EndPoint t e)\<lparr>TxQueue := []\<rparr>)"
  using flush_indications [of e "\<lambda>p. p\<lparr>pk_Status := A_ECANCELED\<rparr>" "TxQueue (EndPoint t e)"]
  by (simp_all add: HTCFlushEndpointTX_def Let_def flushed_tx_def htc_view)

lemma flush_tx_fold:
  assumes "distinct es"
  defines "f \<equiv> \<lambda>e t. if ep_ServiceID (EndPoint t e) = 0 then t else HTCFlushEndpointTX e 0 t"
  shows "indicated (fold f es t) = indicated t @
      concat (map (\<lambda>e. if connected t e then flushed_tx e t else []) es) \<and>
    (\<forall>e. connected (fold f es t) e = connected t e) \<and>
    (\<forall>e. ep_ServiceID (EndPoint (fold f es t) e) = ep_ServiceID (EndPoint t e))"
  using assms(1)
proof (induction es arbitrary: t)
  case (Cons e es)
  have ind: "indicated (f e t) = indicated t @ (if connected t e then flushed_tx e t else [])"
    and svc: "ep_ServiceID (EndPoint (f e t) x) = ep_ServiceID (EndPoint t x)" for x
    by (simp_all add: f_def flush_tx_endpoint)
  have "flushed_tx x (f e t) = flushed_tx x t" if "x \<in> set es" for x
    using that Cons.prems by (auto simp: f_def flush_tx_endpoint flushed_tx_def)
  then have "concat (map (\<lambda>x. if connected (f e t) x then flushed_tx x (f e t) else []) es) =
      concat (map (\<lambda>x. if connected t x then flushed_tx x t else []) es)"
    by (intro arg_cong [where f = concat] map_cong) (simp_all add: svc)
  then show ?case using Cons.IH [of "f e t"] Cons.prems ind svc by simp
qed simp

lemma flush_all_tx:
  "indicated (HTCFlushSendPkts t) = indicated t @ all_flushed_tx t"
  "ep_ServiceID (EndPoint (HTCFlushSendPkts t) e) = ep_ServiceID (EndPoint t e)"
  using flush_tx_fold [of "[0..<ENDPOINT_MAX]" t] by (simp_all add: HTCFlushSendPkts_def all_flushed_tx_def)

text \<open>Endpoint 0 takes its cancelled buffers back into the free list.\<close>

lemma control_recv_cancelled:
  "\<forall>p \<in> set q. rx_Status p = A_ECANCELED \<Longrightarrow>
   fold (\<lambda>p t. Option.bind t (HTCControlRecv p)) q (Some t) =
     Some (t\<lparr>ControlBufferRXFreeList := ControlBufferRXFreeList t @ map HTC_PACKET_RESET_RX q\<rparr>)"
  by (induction q arbitrary: t) (simp_all add: HTCControlRecv_def)

lemma serve_control_cancelled:
  "\<forall>(e, q) \<in> set xs. \<forall>p \<in> set q. rx_Status p = A_ECANCELED \<Longrightarrow>
   serve_control xs t = Some (t\<lparr>ControlBufferRXFreeList := ControlBufferRXFreeList t @
     map HTC_PACKET_RESET_RX (concat (map snd (filter (\<lambda>x. fst x = 0) xs)))\<rparr>)"
proof (induction xs arbitrary: t)
  case (Cons x xs)
  obtain e q where x: "x = (e, q)" by fastforce
  then show ?case using Cons.IH Cons.prems by (simp add: control_recv_cancelled)
qed simp

lemma flushed_cancelled: "\<forall>(e, q) \<in> set (all_flushed_rx t). \<forall>p \<in> set q. rx_Status p = A_ECANCELED"
  by (auto simp: all_flushed_rx_def flushed_rx_def)

lemma flushed_zero:
  assumes "connected (tx t) 0"
  shows "map rx_id (concat (map snd (filter (\<lambda>x. fst x = 0) (all_flushed_rx t)))) =
    map rx_id (RecvIndicationQueue (RxEp t 0) @ RxBuffers (RxEp t 0))"
proof -
  have "filter (\<lambda>x. fst x = 0) (if connected (tx t) e then flushed_rx e t else []) = (if e = 0 then flushed_rx 0 t else [])"
    for e using assms by (auto simp: flushed_rx_def filter_empty_conv filter_id_conv)
  then have "filter (\<lambda>x. fst x = 0) (all_flushed_rx t) = flushed_rx 0 t"
    by (simp add: all_flushed_rx_def filter_concat upt_rec)
  moreover have "map rx_id (concat (map snd (map (\<lambda>p. (0::nat, [p\<lparr>rx_Status := A_ECANCELED, rx_Length := 0\<rparr>])) q))) = map rx_id q"
    for q by (induction q) simp_all
  ultimately show ?thesis by (simp add: flushed_rx_def del: map_append)
qed

subsection \<open>Properties\<close>

text \<open>C27: Stopping gives everything back.  \<open>HTCStop\<close> completes every queued packet of every connected
  endpoint as cancelled and hands every receive buffer of a connected endpoint to its owner,
  endpoint by endpoint and in order; the control buffers queued on endpoint 0 are on the free list
  again, and every endpoint is free and empty for the next set-up.\<close>

theorem htc_stop_gives_everything_back:
  assumes "ep_ServiceID (EndPoint (tx (rx h)) 0) = HTC_CTRL_RSVD_SVC"
  shows "\<exists>h'. HTCStop h = Some h' \<and>
    indicated (tx (rx h')) = indicated (tx (rx h)) @ all_flushed_tx (tx (rx h)) \<and>
    rx_indicated (rx h') = rx_indicated (rx h) @ all_flushed_rx (rx h) \<and>
    map rx_id (free_rx h') = map rx_id (free_rx h) @
      map rx_id (RecvIndicationQueue (RxEp (rx h) 0) @ RxBuffers (RxEp (rx h) 0)) \<and>
    DistList (tx (rx h')) = [] \<and>
    (\<forall>e \<in> {..<ENDPOINT_MAX}. \<not> connected (tx (rx h')) e \<and> TxQueue (EndPoint (tx (rx h')) e) = [] \<and>
       RxBuffers (RxEp (rx h') e) = [] \<and> RecvIndicationQueue (RxEp (rx h') e) = [])"
proof -
  let ?t = "HTCFlushSendPkts ((tx (rx h))\<lparr>Stopping := True\<rparr>)"
  let ?r = "(rx h)\<lparr>tx := ?t\<rparr>"
  define fr where "fr = all_flushed_rx ?r"
  have svc: "ep_ServiceID (EndPoint ?t e) = ep_ServiceID (EndPoint (tx (rx h)) e)" for e
    by (simp add: flush_all_tx)
  have ft: "all_flushed_tx ((tx (rx h))\<lparr>Stopping := True\<rparr>) = all_flushed_tx (tx (rx h))"
    by (simp add: all_flushed_tx_def flushed_tx_def cong: if_cong)
  have fr_eq: "fr = all_flushed_rx (rx h)"
    unfolding fr_def by (simp add: all_flushed_rx_def flushed_rx_def svc cong: if_cong)
  have "connected (tx ?r) 0" using assms svc by simp
  from flushed_zero [OF this] have ids: "map rx_id (concat (map snd (filter (\<lambda>x. fst x = 0) fr))) =
      map rx_id (RecvIndicationQueue (RxEp (rx h) 0) @ RxBuffers (RxEp (rx h) 0))"
    unfolding fr_def by simp
  have serve: "serve_control fr (HTCFlushRecvBuffers ?r) = Some ((HTCFlushRecvBuffers ?r)
      \<lparr>ControlBufferRXFreeList := free_rx h @
         map HTC_PACKET_RESET_RX (concat (map snd (filter (\<lambda>x. fst x = 0) fr)))\<rparr>)"
    unfolding fr_def by (simp add: serve_control_cancelled [OF flushed_cancelled] flush_all_rx)
  have "rx_id \<circ> HTC_PACKET_RESET_RX = rx_id" by (simp add: fun_eq_iff HTC_PACKET_RESET_RX_def)
  then show ?thesis
    using serve assms ids svc [of 0]
    by (simp add: HTCStop_def upd_tx_def Let_def flush_all_rx fr_def [symmetric] ResetEndpointStates_def
        flush_all_tx ft fr_eq [symmetric])
qed

text \<open>Control buffers are never lost.  Whatever the target answers and however a connection or a
  wait for the target ends, the control buffers on the two free lists afterwards are those that
  were there before.\<close>

theorem htc_control_buffers_conserved:
  assumes "(\<exists>resp'. HTCConnectService hif poll req resp h = Some (st, resp', h')) \<or>
    HTCWaitTarget poll scatter gmbox h = Some (st, h')"
  shows "mset (map rx_id (free_rx h')) = mset (map rx_id (free_rx h)) \<and>
    mset (map pk_id (ControlBufferTXFreeList h')) = mset (map pk_id (ControlBufferTXFreeList h))"
proof -
  have "keeps_buffers h h'" if "HTCConnectService hif poll req resp h = Some (st, resp', h')" for resp'
    using that by (cases rule: connect_service_cases)
      (auto simp: keeps_buffers_def free_tx_def dest: connect_endpoint_buffers)
  then have "keeps_buffers h h'" using assms wait_target_buffers by blast
  then show ?thesis by (simp add: keeps_buffers_def free_tx_def)
qed

lemma setup_bundling_limits:
  assumes "t' = setup_bundling s k t"
  shows "0 \<le> MaxMsgPerBundle (tx t') \<and> MaxMsgPerBundle (tx t') \<le> int HTC_HOST_MAX_MSG_PER_BUNDLE \<and>
    MaxMsgPerBundle (tx t') \<le> int k \<and>
    (0 < MaxMsgPerBundle (tx t') \<longrightarrow> MaxMsgPerBundle (tx t') \<le> int (MaxScatterEntries (snd (scatter_support s))) \<and>
       MaxSendBundleSize (tx t') \<le> MaxTransferSize (snd (scatter_support s)) \<and> MaxRecvBundleSize t' = MaxTransferSize (snd (scatter_support s)) \<and>
       (SendBundlingEnabled (tx t') \<longleftrightarrow> TargetCreditSize (tx t') mod Suc (unat (BlockMask (tx t'))) = 0))"
    and "TargetCredits (tx t') = TargetCredits (tx t)" "TargetCreditSize (tx t') = TargetCreditSize (tx t)"
proof -
  obtain st b where d: "DevSetupMsgBundling s t = (st, b)" by fastforce
  have b: "TargetCredits (tx b) = TargetCredits (tx t)" "TargetCreditSize (tx b) = TargetCreditSize (tx t)"
    "st = A_OK \<Longrightarrow> MaxSendBundleSize (tx b) \<le> MaxTransferSize (snd (scatter_support s)) \<and> MaxRecvBundleSize b = MaxTransferSize (snd (scatter_support s))"
    using d by (auto simp: DevSetupMsgBundling_def Let_def split: option.splits if_splits prod.splits)
  define n where "n = (if A_FAILED st then 0 else min (MaxScatterEntries (snd (scatter_support s))) (min 8 k))"
  have n: "n \<le> 8" "n \<le> k" "0 < n \<Longrightarrow> st = A_OK \<and> n \<le> MaxScatterEntries (snd (scatter_support s))"
    by (auto simp: n_def split: if_splits)
  have t': "t' = (if k > 0 then
      (if n > 0 then b\<lparr>RecvBundlingEnabled := True, tx := (tx b)\<lparr>MaxMsgPerBundle := int n, SendBundlingEnabled :=
         TargetCreditSize (tx b) mod Suc (unat (BlockMask (tx b))) = 0\<rparr>\<rparr>
       else b\<lparr>tx := (tx b)\<lparr>MaxMsgPerBundle := int n\<rparr>\<rparr>)
     else t\<lparr>tx := (tx t)\<lparr>MaxMsgPerBundle := 0\<rparr>\<rparr>)"
    using assms d by (simp add: setup_bundling_def n_def Let_def)
  show "0 \<le> MaxMsgPerBundle (tx t') \<and> MaxMsgPerBundle (tx t') \<le> int 8 \<and> MaxMsgPerBundle (tx t') \<le> int k \<and>
    (0 < MaxMsgPerBundle (tx t') \<longrightarrow> MaxMsgPerBundle (tx t') \<le> int (MaxScatterEntries (snd (scatter_support s))) \<and>
       MaxSendBundleSize (tx t') \<le> MaxTransferSize (snd (scatter_support s)) \<and> MaxRecvBundleSize t' = MaxTransferSize (snd (scatter_support s)) \<and>
       (SendBundlingEnabled (tx t') \<longleftrightarrow> TargetCreditSize (tx t') mod Suc (unat (BlockMask (tx t'))) = 0))"
    using n b(3) by (cases "k > 0"; cases "n > 0") (simp_all add: t')
  show "TargetCredits (tx t') = TargetCredits (tx t)" "TargetCreditSize (tx t') = TargetCreditSize (tx t)"
    using b(1,2) by (simp_all add: t')
qed

text \<open>C34: When the wait for the target succeeds the limits agreed on are sound: a positive number of
  credits of a positive size, both within 16 bits, at most eight messages per bundle and no more
  than the scatter lists of the device layer take, and bundles are sent only if a credit is a
  whole number of blocks; the control endpoint is connected.\<close>

theorem htc_wait_target_limits:
  assumes "HTCWaitTarget poll scatter gmbox h = Some (A_OK, h')" and "t = tx (rx h')"
  shows "0 < TargetCredits t \<and> TargetCredits t < 65536 \<and> 0 < TargetCreditSize t \<and> TargetCreditSize t < 65536 \<and>
    0 \<le> MaxMsgPerBundle t \<and> MaxMsgPerBundle t \<le> 8 \<and>
    (0 < MaxMsgPerBundle t \<longrightarrow> MaxMsgPerBundle t \<le> int (MaxScatterEntries (snd (scatter_support scatter))) \<and>
       MaxSendBundleSize t \<le> MaxTransferSize (snd (scatter_support scatter)) \<and>
       (SendBundlingEnabled t \<longrightarrow> TargetCreditSize t mod Suc (unat (BlockMask t)) = 0)) \<and>
    ep_ServiceID (EndPoint t 0) = HTC_CTRL_RSVD_SVC \<and> 1 \<le> TxCreditsPerMaxMsg (CreditDist t 0)"
  using assms(1)
proof (cases rule: wait_target_cases)
  case (ready r p credits csize version offered h1 h2)
  define b where "b = setup_bundling scatter offered (rx h1)"
  note lim = setup_bundling_limits [OF b_def]
  obtain resp where c: "connect_endpoint 0 HTC_MAX_CONTROL_MESSAGE_LENGTH control_connect empty_resp (h1\<lparr>rx := b\<rparr>) =
      Some (A_OK, resp, h2)"
    using ready(4) unfolding b_def by auto
  have "tx (rx h2) = t" using ready(5) assms(2) by (simp add: HTC_FREE_CONTROL_RX_def)
  with c have t: "TargetCredits t = TargetCredits (tx b)" "TargetCreditSize t = TargetCreditSize (tx b)"
    "MaxMsgPerBundle t = MaxMsgPerBundle (tx b)" "MaxSendBundleSize t = MaxSendBundleSize (tx b)"
    "SendBundlingEnabled t = SendBundlingEnabled (tx b)" "BlockMask t = BlockMask (tx b)"
    "ep_ServiceID (EndPoint t 0) = HTC_CTRL_RSVD_SVC" "1 \<le> TxCreditsPerMaxMsg (CreditDist t 0)"
    by (auto simp: connect_endpoint_def control_connect_def upd_tx_def upd_rx_def upd_ep_def upd_cd_def Let_def
        split: if_splits)
  then show ?thesis
    using lim ready(3) ready_message_pos [OF ready(2)] by (auto simp: upd_tx_def)
qed simp

text \<open>A refused connection can leave its endpoint taken.  When the caller asks for longer messages
  than the target supports, the connection is refused only after the endpoint was marked as in
  use: its credits per message stay as they were (zero on a fresh endpoint), every later
  connection to it is refused, and the driver's credit function, run on it, divides by zero.\<close>

theorem htc_refused_size_takes_endpoint:
  assumes "e < ENDPOINT_MAX" and "0 < m" and "ep_ServiceID (EndPoint (tx (rx h)) e) = 0"
    and "m < MaxSendMsgSize req" and "req_ServiceID req \<noteq> 0"
  shows "\<exists>resp' h'. connect_endpoint e m req resp h = Some (A_EPROTO, resp', h') \<and>
    (\<forall>m' req' resp''. connect_endpoint e m' req' resp'' h' = Some (A_EPROTO, resp'', h')) \<and>
    TxCreditsPerMaxMsg (CreditDist (tx (rx h')) e) = TxCreditsPerMaxMsg (CreditDist (tx (rx h)) e) \<and>
    (TxCreditsPerMaxMsg (CreditDist (tx (rx h)) e) = 0 \<and> req_ServiceID req \<noteq> WMI_CONTROL_SVC \<longrightarrow>
       (\<forall>free. init_norm_ep free e (CreditDist (tx (rx h'))) = None))"
  using assms by (simp add: connect_endpoint_def Let_def upd_tx_def upd_rx_def upd_ep_def upd_cd_def init_norm_ep_def)

end
