(* ===== verification/HtcConnect.thy ===== *)
theory HtcConnect
  imports HtcStop
begin

text \<open>
  A control message from the target arrives whole, and a connection the target grants sets its
  endpoint up as the response says.
\<close>

lemma quietD:
  assumes "quiet t t'"
  shows "EndPoint t' = EndPoint t" "CreditDist t' = CreditDist t" "TargetCreditSize t' = TargetCreditSize t"
    "BlockMask t' = BlockMask t" "TargetCredits t' = TargetCredits t"
  using assms by (cases t; cases t'; simp add: quiet_def)+

text \<open>A control message as the device delivers it, and the lookahead that announces it.\<close>

definition control_frame :: "bytes \<Rightarrow> bytes" where
  "control_frame m = [0, 0] @ le16_bytes (length m) @ [0, 0] @ m"

definition control_poll :: "bytes \<Rightarrow> A_STATUS \<times> lookahead" where
  "control_poll m = (A_OK, 0, 0, word_of_nat (length m), word_of_nat (length m div 256))"

definition control_ready :: "bytes \<Rightarrow> HTC_RX_TARGET \<Rightarrow> bool" where
  "control_ready m t \<longleftrightarrow> length m < 65536 \<and> (case ControlBufferRXFreeList t of [] \<Rightarrow> False
     | p # _ \<Rightarrow> rx_off p = 0 \<and> length (rx_buf p) = BufferLength p \<and>
         length m + HTC_HDR_LENGTH \<le> DEV_CALC_RECV_PADDED_LEN t (length m + HTC_HDR_LENGTH) \<and>
         DEV_CALC_RECV_PADDED_LEN t (length m + HTC_HDR_LENGTH) \<le> BufferLength p)"

definition holds_message :: "bytes \<Rightarrow> HTC_RX_PACKET \<Rightarrow> bool" where
  "holds_message m p \<longleftrightarrow> rx_off p = HTC_HDR_LENGTH \<and> rx_Length p = length m \<and>
     (\<exists>rest. drop HTC_HDR_LENGTH (rx_buf p) = m @ rest) \<and> length (rx_buf p) = BufferLength p \<and>
     HTC_HDR_LENGTH \<le> BufferLength p"

lemma le16_of_le16_bytes: "n < 65536 \<Longrightarrow> le16 (le16_bytes n ! 0) (le16_bytes n ! 1) = n"
  by (simp add: le16_bytes_def le16_def unsigned_of_nat take_bit_eq_mod)

lemma holds_blk:
  assumes "holds_message m p" "i + n \<le> length m"
  shows "blk (rx_off p + i) n (rx_buf p) = Some (take n (drop i m))"
proof -
  obtain rest where r: "drop 6 (rx_buf p) = m @ rest" using assms(1) by (auto simp: holds_message_def)
  have "length (rx_buf p) - 6 = length m + length rest" using arg_cong [OF r, of length] by simp
  moreover have "6 \<le> length (rx_buf p)" using assms(1) by (simp add: holds_message_def)
  ultimately have "6 + i + n \<le> length (rx_buf p)" using assms(2) by linarith
  moreover have "drop (6 + i) (rx_buf p) = drop i m @ rest"
    using assms(2) r by (metis append_Nil2 diff_is_0_eq drop_append drop_drop add.commute le_add1 le_trans drop0)
  ultimately show ?thesis using assms by (simp add: blk_def holds_message_def)
qed

lemma wait_control_message:
  assumes "control_ready m t" "dev_in t = (A_OK, [control_frame m]) # ds" "ControlBufferRXFreeList t = p # ps"
  obtains p' where "HTCWaitforControlMessage D (control_poll m) t =
      Some (A_OK, Some p', t\<lparr>ControlBufferRXFreeList := ps, dev_in := ds\<rparr>)"
    "holds_message m p'" "rx_Endpoint p' = rx_Endpoint p" "BufferLength p' = BufferLength p"
proof -
  let ?n = "length m"
  let ?la = "(0, 0, word_of_nat ?n, word_of_nat (?n div 256)) :: lookahead"
  have len: "le16 (word_of_nat ?n) (word_of_nat (?n div 256)) = ?n"
    using le16_of_le16_bytes [of ?n] assms(1) by (simp add: le16_bytes_def control_ready_def)
  define p1 where "p1 = p\<lparr>IGNORE_LOOKAHEAD := False, REFRESH_HDR := False, PART_OF_BUNDLE := False,
      NO_RECYCLE := False, ExpectedHdr := ?la, rx_Length := ?n + HTC_HDR_LENGTH\<rparr>"
  define t1 where "t1 = t\<lparr>ControlBufferRXFreeList := ps\<rparr>"
  define pad where "pad = DEV_CALC_RECV_PADDED_LEN t (?n + HTC_HDR_LENGTH)"
  have fits: "rx_off p = 0" "length (rx_buf p) = BufferLength p" "?n + 6 \<le> pad" "pad \<le> BufferLength p"
    using assms(1,3) by (simp_all add: control_ready_def pad_def)
  have pad1: "DEV_CALC_RECV_PADDED_LEN t1 (rx_Length p1) = pad"
    by (simp add: t1_def p1_def pad_def DEV_CALC_RECV_PADDED_LEN_def)
  have frame: "length (control_frame m) = ?n + 6" by (simp add: control_frame_def le16_bytes_def)
  define p2 where "p2 = p1\<lparr>rx_buf := control_frame m @ drop (?n + 6) (rx_buf p), rx_Status := A_OK\<rparr>"
  have "store_data pad (control_frame m) p1 = p1\<lparr>rx_buf := control_frame m @ drop (?n + 6) (rx_buf p)\<rparr>"
    using fits frame by (simp add: store_data_def p1_def Let_def min_def)
  then have issue: "HTCIssueRecv True p1 t1 = (A_OK, p2, t1\<lparr>dev_in := ds\<rparr>)"
    using assms(2) fits pad1 by (simp add: HTCIssueRecv_def device_read_def Let_def t1_def p2_def p1_def)
  have p2: "rx_off p2 = 0" "rx_buf p2 = control_frame m @ drop (?n + 6) (rx_buf p)" "\<not> REFRESH_HDR p2"
    "ExpectedHdr p2 = ?la" "rx_Length p2 = ?n + 6"
    using fits(1) by (simp_all add: p2_def p1_def)
  have hdr: "blk 0 6 (rx_buf p2) = Some [0, 0, word_of_nat ?n, word_of_nat (?n div 256), 0, 0]"
    by (simp add: p2(2) control_frame_def le16_bytes_def blk_def)
  have "?n < 65536" using assms(1) by (simp add: control_ready_def)
  then have head: "HTCProcessRecvHeader D False p2 (tx t) =
      Some (A_OK, p2\<lparr>rx_off := 6, rx_Length := ?n\<rparr>, [], tx t)"
    using hdr p2 by (simp add: HTCProcessRecvHeader_def Let_def u32_def)
  define p3 where "p3 = p2\<lparr>rx_off := 6, rx_Length := ?n, rx_Status := A_OK\<rparr>"
  have "\<not> BufferLength p < ?n + 6" using fits by simp
  then have "HTCWaitforControlMessage D (control_poll m) t =
      Some (A_OK, Some p3, t\<lparr>ControlBufferRXFreeList := ps, dev_in := ds\<rparr>)"
    using issue head assms(3) len unfolding p1_def [symmetric] p3_def
    by (simp add: HTCWaitforControlMessage_def control_poll_def Let_def p1_def t1_def)
  moreover have "holds_message m p3"
    using fits frame by (simp add: holds_message_def p3_def p2_def p1_def control_frame_def le16_bytes_def)
  ultimately show thesis using that by (simp add: p3_def p2_def p1_def)
qed

definition connect_reply :: "nat \<Rightarrow> nat \<Rightarrow> nat \<Rightarrow> bytes" where
  "connect_reply svc e maxmsg = le16_bytes 3 @ le16_bytes svc @ [0, word_of_nat e] @ le16_bytes maxmsg @ [0, 0]"

lemma connect_reply_fields:
  assumes "e < 256" "maxmsg < 65536" "holds_message (connect_reply svc e maxmsg) p" "resp_room req = None"
  shows "connect_response req resp p = Some (A_OK, resp\<lparr>ConnectRespCode := 0\<rparr>, e, maxmsg)"
proof -
  have l: "length (connect_reply svc e maxmsg) = 10" by (simp add: connect_reply_def le16_bytes_def)
  have "blk (rx_off p) 10 (rx_buf p) = Some (connect_reply svc e maxmsg)"
    using holds_blk [OF assms(3), of 0 10] l by simp
  moreover have "rx_Length p = 10" using assms(3) l by (simp add: holds_message_def)
  moreover have "unat (word_of_nat e :: byte) = e" using assms(1) by (simp add: unsigned_of_nat take_bit_eq_mod)
  moreover have "le16 (word_of_nat maxmsg) (word_of_nat (maxmsg div 256)) = maxmsg"
    using le16_of_le16_bytes [OF assms(2)] by (simp add: le16_bytes_def)
  moreover have "le16 3 0 = 3" by (simp add: le16_def)
  ultimately show ?thesis using assms(4)
    by (simp add: connect_response_def connect_reply_def le16_bytes_def Let_def)
qed

lemma connect_binds:
  assumes "m = connect_reply svc e maxmsg" and "svc = req_ServiceID req" and "svc \<noteq> HTC_CTRL_RSVD_SVC"
    and "control_ready m (rx h)" and "dev_in (rx h) = (A_OK, [control_frame m]) # ds"
    and "ControlBufferTXFreeList h \<noteq> []" and "t = tx (rx h)" and "e < ENDPOINT_MAX" and "\<not> connected t e"
    and "0 < maxmsg" and "maxmsg < 65536" and "MaxSendMsgSize req \<le> maxmsg" and "0 < TargetCreditSize t"
    and "resp_room req = None" and "n = (if MaxSendMsgSize req \<noteq> 0 then MaxSendMsgSize req else maxmsg)"
  shows "\<exists>resp' h'. HTCConnectService A_OK (control_poll m) req resp h = Some (A_OK, resp', h') \<and>
    resp_Endpoint resp' = e \<and> MaxMsgLengthResp resp' = maxmsg \<and>
    ctrl_out h' = ctrl_out h @ [connect_message req] \<and>
    ep_ServiceID (EndPoint (tx (rx h')) e) = svc \<and> MaxMsgLength (EndPoint (tx (rx h')) e) = maxmsg \<and>
    TxCreditsPerMaxMsg (CreditDist (tx (rx h')) e) = int (max 1 (n div TargetCreditSize t)) \<and>
    TargetCredits (tx (rx h')) = TargetCredits t \<and>
    (\<forall>x. x \<noteq> e \<longrightarrow> EndPoint (tx (rx h')) x = EndPoint t x \<and> CreditDist (tx (rx h')) x = CreditDist t x)"
proof -
  obtain sp ps where tx: "ControlBufferTXFreeList h = sp # ps" using assms(6) by (cases "ControlBufferTXFreeList h") auto
  obtain rp rps where rx: "free_rx h = rp # rps" using assms(4) by (auto simp: control_ready_def split: list.splits)
  let ?h0 = "h\<lparr>ControlBufferTXFreeList := ps\<rparr>"
  obtain st sp' h1 where s: "send_control A_OK (connect_message req) (sp\<lparr>pBuffer := 0\<rparr>) ?h0 = (st, sp', h1)"
    using prod_cases3 by blast
  then obtain x where h1: "st = A_OK" "rx h1 = (rx h)\<lparr>tx := x\<rparr>" "quiet t x"
    "ctrl_out h1 = ctrl_out h @ [connect_message req]"
    using assms(7) by (auto simp: send_control_def HTCIssueSend_def HTC_PREPARE_SEND_PKT_def upd_tx_def quiet_def Let_def)
  have rd: "control_ready m (rx h1)" "dev_in (rx h1) = (A_OK, [control_frame m]) # ds" "free_rx h1 = rp # rps"
    using assms(4,5,7) rx quietD(4) [OF h1(3)]
    by (simp_all add: h1(2) control_ready_def DEV_CALC_RECV_PADDED_LEN_def DEV_CALC_SEND_PADDED_LEN_def)
  obtain p where w: "HTCWaitforControlMessage (dist_of h1) (control_poll m) (rx h1) =
      Some (A_OK, Some p, (rx h1)\<lparr>ControlBufferRXFreeList := rps, dev_in := ds\<rparr>)" "holds_message m p"
    using wait_control_message [OF rd] by metis
  have r: "connect_response req resp p = Some (A_OK, resp\<lparr>ConnectRespCode := 0\<rparr>, e, maxmsg)"
    by (rule connect_reply_fields) (use assms w(2) in auto)
  show ?thesis
    using assms tx s h1(1,2,4) w(1) r quietD [OF h1(3)]
    by (simp add: HTCConnectService_def HTC_ALLOC_CONTROL_TX_def connect_endpoint_def Let_def upd_tx_def upd_rx_def
        upd_ep_def upd_cd_def HTC_FREE_CONTROL_TX_def HTC_FREE_CONTROL_RX_def max_def not_less)
qed

definition ready_reply :: "nat \<Rightarrow> nat \<Rightarrow> byte \<Rightarrow> byte \<Rightarrow> bytes" where
  "ready_reply credits csize version offered = le16_bytes 1 @ le16_bytes credits @ le16_bytes csize @ [9, 0, version, offered]"

lemma ready_reply_fields:
  assumes "0 < credits" "credits < 65536" "0 < csize" "csize < 65536"
    and "holds_message (ready_reply credits csize version offered) p"
  shows "ready_message p = Some (Some (credits, csize, unat version, unat offered))"
proof -
  have l: "length (ready_reply credits csize version offered) = 10" by (simp add: ready_reply_def le16_bytes_def)
  have "blk (rx_off p) 8 (rx_buf p) = Some (take 8 (ready_reply credits csize version offered))"
    "blk (rx_off p + 8) 2 (rx_buf p) = Some [version, offered]"
    using holds_blk [OF assms(5), of 0 8] holds_blk [OF assms(5), of 8 2] l
    by (simp_all add: ready_reply_def le16_bytes_def)
  moreover have "rx_Length p = 10" using assms(5) l by (simp add: holds_message_def)
  moreover have "le16 (word_of_nat credits) (word_of_nat (credits div 256)) = credits"
    "le16 (word_of_nat csize) (word_of_nat (csize div 256)) = csize"
    using le16_of_le16_bytes [OF assms(2)] le16_of_le16_bytes [OF assms(4)] by (simp_all add: le16_bytes_def)
  moreover have "le16 1 0 = 1" by (simp add: le16_def)
  ultimately show ?thesis using assms(1,3)
    by (simp add: ready_message_def ready_reply_def le16_bytes_def Let_def)
qed

lemma wait_target_ready:
  assumes "m = ready_reply credits csize version offered" "0 < credits" "credits < 65536" "0 < csize" "csize < 65536"
    and "control_ready m (rx h)" "dev_in (rx h) = (A_OK, [control_frame m]) # ds" "free_rx h = rp # rps"
    and "\<not> connected (tx (rx h)) 0"
  obtains h' p where "HTCWaitTarget (control_poll m) scatter A_OK h = Some (A_OK, h')"
    "free_rx h' = rps @ [p]" "ControlBufferTXFreeList h' = ControlBufferTXFreeList h"
    "TargetCredits (tx (rx h')) = int credits" "TargetCreditSize (tx (rx h')) = csize"
    "BlockMask (tx (rx h')) = BlockMask (tx (rx h))"
    "\<And>x. x \<noteq> 0 \<Longrightarrow> EndPoint (tx (rx h')) x = EndPoint (tx (rx h)) x"
proof -
  obtain p where w: "HTCWaitforControlMessage (dist_of h) (control_poll m) (rx h) =
      Some (A_OK, Some p, (rx h)\<lparr>ControlBufferRXFreeList := rps, dev_in := ds\<rparr>)" "holds_message m p"
    using wait_control_message [OF assms(6-8)] by metis
  have r: "ready_message p = Some (Some (credits, csize, unat version, unat offered))"
    using ready_reply_fields assms(1-5) w(2) by blast
  define h1 where "h1 = (upd_tx (\<lambda>t. t\<lparr>TargetCredits := int credits, TargetCreditSize := csize\<rparr>)
      (h\<lparr>rx := (rx h)\<lparr>ControlBufferRXFreeList := rps, dev_in := ds\<rparr>\<rparr>))\<lparr>HTCTargetVersion := unat version\<rparr>"
  define b where "b = setup_bundling scatter (unat offered) (rx h1)"
  have b: "EndPoint (tx b) = EndPoint (tx (rx h))" "BlockMask (tx b) = BlockMask (tx (rx h))"
    "TargetCredits (tx b) = int credits" "TargetCreditSize (tx b) = csize" "ControlBufferRXFreeList b = rps"
    by (auto simp: b_def setup_bundling_def DevSetupMsgBundling_def h1_def upd_tx_def Let_def split: option.splits prod.splits)
  obtain resp h2 where c: "connect_endpoint 0 HTC_MAX_CONTROL_MESSAGE_LENGTH control_connect empty_resp (h1\<lparr>rx := b\<rparr>) =
      Some (A_OK, resp, h2)" "free_rx h2 = rps" "ControlBufferTXFreeList h2 = ControlBufferTXFreeList h"
      "TargetCredits (tx (rx h2)) = int credits" "TargetCreditSize (tx (rx h2)) = csize"
      "BlockMask (tx (rx h2)) = BlockMask (tx (rx h))"
      "\<And>x. x \<noteq> 0 \<Longrightarrow> EndPoint (tx (rx h2)) x = EndPoint (tx (rx h)) x"
    using b assms(4,9) by (simp add: connect_endpoint_def control_connect_def Let_def upd_tx_def upd_rx_def upd_ep_def
        upd_cd_def) (simp add: h1_def upd_tx_def)
  have "HTCWaitTarget (control_poll m) scatter A_OK h = Some (A_OK, h2\<lparr>rx := HTC_FREE_CONTROL_RX p (rx h2)\<rparr>)"
    using w(1) r c(1) [unfolded b_def h1_def] unfolding HTCWaitTarget_def
    by (simp add: control_connect_service)
  then show thesis
    by (rule that) (use c in \<open>simp_all add: HTC_FREE_CONTROL_RX_def\<close>)
qed

text \<open>A connection the target grants.  The request goes out as one control message; the endpoint
  the response names is bound to the service with the message length the response states, its
  messages cost as many credits as that length needs but at least one, and neither another
  endpoint nor the credits granted change.\<close>

theorem htc_connect_binds_endpoint:
  assumes "m = connect_reply svc e maxmsg" and "svc = req_ServiceID req" and "svc \<noteq> HTC_CTRL_RSVD_SVC"
    and "control_ready m (rx h)" and "dev_in (rx h) = (A_OK, [control_frame m]) # ds"
    and "ControlBufferTXFreeList h \<noteq> []" and "t = tx (rx h)" and "e < ENDPOINT_MAX" and "\<not> connected t e"
    and "0 < maxmsg" and "maxmsg < 65536" and "MaxSendMsgSize req \<le> maxmsg" and "0 < TargetCreditSize t"
    and "resp_room req = None" and "n = (if MaxSendMsgSize req \<noteq> 0 then MaxSendMsgSize req else maxmsg)"
  shows "\<exists>resp' h'. HTCConnectService A_OK (control_poll m) req resp h = Some (A_OK, resp', h') \<and>
    resp_Endpoint resp' = e \<and> MaxMsgLengthResp resp' = maxmsg \<and>
    ctrl_out h' = ctrl_out h @ [connect_message req] \<and>
    ep_ServiceID (EndPoint (tx (rx h')) e) = svc \<and> MaxMsgLength (EndPoint (tx (rx h')) e) = maxmsg \<and>
    TxCreditsPerMaxMsg (CreditDist (tx (rx h')) e) = int (max 1 (n div TargetCreditSize t)) \<and>
    TargetCredits (tx (rx h')) = TargetCredits t \<and>
    (\<forall>x. x \<noteq> e \<longrightarrow> EndPoint (tx (rx h')) x = EndPoint t x \<and> CreditDist (tx (rx h')) x = CreditDist t x)"
  by (rule connect_binds) (use assms in auto)

end
