(* ===== verification/HtcDeliver.thy ===== *)
theory HtcDeliver
  imports HtcRecvProps
begin

text \<open>
  What a user of the receive side sees: messages arrive whole and in order, the receiver stops
  when buffers run out and restarts when they come back, a flush returns every buffer, and the
  cases in which the handler loses one.
\<close>

subsection \<open>Messages arrive whole and in order\<close>

text \<open>A message as the target sends it, with the lookahead of the next one in its trailer.\<close>

definition frame_trailer :: "lookahead option \<Rightarrow> bytes" where
  "frame_trailer nxt = (case nxt of None \<Rightarrow> [] | Some la \<Rightarrow> encode_trailer [LookaheadRecord 0 la])"

definition frame_la :: "nat \<Rightarrow> bytes \<Rightarrow> lookahead option \<Rightarrow> lookahead" where
  "frame_la e payload nxt =
     (let n = length payload + length (frame_trailer nxt)
      in (word_of_nat e, if nxt = None then 0 else HTC_FLAGS_RECV_TRAILER, word_of_nat n, word_of_nat (n div 256)))"

definition frame :: "nat \<Rightarrow> bytes \<Rightarrow> lookahead option \<Rightarrow> bytes" where
  "frame e payload nxt = la_bytes (frame_la e payload nxt) @ [word_of_nat (length (frame_trailer nxt)), 0]
     @ payload @ frame_trailer nxt"

fun next_la :: "nat \<Rightarrow> bytes list \<Rightarrow> lookahead option" where
  "next_la e [] = None"
| "next_la e (m # ms) = Some (frame_la e m (next_la e ms))"

fun frames :: "nat \<Rightarrow> bytes list \<Rightarrow> bytes list" where
  "frames e [] = []"
| "frames e (m # ms) = frame e m (next_la e ms) # frames e ms"

definition payload_of :: "HTC_RX_PACKET \<Rightarrow> bytes" where
  "payload_of p = take (rx_Length p) (drop (rx_off p) (rx_buf p))"

lemma length_frame_trailer: "length (frame_trailer nxt) = (if nxt = None then 0 else 8)"
  by (cases nxt) (simp_all add: frame_trailer_def encode_trailer_def encode_record_def)

lemma length_frame: "length (frame e m nxt) = length m + (if nxt = None then 0 else 8) + 6"
  by (simp add: frame_def length_frame_trailer)

lemma le16_of_bytes: "n < 65536 \<Longrightarrow> le16 (word_of_nat n) (word_of_nat (n div 256)) = n"
  by (simp add: le16_def unat_of_nat take_bit_nat_def)

lemma le16_of_bytes8:
  "n + 8 < 65536 \<Longrightarrow> le16 (word_of_nat n + 8) (word_of_nat ((n + 8) div 256)) = n + 8"
  using le16_of_bytes [of "n + 8"] by simp

lemma frame_la_fields:
  assumes "e < ENDPOINT_MAX" "length m \<le> 4082"
  shows "la_endpoint (frame_la e m nxt) = e" "num_messages (frame_la e m nxt) = 1"
    "la_length (frame_la e m nxt) = length m + (if nxt = None then 0 else 8)"
  using assms
  by (simp_all add: frame_la_def Let_def length_frame_trailer le16_of_bytes le16_of_bytes8 num_messages_def
      unat_of_nat take_bit_nat_def)

text \<open>The header of such a message is accepted, and its payload and the lookahead come out.\<close>

lemma process_frame:
  assumes "e < ENDPOINT_MAX" "length m \<le> 4082" "rx_off p = 0" "rx_buf p = frame e m nxt @ junk"
    and "ExpectedHdr p = frame_la e m nxt" "\<not> REFRESH_HDR p" "\<not> IGNORE_LOOKAHEAD p"
    and "rx_Length p = length m + (if nxt = None then 0 else 8) + HTC_HDR_LENGTH"
  shows "HTCProcessRecvHeader D True p t =
    Some (A_OK, p\<lparr>rx_off := 6, rx_Length := length m\<rparr>, (case nxt of None \<Rightarrow> [] | Some la \<Rightarrow> [la]), t)"
proof -
  let ?n = "length m + (if nxt = None then 0 else 8)"
  obtain a f l h where la: "frame_la e m nxt = (a, f, l, h)" by (metis prod_cases4)
  have flds: "f = (if nxt = None then 0 else HTC_FLAGS_RECV_TRAILER)" "le16 l h = ?n"
    using la assms(2) by (auto simp: frame_la_def Let_def length_frame_trailer le16_of_bytes le16_of_bytes8)
  define hdr where "hdr = [a, f, l, h, word_of_nat (length (frame_trailer nxt)), 0::byte]"
  have fr: "frame e m nxt = hdr @ m @ frame_trailer nxt"
    by (simp add: frame_def la hdr_def)
  have b: "blk (rx_off p) HTC_HDR_LENGTH (rx_buf p) = Some hdr"
    using assms(3,4) by (simp add: fr blk_def hdr_def)
  have h: "hdr ! 0 = a" "hdr ! 1 = f" "hdr ! 2 = l" "hdr ! 3 = h"
      "hdr ! 4 = word_of_nat (length (frame_trailer nxt))" "length hdr = 6"
    by (simp_all add: hdr_def)
  have u: "u32 (6 + int (length m) - 6) = length m" "u32 (int (length m)) = length m"
    using assms(2) by (simp_all add: u32_def)
  show ?thesis
  proof (cases nxt)
    case None
    then show ?thesis
      using b h flds assms(3,5-8) la u by (simp add: HTCProcessRecvHeader_def Let_def)
  next
    case (Some nla)
    have tr: "frame_trailer nxt = encode_trailer [LookaheadRecord 0 nla]"
      using Some by (simp add: frame_trailer_def)
    have "rx_buf p = hdr @ m @ encode_trailer [LookaheadRecord 0 nla] @ junk"
      using assms(4) by (simp add: fr tr)
    moreover have "6 + ?n - 8 = length hdr + length m" using h(6) Some by simp
    ultimately have "drop (6 + ?n - 8) (rx_buf p) = encode_trailer [LookaheadRecord 0 nla] @ junk"
      by simp
    then have "HTCProcessTrailer D (drop (6 + ?n - 8) (rx_buf p)) 8 (Some []) t = Some (A_OK, Some [nla], t)"
      using trailer_roundtrip [of "[LookaheadRecord 0 nla]" D junk "Some []" t]
      by (simp add: encode_trailer_def encode_record_def)
    then show ?thesis
      using b h flds assms(3,5-8) la u Some
      by (simp add: HTCProcessRecvHeader_def Let_def length_frame_trailer)
  qed
qed

subsection \<open>Padded lengths\<close>

lemma and_not_mask: "x AND NOT (mask k) = push_bit k (drop_bit k (x :: 'a::len word))"
  by (rule bit_word_eqI) (auto simp: bit_simps not_less)

lemma unat_round: "unat (push_bit k (drop_bit k (w :: 32 word))) = unat w div 2 ^ k * 2 ^ k"
proof -
  have "unat w div 2 ^ k * 2 ^ k \<le> unat w" by (rule div_times_less_eq_dividend)
  moreover have w: "unat w < 2 ^ 32" using unsigned_less [of w] by simp
  ultimately have "unat w div 2 ^ k * 2 ^ k < 2 ^ 32" by (rule le_less_trans)
  moreover have "drop_bit k (take_bit 32 (unat w)) = unat w div 2 ^ k"
    using w by (simp add: take_bit_nat_eq_self drop_bit_eq_div)
  ultimately show ?thesis
    by (simp only: unsigned_push_bit_eq unsigned_drop_bit_eq) (simp add: push_bit_eq_mult take_bit_nat_eq_self)
qed

lemma padded_length:
  assumes "BlockMask t = mask k" "n + 2 ^ k < 2 ^ 32"
  shows "DEV_CALC_SEND_PADDED_LEN t n = (n + (2 ^ k - 1)) div 2 ^ k * 2 ^ k"
proof -
  have k: "(2::nat) ^ k < 2 ^ 32" using assms(2) by linarith
  then have "k < 32" by (rule power_less_imp_less_exp [rotated]) simp
  have mk: "mask k = (word_of_nat (2 ^ k - 1) :: 32 word)"
    by (simp add: mask_eq_exp_minus_1 of_nat_diff)
  have "word_of_nat n + BlockMask t = word_of_nat (n + (2 ^ k - 1))"
    unfolding assms(1) mk by (rule of_nat_add [symmetric])
  moreover have "unat (word_of_nat (n + (2 ^ k - 1)) :: 32 word) = n + (2 ^ k - 1)"
    using assms(2) by (simp add: unat_of_nat take_bit_nat_eq_self)
  ultimately show ?thesis
    unfolding DEV_CALC_SEND_PADDED_LEN_def by (simp only: assms(1) and_not_mask unat_round)
qed

text \<open>The length of a transfer is the message's length rounded up to the block size, a power of two:
  the least multiple of the block size that is not below the length.\<close>

theorem htc_padded_length_is_ceiling:
  assumes "BlockMask t = mask k" and "n + 2 ^ k < 2 ^ 32" and "len = DEV_CALC_SEND_PADDED_LEN t n"
  shows "2 ^ k dvd len \<and> n \<le> len \<and> len < n + 2 ^ k"
proof -
  let ?b = "(2::nat) ^ k"
  have len: "len = (n + (?b - 1)) div ?b * ?b" using padded_length [OF assms(1,2)] assms(3) by simp
  have b: "0 < ?b" by simp
  have "n + (?b - 1) = len + (n + (?b - 1)) mod ?b" unfolding len by (rule div_mult_mod_eq [symmetric])
  moreover have "(n + (?b - 1)) mod ?b < ?b" using b by simp
  ultimately have "n \<le> len" "len < n + ?b" using b by linarith+
  then show ?thesis by (simp add: len)
qed

subsection \<open>Delivery\<close>

text \<open>
  The endpoint \<open>e\<close> is connected and takes its buffers from its queue, one message at a time; the
  device is read synchronously and rounds lengths up to its block size.
\<close>

definition plain_endpoint :: "nat \<Rightarrow> HTC_RX_TARGET \<Rightarrow> bool" where
  "plain_endpoint e t \<longleftrightarrow> e < ENDPOINT_MAX \<and> ep_ServiceID (EndPoint (tx t) e) \<noteq> 0 \<and>
     EpRecvAlloc (RxEp t e) = None \<and> EpRecvAllocThresh (RxEp t e) = None \<and>
     RecvRefillWaterMark (RxEp t e) \<le> 0 \<and> \<not> EpRecvPktMultiple (RxEp t e) \<and>
     \<not> ASYNC_ALLOWED t \<and> \<not> DSRCanYield t \<and> \<not> Stopping (tx t) \<and>
     (\<exists>k \<le> 12. BlockMask (tx t) = mask k)"

definition fresh_buffer :: "nat \<Rightarrow> nat \<Rightarrow> HTC_RX_PACKET \<Rightarrow> bool" where
  "fresh_buffer e n b \<longleftrightarrow> rx_off b = 0 \<and> rx_Endpoint b = e \<and> n \<le> BufferLength b \<and>
     length (rx_buf b) = BufferLength b"

text \<open>What the owner finds in a packet that was filled with the message \<open>m\<close>.\<close>

definition delivered :: "bytes \<Rightarrow> HTC_RX_PACKET \<Rightarrow> HTC_RX_PACKET \<Rightarrow> bool" where
  "delivered m b p \<longleftrightarrow> rx_id p = rx_id b \<and> rx_Status p = A_OK \<and> payload_of p = m"

lemma plain_padded:
  assumes "plain_endpoint e t" "n \<le> 4096"
  shows "n \<le> DEV_CALC_RECV_PADDED_LEN t n" "DEV_CALC_RECV_PADDED_LEN t n \<le> 8192"
proof -
  obtain k where k: "k \<le> 12" "BlockMask (tx t) = mask k" using assms(1) by (auto simp: plain_endpoint_def)
  let ?b = "(2::nat) ^ k"
  have b: "?b \<le> 4096" "0 < ?b" using k(1) power_increasing [of k 12 "2::nat"] by simp_all
  define q where "q = (n + (?b - 1)) div ?b * ?b"
  have "DEV_CALC_RECV_PADDED_LEN t n = q"
    unfolding DEV_CALC_RECV_PADDED_LEN_def q_def
    by (rule padded_length [OF k(2)]) (use assms(2) b in simp)
  moreover have "n + (?b - 1) = q + (n + (?b - 1)) mod ?b"
    unfolding q_def by (rule div_mult_mod_eq [symmetric])
  moreover have "(n + (?b - 1)) mod ?b < ?b" using b by simp
  ultimately show "n \<le> DEV_CALC_RECV_PADDED_LEN t n" "DEV_CALC_RECV_PADDED_LEN t n \<le> 8192"
    using b assms(2) by linarith+
qed

text \<open>The buffer of an announced message is taken and filled with what the device delivers.\<close>

definition filled :: "HTC_RX_PACKET \<Rightarrow> lookahead \<Rightarrow> nat \<Rightarrow> bytes \<Rightarrow> HTC_RX_PACKET" where
  "filled b la full d = (store_data full d
     (b\<lparr>IGNORE_LOOKAHEAD := False, REFRESH_HDR := False, PART_OF_BUNDLE := False, NO_RECYCLE := False,
        INDICATE_MORE_PKTS := False, rx_Status := A_OK, ExpectedHdr := la,
        rx_Length := la_length la + HTC_HDR_LENGTH\<rparr>))\<lparr>rx_Status := A_OK\<rparr>"

lemma filled_fields [simp]:
  "rx_id (filled b la full d) = rx_id b" "rx_off (filled b la full d) = rx_off b"
  "rx_Endpoint (filled b la full d) = rx_Endpoint b" "ExpectedHdr (filled b la full d) = la"
  "rx_Length (filled b la full d) = la_length la + HTC_HDR_LENGTH" "\<not> REFRESH_HDR (filled b la full d)"
  "\<not> IGNORE_LOOKAHEAD (filled b la full d)" "rx_Status (filled b la full d) = A_OK"
  by (simp_all add: filled_def store_data_def Let_def)

lemma fetch_one:
  assumes plain: "plain_endpoint e t" and bufs: "RxBuffers (RxEp t e) = b # bs" and "fresh_buffer e 8192 b"
    and la: "la_endpoint la = e" "num_messages la = 1" "la_length la \<le> HTC_MAX_PAYLOAD_LENGTH"
    and dev: "dev_in t = (A_OK, [d]) # ds"
    and full: "full = DEV_CALC_RECV_PADDED_LEN t (la_length la + HTC_HDR_LENGTH)"
    and t2: "t2 = t\<lparr>RxEp := (RxEp t)(e := (RxEp t e)\<lparr>RxBuffers := bs\<rparr>), dev_in := ds\<rparr>"
  shows "recv_loop D [la] got t = (case process_sync D [filled b la full d] A_OK [] t2 of None \<Rightarrow> None
     | Some (st, las1, rest, t5) \<Rightarrow>
         if A_FAILED st \<or> las1 = [] then Some (st, [], rest, got + 1, t5) else recv_loop D las1 (got + 1) t5)"
proof -
  have e: "e < ENDPOINT_MAX" using plain by (simp add: plain_endpoint_def)
  have n: "la_length la + HTC_HDR_LENGTH \<le> 4096" using la(3) by simp
  have fit: "full \<le> BufferLength b"
    using plain_padded [OF plain n] assms(3) by (simp add: full fresh_buffer_def)
  define t1 where "t1 = upd_rx e (\<lambda>x. x\<lparr>RxBuffers := bs\<rparr>) t"
  define p1 where "p1 = b\<lparr>IGNORE_LOOKAHEAD := False, REFRESH_HDR := False, PART_OF_BUNDLE := False,
      NO_RECYCLE := False, INDICATE_MORE_PKTS := False, rx_Status := A_OK, ExpectedHdr := la,
      rx_Length := la_length la + HTC_HDR_LENGTH\<rparr>"
  have "take_buffer e full t = Some (Some b, False, t1)"
    using plain bufs by (simp add: take_buffer_def plain_endpoint_def dequeue_rx_def t1_def Let_def)
  then have "alloc_messages 1 True la full e t = Some (A_OK, [p1], t1)"
    using plain fit by (simp add: alloc_messages.simps(2) plain_endpoint_def p1_def t1_def Let_def)
  then have alloc: "AllocAndPrepareRxPackets [la] e t = Some (A_OK, [p1], t1)"
    using plain la by (simp add: AllocAndPrepareRxPackets_def plain_endpoint_def full)
  have pad: "DEV_CALC_RECV_PADDED_LEN t1 (rx_Length p1) = full"
    by (simp add: full p1_def t1_def DEV_CALC_RECV_PADDED_LEN_def)
  have t2': "t2 = t1\<lparr>dev_in := ds\<rparr>" by (simp add: t2 t1_def upd_rx_def)
  have "HTCIssueRecv True p1 t1 = (A_OK, filled b la full d, t2)"
    using fit dev unfolding HTCIssueRecv_def pad
    by (simp add: device_read_def t1_def upd_rx_def p1_def filled_def t2)
  then have fetch: "fetch_packets True False [p1] t1 = (A_OK, [filled b la full d], [], t2)"
    by (simp add: fetch_packets.simps [of True False "[p1]"] fetch_packets.simps [of _ _ "[]"])
  have yield: "DSRCanYield t5 = False" if "process_sync D [filled b la full d] A_OK [] t2 = Some (st, las1, rest, t5)"
    for st las1 rest t5
    using that plain
    by (auto simp: Let_def bind_eq_Some_conv plain_endpoint_def t2 DoRecvCompletion_def split: if_splits)
  have fields: "ASYNC_ALLOWED t = False" "DSRCanYield t2 = False" "CheckRecvWaterMark e t2 = Some t2"
    using plain by (simp_all add: plain_endpoint_def t2 CheckRecvWaterMark_def Let_def)
  show ?thesis
    using e la(1) alloc fetch fields yield
    by (subst recv_loop.simps) (simp add: Let_def del: process_sync.simps split: option.splits)
qed

text \<open>One message: its buffer is taken, filled, checked and handed over.\<close>

lemma recv_one:
  assumes plain: "plain_endpoint e t" and bufs: "RxBuffers (RxEp t e) = b # bs" and "fresh_buffer e 8192 b"
    and m: "length m \<le> 4082" and dev: "dev_in t = (A_OK, [frame e m nxt]) # ds"
  obtains p t' where "delivered m b p" "RxEp t' = (RxEp t)(e := (RxEp t e)\<lparr>RxBuffers := bs\<rparr>)"
    "t' = t\<lparr>RxEp := RxEp t', dev_in := ds, rx_indicated := rx_indicated t @ [(e, [p])]\<rparr>"
    "recv_loop D [frame_la e m nxt] got t = (case nxt of
         None \<Rightarrow> Some (A_OK, [], [], got + 1, t')
       | Some la \<Rightarrow> recv_loop D [la] (got + 1) t')"
proof -
  let ?la = "frame_la e m nxt"
  let ?n = "length m + (if nxt = None then 0 else 8)"
  have e: "e < ENDPOINT_MAX" using plain by (simp add: plain_endpoint_def)
  note la = frame_la_fields [OF e m, of nxt]
  define full where "full = DEV_CALC_RECV_PADDED_LEN t (la_length ?la + HTC_HDR_LENGTH)"
  define t2 where "t2 = t\<lparr>RxEp := (RxEp t)(e := (RxEp t e)\<lparr>RxBuffers := bs\<rparr>), dev_in := ds\<rparr>"
  have "la_length ?la \<le> HTC_MAX_PAYLOAD_LENGTH" "la_length ?la + HTC_HDR_LENGTH \<le> 4096"
    using la(3) m by simp_all
  note loop = fetch_one [OF plain bufs assms(3) la(1,2) this(1) dev full_def t2_def, of D got]
    and full = plain_padded [OF plain this(2), folded full_def]
  define p2 where "p2 = filled b ?la full (frame e m nxt)"
  have buf: "rx_buf p2 = frame e m nxt @ drop (length (frame e m nxt)) (rx_buf b)"
    using full assms(3) la(3)
    by (simp add: p2_def filled_def store_data_def fresh_buffer_def length_frame Let_def)
  define p3 where "p3 = p2\<lparr>rx_off := 6, rx_Length := length m\<rparr>"
  define las where "las = (case nxt of None \<Rightarrow> [] | Some l \<Rightarrow> [l])"
  have head: "HTCProcessRecvHeader D True p2 x = Some (A_OK, p3, las, x)" for x
    unfolding p3_def las_def
    by (rule process_frame [OF e m _ buf]) (use assms(3) la in \<open>simp_all add: p2_def fresh_buffer_def\<close>)
  define p4 where "p4 = SetRxPacketIndicationFlags las e t2 p3"
  define t3 where "t3 = DoRecvCompletion e [p4] t2"
  have sync: "process_sync D [p2] A_OK [] t2 = Some (A_OK, las, [], t3)"
    using head [of "tx t2"] assms(3) by (simp add: p4_def t3_def p2_def fresh_buffer_def Let_def)
  have eq: "recv_loop D [?la] got t = (case nxt of
         None \<Rightarrow> Some (A_OK, [], [], got + 1, t3) | Some la \<Rightarrow> recv_loop D [la] (got + 1) t3)"
    using loop sync by (cases nxt) (simp_all add: las_def p2_def del: process_sync.simps)
  have "payload_of p4 = m"
    using buf by (simp add: payload_of_def p4_def p3_def SetRxPacketIndicationFlags_def frame_def
        split: list.splits)
  then have "delivered m b p4"
    by (simp add: delivered_def p4_def p3_def p2_def SetRxPacketIndicationFlags_def split: list.splits)
  moreover have "RxEp t3 = (RxEp t)(e := (RxEp t e)\<lparr>RxBuffers := bs\<rparr>)"
    "t3 = t\<lparr>RxEp := RxEp t3, dev_in := ds, rx_indicated := rx_indicated t @ [(e, [p4])]\<rparr>"
    using plain by (simp_all add: t3_def t2_def DoRecvCompletion_def plain_endpoint_def)
  ultimately show thesis using eq that by blast
qed

lemma deliver_chain:
  assumes "plain_endpoint e t" "RxBuffers (RxEp t e) = bufs @ bs" "length bufs = length ms" "ms \<noteq> []"
    and "\<forall>b \<in> set bufs. fresh_buffer e 8192 b" "\<forall>m \<in> set ms. length m \<le> 4082"
    and "dev_in t = map (\<lambda>f. (A_OK, [f])) (frames e ms) @ ds"
  shows "\<exists>ps t'. recv_loop D [frame_la e (hd ms) (next_la e (tl ms))] got t =
      Some (A_OK, [], [], got + length ms, t') \<and>
    length ps = length ms \<and> (\<forall>i < length ms. delivered (ms ! i) (bufs ! i) (ps ! i)) \<and>
    RxBuffers (RxEp t' e) = bs \<and>
    t' = t\<lparr>RxEp := RxEp t', dev_in := ds, rx_indicated := rx_indicated t @ map (\<lambda>p. (e, [p])) ps\<rparr>"
  using assms
proof (induction ms arbitrary: bufs t got)
  case (Cons m ms)
  obtain b bufs' where b: "bufs = b # bufs'" using Cons.prems(3) by (cases bufs) auto
  have prem: "RxBuffers (RxEp t e) = b # (bufs' @ bs)" "fresh_buffer e 8192 b" "length m \<le> 4082"
    "dev_in t = (A_OK, [frame e m (next_la e ms)]) # map (\<lambda>f. (A_OK, [f])) (frames e ms) @ ds"
    using Cons.prems b by simp_all
  obtain p t1 where p: "delivered m b p" "RxEp t1 = (RxEp t)(e := (RxEp t e)\<lparr>RxBuffers := bufs' @ bs\<rparr>)"
    "t1 = t\<lparr>RxEp := RxEp t1, dev_in := map (\<lambda>f. (A_OK, [f])) (frames e ms) @ ds,
            rx_indicated := rx_indicated t @ [(e, [p])]\<rparr>"
    "recv_loop D [frame_la e m (next_la e ms)] got t = (case next_la e ms of
         None \<Rightarrow> Some (A_OK, [], [], got + 1, t1) | Some la \<Rightarrow> recv_loop D [la] (got + 1) t1)"
    using recv_one [OF Cons.prems(1) prem, of D got] by metis
  show ?case
  proof (cases "ms = []")
    case True
    with p Cons.prems b show ?thesis by (intro exI [of _ "[p]"] exI [of _ t1]) (simp add: fun_upd_def)
  next
    case False
    obtain m' ms' where ms: "ms = m' # ms'" using False by (cases ms) auto
    have dev1: "dev_in t1 = map (\<lambda>f. (A_OK, [f])) (frames e ms) @ ds"
      by (subst p(3)) simp
    have plain: "plain_endpoint e t1"
      using Cons.prems(1) p(2) by (subst p(3)) (simp add: plain_endpoint_def)
    from Cons.IH [OF plain _ _ False _ _ dev1, of bufs' "got + 1"] obtain ps t' where
      t': "recv_loop D [frame_la e (hd ms) (next_la e (tl ms))] (got + 1) t1 =
        Some (A_OK, [], [], got + 1 + length ms, t')" "length ps = length ms"
        "\<forall>i < length ms. delivered (ms ! i) (bufs' ! i) (ps ! i)" "RxBuffers (RxEp t' e) = bs"
        "t' = t1\<lparr>RxEp := RxEp t', dev_in := ds, rx_indicated := rx_indicated t1 @ map (\<lambda>p. (e, [p])) ps\<rparr>"
      using Cons.prems b p(2) by auto
    have "rx_indicated t1 = rx_indicated t @ [(e, [p])]" by (subst p(3)) simp
    then have "t' = t\<lparr>RxEp := RxEp t', dev_in := ds, rx_indicated := rx_indicated t @ map (\<lambda>p. (e, [p])) (p # ps)\<rparr>"
      using t'(5) by (subst (asm) p(3)) simp
    moreover have "\<forall>i < length (m # ms). delivered ((m # ms) ! i) (bufs ! i) ((p # ps) ! i)"
      using p(1) t'(3) b by (auto simp: nth_Cons split: nat.splits)
    ultimately show ?thesis
      using t' p(4) ms by (intro exI [of _ "p # ps"] exI [of _ t']) simp
  qed
qed simp

text \<open>C15: Messages arrive whole and in order.  A chain of messages of any length, each announcing the
  next one in its trailer, is fetched by one call of the handler into as many buffers of the
  endpoint, in the order of the queue; every message is handed to the owner exactly once, in the order
  sent, with exactly its payload, and nothing else of HTC changes.\<close>

theorem htc_recv_delivers_in_order:
  assumes "plain_endpoint e t" and "RxBuffers (RxEp t e) = bufs @ bs" and "length bufs = length ms"
    and "ms \<noteq> []" and "\<forall>b \<in> set bufs. fresh_buffer e 8192 b" and "\<forall>m \<in> set ms. length m \<le> 4082"
    and "dev_in t = map (\<lambda>f. (A_OK, [f])) (frames e ms) @ ds" and "\<not> WAIT_BUFFERS t"
  shows "\<exists>ps t'. HTCRecvMessagePendingHandler D [frame_la e (hd ms) (next_la e (tl ms))] t =
      Some (A_OK, length ms, t') \<and>
    map payload_of ps = ms \<and> map rx_id ps = map rx_id bufs \<and>
    rx_indicated t' = rx_indicated t @ map (\<lambda>p. (e, [p])) ps \<and>
    RxBuffers (RxEp t' e) = bs \<and> tx t' = tx t \<and> dev_in t' = ds \<and> recv_on t' = recv_on t"
proof -
  obtain ps t' where r: "recv_loop D [frame_la e (hd ms) (next_la e (tl ms))] 0 t =
      Some (A_OK, [], [], length ms, t')" "length ps = length ms"
    "\<forall>i < length ms. delivered (ms ! i) (bufs ! i) (ps ! i)" "RxBuffers (RxEp t' e) = bs"
    "t' = t\<lparr>RxEp := RxEp t', dev_in := ds, rx_indicated := rx_indicated t @ map (\<lambda>p. (e, [p])) ps\<rparr>"
    using deliver_chain [OF assms(1-7), of D 0] by auto
  have "WAIT_BUFFERS t' = WAIT_BUFFERS t" by (subst r(5)) simp
  then have "HTCRecvMessagePendingHandler D [frame_la e (hd ms) (next_la e (tl ms))] t = Some (A_OK, length ms, t')"
    using r(1) assms(8) by (simp add: HTCRecvMessagePendingHandler_def)
  moreover have "map payload_of ps = ms" "map rx_id ps = map rx_id bufs"
    using r(2,3) assms(3) by (auto simp: delivered_def intro!: nth_equalityI)
  moreover have "rx_indicated t' = rx_indicated t @ map (\<lambda>p. (e, [p])) ps" "tx t' = tx t" "dev_in t' = ds"
    "recv_on t' = recv_on t"
    by (subst r(5), simp)+
  ultimately show ?thesis using r(4) by blast
qed

subsection \<open>Running out of buffers\<close>

lemma no_buffer:
  assumes plain: "plain_endpoint e t" and "RxBuffers (RxEp t e) = []" "EpRecvRefill (RxEp t e) = None"
    and la: "la_endpoint la = e" "la_length la \<le> HTC_MAX_PAYLOAD_LENGTH"
  shows "HTCRecvMessagePendingHandler D [la] t =
    Some (A_OK, 0, t\<lparr>WAIT_BUFFERS := True, EpWaitingForBuffers := e, recv_on := False\<rparr>)"
proof -
  let ?t1 = "t\<lparr>WAIT_BUFFERS := True, EpWaitingForBuffers := e\<rparr>"
  have "0 < num_messages la" by (simp add: num_messages_def)
  then obtain n where n: "num_messages la = Suc n" by (cases "num_messages la") auto
  have "take_buffer e full t = Some (None, False, t)" for full
    using assms(1-3) by (simp add: take_buffer_def plain_endpoint_def dequeue_rx_def Let_def)
  then have alloc: "AllocAndPrepareRxPackets [la] e t = Some (A_OK, [], ?t1)"
    using plain la n by (simp add: AllocAndPrepareRxPackets_def plain_endpoint_def alloc_messages.simps(2))
  have e: "e < ENDPOINT_MAX" "ASYNC_ALLOWED t = False" "CheckRecvWaterMark e ?t1 = Some ?t1"
    using plain by (simp_all add: plain_endpoint_def CheckRecvWaterMark_def Let_def)
  have "recv_loop D [la] 0 t = Some (A_OK, [], [], 0, ?t1)"
    using plain e la(1) alloc
    by (subst recv_loop.simps) (simp add: fetch_packets.simps Let_def plain_endpoint_def)
  then show ?thesis by (simp add: HTCRecvMessagePendingHandler_def)
qed

text \<open>C29: When a message arrives for an endpoint that has no buffer, the message is left with the device,
  the receiver is stopped and HTC remembers the endpoint; buffers for other endpoints leave it
  stopped, and the first buffer for this endpoint starts it again.\<close>

theorem htc_recv_blocks_and_resumes:
  assumes "plain_endpoint e t" and "RxBuffers (RxEp t e) = []" and "EpRecvRefill (RxEp t e) = None"
    and "la_endpoint la = e" and "la_length la \<le> HTC_MAX_PAYLOAD_LENGTH"
    and "rx_Endpoint b1 < ENDPOINT_MAX" and "rx_Endpoint b1 \<noteq> e" and "rx_Endpoint b2 = e"
  shows "\<exists>t1 t2 t3. HTCRecvMessagePendingHandler D [la] t = Some (A_OK, 0, t1) \<and>
    dev_in t1 = dev_in t \<and> \<not> recv_on t1 \<and> WAIT_BUFFERS t1 \<and>
    HTCAddReceivePkt b1 t1 = Some (A_OK, t2) \<and> \<not> recv_on t2 \<and> WAIT_BUFFERS t2 \<and>
    HTCAddReceivePkt b2 t2 = Some (A_OK, t3) \<and> recv_on t3 \<and> \<not> WAIT_BUFFERS t3 \<and>
    RxBuffers (RxEp t3 e) = [b2]"
proof -
  let ?t1 = "t\<lparr>WAIT_BUFFERS := True, EpWaitingForBuffers := e, recv_on := False\<rparr>"
  let ?t2 = "upd_rx (rx_Endpoint b1) (\<lambda>x. x\<lparr>RxBuffers := RxBuffers x @ [b1]\<rparr>) ?t1"
  have e: "e < ENDPOINT_MAX" "\<not> Stopping (tx t)" using assms(1) by (simp_all add: plain_endpoint_def)
  have 1: "HTCRecvMessagePendingHandler D [la] t = Some (A_OK, 0, ?t1)"
    by (rule no_buffer [OF assms(1-5)])
  have 2: "HTCAddReceivePkt b1 ?t1 = Some (A_OK, ?t2)"
    using assms(6,7) e by (simp add: HTCAddReceivePkt_def HTCAddReceivePktMultiple_def Let_def upd_rx_def)
  obtain t3 where "HTCAddReceivePkt b2 ?t2 = Some (A_OK, t3)" "recv_on t3" "\<not> WAIT_BUFFERS t3"
    "RxBuffers (RxEp t3 e) = [b2]"
    using assms(2,7,8) e by (simp add: HTCAddReceivePkt_def HTCAddReceivePktMultiple_def Let_def upd_rx_def)
  with 1 2 show ?thesis by (intro exI [of _ ?t1] exI [of _ ?t2] exI [of _ t3]) (simp add: upd_rx_def)
qed

subsection \<open>Losing a buffer\<close>

text \<open>A message whose header does not match its announcement costs a buffer: the handler reports a
  protocol error, and the packet that was fetched is neither recycled nor handed back, since it
  has already left the queue that the error path cleans up.\<close>

theorem htc_recv_bad_header_loses_buffer:
  assumes "plain_endpoint e t" and "RxBuffers (RxEp t e) = b # bs" and "fresh_buffer e 8192 b"
    and "la_endpoint la = e" and "num_messages la = 1" and "la_length la \<le> HTC_MAX_PAYLOAD_LENGTH"
    and "dev_in t = (A_OK, [w # x # y # z # d]) # ds" and "(w, x, y, z) \<noteq> la" and "2 \<le> length d"
  shows "\<exists>t'. HTCRecvMessagePendingHandler D [la] t = Some (A_EPROTO, 1, t') \<and>
    custody t' + {#rx_id b#} = custody t \<and> RxBuffers (RxEp t' e) = bs \<and>
    rx_indicated t' = rx_indicated t"
proof -
  define full where "full = DEV_CALC_RECV_PADDED_LEN t (la_length la + HTC_HDR_LENGTH)"
  define t2 where "t2 = t\<lparr>RxEp := (RxEp t)(e := (RxEp t e)\<lparr>RxBuffers := bs\<rparr>), dev_in := ds\<rparr>"
  let ?p = "filled b la full (w # x # y # z # d)"
  have e: "e < ENDPOINT_MAX" "\<not> Stopping (tx t)" using assms(1) by (simp_all add: plain_endpoint_def)
  have six: "6 \<le> full"
    using plain_padded(1) [OF assms(1), of "la_length la + HTC_HDR_LENGTH"] assms(6) by (simp add: full_def)
  have hdr: "\<exists>hdr. blk (rx_off ?p) HTC_HDR_LENGTH (rx_buf ?p) = Some hdr \<and> hdr ! 0 = w \<and> hdr ! 1 = x \<and>
      hdr ! 2 = y \<and> hdr ! 3 = z"
  proof -
    let ?d = "w # x # y # z # d"
    let ?k = "min full (length ?d)"
    have k: "6 \<le> ?k" using six assms(9) by simp
    have "rx_buf ?p = take ?k ?d @ drop ?k (rx_buf b)"
      using assms(3) by (simp add: filled_def store_data_def fresh_buffer_def Let_def)
    moreover define front where "front = take ?k ?d"
    ultimately have "rx_buf ?p = front @ drop ?k (rx_buf b)" by simp
    moreover have "6 \<le> length front" using k by (simp add: front_def)
    moreover have "take 6 front = take 6 ?d" using k unfolding front_def by (simp only: take_take min_absorb1)
    ultimately have "blk (rx_off ?p) 6 (rx_buf ?p) = Some (take 6 ?d)"
      using assms(3) by (simp add: blk_def fresh_buffer_def)
    then show ?thesis by (intro exI [of _ "take 6 ?d"]) simp
  qed
  then have "HTCProcessRecvHeader D True ?p x' = Some (A_EPROTO, ?p, [], x')" for x'
    using assms(8) by (auto simp: HTCProcessRecvHeader_def Let_def)
  then have "process_sync D [?p] A_OK [] t2 = Some (A_EPROTO, [], [], t2\<lparr>tx := tx t2\<rparr>)"
    by (simp add: Let_def)
  then have loop: "recv_loop D [la] 0 t = Some (A_EPROTO, [], [], 1, t2\<lparr>tx := tx t2\<rparr>)"
    using fetch_one [OF assms(1-7) full_def t2_def, of D 0] by (simp del: process_sync.simps)
  define t' where "t' = (if WAIT_BUFFERS t2 then t2\<lparr>tx := tx t2, recv_on := False\<rparr> else t2\<lparr>tx := tx t2\<rparr>)"
  have "HTCRecvMessagePendingHandler D [la] t = Some (A_EPROTO, 1, t')"
    using loop e by (simp add: HTCRecvMessagePendingHandler_def t'_def t2_def)
  moreover have "custody t' + {#rx_id b#} = custody t"
  proof -
    have "custody t' = custody (upd_rx e (\<lambda>x. x\<lparr>RxBuffers := bs\<rparr>) t)"
      by (simp add: t'_def t2_def upd_rx_def custody_def flight_ids_def given_ids_def)
    then show ?thesis
      using custody_upd_rx [OF e(1), of "\<lambda>x. x\<lparr>RxBuffers := bs\<rparr>" t] assms(2) by (simp add: ep_ids_def)
  qed
  moreover have "RxBuffers (RxEp t' e) = bs" "rx_indicated t' = rx_indicated t"
    by (simp_all add: t'_def t2_def)
  ultimately show ?thesis by blast
qed

end
