(* ===== verification/HtcWitness.thy ===== *)
theory HtcWitness
  imports HtcSystem
begin

text \<open>
  A small target at which the hypotheses of the credit and transmit properties hold: endpoint 0,
  a best-effort and a background endpoint, ten free credits of 512 bytes.
\<close>

definition demo_dist :: "nat \<Rightarrow> int \<Rightarrow> HTC_ENDPOINT_CREDIT_DIST" where
  "demo_dist svc c = \<lparr>cd_ServiceID = svc, DistFlags = 0, TxCreditsNorm = 4, TxCreditsMin = 1,
     TxCreditsAssigned = c, TxCredits = c, TxCreditsToDist = 0, TxCreditsSeek = 0, TxCreditSize = 512,
     TxCreditsPerMaxMsg = 1, cd_TxQueueDepth = 0\<rparr>"

definition demo_dists :: dists where
  "demo_dists e = (if e = 0 then demo_dist HTC_CTRL_RSVD_SVC 2
     else if e = 1 then demo_dist WMI_DATA_BE_SVC 1 else demo_dist WMI_DATA_BK_SVC 3)"

definition demo_pool :: "int \<Rightarrow> COMMON_CREDIT_STATE_INFO" where
  "demo_pool n = \<lparr>TotalAvailableCredits = 20, CurrentFreeCredits = n, pLowestPriEpDist = Some 2\<rparr>"

lemma demo_credits: "0 \<le> n \<Longrightarrow> credits_ok A (demo_pool n, demo_dists)"
  by (simp add: credits_ok_def demo_pool_def demo_dists_def demo_dist_def)

lemma demo_ready: "ar6000_ready [0, Suc 0, 2] (demo_pool n)"
  by (simp add: ar6000_ready_def demo_pool_def)

theorem credit_distribute_conserves_witness:
  "\<exists>s'. ar6000_credit_distribute [0, 1, 2] (Some 1) HTC_CREDIT_DIST_ACTIVITY_CHANGE (demo_pool 10, demo_dists) = Some s' \<and>
    pool (set [0, 1, 2]) s' = pool (set [0, 1, 2]) (demo_pool 10, demo_dists) \<and> snd s' 0 = demo_dists 0"
proof -
  have r: "ar6000_ready [0, 1, 2] (fst (demo_pool 10, demo_dists))" by (simp add: demo_ready)
  have ok: "credits_ok (set [0, 1, 2]) (demo_pool 10, demo_dists)" by (rule demo_credits) simp
  have c: "call_ok [0, 1, 2] (Some 1) HTC_CREDIT_DIST_ACTIVITY_CHANGE (demo_pool 10, demo_dists)"
    by (simp add: call_ok_def)
  from credit_distribute_conserves [OF r ok c] show ?thesis by (auto simp: from_ep_def)
qed

theorem credit_seek_rules_witness:
  "\<exists>s'. SeekCredits [0, 1, 2] 1 (demo_pool 0, demo_dists(1 := (demo_dists 1)\<lparr>TxCreditsSeek := 2\<rparr>)) = Some s' \<and>
    snd s' 0 = demo_dists 0 \<and> 1 \<le> TxCredits (snd s' 1) \<and> took_from (demo_dists 2) (snd s' 2)"
proof -
  let ?s = "(demo_pool 0, demo_dists(1 := (demo_dists 1)\<lparr>TxCreditsSeek := 2\<rparr>))"
  have low: "pLowestPriEpDist (fst ?s) = Some (last [0, 1, 2])" by (simp add: demo_pool_def)
  have ok: "credits_ok (set [0, 1, 2]) ?s"
    by (simp add: credits_ok_def demo_pool_def demo_dists_def demo_dist_def)
  from credit_seek_rules [of "[0, 1, 2]" 1 ?s, OF _ _ low ok] show ?thesis
    by (auto simp: demo_dists_def demo_dist_def)
qed

theorem credit_send_complete_recovers_witness:
  "\<exists>s'. ar6000_credit_distribute [0, 1, 2] (Some 1) HTC_CREDIT_DIST_SEND_COMPLETE
      (demo_pool 10, demo_dists(2 := (demo_dists 2)\<lparr>TxCreditsToDist := 5\<rparr>)) = Some s' \<and>
    TxCreditsToDist (snd s' 2) = 0 \<and> TxCredits (snd s' 2) = 0"
proof -
  let ?s = "(demo_pool 10, demo_dists(2 := (demo_dists 2)\<lparr>TxCreditsToDist := 5\<rparr>))"
  have ok: "credits_ok (set [0, 1, 2]) ?s"
    by (simp add: credits_ok_def demo_pool_def demo_dists_def demo_dist_def)
  have e: "2 \<in> set (from_ep [0, 1, 2] (Some 1))" by (simp add: from_ep_def)
  have d: "0 < TxCreditsToDist (snd ?s 2)" by simp
  have "idle (snd ?s 2)" by (simp add: idle_def IS_EP_ACTIVE_def demo_dists_def demo_dist_def)
  with credit_send_complete_recovers [of "[0, 1, 2]" ?s 2 "Some 1", OF _ ok e d] show ?thesis by auto
qed

theorem credit_init_distributes_witness:
  "\<exists>ci' cd'. ar6000_credit_init [0, 1, 2] (Some 1) 20
      (demo_pool 0, \<lambda>e. demo_dist (if e = 1 then WMI_CONTROL_SVC else WMI_DATA_BK_SVC) 0) = Some (ci', cd') \<and>
    CurrentFreeCredits ci' + (\<Sum>e \<in> set (from_ep [0, 1, 2] (Some 1)). TxCredits (cd' e)) = 20"
proof -
  let ?cd = "\<lambda>e::nat. demo_dist (if e = 1 then WMI_CONTROL_SVC else WMI_DATA_BK_SVC) 0"
  have "\<forall>e \<in> set (from_ep [0, 1, 2] (Some 1)). TxCredits (?cd e) = 0 \<and> TxCreditsToDist (?cd e) = 0 \<and>
      0 < TxCreditsPerMaxMsg (?cd e)"
    by (simp add: demo_dist_def)
  from credit_init_distributes [of "[0, 1, 2]" _ "Some 1", OF _ refl this, of 20 "demo_pool 0"]
  show ?thesis by auto
qed

theorem credit_seek_needs_background_witness:
  "SeekCredits [0, 1] 1 ((demo_pool 0)\<lparr>pLowestPriEpDist := None\<rparr>,
     demo_dists(1 := (demo_dists 1)\<lparr>TxCreditsSeek := 2\<rparr>)) = None"
  by (rule credit_seek_needs_background)
    (simp_all add: seek_refused_def demo_dists_def demo_dist_def demo_pool_def)

subsection \<open>A target\<close>

definition demo_packet :: "nat \<Rightarrow> nat \<Rightarrow> HTC_PACKET" where
  "demo_packet i e = \<lparr>pk_id = i, pBuffer = 0, pHdr = \<lparr>EndpointID = 0, Flags = 0, PayloadLen = 0,
     ControlBytes0 = 0, ControlBytes1 = 0\<rparr>, ActualLength = 100, pk_Endpoint = e, pk_Status = A_OK,
     Tag = 10, CreditsUsed = 0, SendFlags = 0, pk_SeqNo = 0, Completion = False\<rparr>"

definition demo_endpoint :: "nat \<Rightarrow> HTC_ENDPOINT" where
  "demo_endpoint e = \<lparr>ep_ServiceID = cd_ServiceID (demo_dists e), TxQueue = [], EpSendFull = Some (\<lambda>_. True),
     EpTxCompleteMultiple = False, MaxTxQueueDepth = 4, MaxMsgLength = 1500, TxProcessCount = 0,
     ep_SeqNo = 0, SendBundlePadding = False\<rparr>"

definition demo_target :: HTC_TARGET where
  "demo_target = \<lparr>EndPoint = demo_endpoint, CreditDist = demo_dists, DistList = [0, 1, 2],
     CredInfo = demo_pool 10, TargetCredits = 20, TargetCreditSize = 512, BlockMask = 127,
     MaxMsgPerBundle = 8, SendBundlingEnabled = True, MaxSendBundleSize = 4096, scatter_free = 2,
     Stopping = False, sent = [], indicated = []\<rparr>"

lemma demo_target_fields [simp]:
  "DistList demo_target = [0, 1, 2]" "EndPoint demo_target = demo_endpoint" "TargetCreditSize demo_target = 512"
  "CreditDist demo_target = demo_dists" "CredInfo demo_target = demo_pool 10" "sent demo_target = []"
  "TxQueue (demo_endpoint e) = []" "TxProcessCount (demo_endpoint e) = 0" "BlockMask demo_target = 127"
  "indicated demo_target = []"
  by (simp_all add: demo_target_def demo_endpoint_def)

lemma demo_ok: "target_ok ar6000_ready demo_target"
  by (simp add: target_ok_def demo_ready credit_view_def demo_credits)

lemma demo_inv: "htc_inv ar6000_ready demo_target"
  using demo_ok by (simp add: htc_inv_def idle_process_def)

theorem htc_credits_accounted_witness:
  "\<exists>t. htc_run ar6000_credit_distribute demo_target 7 t \<and>
     ledger t + spent t = ledger demo_target + spent demo_target + 7 \<and>
     credits_ok (set (DistList t)) (credit_view t)"
proof -
  obtain t where t: "HTCProcessCreditRpt ar6000_credit_distribute [(1, 7)] demo_target = Some t"
    using ar6000.credit_report_accounts [OF demo_inv, of "[(1, 7)]" 7] by auto
  have "htc_step ar6000_credit_distribute demo_target (int (sum_list (map snd [(1::nat, 7::nat)]))) t"
    by (rule htc_step.report [OF _ t]) simp
  from htc_run.step [OF htc_run.start this] have "htc_run ar6000_credit_distribute demo_target 7 t" by simp
  with htc_credits_accounted [OF demo_inv this] show ?thesis by blast
qed

theorem htc_send_never_faults_witness:
  "HTCProcessCreditRpt ar6000_credit_distribute [(1, 5), (2, 1)] demo_target \<noteq> None \<and>
   HTCIndicateActivityChange ar6000_credit_distribute 1 True demo_target \<noteq> None \<and>
   HTCFlushEndpoint 2 0 demo_target \<noteq> None"
  using htc_send_never_faults [OF demo_inv htc_run.start] by simp

theorem htc_send_fifo_witness:
  "\<exists>r t' left new. HTCTrySend ar6000_credit_distribute 1 (Some [demo_packet 1 1, demo_packet 2 1]) demo_target =
      Some (r, t', left) \<and> sent_keys t' = sent_keys demo_target @ new \<and>
    map fst new @ queue_ids 1 t' = [1, 2]"
proof -
  let ?q = "[demo_packet 1 1, demo_packet 2 1]"
  have acc: "accepted 1 (Some ?q) demo_target = ?q"
    by (simp add: accepted_def accept_packets_def demo_endpoint_def)
  have e: "1 \<in> set (DistList demo_target)" "TxProcessCount (EndPoint demo_target 1) = 0" by simp_all
  from htc_send_fifo [OF demo_ok e, of ?q] acc show ?thesis
    by (auto simp: queue_ids_def demo_packet_def)
qed

theorem htc_credits_cover_packets_witness:
  "\<exists>t' out. GetHTCSendPackets ar6000_credit_distribute 1 demo_target = Some (t', out) \<and>
    ledger t' + sum_list (map CreditsUsed out) = ledger demo_target"
  using htc_credits_cover_packets [OF demo_ok, of 1] by auto

theorem htc_report_restarts_queues_witness:
  "\<exists>t'. HTCProcessCreditRpt ar6000_credit_distribute [(1, 2), (2, 3)] demo_target = Some t' \<and>
    (\<forall>e \<in> {0, 1, 2}. exhausted e t') \<and> ledger t' + spent t' = ledger demo_target + spent demo_target + 5"
proof -
  have r: "\<forall>(e, c) \<in> set [(1, 2), (2, 3)]. e \<in> set (DistList demo_target)" by simp
  from htc_report_restarts_queues [OF demo_inv r] show ?thesis by auto
qed

theorem htc_queue_bounded_witness:
  "\<exists>r t' left. HTCTrySend ar6000_credit_distribute 1 (Some (map (\<lambda>i. demo_packet i 1) [0..<9])) demo_target =
      Some (r, t', left) \<and> int (tx_depth 1 t') \<le> 4"
proof -
  have e: "1 \<in> set (DistList demo_target)" "TxProcessCount (EndPoint demo_target 1) = 0"
    "EpSendFull (EndPoint demo_target 1) = Some (\<lambda>_. True)"
    "int (tx_depth 1 demo_target) \<le> MaxTxQueueDepth (EndPoint demo_target 1)"
    by (simp_all add: tx_depth_def demo_endpoint_def)
  from htc_queue_bounded [OF demo_ok e, of "map (\<lambda>i. demo_packet i 1) [0..<9]"] show ?thesis
    by (simp add: demo_endpoint_def)
qed

theorem htc_flush_completes_all_witness:
  "\<exists>t'. HTCFlushEndpoint 1 HTC_TX_PACKET_TAG_ALL
      (upd_ep 1 (\<lambda>x. x\<lparr>TxQueue := [demo_packet 1 1]\<rparr>) demo_target) = Some t' \<and>
    TxQueue (EndPoint t' 1) = [] \<and>
    indicated t' = [(1, [(demo_packet 1 1)\<lparr>pk_Status := A_ECANCELED\<rparr>])]"
proof -
  let ?t = "upd_ep 1 (\<lambda>x. x\<lparr>TxQueue := [demo_packet 1 1]\<rparr>) demo_target"
  have e: "(1::nat) < ENDPOINT_MAX" "ep_ServiceID (EndPoint ?t 1) \<noteq> 0"
    by (simp_all add: htc_view demo_endpoint_def demo_dists_def demo_dist_def)
  from htc_flush_completes_all [OF e] show ?thesis by (auto simp: htc_view)
qed

theorem htc_ep0_failure_loses_credits_witness:
  "\<exists>t' p'. CompleteSentPacket ar6000_credit_distribute 0
      ((demo_packet 1 0)\<lparr>pk_Status := A_ERROR, CreditsUsed := 1\<rparr>) demo_target = Some (t', p') \<and>
    TxCredits (CreditDist t' 0) = 2 \<and> TxCreditsToDist (CreditDist t' 0) = 1"
proof -
  let ?p = "(demo_packet 1 0)\<lparr>pk_Status := A_ERROR, CreditsUsed := 1\<rparr>"
  have l: "DistList demo_target = 0 # [1, 2]" by simp
  from htc_ep0_failure_loses_credits [OF demo_inv l, of ?p] show ?thesis
    by (simp add: demo_dists_def demo_dist_def)
qed

theorem htc_bundle_padding_off_boundary_witness:
  "bundle_padding demo_target True ((demo_packet 1 1)\<lparr>ActualLength := 600\<rparr>) = Some (Some (128, 768)) \<and>
   (768::nat) mod 512 \<noteq> 0"
proof -
  have len: "(640::nat) = DEV_CALC_SEND_PADDED_LEN demo_target
      (ActualLength ((demo_packet 1 1)\<lparr>ActualLength := 600\<rparr>) + HTC_HDR_LENGTH)"
    by (simp add: DEV_CALC_SEND_PADDED_LEN_def)
  from htc_bundle_padding_off_boundary [OF len, of 128] show ?thesis by simp
qed

end
