(* ===== verification/RecvWitness.thy ===== *)
theory RecvWitness
  imports HtcDeliver HtcWitness
begin

text \<open>A small receive side at which the hypotheses of its properties hold.\<close>

definition demo_buffer :: "nat \<Rightarrow> nat \<Rightarrow> HTC_RX_PACKET" where
  "demo_buffer i e = \<lparr>rx_id = i, rx_buf = replicate 8192 0, rx_off = 0, BufferLength = 8192, rx_Length = 0,
     rx_Endpoint = e, rx_Status = A_OK, ExpectedHdr = (0, 0, 0, 0), IGNORE_LOOKAHEAD = False,
     REFRESH_HDR = False, PART_OF_BUNDLE = False, NO_RECYCLE = False, INDICATE_MORE_PKTS = False\<rparr>"

definition demo_rx_endpoint :: "HTC_RX_PACKET list \<Rightarrow> HTC_RX_ENDPOINT" where
  "demo_rx_endpoint bs = \<lparr>RxBuffers = bs, RecvIndicationQueue = [], RxProcessCount = 0,
     EpRecvPktMultiple = False, EpRecvAlloc = None, EpRecvAllocThresh = None, RecvAllocThreshold = 0,
     EpRecvRefill = None, RecvRefillWaterMark = 0\<rparr>"

definition demo_rx :: "HTC_RX_PACKET list \<Rightarrow> (A_STATUS \<times> bytes list) list \<Rightarrow> HTC_RX_TARGET" where
  "demo_rx bs ds = \<lparr>RxEp = \<lambda>e. demo_rx_endpoint (if e = 1 then bs else []), tx = demo_target,
     WAIT_BUFFERS = False, EpWaitingForBuffers = 9, RecvBundlingEnabled = True, MaxRecvBundleSize = 16384,
     DSRCanYield = False, CurrentDSRRecvCount = 0, RecvPacketYieldCount = 0, ASYNC_ALLOWED = False,
     ControlBufferRXFreeList = [], dev_in = ds, recv_on = True, in_flight = [], rx_indicated = []\<rparr>"

lemma demo_rx_fields [simp]:
  "tx (demo_rx bs ds) = demo_target" "dev_in (demo_rx bs ds) = ds" "WAIT_BUFFERS (demo_rx bs ds) = False"
  "RxEp (demo_rx bs ds) e = demo_rx_endpoint (if e = 1 then bs else [])" "rx_indicated (demo_rx bs ds) = []"
  by (simp_all add: demo_rx_def)

lemma demo_rx_endpoint_fields [simp]:
  "RxBuffers (demo_rx_endpoint bs) = bs" "EpRecvRefill (demo_rx_endpoint bs) = None"
  "RecvIndicationQueue (demo_rx_endpoint bs) = []" "EpRecvPktMultiple (demo_rx_endpoint bs) = False"
  by (simp_all add: demo_rx_endpoint_def)

lemma demo_buffer_fields [simp]:
  "rx_id (demo_buffer i e) = i" "rx_Endpoint (demo_buffer i e) = e"
  by (simp_all add: demo_buffer_def)

lemma demo_plain: "plain_endpoint 1 (demo_rx bs ds)"
proof -
  have "(127 :: 32 word) = mask 7" by (simp add: mask_eq_exp_minus_1)
  then have "\<exists>k \<le> 12. BlockMask demo_target = mask k" by (intro exI [of _ 7]) simp
  then show ?thesis
    by (simp add: plain_endpoint_def demo_rx_def demo_rx_endpoint_def demo_endpoint_def demo_dists_def demo_dist_def)
      (simp add: demo_target_def)
qed

lemma demo_fresh: "fresh_buffer (Suc 0) 8192 (demo_buffer i (Suc 0))"
  by (simp add: fresh_buffer_def demo_buffer_def)

theorem htc_trailer_roundtrip_witness:
  "HTCProcessTrailer ar6000_credit_distribute (encode_trailer [OtherRecord 7 [1, 2], LookaheadRecord 5 (1, 0, 4, 0)] @ [9])
     (length (encode_trailer [OtherRecord 7 [1, 2], LookaheadRecord 5 (1, 0, 4, 0)])) (Some []) demo_target =
   Some (A_OK, Some [(1, 0, 4, 0)], demo_target)"
  by (subst htc_trailer_roundtrip) simp_all

theorem htc_short_lookahead_overreads_witness:
  "HTCProcessTrailer ar6000_credit_distribute (encode_trailer [OtherRecord 7 [1, 2]] @ HTC_RECORD_LOOKAHEAD # 1 # [3])
     (length (encode_trailer [OtherRecord 7 [1, 2]]) + 3) (Some []) demo_target = None"
  using htc_short_lookahead_overreads [of "[OtherRecord 7 [1, 2]]" ar6000_credit_distribute "Some []" demo_target "[3]"]
  by simp

theorem htc_recv_buffers_fit_witness:
  "\<exists>p t'. AllocAndPrepareRxPackets [(1, 0, 100, 0)] 1 (demo_rx [demo_buffer 5 1] []) = Some (A_OK, [p], t') \<and>
     rx_Length p \<le> 4096 \<and> DEV_CALC_RECV_PADDED_LEN t' (rx_Length p) \<le> BufferLength p"
proof -
  obtain p t' where a: "AllocAndPrepareRxPackets [(1, 0, 100, 0)] 1 (demo_rx [demo_buffer 5 1] []) = Some (A_OK, [p], t')"
    "rx_off p + BufferLength p = length (rx_buf p)"
    by (simp add: AllocAndPrepareRxPackets_def alloc_messages.simps(2) le16_def num_messages_def take_buffer_def
        dequeue_rx_def demo_rx_endpoint_def demo_endpoint_def demo_dists_def demo_dist_def demo_buffer_def Let_def
        DEV_CALC_RECV_PADDED_LEN_def DEV_CALC_SEND_PADDED_LEN_def demo_target_def)
  obtain st p' t2 where i: "HTCIssueRecv True p t' = (st, p', t2)" by (metis prod_cases3)
  from htc_recv_buffers_fit [OF a(1) _ a(2) i] a(1) show ?thesis by auto
qed

theorem htc_recv_single_owner_witness:
  "\<exists>t'. rx_run ar6000_credit_distribute (demo_rx [] []) {#5#} t' \<and> count (custody t') 5 \<le> 1"
proof -
  obtain t' where a: "HTCAddReceivePktMultiple [demo_buffer 5 1] (demo_rx [] []) = Some (A_OK, t')"
    by (simp add: HTCAddReceivePktMultiple_def demo_target_def Let_def upd_rx_def)
  have "rx_run ar6000_credit_distribute (demo_rx [] []) ({#} + ids [demo_buffer 5 1]) t'"
    by (rule rx_run.step [OF rx_run.start rx_step.add [OF a]])
  then have r: "rx_run ar6000_credit_distribute (demo_rx [] []) {#5#} t'" by simp
  have "custody (demo_rx [] []) = {#}"
    by (simp add: custody_def ep_ids_def answer_ids_def flight_ids_def given_ids_def demo_rx_def demo_rx_endpoint_def)
  with htc_recv_single_owner [OF r, of 5] r show ?thesis by auto
qed

theorem htc_padded_length_is_ceiling_witness:
  "2 ^ 7 dvd (640::nat) \<and> DEV_CALC_SEND_PADDED_LEN demo_target 606 = 640"
proof -
  have m: "BlockMask demo_target = mask 7" by (simp add: mask_eq_exp_minus_1)
  have l: "640 = DEV_CALC_SEND_PADDED_LEN demo_target 606" by (simp add: DEV_CALC_SEND_PADDED_LEN_def)
  from htc_padded_length_is_ceiling [OF m _ l] show ?thesis by (simp add: l [symmetric])
qed

theorem htc_recv_delivers_in_order_witness:
  "\<exists>ps t'. HTCRecvMessagePendingHandler ar6000_credit_distribute [frame_la 1 [10, 11] (next_la 1 [[12], []])]
      (demo_rx [demo_buffer 5 1, demo_buffer 6 1, demo_buffer 7 1, demo_buffer 8 1]
        (map (\<lambda>f. (A_OK, [f])) (frames 1 [[10, 11], [12], []]))) = Some (A_OK, 3, t') \<and>
    map payload_of ps = [[10, 11], [12], []] \<and> map rx_id ps = [5, 6, 7] \<and>
    rx_indicated t' = map (\<lambda>p. (1, [p])) ps \<and> RxBuffers (RxEp t' 1) = [demo_buffer 8 1]"
proof -
  let ?ms = "[[10, 11], [12], []] :: bytes list"
  let ?bufs = "[demo_buffer 5 1, demo_buffer 6 1, demo_buffer 7 1]"
  let ?t = "demo_rx (?bufs @ [demo_buffer 8 1]) (map (\<lambda>f. (A_OK, [f])) (frames 1 ?ms) @ [])"
  have h: "RxBuffers (RxEp ?t 1) = ?bufs @ [demo_buffer 8 1]" "length ?bufs = length ?ms" "?ms \<noteq> []"
    "\<forall>b \<in> set ?bufs. fresh_buffer 1 8192 b" "\<forall>m \<in> set ?ms. length m \<le> 4082"
    "dev_in ?t = map (\<lambda>f. (A_OK, [f])) (frames 1 ?ms) @ []" "\<not> WAIT_BUFFERS ?t"
    by (simp_all add: demo_fresh del: frames.simps)
  from htc_recv_delivers_in_order [OF demo_plain h, of ar6000_credit_distribute] obtain ps t' where
    "HTCRecvMessagePendingHandler ar6000_credit_distribute [frame_la 1 (hd ?ms) (next_la 1 (tl ?ms))] ?t =
      Some (A_OK, length ?ms, t')" "map payload_of ps = ?ms" "map rx_id ps = map rx_id ?bufs"
    "rx_indicated t' = rx_indicated ?t @ map (\<lambda>p. (1, [p])) ps" "RxBuffers (RxEp t' 1) = [demo_buffer 8 1]"
    by metis
  then show ?thesis
    by (intro exI [of _ ps] exI [of _ t']) (simp add: numeral_3_eq_3 del: frames.simps next_la.simps)
qed

theorem htc_recv_blocks_and_resumes_witness:
  "\<exists>t1 t2 t3. HTCRecvMessagePendingHandler ar6000_credit_distribute [(1, 0, 100, 0)] (demo_rx [] []) = Some (A_OK, 0, t1) \<and>
    \<not> recv_on t1 \<and> HTCAddReceivePkt (demo_buffer 5 2) t1 = Some (A_OK, t2) \<and> \<not> recv_on t2 \<and>
    HTCAddReceivePkt (demo_buffer 6 1) t2 = Some (A_OK, t3) \<and> recv_on t3"
proof -
  have h: "RxBuffers (RxEp (demo_rx [] []) 1) = []" "EpRecvRefill (RxEp (demo_rx [] []) 1) = None"
    "la_endpoint (1, 0, 100, 0) = 1" "la_length (1, 0, 100, 0) \<le> HTC_MAX_PAYLOAD_LENGTH"
    "rx_Endpoint (demo_buffer 5 2) < ENDPOINT_MAX" "rx_Endpoint (demo_buffer 5 2) \<noteq> 1" "rx_Endpoint (demo_buffer 6 1) = 1"
    by (simp_all add: le16_def)
  from htc_recv_blocks_and_resumes [OF demo_plain h, of ar6000_credit_distribute] show ?thesis by blast
qed

theorem htc_recv_bad_header_loses_buffer_witness:
  "\<exists>t'. HTCRecvMessagePendingHandler ar6000_credit_distribute [(1, 0, 2, 0)]
      (demo_rx [demo_buffer 5 1] [(A_OK, [[1, 0, 3, 0, 0, 0, 9, 9, 9]])]) = Some (A_EPROTO, 1, t') \<and>
    custody t' + {#5#} = custody (demo_rx [demo_buffer 5 1] [(A_OK, [[1, 0, 3, 0, 0, 0, 9, 9, 9]])]) \<and>
    RxBuffers (RxEp t' 1) = []"
proof -
  let ?t = "demo_rx [demo_buffer 5 1] [(A_OK, [[1, 0, 3, 0, 0, 0, 9, 9, 9]])]"
  have h: "RxBuffers (RxEp ?t 1) = demo_buffer 5 1 # []" "fresh_buffer 1 8192 (demo_buffer 5 1)"
    "la_endpoint (1, 0, 2, 0) = 1" "num_messages (1, 0, 2, 0) = 1" "la_length (1, 0, 2, 0) \<le> HTC_MAX_PAYLOAD_LENGTH"
    "dev_in ?t = (A_OK, [1 # 0 # 3 # 0 # [0, 0, 9, 9, 9]]) # []" "(1, 0, 3, 0) \<noteq> ((1, 0, 2, 0) :: lookahead)"
    "2 \<le> length ([0, 0, 9, 9, 9] :: bytes)"
    by (simp_all add: le16_def num_messages_def demo_fresh)
  from htc_recv_bad_header_loses_buffer [OF demo_plain h, of ar6000_credit_distribute] show ?thesis by auto
qed

end
