(* ===== verification/SetupWitness.thy ===== *)
theory SetupWitness
  imports HtcConnect RecvWitness
begin

text \<open>Concrete inputs on which the properties of set-up apply.\<close>

definition demo_hif :: hif_config where
  "demo_hif = \<lparr>attach_status = A_OK, mbox_status = A_OK, block_status = A_OK, block_size = 1,
     sync_only = True, yield_count = 0, disable_status = A_OK\<rparr>"

definition demo_scatter :: hif_scatter where
  "demo_scatter = \<lparr>NO_BUNDLING = False, scatter_status = A_OK, MaxScatterEntries = 4, MaxTransferSize = 4096,
     ExtendedSize = None, request_alloc = (\<lambda>_. True)\<rparr>"

definition demo_instance :: HTC_INSTANCE where
  "demo_instance = the (HTCCreate (\<lambda>_. True) (\<lambda>_ _. 0) demo_hif)"

definition demo_feed :: "bytes \<Rightarrow> HTC_INSTANCE \<Rightarrow> HTC_INSTANCE" where
  "demo_feed m h = h\<lparr>rx := (rx h)\<lparr>dev_in := [(A_OK, [control_frame m])]\<rparr>\<rparr>"

lemma demo_created: "HTCCreate (\<lambda>_. True) (\<lambda>_ _. 0) demo_hif = Some demo_instance"
  by (simp add: demo_instance_def HTCCreate_def demo_hif_def DevSetup_def Let_def)

lemma control_ids: "[Suc 0..<7] = [Suc 0, 2, 3, 4, 5, 6]" "[3..<7] = [3, 4, 5, 6::nat]"
  by (simp_all add: upt_rec)

lemma demo_instance_fields:
  "free_rx demo_instance = map (control_rx 262 (\<lambda>_ _. 0)) [Suc 0, 2, 3, 4, 5, 6]"
  "ControlBufferTXFreeList demo_instance = map control_tx [7..<9]"
  "EndPoint (tx (rx demo_instance)) = EndPoint (tx zero_target)" "BlockMask (tx (rx demo_instance)) = 0"
  by (simp_all add: demo_instance_def HTCCreate_def demo_hif_def DevSetup_def Let_def control_ids)

lemma zero_unconnected: "EndPoint (tx zero_target) e = EndPoint (tx zero_target) 0" "\<not> connected (tx zero_target) e"
  by (simp_all add: zero_target_def)

lemma padded_zero_mask: "BlockMask (tx t) = 0 \<Longrightarrow> n < 65536 \<Longrightarrow> DEV_CALC_RECV_PADDED_LEN t n = n"
  by (simp add: DEV_CALC_RECV_PADDED_LEN_def DEV_CALC_SEND_PADDED_LEN_def unsigned_of_nat take_bit_eq_mod)

lemma demo_control_ready:
  assumes "BlockMask (tx t) = 0" "ControlBufferRXFreeList t = control_rx 262 (\<lambda>_ _. 0) i # ps" "length m \<le> 256"
  shows "control_ready m t"
  using assms by (simp add: control_ready_def padded_zero_mask control_rx_def HTC_PACKET_RESET_RX_def)

abbreviation "demo_ready_reply \<equiv> ready_reply 20 512 1 8"
abbreviation "demo_bk_reply \<equiv> connect_reply WMI_DATA_BK_SVC 1 1536"

definition demo_request :: "nat \<Rightarrow> nat \<Rightarrow> HTC_SERVICE_CONNECT_REQ" where
  "demo_request svc n = control_connect\<lparr>req_ServiceID := svc, MaxSendMsgSize := n\<rparr>"

lemma demo_request_fields [simp]:
  "req_ServiceID (demo_request svc n) = svc" "MaxSendMsgSize (demo_request svc n) = n" "resp_room (demo_request svc n) = None"
  by (simp_all add: demo_request_def control_connect_def)

lemma no_trailer_poll [simp]: "no_trailer (control_poll m)"
  by (simp add: no_trailer_def control_poll_def)

text \<open>The instance after the ready message, and after the background service was connected.\<close>

lemma demo_waited:
  obtains h where "HTCWaitTarget (control_poll demo_ready_reply) demo_scatter A_OK (demo_feed demo_ready_reply demo_instance) =
      Some (A_OK, h)" "setup_reach h" "TargetCredits (tx (rx h)) = 20" "TargetCreditSize (tx (rx h)) = 512"
    "BlockMask (tx (rx h)) = 0" "\<And>e. e \<noteq> 0 \<Longrightarrow> EndPoint (tx (rx h)) e = EndPoint (tx zero_target) e"
    "ControlBufferTXFreeList h = map control_tx [7..<9]"
    "\<exists>ps. free_rx h = control_rx 262 (\<lambda>_ _. 0) 2 # ps"
proof -
  let ?h = "demo_feed demo_ready_reply demo_instance"
  let ?t = "rx ?h"
  have f: "free_rx ?h = control_rx 262 (\<lambda>_ _. 0) 1 # control_rx 262 (\<lambda>_ _. 0) 2 # map (control_rx 262 (\<lambda>_ _. 0)) [3..<7]"
    "BlockMask (tx ?t) = 0" "dev_in ?t = (A_OK, [control_frame demo_ready_reply]) # []"
    "EndPoint (tx ?t) = EndPoint (tx zero_target)" "ControlBufferTXFreeList ?h = map control_tx [7..<9]"
    using demo_instance_fields by (simp_all add: demo_feed_def control_ids)
  have c: "control_ready demo_ready_reply ?t"
    by (rule demo_control_ready [OF f(2,1)]) (simp add: ready_reply_def le16_bytes_def)
  have "setup_reach ?h"
    unfolding demo_feed_def by (rule setup_reach.step [OF setup_reach.create [OF demo_created] setup_step.device])
  from wait_target_ready [OF refl _ _ _ _ c f(3,1), of demo_scatter] f zero_unconnected(2) [of 0]
  obtain h p where h: "HTCWaitTarget (control_poll demo_ready_reply) demo_scatter A_OK ?h = Some (A_OK, h)"
      "free_rx h = (control_rx 262 (\<lambda>_ _. 0) 2 # map (control_rx 262 (\<lambda>_ _. 0)) [3..<7]) @ [p]" "ControlBufferTXFreeList h = map control_tx [7..<9]"
      "TargetCredits (tx (rx h)) = 20" "TargetCreditSize (tx (rx h)) = 512" "BlockMask (tx (rx h)) = 0"
      "\<And>e. e \<noteq> 0 \<Longrightarrow> EndPoint (tx (rx h)) e = EndPoint (tx zero_target) e"
    by auto
  have "setup_reach h" by (rule setup_reach.step [OF \<open>setup_reach ?h\<close> setup_step.wait [OF _ h(1)]]) simp
  moreover have "\<exists>ps. free_rx h = control_rx 262 (\<lambda>_ _. 0) 2 # ps" unfolding h(2) by simp
  ultimately show thesis using that [OF h(1) _ h(4-7,3)] by blast
qed

lemma demo_bk_ready:
  assumes "BlockMask (tx (rx h)) = 0" "ControlBufferTXFreeList h = map control_tx [7..<9]"
    "\<exists>ps. free_rx h = control_rx 262 (\<lambda>_ _. 0) 2 # ps"
  defines "h' \<equiv> demo_feed demo_bk_reply h"
  shows "rx h' = (rx h)\<lparr>dev_in := (A_OK, [control_frame demo_bk_reply]) # []\<rparr>"
    "ControlBufferTXFreeList h' \<noteq> []" "control_ready demo_bk_reply (rx h')"
proof -
  obtain ps where ps: "free_rx h = control_rx 262 (\<lambda>_ _. 0) 2 # ps" using assms(3) by blast
  show f: "rx h' = (rx h)\<lparr>dev_in := (A_OK, [control_frame demo_bk_reply]) # []\<rparr>"
    "ControlBufferTXFreeList h' \<noteq> []"
    using assms(2) by (simp_all add: h'_def demo_feed_def)
  show "control_ready demo_bk_reply (rx h')"
    unfolding f(1) by (rule demo_control_ready [of _ 2 ps]) (simp_all add: assms(1) ps connect_reply_def le16_bytes_def)
qed

lemma demo_connected:
  obtains h where "setup_reach h" "endpoint_of (tx (rx h)) WMI_DATA_BK_SVC \<noteq> None"
    "start_cost (tx (rx h)) \<le> TargetCredits (tx (rx h))"
proof -
  obtain h where h: "setup_reach h" "TargetCredits (tx (rx h)) = 20" "TargetCreditSize (tx (rx h)) = 512"
    "BlockMask (tx (rx h)) = 0" "\<And>e. e \<noteq> 0 \<Longrightarrow> EndPoint (tx (rx h)) e = EndPoint (tx zero_target) e"
    "ControlBufferTXFreeList h = map control_tx [7..<9]" "\<exists>ps. free_rx h = control_rx 262 (\<lambda>_ _. 0) 2 # ps"
    by (rule demo_waited) (rule that)
  let ?h = "demo_feed demo_bk_reply h" and ?req = "demo_request WMI_DATA_BK_SVC 0"
  note b = demo_bk_ready [OF h(4,6,7)]
  have r: "setup_reach ?h" unfolding demo_feed_def by (rule setup_reach.step [OF h(1) setup_step.device])
  obtain resp h' where h': "HTCConnectService A_OK (control_poll demo_bk_reply) ?req empty_resp ?h = Some (A_OK, resp, h')"
    "ep_ServiceID (EndPoint (tx (rx h')) 1) = WMI_DATA_BK_SVC"
    "TxCreditsPerMaxMsg (CreditDist (tx (rx h')) 1) = 3" "\<forall>x. x \<noteq> 1 \<longrightarrow> EndPoint (tx (rx h')) x = EndPoint (tx (rx h)) x"
    "TargetCredits (tx (rx h')) = 20"
    using connect_binds [OF refl, of WMI_DATA_BK_SVC ?req 1 1536 ?h "[]" "tx (rx ?h)" 1536 empty_resp] b h(2,3,5)
      zero_unconnected by auto
  have r': "setup_reach h'" by (rule setup_reach.step [OF r setup_step.connect [OF _ h'(1)]]) simp_all
  have ep: "endpoint_of (tx (rx h')) s = (if s = WMI_DATA_BK_SVC then Some 1 else None)" if "s \<noteq> 0" for s
    using that h'(2,4) h(5) zero_unconnected
    by (simp add: endpoint_of_def find_None_iff find_Some_iff upt_rec)
  have "setup_tx (tx (rx h'))" using setup_reach_inv [OF r'] by simp
  then have "cd_ServiceID (CreditDist (tx (rx h')) 1) = WMI_DATA_BK_SVC" using h'(2) by (simp add: setup_tx_def)
  then have "start_cost (tx (rx h')) = 3"
    using h'(3) by (simp add: start_cost_def ar6000_services_def ep start_credits_def List.map_filter_def)
  then show thesis using that [OF r'] h'(5) ep [of WMI_DATA_BK_SVC] by simp
qed

subsection \<open>The properties at these inputs\<close>

lemma htc_start_establishes_invariant_witness:
  "\<exists>h h1 h2. ar6000_setup_credit_dist h = Some h1 \<and> HTCStart A_OK A_OK h1 = Some (A_OK, h2) \<and>
     htc_inv ar6000_ready (tx (rx h2))"
proof -
  obtain h where h: "setup_reach h" "endpoint_of (tx (rx h)) WMI_DATA_BK_SVC \<noteq> None"
    "start_cost (tx (rx h)) \<le> TargetCredits (tx (rx h))"
    by (rule demo_connected) (rule that)
  show ?thesis using htc_start_establishes_invariant [OF h(1) refl h(2,3), of A_OK] by blast
qed

lemma htc_wait_target_limits_witness:
  "\<exists>h. HTCWaitTarget (control_poll demo_ready_reply) demo_scatter A_OK (demo_feed demo_ready_reply demo_instance) =
      Some (A_OK, h) \<and> 0 < TargetCredits (tx (rx h)) \<and> MaxMsgPerBundle (tx (rx h)) \<le> 8"
proof -
  obtain h where h: "HTCWaitTarget (control_poll demo_ready_reply) demo_scatter A_OK (demo_feed demo_ready_reply demo_instance) =
      Some (A_OK, h)"
    by (rule demo_waited) (rule that)
  from htc_wait_target_limits [OF h refl] h show ?thesis by blast
qed

lemma htc_control_buffers_conserved_witness:
  "\<exists>h. HTCWaitTarget (control_poll demo_ready_reply) demo_scatter A_OK (demo_feed demo_ready_reply demo_instance) =
      Some (A_OK, h) \<and> mset (map rx_id (free_rx h)) = mset [1, 2, 3, 4, 5, 6]"
proof -
  obtain h where h: "HTCWaitTarget (control_poll demo_ready_reply) demo_scatter A_OK (demo_feed demo_ready_reply demo_instance) =
      Some (A_OK, h)"
    by (rule demo_waited) (rule that)
  have "map rx_id (free_rx (demo_feed demo_ready_reply demo_instance)) = [1, 2, 3, 4, 5, 6]"
    using demo_instance_fields(1) by (simp add: demo_feed_def control_rx_def HTC_PACKET_RESET_RX_def)
  with htc_control_buffers_conserved [OF disjI2 [OF h]] h show ?thesis by fastforce
qed

definition demo_running :: HTC_INSTANCE where
  "demo_running = upd_tx (upd_ep 0 (\<lambda>x. x\<lparr>ep_ServiceID := HTC_CTRL_RSVD_SVC\<rparr>)) demo_instance"

lemma htc_stop_gives_everything_back_witness:
  "\<exists>h'. HTCStop demo_running = Some h' \<and> \<not> connected (tx (rx h')) 0 \<and> DistList (tx (rx h')) = []"
proof -
  have "ep_ServiceID (EndPoint (tx (rx demo_running)) 0) = HTC_CTRL_RSVD_SVC"
    by (simp add: demo_running_def upd_tx_def upd_ep_def)
  from htc_stop_gives_everything_back [OF this] show ?thesis by auto
qed

lemma htc_refused_size_takes_endpoint_witness:
  "\<exists>resp' h'. connect_endpoint 1 100 (demo_request WMI_DATA_BK_SVC 200) empty_resp demo_instance = Some (A_EPROTO, resp', h') \<and>
     connect_endpoint 1 100 (demo_request WMI_DATA_BK_SVC 0) empty_resp h' = Some (A_EPROTO, empty_resp, h')"
proof -
  have "ep_ServiceID (EndPoint (tx (rx demo_instance)) 1) = 0"
    unfolding demo_instance_fields(3) by (simp add: zero_target_def)
  from htc_refused_size_takes_endpoint [OF _ _ this, of 100 "demo_request WMI_DATA_BK_SVC 200" empty_resp] show ?thesis by auto
qed

lemma htc_connect_binds_endpoint_witness:
  "\<exists>h resp' h'. HTCConnectService A_OK (control_poll demo_bk_reply) (demo_request WMI_DATA_BK_SVC 0) empty_resp h =
     Some (A_OK, resp', h') \<and> ep_ServiceID (EndPoint (tx (rx h')) 1) = WMI_DATA_BK_SVC"
proof -
  obtain h where h: "TargetCreditSize (tx (rx h)) = 512" "BlockMask (tx (rx h)) = 0"
    "\<And>e. e \<noteq> 0 \<Longrightarrow> EndPoint (tx (rx h)) e = EndPoint (tx zero_target) e"
    "ControlBufferTXFreeList h = map control_tx [7..<9]" "\<exists>ps. free_rx h = control_rx 262 (\<lambda>_ _. 0) 2 # ps"
    by (rule demo_waited) (rule that)
  let ?h = "demo_feed demo_bk_reply h" and ?req = "demo_request WMI_DATA_BK_SVC 0"
  note b = demo_bk_ready [OF h(2,4,5)]
  show ?thesis
    using htc_connect_binds_endpoint [OF refl, of WMI_DATA_BK_SVC ?req 1 1536 ?h "[]" "tx (rx ?h)" 1536 empty_resp] b h(1,3)
      zero_unconnected by auto
qed

end
