(* ===== verification/NodeTable.thy ===== *)
theory NodeTable
  imports Prelude
begin

text \<open>
  The table of scan results: \<open>host/wlan/src/wlan_node.c\<close>.

  Nodes are C structures linked by pointers, twice: into one list in the order of their arrival
  and into the bucket of the hash of their address.  The model keeps the pointers: nodes and frame
  buffers live in a heap, an address is a number, \<open>None\<close> is the null pointer, and a freed cell
  holds nothing.  Addresses are not used again, so a dangling pointer stays one.  An operation has
  the value \<open>None\<close> when the C code follows a null or dangling pointer, frees a cell twice, walks a
  cyclic list for ever, or takes the lock of the table while it holds it (a Linux spin lock is not
  recursive).  What \<open>A_MALLOC_NOWAIT\<close> answers and what the clock \<open>A_GET_MS\<close> reads are arguments.
  The build modelled is the one without \<open>P2P\<close> and \<open>OS_ROAM_MANAGEMENT\<close>.  The fields that no
  code here reads or sets (\<open>nt_name\<close>, \<open>ni_table\<close>) are left out; \<open>nt_wmip\<close> only serves to ask for
  the current BSSID, which is an argument.
\<close>

subsection \<open>Data\<close>

type_synonym ptr = "nat option"

text \<open>A pointer into a frame buffer: the buffer and the offset.\<close>

type_synonym ie_ptr = "(nat \<times> nat) option"

record ieee80211_common_ie =
  ie_chan :: "16 word"
  ie_tstamp :: ie_ptr
  ie_ssid :: ie_ptr
  ie_rates :: ie_ptr
  ie_xrates :: ie_ptr
  ie_country :: ie_ptr
  ie_wpa :: ie_ptr
  ie_rsn :: ie_ptr
  ie_wmm :: ie_ptr
  ie_ath :: ie_ptr
  ie_capInfo :: "16 word"
  ie_beaconInt :: "16 word"
  ie_tim :: ie_ptr
  ie_chswitch :: ie_ptr
  ie_erp :: byte
  ie_wsc :: ie_ptr
  ie_htcap :: ie_ptr
  ie_htop :: ie_ptr

definition zero_cie :: ieee80211_common_ie where
  "zero_cie = \<lparr>ie_chan = 0, ie_tstamp = None, ie_ssid = None, ie_rates = None, ie_xrates = None,
     ie_country = None, ie_wpa = None, ie_rsn = None, ie_wmm = None, ie_ath = None, ie_capInfo = 0,
     ie_beaconInt = 0, ie_tim = None, ie_chswitch = None, ie_erp = 0, ie_wsc = None, ie_htcap = None, ie_htop = None\<rparr>"

record bss =
  ni_macaddr :: bytes
  ni_snr :: byte
  ni_rssi :: "16 word"
  ni_list_next :: ptr
  ni_list_prev :: ptr
  ni_hash_next :: ptr
  ni_hash_prev :: ptr
  ni_cie :: ieee80211_common_ie
  ni_buf :: ptr
  ni_framelen :: nat
  ni_frametype :: byte
  ni_refcnt :: "32 word"
  ni_scangen :: "32 word"
  ni_tstamp :: "32 word"
  ni_actcnt :: "32 word"

record ieee80211_node_table =
  nt_locked :: bool
  nt_node_first :: ptr
  nt_node_last :: ptr
  nt_hash :: "nat \<Rightarrow> ptr"
  nt_scangen :: "32 word"
  nt_nodeAge :: "32 word"
  nodes :: "nat \<Rightarrow> bss option"
  bufs :: "nat \<Rightarrow> bytes option"
  next_node :: nat
  next_buf :: nat

abbreviation (input) IEEE80211_ADDR_LEN :: nat where "IEEE80211_ADDR_LEN \<equiv> 6"
abbreviation (input) IEEE80211_NODE_HASHSIZE :: nat where "IEEE80211_NODE_HASHSIZE \<equiv> 32"
abbreviation (input) WLAN_NODE_INACT_TIMEOUT_MSEC :: "32 word" where "WLAN_NODE_INACT_TIMEOUT_MSEC \<equiv> 120000"
abbreviation (input) WLAN_NODE_INACT_CNT :: "32 word" where "WLAN_NODE_INACT_CNT \<equiv> 4"

definition IEEE80211_NODE_HASH :: "bytes \<Rightarrow> nat" where
  "IEEE80211_NODE_HASH addr = unat (addr ! (IEEE80211_ADDR_LEN - 1)) mod IEEE80211_NODE_HASHSIZE"

text \<open>Access through a pointer, and the lock.\<close>

definition deref :: "nat \<Rightarrow> ieee80211_node_table \<Rightarrow> bss option" where
  "deref a nt = nodes nt a"

definition upd_node :: "nat \<Rightarrow> (bss \<Rightarrow> bss) \<Rightarrow> ieee80211_node_table \<Rightarrow> ieee80211_node_table option" where
  "upd_node a f nt = (case nodes nt a of None \<Rightarrow> None | Some b \<Rightarrow> Some (nt\<lparr>nodes := (nodes nt)(a \<mapsto> f b)\<rparr>))"

definition NODE_LOCK :: "ieee80211_node_table \<Rightarrow> ieee80211_node_table option" where
  "NODE_LOCK nt = (if nt_locked nt then None else Some (nt\<lparr>nt_locked := True\<rparr>))"

definition NODE_UNLOCK :: "ieee80211_node_table \<Rightarrow> ieee80211_node_table" where
  "NODE_UNLOCK nt = nt\<lparr>nt_locked := False\<rparr>"

subsection \<open>Nodes\<close>

text \<open>
  \<open>ni_ok\<close> and \<open>buf_ok\<close> are the answers of the two allocations.
\<close>

definition alloc_buf :: "nat \<Rightarrow> ieee80211_node_table \<Rightarrow> nat \<times> ieee80211_node_table" where
  "alloc_buf n nt = (next_buf nt,
     nt\<lparr>bufs := (bufs nt)(next_buf nt \<mapsto> replicate n 0), next_buf := Suc (next_buf nt)\<rparr>)"

definition free_buf :: "nat \<Rightarrow> ieee80211_node_table \<Rightarrow> ieee80211_node_table option" where
  "free_buf a nt = (if bufs nt a = None then None else Some (nt\<lparr>bufs := (bufs nt)(a := None)\<rparr>))"

definition wlan_node_alloc :: "bool \<Rightarrow> bool \<Rightarrow> nat \<Rightarrow> ieee80211_node_table \<Rightarrow> ptr \<times> ieee80211_node_table" where
  "wlan_node_alloc ni_ok buf_ok wh_size nt =
     (if \<not> ni_ok \<or> (wh_size \<noteq> 0 \<and> \<not> buf_ok) then (None, nt)
      else
        let (buf, nt) = (if wh_size = 0 then (None, nt) else map_prod Some id (alloc_buf wh_size nt));
            ni = next_node nt;
            b = \<lparr>ni_macaddr = replicate IEEE80211_ADDR_LEN 0, ni_snr = 0, ni_rssi = 0, ni_list_next = None,
                 ni_list_prev = None, ni_hash_next = None, ni_hash_prev = None, ni_cie = zero_cie,
                 ni_buf = buf, ni_framelen = 0, ni_frametype = 0, ni_refcnt = 0, ni_scangen = 0,
                 ni_tstamp = 0, ni_actcnt = 0\<rparr>
        in (Some ni, nt\<lparr>nodes := (nodes nt)(ni \<mapsto> b), next_node := Suc ni\<rparr>))"

definition wlan_node_free :: "nat \<Rightarrow> ieee80211_node_table \<Rightarrow> ieee80211_node_table option" where
  "wlan_node_free ni nt = do {
     b \<leftarrow> deref ni nt;
     nt \<leftarrow> (case ni_buf b of None \<Rightarrow> Some nt | Some a \<Rightarrow> free_buf a nt);
     Some (nt\<lparr>nodes := (nodes nt)(ni := None)\<rparr>)
   }"

definition wlan_node_update_timestamp :: "32 word \<Rightarrow> nat \<Rightarrow> ieee80211_node_table \<Rightarrow>
    ieee80211_node_table option" where
  "wlan_node_update_timestamp now ni =
     upd_node ni (\<lambda>b. b\<lparr>ni_tstamp := now, ni_actcnt := WLAN_NODE_INACT_CNT\<rparr>)"

definition wlan_setup_node :: "32 word \<Rightarrow> nat \<Rightarrow> bytes \<Rightarrow> ieee80211_node_table \<Rightarrow>
    ieee80211_node_table option" where
  "wlan_setup_node now ni macaddr nt = do {
     let hash = IEEE80211_NODE_HASH macaddr;
     nt \<leftarrow> upd_node ni (\<lambda>b. b\<lparr>ni_macaddr := take IEEE80211_ADDR_LEN macaddr, ni_refcnt := 1\<rparr>) nt;
     nt \<leftarrow> wlan_node_update_timestamp now ni nt;
     nt \<leftarrow> NODE_LOCK nt;
     nt \<leftarrow> upd_node ni (\<lambda>b. b\<lparr>ni_list_next := None, ni_list_prev := nt_node_last nt\<rparr>) nt;
     nt \<leftarrow> (case nt_node_last nt of
         None \<Rightarrow> Some nt
       | Some l \<Rightarrow> upd_node l (\<lambda>b. b\<lparr>ni_list_next := Some ni\<rparr>) nt);
     let nt = nt\<lparr>nt_node_last := Some ni\<rparr>;
     let nt = (if nt_node_first nt = None then nt\<lparr>nt_node_first := Some ni\<rparr> else nt);
     nt \<leftarrow> upd_node ni (\<lambda>b. b\<lparr>ni_hash_next := nt_hash nt hash\<rparr>) nt;
     nt \<leftarrow> (case nt_hash nt hash of
         None \<Rightarrow> Some nt
       | Some h \<Rightarrow> upd_node h (\<lambda>b. b\<lparr>ni_hash_prev := Some ni\<rparr>) nt);
     nt \<leftarrow> upd_node ni (\<lambda>b. b\<lparr>ni_hash_prev := None\<rparr>) nt;
     let nt = nt\<lparr>nt_hash := (nt_hash nt)(hash := Some ni)\<rparr>;
     Some (NODE_UNLOCK nt)
   }"

subsection \<open>Lookup\<close>

partial_function (option) find_chain :: "bytes \<Rightarrow> ptr \<Rightarrow> ieee80211_node_table \<Rightarrow>
    (ptr \<times> ieee80211_node_table) option" where
  "find_chain macaddr p nt = (case p of
       None \<Rightarrow> Some (None, nt)
     | Some ni \<Rightarrow> do {
         b \<leftarrow> deref ni nt;
         if ni_macaddr b = take IEEE80211_ADDR_LEN macaddr then do {
           nt \<leftarrow> upd_node ni (\<lambda>b. b\<lparr>ni_refcnt := ni_refcnt b + 1\<rparr>) nt;
           Some (Some ni, nt)
         } else find_chain macaddr (ni_hash_next b) nt
       })"

text \<open>The hash is below the size of the table, so neither test for it applies.\<close>

definition ieee80211_find_node :: "bytes \<Rightarrow> ieee80211_node_table \<Rightarrow> (ptr \<times> ieee80211_node_table) option" where
  "ieee80211_find_node macaddr nt =
     (if nt_hash nt (IEEE80211_NODE_HASH macaddr) = None then Some (None, nt)
      else find_chain macaddr (nt_hash nt (IEEE80211_NODE_HASH macaddr)) nt)"

definition wlan_find_node :: "bytes \<Rightarrow> ieee80211_node_table \<Rightarrow> (ptr \<times> ieee80211_node_table) option" where
  "wlan_find_node macaddr nt = do {
     nt \<leftarrow> NODE_LOCK nt;
     (ni, nt) \<leftarrow> ieee80211_find_node macaddr nt;
     Some (ni, NODE_UNLOCK nt)
   }"

subsection \<open>Updating, removing and freeing\<close>

text \<open>The error return of a failed allocation leaves the lock held and the node without a buffer.\<close>

definition wlan_node_buf_update :: "32 word \<Rightarrow> bool \<Rightarrow> nat \<Rightarrow> nat \<Rightarrow> ieee80211_node_table \<Rightarrow>
    (A_STATUS \<times> ieee80211_node_table) option" where
  "wlan_node_buf_update now buf_ok ni len nt = do {
     nt \<leftarrow> NODE_LOCK nt;
     b \<leftarrow> deref ni nt;
     nt \<leftarrow> (case ni_buf b of
         None \<Rightarrow> Some nt
       | Some a \<Rightarrow> do { nt \<leftarrow> free_buf a nt; upd_node ni (\<lambda>b. b\<lparr>ni_buf := None\<rparr>) nt });
     if len \<noteq> 0 \<and> \<not> buf_ok then Some (A_ERROR, nt)
     else do {
       nt \<leftarrow> (if len = 0 then Some nt
              else let (a, nt) = alloc_buf len nt in upd_node ni (\<lambda>b. b\<lparr>ni_buf := Some a\<rparr>) nt);
       nt \<leftarrow> wlan_node_update_timestamp now ni nt;
       Some (A_OK, NODE_UNLOCK nt)
     }
   }"

definition wlan_node_remove_core :: "nat \<Rightarrow> ieee80211_node_table \<Rightarrow> ieee80211_node_table option" where
  "wlan_node_remove_core ni nt = do {
     b \<leftarrow> deref ni nt;
     nt \<leftarrow> (case ni_list_prev b of
         None \<Rightarrow> Some (nt\<lparr>nt_node_first := ni_list_next b\<rparr>)
       | Some p \<Rightarrow> upd_node p (\<lambda>x. x\<lparr>ni_list_next := ni_list_next b\<rparr>) nt);
     nt \<leftarrow> (case ni_list_next b of
         None \<Rightarrow> Some (nt\<lparr>nt_node_last := ni_list_prev b\<rparr>)
       | Some n \<Rightarrow> upd_node n (\<lambda>x. x\<lparr>ni_list_prev := ni_list_prev b\<rparr>) nt);
     nt \<leftarrow> (case ni_hash_prev b of
         None \<Rightarrow> Some (nt\<lparr>nt_hash := (nt_hash nt)(IEEE80211_NODE_HASH (ni_macaddr b) := ni_hash_next b)\<rparr>)
       | Some p \<Rightarrow> upd_node p (\<lambda>x. x\<lparr>ni_hash_next := ni_hash_next b\<rparr>) nt);
     (case ni_hash_next b of
         None \<Rightarrow> Some nt
       | Some n \<Rightarrow> upd_node n (\<lambda>x. x\<lparr>ni_hash_prev := ni_hash_prev b\<rparr>) nt)
   }"

text \<open>\<open>wlan_node_reclaim\<close> repeats the unlinking of \<open>wlan_node_remove_core\<close> and frees the node whatever
  its reference count.\<close>

definition wlan_node_reclaim :: "nat \<Rightarrow> ieee80211_node_table \<Rightarrow> ieee80211_node_table option" where
  "wlan_node_reclaim ni nt = do {
     nt \<leftarrow> NODE_LOCK nt;
     nt \<leftarrow> wlan_node_remove_core ni nt;
     nt \<leftarrow> wlan_node_free ni nt;
     Some (NODE_UNLOCK nt)
   }"

definition wlan_node_dec_free :: "nat \<Rightarrow> ieee80211_node_table \<Rightarrow> ieee80211_node_table option" where
  "wlan_node_dec_free ni nt = do {
     b \<leftarrow> deref ni nt;
     nt \<leftarrow> upd_node ni (\<lambda>b. b\<lparr>ni_refcnt := ni_refcnt b - 1\<rparr>) nt;
     if ni_refcnt b = 1 then wlan_node_free ni nt else Some nt
   }"

definition wlan_node_return :: "nat \<Rightarrow> ieee80211_node_table \<Rightarrow> ieee80211_node_table option" where
  "wlan_node_return ni nt = do {
     nt \<leftarrow> NODE_LOCK nt;
     nt \<leftarrow> wlan_node_dec_free ni nt;
     Some (NODE_UNLOCK nt)
   }"

partial_function (option) wlan_free_allnodes :: "ieee80211_node_table \<Rightarrow> ieee80211_node_table option" where
  "wlan_free_allnodes nt = (case nt_node_first nt of
       None \<Rightarrow> Some nt
     | Some ni \<Rightarrow> Option.bind (wlan_node_reclaim ni nt) wlan_free_allnodes)"

partial_function (option) remove_walk :: "bytes \<Rightarrow> ptr \<Rightarrow> ieee80211_node_table \<Rightarrow>
    (ptr \<times> ieee80211_node_table) option" where
  "remove_walk bssid p nt = (case p of
       None \<Rightarrow> Some (None, nt)
     | Some ni \<Rightarrow> do {
         b \<leftarrow> deref ni nt;
         if ni_macaddr b = take IEEE80211_ADDR_LEN bssid then do {
           nt \<leftarrow> wlan_node_remove_core ni nt;
           Some (Some ni, nt)
         } else remove_walk bssid (ni_list_next b) nt
       })"

definition wlan_node_remove :: "bytes \<Rightarrow> ieee80211_node_table \<Rightarrow> (ptr \<times> ieee80211_node_table) option" where
  "wlan_node_remove bssid nt = do {
     nt \<leftarrow> NODE_LOCK nt;
     (ni, nt) \<leftarrow> remove_walk bssid (nt_node_first nt) nt;
     Some (ni, NODE_UNLOCK nt)
   }"

subsection \<open>The table\<close>

definition wlan_node_table_init :: "ieee80211_node_table \<Rightarrow> ieee80211_node_table" where
  "wlan_node_table_init nt = nt\<lparr>nt_locked := False, nt_node_first := None, nt_node_last := None,
     nt_hash := (\<lambda>i. if i < IEEE80211_NODE_HASHSIZE then None else nt_hash nt i),
     nt_nodeAge := WLAN_NODE_INACT_TIMEOUT_MSEC, nt_scangen := 0\<rparr>"

definition wlan_set_nodeage :: "32 word \<Rightarrow> ieee80211_node_table \<Rightarrow> ieee80211_node_table" where
  "wlan_set_nodeage age nt = nt\<lparr>nt_nodeAge := age\<rparr>"

text \<open>
  The callback \<open>f\<close> of an iteration works on its own state and on the node it is handed.
\<close>

partial_function (option) iterate_walk :: "('s \<Rightarrow> bss \<Rightarrow> 's \<times> bss) \<Rightarrow> 32 word \<Rightarrow> ptr \<Rightarrow> 's \<Rightarrow>
    ieee80211_node_table \<Rightarrow> ('s \<times> ieee80211_node_table) option" where
  "iterate_walk f gen p s nt = (case p of
       None \<Rightarrow> Some (s, nt)
     | Some ni \<Rightarrow> do {
         b \<leftarrow> deref ni nt;
         (s, nt) \<leftarrow> (if ni_scangen b \<noteq> gen then do {
             nt \<leftarrow> upd_node ni (\<lambda>b. b\<lparr>ni_scangen := gen, ni_refcnt := ni_refcnt b + 1\<rparr>) nt;
             b \<leftarrow> deref ni nt;
             let (s, b') = f s b;
             nt \<leftarrow> upd_node ni (\<lambda>_. b') nt;
             nt \<leftarrow> wlan_node_dec_free ni nt;
             Some (s, nt)
           } else Some (s, nt));
         b \<leftarrow> deref ni nt;
         iterate_walk f gen (ni_list_next b) s nt
       })"

definition wlan_iterate_nodes :: "('s \<Rightarrow> bss \<Rightarrow> 's \<times> bss) \<Rightarrow> 's \<Rightarrow> ieee80211_node_table \<Rightarrow>
    ('s \<times> ieee80211_node_table) option" where
  "wlan_iterate_nodes f s nt = do {
     let gen = nt_scangen nt + 1;
     nt \<leftarrow> NODE_LOCK (nt\<lparr>nt_scangen := gen\<rparr>);
     (s, nt) \<leftarrow> iterate_walk f gen (nt_node_first nt) s nt;
     Some (s, NODE_UNLOCK nt)
   }"

text \<open>
  The inactivity count is only decremented when the age test fails, and it is tested for zero.
\<close>

partial_function (option) refresh_walk :: "32 word \<Rightarrow> bytes \<Rightarrow> ptr \<Rightarrow> ieee80211_node_table \<Rightarrow>
    ieee80211_node_table option" where
  "refresh_walk now myBssid p nt = (case p of
       None \<Rightarrow> Some nt
     | Some ni \<Rightarrow> do {
         b \<leftarrow> deref ni nt;
         let nextBss = ni_list_next b;
         nt \<leftarrow> (if myBssid \<noteq> ni_macaddr b then
             if now - ni_tstamp b > nt_nodeAge nt then wlan_node_reclaim ni nt
             else do {
               nt \<leftarrow> upd_node ni (\<lambda>b. b\<lparr>ni_actcnt := ni_actcnt b - 1\<rparr>) nt;
               if ni_actcnt b - 1 = 0 then wlan_node_reclaim ni nt else Some nt
             }
           else Some nt);
         refresh_walk now myBssid nextBss nt
       })"

definition wlan_refresh_inactive_nodes :: "32 word \<Rightarrow> bytes \<Rightarrow> ieee80211_node_table \<Rightarrow>
    ieee80211_node_table option" where
  "wlan_refresh_inactive_nodes now myBssid nt = refresh_walk now myBssid (nt_node_first nt) nt"

subsection \<open>Search by network name\<close>

text \<open>Reading through a pointer into a frame buffer.\<close>

definition rd_ie :: "nat \<times> nat \<Rightarrow> nat \<Rightarrow> ieee80211_node_table \<Rightarrow> byte option" where
  "rd_ie p i nt = (case bufs nt (fst p) of None \<Rightarrow> None | Some m \<Rightarrow> at m (snd p + i))"

definition blk_ie :: "nat \<times> nat \<Rightarrow> nat \<Rightarrow> nat \<Rightarrow> ieee80211_node_table \<Rightarrow> bytes option" where
  "blk_ie p i n nt = (case bufs nt (fst p) of None \<Rightarrow> None | Some m \<Rightarrow> blk (snd p + i) n m)"

text \<open>The name of a node against the \<open>n\<close> bytes asked for.\<close>

definition ssid_match :: "bytes \<Rightarrow> nat \<times> nat \<Rightarrow> ieee80211_node_table \<Rightarrow> bool option" where
  "ssid_match ssid p nt = do {
     len \<leftarrow> rd_ie p 1 nt;
     if len \<le> 32 then do {
       s \<leftarrow> blk_ie p 2 (length ssid) nt;
       Some (ssid = s)
     } else Some False
   }"

partial_function (option) ssid_walk :: "bytes \<Rightarrow> bool \<Rightarrow> bool \<Rightarrow> ptr \<Rightarrow> ieee80211_node_table \<Rightarrow>
    (ptr \<times> ieee80211_node_table) option" where
  "ssid_walk ssid wpa2 matchSSID p nt = (case p of
       None \<Rightarrow> Some (None, nt)
     | Some ni \<Rightarrow> do {
         b \<leftarrow> deref ni nt;
         hit \<leftarrow> (case ie_ssid (ni_cie b) of None \<Rightarrow> Some False | Some p \<Rightarrow> ssid_match ssid p nt);
         if hit \<and> (matchSSID \<or> wpa2 \<and> ie_rsn (ni_cie b) \<noteq> None \<or> \<not> wpa2 \<and> ie_wpa (ni_cie b) \<noteq> None)
         then do {
           nt \<leftarrow> upd_node ni (\<lambda>b. b\<lparr>ni_refcnt := ni_refcnt b + 1\<rparr>) nt;
           Some (Some ni, nt)
         }
         else ssid_walk ssid wpa2 matchSSID (ni_list_next b) nt
       })"

definition wlan_find_Ssidnode :: "bytes \<Rightarrow> bool \<Rightarrow> bool \<Rightarrow> ieee80211_node_table \<Rightarrow>
    (ptr \<times> ieee80211_node_table) option" where
  "wlan_find_Ssidnode ssid wpa2 matchSSID nt = do {
     nt \<leftarrow> NODE_LOCK nt;
     (ni, nt) \<leftarrow> ssid_walk ssid wpa2 matchSSID (nt_node_first nt) nt;
     Some (ni, NODE_UNLOCK nt)
   }"

abbreviation (input) WMI_WPA_PSK_AUTH :: nat where "WMI_WPA_PSK_AUTH \<equiv> 8"
abbreviation (input) WMI_WPA2_PSK_AUTH :: nat where "WMI_WPA2_PSK_AUTH \<equiv> 16"
abbreviation (input) OPEN_AUTH :: nat where "OPEN_AUTH \<equiv> 1"
abbreviation (input) NONE_CRYPT :: nat where "NONE_CRYPT \<equiv> 1"
abbreviation (input) WEP_CRYPT :: nat where "WEP_CRYPT \<equiv> 2"

text \<open>
  Whether the security of a node is the one asked for.  The 802.11 authentication mode and the
  group cipher, arguments of the C function, are not looked at.
\<close>

definition security_match :: "nat \<Rightarrow> nat \<Rightarrow> ieee80211_common_ie \<Rightarrow> bool" where
  "security_match authMode pairwiseCrypto c =
     (if ie_capInfo c AND 0x10 \<noteq> 0
      then ie_rsn c \<noteq> None \<and> authMode = WMI_WPA2_PSK_AUTH \<or> ie_wpa c \<noteq> None \<and> authMode = WMI_WPA_PSK_AUTH \<or>
        pairwiseCrypto = WEP_CRYPT
      else authMode = OPEN_AUTH \<and> pairwiseCrypto = NONE_CRYPT)"

partial_function (option) matching_walk :: "bytes \<Rightarrow> nat \<Rightarrow> nat \<Rightarrow> ptr \<Rightarrow> ptr \<Rightarrow>
    ieee80211_node_table \<Rightarrow> ptr option" where
  "matching_walk ssid authMode pairwiseCrypto best p nt = (case p of
       None \<Rightarrow> Some best
     | Some ni \<Rightarrow> do {
         b \<leftarrow> deref ni nt;
         q \<leftarrow> ie_ssid (ni_cie b);
         hit \<leftarrow> ssid_match ssid q nt;
         best \<leftarrow> (if hit \<and> security_match authMode pairwiseCrypto (ni_cie b) then
             (case best of
                None \<Rightarrow> Some (Some ni)
              | Some m \<Rightarrow> do {
                  x \<leftarrow> deref m nt;
                  Some (if sint (ni_rssi b) > sint (ni_rssi x) then Some ni else Some m)
                })
           else Some best);
         matching_walk ssid authMode pairwiseCrypto best (ni_list_next b) nt
       })"

definition wlan_find_matching_Ssidnode :: "bytes \<Rightarrow> nat \<Rightarrow> nat \<Rightarrow> ieee80211_node_table \<Rightarrow>
    (ptr \<times> ieee80211_node_table) option" where
  "wlan_find_matching_Ssidnode ssid authMode pairwiseCrypto nt = do {
     nt \<leftarrow> NODE_LOCK nt;
     best \<leftarrow> matching_walk ssid authMode pairwiseCrypto None (nt_node_first nt) nt;
     Some (best, NODE_UNLOCK nt)
   }"

end
