(* ===== verification/Beacon.thy ===== *)
theory Beacon
  imports NodeTable
begin

text \<open>
  Beacons and probe responses: \<open>wlan_parse_beacon\<close> of \<open>host/wlan/src/wlan_recv_beacon.c\<close>.

  A frame body is 12 fixed bytes and a sequence of elements: an id, a length and as many bytes.  The
  parser walks the elements and stores pointers to them.  It works on a buffer \<open>buf\<close> of the heap
  whose memory is \<open>m\<close>; a read behind the end of the memory is \<open>None\<close>.  \<open>framelen\<close> is the
  length it is told.
\<close>

abbreviation (input) IEEE80211_RATE_MAXSIZE :: nat where "IEEE80211_RATE_MAXSIZE \<equiv> 15"
abbreviation (input) IEEE80211_NWID_LEN :: nat where "IEEE80211_NWID_LEN \<equiv> 32"

definition LE_READ_2 :: "bytes \<Rightarrow> nat \<Rightarrow> nat option" where
  "LE_READ_2 m i = do { a \<leftarrow> at m i; b \<leftarrow> at m (i + 1); Some (le16 a b) }"

definition LE_READ_4 :: "bytes \<Rightarrow> nat \<Rightarrow> nat option" where
  "LE_READ_4 m i = do { a \<leftarrow> at m i; b \<leftarrow> at m (i + 1); c \<leftarrow> at m (i + 2); d \<leftarrow> at m (i + 3); Some (le32 a b c d) }"

text \<open>The four vendor elements, by the organisation and type that open their bodies.\<close>

definition is_oui :: "nat \<Rightarrow> bytes \<Rightarrow> nat \<Rightarrow> bool option" where
  "is_oui v m frm = do {
     l \<leftarrow> at m (frm + 1);
     if l > 3 then map_option (\<lambda>w. w = v) (LE_READ_4 m (frm + 2)) else Some False
   }"

definition iswpaoui :: "bytes \<Rightarrow> nat \<Rightarrow> bool option" where "iswpaoui = is_oui 0x01f25000"
definition iswmmoui :: "bytes \<Rightarrow> nat \<Rightarrow> bool option" where "iswmmoui = is_oui 0x02f25000"
definition isatherosoui :: "bytes \<Rightarrow> nat \<Rightarrow> bool option" where "isatherosoui = is_oui 0x017f0300"
definition iswscoui :: "bytes \<Rightarrow> nat \<Rightarrow> bool option" where "iswscoui = is_oui 0x04f25000"

abbreviation (input) ELEMID_SSID :: byte where "ELEMID_SSID \<equiv> 0"
abbreviation (input) ELEMID_RATES :: byte where "ELEMID_RATES \<equiv> 1"
abbreviation (input) ELEMID_DSPARMS :: byte where "ELEMID_DSPARMS \<equiv> 3"
abbreviation (input) ELEMID_TIM :: byte where "ELEMID_TIM \<equiv> 5"
abbreviation (input) ELEMID_COUNTRY :: byte where "ELEMID_COUNTRY \<equiv> 7"
abbreviation (input) ELEMID_ERP :: byte where "ELEMID_ERP \<equiv> 42"
abbreviation (input) ELEMID_HTCAP_ANA :: byte where "ELEMID_HTCAP_ANA \<equiv> 45"
abbreviation (input) ELEMID_RSN :: byte where "ELEMID_RSN \<equiv> 48"
abbreviation (input) ELEMID_XRATES :: byte where "ELEMID_XRATES \<equiv> 50"
abbreviation (input) ELEMID_HTINFO_ANA :: byte where "ELEMID_HTINFO_ANA \<equiv> 61"
abbreviation (input) ELEMID_VENDOR :: byte where "ELEMID_VENDOR \<equiv> 221"

text \<open>The \<open>switch\<close> on one element; the flag tells whether an SSID was seen, \<open>None\<close> in the result is the
  error return \<open>A_EINVAL\<close>.  The ids not listed do nothing.\<close>

type_synonym parse_state = "ieee80211_common_ie \<times> bool"

definition parse_vendor :: "nat \<Rightarrow> bytes \<Rightarrow> nat \<Rightarrow> ieee80211_common_ie \<Rightarrow> ieee80211_common_ie option" where
  "parse_vendor buf m frm cie = do {
     wpa \<leftarrow> iswpaoui m frm;
     if wpa then Some (cie\<lparr>ie_wpa := Some (buf, frm)\<rparr>) else do {
       wmm \<leftarrow> iswmmoui m frm;
       if wmm then Some (cie\<lparr>ie_wmm := Some (buf, frm)\<rparr>) else do {
         ath \<leftarrow> isatherosoui m frm;
         if ath then Some (cie\<lparr>ie_ath := Some (buf, frm)\<rparr>) else do {
           wsc \<leftarrow> iswscoui m frm;
           Some (if wsc then cie\<lparr>ie_wsc := Some (buf, frm)\<rparr> else cie)
         }
       }
     }
   }"

definition parse_element :: "nat \<Rightarrow> bytes \<Rightarrow> nat \<Rightarrow> parse_state \<Rightarrow> parse_state option option" where
  "parse_element buf m frm s = do {
     let (cie, seen) = s;
     let here = Some (buf, frm);
     e \<leftarrow> at m frm;
     if e = ELEMID_SSID then Some (Some (if seen then cie else cie\<lparr>ie_ssid := here\<rparr>, True))
     else if e = ELEMID_RATES then Some (Some (cie\<lparr>ie_rates := here\<rparr>, seen))
     else if e = ELEMID_COUNTRY then Some (Some (cie\<lparr>ie_country := here\<rparr>, seen))
     else if e = ELEMID_DSPARMS then do { c \<leftarrow> at m (frm + 2); Some (Some (cie\<lparr>ie_chan := ucast c\<rparr>, seen)) }
     else if e = ELEMID_TIM then Some (Some (cie\<lparr>ie_tim := here\<rparr>, seen))
     else if e = ELEMID_XRATES then Some (Some (cie\<lparr>ie_xrates := here\<rparr>, seen))
     else if e = ELEMID_ERP then do {
       l \<leftarrow> at m (frm + 1);
       if l \<noteq> 1 then Some None
       else do { v \<leftarrow> at m (frm + 2); Some (Some (cie\<lparr>ie_erp := v\<rparr>, seen)) }
     }
     else if e = ELEMID_RSN then do {
       l \<leftarrow> at m (frm + 1);
       if l < 8 then Some None
       else do {
         n \<leftarrow> LE_READ_2 m (frm + 8);
         if n = 0 then Some None else Some (Some (cie\<lparr>ie_rsn := here\<rparr>, seen))
       }
     }
     else if e = ELEMID_HTCAP_ANA then Some (Some (cie\<lparr>ie_htcap := here\<rparr>, seen))
     else if e = ELEMID_HTINFO_ANA then Some (Some (cie\<lparr>ie_htop := here\<rparr>, seen))
     else if e = ELEMID_VENDOR then map_option (\<lambda>cie. Some (cie, seen)) (parse_vendor buf m frm cie)
     else Some (Some (cie, seen))
   }"

text \<open>The loop.  The record is left as far as it was filled in when an element is refused.\<close>

function parse_elements :: "nat \<Rightarrow> bytes \<Rightarrow> nat \<Rightarrow> nat \<Rightarrow> parse_state \<Rightarrow> (A_STATUS \<times> ieee80211_common_ie) option" where
  "parse_elements buf m efrm frm s =
     (if frm < efrm then
        (case parse_element buf m frm s of
           None \<Rightarrow> None
         | Some None \<Rightarrow> Some (A_EINVAL, fst s)
         | Some (Some s) \<Rightarrow> do { l \<leftarrow> at m (frm + 1); parse_elements buf m efrm (frm + unat l + 2) s })
      else Some (A_OK, fst s))"
  by pat_completeness auto
termination by (relation "measure (\<lambda>(buf, m, efrm, frm, s). efrm - frm)") auto

declare parse_elements.simps [simp del]

definition verify_element :: "bytes \<Rightarrow> ie_ptr \<Rightarrow> nat \<Rightarrow> bool option" where
  "verify_element m p maxlen = (case p of
       None \<Rightarrow> Some False
     | Some (buf, off) \<Rightarrow> map_option (\<lambda>l. unat l \<le> maxlen) (at m (off + 1)))"

text \<open>The record is cleared only when the frame is long enough for the fixed part.\<close>

definition wlan_parse_beacon :: "nat \<Rightarrow> bytes \<Rightarrow> nat \<Rightarrow> ieee80211_common_ie \<Rightarrow>
    (A_STATUS \<times> ieee80211_common_ie) option" where
  "wlan_parse_beacon buf m framelen cie =
     (if framelen < 12 then Some (A_EINVAL, cie)
      else do {
        bi \<leftarrow> LE_READ_2 m 8;
        ci \<leftarrow> LE_READ_2 m 10;
        let cie = zero_cie\<lparr>ie_tstamp := Some (buf, 0), ie_beaconInt := word_of_nat bi, ie_capInfo := word_of_nat ci,
          ie_chan := 0\<rparr>;
        (st, cie) \<leftarrow> parse_elements buf m framelen 12 (cie, False);
        if A_FAILED st then Some (st, cie)
        else do {
          ok \<leftarrow> verify_element m (ie_rates cie) IEEE80211_RATE_MAXSIZE;
          if \<not> ok then Some (A_EINVAL, cie)
          else do {
            ok \<leftarrow> verify_element m (ie_ssid cie) IEEE80211_NWID_LEN;
            Some (if ok then A_OK else A_EINVAL, cie)
          }
        }
      })"

end
