(* ===== verification/BssInfo.thy ===== *)
theory BssInfo
  imports Beacon "HOL-Library.Signed_Division"
begin

text \<open>
  What the WMI layer does with the scan table: the handlers of \<open>host/wmi/wmi.c\<close> for scan results.

  A scan result is a header and the body of a beacon or probe response.  The C code lays the header
  structure over the first bytes of the event; the model has the header as a record \<open>bih\<close> and the
  memory behind it as \<open>buf\<close>.  \<open>len\<close> is the length of both that the caller passes.  The handler
  changes the header in place, so it returns it.  The upcalls that only report the frame to the
  operating system are left out; the answers of the others, the clock and the answers of the
  allocations are the fields of \<open>bssinfo_env\<close>.
\<close>

subsection \<open>Data\<close>

record WMI_BSS_INFO_HDR =
  bi_channel :: "16 word"
  bi_frameType :: byte
  bi_snr :: byte
  bi_rssi :: "16 word"
  bi_bssid :: bytes
  bi_ieMask :: "32 word"

abbreviation (input) BEACON_FTYPE :: byte where "BEACON_FTYPE \<equiv> 1"
abbreviation (input) PROBERESP_FTYPE :: byte where "PROBERESP_FTYPE \<equiv> 2"
abbreviation (input) PROBEREQ_FTYPE :: byte where "PROBEREQ_FTYPE \<equiv> 4"
abbreviation (input) WMI_BSS_INFO_HDR_size :: nat where "WMI_BSS_INFO_HDR_size \<equiv> 16"
abbreviation (input) SSID_IE_LEN_INDEX :: nat where "SSID_IE_LEN_INDEX \<equiv> 13"

record wmi_t =
  wmi_scan_table :: ieee80211_node_table
  wmi_bssid :: bytes

text \<open>
  \<open>env_probe_rx\<close> tells whether the access point mode consumed a probe request, \<open>env_caching\<close> what the
  driver answers when asked whether nodes may be cached (\<open>None\<close> if it answers with an error).
\<close>

record bssinfo_env =
  is_probe_ssid :: bool
  wps_enable :: bool
  env_probe_rx :: bool
  env_caching :: "bool option"
  env_now :: "32 word"
  env_ni_ok :: bool
  env_buf_ok :: bool

text \<open>A weighted average, on C \<open>int\<close>s with the division that rounds towards zero.\<close>

definition RSSI_AVE :: "int \<Rightarrow> int \<Rightarrow> int \<Rightarrow> int" where
  "RSSI_AVE avg rssi weight = (if avg = 0 then rssi else (avg * weight + (16 - weight) * rssi) sdiv 16)"

definition ave_rssi :: "16 word \<Rightarrow> 16 word \<Rightarrow> 16 word" where
  "ave_rssi avg r = word_of_int (RSSI_AVE (sint avg) (sint r) 13)"

definition ave_snr :: "byte \<Rightarrow> byte \<Rightarrow> byte" where
  "ave_snr avg s = word_of_int (RSSI_AVE (uint avg) (uint s) 13)"

text \<open>\<open>A_MEMCPY\<close> into a frame buffer.\<close>

definition store_buf :: "nat \<Rightarrow> nat \<Rightarrow> bytes \<Rightarrow> ieee80211_node_table \<Rightarrow> ieee80211_node_table option" where
  "store_buf u off xs nt = do {
     m \<leftarrow> bufs nt u;
     if off + length xs \<le> length m
     then Some (nt\<lparr>bufs := (bufs nt)(u \<mapsto> take off m @ xs @ drop (off + length xs) m)\<rparr>)
     else None
   }"

subsection \<open>A frame of a known station\<close>

text \<open>Whether the name of a hidden network is to be kept, and the name the node has so far.\<close>

definition keeps_name :: "bssinfo_env \<Rightarrow> wmi_t \<Rightarrow> WMI_BSS_INFO_HDR \<Rightarrow> bool" where
  "keeps_name env w bih \<longleftrightarrow> (is_probe_ssid env \<or> wmi_bssid w = bi_bssid bih) \<and>
     (bi_frameType bih = BEACON_FTYPE \<or> bi_frameType bih = PROBERESP_FTYPE)"

definition cached_ssid :: "ie_ptr \<Rightarrow> ieee80211_node_table \<Rightarrow> bytes option" where
  "cached_ssid name nt = (case name of
       None \<Rightarrow> Some []
     | Some p \<Rightarrow> do {
         l \<leftarrow> rd_ie p 1 nt;
         if unat l \<le> IEEE80211_NWID_LEN then do {
           c \<leftarrow> rd_ie p 2 nt;
           if c \<noteq> 0 \<and> l \<noteq> 0 then blk_ie p 2 (unat l) nt else Some []
         } else Some []
       })"

text \<open>Whether the name goes into the frame, for the length of the copy and for the copy itself.\<close>

definition grows :: "bytes \<Rightarrow> byte \<Rightarrow> bytes \<Rightarrow> bool option" where
  "grows cached bsl buf =
     (if cached = [] then Some False
      else if bsl = 0 then Some True
      else if length cached > unat bsl then map_option (\<lambda>x. x = 0) (at buf (SSID_IE_LEN_INDEX + 1))
      else Some False)"

definition hides :: "bytes \<Rightarrow> byte \<Rightarrow> bytes \<Rightarrow> bool option" where
  "hides cached bsl buf =
     (if cached = [] then Some False
      else if bsl = 0 then Some True
      else map_option (\<lambda>x. x = 0) (at buf (SSID_IE_LEN_INDEX + 1)))"

text \<open>The signal strength of the current station is kept, that of others averaged.\<close>

definition average_header :: "wmi_t \<Rightarrow> bss \<Rightarrow> WMI_BSS_INFO_HDR \<Rightarrow> WMI_BSS_INFO_HDR" where
  "average_header w bss bih = (let
     bih = (if wmi_bssid w = bi_bssid bih then bih\<lparr>bi_rssi := ni_rssi bss, bi_snr := ni_snr bss\<rparr> else bih)
   in bih\<lparr>bi_rssi := ave_rssi (ni_rssi bss) (bi_rssi bih), bi_snr := ave_snr (ni_snr bss) (bi_snr bih)\<rparr>)"

text \<open>The part of the handler for a node that was found.  \<open>Inl\<close> is a jump to the exit with a status, \<open>Inr\<close>
  hands on the name kept, the length of the name in the frame, and the new length.\<close>

definition bssinfo_known :: "bssinfo_env \<Rightarrow> WMI_BSS_INFO_HDR \<Rightarrow> bytes \<Rightarrow> nat \<Rightarrow> nat \<Rightarrow> wmi_t \<Rightarrow>
    ((A_STATUS + bytes \<times> byte \<times> nat) \<times> WMI_BSS_INFO_HDR \<times> ieee80211_node_table) option" where
  "bssinfo_known env bih buf len ni w = do {
     let nt = wmi_scan_table w;
     bss \<leftarrow> deref ni nt;
     cached \<leftarrow> (if keeps_name env w bih then cached_ssid (ie_ssid (ni_cie bss)) nt else Some []);
     let bih = average_header w bss bih;
     bsl \<leftarrow> at buf SSID_IE_LEN_INDEX;
     g \<leftarrow> grows cached bsl buf;
     let len = (if g then len + (length cached - unat bsl) else len);
     bad \<leftarrow> (if bi_frameType bih = PROBERESP_FTYPE
        then map_option (\<lambda>r. A_FAILED (fst r)) (wlan_parse_beacon 0 buf len zero_cie) else Some False);
     if bad then do {
       nt \<leftarrow> wlan_node_update_timestamp (env_now env) ni nt;
       Some (Inl A_OK, bih, nt)
     }
     else do {
       (st, nt) \<leftarrow> wlan_node_buf_update (env_now env) (env_buf_ok env) ni len nt;
       Some (if A_FAILED st then Inl A_NO_MEMORY else Inr (cached, bsl, len), bih, nt)
     }
   }"

subsection \<open>Filling the node\<close>

text \<open>The bytes behind the name: \<open>buf_len\<close> bytes from \<open>off\<close>; a negative number is a huge one for \<open>A_MEMCPY\<close>.\<close>

definition copy_rest :: "nat \<Rightarrow> nat \<Rightarrow> bytes \<Rightarrow> nat \<Rightarrow> int \<Rightarrow> ieee80211_node_table \<Rightarrow> ieee80211_node_table option" where
  "copy_rest u dst buf off buf_len nt =
     (if buf_len = 0 then Some nt
      else if buf_len < 0 then None
      else do { r \<leftarrow> blk off (nat buf_len) buf; store_buf u dst r nt })"

definition fill_frame :: "nat \<Rightarrow> bytes \<Rightarrow> nat \<Rightarrow> bytes \<Rightarrow> byte \<Rightarrow> ieee80211_node_table \<Rightarrow>
    ieee80211_node_table option" where
  "fill_frame u buf len cached bsl nt = do {
     h \<leftarrow> hides cached bsl buf;
     if h then do {
       hd \<leftarrow> blk 0 (SSID_IE_LEN_INDEX + 1) buf;
       nt \<leftarrow> store_buf u 0 hd nt;
       nt \<leftarrow> store_buf u SSID_IE_LEN_INDEX [word_of_nat (length cached)] nt;
       nt \<leftarrow> store_buf u (SSID_IE_LEN_INDEX + 1) cached nt;
       copy_rest u (SSID_IE_LEN_INDEX + 1 + length cached) buf (SSID_IE_LEN_INDEX + 1 + unat bsl)
         (int len - int (SSID_IE_LEN_INDEX + 1) - int (unat bsl) -
           (if length cached > unat bsl then int (length cached) - int (unat bsl) else 0)) nt
     }
     else if len = 0 then Some nt
     else do { f \<leftarrow> blk 0 len buf; store_buf u 0 f nt }
   }"

definition bssinfo_fill :: "WMI_BSS_INFO_HDR \<Rightarrow> bytes \<Rightarrow> nat \<Rightarrow> bytes \<Rightarrow> byte \<Rightarrow> nat \<Rightarrow> ieee80211_node_table \<Rightarrow>
    (A_STATUS \<times> ieee80211_node_table) option" where
  "bssinfo_fill bih buf len cached bsl ni nt = do {
     nt \<leftarrow> upd_node ni (\<lambda>b. b\<lparr>ni_frametype := bi_frameType bih, ni_snr := bi_snr bih, ni_rssi := bi_rssi bih\<rparr>) nt;
     bss \<leftarrow> deref ni nt;
     u \<leftarrow> ni_buf bss;
     nt \<leftarrow> fill_frame u buf len cached bsl nt;
     nt \<leftarrow> upd_node ni (\<lambda>b. b\<lparr>ni_framelen := len mod 65536\<rparr>) nt;
     (st, nt) \<leftarrow> (if bi_frameType bih = BEACON_FTYPE \<or> bi_frameType bih = PROBERESP_FTYPE then do {
         m \<leftarrow> bufs nt u;
         (st, cie) \<leftarrow> wlan_parse_beacon u m len (ni_cie bss);
         nt \<leftarrow> upd_node ni (\<lambda>b. b\<lparr>ni_cie := cie\<rparr>) nt;
         Some (st, nt)
       } else Some (A_OK, nt));
     if A_FAILED st then Some (A_EINVAL, nt)
     else do {
       nt \<leftarrow> upd_node ni (\<lambda>b. b\<lparr>ni_cie := (ni_cie b)\<lparr>ie_chan := bi_channel bih\<rparr>\<rparr>) nt;
       Some (A_OK, nt)
     }
   }"

subsection \<open>The handler\<close>

definition wmi_node_return :: "ptr \<Rightarrow> ieee80211_node_table \<Rightarrow> ieee80211_node_table option" where
  "wmi_node_return bss nt = (case bss of None \<Rightarrow> Some nt | Some ni \<Rightarrow> wlan_node_return ni nt)"

text \<open>The exit for a node that was in the table, and for a new one.\<close>

definition exit_known :: "A_STATUS \<Rightarrow> ptr \<Rightarrow> ieee80211_node_table \<Rightarrow> (A_STATUS \<times> ieee80211_node_table) option" where
  "exit_known st bss nt = map_option (Pair st) (wmi_node_return bss nt)"

definition exit_new :: "32 word \<Rightarrow> bytes \<Rightarrow> A_STATUS \<Rightarrow> nat \<Rightarrow> ieee80211_node_table \<Rightarrow>
    (A_STATUS \<times> ieee80211_node_table) option" where
  "exit_new now bssid st ni nt = map_option (Pair st)
     (if st = A_OK then wlan_setup_node now ni bssid nt else wlan_node_free ni nt)"

text \<open>From the decision to cache the frame on.\<close>

definition bssinfo_cache :: "bssinfo_env \<Rightarrow> WMI_BSS_INFO_HDR \<Rightarrow> bytes \<Rightarrow> nat \<Rightarrow> ptr \<Rightarrow> wmi_t \<Rightarrow>
    (A_STATUS \<times> WMI_BSS_INFO_HDR \<times> ieee80211_node_table) option" where
  "bssinfo_cache env bih buf len bss w = (case bss of
       Some ni \<Rightarrow> do {
         (r, bih, nt) \<leftarrow> bssinfo_known env bih buf len ni w;
         (st, nt) \<leftarrow> (case r of
             Inl st \<Rightarrow> Some (st, nt)
           | Inr (cached, bsl, len) \<Rightarrow> bssinfo_fill bih buf len cached bsl ni nt);
         (st, nt) \<leftarrow> exit_known st bss nt;
         Some (st, bih, nt)
       }
     | None \<Rightarrow> (case wlan_node_alloc (env_ni_ok env) (env_buf_ok env) len (wmi_scan_table w) of
           (None, nt) \<Rightarrow> Some (A_NO_MEMORY, bih, nt)
         | (Some ni, nt) \<Rightarrow> do {
             (st, nt) \<leftarrow> bssinfo_fill bih buf len [] 0 ni nt;
             (st, nt) \<leftarrow> exit_new (env_now env) (bi_bssid bih) st ni nt;
             Some (st, bih, nt)
           }))"

definition wmi_bssInfo_event_rx :: "bssinfo_env \<Rightarrow> WMI_BSS_INFO_HDR \<Rightarrow> bytes \<Rightarrow> nat \<Rightarrow> wmi_t \<Rightarrow>
    (A_STATUS \<times> WMI_BSS_INFO_HDR \<times> wmi_t) option" where
  "wmi_bssInfo_event_rx env bih buf len w =
     (if len \<le> WMI_BSS_INFO_HDR_size then Some (A_EINVAL, bih, w)
      else if bi_frameType bih = PROBEREQ_FTYPE \<and> env_probe_rx env then Some (A_OK, bih, w)
      else do {
        (bss, nt) \<leftarrow> wlan_find_node (bi_bssid bih) (wmi_scan_table w);
        let w = w\<lparr>wmi_scan_table := nt\<rparr>;
        if sint (bi_rssi bih) > 0 \<and> bss = None then Some (A_OK, bih, w)
        else do {
          bih \<leftarrow> (if sint (bi_rssi bih) > 0 then do {
              b \<leftarrow> Option.bind bss (\<lambda>ni. deref ni nt);
              Some (bih\<lparr>bi_rssi := ni_rssi b\<rparr>)
            } else Some bih);
          (st, bih, nt) \<leftarrow> (case env_caching env of
              None \<Rightarrow> map_option (\<lambda>(st, nt). (st, bih, nt)) (exit_known A_EINVAL bss nt)
            | Some False \<Rightarrow> map_option (\<lambda>(st, nt). (st, bih, nt)) (exit_known A_OK bss nt)
            | Some True \<Rightarrow>
                if wps_enable env \<and> bi_frameType bih = PROBERESP_FTYPE
                then map_option (\<lambda>(st, nt). (st, bih, nt)) (exit_known A_OK bss nt)
                else bssinfo_cache env bih buf (len - WMI_BSS_INFO_HDR_size) bss w);
          Some (st, bih, w\<lparr>wmi_scan_table := nt\<rparr>)
        }
      })"

subsection \<open>The event\<close>

text \<open>
  The target sends a shorter header without the signal strength in dBm, and a bit for each of the
  virtual devices the event is for.  \<open>wmi_control_rx\<close> rebuilds the long header in place, four bytes
  further to the front, and hands it to each device in turn.  \<open>datap\<close> is the event, \<open>wmi_list\<close> the
  devices, a null pointer where there is none.
\<close>

definition bss_info_hdr2 :: "bytes \<Rightarrow> WMI_BSS_INFO_HDR option" where
  "bss_info_hdr2 datap = do {
     h \<leftarrow> blk 0 12 datap;
     Some \<lparr>bi_channel = word_of_nat (le16 (h ! 0) (h ! 1)), bi_frameType = h ! 2, bi_snr = h ! 3,
       bi_rssi = ucast (h ! 3) - 95, bi_bssid = take 6 (drop 4 h), bi_ieMask = word_of_nat (le16 (h ! 10) (h ! 11))\<rparr>
   }"

function deliver_bssinfo :: "(nat \<Rightarrow> bssinfo_env) \<Rightarrow> nat \<Rightarrow> nat \<Rightarrow> bytes \<Rightarrow> nat \<Rightarrow> A_STATUS \<Rightarrow> WMI_BSS_INFO_HDR \<Rightarrow>
    wmi_t option list \<Rightarrow> (A_STATUS \<times> wmi_t option list) option" where
  "deliver_bssinfo env devBitMap dev_id buf len status bih wmi_list = do {
     (status, bih, wmi_list) \<leftarrow> (if odd devBitMap then do {
         p \<leftarrow> at wmi_list dev_id;
         w \<leftarrow> p;
         (status, bih, w) \<leftarrow> wmi_bssInfo_event_rx (env dev_id) bih buf len w;
         Some (status, bih, wmi_list[dev_id := Some w])
       } else Some (status, bih, wmi_list));
     if devBitMap div 2 \<noteq> 0
     then deliver_bssinfo env (devBitMap div 2) (dev_id + 1) buf len status bih wmi_list
     else Some (status, wmi_list)
   }"
  by pat_completeness auto
termination by (relation "measure (\<lambda>(env, devBitMap, dev_id, buf, len, status, bih, wmi_list). devBitMap)") auto

declare deliver_bssinfo.simps [simp del]

definition bssinfo_event :: "(nat \<Rightarrow> bssinfo_env) \<Rightarrow> bytes \<Rightarrow> wmi_t option list \<Rightarrow>
    (A_STATUS \<times> wmi_t option list) option" where
  "bssinfo_event env datap wmi_list = do {
     bih \<leftarrow> bss_info_hdr2 datap;
     deliver_bssinfo env (unat (bi_ieMask bih) div 4096) 0 (drop 12 datap) (length datap + 4) A_OK bih wmi_list
   }"

text \<open>The end of a scan ages the table.\<close>

definition wmi_scanComplete_rx :: "32 word \<Rightarrow> bytes \<Rightarrow> wmi_t \<Rightarrow> wmi_t option" where
  "wmi_scanComplete_rx now datap w = do {
     s \<leftarrow> LE_READ_4 datap 0;
     if s = 0 then map_option (\<lambda>nt. w\<lparr>wmi_scan_table := nt\<rparr>)
       (wlan_refresh_inactive_nodes now (wmi_bssid w) (wmi_scan_table w))
     else Some w
   }"

subsection \<open>Other users of the table\<close>

definition wmi_opt_frame_event_rx :: "bssinfo_env \<Rightarrow> bytes \<Rightarrow> nat \<Rightarrow> wmi_t \<Rightarrow> (A_STATUS \<times> wmi_t) option" where
  "wmi_opt_frame_event_rx env datap len w =
     (if len \<le> 16 then Some (A_EINVAL, w)
      else do {
        h \<leftarrow> blk 0 16 datap;
        let bssid = drop 10 h;
        let len = len - 16;
        (bss, nt) \<leftarrow> wlan_find_node bssid (wmi_scan_table w);
        nt \<leftarrow> (case bss of None \<Rightarrow> Some nt | Some ni \<Rightarrow> wlan_node_reclaim ni nt);
        (case wlan_node_alloc (env_ni_ok env) (env_buf_ok env) len nt of
           (None, nt) \<Rightarrow> Some (A_NO_MEMORY, w\<lparr>wmi_scan_table := nt\<rparr>)
         | (Some ni, nt) \<Rightarrow> do {
             nt \<leftarrow> upd_node ni (\<lambda>b. b\<lparr>ni_snr := h ! 3,
               ni_cie := (ni_cie b)\<lparr>ie_chan := word_of_nat (le16 (h ! 0) (h ! 1))\<rparr>\<rparr>) nt;
             bss \<leftarrow> deref ni nt;
             u \<leftarrow> ni_buf bss;
             f \<leftarrow> blk 16 len datap;
             nt \<leftarrow> store_buf u 0 f nt;
             nt \<leftarrow> wlan_setup_node (env_now env) ni bssid nt;
             Some (A_OK, w\<lparr>wmi_scan_table := nt\<rparr>)
           })
      })"

definition wmi_beacon2bssnode :: "bssinfo_env \<Rightarrow> bytes \<Rightarrow> nat \<Rightarrow> bytes \<Rightarrow> 16 word \<Rightarrow> wmi_t \<Rightarrow>
    (A_STATUS \<times> wmi_t) option" where
  "wmi_beacon2bssnode env datap len bssid channel w =
     (case wlan_node_alloc (env_ni_ok env) (env_buf_ok env) len (wmi_scan_table w) of
        (None, nt) \<Rightarrow> Some (A_NO_MEMORY, w\<lparr>wmi_scan_table := nt\<rparr>)
      | (Some ni, nt) \<Rightarrow> do {
          nt \<leftarrow> upd_node ni (\<lambda>b. b\<lparr>ni_snr := 95, ni_rssi := - 58\<rparr>) nt;
          bss \<leftarrow> deref ni nt;
          u \<leftarrow> ni_buf bss;
          f \<leftarrow> blk 0 len datap;
          nt \<leftarrow> store_buf u 0 f nt;
          nt \<leftarrow> upd_node ni (\<lambda>b. b\<lparr>ni_framelen := len mod 65536\<rparr>) nt;
          m \<leftarrow> bufs nt u;
          (st, cie) \<leftarrow> wlan_parse_beacon u m len (ni_cie bss);
          nt \<leftarrow> upd_node ni (\<lambda>b. b\<lparr>ni_cie := cie\<rparr>) nt;
          if A_FAILED st then do {
            nt \<leftarrow> wlan_node_free ni nt;
            Some (A_EINVAL, w\<lparr>wmi_scan_table := nt\<rparr>)
          }
          else do {
            nt \<leftarrow> upd_node ni (\<lambda>b. b\<lparr>ni_cie := (ni_cie b)\<lparr>ie_chan := channel\<rparr>\<rparr>) nt;
            nt \<leftarrow> wlan_setup_node (env_now env) ni bssid nt;
            Some (A_OK, w\<lparr>wmi_scan_table := nt\<rparr>)
          }
        })"

definition wmi_free_node :: "bytes \<Rightarrow> wmi_t \<Rightarrow> wmi_t option" where
  "wmi_free_node macaddr w = do {
     (ni, nt) \<leftarrow> wlan_find_node macaddr (wmi_scan_table w);
     nt \<leftarrow> (case ni of None \<Rightarrow> Some nt | Some a \<Rightarrow> wlan_node_reclaim a nt);
     Some (w\<lparr>wmi_scan_table := nt\<rparr>)
   }"

definition wmi_rm_current_bss :: "wmi_t \<Rightarrow> (ptr \<times> wmi_t) option" where
  "wmi_rm_current_bss w = do {
     (ni, nt) \<leftarrow> wlan_node_remove (wmi_bssid w) (wmi_scan_table w);
     Some (ni, w\<lparr>wmi_scan_table := nt\<rparr>)
   }"

definition wmi_add_current_bss :: "32 word \<Rightarrow> bytes \<Rightarrow> nat \<Rightarrow> wmi_t \<Rightarrow> wmi_t option" where
  "wmi_add_current_bss now bssid ni w =
     map_option (\<lambda>nt. w\<lparr>wmi_scan_table := nt\<rparr>) (wlan_setup_node now ni bssid (wmi_scan_table w))"

end
