(* ===== verification/BeaconProps.thy ===== *)
theory BeaconProps
  imports Beacon
begin

text \<open>
  What the parser of beacons does: on frames that are a sequence of complete elements it finds the
  elements the record is meant to point to, on any frame it accepts the pointers stay in the
  frame, and what it does on truncated frames.
\<close>

subsection \<open>Frames made of elements\<close>

type_synonym element = "byte \<times> bytes"

definition ie_bytes :: "element \<Rightarrow> bytes" where
  "ie_bytes x = fst x # word_of_nat (length (snd x)) # snd x"

definition encode :: "element list \<Rightarrow> bytes" where
  "encode es = concat (map ie_bytes es)"

fun located :: "nat \<Rightarrow> element list \<Rightarrow> (nat \<times> element) list" where
  "located off [] = []"
| "located off (x # xs) = (off, x) # located (off + length (snd x) + 2) xs"

definition oui :: "bytes \<Rightarrow> nat option" where
  "oui body = (if length body > 3 then Some (le32 (body ! 0) (body ! 1) (body ! 2) (body ! 3)) else None)"

definition vendor :: "nat \<Rightarrow> element \<Rightarrow> bool" where
  "vendor v x \<longleftrightarrow> fst x = ELEMID_VENDOR \<and> oui (snd x) = Some v"

abbreviation is_id :: "byte \<Rightarrow> element \<Rightarrow> bool" where "is_id e x \<equiv> fst x = e"

text \<open>A complete element, of a form the parser accepts.\<close>

definition proper :: "element \<Rightarrow> bool" where
  "proper x \<longleftrightarrow> (case x of (e, body) \<Rightarrow> length body < 256 \<and> (e = ELEMID_DSPARMS \<longrightarrow> body \<noteq> []) \<and>
     (e = ELEMID_ERP \<longrightarrow> length body = 1) \<and>
     (e = ELEMID_RSN \<longrightarrow> 8 \<le> length body \<and> le16 (body ! 6) (body ! 7) \<noteq> 0))"

definition applied :: "nat \<Rightarrow> nat \<Rightarrow> element \<Rightarrow> bool \<Rightarrow> ieee80211_common_ie \<Rightarrow> ieee80211_common_ie" where
  "applied buf off x seen cie = (let put = (\<lambda>P old. if P then Some (buf, off) else old) in cie\<lparr>
     ie_ssid := put (is_id ELEMID_SSID x \<and> \<not> seen) (ie_ssid cie),
     ie_rates := put (is_id ELEMID_RATES x) (ie_rates cie),
     ie_xrates := put (is_id ELEMID_XRATES x) (ie_xrates cie),
     ie_country := put (is_id ELEMID_COUNTRY x) (ie_country cie),
     ie_wpa := put (vendor 0x01f25000 x) (ie_wpa cie),
     ie_rsn := put (is_id ELEMID_RSN x) (ie_rsn cie),
     ie_wmm := put (vendor 0x02f25000 x) (ie_wmm cie),
     ie_ath := put (vendor 0x017f0300 x) (ie_ath cie),
     ie_tim := put (is_id ELEMID_TIM x) (ie_tim cie),
     ie_wsc := put (vendor 0x04f25000 x) (ie_wsc cie),
     ie_htcap := put (is_id ELEMID_HTCAP_ANA x) (ie_htcap cie),
     ie_htop := put (is_id ELEMID_HTINFO_ANA x) (ie_htop cie),
     ie_chan := (if is_id ELEMID_DSPARMS x then ucast (snd x ! 0) else ie_chan cie),
     ie_erp := (if is_id ELEMID_ERP x then snd x ! 0 else ie_erp cie)\<rparr>)"

fun applied_all :: "nat \<Rightarrow> (nat \<times> element) list \<Rightarrow> bool \<Rightarrow> ieee80211_common_ie \<Rightarrow> ieee80211_common_ie" where
  "applied_all buf [] seen cie = cie"
| "applied_all buf ((off, x) # xs) seen cie =
     applied_all buf xs (seen \<or> is_id ELEMID_SSID x) (applied buf off x seen cie)"

lemma length_ie_bytes [simp]: "length (ie_bytes x) = length (snd x) + 2"
  by (simp add: ie_bytes_def)

lemma encode_simps [simp]: "encode [] = []" "encode (x # xs) = ie_bytes x @ encode xs"
  by (simp_all add: encode_def)

lemma at_append [simp]: "at (pre @ xs) (length pre + i) = at xs i"
  by (simp add: at_def nth_append)

lemma at_element:
  assumes "m = pre @ ie_bytes (e, body) @ post" "length body < 256"
  shows "at m (length pre) = Some e" "at m (length pre + 1) = Some (word_of_nat (length body))"
    "unat (word_of_nat (length body) :: byte) = length body"
    "i < length body \<Longrightarrow> at m (length pre + (2 + i)) = Some (body ! i)"
proof -
  have m: "at m (length pre + j) = at (e # word_of_nat (length body) # body @ post) j" for j
    by (simp add: assms(1) ie_bytes_def)
  show "at m (length pre) = Some e" using m [of 0] by simp
  show "at m (length pre + 1) = Some (word_of_nat (length body))" using m [of 1] by simp
  show "unat (word_of_nat (length body) :: byte) = length body" using assms(2) by (simp add: unat_of_nat)
  show "at m (length pre + (2 + i)) = Some (body ! i)" if "i < length body"
    using m [of "2 + i"] that by (simp add: at_def nth_append)
qed

lemma is_oui_element:
  assumes "m = pre @ ie_bytes (e, body) @ post" "length body < 256"
  shows "is_oui v m (length pre) = Some (oui body = Some v)"
proof -
  have a: "at m (length pre + 2 + i) = Some (body ! i)" if "i < length body" for i
    using at_element(4) [OF assms that] by (simp add: add.assoc)
  have "(3 :: byte) < word_of_nat (length body) \<longleftrightarrow> 3 < length body"
    using assms(2) by (simp add: word_less_nat_alt unat_of_nat)
  moreover have "LE_READ_4 m (length pre + 2) = Some (le32 (body ! 0) (body ! 1) (body ! 2) (body ! 3))" if "3 < length body"
    using a [of 0] a [of 1] a [of 2] a [of 3] that by (cases "body = []") (simp_all add: LE_READ_4_def)
  ultimately show ?thesis using at_element(2) [OF assms] by (simp add: is_oui_def oui_def)
qed

lemma parse_element_proper:
  assumes "m = pre @ ie_bytes x @ post" "proper x"
  shows "parse_element buf m (length pre) (cie, seen) =
    Some (Some (applied buf (length pre) x seen cie, seen \<or> is_id ELEMID_SSID x))"
proof -
  obtain e body where x: "x = (e, body)" by fastforce
  have l: "length body < 256" using assms(2) x by (simp add: proper_def)
  note a = at_element [OF assms(1) [unfolded x] l] and ou = is_oui_element [OF assms(1) [unfolded x] l]
  have vend: "parse_vendor buf m (length pre) cie = Some (applied buf (length pre) x seen cie)" if "e = ELEMID_VENDOR"
    using that by (cases cie) (simp add: parse_vendor_def iswpaoui_def iswmmoui_def isatherosoui_def iswscoui_def ou applied_def
      vendor_def x Let_def)
  have at2: "at m (length pre + 2) = Some (body ! 0)" if "body \<noteq> []" using a(4) [of 0] that by simp
  have at8: "LE_READ_2 m (length pre + 8) = Some (le16 (body ! 6) (body ! 7))" if "8 \<le> length body"
    using a(4) [of 6] a(4) [of 7] that by (simp add: LE_READ_2_def add.commute)
  consider "e \<in> {ELEMID_SSID, ELEMID_RATES, ELEMID_COUNTRY, ELEMID_TIM, ELEMID_XRATES, ELEMID_HTCAP_ANA, ELEMID_HTINFO_ANA}"
    | "e = ELEMID_DSPARMS" | "e = ELEMID_ERP" | "e = ELEMID_RSN" | "e = ELEMID_VENDOR"
    | "e \<notin> {ELEMID_SSID, ELEMID_RATES, ELEMID_COUNTRY, ELEMID_TIM, ELEMID_XRATES, ELEMID_HTCAP_ANA, ELEMID_HTINFO_ANA,
        ELEMID_DSPARMS, ELEMID_ERP, ELEMID_RSN, ELEMID_VENDOR}" by blast
  then show ?thesis
  proof cases
    case 1
    then show ?thesis using a(1) by (cases cie) (auto simp: parse_element_def x applied_def vendor_def)
  next
    case 2
    then show ?thesis using a(1) at2 assms(2) by (cases cie) (simp add: parse_element_def x applied_def vendor_def proper_def)
  next
    case 3
    then have "length body = 1" "body \<noteq> []" using assms(2) x by (auto simp: proper_def)
    then have "at m (length pre + 1) = Some 1" "at m (length pre + 2) = Some (body ! 0)" using a(2) at2 by auto
    then show ?thesis using a(1) 3 by (cases cie) (simp add: parse_element_def x applied_def vendor_def)
  next
    case 4
    then have r: "8 \<le> length body" "le16 (body ! 6) (body ! 7) \<noteq> 0" using assms(2) x by (simp_all add: proper_def)
    then have "\<not> (word_of_nat (length body) :: byte) < 8" using l by (simp add: word_less_nat_alt unat_of_nat)
    then show ?thesis using a(1,2) at8 [OF r(1)] r(2) 4
      by (cases cie) (simp add: parse_element_def x applied_def vendor_def)
  next
    case 5
    then show ?thesis using a(1) vend by (simp add: parse_element_def x)
  next
    case 6
    then show ?thesis using a(1) by (cases cie) (simp add: parse_element_def x applied_def vendor_def)
  qed
qed

lemma parse_elements_end: "efrm \<le> frm \<Longrightarrow> parse_elements buf m efrm frm s = Some (A_OK, fst s)"
  by (simp add: parse_elements.simps)

lemma parse_elements_prefix:
  assumes "\<forall>x \<in> set es. proper x" "m = pre @ encode es @ post" "length pre + length (encode es) \<le> efrm"
  shows "parse_elements buf m efrm (length pre) (cie, seen) =
    parse_elements buf m efrm (length pre + length (encode es))
      (applied_all buf (located (length pre) es) seen cie, seen \<or> (\<exists>x \<in> set es. is_id ELEMID_SSID x))"
  using assms
proof (induction es arbitrary: pre cie seen)
  case (Cons x es)
  obtain e body where x: "x = (e, body)" by fastforce
  have p: "proper x" "length body < 256" using Cons.prems(1) x by (auto simp: proper_def)
  have m: "m = pre @ ie_bytes x @ (encode es @ post)" "m = (pre @ ie_bytes x) @ encode es @ post"
    using Cons.prems(2) by simp_all
  note a = at_element(2,3) [OF m(1) [unfolded x] p(2)]
  have n: "length pre + (length body + 2) = length (pre @ ie_bytes x)" by (simp add: x)
  have "parse_elements buf m efrm (length (pre @ ie_bytes x))
      (applied buf (length pre) x seen cie, seen \<or> is_id ELEMID_SSID x) =
      parse_elements buf m efrm (length (pre @ ie_bytes x) + length (encode es))
        (applied_all buf (located (length (pre @ ie_bytes x)) es) (seen \<or> is_id ELEMID_SSID x)
          (applied buf (length pre) x seen cie), (seen \<or> is_id ELEMID_SSID x) \<or> (\<exists>x \<in> set es. is_id ELEMID_SSID x))"
    by (rule Cons.IH [OF _ m(2)]) (use Cons.prems(1,3) in simp_all)
  moreover have "length pre < efrm" using Cons.prems(3) by simp
  ultimately show ?case
    unfolding parse_elements.simps [of _ _ _ "length pre"]
    using parse_element_proper [OF m(1) p(1)] a by (simp add: x n add.assoc)
qed simp

subsection \<open>The elements found\<close>

lemma find_rev_Cons: "find P (rev (x # xs)) = (case find P (rev xs) of None \<Rightarrow> (if P x then Some x else None) | Some y \<Rightarrow> Some y)"
proof -
  have "find P (ys @ [x]) = (case find P ys of None \<Rightarrow> (if P x then Some x else None) | Some y \<Rightarrow> Some y)" for ys
    by (induction ys) auto
  then show ?thesis by simp
qed

text \<open>A field that the elements with property \<open>P\<close> set points to the last of them.\<close>

definition last_ie :: "nat \<Rightarrow> (element \<Rightarrow> bool) \<Rightarrow> element list \<Rightarrow> ie_ptr" where
  "last_ie buf P es = map_option (\<lambda>x. (buf, fst x)) (find (\<lambda>x. P (snd x)) (rev (located 12 es)))"

definition first_ie :: "nat \<Rightarrow> (element \<Rightarrow> bool) \<Rightarrow> element list \<Rightarrow> ie_ptr" where
  "first_ie buf P es = map_option (\<lambda>x. (buf, fst x)) (find (\<lambda>x. P (snd x)) (located 12 es))"

lemma applied_all_field:
  assumes "\<And>off x seen cie. get (applied buf off x seen cie) = (if P x then Some (buf, off) else get cie)"
  shows "get (applied_all buf xs seen cie) =
    (case find (\<lambda>x. P (snd x)) (rev xs) of None \<Rightarrow> get cie | Some x \<Rightarrow> Some (buf, fst x))"
proof (induction xs arbitrary: seen cie)
  case (Cons y ys)
  obtain off x where y: "y = (off, x)" by (rule prod.exhaust)
  show ?case
    unfolding find_rev_Cons y applied_all.simps Cons.IH by (simp add: assms split: option.split)
qed simp

lemma applied_fields:
  "ie_rates (applied buf off x seen cie) = (if is_id ELEMID_RATES x then Some (buf, off) else ie_rates cie)"
  "ie_xrates (applied buf off x seen cie) = (if is_id ELEMID_XRATES x then Some (buf, off) else ie_xrates cie)"
  "ie_country (applied buf off x seen cie) = (if is_id ELEMID_COUNTRY x then Some (buf, off) else ie_country cie)"
  "ie_wpa (applied buf off x seen cie) = (if vendor 0x01f25000 x then Some (buf, off) else ie_wpa cie)"
  "ie_rsn (applied buf off x seen cie) = (if is_id ELEMID_RSN x then Some (buf, off) else ie_rsn cie)"
  "ie_wmm (applied buf off x seen cie) = (if vendor 0x02f25000 x then Some (buf, off) else ie_wmm cie)"
  "ie_ath (applied buf off x seen cie) = (if vendor 0x017f0300 x then Some (buf, off) else ie_ath cie)"
  "ie_tim (applied buf off x seen cie) = (if is_id ELEMID_TIM x then Some (buf, off) else ie_tim cie)"
  "ie_wsc (applied buf off x seen cie) = (if vendor 0x04f25000 x then Some (buf, off) else ie_wsc cie)"
  "ie_htcap (applied buf off x seen cie) = (if is_id ELEMID_HTCAP_ANA x then Some (buf, off) else ie_htcap cie)"
  "ie_htop (applied buf off x seen cie) = (if is_id ELEMID_HTINFO_ANA x then Some (buf, off) else ie_htop cie)"
  "ie_ssid (applied buf off x seen cie) = (if is_id ELEMID_SSID x \<and> \<not> seen then Some (buf, off) else ie_ssid cie)"
  "ie_capInfo (applied buf off x seen cie) = ie_capInfo cie" "ie_beaconInt (applied buf off x seen cie) = ie_beaconInt cie"
  by (simp_all add: applied_def Let_def)

lemma applied_all_ssid:
  "ie_ssid (applied_all buf xs seen cie) =
    (case find (\<lambda>x. is_id ELEMID_SSID (snd x) \<and> \<not> seen) xs of None \<Rightarrow> ie_ssid cie | Some x \<Rightarrow> Some (buf, fst x))"
proof (induction xs arbitrary: seen cie)
  case (Cons y ys)
  obtain off x where y: "y = (off, x)" by (rule prod.exhaust)
  have "find (\<lambda>_. False) zs = None" for zs :: "(nat \<times> element) list" by (induction zs) auto
  then show ?case
    unfolding y applied_all.simps Cons.IH by (auto simp: applied_fields split: option.split)
qed simp

lemma applied_all_fixed:
  "ie_capInfo (applied_all buf xs seen cie) = ie_capInfo cie" "ie_beaconInt (applied_all buf xs seen cie) = ie_beaconInt cie"
  by (induction xs arbitrary: seen cie) (auto simp: applied_fields)

text \<open>A located element can be read where it is.\<close>

lemma located_read:
  "(off, x) \<in> set (located n es) \<Longrightarrow> n = length pre \<Longrightarrow> \<forall>x \<in> set es. proper x \<Longrightarrow> x \<in> set es \<and>
     at (pre @ encode es @ post) (off + 1) = Some (word_of_nat (length (snd x))) \<and>
     blk off (length (snd x) + 2) (pre @ encode es @ post) = Some (ie_bytes x)"
proof (induction es arbitrary: n pre)
  case (Cons y ys)
  have l: "length (snd y) < 256" using Cons.prems(3) by (auto simp: proper_def split: prod.splits)
  show ?case
  proof (cases "(off, x) = (n, y)")
    case True
    then show ?thesis
      using at_element(2) [of "pre @ ie_bytes y @ (encode ys @ post)" pre "fst y" "snd y" "encode ys @ post"] l Cons.prems(2)
      by (simp add: blk_def)
  next
    case False
    then have "(off, x) \<in> set (located (n + length (snd y) + 2) ys)" using Cons.prems(1) by auto
    from Cons.IH [OF this, of "pre @ ie_bytes y"] Cons.prems(2,3) show ?thesis by auto
  qed
qed simp

lemma find_in:
  assumes "snd ` set xs = set es" "\<exists>x \<in> set es. P x"
  obtains off x where "find (\<lambda>x. P (snd x)) xs = Some (off, x)" "(off, x) \<in> set xs" "P x"
proof -
  obtain x where "x \<in> set es" "P x" using assms(2) by blast
  then obtain y where "y \<in> set xs" "P (snd y)" using assms(1) by (metis imageE)
  then obtain z where z: "find (\<lambda>x. P (snd x)) xs = Some z" by (meson find_None_iff not_Some_eq)
  then have "z \<in> set xs" "P (snd z)" unfolding find_Some_iff by (metis nth_mem)+
  then show thesis using that [of "fst z" "snd z"] z by simp
qed

lemma located_elements: "snd ` set (located n es) = set es" "snd ` set (rev (located n es)) = set es"
  by (induction es arbitrary: n) (auto simp: image_iff)

text \<open>The fixed part.\<close>

definition fixed_part :: "nat \<Rightarrow> bytes \<Rightarrow> ieee80211_common_ie" where
  "fixed_part buf hdr = zero_cie\<lparr>ie_tstamp := Some (buf, 0), ie_beaconInt := word_of_nat (le16 (hdr ! 8) (hdr ! 9)),
     ie_capInfo := word_of_nat (le16 (hdr ! 10) (hdr ! 11))\<rparr>"

lemma parse_beacon_fixed:
  assumes "length hdr = 12" "m = hdr @ rest" "12 \<le> n"
  shows "wlan_parse_beacon buf m n cie = do {
        (st, cie) \<leftarrow> parse_elements buf m n 12 (fixed_part buf hdr, False);
        if A_FAILED st then Some (st, cie)
        else do {
          ok \<leftarrow> verify_element m (ie_rates cie) IEEE80211_RATE_MAXSIZE;
          if \<not> ok then Some (A_EINVAL, cie)
          else do {
            ok \<leftarrow> verify_element m (ie_ssid cie) IEEE80211_NWID_LEN;
            Some (if ok then A_OK else A_EINVAL, cie)
          }
        }
      }"
proof -
  have "LE_READ_2 m 8 = Some (le16 (hdr ! 8) (hdr ! 9))" "LE_READ_2 m 10 = Some (le16 (hdr ! 10) (hdr ! 11))"
    using assms(1,2) by (simp_all add: LE_READ_2_def at_def nth_append)
  moreover have "zero_cie\<lparr>ie_tstamp := Some (buf, 0), ie_beaconInt := x, ie_capInfo := y, ie_chan := 0\<rparr> =
      zero_cie\<lparr>ie_tstamp := Some (buf, 0), ie_beaconInt := x, ie_capInfo := y\<rparr>" for x y
    by (simp add: zero_cie_def)
  ultimately show ?thesis
    using assms(3) by (simp add: wlan_parse_beacon_def fixed_part_def)
qed

lemma parse_element_cut: "at m (frm + 1) = None \<Longrightarrow> parse_element buf m frm s \<noteq> Some None"
  by (cases s) (simp add: parse_element_def Let_def Option.bind_eq_Some_conv)

lemma rates_verified:
  assumes "\<forall>x \<in> set es. proper x" "length hdr = 12" "\<exists>x \<in> set es. is_id ELEMID_RATES x"
    "\<forall>x \<in> set es. is_id ELEMID_RATES x \<longrightarrow> length (snd x) \<le> 15"
  shows "verify_element (hdr @ encode es @ post) (last_ie buf (is_id ELEMID_RATES) es) 15 = Some True"
proof -
  obtain off x where x: "find (\<lambda>x. is_id ELEMID_RATES (snd x)) (rev (located 12 es)) = Some (off, x)" "(off, x) \<in> set (located 12 es)"
    "is_id ELEMID_RATES x" by (rule find_in [OF located_elements(2) [of 12] assms(3)]) auto
  have "x \<in> set es \<and> at (hdr @ encode es @ post) (off + 1) = Some (word_of_nat (length (snd x)))"
    using located_read [OF x(2), of hdr post] assms(1,2) by simp
  moreover have "unat (word_of_nat (length (snd x)) :: byte) \<le> length (snd x)" by (simp add: unat_of_nat)
  ultimately show ?thesis using x(1,3) assms(4) by (fastforce simp: last_ie_def verify_element_def)
qed

text \<open>A frame with everything the parser asks for, and the record it leaves.\<close>

definition good_frame :: "bytes \<Rightarrow> element list \<Rightarrow> bool" where
  "good_frame hdr es \<longleftrightarrow> length hdr = 12 \<and> (\<forall>x \<in> set es. proper x) \<and> (\<exists>x \<in> set es. is_id ELEMID_SSID x) \<and>
     (\<exists>x \<in> set es. is_id ELEMID_RATES x) \<and>
     (\<forall>x \<in> set es. (is_id ELEMID_SSID x \<longrightarrow> length (snd x) \<le> 32) \<and> (is_id ELEMID_RATES x \<longrightarrow> length (snd x) \<le> 15))"

definition parsed :: "nat \<Rightarrow> bytes \<Rightarrow> element list \<Rightarrow> ieee80211_common_ie" where
  "parsed buf hdr es = applied_all buf (located 12 es) False (fixed_part buf hdr)"

lemma fixed_part_fields [simp]:
  "ie_rates (fixed_part buf hdr) = None" "ie_xrates (fixed_part buf hdr) = None" "ie_country (fixed_part buf hdr) = None"
  "ie_wpa (fixed_part buf hdr) = None" "ie_rsn (fixed_part buf hdr) = None" "ie_wmm (fixed_part buf hdr) = None"
  "ie_ath (fixed_part buf hdr) = None" "ie_tim (fixed_part buf hdr) = None" "ie_wsc (fixed_part buf hdr) = None"
  "ie_htcap (fixed_part buf hdr) = None" "ie_htop (fixed_part buf hdr) = None" "ie_ssid (fixed_part buf hdr) = None"
  by (simp_all add: fixed_part_def zero_cie_def)

lemma parsed_field:
  assumes "\<And>off x seen cie. get (applied buf off x seen cie) = (if P x then Some (buf, off) else get cie)"
    and "get (fixed_part buf hdr) = None"
  shows "get (parsed buf hdr es) = last_ie buf P es"
  unfolding parsed_def applied_all_field [of _ buf, OF assms(1)] last_ie_def assms(2) by (simp split: option.split)

lemma parsed_fields:
  "ie_rates (parsed buf hdr es) = last_ie buf (is_id ELEMID_RATES) es"
  "ie_xrates (parsed buf hdr es) = last_ie buf (is_id ELEMID_XRATES) es"
  "ie_country (parsed buf hdr es) = last_ie buf (is_id ELEMID_COUNTRY) es"
  "ie_wpa (parsed buf hdr es) = last_ie buf (vendor 0x01f25000) es"
  "ie_rsn (parsed buf hdr es) = last_ie buf (is_id ELEMID_RSN) es"
  "ie_wmm (parsed buf hdr es) = last_ie buf (vendor 0x02f25000) es"
  "ie_ath (parsed buf hdr es) = last_ie buf (vendor 0x017f0300) es"
  "ie_tim (parsed buf hdr es) = last_ie buf (is_id ELEMID_TIM) es"
  "ie_wsc (parsed buf hdr es) = last_ie buf (vendor 0x04f25000) es"
  "ie_htcap (parsed buf hdr es) = last_ie buf (is_id ELEMID_HTCAP_ANA) es"
  "ie_htop (parsed buf hdr es) = last_ie buf (is_id ELEMID_HTINFO_ANA) es"
  by (rule parsed_field, rule applied_fields, simp)+

lemma parsed_ssid: "ie_ssid (parsed buf hdr es) = first_ie buf (is_id ELEMID_SSID) es"
  unfolding parsed_def applied_all_ssid first_ie_def by (simp split: option.split)

lemma parse_good_frame:
  assumes "good_frame hdr es" "m = hdr @ encode es"
  shows "wlan_parse_beacon buf m (length m) cie = Some (A_OK, parsed buf hdr es)"
proof -
  let ?c = "parsed buf hdr es"
  have g: "length hdr = 12" "\<forall>x \<in> set es. proper x" "\<exists>x \<in> set es. is_id ELEMID_SSID x" "\<exists>x \<in> set es. is_id ELEMID_RATES x"
    "\<forall>x \<in> set es. is_id ELEMID_SSID x \<longrightarrow> length (snd x) \<le> 32" "\<forall>x \<in> set es. is_id ELEMID_RATES x \<longrightarrow> length (snd x) \<le> 15"
    using assms(1) unfolding good_frame_def by blast+
  obtain off x where x: "find (\<lambda>x. is_id ELEMID_SSID (snd x)) (located 12 es) = Some (off, x)" "(off, x) \<in> set (located 12 es)"
    "is_id ELEMID_SSID x" by (rule find_in [OF located_elements(1) g(3)])
  have small: "unat (word_of_nat k :: byte) = k" if "k \<le> 32" for k using that by (simp add: unat_of_nat)
  have v1: "verify_element m (ie_ssid ?c) 32 = Some True"
    using located_read [OF x(2), of hdr "[]"] g(1,2,5) x(1,3) assms(2) small
    by (auto simp: parsed_ssid first_ie_def verify_element_def)
  have v2: "verify_element m (ie_rates ?c) 15 = Some True"
    using rates_verified [OF g(2,1,4,6), of "[]" buf] assms(2) by (simp add: parsed_fields)
  have "parse_elements buf m (length m) 12 (fixed_part buf hdr, False) = Some (A_OK, ?c)"
    using parse_elements_prefix [OF g(2), of m hdr "[]" "length m" buf "fixed_part buf hdr" False] g(1) assms(2)
    by (simp add: parsed_def parse_elements_end)
  then show ?thesis
    using parse_beacon_fixed [OF g(1) assms(2), of "length m" buf cie] v1 v2 g(1) assms(2) by simp
qed

subsection \<open>Bounds\<close>

definition ie_pointers :: "ieee80211_common_ie \<Rightarrow> ie_ptr list" where
  "ie_pointers c = [ie_tstamp c, ie_ssid c, ie_rates c, ie_xrates c, ie_country c, ie_wpa c, ie_rsn c, ie_wmm c, ie_ath c,
     ie_tim c, ie_wsc c, ie_htcap c, ie_htop c]"

definition inside :: "nat \<Rightarrow> nat \<Rightarrow> ieee80211_common_ie \<Rightarrow> bool" where
  "inside buf n c \<longleftrightarrow> (\<forall>p \<in> set (ie_pointers c). p = None \<or> (\<exists>off<n. p = Some (buf, off)))"

lemma inside_set:
  assumes "inside buf n c" "frm < n"
  shows "inside buf n (c\<lparr>ie_ssid := Some (buf, frm)\<rparr>)"
    "inside buf n (c\<lparr>ie_rates := Some (buf, frm)\<rparr>)"
    "inside buf n (c\<lparr>ie_xrates := Some (buf, frm)\<rparr>)"
    "inside buf n (c\<lparr>ie_country := Some (buf, frm)\<rparr>)"
    "inside buf n (c\<lparr>ie_wpa := Some (buf, frm)\<rparr>)"
    "inside buf n (c\<lparr>ie_rsn := Some (buf, frm)\<rparr>)"
    "inside buf n (c\<lparr>ie_wmm := Some (buf, frm)\<rparr>)"
    "inside buf n (c\<lparr>ie_ath := Some (buf, frm)\<rparr>)"
    "inside buf n (c\<lparr>ie_tim := Some (buf, frm)\<rparr>)"
    "inside buf n (c\<lparr>ie_wsc := Some (buf, frm)\<rparr>)"
    "inside buf n (c\<lparr>ie_htcap := Some (buf, frm)\<rparr>)"
    "inside buf n (c\<lparr>ie_htop := Some (buf, frm)\<rparr>)"
    "inside buf n (c\<lparr>ie_chan := ch\<rparr>)" "inside buf n (c\<lparr>ie_erp := er\<rparr>)"
  using assms by (simp_all add: inside_def ie_pointers_def)

named_theorems reads \<open>reads that stay in the memory\<close>

lemma at_reads [reads]: "j < length m \<Longrightarrow> \<exists>v. at m j = Some v"
  by simp

lemma LE_READ_2_reads [reads]: "j + 1 < length m \<Longrightarrow> \<exists>v. LE_READ_2 m j = Some v"
  by (simp add: LE_READ_2_def)

lemma is_oui_reads [reads]: "j + 5 < length m \<Longrightarrow> \<exists>v. is_oui w m j = Some v"
  by (cases "3 < m ! Suc j") (auto simp: is_oui_def LE_READ_4_def)

lemma parse_vendor_inside:
  assumes "frm + 9 < length m" "inside buf n c" "frm < n"
  shows "\<exists>c'. parse_vendor buf m frm c = Some c' \<and> inside buf n c'"
proof -
  have "\<exists>v. is_oui w m frm = Some v" for w using assms(1) by (simp add: reads)
  from this [of "0x01f25000"] this [of "0x02f25000"] this [of "0x017f0300"] this [of "0x04f25000"] assms(2,3) show ?thesis
    by (auto simp: parse_vendor_def iswpaoui_def iswmmoui_def isatherosoui_def iswscoui_def inside_set)
qed

lemma parse_element_inside:
  assumes "frm + 9 < length m" "inside buf n c" "frm < n"
  shows "\<exists>r. parse_element buf m frm (c, seen) = Some r \<and> (\<forall>c' seen'. r = Some (c', seen') \<longrightarrow> inside buf n c')"
proof -
  have "\<exists>v. at m (frm + 2) = Some v" "\<exists>v. LE_READ_2 m (frm + 8) = Some v" "\<exists>v. at m (frm + 1) = Some v" "\<exists>v. at m frm = Some v"
    using assms(1) by (simp_all add: reads)
  then obtain v2 v8 v1 v0 where "at m (frm + 2) = Some v2" "LE_READ_2 m (frm + 8) = Some v8" "at m (frm + 1) = Some v1"
    "at m frm = Some v0" by blast
  moreover obtain d where "parse_vendor buf m frm c = Some d" "inside buf n d" using parse_vendor_inside [OF assms] by blast
  ultimately show ?thesis
    using assms(2,3) by (simp add: parse_element_def Let_def inside_set cong: if_cong)
qed

lemma parse_elements_inside:
  "n + 8 < length m \<Longrightarrow> inside buf n (fst s) \<Longrightarrow> \<exists>st c. parse_elements buf m n frm s = Some (st, c) \<and> inside buf n c"
proof (induction buf m n frm s rule: parse_elements.induct)
  case (1 buf m n frm s)
  obtain c seen where s: "s = (c, seen)" by fastforce
  show ?case
  proof (cases "frm < n")
    case True
    then have l: "frm + 9 < length m" using 1(2) by simp
    obtain r where r: "parse_element buf m frm s = Some r" "\<And>c' seen'. r = Some (c', seen') \<Longrightarrow> inside buf n c'"
      using parse_element_inside [OF l _ True, of buf c seen] 1(3) s by auto
    show ?thesis
    proof (cases r)
      case None
      then show ?thesis using 1(3) True r(1) by (simp add: parse_elements.simps [of _ _ _ frm])
    next
      case (Some s')
      obtain c' seen' where s': "s' = (c', seen')" by fastforce
      obtain k where k: "at m (frm + 1) = Some k" using l by fastforce
      have "\<exists>st c. parse_elements buf m n (frm + unat k + 2) s' = Some (st, c) \<and> inside buf n c"
        using 1(1) [OF True r(1) Some k] 1(2) r(2) Some s' by simp
      then show ?thesis using True r(1) k Some by (simp add: parse_elements.simps [of _ _ _ frm])
    qed
  qed (use 1(3) in \<open>simp add: parse_elements.simps [of _ _ _ frm]\<close>)
qed

subsection \<open>Properties\<close>

text \<open>C23: Parsing recovers the elements of a frame.  A frame that is a fixed part and a sequence of
  complete elements, among them network names of at most 32 bytes and rates of at most 15, is accepted; the
  record points to the first network name and to the last element of every other kind, and what
  stands there is that element.\<close>

theorem beacon_elements_found:
  assumes "good_frame hdr es" and "m = hdr @ encode es"
  shows "\<exists>c. wlan_parse_beacon buf m (length m) cie = Some (A_OK, c) \<and>
    ie_ssid c = first_ie buf (is_id ELEMID_SSID) es \<and> ie_rates c = last_ie buf (is_id ELEMID_RATES) es \<and>
    ie_xrates c = last_ie buf (is_id ELEMID_XRATES) es \<and> ie_country c = last_ie buf (is_id ELEMID_COUNTRY) es \<and>
    ie_rsn c = last_ie buf (is_id ELEMID_RSN) es \<and> ie_wpa c = last_ie buf (vendor 0x01f25000) es \<and>
    ie_wmm c = last_ie buf (vendor 0x02f25000) es \<and> ie_ath c = last_ie buf (vendor 0x017f0300) es \<and>
    ie_wsc c = last_ie buf (vendor 0x04f25000) es \<and> ie_tim c = last_ie buf (is_id ELEMID_TIM) es \<and>
    ie_htcap c = last_ie buf (is_id ELEMID_HTCAP_ANA) es \<and> ie_htop c = last_ie buf (is_id ELEMID_HTINFO_ANA) es \<and>
    ie_capInfo c = word_of_nat (le16 (hdr ! 10) (hdr ! 11)) \<and>
    (\<forall>(off, x) \<in> set (located 12 es). x \<in> set es \<and> blk off (length (snd x) + 2) m = Some (ie_bytes x))"
proof -
  have "x \<in> set es \<and> blk off (length (snd x) + 2) m = Some (ie_bytes x)" if "(off, x) \<in> set (located 12 es)" for off x
    using located_read [OF that, of hdr "[]"] assms by (simp add: good_frame_def)
  then show ?thesis
    using parse_good_frame [OF assms] parsed_fields parsed_ssid
    by (intro exI [of _ "parsed buf hdr es"]) (auto simp: parsed_def applied_all_fixed fixed_part_def)
qed

text \<open>C26: The parser reads at most nine bytes behind the frame.  Where so many bytes of memory follow
  it the parser never faults, whatever the frame is, and each pointer it leaves is null or the
  address of a byte of the frame; when it accepts the frame, a network name and rates were found,
  and their lengths fit the arrays they are copied to later.\<close>

theorem beacon_pointers_in_frame:
  assumes "n + 9 \<le> length m" and "12 \<le> n"
  shows "\<exists>st c. wlan_parse_beacon buf m n cie = Some (st, c) \<and> inside buf n c \<and>
    (st = A_OK \<longrightarrow> (\<exists>s r. ie_ssid c = Some (buf, s) \<and> ie_rates c = Some (buf, r) \<and> s < n \<and> r < n \<and>
       unat (m ! (s + 1)) \<le> 32 \<and> unat (m ! (r + 1)) \<le> 15))"
proof -
  have m: "m = take 12 m @ drop 12 m" "length (take 12 m) = 12" using assms by simp_all
  have "inside buf n (fixed_part buf (take 12 m))"
    using assms(2) by (simp add: inside_def ie_pointers_def fixed_part_def zero_cie_def)
  then obtain st c where c: "parse_elements buf m n 12 (fixed_part buf (take 12 m), False) = Some (st, c)" "inside buf n c"
    using parse_elements_inside [of n m buf "(fixed_part buf (take 12 m), False)" 12] assms(1) by auto
  have len: "\<And>off. off < n \<Longrightarrow> at m (off + 1) = Some (m ! (off + 1))" using assms(1) by simp
  have in_c: "ie_rates c = None \<or> (\<exists>r<n. ie_rates c = Some (buf, r))" "ie_ssid c = None \<or> (\<exists>s<n. ie_ssid c = Some (buf, s))"
    using c(2) by (simp_all add: inside_def ie_pointers_def)
  note pb = parse_beacon_fixed [OF m(2,1) assms(2), of buf cie, unfolded c(1)]
  consider "st \<noteq> A_OK" | "ie_rates c = None" "st = A_OK"
    | r where "ie_rates c = Some (buf, r)" "r < n" "ie_ssid c = None" "st = A_OK"
    | r s where "ie_rates c = Some (buf, r)" "r < n" "ie_ssid c = Some (buf, s)" "s < n" "st = A_OK"
    using in_c by metis
  then show ?thesis
  proof cases
    case 4
    then show ?thesis using c(2) unfolding pb by (simp add: verify_element_def len del: One_nat_def)
  next
    case 3
    then show ?thesis using c(2) unfolding pb by (simp add: verify_element_def len del: One_nat_def)
  qed (use c(2) in \<open>simp_all add: pb verify_element_def\<close>)
qed

text \<open>The parser does not check that an element ends in the frame.  A frame that breaks off after
  an element id makes it read outside the frame.  A frame that breaks off after the length of its
  network name is accepted; the name lies outside, so comparing it with a name that is looked for
  reads outside the frame then.\<close>

theorem beacon_truncated:
  assumes "length hdr = 12" and "\<forall>x \<in> set es. proper x \<and> \<not> is_id ELEMID_SSID x"
    and "\<exists>x \<in> set es. is_id ELEMID_RATES x" and "\<forall>x \<in> set es. is_id ELEMID_RATES x \<longrightarrow> length (snd x) \<le> 15"
    and "0 < k" and "k \<le> 32" and "m = hdr @ encode es @ [ELEMID_SSID, word_of_nat k]" and "bufs nt buf = Some m"
    and "ssid \<noteq> []"
  shows "wlan_parse_beacon buf (hdr @ encode es @ [e]) (length (hdr @ encode es @ [e])) cie = None \<and>
    (\<exists>c. wlan_parse_beacon buf m (length m) cie = Some (A_OK, c) \<and> ie_ssid c = Some (buf, length m - 2) \<and>
       ssid_match ssid (buf, length m - 2) nt = None)"
proof
  let ?n = "12 + length (encode es)" and ?l = "hdr @ encode es @ [e]"
  define c where "c = applied_all buf (located 12 es) False (fixed_part buf hdr)"
  have pr: "\<forall>x \<in> set es. proper x" "(\<exists>x \<in> set es. is_id ELEMID_SSID x) = False" using assms(2) by auto
  have pre: "parse_elements buf (hdr @ encode es @ post) (?n + length post) 12 (fixed_part buf hdr, False) =
      parse_elements buf (hdr @ encode es @ post) (?n + length post) ?n (c, False)" for post
    using parse_elements_prefix [OF pr(1) refl, where pre = hdr and post = post and efrm = "?n + length post" and buf = buf
      and cie = "fixed_part buf hdr" and seen = False] assms(1) pr(2) by (simp add: c_def)
  have e: "at ?l (?n + j) = (if j = 0 then Some e else None)" for j using assms(1) by (simp add: at_def nth_append)
  have cut: "at ?l (?n + 1) = None" "at ?l ?n = Some e" using e [of 1] e [of 0] by simp_all
  have "parse_elements buf ?l (?n + 1) ?n (c, False) = None"
    using parse_element_cut [OF cut(1), of buf "(c, False)"] cut(1)
    by (simp add: parse_elements.simps [of _ _ _ ?n] split: option.split)
  then show "wlan_parse_beacon buf ?l (length ?l) cie = None"
    using parse_beacon_fixed [OF assms(1) refl, where n = "length ?l" and rest = "encode es @ [e]" and buf = buf and cie = cie] pre [of "[e]"] assms(1) by simp
  have l: "length m = ?n + 2" "length m - 2 = ?n" using assms(1,7) by simp_all
  have a: "at m ?n = Some ELEMID_SSID" "at m (?n + 1) = Some (word_of_nat k)"
    using assms(1,7) by (simp_all add: at_def nth_append)
  have k: "unat (word_of_nat k :: byte) \<le> 32" using assms(6) by (simp add: unat_of_nat)
  let ?c = "c\<lparr>ie_ssid := Some (buf, ?n)\<rparr>"
  have "parse_elements buf m (length m) ?n (c, False) = Some (A_OK, ?c)"
    using a l by (simp add: parse_elements.simps [of _ _ _ ?n] parse_element_def parse_elements_end)
  moreover have "parse_elements buf m (length m) 12 (fixed_part buf hdr, False) = parse_elements buf m (length m) ?n (c, False)"
    using pre [of "[ELEMID_SSID, word_of_nat k]"] assms(1) unfolding assms(7) by simp
  moreover have "ie_rates c = last_ie buf (is_id ELEMID_RATES) es"
    using parsed_fields(1) by (simp add: c_def parsed_def)
  then have "verify_element m (ie_rates c) 15 = Some True"
    using rates_verified [OF pr(1) assms(1,3,4)] assms(7) by simp
  ultimately have "wlan_parse_beacon buf m (length m) cie = Some (A_OK, ?c)"
    using parse_beacon_fixed [OF assms(1,7), of "length m" buf cie] a(2) k l(1) by (simp add: verify_element_def)
  moreover have "ssid_match ssid (buf, ?n) nt = None"
    using a(2) assms(8,9) l(1) k by (simp add: ssid_match_def rd_ie_def blk_ie_def blk_def word_le_nat_alt)
  ultimately show "\<exists>c. wlan_parse_beacon buf m (length m) cie = Some (A_OK, c) \<and> ie_ssid c = Some (buf, length m - 2) \<and>
       ssid_match ssid (buf, length m - 2) nt = None"
    using l(2) by (intro exI [of _ ?c]) simp
qed

end
