(* ===== verification/Links.thy ===== *)
theory Links
  imports Prelude
begin

text \<open>
  Doubly linked lists of records in a heap, for any pair of link fields.  A list of addresses is
  \<open>linked\<close> when each of its cells points to the next and to the previous one.  The locale
  \<open>link_fields\<close> states what a pair of fields must satisfy, and in it the three ways the driver
  changes such a list (append, push to the front, unlink) are proved correct once.
\<close>

subsection \<open>Neighbours in a list\<close>

definition head :: "'a list \<Rightarrow> 'a option" where
  "head xs = (case xs of [] \<Rightarrow> None | x # _ \<Rightarrow> Some x)"

fun next_in :: "'a list \<Rightarrow> 'a \<Rightarrow> 'a option" where
  "next_in [] a = None"
| "next_in (x # xs) a = (if x = a then head xs else next_in xs a)"

definition prev_in :: "'a list \<Rightarrow> 'a \<Rightarrow> 'a option" where
  "prev_in xs = next_in (rev xs)"

lemma head_simps [simp]: "head [] = None" "head (x # xs) = Some x" "head xs = None \<longleftrightarrow> xs = []"
  by (simp_all add: head_def split: list.split)

lemma head_append [simp]: "head (xs @ ys) = (if xs = [] then head ys else head xs)"
  by (cases xs) simp_all

lemma head_in [dest]: "head xs = Some x \<Longrightarrow> x \<in> set xs"
  by (cases xs) simp_all

lemma next_in_notin [simp]: "a \<notin> set xs \<Longrightarrow> next_in xs a = None"
  by (induction xs) auto

lemma prev_in_notin [simp]: "a \<notin> set xs \<Longrightarrow> prev_in xs a = None"
  by (simp add: prev_in_def)

lemma next_in_set: "next_in xs a = Some b \<Longrightarrow> a \<in> set xs \<and> b \<in> set xs"
  by (induction xs) (auto split: if_splits)

lemma prev_in_set: "prev_in xs a = Some b \<Longrightarrow> a \<in> set xs \<and> b \<in> set xs"
  using next_in_set [of "rev xs" a b] by (simp add: prev_in_def)

lemma next_in_append:
  "a \<notin> set zs \<Longrightarrow> next_in (zs @ xs) a = next_in xs a"
  "a \<in> set zs \<Longrightarrow> distinct (zs @ xs) \<Longrightarrow>
     next_in (zs @ xs) a = (if next_in zs a = None then head xs else next_in zs a)"
proof -
  show "next_in (zs @ xs) a = next_in xs a" if "a \<notin> set zs" using that by (induction zs) auto
  show "next_in (zs @ xs) a = (if next_in zs a = None then head xs else next_in zs a)"
    if "a \<in> set zs" "distinct (zs @ xs)" using that by (induction zs) auto
qed

lemma next_in_here [simp]: "a \<notin> set zs \<Longrightarrow> next_in (zs @ a # xs) a = head xs"
  by (simp add: next_in_append(1))

lemma next_in_snoc:
  "distinct (xs @ [a]) \<Longrightarrow> next_in (xs @ [a]) x =
     (if head (rev xs) = Some x then Some a else next_in xs x)"
proof (induction xs)
  case (Cons y xs)
  then show ?case by (cases xs) (auto split: if_splits dest!: head_in)
qed simp

lemma prev_in_snoc: "distinct (xs @ [a]) \<Longrightarrow> prev_in (xs @ [a]) x = (if x = a then head (rev xs) else prev_in xs x)"
  by (simp add: prev_in_def)

lemma next_in_Cons: "next_in (a # xs) x = (if x = a then head xs else next_in xs x)"
  by simp

lemma prev_in_Cons:
  "distinct (a # xs) \<Longrightarrow> prev_in (a # xs) x = (if head xs = Some x then Some a else prev_in xs x)"
  using next_in_snoc [of "rev xs" a x] by (simp add: prev_in_def)

lemma prev_in_None: "distinct xs \<Longrightarrow> a \<in> set xs \<Longrightarrow> prev_in xs a = None \<longleftrightarrow> head xs = Some a"
proof (induction xs)
  case (Cons x xs)
  then show ?case by (cases "a = x") (auto simp: prev_in_Cons)
qed simp

lemma next_prev: "distinct xs \<Longrightarrow> next_in xs a = Some b \<longleftrightarrow> prev_in xs b = Some a"
proof (induction xs)
  case (Cons x xs)
  have IH: "next_in xs a = Some b \<longleftrightarrow> prev_in xs b = Some a" using Cons by simp
  have *: "next_in (x # xs) a = Some b \<longleftrightarrow> (if a = x then head xs = Some b else prev_in xs b = Some a)"
    using IH by simp
  have "prev_in xs b \<noteq> Some x" using Cons.prems by (auto dest: prev_in_set)
  moreover have "head xs = Some b \<Longrightarrow> prev_in xs b = None"
    using Cons.prems prev_in_None [of xs b] by auto
  ultimately show ?case unfolding * prev_in_Cons [OF Cons.prems] by auto
qed (simp add: prev_in_def)

lemma next_in_None: "distinct xs \<Longrightarrow> a \<in> set xs \<Longrightarrow> next_in xs a = None \<longleftrightarrow> head (rev xs) = Some a"
  using prev_in_None [of "rev xs" a] by (simp add: prev_in_def)

lemma next_in_irrefl [simp]: "distinct xs \<Longrightarrow> next_in xs a \<noteq> Some a"
  by (induction xs) (auto dest: head_in)

lemma prev_in_irrefl [simp]: "distinct xs \<Longrightarrow> prev_in xs a \<noteq> Some a"
  by (simp add: prev_in_def)

lemma next_in_remove1:
  "distinct xs \<Longrightarrow> a \<in> set xs \<Longrightarrow> x \<noteq> a \<Longrightarrow>
   next_in (remove1 a xs) x = (if next_in xs x = Some a then next_in xs a else next_in xs x)"
proof (induction xs)
  case (Cons y xs)
  show ?case
  proof (cases "y = a")
    case True
    then show ?thesis using Cons.prems by (auto dest: next_in_set)
  next
    case False
    then have "head (remove1 a xs) = (if head xs = Some a then next_in xs a else head xs)"
      using Cons.prems by (cases xs) auto
    then show ?thesis using Cons False by auto
  qed
qed simp

lemma remove1_rev: "distinct xs \<Longrightarrow> remove1 a (rev xs) = rev (remove1 a xs)"
  by (simp add: distinct_remove1_removeAll removeAll_filter_not_eq rev_filter)

lemma prev_in_remove1:
  "distinct xs \<Longrightarrow> a \<in> set xs \<Longrightarrow> x \<noteq> a \<Longrightarrow>
   prev_in (remove1 a xs) x = (if prev_in xs x = Some a then prev_in xs a else prev_in xs x)"
  using next_in_remove1 [of "rev xs" a x] by (simp add: prev_in_def remove1_rev)

lemma head_remove1:
  "distinct xs \<Longrightarrow> a \<in> set xs \<Longrightarrow> head (remove1 a xs) = (if head xs = Some a then next_in xs a else head xs)"
  by (cases xs) auto

lemma last_remove1:
  "distinct xs \<Longrightarrow> a \<in> set xs \<Longrightarrow>
   head (rev (remove1 a xs)) = (if head (rev xs) = Some a then prev_in xs a else head (rev xs))"
  using head_remove1 [of "rev xs" a] by (simp add: prev_in_def remove1_rev)

subsection \<open>Linked cells\<close>

definition linked :: "('b \<Rightarrow> 'a option) \<Rightarrow> ('b \<Rightarrow> 'a option) \<Rightarrow> ('a \<Rightarrow> 'b option) \<Rightarrow> 'a list \<Rightarrow> bool" where
  "linked nx pv h xs \<longleftrightarrow> distinct xs \<and>
     (\<forall>a \<in> set xs. \<exists>b. h a = Some b \<and> nx b = next_in xs a \<and> pv b = prev_in xs a)"

text \<open>A write through a pointer that may be null.\<close>

definition upd_at :: "'a option \<Rightarrow> ('b \<Rightarrow> 'b) \<Rightarrow> ('a \<Rightarrow> 'b option) \<Rightarrow> 'a \<Rightarrow> 'b option" where
  "upd_at p f h = (\<lambda>x. if p = Some x then map_option f (h x) else h x)"

lemma upd_at_simps [simp]:
  "upd_at None f h = h" "p \<noteq> Some x \<Longrightarrow> upd_at p f h x = h x" "upd_at (Some x) f h x = map_option f (h x)"
  by (simp_all add: upd_at_def)

lemma upd_at_None [simp]: "upd_at p f h x = None \<longleftrightarrow> h x = None"
  by (simp add: upd_at_def)

lemma upd_at_Some: "h x = Some b \<Longrightarrow> upd_at p f h x = Some (if p = Some x then f b else b)"
  by (simp add: upd_at_def)

lemma linked_Nil [simp]: "linked nx pv h []"
  by (simp add: linked_def)

lemma linkedD:
  assumes "linked nx pv h xs" "a \<in> set xs"
  obtains b where "h a = Some b" "nx b = next_in xs a" "pv b = prev_in xs a"
  using assms unfolding linked_def by blast

lemma linked_frame:
  assumes "linked nx pv h xs"
    and "\<And>a b. a \<in> set xs \<Longrightarrow> h a = Some b \<Longrightarrow> \<exists>b'. h' a = Some b' \<and> nx b' = nx b \<and> pv b' = pv b"
  shows "linked nx pv h' xs"
  using assms unfolding linked_def by metis

lemma linked_upd_at:
  assumes "linked nx pv h xs" "(\<forall>b. nx (f b) = nx b \<and> pv (f b) = pv b) \<or> (\<forall>a. p = Some a \<longrightarrow> a \<notin> set xs)"
  shows "linked nx pv (upd_at p f h) xs"
  using assms(1) by (rule linked_frame) (use assms(2) in \<open>auto simp: upd_at_Some\<close>)

locale link_fields =
  fixes nx pv :: "'b \<Rightarrow> 'a option" and set_nx set_pv :: "'a option \<Rightarrow> 'b \<Rightarrow> 'b"
  assumes get_set [simp]: "nx (set_nx v b) = v" "pv (set_pv v b) = v"
    "nx (set_pv v b) = nx b" "pv (set_nx v b) = pv b"
begin

lemma linked_append:
  assumes "linked nx pv h xs" "a \<notin> set xs" "h a = Some b"
  shows "linked nx pv (upd_at (head (rev xs)) (set_nx (Some a))
     (h(a \<mapsto> set_pv (head (rev xs)) (set_nx None b)))) (xs @ [a])"
proof -
  have d: "distinct (xs @ [a])" using assms by (simp add: linked_def)
  have "head (rev xs) \<noteq> Some a" using assms(2) by (auto dest: head_in)
  moreover have "next_in xs a = None" "prev_in xs a = None" using assms(2) by simp_all
  ultimately show ?thesis
    using assms d unfolding linked_def
    by (auto simp: next_in_snoc [OF d] prev_in_snoc [OF d] upd_at_def)
qed

lemma linked_push:
  assumes "linked nx pv h xs" "a \<notin> set xs" "h a = Some b"
  shows "linked nx pv (upd_at (head xs) (set_pv (Some a))
     (h(a \<mapsto> set_pv None (set_nx (head xs) b)))) (a # xs)"
proof -
  have d: "distinct (a # xs)" using assms by (simp add: linked_def)
  have "head xs \<noteq> Some a" using assms(2) by (auto dest: head_in)
  moreover have "next_in xs a = None" "prev_in xs a = None" using assms(2) by simp_all
  ultimately show ?thesis
    using assms d unfolding linked_def
    by (auto simp: prev_in_Cons [OF d] upd_at_def)
qed

lemma linked_unlink:
  assumes "linked nx pv h xs" "a \<in> set xs" "h a = Some b"
  shows "linked nx pv (upd_at (nx b) (set_pv (pv b)) (upd_at (pv b) (set_nx (nx b)) h)) (remove1 a xs)"
proof -
  have d: "distinct xs" using assms(1) by (simp add: linked_def)
  have b: "nx b = next_in xs a" "pv b = prev_in xs a" using assms unfolding linked_def by auto
  have "\<exists>c'. upd_at (nx b) (set_pv (pv b)) (upd_at (pv b) (set_nx (nx b)) h) x = Some c' \<and>
      nx c' = next_in (remove1 a xs) x \<and> pv c' = prev_in (remove1 a xs) x" if x: "x \<in> set xs" "x \<noteq> a" for x
  proof -
    obtain c where c: "h x = Some c" "nx c = next_in xs x" "pv c = prev_in xs x"
      using linkedD [OF assms(1) x(1)] by metis
    have "nx b = Some x \<longleftrightarrow> prev_in xs x = Some a" "pv b = Some x \<longleftrightarrow> next_in xs x = Some a"
      using next_prev [OF d] b by auto
    then show ?thesis
      using c b next_in_remove1 [OF d assms(2) x(2)] prev_in_remove1 [OF d assms(2) x(2)]
      by (auto simp: upd_at_def)
  qed
  then show ?thesis using d unfolding linked_def by auto
qed

end

end
