(* ===== verification/NodeInv.thy ===== *)
theory NodeInv
  imports NodeTable Links
begin

text \<open>
  What the table of nodes stands for: the list of its nodes in the order of arrival.  \<open>node_table nt xs\<close>
  says that both link structures represent \<open>xs\<close>: the arrival list is \<open>xs\<close>, and each bucket is the
  part of \<open>xs\<close> with that hash, newest first.  Every operation is shown to keep this, with its effect
  on \<open>xs\<close> and on the contents of the nodes.
\<close>

subsection \<open>The abstraction\<close>

interpretation list_links: link_fields ni_list_next ni_list_prev
    "\<lambda>v b. b\<lparr>ni_list_next := v\<rparr>" "\<lambda>v b. b\<lparr>ni_list_prev := v\<rparr>"
  by unfold_locales simp_all

interpretation hash_links: link_fields ni_hash_next ni_hash_prev
    "\<lambda>v b. b\<lparr>ni_hash_next := v\<rparr>" "\<lambda>v b. b\<lparr>ni_hash_prev := v\<rparr>"
  by unfold_locales simp_all

abbreviation list_linked :: "(nat \<Rightarrow> bss option) \<Rightarrow> nat list \<Rightarrow> bool" where
  "list_linked \<equiv> linked ni_list_next ni_list_prev"

abbreviation hash_linked :: "(nat \<Rightarrow> bss option) \<Rightarrow> nat list \<Rightarrow> bool" where
  "hash_linked \<equiv> linked ni_hash_next ni_hash_prev"

text \<open>A node without its links.\<close>

definition data :: "bss \<Rightarrow> bss" where
  "data b = b\<lparr>ni_list_next := None, ni_list_prev := None, ni_hash_next := None, ni_hash_prev := None\<rparr>"

definition contents :: "ieee80211_node_table \<Rightarrow> nat \<Rightarrow> bss option" where
  "contents nt a = map_option data (nodes nt a)"

definition mac_of :: "ieee80211_node_table \<Rightarrow> nat \<Rightarrow> bytes" where
  "mac_of nt a = ni_macaddr (the (contents nt a))"

definition bucket :: "ieee80211_node_table \<Rightarrow> nat list \<Rightarrow> nat \<Rightarrow> nat list" where
  "bucket nt xs i = rev (filter (\<lambda>a. IEEE80211_NODE_HASH (mac_of nt a) = i) xs)"

definition chained :: "ieee80211_node_table \<Rightarrow> nat list \<Rightarrow> bool" where
  "chained nt xs \<longleftrightarrow> nt_node_first nt = head xs \<and> nt_node_last nt = head (rev xs) \<and>
     list_linked (nodes nt) xs \<and>
     (\<forall>i < IEEE80211_NODE_HASHSIZE. nt_hash nt i = head (bucket nt xs i) \<and> hash_linked (nodes nt) (bucket nt xs i))"

text \<open>Every node owns its frame buffer.\<close>

definition owner :: "ieee80211_node_table \<Rightarrow> nat \<Rightarrow> (bytes \<times> ptr) option" where
  "owner nt a = map_option (\<lambda>b. (ni_macaddr b, ni_buf b)) (nodes nt a)"

definition heap_ok :: "ieee80211_node_table \<Rightarrow> bool" where
  "heap_ok nt \<longleftrightarrow>
     (\<forall>a m p. owner nt a = Some (m, p) \<longrightarrow> a < next_node nt \<and> length m = IEEE80211_ADDR_LEN \<and>
        (\<forall>u. p = Some u \<longrightarrow> bufs nt u \<noteq> None)) \<and>
     (\<forall>a a' m m' u. owner nt a = Some (m, Some u) \<and> owner nt a' = Some (m', Some u) \<longrightarrow> a = a') \<and>
     (\<forall>u. bufs nt u \<noteq> None \<longrightarrow> u < next_buf nt)"

definition node_table :: "ieee80211_node_table \<Rightarrow> nat list \<Rightarrow> bool" where
  "node_table nt xs \<longleftrightarrow> \<not> nt_locked nt \<and> heap_ok nt \<and> chained nt xs"

lemma data_simps [simp]:
  "ni_macaddr (data b) = ni_macaddr b" "ni_buf (data b) = ni_buf b" "ni_refcnt (data b) = ni_refcnt b"
  "ni_scangen (data b) = ni_scangen b" "ni_tstamp (data b) = ni_tstamp b" "ni_actcnt (data b) = ni_actcnt b"
  "ni_cie (data b) = ni_cie b" "ni_rssi (data b) = ni_rssi b" "ni_snr (data b) = ni_snr b"
  "ni_framelen (data b) = ni_framelen b" "ni_frametype (data b) = ni_frametype b" "data (data b) = data b"
  "data (b\<lparr>ni_list_next := p\<rparr>) = data b" "data (b\<lparr>ni_list_prev := p\<rparr>) = data b"
  "data (b\<lparr>ni_hash_next := p\<rparr>) = data b" "data (b\<lparr>ni_hash_prev := p\<rparr>) = data b"
  by (simp_all add: data_def)

lemma data_upd [simp]:
  "data (b\<lparr>ni_refcnt := r\<rparr>) = (data b)\<lparr>ni_refcnt := r\<rparr>" "data (b\<lparr>ni_scangen := r\<rparr>) = (data b)\<lparr>ni_scangen := r\<rparr>"
  "data (b\<lparr>ni_tstamp := r\<rparr>) = (data b)\<lparr>ni_tstamp := r\<rparr>" "data (b\<lparr>ni_actcnt := r\<rparr>) = (data b)\<lparr>ni_actcnt := r\<rparr>"
  "data (b\<lparr>ni_buf := u\<rparr>) = (data b)\<lparr>ni_buf := u\<rparr>" "data (b\<lparr>ni_macaddr := m\<rparr>) = (data b)\<lparr>ni_macaddr := m\<rparr>"
  by (simp_all add: data_def)

lemma contents_Some: "contents nt a = Some c \<longleftrightarrow> (\<exists>b. nodes nt a = Some b \<and> data b = c)"
  by (auto simp: contents_def)

lemma contents_None [simp]: "contents nt a = None \<longleftrightarrow> nodes nt a = None"
  by (simp add: contents_def)

lemma hash_less: "IEEE80211_NODE_HASH m < IEEE80211_NODE_HASHSIZE"
  by (simp add: IEEE80211_NODE_HASH_def)

lemma bucket_cong: "(\<And>a. a \<in> set xs \<Longrightarrow> mac_of nt' a = mac_of nt a) \<Longrightarrow> bucket nt' xs i = bucket nt xs i"
  unfolding bucket_def by (metis (mono_tags, lifting) filter_cong)

lemma set_bucket: "set (bucket nt xs i) = {a \<in> set xs. IEEE80211_NODE_HASH (mac_of nt a) = i}"
  by (auto simp: bucket_def)

lemma chainedD:
  assumes "chained nt xs"
  shows "distinct xs" "nt_node_first nt = head xs" "nt_node_last nt = head (rev xs)" "list_linked (nodes nt) xs"
    "i < IEEE80211_NODE_HASHSIZE \<Longrightarrow> nt_hash nt i = head (bucket nt xs i)"
    "i < IEEE80211_NODE_HASHSIZE \<Longrightarrow> hash_linked (nodes nt) (bucket nt xs i)"
  using assms by (simp_all add: chained_def linked_def)

lemma chained_node:
  assumes "chained nt xs" "a \<in> set xs"
  obtains b where "nodes nt a = Some b" "ni_list_next b = next_in xs a" "ni_list_prev b = prev_in xs a"
    "ni_hash_next b = next_in (bucket nt xs (IEEE80211_NODE_HASH (ni_macaddr b))) a"
    "ni_hash_prev b = prev_in (bucket nt xs (IEEE80211_NODE_HASH (ni_macaddr b))) a"
proof -
  obtain b where b: "nodes nt a = Some b" "ni_list_next b = next_in xs a" "ni_list_prev b = prev_in xs a"
    by (rule linkedD [OF chainedD(4) [OF assms(1)] assms(2)])
  have m: "mac_of nt a = ni_macaddr b" by (simp add: mac_of_def contents_def b(1))
  have "a \<in> set (bucket nt xs (IEEE80211_NODE_HASH (ni_macaddr b)))" using assms(2) m by (simp add: set_bucket)
  then obtain b' where "nodes nt a = Some b'" "ni_hash_next b' = next_in (bucket nt xs (IEEE80211_NODE_HASH (ni_macaddr b))) a"
      "ni_hash_prev b' = prev_in (bucket nt xs (IEEE80211_NODE_HASH (ni_macaddr b))) a"
    by (rule linkedD [OF chainedD(6) [OF assms(1) hash_less]])
  with b show thesis by (intro that [of b]) simp_all
qed

text \<open>A change of the heap that keeps the links of the listed nodes and their addresses.\<close>

lemma chained_frame:
  assumes "chained nt xs" "nt_node_first nt' = nt_node_first nt" "nt_node_last nt' = nt_node_last nt"
    "nt_hash nt' = nt_hash nt"
    and keep: "\<And>a b. a \<in> set xs \<Longrightarrow> nodes nt a = Some b \<Longrightarrow> \<exists>b'. nodes nt' a = Some b' \<and>
      ni_list_next b' = ni_list_next b \<and> ni_list_prev b' = ni_list_prev b \<and> ni_hash_next b' = ni_hash_next b \<and>
      ni_hash_prev b' = ni_hash_prev b \<and> ni_macaddr b' = ni_macaddr b"
  shows "chained nt' xs"
proof -
  have mac: "mac_of nt' a = mac_of nt a" if a: "a \<in> set xs" for a
  proof -
    obtain b where b: "nodes nt a = Some b" by (rule chained_node [OF assms(1) a])
    from keep [OF a b] b show ?thesis by (auto simp: mac_of_def contents_def)
  qed
  have "linked ni_list_next ni_list_prev (nodes nt') xs"
    using chainedD(4) [OF assms(1)] by (rule linked_frame) (use keep in blast)
  moreover have "hash_linked (nodes nt') (bucket nt xs i)" if "i < 32" for i
    using chainedD(6) [OF assms(1) that] by (rule linked_frame) (use keep in \<open>force simp: set_bucket\<close>)
  ultimately show ?thesis
    using assms(1-4) bucket_cong [OF mac] by (simp add: chained_def)
qed

lemma owner_contents: "owner nt a = map_option (\<lambda>b. (ni_macaddr b, ni_buf b)) (contents nt a)"
  by (cases "nodes nt a") (simp_all add: owner_def contents_def)

lemma heap_ok_cong:
  "owner nt' = owner nt \<Longrightarrow> bufs nt' = bufs nt \<Longrightarrow> next_node nt' = next_node nt \<Longrightarrow> next_buf nt' = next_buf nt \<Longrightarrow>
   heap_ok nt \<Longrightarrow> heap_ok nt'"
  by (simp add: heap_ok_def)

subsection \<open>Writes\<close>

lemma upd_node_Some: "nodes nt a = Some b \<Longrightarrow> upd_node a f nt = Some (nt\<lparr>nodes := (nodes nt)(a \<mapsto> f b)\<rparr>)"
  by (simp add: upd_node_def)

lemma upd_node_opt:
  "p = None \<or> nodes nt (the p) \<noteq> None \<Longrightarrow> nodes (g nt) = nodes nt \<Longrightarrow>
   (case p of None \<Rightarrow> Some (g nt) | Some q \<Rightarrow> upd_node q f nt) =
     Some ((if p = None then g nt else nt)\<lparr>nodes := upd_at p f (nodes nt)\<rparr>)"
  by (cases p) (auto simp: upd_node_def upd_at_def fun_eq_iff split: option.splits)

lemma neighbour_valid:
  assumes "linked nx pv h xs"
  shows "\<forall>p \<in> {head xs, head (rev xs), next_in xs x, prev_in xs x}. p = None \<or> h (the p) \<noteq> None"
proof
  fix p assume p: "p \<in> {head xs, head (rev xs), next_in xs x, prev_in xs x}"
  show "p = None \<or> h (the p) \<noteq> None"
  proof (cases p)
    case (Some a)
    then have "a \<in> set xs"
      using p by (auto simp: eq_commute [of "Some a"] dest: head_in next_in_set prev_in_set)
    from linkedD [OF assms this] Some show ?thesis by fastforce
  qed simp
qed

subsection \<open>Unlinking\<close>

abbreviation list_next_to :: "ptr \<Rightarrow> bss \<Rightarrow> bss" where "list_next_to v b \<equiv> b\<lparr>ni_list_next := v\<rparr>"
abbreviation list_prev_to :: "ptr \<Rightarrow> bss \<Rightarrow> bss" where "list_prev_to v b \<equiv> b\<lparr>ni_list_prev := v\<rparr>"
abbreviation hash_next_to :: "ptr \<Rightarrow> bss \<Rightarrow> bss" where "hash_next_to v b \<equiv> b\<lparr>ni_hash_next := v\<rparr>"
abbreviation hash_prev_to :: "ptr \<Rightarrow> bss \<Rightarrow> bss" where "hash_prev_to v b \<equiv> b\<lparr>ni_hash_prev := v\<rparr>"

definition unlinked_heap :: "bss \<Rightarrow> (nat \<Rightarrow> bss option) \<Rightarrow> nat \<Rightarrow> bss option" where
  "unlinked_heap b h =
     upd_at (ni_hash_next b) (hash_prev_to (ni_hash_prev b)) (upd_at (ni_hash_prev b) (hash_next_to (ni_hash_next b))
       (upd_at (ni_list_next b) (list_prev_to (ni_list_prev b)) (upd_at (ni_list_prev b) (list_next_to (ni_list_next b)) h)))"

definition unlinked :: "bss \<Rightarrow> ieee80211_node_table \<Rightarrow> ieee80211_node_table" where
  "unlinked b nt = nt\<lparr>
     nt_node_first := (if ni_list_prev b = None then ni_list_next b else nt_node_first nt),
     nt_node_last := (if ni_list_next b = None then ni_list_prev b else nt_node_last nt),
     nt_hash := (if ni_hash_prev b = None then (nt_hash nt)(IEEE80211_NODE_HASH (ni_macaddr b) := ni_hash_next b)
                 else nt_hash nt),
     nodes := unlinked_heap b (nodes nt)\<rparr>"

lemma remove_core_eq:
  assumes "nodes nt a = Some b"
    and "\<forall>p \<in> {ni_list_prev b, ni_list_next b, ni_hash_prev b, ni_hash_next b}. p = None \<or> nodes nt (the p) \<noteq> None"
  shows "wlan_node_remove_core a nt = Some (unlinked b nt)"
proof -
  let ?n1 = "if ni_list_prev b = None then nt\<lparr>nt_node_first := ni_list_next b\<rparr> else nt"
  define nt1 where "nt1 = ?n1\<lparr>nodes := upd_at (ni_list_prev b) (list_next_to (ni_list_next b)) (nodes nt)\<rparr>"
  let ?n2 = "if ni_list_next b = None then nt1\<lparr>nt_node_last := ni_list_prev b\<rparr> else nt1"
  define nt2 where "nt2 = ?n2\<lparr>nodes := upd_at (ni_list_next b) (list_prev_to (ni_list_prev b)) (nodes nt1)\<rparr>"
  let ?h = "IEEE80211_NODE_HASH (ni_macaddr b)"
  let ?n3 = "if ni_hash_prev b = None then nt2\<lparr>nt_hash := (nt_hash nt2)(?h := ni_hash_next b)\<rparr> else nt2"
  define nt3 where "nt3 = ?n3\<lparr>nodes := upd_at (ni_hash_prev b) (hash_next_to (ni_hash_next b)) (nodes nt2)\<rparr>"
  define nt4 where "nt4 = nt3\<lparr>nodes := upd_at (ni_hash_next b) (hash_prev_to (ni_hash_prev b)) (nodes nt3)\<rparr>"
  have v: "nodes nt1 x = None \<longleftrightarrow> nodes nt x = None" "nodes nt2 x = None \<longleftrightarrow> nodes nt x = None"
    "nodes nt3 x = None \<longleftrightarrow> nodes nt x = None" for x
    by (simp_all add: nt1_def nt2_def nt3_def)
  have s1: "(case ni_list_prev b of None \<Rightarrow> Some (nt\<lparr>nt_node_first := ni_list_next b\<rparr>)
      | Some p \<Rightarrow> upd_node p (\<lambda>x. x\<lparr>ni_list_next := ni_list_next b\<rparr>) nt) = Some nt1"
    unfolding nt1_def by (rule upd_node_opt) (use assms(2) in simp_all)
  have s2: "(case ni_list_next b of None \<Rightarrow> Some (nt1\<lparr>nt_node_last := ni_list_prev b\<rparr>)
      | Some p \<Rightarrow> upd_node p (\<lambda>x. x\<lparr>ni_list_prev := ni_list_prev b\<rparr>) nt1) = Some nt2"
    unfolding nt2_def by (rule upd_node_opt) (use assms(2) in \<open>simp_all add: v\<close>)
  have s3: "(case ni_hash_prev b of None \<Rightarrow> Some (nt2\<lparr>nt_hash := (nt_hash nt2)(?h := ni_hash_next b)\<rparr>)
      | Some p \<Rightarrow> upd_node p (\<lambda>x. x\<lparr>ni_hash_next := ni_hash_next b\<rparr>) nt2) = Some nt3"
    unfolding nt3_def by (rule upd_node_opt) (use assms(2) in \<open>simp_all add: v\<close>)
  have s4: "(case ni_hash_next b of None \<Rightarrow> Some nt3
      | Some p \<Rightarrow> upd_node p (\<lambda>x. x\<lparr>ni_hash_prev := ni_hash_prev b\<rparr>) nt3) = Some nt4"
    using upd_node_opt [of "ni_hash_next b" nt3 "\<lambda>x. x" "hash_prev_to (ni_hash_prev b)"] assms(2)
    by (simp add: v nt4_def)
  have "nt4 = unlinked b nt"
    by (simp add: nt4_def nt3_def nt2_def nt1_def unlinked_def unlinked_heap_def)
  then show ?thesis
    using assms(1) s1 s2 s3 s4 by (simp add: wlan_node_remove_core_def deref_def)
qed

lemma unlinked_heap_data: "map_option data (unlinked_heap b h x) = map_option data (h x)"
  by (cases "h x") (simp_all add: unlinked_heap_def upd_at_def)

lemma contents_unlinked [simp]: "contents (unlinked b nt) = contents nt"
  by (simp add: contents_def unlinked_def fun_eq_iff unlinked_heap_data)

lemma unlinked_self:
  assumes "chained nt xs" "a \<in> set xs" "nodes nt a = Some b"
  shows "nodes (unlinked b nt) a = Some b"
proof -
  obtain b' where b: "nodes nt a = Some b'" "ni_list_next b' = next_in xs a" "ni_list_prev b' = prev_in xs a"
    "ni_hash_next b' = next_in (bucket nt xs (IEEE80211_NODE_HASH (ni_macaddr b'))) a"
    "ni_hash_prev b' = prev_in (bucket nt xs (IEEE80211_NODE_HASH (ni_macaddr b'))) a"
    by (rule chained_node [OF assms(1,2)])
  have d: "distinct xs" by (rule chainedD(1) [OF assms(1)])
  then have "distinct (bucket nt xs i)" for i by (simp add: bucket_def)
  then show ?thesis using b assms(3) d by (simp add: unlinked_def unlinked_heap_def upd_at_def)
qed

lemma chained_unlinked:
  assumes "chained nt xs" "a \<in> set xs" "nodes nt a = Some b"
  shows "chained (unlinked b nt) (remove1 a xs)"
proof -
  let ?k = "IEEE80211_NODE_HASH (ni_macaddr b)" and ?nt = "unlinked b nt"
  let ?h1 = "upd_at (ni_list_next b) (list_prev_to (ni_list_prev b)) (upd_at (ni_list_prev b) (list_next_to (ni_list_next b)) (nodes nt))"
  note d = chainedD [OF assms(1)]
  obtain b' where b': "nodes nt a = Some b'" "ni_list_next b' = next_in xs a" "ni_list_prev b' = prev_in xs a"
    "ni_hash_next b' = next_in (bucket nt xs (IEEE80211_NODE_HASH (ni_macaddr b'))) a"
    "ni_hash_prev b' = prev_in (bucket nt xs (IEEE80211_NODE_HASH (ni_macaddr b'))) a"
    by (rule chained_node [OF assms(1,2)])
  then have b: "ni_list_next b = next_in xs a" "ni_list_prev b = prev_in xs a"
    "ni_hash_next b = next_in (bucket nt xs ?k) a" "ni_hash_prev b = prev_in (bucket nt xs ?k) a"
    using assms(3) by simp_all
  have mac: "mac_of nt a = ni_macaddr b" by (simp add: mac_of_def contents_def assms(3))
  have a: "a \<in> set (bucket nt xs i) \<longleftrightarrow> i = ?k" for i using assms(2) mac by (auto simp: set_bucket)
  have dist: "distinct (bucket nt xs i)" for i using d(1) by (simp add: bucket_def)
  have bucket: "bucket ?nt (remove1 a xs) i = remove1 a (bucket nt xs i)" for i
  proof -
    have "bucket ?nt (remove1 a xs) i = bucket nt (remove1 a xs) i" by (simp add: bucket_def mac_of_def)
    then show ?thesis using d(1) by (simp add: bucket_def remove1_rev [symmetric] filter_remove1)
  qed
  have L: "list_linked ?h1 (remove1 a xs)"
    using list_links.linked_unlink [OF d(4) assms(2,3)] by simp
  have "list_linked (nodes ?nt) (remove1 a xs)"
    unfolding unlinked_def unlinked_heap_def by (simp, intro linked_upd_at L disjI1) simp_all
  moreover have "hash_linked (nodes ?nt) (remove1 a (bucket nt xs i))" if i: "i < 32" for i
  proof -
    have H: "hash_linked ?h1 (bucket nt xs i)" by (intro linked_upd_at d(6) i disjI1) simp_all
    show ?thesis
    proof (cases "i = ?k")
      case True
      have "?h1 a = Some b" using assms(3) b d(1) by (simp add: upd_at_def)
      from hash_links.linked_unlink [OF H _ this] True show ?thesis
        by (simp add: a unlinked_def unlinked_heap_def)
    next
      case False
      then have "a \<notin> set (bucket nt xs i)" using a by simp
      moreover have "p \<notin> set (bucket nt xs i)" if "ni_hash_next b = Some p \<or> ni_hash_prev b = Some p" for p
      proof -
        have "p \<in> set (bucket nt xs ?k)" using that b(3,4) by (auto dest: next_in_set prev_in_set)
        then show ?thesis using False by (auto simp: set_bucket)
      qed
      then have "hash_linked (nodes ?nt) (bucket nt xs i)"
        unfolding unlinked_def unlinked_heap_def by (simp, intro linked_upd_at H disjI2) auto
      ultimately show ?thesis by (simp add: remove1_idem)
    qed
  qed
  moreover have "nt_hash ?nt i = head (remove1 a (bucket nt xs i))" if i: "i < 32" for i
  proof (cases "i = ?k")
    case True
    then show ?thesis
      using head_remove1 [OF dist, of a i] prev_in_None [OF dist, of a i] a [of i] d(5) [OF i] b(3,4)
      by (auto simp: unlinked_def)
  next
    case False
    then show ?thesis using a [of i] d(5) [OF i] by (simp add: unlinked_def remove1_idem)
  qed
  moreover have "nt_node_first ?nt = head (remove1 a xs)" "nt_node_last ?nt = head (rev (remove1 a xs))"
    using head_remove1 [OF d(1) assms(2)] last_remove1 [OF d(1) assms(2)] prev_in_None [OF d(1) assms(2)]
      next_in_None [OF d(1) assms(2)] d(2,3) b(1,2) by (auto simp: unlinked_def)
  ultimately show ?thesis by (simp add: chained_def bucket)
qed

lemma remove_core_ok:
  assumes "chained nt xs" "a \<in> set xs"
  obtains b where "nodes nt a = Some b" "wlan_node_remove_core a nt = Some (unlinked b nt)"
    "chained (unlinked b nt) (remove1 a xs)" "nodes (unlinked b nt) a = Some b"
proof -
  obtain b where b: "nodes nt a = Some b" "ni_list_next b = next_in xs a" "ni_list_prev b = prev_in xs a"
    "ni_hash_next b = next_in (bucket nt xs (IEEE80211_NODE_HASH (ni_macaddr b))) a"
    "ni_hash_prev b = prev_in (bucket nt xs (IEEE80211_NODE_HASH (ni_macaddr b))) a"
    by (rule chained_node [OF assms])
  have "wlan_node_remove_core a nt = Some (unlinked b nt)"
    using b(1) by (rule remove_core_eq)
      (use neighbour_valid [OF chainedD(4) [OF assms(1)], of a] neighbour_valid [OF chainedD(6) [OF assms(1) hash_less], of _ a]
         b in simp)
  then show thesis
    using that b(1) chained_unlinked [OF assms b(1)] unlinked_self [OF assms b(1)] by blast
qed

end
