(* ===== verification/NodeOps.thy ===== *)
theory NodeOps
  imports NodeInv
begin

text \<open>The effect of each operation of the node table on the list of nodes it stands for.\<close>

definition rest :: "ieee80211_node_table \<Rightarrow> (nat \<Rightarrow> bytes option) \<times> nat \<times> nat \<times> 32 word \<times> 32 word" where
  "rest nt = (bufs nt, next_node nt, next_buf nt, nt_scangen nt, nt_nodeAge nt)"

lemma node_tableD:
  assumes "node_table nt xs"
  shows "\<not> nt_locked nt" "heap_ok nt" "chained nt xs" "distinct xs"
  using assms chainedD(1) [of nt xs] by (simp_all add: node_table_def)

lemma node_table_node:
  assumes "node_table nt xs" "a \<in> set xs"
  obtains b where "nodes nt a = Some b" "ni_macaddr b = mac_of nt a" "contents nt a = Some (data b)"
    "ni_list_next b = next_in xs a"
proof -
  obtain b where b: "nodes nt a = Some b" "ni_list_next b = next_in xs a"
    by (rule chained_node [OF node_tableD(3) [OF assms(1)] assms(2)])
  from that [OF this(1) _ _ this(2)] b show thesis by (simp add: mac_of_def contents_def)
qed

subsection \<open>Changing a node in place\<close>

definition keeps_structure :: "(bss \<Rightarrow> bss) \<Rightarrow> bool" where
  "keeps_structure f \<longleftrightarrow> (\<forall>b. ni_list_next (f b) = ni_list_next b \<and> ni_list_prev (f b) = ni_list_prev b \<and>
     ni_hash_next (f b) = ni_hash_next b \<and> ni_hash_prev (f b) = ni_hash_prev b \<and>
     ni_macaddr (f b) = ni_macaddr b \<and> ni_buf (f b) = ni_buf b)"

lemma keeps_structure_fields [simp]:
  "keeps_structure (\<lambda>b. b\<lparr>ni_refcnt := r b\<rparr>)" "keeps_structure (\<lambda>b. b\<lparr>ni_actcnt := r b\<rparr>)"
  "keeps_structure (\<lambda>b. b\<lparr>ni_tstamp := w b\<rparr>)" "keeps_structure (\<lambda>b. b\<lparr>ni_scangen := w b\<rparr>)"
  "keeps_structure f \<Longrightarrow> keeps_structure g \<Longrightarrow> keeps_structure (\<lambda>b. f (g b))"
  by (simp_all add: keeps_structure_def)

lemma owner_write: "keeps_structure f \<Longrightarrow> owner (nt\<lparr>nodes := upd_at p f (nodes nt)\<rparr>) = owner nt"
  by (auto simp: owner_def fun_eq_iff upd_at_def keeps_structure_def map_option.compositionality comp_def)

lemma heap_ok_write: "heap_ok nt \<Longrightarrow> keeps_structure f \<Longrightarrow> heap_ok (nt\<lparr>nodes := upd_at p f (nodes nt)\<rparr>)"
  by (rule heap_ok_cong [of _ nt]) (simp_all add: owner_write)

lemma chained_write:
  assumes "chained nt xs" "keeps_structure f"
  shows "chained (nt\<lparr>nodes := upd_at p f (nodes nt)\<rparr>) xs"
  using assms(1) by (rule chained_frame) (use assms(2) in \<open>auto simp: upd_at_def keeps_structure_def\<close>)

lemma node_table_write:
  "node_table nt xs \<Longrightarrow> keeps_structure f \<Longrightarrow> node_table (nt\<lparr>nodes := upd_at p f (nodes nt)\<rparr>) xs"
  by (simp add: node_table_def heap_ok_write chained_write)

lemma node_table_lock: "node_table nt xs \<Longrightarrow> NODE_LOCK nt = Some (nt\<lparr>nt_locked := True\<rparr>)"
  by (simp add: node_table_def NODE_LOCK_def)

lemma owner_cong: "nodes nt' = nodes nt \<Longrightarrow> owner nt' = owner nt"
  by (simp add: owner_def fun_eq_iff)

lemma chained_lock [simp]: "chained (nt\<lparr>nt_locked := l\<rparr>) xs = chained nt xs"
  by (simp add: chained_def bucket_def mac_of_def contents_def)

lemma heap_ok_lock [simp]: "heap_ok (nt\<lparr>nt_locked := l\<rparr>) = heap_ok nt"
  by (simp add: heap_ok_def owner_def)

lemma unlock_unchanged: "\<not> nt_locked nt \<Longrightarrow> nt\<lparr>nt_locked := False\<rparr> = nt"
  by (cases nt) simp

lemma unlinked_lock [simp]: "unlinked b (nt\<lparr>nt_locked := l\<rparr>) = (unlinked b nt)\<lparr>nt_locked := l\<rparr>"
  "nt_locked (unlinked b nt) = nt_locked nt"
  by (simp_all add: unlinked_def)

subsection \<open>Finding a node\<close>

definition with_ref :: "ptr \<Rightarrow> ieee80211_node_table \<Rightarrow> ieee80211_node_table" where
  "with_ref p nt = nt\<lparr>nodes := upd_at p (\<lambda>b. b\<lparr>ni_refcnt := ni_refcnt b + 1\<rparr>) (nodes nt)\<rparr>"

lemma with_ref_None [simp]: "with_ref None nt = nt"
  by (simp add: with_ref_def)

lemma node_table_ref: "node_table nt xs \<Longrightarrow> node_table (with_ref p nt) xs"
  unfolding with_ref_def by (rule node_table_write) simp_all

lemma upd_ref: "nodes nt a \<noteq> None \<Longrightarrow> upd_node a (\<lambda>b. b\<lparr>ni_refcnt := ni_refcnt b + 1\<rparr>) nt = Some (with_ref (Some a) nt)"
  by (auto simp: with_ref_def upd_node_def upd_at_def fun_eq_iff)

lemma find_filter: "(\<And>a. a \<in> set xs \<Longrightarrow> P a \<Longrightarrow> Q a) \<Longrightarrow> find P (filter Q xs) = find P xs"
  by (induction xs) auto

lemma find_chain_walk:
  assumes "hash_linked (nodes nt) (zs @ ys)"
    and "P = (\<lambda>a. mac_of nt a = take IEEE80211_ADDR_LEN mac)"
  shows "find_chain mac (head ys) nt = Some (find P ys, with_ref (find P ys) nt)"
  using assms(1)
proof (induction ys arbitrary: zs)
  case Nil
  then show ?case by (simp add: find_chain.simps)
next
  case (Cons a ys)
  have "distinct (zs @ a # ys)" using Cons.prems by (simp add: linked_def)
  moreover obtain b where b: "nodes nt a = Some b" "ni_hash_next b = next_in (zs @ a # ys) a"
    by (rule linkedD [OF Cons.prems, of a]) simp
  ultimately have "ni_hash_next b = head ys" by simp
  moreover have "ni_macaddr b = mac_of nt a" using b(1) by (simp add: mac_of_def contents_def)
  ultimately show ?case
    using b(1) Cons.IH [of "zs @ [a]"] Cons.prems upd_ref [of nt a]
    by (simp add: find_chain.simps [of _ "Some a"] deref_def assms(2))
qed

text \<open>Looking a node up through its bucket finds what a search of the whole list, newest node first,
  finds.\<close>

lemma find_node_ok:
  assumes "node_table nt xs" "length mac = IEEE80211_ADDR_LEN" "p = find (\<lambda>a. mac_of nt a = mac) (rev xs)"
  shows "wlan_find_node mac nt = Some (p, with_ref p nt)"
proof -
  let ?nt = "nt\<lparr>nt_locked := True\<rparr>" and ?k = "IEEE80211_NODE_HASH mac"
  have c: "chained nt xs" by (rule node_tableD(3) [OF assms(1)])
  have mac: "mac_of ?nt = mac_of nt" by (simp add: mac_of_def contents_def fun_eq_iff)
  have "find (\<lambda>a. mac_of nt a = mac) (bucket nt xs ?k) = p"
    unfolding bucket_def assms(3) rev_filter by (rule find_filter) simp
  moreover have "hash_linked (nodes ?nt) ([] @ bucket nt xs ?k)"
    using chainedD(6) [OF c hash_less] by simp
  from find_chain_walk [OF this refl, of mac] have
    "find_chain mac (head (bucket nt xs ?k)) ?nt = Some (find (\<lambda>a. mac_of nt a = mac) (bucket nt xs ?k),
       with_ref (find (\<lambda>a. mac_of nt a = mac) (bucket nt xs ?k)) ?nt)"
    using assms(2) mac by simp
  ultimately have "ieee80211_find_node mac ?nt = Some (p, with_ref p ?nt)"
    using chainedD(5) [OF c hash_less [of mac]]
    by (auto simp: ieee80211_find_node_def find_chain.simps)
  moreover have "NODE_UNLOCK (with_ref p ?nt) = with_ref p nt"
    using node_tableD(1) [OF assms(1)] by (simp add: NODE_UNLOCK_def with_ref_def)
  ultimately show ?thesis
    using node_table_lock [OF assms(1)] by (simp add: wlan_find_node_def)
qed

subsection \<open>Freeing and unlinking\<close>

definition freed :: "nat \<Rightarrow> ieee80211_node_table \<Rightarrow> ieee80211_node_table" where
  "freed a nt = nt\<lparr>nodes := (nodes nt)(a := None),
     bufs := (\<lambda>u. if Option.bind (nodes nt a) ni_buf = Some u then None else bufs nt u)\<rparr>"

lemma freed_lock [simp]: "freed a (nt\<lparr>nt_locked := l\<rparr>) = (freed a nt)\<lparr>nt_locked := l\<rparr>"
  "nt_locked (freed a nt) = nt_locked nt"
  by (simp_all add: freed_def cong: if_cong)

lemma free_ok:
  assumes "heap_ok nt" "nodes nt a \<noteq> None"
  shows "wlan_node_free a nt = Some (freed a nt)" "heap_ok (freed a nt)"
proof -
  obtain b where b: "nodes nt a = Some b" using assms(2) by blast
  then have o: "owner nt a = Some (ni_macaddr b, ni_buf b)" by (simp add: owner_def)
  then have u: "bufs nt u \<noteq> None" if "ni_buf b = Some u" for u using that assms(1) unfolding heap_ok_def by blast
  then show "wlan_node_free a nt = Some (freed a nt)"
    using b by (auto simp: wlan_node_free_def deref_def freed_def free_buf_def fun_upd_def fun_eq_iff split: option.splits)
  have own: "owner (freed a nt) x = (if x = a then None else owner nt x)" for x by (simp add: owner_def freed_def)
  have keep: "bufs (freed a nt) u \<noteq> None" if "owner nt x = Some (m, Some u)" "x \<noteq> a" for x m u
  proof -
    have "ni_buf b \<noteq> Some u" using assms(1) that o unfolding heap_ok_def by metis
    moreover have "bufs nt u \<noteq> None" using assms(1) that unfolding heap_ok_def by blast
    ultimately show ?thesis using b by (simp add: freed_def)
  qed
  have n: "next_node (freed a nt) = next_node nt" "next_buf (freed a nt) = next_buf nt"
    "\<And>u. bufs (freed a nt) u \<noteq> None \<Longrightarrow> bufs nt u \<noteq> None"
    by (simp_all add: freed_def split: if_splits)
  show "heap_ok (freed a nt)"
    unfolding heap_ok_def n(1,2)
  proof (intro conjI allI impI)
    fix x m p assume x: "owner (freed a nt) x = Some (m, p)"
    then have ox: "owner nt x = Some (m, p)" "x \<noteq> a" by (simp_all add: own split: if_splits)
    then show "x < next_node nt" "length m = 6" using assms(1) unfolding heap_ok_def by blast+
    show "bufs (freed a nt) u \<noteq> None" if "p = Some u" for u using keep ox that by simp
  next
    fix x x' m m' u assume "owner (freed a nt) x = Some (m, Some u) \<and> owner (freed a nt) x' = Some (m', Some u)"
    then have "owner nt x = Some (m, Some u)" "owner nt x' = Some (m', Some u)" by (simp_all add: own split: if_splits)
    then show "x = x'" using assms(1) unfolding heap_ok_def by blast
  next
    fix u assume "bufs (freed a nt) u \<noteq> None"
    then show "u < next_buf nt" using n(3) assms(1) unfolding heap_ok_def by blast
  qed
qed

lemma contents_freed: "contents (freed a nt) = (contents nt)(a := None)"
  by (simp add: contents_def freed_def fun_eq_iff)

lemma chained_freed: "chained nt xs \<Longrightarrow> a \<notin> set xs \<Longrightarrow> chained (freed a nt) xs"
  by (erule chained_frame) (auto simp: freed_def)

definition reclaimed :: "nat \<Rightarrow> ieee80211_node_table \<Rightarrow> ieee80211_node_table" where
  "reclaimed a nt = freed a (unlinked (the (nodes nt a)) nt)"

lemma reclaim_ok:
  assumes "node_table nt xs" "a \<in> set xs"
  shows "wlan_node_reclaim a nt = Some (reclaimed a nt)" "node_table (reclaimed a nt) (remove1 a xs)"
proof -
  let ?nt = "nt\<lparr>nt_locked := True\<rparr>"
  note d = node_tableD [OF assms(1)]
  have "chained ?nt xs" using d(3) by simp
  then obtain b where b: "nodes ?nt a = Some b" "wlan_node_remove_core a ?nt = Some (unlinked b ?nt)"
    "chained (unlinked b ?nt) (remove1 a xs)" "nodes (unlinked b ?nt) a = Some b"
    using remove_core_ok assms(2) by metis
  have "heap_ok (unlinked b ?nt)"
    by (rule heap_ok_cong [of _ nt]) (use d(2) in \<open>simp_all add: fun_eq_iff owner_contents unlinked_def
      contents_def unlinked_heap_data [of b "nodes nt", unfolded contents_def [symmetric]]\<close>)
  note f = free_ok [OF this, of a]
  have "chained (freed a (unlinked b ?nt)) (remove1 a xs)"
    by (rule chained_freed [OF b(3)]) (use d(4) in simp)
  moreover have "NODE_UNLOCK (freed a (unlinked b ?nt)) = reclaimed a nt"
    using b(1) d(1) by (simp add: NODE_UNLOCK_def reclaimed_def unlock_unchanged)
  then have "reclaimed a nt = (freed a (unlinked b ?nt))\<lparr>nt_locked := False\<rparr>" by (simp add: NODE_UNLOCK_def)
  ultimately show "node_table (reclaimed a nt) (remove1 a xs)"
    using f(2) b(4) by (simp add: node_table_def)
  show "wlan_node_reclaim a nt = Some (reclaimed a nt)"
    using node_table_lock [OF assms(1)] b(2,4) f(1) \<open>NODE_UNLOCK _ = _\<close> by (simp add: wlan_node_reclaim_def)
qed

lemma node_table_frame:
  assumes "node_table nt xs" "heap_ok nt'" "nt_locked nt' = nt_locked nt" "nt_node_first nt' = nt_node_first nt"
    "nt_node_last nt' = nt_node_last nt" "nt_hash nt' = nt_hash nt" "\<And>x. x \<in> set xs \<Longrightarrow> nodes nt' x = nodes nt x"
  shows "node_table nt' xs"
proof -
  have "chained nt' xs"
    by (rule chained_frame [OF node_tableD(3) [OF assms(1)] assms(4-6)]) (use assms(7) in auto)
  then show ?thesis using assms(1-3) by (simp add: node_table_def)
qed

lemma freed_outside: "node_table nt xs \<Longrightarrow> nodes nt a \<noteq> None \<Longrightarrow> a \<notin> set xs \<Longrightarrow> node_table (freed a nt) xs"
  by (rule node_table_frame [OF _ free_ok(2) [OF node_tableD(2)]]) (auto simp: freed_def)

lemma contents_reclaimed: "contents (reclaimed a nt) = (contents nt)(a := None)"
  by (simp add: reclaimed_def contents_freed)

lemma reclaimed_rest [simp]:
  "next_node (reclaimed a nt) = next_node nt" "next_buf (reclaimed a nt) = next_buf nt"
  "nt_nodeAge (reclaimed a nt) = nt_nodeAge nt" "nt_scangen (reclaimed a nt) = nt_scangen nt"
  by (simp_all add: reclaimed_def freed_def unlinked_def)

subsection \<open>Returning a reference\<close>

definition without_ref :: "nat \<Rightarrow> ieee80211_node_table \<Rightarrow> ieee80211_node_table" where
  "without_ref a nt = nt\<lparr>nodes := upd_at (Some a) (\<lambda>b. b\<lparr>ni_refcnt := ni_refcnt b - 1\<rparr>) (nodes nt)\<rparr>"

lemma node_table_unref: "node_table nt xs \<Longrightarrow> node_table (without_ref a nt) xs"
  unfolding without_ref_def by (rule node_table_write) simp_all

lemma dec_free_ok:
  assumes "contents nt a = Some c"
  shows "wlan_node_dec_free a nt = (if ni_refcnt c = 1 then wlan_node_free a (without_ref a nt) else Some (without_ref a nt))"
proof -
  obtain b where b: "nodes nt a = Some b" "c = data b" using assms by (auto simp: contents_Some)
  have "upd_node a (\<lambda>b. b\<lparr>ni_refcnt := ni_refcnt b - 1\<rparr>) nt = Some (without_ref a nt)"
    using b(1) by (auto simp: without_ref_def upd_node_def upd_at_def fun_eq_iff)
  then show ?thesis using b by (simp add: wlan_node_dec_free_def deref_def)
qed

lemma return_ok:
  assumes "node_table nt xs" "contents nt a = Some c" "ni_refcnt c \<noteq> 1"
  shows "wlan_node_return a nt = Some (without_ref a nt)"
proof -
  have "contents (nt\<lparr>nt_locked := True\<rparr>) a = Some c" using assms(2) by (simp add: contents_def)
  from dec_free_ok [OF this] assms(3) have "wlan_node_dec_free a (nt\<lparr>nt_locked := True\<rparr>) =
      Some (without_ref a (nt\<lparr>nt_locked := True\<rparr>))" by simp
  moreover have "NODE_UNLOCK (without_ref a (nt\<lparr>nt_locked := True\<rparr>)) = without_ref a nt"
    using node_tableD(1) [OF assms(1)] by (simp add: NODE_UNLOCK_def without_ref_def)
  ultimately show ?thesis using node_table_lock [OF assms(1)] by (simp add: wlan_node_return_def)
qed

subsection \<open>Adding a node\<close>

definition fresh_bss :: "ptr \<Rightarrow> bss" where
  "fresh_bss buf = \<lparr>ni_macaddr = replicate IEEE80211_ADDR_LEN 0, ni_snr = 0, ni_rssi = 0, ni_list_next = None,
     ni_list_prev = None, ni_hash_next = None, ni_hash_prev = None, ni_cie = zero_cie,
     ni_buf = buf, ni_framelen = 0, ni_frametype = 0, ni_refcnt = 0, ni_scangen = 0,
     ni_tstamp = 0, ni_actcnt = 0\<rparr>"

definition allocated :: "nat \<Rightarrow> ieee80211_node_table \<Rightarrow> ieee80211_node_table" where
  "allocated n nt = nt\<lparr>
     nodes := (nodes nt)(next_node nt \<mapsto> fresh_bss (if n = 0 then None else Some (next_buf nt))),
     next_node := Suc (next_node nt),
     bufs := (if n = 0 then bufs nt else (bufs nt)(next_buf nt \<mapsto> replicate n 0)),
     next_buf := (if n = 0 then next_buf nt else Suc (next_buf nt))\<rparr>"

lemma alloc_eq:
  "wlan_node_alloc ni_ok buf_ok n nt =
     (if ni_ok \<and> (n = 0 \<or> buf_ok) then (Some (next_node nt), allocated n nt) else (None, nt))"
  by (cases "n = 0") (simp_all add: wlan_node_alloc_def alloc_buf_def allocated_def fresh_bss_def Let_def)

lemma heap_ok_unused:
  assumes "heap_ok nt"
  shows "nodes nt (next_node nt) = None" "bufs nt (next_buf nt) = None" "owner nt a \<noteq> Some (m, Some (next_buf nt))"
proof -
  show "bufs nt (next_buf nt) = None" using assms unfolding heap_ok_def by (metis less_irrefl)
  then show "owner nt a \<noteq> Some (m, Some (next_buf nt))" using assms unfolding heap_ok_def by metis
  have "owner nt (next_node nt) = None"
    using assms unfolding heap_ok_def by (metis less_irrefl not_None_eq prod.exhaust)
  then show "nodes nt (next_node nt) = None" by (simp add: owner_def)
qed

lemma heap_ok_allocated:
  assumes "heap_ok nt"
  shows "heap_ok (allocated n nt)"
proof -
  let ?p = "if n = 0 then None else Some (next_buf nt)"
  have own: "owner (allocated n nt) x = (if x = next_node nt then Some (replicate 6 0, ?p) else owner nt x)" for x
    by (simp add: owner_def allocated_def fresh_bss_def)
  have keep: "bufs nt u \<noteq> None \<Longrightarrow> bufs (allocated n nt) u \<noteq> None"
    "n \<noteq> 0 \<Longrightarrow> bufs (allocated n nt) (next_buf nt) \<noteq> None" for u
    by (simp_all add: allocated_def)
  note u = heap_ok_unused [OF assms]
  show ?thesis
    unfolding heap_ok_def
  proof (intro conjI allI impI)
    fix x m p assume x: "owner (allocated n nt) x = Some (m, p)"
    show "x < next_node (allocated n nt)" "length m = 6"
      using x assms unfolding heap_ok_def own
      by (auto simp: allocated_def less_Suc_eq split: if_splits)
    show "bufs (allocated n nt) v \<noteq> None" if "p = Some v" for v
    proof (cases "x = next_node nt")
      case True
      then show ?thesis using x that keep(2) by (auto simp: own split: if_splits)
    next
      case False
      then have "bufs nt v \<noteq> None" using x that assms unfolding heap_ok_def by (auto simp: own)
      then show ?thesis by (rule keep(1))
    qed
  next
    fix x x' m m' v
    assume "owner (allocated n nt) x = Some (m, Some v) \<and> owner (allocated n nt) x' = Some (m', Some v)"
    then show "x = x'" using u(3) assms unfolding heap_ok_def own by (auto split: if_splits)
  next
    fix v assume "bufs (allocated n nt) v \<noteq> None"
    then show "v < next_buf (allocated n nt)"
      using assms unfolding heap_ok_def by (auto simp: allocated_def split: if_splits dest: less_SucI)
  qed
qed

lemma node_table_allocated:
  assumes "node_table nt xs"
  shows "node_table (allocated n nt) xs" "next_node nt \<notin> set xs"
proof -
  note d = node_tableD [OF assms]
  show n: "next_node nt \<notin> set xs"
    using heap_ok_unused(1) [OF d(2)] node_table_node [OF assms] by (metis option.distinct(1))
  show "node_table (allocated n nt) xs"
    using assms heap_ok_allocated [OF d(2)] by (rule node_table_frame) (use n in \<open>auto simp: allocated_def\<close>)
qed

text \<open>The node as \<open>wlan_setup_node\<close> fills it in, and the two insertions.\<close>

definition set_up :: "32 word \<Rightarrow> bytes \<Rightarrow> bss \<Rightarrow> bss" where
  "set_up now mac b = b\<lparr>ni_macaddr := take IEEE80211_ADDR_LEN mac, ni_refcnt := 1, ni_tstamp := now,
     ni_actcnt := WLAN_NODE_INACT_CNT\<rparr>"

definition appended :: "32 word \<Rightarrow> nat \<Rightarrow> bytes \<Rightarrow> bss \<Rightarrow> ieee80211_node_table \<Rightarrow> ieee80211_node_table" where
  "appended now a mac b nt = nt\<lparr>
     nodes := upd_at (nt_node_last nt) (list_next_to (Some a))
       ((nodes nt)(a \<mapsto> list_prev_to (nt_node_last nt) (list_next_to None (set_up now mac b)))),
     nt_node_last := Some a,
     nt_node_first := (if nt_node_first nt = None then Some a else nt_node_first nt)\<rparr>"

definition pushed :: "nat \<Rightarrow> nat \<Rightarrow> ieee80211_node_table \<Rightarrow> ieee80211_node_table" where
  "pushed a k nt = nt\<lparr>
     nodes := upd_at (nt_hash nt k) (hash_prev_to (Some a))
       ((nodes nt)(a \<mapsto> hash_prev_to None (hash_next_to (nt_hash nt k) (the (nodes nt a))))),
     nt_hash := (nt_hash nt)(k := Some a)\<rparr>"

lemma setup_eq:
  assumes "nodes nt a = Some b" "\<not> nt_locked nt"
    and "nt_node_last nt \<noteq> Some a" "nt_node_last nt = None \<or> nodes nt (the (nt_node_last nt)) \<noteq> None"
    and "nt_hash nt (IEEE80211_NODE_HASH mac) \<noteq> Some a"
      "nt_hash nt (IEEE80211_NODE_HASH mac) = None \<or> nodes nt (the (nt_hash nt (IEEE80211_NODE_HASH mac))) \<noteq> None"
  shows "wlan_setup_node now a mac nt = Some (pushed a (IEEE80211_NODE_HASH mac) (appended now a mac b nt))"
proof -
  let ?k = "IEEE80211_NODE_HASH mac"
  have locked: "nt\<lparr>nt_locked := False\<rparr> = nt" using assms(2) by (rule unlock_unchanged)
  define l where "l = nt_node_last nt"
  define k where "k = nt_hash nt ?k"
  have l: "l \<noteq> Some a" "l = None \<or> nodes nt (the l) \<noteq> None" and k: "k \<noteq> Some a" "k = None \<or> nodes nt (the k) \<noteq> None"
    using assms(3-6) by (simp_all add: l_def k_def)
  define b2 where "b2 = set_up now mac b"
  define b3 where "b3 = list_prev_to l (list_next_to None b2)"
  define n3 where "n3 = nt\<lparr>nodes := (nodes nt)(a \<mapsto> b2), nt_locked := True\<rparr>"
  define n4 where "n4 = n3\<lparr>nodes := (nodes nt)(a \<mapsto> b3)\<rparr>"
  define n5 where "n5 = n4\<lparr>nodes := upd_at l (list_next_to (Some a)) (nodes n4)\<rparr>"
  define n6 where "n6 = n5\<lparr>nt_node_last := Some a, nt_node_first := (if nt_node_first nt = None then Some a else nt_node_first nt)\<rparr>"
  define n7 where "n7 = n6\<lparr>nodes := (nodes n6)(a \<mapsto> hash_next_to k b3)\<rparr>"
  define n8 where "n8 = n7\<lparr>nodes := upd_at k (hash_prev_to (Some a)) (nodes n7)\<rparr>"
  define n9 where "n9 = n8\<lparr>nodes := (nodes n8)(a \<mapsto> hash_prev_to None (hash_next_to k b3))\<rparr>"
  have at: "nodes n5 a = Some b3" "nodes n6 a = Some b3" "nodes n8 a = Some (hash_next_to k b3)"
    using l(1) k(1) by (simp_all add: n8_def n7_def n6_def n5_def n4_def)
  have lk: "nt_node_last n3 = l" "nt_node_last n4 = l" "nt_node_first n5 = nt_node_first nt" "nt_hash n6 ?k = k"
    "nt_hash n7 ?k = k" "nt_hash n9 = nt_hash nt"
    by (simp_all add: n9_def n8_def n7_def n6_def n5_def n4_def n3_def l_def k_def)
  have s3: "NODE_LOCK (nt\<lparr>nodes := (nodes nt)(a \<mapsto> b2)\<rparr>) = Some n3"
    using assms(2) by (simp add: NODE_LOCK_def n3_def)
  have s4: "upd_node a (\<lambda>b. b\<lparr>ni_list_next := None, ni_list_prev := l\<rparr>) n3 = Some n4"
    by (simp add: upd_node_def n4_def n3_def b3_def)
  have s5: "(case l of None \<Rightarrow> Some n4 | Some x \<Rightarrow> upd_node x (\<lambda>b. b\<lparr>ni_list_next := Some a\<rparr>) n4) = Some n5"
    using upd_node_opt [of l n4 "\<lambda>x. x" "list_next_to (Some a)"] l by (auto simp: n5_def n4_def)
  have s7: "upd_node a (\<lambda>b. b\<lparr>ni_hash_next := k\<rparr>) n6 = Some n7"
    using at by (simp add: upd_node_def n7_def)
  have "nodes n7 x \<noteq> None" if "nodes nt x \<noteq> None" for x
    using that by (simp add: n7_def n6_def n5_def n4_def del: not_None_eq)
  then have s8: "(case k of None \<Rightarrow> Some n7 | Some x \<Rightarrow> upd_node x (\<lambda>b. b\<lparr>ni_hash_prev := Some a\<rparr>) n7) = Some n8"
    using upd_node_opt [of k n7 "\<lambda>x. x" "hash_prev_to (Some a)"] k(2) by (auto simp: n8_def)
  have s9: "upd_node a (\<lambda>b. b\<lparr>ni_hash_prev := None\<rparr>) n8 = Some n9"
    using at by (simp add: upd_node_def n9_def)
  have "(upd_at k f (h(a \<mapsto> x)))(a \<mapsto> y) = upd_at k f (h(a \<mapsto> y))" for f and h :: "nat \<Rightarrow> bss option" and x y
    using k(1) by (auto simp: upd_at_def fun_eq_iff)
  moreover have "nodes (appended now a mac b nt) a = Some b3"
    using l(1) by (simp add: appended_def l_def [symmetric] b3_def b2_def)
  moreover have "nodes n6 = nodes (appended now a mac b nt)" "nt_hash (appended now a mac b nt) ?k = k"
    by (simp_all add: appended_def n6_def n5_def n4_def b3_def b2_def l_def k_def)
  ultimately have "NODE_UNLOCK (n9\<lparr>nt_hash := (nt_hash n9)(?k := Some a)\<rparr>) = pushed a ?k (appended now a mac b nt)"
    using locked
    by (simp add: pushed_def n9_def n8_def n7_def NODE_UNLOCK_def)
      (cases nt, simp add: n6_def n5_def n4_def n3_def appended_def)
  moreover have "(if nt_node_first (n5\<lparr>nt_node_last := Some a\<rparr>) = None
      then n5\<lparr>nt_node_last := Some a, nt_node_first := Some a\<rparr> else n5\<lparr>nt_node_last := Some a\<rparr>) = n6"
    using lk(3) by (cases n5) (simp add: n6_def)
  ultimately show ?thesis
    using assms(1) s3 s4 s5 s7 s8 s9 lk
    by (simp add: wlan_setup_node_def wlan_node_update_timestamp_def upd_node_Some b2_def set_up_def)
qed

lemma data_upd_at: "(\<And>b. data (f b) = data b) \<Longrightarrow> map_option data (upd_at p f h x) = map_option data (h x)"
  by (cases "h x") (simp_all add: upd_at_def)

lemma data_set_up [simp]: "data (set_up now mac b) = set_up now mac (data b)"
  by (simp add: set_up_def)

lemma setup_ok:
  assumes "node_table nt xs" "nodes nt a = Some b" "a \<notin> set xs" "length mac = IEEE80211_ADDR_LEN"
  shows "\<exists>nt'. wlan_setup_node now a mac nt = Some nt' \<and> node_table nt' (xs @ [a]) \<and>
    contents nt' = (contents nt)(a \<mapsto> set_up now mac (data b)) \<and> rest nt' = rest nt"
proof -
  let ?k = "IEEE80211_NODE_HASH mac" and ?n = "appended now a mac b nt"
  define nt' where "nt' = pushed a ?k ?n"
  define b3 where "b3 = list_prev_to (nt_node_last nt) (list_next_to None (set_up now mac b))"
  note d = node_tableD [OF assms(1)]
  note c = chainedD [OF d(3)]
  have l: "nt_node_last nt \<noteq> Some a" "nt_hash nt ?k \<noteq> Some a"
    using c(3) c(5) [OF hash_less [of mac]] assms(3) by (auto simp: set_bucket dest!: head_in)
  have v: "nt_node_last nt = None \<or> nodes nt (the (nt_node_last nt)) \<noteq> None"
    "nt_hash nt ?k = None \<or> nodes nt (the (nt_hash nt ?k)) \<noteq> None"
    using neighbour_valid [OF c(4)] neighbour_valid [OF c(6) [OF hash_less [of mac]]] c(3) c(5) [OF hash_less [of mac]] by simp_all
  have run: "wlan_setup_node now a mac nt = Some nt'"
    unfolding nt'_def using assms(2) d(1) by (rule setup_eq) (use l v in simp_all)
  have na: "nodes ?n a = Some b3" using l(1) by (simp add: appended_def b3_def)
  have hk: "nt_hash ?n = nt_hash nt" by (simp add: appended_def)
  have cn: "contents nt' = (contents nt)(a \<mapsto> set_up now mac (data b))"
  proof
    fix x
    have "contents ?n x = ((contents nt)(a \<mapsto> set_up now mac (data b))) x"
      by (simp add: contents_def appended_def data_upd_at)
    moreover have "contents nt' x = contents ?n x"
      using na by (simp add: contents_def nt'_def pushed_def data_upd_at)
    ultimately show "contents nt' x = ((contents nt)(a \<mapsto> set_up now mac (data b))) x" by simp
  qed
  have mac: "mac_of nt' x = (if x = a then mac else mac_of nt x)" for x
    using assms(4) by (simp add: mac_of_def cn set_up_def)
  have bucket: "bucket nt' (xs @ [a]) i = (if i = ?k then a # bucket nt xs i else bucket nt xs i)" for i
  proof -
    have "filter (\<lambda>x. IEEE80211_NODE_HASH (mac_of nt' x) = i) xs = filter (\<lambda>x. IEEE80211_NODE_HASH (mac_of nt x) = i) xs"
      using assms(3) by (intro filter_cong) (auto simp: mac)
    then show ?thesis by (simp add: bucket_def mac)
  qed
  have f: "nt_hash nt' = (nt_hash nt)(?k := Some a)" "nt_node_first nt' = nt_node_first ?n" "nt_node_last nt' = Some a"
    "nodes nt' = upd_at (nt_hash nt ?k) (hash_prev_to (Some a)) ((nodes ?n)(a \<mapsto> hash_prev_to None (hash_next_to (nt_hash nt ?k) b3)))"
    using na hk by (simp_all add: nt'_def pushed_def appended_def)
  have "list_linked ((nodes nt)(a \<mapsto> set_up now mac b)) xs"
    using c(4) by (rule linked_frame) (use assms(3) in auto)
  from list_links.linked_append [OF this assms(3)] have L: "list_linked (nodes ?n) (xs @ [a])"
    by (simp add: appended_def c(3))
  have "list_linked (nodes nt') (xs @ [a])"
    using L by (rule linked_frame) (use na in \<open>auto simp: f upd_at_def\<close>)
  moreover have "hash_linked (nodes nt') (bucket nt' (xs @ [a]) i)" "nt_hash nt' i = head (bucket nt' (xs @ [a]) i)"
    if i: "i < 32" for i
  proof -
    have a: "a \<notin> set (bucket nt xs i)" using assms(3) by (simp add: set_bucket)
    have H: "hash_linked (nodes ?n) (bucket nt xs i)"
      using c(6) [OF i] by (rule linked_frame) (use a in \<open>auto simp: appended_def upd_at_def\<close>)
    show "nt_hash nt' i = head (bucket nt' (xs @ [a]) i)"
      using c(5) [OF i] by (simp add: bucket f)
    show "hash_linked (nodes nt') (bucket nt' (xs @ [a]) i)"
    proof (cases "i = ?k")
      case True
      then show ?thesis
        using hash_links.linked_push [OF H a na] c(5) [OF i] by (simp add: bucket f)
    next
      case False
      have "head (bucket nt xs ?k) \<noteq> Some x" if "x \<in> set (bucket nt xs i)" for x
        using that False by (auto simp: set_bucket dest!: head_in)
      then have "hash_linked (nodes nt') (bucket nt xs i)"
        using c(5) [OF hash_less [of mac]] a
        by (intro linked_frame [OF H]) (auto simp: f upd_at_def)
      then show ?thesis using False by (simp add: bucket)
    qed
  qed
  moreover have "nt_node_first nt' = head (xs @ [a])" "nt_node_last nt' = head (rev (xs @ [a]))"
    using c(2) by (simp_all add: f appended_def)
  ultimately have ch: "chained nt' (xs @ [a])" by (simp add: chained_def)
  have r: "rest nt' = rest nt" "nt_locked nt' = nt_locked nt" by (simp_all add: rest_def nt'_def pushed_def appended_def)
  have own: "owner nt' x = (if x = a then Some (mac, ni_buf b) else owner nt x)" for x
    using assms(4) by (simp add: owner_contents cn set_up_def)
  have "owner nt a = Some (ni_macaddr b, ni_buf b)" using assms(2) by (simp add: owner_def)
  then have "heap_ok nt'"
    using d(2) r(1) assms(4) unfolding heap_ok_def rest_def own by (auto split: if_splits)
  then show ?thesis using run ch cn r d(1) by (simp add: node_table_def)
qed

end
