(* ===== verification/NodeWalks.thy ===== *)
theory NodeWalks
  imports NodeOps
begin

text \<open>The operations that walk the list of nodes.\<close>

lemma table_first: "node_table nt xs \<Longrightarrow> nt_node_first nt = head xs"
  by (simp add: node_table_def chained_def)

lemma rest_lock [simp]: "rest (nt\<lparr>nt_locked := l\<rparr>) = rest nt"
  by (simp add: rest_def)

subsection \<open>Freeing everything\<close>

lemma contents_frame:
  "(\<And>x. nodes nt' x = nodes nt x) \<Longrightarrow> contents nt' = contents nt"
  by (simp add: contents_def fun_eq_iff)

lemma free_allnodes_ok:
  "node_table nt xs \<Longrightarrow> \<exists>nt'. wlan_free_allnodes nt = Some nt' \<and> node_table nt' [] \<and>
     contents nt' = (\<lambda>a. if a \<in> set xs then None else contents nt a)"
proof (induction xs arbitrary: nt)
  case Nil
  then show ?case using table_first [OF Nil] by (intro exI [of _ nt]) (simp add: wlan_free_allnodes.simps)
next
  case (Cons a xs)
  note r = reclaim_ok [OF Cons.prems, of a]
  then have "node_table (reclaimed a nt) xs" by simp
  from Cons.IH [OF this] obtain nt' where "wlan_free_allnodes (reclaimed a nt) = Some nt'" "node_table nt' []"
    "contents nt' = (\<lambda>x. if x \<in> set xs then None else contents (reclaimed a nt) x)" by blast
  then show ?case using r(1) table_first [OF Cons.prems]
    by (intro exI [of _ nt']) (auto simp: wlan_free_allnodes.simps [of nt] contents_reclaimed fun_eq_iff)
qed

subsection \<open>Removing by address\<close>

definition taken_out :: "ptr \<Rightarrow> ieee80211_node_table \<Rightarrow> ieee80211_node_table" where
  "taken_out p nt = (case p of None \<Rightarrow> nt | Some a \<Rightarrow> unlinked (the (nodes nt a)) nt)"

lemma remove_walk_ok:
  assumes "chained nt (zs @ ys)" "p = find (\<lambda>a. mac_of nt a = take IEEE80211_ADDR_LEN mac) ys"
  shows "remove_walk mac (head ys) nt = Some (p, taken_out p nt)"
  using assms
proof (induction ys arbitrary: zs)
  case Nil
  then show ?case by (simp add: remove_walk.simps taken_out_def)
next
  case (Cons a ys)
  obtain b where b: "nodes nt a = Some b" "wlan_node_remove_core a nt = Some (unlinked b nt)"
    using remove_core_ok [OF Cons.prems(1), of a] by auto
  obtain b' where "nodes nt a = Some b'" "ni_list_next b' = next_in (zs @ a # ys) a"
    by (rule chained_node [OF Cons.prems(1), of a]) simp
  then have "ni_list_next b = head ys" using chainedD(1) [OF Cons.prems(1)] b(1) by simp
  moreover have "mac_of nt a = ni_macaddr b" using b(1) by (simp add: mac_of_def contents_def)
  ultimately show ?case using b Cons.IH [of "zs @ [a]"] Cons.prems
    by (simp add: remove_walk.simps [of _ "Some a"] deref_def taken_out_def)
qed

lemma remove_ok:
  assumes "node_table nt xs" "length mac = IEEE80211_ADDR_LEN" "p = find (\<lambda>a. mac_of nt a = mac) xs"
  shows "wlan_node_remove mac nt = Some (p, taken_out p nt)"
    "node_table (taken_out p nt) (case p of None \<Rightarrow> xs | Some a \<Rightarrow> remove1 a xs)"
proof -
  let ?nt = "nt\<lparr>nt_locked := True\<rparr>"
  note d = node_tableD [OF assms(1)]
  have c: "chained ?nt ([] @ xs)" using d(3) by simp
  have "mac_of ?nt = mac_of nt" by (simp add: mac_of_def contents_def fun_eq_iff)
  then have "remove_walk mac (head xs) ?nt = Some (p, taken_out p ?nt)"
    using remove_walk_ok [OF c, of p mac] assms(2,3) by simp
  moreover have "NODE_UNLOCK (taken_out p ?nt) = taken_out p nt"
    using d(1) by (simp add: NODE_UNLOCK_def taken_out_def unlock_unchanged split: option.split)
  ultimately show "wlan_node_remove mac nt = Some (p, taken_out p nt)"
    using node_table_lock [OF assms(1)] table_first [OF assms(1)] by (simp add: wlan_node_remove_def)
  show "node_table (taken_out p nt) (case p of None \<Rightarrow> xs | Some a \<Rightarrow> remove1 a xs)"
  proof (cases p)
    case None
    then show ?thesis using assms(1) by (simp add: taken_out_def)
  next
    case (Some a)
    then have a: "a \<in> set xs" using assms(3) by (auto simp: find_Some_iff)
    obtain b where b: "nodes nt a = Some b" "chained (unlinked b nt) (remove1 a xs)"
      by (rule remove_core_ok [OF d(3) a])
    have "heap_ok (unlinked b nt)"
      by (rule heap_ok_cong [of _ nt]) (use d(2) in \<open>simp_all add: fun_eq_iff owner_contents unlinked_def
        contents_def unlinked_heap_data [of b "nodes nt", unfolded contents_def [symmetric]]\<close>)
    then show ?thesis using Some b d(1) by (simp add: taken_out_def node_table_def)
  qed
qed

subsection \<open>Ageing\<close>

text \<open>Whether a node is dropped, and what becomes of one that stays.\<close>

definition expired :: "32 word \<Rightarrow> 32 word \<Rightarrow> bytes \<Rightarrow> bss \<Rightarrow> bool" where
  "expired now age my b \<longleftrightarrow> ni_macaddr b \<noteq> my \<and> (now - ni_tstamp b > age \<or> ni_actcnt b = 1)"

definition aged :: "32 word \<Rightarrow> 32 word \<Rightarrow> bytes \<Rightarrow> bss \<Rightarrow> bss option" where
  "aged now age my b = (if expired now age my b then None
     else Some (if ni_macaddr b = my then b else b\<lparr>ni_actcnt := ni_actcnt b - 1\<rparr>))"

lemma refresh_step:
  assumes "node_table nt xs" "a \<in> set xs" "contents nt a = Some c"
  shows "\<exists>b nt'. deref a nt = Some b \<and> ni_list_next b = next_in xs a \<and>
    (if my \<noteq> ni_macaddr b then
       if now - ni_tstamp b > nt_nodeAge nt then wlan_node_reclaim a nt
       else do {
         nt \<leftarrow> upd_node a (\<lambda>b. b\<lparr>ni_actcnt := ni_actcnt b - 1\<rparr>) nt;
         if ni_actcnt b - 1 = 0 then wlan_node_reclaim a nt else Some nt
       }
     else Some nt) = Some nt' \<and> nt_nodeAge nt' = nt_nodeAge nt \<and>
    node_table nt' (if expired now (nt_nodeAge nt) my c then remove1 a xs else xs) \<and>
    contents nt' = (contents nt)(a := aged now (nt_nodeAge nt) my c)"
proof -
  obtain b where b: "nodes nt a = Some b" "contents nt a = Some (data b)" "ni_list_next b = next_in xs a"
    by (rule node_table_node [OF assms(1,2)])
  then have c: "c = data b" using assms(3) by simp
  let ?w = "nt\<lparr>nodes := upd_at (Some a) (\<lambda>b. b\<lparr>ni_actcnt := ni_actcnt b - 1\<rparr>) (nodes nt)\<rparr>"
  have w: "node_table ?w xs" by (rule node_table_write [OF assms(1)]) simp
  have "upd_node a (\<lambda>b. b\<lparr>ni_actcnt := ni_actcnt b - 1\<rparr>) nt = Some ?w"
    using b(1) by (auto simp: upd_node_def upd_at_def fun_eq_iff)
  moreover have "contents ?w = (contents nt)(a \<mapsto> (data b)\<lparr>ni_actcnt := ni_actcnt b - 1\<rparr>)"
    using b(1) by (auto simp: contents_def upd_at_def fun_eq_iff)
  moreover have "(contents nt)(a \<mapsto> data b) = contents nt" using b(2) by (auto simp: fun_eq_iff)
  ultimately show ?thesis
    using b reclaim_ok [OF assms(1,2)] reclaim_ok [OF w assms(2)] w assms(1)
    by (auto simp: deref_def c expired_def aged_def contents_reclaimed)
qed

lemma refresh_walk_ok:
  assumes "node_table nt (zs @ ys)" "age = nt_nodeAge nt"
  shows "\<exists>nt'. refresh_walk now my (head ys) nt = Some nt' \<and>
    node_table nt' (zs @ filter (\<lambda>a. \<not> expired now age my (the (contents nt a))) ys) \<and>
    contents nt' = (\<lambda>a. if a \<in> set ys then aged now age my (the (contents nt a)) else contents nt a)"
  using assms
proof (induction ys arbitrary: zs nt)
  case Nil
  then show ?case by (simp add: refresh_walk.simps)
next
  case (Cons a ys)
  let ?xs = "zs @ a # ys"
  have dist: "distinct ?xs" by (rule node_tableD(4) [OF Cons.prems(1)])
  obtain c where c: "contents nt a = Some c" by (rule node_table_node [OF Cons.prems(1), of a]) auto
  obtain b nt1 where s: "deref a nt = Some b" "ni_list_next b = next_in ?xs a"
    "(if my \<noteq> ni_macaddr b then
       if now - ni_tstamp b > nt_nodeAge nt then wlan_node_reclaim a nt
       else do {
         nt \<leftarrow> upd_node a (\<lambda>b. b\<lparr>ni_actcnt := ni_actcnt b - 1\<rparr>) nt;
         if ni_actcnt b - 1 = 0 then wlan_node_reclaim a nt else Some nt
       }
     else Some nt) = Some nt1" "nt_nodeAge nt1 = nt_nodeAge nt"
    "node_table nt1 (if expired now (nt_nodeAge nt) my c then remove1 a ?xs else ?xs)"
    "contents nt1 = (contents nt)(a := aged now (nt_nodeAge nt) my c)"
    using refresh_step [OF Cons.prems(1) _ c, of my now] by auto
  define zs' where "zs' = (if expired now age my c then zs else zs @ [a])"
  have "node_table nt1 (zs' @ ys)"
    using s(5) dist Cons.prems(2) by (simp add: zs'_def remove1_append split: if_splits)
  from Cons.IH [OF this] s(4) Cons.prems(2) obtain nt' where nt': "refresh_walk now my (head ys) nt1 = Some nt'"
    "node_table nt' (zs' @ filter (\<lambda>a. \<not> expired now age my (the (contents nt1 a))) ys)"
    "contents nt' = (\<lambda>a. if a \<in> set ys then aged now age my (the (contents nt1 a)) else contents nt1 a)"
    by auto
  have other: "contents nt1 x = contents nt x" if "x \<in> set ys" for x using s(6) dist that by auto
  have "ni_list_next b = head ys" using s(2) dist by simp
  then have "refresh_walk now my (head (a # ys)) nt = Some nt'"
    using s(1,3) nt'(1) by (simp add: refresh_walk.simps [of _ _ "Some a"] Let_def)
  moreover have "zs' @ filter (\<lambda>a. \<not> expired now age my (the (contents nt1 a))) ys =
      zs @ filter (\<lambda>a. \<not> expired now age my (the (contents nt a))) (a # ys)"
    using other c by (auto simp: zs'_def cong: filter_cong)
  moreover have "contents nt' = (\<lambda>x. if x \<in> set (a # ys) then aged now age my (the (contents nt x)) else contents nt x)"
    using nt'(3) other s(6) c Cons.prems(2) dist by (auto simp: fun_eq_iff)
  ultimately show ?case using nt'(2) by auto
qed

subsection \<open>Iterating\<close>

text \<open>A callback may change what it likes in the node except links, address, buffer and the two counters
  of the table.\<close>

definition obedient :: "('s \<Rightarrow> bss \<Rightarrow> 's \<times> bss) \<Rightarrow> bool" where
  "obedient f \<longleftrightarrow> (\<forall>s b. keeps_structure (\<lambda>b. snd (f s b)) \<and> ni_refcnt (snd (f s b)) = ni_refcnt b \<and>
     ni_scangen (snd (f s b)) = ni_scangen b)"

definition visited :: "('s \<Rightarrow> bss \<Rightarrow> 's \<times> bss) \<Rightarrow> 32 word \<Rightarrow> 's \<Rightarrow> bss \<Rightarrow> 's \<times> bss" where
  "visited f gen s b = (if ni_scangen b = gen then (s, b)
     else let (s, b') = f s (b\<lparr>ni_scangen := gen, ni_refcnt := ni_refcnt b + 1\<rparr>)
       in (s, b'\<lparr>ni_refcnt := ni_refcnt b' - 1\<rparr>))"

fun visit_all :: "('s \<Rightarrow> bss \<Rightarrow> 's \<times> bss) \<Rightarrow> 32 word \<Rightarrow> nat list \<Rightarrow> 's \<Rightarrow> (nat \<Rightarrow> bss option) \<Rightarrow>
    's \<times> (nat \<Rightarrow> bss option)" where
  "visit_all f gen [] s h = (s, h)"
| "visit_all f gen (a # xs) s h = (let (s, b) = visited f gen s (the (h a)) in visit_all f gen xs s (h(a \<mapsto> b)))"

lemma visited_structure:
  assumes "obedient f" "visited f gen s b = (s', b')"
  shows "ni_list_next b' = ni_list_next b" "ni_list_prev b' = ni_list_prev b" "ni_hash_next b' = ni_hash_next b"
    "ni_hash_prev b' = ni_hash_prev b" "ni_macaddr b' = ni_macaddr b" "ni_buf b' = ni_buf b"
    "ni_refcnt b' = ni_refcnt b" "ni_scangen b' = gen"
proof -
  define c where "c = b\<lparr>ni_scangen := gen, ni_refcnt := ni_refcnt b + 1\<rparr>"
  have "keeps_structure (\<lambda>b. snd (f s b))" "ni_refcnt (snd (f s c)) = ni_refcnt c" "ni_scangen (snd (f s c)) = ni_scangen c"
    using assms(1) by (simp_all add: obedient_def)
  moreover have "b' = (if ni_scangen b = gen then b else (snd (f s c))\<lparr>ni_refcnt := ni_refcnt (snd (f s c)) - 1\<rparr>)"
    using assms(2) by (auto simp: visited_def c_def split: if_splits prod.splits)
  ultimately show "ni_list_next b' = ni_list_next b" "ni_list_prev b' = ni_list_prev b" "ni_hash_next b' = ni_hash_next b"
    "ni_hash_prev b' = ni_hash_prev b" "ni_macaddr b' = ni_macaddr b" "ni_buf b' = ni_buf b"
    "ni_refcnt b' = ni_refcnt b" "ni_scangen b' = gen"
    by (simp_all add: keeps_structure_def c_def)
qed

lemma iterate_step:
  assumes "obedient f" "nodes nt a = Some b" "ni_refcnt b \<noteq> 0" "visited f gen s b = (s', b')"
  shows "(if ni_scangen b \<noteq> gen then do {
             nt \<leftarrow> upd_node a (\<lambda>b. b\<lparr>ni_scangen := gen, ni_refcnt := ni_refcnt b + 1\<rparr>) nt;
             b \<leftarrow> deref a nt;
             let (s, b') = f s b;
             nt \<leftarrow> upd_node a (\<lambda>_. b') nt;
             nt \<leftarrow> wlan_node_dec_free a nt;
             Some (s, nt)
           } else Some (s, nt)) = Some (s', nt\<lparr>nodes := (nodes nt)(a \<mapsto> b')\<rparr>)"
proof (cases "ni_scangen b = gen")
  case True
  then show ?thesis using assms(2,4) by (simp add: visited_def fun_upd_idem)
next
  case False
  define c where "c = b\<lparr>ni_scangen := gen, ni_refcnt := ni_refcnt b + 1\<rparr>"
  obtain c' where c': "f s c = (s', c')" "b' = c'\<lparr>ni_refcnt := ni_refcnt c' - 1\<rparr>"
    using assms(4) False by (auto simp: visited_def c_def split: prod.splits)
  have "ni_refcnt c' = ni_refcnt b + 1" using assms(1) c'(1) by (auto simp: obedient_def c_def dest!: spec [of _ s] spec [of _ c])
  then have r: "ni_refcnt c' \<noteq> 1" using assms(3) by simp
  show ?thesis
    using False assms(2) c' r
    by (simp add: upd_node_Some deref_def c_def [symmetric] wlan_node_dec_free_def)
qed

lemma iterate_walk_ok:
  assumes "obedient f" "chained nt (zs @ ys)" "\<forall>a \<in> set ys. ni_refcnt (the (contents nt a)) \<noteq> 0"
    "visit_all f gen ys s (nodes nt) = (s', h)"
  shows "iterate_walk f gen (head ys) s nt = Some (s', nt\<lparr>nodes := h\<rparr>)"
  using assms(2-4)
proof (induction ys arbitrary: zs nt s)
  case Nil
  then show ?case by (simp add: iterate_walk.simps)
next
  case (Cons a ys)
  have dist: "distinct (zs @ a # ys)" by (rule chainedD(1) [OF Cons.prems(1)])
  obtain b where b: "nodes nt a = Some b" "ni_list_next b = next_in (zs @ a # ys) a"
    by (rule chained_node [OF Cons.prems(1), of a]) simp
  then have nb: "ni_list_next b = head ys" using dist by simp
  obtain s1 b1 where v: "visited f gen s b = (s1, b1)" by fastforce
  note vs = visited_structure [OF assms(1) v]
  let ?nt = "nt\<lparr>nodes := (nodes nt)(a \<mapsto> b1)\<rparr>"
  have r: "ni_refcnt b \<noteq> 0" using Cons.prems(2) b(1) by (simp add: contents_def)
  have "chained ?nt (zs @ a # ys)"
    using Cons.prems(1) by (rule chained_frame) (use b vs in auto)
  then have ch: "chained ?nt ((zs @ [a]) @ ys)" by simp
  have "visit_all f gen ys s1 (nodes ?nt) = (s', h)" using Cons.prems(3) b(1) v by simp
  moreover have "\<forall>x \<in> set ys. ni_refcnt (the (contents ?nt x)) \<noteq> 0"
    using Cons.prems(2) dist by (auto simp: contents_def)
  ultimately have "iterate_walk f gen (head ys) s1 ?nt = Some (s', ?nt\<lparr>nodes := h\<rparr>)"
    using Cons.IH [OF ch] by blast
  then show ?case
    using iterate_step [OF assms(1) b(1) r v] b(1) nb vs(1)
    by (simp add: iterate_walk.simps [of _ _ "Some a"] deref_def)
qed

lemma visit_all_structure:
  assumes "obedient f" "visit_all f gen xs s h = (s', h')" "h x = Some b"
  shows "\<exists>b'. h' x = Some b' \<and> ni_list_next b' = ni_list_next b \<and> ni_list_prev b' = ni_list_prev b \<and>
    ni_hash_next b' = ni_hash_next b \<and> ni_hash_prev b' = ni_hash_prev b \<and> ni_macaddr b' = ni_macaddr b \<and>
    ni_buf b' = ni_buf b \<and> ni_refcnt b' = ni_refcnt b \<and> (ni_scangen b' = gen \<or> ni_scangen b' = ni_scangen b)"
  using assms(2,3)
proof (induction xs arbitrary: s h b)
  case (Cons a xs)
  obtain s1 b1 where v: "visited f gen s (the (h a)) = (s1, b1)" by fastforce
  note vs = visited_structure [OF assms(1) v]
  define b2 where "b2 = (if x = a then b1 else b)"
  have "(h(a \<mapsto> b1)) x = Some b2" using Cons.prems(2) by (simp add: b2_def)
  moreover have "visit_all f gen xs s1 (h(a \<mapsto> b1)) = (s', h')" using Cons.prems(1) v by simp
  ultimately obtain b' where "h' x = Some b'" "ni_list_next b' = ni_list_next b2"
    "ni_list_prev b' = ni_list_prev b2" "ni_hash_next b' = ni_hash_next b2" "ni_hash_prev b' = ni_hash_prev b2"
    "ni_macaddr b' = ni_macaddr b2" "ni_buf b' = ni_buf b2" "ni_refcnt b' = ni_refcnt b2"
    "ni_scangen b' = gen \<or> ni_scangen b' = ni_scangen b2"
    using Cons.IH by blast
  then show ?case using Cons.prems(2) vs by (auto simp: b2_def)
qed simp

lemma visit_all_outside: "visit_all f gen xs s h = (s', h') \<Longrightarrow> a \<notin> set xs \<Longrightarrow> h' a = h a"
  by (induction xs arbitrary: s h) (auto split: prod.splits)

lemma iterate_ok:
  assumes "node_table nt xs" "obedient f" "\<forall>a \<in> set xs. ni_refcnt (the (contents nt a)) \<noteq> 0"
    "visit_all f (nt_scangen nt + 1) xs s (nodes nt) = (s', h)" "nt' = nt\<lparr>nt_scangen := nt_scangen nt + 1, nodes := h\<rparr>"
  shows "wlan_iterate_nodes f s nt = Some (s', nt')" "node_table nt' xs"
    "\<And>a. map_option ni_refcnt (contents nt' a) = map_option ni_refcnt (contents nt a)"
proof -
  note d = node_tableD [OF assms(1)]
  let ?gen = "nt_scangen nt + 1"
  let ?nt = "nt\<lparr>nt_scangen := ?gen, nt_locked := True\<rparr>"
  have c: "chained ?nt ([] @ xs)" using d(3) by (simp add: chained_def bucket_def mac_of_def contents_def)
  have "\<forall>a \<in> set xs. ni_refcnt (the (contents ?nt a)) \<noteq> 0" using assms(3) by (simp add: contents_def)
  from iterate_walk_ok [OF assms(2) c this, of ?gen s] assms(4)
  have "iterate_walk f ?gen (head xs) s ?nt = Some (s', ?nt\<lparr>nodes := h\<rparr>)" by simp
  moreover have "NODE_UNLOCK (?nt\<lparr>nodes := h\<rparr>) = nt'" using d(1) by (cases nt) (simp add: NODE_UNLOCK_def assms(5))
  ultimately show "wlan_iterate_nodes f s nt = Some (s', nt')"
    using d(1) table_first [OF assms(1)] by (simp add: wlan_iterate_nodes_def NODE_LOCK_def Let_def)
  have none: "h a = None \<longleftrightarrow> nodes nt a = None" for a
  proof (cases "a \<in> set xs")
    case True
    then obtain b where "nodes nt a = Some b" by (rule node_table_node [OF assms(1)])
    then show ?thesis using visit_all_structure [OF assms(2,4)] by fastforce
  next
    case False
    then show ?thesis using visit_all_outside [OF assms(4)] by simp
  qed
  note st = visit_all_structure [OF assms(2,4)]
  have own: "owner nt' = owner nt"
  proof
    fix a show "owner nt' a = owner nt a"
      using none [of a] st [of a] by (cases "nodes nt a") (auto simp: owner_def assms(5))
  qed
  show "map_option ni_refcnt (contents nt' a) = map_option ni_refcnt (contents nt a)" for a
    using none [of a] st [of a] by (cases "nodes nt a") (auto simp: contents_def assms(5))
  have "chained nt' xs"
    by (rule chained_frame [OF d(3)]) (use st in \<open>force simp: assms(5)\<close>)+
  moreover have "heap_ok nt'"
    by (rule heap_ok_cong [OF own _ _ _ d(2)]) (simp_all add: assms(5))
  ultimately show "node_table nt' xs" using d(1) by (simp add: node_table_def assms(5))
qed

end
