(* ===== verification/NodeSearch.thy ===== *)
theory NodeSearch
  imports NodeWalks
begin

text \<open>Replacing a node's frame buffer, and the searches by network name.\<close>

subsection \<open>The frame buffer\<close>

definition rebuffered :: "32 word \<Rightarrow> nat \<Rightarrow> nat \<Rightarrow> ieee80211_node_table \<Rightarrow> ieee80211_node_table" where
  "rebuffered now a len nt = nt\<lparr>
     nodes := upd_at (Some a) (\<lambda>b. b\<lparr>ni_buf := (if len = 0 then None else Some (next_buf nt)), ni_tstamp := now,
       ni_actcnt := WLAN_NODE_INACT_CNT\<rparr>) (nodes nt),
     bufs := (\<lambda>u. if len \<noteq> 0 \<and> u = next_buf nt then Some (replicate len 0)
       else if Option.bind (nodes nt a) ni_buf = Some u then None else bufs nt u),
     next_buf := (if len = 0 then next_buf nt else Suc (next_buf nt))\<rparr>"

lemma buf_update_ok:
  assumes "node_table nt xs" "nodes nt a = Some b" "buf_ok \<or> len = 0"
  shows "wlan_node_buf_update now buf_ok a len nt = Some (A_OK, rebuffered now a len nt)"
proof -
  note d = node_tableD [OF assms(1)]
  have "owner nt a = Some (ni_macaddr b, ni_buf b)" using assms(2) by (simp add: owner_def)
  then have u: "bufs nt u \<noteq> None" if "ni_buf b = Some u" for u using that d(2) unfolding heap_ok_def by blast
  have f: "(if u = next_buf nt then x else y) = ((\<lambda>v. y)(next_buf nt := x)) u" for u and x y :: "bytes option" by simp
  show ?thesis
  proof (cases "ni_buf b")
    case None
    then show ?thesis using assms d(1)
      by (cases "len = 0"; cases nt)
        (auto simp: wlan_node_buf_update_def NODE_LOCK_def deref_def rebuffered_def alloc_buf_def upd_node_def
          wlan_node_update_timestamp_def NODE_UNLOCK_def upd_at_def fun_eq_iff)
  next
    case (Some u)
    then obtain m where m: "bufs nt u = Some m" using u by blast
    then have "u \<noteq> next_buf nt" using heap_ok_unused(2) [OF d(2)] by auto
    then show ?thesis using assms d(1) Some m
      by (cases "len = 0"; cases nt)
        (auto simp: wlan_node_buf_update_def NODE_LOCK_def deref_def rebuffered_def alloc_buf_def upd_node_def
          wlan_node_update_timestamp_def NODE_UNLOCK_def upd_at_def fun_eq_iff free_buf_def)
  qed
qed

lemma buf_update_failed:
  assumes "node_table nt xs" "nodes nt a = Some b" "len \<noteq> 0"
  shows "\<exists>nt'. wlan_node_buf_update now False a len nt = Some (A_ERROR, nt') \<and> nt_locked nt' \<and>
    (\<exists>b'. nodes nt' a = Some b' \<and> ni_buf b' = None \<and> ni_refcnt b' = ni_refcnt b)"
proof -
  note d = node_tableD [OF assms(1)]
  have "owner nt a = Some (ni_macaddr b, ni_buf b)" using assms(2) by (simp add: owner_def)
  then have u: "bufs nt u \<noteq> None" if "ni_buf b = Some u" for u using that d(2) unfolding heap_ok_def by blast
  show ?thesis
  proof (cases "ni_buf b")
    case None
    then show ?thesis using assms d(1) by (simp add: wlan_node_buf_update_def NODE_LOCK_def deref_def)
  next
    case (Some u)
    then obtain m where "bufs nt u = Some m" using u by blast
    then show ?thesis using assms d(1) Some
      by (simp add: wlan_node_buf_update_def NODE_LOCK_def deref_def free_buf_def upd_node_def)
  qed
qed

lemma heap_ok_rebuffered:
  assumes "heap_ok nt" "nodes nt a = Some b"
  shows "heap_ok (rebuffered now a len nt)"
proof -
  let ?nt = "rebuffered now a len nt" and ?p = "if len = 0 then None else Some (next_buf nt)"
  note un = heap_ok_unused [OF assms(1)]
  have own: "owner ?nt x = (if x = a then Some (ni_macaddr b, ?p) else owner nt x)" for x
    using assms(2) by (simp add: owner_def rebuffered_def)
  have oa: "owner nt a = Some (ni_macaddr b, ni_buf b)" using assms(2) by (simp add: owner_def)
  have other: "ni_buf b \<noteq> Some u" "bufs nt u \<noteq> None" if "owner nt x = Some (m, Some u)" "x \<noteq> a" for x m u
    using assms(1) that oa unfolding heap_ok_def by metis+
  show ?thesis
    unfolding heap_ok_def
  proof (intro conjI allI impI)
    fix x m p assume x: "owner ?nt x = Some (m, p)"
    have "\<exists>p. owner nt x = Some (m, p)" using x oa by (auto simp: own split: if_splits)
    then show "x < next_node ?nt" "length m = 6"
      using assms(1) unfolding heap_ok_def by (auto simp: rebuffered_def)
    show "bufs ?nt u \<noteq> None" if "p = Some u" for u
    proof (cases "x = a")
      case True
      then have "len \<noteq> 0" "u = next_buf nt" using x that unfolding own by (auto split: if_splits)
      then show ?thesis by (simp add: rebuffered_def)
    next
      case False
      then have "owner nt x = Some (m, Some u)" using x that unfolding own by simp
      from other [OF this False] show ?thesis using assms(2) by (simp add: rebuffered_def)
    qed
  next
    fix x x' m m' u
    assume "owner ?nt x = Some (m, Some u) \<and> owner ?nt x' = Some (m', Some u)"
    then show "x = x'" using un(3) assms(1) unfolding heap_ok_def own by (auto split: if_splits)
  next
    fix u assume "bufs ?nt u \<noteq> None"
    then show "u < next_buf ?nt"
      using assms(1) unfolding heap_ok_def by (auto simp: rebuffered_def less_Suc_eq split: if_splits)
  qed
qed

lemma node_table_rebuffered:
  assumes "node_table nt xs" "nodes nt a = Some b"
  shows "node_table (rebuffered now a len nt) xs"
proof -
  note d = node_tableD [OF assms(1)]
  have "chained (rebuffered now a len nt) xs"
    using d(3) by (rule chained_frame) (auto simp: rebuffered_def upd_at_def)
  then show ?thesis using heap_ok_rebuffered [OF d(2) assms(2)] d(1) by (simp add: node_table_def rebuffered_def)
qed

subsection \<open>Searching by name\<close>

definition ssid_hit :: "bytes \<Rightarrow> ieee80211_node_table \<Rightarrow> nat \<Rightarrow> bool" where
  "ssid_hit ssid nt a \<longleftrightarrow> (\<exists>p. ie_ssid (ni_cie (the (contents nt a))) = Some p \<and> ssid_match ssid p nt = Some True)"

text \<open>The names of the listed nodes can be read.\<close>

definition ssids_readable :: "bytes \<Rightarrow> ieee80211_node_table \<Rightarrow> nat list \<Rightarrow> bool" where
  "ssids_readable ssid nt xs \<longleftrightarrow>
     (\<forall>a \<in> set xs. \<forall>p. ie_ssid (ni_cie (the (contents nt a))) = Some p \<longrightarrow> ssid_match ssid p nt \<noteq> None)"

definition wanted :: "bytes \<Rightarrow> bool \<Rightarrow> bool \<Rightarrow> ieee80211_node_table \<Rightarrow> nat \<Rightarrow> bool" where
  "wanted ssid wpa2 matchSSID nt a \<longleftrightarrow> (let c = ni_cie (the (contents nt a)) in
     ssid_hit ssid nt a \<and> (matchSSID \<or> wpa2 \<and> ie_rsn c \<noteq> None \<or> \<not> wpa2 \<and> ie_wpa c \<noteq> None))"

lemma walk_node:
  assumes "chained nt (zs @ a # ys)"
  obtains b where "nodes nt a = Some b" "contents nt a = Some (data b)" "ni_list_next b = head ys"
proof -
  obtain b where b: "nodes nt a = Some b" "ni_list_next b = next_in (zs @ a # ys) a"
    by (rule chained_node [OF assms, of a]) simp
  then show thesis using that chainedD(1) [OF assms] by (simp add: contents_def)
qed

lemma ssid_match_lock [simp]: "ssid_match ssid p (nt\<lparr>nt_locked := l\<rparr>) = ssid_match ssid p nt"
  by (simp add: ssid_match_def rd_ie_def blk_ie_def cong: if_cong)

lemma search_lock [simp]:
  "contents (nt\<lparr>nt_locked := l\<rparr>) = contents nt" "ssid_hit ssid (nt\<lparr>nt_locked := l\<rparr>) = ssid_hit ssid nt"
  "ssids_readable ssid (nt\<lparr>nt_locked := l\<rparr>) xs = ssids_readable ssid nt xs"
  "wanted ssid w m (nt\<lparr>nt_locked := l\<rparr>) = wanted ssid w m nt"
proof -
  show c: "contents (nt\<lparr>nt_locked := l\<rparr>) = contents nt" by (simp add: contents_def fun_eq_iff)
  show h: "ssid_hit ssid (nt\<lparr>nt_locked := l\<rparr>) = ssid_hit ssid nt" by (simp add: ssid_hit_def fun_eq_iff c)
  show "ssids_readable ssid (nt\<lparr>nt_locked := l\<rparr>) xs = ssids_readable ssid nt xs" by (simp add: ssids_readable_def c)
  show "wanted ssid w m (nt\<lparr>nt_locked := l\<rparr>) = wanted ssid w m nt" by (simp add: wanted_def fun_eq_iff c h)
qed

lemma some_bool: "x \<noteq> None \<Longrightarrow> x = Some (x = Some True)"
  by (cases x) auto

lemma readable_hit:
  assumes "ssids_readable ssid nt xs" "a \<in> set xs" "contents nt a = Some (data b)" "ie_ssid (ni_cie b) = Some q"
  shows "ssid_match ssid q nt = Some (ssid_hit ssid nt a)"
proof -
  have q: "ie_ssid (ni_cie (the (contents nt a))) = Some q" using assms(3,4) by simp
  then have "ssid_match ssid q nt \<noteq> None" using assms(1,2) unfolding ssids_readable_def by blast
  then show ?thesis using q some_bool by (simp add: ssid_hit_def)
qed

lemma ssid_walk_ok:
  assumes "chained nt (zs @ ys)" "ssids_readable ssid nt ys"
    and "P = wanted ssid wpa2 matchSSID nt"
  shows "ssid_walk ssid wpa2 matchSSID (head ys) nt = Some (find P ys, with_ref (find P ys) nt)"
  using assms(1,2)
proof (induction ys arbitrary: zs)
  case Nil
  then show ?case by (simp add: ssid_walk.simps)
next
  case (Cons a ys)
  obtain b where b: "nodes nt a = Some b" "contents nt a = Some (data b)" "ni_list_next b = head ys"
    by (rule walk_node [OF Cons.prems(1)])
  have "ssid_match ssid q nt = Some (ssid_hit ssid nt a)" if "ie_ssid (ni_cie b) = Some q" for q
    by (rule readable_hit [OF Cons.prems(2) _ b(2) that]) simp
  then have hit: "(case ie_ssid (ni_cie b) of None \<Rightarrow> Some False | Some p \<Rightarrow> ssid_match ssid p nt) = Some (ssid_hit ssid nt a)"
    using b(2) by (cases "ie_ssid (ni_cie b)") (simp_all add: ssid_hit_def)
  have P: "P a \<longleftrightarrow> ssid_hit ssid nt a \<and>
      (matchSSID \<or> wpa2 \<and> ie_rsn (ni_cie b) \<noteq> None \<or> \<not> wpa2 \<and> ie_wpa (ni_cie b) \<noteq> None)"
    using b(2) by (simp add: assms(3) wanted_def Let_def)
  have IH: "ssid_walk ssid wpa2 matchSSID (head ys) nt = Some (find P ys, with_ref (find P ys) nt)"
    using Cons.prems by (intro Cons.IH [of "zs @ [a]"]) (simp_all add: ssids_readable_def)
  show ?case
    using b(1,3) hit P IH upd_ref [of nt a]
    by (cases "P a") (auto simp: ssid_walk.simps [of _ _ _ "Some a"] deref_def)
qed

lemma find_Ssidnode_ok:
  assumes "node_table nt xs" "ssids_readable ssid nt xs" "p = find (wanted ssid wpa2 matchSSID nt) xs"
  shows "wlan_find_Ssidnode ssid wpa2 matchSSID nt = Some (p, with_ref p nt)"
proof -
  let ?nt = "nt\<lparr>nt_locked := True\<rparr>"
  note d = node_tableD [OF assms(1)]
  have "chained ?nt ([] @ xs)" using d(3) by simp
  from ssid_walk_ok [OF this _ refl, of ssid wpa2 matchSSID] assms(2,3)
  have "ssid_walk ssid wpa2 matchSSID (head xs) ?nt = Some (p, with_ref p ?nt)" by simp
  moreover have "NODE_UNLOCK (with_ref p ?nt) = with_ref p nt" using d(1) by (simp add: NODE_UNLOCK_def with_ref_def)
  ultimately show ?thesis
    using node_table_lock [OF assms(1)] table_first [OF assms(1)] by (simp add: wlan_find_Ssidnode_def)
qed

definition suits :: "bytes \<Rightarrow> nat \<Rightarrow> nat \<Rightarrow> ieee80211_node_table \<Rightarrow> nat \<Rightarrow> bool" where
  "suits ssid auth crypt nt a \<longleftrightarrow> ssid_hit ssid nt a \<and> security_match auth crypt (ni_cie (the (contents nt a)))"

definition rssi_of :: "ieee80211_node_table \<Rightarrow> nat \<Rightarrow> int" where
  "rssi_of nt a = sint (ni_rssi (the (contents nt a)))"

text \<open>The first of the strongest suitable nodes.\<close>

fun strongest :: "(nat \<Rightarrow> bool) \<Rightarrow> (nat \<Rightarrow> int) \<Rightarrow> ptr \<Rightarrow> nat list \<Rightarrow> ptr" where
  "strongest P r best [] = best"
| "strongest P r best (a # xs) =
     strongest P r (if P a \<and> (best = None \<or> r a > r (the best)) then Some a else best) xs"

lemma matching_walk_ok:
  assumes "chained nt (zs @ ys)" "ssids_readable ssid nt ys"
    and "\<forall>a \<in> set ys. ie_ssid (ni_cie (the (contents nt a))) \<noteq> None" "best = None \<or> nodes nt (the best) \<noteq> None"
  shows "matching_walk ssid auth crypt best (head ys) nt =
    Some (strongest (suits ssid auth crypt nt) (rssi_of nt) best ys)"
  using assms
proof (induction ys arbitrary: zs best)
  case Nil
  then show ?case by (simp add: matching_walk.simps)
next
  case (Cons a ys)
  obtain b where b: "nodes nt a = Some b" "contents nt a = Some (data b)" "ni_list_next b = head ys"
    by (rule walk_node [OF Cons.prems(1)])
  obtain q where q: "ie_ssid (ni_cie b) = Some q" using Cons.prems(3) b(2) by auto
  have hit: "ssid_match ssid q nt = Some (ssid_hit ssid nt a)"
    by (rule readable_hit [OF Cons.prems(2) _ b(2) q]) simp
  define best' where "best' = (if suits ssid auth crypt nt a \<and> (best = None \<or> rssi_of nt a > rssi_of nt (the best))
    then Some a else best)"
  have step: "(if ssid_hit ssid nt a \<and> security_match auth crypt (ni_cie b) then
             (case best of
                None \<Rightarrow> Some (Some a)
              | Some m \<Rightarrow> do {
                  x \<leftarrow> deref m nt;
                  Some (if sint (ni_rssi b) > sint (ni_rssi x) then Some a else Some m)
                })
           else Some best) = Some best'"
    using Cons.prems(4) b(2) by (auto simp: best'_def suits_def rssi_of_def deref_def contents_def split: option.splits)
  have "best' = None \<or> nodes nt (the best') \<noteq> None" using Cons.prems(4) b(1) by (auto simp: best'_def)
  then have "matching_walk ssid auth crypt best' (head ys) nt =
      Some (strongest (suits ssid auth crypt nt) (rssi_of nt) best' ys)"
    using Cons.prems(1-3) by (intro Cons.IH [of "zs @ [a]"]) (auto simp: ssids_readable_def)
  then show ?case using b(1,3) q hit step
    by (simp add: matching_walk.simps [of _ _ _ _ "Some a"] deref_def best'_def)
qed

lemma strongest_spec:
  "strongest P r best xs = p \<Longrightarrow>
   (p = None \<longleftrightarrow> best = None \<and> (\<forall>x \<in> set xs. \<not> P x)) \<and>
   (p \<noteq> None \<and> p \<noteq> best \<longrightarrow> the p \<in> set xs \<and> P (the p)) \<and>
   (\<forall>x \<in> set xs. P x \<longrightarrow> r x \<le> r (the p)) \<and> (best \<noteq> None \<longrightarrow> r (the best) \<le> r (the p))"
proof (induction xs arbitrary: best)
  case (Cons a xs)
  define best' where "best' = (if P a \<and> (best = None \<or> r a > r (the best)) then Some a else best)"
  have "strongest P r best' xs = p" using Cons.prems by (simp add: best'_def)
  note IH = Cons.IH [OF this]
  show ?case
    using IH by (auto simp: best'_def split: if_splits)
qed simp

lemma find_matching_ok:
  assumes "node_table nt xs" "ssids_readable ssid nt xs"
    and "\<forall>a \<in> set xs. ie_ssid (ni_cie (the (contents nt a))) \<noteq> None"
  shows "wlan_find_matching_Ssidnode ssid auth crypt nt =
    Some (strongest (suits ssid auth crypt nt) (rssi_of nt) None xs, nt)"
proof -
  let ?nt = "nt\<lparr>nt_locked := True\<rparr>"
  note d = node_tableD [OF assms(1)]
  have c: "chained ?nt ([] @ xs)" using d(3) by simp
  have "suits ssid auth crypt ?nt = suits ssid auth crypt nt" "rssi_of ?nt = rssi_of nt"
    by (simp_all add: suits_def rssi_of_def fun_eq_iff)
  then have "matching_walk ssid auth crypt None (head xs) ?nt =
      Some (strongest (suits ssid auth crypt nt) (rssi_of nt) None xs)"
    using matching_walk_ok [OF c, of ssid None auth crypt] assms(2,3) by simp
  moreover have "NODE_UNLOCK ?nt = nt" using d(1) by (simp add: NODE_UNLOCK_def unlock_unchanged)
  ultimately show ?thesis
    using node_table_lock [OF assms(1)] table_first [OF assms(1)] by (simp add: wlan_find_matching_Ssidnode_def)
qed

end
