(* ===== verification/BssInfoProps.thy ===== *)
theory BssInfoProps
  imports BssInfo BeaconProps NodeSearch
begin

text \<open>
  What a scan result does to the table: the frame becomes the frame of the node with that address,
  and the pointers of the node lead into it.
\<close>

subsection \<open>Filling a node\<close>

definition filled :: "nat \<Rightarrow> (bss \<Rightarrow> bss) \<Rightarrow> nat \<Rightarrow> bytes \<Rightarrow> ieee80211_node_table \<Rightarrow> ieee80211_node_table" where
  "filled a f u m nt = nt\<lparr>nodes := upd_at (Some a) f (nodes nt), bufs := (bufs nt)(u \<mapsto> m)\<rparr>"

lemma node_table_filled:
  assumes "node_table nt xs" "keeps_structure f" "bufs nt u \<noteq> None"
  shows "node_table (filled a f u m nt) xs"
proof -
  let ?n = "nt\<lparr>nodes := upd_at (Some a) f (nodes nt)\<rparr>"
  have n: "node_table ?n xs" by (rule node_table_write [OF assms(1,2)])
  have "heap_ok (filled a f u m nt)"
    using node_tableD(2) [OF n] assms(3) unfolding heap_ok_def by (auto simp: filled_def owner_def)
  then show ?thesis by (intro node_table_frame [OF n]) (simp_all add: filled_def)
qed

lemma contents_filled:
  "nodes nt a = Some b \<Longrightarrow> contents (filled a f u m nt) = (contents nt)(a \<mapsto> data (f b))"
  by (simp add: contents_def filled_def upd_at_def fun_eq_iff)

text \<open>The copy of the frame.\<close>

lemma store_buf_Some:
  "bufs nt u = Some m \<Longrightarrow> off + length xs \<le> length m \<Longrightarrow>
   store_buf u off xs nt = Some (nt\<lparr>bufs := (bufs nt)(u \<mapsto> take off m @ xs @ drop (off + length xs) m)\<rparr>)"
  by (simp add: store_buf_def)

lemma fill_frame_plain:
  assumes "bufs nt u = Some m" "length m = length buf" "hides cached bsl buf = Some False"
  shows "fill_frame u buf (length buf) cached bsl nt = Some (nt\<lparr>bufs := (bufs nt)(u \<mapsto> buf)\<rparr>)"
  using assms by (cases "buf = []") (auto simp: fill_frame_def store_buf_Some fun_upd_idem)

lemma fill_frame_named:
  assumes "bufs nt u = Some m" "length m = 14 + length cached + length post"
    and "buf = pre @ [e, word_of_nat (length old)] @ old @ post" "length pre = 12" "length cached < 256"
    and "cached \<noteq> []" "length old \<le> length cached" "old = [] \<or> old ! 0 = 0"
  shows "fill_frame u buf (length m) cached (word_of_nat (length old)) nt =
    Some (nt\<lparr>bufs := (bufs nt)(u \<mapsto> pre @ [e, word_of_nat (length cached)] @ cached @ post)\<rparr>)"
proof -
  let ?c = "word_of_nat (length cached) :: byte" and ?o = "word_of_nat (length old) :: byte"
  let ?n = "\<lambda>x. nt\<lparr>bufs := (bufs nt)(u \<mapsto> x)\<rparr>"
  have o: "unat ?o = length old" using assms(5,7) by (simp add: unat_of_nat)
  have "?o = 0 \<longleftrightarrow> old = []" using o by (metis length_0_conv unat_eq_zero)
  moreover have "at buf 14 = Some 0" if "old \<noteq> []" using that assms(3,4,8) by (simp add: at_def nth_append)
  ultimately have h: "hides cached ?o buf = Some True"
    using assms(6) by (simp add: hides_def)
  have d: "drop 14 m \<noteq> []" "length (drop 14 m) = length cached + length post"
    using assms(2,6) by auto
  have hd: "blk 0 14 buf = Some (pre @ [e, ?o])" and tl: "blk (14 + length old) (length post) buf = Some post"
    using assms(3,4) by (simp_all add: blk_def)
  have "store_buf u 0 (pre @ [e, ?o]) nt = Some (?n (pre @ [e, ?o] @ drop 14 m))"
    using assms(1,2,4) by (simp add: store_buf_def)
  moreover have "store_buf u 13 [?c] (?n (pre @ [e, ?o] @ drop 14 m)) = Some (?n (pre @ [e, ?c] @ drop 14 m))"
    using assms(4) by (simp add: store_buf_def)
  moreover have "store_buf u 14 cached (?n (pre @ [e, ?c] @ drop 14 m)) =
      Some (?n (pre @ [e, ?c] @ cached @ drop (14 + length cached) m))"
    using assms(4) d(2) by (simp add: store_buf_def add.commute)
  moreover have "copy_rest u (14 + length cached) buf (14 + length old) (int (length post))
      (?n (pre @ [e, ?c] @ cached @ drop (14 + length cached) m)) = Some (?n (pre @ [e, ?c] @ cached @ post))"
    using assms(2,4) tl by (cases "post = []") (simp_all add: copy_rest_def store_buf_def)
  moreover define k where "k = int (length m) - int (13 + 1) - int (length old) -
      (if length cached > length old then int (length cached) - int (length old) else 0)"
  then have "k = int (length post)" using assms(2,7) by simp
  ultimately show ?thesis
    unfolding fill_frame_def h o k_def [symmetric] by (simp add: hd)
qed

text \<open>The elements of a frame whose name is hidden, with the name that is kept put in.\<close>

definition hidden_name :: "bytes \<Rightarrow> bool" where
  "hidden_name old \<longleftrightarrow> old = [] \<or> old ! 0 = 0"

definition renamed :: "bytes \<Rightarrow> bytes \<Rightarrow> element list \<Rightarrow> element list" where
  "renamed name old es = (ELEMID_SSID, if name \<noteq> [] \<and> hidden_name old then name else old) # es"

lemma renaming:
  assumes "buf = hdr @ encode ((ELEMID_SSID, old) # es)" "length hdr = 12" "length name \<le> 32"
    and "length old < 256" "name \<noteq> [] \<and> hidden_name old \<longrightarrow> length old \<le> length name"
  shows "at buf 13 = Some (word_of_nat (length old))"
    "grows name (word_of_nat (length old)) buf = Some (name \<noteq> [] \<and> hidden_name old \<and> length old < length name)"
    "hides name (word_of_nat (length old)) buf = Some (name \<noteq> [] \<and> hidden_name old)"
    "length (hdr @ encode (renamed name old es)) =
      (if name \<noteq> [] \<and> hidden_name old \<and> length old < length name then length buf + (length name - length old) else length buf)"
proof -
  have o: "unat (word_of_nat (length old) :: byte) = length old" using assms(4) by (simp add: unat_of_nat)
  have z: "(word_of_nat (length old) :: byte) = 0 \<longleftrightarrow> old = []" using o by (metis length_0_conv unat_eq_zero)
  show "at buf 13 = Some (word_of_nat (length old))"
    using assms(1,2) by (simp add: at_def nth_append ie_bytes_def)
  have "at buf 14 = Some (old ! 0)" if "old \<noteq> []"
    using that assms(1,2) by (simp add: at_def nth_append ie_bytes_def)
  then show "grows name (word_of_nat (length old)) buf = Some (name \<noteq> [] \<and> hidden_name old \<and> length old < length name)"
    "hides name (word_of_nat (length old)) buf = Some (name \<noteq> [] \<and> hidden_name old)"
    using z o by (auto simp: grows_def hides_def hidden_name_def)
  show "length (hdr @ encode (renamed name old es)) =
      (if name \<noteq> [] \<and> hidden_name old \<and> length old < length name then length buf + (length name - length old) else length buf)"
    using assms(1,5) by (auto simp: renamed_def)
qed

lemma fill_frame_renamed:
  assumes "buf = hdr @ encode ((ELEMID_SSID, old) # es)" "length hdr = 12" "length name \<le> 32"
    and "length old < 256" "name \<noteq> [] \<and> hidden_name old \<longrightarrow> length old \<le> length name"
    and "bufs nt u = Some m" "length m = length (hdr @ encode (renamed name old es))"
  shows "fill_frame u buf (length m) name (word_of_nat (length old)) nt =
    Some (nt\<lparr>bufs := (bufs nt)(u \<mapsto> hdr @ encode (renamed name old es))\<rparr>)"
proof (cases "name \<noteq> [] \<and> hidden_name old")
  case True
  then have "renamed name old es = (0, name) # es" by (simp add: renamed_def)
  moreover have "buf = hdr @ [0, word_of_nat (length old)] @ old @ encode es" using assms(1) by (simp add: ie_bytes_def)
  ultimately show ?thesis
    using fill_frame_named [OF assms(6) _ _ assms(2), of name "encode es" buf 0 old] True assms(2,3,5,7)
    by (simp add: hidden_name_def ie_bytes_def)
next
  case False
  then have r: "renamed name old es = (0, old) # es" by (auto simp: renamed_def)
  then have "length m = length buf" using assms(1,7) by simp
  moreover have "hides name (word_of_nat (length old)) buf = Some False"
    using renaming(3) [OF assms(1-5)] False by simp
  ultimately show ?thesis using fill_frame_plain [OF assms(6)] assms(1) r by metis
qed

subsection \<open>The steps of the handler\<close>

definition received :: "WMI_BSS_INFO_HDR \<Rightarrow> nat \<Rightarrow> ieee80211_common_ie \<Rightarrow> bss \<Rightarrow> bss" where
  "received bih len cie b = b\<lparr>ni_frametype := bi_frameType bih, ni_snr := bi_snr bih, ni_rssi := bi_rssi bih,
     ni_framelen := len mod 65536, ni_cie := cie\<rparr>"

lemma received_keeps [simp]: "keeps_structure (received bih len cie)"
  by (simp add: keeps_structure_def received_def)

lemma bssinfo_fill_ok:
  assumes "nodes nt a = Some b" "ni_buf b = Some u"
    and "\<And>h. fill_frame u buf len cached bsl (nt\<lparr>nodes := h\<rparr>) = Some (nt\<lparr>nodes := h, bufs := (bufs nt)(u \<mapsto> m)\<rparr>)"
    and "bi_frameType bih \<in> {BEACON_FTYPE, PROBERESP_FTYPE}" "wlan_parse_beacon u m len (ni_cie b) = Some (A_OK, cie)"
  shows "bssinfo_fill bih buf len cached bsl a nt =
    Some (A_OK, filled a (received bih len (cie\<lparr>ie_chan := bi_channel bih\<rparr>)) u m nt)"
proof -
  have "bssinfo_fill bih buf len cached bsl a nt = Some (A_OK, nt\<lparr>nodes := (nodes nt)(a \<mapsto>
      received bih len (cie\<lparr>ie_chan := bi_channel bih\<rparr>) b), bufs := (bufs nt)(u \<mapsto> m)\<rparr>)"
    using assms by (auto simp: bssinfo_fill_def upd_node_def deref_def received_def)
  moreover have "upd_at (Some a) f (nodes nt) = (nodes nt)(a \<mapsto> f b)" for f using assms(1) by (auto simp: upd_at_def fun_eq_iff)
  ultimately show ?thesis by (simp add: filled_def)
qed

lemma bssinfo_fill_other:
  assumes "nodes nt a = Some b" "ni_buf b = Some u"
    and "\<And>h. fill_frame u buf len cached bsl (nt\<lparr>nodes := h\<rparr>) = Some (nt\<lparr>nodes := h, bufs := (bufs nt)(u \<mapsto> m)\<rparr>)"
    and "bi_frameType bih \<notin> {BEACON_FTYPE, PROBERESP_FTYPE}"
  shows "bssinfo_fill bih buf len cached bsl a nt =
    Some (A_OK, filled a (received bih len ((ni_cie b)\<lparr>ie_chan := bi_channel bih\<rparr>)) u m nt)"
proof -
  have "bssinfo_fill bih buf len cached bsl a nt = Some (A_OK, nt\<lparr>nodes := (nodes nt)(a \<mapsto>
      received bih len ((ni_cie b)\<lparr>ie_chan := bi_channel bih\<rparr>) b), bufs := (bufs nt)(u \<mapsto> m)\<rparr>)"
    using assms by (auto simp: bssinfo_fill_def upd_node_def deref_def received_def)
  moreover have "upd_at (Some a) f (nodes nt) = (nodes nt)(a \<mapsto> f b)" for f using assms(1) by (auto simp: upd_at_def fun_eq_iff)
  ultimately show ?thesis by (simp add: filled_def)
qed

lemma ave_same [simp]: "ave_rssi r r = r" "ave_snr s s = s"
proof -
  have "RSSI_AVE x x 13 = x" for x
    by (simp add: RSSI_AVE_def signed_divide_int_def sgn_mult abs_mult sgn_mult_abs)
  then show "ave_rssi r r = r" "ave_snr s s = s" by (simp_all add: ave_rssi_def ave_snr_def)
qed

lemma average_header_fields [simp]:
  "bi_frameType (average_header w b bih) = bi_frameType bih" "bi_bssid (average_header w b bih) = bi_bssid bih"
  "bi_channel (average_header w b bih) = bi_channel bih"
  "bi_rssi (average_header w b bih) = (if wmi_bssid w = bi_bssid bih then ni_rssi b else ave_rssi (ni_rssi b) (bi_rssi bih))"
  "bi_snr (average_header w b bih) = (if wmi_bssid w = bi_bssid bih then ni_snr b else ave_snr (ni_snr b) (bi_snr bih))"
  by (simp_all add: average_header_def Let_def)

definition kept_name :: "bssinfo_env \<Rightarrow> wmi_t \<Rightarrow> WMI_BSS_INFO_HDR \<Rightarrow> bss \<Rightarrow> bytes option" where
  "kept_name env w bih b =
     (if keeps_name env w bih then cached_ssid (ie_ssid (ni_cie b)) (wmi_scan_table w) else Some [])"

lemma bssinfo_known_ok:
  assumes "node_table (wmi_scan_table w) xs" "nodes (wmi_scan_table w) a = Some b" "env_buf_ok env"
    and "kept_name env w bih b = Some name" "length name \<le> 32"
    and "buf = hdr @ encode ((ELEMID_SSID, old) # es)" "good_frame hdr ((ELEMID_SSID, old) # es)"
    and "name \<noteq> [] \<and> hidden_name old \<longrightarrow> length old \<le> length name \<and> bi_frameType bih \<noteq> PROBERESP_FTYPE"
    and "len = length (hdr @ encode (renamed name old es))"
  shows "bssinfo_known env bih buf (length buf) a w =
    Some (Inr (name, word_of_nat (length old), len), average_header w b bih, rebuffered (env_now env) a len (wmi_scan_table w))"
proof -
  let ?nt = "wmi_scan_table w"
  have g: "length hdr = 12" "length old < 256" using assms(7) by (auto simp: good_frame_def)
  have le: "name \<noteq> [] \<and> hidden_name old \<longrightarrow> length old \<le> length name" using assms(8) by blast
  note r = renaming [OF assms(6) g(1) assms(5) g(2) le]
  have len: "(if name \<noteq> [] \<and> hidden_name old \<and> length old < length name
      then length buf + (length name - length old) else length buf) = len"
    using r(4) assms(8,9) by simp
  have o: "unat (word_of_nat (length old) :: byte) = length old" using g(2) by (simp add: unat_of_nat)
  have parse: "wlan_parse_beacon 0 buf len zero_cie = Some (A_OK, parsed 0 hdr ((ELEMID_SSID, old) # es))"
    if "bi_frameType bih = PROBERESP_FTYPE"
    using parse_good_frame [OF assms(7,6), of 0 zero_cie] len assms(8) that by (metis (no_types, lifting))
  have n: "(if keeps_name env w bih then cached_ssid (ie_ssid (ni_cie b)) ?nt else Some []) = Some name"
    using assms(4) by (simp add: kept_name_def)
  have bad: "(if bi_frameType bih = PROBERESP_FTYPE
      then map_option (\<lambda>r. A_FAILED (fst r)) (wlan_parse_beacon 0 buf len zero_cie) else Some False) = Some False"
    using parse by simp
  have upd: "wlan_node_buf_update (env_now env) (env_buf_ok env) a len ?nt = Some (A_OK, rebuffered (env_now env) a len ?nt)"
    using buf_update_ok [OF assms(1,2)] assms(3) by simp
  have g': "(if name \<noteq> [] \<and> hidden_name old \<and> length old < length name then length buf + (length name - unat
      (word_of_nat (length old) :: byte)) else length buf) = len"
    unfolding o by (rule len)
  show ?thesis
    unfolding bssinfo_known_def Let_def deref_def assms(2) bind.bind_lunit n r(1,2) g' average_header_fields bad upd
    by simp
qed

text \<open>The fields of the header as the handler uses them: a strength above 0 dBm is taken to be wrong.\<close>

definition corrected :: "bss \<Rightarrow> WMI_BSS_INFO_HDR \<Rightarrow> WMI_BSS_INFO_HDR" where
  "corrected b bih = (if sint (bi_rssi bih) > 0 then bih\<lparr>bi_rssi := ni_rssi b\<rparr> else bih)"

lemma corrected_fields [simp]:
  "bi_frameType (corrected b bih) = bi_frameType bih" "bi_bssid (corrected b bih) = bi_bssid bih"
  "bi_channel (corrected b bih) = bi_channel bih" "bi_snr (corrected b bih) = bi_snr bih"
  by (simp_all add: corrected_def)

lemma keeps_name_corrected [simp]: "keeps_name env w (corrected b bih) = keeps_name env w bih"
  "keeps_name env (w\<lparr>wmi_scan_table := nt\<rparr>) bih = keeps_name env w bih"
  by (simp_all add: keeps_name_def)

lemma cached_ssid_ref [simp]: "cached_ssid p (with_ref q nt) = cached_ssid p nt"
proof -
  have "rd_ie p i (with_ref q nt) = rd_ie p i nt" "blk_ie p i n (with_ref q nt) = blk_ie p i n nt" for p i n
    by (simp_all add: rd_ie_def blk_ie_def with_ref_def)
  then show ?thesis by (cases p) (simp_all add: cached_ssid_def cong: if_cong)
qed

lemma cached_ssid_length: "cached_ssid p nt = Some name \<Longrightarrow> length name \<le> 32"
  by (auto simp: cached_ssid_def blk_ie_def blk_def Option.bind_eq_Some_conv split: option.splits if_splits)

lemma kept_name_length: "kept_name env w bih b = Some name \<Longrightarrow> length name \<le> 32"
  by (auto simp: kept_name_def dest: cached_ssid_length split: if_splits)

text \<open>A frame of a station that is in the table, up to the exit.\<close>

definition updated :: "bssinfo_env \<Rightarrow> nat \<Rightarrow> WMI_BSS_INFO_HDR \<Rightarrow> bytes \<Rightarrow> ieee80211_common_ie \<Rightarrow>
    ieee80211_node_table \<Rightarrow> ieee80211_node_table" where
  "updated env a bih m cie nt = filled a (received bih (length m) (cie\<lparr>ie_chan := bi_channel bih\<rparr>)) (next_buf nt) m
     (rebuffered (env_now env) a (length m) nt)"

lemma bssinfo_cache_known:
  assumes "node_table (wmi_scan_table w) xs" "nodes (wmi_scan_table w) a = Some b" "env_buf_ok env"
    and "kept_name env w bih b = Some name" "length name \<le> 32"
    and "buf = hdr @ encode ((ELEMID_SSID, old) # es)" "good_frame hdr ((ELEMID_SSID, old) # es)"
      "good_frame hdr (renamed name old es)"
    and "name \<noteq> [] \<and> hidden_name old \<longrightarrow> length old \<le> length name \<and> bi_frameType bih \<noteq> PROBERESP_FTYPE"
    and "m = hdr @ encode (renamed name old es)" "bi_frameType bih \<in> {BEACON_FTYPE, PROBERESP_FTYPE}"
    and "cie = parsed (next_buf (wmi_scan_table w)) hdr (renamed name old es)"
    and "nt' = updated env a (average_header w b bih) m cie (wmi_scan_table w)"
    and "contents nt' a = Some c" "ni_refcnt c \<noteq> 1"
  shows "bssinfo_cache env bih buf (length buf) (Some a) w = Some (A_OK, average_header w b bih, without_ref a nt')"
    "node_table nt' xs"
proof -
  let ?nt = "wmi_scan_table w" and ?u = "next_buf (wmi_scan_table w)" and ?r = "average_header w b bih"
  let ?re = "rebuffered (env_now env) a (length m) ?nt"
  have g: "length hdr = 12" "length old < 256" using assms(7) by (auto simp: good_frame_def)
  have le: "name \<noteq> [] \<and> hidden_name old \<longrightarrow> length old \<le> length name" using assms(9) by blast
  have m: "length m \<noteq> 0" using g(1) assms(10) by simp
  have known: "bssinfo_known env bih buf (length buf) a w = Some (Inr (name, word_of_nat (length old), length m), ?r, ?re)"
    using bssinfo_known_ok [OF assms(1-7,9)] assms(10) by simp
  have re: "nodes ?re a = Some (b\<lparr>ni_buf := Some ?u, ni_tstamp := env_now env, ni_actcnt := 4\<rparr>)" "bufs ?re ?u = Some (replicate (length m) 0)"
    using assms(2) m by (simp_all add: rebuffered_def)
  have fill: "fill_frame ?u buf (length m) name (word_of_nat (length old)) (?re\<lparr>nodes := h\<rparr>) =
      Some (?re\<lparr>nodes := h, bufs := (bufs ?re)(?u \<mapsto> m)\<rparr>)" for h
    using fill_frame_renamed [OF assms(6) g(1) assms(5) g(2) le, of "?re\<lparr>nodes := h\<rparr>" ?u "replicate (length m) 0"] re(2) assms(10)
    by simp
  have "wlan_parse_beacon ?u m (length m) (ni_cie (b\<lparr>ni_buf := Some ?u, ni_tstamp := env_now env, ni_actcnt := 4\<rparr>)) = Some (A_OK, cie)"
    unfolding assms(12) by (rule parse_good_frame [OF assms(8,10)])
  then have filled: "bssinfo_fill ?r buf (length m) name (word_of_nat (length old)) a ?re = Some (A_OK, nt')"
    using bssinfo_fill_ok [OF re(1) _ fill, of ?r cie] assms(11,13) by (simp add: updated_def)
  have "node_table ?re xs" by (rule node_table_rebuffered [OF assms(1,2)])
  then show nt': "node_table nt' xs"
    unfolding assms(13) updated_def by (rule node_table_filled) (use re(2) in simp_all)
  from return_ok [OF this assms(14,15)] show "bssinfo_cache env bih buf (length buf) (Some a) w = Some (A_OK, ?r, without_ref a nt')"
    by (simp add: bssinfo_cache_def known filled exit_known_def wmi_node_return_def)
qed

text \<open>The handler for a station that is found, once the driver caches nodes.\<close>

lemma event_rx_known:
  assumes "0 < len" "bi_frameType bih \<noteq> PROBEREQ_FTYPE \<or> \<not> env_probe_rx env" "env_caching env = Some True"
    "\<not> (wps_enable env \<and> bi_frameType bih = PROBERESP_FTYPE)"
    "wlan_find_node (bi_bssid bih) (wmi_scan_table w) = Some (Some a, nt)" "nodes nt a = Some b"
  shows "wmi_bssInfo_event_rx env bih buf (16 + len) w =
    map_option (\<lambda>(st, bih, nt). (st, bih, w\<lparr>wmi_scan_table := nt\<rparr>))
      (bssinfo_cache env (corrected b bih) buf len (Some a) (w\<lparr>wmi_scan_table := nt\<rparr>))"
proof -
  have "(bi_frameType bih = PROBEREQ_FTYPE \<and> env_probe_rx env) = False"
    "(wps_enable env \<and> bi_frameType bih = PROBERESP_FTYPE) = False" using assms(2,4) by blast+
  then show ?thesis
    using assms(1,3,5,6) unfolding wmi_bssInfo_event_rx_def corrected_def
    by (cases "0 < sint (bi_rssi bih)") (simp_all add: deref_def map_conv_bind_option case_prod_unfold comp_def
      del: de_Morgan_conj not_less)
qed

subsection \<open>Properties\<close>

text \<open>C22: A beacon or probe response of a station in the table replaces the frame of its node and nothing
  else.  The node gets a buffer of its own with the frame, the elements found in it, the frequency of
  the event and a new time stamp; strength and quality are averaged, those of the current station kept;
  no reference is left over.  If the frame hides the network's name and the node's old frame had it,
  the name is put into the frame.\<close>

theorem bssinfo_updates_known:
  assumes "node_table (wmi_scan_table w) xs" and "length (bi_bssid bih) = IEEE80211_ADDR_LEN"
    and "find (\<lambda>x. mac_of (wmi_scan_table w) x = bi_bssid bih) (rev xs) = Some a"
    and "contents (wmi_scan_table w) a = Some c" and "ni_refcnt c \<noteq> 0"
    and "env_caching env = Some True" and "env_buf_ok env" and "bi_frameType bih = BEACON_FTYPE \<or>
      bi_frameType bih = PROBERESP_FTYPE \<and> \<not> wps_enable env \<and> \<not> (name \<noteq> [] \<and> hidden_name old)"
    and "kept_name env w bih c = Some name" and "name \<noteq> [] \<and> hidden_name old \<longrightarrow> length old \<le> length name"
    and "good_frame hdr ((ELEMID_SSID, old) # es)" and "good_frame hdr (renamed name old es)"
    and "buf = hdr @ encode ((ELEMID_SSID, old) # es)" and "frame = hdr @ encode (renamed name old es)"
  shows "\<exists>w' bih' c' u. wmi_bssInfo_event_rx env bih buf (16 + length buf) w = Some (A_OK, bih', w') \<and>
    node_table (wmi_scan_table w') xs \<and> contents (wmi_scan_table w') = (contents (wmi_scan_table w))(a \<mapsto> c') \<and>
    ni_buf c' = Some u \<and> bufs (wmi_scan_table w') u = Some frame \<and> ni_framelen c' = length frame mod 65536 \<and>
    ni_cie c' = (parsed u hdr (renamed name old es))\<lparr>ie_chan := bi_channel bih\<rparr> \<and>
    ni_macaddr c' = ni_macaddr c \<and> ni_refcnt c' = ni_refcnt c \<and> ni_tstamp c' = env_now env \<and>
    ni_rssi c' = (if wmi_bssid w = bi_bssid bih \<or> 0 < sint (bi_rssi bih) then ni_rssi c
      else ave_rssi (ni_rssi c) (bi_rssi bih)) \<and>
    ni_snr c' = (if wmi_bssid w = bi_bssid bih then ni_snr c else ave_snr (ni_snr c) (bi_snr bih))"
proof -
  let ?nt = "wmi_scan_table w"
  define nt1 where "nt1 = with_ref (Some a) ?nt"
  define w1 where "w1 = w\<lparr>wmi_scan_table := nt1\<rparr>"
  obtain b0 where b0: "nodes ?nt a = Some b0" "c = data b0" using assms(4) by (auto simp: contents_Some)
  define b where "b = b0\<lparr>ni_refcnt := ni_refcnt b0 + 1\<rparr>"
  have b: "nodes (wmi_scan_table w1) a = Some b" using b0(1) by (simp add: w1_def nt1_def with_ref_def b_def)
  have w1n: "nodes (wmi_scan_table w1) = (nodes ?nt)(a \<mapsto> b)"
    using b0(1) by (auto simp: w1_def nt1_def with_ref_def b_def upd_at_def fun_eq_iff)
  have nt1: "node_table (wmi_scan_table w1) xs" using node_table_ref [OF assms(1)] by (simp add: w1_def nt1_def)
  let ?h = "corrected b bih" and ?u = "next_buf ?nt"
  define cie where "cie = parsed ?u hdr (renamed name old es)"
  define r where "r = average_header w1 b ?h"
  define nt' where "nt' = updated env a r frame cie (wmi_scan_table w1)"
  have u: "next_buf (wmi_scan_table w1) = ?u" by (simp add: w1_def nt1_def with_ref_def)
  have name: "kept_name env w1 ?h b = Some name"
    using assms(9) b0(2) by (auto simp: kept_name_def w1_def nt1_def b_def split: if_splits)
  have ft: "bi_frameType ?h \<in> {BEACON_FTYPE, PROBERESP_FTYPE}" "bi_frameType bih \<noteq> 4"
    "name \<noteq> [] \<and> hidden_name old \<longrightarrow> length old \<le> length name \<and> bi_frameType ?h \<noteq> PROBERESP_FTYPE"
    "\<not> (wps_enable env \<and> bi_frameType bih = PROBERESP_FTYPE)"
    using assms(8,10) by auto
  define b' where "b' = received r (length frame) (cie\<lparr>ie_chan := bi_channel r\<rparr>)
      (b\<lparr>ni_buf := Some ?u, ni_tstamp := env_now env, ni_actcnt := 4\<rparr>)"
  have fr: "frame \<noteq> []" "buf \<noteq> []" using assms(11,13,14) by (auto simp: good_frame_def)
  have n': "nodes nt' = (nodes ?nt)(a \<mapsto> b')" "bufs nt' ?u = Some frame"
    using w1n fr by (simp_all add: nt'_def updated_def filled_def rebuffered_def u b'_def fun_eq_iff)
  then have c': "contents nt' a = Some (data b')" by (simp add: contents_def)
  have "ni_refcnt (data b') \<noteq> 1" using assms(5) b0(2) by (simp add: b'_def received_def b_def)
  note cache = bssinfo_cache_known [OF nt1 b assms(7) name kept_name_length [OF name] assms(13,11,12) ft(3) assms(14) ft(1)
      cie_def [folded u] nt'_def [unfolded r_def] c' this, folded r_def]
  define c1 where "c1 = data (b'\<lparr>ni_refcnt := ni_refcnt b' - 1\<rparr>)"
  define nt2 where "nt2 = without_ref a nt'"
  have nt2_ok: "node_table nt2 xs" unfolding nt2_def by (rule node_table_unref [OF cache(2)])
  have nt2: "contents nt2 = (contents ?nt)(a \<mapsto> c1)" "bufs nt2 ?u = Some frame"
    using n' by (simp_all add: nt2_def without_ref_def contents_def fun_eq_iff c1_def)
  have "wlan_find_node (bi_bssid bih) ?nt = Some (Some a, nt1)"
    using find_node_ok [OF assms(1,2) refl] assms(3) by (simp add: nt1_def)
  moreover have "nodes nt1 a = Some b" using b by (simp add: w1_def)
  ultimately have "wmi_bssInfo_event_rx env bih buf (16 + length buf) w = Some (A_OK, r, w1\<lparr>wmi_scan_table := nt2\<rparr>)"
    using event_rx_known [OF _ _ assms(6) ft(4), of "length buf" w a nt1 b buf] cache(1) fr(2) ft(2)
    by (simp add: w1_def nt2_def)
  moreover have "bi_rssi r = (if wmi_bssid w = bi_bssid bih \<or> 0 < sint (bi_rssi bih) then ni_rssi c
      else ave_rssi (ni_rssi c) (bi_rssi bih))"
    "bi_snr r = (if wmi_bssid w = bi_bssid bih then ni_snr c else ave_snr (ni_snr c) (bi_snr bih))" "bi_channel r = bi_channel bih"
    by (simp_all add: r_def corrected_def b_def b0(2) w1_def)
  ultimately show ?thesis
    using nt2_ok nt2
    by (intro exI [of _ "w1\<lparr>wmi_scan_table := nt2\<rparr>"] exI [of _ r] exI [of _ c1] exI [of _ ?u])
      (simp add: c1_def b'_def received_def b_def b0(2) cie_def)
qed

text \<open>A beacon or probe response of an unknown station adds a node behind the others, with the address,
  the frame, the elements found in it, strength and quality of the event, and one reference; the other
  nodes stay as they are.\<close>

theorem bssinfo_adds_unknown:
  assumes "node_table (wmi_scan_table w) xs" and "length (bi_bssid bih) = IEEE80211_ADDR_LEN"
    and "\<forall>x \<in> set xs. mac_of (wmi_scan_table w) x \<noteq> bi_bssid bih" and "\<not> 0 < sint (bi_rssi bih)"
    and "env_caching env = Some True" and "env_ni_ok env" and "env_buf_ok env"
    and "bi_frameType bih = BEACON_FTYPE \<or> bi_frameType bih = PROBERESP_FTYPE \<and> \<not> wps_enable env"
    and "good_frame hdr es" and "buf = hdr @ encode es"
  shows "\<exists>w' a c u. wmi_bssInfo_event_rx env bih buf (16 + length buf) w = Some (A_OK, bih, w') \<and> a \<notin> set xs \<and>
    node_table (wmi_scan_table w') (xs @ [a]) \<and> contents (wmi_scan_table w') = (contents (wmi_scan_table w))(a \<mapsto> c) \<and>
    ni_buf c = Some u \<and> bufs (wmi_scan_table w') u = Some buf \<and> ni_framelen c = length buf mod 65536 \<and>
    ni_cie c = (parsed u hdr es)\<lparr>ie_chan := bi_channel bih\<rparr> \<and> ni_macaddr c = bi_bssid bih \<and> ni_refcnt c = 1 \<and>
    ni_tstamp c = env_now env \<and> ni_rssi c = bi_rssi bih \<and> ni_snr c = bi_snr bih"
proof -
  let ?nt = "wmi_scan_table w" and ?n = "length buf"
  let ?al = "allocated ?n ?nt" and ?a = "next_node ?nt" and ?u = "next_buf ?nt"
  define cie where "cie = (parsed ?u hdr es)\<lparr>ie_chan := bi_channel bih\<rparr>"
  define nt2 where "nt2 = filled ?a (received bih ?n cie) ?u buf ?al"
  have n: "?n \<noteq> 0" using assms(9,10) by (auto simp: good_frame_def)
  have al: "nodes ?al ?a = Some (fresh_bss (Some ?u))" "bufs ?al ?u = Some (replicate ?n 0)"
    using n by (simp_all add: allocated_def)
  have fill: "fill_frame ?u buf ?n [] 0 (?al\<lparr>nodes := h\<rparr>) = Some (?al\<lparr>nodes := h, bufs := (bufs ?al)(?u \<mapsto> buf)\<rparr>)" for h
    using fill_frame_plain [of "?al\<lparr>nodes := h\<rparr>" ?u "replicate ?n 0" buf "[]" 0] al(2) by (simp add: hides_def)
  have "bssinfo_fill bih buf ?n [] 0 ?a ?al = Some (A_OK, nt2)"
    using bssinfo_fill_ok [OF al(1) _ fill, of bih "parsed ?u hdr es"] parse_good_frame [OF assms(9,10)] assms(8)
    by (auto simp: nt2_def cie_def fresh_bss_def)
  moreover have nt2: "node_table nt2 xs"
    unfolding nt2_def by (rule node_table_filled [OF node_table_allocated(1) [OF assms(1)]]) (use al in simp_all)
  define b where "b = received bih ?n cie (fresh_bss (Some ?u))"
  have b: "nodes nt2 ?a = Some b" using al(1) by (simp add: nt2_def filled_def b_def)
  obtain nt' where nt': "wlan_setup_node (env_now env) ?a (bi_bssid bih) nt2 = Some nt'" "node_table nt' (xs @ [?a])"
    "contents nt' = (contents nt2)(?a \<mapsto> set_up (env_now env) (bi_bssid bih) (data b))" "rest nt' = rest nt2"
    using setup_ok [OF nt2 b node_table_allocated(2) [OF assms(1)] assms(2)] by blast
  moreover have "find (\<lambda>x. mac_of ?nt x = bi_bssid bih) (rev xs) = None" using assms(3) by (simp add: find_None_iff)
  then have "wlan_find_node (bi_bssid bih) ?nt = Some (None, ?nt)" using find_node_ok [OF assms(1,2) refl] by simp
  moreover have "wlan_node_alloc (env_ni_ok env) (env_buf_ok env) ?n ?nt = (Some ?a, ?al)"
    using assms(6,7) by (simp add: alloc_eq)
  ultimately have "wmi_bssInfo_event_rx env bih buf (16 + ?n) w = Some (A_OK, bih, w\<lparr>wmi_scan_table := nt'\<rparr>)"
    using assms(4,5,8) n by (auto simp: wmi_bssInfo_event_rx_def bssinfo_cache_def exit_new_def)
  moreover have "contents nt' = (contents ?nt)(?a \<mapsto> set_up (env_now env) (bi_bssid bih) (data b))"
    using nt'(3) by (auto simp: contents_def nt2_def filled_def allocated_def fun_eq_iff)
  moreover have "bufs nt' ?u = Some buf" using nt'(4) by (simp add: rest_def nt2_def filled_def)
  ultimately show ?thesis
    using nt'(2) node_table_allocated(2) [OF assms(1)] assms(2)
    by (intro exI [of _ "w\<lparr>wmi_scan_table := nt'\<rparr>"] exI [of _ ?a] exI [of _ ?u] exI)
      (auto simp: set_up_def b_def received_def fresh_bss_def cie_def)
qed

text \<open>When no memory is left for the frame of a station in the table the handler never returns: the
  update of the buffer keeps the lock of the table, and the handler asks for it again to give its
  reference back.\<close>

theorem bssinfo_alloc_failure_blocks:
  assumes "node_table (wmi_scan_table w) xs" and "length (bi_bssid bih) = IEEE80211_ADDR_LEN"
    and "mac_of (wmi_scan_table w) x = bi_bssid bih" and "x \<in> set xs"
    and "env_caching env = Some True" and "\<not> env_buf_ok env" and "bi_frameType bih = BEACON_FTYPE"
    and "\<not> is_probe_ssid env" and "wmi_bssid w \<noteq> bi_bssid bih" and "SSID_IE_LEN_INDEX < length buf"
  shows "wmi_bssInfo_event_rx env bih buf (16 + length buf) w = None"
proof -
  let ?nt = "wmi_scan_table w"
  obtain a where a: "find (\<lambda>x. mac_of ?nt x = bi_bssid bih) (rev xs) = Some a"
    using assms(3,4) find_None_iff [of "\<lambda>x. mac_of ?nt x = bi_bssid bih" "rev xs"] by auto
  define nt1 where "nt1 = with_ref (Some a) ?nt"
  define w1 where "w1 = w\<lparr>wmi_scan_table := nt1\<rparr>"
  have nt1: "node_table nt1 xs" using node_table_ref [OF assms(1)] by (simp add: nt1_def)
  have "a \<in> set (rev xs)" using a unfolding find_Some_iff by (metis nth_mem)
  then have "a \<in> set xs" by simp
  then obtain b where b: "nodes nt1 a = Some b" by (rule node_table_node [OF nt1])
  have find: "wlan_find_node (bi_bssid bih) ?nt = Some (Some a, nt1)"
    using find_node_ok [OF assms(1,2) refl] a by (simp add: nt1_def)
  obtain nt' where nt': "wlan_node_buf_update (env_now env) False a (length buf) nt1 = Some (A_ERROR, nt')" "nt_locked nt'"
    using buf_update_failed [OF nt1 b, of "length buf" "env_now env"] assms(10) by (cases "buf = []") auto
  have "bssinfo_known env (corrected b bih) buf (length buf) a w1 =
      Some (Inl A_NO_MEMORY, average_header w1 b (corrected b bih), nt')"
    using b nt'(1) assms(6-10) by (simp add: bssinfo_known_def deref_def w1_def keeps_name_def grows_def Let_def)
  moreover have "wlan_node_return a nt' = None" using nt'(2) by (simp add: wlan_node_return_def NODE_LOCK_def)
  ultimately have "bssinfo_cache env (corrected b bih) buf (length buf) (Some a) w1 = None"
    by (simp add: bssinfo_cache_def exit_known_def wmi_node_return_def)
  then show ?thesis
    using event_rx_known [OF _ _ assms(5) _ find b, of "length buf" buf] assms(7,10) by (cases "buf = []") (simp_all add: w1_def)
qed

text \<open>A frame that is neither a beacon nor a probe response, such as an action frame, replaces the buffer
  of the station's node but not the pointers into it.  The pointer to the network's name then leads
  into freed memory, and the next search by name that comes to the node follows it.\<close>

theorem bssinfo_action_frame_dangles:
  assumes "node_table (wmi_scan_table w) (a # xs)" and "length (bi_bssid bih) = IEEE80211_ADDR_LEN"
    and "find (\<lambda>x. mac_of (wmi_scan_table w) x = bi_bssid bih) (rev (a # xs)) = Some a"
    and "contents (wmi_scan_table w) a = Some c" and "ni_refcnt c \<noteq> 0"
    and "ni_buf c = Some u" and "ie_ssid (ni_cie c) = Some (u, off)"
    and "env_caching env = Some True" and "env_buf_ok env" and "SSID_IE_LEN_INDEX < length buf"
    and "bi_frameType bih \<notin> {BEACON_FTYPE, PROBERESP_FTYPE, PROBEREQ_FTYPE}"
  shows "\<exists>w' bih'. wmi_bssInfo_event_rx env bih buf (16 + length buf) w = Some (A_OK, bih', w') \<and>
    node_table (wmi_scan_table w') (a # xs) \<and> bufs (wmi_scan_table w') u = None \<and>
    ie_ssid (ni_cie (the (contents (wmi_scan_table w') a))) = Some (u, off) \<and>
    wlan_find_Ssidnode ssid wpa2 matchSSID (wmi_scan_table w') = None"
proof -
  let ?nt = "wmi_scan_table w" and ?n = "length buf"
  define nt1 where "nt1 = with_ref (Some a) ?nt"
  define w1 where "w1 = w\<lparr>wmi_scan_table := nt1\<rparr>"
  obtain b0 where b0: "nodes ?nt a = Some b0" "c = data b0" using assms(4) by (auto simp: contents_Some)
  define b where "b = b0\<lparr>ni_refcnt := ni_refcnt b0 + 1\<rparr>"
  have b: "nodes nt1 a = Some b" using b0(1) by (simp add: nt1_def with_ref_def b_def)
  have nt1: "node_table nt1 (a # xs)" using node_table_ref [OF assms(1)] by (simp add: nt1_def)
  have find: "wlan_find_node (bi_bssid bih) ?nt = Some (Some a, nt1)"
    using find_node_ok [OF assms(1,2) refl] assms(3) by (simp add: nt1_def)
  let ?h = "corrected b bih" and ?u = "next_buf nt1" and ?re = "rebuffered (env_now env) a ?n nt1"
  define r where "r = average_header w1 b ?h"
  define b1 where "b1 = b\<lparr>ni_buf := Some ?u, ni_tstamp := env_now env, ni_actcnt := 4\<rparr>"
  have ft: "bi_frameType r \<notin> {1, 2}" "bi_frameType bih \<noteq> 4" "bi_frameType bih \<noteq> 2" "\<not> keeps_name env w1 ?h"
    using assms(11) by (simp_all add: r_def keeps_name_def)
  have n: "?n \<noteq> 0" using assms(10) by auto
  have re: "nodes ?re a = Some b1" "bufs ?re ?u = Some (replicate ?n 0)"
    using b n by (simp_all add: rebuffered_def b1_def)
  have known: "bssinfo_known env ?h buf ?n a w1 = Some (Inr ([], buf ! 13, ?n), r, ?re)"
    using b buf_update_ok [OF nt1 b, of "env_buf_ok env" ?n "env_now env"] assms(9,10) ft
    by (simp add: bssinfo_known_def deref_def w1_def [symmetric] r_def grows_def Let_def) (simp add: w1_def)
  have fill: "fill_frame ?u buf ?n [] (buf ! 13) (?re\<lparr>nodes := h\<rparr>) =
      Some (?re\<lparr>nodes := h, bufs := (bufs ?re)(?u \<mapsto> buf)\<rparr>)" for h
    using fill_frame_plain [of "?re\<lparr>nodes := h\<rparr>" ?u "replicate ?n 0" buf "[]"] re(2) by (simp add: hides_def)
  define nt2 where "nt2 = filled a (received r ?n ((ni_cie b1)\<lparr>ie_chan := bi_channel r\<rparr>)) ?u buf ?re"
  have filled: "bssinfo_fill r buf ?n [] (buf ! 13) a ?re = Some (A_OK, nt2)"
    using bssinfo_fill_other [OF re(1) _ fill, of r] ft(1) by (simp add: nt2_def b1_def)
  have nt2: "node_table nt2 (a # xs)"
    unfolding nt2_def by (rule node_table_filled [OF node_table_rebuffered [OF nt1 b]]) (use re in simp_all)
  define b2 where "b2 = received r ?n ((ni_cie b1)\<lparr>ie_chan := bi_channel r\<rparr>) b1"
  have n2: "nodes nt2 a = Some b2" using re(1) by (simp add: nt2_def filled_def b2_def)
  have "ni_refcnt (data b2) \<noteq> 1" using assms(5) b0(2) by (simp add: b2_def b1_def b_def received_def)
  moreover have "contents nt2 a = Some (data b2)" using n2 by (simp add: contents_def)
  ultimately have ret: "wlan_node_return a nt2 = Some (without_ref a nt2)" by (intro return_ok [OF nt2])
  define nt' where "nt' = without_ref a nt2"
  have nt': "node_table nt' (a # xs)" unfolding nt'_def by (rule node_table_unref [OF nt2])
  have "bssinfo_cache env ?h buf ?n (Some a) w1 = Some (A_OK, r, nt')"
    by (simp add: bssinfo_cache_def known filled exit_known_def wmi_node_return_def ret nt'_def)
  then have "wmi_bssInfo_event_rx env bih buf (16 + ?n) w = Some (A_OK, r, w\<lparr>wmi_scan_table := nt'\<rparr>)"
    using event_rx_known [OF _ _ assms(8) _ find b, of ?n buf] ft(2,3) n by (simp add: w1_def)
  moreover have c': "contents nt' a = Some (data (b2\<lparr>ni_refcnt := ni_refcnt b2 - 1\<rparr>))"
    using n2 by (simp add: nt'_def without_ref_def contents_def)
  moreover have name: "ie_ssid (ni_cie (data (b2\<lparr>ni_refcnt := ni_refcnt b2 - 1\<rparr>))) = Some (u, off)"
    using assms(7) b0(2) by (simp add: b2_def b1_def b_def received_def)
  moreover have gone: "bufs nt' u = None"
  proof -
    have "owner nt1 a = Some (ni_macaddr b, Some u)" using b assms(6) b0(2) by (simp add: owner_def b_def)
    then have "bufs nt1 u \<noteq> None" using node_tableD(2) [OF nt1] unfolding heap_ok_def by blast
    then have "u \<noteq> ?u" using heap_ok_unused(2) [OF node_tableD(2) [OF nt1]] by auto
    then show ?thesis using b assms(6) b0(2) by (simp add: nt'_def without_ref_def nt2_def filled_def rebuffered_def b_def)
  qed
  moreover have "wlan_find_Ssidnode ssid wpa2 matchSSID nt' = None"
  proof -
    have "nt_node_first nt' = Some a" using table_first [OF nt'] by simp
    moreover have "nodes nt' a = Some (b2\<lparr>ni_refcnt := ni_refcnt b2 - 1\<rparr>)" using n2 by (simp add: nt'_def without_ref_def)
    ultimately show ?thesis
      using name gone node_table_lock [OF nt']
      by (simp add: wlan_find_Ssidnode_def ssid_walk.simps deref_def ssid_match_def rd_ie_def)
  qed
  ultimately show ?thesis using nt' by (intro exI [of _ "w\<lparr>wmi_scan_table := nt'\<rparr>"] exI [of _ r]) simp
qed

end
