(* ===== verification/NodeProps.thy ===== *)
theory NodeProps
  imports NodeSearch "HOL-Library.Multiset"
begin

text \<open>
  The node table as a state machine: every sequence of the driver's operations keeps both link
  structures and counts every reference.  The state is the table, the multiset \<open>R\<close> of references handed
  out, and the set \<open>U\<close> of nodes that \<open>wlan_node_remove\<close> has taken out of the table for somebody who holds them.

  Ageing, reclaiming and the final clean-up free nodes whatever their count; references to a freed node
  dangle, and \<open>R\<close> no longer has them.  A failed buffer update leaves the lock taken, for good; such
  a state is reachable, and no operation follows it.
\<close>

subsection \<open>Runs\<close>

definition live :: "ieee80211_node_table \<Rightarrow> nat multiset \<Rightarrow> nat multiset" where
  "live nt R = filter_mset (\<lambda>a. nodes nt a \<noteq> None) R"

definition ptr_mset :: "ptr \<Rightarrow> nat multiset" where
  "ptr_mset p = mset (case p of None \<Rightarrow> [] | Some a \<Rightarrow> [a])"

type_synonym node_state = "ieee80211_node_table \<times> nat multiset \<times> nat set"

text \<open>A node that was taken out is set up again by the one who took it, while nobody else holds it.\<close>

inductive node_step :: "node_state \<Rightarrow> node_state \<Rightarrow> bool" where
  add: "wlan_node_alloc ni_ok buf_ok n nt = (Some a, nt1) \<Longrightarrow> keeps_structure f \<Longrightarrow> upd_node a f nt1 = Some nt2 \<Longrightarrow>
     length mac = IEEE80211_ADDR_LEN \<Longrightarrow> wlan_setup_node now a mac nt2 = Some nt3 \<Longrightarrow> node_step (nt, R, U) (nt3, R, U)"
| discard: "wlan_node_alloc ni_ok buf_ok n nt = (Some a, nt1) \<Longrightarrow> wlan_node_free a nt1 = Some nt2 \<Longrightarrow>
     node_step (nt, R, U) (nt2, R, U)"
| find: "length mac = IEEE80211_ADDR_LEN \<Longrightarrow> size R < 2 ^ 32 - 2 \<Longrightarrow> wlan_find_node mac nt = Some (p, nt') \<Longrightarrow>
     node_step (nt, R, U) (nt', R + ptr_mset p, U)"
| search: "size R < 2 ^ 32 - 2 \<Longrightarrow> wlan_find_Ssidnode ssid wpa2 matchSSID nt = Some (p, nt') \<Longrightarrow>
     node_step (nt, R, U) (nt', R + ptr_mset p, U)"
| return: "a \<in># R \<Longrightarrow> wlan_node_return a nt = Some nt' \<Longrightarrow>
     node_step (nt, R, U) (nt', R - {#a#}, {x \<in> U. nodes nt' x \<noteq> None})"
| reclaim: "a \<in># R \<Longrightarrow> a \<notin> U \<Longrightarrow> wlan_node_reclaim a nt = Some nt' \<Longrightarrow> node_step (nt, R, U) (nt', live nt' R, U)"
| remove: "length mac = IEEE80211_ADDR_LEN \<Longrightarrow> size R < 2 ^ 32 - 2 \<Longrightarrow> wlan_node_remove mac nt = Some (p, nt') \<Longrightarrow>
     node_step (nt, R, U) (nt', R + ptr_mset p, U \<union> set_option p)"
| reinsert: "a \<in> U \<Longrightarrow> count R a = 1 \<Longrightarrow> length mac = IEEE80211_ADDR_LEN \<Longrightarrow> wlan_setup_node now a mac nt = Some nt' \<Longrightarrow>
     node_step (nt, R, U) (nt', R - {#a#}, U - {a})"
| update: "a \<in># R \<Longrightarrow> wlan_node_buf_update now buf_ok a len nt = Some (st, nt') \<Longrightarrow> node_step (nt, R, U) (nt', R, U)"
| fields: "a \<in># R \<Longrightarrow> keeps_structure f \<Longrightarrow> \<forall>b. ni_refcnt (f b) = ni_refcnt b \<Longrightarrow> upd_node a f nt = Some nt' \<Longrightarrow>
     node_step (nt, R, U) (nt', R, U)"
| refresh: "wlan_refresh_inactive_nodes now my nt = Some nt' \<Longrightarrow> node_step (nt, R, U) (nt', live nt' R, U)"
| iterate: "obedient f \<Longrightarrow> wlan_iterate_nodes f (s :: nat) nt = Some (s', nt') \<Longrightarrow> node_step (nt, R, U) (nt', R, U)"
| age: "node_step (nt, R, U) (wlan_set_nodeage n nt, R, U)"
| free_all: "wlan_free_allnodes nt = Some nt' \<Longrightarrow> node_step (nt, R, U) (nt', live nt' R, U)"

inductive node_reach :: "node_state \<Rightarrow> bool" where
  init: "nodes nt = Map.empty \<Longrightarrow> bufs nt = Map.empty \<Longrightarrow> node_reach (wlan_node_table_init nt, {#}, {})"
| step: "node_reach (nt, R, U) \<Longrightarrow> \<not> nt_locked nt \<Longrightarrow> node_step (nt, R, U) s' \<Longrightarrow> node_reach s'"

text \<open>The table holds one reference to each of its nodes, beside those handed out.\<close>

definition refcnt :: "ieee80211_node_table \<Rightarrow> nat \<Rightarrow> 32 word option" where
  "refcnt nt a = map_option ni_refcnt (nodes nt a)"

definition counted :: "ieee80211_node_table \<Rightarrow> nat list \<Rightarrow> nat multiset \<Rightarrow> nat set \<Rightarrow> bool" where
  "counted nt xs R U \<longleftrightarrow> set_mset R \<subseteq> set xs \<union> U \<and> set xs \<inter> U = {} \<and> U \<subseteq> set_mset R \<and> size R < 2 ^ 32 - 1 \<and>
     (\<forall>a \<in> set xs. refcnt nt a = Some (word_of_nat (Suc (count R a)))) \<and>
     (\<forall>a \<in> U. refcnt nt a = Some (word_of_nat (count R a)))"

lemma countedD:
  assumes "counted nt xs R U"
  shows "set_mset R \<subseteq> set xs \<union> U" "set xs \<inter> U = {}" "U \<subseteq> set_mset R" "size R < 2 ^ 32 - 1"
    "a \<in> set xs \<Longrightarrow> refcnt nt a = Some (word_of_nat (Suc (count R a)))" "a \<in> U \<Longrightarrow> refcnt nt a = Some (word_of_nat (count R a))"
  using assms unfolding counted_def by blast+

lemma refcnt_contents: "refcnt nt a = map_option ni_refcnt (contents nt a)"
  by (simp add: refcnt_def contents_def option.map_comp comp_def)

lemma refcnt_None [simp]: "refcnt nt a = None \<longleftrightarrow> nodes nt a = None"
  by (simp add: refcnt_def)

lemma unat_refs: "size R < 2 ^ 32 - 1 \<Longrightarrow> unat (word_of_nat (count R a) :: 32 word) = count R a"
  "size R < 2 ^ 32 - 1 \<Longrightarrow> unat (word_of_nat (Suc (count R a)) :: 32 word) = Suc (count R a)"
  using count_le_size [of R a] unfolding unat_of_nat by simp_all

lemma counted_ref:
  assumes "counted nt xs R U" "a \<in> set xs" "contents nt a = Some c"
  shows "ni_refcnt c \<noteq> 0" "a \<in># R \<Longrightarrow> ni_refcnt c \<noteq> 1"
proof -
  have r: "ni_refcnt c = word_of_nat (Suc (count R a))" using countedD(5) [OF assms(1,2)] assms(3) by (simp add: refcnt_contents)
  have u: "unat (word_of_nat (Suc (count R a)) :: 32 word) = Suc (count R a)" using unat_refs(2) [OF countedD(4) [OF assms(1)]] .
  then show "ni_refcnt c \<noteq> 0" unfolding r by auto
  show "ni_refcnt c \<noteq> 1" if "a \<in># R" using u that unfolding r by (auto simp: count_eq_zero_iff)
qed

lemma counted_cong: "counted nt xs R U \<Longrightarrow> (\<And>a. nodes nt a \<noteq> None \<Longrightarrow> refcnt nt' a = refcnt nt a) \<Longrightarrow> counted nt' xs R U"
  unfolding counted_def by (metis option.distinct(1) refcnt_None)

text \<open>Freeing nodes of the table.\<close>

lemma counted_live:
  assumes "counted nt xs R U" "set xs' \<subseteq> set xs" "\<And>a. a \<in> set xs' \<union> U \<Longrightarrow> refcnt nt' a = refcnt nt a"
    "\<And>a. a \<in> set xs - set xs' \<Longrightarrow> nodes nt' a = None"
  shows "counted nt' xs' (live nt' R) U"
proof -
  have alive: "nodes nt' a \<noteq> None" if "a \<in> set xs' \<union> U" for a
    using assms(1-3) that unfolding counted_def by (metis Un_iff option.distinct(1) refcnt_None subsetD)
  then have c: "count (live nt' R) a = count R a" if "a \<in> set xs' \<union> U" for a using that by (simp add: live_def)
  have "size (live nt' R) \<le> size R" by (simp add: live_def size_filter_mset_lesseq)
  moreover have "set_mset (live nt' R) \<subseteq> set xs' \<union> U" using assms(1,4) by (fastforce simp: counted_def live_def)
  moreover have "U \<subseteq> set_mset (live nt' R)" using assms(1) alive by (auto simp: counted_def live_def)
  ultimately show ?thesis using assms(1-3) c unfolding counted_def by auto
qed

definition node_sys :: "node_state \<Rightarrow> nat list \<Rightarrow> bool" where
  "node_sys s xs \<longleftrightarrow> (case s of (nt, R, U) \<Rightarrow> node_table (NODE_UNLOCK nt) xs \<and> counted nt xs R U)"

lemma node_sysD: "node_sys (nt, R, U) xs \<Longrightarrow> \<not> nt_locked nt \<Longrightarrow> node_table nt xs \<and> counted nt xs R U"
  by (simp add: node_sys_def NODE_UNLOCK_def unlock_unchanged)

lemma node_sysI: "node_table nt xs \<Longrightarrow> counted nt xs R U \<Longrightarrow> node_sys (nt, R, U) xs"
  using node_tableD(1) [of nt xs] by (simp add: node_sys_def NODE_UNLOCK_def unlock_unchanged)

subsection \<open>Every step keeps the invariant\<close>

lemma upd_node_write: "upd_node a f nt = Some nt' \<Longrightarrow> nt' = nt\<lparr>nodes := upd_at (Some a) f (nodes nt)\<rparr> \<and> nodes nt a \<noteq> None"
  by (auto simp: upd_node_def upd_at_def fun_eq_iff split: option.splits)

lemma refcnt_with_ref: "refcnt (with_ref p nt) a = map_option (\<lambda>n. n + (if p = Some a then 1 else 0)) (refcnt nt a)"
  by (cases "nodes nt a") (simp_all add: refcnt_def with_ref_def upd_at_def)

lemma refcnt_without_ref: "refcnt (without_ref a nt) x = map_option (\<lambda>n. n - (if a = x then 1 else 0)) (refcnt nt x)"
  by (cases "nodes nt x") (simp_all add: refcnt_def without_ref_def upd_at_def)

lemma listed_node: "node_table nt xs \<Longrightarrow> a \<in> set xs \<Longrightarrow> nodes nt a \<noteq> None"
  by (erule node_table_node) auto

lemma counted_node: "counted nt xs R U \<Longrightarrow> a \<in># R \<Longrightarrow> nodes nt a \<noteq> None"
  unfolding counted_def by (metis Un_iff option.distinct(1) refcnt_None subsetD)

text \<open>A reference to a listed node is handed out.\<close>

lemma ref_sys:
  assumes "node_table nt xs" "counted nt xs R U" "size R < 2 ^ 32 - 2" "set_option p \<subseteq> set xs"
  shows "node_sys (with_ref p nt, R + ptr_mset p, U) xs"
proof (rule node_sysI [OF node_table_ref [OF assms(1)]])
  show "counted (with_ref p nt) xs (R + ptr_mset p) U"
    using assms(2-4) by (cases p) (auto simp: counted_def refcnt_with_ref ptr_mset_def)
qed

lemma found_in: "p = find P xs \<Longrightarrow> set_option p \<subseteq> set xs"
  by (induction xs) auto

lemma add_sys:
  assumes "node_table nt xs" "counted nt xs R U" "wlan_node_alloc ni_ok buf_ok n nt = (Some a, nt1)" "keeps_structure f"
    "upd_node a f nt1 = Some nt2" "length mac = IEEE80211_ADDR_LEN" "wlan_setup_node now a mac nt2 = Some nt3"
  shows "node_sys (nt3, R, U) (xs @ [a])"
proof -
  have a: "a = next_node nt" "nt1 = allocated n nt" using assms(3) by (simp_all add: alloc_eq split: if_splits)
  have t1: "node_table nt1 xs" "a \<notin> set xs" using node_table_allocated [OF assms(1)] a by simp_all
  have new: "nodes nt a = None" using heap_ok_unused(1) [OF node_tableD(2) [OF assms(1)]] a by simp
  obtain b where nt2: "nt2 = nt1\<lparr>nodes := upd_at (Some a) f (nodes nt1)\<rparr>" "nodes nt1 a = Some b"
    using upd_node_write [OF assms(5)] by auto
  have t2: "node_table nt2 xs" unfolding nt2(1) by (rule node_table_write [OF t1(1) assms(4)])
  have "nodes nt2 a = Some (f b)" using nt2 by simp
  from setup_ok [OF t2 this t1(2) assms(6), of now] assms(7) have t3: "node_table nt3 (xs @ [a])"
    "contents nt3 = (contents nt2)(a \<mapsto> set_up now mac (data (f b)))" by auto
  have R: "a \<notin># R" using new counted_node [OF assms(2)] by blast
  then have U: "a \<notin> U" using countedD(3) [OF assms(2)] by blast
  have "refcnt nt3 x = (if x = a then Some 1 else refcnt nt x)" for x
    using t3(2) a by (auto simp: refcnt_contents contents_def nt2(1) allocated_def set_up_def)
  then have "counted nt3 (xs @ [a]) R U" using assms(2) R U t1(2) by (auto simp: counted_def not_in_iff)
  then show ?thesis using t3(1) by (rule node_sysI [rotated])
qed

lemma discard_sys:
  assumes "node_table nt xs" "counted nt xs R U" "wlan_node_alloc ni_ok buf_ok n nt = (Some a, nt1)" "wlan_node_free a nt1 = Some nt2"
  shows "node_sys (nt2, R, U) xs"
proof -
  have a: "a = next_node nt" "nt1 = allocated n nt" using assms(3) by (simp_all add: alloc_eq split: if_splits)
  have t1: "node_table nt1 xs" "a \<notin> set xs" using node_table_allocated [OF assms(1)] a by simp_all
  have n: "nodes nt1 a \<noteq> None" "nodes nt a = None"
    using heap_ok_unused(1) [OF node_tableD(2) [OF assms(1)]] by (simp_all add: a allocated_def)
  have "nt2 = freed a nt1" using free_ok(1) [OF node_tableD(2) [OF t1(1)] n(1)] assms(4) by simp
  moreover have "refcnt (freed a nt1) x = refcnt nt x" if "nodes nt x \<noteq> None" for x
    using that n(2) a by (auto simp: refcnt_def freed_def allocated_def)
  ultimately show ?thesis
    using freed_outside [OF t1(1) n(1) t1(2)] counted_cong [OF assms(2)] by (auto intro: node_sysI)
qed

text \<open>The last reference to a node that was taken out frees it.\<close>

lemma return_last:
  assumes "node_table nt xs" "contents nt a = Some c" "ni_refcnt c = 1" "a \<notin> set xs"
  shows "wlan_node_return a nt = Some (freed a (without_ref a nt))" "node_table (freed a (without_ref a nt)) xs"
proof -
  let ?nt = "nt\<lparr>nt_locked := True\<rparr>"
  have n: "nodes (without_ref a nt) a \<noteq> None" using assms(2) by (auto simp: without_ref_def contents_Some)
  show "node_table (freed a (without_ref a nt)) xs" by (rule freed_outside [OF node_table_unref [OF assms(1)] n assms(4)])
  have wl: "without_ref a ?nt = (without_ref a nt)\<lparr>nt_locked := True\<rparr>" by (simp add: without_ref_def)
  have "heap_ok (without_ref a ?nt)" using node_tableD(2) [OF node_table_unref [OF assms(1)]] by (simp add: wl)
  from free_ok(1) [OF this, of a] n have "wlan_node_free a (without_ref a ?nt) = Some (freed a (without_ref a ?nt))" by (simp add: wl)
  moreover have "contents ?nt a = Some c" using assms(2) by (simp add: contents_def)
  ultimately have "wlan_node_dec_free a ?nt = Some (freed a (without_ref a ?nt))" using dec_free_ok assms(3) by simp
  moreover have "NODE_UNLOCK (freed a (without_ref a ?nt)) = freed a (without_ref a nt)"
    using node_tableD(1) [OF assms(1)] by (simp add: wl NODE_UNLOCK_def) (simp add: freed_def without_ref_def unlock_unchanged)
  ultimately show "wlan_node_return a nt = Some (freed a (without_ref a nt))"
    using node_table_lock [OF assms(1)] by (simp add: wlan_node_return_def)
qed

lemma return_sys:
  assumes "node_table nt xs" "counted nt xs R U" "a \<in># R" "wlan_node_return a nt = Some nt'"
  shows "node_sys (nt', R - {#a#}, {x \<in> U. nodes nt' x \<noteq> None}) xs"
proof -
  obtain c where c: "contents nt a = Some c" using counted_node [OF assms(2,3)] by (auto simp: contents_def)
  obtain k where k: "count R a = Suc k" using assms(3) by (metis count_greater_zero_iff gr0_implies_Suc)
  have r: "set_mset (R - {#a#}) \<subseteq> set_mset R" "size (R - {#a#}) < 2 ^ 32 - 1"
    using assms(2) by (auto simp: counted_def size_Diff_singleton_if dest: in_diffD)
  show ?thesis
  proof (cases "ni_refcnt c = 1")
    case False
    then have nt': "nt' = without_ref a nt" using return_ok [OF assms(1) c] assms(4) by simp
    have "k \<noteq> 0" if "a \<in> U" using countedD(6) [OF assms(2) that] False c k by (cases k) (auto simp: refcnt_contents)
    then have "U \<subseteq> set_mset (R - {#a#})"
      using assms(2) k by (force simp: counted_def in_diff_count simp flip: count_greater_zero_iff)
    moreover have "{x \<in> U. nodes nt' x \<noteq> None} = U"
      using assms(2) by (force simp: counted_def nt' without_ref_def simp flip: refcnt_None)
    ultimately have "counted nt' xs (R - {#a#}) {x \<in> U. nodes nt' x \<noteq> None}"
      using assms(2) r k by (auto simp: counted_def nt' refcnt_without_ref)
    then show ?thesis using node_table_unref [OF assms(1)] nt' node_sysI by blast
  next
    case True
    then have a: "a \<notin> set xs" using counted_ref(2) [OF assms(2) _ c assms(3)] by blast
    then have U: "a \<in> U" using assms(2,3) by (auto simp: counted_def)
    note l = return_last [OF assms(1) c True a]
    have nt': "nt' = freed a (without_ref a nt)" using l(1) assms(4) by simp
    have n: "word_of_nat (count R a) = (1 :: 32 word)" using countedD(6) [OF assms(2) U] c True by (simp add: refcnt_contents)
    then have "count R a = 1" using unat_refs(1) [OF countedD(4) [OF assms(2)], of a] n by simp
    then have "a \<notin># R - {#a#}" by (simp add: not_in_iff)
    moreover have "refcnt nt' x = (if x = a then None else refcnt nt x)" for x
      by (auto simp: nt' refcnt_def freed_def without_ref_def upd_at_def)
    moreover from this have "nodes nt' x \<noteq> None \<longleftrightarrow> x \<noteq> a \<and> nodes nt x \<noteq> None" for x
      by (simp flip: refcnt_None)
    ultimately have rf: "a \<notin># R - {#a#}" "\<And>x. x \<noteq> a \<Longrightarrow> refcnt nt' x = refcnt nt x" "{x \<in> U. nodes nt' x \<noteq> None} = U - {a}"
      using countedD(3) [OF assms(2)] counted_node [OF assms(2)] by auto
    have "set_mset (R - {#a#}) \<subseteq> set xs \<union> (U - {a})" using countedD(1) [OF assms(2)] r(1) rf(1) by blast
    moreover have "U - {a} \<subseteq> set_mset (R - {#a#})"
    proof
      fix x assume x: "x \<in> U - {a}"
      then have "count (R - {#a#}) x = count R x" "x \<in># R" using countedD(3) [OF assms(2)] by auto
      then show "x \<in># R - {#a#}" by (metis count_eq_zero_iff)
    qed
    moreover have "refcnt nt' x = Some (word_of_nat (Suc (count (R - {#a#}) x)))" if "x \<in> set xs" for x
      using countedD(5) [OF assms(2) that] that a rf(2) by (cases "x = a") auto
    moreover have "refcnt nt' x = Some (word_of_nat (count (R - {#a#}) x))" if "x \<in> U - {a}" for x
      using countedD(6) [OF assms(2)] that rf(2) by auto
    ultimately have "counted nt' xs (R - {#a#}) {x \<in> U. nodes nt' x \<noteq> None}"
      using countedD(2) [OF assms(2)] r(2) unfolding rf(3) counted_def by blast
    then show ?thesis using l(2) nt' node_sysI by blast
  qed
qed

lemma reclaim_sys:
  assumes "node_table nt xs" "counted nt xs R U" "a \<in># R" "a \<notin> U" "wlan_node_reclaim a nt = Some nt'"
  shows "node_sys (nt', live nt' R, U) (remove1 a xs)"
proof -
  have a: "a \<in> set xs" using assms(2-4) by (auto simp: counted_def)
  have d: "distinct xs" by (rule node_tableD(4) [OF assms(1)])
  have nt': "nt' = reclaimed a nt" using reclaim_ok(1) [OF assms(1) a] assms(5) by simp
  have c: "contents nt' = (contents nt)(a := None)" by (simp add: nt' contents_reclaimed)
  have "counted nt' (remove1 a xs) (live nt' R) U"
  proof (rule counted_live [OF assms(2) set_remove1_subset])
    show "refcnt nt' x = refcnt nt x" if "x \<in> set (remove1 a xs) \<union> U" for x
      using that d assms(4) c by (auto simp: refcnt_contents)
    show "nodes nt' x = None" if "x \<in> set xs - set (remove1 a xs)" for x
      using that d c by (auto simp flip: contents_None)
  qed
  then show ?thesis using reclaim_ok(2) [OF assms(1) a] nt' node_sysI by blast
qed

lemma remove_sys:
  assumes "node_table nt xs" "counted nt xs R U" "length mac = IEEE80211_ADDR_LEN" "size R < 2 ^ 32 - 2"
    "wlan_node_remove mac nt = Some (p, nt')"
  shows "\<exists>xs'. node_sys (nt', R + ptr_mset p, U \<union> set_option p) xs'"
proof -
  note r = remove_ok [OF assms(1,3) refl]
  have p: "p = find (\<lambda>a. mac_of nt a = mac) xs" "nt' = taken_out p nt" using r(1) assms(5) by simp_all
  have "contents nt' = contents nt" by (cases p) (simp_all add: p(2) taken_out_def)
  then have c: "refcnt nt' = refcnt nt" by (simp add: refcnt_contents fun_eq_iff)
  let ?xs = "case p of None \<Rightarrow> xs | Some a \<Rightarrow> remove1 a xs"
  have "set_option p \<subseteq> set xs" using p(1) by (rule found_in)
  then have "counted nt' ?xs (R + ptr_mset p) (U \<union> set_option p)"
    using assms(2,4) node_tableD(4) [OF assms(1)]
    by (cases p) (auto simp: counted_def c ptr_mset_def)
  then show ?thesis using r(2) p node_sysI by blast
qed

lemma reinsert_sys:
  assumes "node_table nt xs" "counted nt xs R U" "a \<in> U" "count R a = 1" "length mac = IEEE80211_ADDR_LEN"
    "wlan_setup_node now a mac nt = Some nt'"
  shows "node_sys (nt', R - {#a#}, U - {a}) (xs @ [a])"
proof -
  have a: "a \<notin> set xs" "a \<in># R" using assms(2,3) by (auto simp: counted_def)
  obtain b where b: "nodes nt a = Some b" using counted_node [OF assms(2) a(2)] by blast
  from setup_ok [OF assms(1) b a(1) assms(5), of now] assms(6) have t: "node_table nt' (xs @ [a])"
    "contents nt' = (contents nt)(a \<mapsto> set_up now mac (data b))" by auto
  have r: "refcnt nt' x = (if x = a then Some 1 else refcnt nt x)" for x by (simp add: refcnt_contents t(2) set_up_def)
  have "x \<in># R - {#a#}" if "x \<in> U - {a}" for x using that assms(2) by (force simp: counted_def in_diff_count)
  moreover have "size (R - {#a#}) < 2 ^ 32 - 1" using assms(2) by (auto simp: counted_def size_Diff_singleton_if)
  moreover have "a \<notin># R - {#a#}" using assms(4) by (simp add: not_in_iff)
  then have "set_mset (R - {#a#}) \<subseteq> set xs \<union> (U - {a})" using assms(2) by (auto simp: counted_def dest: in_diffD)
  ultimately have "counted nt' (xs @ [a]) (R - {#a#}) (U - {a})"
    using assms(2,4) a r by (auto simp: counted_def)
  then show ?thesis using t(1) by (rule node_sysI [rotated])
qed

text \<open>The table after a failed buffer update, but for the lock.\<close>

lemma buf_update_failed_table:
  assumes "node_table nt xs" "nodes nt a = Some b" "wlan_node_buf_update now buf_ok a len nt = Some (A_ERROR, nt')"
  shows "node_table (NODE_UNLOCK nt') xs" "nt_locked nt'" "refcnt nt' = refcnt nt"
proof -
  note d = node_tableD [OF assms(1)]
  have f: "\<not> buf_ok" "len \<noteq> 0" using buf_update_ok [OF assms(1,2), of buf_ok len now] assms(3) by auto
  have "owner nt a = Some (ni_macaddr b, ni_buf b)" using assms(2) by (simp add: owner_def)
  then have u: "bufs nt u \<noteq> None" if "ni_buf b = Some u" for u using that d(2) unfolding heap_ok_def by blast
  let ?bufs = "\<lambda>u. if ni_buf b = Some u then None else bufs nt u"
  have e: "nt' = nt\<lparr>nt_locked := True, nodes := (nodes nt)(a \<mapsto> b\<lparr>ni_buf := None\<rparr>), bufs := ?bufs\<rparr>"
  proof (cases "ni_buf b")
    case None
    then have "b\<lparr>ni_buf := None\<rparr> = b" by simp
    then show ?thesis using assms(2,3) d(1) f None
      by (cases nt) (auto simp: wlan_node_buf_update_def NODE_LOCK_def deref_def fun_upd_idem)
  next
    case (Some v)
    then obtain m where "bufs nt v = Some m" using u by blast
    then show ?thesis using assms(2,3) d(1) f Some
      by (cases nt) (auto simp: wlan_node_buf_update_def NODE_LOCK_def deref_def free_buf_def upd_node_def fun_upd_def)
  qed
  show "nt_locked nt'" by (simp add: e)
  show "refcnt nt' = refcnt nt" using assms(2) by (auto simp: refcnt_def e)
  let ?f = "\<lambda>x. x\<lparr>ni_tstamp := ni_tstamp b, ni_actcnt := ni_actcnt b\<rparr>" and ?r = "rebuffered now a 0 nt"
  have k: "keeps_structure ?f" by (simp add: keeps_structure_def)
  have "NODE_UNLOCK nt' = ?r\<lparr>nodes := upd_at (Some a) ?f (nodes ?r)\<rparr>"
    using d(1) assms(2) by (cases nt) (simp add: e NODE_UNLOCK_def rebuffered_def upd_at_def fun_eq_iff)
  then show "node_table (NODE_UNLOCK nt') xs" using node_table_write [OF node_table_rebuffered [OF assms(1,2)] k] by simp
qed

lemma update_sys:
  assumes "node_table nt xs" "counted nt xs R U" "a \<in># R" "wlan_node_buf_update now buf_ok a len nt = Some (st, nt')"
  shows "node_sys (nt', R, U) xs"
proof -
  obtain b where b: "nodes nt a = Some b" using counted_node [OF assms(2,3)] by blast
  show ?thesis
  proof (cases "buf_ok \<or> len = 0")
    case True
    then have "nt' = rebuffered now a len nt" using buf_update_ok [OF assms(1) b] assms(4) by simp
    moreover have "refcnt (rebuffered now a len nt) = refcnt nt"
      using b by (auto simp: refcnt_def rebuffered_def upd_at_def fun_eq_iff)
    ultimately show ?thesis
      using node_table_rebuffered [OF assms(1) b] counted_cong [OF assms(2)] by (auto intro: node_sysI)
  next
    case False
    then have "wlan_node_buf_update now buf_ok a len nt = Some (A_ERROR, nt')"
      using buf_update_failed [OF assms(1) b, of len now] assms(4) by (cases buf_ok) auto
    from buf_update_failed_table [OF assms(1) b this] show ?thesis
      using counted_cong [OF assms(2)] by (auto simp: node_sys_def)
  qed
qed

lemma fields_sys:
  assumes "node_table nt xs" "counted nt xs R U" "keeps_structure f" "\<forall>b. ni_refcnt (f b) = ni_refcnt b" "upd_node a f nt = Some nt'"
  shows "node_sys (nt', R, U) xs"
proof -
  have nt': "nt' = nt\<lparr>nodes := upd_at (Some a) f (nodes nt)\<rparr>" using upd_node_write [OF assms(5)] by simp
  have "refcnt nt' = refcnt nt" using assms(4) by (auto simp: refcnt_def nt' upd_at_def option.map_comp comp_def)
  then show ?thesis using node_table_write [OF assms(1,3)] counted_cong [OF assms(2)] nt' by (auto intro: node_sysI)
qed

lemma refresh_ok:
  assumes "node_table nt xs"
  shows "\<exists>nt'. wlan_refresh_inactive_nodes now my nt = Some nt' \<and>
    node_table nt' (filter (\<lambda>a. \<not> expired now (nt_nodeAge nt) my (the (contents nt a))) xs) \<and>
    contents nt' = (\<lambda>a. if a \<in> set xs then aged now (nt_nodeAge nt) my (the (contents nt a)) else contents nt a)"
  using refresh_walk_ok [of nt "[]" xs "nt_nodeAge nt" now my] assms table_first [OF assms]
  by (simp add: wlan_refresh_inactive_nodes_def)

lemma refresh_sys:
  assumes "node_table nt xs" "counted nt xs R U" "wlan_refresh_inactive_nodes now my nt = Some nt'"
  shows "\<exists>xs'. node_sys (nt', live nt' R, U) xs'"
proof -
  let ?xs = "filter (\<lambda>a. \<not> expired now (nt_nodeAge nt) my (the (contents nt a))) xs"
  have r: "node_table nt' ?xs"
    "contents nt' = (\<lambda>a. if a \<in> set xs then aged now (nt_nodeAge nt) my (the (contents nt a)) else contents nt a)"
    using refresh_ok [OF assms(1), of now my] assms(3) by auto
  have "counted nt' ?xs (live nt' R) U"
  proof (rule counted_live [OF assms(2)])
    show "refcnt nt' x = refcnt nt x" if x: "x \<in> set ?xs \<union> U" for x
    proof (cases "x \<in> set xs")
      case True
      then have "x \<in> set ?xs" using x assms(2) by (auto simp: counted_def)
      moreover obtain b where "contents nt x = Some (data b)" by (rule node_table_node [OF assms(1) True])
      ultimately show ?thesis using r(2) True by (auto simp: refcnt_contents aged_def)
    qed (use r(2) in \<open>simp add: refcnt_contents\<close>)
    show "nodes nt' x = None" if "x \<in> set xs - set ?xs" for x
      using that r(2) by (auto simp: aged_def simp flip: contents_None)
  qed auto
  then show ?thesis using r(1) node_sysI by blast
qed

lemma iterate_all:
  assumes "node_table nt xs" "counted nt xs R U" "obedient f"
  shows "\<exists>s' nt'. wlan_iterate_nodes f s nt = Some (s', nt') \<and> node_table nt' xs \<and> refcnt nt' = refcnt nt"
proof -
  obtain s1 h where v: "visit_all f (nt_scangen nt + 1) xs s (nodes nt) = (s1, h)" by fastforce
  have nz: "\<forall>a \<in> set xs. ni_refcnt (the (contents nt a)) \<noteq> 0"
  proof
    fix a assume a: "a \<in> set xs"
    obtain b where "contents nt a = Some (data b)" by (rule node_table_node [OF assms(1) a])
    with counted_ref(1) [OF assms(2) a this] show "ni_refcnt (the (contents nt a)) \<noteq> 0" by simp
  qed
  from iterate_ok [OF assms(1,3) nz v refl] show ?thesis by (auto simp: refcnt_contents fun_eq_iff)
qed

lemma ssid_walk_some:
  assumes "chained nt (zs @ ys)" "ssid_walk ssid wpa2 matchSSID (head ys) nt = Some (p, nt')"
  shows "set_option p \<subseteq> set ys \<and> nt' = with_ref p nt"
  using assms
proof (induction ys arbitrary: zs)
  case Nil
  then show ?case by (simp add: ssid_walk.simps)
next
  case (Cons a ys)
  obtain b where b: "nodes nt a = Some b" "ni_list_next b = head ys" by (rule walk_node [OF Cons.prems(1)])
  have "chained nt ((zs @ [a]) @ ys)" using Cons.prems(1) by simp
  note IH = Cons.IH [OF this]
  show ?case using Cons.prems(2) b IH upd_ref [of nt a]
    by (auto simp: ssid_walk.simps [of _ _ _ "Some a"] deref_def bind_eq_Some_conv split: if_split_asm)
qed

lemma search_sys:
  assumes "node_table nt xs" "counted nt xs R U" "size R < 2 ^ 32 - 2" "wlan_find_Ssidnode ssid wpa2 matchSSID nt = Some (p, nt')"
  shows "node_sys (nt', R + ptr_mset p, U) xs"
proof -
  let ?nt = "nt\<lparr>nt_locked := True\<rparr>"
  note d = node_tableD [OF assms(1)]
  have c: "chained ?nt ([] @ xs)" using d(3) by simp
  obtain nt1 where w: "ssid_walk ssid wpa2 matchSSID (head xs) ?nt = Some (p, nt1)" "nt' = NODE_UNLOCK nt1"
    using assms(4) node_table_lock [OF assms(1)] table_first [OF assms(1)] by (auto simp: wlan_find_Ssidnode_def bind_eq_Some_conv)
  have p: "set_option p \<subseteq> set xs" "nt1 = with_ref p ?nt" using ssid_walk_some [OF c w(1)] by simp_all
  have "nt' = with_ref p nt" using d(1) by (simp add: w(2) p(2) NODE_UNLOCK_def with_ref_def)
  then show ?thesis using ref_sys [OF assms(1-3) p(1)] by simp
qed

lemma node_step_sys:
  assumes "node_step s s'" "s = (nt, R, U)" "node_table nt xs" "counted nt xs R U"
  shows "\<exists>xs'. node_sys s' xs'"
  using assms(1)
proof (cases rule: node_step.cases)
  case (find mac R' nt0 p nt' U')
  then have e: "p = List.find (\<lambda>a. mac_of nt a = mac) (rev xs)" "nt' = with_ref p nt"
    using find_node_ok [OF assms(3) find(3) refl] assms(2) by simp_all
  have "set_option p \<subseteq> set xs" using found_in [OF e(1)] by simp
  then show ?thesis using ref_sys [OF assms(3,4)] find assms(2) e(2) by auto
next
  case (iterate f u nt0 u' nt' R' U')
  have "node_table nt' xs" "refcnt nt' = refcnt nt" using iterate_all [OF assms(3,4) iterate(3), of u] iterate(1,4) assms(2) by auto
  moreover from this(2) have "counted nt' xs R U" by (intro counted_cong [OF assms(4)]) simp
  ultimately show ?thesis using node_sysI [of nt' xs R U] iterate(1,2) assms(2) by auto
next
  case (age nt0 R' U' n)
  have "node_table (wlan_set_nodeage n nt) xs"
    using assms(3) by (simp add: node_table_def wlan_set_nodeage_def heap_ok_def owner_def chained_def bucket_def mac_of_def contents_def)
  moreover have "counted (wlan_set_nodeage n nt) xs R U"
    by (rule counted_cong [OF assms(4)]) (simp add: wlan_set_nodeage_def refcnt_def)
  ultimately show ?thesis using age assms(2) node_sysI [of "wlan_set_nodeage n nt" xs R U] by auto
next
  case (free_all nt0 nt' R' U')
  have f: "node_table nt' []" "contents nt' = (\<lambda>a. if a \<in> set xs then None else contents nt a)"
    using free_allnodes_ok [OF assms(3)] free_all assms(2) by auto
  have "counted nt' [] (live nt' R) U"
  proof (rule counted_live [OF assms(4)])
    show "refcnt nt' x = refcnt nt x" if "x \<in> set [] \<union> U" for x
      using that assms(4) f(2) by (auto simp: refcnt_contents counted_def)
    show "nodes nt' x = None" if "x \<in> set xs - set []" for x using that f(2) by (simp flip: contents_None)
  qed simp
  then show ?thesis using node_sysI [OF f(1)] free_all assms(2) by auto
next
  case (add ni_ok buf_ok k nt0 a nt1 f nt2 mac now nt3 R' U')
  then have "nt0 = nt" "R' = R" "U' = U" using assms(2) by simp_all
  with add show ?thesis using add_sys [OF assms(3,4)] by blast
next
  case (discard ni_ok buf_ok k nt0 a nt1 nt2 R' U')
  then have "nt0 = nt" "R' = R" "U' = U" using assms(2) by simp_all
  with discard show ?thesis using discard_sys [OF assms(3,4)] by blast
next
  case (search R' ssid wpa2 matchSSID nt0 p nt' U')
  then have "nt0 = nt" "R' = R" "U' = U" using assms(2) by simp_all
  with search show ?thesis using search_sys [OF assms(3,4)] by blast
next
  case (return a R' nt0 nt' U')
  then have "nt0 = nt" "R' = R" "U' = U" using assms(2) by simp_all
  with return show ?thesis using return_sys [OF assms(3,4)] by blast
next
  case (reclaim a R' U' nt0 nt')
  then have "nt0 = nt" "R' = R" "U' = U" using assms(2) by simp_all
  with reclaim show ?thesis using reclaim_sys [OF assms(3,4)] by blast
next
  case (remove mac R' nt0 p nt' U')
  then have "nt0 = nt" "R' = R" "U' = U" using assms(2) by simp_all
  with remove show ?thesis using remove_sys [OF assms(3,4)] by blast
next
  case (reinsert a U' R' mac now nt0 nt')
  then have "nt0 = nt" "R' = R" "U' = U" using assms(2) by simp_all
  with reinsert show ?thesis using reinsert_sys [OF assms(3,4)] by blast
next
  case (update a R' now buf_ok len nt0 st nt' U')
  then have "nt0 = nt" "R' = R" "U' = U" using assms(2) by simp_all
  with update show ?thesis using update_sys [OF assms(3,4)] by blast
next
  case (fields a R' f nt0 nt' U')
  then have "nt0 = nt" "R' = R" "U' = U" using assms(2) by simp_all
  with fields show ?thesis using fields_sys [OF assms(3,4)] by blast
next
  case (refresh now my nt0 nt' R' U')
  then have "nt0 = nt" "R' = R" "U' = U" using assms(2) by simp_all
  with refresh show ?thesis using refresh_sys [OF assms(3,4)] by blast
qed

lemma node_reach_sys: "node_reach s \<Longrightarrow> \<exists>xs. node_sys s xs"
proof (induction rule: node_reach.induct)
  case (init nt)
  then have "node_sys (wlan_node_table_init nt, {#}, {}) []"
    by (simp add: node_sys_def counted_def node_table_def heap_ok_def chained_def wlan_node_table_init_def owner_def bucket_def
        NODE_UNLOCK_def)
  then show ?case by blast
next
  case (step nt R U s')
  then show ?case using node_step_sys [OF step(3) refl] node_sysD by blast
qed

subsection \<open>Properties\<close>

text \<open>C6: In every reachable state, leaving aside whether the lock is taken, both link structures represent the same list of
  nodes; every reference handed out, to a node that has not been freed, points to a node of that list or to
  one that was taken out of it; the count of a listed node is one more than the references to it that are
  held, and the count of a node that was taken out is the number of references, which is not zero.\<close>

theorem node_table_counts_references:
  assumes "node_reach (nt, R, U)"
  shows "\<exists>xs. node_table (NODE_UNLOCK nt) xs \<and> set_mset R \<subseteq> set xs \<union> U \<and> set xs \<inter> U = {} \<and>
    (\<forall>a \<in> set xs. \<exists>b. nodes nt a = Some b \<and> ni_refcnt b = word_of_nat (Suc (count R a))) \<and>
    (\<forall>a \<in> U. \<exists>b. nodes nt a = Some b \<and> ni_refcnt b = word_of_nat (count R a) \<and> a \<in># R)"
proof -
  obtain xs where "node_table (NODE_UNLOCK nt) xs" "counted nt xs R U" using node_reach_sys [OF assms] by (auto simp: node_sys_def)
  then show ?thesis by (intro exI [of _ xs]) (auto simp: counted_def refcnt_def)
qed

text \<open>C7: No operation of the node table faults, loops or blocks in a reachable state whose lock is free: lookup, removal,
  ageing, iteration and the final clean-up; returning, reclaiming and updating a node somebody holds, unless
  a node that was taken out is reclaimed; setting up such a node again; setting up or freeing a new node; and the
  two searches by name when the names of the nodes can be read, the second only if every node has one.  The lock is
  not free after a failed buffer update.\<close>

theorem node_ops_never_fault:
  assumes "node_reach (nt, R, U)" and "\<not> nt_locked nt" and "length mac = IEEE80211_ADDR_LEN" and "obedient f"
  shows "wlan_find_node mac nt \<noteq> None \<and> wlan_node_remove mac nt \<noteq> None \<and>
    wlan_refresh_inactive_nodes now my nt \<noteq> None \<and> wlan_iterate_nodes f s nt \<noteq> None \<and>
    wlan_free_allnodes nt \<noteq> None \<and>
    (\<forall>a \<in># R. wlan_node_return a nt \<noteq> None \<and> (a \<notin> U \<longrightarrow> wlan_node_reclaim a nt \<noteq> None) \<and>
       wlan_node_buf_update now buf_ok a len nt \<noteq> None \<and> wlan_node_update_timestamp now a nt \<noteq> None) \<and>
    (\<forall>a \<in> U. wlan_setup_node now a mac nt \<noteq> None) \<and>
    (\<forall>ni_ok n a nt1. wlan_node_alloc ni_ok buf_ok n nt = (Some a, nt1) \<longrightarrow>
       wlan_setup_node now a mac nt1 \<noteq> None \<and> wlan_node_free a nt1 \<noteq> None) \<and>
    (\<forall>xs ssid. node_table nt xs \<and> ssids_readable ssid nt xs \<longrightarrow>
       wlan_find_Ssidnode ssid wpa2 matchSSID nt \<noteq> None \<and>
       ((\<forall>a \<in> set xs. ie_ssid (ni_cie (the (contents nt a))) \<noteq> None) \<longrightarrow>
          wlan_find_matching_Ssidnode ssid auth crypt nt \<noteq> None))"
proof -
  obtain xs where t: "node_table nt xs" "counted nt xs R U" using node_reach_sys [OF assms(1)] node_sysD [OF _ assms(2)] by blast
  have held: "wlan_node_return a nt \<noteq> None \<and> (a \<notin> U \<longrightarrow> wlan_node_reclaim a nt \<noteq> None) \<and>
       wlan_node_buf_update now buf_ok a len nt \<noteq> None \<and> wlan_node_update_timestamp now a nt \<noteq> None"
    if aR: "a \<in># R" for a
  proof -
    obtain b where b: "nodes nt a = Some b" using counted_node [OF t(2) aR] by blast
    then have c: "contents nt a = Some (data b)" by (simp add: contents_def)
    have "wlan_node_return a nt \<noteq> None"
    proof (cases "a \<in> set xs \<or> ni_refcnt b \<noteq> 1")
      case True
      then show ?thesis using return_ok [OF t(1) c] counted_ref(2) [OF t(2) _ c aR] by auto
    next
      case False
      then show ?thesis using return_last(1) [OF t(1) c] by simp
    qed
    moreover have "wlan_node_reclaim a nt \<noteq> None" if "a \<notin> U"
      using reclaim_ok(1) [OF t(1), of a] that aR t(2) by (auto simp: counted_def)
    moreover have "wlan_node_buf_update now buf_ok a len nt \<noteq> None"
      using buf_update_ok [OF t(1) b, of buf_ok len now] buf_update_failed [OF t(1) b, of len now]
      by (cases buf_ok; cases "len = 0") auto
    ultimately show ?thesis using b by (simp add: wlan_node_update_timestamp_def upd_node_def)
  qed
  have out: "wlan_setup_node now a mac nt \<noteq> None" if "a \<in> U" for a
  proof -
    have a: "a \<in># R" "a \<notin> set xs" using countedD(2,3) [OF t(2)] that by blast+
    obtain b where "nodes nt a = Some b" using counted_node [OF t(2) a(1)] by blast
    from setup_ok [OF t(1) this a(2) assms(3), of now] show ?thesis by auto
  qed
  have new: "wlan_setup_node now a mac nt1 \<noteq> None \<and> wlan_node_free a nt1 \<noteq> None"
    if "wlan_node_alloc ni_ok buf_ok n nt = (Some a, nt1)" for ni_ok n a nt1
  proof -
    have a: "a = next_node nt" "nt1 = allocated n nt" using that by (simp_all add: alloc_eq split: if_splits)
    then have n: "nodes nt1 a = Some (fresh_bss (if n = 0 then None else Some (next_buf nt)))" by (simp add: allocated_def)
    have t1: "node_table nt1 xs" "a \<notin> set xs" using node_table_allocated [OF t(1)] a by simp_all
    then show ?thesis
      using setup_ok [OF t1(1) n t1(2) assms(3), of now] free_ok(1) [OF node_tableD(2) [OF t1(1)], of a] n by auto
  qed
  have search: "wlan_find_Ssidnode ssid wpa2 matchSSID nt \<noteq> None \<and>
       ((\<forall>a \<in> set ys. ie_ssid (ni_cie (the (contents nt a))) \<noteq> None) \<longrightarrow> wlan_find_matching_Ssidnode ssid auth crypt nt \<noteq> None)"
    if "node_table nt ys" "ssids_readable ssid nt ys" for ys ssid
    using find_Ssidnode_ok [OF that refl] find_matching_ok [OF that] by simp
  show ?thesis
    using find_node_ok [OF t(1) assms(3) refl] remove_ok(1) [OF t(1) assms(3) refl] refresh_ok [OF t(1), of now my]
      iterate_all [OF t assms(4), of s] free_allnodes_ok [OF t(1)] held out new search by (intro conjI) auto
qed

text \<open>C8: The hash table is an index of the list.  Looking an address up in its bucket finds the node that
  was added last among the listed nodes with that address, which is what a search of the whole list
  backwards finds; if no two listed nodes share an address it is the node the linear search of
  \<open>wlan_node_remove\<close> takes out.\<close>

theorem node_lookup_is_list_search:
  assumes "node_table nt xs" and "length mac = IEEE80211_ADDR_LEN"
  shows "\<exists>nt'. wlan_find_node mac nt = Some (find (\<lambda>a. mac_of nt a = mac) (rev xs), nt') \<and> node_table nt' xs \<and>
    (distinct (map (mac_of nt) xs) \<longrightarrow>
       map_option fst (wlan_node_remove mac nt) = map_option fst (wlan_find_node mac nt))"
proof -
  have "find P (rev ys) = find P ys" if "distinct (map m ys)" "P = (\<lambda>a. m a = mac)" for P and m :: "nat \<Rightarrow> bytes" and ys
    using that
  proof (induction ys)
    case (Cons y ys)
    have "find P (zs @ us) = (if find P zs = None then find P us else find P zs)" for zs us
      by (induction zs) auto
    moreover have "find P (rev ys) = None" if "m y = mac"
      using Cons.prems that by (auto simp: find_None_iff image_iff)
    ultimately show ?case using Cons by auto
  qed simp
  then show ?thesis
    using find_node_ok [OF assms refl] remove_ok(1) [OF assms refl] node_table_ref [OF assms(1)] by auto
qed

text \<open>C9: The operations refine those of a list.  Setting a new node up appends it, with its address, one
  reference and a fresh time stamp; reclaiming a node that nobody else holds removes it and frees it and
  nothing else; freeing everything, when nobody holds a node, leaves the empty table.\<close>

theorem node_table_refines_list:
  assumes "node_table nt xs" and "length mac = IEEE80211_ADDR_LEN" and "a \<notin> set xs" and "contents nt a = Some c"
    and "x \<in> set xs"
  shows "(\<exists>nt'. wlan_setup_node now a mac nt = Some nt' \<and> node_table nt' (xs @ [a]) \<and>
      contents nt' = (contents nt)(a \<mapsto> c\<lparr>ni_macaddr := mac, ni_refcnt := 1, ni_tstamp := now, ni_actcnt := 4\<rparr>)) \<and>
    (ni_refcnt (the (contents nt x)) = 1 \<longrightarrow>
      (\<exists>nt'. wlan_node_reclaim x nt = Some nt' \<and> node_table nt' (remove1 x xs) \<and> contents nt' = (contents nt)(x := None))) \<and>
    ((\<forall>y \<in> set xs. ni_refcnt (the (contents nt y)) = 1) \<longrightarrow>
      (\<exists>nt'. wlan_free_allnodes nt = Some nt' \<and> node_table nt' [] \<and>
        contents nt' = (\<lambda>y. if y \<in> set xs then None else contents nt y)))"
proof -
  obtain b where b: "nodes nt a = Some b" "c = data b" using assms(4) by (auto simp: contents_Some)
  show ?thesis
    using setup_ok [OF assms(1) b(1) assms(3,2), of now] reclaim_ok [OF assms(1,5)] free_allnodes_ok [OF assms(1)]
      b(2) assms(2) by (auto simp: contents_reclaimed set_up_def)
qed

text \<open>The comment above \<open>wlan_node_reclaim\<close> has a node that somebody still holds only taken out of the table, and freed with
  the last reference.  The code frees it whatever the count.\<close>

lemma node_reclaim_ignores_count:
  assumes "node_table nt xs" "a \<in> set xs" "b = with_ref (Some a) nt"
  shows "\<exists>nt'. wlan_node_reclaim a b = Some nt' \<and> nodes nt' a = None \<and> wlan_node_return a nt' = None"
proof -
  have b: "node_table b xs" unfolding assms(3) by (rule node_table_ref [OF assms(1)])
  note r = reclaim_ok [OF b assms(2)]
  have n: "nodes (reclaimed a b) a = None" by (simp add: contents_reclaimed flip: contents_None)
  then show ?thesis using r node_table_lock [OF r(2)] by (simp add: wlan_node_return_def wlan_node_dec_free_def deref_def)
qed

text \<open>Ageing drops exactly the expired nodes, those other than the current BSS whose time stamp is
  older than the age limit (in arithmetic modulo 2 to the 32) or whose inactivity count runs out; the
  order of the others stays, and all but the current BSS count down.\<close>

theorem node_refresh_drops_expired:
  assumes "node_table nt xs" and "gone = (\<lambda>a. expired now (nt_nodeAge nt) my (the (contents nt a)))"
  shows "\<exists>nt'. wlan_refresh_inactive_nodes now my nt = Some nt' \<and> node_table nt' (filter (\<lambda>a. \<not> gone a) xs) \<and>
    (\<forall>a \<in> set xs. contents nt' a = (if gone a then None
       else if mac_of nt a = my then contents nt a
       else map_option (\<lambda>b. b\<lparr>ni_actcnt := ni_actcnt b - 1\<rparr>) (contents nt a))) \<and>
    (\<forall>a. a \<notin> set xs \<longrightarrow> contents nt' a = contents nt a)"
proof -
  obtain nt' where r: "wlan_refresh_inactive_nodes now my nt = Some nt'"
    "node_table nt' (filter (\<lambda>a. \<not> gone a) xs)"
    "contents nt' = (\<lambda>a. if a \<in> set xs then aged now (nt_nodeAge nt) my (the (contents nt a)) else contents nt a)"
    using refresh_ok [OF assms(1), of now my] assms(2) by auto
  have "contents nt' a = (if gone a then None else if mac_of nt a = my then contents nt a
       else map_option (\<lambda>b. b\<lparr>ni_actcnt := ni_actcnt b - 1\<rparr>) (contents nt a))" if a: "a \<in> set xs" for a
  proof -
    obtain b where "contents nt a = Some (data b)" "ni_macaddr b = mac_of nt a" by (rule node_table_node [OF assms(1) a])
    then show ?thesis using r(3) a assms(2) by (simp add: aged_def)
  qed
  then show ?thesis using r by auto
qed

text \<open>An iteration shows the callback every node once, in the order of arrival, and counts it as held
  meanwhile; the list stays and no reference is lost.  A node is skipped only if it carries the
  number of this iteration already.\<close>

theorem node_iterate_visits_each_once:
  assumes "node_table nt xs" and "\<forall>a \<in> set xs. ni_refcnt (the (contents nt a)) \<noteq> 0"
    and "\<forall>a \<in> set xs. ni_scangen (the (contents nt a)) \<noteq> nt_scangen nt + 1"
    and "f = (\<lambda>s b. (s @ [ni_macaddr b], b))"
  shows "\<exists>nt'. wlan_iterate_nodes f [] nt = Some (map (mac_of nt) xs, nt') \<and> node_table nt' xs \<and>
    (\<forall>a. map_option ni_refcnt (contents nt' a) = map_option ni_refcnt (contents nt a))"
proof -
  let ?gen = "nt_scangen nt + 1"
  have ob: "obedient f" by (simp add: obedient_def assms(4) keeps_structure_def)
  have walk: "fst (visit_all f ?gen ys s h) = s @ map (\<lambda>a. ni_macaddr (the (h a))) ys"
    if "distinct ys" "\<forall>a \<in> set ys. ni_scangen (the (h a)) \<noteq> ?gen" for ys s h
    using that
  proof (induction ys arbitrary: s h)
    case (Cons y ys)
    obtain b where v: "visited f ?gen s (the (h y)) = (s @ [ni_macaddr (the (h y))], b)"
      using Cons.prems by (simp add: visited_def assms(4))
    have "fst (visit_all f ?gen ys (s @ [ni_macaddr (the (h y))]) (h(y \<mapsto> b))) =
        (s @ [ni_macaddr (the (h y))]) @ map (\<lambda>a. ni_macaddr (the ((h(y \<mapsto> b)) a))) ys"
      by (rule Cons.IH) (use Cons.prems in auto)
    moreover have "map (\<lambda>a. ni_macaddr (the ((h(y \<mapsto> b)) a))) ys = map (\<lambda>a. ni_macaddr (the (h a))) ys"
      using Cons.prems by (intro map_cong) auto
    ultimately show ?case using v by simp
  qed simp
  have cn: "ni_scangen (the (nodes nt a)) = ni_scangen (the (contents nt a))"
    "ni_macaddr (the (nodes nt a)) = mac_of nt a" if "a \<in> set xs" for a
    using listed_node [OF assms(1) that] by (auto simp: contents_def mac_of_def)
  obtain s1 h where v: "visit_all f ?gen xs [] (nodes nt) = (s1, h)" by fastforce
  have "s1 = map (mac_of nt) xs"
    using walk [OF node_tableD(4) [OF assms(1)], of "nodes nt" "[]"] v assms(3) cn by auto
  then show ?thesis using iterate_ok [OF assms(1) ob assms(2) v refl] by blast
qed

text \<open>Freeing ignores the reference count.  A node that was found, and is thus held, is freed all the
  same when it has expired at the next ageing; whoever holds it then returns a freed node, which
  faults, as does every other use of it.\<close>

theorem node_refresh_frees_held_node:
  assumes "node_table nt xs" and "length mac = IEEE80211_ADDR_LEN" and "wlan_find_node mac nt = Some (Some a, nt1)"
    and "expired now (nt_nodeAge nt) my (the (contents nt a))"
  shows "\<exists>nt2. wlan_refresh_inactive_nodes now my nt1 = Some nt2 \<and> nodes nt2 a = None \<and>
    wlan_node_return a nt2 = None \<and> wlan_node_buf_update now buf_ok a len nt2 = None \<and>
    wlan_node_update_timestamp now a nt2 = None"
proof -
  have f: "Some a = find (\<lambda>a. mac_of nt a = mac) (rev xs)" "nt1 = with_ref (Some a) nt"
    using find_node_ok [OF assms(1,2) refl] assms(3) by simp_all
  have a: "a \<in> set xs" using f(1) [symmetric] by (auto simp: find_Some_iff dest: nth_mem [of _ "rev xs", simplified])
  have t1: "node_table nt1 xs" unfolding f(2) by (rule node_table_ref [OF assms(1)])
  obtain nt2 where r: "wlan_refresh_inactive_nodes now my nt1 = Some nt2"
    "contents nt2 = (\<lambda>a. if a \<in> set xs then aged now (nt_nodeAge nt1) my (the (contents nt1 a)) else contents nt1 a)"
    "node_table nt2 (filter (\<lambda>a. \<not> expired now (nt_nodeAge nt1) my (the (contents nt1 a))) xs)"
    using refresh_ok [OF t1, of now my] by auto
  obtain b where b: "nodes nt a = Some b" by (rule node_table_node [OF assms(1) a])
  then have "contents nt1 a = Some ((data b)\<lparr>ni_refcnt := ni_refcnt b + 1\<rparr>)" by (simp add: contents_def f(2) with_ref_def)
  then have "expired now (nt_nodeAge nt1) my (the (contents nt1 a))"
    using assms(4) b by (simp add: expired_def contents_def f(2) with_ref_def)
  then have "contents nt2 a = None" using r(2) a by (simp add: aged_def)
  then have n: "nodes nt2 a = None" by simp
  then show ?thesis using r(1) node_table_lock [OF r(3)]
    by (simp add: wlan_node_return_def wlan_node_dec_free_def wlan_node_buf_update_def deref_def
        wlan_node_update_timestamp_def upd_node_def)
qed

text \<open>A failed allocation of a frame buffer leaves the table locked.  \<open>wlan_node_buf_update\<close> returns the
  error without giving the lock back, with the node's old buffer freed: every later lookup, removal,
  return of a node, buffer update or search then waits for ever.\<close>

theorem node_buf_update_failure_blocks:
  assumes "node_table nt xs" and "a \<in> set xs" and "len \<noteq> 0"
  shows "\<exists>nt'. wlan_node_buf_update now False a len nt = Some (A_ERROR, nt') \<and>
    map_option ni_buf (contents nt' a) = Some None \<and>
    wlan_find_node mac nt' = None \<and> wlan_node_remove mac nt' = None \<and> wlan_node_return a nt' = None \<and>
    wlan_node_reclaim a nt' = None \<and> wlan_node_buf_update now buf_ok a len nt' = None \<and>
    wlan_iterate_nodes f s nt' = None \<and> wlan_find_Ssidnode ssid wpa2 match nt' = None"
proof -
  obtain b where "nodes nt a = Some b" by (rule node_table_node [OF assms(1,2)])
  from buf_update_failed [OF assms(1) this assms(3), of now] obtain nt' b' where f:
    "wlan_node_buf_update now False a len nt = Some (A_ERROR, nt')" "nt_locked nt'" "nodes nt' a = Some b'" "ni_buf b' = None"
    by auto
  have lock: "NODE_LOCK nt' = None" "NODE_LOCK (nt'\<lparr>nt_scangen := g\<rparr>) = None" for g using f(2) by (simp_all add: NODE_LOCK_def)
  have "wlan_node_buf_update now buf_ok a len nt' = None" by (simp add: wlan_node_buf_update_def lock)
  then show ?thesis using f
    by (simp add: lock wlan_find_node_def wlan_node_remove_def wlan_node_return_def wlan_node_reclaim_def
        wlan_iterate_nodes_def wlan_find_Ssidnode_def contents_def)
qed

text \<open>The choice of an access point by name.  When the name of every listed node can be read the
  result is a suitable node of the greatest signal strength, or none if no node is suitable; a listed
  node without a name makes the search follow a null pointer.\<close>

theorem node_best_match:
  assumes "node_table nt xs"
  shows "(ssids_readable ssid nt xs \<and> (\<forall>a \<in> set xs. ie_ssid (ni_cie (the (contents nt a))) \<noteq> None) \<longrightarrow>
      (\<exists>p. wlan_find_matching_Ssidnode ssid auth crypt nt = Some (p, nt) \<and>
        (p = None \<longleftrightarrow> (\<forall>a \<in> set xs. \<not> suits ssid auth crypt nt a)) \<and>
        (\<forall>a. p = Some a \<longrightarrow> a \<in> set xs \<and> suits ssid auth crypt nt a \<and>
           (\<forall>x \<in> set xs. suits ssid auth crypt nt x \<longrightarrow> rssi_of nt x \<le> rssi_of nt a)))) \<and>
    (\<forall>a. nt_node_first nt = Some a \<and> ie_ssid (ni_cie (the (contents nt a))) = None \<longrightarrow>
      wlan_find_matching_Ssidnode ssid auth crypt nt = None)"
proof (intro conjI impI allI)
  assume r: "ssids_readable ssid nt xs \<and> (\<forall>a \<in> set xs. ie_ssid (ni_cie (the (contents nt a))) \<noteq> None)"
  define p where "p = strongest (suits ssid auth crypt nt) (rssi_of nt) None xs"
  have e: "wlan_find_matching_Ssidnode ssid auth crypt nt = Some (p, nt)"
    using find_matching_ok [OF assms, of ssid auth crypt] r unfolding p_def by blast
  from strongest_spec [OF p_def [symmetric]] have "(p = None \<longleftrightarrow> (\<forall>a \<in> set xs. \<not> suits ssid auth crypt nt a)) \<and>
        (\<forall>a. p = Some a \<longrightarrow> a \<in> set xs \<and> suits ssid auth crypt nt a \<and>
           (\<forall>x \<in> set xs. suits ssid auth crypt nt x \<longrightarrow> rssi_of nt x \<le> rssi_of nt a))"
    by auto
  then show "\<exists>p. wlan_find_matching_Ssidnode ssid auth crypt nt = Some (p, nt) \<and>
        (p = None \<longleftrightarrow> (\<forall>a \<in> set xs. \<not> suits ssid auth crypt nt a)) \<and>
        (\<forall>a. p = Some a \<longrightarrow> a \<in> set xs \<and> suits ssid auth crypt nt a \<and>
           (\<forall>x \<in> set xs. suits ssid auth crypt nt x \<longrightarrow> rssi_of nt x \<le> rssi_of nt a))"
    by (intro exI [of _ p] conjI [OF e])
next
  fix a assume a: "nt_node_first nt = Some a \<and> ie_ssid (ni_cie (the (contents nt a))) = None"
  then have "a \<in> set xs" using table_first [OF assms] by (auto dest: head_in)
  then obtain b where "nodes nt a = Some b" "contents nt a = Some (data b)" by (rule node_table_node [OF assms])
  then show "wlan_find_matching_Ssidnode ssid auth crypt nt = None"
    using a node_table_lock [OF assms]
    by (simp add: wlan_find_matching_Ssidnode_def matching_walk.simps [of _ _ _ _ "Some a"] deref_def)
qed

end
