(* ===== verification/NodeWitness.thy ===== *)
theory NodeWitness
  imports NodeProps
begin

text \<open>Concrete node tables on which the properties apply.\<close>

definition demo_empty_table :: ieee80211_node_table where
  "demo_empty_table = wlan_node_table_init \<lparr>nt_locked = True, nt_node_first = Some 7, nt_node_last = None,
     nt_hash = (\<lambda>_. None), nt_scangen = 9, nt_nodeAge = 0, nodes = Map.empty, bufs = Map.empty, next_node = 0,
     next_buf = 0\<rparr>"

definition demo_mac :: "byte \<Rightarrow> bytes" where
  "demo_mac b = [2, 0, 0, 0, 0, b]"

lemma length_demo_mac [simp]: "length (demo_mac b) = IEEE80211_ADDR_LEN" "demo_mac b = demo_mac c \<longleftrightarrow> b = c"
  by (simp_all add: demo_mac_def)

lemma demo_add:
  fixes n :: nat
  assumes "node_reach (nt, R, U)" "node_table nt xs"
  obtains nt' where "node_reach (nt', R, U)" "node_table nt' (xs @ [next_node nt])"
    "contents nt' = (contents nt)(next_node nt \<mapsto> set_up now (demo_mac b) (fresh_bss (if n = 0 then None else Some (next_buf nt))))"
    "next_node nt' = Suc (next_node nt)" "nt_nodeAge nt' = nt_nodeAge nt" "nt_scangen nt' = nt_scangen nt"
proof -
  let ?a = "next_node nt" and ?b = "fresh_bss (if n = 0 then None else Some (next_buf nt))"
  have al: "wlan_node_alloc True True n nt = (Some ?a, allocated n nt)" by (simp add: alloc_eq)
  note t1 = node_table_allocated(1) [OF assms(2), of n] node_table_allocated(2) [OF assms(2)]
  have n: "nodes (allocated n nt) ?a = Some ?b" by (simp add: allocated_def)
  obtain nt' where s: "wlan_setup_node now ?a (demo_mac b) (allocated n nt) = Some nt'" "node_table nt' (xs @ [?a])"
    "contents nt' = (contents (allocated n nt))(?a \<mapsto> set_up now (demo_mac b) (data ?b))" "rest nt' = rest (allocated n nt)"
    using setup_ok [OF t1(1) n t1(2) length_demo_mac(1), of now b] by blast
  have "upd_node ?a (\<lambda>b. b) (allocated n nt) = Some (allocated n nt)"
    using n by (simp add: upd_node_def fun_upd_idem)
  moreover have "keeps_structure (\<lambda>b. b)" by (simp add: keeps_structure_def)
  ultimately have "node_reach (nt', R, U)"
    by (intro node_reach.step [OF assms(1) node_tableD(1) [OF assms(2)] node_step.add [OF al _ _ length_demo_mac(1) s(1)]])
  moreover have "contents (allocated n nt) = (contents nt)(?a \<mapsto> data ?b)"
    by (simp add: contents_def allocated_def fun_eq_iff)
  moreover have "data ?b = ?b" by (simp add: data_def fresh_bss_def)
  ultimately show thesis using that [of nt'] s by (simp add: rest_def allocated_def)
qed

text \<open>Two nodes, the second in the bucket of the first, with time stamps 0 and 5.\<close>

lemma demo_table:
  obtains nt where "node_reach (nt, {#}, {})" "node_table nt [0, 1]" "nt_nodeAge nt = 120000" "nt_scangen nt = 0"
    "contents nt 0 = Some (set_up 0 (demo_mac 1) (fresh_bss (Some 0)))"
    "contents nt 1 = Some (set_up 5 (demo_mac 33) (fresh_bss None))" "contents nt 2 = None" "next_node nt = 2"
    "mac_of nt 0 = demo_mac 1" "mac_of nt 1 = demo_mac 33"
proof -
  have r: "node_reach (demo_empty_table, {#}, {})" unfolding demo_empty_table_def by (rule node_reach.init) simp_all
  have e: "node_table demo_empty_table []"
    by (simp add: demo_empty_table_def node_table_def heap_ok_def chained_def wlan_node_table_init_def owner_def bucket_def)
  have f: "next_node demo_empty_table = 0" "nt_nodeAge demo_empty_table = 120000" "nt_scangen demo_empty_table = 0"
    "contents demo_empty_table = (\<lambda>_. None)" "next_buf demo_empty_table = 0"
    by (simp_all add: demo_empty_table_def wlan_node_table_init_def contents_def fun_eq_iff)
  obtain nt1 where n1: "node_reach (nt1, {#}, {})" "node_table nt1 ([] @ [next_node demo_empty_table])"
    "contents nt1 = (contents demo_empty_table)(next_node demo_empty_table \<mapsto> set_up 0 (demo_mac 1)
       (fresh_bss (if (20::nat) = 0 then None else Some (next_buf demo_empty_table))))"
    "next_node nt1 = Suc (next_node demo_empty_table)" "nt_nodeAge nt1 = nt_nodeAge demo_empty_table"
    "nt_scangen nt1 = nt_scangen demo_empty_table"
    by (rule demo_add [OF r e])
  obtain nt2 where n2: "node_reach (nt2, {#}, {})" "node_table nt2 (([] @ [next_node demo_empty_table]) @ [next_node nt1])"
    "contents nt2 = (contents nt1)(next_node nt1 \<mapsto> set_up 5 (demo_mac 33)
       (fresh_bss (if (0::nat) = 0 then None else Some (next_buf nt1))))"
    "next_node nt2 = Suc (next_node nt1)" "nt_nodeAge nt2 = nt_nodeAge nt1" "nt_scangen nt2 = nt_scangen nt1"
    by (rule demo_add [OF n1(1,2)])
  have c: "contents nt2 0 = Some (set_up 0 (demo_mac 1) (fresh_bss (Some 0)))"
    "contents nt2 1 = Some (set_up 5 (demo_mac 33) (fresh_bss None))" "contents nt2 2 = None"
    using n1 n2 f by simp_all
  moreover have "mac_of nt2 0 = demo_mac 1" "mac_of nt2 1 = demo_mac 33"
    using c by (simp_all add: mac_of_def set_up_def)
  ultimately show thesis using that [of nt2] n1 n2 f by simp
qed

lemma demo_obedient: "obedient (\<lambda>s b. (s @ [ni_macaddr b], b))"
  by (simp add: obedient_def keeps_structure_def)

subsection \<open>The properties at these inputs\<close>

text \<open>The second node is found, and then taken out of the table by its address.\<close>

lemma demo_held_out:
  obtains nt where "node_reach (nt, {#1, 1#}, {1})" "node_table nt [0]"
proof -
  obtain nt where nt: "node_reach (nt, {#}, {})" "node_table nt [0, 1]" "mac_of nt 0 = demo_mac 1" "mac_of nt 1 = demo_mac 33"
    by (rule demo_table) (rule that)
  let ?nt1 = "with_ref (Some 1) nt"
  have f: "wlan_find_node (demo_mac 33) nt = Some (Some 1, ?nt1)"
    using find_node_ok [OF nt(2) length_demo_mac(1) refl, of 33] nt(3,4) by simp
  have t1: "node_table ?nt1 [0, 1]" by (rule node_table_ref [OF nt(2)])
  have "node_reach (?nt1, {#} + ptr_mset (Some 1), {})"
    by (rule node_reach.step [OF nt(1) node_tableD(1) [OF nt(2)] node_step.find [OF length_demo_mac(1) _ f]]) simp
  then have r1: "node_reach (?nt1, {#1#}, {})" by (simp add: ptr_mset_def)
  have m: "mac_of ?nt1 0 = demo_mac 1" "mac_of ?nt1 1 = demo_mac 33"
  proof -
    have "nodes nt 0 \<noteq> None" "nodes nt 1 \<noteq> None" using listed_node [OF nt(2)] by simp_all
    then show "mac_of ?nt1 0 = demo_mac 1" "mac_of ?nt1 1 = demo_mac 33"
      using nt(3,4) by (auto simp: mac_of_def contents_def with_ref_def upd_at_def)
  qed
  let ?nt2 = "taken_out (Some 1) ?nt1"
  have p: "Some 1 = find (\<lambda>a. mac_of ?nt1 a = demo_mac 33) [0, 1]" using m by simp
  note o = remove_ok [OF t1 length_demo_mac(1) p]
  have "node_reach (?nt2, {#1#} + ptr_mset (Some 1), {} \<union> set_option (Some 1))"
    by (rule node_reach.step [OF r1 node_tableD(1) [OF t1] node_step.remove [OF length_demo_mac(1) _ o(1)]]) simp
  then show thesis using that [of ?nt2] o(2) by (simp add: ptr_mset_def)
qed

lemma node_table_counts_references_witness:
  "\<exists>nt b. node_table (NODE_UNLOCK nt) [0] \<and> nodes nt 1 = Some b \<and> ni_refcnt b = 2"
proof -
  obtain nt where nt: "node_reach (nt, {#1, 1#}, {1})" "node_table nt [0]" by (rule demo_held_out)
  have "NODE_UNLOCK nt = nt" using node_tableD(1) [OF nt(2)] by (simp add: NODE_UNLOCK_def unlock_unchanged)
  with node_table_counts_references [OF nt(1)] nt(2) show ?thesis by (intro exI [of _ nt]) auto
qed

lemma node_ops_never_fault_witness:
  "\<exists>nt. node_table nt [0] \<and> wlan_find_node (demo_mac 1) nt \<noteq> None \<and> wlan_free_allnodes nt \<noteq> None \<and>
     wlan_node_return 1 nt \<noteq> None \<and> wlan_setup_node 7 1 (demo_mac 1) nt \<noteq> None"
proof -
  obtain nt where nt: "node_reach (nt, {#1, 1#}, {1})" "node_table nt [0]" by (rule demo_held_out)
  show ?thesis
    using node_ops_never_fault [OF nt(1) node_tableD(1) [OF nt(2)] length_demo_mac(1) demo_obedient, of 1 7] nt(2) by auto
qed

lemma node_lookup_is_list_search_witness:
  "\<exists>nt nt'. node_table nt [0, 1] \<and> wlan_find_node (demo_mac 33) nt = Some (Some 1, nt') \<and>
     map_option fst (wlan_node_remove (demo_mac 33) nt) = Some (Some 1)"
proof -
  obtain nt where nt: "node_table nt [0, 1]" "mac_of nt 0 = demo_mac 1" "mac_of nt 1 = demo_mac 33"
    by (rule demo_table) (rule that)
  from node_lookup_is_list_search [OF nt(1) length_demo_mac(1), of 33] nt show ?thesis by auto
qed

lemma node_table_refines_list_witness:
  "\<exists>nt nt1 nt2 nt3. node_table nt [0, 1] \<and> wlan_setup_node 9 2 (demo_mac 5) nt = Some nt1 \<and> node_table nt1 [0, 1, 2] \<and>
     wlan_node_reclaim 0 nt = Some nt2 \<and> node_table nt2 [1] \<and> wlan_free_allnodes nt = Some nt3 \<and> node_table nt3 []"
proof -
  obtain nt where nt: "node_table nt [0, 1]" "contents nt 0 = Some (set_up 0 (demo_mac 1) (fresh_bss (Some 0)))"
    "contents nt 1 = Some (set_up 5 (demo_mac 33) (fresh_bss None))" "next_node nt = 2"
    by (rule demo_table) (rule that)
  let ?nt = "allocated 0 nt"
  have n: "node_table ?nt [0, 1]" using node_table_allocated(1) [OF nt(1)] .
  have c: "contents ?nt 2 = Some (data (fresh_bss None))" using nt(4) by (simp add: contents_def allocated_def)
  have "contents ?nt x = contents nt x" if "x \<noteq> 2" for x using that nt(4) by (simp add: contents_def allocated_def)
  then have r: "ni_refcnt (the (contents ?nt 0)) = 1" "ni_refcnt (the (contents ?nt 1)) = 1"
    using nt(2,3) by (simp_all add: set_up_def)
  have "2 \<notin> set [0, 1 :: nat]" "0 \<in> set [0, 1 :: nat]" by simp_all
  note e = node_table_refines_list [OF n length_demo_mac(1) this(1) c this(2), of 9 5]
  have "\<forall>y \<in> set [0, 1]. ni_refcnt (the (contents ?nt y)) = 1" using r by simp
  with e r obtain nt1 nt2 nt3 where "wlan_setup_node 9 2 (demo_mac 5) ?nt = Some nt1" "node_table nt1 ([0, 1] @ [2])"
      "wlan_node_reclaim 0 ?nt = Some nt2" "node_table nt2 (remove1 0 [0, 1])" "wlan_free_allnodes ?nt = Some nt3" "node_table nt3 []"
    by blast
  then show ?thesis using n by (intro exI [of _ ?nt] exI [of _ nt1] exI [of _ nt2] exI [of _ nt3]) simp
qed

lemma node_refresh_drops_expired_witness:
  "\<exists>nt nt'. node_table nt [0, 1] \<and> wlan_refresh_inactive_nodes 120003 (demo_mac 9) nt = Some nt' \<and> node_table nt' [1]"
proof -
  obtain nt where nt: "node_table nt [0, 1]" "nt_nodeAge nt = 120000"
    "contents nt 0 = Some (set_up 0 (demo_mac 1) (fresh_bss (Some 0)))"
    "contents nt 1 = Some (set_up 5 (demo_mac 33) (fresh_bss None))" by (rule demo_table) (rule that)
  from node_refresh_drops_expired [OF nt(1) refl, of 120003 "demo_mac 9"] nt show ?thesis
    by (auto simp: expired_def set_up_def)
qed

lemma node_iterate_visits_each_once_witness:
  "\<exists>nt nt'. node_table nt [0, 1] \<and>
     wlan_iterate_nodes (\<lambda>s b. (s @ [ni_macaddr b], b)) [] nt = Some ([demo_mac 1, demo_mac 33], nt')"
proof -
  obtain nt where nt: "node_table nt [0, 1]" "nt_scangen nt = 0"
    "contents nt 0 = Some (set_up 0 (demo_mac 1) (fresh_bss (Some 0)))"
    "contents nt 1 = Some (set_up 5 (demo_mac 33) (fresh_bss None))" "mac_of nt 0 = demo_mac 1" "mac_of nt 1 = demo_mac 33"
    by (rule demo_table) (rule that)
  have "\<forall>a \<in> set [0, 1]. ni_refcnt (the (contents nt a)) \<noteq> 0" "\<forall>a \<in> set [0, 1]. ni_scangen (the (contents nt a)) \<noteq> nt_scangen nt + 1"
    using nt(2-4) by (simp_all add: set_up_def fresh_bss_def)
  from node_iterate_visits_each_once [OF nt(1) this refl] nt show ?thesis by auto
qed

lemma node_refresh_frees_held_node_witness:
  "\<exists>nt nt1 nt2. wlan_find_node (demo_mac 1) nt = Some (Some 0, nt1) \<and>
     wlan_refresh_inactive_nodes 120003 (demo_mac 9) nt1 = Some nt2 \<and> wlan_node_return 0 nt2 = None"
proof -
  obtain nt where nt: "node_table nt [0, 1]" "nt_nodeAge nt = 120000"
    "contents nt 0 = Some (set_up 0 (demo_mac 1) (fresh_bss (Some 0)))" "mac_of nt 0 = demo_mac 1" "mac_of nt 1 = demo_mac 33"
    by (rule demo_table) (rule that)
  have "wlan_find_node (demo_mac 1) nt = Some (Some 0, with_ref (Some 0) nt)"
    using find_node_ok [OF nt(1) length_demo_mac(1) refl, of 1] nt(4,5) by simp
  from node_refresh_frees_held_node [OF nt(1) length_demo_mac(1) this, of 120003 "demo_mac 9" True 0] this nt(2,3) show ?thesis
    by (auto simp: expired_def set_up_def)
qed

lemma node_buf_update_failure_blocks_witness:
  "\<exists>nt nt'. node_table nt [0, 1] \<and> wlan_node_buf_update 3 False 0 64 nt = Some (A_ERROR, nt') \<and>
     wlan_find_node (demo_mac 1) nt' = None"
proof -
  obtain nt where nt: "node_table nt [0, 1]" by (rule demo_table) (rule that)
  from node_buf_update_failure_blocks [OF nt, of 0 64 3 "demo_mac 1" True] nt show ?thesis by fastforce
qed

lemma node_best_match_witness:
  "\<exists>nt. node_table nt [0, 1] \<and> wlan_find_matching_Ssidnode [1] 1 1 nt = None"
proof -
  obtain nt where nt: "node_table nt [0, 1]" "contents nt 0 = Some (set_up 0 (demo_mac 1) (fresh_bss (Some 0)))"
    by (rule demo_table) (rule that)
  then have "nt_node_first nt = Some 0 \<and> ie_ssid (ni_cie (the (contents nt 0))) = None"
    using table_first [OF nt(1)] by (simp add: set_up_def fresh_bss_def zero_cie_def)
  with node_best_match [OF nt(1), of "[1]" 1 1] nt(1) show ?thesis by blast
qed

end
