(* ===== verification/BeaconWitness.thy ===== *)
theory BeaconWitness
  imports BeaconProps
begin

text \<open>The properties of the beacon parser on small frames.\<close>

definition demo_fixed :: bytes where
  "demo_fixed = replicate 8 0 @ [100, 0, 0x11, 0]"

definition demo_elements :: "element list" where
  "demo_elements = [(0, [97, 98]), (1, [2, 4, 11]), (3, [6]), (0, [99]), (221, [0x00, 0x50, 0xf2, 0x01, 1, 0]), (1, [12])]"

lemma length_demo_fixed: "length demo_fixed = 12"
  by (simp add: demo_fixed_def)

lemma proper_demo: "\<forall>x \<in> set demo_elements. proper x"
  by (simp add: demo_elements_def proper_def)

lemma good_demo: "good_frame demo_fixed demo_elements"
  using proper_demo by (simp add: good_frame_def length_demo_fixed demo_elements_def)

lemma beacon_elements_found_witness:
  "\<exists>c. wlan_parse_beacon 7 (demo_fixed @ encode demo_elements) (length (demo_fixed @ encode demo_elements)) zero_cie = Some (A_OK, c) \<and>
     ie_ssid c = Some (7, 12) \<and> ie_rates c = Some (7, 35) \<and> ie_wpa c = Some (7, 27) \<and> ie_rsn c = None"
proof -
  from beacon_elements_found [OF good_demo refl, of 7 zero_cie] show ?thesis
    by (elim ex_forward)
      (simp add: first_ie_def last_ie_def vendor_def oui_def le32_def demo_elements_def length_demo_fixed cong: conj_cong)
qed

lemma beacon_pointers_in_frame_witness:
  "\<exists>st c. wlan_parse_beacon 7 (demo_fixed @ replicate 12 1) 15 zero_cie = Some (st, c) \<and> inside 7 15 c"
  using beacon_pointers_in_frame [of 15 "demo_fixed @ replicate 12 1" 7 zero_cie] by (auto simp: length_demo_fixed)

lemma beacon_truncated_witness:
  "wlan_parse_beacon 0 (demo_fixed @ encode [(1, [2])] @ [5]) 16 zero_cie = None \<and>
   (\<exists>nt c. wlan_parse_beacon 0 (demo_fixed @ encode [(1, [2])] @ [0, 4]) 17 zero_cie = Some (A_OK, c) \<and> ie_ssid c = Some (0, 15) \<and>
     ssid_match [97] (0, 15) nt = None)"
proof -
  define m where "m = demo_fixed @ encode [(1, [2])] @ [0, word_of_nat 4]"
  define nt where "nt = \<lparr>nt_locked = False, nt_node_first = None, nt_node_last = None, nt_hash = (\<lambda>_. None), nt_scangen = 0,
    nt_nodeAge = 0, nodes = Map.empty, bufs = [0 \<mapsto> m], next_node = 0, next_buf = 1\<rparr>"
  have "bufs nt 0 = Some m" by (simp add: nt_def)
  from beacon_truncated [OF length_demo_fixed _ _ _ _ _ m_def this, of "[97]" 5 zero_cie] show ?thesis
    by (auto simp: proper_def m_def length_demo_fixed)
qed

end
