(* ===== verification/BssInfoWitness.thy ===== *)
theory BssInfoWitness
  imports BssInfoProps NodeWitness BeaconWitness
begin

text \<open>Scan results for the table of two nodes, the first of which has a frame with the name ``ab''.\<close>

definition demo_frame :: bytes where
  "demo_frame = demo_fixed @ encode demo_elements"

definition demo_hidden :: bytes where
  "demo_hidden = demo_fixed @ encode ((0, []) # tl demo_elements)"

definition demo_env :: "bool \<Rightarrow> bssinfo_env" where
  "demo_env buf_ok = \<lparr>is_probe_ssid = buf_ok, wps_enable = False, env_probe_rx = False, env_caching = Some True,
     env_now = 900, env_ni_ok = True, env_buf_ok = buf_ok\<rparr>"

definition demo_hdr :: "byte \<Rightarrow> byte \<Rightarrow> WMI_BSS_INFO_HDR" where
  "demo_hdr typ b = \<lparr>bi_channel = 2412, bi_frameType = typ, bi_snr = 40, bi_rssi = - 55, bi_bssid = demo_mac b, bi_ieMask = 0\<rparr>"

abbreviation named :: "bss \<Rightarrow> bss" where
  "named b \<equiv> b\<lparr>ni_cie := zero_cie\<lparr>ie_ssid := Some (0, 12)\<rparr>\<rparr>"

lemma length_demo_frames: "length demo_frame = 38" "length demo_hidden = 36"
  by (simp_all add: demo_frame_def demo_hidden_def demo_elements_def length_demo_fixed)

lemma good_hidden: "good_frame demo_fixed ((0, []) # tl demo_elements)"
  using good_demo by (auto simp: good_frame_def demo_elements_def proper_def)

lemma demo_scan:
  obtains nt where "node_table nt [0, 1]" "bufs nt 0 = Some demo_frame" "mac_of nt 0 = demo_mac 1" "mac_of nt 1 = demo_mac 33"
    "contents nt 0 = Some (named (set_up 0 (demo_mac 1) (fresh_bss (Some 0))))"
proof -
  obtain nt where nt: "node_table nt [0, 1]" "contents nt 0 = Some (set_up 0 (demo_mac 1) (fresh_bss (Some 0)))"
    "mac_of nt 0 = demo_mac 1" "mac_of nt 1 = demo_mac 33" by (rule demo_table) (rule that)
  let ?nt = "filled 0 named 0 demo_frame nt"
  obtain b where b: "nodes nt 0 = Some b" "data b = set_up 0 (demo_mac 1) (fresh_bss (Some 0))"
    using nt(2) by (auto simp: contents_Some)
  have "ni_buf (data b) = Some 0" unfolding b(2) by (simp add: set_up_def fresh_bss_def)
  then have "ni_buf b = Some 0" by simp
  then have "owner nt 0 = Some (ni_macaddr b, Some 0)" using b(1) by (simp add: owner_def)
  then have "bufs nt 0 \<noteq> None" using node_tableD(2) [OF nt(1)] unfolding heap_ok_def by blast
  then have t: "node_table ?nt [0, 1]" by (intro node_table_filled [OF nt(1)]) (simp_all add: keeps_structure_def)
  have c: "contents ?nt = (contents nt)(0 \<mapsto> named (set_up 0 (demo_mac 1) (fresh_bss (Some 0))))"
    unfolding contents_filled [OF b(1)] b(2) [symmetric] by (cases b) (simp add: data_def)
  show thesis
    by (rule that [OF t]) (use c nt in \<open>simp_all add: mac_of_def set_up_def filled_def\<close>)
qed

lemma bssinfo_updates_known_witness:
  "\<exists>w w' bih'. wmi_bssInfo_event_rx (demo_env True) (demo_hdr 1 1) demo_hidden 52 w = Some (A_OK, bih', w') \<and>
     node_table (wmi_scan_table w') [0, 1] \<and>
     (\<exists>c u. contents (wmi_scan_table w') 0 = Some c \<and> ni_buf c = Some u \<and> bufs (wmi_scan_table w') u = Some demo_frame \<and>
       ie_ssid (ni_cie c) = Some (u, 12))"
proof -
  obtain nt where nt: "node_table nt [0, 1]" "bufs nt 0 = Some demo_frame" "mac_of nt 0 = demo_mac 1" "mac_of nt 1 = demo_mac 33"
    "contents nt 0 = Some (named (set_up 0 (demo_mac 1) (fresh_bss (Some 0))))" by (rule demo_scan)
  let ?w = "\<lparr>wmi_scan_table = nt, wmi_bssid = demo_mac 7\<rparr>" and ?c = "named (set_up 0 (demo_mac 1) (fresh_bss (Some 0)))"
  have m: "demo_frame ! 13 = 2" "demo_frame ! 14 = 97" "take 2 (drop 14 demo_frame) = [97, 98]"
    by (simp_all add: demo_frame_def demo_fixed_def demo_elements_def ie_bytes_def nth_append)
  have "cached_ssid (Some (0, 12)) nt = Some [97, 98]"
    using nt(2) m length_demo_frames by (simp add: cached_ssid_def rd_ie_def blk_ie_def)
  then have k: "kept_name (demo_env True) ?w (demo_hdr 1 1) ?c = Some [97, 98]"
    by (simp add: kept_name_def keeps_name_def demo_env_def demo_hdr_def)
  have r: "renamed [97, 98] [] (tl demo_elements) = demo_elements"
    by (simp add: renamed_def hidden_name_def demo_elements_def)
  have f: "find (\<lambda>x. mac_of (wmi_scan_table ?w) x = bi_bssid (demo_hdr 1 1)) (rev [0, 1]) = Some 0"
    using nt(3,4) by (simp add: demo_hdr_def)
  have fr: "demo_frame = demo_fixed @ encode (renamed [97, 98] [] (tl demo_elements))" by (simp add: r demo_frame_def)
  have good: "good_frame demo_fixed (renamed [97, 98] [] (tl demo_elements))" unfolding r by (rule good_demo)
  have first: "ie_ssid (parsed u demo_fixed demo_elements) = Some (u, 12)" for u
    by (simp add: parsed_ssid first_ie_def demo_elements_def)
  have h: "node_table (wmi_scan_table ?w) [0, 1]" "length (bi_bssid (demo_hdr 1 1)) = IEEE80211_ADDR_LEN"
    "contents (wmi_scan_table ?w) 0 = Some ?c" "ni_refcnt ?c \<noteq> 0" "env_caching (demo_env True) = Some True" "env_buf_ok (demo_env True)"
    "bi_frameType (demo_hdr 1 1) = 1 \<or> bi_frameType (demo_hdr 1 1) = 2 \<and> \<not> wps_enable (demo_env True) \<and>
       \<not> ([97, 98 :: byte] \<noteq> [] \<and> hidden_name [])"
    "[97, 98 :: byte] \<noteq> [] \<and> hidden_name [] \<longrightarrow> length ([] :: bytes) \<le> length [97, 98 :: byte]"
    using nt by (simp_all add: demo_env_def demo_hdr_def set_up_def)
  from bssinfo_updates_known [OF h(1,2) f h(3-7) k h(8) good_hidden good demo_hidden_def fr]
  obtain w' bih' c' u where "wmi_bssInfo_event_rx (demo_env True) (demo_hdr 1 1) demo_hidden (16 + length demo_hidden) ?w = Some (A_OK, bih', w')"
    "node_table (wmi_scan_table w') [0, 1]" "contents (wmi_scan_table w') = (contents (wmi_scan_table ?w))(0 \<mapsto> c')"
    "ni_buf c' = Some u" "bufs (wmi_scan_table w') u = Some demo_frame"
    "ni_cie c' = (parsed u demo_fixed (renamed [97, 98] [] (tl demo_elements)))\<lparr>ie_chan := bi_channel (demo_hdr 1 1)\<rparr>"
    by (elim exE conjE) (rule that)
  then show ?thesis
    using first by (intro exI [of _ ?w] exI [of _ w'] exI [of _ bih'] conjI exI [of _ c'] exI [of _ u]) (simp_all add: length_demo_frames r)
qed

lemma bssinfo_adds_unknown_witness:
  "\<exists>w w' a. wmi_bssInfo_event_rx (demo_env True) (demo_hdr 2 9) demo_frame 54 w = Some (A_OK, demo_hdr 2 9, w') \<and>
     node_table (wmi_scan_table w') [0, 1, a]"
proof -
  obtain nt where nt: "node_table nt [0, 1]" "mac_of nt 0 = demo_mac 1" "mac_of nt 1 = demo_mac 33"
    by (rule demo_scan) (rule that)
  let ?w = "\<lparr>wmi_scan_table = nt, wmi_bssid = demo_mac 7\<rparr>"
  have h: "node_table (wmi_scan_table ?w) [0, 1]" "length (bi_bssid (demo_hdr 2 9)) = IEEE80211_ADDR_LEN"
    "\<forall>x \<in> set [0, 1]. mac_of (wmi_scan_table ?w) x \<noteq> bi_bssid (demo_hdr 2 9)" "\<not> 0 < sint (bi_rssi (demo_hdr 2 9))"
    "env_caching (demo_env True) = Some True" "env_ni_ok (demo_env True)" "env_buf_ok (demo_env True)"
    "bi_frameType (demo_hdr 2 9) = 1 \<or> bi_frameType (demo_hdr 2 9) = 2 \<and> \<not> wps_enable (demo_env True)"
    using nt by (simp_all add: demo_env_def demo_hdr_def)
  from bssinfo_adds_unknown [OF h good_demo demo_frame_def] obtain w' a where
    "wmi_bssInfo_event_rx (demo_env True) (demo_hdr 2 9) demo_frame (16 + length demo_frame) ?w = Some (A_OK, demo_hdr 2 9, w')"
    "node_table (wmi_scan_table w') ([0, 1] @ [a])" by (elim exE conjE) (rule that)
  then show ?thesis
    by (intro exI [of _ ?w] exI [of _ w'] exI [of _ a]) (simp add: length_demo_frames)
qed

lemma bssinfo_alloc_failure_blocks_witness:
  "\<exists>w. node_table (wmi_scan_table w) [0, 1] \<and> wmi_bssInfo_event_rx (demo_env False) (demo_hdr 1 1) demo_frame 54 w = None"
proof -
  obtain nt where nt: "node_table nt [0, 1]" "mac_of nt 0 = demo_mac 1" by (rule demo_scan) (rule that)
  let ?w = "\<lparr>wmi_scan_table = nt, wmi_bssid = demo_mac 7\<rparr>"
  have h: "node_table (wmi_scan_table ?w) [0, 1]" "length (bi_bssid (demo_hdr 1 1)) = IEEE80211_ADDR_LEN"
    "mac_of (wmi_scan_table ?w) 0 = bi_bssid (demo_hdr 1 1)" "0 \<in> set [0, 1 :: nat]" "env_caching (demo_env False) = Some True"
    "\<not> env_buf_ok (demo_env False)" "bi_frameType (demo_hdr 1 1) = 1" "\<not> is_probe_ssid (demo_env False)"
    "wmi_bssid ?w \<noteq> bi_bssid (demo_hdr 1 1)" "13 < length demo_frame"
    using nt by (simp_all add: demo_env_def demo_hdr_def length_demo_frames)
  from bssinfo_alloc_failure_blocks [OF h] nt(1) show ?thesis
    by (intro exI [of _ ?w]) (simp add: length_demo_frames)
qed

lemma bssinfo_action_frame_dangles_witness:
  "\<exists>w w' bih'. wmi_bssInfo_event_rx (demo_env True) (demo_hdr 3 1) demo_frame 54 w = Some (A_OK, bih', w') \<and>
     wlan_find_Ssidnode [97, 98] False True (wmi_scan_table w') = None"
proof -
  obtain nt where nt: "node_table nt [0, 1]" "mac_of nt 0 = demo_mac 1" "mac_of nt 1 = demo_mac 33"
    "contents nt 0 = Some (named (set_up 0 (demo_mac 1) (fresh_bss (Some 0))))" by (rule demo_scan) (rule that)
  let ?w = "\<lparr>wmi_scan_table = nt, wmi_bssid = demo_mac 7\<rparr>" and ?c = "named (set_up 0 (demo_mac 1) (fresh_bss (Some 0)))"
  have h: "node_table (wmi_scan_table ?w) (0 # [1])" "length (bi_bssid (demo_hdr 3 1)) = IEEE80211_ADDR_LEN"
    "find (\<lambda>x. mac_of (wmi_scan_table ?w) x = bi_bssid (demo_hdr 3 1)) (rev (0 # [1])) = Some 0"
    "contents (wmi_scan_table ?w) 0 = Some ?c" "ni_refcnt ?c \<noteq> 0" "ni_buf ?c = Some 0" "ie_ssid (ni_cie ?c) = Some (0, 12)"
    "env_caching (demo_env True) = Some True" "env_buf_ok (demo_env True)" "13 < length demo_frame"
    "bi_frameType (demo_hdr 3 1) \<notin> {1, 2, 4}"
    using nt by (simp_all add: demo_env_def demo_hdr_def set_up_def fresh_bss_def length_demo_frames)
  from bssinfo_action_frame_dangles [OF h, of "[97, 98]" False True] obtain w' bih' where
    "wmi_bssInfo_event_rx (demo_env True) (demo_hdr 3 1) demo_frame (16 + length demo_frame) ?w = Some (A_OK, bih', w')"
    "wlan_find_Ssidnode [97, 98] False True (wmi_scan_table w') = None" by (elim exE conjE) (rule that)
  then show ?thesis
    by (intro exI [of _ ?w] exI [of _ w'] exI [of _ bih']) (simp add: length_demo_frames)
qed

end
