(* ===== verification/Streams.thy ===== *)
theory Streams
  imports Prelude
begin

text \<open>
  Priority streams and WMI commands: the stream state of \<open>host/wmi/wmi.c\<close>, the commands and events that
  change it, and the sending of commands with their synchronisation points.

  Each access category has a pipe (\<open>fat pipe\<close>) and up to sixteen streams (\<open>thin streams\<close>) in it.  A
  pipe is created implicitly by the first data of its category or by the first explicit stream.  The
  driver is told of each pipe that starts or ends.

  The model threads a record through the operations: the stream state, the commands handed to the
  driver's transmit function so far, the indications made to the driver so far, and the network buffers
  that this layer holds.  Freeing or sending a buffer it does not hold is a fault (\<open>None\<close>), and so is
  indexing the stream table with a category above 3.  Whether an allocation succeeds and what the
  transmit function answers is taken from two lists; when a list is used up all further answers are
  good.
\<close>

subsection \<open>Data\<close>

abbreviation (input) WMM_NUM_AC :: nat where "WMM_NUM_AC \<equiv> 4"
abbreviation (input) WMM_AC_BE :: byte where "WMM_AC_BE \<equiv> 0"
abbreviation (input) WMM_AC_BK :: byte where "WMM_AC_BK \<equiv> 1"
abbreviation (input) WMM_AC_VI :: byte where "WMM_AC_VI \<equiv> 2"
abbreviation (input) WMM_AC_VO :: byte where "WMM_AC_VO \<equiv> 3"
abbreviation (input) WMI_IMPLICIT_PSTREAM :: byte where "WMI_IMPLICIT_PSTREAM \<equiv> 0xFF"
abbreviation (input) WMI_MAX_THINSTREAM :: byte where "WMI_MAX_THINSTREAM \<equiv> 15"
abbreviation (input) WMI_IMPLICIT_PSTREAM_INACTIVITY_INT :: "32 word" where "WMI_IMPLICIT_PSTREAM_INACTIVITY_INT \<equiv> 5000"

record WMI_CREATE_PSTREAM_CMD =
  minServiceInt :: "32 word"
  maxServiceInt :: "32 word"
  inactivityInt :: "32 word"
  suspensionInt :: "32 word"
  serviceStartTime :: "32 word"
  minDataRate :: "32 word"
  meanDataRate :: "32 word"
  peakDataRate :: "32 word"
  maxBurstSize :: "32 word"
  delayBound :: "32 word"
  minPhyRate :: "32 word"
  sba :: "32 word"
  mediumTime :: "32 word"
  nominalMSDU :: "16 word"
  maxMSDU :: "16 word"
  ps_trafficClass :: byte
  trafficDirection :: byte
  rxQueueNum :: byte
  trafficType :: byte
  voicePSCapability :: byte
  ps_tsid :: byte
  userPriority :: byte
  nominalPHY :: byte

text \<open>What is handed to the transmit function: commands on the control endpoint, and the
  synchronisation messages on the endpoints of the categories.\<close>

datatype wmi_msg =
    CREATE_PSTREAM WMI_CREATE_PSTREAM_CMD
  | DELETE_PSTREAM byte byte
  | SYNCHRONIZE byte
  | SET_HOST_SLEEP_MODE bool bool
  | ADD_CIPHER_KEY bytes
  | DELETE_CIPHER_KEY byte
  | ADD_BAD_AP byte bytes
  | DELETE_BAD_AP byte
  | AP_SET_PVB "16 word" bool
  | AP_APSD_BUFFERED_TRAFFIC "16 word" "16 word" "32 word"
  | DATA_SYNC nat

datatype WMI_SYNC_FLAG = NO_SYNC_WMIFLAG | SYNC_BEFORE_WMIFLAG | SYNC_AFTER_WMIFLAG | SYNC_BOTH_WMIFLAG | END_WMIFLAG

record wmi_priv_t =
  wmi_fatPipeExists :: byte
  wmi_streamExistsForAC :: "16 word list"
  sent :: "wmi_msg list"
  indicated :: "(nat \<times> bool) list"
  held :: "nat list"
  next_osbuf :: nat
  alloc_answers :: "bool list"
  tx_answers :: "A_STATUS list"

subsection \<open>Buffers and the driver\<close>

definition A_NETBUF_ALLOC :: "wmi_priv_t \<Rightarrow> nat option \<times> wmi_priv_t" where
  "A_NETBUF_ALLOC q = (let q' = q\<lparr>alloc_answers := tl (alloc_answers q)\<rparr> in
     if alloc_answers q \<noteq> [] \<and> \<not> hd (alloc_answers q) then (None, q')
     else (Some (next_osbuf q), q'\<lparr>held := next_osbuf q # held q, next_osbuf := Suc (next_osbuf q)\<rparr>))"

definition A_NETBUF_FREE :: "nat \<Rightarrow> wmi_priv_t \<Rightarrow> wmi_priv_t option" where
  "A_NETBUF_FREE b q = (if b \<in> set (held q) then Some (q\<lparr>held := remove1 b (held q)\<rparr>) else None)"

text \<open>The buffer belongs to the driver once it is accepted.\<close>

definition A_WMI_CONTROL_TX :: "nat \<Rightarrow> wmi_msg \<Rightarrow> wmi_priv_t \<Rightarrow> (A_STATUS \<times> wmi_priv_t) option" where
  "A_WMI_CONTROL_TX b msg q =
     (if b \<notin> set (held q) then None
      else let q' = q\<lparr>tx_answers := tl (tx_answers q)\<rparr> in
        if tx_answers q \<noteq> [] \<and> A_FAILED (hd (tx_answers q)) then Some (hd (tx_answers q), q')
        else Some (A_OK, q'\<lparr>sent := sent q @ [msg], held := remove1 b (held q)\<rparr>))"

definition A_WMI_STREAM_TX :: "nat \<Rightarrow> bool \<Rightarrow> wmi_priv_t \<Rightarrow> wmi_priv_t" where
  "A_WMI_STREAM_TX ac active q = q\<lparr>indicated := indicated q @ [(ac, active)]\<rparr>"

subsection \<open>Sending commands\<close>

text \<open>\<open>wmi_cmd_send\<close> without synchronisation, which is how a synchronisation point sends its own
  command.  Pushing the header never fails on Linux.\<close>

definition cmd_send_nosync :: "nat \<Rightarrow> wmi_msg \<Rightarrow> wmi_priv_t \<Rightarrow> (A_STATUS \<times> wmi_priv_t) option" where
  "cmd_send_nosync osbuf cmd q = A_WMI_CONTROL_TX osbuf cmd q"

definition wmi_dataSync_send :: "nat \<Rightarrow> nat \<Rightarrow> wmi_priv_t \<Rightarrow> (A_STATUS \<times> wmi_priv_t) option" where
  "wmi_dataSync_send osbuf ac q = A_WMI_CONTROL_TX osbuf (DATA_SYNC ac) q"

text \<open>The categories whose bit is set.\<close>

definition pipes :: "byte \<Rightarrow> nat list" where
  "pipes m = filter (\<lambda>i. bit m i) [0..<WMM_NUM_AC]"

fun alloc_sync :: "nat list \<Rightarrow> wmi_priv_t \<Rightarrow> A_STATUS \<times> (nat \<times> nat) list \<times> wmi_priv_t" where
  "alloc_sync [] q = (A_OK, [], q)"
| "alloc_sync (ac # acs) q = (case A_NETBUF_ALLOC q of
       (None, q) \<Rightarrow> (A_NO_MEMORY, [], q)
     | (Some b, q) \<Rightarrow> (let (st, bs, q) = alloc_sync acs q in (st, (ac, b) # bs, q)))"

text \<open>The result has the buffers that were not sent.\<close>

fun send_sync :: "(nat \<times> nat) list \<Rightarrow> wmi_priv_t \<Rightarrow> (A_STATUS \<times> (nat \<times> nat) list \<times> wmi_priv_t) option" where
  "send_sync [] q = Some (A_OK, [], q)"
| "send_sync ((ac, b) # bs) q = do {
     (st, q) \<leftarrow> wmi_dataSync_send b ac q;
     if A_FAILED st then Some (st, (ac, b) # bs, q) else send_sync bs q
   }"

fun free_all :: "nat list \<Rightarrow> wmi_priv_t \<Rightarrow> wmi_priv_t option" where
  "free_all [] q = Some q"
| "free_all (b # bs) q = Option.bind (A_NETBUF_FREE b q) (free_all bs)"

definition sync_send :: "nat \<Rightarrow> byte \<Rightarrow> (nat \<times> nat) list \<Rightarrow> wmi_priv_t \<Rightarrow> (A_STATUS \<times> nat list \<times> wmi_priv_t) option" where
  "sync_send cmd fat bs q = do {
     (st, q) \<leftarrow> cmd_send_nosync cmd (SYNCHRONIZE fat) q;
     if A_FAILED st then Some (st, cmd # map snd bs, q)
     else do {
       (st, bs, q) \<leftarrow> send_sync bs q;
       Some (st, map snd bs, q)
     }
   }"

definition wmi_sync_point :: "wmi_priv_t \<Rightarrow> (A_STATUS \<times> wmi_priv_t) option" where
  "wmi_sync_point q = do {
     let fat = wmi_fatPipeExists q;
     (case A_NETBUF_ALLOC q of
        (None, q) \<Rightarrow> Some (A_NO_MEMORY, q)
      | (Some cmd, q) \<Rightarrow> do {
          let (st, bs, q) = alloc_sync (pipes fat) q;
          (st, left, q) \<leftarrow> (if A_FAILED st then Some (st, cmd # map snd bs, q) else sync_send cmd fat bs q);
          q \<leftarrow> free_all left q;
          Some (st, q)
        })
   }"

definition wmi_cmd_send :: "nat \<Rightarrow> wmi_msg \<Rightarrow> WMI_SYNC_FLAG \<Rightarrow> wmi_priv_t \<Rightarrow> (A_STATUS \<times> wmi_priv_t) option" where
  "wmi_cmd_send osbuf cmd syncflag q =
     (if syncflag = END_WMIFLAG then Some (A_EINVAL, q)
      else do {
        (st, q) \<leftarrow> (if syncflag = SYNC_BEFORE_WMIFLAG \<or> syncflag = SYNC_BOTH_WMIFLAG then wmi_sync_point q
           else Some (A_OK, q));
        if A_FAILED st then Some (st, q)
        else do {
          (st, q) \<leftarrow> A_WMI_CONTROL_TX osbuf cmd q;
          if A_FAILED st then Some (st, q)
          else if syncflag = SYNC_AFTER_WMIFLAG \<or> syncflag = SYNC_BOTH_WMIFLAG then wmi_sync_point q
          else Some (st, q)
        }
      })"

text \<open>How every command function ends: it frees its buffer when the command was not sent.\<close>

definition send_or_free :: "nat \<Rightarrow> wmi_msg \<Rightarrow> WMI_SYNC_FLAG \<Rightarrow> wmi_priv_t \<Rightarrow> (A_STATUS \<times> wmi_priv_t) option" where
  "send_or_free osbuf cmd syncflag q = do {
     (st, q) \<leftarrow> wmi_cmd_send osbuf cmd syncflag q;
     if st \<noteq> A_OK then map_option (Pair st) (A_NETBUF_FREE osbuf q) else Some (st, q)
   }"

subsection \<open>The stream state\<close>

definition streams_of :: "nat \<Rightarrow> wmi_priv_t \<Rightarrow> 16 word option" where
  "streams_of ac q = at (wmi_streamExistsForAC q) ac"

definition set_streams :: "nat \<Rightarrow> 16 word \<Rightarrow> wmi_priv_t \<Rightarrow> wmi_priv_t option" where
  "set_streams ac v q = map_option (\<lambda>xs. q\<lparr>wmi_streamExistsForAC := xs\<rparr>) (put (wmi_streamExistsForAC q) ac v)"

definition set_pipe :: "nat \<Rightarrow> wmi_priv_t \<Rightarrow> wmi_priv_t" where
  "set_pipe ac q = q\<lparr>wmi_fatPipeExists := wmi_fatPipeExists q OR push_bit ac 1\<rparr>"

definition clear_pipe :: "nat \<Rightarrow> wmi_priv_t \<Rightarrow> wmi_priv_t" where
  "clear_pipe ac q = q\<lparr>wmi_fatPipeExists := wmi_fatPipeExists q AND NOT (push_bit ac 1)\<rparr>"

definition wmi_qos_state_init :: "wmi_priv_t \<Rightarrow> wmi_priv_t" where
  "wmi_qos_state_init q = q\<lparr>wmi_fatPipeExists := 0, wmi_streamExistsForAC := replicate WMM_NUM_AC 0\<rparr>"

definition up_to_ac :: "byte list" where
  "up_to_ac = [WMM_AC_BE, WMM_AC_BK, WMM_AC_BK, WMM_AC_BE, WMM_AC_VI, WMM_AC_VI, WMM_AC_VO, WMM_AC_VO]"

definition convert_userPriority_to_trafficClass :: "byte \<Rightarrow> byte" where
  "convert_userPriority_to_trafficClass up = up_to_ac ! unat (up AND 7)"

definition valid_pstream :: "WMI_CREATE_PSTREAM_CMD \<Rightarrow> bool" where
  "valid_pstream p \<longleftrightarrow> userPriority p < 8 \<and>
     convert_userPriority_to_trafficClass (userPriority p) = ps_trafficClass p \<and>
     trafficDirection p \<in> {0, 1, 2} \<and> trafficType p \<in> {0, 1} \<and> voicePSCapability p \<in> {0, 1, 2} \<and>
     (ps_tsid p = WMI_IMPLICIT_PSTREAM \<or> ps_tsid p \<le> WMI_MAX_THINSTREAM)"

text \<open>The nominal PHY rate in units of 500 kbps, stored in a byte, or 0 if it is below the minimum.\<close>

definition phy_rate :: "WMI_CREATE_PSTREAM_CMD \<Rightarrow> WMI_CREATE_PSTREAM_CMD" where
  "phy_rate p = (let minimalPHY = unat (minPhyRate p) div 1000 div 1000 in
     p\<lparr>nominalPHY := (if unat (nominalPHY p) \<ge> minimalPHY then word_of_nat (unat (nominalPHY p) * 1000 div 500) else 0)\<rparr>)"

definition wmi_create_pstream_cmd :: "WMI_CREATE_PSTREAM_CMD \<Rightarrow> wmi_priv_t \<Rightarrow> (A_STATUS \<times> wmi_priv_t) option" where
  "wmi_create_pstream_cmd params q =
     (if \<not> valid_pstream params then Some (A_EINVAL, q)
      else do {
        let params = phy_rate params;
        let ac = unat (ps_trafficClass params);
        (case A_NETBUF_ALLOC q of
           (None, q) \<Rightarrow> Some (A_NO_MEMORY, q)
         | (Some osbuf, q) \<Rightarrow>
             if inactivityInt params = 0 then map_option (Pair A_EINVAL) (A_NETBUF_FREE osbuf q)
             else do {
               let exists = bit (wmi_fatPipeExists q) ac;
               if ps_tsid params = WMI_IMPLICIT_PSTREAM \<and> exists
               then map_option (Pair A_OK) (A_NETBUF_FREE osbuf q)
               else do {
                 q \<leftarrow> (if ps_tsid params = WMI_IMPLICIT_PSTREAM then Some (set_pipe ac q)
                    else do {
                      tsids \<leftarrow> streams_of ac q;
                      q \<leftarrow> set_streams ac (tsids OR push_bit (unat (ps_tsid params)) 1) q;
                      Some (set_pipe ac q)
                    });
                 let q = (if \<not> exists then A_WMI_STREAM_TX ac True q else q);
                 send_or_free osbuf (CREATE_PSTREAM params) NO_SYNC_WMIFLAG q
               }
             })
      })"

text \<open>The result of the command counts only after the state has changed.\<close>

definition wmi_delete_pstream_cmd :: "byte \<Rightarrow> byte \<Rightarrow> wmi_priv_t \<Rightarrow> (A_STATUS \<times> wmi_priv_t) option" where
  "wmi_delete_pstream_cmd trafficClass tsid q =
     (if trafficClass > 3 then Some (A_EINVAL, q)
      else do {
        let ac = unat trafficClass;
        (case A_NETBUF_ALLOC q of
           (None, q) \<Rightarrow> Some (A_NO_MEMORY, q)
         | (Some osbuf, q) \<Rightarrow> do {
             tsids \<leftarrow> streams_of ac q;
             if \<not> bit tsids (unat tsid) then map_option (Pair A_ERROR) (A_NETBUF_FREE osbuf q)
             else do {
               (st, q) \<leftarrow> wmi_cmd_send osbuf (DELETE_PSTREAM trafficClass tsid) SYNC_BEFORE_WMIFLAG q;
               tsids \<leftarrow> streams_of ac q;
               let tsids = tsids AND NOT (push_bit (unat tsid) 1);
               q \<leftarrow> set_streams ac tsids q;
               let q = (if tsids = 0 then clear_pipe ac (A_WMI_STREAM_TX ac False q) else q);
               if st \<noteq> A_OK then map_option (Pair st) (A_NETBUF_FREE osbuf q) else Some (st, q)
             }
           })
      })"

subsection \<open>Events and other users\<close>

definition wmi_pstream_timeout_event_rx :: "bytes \<Rightarrow> wmi_priv_t \<Rightarrow> (A_STATUS \<times> wmi_priv_t) option" where
  "wmi_pstream_timeout_event_rx datap q =
     (if length datap < 4 then Some (A_EINVAL, q)
      else do {
        let ac = unat (datap ! 3);
        q \<leftarrow> set_streams ac 0 q;
        Some (A_OK, A_WMI_STREAM_TX ac False (clear_pipe ac q))
      })"

abbreviation (input) CAC_INDICATION_ADMISSION_RESP :: byte where "CAC_INDICATION_ADMISSION_RESP \<equiv> 1"
abbreviation (input) CAC_INDICATION_DELETE :: byte where "CAC_INDICATION_DELETE \<equiv> 2"
abbreviation (input) CAC_INDICATION_NO_RESP :: byte where "CAC_INDICATION_NO_RESP \<equiv> 3"

text \<open>The stream of the traffic specification, which begins in the fourth byte of the event and has its
  number in bits 1 to 4 of the 16 bits behind eight bytes.\<close>

definition tspec_tsid :: "bytes \<Rightarrow> byte" where
  "tspec_tsid datap = word_of_nat (le16 (datap ! 11) (datap ! 12) div 2 mod 16)"

text \<open>An event of the admission control: category, indication, status, and the 63 bytes of the
  specification.  \<open>tsidActive\<close> is a byte, so it has only the lower eight bits of the stream's bit.\<close>

definition wmi_cac_event_rx :: "bytes \<Rightarrow> wmi_priv_t \<Rightarrow> (A_STATUS \<times> wmi_priv_t) option" where
  "wmi_cac_event_rx datap q =
     (if length datap < 66 then Some (A_EINVAL, q)
      else do {
        let ac = datap ! 0;
        let ind = datap ! 1;
        if ind = CAC_INDICATION_ADMISSION_RESP \<and> datap ! 2 \<noteq> 0 then do {
          (st, q) \<leftarrow> wmi_delete_pstream_cmd ac (tspec_tsid datap) q;
          Some (A_OK, q)
        }
        else if ind = CAC_INDICATION_NO_RESP then do {
          tsids \<leftarrow> streams_of (unat ac) q;
          (case find (bit tsids) [0..<16] of
             None \<Rightarrow> Some (A_OK, q)
           | Some i \<Rightarrow> do { (st, q) \<leftarrow> wmi_delete_pstream_cmd ac (word_of_nat i) q; Some (A_OK, q) })
        }
        else if ind = CAC_INDICATION_DELETE then do {
          let tsid = unat (tspec_tsid datap);
          tsids \<leftarrow> streams_of (unat ac) q;
          let tsidActive = (ucast (tsids AND push_bit tsid 1) :: byte);
          let tsids = tsids AND NOT (push_bit tsid 1);
          q \<leftarrow> set_streams (unat ac) tsids q;
          Some (A_OK, if tsids = 0 \<and> tsidActive \<noteq> 0 then clear_pipe (unat ac) (A_WMI_STREAM_TX (unat ac) False q) else q)
        }
        else Some (A_OK, q)
      })"

text \<open>Going to sleep gives up the pipes without explicit streams.\<close>

fun sleep_pipes :: "nat list \<Rightarrow> byte \<Rightarrow> wmi_priv_t \<Rightarrow> (byte \<times> wmi_priv_t) option" where
  "sleep_pipes [] fat q = Some (fat, q)"
| "sleep_pipes (i # is) fat q =
     (if bit fat i then do {
        tsids \<leftarrow> streams_of i q;
        if tsids = 0 then sleep_pipes is (fat AND NOT (push_bit i 1)) (A_WMI_STREAM_TX i False q)
        else sleep_pipes is fat q
      } else sleep_pipes is fat q)"

definition wmi_set_host_sleep_mode_cmd :: "bool \<Rightarrow> bool \<Rightarrow> wmi_priv_t \<Rightarrow> (A_STATUS \<times> wmi_priv_t) option" where
  "wmi_set_host_sleep_mode_cmd awake asleep q =
     (if awake = asleep then Some (A_EINVAL, q)
      else (case A_NETBUF_ALLOC q of
          (None, q) \<Rightarrow> Some (A_NO_MEMORY, q)
        | (Some osbuf, q) \<Rightarrow> do {
            q \<leftarrow> (if asleep then do {
                (fat, q) \<leftarrow> sleep_pipes [0..<WMM_NUM_AC] (wmi_fatPipeExists q) q;
                Some (q\<lparr>wmi_fatPipeExists := fat\<rparr>)
              } else Some q);
            send_or_free osbuf (SET_HOST_SLEEP_MODE awake asleep) NO_SYNC_WMIFLAG q
          }))"

definition wmi_get_mapped_qos_queue :: "byte \<Rightarrow> wmi_priv_t \<Rightarrow> 16 word option" where
  "wmi_get_mapped_qos_queue trafficClass q = streams_of (unat trafficClass) q"

subsection \<open>Other commands with synchronisation points or checked parameters\<close>

abbreviation (input) WMI_MAX_KEY_INDEX :: byte where "WMI_MAX_KEY_INDEX \<equiv> 7"
abbreviation (input) WMI_MAX_KEY_LEN :: nat where "WMI_MAX_KEY_LEN \<equiv> 32"
abbreviation (input) WEP_CRYPT :: byte where "WEP_CRYPT \<equiv> 2"

text \<open>\<open>or_zeros n p\<close> is a field of \<open>n\<close> cleared bytes after the copy from the pointer \<open>p\<close>, if there is one.\<close>

definition or_zeros :: "nat \<Rightarrow> bytes option \<Rightarrow> bytes option" where
  "or_zeros n p = (case p of None \<Rightarrow> Some (replicate n 0) | Some xs \<Rightarrow> blk 0 n xs)"

text \<open>The body of the command is \<open>WMI_ADD_CIPHER_KEY_CMD\<close>: index, type, usage, length, the replay counter
  (8 bytes), the key (32 bytes), the control flags and the address.\<close>

definition wmi_addKey_cmd :: "byte \<Rightarrow> byte \<Rightarrow> byte \<Rightarrow> byte \<Rightarrow> bytes option \<Rightarrow> bytes option \<Rightarrow> byte \<Rightarrow> bytes option \<Rightarrow>
    WMI_SYNC_FLAG \<Rightarrow> wmi_priv_t \<Rightarrow> (A_STATUS \<times> wmi_priv_t) option" where
  "wmi_addKey_cmd keyIndex keyType keyUsage keyLength keyRSC keyMaterial key_op_ctrl macAddr sync_flag q =
     (if keyIndex > WMI_MAX_KEY_INDEX \<or> unat keyLength > WMI_MAX_KEY_LEN \<or> keyMaterial = None then Some (A_EINVAL, q)
      else if keyType \<noteq> WEP_CRYPT \<and> keyRSC = None then Some (A_EINVAL, q)
      else (case A_NETBUF_ALLOC q of
          (None, q) \<Rightarrow> Some (A_NO_MEMORY, q)
        | (Some osbuf, q) \<Rightarrow> do {
            key \<leftarrow> Option.bind keyMaterial (blk 0 (unat keyLength));
            rsc \<leftarrow> or_zeros 8 keyRSC;
            mac \<leftarrow> or_zeros 6 macAddr;
            let cmd = [keyIndex, keyType, keyUsage, keyLength] @ rsc
              @ key @ replicate (WMI_MAX_KEY_LEN - unat keyLength) 0 @ [key_op_ctrl] @ mac;
            send_or_free osbuf (ADD_CIPHER_KEY cmd) sync_flag q
          }))"

definition wmi_deleteKey_cmd :: "byte \<Rightarrow> wmi_priv_t \<Rightarrow> (A_STATUS \<times> wmi_priv_t) option" where
  "wmi_deleteKey_cmd keyIndex q =
     (if keyIndex > WMI_MAX_KEY_INDEX then Some (A_EINVAL, q)
      else (case A_NETBUF_ALLOC q of
          (None, q) \<Rightarrow> Some (A_NO_MEMORY, q)
        | (Some osbuf, q) \<Rightarrow> send_or_free osbuf (DELETE_CIPHER_KEY keyIndex) NO_SYNC_WMIFLAG q))"

abbreviation (input) WMI_MAX_BAD_AP_INDEX :: byte where "WMI_MAX_BAD_AP_INDEX \<equiv> 1"

definition wmi_addBadAp_cmd :: "byte \<Rightarrow> bytes option \<Rightarrow> wmi_priv_t \<Rightarrow> (A_STATUS \<times> wmi_priv_t) option" where
  "wmi_addBadAp_cmd apIndex bssid q =
     (if bssid = None \<or> apIndex > WMI_MAX_BAD_AP_INDEX then Some (A_EINVAL, q)
      else (case A_NETBUF_ALLOC q of
          (None, q) \<Rightarrow> Some (A_NO_MEMORY, q)
        | (Some osbuf, q) \<Rightarrow> do {
            mac \<leftarrow> Option.bind bssid (blk 0 6);
            send_or_free osbuf (ADD_BAD_AP apIndex mac) SYNC_BEFORE_WMIFLAG q
          }))"

definition wmi_deleteBadAp_cmd :: "byte \<Rightarrow> wmi_priv_t \<Rightarrow> (A_STATUS \<times> wmi_priv_t) option" where
  "wmi_deleteBadAp_cmd apIndex q =
     (if apIndex > WMI_MAX_BAD_AP_INDEX then Some (A_EINVAL, q)
      else (case A_NETBUF_ALLOC q of
          (None, q) \<Rightarrow> Some (A_NO_MEMORY, q)
        | (Some osbuf, q) \<Rightarrow> send_or_free osbuf (DELETE_BAD_AP apIndex) NO_SYNC_WMIFLAG q))"

end
