(* ===== verification/TxFrames.thy ===== *)
theory TxFrames
  imports Frames Streams
begin

text \<open>
  The headers of data frames: \<open>wmi_meta_add\<close>, \<open>wmi_data_hdr_add\<close> and \<open>wmi_implicit_create_pstream\<close> of
  \<open>host/wmi/wmi.c\<close>.

  The header is six bytes: signal strength, \<open>info\<close> (message type in bits 0 and 1, user priority in bits 2 to
  4, more data in bit 5, data type in bits 6 and 7), and two 16-bit fields in host order, which is
  little-endian: \<open>info2\<close> (sequence number, A-MSDU flag, version of the meta data in bits 13 to 15) and
  \<open>info3\<close> (device in bits 0 to 3, end of service period in bit 4).
\<close>

subsection \<open>Fields\<close>

abbreviation (input) WMI_MAX_TX_META_SZ :: nat where "WMI_MAX_TX_META_SZ \<equiv> 12"
abbreviation (input) DATA_MSGTYPE :: byte where "DATA_MSGTYPE \<equiv> 0"
abbreviation (input) WMI_DATA_HDR_FLAGS_MORE :: nat where "WMI_DATA_HDR_FLAGS_MORE \<equiv> 0"
abbreviation (input) WMI_DATA_HDR_FLAGS_EOSP :: nat where "WMI_DATA_HDR_FLAGS_EOSP \<equiv> 1"

definition WMI_DATA_HDR_GET_UP :: "bytes \<Rightarrow> byte" where
  "WMI_DATA_HDR_GET_UP h = drop_bit 2 (h ! 1) AND 7"

definition WMI_DATA_HDR_SET_UP :: "bytes \<Rightarrow> byte \<Rightarrow> bytes" where
  "WMI_DATA_HDR_SET_UP h p = h[1 := (h ! 1 AND NOT (push_bit 2 7)) OR push_bit 2 p]"

definition WMI_DATA_HDR_GET_DATA_TYPE :: "bytes \<Rightarrow> byte" where
  "WMI_DATA_HDR_GET_DATA_TYPE h = drop_bit 6 (h ! 1) AND 3"

definition WMI_DATA_HDR_HAS_MORE_BIT :: "bytes \<Rightarrow> bool" where
  "WMI_DATA_HDR_HAS_MORE_BIT h \<longleftrightarrow> bit (h ! 1) 5"

definition WMI_DATA_HDR_GET_META :: "bytes \<Rightarrow> byte" where
  "WMI_DATA_HDR_GET_META h = drop_bit 5 (h ! 3) AND 7"

definition WMI_DATA_HDR_GET_DEVID :: "bytes \<Rightarrow> byte" where
  "WMI_DATA_HDR_GET_DEVID h = h ! 4 AND 0xF"

definition WMI_DATA_HDR_HAS_EOSP_BIT :: "bytes \<Rightarrow> bool" where
  "WMI_DATA_HDR_HAS_EOSP_BIT h \<longleftrightarrow> bit (h ! 4) 4"

text \<open>The header that \<open>wmi_data_hdr_add\<close> writes.\<close>

definition data_hdr :: "byte \<Rightarrow> 32 word \<Rightarrow> byte \<Rightarrow> byte \<Rightarrow> byte \<Rightarrow> bytes" where
  "data_hdr msgType flags data_type metaVersion devid =
     [0,
      msgType OR push_bit 6 data_type OR (if bit flags WMI_DATA_HDR_FLAGS_MORE then push_bit 5 1 else 0),
      0, push_bit 5 metaVersion,
      (if bit flags WMI_DATA_HDR_FLAGS_EOSP then push_bit 4 1 else 0) OR (devid AND 0xF), 0]"

subsection \<open>Adding the header\<close>

text \<open>The meta data of version 1 clears the packet number and the rate policy; version 2, for checksums in
  the target, copies three bytes.  The result has the version, unchanged by all three.\<close>

definition wmi_meta_add :: "netbuf \<Rightarrow> byte \<Rightarrow> bytes option \<Rightarrow> (A_STATUS \<times> netbuf) option" where
  "wmi_meta_add osbuf pVersion pTxMetaS =
     (if pVersion = 1 then do {
        (st, osbuf) \<leftarrow> a_netbuf_push osbuf WMI_MAX_TX_META_SZ;
        if st \<noteq> A_OK then Some (A_NO_MEMORY, osbuf)
        else do {
          osbuf \<leftarrow> nb_write osbuf 0 [0, 0];
          Some (A_OK, osbuf)
        }
      }
      else if pVersion = 2 then do {
        (st, osbuf) \<leftarrow> a_netbuf_push osbuf WMI_MAX_TX_META_SZ;
        if st \<noteq> A_OK then Some (A_NO_MEMORY, osbuf)
        else do {
          pV2 \<leftarrow> Option.bind pTxMetaS (blk 0 3);
          osbuf \<leftarrow> nb_write osbuf 0 pV2;
          Some (A_OK, osbuf)
        }
      }
      else Some (A_OK, osbuf))"

definition wmi_data_hdr_add :: "byte \<Rightarrow> netbuf \<Rightarrow> byte \<Rightarrow> 32 word \<Rightarrow> byte \<Rightarrow> byte \<Rightarrow> bytes option \<Rightarrow>
    (A_STATUS \<times> netbuf) option" where
  "wmi_data_hdr_add wmi_dev_index osbuf msgType flags data_type metaVersion pTxMetaS = do {
     (st, osbuf) \<leftarrow> wmi_meta_add osbuf metaVersion pTxMetaS;
     if st \<noteq> A_OK then Some (st, osbuf)
     else do {
       (st, osbuf) \<leftarrow> a_netbuf_push osbuf SIZEOF_WMI_DATA_HDR;
       if st \<noteq> A_OK then Some (A_NO_MEMORY, osbuf)
       else do {
         osbuf \<leftarrow> nb_write osbuf 0 (data_hdr msgType flags data_type metaVersion wmi_dev_index);
         Some (A_OK, osbuf)
       }
     }
   }"

subsection \<open>The priority of a frame\<close>

text \<open>The type of service is the second byte of the IP header.\<close>

definition wmi_determine_userPriority :: "bytes \<Rightarrow> nat \<Rightarrow> 32 word \<Rightarrow> byte option" where
  "wmi_determine_userPriority buf pkt layer2Pri = do {
     ip_tos \<leftarrow> at buf (pkt + 1);
     let ipPri = drop_bit 5 ip_tos AND 7;
     Some (if layer2Pri AND 7 > ucast ipPri then ucast layer2Pri AND 7 else ipPri)
   }"

text \<open>\<open>processDot11Hdr\<close> is the driver's module parameter.  With it the MAC header is an 802.11 QoS header,
  rounded up to 28 bytes.\<close>

definition llc_offset :: "bool \<Rightarrow> bytes \<Rightarrow> nat" where
  "llc_offset processDot11Hdr datap = SIZEOF_WMI_DATA_HDR
     + (if WMI_DATA_HDR_GET_META datap \<noteq> 0 then WMI_MAX_TX_META_SZ else 0)
     + (if processDot11Hdr then 28 else SIZEOF_ATH_MAC_HDR)"

definition frame_priority :: "bool \<Rightarrow> bytes \<Rightarrow> 32 word \<Rightarrow> bool \<Rightarrow> byte option" where
  "frame_priority processDot11Hdr datap layer2Priority wmmEnabled =
     (if \<not> wmmEnabled then Some 0
      else do {
        let llc = llc_offset processDot11Hdr datap;
        etherType \<leftarrow> blk (llc + 6) 2 datap;
        if etherType = [0x08, 0x00] then wmi_determine_userPriority datap (llc + SIZEOF_ATH_LLC_SNAP_HDR) layer2Priority
        else Some (ucast layer2Priority AND 7)
      })"

text \<open>The command for an implicit stream is cleared but for four fields.\<close>

definition implicit_pstream :: "byte \<Rightarrow> byte \<Rightarrow> WMI_CREATE_PSTREAM_CMD" where
  "implicit_pstream tc up = \<lparr>minServiceInt = 0, maxServiceInt = 0, inactivityInt = WMI_IMPLICIT_PSTREAM_INACTIVITY_INT,
     suspensionInt = 0, serviceStartTime = 0, minDataRate = 0, meanDataRate = 0, peakDataRate = 0, maxBurstSize = 0,
     delayBound = 0, minPhyRate = 0, sba = 0, mediumTime = 0, nominalMSDU = 0, maxMSDU = 0, ps_trafficClass = tc,
     trafficDirection = 0, rxQueueNum = 0, trafficType = 0, voicePSCapability = 0, ps_tsid = WMI_IMPLICIT_PSTREAM,
     userPriority = up, nominalPHY = 0\<rparr>"

definition wmi_implicit_create_pstream :: "bool \<Rightarrow> netbuf \<Rightarrow> 32 word \<Rightarrow> bool \<Rightarrow> wmi_priv_t \<Rightarrow>
    (byte \<times> netbuf \<times> wmi_priv_t) option" where
  "wmi_implicit_create_pstream processDot11Hdr osbuf layer2Priority wmmEnabled q = do {
     let datap = nb_data osbuf;
     _ \<leftarrow> blk 0 SIZEOF_WMI_DATA_HDR datap;
     up \<leftarrow> frame_priority processDot11Hdr datap layer2Priority wmmEnabled;
     let trafficClass = convert_userPriority_to_trafficClass up;
     let osbuf = osbuf\<lparr>nb_data := WMI_DATA_HDR_SET_UP datap up\<rparr>;
     let streamExists = wmi_fatPipeExists q;
     if \<not> bit streamExists (unat trafficClass) then do {
       (st, q) \<leftarrow> wmi_create_pstream_cmd (implicit_pstream trafficClass up) q;
       Some (trafficClass, osbuf, q)
     }
     else Some (trafficClass, osbuf, q)
   }"

end
