(* ===== verification/StreamProps.thy ===== *)
theory StreamProps
  imports Streams
begin

text \<open>
  The stream state over any sequence of commands and events: which pipes exist, what the driver was
  told, and that the network buffers are all sent or freed.
\<close>

subsection \<open>Buffers\<close>

text \<open>Buffers held are distinct, and numbered below the next one.\<close>

definition bufs_ok :: "wmi_priv_t \<Rightarrow> bool" where
  "bufs_ok q \<longleftrightarrow> distinct (held q) \<and> (\<forall>b\<in>set (held q). b < next_osbuf q)"

text \<open>An operation that only sends: it leaves the streams alone and holds what it held.\<close>

definition only_sends :: "wmi_msg list \<Rightarrow> wmi_priv_t \<Rightarrow> wmi_priv_t \<Rightarrow> bool" where
  "only_sends msgs q q' \<longleftrightarrow> wmi_fatPipeExists q' = wmi_fatPipeExists q \<and>
     wmi_streamExistsForAC q' = wmi_streamExistsForAC q \<and> indicated q' = indicated q \<and> sent q' = sent q @ msgs"

lemma only_sends_refl: "only_sends [] q q"
  by (simp add: only_sends_def)

lemma only_sends_trans: "only_sends m q q' \<Longrightarrow> only_sends n q' q'' \<Longrightarrow> only_sends (m @ n) q q''"
  by (simp add: only_sends_def)

lemma only_sends_trans0: "only_sends m q q' \<Longrightarrow> only_sends [] q' q'' \<Longrightarrow> only_sends m q q''"
  by (simp add: only_sends_def)

lemma alloc_cases:
  assumes "bufs_ok q"
  obtains q' where "A_NETBUF_ALLOC q = (None, q')" "bufs_ok q'" "held q' = held q" "only_sends [] q q'"
  | q' b where "A_NETBUF_ALLOC q = (Some b, q')" "bufs_ok q'" "held q' = b # held q" "b \<notin> set (held q)" "only_sends [] q q'"
proof (cases "alloc_answers q \<noteq> [] \<and> \<not> hd (alloc_answers q)")
  case True
  then show ?thesis using assms by (intro that(1) [of "q\<lparr>alloc_answers := tl (alloc_answers q)\<rparr>"]) (auto simp: A_NETBUF_ALLOC_def bufs_ok_def only_sends_def)
next
  case False
  then show ?thesis using assms
    by (intro that(2) [of "next_osbuf q" "q\<lparr>alloc_answers := tl (alloc_answers q), held := next_osbuf q # held q,
        next_osbuf := Suc (next_osbuf q)\<rparr>"]) (auto simp: A_NETBUF_ALLOC_def bufs_ok_def only_sends_def Let_def)
qed

lemma tx_cases:
  assumes "bufs_ok q" "b \<in> set (held q)"
  obtains q' where "A_WMI_CONTROL_TX b m q = Some (A_OK, q')" "bufs_ok q'" "held q' = remove1 b (held q)" "only_sends [m] q q'"
  | st q' where "A_WMI_CONTROL_TX b m q = Some (st, q')" "st \<noteq> A_OK" "bufs_ok q'" "held q' = held q" "only_sends [] q q'"
proof (cases "tx_answers q \<noteq> [] \<and> A_FAILED (hd (tx_answers q))")
  case True
  then show ?thesis using assms by (intro that(2) [of "hd (tx_answers q)" "q\<lparr>tx_answers := tl (tx_answers q)\<rparr>"]) (auto simp: A_WMI_CONTROL_TX_def bufs_ok_def only_sends_def)
next
  case False
  then show ?thesis using assms
    by (intro that(1) [of "q\<lparr>tx_answers := tl (tx_answers q), sent := sent q @ [m], held := remove1 b (held q)\<rparr>"])
      (auto simp: A_WMI_CONTROL_TX_def bufs_ok_def only_sends_def Let_def dest: notin_set_remove1)
qed

lemma netbuf_free_ok:
  assumes "bufs_ok q" "b \<in> set (held q)"
  shows "\<exists>q'. A_NETBUF_FREE b q = Some q' \<and> bufs_ok q' \<and> held q' = remove1 b (held q) \<and> only_sends [] q q'"
  using assms by (auto simp: A_NETBUF_FREE_def bufs_ok_def only_sends_def dest: notin_set_remove1)

lemma bufs_ok_remove1: "bufs_ok q \<Longrightarrow> remove1 b (held q) = filter (\<lambda>x. x \<noteq> b) (held q)"
  by (simp add: bufs_ok_def distinct_remove1_removeAll removeAll_filter_not_eq) metis

lemma free_all_ok:
  assumes "bufs_ok q" "distinct bs" "set bs \<subseteq> set (held q)"
  shows "\<exists>q'. free_all bs q = Some q' \<and> bufs_ok q' \<and> held q' = filter (\<lambda>x. x \<notin> set bs) (held q) \<and> only_sends [] q q'"
  using assms
proof (induction bs arbitrary: q)
  case Nil
  then show ?case by (auto simp: only_sends_refl)
next
  case (Cons b bs)
  have "b \<in> set (held q)" using Cons.prems(3) by simp
  then obtain q' where q': "A_NETBUF_FREE b q = Some q'" "bufs_ok q'" "held q' = remove1 b (held q)" "only_sends [] q q'"
    using netbuf_free_ok [OF Cons.prems(1)] by blast
  have h: "held q' = filter (\<lambda>x. x \<noteq> b) (held q)" using q'(3) bufs_ok_remove1 [OF Cons.prems(1)] by simp
  have "set bs \<subseteq> set (held q')" using Cons.prems(2,3) h by auto
  then obtain q2 where "free_all bs q' = Some q2" "bufs_ok q2" "held q2 = filter (\<lambda>x. x \<notin> set bs) (held q')" "only_sends [] q' q2"
    using Cons.IH [OF q'(2)] Cons.prems(2) by auto
  then show ?case using q'(1) h only_sends_trans [OF q'(4)] by (auto simp: conj_commute)
qed

subsection \<open>Synchronisation points\<close>

lemma alloc_sync_ok:
  assumes "bufs_ok q"
  shows "\<exists>st bs q'. alloc_sync acs q = (st, bs, q') \<and> bufs_ok q' \<and> held q' = rev (map snd bs) @ held q \<and> distinct (map snd bs) \<and> set (map snd bs) \<inter> set (held q) = {} \<and>
    only_sends [] q q' \<and> (st = A_OK \<longrightarrow> map fst bs = acs)"
  using assms
proof (induction acs arbitrary: q)
  case Nil
  then show ?case by (auto simp: only_sends_refl)
next
  case (Cons ac acs)
  from Cons.prems show ?case
  proof (cases rule: alloc_cases)
    case (1 q')
    then show ?thesis by simp
  next
    case (2 q' b)
    obtain st bs q2 where ih: "alloc_sync acs q' = (st, bs, q2)" "bufs_ok q2" "held q2 = rev (map snd bs) @ held q'"
      "distinct (map snd bs)" "set (map snd bs) \<inter> set (held q') = {}" "only_sends [] q' q2" "st = A_OK \<longrightarrow> map fst bs = acs"
      using Cons.IH [OF 2(2)] by blast
    have "set (map snd ((ac, b) # bs)) \<inter> set (held q) = {}" "b \<notin> set (map snd bs)" using ih(5) 2(3,4) by auto
    then show ?thesis using 2 ih only_sends_trans [OF 2(5) ih(6)] by (simp del: set_map)
  qed
qed

lemma send_sync_ok:
  assumes "bufs_ok q" "distinct (map snd bs)" "set (map snd bs) \<subseteq> set (held q)"
  shows "\<exists>st left msgs q'. send_sync bs q = Some (st, left, q') \<and> bufs_ok q' \<and>
    set left \<subseteq> set bs \<and> distinct (map snd left) \<and>
    held q' = filter (\<lambda>x. x \<in> set (map snd bs) \<longrightarrow> x \<in> set (map snd left)) (held q) \<and>
    only_sends msgs q q' \<and> set msgs \<subseteq> set (map (DATA_SYNC \<circ> fst) bs) \<and>
    (st = A_OK \<longrightarrow> left = [] \<and> msgs = map (DATA_SYNC \<circ> fst) bs)"
  using assms
proof (induction bs arbitrary: q)
  case Nil
  then show ?case by (auto intro!: exI [of _ "[]"] simp: only_sends_refl)
next
  case (Cons p bs)
  obtain ac b where p: "p = (ac, b)" by (cases p)
  have "b \<in> set (held q)" using Cons.prems(3) p by simp
  with Cons.prems(1) show ?case
  proof (cases rule: tx_cases [where m = "DATA_SYNC ac"])
    case (1 q')
    have h: "held q' = filter (\<lambda>x. x \<noteq> b) (held q)" using 1(3) bufs_ok_remove1 [OF Cons.prems(1)] by simp
    have "set (map snd bs) \<subseteq> set (held q')" using Cons.prems(2,3) h p by auto
    then obtain st left msgs q2 where ih: "send_sync bs q' = Some (st, left, q2)" "bufs_ok q2"
      "set left \<subseteq> set bs" "distinct (map snd left)"
      "held q2 = filter (\<lambda>x. x \<in> set (map snd bs) \<longrightarrow> x \<in> set (map snd left)) (held q')"
      "only_sends msgs q' q2" "set msgs \<subseteq> set (map (DATA_SYNC \<circ> fst) bs)"
      "st = A_OK \<longrightarrow> left = [] \<and> msgs = map (DATA_SYNC \<circ> fst) bs"
      using Cons.IH [OF 1(2)] Cons.prems(2) by auto
    have "b \<notin> snd ` set left" using ih(3) Cons.prems(2) p by auto
    then have "held q2 = filter (\<lambda>x. x \<in> set (map snd (p # bs)) \<longrightarrow> x \<in> set (map snd left)) (held q)"
      unfolding ih(5) h by (auto simp: p intro!: filter_cong)
    then show ?thesis using ih(1,2,3,4,7,8) 1(1) only_sends_trans [OF 1(4) ih(6)] p
      by (auto simp: wmi_dataSync_send_def intro!: exI [of _ "DATA_SYNC ac # msgs"])
  next
    case (2 st q')
    then show ?thesis using Cons.prems(2) p
      by (auto simp: wmi_dataSync_send_def intro!: exI [of _ "[]"])
  qed
qed

text \<open>Everything a synchronisation point sends when it succeeds.\<close>

definition sync_msgs :: "byte \<Rightarrow> wmi_msg list" where
  "sync_msgs fat = SYNCHRONIZE fat # map DATA_SYNC (pipes fat)"

lemma filter_gone:
  "set xs \<inter> set ys = {} \<Longrightarrow> set zs = set xs \<Longrightarrow> filter (\<lambda>x. x \<notin> set zs) (xs @ ys) = ys"
  by (auto simp: filter_empty_conv filter_id_conv)

lemma sync_send_ok:
  assumes "bufs_ok q" "held q = rev (map snd bs) @ cmd # h" "cmd \<notin> set h" "distinct (map snd bs)"
    "set (map snd bs) \<inter> set (cmd # h) = {}"
  shows "\<exists>st left msgs q'. sync_send cmd fat bs q = Some (st, left, q') \<and>
      bufs_ok q' \<and> distinct left \<and> set left \<subseteq> set (held q') \<and> filter (\<lambda>x. x \<notin> set left) (held q') = h \<and>
      only_sends msgs q q' \<and> set msgs \<subseteq> set (SYNCHRONIZE fat # map (DATA_SYNC \<circ> fst) bs) \<and>
      (st = A_OK \<longrightarrow> msgs = SYNCHRONIZE fat # map (DATA_SYNC \<circ> fst) bs)"
proof -
  have "cmd \<in> set (held q)" by (simp add: assms(2))
  with assms(1) show ?thesis
  proof (cases rule: tx_cases [where m = "SYNCHRONIZE fat"])
    case (1 q1)
    have h1: "held q1 = rev (map snd bs) @ h"
      using 1(3) assms(2,5) by (simp add: remove1_append)
    obtain st left msgs q2 where ss: "send_sync bs q1 = Some (st, left, q2)" "bufs_ok q2"
      "set left \<subseteq> set bs" "distinct (map snd left)"
      "held q2 = filter (\<lambda>x. x \<in> set (map snd bs) \<longrightarrow> x \<in> set (map snd left)) (held q1)"
      "only_sends msgs q1 q2" "set msgs \<subseteq> set (map (DATA_SYNC \<circ> fst) bs)"
      "st = A_OK \<longrightarrow> left = [] \<and> msgs = map (DATA_SYNC \<circ> fst) bs"
      using send_sync_ok [OF 1(2) assms(4)] h1 by auto
    have "filter (\<lambda>x. x \<notin> set (map snd left)) (held q2) = filter (\<lambda>x. x \<notin> set (map snd bs)) (held q1)"
      unfolding ss(5) using ss(3) by (auto intro!: filter_cong)
    also have "\<dots> = h" unfolding h1 using assms(5) by (intro filter_gone) auto
    finally have f: "filter (\<lambda>x. x \<notin> set (map snd left)) (held q2) = h" .
    have "set (map snd left) \<subseteq> set (held q2)" using ss(3,5) h1 by auto
    then show ?thesis using 1(1) ss f only_sends_trans [OF 1(4) ss(6)]
      by (auto simp: sync_send_def cmd_send_nosync_def image_comp intro!: exI [of _ "SYNCHRONIZE fat # msgs"])
  next
    case (2 st q1)
    have "filter (\<lambda>x. x \<notin> set (cmd # map snd bs)) ((rev (map snd bs) @ [cmd]) @ h) = h"
      using assms(3,5) by (intro filter_gone) auto
    then have "filter (\<lambda>x. x \<notin> set (cmd # map snd bs)) (held q1) = h" using 2(4) assms(2) by simp
    then show ?thesis using 2 assms by (auto simp: sync_send_def cmd_send_nosync_def intro!: exI [of _ "[]"])
  qed
qed

lemma sync_point_ok:
  assumes "bufs_ok q"
  shows "\<exists>st msgs q'. wmi_sync_point q = Some (st, q') \<and> bufs_ok q' \<and> held q' = held q \<and> only_sends msgs q q' \<and>
    set msgs \<subseteq> set (sync_msgs (wmi_fatPipeExists q)) \<and> (st = A_OK \<longrightarrow> msgs = sync_msgs (wmi_fatPipeExists q))"
  using assms
proof (cases rule: alloc_cases)
  case (1 q1)
  then show ?thesis by (auto simp: wmi_sync_point_def)
next
  case (2 q1 cmd)
  let ?fat = "wmi_fatPipeExists q"
  obtain st bs q2 where al: "alloc_sync (pipes ?fat) q1 = (st, bs, q2)" "bufs_ok q2" "held q2 = rev (map snd bs) @ held q1"
    "distinct (map snd bs)" "set (map snd bs) \<inter> set (held q1) = {}" "only_sends [] q1 q2"
    "st = A_OK \<longrightarrow> map fst bs = pipes ?fat"
    using alloc_sync_ok [OF 2(2)] by blast
  have h: "held q2 = rev (map snd bs) @ cmd # held q" "set (map snd bs) \<inter> set (cmd # held q) = {}"
    using al(3,5) 2(3) by auto
  have o: "only_sends [] q q2" using only_sends_trans [OF 2(5) al(6)] by simp
  show ?thesis
  proof (cases "st = A_OK")
    case True
    obtain st' left msgs q3 where r: "sync_send cmd ?fat bs q2 = Some (st', left, q3)"
      "bufs_ok q3" "distinct left" "set left \<subseteq> set (held q3)" "filter (\<lambda>x. x \<notin> set left) (held q3) = held q"
      "only_sends msgs q2 q3" "set msgs \<subseteq> set (SYNCHRONIZE ?fat # map (DATA_SYNC \<circ> fst) bs)"
      "st' = A_OK \<longrightarrow> msgs = SYNCHRONIZE ?fat # map (DATA_SYNC \<circ> fst) bs"
      using sync_send_ok [OF al(2) h(1) 2(4) al(4) h(2)] by blast
    obtain q4 where f: "free_all left q3 = Some q4" "bufs_ok q4" "held q4 = held q" "only_sends [] q3 q4"
      using free_all_ok [OF r(2,3,4)] r(5) by auto
    have "map (DATA_SYNC \<circ> fst) bs = map DATA_SYNC (pipes ?fat)"
      using al(7) True by (simp flip: map_map)
    then show ?thesis
      using 2(1) al(1) True r(1,7,8) f only_sends_trans [OF o only_sends_trans [OF r(6) f(4)]]
      by (simp add: wmi_sync_point_def sync_msgs_def del: set_map) metis
  next
    case False
    have "filter (\<lambda>x. x \<notin> set (cmd # map snd bs)) ((rev (map snd bs) @ [cmd]) @ held q) = held q"
      using h(2) 2(4) by (intro filter_gone) auto
    then have g: "filter (\<lambda>x. x \<notin> set (cmd # map snd bs)) (held q2) = held q" using h(1) by simp
    have d: "distinct (cmd # map snd bs)" "set (cmd # map snd bs) \<subseteq> set (held q2)" using h al(4) by auto
    obtain q4 where f: "free_all (cmd # map snd bs) q2 = Some q4" "bufs_ok q4" "held q4 = held q" "only_sends [] q2 q4"
      using free_all_ok [OF al(2) d] g by metis
    show ?thesis
      using 2(1) al(1) False f only_sends_trans [OF o f(4)]
      by (auto simp: wmi_sync_point_def Let_def simp del: free_all.simps intro!: exI [of _ "[]"])
  qed
qed

lemma cmd_send_ok:
  assumes "bufs_ok q" "held q = b # h" "flag = NO_SYNC_WMIFLAG \<or> flag = SYNC_BEFORE_WMIFLAG"
  shows "\<exists>st msgs q'. wmi_cmd_send b cmd flag q = Some (st, q') \<and> bufs_ok q' \<and>
    held q' = (if st = A_OK then h else b # h) \<and> only_sends msgs q q' \<and>
    (if st = A_OK then msgs = (if flag = SYNC_BEFORE_WMIFLAG then sync_msgs (wmi_fatPipeExists q) else []) @ [cmd]
     else flag = SYNC_BEFORE_WMIFLAG \<and> set msgs \<subseteq> set (sync_msgs (wmi_fatPipeExists q)) \<or> msgs = [])"
proof -
  have tx: "\<exists>st q'. A_WMI_CONTROL_TX b cmd r = Some (st, q') \<and> bufs_ok q' \<and>
      (if st = A_OK then held q' = h \<and> only_sends (msgs @ [cmd]) q q' else held q' = b # h \<and> only_sends msgs q q')"
    if "bufs_ok r" "held r = b # h" "only_sends msgs q r" for r msgs
  proof -
    have "b \<in> set (held r)" by (simp add: that(2))
    with that(1) show ?thesis
      by (cases rule: tx_cases [where m = cmd])
        (use that(2) only_sends_trans [OF that(3)] only_sends_trans0 [OF that(3)] in auto)
  qed
  show ?thesis
  proof (cases "flag = SYNC_BEFORE_WMIFLAG")
    case False
    obtain st q1 where "A_WMI_CONTROL_TX b cmd q = Some (st, q1)" "bufs_ok q1"
      "if st = A_OK then held q1 = h \<and> only_sends ([] @ [cmd]) q q1 else held q1 = b # h \<and> only_sends [] q q1"
      using tx [OF assms(1,2) only_sends_refl] by blast
    then show ?thesis using False assms(3) by (cases "st = A_OK") (auto simp: wmi_cmd_send_def)
  next
    case True
    obtain st msgs q1 where s: "wmi_sync_point q = Some (st, q1)" "bufs_ok q1" "held q1 = held q" "only_sends msgs q q1"
      "set msgs \<subseteq> set (sync_msgs (wmi_fatPipeExists q))" "st = A_OK \<longrightarrow> msgs = sync_msgs (wmi_fatPipeExists q)"
      using sync_point_ok [OF assms(1)] by blast
    obtain st' q2 where t: "A_WMI_CONTROL_TX b cmd q1 = Some (st', q2)" "bufs_ok q2"
      "if st' = A_OK then held q2 = h \<and> only_sends (msgs @ [cmd]) q q2 else held q2 = b # h \<and> only_sends msgs q q2"
      using tx [OF s(2) _ s(4)] s(3) assms(2) by auto
    show ?thesis
      using True s t assms(2) by (cases "st = A_OK"; cases "st' = A_OK") (auto simp: wmi_cmd_send_def)
  qed
qed

lemma send_or_free_ok:
  assumes "bufs_ok q" "held q = b # h" "flag = NO_SYNC_WMIFLAG \<or> flag = SYNC_BEFORE_WMIFLAG"
  shows "\<exists>st msgs q'. send_or_free b cmd flag q = Some (st, q') \<and> bufs_ok q' \<and> held q' = h \<and> only_sends msgs q q' \<and>
    (if st = A_OK then msgs = (if flag = SYNC_BEFORE_WMIFLAG then sync_msgs (wmi_fatPipeExists q) else []) @ [cmd]
     else flag = SYNC_BEFORE_WMIFLAG \<and> set msgs \<subseteq> set (sync_msgs (wmi_fatPipeExists q)) \<or> msgs = [])"
proof -
  obtain st msgs q1 where c: "wmi_cmd_send b cmd flag q = Some (st, q1)" "bufs_ok q1"
    "held q1 = (if st = A_OK then h else b # h)" "only_sends msgs q q1"
    "if st = A_OK then msgs = (if flag = SYNC_BEFORE_WMIFLAG then sync_msgs (wmi_fatPipeExists q) else []) @ [cmd]
     else flag = SYNC_BEFORE_WMIFLAG \<and> set msgs \<subseteq> set (sync_msgs (wmi_fatPipeExists q)) \<or> msgs = []"
    using cmd_send_ok [OF assms] by blast
  show ?thesis
  proof (cases "st = A_OK")
    case True
    then show ?thesis using c by (auto simp: send_or_free_def)
  next
    case False
    then obtain q2 where "A_NETBUF_FREE b q1 = Some q2" "bufs_ok q2" "held q2 = h" "only_sends [] q1 q2"
      using netbuf_free_ok [OF c(2), of b] c(3) by auto
    then show ?thesis using False c only_sends_trans0 [OF c(4)] by (auto simp: send_or_free_def)
  qed
qed

text \<open>Whatever the synchronisation, a command that returns holds its buffer no more.\<close>

lemma send_or_free_some:
  assumes "bufs_ok q" "held q = b # h" "send_or_free b cmd flag q = Some (st, q')"
  shows "bufs_ok q' \<and> held q' = h \<and> (\<exists>msgs. only_sends msgs q q')"
proof (cases "flag = NO_SYNC_WMIFLAG \<or> flag = SYNC_BEFORE_WMIFLAG")
  case True
  then obtain st' msgs q'' where "send_or_free b cmd flag q = Some (st', q'')" "bufs_ok q''" "held q'' = h"
    "only_sends msgs q q''"
    using send_or_free_ok [OF assms(1,2) True, of cmd] by blast
  then show ?thesis using assms(3) by auto
next
  case False
  have b: "b \<notin> set h" using assms(1,2) by (simp add: bufs_ok_def)
  define pre where "pre = (if flag = SYNC_BOTH_WMIFLAG then wmi_sync_point q else Some (A_OK, q))"
  obtain st1 m1 q1 where p: "pre = Some (st1, q1)" "bufs_ok q1" "held q1 = b # h" "only_sends m1 q q1"
  proof (cases "flag = SYNC_BOTH_WMIFLAG")
    case True
    then show ?thesis using sync_point_ok [OF assms(1)] assms(2) that by (auto simp: pre_def)
  next
    case False
    then show ?thesis using that [OF _ assms(1,2) only_sends_refl] by (simp add: pre_def)
  qed
  have mem: "b \<in> set (held q1)" using p(3) by simp
  have fr: "\<exists>q3. A_NETBUF_FREE b q2 = Some q3 \<and> bufs_ok q3 \<and> held q3 = h \<and> only_sends m1 q q3"
    if "bufs_ok q2" "held q2 = b # h" "only_sends m1 q q2" for q2
    using netbuf_free_ok [OF that(1), of b] that(2) only_sends_trans0 [OF that(3)] by auto
  show ?thesis
  proof (cases "flag = END_WMIFLAG \<or> st1 \<noteq> A_OK")
    case True
    then show ?thesis using False p fr [OF p(2,3,4)] fr [OF assms(1,2)] assms(3)
      netbuf_free_ok [OF assms(1), of b] assms(2)
      by (cases "flag = END_WMIFLAG") (auto simp: send_or_free_def wmi_cmd_send_def pre_def split: if_splits)
  next
    case ok: False
    from p(2) mem show ?thesis
    proof (cases rule: tx_cases [where m = cmd])
      case (1 q2)
      obtain st3 m3 q3 where t: "wmi_sync_point q2 = Some (st3, q3)" "bufs_ok q3" "held q3 = held q2" "only_sends m3 q2 q3"
        using sync_point_ok [OF 1(2)] by blast
      have "b \<notin> set (held q3)" using t(3) 1(3) p(3) b by simp
      then have "st = A_OK \<and> q' = q3"
        using assms(3) False ok 1 p t unfolding send_or_free_def wmi_cmd_send_def pre_def
        by (cases flag) (auto simp: A_NETBUF_FREE_def split: if_splits)
      then show ?thesis using t 1 p(3) only_sends_trans [OF p(4) only_sends_trans [OF 1(4) t(4)]] by auto
    next
      case (2 st2 q2)
      then show ?thesis
        using assms(3) False ok p fr [OF 2(3) _ only_sends_trans0 [OF p(4) 2(5)]] 
        by (cases flag) (auto simp: send_or_free_def wmi_cmd_send_def pre_def split: if_splits)
    qed
  qed
qed

subsection \<open>The invariant\<close>

definition active_of :: "(nat \<times> bool) list \<Rightarrow> nat \<Rightarrow> bool" where
  "active_of ind = fold (\<lambda>(ac, b) m. m(ac := b)) ind (\<lambda>_. False)"

lemma active_of_snoc: "active_of (ind @ [(ac, b)]) = (active_of ind)(ac := b)"
  by (simp add: active_of_def)

text \<open>Only the four categories have pipes, a stream lives in a pipe, and the driver knows the pipes.\<close>

definition streams_ok :: "wmi_priv_t \<Rightarrow> bool" where
  "streams_ok q \<longleftrightarrow> length (wmi_streamExistsForAC q) = WMM_NUM_AC \<and>
     (\<forall>ac. bit (wmi_fatPipeExists q) ac \<longrightarrow> ac < WMM_NUM_AC) \<and>
     (\<forall>ac<WMM_NUM_AC. wmi_streamExistsForAC q ! ac \<noteq> 0 \<longrightarrow> bit (wmi_fatPipeExists q) ac) \<and>
     active_of (indicated q) = bit (wmi_fatPipeExists q)"

lemma streams_ok_only_sends: "only_sends m q q' \<Longrightarrow> streams_ok q' = streams_ok q"
  by (simp add: only_sends_def streams_ok_def)

text \<open>The simplifier writes \<open>push_bit n 1\<close> as a power of two.\<close>

lemma bit_set_byte: "ac < 8 \<Longrightarrow> bit (m OR 2 ^ ac :: byte) i \<longleftrightarrow> i = ac \<or> bit m i"
  by (auto simp: bit_simps)

lemma bit_clear_byte: "bit (m AND NOT (2 ^ ac) :: byte) i \<longleftrightarrow> i \<noteq> ac \<and> bit m i"
  by (auto simp: bit_simps dest: bit_imp_le_length)

lemma traffic_class_less: "unat (convert_userPriority_to_trafficClass up) < WMM_NUM_AC"
proof -
  have "unat (up AND 7) < 8"
    using word_and_le1 [of up 7] by (simp add: word_le_nat_alt le_less_trans)
  then have "unat (up AND 7) < length up_to_ac" by (simp add: up_to_ac_def)
  moreover have "list_all (\<lambda>c. unat c < WMM_NUM_AC) up_to_ac" by (simp add: up_to_ac_def)
  ultimately show ?thesis unfolding convert_userPriority_to_trafficClass_def list_all_length by blast
qed

lemma put_streams: "length (wmi_streamExistsForAC q) = WMM_NUM_AC \<Longrightarrow> ac < WMM_NUM_AC \<Longrightarrow>
   set_streams ac v q = Some (q\<lparr>wmi_streamExistsForAC := (wmi_streamExistsForAC q)[ac := v]\<rparr>)"
  by (simp add: set_streams_def)

text \<open>A new pipe is set, and the driver told, in one.\<close>

definition open_pipe :: "nat \<Rightarrow> wmi_priv_t \<Rightarrow> wmi_priv_t" where
  "open_pipe ac q = (if bit (wmi_fatPipeExists q) ac then q else A_WMI_STREAM_TX ac True (set_pipe ac q))"

definition close_pipe :: "nat \<Rightarrow> wmi_priv_t \<Rightarrow> wmi_priv_t" where
  "close_pipe ac q = A_WMI_STREAM_TX ac False (clear_pipe ac q)"

lemma clear_pipe_tx: "clear_pipe ac (A_WMI_STREAM_TX ac False q) = close_pipe ac q"
  by (cases q) (simp add: close_pipe_def clear_pipe_def A_WMI_STREAM_TX_def)

lemma set_pipe_again: "bit (wmi_fatPipeExists q) ac \<Longrightarrow> set_pipe ac q = q"
proof -
  assume b: "bit (wmi_fatPipeExists q) ac"
  have "wmi_fatPipeExists q OR push_bit ac 1 = wmi_fatPipeExists q"
    using b by (intro bit_eqI) (auto simp: bit_simps)
  then show ?thesis by (simp add: set_pipe_def)
qed

lemma open_pipe_ok:
  assumes "streams_ok q" "ac < WMM_NUM_AC"
  shows "streams_ok (open_pipe ac q)" "bit (wmi_fatPipeExists (open_pipe ac q)) ac"
    "wmi_streamExistsForAC (open_pipe ac q) = wmi_streamExistsForAC q"
  using assms
  by (auto simp: open_pipe_def set_pipe_def A_WMI_STREAM_TX_def streams_ok_def bit_set_byte active_of_snoc fun_eq_iff)

lemma close_pipe_ok:
  assumes "length (wmi_streamExistsForAC q) = WMM_NUM_AC" "\<forall>i. bit (wmi_fatPipeExists q) i \<longrightarrow> i < WMM_NUM_AC"
    "\<forall>i<WMM_NUM_AC. wmi_streamExistsForAC q ! i \<noteq> 0 \<longrightarrow> i \<noteq> ac \<and> bit (wmi_fatPipeExists q) i"
    "\<forall>i. i \<noteq> ac \<longrightarrow> active_of (indicated q) i = bit (wmi_fatPipeExists q) i" "ac < WMM_NUM_AC"
  shows "streams_ok (close_pipe ac q)"
  using assms
  by (auto simp: close_pipe_def clear_pipe_def A_WMI_STREAM_TX_def streams_ok_def bit_clear_byte active_of_snoc fun_eq_iff)

lemma pipe_bufs [simp]:
  "bufs_ok (open_pipe ac q) = bufs_ok q" "held (open_pipe ac q) = held q" "sent (open_pipe ac q) = sent q"
  "bufs_ok (close_pipe ac q) = bufs_ok q" "held (close_pipe ac q) = held q" "sent (close_pipe ac q) = sent q"
  "bufs_ok (q\<lparr>wmi_streamExistsForAC := xs\<rparr>) = bufs_ok q"
  by (simp_all add: open_pipe_def close_pipe_def set_pipe_def clear_pipe_def A_WMI_STREAM_TX_def bufs_ok_def)

text \<open>The invariant of the stream state between two operations.\<close>

definition wmi_inv :: "wmi_priv_t \<Rightarrow> bool" where
  "wmi_inv q \<longleftrightarrow> streams_ok q \<and> bufs_ok q \<and> held q = []"

lemma wmi_inv_cases:
  assumes "wmi_inv q"
  obtains q' where "A_NETBUF_ALLOC q = (None, q')" "wmi_inv q'" "only_sends [] q q'"
  | q' b where "A_NETBUF_ALLOC q = (Some b, q')" "streams_ok q'" "bufs_ok q'" "held q' = [b]" "only_sends [] q q'"
proof -
  have "bufs_ok q" using assms by (simp add: wmi_inv_def)
  then show ?thesis
    by (cases rule: alloc_cases) (use assms in \<open>auto simp: wmi_inv_def streams_ok_only_sends intro: that\<close>)
qed

lemma free_single:
  assumes "streams_ok q" "bufs_ok q" "held q = [b]"
  shows "\<exists>q'. A_NETBUF_FREE b q = Some q' \<and> wmi_inv q' \<and> only_sends [] q q'"
  using netbuf_free_ok [OF assms(2), of b] assms(1,3) by (auto simp: wmi_inv_def streams_ok_only_sends)

lemma send_single:
  assumes "streams_ok q" "bufs_ok q" "held q = [b]" "flag = NO_SYNC_WMIFLAG \<or> flag = SYNC_BEFORE_WMIFLAG"
  shows "\<exists>st msgs q'. send_or_free b cmd flag q = Some (st, q') \<and> wmi_inv q' \<and> only_sends msgs q q' \<and>
    (if st = A_OK then msgs = (if flag = SYNC_BEFORE_WMIFLAG then sync_msgs (wmi_fatPipeExists q) else []) @ [cmd]
     else flag = SYNC_BEFORE_WMIFLAG \<and> set msgs \<subseteq> set (sync_msgs (wmi_fatPipeExists q)) \<or> msgs = [])"
proof -
  obtain st msgs q' where s: "send_or_free b cmd flag q = Some (st, q')" "bufs_ok q'" "held q' = []" "only_sends msgs q q'"
    "if st = A_OK then msgs = (if flag = SYNC_BEFORE_WMIFLAG then sync_msgs (wmi_fatPipeExists q) else []) @ [cmd]
     else flag = SYNC_BEFORE_WMIFLAG \<and> set msgs \<subseteq> set (sync_msgs (wmi_fatPipeExists q)) \<or> msgs = []"
    using send_or_free_ok [OF assms(2,3,4)] by blast
  then have "wmi_inv q'" using assms(1) by (simp add: wmi_inv_def streams_ok_only_sends)
  then show ?thesis using s by blast
qed

subsection \<open>Creating\<close>

lemma create_ok:
  assumes "wmi_inv q"
  shows "\<exists>st q'. wmi_create_pstream_cmd p q = Some (st, q') \<and> wmi_inv q'"
proof (cases "valid_pstream p")
  case False
  then show ?thesis using assms by (simp add: wmi_create_pstream_cmd_def)
next
  case v: True
  let ?p = "phy_rate p" let ?ac = "unat (ps_trafficClass ?p)"
  have ac: "?ac < WMM_NUM_AC"
    using v traffic_class_less [of "userPriority p"] by (simp add: valid_pstream_def phy_rate_def Let_def)
  from assms show ?thesis
  proof (cases rule: wmi_inv_cases)
    case (1 q1)
    then show ?thesis using v by (simp add: wmi_create_pstream_cmd_def Let_def)
  next
    case (2 q1 b)
    let ?ex = "bit (wmi_fatPipeExists q1) ?ac"
    have len: "length (wmi_streamExistsForAC q1) = WMM_NUM_AC" using 2(2) by (simp add: streams_ok_def)
    consider "inactivityInt ?p = 0" | "inactivityInt ?p \<noteq> 0" "ps_tsid ?p = WMI_IMPLICIT_PSTREAM" "?ex"
      | "inactivityInt ?p \<noteq> 0" "ps_tsid ?p = WMI_IMPLICIT_PSTREAM" "\<not> ?ex"
      | "inactivityInt ?p \<noteq> 0" "ps_tsid ?p \<noteq> WMI_IMPLICIT_PSTREAM" by blast
    then show ?thesis
    proof cases
      case 3
      have "streams_ok (open_pipe ?ac q1)" by (rule open_pipe_ok [OF 2(2) ac])
      then obtain st q' where "send_or_free b (CREATE_PSTREAM ?p) NO_SYNC_WMIFLAG (open_pipe ?ac q1) = Some (st, q')" "wmi_inv q'"
        using send_single [of "open_pipe ?ac q1" b NO_SYNC_WMIFLAG "CREATE_PSTREAM ?p"] 2 by auto
      then show ?thesis using 3 2 v by (simp add: wmi_create_pstream_cmd_def Let_def open_pipe_def)
    next
      case 4
      let ?v = "wmi_streamExistsForAC q1 ! ?ac OR push_bit (unat (ps_tsid ?p)) 1"
      let ?q2 = "(open_pipe ?ac q1)\<lparr>wmi_streamExistsForAC := (wmi_streamExistsForAC q1)[?ac := ?v]\<rparr>"
      have o: "streams_ok (open_pipe ?ac q1)" "bit (wmi_fatPipeExists (open_pipe ?ac q1)) ?ac"
        by (rule open_pipe_ok [OF 2(2) ac])+
      have "streams_ok ?q2" using o open_pipe_ok(3) [OF 2(2) ac] ac
        by (auto simp: streams_ok_def nth_list_update)
      then obtain st q' where "send_or_free b (CREATE_PSTREAM ?p) NO_SYNC_WMIFLAG ?q2 = Some (st, q')" "wmi_inv q'"
        using send_single [of ?q2 b NO_SYNC_WMIFLAG "CREATE_PSTREAM ?p"] 2 by auto
      moreover have "?q2 = (let r = set_pipe ?ac (q1\<lparr>wmi_streamExistsForAC := (wmi_streamExistsForAC q1)[?ac := ?v]\<rparr>) in
          if \<not> ?ex then A_WMI_STREAM_TX ?ac True r else r)"
        using set_pipe_again [of q1 ?ac]
        by (cases q1) (simp add: open_pipe_def set_pipe_def A_WMI_STREAM_TX_def)
      ultimately show ?thesis using 4 2 v ac len
        by (simp add: wmi_create_pstream_cmd_def Let_def streams_of_def put_streams)
    qed (use 2 v free_single [OF 2(2,3,4)] in \<open>auto simp: wmi_create_pstream_cmd_def Let_def\<close>)
  qed
qed

subsection \<open>Deleting\<close>

text \<open>The streams of a category, and the state after one of them is deleted.\<close>

definition has_stream :: "wmi_priv_t \<Rightarrow> nat \<Rightarrow> nat \<Rightarrow> bool" where
  "has_stream q ac t \<longleftrightarrow> ac < WMM_NUM_AC \<and> bit (wmi_streamExistsForAC q ! ac) t"

definition drop_stream :: "nat \<Rightarrow> nat \<Rightarrow> wmi_priv_t \<Rightarrow> wmi_priv_t" where
  "drop_stream ac t q = (let tsids = wmi_streamExistsForAC q ! ac AND NOT (push_bit t 1);
     r = q\<lparr>wmi_streamExistsForAC := (wmi_streamExistsForAC q)[ac := tsids]\<rparr> in
     if tsids = 0 then close_pipe ac r else r)"

lemma ex_bit_iff: "(\<exists>u. bit w u) \<longleftrightarrow> w \<noteq> (0 :: 'a :: len word)"
  using bit_eqI [of w 0] by auto

lemma drop_stream_ok:
  assumes "streams_ok q" "ac < WMM_NUM_AC" "has_stream q ac t"
  shows "streams_ok (drop_stream ac t q)" 
    "\<And>i u. i < WMM_NUM_AC \<Longrightarrow> has_stream (drop_stream ac t q) i u \<longleftrightarrow> has_stream q i u \<and> (i, u) \<noteq> (ac, t)"
    "\<And>i. bit (wmi_fatPipeExists (drop_stream ac t q)) i \<longleftrightarrow>
       bit (wmi_fatPipeExists q) i \<and> (i = ac \<longrightarrow> (\<exists>u. has_stream (drop_stream ac t q) ac u))"
proof -
  let ?tsids = "wmi_streamExistsForAC q ! ac AND NOT (push_bit t 1)"
  let ?r = "q\<lparr>wmi_streamExistsForAC := (wmi_streamExistsForAC q)[ac := ?tsids]\<rparr>"
  have len: "length (wmi_streamExistsForAC q) = WMM_NUM_AC" using assms(1) by (simp add: streams_ok_def)
  have ne: "wmi_streamExistsForAC q ! ac \<noteq> 0" using assms(3) by (auto simp: has_stream_def)
  have r: "wmi_streamExistsForAC (drop_stream ac t q) = (wmi_streamExistsForAC q)[ac := ?tsids]"
    by (simp add: drop_stream_def close_pipe_def clear_pipe_def A_WMI_STREAM_TX_def Let_def)
  show "streams_ok (drop_stream ac t q)"
  proof (cases "?tsids = 0")
    case True
    have "streams_ok (close_pipe ac ?r)"
      using assms(1,2) len True by (intro close_pipe_ok) (auto simp: streams_ok_def nth_list_update)
    then show ?thesis using True by (simp add: drop_stream_def)
  next
    case False
    then show ?thesis using assms(1,2) ne by (auto simp: drop_stream_def streams_ok_def nth_list_update)
  qed
  have hs: "has_stream (drop_stream ac t q) i u \<longleftrightarrow> has_stream q i u \<and> (i, u) \<noteq> (ac, t)" if "i < WMM_NUM_AC" for i u
    using that len assms(2) by (auto simp: has_stream_def r nth_list_update bit_simps dest: bit_imp_le_length)
  then show "\<And>i u. i < WMM_NUM_AC \<Longrightarrow> has_stream (drop_stream ac t q) i u \<longleftrightarrow> has_stream q i u \<and> (i, u) \<noteq> (ac, t)" .
  have "(\<exists>u. has_stream (drop_stream ac t q) ac u) \<longleftrightarrow> ?tsids \<noteq> 0"
    using assms(2) len ex_bit_iff [of ?tsids] by (simp add: has_stream_def r)
  then show "bit (wmi_fatPipeExists (drop_stream ac t q)) i \<longleftrightarrow>
       bit (wmi_fatPipeExists q) i \<and> (i = ac \<longrightarrow> (\<exists>u. has_stream (drop_stream ac t q) ac u))" for i
    by (auto simp: drop_stream_def close_pipe_def clear_pipe_def A_WMI_STREAM_TX_def Let_def bit_clear_byte)
qed

lemma drop_stream_held [simp]: "held (drop_stream ac t q) = held q" "bufs_ok (drop_stream ac t q) = bufs_ok q"
    "sent (drop_stream ac t q) = sent q"
  by (simp_all add: drop_stream_def Let_def)

text \<open>Every outcome of a deletion.\<close>

lemma delete_ok:
  assumes "wmi_inv q"
  shows "\<exists>st q'. wmi_delete_pstream_cmd tc tsid q = Some (st, q') \<and> wmi_inv q' \<and>
    (if tc \<le> 3 \<and> has_stream q (unat tc) (unat tsid) \<and> (alloc_answers q = [] \<or> hd (alloc_answers q)) then
       \<exists>r msgs. only_sends [] q r \<and> only_sends msgs (drop_stream (unat tc) (unat tsid) r) q' \<and>
         (if st = A_OK then msgs = sync_msgs (wmi_fatPipeExists q) @ [DELETE_PSTREAM tc tsid]
          else set msgs \<subseteq> set (sync_msgs (wmi_fatPipeExists q)))
     else st \<noteq> A_OK \<and> only_sends [] q q')"
proof (cases "tc \<le> 3")
  case False
  then show ?thesis using assms by (auto simp: wmi_delete_pstream_cmd_def only_sends_refl)
next
  case tc: True
  let ?ac = "unat tc" let ?t = "unat tsid"
  have ac: "?ac < WMM_NUM_AC" using tc by (simp add: word_le_nat_alt)
  from assms show ?thesis
  proof (cases rule: wmi_inv_cases)
    case (1 q1)
    then have "alloc_answers q \<noteq> [] \<and> \<not> hd (alloc_answers q)" by (auto simp: A_NETBUF_ALLOC_def Let_def split: if_splits)
    then show ?thesis using 1 tc by (auto simp: wmi_delete_pstream_cmd_def)
  next
    case (2 q1 b)
    then have ans: "alloc_answers q = [] \<or> hd (alloc_answers q)" by (auto simp: A_NETBUF_ALLOC_def Let_def split: if_splits)
    have len: "length (wmi_streamExistsForAC q1) = WMM_NUM_AC" using 2(2) by (simp add: streams_ok_def)
    have hs: "has_stream q1 = has_stream q" "wmi_fatPipeExists q1 = wmi_fatPipeExists q"
      using 2(5) by (simp_all add: only_sends_def has_stream_def fun_eq_iff)
    show ?thesis
    proof (cases "has_stream q ?ac ?t")
      case False
      then have "\<not> has_stream q1 ?ac ?t" by (simp add: hs(1))
      then have "\<not> bit (wmi_streamExistsForAC q1 ! ?ac) ?t" using ac by (simp add: has_stream_def)
      then show ?thesis using False 2 tc ac len free_single [OF 2(2,3,4)] only_sends_trans0 [OF 2(5)]
        by (auto simp: wmi_delete_pstream_cmd_def streams_of_def)
    next
      case True
      then have "has_stream q1 ?ac ?t" by (simp add: hs(1))
      then have bt: "bit (wmi_streamExistsForAC q1 ! ?ac) ?t" "has_stream q1 ?ac ?t" by (simp_all add: has_stream_def)
      obtain st msgs q2 where c: "wmi_cmd_send b (DELETE_PSTREAM tc tsid) SYNC_BEFORE_WMIFLAG q1 = Some (st, q2)" "bufs_ok q2"
        "held q2 = (if st = A_OK then [] else [b])" "only_sends msgs q1 q2"
        "if st = A_OK then msgs = sync_msgs (wmi_fatPipeExists q1) @ [DELETE_PSTREAM tc tsid]
         else set msgs \<subseteq> set (sync_msgs (wmi_fatPipeExists q1))"
        using cmd_send_ok [OF 2(3,4), of SYNC_BEFORE_WMIFLAG "DELETE_PSTREAM tc tsid"] by (auto split: if_splits)
      have s2: "streams_ok q2" "has_stream q2 ?ac ?t" "length (wmi_streamExistsForAC q2) = WMM_NUM_AC"
        using streams_ok_only_sends [OF c(4)] 2(2) bt len c(4) by (simp_all add: only_sends_def has_stream_def)
      have d: "streams_ok (drop_stream ?ac ?t q2)" by (rule drop_stream_ok [OF s2(1) ac s2(2)])
      have o: "only_sends msgs (drop_stream ?ac ?t q1) (drop_stream ?ac ?t q2)"
        using c(4) by (simp add: only_sends_def drop_stream_def close_pipe_def clear_pipe_def A_WMI_STREAM_TX_def Let_def)
      have run: "wmi_delete_pstream_cmd tc tsid q = (if st \<noteq> A_OK then map_option (Pair st) (A_NETBUF_FREE b (drop_stream ?ac ?t q2))
          else Some (st, drop_stream ?ac ?t q2))"
        using tc [unfolded linorder_not_less [symmetric]] 2 ac len bt c(1) s2(3)
        by (simp add: wmi_delete_pstream_cmd_def streams_of_def put_streams drop_stream_def clear_pipe_tx Let_def cong: if_cong)
      show ?thesis
      proof (cases "st = A_OK")
        case True
        then show ?thesis using run c(2,3,5) d o ans tc \<open>has_stream q ?ac ?t\<close> 2(5) hs(2) by (auto simp: wmi_inv_def)
      next
        case False
        have "held (drop_stream ?ac ?t q2) = [b]" "bufs_ok (drop_stream ?ac ?t q2)" using c(2,3) False by simp_all
        then obtain q3 where f: "A_NETBUF_FREE b (drop_stream ?ac ?t q2) = Some q3" "wmi_inv q3" "only_sends [] (drop_stream ?ac ?t q2) q3"
          using free_single [OF d] by blast
        then show ?thesis using run False c(5) ans tc \<open>has_stream q ?ac ?t\<close> 2(5) hs(2) only_sends_trans0 [OF o f(3)] by auto
      qed
    qed
  qed
qed

subsection \<open>Events and sleep\<close>

lemma wmi_inv_same_bufs: "streams_ok q' \<Longrightarrow> bufs_ok q' = bufs_ok q \<Longrightarrow> held q' = held q \<Longrightarrow> wmi_inv q \<Longrightarrow> wmi_inv q'"
  by (simp add: wmi_inv_def)

lemma timeout_ok:
  assumes "wmi_inv q" "4 \<le> length datap"
  shows "wmi_pstream_timeout_event_rx datap q \<noteq> None \<longleftrightarrow> unat (datap ! 3) < WMM_NUM_AC"
    "wmi_pstream_timeout_event_rx datap q = Some (st, q') \<Longrightarrow> wmi_inv q'"
proof -
  let ?ac = "unat (datap ! 3)"
  have s: "streams_ok q" and len: "length (wmi_streamExistsForAC q) = WMM_NUM_AC"
    using assms(1) by (simp_all add: wmi_inv_def streams_ok_def)
  show "wmi_pstream_timeout_event_rx datap q \<noteq> None \<longleftrightarrow> ?ac < WMM_NUM_AC"
    using assms(2) len by (simp add: wmi_pstream_timeout_event_rx_def set_streams_def put_def Let_def)
  assume r: "wmi_pstream_timeout_event_rx datap q = Some (st, q')"
  then have ac: "?ac < WMM_NUM_AC" 
    using assms(2) len by (auto simp: wmi_pstream_timeout_event_rx_def set_streams_def put_def Let_def split: if_splits)
  let ?r = "q\<lparr>wmi_streamExistsForAC := (wmi_streamExistsForAC q)[?ac := 0]\<rparr>"
  have "q' = close_pipe ?ac ?r"
    using r ac len assms(2) by (simp add: wmi_pstream_timeout_event_rx_def put_streams close_pipe_def Let_def)
  moreover have "streams_ok (close_pipe ?ac ?r)"
    using s ac len by (intro close_pipe_ok) (auto simp: streams_ok_def nth_list_update)
  ultimately show "wmi_inv q'" using assms(1) by (intro wmi_inv_same_bufs [of q' q]) simp_all
qed

text \<open>An indication of a deleted stream drops it; but the pipe of a stream above 7 stays.\<close>

lemma cac_delete_run:
  assumes "wmi_inv q" "66 \<le> length datap" "datap ! 1 = CAC_INDICATION_DELETE"
  defines "ac \<equiv> unat (datap ! 0)" and "t \<equiv> unat (tspec_tsid datap)"
  shows "wmi_cac_event_rx datap q = (if WMM_NUM_AC \<le> ac then None
     else Some (A_OK, if has_stream q ac t \<and> t < 8 then drop_stream ac t q
       else q\<lparr>wmi_streamExistsForAC := (wmi_streamExistsForAC q)[ac := wmi_streamExistsForAC q ! ac AND NOT (push_bit t 1)]\<rparr>))"
proof -
  have len: "length (wmi_streamExistsForAC q) = WMM_NUM_AC" using assms(1) by (simp add: wmi_inv_def streams_ok_def)
  have "(ucast (w AND push_bit t 1) :: byte) \<noteq> 0 \<longleftrightarrow> bit w t \<and> t < 8" for w :: "16 word"
  proof -
    have b: "bit (ucast (w AND push_bit t 1) :: byte) u \<longleftrightarrow> u = t \<and> bit w t \<and> t < 8" for u
      by (auto simp: bit_simps)
    show ?thesis unfolding ex_bit_iff [symmetric] b by blast
  qed
  then show ?thesis
    using assms(2,3) len unfolding ac_def t_def
    by (simp add: wmi_cac_event_rx_def Let_def streams_of_def set_streams_def put_def at_def has_stream_def
        drop_stream_def clear_pipe_tx cong: if_cong)
qed

lemma update_streams_ok:
  assumes "streams_ok q" "ac < WMM_NUM_AC" "v \<noteq> 0 \<longrightarrow> wmi_streamExistsForAC q ! ac \<noteq> 0"
  shows "streams_ok (q\<lparr>wmi_streamExistsForAC := (wmi_streamExistsForAC q)[ac := v]\<rparr>)"
  using assms by (auto simp: streams_ok_def nth_list_update)

lemma cac_some:
  assumes "wmi_inv q" "wmi_cac_event_rx datap q = Some (st, q')"
  shows "wmi_inv q'"
proof -
  have d: "wmi_delete_pstream_cmd tc t q = Some (st, q') \<Longrightarrow> wmi_inv q'" for tc t st q'
    using delete_ok [OF assms(1), of tc t] by auto
  consider "length datap < 66" | "66 \<le> length datap" "datap ! 1 = CAC_INDICATION_DELETE"
    | "66 \<le> length datap" "datap ! 1 \<noteq> CAC_INDICATION_DELETE" by linarith
  then show ?thesis
  proof cases
    case 1
    then show ?thesis using assms by (simp add: wmi_cac_event_rx_def)
  next
    case 2
    let ?ac = "unat (datap ! 0)" let ?t = "unat (tspec_tsid datap)"
    have r: "?ac < WMM_NUM_AC" "q' = (if has_stream q ?ac ?t \<and> ?t < 8 then drop_stream ?ac ?t q
       else q\<lparr>wmi_streamExistsForAC := (wmi_streamExistsForAC q)[?ac := wmi_streamExistsForAC q ! ?ac AND NOT (push_bit ?t 1)]\<rparr>)"
      using assms(2) cac_delete_run [OF assms(1) 2] by (auto split: if_splits)
    have ok: "streams_ok q" using assms(1) by (simp add: wmi_inv_def)
    have "streams_ok q'"
    proof (cases "has_stream q ?ac ?t \<and> ?t < 8")
      case True
      then show ?thesis using r drop_stream_ok(1) [OF ok] by simp
    next
      case False
      then have "q' = q\<lparr>wmi_streamExistsForAC := (wmi_streamExistsForAC q)[?ac := wmi_streamExistsForAC q ! ?ac AND NOT (push_bit ?t 1)]\<rparr>"
        using r(2) by argo
      then show ?thesis by (simp only:) (rule update_streams_ok [OF ok r(1)], auto)
    qed
    moreover have "bufs_ok q' = bufs_ok q" "held q' = held q" unfolding r(2) by simp_all
    ultimately show ?thesis using assms(1) by (intro wmi_inv_same_bufs [of q' q])
  next
    case 3
    then show ?thesis using assms d
      by (auto simp: wmi_cac_event_rx_def Let_def bind_eq_Some_conv split: if_splits option.splits prod.splits)
  qed
qed

lemma sleep_pipes_ok:
  assumes "length (wmi_streamExistsForAC q) = WMM_NUM_AC" "distinct is" "set is \<subseteq> {..<WMM_NUM_AC}"
    "active_of (indicated q) = bit fat"
  shows "\<exists>fat' q'. sleep_pipes is fat q = Some (fat', q') \<and> q' = q\<lparr>indicated := indicated q'\<rparr> \<and>
    active_of (indicated q') = bit fat' \<and>
    (\<forall>i. bit fat' i \<longleftrightarrow> bit fat i \<and> (i \<in> set is \<longrightarrow> wmi_streamExistsForAC q ! i \<noteq> 0))"
  using assms
proof (induction "is" arbitrary: fat q)
  case Nil
  then show ?case by simp
next
  case (Cons i "is")
  show ?case
  proof (cases "bit fat i \<and> wmi_streamExistsForAC q ! i = 0")
    case False
    obtain fat' q' where "sleep_pipes is fat q = Some (fat', q')" "q' = q\<lparr>indicated := indicated q'\<rparr>"
      "active_of (indicated q') = bit fat'"
      "\<forall>j. bit fat' j \<longleftrightarrow> bit fat j \<and> (j \<in> set is \<longrightarrow> wmi_streamExistsForAC q ! j \<noteq> 0)"
      using Cons.IH [of q fat] Cons.prems by auto
    then show ?thesis using False Cons.prems by (auto simp: streams_of_def)
  next
    case True
    let ?fat = "fat AND NOT (push_bit i 1)" let ?q = "A_WMI_STREAM_TX i False q"
    have "active_of (indicated ?q) = bit ?fat"
      using Cons.prems(4) by (auto simp: A_WMI_STREAM_TX_def active_of_snoc bit_clear_byte fun_eq_iff)
    then obtain fat' q' where "sleep_pipes is ?fat ?q = Some (fat', q')" "q' = ?q\<lparr>indicated := indicated q'\<rparr>"
      "active_of (indicated q') = bit fat'"
      "\<forall>j. bit fat' j \<longleftrightarrow> bit ?fat j \<and> (j \<in> set is \<longrightarrow> wmi_streamExistsForAC ?q ! j \<noteq> 0)"
      using Cons.IH [of ?q ?fat] Cons.prems(1,2,3) by (auto simp: A_WMI_STREAM_TX_def)
    then show ?thesis using True Cons.prems
      by (auto simp: streams_of_def A_WMI_STREAM_TX_def bit_clear_byte)
  qed
qed

lemma sleep_some:
  assumes "wmi_inv q" "wmi_set_host_sleep_mode_cmd awake asleep q = Some (st, q')"
  shows "wmi_inv q'"
proof (cases "awake = asleep")
  case True
  then show ?thesis using assms by (simp add: wmi_set_host_sleep_mode_cmd_def)
next
  case ne: False
  have snd: "wmi_inv q'" if "streams_ok r" "bufs_ok r" "held r = [b]"
    "send_or_free b (SET_HOST_SLEEP_MODE awake asleep) NO_SYNC_WMIFLAG r = Some (st, q')" for r b
    using send_single [OF that(1-3), of NO_SYNC_WMIFLAG "SET_HOST_SLEEP_MODE awake asleep"] that(4) by auto
  from assms(1) show ?thesis
  proof (cases rule: wmi_inv_cases)
    case (1 q1)
    then show ?thesis using assms(2) ne by (simp add: wmi_set_host_sleep_mode_cmd_def)
  next
    case (2 q1 b)
    show ?thesis
    proof (cases asleep)
      case False
      then show ?thesis using assms(2) ne 2 snd [OF 2(2,3,4)] by (simp add: wmi_set_host_sleep_mode_cmd_def)
    next
      case True
      have ok: "length (wmi_streamExistsForAC q1) = WMM_NUM_AC" "active_of (indicated q1) = bit (wmi_fatPipeExists q1)"
        using 2(2) by (simp_all add: streams_ok_def)
      have sub: "set [0..<WMM_NUM_AC] \<subseteq> {..<WMM_NUM_AC}" by auto
      obtain fat q2 where p: "sleep_pipes [0..<WMM_NUM_AC] (wmi_fatPipeExists q1) q1 = Some (fat, q2)"
        "q2 = q1\<lparr>indicated := indicated q2\<rparr>" "active_of (indicated q2) = bit fat"
        "\<forall>i. bit fat i \<longleftrightarrow> bit (wmi_fatPipeExists q1) i \<and> (i \<in> set [0..<WMM_NUM_AC] \<longrightarrow> wmi_streamExistsForAC q1 ! i \<noteq> 0)"
        using sleep_pipes_ok [OF ok(1) distinct_upt sub ok(2)] by blast
      let ?q3 = "q2\<lparr>wmi_fatPipeExists := fat\<rparr>"
      have e: "held q2 = held q1" "next_osbuf q2 = next_osbuf q1" "wmi_streamExistsForAC q2 = wmi_streamExistsForAC q1"
        by (subst p(2), simp)+
      have "streams_ok ?q3" using p(3,4) 2(2) e by (auto simp: streams_ok_def)
      moreover have "bufs_ok ?q3" using 2(3) e by (simp add: bufs_ok_def)
      moreover have "held ?q3 = [b]" using 2(4) e by simp
      ultimately show ?thesis
        using assms(2) ne True 2(1) p(1) snd [of ?q3 b] by (simp add: wmi_set_host_sleep_mode_cmd_def)
    qed
  qed
qed

text \<open>A command that allocates its buffer and then only sends.\<close>

lemma simple_cmd_some:
  assumes "wmi_inv q" "(case A_NETBUF_ALLOC q of (None, q) \<Rightarrow> Some (A_NO_MEMORY, q)
     | (Some osbuf, q) \<Rightarrow> send_or_free osbuf cmd flag q) = Some (st, q')"
  shows "wmi_inv q'"
  using assms(1)
proof (cases rule: wmi_inv_cases)
  case (1 q1)
  then show ?thesis using assms(2) by simp
next
  case (2 q1 b)
  then have "bufs_ok q' \<and> held q' = [] \<and> (\<exists>msgs. only_sends msgs q1 q')"
    using assms(2) send_or_free_some [OF 2(3,4)] by simp
  then show ?thesis using 2(2) streams_ok_only_sends by (auto simp: wmi_inv_def)
qed

lemma addKey_some:
  assumes "wmi_inv q" "wmi_addKey_cmd ki kt ku kl rsc km op mac flag q = Some (st, q')"
  shows "wmi_inv q'"
proof -
  have "wmi_inv q' \<and> st = A_EINVAL \<or> (\<exists>cmd. (case A_NETBUF_ALLOC q of (None, q) \<Rightarrow> Some (A_NO_MEMORY, q)
     | (Some osbuf, q) \<Rightarrow> send_or_free osbuf (ADD_CIPHER_KEY cmd) flag q) = Some (st, q'))"
    using assms
    by (cases "A_NETBUF_ALLOC q")
      (auto simp: wmi_addKey_cmd_def bind_eq_Some_conv Let_def split: if_splits option.splits)
  then show ?thesis using simple_cmd_some [OF assms(1)] by blast
qed

lemma badAp_some:
  assumes "wmi_inv q" "wmi_addBadAp_cmd i mac q = Some (st, q')"
  shows "wmi_inv q'"
proof -
  have "wmi_inv q' \<and> st = A_EINVAL \<or> (\<exists>cmd. (case A_NETBUF_ALLOC q of (None, q) \<Rightarrow> Some (A_NO_MEMORY, q)
     | (Some osbuf, q) \<Rightarrow> send_or_free osbuf (ADD_BAD_AP i cmd) SYNC_BEFORE_WMIFLAG q) = Some (st, q'))"
    using assms
    by (cases "A_NETBUF_ALLOC q")
      (auto simp: wmi_addBadAp_cmd_def bind_eq_Some_conv Let_def split: if_splits option.splits)
  then show ?thesis using simple_cmd_some [OF assms(1)] by blast
qed

lemma deletes_some:
  assumes "wmi_inv q" "wmi_deleteKey_cmd k q = Some (st, q') \<or> wmi_deleteBadAp_cmd k q = Some (st, q')"
  shows "wmi_inv q'"
  using assms simple_cmd_some [OF assms(1)]
  by (auto simp: wmi_deleteKey_cmd_def wmi_deleteBadAp_cmd_def split: if_splits)

subsection \<open>Runs\<close>

text \<open>The operations on the stream state, in any order, with any answers of the allocator and of the
  driver.  Each step is a call that returned.\<close>

inductive wmi_step :: "wmi_priv_t \<Rightarrow> wmi_priv_t \<Rightarrow> bool" where
  answers: "wmi_step q (q\<lparr>alloc_answers := as, tx_answers := ts\<rparr>)"
| create: "wmi_create_pstream_cmd p q = Some (st, q') \<Longrightarrow> wmi_step q q'"
| delete: "wmi_delete_pstream_cmd tc tsid q = Some (st, q') \<Longrightarrow> wmi_step q q'"
| timeout: "wmi_pstream_timeout_event_rx datap q = Some (st, q') \<Longrightarrow> wmi_step q q'"
| cac: "wmi_cac_event_rx datap q = Some (st, q') \<Longrightarrow> wmi_step q q'"
| sleep: "wmi_set_host_sleep_mode_cmd awake asleep q = Some (st, q') \<Longrightarrow> wmi_step q q'"
| add_key: "wmi_addKey_cmd ki kt ku kl rsc km op mac flag q = Some (st, q') \<Longrightarrow> wmi_step q q'"
| add_bad_ap: "wmi_addBadAp_cmd i bssid q = Some (st, q') \<Longrightarrow> wmi_step q q'"
| delete_entry: "wmi_deleteKey_cmd k q = Some (st, q') \<or> wmi_deleteBadAp_cmd k q = Some (st, q') \<Longrightarrow> wmi_step q q'"

inductive_cases wmi_stepE: "wmi_step q q'"

lemma wmi_step_inv: "wmi_step q q' \<Longrightarrow> wmi_inv q \<Longrightarrow> wmi_inv q'"
proof (induction rule: wmi_step.induct)
  case (answers q as ts)
  then show ?case by (simp add: wmi_inv_def streams_ok_def bufs_ok_def)
next
  case (create p q st q')
  then show ?case using create_ok [of q p] by auto
next
  case (delete tc tsid q st q')
  then show ?case using delete_ok [of q tc tsid] by auto
next
  case (timeout datap q st q')
  then show ?case
    using timeout_ok(2) [of q datap st q'] by (cases "length datap < 4") (simp_all add: wmi_pstream_timeout_event_rx_def)
qed (auto intro: cac_some sleep_some addKey_some badAp_some deletes_some)

lemma wmi_init_inv:
  assumes "held q = []" "indicated q = []"
  shows "wmi_inv (wmi_qos_state_init q)"
proof -
  show ?thesis
    using assms by (simp add: wmi_qos_state_init_def wmi_inv_def streams_ok_def bufs_ok_def active_of_def fun_eq_iff)
qed

lemma wmi_reach_inv: "wmi_step\<^sup>*\<^sup>* q q' \<Longrightarrow> wmi_inv q \<Longrightarrow> wmi_inv q'"
  by (induction rule: rtranclp_induct) (auto intro: wmi_step_inv)

subsection \<open>The second synchronisation point\<close>

text \<open>When the allocator and the driver refuse nothing, a synchronisation point uses one answer for its
  command and one for each pipe.\<close>

definition plenty :: "nat \<Rightarrow> bool list \<Rightarrow> wmi_priv_t \<Rightarrow> bool" where
  "plenty n as q \<longleftrightarrow> alloc_answers q = replicate n True @ as \<and> tx_answers q = []"

lemma plenty_alloc: "plenty (Suc n) as q \<Longrightarrow>
    \<exists>b q'. A_NETBUF_ALLOC q = (Some b, q') \<and> plenty n as q' \<and> b \<in> set (held q') \<and> set (held q) \<subseteq> set (held q')"
  by (auto simp: plenty_def A_NETBUF_ALLOC_def)

lemma plenty_tx: "plenty n as q \<Longrightarrow> b \<in> set (held q) \<Longrightarrow>
    \<exists>q'. A_WMI_CONTROL_TX b m q = Some (A_OK, q') \<and> plenty n as q' \<and> held q' = remove1 b (held q)"
  by (auto simp: plenty_def A_WMI_CONTROL_TX_def)

lemma plenty_alloc_sync: "plenty (length acs + n) as q \<Longrightarrow>
    \<exists>bs q'. alloc_sync acs q = (A_OK, bs, q') \<and> plenty n as q' \<and> set (held q) \<subseteq> set (held q')"
proof (induction acs arbitrary: q)
  case (Cons ac acs)
  then obtain b q1 where 1: "A_NETBUF_ALLOC q = (Some b, q1)" "plenty (length acs + n) as q1" "set (held q) \<subseteq> set (held q1)"
    using plenty_alloc [of "length acs + n" as q] by auto
  then show ?case using Cons.IH [OF 1(2)] by auto
qed (simp add: plenty_def)

lemma plenty_send_sync: "plenty n as q \<Longrightarrow> distinct (map snd bs) \<Longrightarrow> set (map snd bs) \<subseteq> set (held q) \<Longrightarrow> bufs_ok q \<Longrightarrow>
    \<exists>q'. send_sync bs q = Some (A_OK, [], q') \<and> plenty n as q'"
proof (induction bs arbitrary: q)
  case (Cons p bs)
  obtain ac b where p: "p = (ac, b)" by (cases p)
  have mem: "b \<in> set (held q)" using Cons.prems(3) p by simp
  obtain q1 where 1: "A_WMI_CONTROL_TX b (DATA_SYNC ac) q = Some (A_OK, q1)" "plenty n as q1" "held q1 = remove1 b (held q)"
    using plenty_tx [OF Cons.prems(1) mem] by blast
  from mem have "bufs_ok q1" using 1(1) Cons.prems(4) by (cases rule: tx_cases [OF Cons.prems(4), of b "DATA_SYNC ac"]) auto
  moreover have "set (map snd bs) \<subseteq> set (held q1)" using Cons.prems(2,3,4) 1(3) p by (auto simp: bufs_ok_def)
  ultimately show ?case using Cons.IH [OF 1(2)] Cons.prems(2) 1(1) p by (simp add: wmi_dataSync_send_def)
qed simp

lemma plenty_sync_point:
  assumes "bufs_ok q" "plenty (Suc (length (pipes (wmi_fatPipeExists q))) + n) as q"
  shows "\<exists>q'. wmi_sync_point q = Some (A_OK, q') \<and> plenty n as q' \<and> bufs_ok q' \<and> held q' = held q \<and>
    wmi_fatPipeExists q' = wmi_fatPipeExists q"
proof -
  let ?acs = "pipes (wmi_fatPipeExists q)"
  obtain b q1 where 1: "A_NETBUF_ALLOC q = (Some b, q1)" "plenty (length ?acs + n) as q1" "b \<in> set (held q1)"
    using plenty_alloc [of "length ?acs + n" as q] assms(2) by auto
  have b1: "bufs_ok q1" "held q1 = b # held q" "b \<notin> set (held q)" using 1(1) by (cases rule: alloc_cases [OF assms(1)]; simp)+
  obtain bs q2 where 2: "alloc_sync ?acs q1 = (A_OK, bs, q2)" "plenty n as q2"
    using plenty_alloc_sync [OF 1(2)] by blast
  have b2: "bufs_ok q2" "held q2 = rev (map snd bs) @ held q1" "distinct (map snd bs)" "set (map snd bs) \<inter> set (held q1) = {}"
    using alloc_sync_ok [OF b1(1), of ?acs] 2(1) by auto
  have "b \<in> set (held q2)" using b2(2) 1(3) by simp
  then obtain q3 where 3: "A_WMI_CONTROL_TX b (SYNCHRONIZE (wmi_fatPipeExists q)) q2 = Some (A_OK, q3)" "plenty n as q3" "held q3 = remove1 b (held q2)"
    using plenty_tx [OF 2(2)] by blast
  have b3: "bufs_ok q3" using 3(1) by (cases rule: tx_cases [OF b2(1) \<open>b \<in> set (held q2)\<close>, of "SYNCHRONIZE (wmi_fatPipeExists q)"]) auto
  have "set (map snd bs) \<subseteq> set (held q3)" using b2(4) 1(3) by (auto simp: 3(3) b2(2) bufs_ok_remove1 [OF b2(1), unfolded b2(2)])
  then obtain q4 where 4: "send_sync bs q3 = Some (A_OK, [], q4)" "plenty n as q4"
    using plenty_send_sync [OF 3(2) b2(3) _ b3] by blast
  have "wmi_sync_point q = Some (A_OK, q4)"
    using 1(1) 2(1) 3(1) 4(1) by (simp add: wmi_sync_point_def sync_send_def cmd_send_nosync_def)
  then show ?thesis using sync_point_ok [OF assms(1)] 4(2) by (auto simp: only_sends_def)
qed

lemma both_double_free:
  assumes "bufs_ok q" "held q = b # h" "plenty (Suc (length (pipes (wmi_fatPipeExists q)))) [False] q"
  shows "send_or_free b cmd SYNC_BOTH_WMIFLAG q = None"
proof -
  obtain q1 where 1: "wmi_sync_point q = Some (A_OK, q1)" "plenty 0 [False] q1" "bufs_ok q1" "held q1 = b # h"
    using plenty_sync_point [of q 0 "[False]"] assms by auto
  then obtain q2 where 2: "A_WMI_CONTROL_TX b cmd q1 = Some (A_OK, q2)" "plenty 0 [False] q2" "held q2 = h"
    using plenty_tx [OF 1(2), of b cmd] by auto
  have b: "b \<notin> set h" using assms(1,2) by (simp add: bufs_ok_def)
  have "wmi_sync_point q2 = Some (A_NO_MEMORY, q2\<lparr>alloc_answers := []\<rparr>)"
    using 2(2) by (simp add: wmi_sync_point_def A_NETBUF_ALLOC_def plenty_def)
  then show ?thesis using 1(1) 2(1,3) b by (simp add: send_or_free_def wmi_cmd_send_def A_NETBUF_FREE_def)
qed

end
