(* ===== verification/TxFrameProps.thy ===== *)
theory TxFrameProps
  imports TxFrames StreamProps
begin

text \<open>Data frames on their way down: what their header says, and the pipe they open.\<close>

subsection \<open>Header fields\<close>

text \<open>The masks of the fields, and the rules that read a bit of a field without the simplifier's
  rewriting of shifts to products.\<close>

lemma field_masks: "(3 :: byte) = mask 2" "(7 :: byte) = mask 3" "(0xF :: byte) = mask 4"
  by (simp_all add: mask_eq_exp_minus_1)

lemmas field_bits = bit_and_iff bit_or_iff bit_not_iff bit_drop_bit_eq bit_push_bit_iff bit_mask_iff bit_1_iff
  field_masks possible_bit_word if_distrib [of "\<lambda>w. bit w _"] bit_0_eq bot_apply bot_bool_def comp_apply

lemma up_field: "drop_bit 2 ((w AND NOT (push_bit 2 7)) OR push_bit 2 up) AND 7 = up AND (7 :: byte)"
  by (rule bit_word_eqI) (simp only: field_bits, auto)

lemma field_width: "w AND mask n = w \<Longrightarrow> bit w k \<Longrightarrow> k < n"
  for w :: byte
  by (metis bit_and_iff bit_mask_iff)

lemma type_field:
  assumes "up AND 7 = up" "dt AND 3 = dt"
  shows "drop_bit 6 (((push_bit 6 dt OR (if m then push_bit 5 1 else 0)) AND NOT (push_bit 2 7)) OR push_bit 2 up) AND 3 = (dt :: byte)"
proof (rule bit_word_eqI)
  fix n assume "n < LENGTH(8)"
  then show "bit (drop_bit 6 (((push_bit 6 dt OR (if m then push_bit 5 1 else 0)) AND NOT (push_bit 2 7)) OR push_bit 2 up) AND 3) n = bit dt n"
    using field_width [of up 3 "4 + n"] field_width [of dt 2 n] assms unfolding field_masks [symmetric]
    by (simp only: field_bits, auto)
qed

lemma more_field:
  assumes "up AND 7 = up"
  shows "bit (((push_bit 6 dt OR (if m then push_bit 5 1 else 0)) AND NOT (push_bit 2 7)) OR push_bit 2 (up :: byte)) 5 = m"
  using field_width [of up 3 3] assms unfolding field_masks [symmetric]
  by (simp only: field_bits, auto)

lemma hdr_up: "1 < length h \<Longrightarrow> up AND 7 = up \<Longrightarrow> WMI_DATA_HDR_GET_UP (WMI_DATA_HDR_SET_UP h up) = up"
  using up_field [of "h ! 1" up] by (simp add: WMI_DATA_HDR_GET_UP_def WMI_DATA_HDR_SET_UP_def)

text \<open>The fields that \<open>wmi_data_hdr_add\<close> stored are still there after the priority is set.\<close>

lemma hdr_fields:
  assumes "h = WMI_DATA_HDR_SET_UP (data_hdr DATA_MSGTYPE flags dt meta dev @ xs) up"
    "up AND 7 = up" "dt AND 3 = dt" "meta AND 7 = meta"
  shows "WMI_DATA_HDR_GET_DATA_TYPE h = dt" "WMI_DATA_HDR_HAS_MORE_BIT h = bit flags 0"
    "WMI_DATA_HDR_GET_META h = meta" "WMI_DATA_HDR_HAS_EOSP_BIT h = bit flags 1"
    "WMI_DATA_HDR_GET_DEVID h = dev AND 0xF"
proof -
  show "WMI_DATA_HDR_GET_DATA_TYPE h = dt"
    using type_field [OF assms(2,3), of "bit flags 0"]
    by (simp add: assms(1) WMI_DATA_HDR_GET_DATA_TYPE_def WMI_DATA_HDR_SET_UP_def data_hdr_def)
  show "WMI_DATA_HDR_HAS_MORE_BIT h = bit flags 0"
    using more_field [OF assms(2), of dt "bit flags 0"]
    by (simp add: assms(1) WMI_DATA_HDR_HAS_MORE_BIT_def WMI_DATA_HDR_SET_UP_def data_hdr_def)
  have "drop_bit 5 (push_bit 5 meta) AND 7 = meta"
  proof (rule bit_word_eqI)
    fix n assume "n < LENGTH(8)"
    then show "bit (drop_bit 5 (push_bit 5 meta) AND 7) n = bit meta n"
      using field_width [of meta 3 n] assms(4) unfolding field_masks [symmetric] by (simp only: field_bits, auto)
  qed
  then show "WMI_DATA_HDR_GET_META h = meta"
    by (simp add: assms(1) WMI_DATA_HDR_GET_META_def WMI_DATA_HDR_SET_UP_def data_hdr_def)
  have "bit ((if m then push_bit 4 1 else 0) OR (dev AND 0xF)) 4 = m" for m
    by (simp only: field_bits, auto)
  then show "WMI_DATA_HDR_HAS_EOSP_BIT h = bit flags 1"
    by (simp add: assms(1) WMI_DATA_HDR_HAS_EOSP_BIT_def WMI_DATA_HDR_SET_UP_def data_hdr_def)
  have "((if m then push_bit 4 1 else 0) OR (dev AND 0xF)) AND 0xF = dev AND 0xF" for m
    by (rule bit_word_eqI) (simp only: field_bits, auto)
  then show "WMI_DATA_HDR_GET_DEVID h = dev AND 0xF"
    by (simp add: assms(1) WMI_DATA_HDR_GET_DEVID_def WMI_DATA_HDR_SET_UP_def data_hdr_def)
qed

subsection \<open>Priorities and implicit streams\<close>

text \<open>What the priority of a frame means: the greater of the two priorities, if the frame is IP.\<close>

definition ip_precedence :: "byte \<Rightarrow> byte" where
  "ip_precedence tos = drop_bit 5 tos AND 7"

definition priority_of :: "bool \<Rightarrow> nat \<Rightarrow> bytes \<Rightarrow> 32 word \<Rightarrow> byte" where
  "priority_of wmm ety body l2 = (if \<not> wmm then 0
     else if ety = 0x0800 then max (ucast (l2 AND 7)) (ip_precedence (body ! 1))
     else ucast (l2 AND 7))"

lemma ucast_low: "ucast w AND 7 = (ucast (w AND 7) :: byte)" for w :: "32 word"
  by (rule bit_word_eqI) (auto simp: bit_simps)

lemma low_and_7: "ucast (w AND 7) AND 7 = (ucast (w AND 7) :: byte)" for w :: "32 word"
  by (rule bit_word_eqI) (auto simp: bit_simps)

lemma low_compare: "(w AND 7 > ucast p) = (p < (ucast (w AND 7) :: byte))" for w :: "32 word"
proof -
  have "unat (w AND 7) < 256" using word_and_le1 [of w 7] by (simp add: word_le_nat_alt)
  then have "unat (ucast (w AND 7) :: byte) = unat (w AND 7)"
    by (simp add: unsigned_ucast_eq take_bit_nat_eq_self)
  moreover have "unat (ucast p :: 32 word) = unat p"
    using unsigned_less [of p, where 'a = nat] by (simp add: unsigned_ucast_eq take_bit_nat_eq_self)
  ultimately show ?thesis by (simp add: word_less_nat_alt)
qed

lemma determine_priority:
  "1 < length body \<Longrightarrow> length pre = n \<Longrightarrow>
   wmi_determine_userPriority (pre @ body) n l2 = Some (max (ucast (l2 AND 7)) (ip_precedence (body ! 1)))"
  by (simp add: wmi_determine_userPriority_def ip_precedence_def low_compare ucast_low max_def Let_def nth_append flip: not_less)

lemma priority_and_7: "priority_of wmm ety body l2 AND 7 = priority_of wmm ety body l2"
  by (simp add: priority_of_def ip_precedence_def max_def low_and_7)

lemma implicit_valid: "up AND 7 = up \<Longrightarrow>
    valid_pstream (implicit_pstream (convert_userPriority_to_trafficClass up) up) \<and>
    phy_rate (implicit_pstream (convert_userPriority_to_trafficClass up) up)
      = implicit_pstream (convert_userPriority_to_trafficClass up) up"
proof -
  assume "up AND 7 = up"
  then have "up \<le> 7" using word_and_le1 [of up 7] by simp
  then have "up < 8" by (simp add: le_less_trans)
  then show ?thesis by (simp add: valid_pstream_def implicit_pstream_def phy_rate_def Let_def)
qed

text \<open>What the first frame of a category does to the streams.\<close>

lemma implicit_create:
  assumes "wmi_inv q" "up AND 7 = up"
  defines "tc \<equiv> convert_userPriority_to_trafficClass up"
  shows "\<not> bit (wmi_fatPipeExists q) (unat tc) \<Longrightarrow>
    \<exists>st q'. wmi_create_pstream_cmd (implicit_pstream tc up) q = Some (st, q') \<and> wmi_inv q' \<and>
      wmi_streamExistsForAC q' = wmi_streamExistsForAC q \<and>
      (\<forall>i. bit (wmi_fatPipeExists q') i \<longleftrightarrow>
         bit (wmi_fatPipeExists q) i \<or> i = unat tc \<and> (alloc_answers q = [] \<or> hd (alloc_answers q))) \<and>
      sent q' = sent q @ (if st = A_OK then [CREATE_PSTREAM (implicit_pstream tc up)] else [])"
proof -
  let ?p = "implicit_pstream tc up"
  assume closed: "\<not> bit (wmi_fatPipeExists q) (unat tc)"
  have v: "valid_pstream ?p" "phy_rate ?p = ?p" using implicit_valid [OF assms(2)] by (simp_all add: tc_def)
  have f: "ps_trafficClass ?p = tc" "inactivityInt ?p \<noteq> 0" "ps_tsid ?p = WMI_IMPLICIT_PSTREAM"
    by (simp_all add: implicit_pstream_def)
  have ac: "unat tc < WMM_NUM_AC" using traffic_class_less by (simp add: tc_def)
  from assms(1) show ?thesis
  proof (cases rule: wmi_inv_cases)
    case (1 q1)
    then have "alloc_answers q \<noteq> [] \<and> \<not> hd (alloc_answers q)" by (auto simp: A_NETBUF_ALLOC_def Let_def split: if_splits)
    then show ?thesis using 1 v by (auto simp: wmi_create_pstream_cmd_def only_sends_def Let_def)
  next
    case (2 q1 b)
    have ans: "alloc_answers q = [] \<or> hd (alloc_answers q)"
      using 2(1) by (auto simp: A_NETBUF_ALLOC_def Let_def split: if_splits)
    have c1: "\<not> bit (wmi_fatPipeExists q1) (unat tc)" using closed 2(5) by (simp add: only_sends_def)
    have o: "streams_ok (open_pipe (unat tc) q1)" by (rule open_pipe_ok [OF 2(2) ac])
    have o': "open_pipe (unat tc) q1 = A_WMI_STREAM_TX (unat tc) True (set_pipe (unat tc) q1)"
      using c1 by (simp add: open_pipe_def)
    obtain st msgs q' where s: "send_or_free b (CREATE_PSTREAM ?p) NO_SYNC_WMIFLAG (open_pipe (unat tc) q1) = Some (st, q')"
      "wmi_inv q'" "only_sends msgs (open_pipe (unat tc) q1) q'" "msgs = (if st = A_OK then [CREATE_PSTREAM ?p] else [])"
      using send_single [OF o, of b NO_SYNC_WMIFLAG "CREATE_PSTREAM ?p"] 2 by (auto split: if_splits)
    have fat: "wmi_fatPipeExists q' = wmi_fatPipeExists q OR push_bit (unat tc) 1"
      "wmi_streamExistsForAC q' = wmi_streamExistsForAC q" "sent q' = sent q @ msgs"
      using s(3) 2(5) o' by (simp_all add: only_sends_def A_WMI_STREAM_TX_def set_pipe_def)
    have "wmi_create_pstream_cmd ?p q = Some (st, q')"
      using v f c1 2(1) s(1) o' by (simp add: wmi_create_pstream_cmd_def Let_def)
    then show ?thesis using s(2,4) fat ans ac by (simp add: bit_set_byte) blast
  qed
qed

lemma be16_ip: "n < 65536 \<Longrightarrow> be16_bytes n = [0x08, 0x00] \<longleftrightarrow> n = 0x0800"
proof
  assume n: "n < 65536" and "be16_bytes n = [0x08, 0x00]"
  then show "n = 0x0800" using be16_be16_bytes [of n 8 0] by (simp add: be16_def)
qed (simp add: be16_bytes_def)

lemma set_up_front: "length h = 6 \<Longrightarrow> WMI_DATA_HDR_SET_UP (h @ xs) up = WMI_DATA_HDR_SET_UP h up @ xs"
  by (simp add: WMI_DATA_HDR_SET_UP_def list_update_append nth_append)

lemma frame_priority_at:
  "llc_offset p buf = llc \<Longrightarrow> blk (llc + 6) 2 buf = Some (be16_bytes ety) \<Longrightarrow> ety < 65536 \<Longrightarrow>
   (wmm \<and> ety = 0x0800 \<Longrightarrow> wmi_determine_userPriority buf (llc + 8) l2 = Some (max (ucast (l2 AND 7)) (ip_precedence (body ! 1)))) \<Longrightarrow>
   frame_priority p buf l2 wmm = Some (priority_of wmm ety body l2)"
  by (auto simp: frame_priority_def priority_of_def be16_ip ucast_low Let_def)

lemma frame_priority_dot3:
  assumes "length h = 6" "WMI_DATA_HDR_GET_META h = 0" "length dst = 6" "length src = 6" "ety < 65536"
    "wmm \<and> ety = 0x0800 \<longrightarrow> 2 \<le> length body"
  shows "frame_priority False (h @ dot3_frame dst src ety body) l2 wmm = Some (priority_of wmm ety body l2)"
proof -
  let ?buf = "h @ dot3_frame dst src ety body"
  have m: "llc_offset False ?buf = 20" using assms(1,2) by (simp add: llc_offset_def WMI_DATA_HDR_GET_META_def nth_append)
  have b1: "?buf = (h @ dst @ src @ be16_bytes (length body + 8) @ [0xAA, 0xAA, 0x03, 0, 0, 0]) @ be16_bytes ety @ body"
    by (simp add: dot3_frame_def snap_hdr_def)
  have b2: "?buf = (h @ dst @ src @ be16_bytes (length body + 8) @ snap_hdr ety) @ body"
    by (simp add: dot3_frame_def)
  have e: "blk 26 2 ?buf = Some (be16_bytes ety)"
    unfolding b1 by (rule blk_append) (simp_all add: assms(1,3,4))
  have d: "wmi_determine_userPriority ?buf 28 l2 = Some (max (ucast (l2 AND 7)) (ip_precedence (body ! 1)))"
    if "2 \<le> length body"
    unfolding b2 by (rule determine_priority) (use that assms(1,3,4) in simp_all)
  show ?thesis by (rule frame_priority_at [OF m]) (use assms(5,6) e d in simp_all)
qed

lemma implicit_frame:
  fixes l2 :: "32 word"
  assumes "wmi_inv q" and "nb_data b = h @ dot3_frame dst src ety body"
    and "length h = 6" "WMI_DATA_HDR_GET_META h = 0" "length dst = 6" "length src = 6" "ety < 65536"
    and "wmm \<and> ety = 0x0800 \<longrightarrow> 2 \<le> length body"
  defines "up \<equiv> priority_of wmm ety body l2"
  defines "tc \<equiv> convert_userPriority_to_trafficClass up"
  shows "\<exists>b' q'. wmi_implicit_create_pstream False b l2 wmm q = Some (tc, b', q') \<and> wmi_inv q' \<and>
    nb_head b' = nb_head b \<and> nb_data b' = WMI_DATA_HDR_SET_UP h up @ dot3_frame dst src ety body \<and>
    WMI_DATA_HDR_GET_UP (nb_data b') = up \<and> wmi_streamExistsForAC q' = wmi_streamExistsForAC q \<and>
    (if bit (wmi_fatPipeExists q) (unat tc) then q' = q
     else (\<forall>i. bit (wmi_fatPipeExists q') i \<longleftrightarrow>
         bit (wmi_fatPipeExists q) i \<or> i = unat tc \<and> (alloc_answers q = [] \<or> hd (alloc_answers q))) \<and>
       (sent q' = sent q \<or> sent q' = sent q @ [CREATE_PSTREAM (implicit_pstream tc up)]))"
proof -
  let ?b' = "b\<lparr>nb_data := WMI_DATA_HDR_SET_UP h up @ dot3_frame dst src ety body\<rparr>"
  have up: "up AND 7 = up" by (simp add: up_def priority_and_7)
  have fp: "frame_priority False (nb_data b) l2 wmm = Some up"
    unfolding assms(2) up_def by (rule frame_priority_dot3 [OF assms(3-8)])
  have blk: "blk 0 SIZEOF_WMI_DATA_HDR (nb_data b) = Some h" using assms(2,3) by (simp add: blk_def)
  have g: "WMI_DATA_HDR_GET_UP (nb_data ?b') = up"
    using hdr_up [of "nb_data b" up] up assms(2,3) set_up_front [OF assms(3)] by simp
  have run: "wmi_implicit_create_pstream False b l2 wmm q =
      (if bit (wmi_fatPipeExists q) (unat tc) then Some (tc, ?b', q)
       else map_option (\<lambda>(st, q). (tc, ?b', q)) (wmi_create_pstream_cmd (implicit_pstream tc up) q))"
    using fp blk assms(2) set_up_front [OF assms(3)]
    by (cases "wmi_create_pstream_cmd (implicit_pstream tc up) q")
      (auto simp: wmi_implicit_create_pstream_def Let_def tc_def split: prod.splits)
  show ?thesis
  proof (cases "bit (wmi_fatPipeExists q) (unat tc)")
    case True
    then show ?thesis using run assms(1) g by simp
  next
    case False
    then obtain st q' where c: "wmi_create_pstream_cmd (implicit_pstream tc up) q = Some (st, q')" "wmi_inv q'"
      "wmi_streamExistsForAC q' = wmi_streamExistsForAC q"
      "\<forall>i. bit (wmi_fatPipeExists q') i \<longleftrightarrow>
         bit (wmi_fatPipeExists q) i \<or> i = unat tc \<and> (alloc_answers q = [] \<or> hd (alloc_answers q))"
      "sent q' = sent q @ (if st = A_OK then [CREATE_PSTREAM (implicit_pstream tc up)] else [])"
      using implicit_create [OF assms(1) up] unfolding tc_def by blast
    then have "wmi_implicit_create_pstream False b l2 wmm q = Some (tc, ?b', q')" using run False by simp
    moreover have "sent q' = sent q \<or> sent q' = sent q @ [CREATE_PSTREAM (implicit_pstream tc up)]" using c(5) by auto
    ultimately show ?thesis using c(2,3,4) False g by (intro exI [of _ ?b'] exI [of _ q']) simp
  qed
qed

text \<open>The first frame of an access category that has no pipe opens it.  The category is that of the
  frame's priority; at most one command is sent, and none when the pipe is open already.  The pipe is marked
  as soon as there is a buffer for the command, even if the driver then refuses to send it, so it is not
  asked for again.  The frame changes only in the priority field of its header.\<close>

theorem implicit_pstream_opens_pipe:
  fixes l2 :: "32 word"
  assumes "wmi_inv q" and "nb_data b = h @ dot3_frame dst src ety body"
    and "length h = 6" "WMI_DATA_HDR_GET_META h = 0" "length dst = 6" "length src = 6" "ety < 65536"
    and "wmm \<and> ety = 0x0800 \<longrightarrow> 2 \<le> length body"
  defines "up \<equiv> priority_of wmm ety body l2"
  defines "tc \<equiv> convert_userPriority_to_trafficClass up"
  shows "\<exists>b' q'. wmi_implicit_create_pstream False b l2 wmm q = Some (tc, b', q') \<and> wmi_inv q' \<and>
    nb_head b' = nb_head b \<and> nb_data b' = WMI_DATA_HDR_SET_UP h up @ dot3_frame dst src ety body \<and>
    WMI_DATA_HDR_GET_UP (nb_data b') = up \<and> wmi_streamExistsForAC q' = wmi_streamExistsForAC q \<and>
    (if bit (wmi_fatPipeExists q) (unat tc) then q' = q
     else (\<forall>i. bit (wmi_fatPipeExists q') i \<longleftrightarrow>
         bit (wmi_fatPipeExists q) i \<or> i = unat tc \<and> (alloc_answers q = [] \<or> hd (alloc_answers q))) \<and>
       (sent q' = sent q \<or> sent q' = sent q @ [CREATE_PSTREAM (implicit_pstream tc up)]))"
  using implicit_frame [OF assms(1-8)] unfolding up_def tc_def .

lemma data_hdr_length [simp]: "length (data_hdr m f t v d) = 6"
  by (simp add: data_hdr_def)

lemma data_hdr_add_run:
  assumes "6 \<le> length (nb_head b)"
  shows "wmi_data_hdr_add dev b m flags t 0 None = Some (A_OK, b\<lparr>nb_head := drop 6 (nb_head b),
    nb_data := data_hdr m flags t 0 dev @ nb_data b\<rparr>)"
  using assms by (simp add: wmi_data_hdr_add_def wmi_meta_add_def a_netbuf_push_def nb_write_def)

text \<open>C20: a data frame on its way down and back up.  An Ethernet II frame with room for the headers is
  converted to 802.3, gets the data header and its priority; the header then says which device,
  priority and flags it was given; and taking the header off and converting back yields the
  bytes of the frame.\<close>

theorem tx_frame_roundtrip:
  fixes l2 :: "32 word"
  assumes "wmi_inv q" and "nb_data b = dix_frame dst src ety body" and "14 \<le> length (nb_head b)"
    and "length dst = 6" "length src = 6" "1536 \<le> ety" "ety < 65536" "length body + 8 < 65536"
    and "wmm \<and> ety = 0x0800 \<longrightarrow> 2 \<le> length body"
  shows "\<exists>b1 b2 tc b3 q' b4 b5. wmi_dix_2_dot3 b = Some (A_OK, b1) \<and>
    wmi_data_hdr_add dev b1 DATA_MSGTYPE flags 0 0 None = Some (A_OK, b2) \<and>
    wmi_implicit_create_pstream False b2 l2 wmm q = Some (tc, b3, q') \<and>
    WMI_DATA_HDR_GET_UP (nb_data b3) = priority_of wmm ety body l2 \<and>
    WMI_DATA_HDR_GET_DATA_TYPE (nb_data b3) = 0 \<and> WMI_DATA_HDR_GET_META (nb_data b3) = 0 \<and>
    WMI_DATA_HDR_GET_DEVID (nb_data b3) = dev AND 0xF \<and>
    WMI_DATA_HDR_HAS_MORE_BIT (nb_data b3) = bit flags WMI_DATA_HDR_FLAGS_MORE \<and>
    WMI_DATA_HDR_HAS_EOSP_BIT (nb_data b3) = bit flags WMI_DATA_HDR_FLAGS_EOSP \<and>
    wmi_data_hdr_remove b3 = Some (A_OK, b4) \<and> wmi_dot3_2_dix b4 = Some (A_OK, b5) \<and> nb_data b5 = nb_data b"
proof -
  let ?up = "priority_of wmm ety body l2" let ?h = "data_hdr DATA_MSGTYPE flags 0 0 dev"
  let ?f = "dot3_frame dst src ety body"
  let ?b1 = "b\<lparr>nb_head := drop 8 (nb_head b), nb_data := ?f\<rparr>"
  let ?b2 = "?b1\<lparr>nb_head := drop 6 (nb_head ?b1), nb_data := ?h @ ?f\<rparr>"
  have 1: "wmi_dix_2_dot3 b = Some (A_OK, ?b1)"
    by (rule dix_2_dot3_frame) (use assms in simp_all)
  have 2: "wmi_data_hdr_add dev ?b1 DATA_MSGTYPE flags 0 0 None = Some (A_OK, ?b2)"
    using assms(3) by (simp add: data_hdr_add_run)
  have m: "WMI_DATA_HDR_GET_META ?h = 0" by (simp add: data_hdr_def WMI_DATA_HDR_GET_META_def)
  let ?tc = "convert_userPriority_to_trafficClass ?up"
  have "nb_data ?b2 = ?h @ ?f" by simp
  from implicit_frame [OF assms(1) this data_hdr_length m assms(4,5,7,9), where ?l2.0 = l2]
  obtain b3 q' where 3: "wmi_implicit_create_pstream False ?b2 l2 wmm q = Some (?tc, b3, q')"
    "nb_data b3 = WMI_DATA_HDR_SET_UP ?h ?up @ ?f"
    by blast
  let ?b4 = "b3\<lparr>nb_head := rev (WMI_DATA_HDR_SET_UP ?h ?up) @ nb_head b3, nb_data := ?f\<rparr>"
  have 4: "wmi_data_hdr_remove b3 = Some (A_OK, ?b4)"
    using 3(2) by (simp add: wmi_data_hdr_remove_def a_netbuf_pull_def WMI_DATA_HDR_SET_UP_def)
  have "nb_data ?b4 = dst @ src @ be16_bytes (length body + 8) @ [0xAA, 0xAA, 0x03, 0, 0, 0] @ be16_bytes ety @ body"
    by (simp add: dot3_frame_def snap_hdr_def)
  then obtain b5 where 5: "wmi_dot3_2_dix ?b4 = Some (A_OK, b5)" "nb_data b5 = dst @ src @ be16_bytes ety @ body"
    using dot3_2_dix_frame [OF assms(4,5)] by (metis length_be16_bytes)
  have e: "nb_data b3 = WMI_DATA_HDR_SET_UP (?h @ ?f) ?up" using 3(2) set_up_front [of ?h] by simp
  note f = hdr_fields [OF e priority_and_7, simplified]
  have g: "WMI_DATA_HDR_GET_UP (nb_data b3) = ?up" unfolding e by (rule hdr_up [OF _ priority_and_7]) simp
  show ?thesis
    using 1 2 3(1) 4 5 f g assms(2) by (intro exI conjI) (assumption | simp add: dix_frame_def)+
qed

end
