(* ===== verification/StreamClaims.thy ===== *)
theory StreamClaims
  imports TxFrameProps
begin

text \<open>The properties of the stream state.\<close>

text \<open>C19: after any sequence of commands and events, whatever the allocator and the driver answered, a
  category with streams has a pipe, the driver has been told of exactly the pipes that exist, and no network
  buffer is left behind.\<close>

theorem streams_consistent:
  assumes "held q0 = []" "indicated q0 = []" "wmi_step\<^sup>*\<^sup>* (wmi_qos_state_init q0) q"
  shows "held q = [] \<and> length (wmi_streamExistsForAC q) = WMM_NUM_AC \<and>
    (\<forall>ac. active_of (indicated q) ac = bit (wmi_fatPipeExists q) ac) \<and>
    (\<forall>ac. bit (wmi_fatPipeExists q) ac \<longrightarrow> ac < WMM_NUM_AC) \<and>
    (\<forall>ac. (\<exists>t. has_stream q ac t) \<longrightarrow> bit (wmi_fatPipeExists q) ac)"
proof -
  have "wmi_inv q" by (rule wmi_reach_inv [OF assms(3) wmi_init_inv [OF assms(1,2)]])
  then show ?thesis by (auto simp: wmi_inv_def streams_ok_def has_stream_def)
qed

lemma drop_alloc: "only_sends [] q r \<Longrightarrow> only_sends m (drop_stream ac t r) q' \<Longrightarrow> only_sends m (drop_stream ac t q) q'"
  by (simp add: only_sends_def drop_stream_def close_pipe_def clear_pipe_def A_WMI_STREAM_TX_def Let_def)

text \<open>C28: deleting a stream that exists removes it from the state, with the pipe if it was the last of its
  category, whatever happens to the command.  When the deletion succeeds, what was sent is exactly a
  synchronisation point, which covers every pipe that existed, and then the command; when it fails, the
  target is not told, although the state has changed.\<close>

theorem delete_pstream_syncs:
  assumes "wmi_inv q" "has_stream q (unat tc) (unat tsid)" "alloc_answers q = [] \<or> hd (alloc_answers q)"
  shows "\<exists>st q' msgs. wmi_delete_pstream_cmd tc tsid q = Some (st, q') \<and> wmi_inv q' \<and> sent q' = sent q @ msgs \<and>
    (\<forall>i<WMM_NUM_AC. \<forall>u. has_stream q' i u \<longleftrightarrow> has_stream q i u \<and> (i, u) \<noteq> (unat tc, unat tsid)) \<and>
    (\<forall>i. bit (wmi_fatPipeExists q') i \<longleftrightarrow>
       bit (wmi_fatPipeExists q) i \<and> (i = unat tc \<longrightarrow> (\<exists>u. has_stream q' i u))) \<and>
    (if st = A_OK then msgs = SYNCHRONIZE (wmi_fatPipeExists q) # map DATA_SYNC (pipes (wmi_fatPipeExists q)) @ [DELETE_PSTREAM tc tsid]
     else DELETE_PSTREAM tc tsid \<notin> set msgs)"
proof -
  let ?d = "drop_stream (unat tc) (unat tsid) q"
  have ac: "unat tc < WMM_NUM_AC" using assms(2) by (simp add: has_stream_def)
  then have tc: "tc \<le> 3" by (simp add: word_le_nat_alt)
  have ok: "streams_ok q" using assms(1) by (simp add: wmi_inv_def)
  obtain st q' r msgs where q': "wmi_delete_pstream_cmd tc tsid q = Some (st, q')" "wmi_inv q'" "only_sends [] q r"
    "only_sends msgs (drop_stream (unat tc) (unat tsid) r) q'"
    "if st = A_OK then msgs = sync_msgs (wmi_fatPipeExists q) @ [DELETE_PSTREAM tc tsid]
     else set msgs \<subseteq> set (sync_msgs (wmi_fatPipeExists q))"
    using delete_ok [OF assms(1), of tc tsid] assms(2,3) tc by auto
  have o: "only_sends msgs ?d q'" by (rule drop_alloc [OF q'(3,4)])
  then have e: "wmi_fatPipeExists q' = wmi_fatPipeExists ?d" "has_stream q' = has_stream ?d" "sent q' = sent q @ msgs"
    by (simp_all add: only_sends_def has_stream_def fun_eq_iff)
  have "DELETE_PSTREAM tc tsid \<notin> set (sync_msgs m)" for m by (auto simp: sync_msgs_def)
  then have "if st = A_OK then msgs = SYNCHRONIZE (wmi_fatPipeExists q) # map DATA_SYNC (pipes (wmi_fatPipeExists q)) @ [DELETE_PSTREAM tc tsid]
     else DELETE_PSTREAM tc tsid \<notin> set msgs"
    using q'(5) by (auto simp: sync_msgs_def split: if_splits)
  then show ?thesis
    using q'(1,2) drop_stream_ok(2,3) [OF ok ac assms(2)] unfolding e(1,2) e(3) [symmetric]
    by (intro exI [of _ st] exI [of _ q'] exI [of _ msgs]) (simp add: e)
qed

text \<open>C35: adding a key with a synchronisation point on both sides frees its buffer twice when the second
  point fails: the driver has the buffer already, and the caller frees it because of the status.\<close>

theorem addKey_second_sync_double_free:
  assumes "wmi_inv q" "ki \<le> WMI_MAX_KEY_INDEX" "unat kl \<le> WMI_MAX_KEY_LEN" "unat kl \<le> length key"
    and "length rsc = 8" "length mac = 6"
    and "alloc_answers q = replicate (2 + length (pipes (wmi_fatPipeExists q))) True @ [False]" "tx_answers q = []"
  shows "wmi_addKey_cmd ki kt ku kl (Some rsc) (Some key) op (Some mac) SYNC_BOTH_WMIFLAG q = None"
proof -
  have b: "bufs_ok q" "held q = []" using assms(1) by (simp_all add: wmi_inv_def)
  let ?b = "next_osbuf q"
  let ?q = "q\<lparr>alloc_answers := tl (alloc_answers q), held := [?b], next_osbuf := Suc ?b\<rparr>"
  have al: "A_NETBUF_ALLOC q = (Some ?b, ?q)" using assms(7) b(2) by (simp add: A_NETBUF_ALLOC_def Let_def)
  have "bufs_ok ?q" by (simp add: bufs_ok_def)
  moreover have "plenty (Suc (length (pipes (wmi_fatPipeExists ?q)))) [False] ?q"
    using assms(7,8) by (simp add: plenty_def)
  ultimately have "send_or_free ?b cmd SYNC_BOTH_WMIFLAG ?q = None" for cmd
    using both_double_free [of ?q ?b "[]"] by simp
  then show ?thesis using assms(2-6) al by (simp add: wmi_addKey_cmd_def or_zeros_def)
qed

text \<open>The indication that admission control deleted the only stream of a category closes the pipe for a
  stream number below 8; for a greater one the stream goes but the pipe stays and the driver is not told,
  because the bit is kept in a byte.\<close>

theorem cac_delete_keeps_pipe:
  assumes "wmi_inv q" "66 \<le> length datap" "datap ! 1 = CAC_INDICATION_DELETE" "unat (datap ! 0) = ac" "unat (tspec_tsid datap) = t"
    and "ac < WMM_NUM_AC" "\<forall>u. has_stream q ac u \<longleftrightarrow> u = t"
  shows "\<exists>q'. wmi_cac_event_rx datap q = Some (A_OK, q') \<and> (\<forall>u. \<not> has_stream q' ac u) \<and>
    (if t < 8 then \<not> bit (wmi_fatPipeExists q') ac \<and> indicated q' = indicated q @ [(ac, False)]
     else bit (wmi_fatPipeExists q') ac \<and> indicated q' = indicated q)"
proof -
  have hs: "has_stream q ac t" using assms(7) by simp
  have ok: "streams_ok q" and len: "length (wmi_streamExistsForAC q) = WMM_NUM_AC"
    using assms(1) by (simp_all add: wmi_inv_def streams_ok_def)
  have fat: "bit (wmi_fatPipeExists q) ac" using ok assms(6) hs by (auto simp: streams_ok_def has_stream_def)
  let ?w = "wmi_streamExistsForAC q ! ac AND NOT (push_bit t 1)"
  have "bit (wmi_streamExistsForAC q ! ac) u \<longleftrightarrow> u = t" for u using assms(6,7) by (simp add: has_stream_def)
  then have w: "?w = 0" by (intro bit_word_eqI) (auto simp: bit_simps)
  have run: "wmi_cac_event_rx datap q = Some (A_OK, if t < 8 then drop_stream ac t q
       else q\<lparr>wmi_streamExistsForAC := (wmi_streamExistsForAC q)[ac := ?w]\<rparr>)"
    using cac_delete_run [OF assms(1-3)] assms(4-6) hs by simp
  show ?thesis
  proof (cases "t < 8")
    case True
    then show ?thesis using run w len assms(6) fat
      by (simp add: drop_stream_def close_pipe_def clear_pipe_def A_WMI_STREAM_TX_def has_stream_def bit_clear_byte)
  next
    case False
    then show ?thesis using run w len assms(6) fat by (simp add: has_stream_def)
  qed
qed

end
