(* ===== verification/StreamWitness.thy ===== *)
theory StreamWitness
  imports StreamClaims
begin

text \<open>A stream state with pipes for best effort and video, and stream 3 in the former.\<close>

definition demo_streams :: wmi_priv_t where
  "demo_streams = \<lparr>wmi_fatPipeExists = 5, wmi_streamExistsForAC = [8, 0, 0, 0], sent = [],
     indicated = [(0, True), (2, True)], held = [], next_osbuf = 0, alloc_answers = [], tx_answers = []\<rparr>"

declare bit_numeral_word_iff [simp del]

lemma bit_5: "bit (5 :: byte) i \<longleftrightarrow> i = 0 \<or> i = 2"
proof -
  have "(5 :: byte) = 1 OR 2 ^ 2" by simp
  then show ?thesis using bit_set_byte [of 2 1 i] by (auto simp: bit_1_iff)
qed

lemma bit_8: "bit (8 :: 16 word) i \<longleftrightarrow> i = 3"
proof -
  have "(8 :: 16 word) = push_bit 3 1" by simp
  then show ?thesis unfolding \<open>8 = push_bit 3 1\<close> by (simp only: bit_push_bit_iff bit_1_iff possible_bit_word, auto)
qed

lemma less_4: "(\<forall>i<4. P i) \<longleftrightarrow> P 0 \<and> P 1 \<and> P 2 \<and> P (3 :: nat)"
  by (auto simp: numeral_eq_Suc less_Suc_eq)

lemma demo_streams_inv: "wmi_inv demo_streams"
  by (auto simp: wmi_inv_def streams_ok_def bufs_ok_def demo_streams_def bit_5 less_4 active_of_def fun_eq_iff)

lemma demo_pipes: "pipes 5 = [0, 2]"
  by (simp add: pipes_def upt_rec bit_5)

definition fresh_wmi :: wmi_priv_t where
  "fresh_wmi = demo_streams\<lparr>wmi_fatPipeExists := 7, indicated := []\<rparr>"

theorem streams_consistent_witness:
  "\<exists>q. wmi_create_pstream_cmd (implicit_pstream 2 5) (wmi_qos_state_init fresh_wmi) = Some (A_OK, q) \<and>
     held q = [] \<and> active_of (indicated q) 2 = bit (wmi_fatPipeExists q) 2"
proof -
  let ?q = "wmi_qos_state_init fresh_wmi"
  let ?q' = "?q\<lparr>wmi_fatPipeExists := 4, sent := [CREATE_PSTREAM (implicit_pstream 2 5)], indicated := [(2, True)], next_osbuf := 1\<rparr>"
  have run: "wmi_create_pstream_cmd (implicit_pstream 2 5) ?q = Some (A_OK, ?q')"
    by (simp add: wmi_create_pstream_cmd_def valid_pstream_def implicit_pstream_def phy_rate_def
        convert_userPriority_to_trafficClass_def up_to_ac_def A_NETBUF_ALLOC_def wmi_qos_state_init_def fresh_wmi_def
        demo_streams_def set_pipe_def A_WMI_STREAM_TX_def send_or_free_def wmi_cmd_send_def A_WMI_CONTROL_TX_def Let_def)
  have "wmi_step\<^sup>*\<^sup>* ?q ?q'" using wmi_step.create [OF run] by simp
  moreover have "held fresh_wmi = []" "indicated fresh_wmi = []" by (simp_all add: fresh_wmi_def demo_streams_def)
  ultimately show ?thesis using run streams_consistent [of fresh_wmi ?q'] by blast
qed

theorem delete_pstream_syncs_witness:
  "\<exists>st q' msgs. wmi_delete_pstream_cmd 0 3 demo_streams = Some (st, q') \<and> wmi_inv q' \<and> sent q' = sent demo_streams @ msgs"
proof -
  have h: "has_stream demo_streams (unat (0 :: byte)) (unat (3 :: byte))"
    by (simp add: has_stream_def demo_streams_def bit_8)
  have a: "alloc_answers demo_streams = [] \<or> hd (alloc_answers demo_streams)" by (simp add: demo_streams_def)
  show ?thesis using delete_pstream_syncs [OF demo_streams_inv h a]
    by (elim exE conjE) (intro exI conjI; assumption)
qed

theorem addKey_second_sync_double_free_witness:
  "wmi_addKey_cmd 0 8 0 16 (Some (replicate 8 0)) (Some (replicate 16 1)) 1 (Some (replicate 6 2)) SYNC_BOTH_WMIFLAG
     (demo_streams\<lparr>alloc_answers := [True, True, True, True, False]\<rparr>) = None"
proof (rule addKey_second_sync_double_free)
  show "wmi_inv (demo_streams\<lparr>alloc_answers := [True, True, True, True, False]\<rparr>)"
    using demo_streams_inv by (simp add: wmi_inv_def streams_ok_def bufs_ok_def)
  show "alloc_answers (demo_streams\<lparr>alloc_answers := [True, True, True, True, False]\<rparr>) =
      replicate (2 + length (pipes (wmi_fatPipeExists (demo_streams\<lparr>alloc_answers := [True, True, True, True, False]\<rparr>)))) True @ [False]"
    by (simp add: demo_streams_def demo_pipes numeral_eq_Suc)
qed (simp_all add: demo_streams_def)

text \<open>An indication for stream 3 of best effort, and one for stream 9 of background.\<close>

definition cac_event :: "byte \<Rightarrow> byte \<Rightarrow> bytes" where
  "cac_event ac tsid = [ac, CAC_INDICATION_DELETE, 0] @ replicate 8 0 @ [2 * tsid, 0] @ replicate 53 0"

theorem cac_delete_keeps_pipe_witness:
  "\<exists>q'. wmi_cac_event_rx (cac_event 0 9) (demo_streams\<lparr>wmi_streamExistsForAC := [512, 0, 0, 0]\<rparr>) = Some (A_OK, q') \<and>
     bit (wmi_fatPipeExists q') 0 \<and> indicated q' = [(0, True), (2, True)]"
proof -
  let ?q = "demo_streams\<lparr>wmi_streamExistsForAC := [512, 0, 0, 0]\<rparr>"
  have b: "bit (512 :: 16 word) i \<longleftrightarrow> i = 9" for i
  proof -
    have "(512 :: 16 word) = push_bit 9 1" by simp
    then show ?thesis unfolding \<open>512 = push_bit 9 1\<close> by (simp only: bit_push_bit_iff bit_1_iff possible_bit_word, auto)
  qed
  have inv: "wmi_inv ?q"
    by (auto simp: wmi_inv_def streams_ok_def bufs_ok_def demo_streams_def bit_5 less_4 active_of_def fun_eq_iff)
  have ev: "66 \<le> length (cac_event 0 9)" "cac_event 0 9 ! 1 = CAC_INDICATION_DELETE" "unat (cac_event 0 9 ! 0) = 0"
    "unat (tspec_tsid (cac_event 0 9)) = 9"
    by (simp_all add: cac_event_def tspec_tsid_def le16_def nth_append nth_Cons')
  have "\<forall>u. has_stream ?q 0 u \<longleftrightarrow> u = 9" by (simp add: has_stream_def b)
  then show ?thesis using cac_delete_keeps_pipe [OF inv ev] by (simp add: demo_streams_def) blast
qed

text \<open>An IP packet of precedence 5 in a best-effort frame opens the pipe for video, which exists; without
  IP the layer 2 priority 6 is the one of voice.\<close>

definition demo_frame :: "nat \<Rightarrow> netbuf" where
  "demo_frame ety = \<lparr>nb_head = replicate 20 0, nb_data = dix_frame [1, 2, 3, 4, 5, 6] [7, 8, 9, 10, 11, 12] ety [0x45, 0xA0, 0, 20]\<rparr>"

theorem implicit_pstream_opens_pipe_witness:
  "\<exists>b' q'. wmi_implicit_create_pstream False (demo_frame 0x88B5\<lparr>nb_data := data_hdr 0 0 0 0 1 @
       dot3_frame [1, 2, 3, 4, 5, 6] [7, 8, 9, 10, 11, 12] 0x88B5 [1]\<rparr>) 6 True demo_streams = Some (3, b', q') \<and>
     wmi_inv q' \<and> bit (wmi_fatPipeExists q') 3"
proof -
  let ?b = "demo_frame 0x88B5\<lparr>nb_data := data_hdr 0 0 0 0 1 @ dot3_frame [1, 2, 3, 4, 5, 6] [7, 8, 9, 10, 11, 12] 0x88B5 [1]\<rparr>"
  have d: "nb_data ?b = data_hdr 0 0 0 0 1 @ dot3_frame [1, 2, 3, 4, 5, 6] [7, 8, 9, 10, 11, 12] 0x88B5 [1]" by simp
  have p: "priority_of True 0x88B5 [1] 6 = 6" by (simp add: priority_of_def)
  have t: "convert_userPriority_to_trafficClass 6 = 3" by (simp add: convert_userPriority_to_trafficClass_def up_to_ac_def)
  have m: "WMI_DATA_HDR_GET_META (data_hdr 0 0 0 0 1) = 0" by (simp add: data_hdr_def WMI_DATA_HDR_GET_META_def)
  have f: "\<not> bit (wmi_fatPipeExists demo_streams) 3" "alloc_answers demo_streams = []" by (simp_all add: demo_streams_def bit_5)
  show ?thesis
    using implicit_pstream_opens_pipe [OF demo_streams_inv d data_hdr_length m, where ?l2.0 = 6 and wmm = True]
    by (simp add: p t f) blast
qed

theorem tx_frame_roundtrip_witness:
  "\<exists>b1 b2 tc b3 q' b4 b5. wmi_dix_2_dot3 (demo_frame 0x0800) = Some (A_OK, b1) \<and>
    wmi_data_hdr_add 1 b1 0 1 0 0 None = Some (A_OK, b2) \<and>
    wmi_implicit_create_pstream False b2 0 True demo_streams = Some (tc, b3, q') \<and>
    WMI_DATA_HDR_GET_UP (nb_data b3) = 5 \<and> WMI_DATA_HDR_GET_DEVID (nb_data b3) = 1 \<and> WMI_DATA_HDR_HAS_MORE_BIT (nb_data b3) \<and>
    wmi_data_hdr_remove b3 = Some (A_OK, b4) \<and> wmi_dot3_2_dix b4 = Some (A_OK, b5) \<and> nb_data b5 = nb_data (demo_frame 0x0800)"
proof -
  have d: "nb_data (demo_frame 0x0800) = dix_frame [1, 2, 3, 4, 5, 6] [7, 8, 9, 10, 11, 12] 0x0800 [0x45, 0xA0, 0, 20]"
    by (simp add: demo_frame_def)
  have p: "priority_of True 0x0800 [0x45, 0xA0, 0, 20] 0 = 5" by (simp add: priority_of_def ip_precedence_def max_def)
  have h: "14 \<le> length (nb_head (demo_frame 0x0800))" by (simp add: demo_frame_def)
  show ?thesis
    using tx_frame_roundtrip [OF demo_streams_inv d h, where ?l2.0 = 0 and wmm = True and dev = 1 and flags = 1]
    by (simp add: p) (elim exE conjE, intro exI conjI; assumption)
qed

end
