(* ===== verification/DriverTx.thy ===== *)
theory DriverTx
  imports TxFrames
begin

text \<open>
  The transmit path of the Linux driver: frames from the network stack, the queues for sleeping stations
  of an access point, the packets handed to HTC with their cookies, and their completion.  The code
  is in \<open>host/os/linux/ar6000_drv.c\<close>.

  A frame is a record with a number of its own, which a copy of the frame keeps.  \<open>in_htc\<close> has the
  packets that HTC owns, \<open>freed\<close> the frames given back to the system, both in order.  Commands that WMI
  sends go through \<open>ar6000_control_tx\<close> and so use cookies of the same pool.  An access outside
  an array is a fault (\<open>None\<close>).

  \<open>pm_tx_blocked\<close> stands for the tests of the power management (\<open>arWowState\<close> and \<open>arWlanState\<close>), \<open>tcmd_mode\<close>
  for the test mode of the target; the module parameters are fields of the state too.  Statistics are
  left out.  \<open>fresh_headroom\<close> is what the headroom of a new buffer holds, and \<open>stack_bytes\<close> the bytes of an
  uninitialised MAC header.
\<close>

subsection \<open>Data\<close>

datatype NETWORK_TYPE = INFRA_NETWORK | ADHOC_NETWORK | ADHOC_CREATOR | AP_NETWORK

text \<open>\<open>skb_csum\<close> is there for frames whose checksum the target shall fill in: where it starts and where it
  goes, as offsets from the payload.\<close>

record sk_buff =
  skb_id :: nat
  skb_nb :: netbuf
  skb_priority :: "32 word"
  skb_csum :: "(byte \<times> byte) option"

text \<open>A station that is associated with one of the access points.\<close>

record conn_t =
  conn_flags :: "16 word"
  conn_mac :: bytes
  conn_aid :: byte
  apsd_info :: byte
  psq :: "sk_buff list"
  apsdq :: "sk_buff list"
  conn_arPriv :: "nat option"

record ar_node_mapping =
  nm_macAddress :: bytes
  nm_epId :: nat
  nm_txPending :: byte

record AR_SOFTC_DEV_T =
  arNetworkType :: NETWORK_TYPE
  arConnected :: bool
  arWmmEnabled :: bool
  arWmiEnabled :: bool
  arNetQueueStopped :: bool
  wmi_is_wmm_enabled :: bool
  arIbssPsEnable :: bool
  arNodeMap :: "ar_node_mapping list"
  arNodeNum :: nat
  arNexEpId :: nat
  mcastpsq :: "sk_buff list"
  DTIMExpired :: bool
  sta_list_index :: byte

text \<open>What a packet carries: a frame, or a command of the WMI layer of a device.\<close>

datatype tx_payload = FRAME sk_buff | COMMAND nat wmi_msg

datatype HTC_TX_TAG = AR6K_CONTROL_PKT_TAG | AR6K_DATA_PKT_TAG

record tx_packet =
  pkt_cookie :: nat
  pkt_mapNo :: nat
  pkt_endpoint :: nat
  pkt_tag :: HTC_TX_TAG
  pkt_payload :: tx_payload

record AR_SOFTC_T =
  arDev :: "AR_SOFTC_DEV_T list"
  connTbl :: "conn_t list"
  arWmiReady :: bool
  arTxPending :: "int list"
  arTotalTxDataPending :: int
  arCookieList :: "nat list"
  arCookieCount :: nat
  arControlEp :: nat
  arWMIControlEpFull :: bool
  arAc2EpMapping :: "nat list"
  arEp2AcMapping :: "nat list"
  arAcStreamActive :: "bool list"
  arAcStreamPriMap :: "nat list"
  arHiAcStreamActivePri :: nat
  pWmiPriv :: wmi_priv_t
  in_htc :: "tx_packet list"
  htc_activity :: "(nat \<times> bool) list"
  freed :: "sk_buff list"
  netif_running :: "bool list"
  skb_answers :: "bool list"
  pm_tx_blocked :: bool
  wow_suspended :: bool
  tcmd_mode :: bool
  bypasswmi :: bool
  processDot11Hdr :: bool
  csumOffload :: bool
  needed_headroom :: nat
  fresh_headroom :: bytes
  stack_bytes :: bytes

abbreviation (input) ENDPOINT_UNUSED :: nat where "ENDPOINT_UNUSED \<equiv> 255"
abbreviation (input) ENDPOINT_2 :: nat where "ENDPOINT_2 \<equiv> 2"
abbreviation (input) ENDPOINT_5 :: nat where "ENDPOINT_5 \<equiv> 5"
abbreviation (input) MAX_COOKIE_NUM :: nat where "MAX_COOKIE_NUM \<equiv> 165"
abbreviation (input) MAX_HI_COOKIE_NUM :: nat where "MAX_HI_COOKIE_NUM \<equiv> 15"
abbreviation (input) NUM_CONN :: nat where "NUM_CONN \<equiv> 13"
abbreviation (input) MCAST_AID :: "16 word" where "MCAST_AID \<equiv> 0xFF"

definition arPriv :: "nat \<Rightarrow> AR_SOFTC_T \<Rightarrow> AR_SOFTC_DEV_T option" where
  "arPriv d ar = at (arDev ar) d"

definition upd_dev :: "nat \<Rightarrow> (AR_SOFTC_DEV_T \<Rightarrow> AR_SOFTC_DEV_T) \<Rightarrow> AR_SOFTC_T \<Rightarrow> AR_SOFTC_T" where
  "upd_dev d f ar = ar\<lparr>arDev := (arDev ar)[d := f (arDev ar ! d)]\<rparr>"

definition upd_conn :: "nat \<Rightarrow> (conn_t \<Rightarrow> conn_t) \<Rightarrow> AR_SOFTC_T \<Rightarrow> AR_SOFTC_T" where
  "upd_conn i f ar = ar\<lparr>connTbl := (connTbl ar)[i := f (connTbl ar ! i)]\<rparr>"

text \<open>The flags of a station.\<close>

abbreviation (input) PWR_SLEEP :: nat where "PWR_SLEEP \<equiv> 0"
abbreviation (input) PS_POLLED :: nat where "PS_POLLED \<equiv> 1"
abbreviation (input) APSD_TRIGGER :: nat where "APSD_TRIGGER \<equiv> 2"
abbreviation (input) APSD_EOSP :: nat where "APSD_EOSP \<equiv> 3"

definition STA_IS :: "nat \<Rightarrow> conn_t \<Rightarrow> bool" where
  "STA_IS n c \<longleftrightarrow> bit (conn_flags c) n"

definition STA_SET :: "nat \<Rightarrow> conn_t \<Rightarrow> conn_t" where
  "STA_SET n c = c\<lparr>conn_flags := conn_flags c OR push_bit n 1\<rparr>"

definition STA_CLR :: "nat \<Rightarrow> conn_t \<Rightarrow> conn_t" where
  "STA_CLR n c = c\<lparr>conn_flags := conn_flags c AND NOT (push_bit n 1)\<rparr>"

subsection \<open>Cookies\<close>

definition ar6000_free_cookie :: "nat \<Rightarrow> AR_SOFTC_T \<Rightarrow> AR_SOFTC_T" where
  "ar6000_free_cookie cookie ar =
     ar\<lparr>arCookieList := cookie # arCookieList ar, arCookieCount := arCookieCount ar + 1\<rparr>"

definition ar6000_cookie_init :: "AR_SOFTC_T \<Rightarrow> AR_SOFTC_T" where
  "ar6000_cookie_init ar = fold ar6000_free_cookie [0..<MAX_COOKIE_NUM] (ar\<lparr>arCookieList := [], arCookieCount := 0\<rparr>)"

definition ar6000_cookie_cleanup :: "AR_SOFTC_T \<Rightarrow> AR_SOFTC_T" where
  "ar6000_cookie_cleanup ar = ar\<lparr>arCookieList := [], arCookieCount := 0\<rparr>"

definition ar6000_alloc_cookie :: "AR_SOFTC_T \<Rightarrow> nat option \<times> AR_SOFTC_T" where
  "ar6000_alloc_cookie ar = (case arCookieList ar of
       [] \<Rightarrow> (None, ar)
     | c # cs \<Rightarrow> (Some c, ar\<lparr>arCookieList := cs, arCookieCount := arCookieCount ar - 1\<rparr>))"

definition HTCSendPkt :: "tx_packet \<Rightarrow> AR_SOFTC_T \<Rightarrow> AR_SOFTC_T" where
  "HTCSendPkt p ar = ar\<lparr>in_htc := in_htc ar @ [p]\<rparr>"

text \<open>The counts of a packet that is handed to endpoint \<open>eid\<close>.\<close>

definition count_pending :: "nat \<Rightarrow> bool \<Rightarrow> AR_SOFTC_T \<Rightarrow> AR_SOFTC_T option" where
  "count_pending eid is_data ar = do {
     n \<leftarrow> at (arTxPending ar) eid;
     Some (ar\<lparr>arTxPending := (arTxPending ar)[eid := n + 1],
             arTotalTxDataPending := arTotalTxDataPending ar + (if is_data then 1 else 0)\<rparr>)
   }"

subsection \<open>Commands and indications of the WMI layer\<close>

definition ar6000_control_tx :: "nat \<Rightarrow> wmi_msg \<Rightarrow> nat \<Rightarrow> AR_SOFTC_T \<Rightarrow> (A_STATUS \<times> AR_SOFTC_T) option" where
  "ar6000_control_tx d osbuf eid ar =
     (if wow_suspended ar then Some (A_EACCES, ar)
      else (case (if arWMIControlEpFull ar \<and> eid = arControlEp ar then (None, ar) else ar6000_alloc_cookie ar) of
          (None, ar) \<Rightarrow> Some (A_NO_MEMORY, ar)
        | (Some cookie, ar) \<Rightarrow> do {
            ar \<leftarrow> count_pending eid (eid \<noteq> arControlEp ar) ar;
            Some (A_OK, HTCSendPkt \<lparr>pkt_cookie = cookie, pkt_mapNo = 0, pkt_endpoint = eid,
              pkt_tag = AR6K_CONTROL_PKT_TAG, pkt_payload = COMMAND d osbuf\<rparr> ar)
          }))"

text \<open>The greatest priority of the active categories, as the loop computes it.\<close>

definition highest_active :: "AR_SOFTC_T \<Rightarrow> nat" where
  "highest_active ar = fold (\<lambda>i m. if arAcStreamActive ar ! i \<and> arAcStreamPriMap ar ! i > m then arAcStreamPriMap ar ! i else m)
     [0..<WMM_NUM_AC] 0"

definition ar6000_indicate_tx_activity :: "nat \<Rightarrow> bool \<Rightarrow> AR_SOFTC_T \<Rightarrow> AR_SOFTC_T option" where
  "ar6000_indicate_tx_activity TrafficClass Active ar = do {
     eid \<leftarrow> at (arAc2EpMapping ar) TrafficClass;
     ar \<leftarrow> (if arWmiReady ar then do {
         active \<leftarrow> put (arAcStreamActive ar) TrafficClass Active;
         pri \<leftarrow> at (arAcStreamPriMap ar) TrafficClass;
         let ar = ar\<lparr>arAcStreamActive := active\<rparr>;
         Some (if Active then (if pri > arHiAcStreamActivePri ar then ar\<lparr>arHiAcStreamActivePri := pri\<rparr> else ar)
               else (if arHiAcStreamActivePri ar = pri then ar\<lparr>arHiAcStreamActivePri := highest_active ar\<rparr> else ar))
       } else Some ar);
     Some (ar\<lparr>htc_activity := htc_activity ar @ [(eid, Active)]\<rparr>)
   }"

fun indicate_all :: "(nat \<times> bool) list \<Rightarrow> AR_SOFTC_T \<Rightarrow> AR_SOFTC_T option" where
  "indicate_all [] ar = Some ar"
| "indicate_all ((ac, b) # xs) ar = Option.bind (ar6000_indicate_tx_activity ac b ar) (indicate_all xs)"

fun control_all :: "nat \<Rightarrow> wmi_msg list \<Rightarrow> AR_SOFTC_T \<Rightarrow> AR_SOFTC_T option" where
  "control_all d [] ar = Some ar"
| "control_all d (m # ms) ar = do {
     (st, ar) \<leftarrow> ar6000_control_tx d m (arControlEp ar) ar;
     control_all d ms ar
   }"

text \<open>A call of the WMI layer that sends at most one command: the answer of the driver to it is that of
  \<open>ar6000_control_tx\<close>, and the indications and the command that the call made have their effect.\<close>

definition wmi_call :: "nat \<Rightarrow> (wmi_priv_t \<Rightarrow> ('r \<times> wmi_priv_t) option) \<Rightarrow> AR_SOFTC_T \<Rightarrow> ('r \<times> AR_SOFTC_T) option" where
  "wmi_call d f ar = do {
     let q = pWmiPriv ar;
     (st, _) \<leftarrow> ar6000_control_tx d (SYNCHRONIZE 0) (arControlEp ar) ar;
     (r, q') \<leftarrow> f (q\<lparr>tx_answers := [st]\<rparr>);
     ar \<leftarrow> indicate_all (drop (length (indicated q)) (indicated q')) (ar\<lparr>pWmiPriv := q'\<rparr>);
     ar \<leftarrow> control_all d (drop (length (sent q)) (sent q')) ar;
     Some (r, ar)
   }"

definition wmi_set_pvb_cmd :: "16 word \<Rightarrow> bool \<Rightarrow> wmi_priv_t \<Rightarrow> (A_STATUS \<times> wmi_priv_t) option" where
  "wmi_set_pvb_cmd aid flag q = (case A_NETBUF_ALLOC q of
       (None, q) \<Rightarrow> Some (A_NO_MEMORY, q)
     | (Some osbuf, q) \<Rightarrow> send_or_free osbuf (AP_SET_PVB aid flag) NO_SYNC_WMIFLAG q)"

definition wmi_set_apsd_buffered_traffic_cmd :: "16 word \<Rightarrow> 16 word \<Rightarrow> 32 word \<Rightarrow> wmi_priv_t \<Rightarrow>
    (A_STATUS \<times> wmi_priv_t) option" where
  "wmi_set_apsd_buffered_traffic_cmd aid bitmap flags q = (case A_NETBUF_ALLOC q of
       (None, q) \<Rightarrow> Some (A_NO_MEMORY, q)
     | (Some osbuf, q) \<Rightarrow> send_or_free osbuf (AP_APSD_BUFFERED_TRAFFIC aid bitmap flags) NO_SYNC_WMIFLAG q)"

definition find_index :: "('a \<Rightarrow> bool) \<Rightarrow> 'a list \<Rightarrow> nat option" where
  "find_index P xs = find (\<lambda>i. P (xs ! i)) [0..<length xs]"

subsection \<open>Stations\<close>

definition ieee80211_find_conn :: "bytes \<Rightarrow> AR_SOFTC_T \<Rightarrow> nat option" where
  "ieee80211_find_conn node_addr ar =
     (if node_addr = replicate 6 0 then None else find_index (\<lambda>c. conn_mac c = node_addr) (connTbl ar))"

definition ieee80211_find_conn_for_aid :: "nat \<Rightarrow> byte \<Rightarrow> AR_SOFTC_T \<Rightarrow> nat option option" where
  "ieee80211_find_conn_for_aid d aid ar = do {
     dev \<leftarrow> arPriv d ar;
     if arNetworkType dev \<noteq> AP_NETWORK then Some None
     else if aid > 0 \<and> unat aid < NUM_CONN then do {
       c \<leftarrow> at (connTbl ar) (unat aid - 1);
       Some (if conn_aid c = aid then Some (unat aid - 1) else None)
     }
     else Some None
   }"

subsection \<open>Frames for sleeping stations\<close>

definition IEEE80211_IS_MULTICAST :: "bytes \<Rightarrow> bool" where
  "IEEE80211_IS_MULTICAST addr \<longleftrightarrow> bit (addr ! 0) 0"

text \<open>The test for a station that gets the frame when it asks for it: its category is delivery enabled.\<close>

definition apsd_priority :: "bool \<Rightarrow> bytes \<Rightarrow> byte option" where
  "apsd_priority wmm datap =
     (if \<not> wmm then Some 0
      else do {
        ty \<leftarrow> blk 12 2 datap;
        (etherType, ipHdr) \<leftarrow> (if IS_ETHERTYPE (be16 (ty ! 0) (ty ! 1)) then Some (ty, 14)
           else map_option (\<lambda>e. (e, 22)) (blk 20 2 datap));
        if etherType = [0x08, 0x00] then wmi_determine_userPriority datap ipHdr 0 else Some 0
      })"

definition apsd_delivery :: "bool \<Rightarrow> conn_t \<Rightarrow> bytes \<Rightarrow> bool option" where
  "apsd_delivery wmm c datap =
     (if apsd_info c = 0 then Some False
      else do {
        up \<leftarrow> apsd_priority wmm datap;
        Some (bit (apsd_info c) (unat (convert_userPriority_to_trafficClass up)))
      })"

text \<open>The results: the frame was queued (\<open>None\<close>), or it goes on with the flags for its header.\<close>

definition hold_multicast :: "nat \<Rightarrow> sk_buff \<Rightarrow> AR_SOFTC_T \<Rightarrow> (32 word option \<times> AR_SOFTC_T) option" where
  "hold_multicast d skb ar = do {
     dev \<leftarrow> arPriv d ar;
     if \<not> list_ex (\<lambda>c. conn_arPriv c = Some d \<and> STA_IS PWR_SLEEP c) (connTbl ar) then Some (Some 0, ar)
     else if \<not> DTIMExpired dev then do {
       let ar = upd_dev d (\<lambda>x. x\<lparr>mcastpsq := mcastpsq x @ [skb]\<rparr>) ar;
       if mcastpsq dev = [] then map_option (\<lambda>(_, ar). (None, ar)) (wmi_call d (wmi_set_pvb_cmd MCAST_AID True) ar)
       else Some (None, ar)
     }
     else Some (Some (if mcastpsq dev \<noteq> [] then 1 else 0), ar)
   }"

definition hold_for_station :: "nat \<Rightarrow> nat \<Rightarrow> sk_buff \<Rightarrow> AR_SOFTC_T \<Rightarrow> (32 word option \<times> AR_SOFTC_T) option" where
  "hold_for_station d i skb ar = do {
     dev \<leftarrow> arPriv d ar;
     conn \<leftarrow> at (connTbl ar) i;
     if \<not> STA_IS PWR_SLEEP conn then Some (Some 0, ar)
     else if \<not> (STA_IS PS_POLLED conn \<or> STA_IS APSD_TRIGGER conn) then do {
       trigger \<leftarrow> apsd_delivery (arWmmEnabled dev) conn (nb_data (skb_nb skb));
       if trigger then do {
         let ar = upd_conn i (\<lambda>c. c\<lparr>apsdq := apsdq c @ [skb]\<rparr>) ar;
         if apsdq conn = []
         then map_option (\<lambda>(_, ar). (None, ar)) (wmi_call d (wmi_set_apsd_buffered_traffic_cmd (ucast (conn_aid conn)) 1 0) ar)
         else Some (None, ar)
       }
       else do {
         let ar = upd_conn i (\<lambda>c. c\<lparr>psq := psq c @ [skb]\<rparr>) ar;
         if psq conn = [] then map_option (\<lambda>(_, ar). (None, ar)) (wmi_call d (wmi_set_pvb_cmd (ucast (conn_aid conn)) True) ar)
         else Some (None, ar)
       }
     }
     else Some (Some (if STA_IS PS_POLLED conn then (if psq conn \<noteq> [] then 1 else 0)
         else (if apsdq conn \<noteq> [] then 1 else 0) OR (if STA_IS APSD_EOSP conn then 2 else 0)), ar)
   }"

definition A_NETBUF_FREE_SKB :: "sk_buff \<Rightarrow> AR_SOFTC_T \<Rightarrow> AR_SOFTC_T" where
  "A_NETBUF_FREE_SKB skb ar = ar\<lparr>freed := freed ar @ [skb]\<rparr>"

text \<open>The power save processing of an access point.  A frame for an unknown station is dropped.\<close>

definition ap_power_save :: "nat \<Rightarrow> sk_buff \<Rightarrow> AR_SOFTC_T \<Rightarrow> (32 word option \<times> AR_SOFTC_T) option" where
  "ap_power_save d skb ar = do {
     dstMac \<leftarrow> blk 0 6 (nb_data (skb_nb skb));
     if IEEE80211_IS_MULTICAST dstMac then hold_multicast d skb ar
     else (case ieee80211_find_conn dstMac ar of
         None \<Rightarrow> Some (None, A_NETBUF_FREE_SKB skb ar)
       | Some i \<Rightarrow> hold_for_station d i skb ar)
   }"

end
