(* ===== verification/DriverPath.thy ===== *)
theory DriverPath
  imports DriverTx
begin

text \<open>
  The transmit function of the driver, the callbacks of HTC, and the events that release the frames of
  sleeping stations: \<open>ar6000_data_tx\<close>, \<open>ar6000_tx_queue_full\<close>, \<open>ar6000_tx_complete\<close>, \<open>ar6000_pspoll_event\<close>,
  \<open>ar6000_dtimexpiry_event\<close> and the power save part of \<open>ar6000_rx\<close> in \<open>host/os/linux/ar6000_drv.c\<close>.

  The loops that empty a queue through \<open>ar6000_data_tx\<close> are partial functions, for which running
  forever is \<open>None\<close>.
\<close>

subsection \<open>Headers\<close>

text \<open>The 802.11 header: frame control, duration, three addresses, sequence control; with WMM it is
  a QoS header, padded to 28 bytes.  Only the subtype and two of the addresses are written.  The saved addresses
  come from the stack and are those of the frame only if the frame had an EtherType.\<close>

definition wmi_dot11_hdr_add :: "bool \<Rightarrow> bytes \<Rightarrow> netbuf \<Rightarrow> NETWORK_TYPE \<Rightarrow> (A_STATUS \<times> netbuf) option" where
  "wmi_dot11_hdr_add wmm stack osbuf mode =
     (if a_netbuf_headroom osbuf < 26 + SIZEOF_ATH_LLC_SNAP_HDR + SIZEOF_WMI_DATA_HDR then Some (A_NO_MEMORY, osbuf)
      else do {
        tl \<leftarrow> blk 12 2 (nb_data osbuf);
        (macs, b) \<leftarrow> (if \<not> IS_ETHERTYPE (be16 (tl ! 0) (tl ! 1)) then Some (stack, osbuf)
           else do {
             macs \<leftarrow> blk 0 12 (nb_data osbuf);
             (_, b) \<leftarrow> a_netbuf_pull osbuf SIZEOF_ATH_MAC_HDR;
             (_, b) \<leftarrow> a_netbuf_push b SIZEOF_ATH_LLC_SNAP_HDR;
             b \<leftarrow> nb_write b 0 ([0xAA, 0xAA, 0x03, 0, 0, 0] @ tl);
             Some (macs, b)
           });
        dstMac \<leftarrow> blk 0 6 macs;
        srcMac \<leftarrow> blk 6 6 macs;
        (_, b) \<leftarrow> a_netbuf_push b (if wmm then 28 else 24);
        b \<leftarrow> nb_write b 0 [if wmm then 0x80 else 0];
        b \<leftarrow> nb_write b 10 srcMac;
        b \<leftarrow> (if mode = INFRA_NETWORK then nb_write b 16 dstMac
           else if mode = ADHOC_NETWORK then nb_write b 4 dstMac else Some b);
        Some (A_OK, b)
      })"

text \<open>The other direction.  A frame of another subtype keeps its header.\<close>

definition wmi_dot11_hdr_remove :: "netbuf \<Rightarrow> (A_STATUS \<times> netbuf) option" where
  "wmi_dot11_hdr_remove osbuf = do {
     wh \<leftarrow> blk 0 24 (nb_data osbuf);
     let subtype = wh ! 0 AND 0xF0;
     (_, b) \<leftarrow> (if subtype = 0x80 then a_netbuf_pull osbuf 28
        else if subtype = 0 then a_netbuf_pull osbuf 24 else Some (A_OK, osbuf));
     typeOrLen \<leftarrow> blk 6 2 (nb_data b);
     let addr = (\<lambda>n. take 6 (drop (6 * n - 2) wh));
     let dir = wh ! 1 AND 3;
     let (dst, src) = (if dir = 0 then (addr 1, addr 2) else if dir = 1 then (addr 3, addr 2)
        else if dir = 2 then (addr 1, addr 3) else (replicate 6 0, replicate 6 0));
     (_, b) \<leftarrow> a_netbuf_pull b SIZEOF_ATH_LLC_SNAP_HDR;
     (_, b) \<leftarrow> a_netbuf_push b SIZEOF_ATH_MAC_HDR;
     b \<leftarrow> nb_write b 0 (dst @ src @ typeOrLen);
     Some (A_OK, b)
   }"

text \<open>A frame without room for the headers is copied to a new buffer, which has neither the priority nor the
  checksum request of the old one.\<close>

definition copy_for_headroom :: "sk_buff \<Rightarrow> AR_SOFTC_T \<Rightarrow> sk_buff option \<times> AR_SOFTC_T" where
  "copy_for_headroom skb ar =
     (if a_netbuf_headroom (skb_nb skb) \<ge> needed_headroom ar then (Some skb, ar)
      else let ar' = ar\<lparr>skb_answers := tl (skb_answers ar)\<rparr> in
        if skb_answers ar \<noteq> [] \<and> \<not> hd (skb_answers ar) then (None, ar')
        else (Some (skb\<lparr>skb_nb := \<lparr>nb_head = fresh_headroom ar, nb_data = nb_data (skb_nb skb)\<rparr>,
                        skb_priority := 0, skb_csum := None\<rparr>), ar'))"

definition add_headers :: "nat \<Rightarrow> sk_buff \<Rightarrow> (byte \<times> byte) option \<Rightarrow> 32 word \<Rightarrow> AR_SOFTC_T \<Rightarrow>
    (A_STATUS \<times> sk_buff) option" where
  "add_headers d skb csum flags ar = do {
     dev \<leftarrow> arPriv d ar;
     (st, b) \<leftarrow> (if processDot11Hdr ar
        then wmi_dot11_hdr_add (wmi_is_wmm_enabled dev) (stack_bytes ar) (skb_nb skb) (arNetworkType dev)
        else wmi_dix_2_dot3 (skb_nb skb));
     if A_FAILED st then Some (st, skb\<lparr>skb_nb := b\<rparr>)
     else do {
       let dot11 = (if processDot11Hdr ar then 1 else 0);
       (st, b) \<leftarrow> (case csum of
            Some (start, dest) \<Rightarrow> wmi_data_hdr_add (word_of_nat d) b DATA_MSGTYPE flags dot11 2 (Some [start, dest, 1])
          | None \<Rightarrow> wmi_data_hdr_add (word_of_nat d) b DATA_MSGTYPE flags dot11 0 None);
       Some (st, skb\<lparr>skb_nb := b\<rparr>)
     }
   }"

subsection \<open>Choosing an endpoint\<close>

datatype tx_target = AC_NOT_MAPPED | ADHOC_MAP | TO_AC byte

definition layer2Priority :: "32 word \<Rightarrow> 32 word" where
  "layer2Priority p = (if 256 \<le> p \<and> p \<le> 263 then p - 256 else 0)"

text \<open>A frame for the target.  The result is where it goes and the frame with its headers.\<close>

definition wmi_path :: "nat \<Rightarrow> sk_buff \<Rightarrow> 32 word \<Rightarrow> AR_SOFTC_T \<Rightarrow> (tx_target \<times> sk_buff \<times> AR_SOFTC_T) option" where
  "wmi_path d skb flags ar = do {
     dev \<leftarrow> arPriv d ar;
     let csum = (if csumOffload ar then skb_csum skb else None);
     (case copy_for_headroom skb ar of
        (None, ar) \<Rightarrow> Some (AC_NOT_MAPPED, skb, ar)
      | (Some skb, ar) \<Rightarrow> do {
          (st, skb) \<leftarrow> add_headers d skb csum flags ar;
          if A_FAILED st then Some (AC_NOT_MAPPED, skb, ar)
          else if arNetworkType dev = ADHOC_NETWORK \<and> arIbssPsEnable dev \<and> arConnected dev then Some (ADHOC_MAP, skb, ar)
          else do {
            ((ac, b), ar) \<leftarrow> wmi_call d (\<lambda>q. map_option (\<lambda>(ac, b, q). ((ac, b), q))
              (wmi_implicit_create_pstream (processDot11Hdr ar) (skb_nb skb) (layer2Priority (skb_priority skb)) (arWmmEnabled dev) q)) ar;
            Some (TO_AC ac, skb\<lparr>skb_nb := b\<rparr>, ar)
          }
        })
   }"

text \<open>Test packets go out without WMI.  The stream number is the byte before the magic number, the flags are a
  16-bit field.  The stream of the HCI transport is not for this driver in a build that exports the bridge.\<close>

definition epping_path :: "sk_buff \<Rightarrow> (tx_target \<times> HTC_TX_TAG \<times> sk_buff) option" where
  "epping_path skb = do {
     let h = nb_data (skb_nb skb);
     magic \<leftarrow> blk 12 4 h;
     if magic \<noteq> [0xAA, 0x55, 0xCE, 0xEC] then Some (AC_NOT_MAPPED, AR6K_DATA_PKT_TAG, skb)
     else do {
       ac \<leftarrow> at h 11;
       fl \<leftarrow> at h 42;
       let tag = (if bit fl 2 then AR6K_CONTROL_PKT_TAG else AR6K_DATA_PKT_TAG);
       if ac = 16 then Some (AC_NOT_MAPPED, tag, skb)
       else do {
         (_, b) \<leftarrow> a_netbuf_push (skb_nb skb) 2;
         Some (if ac = 99 then AC_NOT_MAPPED else TO_AC ac, tag, skb\<lparr>skb_nb := b\<rparr>)
       }
     }
   }"

text \<open>The endpoint for a station of an ad hoc network: each station with frames pending keeps one.
  \<open>ibss_slot\<close> finds the entry of the station, else one that is not in use, else the next.\<close>

definition ibss_known :: "bytes \<Rightarrow> AR_SOFTC_DEV_T \<Rightarrow> nat option" where
  "ibss_known mac dev = find_index (\<lambda>m. nm_macAddress m = mac) (take (arNodeNum dev) (arNodeMap dev))"

definition ibss_slot :: "AR_SOFTC_DEV_T \<Rightarrow> nat \<times> AR_SOFTC_DEV_T" where
  "ibss_slot dev = (case find_index (\<lambda>m. nm_txPending m = 0) (take (arNodeNum dev) (arNodeMap dev)) of
       Some i \<Rightarrow> (i, dev)
     | None \<Rightarrow> (arNodeNum dev, dev\<lparr>arNodeNum := arNodeNum dev + 1\<rparr>))"

definition ibss_endpoint :: "AR_SOFTC_T \<Rightarrow> AR_SOFTC_DEV_T \<Rightarrow> (nat \<times> AR_SOFTC_DEV_T) option" where
  "ibss_endpoint ar dev = (if length (arTxPending ar) \<le> ENDPOINT_5 then None
     else case find (\<lambda>i. arTxPending ar ! i = 0) [ENDPOINT_2..<Suc ENDPOINT_5] of
       Some i \<Rightarrow> Some (i, dev)
     | None \<Rightarrow> Some (arNexEpId dev, dev\<lparr>arNexEpId :=
         (if arNexEpId dev + 1 > ENDPOINT_5 then ENDPOINT_2 else arNexEpId dev + 1)\<rparr>))"

definition ar6000_ibss_map_epid :: "sk_buff \<Rightarrow> nat \<Rightarrow> AR_SOFTC_T \<Rightarrow> (nat \<times> nat \<times> AR_SOFTC_T) option" where
  "ar6000_ibss_map_epid skb d ar = do {
     dev \<leftarrow> arPriv d ar;
     mac \<leftarrow> blk SIZEOF_WMI_DATA_HDR 6 (nb_data (skb_nb skb));
     if IEEE80211_IS_MULTICAST mac then Some (ENDPOINT_2, 0, ar)
     else (case ibss_known mac dev of
         Some i \<Rightarrow> do {
           m \<leftarrow> at (arNodeMap dev) i;
           Some (nm_epId m, i + 1, upd_dev d (\<lambda>x. x\<lparr>arNodeMap := (arNodeMap x)[i := m\<lparr>nm_txPending := nm_txPending m + 1\<rparr>]\<rparr>) ar)
         }
       | None \<Rightarrow> do {
           let (i, dev) = ibss_slot dev;
           m \<leftarrow> at (arNodeMap dev) i;
           (ep, dev) \<leftarrow> ibss_endpoint ar dev;
           let m = \<lparr>nm_macAddress = mac, nm_epId = ep, nm_txPending = nm_txPending m + 1\<rparr>;
           Some (ep, i + 1, upd_dev d (\<lambda>_. dev\<lparr>arNodeMap := (arNodeMap dev)[i := m]\<rparr>) ar)
         })
   }"

subsection \<open>The transmit function\<close>

text \<open>A frame for endpoint \<open>eid\<close> takes a cookie, or is freed.\<close>

definition send_on :: "nat \<Rightarrow> nat \<Rightarrow> HTC_TX_TAG \<Rightarrow> sk_buff \<Rightarrow> AR_SOFTC_T \<Rightarrow> AR_SOFTC_T option" where
  "send_on eid mapNo tag skb ar = (case ar6000_alloc_cookie ar of
       (None, ar) \<Rightarrow> Some (A_NETBUF_FREE_SKB skb ar)
     | (Some cookie, ar) \<Rightarrow> do {
         ar \<leftarrow> count_pending eid True ar;
         Some (HTCSendPkt \<lparr>pkt_cookie = cookie, pkt_mapNo = mapNo, pkt_endpoint = eid, pkt_tag = tag,
           pkt_payload = FRAME skb\<rparr> ar)
       })"

definition hand_to_htc :: "nat \<Rightarrow> tx_target \<Rightarrow> HTC_TX_TAG \<Rightarrow> sk_buff \<Rightarrow> AR_SOFTC_T \<Rightarrow> AR_SOFTC_T option" where
  "hand_to_htc d target tag skb ar = do {
     (eid, mapNo, ar) \<leftarrow> (case target of
          TO_AC ac \<Rightarrow> map_option (\<lambda>e. (e, 0, ar)) (at (arAc2EpMapping ar) (unat ac))
        | _ \<Rightarrow> ar6000_ibss_map_epid skb d ar);
     if eid = 0 \<or> eid = ENDPOINT_UNUSED then Some (A_NETBUF_FREE_SKB skb ar)
     else send_on eid mapNo tag skb ar
   }"

text \<open>A frame that is not to be queued, with the flags for its header.\<close>

definition transmit :: "nat \<Rightarrow> sk_buff \<Rightarrow> 32 word \<Rightarrow> AR_SOFTC_T \<Rightarrow> AR_SOFTC_T option" where
  "transmit d skb flags ar = do {
     dev \<leftarrow> arPriv d ar;
     (target, tag, skb, ar) \<leftarrow> (if arWmiEnabled dev
        then map_option (\<lambda>(t, skb, ar). (t, AR6K_DATA_PKT_TAG, skb, ar)) (wmi_path d skb flags ar)
        else map_option (\<lambda>(t, tag, skb). (t, tag, skb, ar)) (epping_path skb));
     if target = AC_NOT_MAPPED then Some (A_NETBUF_FREE_SKB skb ar)
     else hand_to_htc d target tag skb ar
   }"

definition ar6000_data_tx :: "nat \<Rightarrow> sk_buff \<Rightarrow> AR_SOFTC_T \<Rightarrow> AR_SOFTC_T option" where
  "ar6000_data_tx d skb ar = do {
     dev \<leftarrow> arPriv d ar;
     if pm_tx_blocked ar \<or> (\<not> arConnected dev \<and> \<not> bypasswmi ar) \<or> tcmd_mode ar then Some (A_NETBUF_FREE_SKB skb ar)
     else if \<not> arWmiReady ar \<and> \<not> bypasswmi ar then Some (A_NETBUF_FREE_SKB skb ar)
     else do {
       (flags, ar) \<leftarrow> (if arNetworkType dev = AP_NETWORK then ap_power_save d skb ar else Some (Some 0, ar));
       (case flags of None \<Rightarrow> Some ar | Some flags \<Rightarrow> transmit d skb flags ar)
     }
   }"

text \<open>ACL frames use the endpoint of the first category.\<close>

definition ar6000_acl_data_tx :: "sk_buff \<Rightarrow> AR_SOFTC_T \<Rightarrow> AR_SOFTC_T option" where
  "ar6000_acl_data_tx skb ar = do {
     eid \<leftarrow> at (arAc2EpMapping ar) 0;
     send_on eid 0 AR6K_DATA_PKT_TAG skb ar
   }"

subsection \<open>The callbacks of HTC\<close>

datatype HTC_SEND_FULL_ACTION = HTC_SEND_FULL_KEEP | HTC_SEND_FULL_DROP

text \<open>\<open>stop_queues P\<close> stops the network queues of the devices with \<open>P\<close>.\<close>

definition stop_queues :: "(AR_SOFTC_DEV_T \<Rightarrow> bool) \<Rightarrow> AR_SOFTC_T \<Rightarrow> AR_SOFTC_T" where
  "stop_queues P ar = ar\<lparr>
     arDev := map (\<lambda>x. if P x then x\<lparr>arNetQueueStopped := True\<rparr> else x) (arDev ar),
     netif_running := map (\<lambda>(r, x). r \<and> \<not> P x) (zip (netif_running ar) (arDev ar))\<rparr>"

definition full_action :: "tx_packet \<Rightarrow> AR_SOFTC_T \<Rightarrow> (HTC_SEND_FULL_ACTION \<times> bool \<times> AR_SOFTC_T) option" where
  "full_action pPacket ar =
     (if bypasswmi ar then
        (if pkt_tag pPacket = AR6K_CONTROL_PKT_TAG then Some (HTC_SEND_FULL_KEEP, False, ar)
         else do {
           accessClass \<leftarrow> at (arEp2AcMapping ar) (pkt_endpoint pPacket);
           Some (if accessClass = unat WMM_AC_BE \<or> accessClass = unat WMM_AC_BK then (HTC_SEND_FULL_DROP, False, ar)
                 else (HTC_SEND_FULL_KEEP, True, ar))
         })
      else if pkt_endpoint pPacket = arControlEp ar then Some (HTC_SEND_FULL_KEEP, False, ar\<lparr>arWMIControlEpFull := True\<rparr>)
      else if pkt_tag pPacket = AR6K_CONTROL_PKT_TAG then Some (HTC_SEND_FULL_KEEP, False, ar)
      else do {
        accessClass \<leftarrow> at (arEp2AcMapping ar) (pkt_endpoint pPacket);
        pri \<leftarrow> at (arAcStreamPriMap ar) accessClass;
        Some (if pri < arHiAcStreamActivePri ar \<and> arCookieCount ar \<le> MAX_HI_COOKIE_NUM
              then HTC_SEND_FULL_DROP else HTC_SEND_FULL_KEEP, False, ar)
      })"

definition ar6000_tx_queue_full :: "tx_packet \<Rightarrow> AR_SOFTC_T \<Rightarrow> (HTC_SEND_FULL_ACTION \<times> AR_SOFTC_T) option" where
  "ar6000_tx_queue_full pPacket ar = do {
     (action, stopNet, ar) \<leftarrow> full_action pPacket ar;
     Some (action, stop_queues (\<lambda>x. stopNet \<or> arNetworkType x = ADHOC_NETWORK) ar)
   }"

text \<open>The device of a packet is in its header; a synchronisation message has a cleared header.\<close>

definition pkt_devid :: "AR_SOFTC_T \<Rightarrow> tx_packet \<Rightarrow> nat option" where
  "pkt_devid ar p = (if bypasswmi ar then Some 0
     else case pkt_payload p of
       FRAME skb \<Rightarrow> map_option (\<lambda>h. unat (WMI_DATA_HDR_GET_DEVID h)) (blk 0 SIZEOF_WMI_DATA_HDR (nb_data (skb_nb skb)))
     | COMMAND d (DATA_SYNC _) \<Rightarrow> Some 0
     | COMMAND d _ \<Rightarrow> Some d)"

text \<open>Idle entries at the end of the node map are cleared and given up.\<close>

fun trim_nodes :: "nat \<Rightarrow> ar_node_mapping list \<Rightarrow> (nat \<times> ar_node_mapping list) option" where
  "trim_nodes 0 ms = Some (0, ms)"
| "trim_nodes (Suc n) ms = do {
     m \<leftarrow> at ms n;
     if nm_txPending m = 0 then trim_nodes n (ms[n := \<lparr>nm_macAddress = replicate 6 0, nm_epId = 0, nm_txPending = 0\<rparr>])
     else Some (Suc n, ms)
   }"

definition ibss_complete :: "nat \<Rightarrow> AR_SOFTC_DEV_T \<Rightarrow> AR_SOFTC_DEV_T option" where
  "ibss_complete mapNo dev = do {
     m \<leftarrow> at (arNodeMap dev) (mapNo - 1);
     let m = m\<lparr>nm_txPending := nm_txPending m - 1\<rparr>;
     let ms = (arNodeMap dev)[mapNo - 1 := m];
     if nm_txPending m = 0 \<and> mapNo = arNodeNum dev
     then map_option (\<lambda>(n, ms). dev\<lparr>arNodeNum := n, arNodeMap := ms\<rparr>) (trim_nodes (arNodeNum dev) ms)
     else Some (dev\<lparr>arNodeMap := ms\<rparr>)
   }"

text \<open>One completed packet leaves HTC with its counts, and its cookie and frame go back.  \<open>flushing\<close> has a flag for
  each device.\<close>

definition leave_htc :: "tx_packet \<Rightarrow> AR_SOFTC_T \<Rightarrow> AR_SOFTC_T option" where
  "leave_htc p ar = (if p \<notin> set (in_htc ar) then None else do {
     let eid = pkt_endpoint p;
     n \<leftarrow> at (arTxPending ar) eid;
     let ar = ar\<lparr>in_htc := remove1 p (in_htc ar), arTxPending := (arTxPending ar)[eid := n - 1]\<rparr>;
     Some (if bypasswmi ar then ar
        else if eid \<noteq> arControlEp ar then ar\<lparr>arTotalTxDataPending := arTotalTxDataPending ar - 1\<rparr>
        else ar\<lparr>arWMIControlEpFull := False\<rparr>)
   })"

definition set_flushing :: "A_STATUS \<Rightarrow> nat \<Rightarrow> bool list \<Rightarrow> bool list option" where
  "set_flushing status devid flushing = (if A_FAILED status
     then (if status = A_ECANCELED \<or> status = A_ECOMM then put flushing devid True else Some flushing)
     else put flushing devid False)"

definition give_back :: "tx_packet \<Rightarrow> AR_SOFTC_T \<Rightarrow> AR_SOFTC_T" where
  "give_back p ar = (let ar = ar6000_free_cookie (pkt_cookie p) ar in
     case pkt_payload p of FRAME skb \<Rightarrow> A_NETBUF_FREE_SKB skb ar | COMMAND _ _ \<Rightarrow> ar)"

definition reap_one :: "tx_packet \<Rightarrow> A_STATUS \<Rightarrow> bool list \<Rightarrow> AR_SOFTC_T \<Rightarrow> (bool list \<times> AR_SOFTC_T) option" where
  "reap_one p status flushing ar = do {
     ar \<leftarrow> leave_htc p ar;
     devid \<leftarrow> pkt_devid ar p;
     dev \<leftarrow> arPriv devid ar;
     flushing \<leftarrow> set_flushing status devid flushing;
     dev \<leftarrow> (if arNetworkType dev = ADHOC_NETWORK \<and> arIbssPsEnable dev \<and> pkt_endpoint p \<noteq> arControlEp ar \<and> pkt_mapNo p \<noteq> 0
        then ibss_complete (pkt_mapNo p) dev else Some dev);
     Some (flushing, give_back p (upd_dev devid (\<lambda>_. dev\<lparr>arNetQueueStopped := False\<rparr>) ar))
   }"

fun reap :: "(tx_packet \<times> A_STATUS) list \<Rightarrow> bool list \<Rightarrow> AR_SOFTC_T \<Rightarrow> (bool list \<times> AR_SOFTC_T) option" where
  "reap [] flushing ar = Some (flushing, ar)"
| "reap ((p, status) # ps) flushing ar = do {
     (flushing, ar) \<leftarrow> reap_one p status flushing ar;
     reap ps flushing ar
   }"

definition wake_queues :: "bool list \<Rightarrow> AR_SOFTC_T \<Rightarrow> AR_SOFTC_T" where
  "wake_queues flushing ar = ar\<lparr>netif_running := map (\<lambda>(r, x, f). r \<or>
     ((arNetworkType x = INFRA_NETWORK \<and> arConnected x \<or> bypasswmi ar) \<and> \<not> f))
     (zip (netif_running ar) (zip (arDev ar) flushing))\<rparr>"

text \<open>The flags start as whatever the stack holds; they are an argument.\<close>

definition ar6000_tx_complete :: "bool list \<Rightarrow> (tx_packet \<times> A_STATUS) list \<Rightarrow> AR_SOFTC_T \<Rightarrow> AR_SOFTC_T option" where
  "ar6000_tx_complete flushing pPacketQueue ar = do {
     (flushing, ar) \<leftarrow> reap pPacketQueue flushing ar;
     Some (wake_queues flushing ar)
   }"

end
