(* ===== verification/DriverEvents.thy ===== *)
theory DriverEvents
  imports DriverPath
begin

text \<open>
  The stations of an access point: association and removal, and the events that release the frames held
  for a sleeping station.  From \<open>host/os/linux/ar6000_drv.c\<close>.
\<close>

subsection \<open>Association\<close>

text \<open>The set of associated stations is a byte, although there are more slots.\<close>

definition add_new_sta :: "nat \<Rightarrow> bytes \<Rightarrow> 16 word \<Rightarrow> byte \<Rightarrow> AR_SOFTC_T \<Rightarrow> AR_SOFTC_T option" where
  "add_new_sta d mac aid apsd ar = do {
     _ \<leftarrow> arPriv d ar;
     let free_slot = unat (ucast (aid - 1) :: byte);
     _ \<leftarrow> at (connTbl ar) free_slot;
     let ar = upd_conn free_slot (\<lambda>c. c\<lparr>conn_mac := mac, conn_arPriv := Some d, conn_aid := ucast aid, apsd_info := apsd\<rparr>) ar;
     Some (upd_dev d (\<lambda>x. x\<lparr>sta_list_index := sta_list_index x OR push_bit free_slot 1\<rparr>) ar)
   }"

text \<open>The frames held for the station are freed, first those of \<open>psq\<close>.\<close>

definition sta_cleanup :: "nat \<Rightarrow> nat \<Rightarrow> AR_SOFTC_T \<Rightarrow> AR_SOFTC_T option" where
  "sta_cleanup d i ar = do {
     _ \<leftarrow> arPriv d ar;
     conn \<leftarrow> at (connTbl ar) i;
     let ar = fold A_NETBUF_FREE_SKB (psq conn @ apsdq conn) ar;
     let ar = upd_conn i (\<lambda>c. c\<lparr>psq := [], apsdq := [], conn_mac := replicate 6 0, conn_aid := 0, conn_flags := 0,
       conn_arPriv := None\<rparr>) ar;
     Some (upd_dev d (\<lambda>x. x\<lparr>sta_list_index := sta_list_index x AND NOT (push_bit i 1)\<rparr>) ar)
   }"

definition free_mcast :: "nat \<Rightarrow> AR_SOFTC_T \<Rightarrow> AR_SOFTC_T option" where
  "free_mcast d ar = do {
     dev \<leftarrow> arPriv d ar;
     Some (upd_dev d (\<lambda>x. x\<lparr>mcastpsq := []\<rparr>) (fold A_NETBUF_FREE_SKB (mcastpsq dev) ar))
   }"

text \<open>Removal by address; the two reasons are those of a station that was never admitted.  When no
  station is left, the frames for all stations are freed.\<close>

definition remove_sta :: "nat \<Rightarrow> bytes \<Rightarrow> 16 word \<Rightarrow> AR_SOFTC_T \<Rightarrow> (bool \<times> AR_SOFTC_T) option" where
  "remove_sta d mac reason ar =
     (if mac = replicate 6 0 \<or> reason = 104 \<or> reason = 105 then Some (False, ar)
      else do {
        (removed, ar) \<leftarrow> (case find_index (\<lambda>c. conn_mac c = mac) (connTbl ar) of
            None \<Rightarrow> Some (False, ar)
          | Some i \<Rightarrow> map_option (Pair True) (sta_cleanup d i ar));
        dev \<leftarrow> arPriv d ar;
        if sta_list_index dev = 0 then do {
          ar \<leftarrow> free_mcast d ar;
          if arWmiReady ar then map_option (\<lambda>(_, ar). (removed, ar)) (wmi_call d (wmi_set_pvb_cmd MCAST_AID False) ar)
          else Some (removed, ar)
        }
        else Some (removed, ar)
      })"

fun remove_all :: "nat \<Rightarrow> nat list \<Rightarrow> AR_SOFTC_T \<Rightarrow> AR_SOFTC_T option" where
  "remove_all d [] ar = Some ar"
| "remove_all d (i # is) ar = do {
     c \<leftarrow> at (connTbl ar) i;
     ar \<leftarrow> (if conn_arPriv c = Some d then map_option snd (remove_sta d (conn_mac c) 0 ar) else Some ar);
     remove_all d is ar
   }"

definition ar6000_ap_cleanup :: "nat \<Rightarrow> AR_SOFTC_T \<Rightarrow> AR_SOFTC_T option" where
  "ar6000_ap_cleanup d ar = do {
     ar \<leftarrow> remove_all d [0..<NUM_CONN] ar;
     ar \<leftarrow> free_mcast d ar;
     Some (upd_dev d (\<lambda>x. x\<lparr>arConnected := False\<rparr>) ar)
   }"

subsection \<open>Power save events\<close>

text \<open>\<open>clear_pvb\<close> and \<open>apsd_traffic\<close> tell the target about the queues of station \<open>i\<close>.\<close>

definition clear_pvb :: "nat \<Rightarrow> nat \<Rightarrow> AR_SOFTC_T \<Rightarrow> AR_SOFTC_T option" where
  "clear_pvb d i ar = do {
     conn \<leftarrow> at (connTbl ar) i;
     map_option snd (wmi_call d (wmi_set_pvb_cmd (ucast (conn_aid conn)) False) ar)
   }"

definition apsd_traffic :: "nat \<Rightarrow> nat \<Rightarrow> 32 word \<Rightarrow> AR_SOFTC_T \<Rightarrow> AR_SOFTC_T option" where
  "apsd_traffic d i flags ar = do {
     conn \<leftarrow> at (connTbl ar) i;
     map_option snd (wmi_call d (wmi_set_apsd_buffered_traffic_cmd (ucast (conn_aid conn)) 0 flags) ar)
   }"

definition ar6000_pspoll_event :: "nat \<Rightarrow> byte \<Rightarrow> AR_SOFTC_T \<Rightarrow> AR_SOFTC_T option" where
  "ar6000_pspoll_event d aid ar = do {
     found \<leftarrow> ieee80211_find_conn_for_aid d aid ar;
     (case found of
        None \<Rightarrow> Some ar
      | Some i \<Rightarrow> do {
          conn \<leftarrow> at (connTbl ar) i;
          (case psq conn of
             [] \<Rightarrow> clear_pvb d i ar
           | skb # skbs \<Rightarrow> do {
               ar \<leftarrow> ar6000_data_tx d skb (upd_conn i (\<lambda>c. STA_SET PS_POLLED (c\<lparr>psq := skbs\<rparr>)) ar);
               let ar = upd_conn i (STA_CLR PS_POLLED) ar;
               conn \<leftarrow> at (connTbl ar) i;
               if psq conn = [] then clear_pvb d i ar else Some ar
             })
        })
   }"

partial_function (option) flush_mcast :: "nat \<Rightarrow> AR_SOFTC_T \<Rightarrow> AR_SOFTC_T option" where
  "flush_mcast d ar = do {
     dev \<leftarrow> arPriv d ar;
     (case mcastpsq dev of
        [] \<Rightarrow> Some ar
      | skb # skbs \<Rightarrow> do {
          ar \<leftarrow> ar6000_data_tx d skb (upd_dev d (\<lambda>x. x\<lparr>mcastpsq := skbs\<rparr>) ar);
          flush_mcast d ar
        })
   }"

definition ar6000_dtimexpiry_event :: "nat \<Rightarrow> AR_SOFTC_T \<Rightarrow> AR_SOFTC_T option" where
  "ar6000_dtimexpiry_event d ar = do {
     dev \<leftarrow> arPriv d ar;
     if sta_list_index dev = 0 \<or> mcastpsq dev = [] then Some ar
     else do {
       ar \<leftarrow> flush_mcast d (upd_dev d (\<lambda>x. x\<lparr>DTIMExpired := True\<rparr>) ar);
       let ar = upd_dev d (\<lambda>x. x\<lparr>DTIMExpired := False\<rparr>) ar;
       map_option snd (wmi_call d (wmi_set_pvb_cmd MCAST_AID False) ar)
     }
   }"

text \<open>At most \<open>n\<close> frames of a service period.  The result says whether the queue is empty.\<close>

fun deliver_apsd :: "nat \<Rightarrow> nat \<Rightarrow> nat \<Rightarrow> bool \<Rightarrow> AR_SOFTC_T \<Rightarrow> (bool \<times> AR_SOFTC_T) option" where
  "deliver_apsd 0 d i isApsdqEmpty ar = Some (isApsdqEmpty, ar)"
| "deliver_apsd (Suc n) d i isApsdqEmpty ar =
     (if isApsdqEmpty then Some (isApsdqEmpty, ar)
      else do {
        conn \<leftarrow> at (connTbl ar) i;
        (case apsdq conn of
           [] \<Rightarrow> None
         | skb # skbs \<Rightarrow> do {
             let isApsdqEmpty = (skbs = []);
             let ar = upd_conn i (\<lambda>c. STA_SET APSD_TRIGGER (c\<lparr>apsdq := skbs\<rparr>)) ar;
             let ar = (if isApsdqEmpty \<or> n = 0 then upd_conn i (STA_SET APSD_EOSP) ar else ar);
             ar \<leftarrow> ar6000_data_tx d skb ar;
             let ar = upd_conn i (\<lambda>c. STA_CLR APSD_EOSP (STA_CLR APSD_TRIGGER c)) ar;
             deliver_apsd n d i isApsdqEmpty ar
           })
      })"

definition ar6000_uapsd_trigger_frame_rx :: "nat \<Rightarrow> nat \<Rightarrow> AR_SOFTC_T \<Rightarrow> AR_SOFTC_T option" where
  "ar6000_uapsd_trigger_frame_rx d i ar = do {
     conn \<leftarrow> at (connTbl ar) i;
     let n = unat (drop_bit 4 (apsd_info conn) AND 0xF);
     let n = (if n = 0 then 0xFFFF else n);
     let isApsdqEmptyAtStart = (apsdq conn = []);
     (isApsdqEmpty, ar) \<leftarrow> deliver_apsd n d i isApsdqEmptyAtStart ar;
     if isApsdqEmpty then apsd_traffic d i (if isApsdqEmptyAtStart then 1 else 0) ar
     else Some ar
   }"

text \<open>A station that wakes up gets all its frames.\<close>

partial_function (option) flush_psq :: "nat \<Rightarrow> nat \<Rightarrow> AR_SOFTC_T \<Rightarrow> AR_SOFTC_T option" where
  "flush_psq d i ar = do {
     conn \<leftarrow> at (connTbl ar) i;
     (case psq conn of
        [] \<Rightarrow> Some ar
      | skb # skbs \<Rightarrow> do {
          ar \<leftarrow> ar6000_data_tx d skb (upd_conn i (\<lambda>c. c\<lparr>psq := skbs\<rparr>) ar);
          flush_psq d i ar
        })
   }"

partial_function (option) flush_apsdq :: "nat \<Rightarrow> nat \<Rightarrow> AR_SOFTC_T \<Rightarrow> AR_SOFTC_T option" where
  "flush_apsdq d i ar = do {
     conn \<leftarrow> at (connTbl ar) i;
     (case apsdq conn of
        [] \<Rightarrow> Some ar
      | skb # skbs \<Rightarrow> do {
          ar \<leftarrow> ar6000_data_tx d skb (upd_conn i (\<lambda>c. c\<lparr>apsdq := skbs\<rparr>) ar);
          flush_apsdq d i ar
        })
   }"

definition sta_wakes :: "nat \<Rightarrow> nat \<Rightarrow> AR_SOFTC_T \<Rightarrow> AR_SOFTC_T option" where
  "sta_wakes d i ar = do {
     ar \<leftarrow> flush_psq d i ar;
     conn \<leftarrow> at (connTbl ar) i;
     let isApsdqEmptyAtStart = (apsdq conn = []);
     ar \<leftarrow> flush_apsdq d i ar;
     ar \<leftarrow> (if isApsdqEmptyAtStart then Some ar else apsd_traffic d i 0 ar);
     clear_pvb d i ar
   }"

text \<open>The power state that a frame of station \<open>i\<close> tells, and whether it is a trigger.\<close>

definition sta_ps_state :: "nat \<Rightarrow> nat \<Rightarrow> bool \<Rightarrow> bool \<Rightarrow> AR_SOFTC_T \<Rightarrow> AR_SOFTC_T option" where
  "sta_ps_state d i psState triggerState ar = do {
     conn \<leftarrow> at (connTbl ar) i;
     let ar = upd_conn i (if psState then STA_SET PWR_SLEEP else STA_CLR PWR_SLEEP) ar;
     ar \<leftarrow> (if psState \<and> triggerState then ar6000_uapsd_trigger_frame_rx d i ar else Some ar);
     if STA_IS PWR_SLEEP conn \<and> \<not> psState then sta_wakes d i ar else Some ar
   }"

text \<open>A data frame that an access point receives: the power state is bit 5 of the second byte of
  the data header, the trigger bit 4 of the fifth byte.  The MAC header is behind the meta data,
  six bytes in version 1.  The result is whether the frame goes on.\<close>

definition ap_rx_power_save :: "nat \<Rightarrow> bytes \<Rightarrow> AR_SOFTC_T \<Rightarrow> (bool \<times> AR_SOFTC_T) option" where
  "ap_rx_power_save d datap ar = do {
     h \<leftarrow> blk 0 SIZEOF_WMI_DATA_HDR datap;
     let offset = SIZEOF_WMI_DATA_HDR + (if WMI_DATA_HDR_GET_META h = 1 then 6 else 0);
     srcMac \<leftarrow> blk (offset + 6) 6 datap;
     (case ieee80211_find_conn srcMac ar of
        None \<Rightarrow> Some (False, ar)
      | Some i \<Rightarrow> map_option (Pair True) (sta_ps_state d i (bit (h ! 1) 5) (bit (h ! 4) 4) ar))
   }"

subsection \<open>Runs\<close>

text \<open>What happens to the driver: a frame from the network stack or an ACL frame, a command of the WMI
  layer, the callbacks of HTC, and the events of the target.\<close>

datatype tx_event =
    DATA_TX nat sk_buff
  | ACL_TX sk_buff
  | CONTROL_TX nat wmi_msg nat
  | TX_ACTIVITY nat bool
  | TX_QUEUE_FULL tx_packet
  | TX_COMPLETE "bool list" "(tx_packet \<times> A_STATUS) list"
  | PSPOLL nat byte
  | DTIM_EXPIRY nat
  | AP_RX nat bytes
  | NEW_STA nat bytes "16 word" byte
  | REMOVE_STA nat bytes "16 word"
  | AP_CLEANUP nat

fun tx_event_step :: "tx_event \<Rightarrow> AR_SOFTC_T \<Rightarrow> AR_SOFTC_T option" where
  "tx_event_step (DATA_TX d skb) ar = ar6000_data_tx d skb ar"
| "tx_event_step (ACL_TX skb) ar = ar6000_acl_data_tx skb ar"
| "tx_event_step (CONTROL_TX d m eid) ar = map_option snd (ar6000_control_tx d m eid ar)"
| "tx_event_step (TX_ACTIVITY ac b) ar = ar6000_indicate_tx_activity ac b ar"
| "tx_event_step (TX_QUEUE_FULL p) ar = map_option snd (ar6000_tx_queue_full p ar)"
| "tx_event_step (TX_COMPLETE fl ps) ar = ar6000_tx_complete fl ps ar"
| "tx_event_step (PSPOLL d aid) ar = ar6000_pspoll_event d aid ar"
| "tx_event_step (DTIM_EXPIRY d) ar = ar6000_dtimexpiry_event d ar"
| "tx_event_step (AP_RX d datap) ar = map_option snd (ap_rx_power_save d datap ar)"
| "tx_event_step (NEW_STA d mac aid apsd) ar = add_new_sta d mac aid apsd ar"
| "tx_event_step (REMOVE_STA d mac reason) ar = map_option snd (remove_sta d mac reason ar)"
| "tx_event_step (AP_CLEANUP d) ar = ar6000_ap_cleanup d ar"

fun tx_run :: "tx_event list \<Rightarrow> AR_SOFTC_T \<Rightarrow> AR_SOFTC_T option" where
  "tx_run [] ar = Some ar"
| "tx_run (e # es) ar = Option.bind (tx_event_step e ar) (tx_run es)"

end
