(* ===== verification/DriverProps.thy ===== *)
theory DriverProps
  imports DriverEvents "HOL-Library.Multiset"
begin

text \<open>
  Properties of the driver's transmit path: no frame is lost or in two places, each cookie is free or in
  HTC, the counts of pending packets are right, and the highest active priority is the maximum.
\<close>

subsection \<open>The ledger\<close>

text \<open>The frames in the driver's hands or given back, by number.\<close>

definition ids :: "sk_buff list \<Rightarrow> nat multiset" where
  "ids fs = mset (map skb_id fs)"

definition payload_ids :: "tx_packet \<Rightarrow> nat multiset" where
  "payload_ids p = (case pkt_payload p of FRAME skb \<Rightarrow> {#skb_id skb#} | COMMAND _ _ \<Rightarrow> {#})"

definition frames_of :: "AR_SOFTC_T \<Rightarrow> nat multiset" where
  "frames_of ar = ids (freed ar) + sum_list (map payload_ids (in_htc ar))
     + sum_list (map (\<lambda>x. ids (mcastpsq x)) (arDev ar)) + sum_list (map (\<lambda>c. ids (psq c @ apsdq c)) (connTbl ar))"

definition cookies_ok :: "AR_SOFTC_T \<Rightarrow> bool" where
  "cookies_ok ar \<longleftrightarrow> mset (arCookieList ar) + mset (map pkt_cookie (in_htc ar)) = mset [0..<MAX_COOKIE_NUM] \<and>
     arCookieCount ar = length (arCookieList ar)"

definition pending_ok :: "AR_SOFTC_T \<Rightarrow> bool" where
  "pending_ok ar \<longleftrightarrow> (\<forall>e < length (arTxPending ar). arTxPending ar ! e = int (count (mset (map pkt_endpoint (in_htc ar))) e))
     \<and> (\<forall>p \<in> set (in_htc ar). pkt_endpoint p < length (arTxPending ar))"

definition priority_ok :: "AR_SOFTC_T \<Rightarrow> bool" where
  "priority_ok ar \<longleftrightarrow> length (arAcStreamActive ar) = WMM_NUM_AC \<and> length (arAcStreamPriMap ar) = WMM_NUM_AC \<and>
     arHiAcStreamActivePri ar = highest_active ar"

definition tx_inv :: "AR_SOFTC_T \<Rightarrow> bool" where
  "tx_inv ar \<longleftrightarrow> cookies_ok ar \<and> pending_ok ar \<and> priority_ok ar"

text \<open>A step that adds the frames \<open>new\<close>.\<close>

definition keeps :: "nat multiset \<Rightarrow> AR_SOFTC_T \<Rightarrow> AR_SOFTC_T \<Rightarrow> bool" where
  "keeps new ar ar' \<longleftrightarrow> (tx_inv ar \<longrightarrow> tx_inv ar') \<and> frames_of ar' = frames_of ar + new"

lemma keeps_refl: "keeps {#} ar ar"
  by (simp add: keeps_def)

lemma keeps_trans: "keeps a x y \<Longrightarrow> keeps b y z \<Longrightarrow> keeps (a + b) x z"
  by (auto simp: keeps_def ac_simps)

lemma keeps_trans0: "keeps {#} x y \<Longrightarrow> keeps b y z \<Longrightarrow> keeps b x z"
  by (auto simp: keeps_def)

lemma keeps_trans0': "keeps b x y \<Longrightarrow> keeps {#} y z \<Longrightarrow> keeps b x z"
  by (auto simp: keeps_def)

text \<open>What the ledger reads of the state.\<close>

definition same_books :: "AR_SOFTC_T \<Rightarrow> AR_SOFTC_T \<Rightarrow> bool" where
  "same_books ar ar' \<longleftrightarrow> arCookieList ar' = arCookieList ar \<and> arCookieCount ar' = arCookieCount ar \<and>
     in_htc ar' = in_htc ar \<and> arTxPending ar' = arTxPending ar \<and> arAcStreamActive ar' = arAcStreamActive ar \<and>
     arAcStreamPriMap ar' = arAcStreamPriMap ar \<and> arHiAcStreamActivePri ar' = arHiAcStreamActivePri ar"

lemma same_books_inv: "same_books ar ar' \<Longrightarrow> tx_inv ar' = tx_inv ar"
  by (simp add: same_books_def tx_inv_def cookies_ok_def pending_ok_def priority_ok_def highest_active_def cong: if_cong)

lemma same_books_keeps:
  "same_books ar ar' \<Longrightarrow> frames_of ar' = frames_of ar + new \<Longrightarrow> keeps new ar ar'"
  by (simp add: keeps_def same_books_inv)

lemma sum_list_update_mset:
  "i < length xs \<Longrightarrow> sum_list (map g (xs[i := y])) + g (xs ! i) = sum_list (map g xs) + (g y :: 'a multiset)"
proof (induction xs arbitrary: i)
  case (Cons x xs)
  then show ?case by (cases i) (auto simp: ac_simps)
qed simp

lemma sum_list_update_same:
  "i < length xs \<Longrightarrow> g y = g (xs ! i) \<Longrightarrow> sum_list (map g (xs[i := y])) = (sum_list (map g xs) :: 'a multiset)"
  using sum_list_update_mset [of i xs g y] by simp

lemma ids_simps [simp]:
  "ids [] = {#}" "ids (xs @ ys) = ids xs + ids ys" "ids (x # xs) = add_mset (skb_id x) (ids xs)"
  by (simp_all add: ids_def)

lemma arPriv_Some: "arPriv d ar = Some x \<longleftrightarrow> d < length (arDev ar) \<and> arDev ar ! d = x"
  by (simp add: arPriv_def at_eq_Some_iff)

lemma upd_dev_books [simp]: "same_books ar (upd_dev d f ar)"
  by (simp add: same_books_def upd_dev_def)

lemma upd_conn_books [simp]: "same_books ar (upd_conn i f ar)"
  by (simp add: same_books_def upd_conn_def)

lemma upd_dev_frames:
  assumes "d < length (arDev ar)"
  shows "frames_of (upd_dev d f ar) + ids (mcastpsq (arDev ar ! d)) = frames_of ar + ids (mcastpsq (f (arDev ar ! d)))"
  using sum_list_update_mset [OF assms, of "\<lambda>x. ids (mcastpsq x)" "f (arDev ar ! d)"]
  by (simp add: frames_of_def upd_dev_def ac_simps)

lemma upd_conn_frames:
  assumes "i < length (connTbl ar)"
  shows "frames_of (upd_conn i f ar) + ids (psq (connTbl ar ! i) @ apsdq (connTbl ar ! i)) =
    frames_of ar + ids (psq (f (connTbl ar ! i)) @ apsdq (f (connTbl ar ! i)))"
  using sum_list_update_mset [OF assms, of "\<lambda>c. ids (psq c @ apsdq c)" "f (connTbl ar ! i)"]
  by (simp add: frames_of_def upd_conn_def ac_simps)

lemma upd_dev_keeps:
  assumes "\<And>x. mcastpsq (f x) = mcastpsq x"
  shows "keeps {#} ar (upd_dev d f ar)"
proof (rule same_books_keeps)
  show "frames_of (upd_dev d f ar) = frames_of ar + {#}"
  proof (cases "d < length (arDev ar)")
    case True
    from upd_dev_frames [OF True, of f] assms show ?thesis by simp
  next
    case False
    then show ?thesis by (simp add: upd_dev_def frames_of_def list_update_beyond not_less)
  qed
qed simp

lemma upd_conn_keeps:
  assumes "\<And>c. psq (f c) = psq c" "\<And>c. apsdq (f c) = apsdq c"
  shows "keeps {#} ar (upd_conn i f ar)"
proof (rule same_books_keeps)
  show "frames_of (upd_conn i f ar) = frames_of ar + {#}"
  proof (cases "i < length (connTbl ar)")
    case True
    from upd_conn_frames [OF True, of f] assms show ?thesis by simp
  next
    case False
    then show ?thesis by (simp add: upd_conn_def frames_of_def list_update_beyond not_less)
  qed
qed simp

lemma STA_queues [simp]:
  "psq (STA_SET n c) = psq c" "apsdq (STA_SET n c) = apsdq c" "psq (STA_CLR n c) = psq c" "apsdq (STA_CLR n c) = apsdq c"
  by (simp_all add: STA_SET_def STA_CLR_def)

lemma free_keeps: "keeps {#skb_id skb#} ar (A_NETBUF_FREE_SKB skb ar)"
  by (rule same_books_keeps) (simp_all add: A_NETBUF_FREE_SKB_def same_books_def frames_of_def)

subsection \<open>Packets\<close>

text \<open>Taking a cookie and handing a packet over, whatever its payload.\<close>

lemma send_packet_inv:
  assumes "tx_inv ar" and "ar6000_alloc_cookie ar = (Some c, ar1)" and "count_pending eid b ar1 = Some ar2"
    and "pkt_cookie p = c" and "pkt_endpoint p = eid"
  shows "tx_inv (HTCSendPkt p ar2)"
proof -
  obtain cs where cs: "arCookieList ar = c # cs" and 1: "ar1 = ar\<lparr>arCookieList := cs, arCookieCount := arCookieCount ar - 1\<rparr>"
    using assms(2) by (auto simp: ar6000_alloc_cookie_def split: list.splits)
  from assms(3) have e: "eid < length (arTxPending ar)" and 2: "ar2 = ar1\<lparr>arTxPending := (arTxPending ar)[eid := arTxPending ar ! eid + 1],
      arTotalTxDataPending := arTotalTxDataPending ar1 + (if b then 1 else 0)\<rparr>"
    by (auto simp: count_pending_def bind_eq_Some_conv at_eq_Some_iff 1)
  have "cookies_ok (HTCSendPkt p ar2)"
    using assms(1,4) by (simp add: tx_inv_def cookies_ok_def HTCSendPkt_def 1 2 cs)
  moreover have "pending_ok (HTCSendPkt p ar2)"
    using assms(1,5) e by (auto simp: tx_inv_def pending_ok_def HTCSendPkt_def 1 2 nth_list_update)
  moreover have "priority_ok (HTCSendPkt p ar2)"
    using assms(1) by (simp add: tx_inv_def priority_ok_def HTCSendPkt_def 1 2 highest_active_def cong: if_cong)
  ultimately show ?thesis by (simp add: tx_inv_def)
qed

lemma send_packet_frames:
  assumes "ar6000_alloc_cookie ar = (Some c, ar1)" and "count_pending eid b ar1 = Some ar2"
  shows "frames_of (HTCSendPkt p ar2) = frames_of ar + payload_ids p"
  using assms by (auto simp: ar6000_alloc_cookie_def count_pending_def bind_eq_Some_conv HTCSendPkt_def
      frames_of_def ac_simps split: list.splits)

lemma send_packet_keeps:
  assumes "ar6000_alloc_cookie ar = (Some c, ar1)" and "count_pending eid b ar1 = Some ar2"
    and "pkt_cookie p = c" and "pkt_endpoint p = eid"
  shows "keeps (payload_ids p) ar (HTCSendPkt p ar2)"
  using send_packet_inv [OF _ assms] send_packet_frames [OF assms(1,2)] by (simp add: keeps_def)

lemma alloc_none: "ar6000_alloc_cookie ar = (None, ar1) \<Longrightarrow> ar1 = ar"
  by (auto simp: ar6000_alloc_cookie_def split: list.splits)

lemma control_tx_keeps:
  assumes "ar6000_control_tx d m eid ar = Some (st, ar')"
  shows "keeps {#} ar ar'"
proof (cases "ar' = ar")
  case False
  with assms obtain c ar1 ar2 where "ar6000_alloc_cookie ar = (Some c, ar1)"
    and "count_pending eid (eid \<noteq> arControlEp ar1) ar1 = Some ar2"
    and p: "ar' = HTCSendPkt \<lparr>pkt_cookie = c, pkt_mapNo = 0, pkt_endpoint = eid, pkt_tag = AR6K_CONTROL_PKT_TAG,
      pkt_payload = COMMAND d m\<rparr> ar2"
    by (auto simp: ar6000_control_tx_def bind_eq_Some_conv dest: alloc_none split: if_splits prod.splits option.splits)
  from send_packet_keeps [OF this(1,2), where p = "\<lparr>pkt_cookie = c, pkt_mapNo = 0, pkt_endpoint = eid,
      pkt_tag = AR6K_CONTROL_PKT_TAG, pkt_payload = COMMAND d m\<rparr>"] show ?thesis
    by (simp add: p payload_ids_def)
qed (simp add: keeps_refl)

lemma send_on_keeps:
  assumes "send_on eid n tag skb ar = Some ar'"
  shows "keeps {#skb_id skb#} ar ar'"
proof (cases "ar6000_alloc_cookie ar")
  case (Pair c ar1)
  show ?thesis
  proof (cases c)
    case None
    with assms Pair show ?thesis by (auto simp: send_on_def free_keeps dest!: alloc_none)
  next
    case (Some k)
    with assms Pair obtain ar2 where "count_pending eid True ar1 = Some ar2"
      and p: "ar' = HTCSendPkt \<lparr>pkt_cookie = k, pkt_mapNo = n, pkt_endpoint = eid, pkt_tag = tag, pkt_payload = FRAME skb\<rparr> ar2"
      by (auto simp: send_on_def bind_eq_Some_conv)
    from send_packet_keeps [OF Pair [unfolded Some] this(1), where p = "\<lparr>pkt_cookie = k, pkt_mapNo = n,
        pkt_endpoint = eid, pkt_tag = tag, pkt_payload = FRAME skb\<rparr>"] show ?thesis
      by (simp add: p payload_ids_def)
  qed
qed

subsection \<open>The highest priority\<close>

lemma Max_insert2: "finite S \<Longrightarrow> Max (insert a (insert b S)) = Max (insert (max a b) (S :: nat set))"
  by (cases "S = {}") (simp_all add: max.assoc)

lemma fold_max:
  "fold (\<lambda>i m. if P i \<and> g i > m then g i else m) is m = Max (insert (m :: nat) (g ` {i \<in> set is. P i}))"
proof (induction "is" arbitrary: m)
  case (Cons i "is")
  let ?S = "g ` {i \<in> set is. P i}"
  have S: "g ` {x \<in> set (i # is). P x} = (if P i then insert (g i) ?S else ?S)" by auto
  have fin: "finite ?S" by simp
  show ?case
  proof (cases "P i")
    case True
    with fin show ?thesis unfolding S if_P [OF True] Max_insert2 [OF fin]
      using Cons.IH [of "max m (g i)"] True by (cases "m < g i") (simp_all add: max_def)
  next
    case False
    then show ?thesis unfolding S using Cons.IH [of m] by simp
  qed
qed simp

definition active_pris :: "AR_SOFTC_T \<Rightarrow> nat set" where
  "active_pris ar = (\<lambda>i. arAcStreamPriMap ar ! i) ` {i. i < WMM_NUM_AC \<and> arAcStreamActive ar ! i}"

lemma finite_active_pris [simp]: "finite (active_pris ar)"
  by (simp add: active_pris_def)

lemma highest_active_Max: "highest_active ar = Max (insert 0 (active_pris ar))"
proof -
  have "{i \<in> set [0..<WMM_NUM_AC]. arAcStreamActive ar ! i} = {i. i < WMM_NUM_AC \<and> arAcStreamActive ar ! i}"
    by auto
  then show ?thesis
    by (simp only: highest_active_def fold_max active_pris_def)
qed

lemma Max_insert0_in: "finite S \<Longrightarrow> Max (insert (0 :: nat) S) = m \<longleftrightarrow> (m = 0 \<and> S \<subseteq> {0}) \<or> (m \<in> S \<and> (\<forall>x \<in> S. x \<le> m))"
  by (cases "S = {}") (auto simp: Max_eq_iff)

lemma active_pris_update:
  assumes "priority_ok ar" and "i < WMM_NUM_AC"
  shows "active_pris (ar\<lparr>arAcStreamActive := (arAcStreamActive ar)[i := True]\<rparr>) = insert (arAcStreamPriMap ar ! i) (active_pris ar)"
    and "active_pris (ar\<lparr>arAcStreamActive := (arAcStreamActive ar)[i := False]\<rparr>) \<subseteq> active_pris ar"
    and "active_pris ar \<subseteq> insert (arAcStreamPriMap ar ! i) (active_pris (ar\<lparr>arAcStreamActive := (arAcStreamActive ar)[i := False]\<rparr>))"
  using assms by (auto simp: active_pris_def priority_ok_def nth_list_update split: if_splits)

lemma Max_remove:
  assumes "finite T" and "S \<subseteq> T" and "T \<subseteq> insert x S" and "x \<noteq> Max (insert 0 T)"
  shows "Max (insert 0 S) = Max (insert (0 :: nat) T)"
proof (rule Max_eqI)
  show "finite (insert 0 S)" using assms(1,2) by (auto intro: finite_subset)
  show "y \<le> Max (insert 0 T)" if "y \<in> insert 0 S" for y
    using that assms(1,2) by (intro Max_ge) auto
  have "Max (insert 0 T) \<in> insert 0 T" using assms(1) by (intro Max_in) auto
  then show "Max (insert 0 T) \<in> insert 0 S" using assms(3,4) by auto
qed

lemma indicate_shape:
  assumes "ar6000_indicate_tx_activity i b ar = Some ar'"
  shows "ar' = ar\<lparr>arAcStreamActive := arAcStreamActive ar', arHiAcStreamActivePri := arHiAcStreamActivePri ar',
    htc_activity := htc_activity ar'\<rparr>"
proof (cases "arWmiReady ar")
  case False
  with assms show ?thesis by (auto simp: ar6000_indicate_tx_activity_def bind_eq_Some_conv)
next
  case True
  with assms obtain e act pri where eq: "ar' = (let u = ar\<lparr>arAcStreamActive := act\<rparr>;
      v = (if b then (if pri > arHiAcStreamActivePri u then u\<lparr>arHiAcStreamActivePri := pri\<rparr> else u)
           else (if arHiAcStreamActivePri u = pri then u\<lparr>arHiAcStreamActivePri := highest_active u\<rparr> else u))
      in v\<lparr>htc_activity := htc_activity v @ [(e, b)]\<rparr>)"
    unfolding ar6000_indicate_tx_activity_def Let_def bind_eq_Some_conv if_P [OF True] option.inject by blast
  show ?thesis unfolding eq Let_def by (simp split: if_split)
qed

lemma indicate_inv:
  assumes "tx_inv ar" and "ar6000_indicate_tx_activity i b ar = Some ar'"
  shows "tx_inv ar'"
proof -
  let ?u = "ar\<lparr>arAcStreamActive := (arAcStreamActive ar)[i := b]\<rparr>"
  have rest_ok: "cookies_ok ar'" "pending_ok ar'"
    using assms(1) by (subst indicate_shape [OF assms(2)], simp add: tx_inv_def cookies_ok_def pending_ok_def)+
  have p: "priority_ok ar" and hi: "arHiAcStreamActivePri ar = Max (insert 0 (active_pris ar))"
    using assms(1) by (simp_all add: tx_inv_def priority_ok_def highest_active_Max)
  have "priority_ok ar'"
  proof (cases "arWmiReady ar")
    case False
    then show ?thesis using assms p
      by (auto simp: ar6000_indicate_tx_activity_def bind_eq_Some_conv priority_ok_def highest_active_def cong: if_cong)
  next
    case True
    with assms(2) p have i: "i < WMM_NUM_AC"
      by (auto simp: ar6000_indicate_tx_activity_def bind_eq_Some_conv at_eq_Some_iff priority_ok_def)
    define pri where "pri = arAcStreamPriMap ar ! i"
    note upd = active_pris_update [OF p i, folded pri_def]
    have ar': "arHiAcStreamActivePri ar' = (if b then max pri (arHiAcStreamActivePri ar)
        else if arHiAcStreamActivePri ar = pri then highest_active ?u else arHiAcStreamActivePri ar)"
      "arAcStreamActive ar' = arAcStreamActive ?u" "arAcStreamPriMap ar' = arAcStreamPriMap ar"
      using assms(2) True by (cases b; auto simp: ar6000_indicate_tx_activity_def bind_eq_Some_conv Let_def pri_def
          at_eq_Some_iff put_eq_Some_iff split: if_split_asm)+
    have pris: "active_pris ar' = active_pris ?u" by (simp add: active_pris_def ar')
    have "arHiAcStreamActivePri ar' = Max (insert 0 (active_pris ?u))"
    proof (cases b)
      case True
      have "Max (insert 0 (insert pri (active_pris ar))) = max pri (Max (insert 0 (active_pris ar)))"
        by (subst insert_commute) (rule Max_insert; simp)
      with True show ?thesis using upd(1) by (simp add: ar' hi)
    next
      case False
      show ?thesis
      proof (cases "arHiAcStreamActivePri ar = pri")
        case True
        with False show ?thesis by (simp add: ar' highest_active_Max)
      next
        case neq: False
        with False have eq: "arHiAcStreamActivePri ar' = Max (insert 0 (active_pris ar))" by (simp add: ar' hi)
        from neq hi have "pri \<noteq> Max (insert 0 (active_pris ar))" by simp
        from Max_remove [OF _ upd(2,3) this] False eq show ?thesis by simp
      qed
    qed
    then show ?thesis using p i by (simp add: priority_ok_def highest_active_Max pris ar')
  qed
  with rest_ok show ?thesis by (simp add: tx_inv_def)
qed

lemma indicate_frames:
  "ar6000_indicate_tx_activity i b ar = Some ar' \<Longrightarrow> frames_of ar' = frames_of ar"
  by (subst indicate_shape, assumption, simp add: frames_of_def)

lemma indicate_keeps: "ar6000_indicate_tx_activity i b ar = Some ar' \<Longrightarrow> keeps {#} ar ar'"
  by (simp add: keeps_def indicate_inv indicate_frames)

subsection \<open>Calls of the WMI layer\<close>

lemma indicate_all_keeps: "indicate_all xs ar = Some ar' \<Longrightarrow> keeps {#} ar ar'"
  by (induction xs ar rule: indicate_all.induct)
    (auto simp: keeps_refl bind_eq_Some_conv intro: keeps_trans0 indicate_keeps)

lemma control_all_keeps: "control_all d ms ar = Some ar' \<Longrightarrow> keeps {#} ar ar'"
  by (induction d ms ar rule: control_all.induct)
    (auto simp: keeps_refl bind_eq_Some_conv intro: keeps_trans0 control_tx_keeps)

lemma wmi_priv_keeps: "keeps {#} ar (ar\<lparr>pWmiPriv := q\<rparr>)"
  by (rule same_books_keeps) (simp_all add: same_books_def frames_of_def)

lemma wmi_call_keeps:
  assumes "wmi_call d f ar = Some (r, ar')"
  shows "keeps {#} ar ar'"
proof -
  from assms obtain q' xs ms ar1 where "indicate_all xs (ar\<lparr>pWmiPriv := q'\<rparr>) = Some ar1" "control_all d ms ar1 = Some ar'"
    by (auto simp: wmi_call_def Let_def bind_eq_Some_conv)
  from keeps_trans0 [OF wmi_priv_keeps keeps_trans0 [OF indicate_all_keeps [OF this(1)] control_all_keeps [OF this(2)]]]
  show ?thesis .
qed

text \<open>A call changes nothing but what WMI and HTC hold.\<close>

lemma control_tx_frame:
  "ar6000_control_tx d m eid ar = Some (st, ar') \<Longrightarrow> arDev ar' = arDev ar \<and> connTbl ar' = connTbl ar"
  by (auto simp: ar6000_control_tx_def ar6000_alloc_cookie_def count_pending_def HTCSendPkt_def bind_eq_Some_conv
      split: if_splits prod.splits option.splits list.splits)

lemma indicate_frame:
  assumes "ar6000_indicate_tx_activity i b ar = Some ar'"
  shows "arDev ar' = arDev ar \<and> connTbl ar' = connTbl ar"
  by (subst (1 2) indicate_shape [OF assms]) simp

lemma indicate_all_frame: "indicate_all xs ar = Some ar' \<Longrightarrow> arDev ar' = arDev ar \<and> connTbl ar' = connTbl ar"
  by (induction xs ar rule: indicate_all.induct) (auto simp: bind_eq_Some_conv dest: indicate_frame)

lemma control_all_frame: "control_all d ms ar = Some ar' \<Longrightarrow> arDev ar' = arDev ar \<and> connTbl ar' = connTbl ar"
  by (induction d ms ar rule: control_all.induct) (auto simp: bind_eq_Some_conv dest: control_tx_frame)

lemma wmi_call_frame:
  "wmi_call d f ar = Some (r, ar') \<Longrightarrow> arDev ar' = arDev ar \<and> connTbl ar' = connTbl ar"
  by (fastforce simp: wmi_call_def Let_def bind_eq_Some_conv dest: indicate_all_frame control_all_frame)

subsection \<open>Frames\<close>

lemma enqueue_mcast_keeps:
  "d < length (arDev ar) \<Longrightarrow> keeps {#skb_id skb#} ar (upd_dev d (\<lambda>x. x\<lparr>mcastpsq := mcastpsq x @ [skb]\<rparr>) ar)"
  using upd_dev_frames [of d ar "\<lambda>x. x\<lparr>mcastpsq := mcastpsq x @ [skb]\<rparr>"] by (intro same_books_keeps) simp_all

lemma enqueue_psq_keeps:
  "i < length (connTbl ar) \<Longrightarrow> keeps {#skb_id skb#} ar (upd_conn i (\<lambda>c. c\<lparr>psq := psq c @ [skb]\<rparr>) ar)"
  using upd_conn_frames [of i ar "\<lambda>c. c\<lparr>psq := psq c @ [skb]\<rparr>"] by (intro same_books_keeps) simp_all

lemma enqueue_apsdq_keeps:
  "i < length (connTbl ar) \<Longrightarrow> keeps {#skb_id skb#} ar (upd_conn i (\<lambda>c. c\<lparr>apsdq := apsdq c @ [skb]\<rparr>) ar)"
  using upd_conn_frames [of i ar "\<lambda>c. c\<lparr>apsdq := apsdq c @ [skb]\<rparr>"] by (intro same_books_keeps) simp_all

lemma hold_multicast_keeps:
  assumes "hold_multicast d skb ar = Some (r, ar')"
  shows "keeps (if r = None then {#skb_id skb#} else {#}) ar ar'"
  using assms
  by (auto simp: hold_multicast_def Let_def bind_eq_Some_conv arPriv_Some keeps_refl enqueue_mcast_keeps
      split: if_split_asm intro: keeps_trans0' [OF enqueue_mcast_keeps wmi_call_keeps])

lemma hold_for_station_keeps:
  assumes "hold_for_station d i skb ar = Some (r, ar')"
  shows "keeps (if r = None then {#skb_id skb#} else {#}) ar ar'"
  using assms
  by (auto simp: hold_for_station_def Let_def bind_eq_Some_conv at_eq_Some_iff keeps_refl enqueue_psq_keeps enqueue_apsdq_keeps
      split: if_split_asm intro: keeps_trans0' [OF enqueue_psq_keeps wmi_call_keeps] keeps_trans0' [OF enqueue_apsdq_keeps wmi_call_keeps])

lemma ap_power_save_keeps:
  assumes "ap_power_save d skb ar = Some (r, ar')"
  shows "keeps (if r = None then {#skb_id skb#} else {#}) ar ar'"
proof -
  from assms obtain mac where "(if IEEE80211_IS_MULTICAST mac then hold_multicast d skb ar else
      (case ieee80211_find_conn mac ar of None \<Rightarrow> Some (None, A_NETBUF_FREE_SKB skb ar)
       | Some i \<Rightarrow> hold_for_station d i skb ar)) = Some (r, ar')"
    by (auto simp: ap_power_save_def bind_eq_Some_conv)
  then show ?thesis
    by (auto simp: free_keeps dest: hold_multicast_keeps hold_for_station_keeps split: if_split_asm option.split_asm)
qed

lemma bindE: "Option.bind x f = Some y \<Longrightarrow> (\<And>a. x = Some a \<Longrightarrow> f a = Some y \<Longrightarrow> P) \<Longrightarrow> P"
  by (cases x) auto

lemma bindE2: "Option.bind x (\<lambda>(a, b). f a b) = Some y \<Longrightarrow> (\<And>a b. x = Some (a, b) \<Longrightarrow> f a b = Some y \<Longrightarrow> P) \<Longrightarrow> P"
  by (cases x) auto

lemma bindE4: "Option.bind x (\<lambda>(a, b, c, e). f a b c e) = Some y \<Longrightarrow>
    (\<And>a b c e. x = Some (a, b, c, e) \<Longrightarrow> f a b c e = Some y \<Longrightarrow> P) \<Longrightarrow> P"
  by (cases x) auto

lemma copy_for_headroom_keeps:
  "copy_for_headroom skb ar = (r, ar') \<Longrightarrow> keeps {#} ar ar' \<and> arDev ar' = arDev ar \<and> (\<forall>s. r = Some s \<longrightarrow> skb_id s = skb_id skb)"
proof -
  have "keeps {#} ar (ar\<lparr>skb_answers := x\<rparr>)" for x
    by (rule same_books_keeps) (simp_all add: same_books_def frames_of_def)
  then show "copy_for_headroom skb ar = (r, ar') \<Longrightarrow> ?thesis"
    by (auto simp: copy_for_headroom_def Let_def keeps_refl split: if_split_asm)
qed

lemma add_headers_id: "add_headers d skb csum flags ar = Some (st, skb') \<Longrightarrow> skb_id skb' = skb_id skb"
  by (auto simp: add_headers_def Let_def bind_eq_Some_conv split: if_split_asm option.split_asm)

lemma wmi_path_keeps:
  assumes "wmi_path d skb flags ar = Some (t, skb', ar')"
  shows "keeps {#} ar ar' \<and> skb_id skb' = skb_id skb"
proof (cases "copy_for_headroom skb ar")
  case (Pair r ar1)
  note c = copy_for_headroom_keeps [OF Pair]
  show ?thesis
  proof (cases r)
    case None
    with assms Pair c show ?thesis by (auto simp: wmi_path_def Let_def bind_eq_Some_conv)
  next
    case (Some s)
    let ?csum = "if csumOffload ar then skb_csum skb else None"
    from assms obtain dev :: AR_SOFTC_DEV_T where "(do {
          (st, s) \<leftarrow> add_headers d s ?csum flags ar1;
          if A_FAILED st then Some (AC_NOT_MAPPED, s, ar1)
          else if arNetworkType dev = ADHOC_NETWORK \<and> arIbssPsEnable dev \<and> arConnected dev then Some (ADHOC_MAP, s, ar1)
          else do {
            ((ac, b), ar) \<leftarrow> wmi_call d (\<lambda>q. map_option (\<lambda>(ac, b, q). ((ac, b), q))
              (wmi_implicit_create_pstream (processDot11Hdr ar1) (skb_nb s) (layer2Priority (skb_priority s)) (arWmmEnabled dev) q)) ar1;
            Some (TO_AC ac, s\<lparr>skb_nb := b\<rparr>, ar)
          }
        }) = Some (t, skb', ar')"
      unfolding wmi_path_def Pair Some Let_def by (rule bindE) auto
    then obtain st s1 where h: "add_headers d s ?csum flags ar1 = Some (st, s1)"
      and t: "(if A_FAILED st then Some (AC_NOT_MAPPED, s1, ar1)
          else if arNetworkType dev = ADHOC_NETWORK \<and> arIbssPsEnable dev \<and> arConnected dev then Some (ADHOC_MAP, s1, ar1)
          else do {
            ((ac, b), ar) \<leftarrow> wmi_call d (\<lambda>q. map_option (\<lambda>(ac, b, q). ((ac, b), q))
              (wmi_implicit_create_pstream (processDot11Hdr ar1) (skb_nb s1) (layer2Priority (skb_priority s1)) (arWmmEnabled dev) q)) ar1;
            Some (TO_AC ac, s1\<lparr>skb_nb := b\<rparr>, ar)
          }) = Some (t, skb', ar')"
      by (rule bindE2) blast
    have "(s1, ar1) = (skb', ar') \<or> (\<exists>f (r :: byte \<times> netbuf) b. wmi_call d f ar1 = Some (r, ar') \<and> skb' = s1\<lparr>skb_nb := b\<rparr>)"
    proof (cases "(s1, ar1) = (skb', ar')")
      case False
      with t have "(do {
            ((ac, b), ar) \<leftarrow> wmi_call d (\<lambda>q. map_option (\<lambda>(ac, b, q). ((ac, b), q))
              (wmi_implicit_create_pstream (processDot11Hdr ar1) (skb_nb s1) (layer2Priority (skb_priority s1)) (arWmmEnabled dev) q)) ar1;
            Some (TO_AC ac, s1\<lparr>skb_nb := b\<rparr>, ar)
          }) = Some (t, skb', ar')" by (simp split: if_split_asm)
      then show ?thesis by (rule bindE) auto
    qed simp
    with c Some add_headers_id [OF h] show ?thesis
      by (auto intro: keeps_trans0 wmi_call_keeps)
  qed
qed

lemma epping_path_id: "epping_path skb = Some (t, tag, skb') \<Longrightarrow> skb_id skb' = skb_id skb"
  by (auto simp: epping_path_def Let_def bind_eq_Some_conv split: if_split_asm)

lemma ibss_endpoint_mcast: "ibss_endpoint ar dev = Some (e, dev') \<Longrightarrow> mcastpsq dev' = mcastpsq dev"
  by (auto simp: ibss_endpoint_def split: if_split_asm option.split_asm)

lemma ibss_slot_mcast: "ibss_slot dev = (i, dev') \<Longrightarrow> mcastpsq dev' = mcastpsq dev"
  by (auto simp: ibss_slot_def split: option.split_asm)

lemma upd_dev_const_keeps:
  assumes "d < length (arDev ar)" and "mcastpsq x = mcastpsq (arDev ar ! d)"
  shows "keeps {#} ar (upd_dev d (\<lambda>_. x) ar)"
  using upd_dev_frames [OF assms(1), of "\<lambda>_. x"] assms(2) by (intro same_books_keeps) simp_all

lemma ibss_map_epid_keeps:
  assumes "ar6000_ibss_map_epid skb d ar = Some (e, n, ar')"
  shows "keeps {#} ar ar'"
proof -
  from assms obtain mac where d: "d < length (arDev ar)"
    and m: "(if IEEE80211_IS_MULTICAST mac then Some (ENDPOINT_2, 0, ar) else (case ibss_known mac (arDev ar ! d) of
         Some i \<Rightarrow> do {
           m \<leftarrow> at (arNodeMap (arDev ar ! d)) i;
           Some (nm_epId m, i + 1, upd_dev d (\<lambda>x. x\<lparr>arNodeMap := (arNodeMap x)[i := m\<lparr>nm_txPending := nm_txPending m + 1\<rparr>]\<rparr>) ar)
         }
       | None \<Rightarrow> do {
           let (i, dev) = ibss_slot (arDev ar ! d);
           m \<leftarrow> at (arNodeMap dev) i;
           (ep, dev) \<leftarrow> ibss_endpoint ar dev;
           let m = \<lparr>nm_macAddress = mac, nm_epId = ep, nm_txPending = nm_txPending m + 1\<rparr>;
           Some (ep, i + 1, upd_dev d (\<lambda>_. dev\<lparr>arNodeMap := (arNodeMap dev)[i := m]\<rparr>) ar)
         })) = Some (e, n, ar')"
    by (auto simp: ar6000_ibss_map_epid_def bind_eq_Some_conv arPriv_Some)
  have *: "keeps {#} ar (upd_dev d (\<lambda>_. dev\<lparr>arNodeMap := x\<rparr>) ar)"
    if "ibss_slot (arDev ar ! d) = (i, dev1)" "ibss_endpoint ar dev1 = Some (ep, dev)" for i dev1 ep dev x
    using d ibss_slot_mcast [OF that(1)] ibss_endpoint_mcast [OF that(2)] by (intro upd_dev_const_keeps) simp_all
  from m show ?thesis
    by (auto simp: keeps_refl bind_eq_Some_conv Let_def upd_dev_keeps * split: if_split_asm option.split_asm prod.split_asm)
qed

lemma hand_to_htc_keeps:
  assumes "hand_to_htc d t tag skb ar = Some ar'"
  shows "keeps {#skb_id skb#} ar ar'"
proof -
  from assms obtain e n ar1 where 1: "(case t of TO_AC ac \<Rightarrow> map_option (\<lambda>e. (e, 0, ar)) (at (arAc2EpMapping ar) (unat ac))
        | _ \<Rightarrow> ar6000_ibss_map_epid skb d ar) = Some (e, n, ar1)"
    and 2: "(if e = 0 \<or> e = ENDPOINT_UNUSED then Some (A_NETBUF_FREE_SKB skb ar1) else send_on e n tag skb ar1) = Some ar'"
    by (auto simp: hand_to_htc_def bind_eq_Some_conv)
  from 1 have "keeps {#} ar ar1" by (auto split: tx_target.split_asm intro: ibss_map_epid_keeps keeps_refl)
  moreover from 2 have "keeps {#skb_id skb#} ar1 ar'" by (auto simp: free_keeps intro: send_on_keeps split: if_split_asm)
  ultimately show ?thesis by (rule keeps_trans0)
qed

lemma transmit_keeps:
  assumes "transmit d skb flags ar = Some ar'"
  shows "keeps {#skb_id skb#} ar ar'"
proof -
  from assms obtain dev :: AR_SOFTC_DEV_T where "(do {
     (target, tag, skb, ar) \<leftarrow> (if arWmiEnabled dev
        then map_option (\<lambda>(t, skb, ar). (t, AR6K_DATA_PKT_TAG, skb, ar)) (wmi_path d skb flags ar)
        else map_option (\<lambda>(t, tag, skb). (t, tag, skb, ar)) (epping_path skb));
     if target = AC_NOT_MAPPED then Some (A_NETBUF_FREE_SKB skb ar)
     else hand_to_htc d target tag skb ar}) = Some ar'"
    unfolding transmit_def by (rule bindE) blast
  then obtain t tag skb1 ar1 where
    1: "(if arWmiEnabled dev then map_option (\<lambda>(t, skb, ar). (t, AR6K_DATA_PKT_TAG, skb, ar)) (wmi_path d skb flags ar)
        else map_option (\<lambda>(t, tag, skb). (t, tag, skb, ar)) (epping_path skb)) = Some (t, tag, skb1, ar1)"
    and 2: "(if t = AC_NOT_MAPPED then Some (A_NETBUF_FREE_SKB skb1 ar1) else hand_to_htc d t tag skb1 ar1) = Some ar'"
    by (rule bindE4) blast
  from 1 have "keeps {#} ar ar1 \<and> skb_id skb1 = skb_id skb"
    by (auto simp: keeps_refl dest: wmi_path_keeps epping_path_id split: if_split_asm)
  moreover from 2 have "keeps {#skb_id skb1#} ar1 ar'"
    by (auto simp: free_keeps intro: hand_to_htc_keeps split: if_split_asm)
  ultimately show ?thesis by (metis keeps_trans0)
qed

text \<open>The transmit function puts the frame in one place: a queue, HTC, or back to the system.\<close>

lemma data_tx_keeps:
  assumes "ar6000_data_tx d skb ar = Some ar'"
  shows "keeps {#skb_id skb#} ar ar'"
proof (cases "ar' = A_NETBUF_FREE_SKB skb ar")
  case True
  then show ?thesis by (simp add: free_keeps)
next
  case False
  from assms obtain dev :: AR_SOFTC_DEV_T where "(if pm_tx_blocked ar \<or> (\<not> arConnected dev \<and> \<not> bypasswmi ar) \<or> tcmd_mode ar then Some (A_NETBUF_FREE_SKB skb ar)
     else if \<not> arWmiReady ar \<and> \<not> bypasswmi ar then Some (A_NETBUF_FREE_SKB skb ar)
     else do {
       (flags, ar) \<leftarrow> (if arNetworkType dev = AP_NETWORK then ap_power_save d skb ar else Some (Some 0, ar));
       (case flags of None \<Rightarrow> Some ar | Some flags \<Rightarrow> transmit d skb flags ar)
     }) = Some ar'"
    unfolding ar6000_data_tx_def by (rule bindE) blast
  with False have "do {
       (flags, ar) \<leftarrow> (if arNetworkType dev = AP_NETWORK then ap_power_save d skb ar else Some (Some 0, ar));
       (case flags of None \<Rightarrow> Some ar | Some flags \<Rightarrow> transmit d skb flags ar)
     } = Some ar'" by (simp split: if_split_asm)
  then obtain fl ar1 where
    1: "(if arNetworkType dev = AP_NETWORK then ap_power_save d skb ar else Some (Some 0, ar)) = Some (fl, ar1)"
    and 2: "(case fl of None \<Rightarrow> Some ar1 | Some flags \<Rightarrow> transmit d skb flags ar1) = Some ar'"
    by (rule bindE2) blast
  show ?thesis
  proof (cases fl)
    case None
    with 1 2 show ?thesis by (auto dest: ap_power_save_keeps split: if_split_asm)
  next
    case (Some f)
    with 1 have "keeps {#} ar ar1" by (auto simp: keeps_refl dest: ap_power_save_keeps split: if_split_asm)
    moreover from 2 Some have "keeps {#skb_id skb#} ar1 ar'" by (auto intro: transmit_keeps)
    ultimately show ?thesis by (rule keeps_trans0)
  qed
qed

subsection \<open>Completion\<close>

lemma ibss_complete_mcast: "ibss_complete n dev = Some dev' \<Longrightarrow> mcastpsq dev' = mcastpsq dev"
  by (auto simp: ibss_complete_def Let_def bind_eq_Some_conv split: if_split_asm)

lemma mset_map_remove1: "p \<in> set xs \<Longrightarrow> add_mset (f p) (mset (map f (remove1 p xs))) = mset (map f xs)"
  by (induction xs) auto

lemma sum_list_remove1: "p \<in> set xs \<Longrightarrow> g p + sum_list (map g (remove1 p xs)) = (sum_list (map g xs) :: 'a multiset)"
  by (induction xs) (auto simp: ac_simps)

lemma map_update_same: "i < length xs \<Longrightarrow> f x = f (xs ! i) \<Longrightarrow> map f (xs[i := x]) = map f xs"
  by (simp add: map_update list_update_same_conv)

lemma leave_htc_facts:
  assumes "leave_htc p ar = Some ar'"
  shows "p \<in> set (in_htc ar)" "pkt_endpoint p < length (arTxPending ar)"
    "in_htc ar' = remove1 p (in_htc ar)"
    "arTxPending ar' = (arTxPending ar)[pkt_endpoint p := arTxPending ar ! pkt_endpoint p - 1]"
    "arCookieList ar' = arCookieList ar" "arCookieCount ar' = arCookieCount ar"
    "arAcStreamActive ar' = arAcStreamActive ar" "arAcStreamPriMap ar' = arAcStreamPriMap ar"
    "arHiAcStreamActivePri ar' = arHiAcStreamActivePri ar" "connTbl ar' = connTbl ar" "arDev ar' = arDev ar"
    "freed ar' = freed ar"
  using assms by (auto simp: leave_htc_def Let_def bind_eq_Some_conv at_eq_Some_iff split: if_split_asm)

lemma give_back_facts:
  "in_htc (give_back p ar) = in_htc ar" "arTxPending (give_back p ar) = arTxPending ar"
  "arCookieList (give_back p ar) = pkt_cookie p # arCookieList ar" "arCookieCount (give_back p ar) = arCookieCount ar + 1"
  "arAcStreamActive (give_back p ar) = arAcStreamActive ar" "arAcStreamPriMap (give_back p ar) = arAcStreamPriMap ar"
  "arHiAcStreamActivePri (give_back p ar) = arHiAcStreamActivePri ar" "connTbl (give_back p ar) = connTbl ar"
  "arDev (give_back p ar) = arDev ar" "ids (freed (give_back p ar)) = ids (freed ar) + payload_ids p"
  by (simp_all add: give_back_def Let_def ar6000_free_cookie_def A_NETBUF_FREE_SKB_def payload_ids_def
      split: tx_payload.split)

lemma returned_inv:
  assumes "tx_inv ar" and l: "leave_htc p ar = Some ar1" and "same_books ar1 ar2"
  shows "tx_inv (give_back p ar2)"
proof -
  note l = leave_htc_facts [OF l]
  note eqs = give_back_facts l(3-) assms(3) [unfolded same_books_def]
  have "cookies_ok (give_back p ar2)"
    using assms(1) mset_map_remove1 [OF l(1), of pkt_cookie]
    by (simp add: tx_inv_def cookies_ok_def eqs flip: union_mset_add_mset_right)
  moreover have "pending_ok (give_back p ar2)"
    unfolding pending_ok_def
  proof (intro conjI allI impI ballI)
    fix e assume "e < length (arTxPending (give_back p ar2))"
    then have "e < length (arTxPending ar)" by (simp add: eqs)
    moreover have "count (mset (map pkt_endpoint (in_htc ar))) e =
        count (add_mset (pkt_endpoint p) (mset (map pkt_endpoint (remove1 p (in_htc ar))))) e"
      by (simp only: mset_map_remove1 [OF l(1)])
    ultimately show "arTxPending (give_back p ar2) ! e = int (count (mset (map pkt_endpoint (in_htc (give_back p ar2)))) e)"
      using assms(1) l(2) by (auto simp: eqs tx_inv_def pending_ok_def nth_list_update)
  next
    fix q assume "q \<in> set (in_htc (give_back p ar2))"
    then show "pkt_endpoint q < length (arTxPending (give_back p ar2))"
      using assms(1) by (auto simp: eqs tx_inv_def pending_ok_def dest: notin_set_remove1)
  qed
  moreover have "priority_ok (give_back p ar2)"
    using assms(1) by (simp add: tx_inv_def priority_ok_def eqs highest_active_def cong: if_cong)
  ultimately show ?thesis by (simp add: tx_inv_def)
qed

lemma returned_frames:
  assumes l: "leave_htc p ar = Some ar1"
  shows "frames_of (give_back p ar1) = frames_of ar"
  using sum_list_remove1 [OF leave_htc_facts(1) [OF l], of payload_ids]
  by (simp add: frames_of_def give_back_facts leave_htc_facts(3-) [OF l] ac_simps)

lemma give_back_frames: "frames_of (give_back p ar) = frames_of ar + payload_ids p"
  by (simp add: frames_of_def give_back_facts ac_simps)

lemma reap_one_keeps:
  assumes "reap_one p st fl ar = Some (fl', ar')"
  shows "keeps {#} ar ar'"
proof -
  from assms obtain ar1 devid dev dev' where l: "leave_htc p ar = Some ar1" and d: "arPriv devid ar1 = Some dev"
    and c: "(if arNetworkType dev = ADHOC_NETWORK \<and> arIbssPsEnable dev \<and> pkt_endpoint p \<noteq> arControlEp ar1 \<and> pkt_mapNo p \<noteq> 0
        then ibss_complete (pkt_mapNo p) dev else Some dev) = Some dev'"
    and ar': "ar' = give_back p (upd_dev devid (\<lambda>_. dev'\<lparr>arNetQueueStopped := False\<rparr>) ar1)"
    unfolding reap_one_def by (elim bindE) blast
  let ?u = "upd_dev devid (\<lambda>_. dev'\<lparr>arNetQueueStopped := False\<rparr>) ar1"
  from c have "mcastpsq dev' = mcastpsq dev" by (auto dest: ibss_complete_mcast split: if_split_asm)
  with d have "frames_of ?u = frames_of ar1"
    using upd_dev_frames [of devid ar1 "\<lambda>_. dev'\<lparr>arNetQueueStopped := False\<rparr>"] by (simp add: arPriv_Some)
  with returned_frames [OF l] have "frames_of ar' = frames_of ar" by (simp add: ar' give_back_frames)
  with returned_inv [OF _ l upd_dev_books] show ?thesis by (simp add: keeps_def ar')
qed

lemma reap_keeps: "reap ps fl ar = Some (fl', ar') \<Longrightarrow> keeps {#} ar ar'"
  by (induction ps fl ar rule: reap.induct)
    (auto simp: keeps_refl bind_eq_Some_conv intro: keeps_trans0 reap_one_keeps)

lemma tx_complete_keeps: 
  assumes "ar6000_tx_complete fl ps ar = Some ar'"
  shows "keeps {#} ar ar'"
proof -
  from assms obtain fl' ar1 where r: "reap ps fl ar = Some (fl', ar1)" and ar': "ar' = wake_queues fl' ar1"
    by (auto simp: ar6000_tx_complete_def bind_eq_Some_conv)
  have "keeps {#} ar1 ar'"
    unfolding ar' by (rule same_books_keeps) (simp_all add: wake_queues_def same_books_def frames_of_def)
  with reap_keeps [OF r] show ?thesis by (rule keeps_trans0)
qed

lemma stop_queues_keeps: "keeps {#} ar (stop_queues P ar)"
proof (rule same_books_keeps)
  have "map (\<lambda>x. ids (mcastpsq x)) (arDev (stop_queues P ar)) = map (\<lambda>x. ids (mcastpsq x)) (arDev ar)"
    by (simp add: stop_queues_def)
  then show "frames_of (stop_queues P ar) = frames_of ar + {#}"
    unfolding frames_of_def by (simp only:) (simp add: stop_queues_def)
qed (simp add: stop_queues_def same_books_def)

lemma full_action_keeps: "full_action p ar = Some (a, b, ar') \<Longrightarrow> keeps {#} ar ar'"
proof -
  have "keeps {#} ar (ar\<lparr>arWMIControlEpFull := x\<rparr>)" for x
    by (rule same_books_keeps) (simp_all add: same_books_def frames_of_def)
  then show "full_action p ar = Some (a, b, ar') \<Longrightarrow> ?thesis"
    by (auto simp: full_action_def bind_eq_Some_conv keeps_refl split: if_split_asm)
qed

lemma tx_queue_full_keeps: "ar6000_tx_queue_full p ar = Some (a, ar') \<Longrightarrow> keeps {#} ar ar'"
  by (auto simp: ar6000_tx_queue_full_def bind_eq_Some_conv intro: keeps_trans0 full_action_keeps stop_queues_keeps)

subsection \<open>Stations and events\<close>

lemma requeue_keeps:
  assumes "same_books ar u" and "frames_of u + {#n#} = frames_of ar" and "keeps {#n#} u ar'"
  shows "keeps {#} ar ar'"
  using assms by (simp add: keeps_def same_books_inv)

lemma dequeue_mcast_keeps:
  assumes "d < length (arDev ar)" and "mcastpsq (arDev ar ! d) = skb # skbs"
    and "ar6000_data_tx d skb (upd_dev d (\<lambda>x. x\<lparr>mcastpsq := skbs\<rparr>) ar) = Some ar'"
  shows "keeps {#} ar ar'"
  using upd_dev_frames [OF assms(1), of "\<lambda>x. x\<lparr>mcastpsq := skbs\<rparr>"] assms(2)
  by (intro requeue_keeps [OF upd_dev_books _ data_tx_keeps [OF assms(3)]]) simp

text \<open>A station whose oldest frame is taken for transmission, with other changes of its record.\<close>

lemma dequeue_conn_keeps:
  assumes "i < length (connTbl ar)"
    and "ids (psq (connTbl ar ! i) @ apsdq (connTbl ar ! i)) =
      add_mset (skb_id skb) (ids (psq (f (connTbl ar ! i)) @ apsdq (f (connTbl ar ! i))))"
    and "keeps {#skb_id skb#} (upd_conn i f ar) ar'"
  shows "keeps {#} ar ar'"
  using upd_conn_frames [OF assms(1), of f] assms(2)
  by (intro requeue_keeps [OF upd_conn_books _ assms(3)]) simp

lemma dequeue_psq_keeps:
  assumes "i < length (connTbl ar)" and "psq (connTbl ar ! i) = skb # skbs"
    and "ar6000_data_tx d skb (upd_conn i (\<lambda>c. c\<lparr>psq := skbs\<rparr>) ar) = Some ar'"
  shows "keeps {#} ar ar'"
  by (rule dequeue_conn_keeps [OF assms(1) _ data_tx_keeps [OF assms(3)]]) (simp add: assms(2))

lemma dequeue_apsdq_keeps:
  assumes "i < length (connTbl ar)" and "apsdq (connTbl ar ! i) = skb # skbs"
    and "ar6000_data_tx d skb (upd_conn i (\<lambda>c. c\<lparr>apsdq := skbs\<rparr>) ar) = Some ar'"
  shows "keeps {#} ar ar'"
  by (rule dequeue_conn_keeps [OF assms(1) _ data_tx_keeps [OF assms(3)]]) (simp add: assms(2))

lemma clear_pvb_keeps: "clear_pvb d i ar = Some ar' \<Longrightarrow> keeps {#} ar ar'"
  by (auto simp: clear_pvb_def bind_eq_Some_conv intro: wmi_call_keeps)

lemma apsd_traffic_keeps: "apsd_traffic d i fl ar = Some ar' \<Longrightarrow> keeps {#} ar ar'"
  by (auto simp: apsd_traffic_def bind_eq_Some_conv intro: wmi_call_keeps)

lemma pspoll_keeps:
  assumes "ar6000_pspoll_event d aid ar = Some ar'"
  shows "keeps {#} ar ar'"
proof (cases "ar' = ar")
  case False
  with assms obtain i conn where i: "i < length (connTbl ar)" and c: "connTbl ar ! i = conn"
    and r: "(case psq conn of
             [] \<Rightarrow> clear_pvb d i ar
           | skb # skbs \<Rightarrow> do {
               ar \<leftarrow> ar6000_data_tx d skb (upd_conn i (\<lambda>c. STA_SET PS_POLLED (c\<lparr>psq := skbs\<rparr>)) ar);
               let ar = upd_conn i (STA_CLR PS_POLLED) ar;
               conn \<leftarrow> at (connTbl ar) i;
               if psq conn = [] then clear_pvb d i ar else Some ar
             }) = Some ar'"
    by (auto simp: ar6000_pspoll_event_def bind_eq_Some_conv at_eq_Some_iff split: option.split_asm)
  show ?thesis
  proof (cases "psq conn")
    case Nil
    with r show ?thesis by (auto intro: clear_pvb_keeps)
  next
    case (Cons skb skbs)
    with r obtain ar1 where t: "ar6000_data_tx d skb (upd_conn i (\<lambda>c. STA_SET PS_POLLED (c\<lparr>psq := skbs\<rparr>)) ar) = Some ar1"
      and e: "ar' = upd_conn i (STA_CLR PS_POLLED) ar1 \<or> clear_pvb d i (upd_conn i (STA_CLR PS_POLLED) ar1) = Some ar'"
      by (auto simp: bind_eq_Some_conv Let_def split: if_split_asm)
    have "keeps {#} ar ar1"
      by (rule dequeue_conn_keeps [OF i _ data_tx_keeps [OF t]]) (simp add: c Cons)
    moreover have u: "keeps {#} ar1 (upd_conn i (STA_CLR PS_POLLED) ar1)" by (rule upd_conn_keeps) simp_all
    ultimately have "keeps {#} ar (upd_conn i (STA_CLR PS_POLLED) ar1)" by (rule keeps_trans0)
    with e show ?thesis by (auto intro: keeps_trans0 clear_pvb_keeps)
  qed
qed (simp add: keeps_refl)

lemma flush_mcast_keeps:
  assumes "flush_mcast d ar = Some ar'"
  shows "keeps {#} ar ar'"
proof (rule flush_mcast.raw_induct [OF _ assms, where P = "\<lambda>d ar ar'. keeps {#} ar ar'"])
  fix f d ar ar'
  assume IH: "\<And>d ar y. f d ar = Some y \<Longrightarrow> keeps {#} ar y"
    and "Option.bind (arPriv d ar) (\<lambda>dev. case mcastpsq dev of [] \<Rightarrow> Some ar
      | skb # skbs \<Rightarrow> Option.bind (ar6000_data_tx d skb (upd_dev d (mcastpsq_update (\<lambda>_. skbs)) ar)) (f d)) = Some ar'"
  then show "keeps {#} ar ar'"
    by (auto simp: bind_eq_Some_conv arPriv_Some keeps_refl split: list.split_asm
        intro: keeps_trans0 [OF dequeue_mcast_keeps IH])
qed

lemma flush_psq_keeps:
  assumes "flush_psq d i ar = Some ar'"
  shows "keeps {#} ar ar'"
proof (rule flush_psq.raw_induct [OF _ assms, where P = "\<lambda>d i ar ar'. keeps {#} ar ar'"])
  fix f d i ar ar'
  assume IH: "\<And>d i ar y. f d i ar = Some y \<Longrightarrow> keeps {#} ar y"
    and "Option.bind (at (connTbl ar) i) (\<lambda>c. case psq c of [] \<Rightarrow> Some ar
      | skb # skbs \<Rightarrow> Option.bind (ar6000_data_tx d skb (upd_conn i (psq_update (\<lambda>_. skbs)) ar)) (f d i)) = Some ar'"
  then show "keeps {#} ar ar'"
    by (auto simp: bind_eq_Some_conv at_eq_Some_iff keeps_refl split: list.split_asm
        intro: keeps_trans0 [OF dequeue_psq_keeps IH])
qed

lemma flush_apsdq_keeps:
  assumes "flush_apsdq d i ar = Some ar'"
  shows "keeps {#} ar ar'"
proof (rule flush_apsdq.raw_induct [OF _ assms, where P = "\<lambda>d i ar ar'. keeps {#} ar ar'"])
  fix f d i ar ar'
  assume IH: "\<And>d i ar y. f d i ar = Some y \<Longrightarrow> keeps {#} ar y"
    and "Option.bind (at (connTbl ar) i) (\<lambda>c. case apsdq c of [] \<Rightarrow> Some ar
      | skb # skbs \<Rightarrow> Option.bind (ar6000_data_tx d skb (upd_conn i (apsdq_update (\<lambda>_. skbs)) ar)) (f d i)) = Some ar'"
  then show "keeps {#} ar ar'"
    by (auto simp: bind_eq_Some_conv at_eq_Some_iff keeps_refl split: list.split_asm
        intro: keeps_trans0 [OF dequeue_apsdq_keeps IH])
qed

lemma dtimexpiry_keeps:
  assumes "ar6000_dtimexpiry_event d ar = Some ar'"
  shows "keeps {#} ar ar'"
proof (cases "ar' = ar")
  case False
  with assms obtain ar1 r where f: "flush_mcast d (upd_dev d (\<lambda>x. x\<lparr>DTIMExpired := True\<rparr>) ar) = Some ar1"
    and w: "wmi_call d (wmi_set_pvb_cmd MCAST_AID False) (upd_dev d (\<lambda>x. x\<lparr>DTIMExpired := False\<rparr>) ar1) = Some (r, ar')"
    by (auto simp: ar6000_dtimexpiry_event_def bind_eq_Some_conv Let_def split: if_split_asm)
  have 1: "keeps {#} ar (upd_dev d (\<lambda>x. x\<lparr>DTIMExpired := True\<rparr>) ar)"
    and 2: "keeps {#} ar1 (upd_dev d (\<lambda>x. x\<lparr>DTIMExpired := False\<rparr>) ar1)" by (rule upd_dev_keeps; simp)+
  show ?thesis
    by (rule keeps_trans0 [OF 1 keeps_trans0 [OF flush_mcast_keeps [OF f] keeps_trans0 [OF 2 wmi_call_keeps [OF w]]]])
qed (simp add: keeps_refl)

lemma deliver_apsd_keeps: "deliver_apsd n d i e ar = Some (e', ar') \<Longrightarrow> keeps {#} ar ar'"
proof (induction n arbitrary: e ar)
  case 0
  then show ?case by (simp add: keeps_refl)
next
  case (Suc n)
  show ?case
  proof (cases e)
    case True
    with Suc.prems show ?thesis by (simp add: keeps_refl)
  next
    case False
    with Suc.prems obtain skb skbs ar1 where i: "i < length (connTbl ar)" and q: "apsdq (connTbl ar ! i) = skb # skbs"
      and t: "ar6000_data_tx d skb (let u = upd_conn i (\<lambda>c. STA_SET APSD_TRIGGER (c\<lparr>apsdq := skbs\<rparr>)) ar in
        if skbs = [] \<or> n = 0 then upd_conn i (STA_SET APSD_EOSP) u else u) = Some ar1"
      and r: "deliver_apsd n d i (skbs = []) (upd_conn i (\<lambda>c. STA_CLR APSD_EOSP (STA_CLR APSD_TRIGGER c)) ar1) = Some (e', ar')"
      by (auto simp: bind_eq_Some_conv at_eq_Some_iff Let_def split: list.split_asm)
    let ?u = "upd_conn i (\<lambda>c. STA_SET APSD_TRIGGER (c\<lparr>apsdq := skbs\<rparr>)) ar"
    have "keeps {#} ?u (if skbs = [] \<or> n = 0 then upd_conn i (STA_SET APSD_EOSP) ?u else ?u)"
      by (simp add: keeps_refl upd_conn_keeps)
    note keeps_trans0 [OF this data_tx_keeps [OF t [unfolded Let_def]]]
    then have 1: "keeps {#} ar ar1"
      by (intro dequeue_conn_keeps [OF i, where f = "\<lambda>c. STA_SET APSD_TRIGGER (c\<lparr>apsdq := skbs\<rparr>)" and skb = skb]) (simp_all add: q)
    have 2: "keeps {#} ar1 (upd_conn i (\<lambda>c. STA_CLR APSD_EOSP (STA_CLR APSD_TRIGGER c)) ar1)" by (rule upd_conn_keeps) simp_all
    show ?thesis by (rule keeps_trans0 [OF 1 keeps_trans0 [OF 2 Suc.IH [OF r]]])
  qed
qed

lemma uapsd_trigger_keeps:
  assumes "ar6000_uapsd_trigger_frame_rx d i ar = Some ar'"
  shows "keeps {#} ar ar'"
  using assms
  by (auto simp: ar6000_uapsd_trigger_frame_rx_def bind_eq_Some_conv Let_def simp del: deliver_apsd.simps split: if_split_asm
      intro: deliver_apsd_keeps keeps_trans0 [OF deliver_apsd_keeps apsd_traffic_keeps])

lemma sta_wakes_keeps:
  assumes "sta_wakes d i ar = Some ar'"
  shows "keeps {#} ar ar'"
proof -
  from assms obtain ar1 ar2 ar3 where "flush_psq d i ar = Some ar1" "flush_apsdq d i ar1 = Some ar2"
    "ar3 = ar2 \<or> apsd_traffic d i 0 ar2 = Some ar3" "clear_pvb d i ar3 = Some ar'"
    by (auto simp: sta_wakes_def bind_eq_Some_conv Let_def split: if_split_asm)
  then show ?thesis
    by (meson flush_psq_keeps flush_apsdq_keeps apsd_traffic_keeps clear_pvb_keeps keeps_trans0)
qed

lemma sta_ps_state_keeps:
  assumes "sta_ps_state d i b t ar = Some ar'"
  shows "keeps {#} ar ar'"
proof -
  let ?u = "upd_conn i (if b then STA_SET PWR_SLEEP else STA_CLR PWR_SLEEP) ar"
  from assms obtain ar2 where 1: "ar2 = ?u \<or> ar6000_uapsd_trigger_frame_rx d i ?u = Some ar2"
    and 2: "ar' = ar2 \<or> sta_wakes d i ar2 = Some ar'"
    unfolding sta_ps_state_def Let_def by (elim bindE) (metis option.inject)
  have "keeps {#} ar ?u" by (rule upd_conn_keeps) (simp_all split: if_split)
  with 1 have "keeps {#} ar ar2" by (auto intro: keeps_trans0 uapsd_trigger_keeps)
  with 2 show ?thesis by (auto intro: keeps_trans0 sta_wakes_keeps)
qed

lemma ap_rx_keeps: "ap_rx_power_save d datap ar = Some (r, ar') \<Longrightarrow> keeps {#} ar ar'"
  by (auto simp: ap_rx_power_save_def bind_eq_Some_conv Let_def keeps_refl split: if_split_asm option.split_asm
      intro: sta_ps_state_keeps)

lemma free_all_keeps: "keeps (ids xs) ar (fold A_NETBUF_FREE_SKB xs ar)"
proof (induction xs arbitrary: ar)
  case (Cons x xs)
  from keeps_trans [OF free_keeps Cons.IH] show ?case by simp
qed (simp add: keeps_refl)

lemma keeps_cancel:
  assumes "keeps n ar ar1" and "same_books ar1 ar'" and "frames_of ar' + n = frames_of ar1"
  shows "keeps {#} ar ar'"
  using assms by (auto simp: keeps_def same_books_inv)

lemma free_all_frame:
  "connTbl (fold A_NETBUF_FREE_SKB xs ar) = connTbl ar" "arDev (fold A_NETBUF_FREE_SKB xs ar) = arDev ar"
  by (induction xs arbitrary: ar) (simp_all add: A_NETBUF_FREE_SKB_def)

lemma sta_cleanup_keeps:
  assumes "sta_cleanup d i ar = Some ar'"
  shows "keeps {#} ar ar'"
proof -
  let ?f = "\<lambda>c. c\<lparr>psq := [], apsdq := [], conn_mac := replicate 6 0, conn_aid := 0, conn_flags := 0, conn_arPriv := None\<rparr>"
  let ?c = "connTbl ar ! i" let ?ar1 = "fold A_NETBUF_FREE_SKB (psq ?c @ apsdq ?c) ar"
  from assms have i: "i < length (connTbl ar)"
    and ar': "ar' = upd_dev d (\<lambda>x. x\<lparr>sta_list_index := sta_list_index x AND NOT (push_bit i 1)\<rparr>) (upd_conn i ?f ?ar1)"
    by (auto simp: sta_cleanup_def bind_eq_Some_conv at_eq_Some_iff Let_def)
  have "keeps {#} ar (upd_conn i ?f ?ar1)"
    using upd_conn_frames [of i ?ar1 ?f] i
    by (intro keeps_cancel [OF free_all_keeps upd_conn_books]) (simp only: free_all_frame, simp)
  moreover have "keeps {#} (upd_conn i ?f ?ar1) ar'" unfolding ar' by (rule upd_dev_keeps) simp
  ultimately show ?thesis by (rule keeps_trans0)
qed

lemma free_mcast_keeps:
  assumes "free_mcast d ar = Some ar'"
  shows "keeps {#} ar ar'"
proof -
  let ?ar1 = "fold A_NETBUF_FREE_SKB (mcastpsq (arDev ar ! d)) ar"
  from assms have d: "d < length (arDev ar)" and ar': "ar' = upd_dev d (\<lambda>x. x\<lparr>mcastpsq := []\<rparr>) ?ar1"
    by (auto simp: free_mcast_def bind_eq_Some_conv arPriv_Some)
  show ?thesis unfolding ar'
    using upd_dev_frames [of d ?ar1 "\<lambda>x. x\<lparr>mcastpsq := []\<rparr>"] d
    by (intro keeps_cancel [OF free_all_keeps upd_dev_books]) (simp only: free_all_frame, simp)
qed

lemma add_new_sta_keeps:
  assumes "add_new_sta d mac aid apsd ar = Some ar'"
  shows "keeps {#} ar ar'"
proof -
  from assms obtain i x where ar': "ar' = upd_dev d (\<lambda>y. y\<lparr>sta_list_index := sta_list_index y OR x\<rparr>) (upd_conn i (\<lambda>c.
      c\<lparr>conn_mac := mac, conn_arPriv := Some d, conn_aid := ucast aid, apsd_info := apsd\<rparr>) ar)"
    by (auto simp: add_new_sta_def bind_eq_Some_conv Let_def)
  show ?thesis unfolding ar' by (rule keeps_trans0 [OF upd_conn_keeps upd_dev_keeps]) simp_all
qed

lemma remove_sta_keeps:
  assumes "remove_sta d mac reason ar = Some (r, ar')"
  shows "keeps {#} ar ar'"
proof (cases "ar' = ar")
  case False
  with assms obtain ar1 where 1: "ar1 = ar \<or> (\<exists>i. sta_cleanup d i ar = Some ar1)"
    and 2: "ar' = ar1 \<or> (\<exists>ar2. free_mcast d ar1 = Some ar2 \<and>
      (ar' = ar2 \<or> (\<exists>x. wmi_call d (wmi_set_pvb_cmd MCAST_AID False) ar2 = Some (x, ar'))))"
    by (auto simp: remove_sta_def bind_eq_Some_conv Let_def split: if_split_asm option.split_asm)
  from 1 have "keeps {#} ar ar1" by (auto simp: keeps_refl intro: sta_cleanup_keeps)
  moreover from 2 have "keeps {#} ar1 ar'"
    by (auto simp: keeps_refl intro: free_mcast_keeps keeps_trans0 [OF free_mcast_keeps wmi_call_keeps])
  ultimately show ?thesis by (rule keeps_trans0)
qed (simp add: keeps_refl)

lemma remove_all_keeps: "remove_all d is ar = Some ar' \<Longrightarrow> keeps {#} ar ar'"
  by (induction "is" arbitrary: ar)
    (auto simp: keeps_refl bind_eq_Some_conv split: if_split_asm intro: keeps_trans0 [OF remove_sta_keeps])

lemma ap_cleanup_keeps:
  assumes "ar6000_ap_cleanup d ar = Some ar'"
  shows "keeps {#} ar ar'"
proof -
  from assms obtain ar1 ar2 where "remove_all d [0..<NUM_CONN] ar = Some ar1" "free_mcast d ar1 = Some ar2"
    and ar': "ar' = upd_dev d (\<lambda>x. x\<lparr>arConnected := False\<rparr>) ar2"
    by (auto simp: ar6000_ap_cleanup_def bind_eq_Some_conv simp del: upt_Suc upt_rec_numeral)
  moreover have "keeps {#} ar2 ar'" unfolding ar' by (rule upd_dev_keeps) simp
  ultimately show ?thesis by (meson remove_all_keeps free_mcast_keeps keeps_trans0)
qed

subsection \<open>Runs\<close>

fun offered :: "tx_event \<Rightarrow> nat multiset" where
  "offered (DATA_TX d skb) = {#skb_id skb#}"
| "offered (ACL_TX skb) = {#skb_id skb#}"
| "offered _ = {#}"

lemma tx_event_keeps: "tx_event_step e ar = Some ar' \<Longrightarrow> keeps (offered e) ar ar'"
  by (cases e)
    (auto intro: data_tx_keeps send_on_keeps control_tx_keeps indicate_keeps tx_queue_full_keeps tx_complete_keeps
      pspoll_keeps dtimexpiry_keeps ap_rx_keeps add_new_sta_keeps remove_sta_keeps ap_cleanup_keeps
      simp: ar6000_acl_data_tx_def bind_eq_Some_conv)

lemma tx_run_keeps: "tx_run es ar = Some ar' \<Longrightarrow> keeps (sum_list (map offered es)) ar ar'"
  by (induction es ar rule: tx_run.induct)
    (auto simp: keeps_refl bind_eq_Some_conv intro: keeps_trans tx_event_keeps)

end
