(* ===== verification/DriverPoll.thy ===== *)
theory DriverPoll
  imports DriverProps TxFrameProps
begin

text \<open>
  Properties of the events of an access point: a poll of a sleeping station sends its oldest frame.
\<close>

subsection \<open>Calls that return\<close>

text \<open>The frames in HTC, in the order they were handed over.\<close>

definition htc_frames :: "AR_SOFTC_T \<Rightarrow> sk_buff list" where
  "htc_frames ar = concat (map (\<lambda>p. case pkt_payload p of FRAME s \<Rightarrow> [s] | COMMAND _ _ \<Rightarrow> []) (in_htc ar))"

lemma STA_IS_SET: "m < 16 \<Longrightarrow> STA_IS n (STA_SET m c) \<longleftrightarrow> n = m \<or> STA_IS n c"
  by (auto simp: STA_IS_def STA_SET_def bit_simps)

lemma STA_IS_CLR: "STA_IS n (STA_CLR m c) \<longleftrightarrow> n \<noteq> m \<and> STA_IS n c"
  by (auto simp: STA_IS_def STA_CLR_def bit_simps dest: bit_imp_le_length)

lemma control_tx_runs:
  assumes "arControlEp ar < length (arTxPending ar)"
  shows "\<exists>st ar'. ar6000_control_tx d m (arControlEp ar) ar = Some (st, ar') \<and> htc_frames ar' = htc_frames ar \<and>
    connTbl ar' = connTbl ar \<and> freed ar' = freed ar"
  using assms
  by (auto simp: ar6000_control_tx_def ar6000_alloc_cookie_def count_pending_def HTCSendPkt_def htc_frames_def
      split: list.splits)

lemma wmi_priv_frame [simp]:
  "arControlEp (ar\<lparr>pWmiPriv := q\<rparr>) = arControlEp ar" "htc_frames (ar\<lparr>pWmiPriv := q\<rparr>) = htc_frames ar"
  by (simp_all add: htc_frames_def)

lemma wmi_inv_answers: "wmi_inv q \<Longrightarrow> wmi_inv (q\<lparr>tx_answers := ts\<rparr>)"
  by (simp add: wmi_inv_def streams_ok_def bufs_ok_def)

text \<open>A call that only sends, and at most one command.\<close>

lemma wmi_call_runs:
  assumes "arControlEp ar < length (arTxPending ar)"
    and "\<And>ts. \<exists>r msgs q'. f ((pWmiPriv ar)\<lparr>tx_answers := ts\<rparr>) = Some (r, q') \<and> only_sends msgs ((pWmiPriv ar)\<lparr>tx_answers := ts\<rparr>) q'
       \<and> length msgs \<le> 1"
  shows "\<exists>r ar'. wmi_call d f ar = Some (r, ar') \<and> htc_frames ar' = htc_frames ar \<and> connTbl ar' = connTbl ar \<and> freed ar' = freed ar"
proof -
  obtain st x where c: "ar6000_control_tx d (SYNCHRONIZE 0) (arControlEp ar) ar = Some (st, x)"
    using control_tx_runs [OF assms(1)] by blast
  obtain r msgs q' where f: "f ((pWmiPriv ar)\<lparr>tx_answers := [st]\<rparr>) = Some (r, q')"
    and o: "only_sends msgs ((pWmiPriv ar)\<lparr>tx_answers := [st]\<rparr>) q'" and len: "length msgs \<le> 1"
    using assms(2) by blast
  let ?ar = "ar\<lparr>pWmiPriv := q'\<rparr>"
  from o have d: "drop (length (indicated (pWmiPriv ar))) (indicated q') = []"
    "drop (length (sent (pWmiPriv ar))) (sent q') = msgs" by (simp_all add: only_sends_def)
  have run: "wmi_call d f ar = map_option (Pair r) (control_all d msgs ?ar)"
    by (simp add: wmi_call_def Let_def c f d map_option_case split: option.split)
  show ?thesis
  proof (cases msgs)
    case Nil
    then show ?thesis using run by simp
  next
    case (Cons m ms)
    with len have m: "msgs = [m]" by simp
    have "arControlEp ?ar < length (arTxPending ?ar)" using assms(1) by simp
    from control_tx_runs [OF this, of d m] show ?thesis using run m by auto
  qed
qed

lemma simple_cmd_runs:
  assumes "wmi_inv q"
  shows "\<exists>st msgs q'. (case A_NETBUF_ALLOC q of (None, q) \<Rightarrow> Some (A_NO_MEMORY, q)
     | (Some osbuf, q) \<Rightarrow> send_or_free osbuf cmd NO_SYNC_WMIFLAG q) = Some (st, q') \<and> only_sends msgs q q' \<and> length msgs \<le> 1"
  using assms
proof (cases rule: wmi_inv_cases)
  case (1 q1)
  then show ?thesis by (intro exI [of _ A_NO_MEMORY] exI [of _ "[]"] exI [of _ q1]) simp
next
  case (2 q1 b)
  then obtain st msgs q' where s: "send_or_free b cmd NO_SYNC_WMIFLAG q1 = Some (st, q')" "only_sends msgs q1 q'"
    and m: "if st = A_OK then msgs = (if NO_SYNC_WMIFLAG = SYNC_BEFORE_WMIFLAG then sync_msgs (wmi_fatPipeExists q1) else []) @ [cmd]
     else NO_SYNC_WMIFLAG = SYNC_BEFORE_WMIFLAG \<and> set msgs \<subseteq> set (sync_msgs (wmi_fatPipeExists q1)) \<or> msgs = []"
    using send_single [OF 2(2,3,4), of NO_SYNC_WMIFLAG cmd] by blast
  have "only_sends msgs q q'" using only_sends_trans [OF 2(5) s(2)] by simp
  then show ?thesis using 2(1) s(1) m by (intro exI [of _ st] exI [of _ msgs] exI [of _ q']) (auto split: if_split_asm)
qed

lemma clear_pvb_runs:
  assumes "arControlEp ar < length (arTxPending ar)" "wmi_inv (pWmiPriv ar)" "i < length (connTbl ar)"
  shows "\<exists>ar'. clear_pvb d i ar = Some ar' \<and> htc_frames ar' = htc_frames ar \<and> connTbl ar' = connTbl ar \<and> freed ar' = freed ar"
proof -
  have "\<exists>r msgs q'. wmi_set_pvb_cmd aid b ((pWmiPriv ar)\<lparr>tx_answers := ts\<rparr>) = Some (r, q') \<and>
      only_sends msgs ((pWmiPriv ar)\<lparr>tx_answers := ts\<rparr>) q' \<and> length msgs \<le> 1" for aid b ts
    unfolding wmi_set_pvb_cmd_def by (rule simple_cmd_runs [OF wmi_inv_answers [OF assms(2)]])
  from wmi_call_runs [OF assms(1) this, where d = d] assms(3) show ?thesis
    by (fastforce simp: clear_pvb_def)
qed

subsection \<open>Sending a frame\<close>

text \<open>The driver can send the Ethernet frame \<open>skb\<close> of device \<open>d\<close>: the link is up, the frame has room for the headers,
  its category has a pipe and an endpoint, and there is a cookie.\<close>

definition can_send :: "nat \<Rightarrow> sk_buff \<Rightarrow> bytes \<Rightarrow> bytes \<Rightarrow> nat \<Rightarrow> bytes \<Rightarrow> AR_SOFTC_T \<Rightarrow> bool" where
  "can_send d skb dst src ety body ar \<longleftrightarrow> (\<exists>dev. arPriv d ar = Some dev \<and> arConnected dev \<and> arWmiEnabled dev \<and> arNetworkType dev = AP_NETWORK \<and>
     (let tc = unat (convert_userPriority_to_trafficClass
          (priority_of (arWmmEnabled dev) ety body (layer2Priority (skb_priority skb)))) in
      bit (wmi_fatPipeExists (pWmiPriv ar)) tc \<and> tc < length (arAc2EpMapping ar) \<and> arAc2EpMapping ar ! tc \<notin> {0, ENDPOINT_UNUSED} \<and>
      arAc2EpMapping ar ! tc < length (arTxPending ar)) \<and>
     (arWmmEnabled dev \<and> ety = 0x0800 \<longrightarrow> 2 \<le> length body)) \<and>
   arWmiReady ar \<and> \<not> pm_tx_blocked ar \<and> \<not> tcmd_mode ar \<and> \<not> processDot11Hdr ar \<and> \<not> csumOffload ar \<and>
   wmi_inv (pWmiPriv ar) \<and> arControlEp ar < length (arTxPending ar) \<and> arCookieList ar \<noteq> [] \<and>
   nb_data (skb_nb skb) = dix_frame dst src ety body \<and> 14 \<le> length (nb_head (skb_nb skb)) \<and>
   needed_headroom ar \<le> length (nb_head (skb_nb skb)) \<and> length dst = 6 \<and> length src = 6 \<and> 1536 \<le> ety \<and> ety < 65536 \<and>
   length body + 8 < 65536"

lemma add_headers_run:
  assumes "can_send d skb dst src ety body ar"
  shows "\<exists>s1. add_headers d skb None flags ar = Some (A_OK, s1) \<and> skb_id s1 = skb_id skb \<and> skb_priority s1 = skb_priority skb \<and>
    nb_data (skb_nb s1) = data_hdr DATA_MSGTYPE flags 0 0 (word_of_nat d) @ dot3_frame dst src ety body"
proof -
  let ?b = "skb_nb skb"
  have 1: "wmi_dix_2_dot3 ?b = Some (A_OK, ?b\<lparr>nb_head := drop 8 (nb_head ?b), nb_data := dot3_frame dst src ety body\<rparr>)"
    by (rule dix_2_dot3_frame) (use assms in \<open>simp_all add: can_send_def\<close>)
  then show ?thesis using assms by (auto simp: add_headers_def can_send_def data_hdr_add_run)
qed

lemma transmit_runs:
  assumes "can_send d skb dst src ety body ar"
  shows "\<exists>ar' skb'. transmit d skb flags ar = Some ar' \<and> htc_frames ar' = htc_frames ar @ [skb'] \<and> skb_id skb' = skb_id skb \<and>
    WMI_DATA_HDR_HAS_MORE_BIT (nb_data (skb_nb skb')) = bit flags WMI_DATA_HDR_FLAGS_MORE \<and>
    WMI_DATA_HDR_HAS_EOSP_BIT (nb_data (skb_nb skb')) = bit flags WMI_DATA_HDR_FLAGS_EOSP \<and>
    drop 6 (nb_data (skb_nb skb')) = dot3_frame dst src ety body \<and>
    connTbl ar' = connTbl ar \<and> freed ar' = freed ar \<and> arControlEp ar' = arControlEp ar \<and>
    length (arTxPending ar') = length (arTxPending ar) \<and> wmi_inv (pWmiPriv ar')"
proof -
  obtain dev where dev: "arPriv d ar = Some dev" "arWmiEnabled dev" "arNetworkType dev = AP_NETWORK"
    and wmm: "arWmmEnabled dev \<and> ety = 0x0800 \<longrightarrow> 2 \<le> length body"
    and tc: "let tc = unat (convert_userPriority_to_trafficClass
          (priority_of (arWmmEnabled dev) ety body (layer2Priority (skb_priority skb)))) in
      bit (wmi_fatPipeExists (pWmiPriv ar)) tc \<and> tc < length (arAc2EpMapping ar) \<and> arAc2EpMapping ar ! tc \<notin> {0, ENDPOINT_UNUSED} \<and>
      arAc2EpMapping ar ! tc < length (arTxPending ar)"
    using assms by (auto simp: can_send_def)
  let ?up = "priority_of (arWmmEnabled dev) ety body (layer2Priority (skb_priority skb))"
  let ?tc = "convert_userPriority_to_trafficClass ?up"
  let ?eid = "arAc2EpMapping ar ! unat ?tc"
  let ?h = "data_hdr DATA_MSGTYPE flags 0 0 (word_of_nat d)"
  let ?f = "dot3_frame dst src ety body"
  from add_headers_run [OF assms, of flags] obtain s1 where s1: "add_headers d skb None flags ar = Some (A_OK, s1)"
    "skb_id s1 = skb_id skb" "skb_priority s1 = skb_priority skb" "nb_data (skb_nb s1) = ?h @ ?f" by blast
  have cp: "copy_for_headroom skb ar = (Some skb, ar)"
    using assms by (simp add: copy_for_headroom_def can_send_def a_netbuf_headroom_def)
  have ctl: "arControlEp ar < length (arTxPending ar)" using assms by (simp add: can_send_def)
  obtain st x where c: "ar6000_control_tx d (SYNCHRONIZE 0) (arControlEp ar) ar = Some (st, x)"
    using control_tx_runs [OF ctl] by blast
  let ?q = "(pWmiPriv ar)\<lparr>tx_answers := [st]\<rparr>"
  have inv: "wmi_inv ?q" using assms by (simp add: can_send_def wmi_inv_answers)
  have m: "WMI_DATA_HDR_GET_META ?h = 0" by (simp add: data_hdr_def WMI_DATA_HDR_GET_META_def)
  have "bit (wmi_fatPipeExists ?q) (unat ?tc)" using tc by (simp add: Let_def)
  moreover have "length dst = 6" "length src = 6" "ety < 65536" using assms by (simp_all add: can_send_def)
  ultimately obtain b' where i: "wmi_implicit_create_pstream False (skb_nb s1) (layer2Priority (skb_priority skb)) (arWmmEnabled dev) ?q = Some (?tc, b', ?q)"
    and b': "nb_data b' = WMI_DATA_HDR_SET_UP ?h ?up @ ?f"
    using implicit_frame [OF inv s1(4) data_hdr_length m _ _ _ wmm, where ?l2.0 = "layer2Priority (skb_priority skb)"] by auto
  let ?skb = "s1\<lparr>skb_nb := b'\<rparr>" let ?ar = "ar\<lparr>pWmiPriv := ?q\<rparr>"
  have path: "wmi_path d skb flags ar = Some (TO_AC ?tc, ?skb, ?ar)"
    using assms dev cp s1 i c by (simp add: wmi_path_def can_send_def wmi_call_def Let_def)
  obtain ck cs where ck: "arCookieList ar = ck # cs" using assms by (cases "arCookieList ar") (auto simp: can_send_def)
  have e: "nb_data b' = WMI_DATA_HDR_SET_UP (?h @ ?f) ?up" using b' set_up_front [of ?h] by simp
  note f = hdr_fields [OF e priority_and_7, simplified]
  have "drop 6 (nb_data b') = ?f" using b' by (simp add: WMI_DATA_HDR_SET_UP_def)
  then show ?thesis
    using dev path tc ck f s1(2) inv
    by (simp add: transmit_def hand_to_htc_def send_on_def ar6000_alloc_cookie_def count_pending_def HTCSendPkt_def
        htc_frames_def Let_def)
qed

end
