(* ===== verification/DriverClaims.thy ===== *)
theory DriverClaims
  imports DriverPoll
begin

text \<open>The properties of the driver's transmit path.\<close>

text \<open>C11: over any sequence of frames from the network stack, commands, callbacks and events, every frame is in
  exactly one place (a queue of a sleeping station, HTC, or given back), each of the 165 cookies is either free or in
  HTC, each count of pending packets is the number of packets of its endpoint, and the highest active priority is the
  maximum of those of the active categories.\<close>

theorem driver_tx_conserves:
  assumes "tx_inv ar" "tx_run es ar = Some ar'"
  shows "frames_of ar' = frames_of ar + sum_list (map offered es) \<and>
    mset (arCookieList ar') + mset (map pkt_cookie (in_htc ar')) = mset [0..<MAX_COOKIE_NUM] \<and>
    arCookieCount ar' = length (arCookieList ar') \<and>
    (\<forall>e < length (arTxPending ar'). arTxPending ar' ! e = int (length (filter (\<lambda>p. pkt_endpoint p = e) (in_htc ar')))) \<and>
    arHiAcStreamActivePri ar' = Max (insert 0 (active_pris ar'))"
proof -
  from tx_run_keeps [OF assms(2)] assms(1) have "tx_inv ar'" and f: "frames_of ar' = frames_of ar + sum_list (map offered es)"
    by (simp_all add: keeps_def)
  moreover have c: "count (mset (map pkt_endpoint ps)) e = length (filter (\<lambda>p. pkt_endpoint p = e) ps)" for ps e
    by (induction ps) auto
  ultimately show ?thesis
    by (simp only: tx_inv_def cookies_ok_def pending_ok_def priority_ok_def highest_active_Max c simp_thms) blast
qed

lemma find_index_cong: "length xs = length ys \<Longrightarrow> (\<And>i. i < length xs \<Longrightarrow> P (xs ! i) = P (ys ! i)) \<Longrightarrow> find_index P xs = find_index P ys"
  by (auto simp: find_index_def intro: find_cong)

lemma find_conn_upd:
  assumes "\<And>c. conn_mac (f c) = conn_mac c"
  shows "ieee80211_find_conn mac (upd_conn i f ar) = ieee80211_find_conn mac ar"
proof -
  have "find_index (\<lambda>c. conn_mac c = mac) ((connTbl ar)[i := f (connTbl ar ! i)]) = find_index (\<lambda>c. conn_mac c = mac) (connTbl ar)"
    proof (rule find_index_cong)
    show "(conn_mac ((connTbl ar)[i := f (connTbl ar ! i)] ! k) = mac) = (conn_mac (connTbl ar ! k) = mac)"
      if "k < length ((connTbl ar)[i := f (connTbl ar ! i)])" for k
      using that assms by (cases "k = i") simp_all
  qed simp
  then show ?thesis by (simp add: ieee80211_find_conn_def upd_conn_def)
qed

lemma can_send_upd_conn [simp]: "can_send d skb dst src ety body (upd_conn i f ar) = can_send d skb dst src ety body ar"
  by (simp add: can_send_def upd_conn_def arPriv_def)

text \<open>A frame for a sleeping station that has polled goes out at once.\<close>

lemma data_tx_polled:
  assumes "can_send d skb dst src ety body u" and "ieee80211_find_conn dst u = Some i"
    and "i < length (connTbl u)" "STA_IS PWR_SLEEP (connTbl u ! i)" "STA_IS PS_POLLED (connTbl u ! i)" "\<not> IEEE80211_IS_MULTICAST dst"
  shows "ar6000_data_tx d skb u = transmit d skb (if psq (connTbl u ! i) \<noteq> [] then 1 else 0) u"
proof -
  obtain dev where dev: "arPriv d u = Some dev" "arNetworkType dev = AP_NETWORK" "arConnected dev"
    using assms(1) by (auto simp: can_send_def)
  have mac: "blk 0 6 (nb_data (skb_nb skb)) = Some dst"
    using assms(1) by (simp add: can_send_def dix_frame_def blk_def)
  have "ap_power_save d skb u = Some (Some (if psq (connTbl u ! i) \<noteq> [] then 1 else 0), u)"
    using assms dev mac by (simp add: ap_power_save_def hold_for_station_def)
  then show ?thesis using assms(1) dev by (simp add: ar6000_data_tx_def can_send_def)
qed

lemma pspoll_run:
  assumes "ieee80211_find_conn_for_aid d aid ar = Some (Some i)" "i < length (connTbl ar)" "connTbl ar ! i = conn"
    and "psq conn = skb # skbs" "STA_IS PWR_SLEEP conn" "ieee80211_find_conn dst ar = Some i" "\<not> IEEE80211_IS_MULTICAST dst"
    and "can_send d skb dst src ety body ar"
  shows "\<exists>ar' skb'. ar6000_pspoll_event d aid ar = Some ar' \<and> htc_frames ar' = htc_frames ar @ [skb'] \<and> freed ar' = freed ar \<and>
    skb_id skb' = skb_id skb \<and> WMI_DATA_HDR_HAS_MORE_BIT (nb_data (skb_nb skb')) = (skbs \<noteq> []) \<and>
    drop 6 (nb_data (skb_nb skb')) = dot3_frame dst src ety body \<and>
    connTbl ar' = (connTbl ar)[i := STA_CLR PS_POLLED (STA_SET PS_POLLED (conn\<lparr>psq := skbs\<rparr>))]"
proof -
  let ?f = "\<lambda>c. STA_SET PS_POLLED (c\<lparr>psq := skbs\<rparr>)" let ?u = "upd_conn i ?f ar"
  have u: "i < length (connTbl ?u)" "connTbl ?u ! i = ?f conn" "connTbl ?u = (connTbl ar)[i := ?f conn]" "htc_frames ?u = htc_frames ar"
    "freed ?u = freed ar" using assms(2,3) by (simp_all add: upd_conn_def htc_frames_def)
  have "STA_IS PWR_SLEEP (?f c) = STA_IS PWR_SLEEP c" for c by (simp add: STA_IS_SET) (simp add: STA_IS_def)
  then have s: "STA_IS PWR_SLEEP (connTbl ?u ! i)" "STA_IS PS_POLLED (connTbl ?u ! i)" "psq (connTbl ?u ! i) = skbs"
    unfolding u(2) using assms(5) by (simp_all add: STA_IS_SET)
  have cs: "can_send d skb dst src ety body ?u" using assms(8) by simp
  have fc: "ieee80211_find_conn dst ?u = Some i" using assms(6) by (subst find_conn_upd) (simp_all add: STA_SET_def)
  obtain ar1 skb' where t: "transmit d skb (if skbs \<noteq> [] then 1 else 0) ?u = Some ar1" "htc_frames ar1 = htc_frames ?u @ [skb']"
    "skb_id skb' = skb_id skb" "WMI_DATA_HDR_HAS_MORE_BIT (nb_data (skb_nb skb')) = (skbs \<noteq> [])"
    "drop 6 (nb_data (skb_nb skb')) = dot3_frame dst src ety body" "connTbl ar1 = connTbl ?u" "freed ar1 = freed ?u"
    "arControlEp ar1 = arControlEp ?u" "length (arTxPending ar1) = length (arTxPending ?u)" "wmi_inv (pWmiPriv ar1)"
    using transmit_runs [OF cs, of "if skbs \<noteq> [] then 1 else 0"] by (auto split: if_split_asm)
  have tx: "ar6000_data_tx d skb ?u = Some ar1"
    using data_tx_polled [OF cs fc u(1) s(1,2) assms(7)] t(1) by (simp only: s(3))
  let ?v = "upd_conn i (STA_CLR PS_POLLED) ar1"
  have v: "i < length (connTbl ?v)" "connTbl ?v = (connTbl ar)[i := STA_CLR PS_POLLED (?f conn)]" "htc_frames ?v = htc_frames ar @ [skb']"
    "freed ?v = freed ar" "psq (connTbl ?v ! i) = skbs" "arControlEp ?v < length (arTxPending ?v)" "wmi_inv (pWmiPriv ?v)"
    using t u assms(2,8) by (simp_all add: upd_conn_def htc_frames_def can_send_def)
  have run: "ar6000_pspoll_event d aid ar = (if skbs = [] then clear_pvb d i ?v else Some ?v)"
    using assms(1-4) tx v(1,5) by (simp add: ar6000_pspoll_event_def)
  obtain ar' where "(if skbs = [] then clear_pvb d i ?v else Some ?v) = Some ar'" "htc_frames ar' = htc_frames ?v"
    "connTbl ar' = connTbl ?v" "freed ar' = freed ?v"
    using clear_pvb_runs [OF v(6,7,1), of d] by (cases "skbs = []") auto
  then show ?thesis using run t(3-5) v(2-4) by (intro exI [of _ ar'] exI [of _ skb']) simp
qed

text \<open>C12: a poll of a sleeping station sends exactly the oldest of the frames held for it, as an 802.3 frame with
  the data header; the header has the more-data bit if and only if frames are left.  The station sleeps
  on, the other frames stay in order, and a later frame is queued again.\<close>

theorem pspoll_sends_oldest:
  assumes "ieee80211_find_conn_for_aid d aid ar = Some (Some i)" "i < length (connTbl ar)" "connTbl ar ! i = conn"
    and "psq conn = skb # skbs" "STA_IS PWR_SLEEP conn" "ieee80211_find_conn dst ar = Some i" "\<not> IEEE80211_IS_MULTICAST dst"
    and "can_send d skb dst src ety body ar"
  shows "\<exists>ar' skb'. ar6000_pspoll_event d aid ar = Some ar' \<and> htc_frames ar' = htc_frames ar @ [skb'] \<and> freed ar' = freed ar \<and>
    skb_id skb' = skb_id skb \<and> WMI_DATA_HDR_HAS_MORE_BIT (nb_data (skb_nb skb')) = (skbs \<noteq> []) \<and>
    drop 6 (nb_data (skb_nb skb')) = dot3_frame dst src ety body \<and>
    connTbl ar' = (connTbl ar)[i := STA_CLR PS_POLLED (STA_SET PS_POLLED (conn\<lparr>psq := skbs\<rparr>))]"
  using pspoll_run [OF assms] .

text \<open>C21: while a full endpoint is told to drop a packet, a category of higher priority is active and only the
  reserved cookies are left; the packet is a data packet.  So a packet of the category with the highest active
  priority, and a command, are never dropped.\<close>

theorem queue_full_drops_lower_priority:
  assumes "tx_inv ar0" "tx_run es ar0 = Some ar" "\<not> bypasswmi ar" "ar6000_tx_queue_full p ar = Some (HTC_SEND_FULL_DROP, ar')"
  shows "pkt_tag p = AR6K_DATA_PKT_TAG \<and> pkt_endpoint p \<noteq> arControlEp ar \<and> length (arCookieList ar) \<le> MAX_HI_COOKIE_NUM \<and>
    (\<exists>ac. ac < WMM_NUM_AC \<and> arAcStreamActive ar ! ac \<and>
      arAcStreamPriMap ar ! ac > arAcStreamPriMap ar ! (arEp2AcMapping ar ! pkt_endpoint p))"
proof -
  from tx_run_keeps [OF assms(2)] assms(1) have "tx_inv ar" by (simp add: keeps_def)
  then have hi: "arHiAcStreamActivePri ar = Max (insert 0 (active_pris ar))" and n: "arCookieCount ar = length (arCookieList ar)"
    by (simp_all add: tx_inv_def priority_ok_def cookies_ok_def highest_active_Max)
  let ?pri = "arAcStreamPriMap ar ! (arEp2AcMapping ar ! pkt_endpoint p)"
  from assms(3,4) have "pkt_tag p \<noteq> AR6K_CONTROL_PKT_TAG" and e: "pkt_endpoint p \<noteq> arControlEp ar"
    and d: "arCookieCount ar \<le> MAX_HI_COOKIE_NUM" "?pri < arHiAcStreamActivePri ar"
    by (auto simp: ar6000_tx_queue_full_def full_action_def bind_eq_Some_conv at_eq_Some_iff split: if_split_asm)
  then have "pkt_tag p = AR6K_DATA_PKT_TAG" by (cases "pkt_tag p") simp_all
  moreover have "arHiAcStreamActivePri ar \<in> active_pris ar"
    using Max_in [of "insert 0 (active_pris ar)"] d(2) by (auto simp: hi)
  then have "\<exists>ac. ac < WMM_NUM_AC \<and> arAcStreamActive ar ! ac \<and> arAcStreamPriMap ar ! ac > ?pri"
    using d(2) by (auto simp: active_pris_def)
  ultimately show ?thesis using e d(1) n by simp
qed

lemma reap_one_netif:
  assumes "reap_one p st fl ar = Some (fl', ar')"
  shows "netif_running ar' = netif_running ar \<and> bypasswmi ar' = bypasswmi ar \<and>
    map arNetworkType (arDev ar') = map arNetworkType (arDev ar)"
proof -
  from assms obtain ar1 devid dev dev' where l: "leave_htc p ar = Some ar1" and d: "arPriv devid ar1 = Some dev"
    and c: "(if arNetworkType dev = ADHOC_NETWORK \<and> arIbssPsEnable dev \<and> pkt_endpoint p \<noteq> arControlEp ar1 \<and> pkt_mapNo p \<noteq> 0
        then ibss_complete (pkt_mapNo p) dev else Some dev) = Some dev'"
    and ar': "ar' = give_back p (upd_dev devid (\<lambda>_. dev'\<lparr>arNetQueueStopped := False\<rparr>) ar1)"
    unfolding reap_one_def by (elim bindE) blast
  have t: "arNetworkType dev' = arNetworkType dev"
    using c by (auto simp: ibss_complete_def Let_def bind_eq_Some_conv split: if_split_asm)
  have "netif_running ar1 = netif_running ar \<and> bypasswmi ar1 = bypasswmi ar \<and> arDev ar1 = arDev ar"
    using l by (auto simp: leave_htc_def Let_def bind_eq_Some_conv split: if_split_asm)
  moreover have "netif_running (give_back p x) = netif_running x \<and> bypasswmi (give_back p x) = bypasswmi x" for x
    by (simp add: give_back_def Let_def ar6000_free_cookie_def A_NETBUF_FREE_SKB_def split: tx_payload.split)
  ultimately show ?thesis using d t
    by (simp add: ar' give_back_facts upd_dev_def arPriv_Some map_update_same)
qed

lemma reap_netif: "reap ps fl ar = Some (fl', ar') \<Longrightarrow> netif_running ar' = netif_running ar \<and> bypasswmi ar' = bypasswmi ar \<and>
    map arNetworkType (arDev ar') = map arNetworkType (arDev ar)"
proof (induction ps fl ar rule: reap.induct)
  case (2 p st ps fl ar)
  then show ?case by (auto simp: bind_eq_Some_conv) (metis reap_one_netif)+
qed simp

lemma reap_flags_length: "reap ps fl ar = Some (fl', ar') \<Longrightarrow> length fl' = length fl"
proof (induction ps fl ar rule: reap.induct)
  case (2 p st ps fl ar)
  have "reap_one p st fl ar = Some (fl1, ar1) \<Longrightarrow> length fl1 = length fl" for fl1 ar1
    by (auto simp: reap_one_def set_flushing_def bind_eq_Some_conv put_eq_Some_iff split: if_split_asm)
  with 2 show ?case by (auto simp: bind_eq_Some_conv)
qed simp

text \<open>C36: any full data endpoint stops the network queue of a device in an ad hoc network, and the
  completion of packets, which is to start it again, never does.\<close>

theorem adhoc_queue_stays_stopped:
  assumes "ar6000_tx_queue_full p ar = Some (action, ar1)" "ar6000_tx_complete flushing ps ar1 = Some ar2"
    and "\<not> bypasswmi ar" "d < length (arDev ar)" "arNetworkType (arDev ar ! d) = ADHOC_NETWORK" "length (netif_running ar) = length (arDev ar)"
    and "length (arDev ar) \<le> length flushing"
  shows "\<not> netif_running ar1 ! d \<and> \<not> netif_running ar2 ! d"
proof -
  from assms(1) obtain stop ar0 where f: "full_action p ar = Some (action, stop, ar0)"
    and 1: "ar1 = stop_queues (\<lambda>x. stop \<or> arNetworkType x = ADHOC_NETWORK) ar0"
    by (auto simp: ar6000_tx_queue_full_def bind_eq_Some_conv)
  from f have 0: "arDev ar0 = arDev ar" "netif_running ar0 = netif_running ar" "bypasswmi ar0 = bypasswmi ar"
    by (auto simp: full_action_def bind_eq_Some_conv split: if_split_asm)
  have s: "length (netif_running ar1) = length (arDev ar)" "length (arDev ar1) = length (arDev ar)"
    "\<not> netif_running ar1 ! d" "arNetworkType (arDev ar1 ! d) = ADHOC_NETWORK" "\<not> bypasswmi ar1"
    using assms(3-6) by (simp_all add: 1 0 stop_queues_def)
  from assms(2) obtain fl ar3 where r: "reap ps flushing ar1 = Some (fl, ar3)" and 2: "ar2 = wake_queues fl ar3"
    by (auto simp: ar6000_tx_complete_def bind_eq_Some_conv)
  note n = reap_netif [OF r]
  then have "map arNetworkType (arDev ar3) ! d = map arNetworkType (arDev ar1) ! d" by simp
  moreover have "length (arDev ar3) = length (arDev ar)" using n s(2) by (metis length_map)
  ultimately have t: "arNetworkType (arDev ar3 ! d) = ADHOC_NETWORK" using assms(4) s(2,4) by simp
  have "\<not> netif_running ar2 ! d"
  proof (cases "d < length fl")
    case True
    then show ?thesis using assms(4) s n t \<open>length (arDev ar3) = _\<close> by (simp add: 2 wake_queues_def)
  next
    case False
    moreover have "length fl = length flushing" using reap_flags_length [OF r] .
    ultimately show ?thesis using assms(4,7) by simp
  qed
  with s show ?thesis by simp
qed

text \<open>There are 13 slots for stations but the set of associated stations is a byte.  A station
  in one of the last five slots leaves no mark in it; while there is no other station, the frames for all
  stations that were queued because it sleeps are not sent when the beacon announces them.\<close>

theorem high_slot_loses_multicast:
  assumes "add_new_sta d mac aid apsd ar = Some ar1" "8 < aid" "unat aid \<le> NUM_CONN" "arPriv d ar = Some dev" "sta_list_index dev = 0"
  shows "conn_arPriv (connTbl ar1 ! (unat aid - 1)) = Some d \<and> arPriv d ar1 = Some dev \<and> ar6000_dtimexpiry_event d ar1 = Some ar1"
proof -
  have n: "8 < unat aid" "unat aid \<le> 13" using assms(2,3) by (simp_all add: word_less_nat_alt)
  have "unat (aid - 1) = unat aid - 1" using n(1) by (intro unat_minus_one) auto
  then have slot: "unat (ucast (aid - 1) :: byte) = unat aid - 1" using n(2) by (simp add: unsigned_ucast_eq take_bit_nat_def)
  have "push_bit (unat aid - 1) (1 :: byte) = 0" using n(1) by (intro bit_word_eqI) (simp add: bit_simps)
  then show ?thesis using assms(1,4,5) slot n
    by (auto simp: add_new_sta_def bind_eq_Some_conv Let_def upd_conn_def upd_dev_def arPriv_def at_eq_Some_iff
        ar6000_dtimexpiry_event_def)
qed

text \<open>A frame to a known station of an ad hoc network that finds no cookie is freed, but counts as pending for its
  station for ever.\<close>

lemma ibss_no_cookie_leaks_pending:
  assumes "arCookieList ar = []" "arPriv d ar = Some dev" "blk SIZEOF_WMI_DATA_HDR 6 (nb_data (skb_nb skb)) = Some mac"
    "\<not> IEEE80211_IS_MULTICAST mac" "ibss_known mac dev = Some i" "i < length (arNodeMap dev)" "arNodeMap dev ! i = m"
    and "nm_epId m \<noteq> 0"
  shows "\<exists>ar'. hand_to_htc d ADHOC_MAP tag skb ar = Some ar' \<and> freed ar' = freed ar @ [skb] \<and> in_htc ar' = in_htc ar \<and>
    nm_txPending (arNodeMap (arDev ar' ! d) ! i) = nm_txPending m + 1"
proof -
  have d: "d < length (arDev ar)" "arDev ar ! d = dev" using assms(2) by (simp_all add: arPriv_Some)
  show ?thesis
    using assms d by (simp add: hand_to_htc_def ar6000_ibss_map_epid_def send_on_def ar6000_alloc_cookie_def upd_dev_def
        A_NETBUF_FREE_SKB_def)
qed

text \<open>Whether the queue of a connected device is started depends on an uninitialised flag when none of the completed
  packets is its own.\<close>

lemma reap_one_flag:
  assumes "reap_one p st fl ar = Some (fl', ar')" "pkt_devid ar p \<noteq> Some d"
  shows "fl' ! d = fl ! d"
proof -
  from assms(1) obtain ar1 devid where l: "leave_htc p ar = Some ar1" and d: "pkt_devid ar1 p = Some devid"
    and f: "set_flushing st devid fl = Some fl'"
    unfolding reap_one_def by (elim bindE) auto
  have "bypasswmi ar1 = bypasswmi ar"
    using l by (auto simp: leave_htc_def Let_def bind_eq_Some_conv split: if_split_asm)
  then have "devid \<noteq> d" using d assms(2) by (simp add: pkt_devid_def)
  then show ?thesis using f by (auto simp: set_flushing_def put_eq_Some_iff split: if_split_asm)
qed

lemma wake_uses_uninitialised_flag:
  assumes "reap ps fl ar = Some (fl', ar')" "\<forall>(p, st) \<in> set ps. pkt_devid ar p \<noteq> Some d"
    and "d < length (arDev ar')" "d < length (netif_running ar')" "d < length fl"
    and "\<not> netif_running ar' ! d" "arNetworkType (arDev ar' ! d) = INFRA_NETWORK" "arConnected (arDev ar' ! d)"
  shows "\<exists>ar''. ar6000_tx_complete fl ps ar = Some ar'' \<and> (netif_running ar'' ! d \<longleftrightarrow> \<not> fl ! d)"
proof -
  have "fl' ! d = fl ! d" using assms(1,2)
  proof (induction ps fl ar rule: reap.induct)
    case (2 p st ps fl ar)
    then obtain fl1 ar1 where 1: "reap_one p st fl ar = Some (fl1, ar1)" "reap ps fl1 ar1 = Some (fl', ar')"
      by (auto simp: bind_eq_Some_conv)
    have "pkt_devid ar1 q = pkt_devid ar q" for q using reap_one_netif [OF 1(1)] by (simp add: pkt_devid_def)
    then have "fl' ! d = fl1 ! d" using 2(1) [OF 1(1) _ 1(2)] 2(3) by simp
    with reap_one_flag [OF 1(1)] 2(3) show ?case by simp
  qed simp
  with assms show ?thesis using reap_flags_length [OF assms(1)] by (simp add: ar6000_tx_complete_def wake_queues_def)
qed

end
