(* ===== verification/DriverWitness.thy ===== *)
theory DriverWitness
  imports DriverClaims
begin

text \<open>A driver with one access point and one sleeping station, at which the properties of the transmit path apply.\<close>

definition ex_q :: wmi_priv_t where
  "ex_q = \<lparr>wmi_fatPipeExists = 1, wmi_streamExistsForAC = [0, 0, 0, 0], sent = [], indicated = [(0, True)], held = [],
     next_osbuf = 0, alloc_answers = [], tx_answers = []\<rparr>"

definition ex_ap :: AR_SOFTC_DEV_T where
  "ex_ap = \<lparr>arNetworkType = AP_NETWORK, arConnected = True, arWmmEnabled = False, arWmiEnabled = True, arNetQueueStopped = False,
     wmi_is_wmm_enabled = False, arIbssPsEnable = False, arNodeMap = [], arNodeNum = 0, arNexEpId = 2, mcastpsq = [],
     DTIMExpired = False, sta_list_index = 1\<rparr>"

definition ex_skb :: "nat \<Rightarrow> sk_buff" where
  "ex_skb n = \<lparr>skb_id = n, skb_nb = \<lparr>nb_head = replicate 64 0, nb_data = dix_frame [2, 0, 0, 0, 0, 1] [2, 0, 0, 0, 0, 9] 0x0800 [0x45, 0, 7]\<rparr>,
     skb_priority = 0, skb_csum = None\<rparr>"

definition ex_sta :: "sk_buff list \<Rightarrow> conn_t" where
  "ex_sta fs = \<lparr>conn_flags = 1, conn_mac = [2, 0, 0, 0, 0, 1], conn_aid = 1, apsd_info = 0, psq = fs, apsdq = [], conn_arPriv = Some 0\<rparr>"

definition ex_ar :: "AR_SOFTC_DEV_T \<Rightarrow> conn_t list \<Rightarrow> AR_SOFTC_T" where
  "ex_ar dev cs = \<lparr>arDev = [dev], connTbl = cs, arWmiReady = True, arTxPending = replicate 9 0, arTotalTxDataPending = 0,
     arCookieList = 164 # rev [0..<164], arCookieCount = MAX_COOKIE_NUM, arControlEp = 1, arWMIControlEpFull = False,
     arAc2EpMapping = [2, 3, 4, 5], arEp2AcMapping = [0, 0, 0, 1, 2, 3, 0, 0, 0], arAcStreamActive = [True, False, False, False],
     arAcStreamPriMap = [1, 0, 2, 3], arHiAcStreamActivePri = 1, pWmiPriv = ex_q, in_htc = [], htc_activity = [], freed = [],
     netif_running = [True], skb_answers = [], pm_tx_blocked = False, wow_suspended = False, tcmd_mode = False,
     bypasswmi = False, processDot11Hdr = False, csumOffload = False, needed_headroom = 48, fresh_headroom = [], stack_bytes = []\<rparr>"

lemma ex_q_inv: "wmi_inv ex_q"
proof -
  have b: "bit (1 :: byte) n = (n = 0)" for n by (simp add: bit_1_iff)
  have "active_of [(0, True)] = (\<lambda>n. n = 0)" by (simp add: active_of_def fun_eq_iff)
  then have "streams_ok ex_q"
    by (simp add: streams_ok_def ex_q_def b fun_eq_iff less_Suc_eq numeral_eq_Suc)
  then show ?thesis by (simp add: wmi_inv_def bufs_ok_def ex_q_def)
qed

lemma mset_last_first: "mset (x # rev xs) = mset (xs @ [x])"
  by simp

lemma ex_cookies: "mset (164 # rev [0..<164]) = mset [0..<MAX_COOKIE_NUM]"
proof -
  have "MAX_COOKIE_NUM = Suc 164" by simp
  then have "[0..<MAX_COOKIE_NUM] = [0..<164] @ [164]" by (simp only: upt_Suc_append [of 0 164, OF le0])
  then show ?thesis by (simp only: mset_last_first)
qed

lemma ex_tx_inv: "tx_inv (ex_ar dev cs)"
proof -
  have "cookies_ok (ex_ar dev cs)"
    unfolding cookies_ok_def ex_ar_def AR_SOFTC_T.simps using ex_cookies by (simp del: upt_rec_numeral mset.simps)
  moreover have "pending_ok (ex_ar dev cs)" by (simp add: pending_ok_def ex_ar_def del: upt_rec_numeral)
  moreover have "priority_ok (ex_ar dev cs)"
  proof -
    have "[0..<4] = [0, 1, 2, 3 :: nat]" by (simp add: upt_rec)
    then show ?thesis by (simp add: priority_ok_def ex_ar_def highest_active_def del: upt_rec_numeral)
  qed
  ultimately show ?thesis by (simp add: tx_inv_def)
qed

subsection \<open>A poll\<close>

definition ex_dst :: bytes where "ex_dst = [2, 0, 0, 0, 0, 1]"
definition ex_src :: bytes where "ex_src = [2, 0, 0, 0, 0, 9]"

definition ex_polled :: AR_SOFTC_T where
  "ex_polled = ex_ar ex_ap [ex_sta [ex_skb 1, ex_skb 2]]"

lemma ex_can_send:
  assumes "arDev ar = [ex_ap]" "arAc2EpMapping ar = [2, 3, 4, 5]" "length (arTxPending ar) = 9" "arWmiReady ar" "\<not> pm_tx_blocked ar"
    "\<not> tcmd_mode ar" "\<not> processDot11Hdr ar" "\<not> csumOffload ar" "pWmiPriv ar = ex_q" "arControlEp ar = 1" "arCookieList ar \<noteq> []"
    "needed_headroom ar = 48"
  shows "can_send 0 (ex_skb n) ex_dst ex_src 0x0800 [0x45, 0, 7] ar"
proof -
  have "convert_userPriority_to_trafficClass 0 = 0" by (simp add: convert_userPriority_to_trafficClass_def up_to_ac_def)
  moreover have "bit (1 :: byte) 0" by simp
  ultimately show ?thesis using assms ex_q_inv
    by (simp add: can_send_def arPriv_def ex_ap_def priority_of_def ex_skb_def ex_dst_def ex_src_def Let_def ex_q_def)
qed

lemma ex_find:
  assumes "connTbl ar = [ex_sta fs]" "arDev ar = [ex_ap]"
  shows "ieee80211_find_conn ex_dst ar = Some 0" "ieee80211_find_conn_for_aid 0 1 ar = Some (Some 0)"
  using assms by (simp_all add: ieee80211_find_conn_def ieee80211_find_conn_for_aid_def find_index_def ex_sta_def ex_dst_def
      arPriv_def ex_ap_def numeral_eq_Suc)

lemma ex_not_multicast: "\<not> IEEE80211_IS_MULTICAST ex_dst"
  by (simp add: IEEE80211_IS_MULTICAST_def ex_dst_def)

lemma ex_sleeps: "STA_IS PWR_SLEEP (ex_sta fs)"
  by (simp add: STA_IS_def ex_sta_def)

lemma ex_poll_run:
  assumes "connTbl ar = [ex_sta [ex_skb 1, ex_skb 2]]" "can_send 0 (ex_skb 1) ex_dst ex_src 0x0800 [0x45, 0, 7] ar" "arDev ar = [ex_ap]"
  shows "\<exists>ar'. ar6000_pspoll_event 0 1 ar = Some ar'"
proof -
  have "0 < length (connTbl ar)" "connTbl ar ! 0 = ex_sta [ex_skb 1, ex_skb 2]" using assms(1) by simp_all
  moreover have "psq (ex_sta [ex_skb 1, ex_skb 2]) = ex_skb 1 # [ex_skb 2]" by (simp add: ex_sta_def)
  ultimately show ?thesis
    using pspoll_run [OF ex_find(2) [OF assms(1,3)] _ _ _ ex_sleeps ex_find(1) [OF assms(1,3)] ex_not_multicast assms(2)] by blast
qed

lemma driver_tx_conserves_witness:
  "\<exists>ar'. tx_run [ACL_TX (ex_skb 3), PSPOLL 0 1] ex_polled = Some ar' \<and>
    frames_of ar' = frames_of ex_polled + sum_list (map offered [ACL_TX (ex_skb 3), PSPOLL 0 1]) \<and>
    arCookieCount ar' = length (arCookieList ar') \<and> arHiAcStreamActivePri ar' = Max (insert 0 (active_pris ar'))"
proof -
  have "\<exists>ar1. ar6000_acl_data_tx (ex_skb 3) ex_polled = Some ar1 \<and> connTbl ar1 = connTbl ex_polled \<and> arDev ar1 = arDev ex_polled \<and>
      can_send 0 (ex_skb 1) ex_dst ex_src 0x0800 [0x45, 0, 7] ar1"
    by (simp add: ar6000_acl_data_tx_def send_on_def ex_polled_def ex_ar_def ar6000_alloc_cookie_def count_pending_def HTCSendPkt_def
        del: upt_rec_numeral) (rule ex_can_send; simp del: upt_rec_numeral)
  then obtain ar1 where 1: "ar6000_acl_data_tx (ex_skb 3) ex_polled = Some ar1" "connTbl ar1 = [ex_sta [ex_skb 1, ex_skb 2]]"
    "arDev ar1 = [ex_ap]" "can_send 0 (ex_skb 1) ex_dst ex_src 0x0800 [0x45, 0, 7] ar1" by (auto simp: ex_polled_def ex_ar_def)
  obtain ar' where 2: "ar6000_pspoll_event 0 1 ar1 = Some ar'" using ex_poll_run [OF 1(2,4,3)] by blast
  have run: "tx_run [ACL_TX (ex_skb 3), PSPOLL 0 1] ex_polled = Some ar'" using 1(1) 2 by simp
  have "tx_inv ex_polled" by (simp add: ex_polled_def ex_tx_inv)
  from driver_tx_conserves [OF this run] run show ?thesis by blast
qed

lemma pspoll_sends_oldest_witness:
  "\<exists>ar' skb'. ar6000_pspoll_event 0 1 ex_polled = Some ar' \<and> htc_frames ar' = htc_frames ex_polled @ [skb'] \<and> skb_id skb' = skb_id (ex_skb 1) \<and>
    WMI_DATA_HDR_HAS_MORE_BIT (nb_data (skb_nb skb')) = ([ex_skb 2] \<noteq> [])"
proof -
  have c: "connTbl ex_polled = [ex_sta [ex_skb 1, ex_skb 2]]" "arDev ex_polled = [ex_ap]" by (simp_all add: ex_polled_def ex_ar_def)
  have s: "can_send 0 (ex_skb 1) ex_dst ex_src 0x0800 [0x45, 0, 7] ex_polled"
    by (rule ex_can_send) (simp_all add: ex_polled_def ex_ar_def del: upt_rec_numeral)
  have "0 < length (connTbl ex_polled)" "connTbl ex_polled ! 0 = ex_sta [ex_skb 1, ex_skb 2]" using c by simp_all
  moreover have "psq (ex_sta [ex_skb 1, ex_skb 2]) = ex_skb 1 # [ex_skb 2]" by (simp add: ex_sta_def)
  ultimately show ?thesis
    using pspoll_sends_oldest [OF ex_find(2) [OF c] _ _ _ ex_sleeps ex_find(1) [OF c] ex_not_multicast s] by blast
qed

subsection \<open>Full queues\<close>

definition ex_pkt :: "nat \<Rightarrow> tx_packet" where
  "ex_pkt c = \<lparr>pkt_cookie = c, pkt_mapNo = 0, pkt_endpoint = 2, pkt_tag = AR6K_DATA_PKT_TAG, pkt_payload = FRAME (ex_skb c)\<rparr>"

definition ex_full :: AR_SOFTC_T where
  "ex_full = (ex_ar ex_ap [])\<lparr>arCookieList := [0..<15], arCookieCount := 15, in_htc := map ex_pkt [15..<MAX_COOKIE_NUM],
     arTxPending := (replicate 9 0)[2 := 150], arAcStreamActive := [True, False, False, True], arHiAcStreamActivePri := 3\<rparr>"

lemma ex_full_inv: "tx_inv ex_full"
proof -
  have "mset [0..<15] + mset (map pkt_cookie (map ex_pkt [15..<MAX_COOKIE_NUM])) = mset ([0..<15] @ [15..<MAX_COOKIE_NUM])"
    by (simp add: ex_pkt_def comp_def del: upt_rec_numeral)
  also have "[0..<15] @ [15..<MAX_COOKIE_NUM] = [0..<MAX_COOKIE_NUM]"
    using upt_add_eq_append [of 0 15 150] by (simp del: upt_rec_numeral)
  finally have "cookies_ok ex_full" by (simp add: cookies_ok_def ex_full_def del: upt_rec_numeral)
  moreover have "pkt_endpoint \<circ> ex_pkt = (\<lambda>_. 2)" by (simp add: ex_pkt_def comp_def)
  then have "pending_ok ex_full"
    by (simp add: pending_ok_def ex_full_def ex_ar_def map_replicate_const nth_list_update del: upt_rec_numeral)
       (simp add: ex_pkt_def)
  moreover have "priority_ok ex_full"
  proof -
    have "[0..<4] = [0, 1, 2, 3 :: nat]" by (simp add: upt_rec)
    then show ?thesis by (simp add: priority_ok_def ex_full_def ex_ar_def highest_active_def del: upt_rec_numeral)
  qed
  ultimately show ?thesis by (simp add: tx_inv_def)
qed

lemma queue_full_drops_lower_priority_witness:
  "\<exists>ar'. ar6000_tx_queue_full (ex_pkt 200) ex_full = Some (HTC_SEND_FULL_DROP, ar') \<and> pkt_tag (ex_pkt 200) = AR6K_DATA_PKT_TAG \<and>
    length (arCookieList ex_full) \<le> MAX_HI_COOKIE_NUM"
proof -
  have "\<exists>ar'. ar6000_tx_queue_full (ex_pkt 200) ex_full = Some (HTC_SEND_FULL_DROP, ar')"
    by (simp add: ar6000_tx_queue_full_def full_action_def ex_full_def ex_ar_def ex_pkt_def del: upt_rec_numeral)
  then obtain ar' where f: "ar6000_tx_queue_full (ex_pkt 200) ex_full = Some (HTC_SEND_FULL_DROP, ar')" by blast
  have "tx_run [] ex_full = Some ex_full" "\<not> bypasswmi ex_full" by (simp_all add: ex_full_def ex_ar_def del: upt_rec_numeral)
  from queue_full_drops_lower_priority [OF ex_full_inv this f] f show ?thesis by blast
qed

lemma adhoc_queue_stays_stopped_witness:
  "\<exists>action ar1 ar2. ar6000_tx_queue_full (ex_pkt 0) (ex_ar (ex_ap\<lparr>arNetworkType := ADHOC_NETWORK\<rparr>) []) = Some (action, ar1) \<and>
    ar6000_tx_complete [False] [] ar1 = Some ar2 \<and> \<not> netif_running ar2 ! 0"
proof -
  let ?ar = "ex_ar (ex_ap\<lparr>arNetworkType := ADHOC_NETWORK\<rparr>) []"
  have "\<exists>action ar1. ar6000_tx_queue_full (ex_pkt 0) ?ar = Some (action, ar1)"
    by (simp add: ar6000_tx_queue_full_def full_action_def ex_ar_def ex_pkt_def del: upt_rec_numeral)
  then obtain action ar1 where f: "ar6000_tx_queue_full (ex_pkt 0) ?ar = Some (action, ar1)" by blast
  obtain ar2 where c: "ar6000_tx_complete [False] [] ar1 = Some ar2" by (simp add: ar6000_tx_complete_def)
  have "\<not> bypasswmi ?ar" "0 < length (arDev ?ar)" "arNetworkType (arDev ?ar ! 0) = ADHOC_NETWORK"
    "length (netif_running ?ar) = length (arDev ?ar)" "length (arDev ?ar) \<le> length [False]"
    by (simp_all add: ex_ar_def del: upt_rec_numeral)
  from adhoc_queue_stays_stopped [OF f c this] f c show ?thesis by blast
qed

definition ex_waiting :: AR_SOFTC_T where
  "ex_waiting = ex_ar (ex_ap\<lparr>sta_list_index := 0, mcastpsq := [ex_skb 1]\<rparr>) (replicate 13 ((ex_sta [])\<lparr>conn_arPriv := None\<rparr>))"

lemma high_slot_loses_multicast_witness:
  "\<exists>ar1. add_new_sta 0 ex_dst 9 0 ex_waiting = Some ar1 \<and> conn_arPriv (connTbl ar1 ! (unat (9 :: 16 word) - 1)) = Some 0 \<and>
    ar6000_dtimexpiry_event 0 ar1 = Some ar1"
proof -
  have "\<exists>ar1. add_new_sta 0 ex_dst 9 0 ex_waiting = Some ar1"
    by (simp add: add_new_sta_def ex_waiting_def ex_ar_def arPriv_def at_def unsigned_ucast_eq take_bit_nat_def del: upt_rec_numeral)
  then obtain ar1 where a: "add_new_sta 0 ex_dst 9 0 ex_waiting = Some ar1" by blast
  have "(8 :: 16 word) < 9" "unat (9 :: 16 word) \<le> NUM_CONN" by simp_all
  moreover have "arPriv 0 ex_waiting = Some (ex_ap\<lparr>sta_list_index := 0, mcastpsq := [ex_skb 1]\<rparr>)"
    by (simp add: ex_waiting_def ex_ar_def arPriv_def)
  moreover have "sta_list_index (ex_ap\<lparr>sta_list_index := 0, mcastpsq := [ex_skb 1]\<rparr>) = 0" by simp
  ultimately show ?thesis using high_slot_loses_multicast [OF a] a by blast
qed

end
