(* ===== verification/Bmi.thy ===== *)
theory Bmi
  imports Prelude
begin

text \<open>
  The boot manager interface, \<open>host/bmi/src/bmi.c\<close>, over the register-based message exchange of
  \<open>host/hif/common/hif_bmi_reg_access.c\<close>: before HTC runs, the host reads and writes the target's memory
  and registers and downloads its firmware with short messages.

  The state has the command buffer, which may be null, and the device: the answers it will give to
  reads of the credit counter and of the lookahead register (or, where the bus driver has a function for it,
  of the pending events), to writes and to reads of the mailbox, and the messages written to the mailbox so
  far.  When a list of answers is used up, accesses succeed and read zeroes.  Assertions are
  empty unless the driver is compiled for debugging.  Memory faults are \<open>None\<close>; so is a wait
  without a time limit for a target that never answers.
\<close>

subsection \<open>Device and state\<close>

record bmi_dev =
  credit_reads :: "(A_STATUS \<times> 32 word) list"
  has_pending_events :: bool
  word_reads :: "(A_STATUS \<times> 32 word) list"
  mbox_write_answers :: "A_STATUS list"
  mbox_read_answers :: "(A_STATUS \<times> bytes) list"
  mbox_writes :: "bytes list"

record bmi_t =
  bmiDone :: bool
  pBMICmdBuf :: "bytes option"
  malloc_ok :: bool
  bdev :: bmi_dev

abbreviation (input) BMI_DATASZ_MAX :: nat where "BMI_DATASZ_MAX \<equiv> 256"
abbreviation (input) MAX_BMI_CMDBUF_SZ :: nat where "MAX_BMI_CMDBUF_SZ \<equiv> 268"
abbreviation (input) BMI_COMMUNICATION_TIMEOUT :: nat where "BMI_COMMUNICATION_TIMEOUT \<equiv> 100000"
abbreviation (input) BMI_NVRAM_SEG_NAME_SZ :: nat where "BMI_NVRAM_SEG_NAME_SZ \<equiv> 16"

datatype bmi_cid =
    BMI_DONE | BMI_READ_MEMORY | BMI_WRITE_MEMORY | BMI_EXECUTE | BMI_SET_APP_START | BMI_READ_SOC_REGISTER
  | BMI_WRITE_SOC_REGISTER | BMI_GET_TARGET_INFO | BMI_ROMPATCH_INSTALL | BMI_ROMPATCH_UNINSTALL
  | BMI_ROMPATCH_ACTIVATE | BMI_ROMPATCH_DEACTIVATE | BMI_LZ_STREAM_START | BMI_LZ_DATA | BMI_NVRAM_PROCESS

fun cid_value :: "bmi_cid \<Rightarrow> 32 word" where
  "cid_value BMI_DONE = 1" | "cid_value BMI_READ_MEMORY = 2" | "cid_value BMI_WRITE_MEMORY = 3"
| "cid_value BMI_EXECUTE = 4" | "cid_value BMI_SET_APP_START = 5" | "cid_value BMI_READ_SOC_REGISTER = 6"
| "cid_value BMI_WRITE_SOC_REGISTER = 7" | "cid_value BMI_GET_TARGET_INFO = 8" | "cid_value BMI_ROMPATCH_INSTALL = 9"
| "cid_value BMI_ROMPATCH_UNINSTALL = 10" | "cid_value BMI_ROMPATCH_ACTIVATE = 11"
| "cid_value BMI_ROMPATCH_DEACTIVATE = 12" | "cid_value BMI_LZ_STREAM_START = 13" | "cid_value BMI_LZ_DATA = 14"
| "cid_value BMI_NVRAM_PROCESS = 15"

text \<open>A 32-bit value in memory, on a little-endian host.\<close>

definition word_bytes :: "32 word \<Rightarrow> bytes" where
  "word_bytes w = map (\<lambda>k. ucast (drop_bit (8 * k) w)) [0, 1, 2, 3]"

definition bytes_word :: "bytes \<Rightarrow> 32 word" where
  "bytes_word bs = word_of_nat (le32 (bs ! 0) (bs ! 1) (bs ! 2) (bs ! 3))"

subsection \<open>The message exchange\<close>

text \<open>The wait for a command credit.  A read of the counter takes the credit; only its first byte counts.\<close>

definition read_credit :: "bmi_dev \<Rightarrow> A_STATUS \<times> 32 word \<times> bmi_dev" where
  "read_credit d = (case credit_reads d of [] \<Rightarrow> (A_OK, 0, d)
     | (st, v) # rs \<Rightarrow> (st, v AND 0xFF, d\<lparr>credit_reads := rs\<rparr>))"

fun wait_credit :: "nat \<Rightarrow> bmi_dev \<Rightarrow> A_STATUS \<times> 32 word \<times> bmi_dev" where
  "wait_credit 0 d = (A_OK, 0, d)"
| "wait_credit (Suc timeout) d = (case read_credit d of (st, v, d) \<Rightarrow>
     if st \<noteq> A_OK then (st, 0, d) else if v \<noteq> 0 then (A_OK, v, d) else wait_credit timeout d)"

definition mbox_write :: "bytes \<Rightarrow> bmi_dev \<Rightarrow> A_STATUS \<times> bmi_dev" where
  "mbox_write bs d = (let st = (if mbox_write_answers d = [] then A_OK else hd (mbox_write_answers d)) in
     (st, d\<lparr>mbox_write_answers := tl (mbox_write_answers d), mbox_writes := mbox_writes d @ (if st = A_OK then [bs] else [])\<rparr>))"

definition mbox_read :: "nat \<Rightarrow> bmi_dev \<Rightarrow> A_STATUS \<times> bytes \<times> bmi_dev" where
  "mbox_read n d = (case mbox_read_answers d of [] \<Rightarrow> (A_OK, replicate n 0, d)
     | (st, bs) # rs \<Rightarrow> (st, take n (bs @ replicate n 0), d\<lparr>mbox_read_answers := rs\<rparr>))"

definition bmiBufferSend :: "bytes \<Rightarrow> bmi_dev \<Rightarrow> A_STATUS \<times> bmi_dev" where
  "bmiBufferSend buffer d = (case wait_credit BMI_COMMUNICATION_TIMEOUT d of (st, credits, d) \<Rightarrow>
     if st \<noteq> A_OK then (A_ERROR, d)
     else if credits \<noteq> 0 then (case mbox_write buffer d of (st, d) \<Rightarrow> (if st \<noteq> A_OK then A_ERROR else st, d))
     else (A_ERROR, d))"

text \<open>The wait for the first word of the answer: the number of bytes that are there, or bit 0 of the register.\<close>

definition read_available :: "bmi_dev \<Rightarrow> A_STATUS \<times> bool \<times> bmi_dev" where
  "read_available d = (case word_reads d of [] \<Rightarrow> (A_OK, False, d)
     | (st, v) # rs \<Rightarrow> (st, if has_pending_events d then v \<ge> 4 else bit v 0, d\<lparr>word_reads := rs\<rparr>))"

partial_function (option) wait_word :: "bool \<Rightarrow> nat \<Rightarrow> bmi_dev \<Rightarrow> (bool \<times> bmi_dev) option" where
  "wait_word want_timeout timeout d =
     (if want_timeout \<and> timeout = 0 then Some (False, d)
      else case read_available d of (st, available, d) \<Rightarrow>
        if st \<noteq> A_OK then Some (False, d)
        else if available then Some (True, d)
        else wait_word want_timeout (timeout - 1) d)"

definition bmiBufferReceive :: "nat \<Rightarrow> bool \<Rightarrow> bmi_dev \<Rightarrow> (A_STATUS \<times> bytes \<times> bmi_dev) option" where
  "bmiBufferReceive n want_timeout d = do {
     (available, d) \<leftarrow> (if n \<ge> 4 then wait_word want_timeout BMI_COMMUNICATION_TIMEOUT d else Some (True, d));
     if \<not> available then Some (A_ERROR, [], d)
     else (case mbox_read n d of (st, bs, d) \<Rightarrow> Some (if st \<noteq> A_OK then A_ERROR else A_OK, bs, d))
   }"

text \<open>\<open>put_cmd\<close> copies to the front of the command buffer.\<close>

definition put_cmd :: "bytes \<Rightarrow> bmi_t \<Rightarrow> bmi_t option" where
  "put_cmd bs s = do {
     buf \<leftarrow> pBMICmdBuf s;
     if length bs \<le> length buf then Some (s\<lparr>pBMICmdBuf := Some (bs @ drop (length bs) buf)\<rparr>) else None
   }"

definition get_cmd :: "nat \<Rightarrow> bmi_t \<Rightarrow> bytes option" where
  "get_cmd n s = Option.bind (pBMICmdBuf s) (blk 0 n)"

text \<open>\<open>HIFExchangeBMIMsg\<close> sends the first \<open>n\<close> bytes of the command buffer; with \<open>resp\<close> it reads an answer of that
  length into the same buffer.  An answer that fails leaves the buffer as it is here.\<close>

definition HIFExchangeBMIMsg :: "nat \<Rightarrow> nat option \<Rightarrow> bool \<Rightarrow> bmi_t \<Rightarrow> (A_STATUS \<times> bmi_t) option" where
  "HIFExchangeBMIMsg n resp want_timeout s = do {
     msg \<leftarrow> get_cmd n s;
     let (st, d) = bmiBufferSend msg (bdev s);
     let s = s\<lparr>bdev := d\<rparr>;
     if A_FAILED st then Some (st, s)
     else (case resp of
         None \<Rightarrow> Some (st, s)
       | Some k \<Rightarrow> do {
           (st, bs, d) \<leftarrow> bmiBufferReceive k want_timeout (bdev s);
           let s = s\<lparr>bdev := d\<rparr>;
           if A_FAILED st then Some (st, s) else map_option (Pair st) (put_cmd bs s)
         })
   }"

subsection \<open>Commands\<close>

definition BMIInit :: "bmi_t \<Rightarrow> bmi_t" where
  "BMIInit s = s\<lparr>bmiDone := False, pBMICmdBuf := (case pBMICmdBuf s of Some b \<Rightarrow> Some b
     | None \<Rightarrow> if malloc_ok s then Some (replicate MAX_BMI_CMDBUF_SZ 0) else None)\<rparr>"

definition BMICleanup :: "bmi_t \<Rightarrow> bmi_t" where
  "BMICleanup s = s\<lparr>pBMICmdBuf := None\<rparr>"

definition BMIDone :: "bmi_t \<Rightarrow> (A_STATUS \<times> bmi_t) option" where
  "BMIDone s =
     (if bmiDone s then Some (A_OK, s)
      else do {
        s \<leftarrow> put_cmd (word_bytes (cid_value BMI_DONE)) (s\<lparr>bmiDone := True\<rparr>);
        (st, s) \<leftarrow> HIFExchangeBMIMsg 4 None False s;
        Some (if st \<noteq> A_OK then A_ERROR else A_OK, s\<lparr>pBMICmdBuf := None\<rparr>)
      })"

text \<open>How the command functions begin: the buffer is cleared before the test whether commands are allowed.\<close>

definition clear_cmd :: "nat \<Rightarrow> bmi_t \<Rightarrow> bmi_t option" where
  "clear_cmd n s = put_cmd (replicate n 0) s"

definition exchange :: "bytes \<Rightarrow> nat option \<Rightarrow> bool \<Rightarrow> bmi_t \<Rightarrow> (A_STATUS \<times> bmi_t) option" where
  "exchange msg resp want_timeout s = do {
     s \<leftarrow> put_cmd msg s;
     (st, s) \<leftarrow> HIFExchangeBMIMsg (length msg) resp want_timeout s;
     Some (if st \<noteq> A_OK then A_ERROR else A_OK, s)
   }"

definition with_cmd :: "nat \<Rightarrow> (bmi_t \<Rightarrow> (A_STATUS \<times> bmi_t) option) \<Rightarrow> bmi_t \<Rightarrow> (A_STATUS \<times> bmi_t) option" where
  "with_cmd n f s = do {
     s \<leftarrow> clear_cmd n s;
     if bmiDone s then Some (A_ERROR, s) else f s
   }"

text \<open>A message of 32-bit values after its command.\<close>

definition cmd_msg :: "bmi_cid \<Rightarrow> 32 word list \<Rightarrow> bytes" where
  "cmd_msg cid ws = word_bytes (cid_value cid) @ concat (map word_bytes ws)"

text \<open>A command with one 32-bit result.\<close>

definition result_word :: "(A_STATUS \<times> bmi_t) option \<Rightarrow> (A_STATUS \<times> 32 word option \<times> bmi_t) option" where
  "result_word r = do {
     (st, s) \<leftarrow> r;
     if st \<noteq> A_OK then Some (st, None, s)
     else do { bs \<leftarrow> get_cmd 4 s; Some (A_OK, Some (bytes_word bs), s) }
   }"

definition BMIExecute :: "32 word \<Rightarrow> 32 word \<Rightarrow> bmi_t \<Rightarrow> (A_STATUS \<times> 32 word option \<times> bmi_t) option" where
  "BMIExecute address param s = result_word (with_cmd 12 (exchange (cmd_msg BMI_EXECUTE [address, param]) (Some 4) False) s)"

definition BMISetAppStart :: "32 word \<Rightarrow> bmi_t \<Rightarrow> (A_STATUS \<times> bmi_t) option" where
  "BMISetAppStart address = with_cmd 8 (exchange (cmd_msg BMI_SET_APP_START [address]) None False)"

definition BMIReadSOCRegister :: "32 word \<Rightarrow> bmi_t \<Rightarrow> (A_STATUS \<times> 32 word option \<times> bmi_t) option" where
  "BMIReadSOCRegister address s = result_word (with_cmd 8 (exchange (cmd_msg BMI_READ_SOC_REGISTER [address]) (Some 4) True) s)"

definition BMIWriteSOCRegister :: "32 word \<Rightarrow> 32 word \<Rightarrow> bmi_t \<Rightarrow> (A_STATUS \<times> bmi_t) option" where
  "BMIWriteSOCRegister address param = with_cmd 12 (exchange (cmd_msg BMI_WRITE_SOC_REGISTER [address, param]) None False)"

definition BMIrompatchInstall :: "32 word \<Rightarrow> 32 word \<Rightarrow> 32 word \<Rightarrow> 32 word \<Rightarrow> bmi_t \<Rightarrow>
    (A_STATUS \<times> 32 word option \<times> bmi_t) option" where
  "BMIrompatchInstall ROM_addr RAM_addr nbytes do_activate s = result_word (with_cmd 20
     (exchange (cmd_msg BMI_ROMPATCH_INSTALL [ROM_addr, RAM_addr, nbytes, do_activate]) (Some 4) True) s)"

definition BMIrompatchUninstall :: "32 word \<Rightarrow> bmi_t \<Rightarrow> (A_STATUS \<times> bmi_t) option" where
  "BMIrompatchUninstall rompatch_id = with_cmd 8 (exchange (cmd_msg BMI_ROMPATCH_UNINSTALL [rompatch_id]) None False)"

text \<open>The list of patches is copied whatever its length; the length in bytes is a 32-bit value.\<close>

definition BMIrompatchChangeActivation :: "32 word \<Rightarrow> bytes \<Rightarrow> bool \<Rightarrow> bmi_t \<Rightarrow> (A_STATUS \<times> bmi_t) option" where
  "BMIrompatchChangeActivation rompatch_count rompatch_list do_activate = with_cmd (BMI_DATASZ_MAX + 8) (\<lambda>s. do {
     bs \<leftarrow> blk 0 (unat (rompatch_count * 4)) rompatch_list;
     exchange (cmd_msg (if do_activate then BMI_ROMPATCH_ACTIVATE else BMI_ROMPATCH_DEACTIVATE) [rompatch_count] @ bs) None False s
   })"

definition BMIrompatchActivate :: "32 word \<Rightarrow> bytes \<Rightarrow> bmi_t \<Rightarrow> (A_STATUS \<times> bmi_t) option" where
  "BMIrompatchActivate rompatch_count rompatch_list = BMIrompatchChangeActivation rompatch_count rompatch_list True"

definition BMIrompatchDeactivate :: "32 word \<Rightarrow> bytes \<Rightarrow> bmi_t \<Rightarrow> (A_STATUS \<times> bmi_t) option" where
  "BMIrompatchDeactivate rompatch_count rompatch_list = BMIrompatchChangeActivation rompatch_count rompatch_list False"

definition BMILZStreamStart :: "32 word \<Rightarrow> bmi_t \<Rightarrow> (A_STATUS \<times> bmi_t) option" where
  "BMILZStreamStart address = with_cmd 8 (exchange (cmd_msg BMI_LZ_STREAM_START [address]) None False)"

text \<open>This one does not clear the buffer.\<close>

definition BMInvramProcess :: "bytes \<Rightarrow> bmi_t \<Rightarrow> (A_STATUS \<times> 32 word option \<times> bmi_t) option" where
  "BMInvramProcess seg_name s =
     (if bmiDone s then Some (A_ERROR, None, s)
      else do {
        name \<leftarrow> blk 0 BMI_NVRAM_SEG_NAME_SZ seg_name;
        result_word (exchange (cmd_msg BMI_NVRAM_PROCESS [] @ name) (Some 4) False s)
      })"

subsection \<open>Transfers\<close>

text \<open>The result of a read of the target's memory is what was written to the caller's buffer.\<close>

function read_loop :: "nat \<Rightarrow> 32 word \<Rightarrow> bytes \<Rightarrow> bmi_t \<Rightarrow> (A_STATUS \<times> bytes \<times> bmi_t) option" where
  "read_loop remaining address out s =
     (if remaining = 0 then Some (A_OK, out, s)
      else do {
        let rxlen = min remaining BMI_DATASZ_MAX;
        (st, s) \<leftarrow> exchange (cmd_msg BMI_READ_MEMORY [address, word_of_nat rxlen]) (Some rxlen) True s;
        if st \<noteq> A_OK then Some (A_ERROR, out, s)
        else do {
          bs \<leftarrow> get_cmd rxlen s;
          read_loop (remaining - rxlen) (address + word_of_nat rxlen) (out @ bs) s
        }
      })"
  by pat_completeness auto
termination by (relation "measure fst") auto

definition BMIReadMemory :: "32 word \<Rightarrow> nat \<Rightarrow> bmi_t \<Rightarrow> (A_STATUS \<times> bytes \<times> bmi_t) option" where
  "BMIReadMemory address n s = do {
     s \<leftarrow> clear_cmd (BMI_DATASZ_MAX + 12) s;
     if bmiDone s then Some (A_ERROR, [], s) else read_loop n address [] s
   }"

text \<open>The last piece of a write is rounded up to a multiple of four bytes, and as many are copied from the
  caller's buffer.\<close>

definition round4 :: "nat \<Rightarrow> nat" where
  "round4 n = (if n mod 4 \<noteq> 0 then n + (4 - n mod 4) else n)"

abbreviation (input) WRITE_MAX :: nat where "WRITE_MAX \<equiv> 244"
abbreviation (input) LZ_MAX :: nat where "LZ_MAX \<equiv> 248"

function write_loop :: "bytes \<Rightarrow> nat \<Rightarrow> nat \<Rightarrow> 32 word \<Rightarrow> bmi_t \<Rightarrow> (A_STATUS \<times> bmi_t) option" where
  "write_loop buffer n remaining address s =
     (if remaining = 0 then Some (A_OK, s)
      else do {
        let txlen = (if remaining < WRITE_MAX then round4 remaining else WRITE_MAX);
        src \<leftarrow> blk (n - remaining) txlen buffer;
        (st, s) \<leftarrow> exchange (cmd_msg BMI_WRITE_MEMORY [address, word_of_nat txlen] @ src) None True s;
        if st \<noteq> A_OK then Some (A_ERROR, s)
        else write_loop buffer n (if remaining < WRITE_MAX then 0 else remaining - txlen) (address + word_of_nat txlen) s
      })"
  by pat_completeness auto
termination by (relation "measure (\<lambda>(b, n, r, a, s). r)") auto

definition BMIWriteMemory :: "32 word \<Rightarrow> bytes \<Rightarrow> nat \<Rightarrow> bmi_t \<Rightarrow> (A_STATUS \<times> bmi_t) option" where
  "BMIWriteMemory address buffer n = with_cmd (BMI_DATASZ_MAX + 12) (write_loop buffer n n address)"

function lz_loop :: "bytes \<Rightarrow> nat \<Rightarrow> nat \<Rightarrow> bmi_t \<Rightarrow> (A_STATUS \<times> bmi_t) option" where
  "lz_loop buffer n remaining s =
     (if remaining = 0 then Some (A_OK, s)
      else do {
        let txlen = min remaining LZ_MAX;
        src \<leftarrow> blk (n - remaining) txlen buffer;
        (st, s) \<leftarrow> exchange (cmd_msg BMI_LZ_DATA [word_of_nat txlen] @ src) None False s;
        if st \<noteq> A_OK then Some (A_ERROR, s) else lz_loop buffer n (remaining - txlen) s
      })"
  by pat_completeness auto
termination by (relation "measure (\<lambda>(b, n, r, s). r)") auto

definition BMILZData :: "bytes \<Rightarrow> nat \<Rightarrow> bmi_t \<Rightarrow> (A_STATUS \<times> bmi_t) option" where
  "BMILZData buffer n = with_cmd (BMI_DATASZ_MAX + 8) (lz_loop buffer n n)"

text \<open>The firmware in whole words, then the rest in a word that is filled up with zeroes; another start closes the
  stream.\<close>

definition BMIFastDownload :: "32 word \<Rightarrow> bytes \<Rightarrow> nat \<Rightarrow> bmi_t \<Rightarrow> (A_STATUS \<times> bmi_t) option" where
  "BMIFastDownload address buffer n s = do {
     let lastWordOffset = n div 4 * 4;
     let unalignedBytes = n mod 4;
     (st, s) \<leftarrow> BMILZStreamStart address s;
     if A_FAILED st then Some (A_ERROR, s)
     else do {
       rest \<leftarrow> (if unalignedBytes \<noteq> 0 then blk lastWordOffset unalignedBytes buffer else Some []);
       let lastWord = rest @ replicate (4 - unalignedBytes) 0;
       (st, s) \<leftarrow> BMILZData buffer lastWordOffset s;
       if A_FAILED st then Some (A_ERROR, s)
       else do {
         (st, s) \<leftarrow> (if unalignedBytes \<noteq> 0 then BMILZData lastWord 4 s else Some (st, s));
         if A_FAILED st then Some (st, s)
         else do {
           (st, s) \<leftarrow> BMILZStreamStart 0 s;
           Some (if A_FAILED st then A_ERROR else st, s)
         }
       }
     }
   }"

subsection \<open>Target information\<close>

record bmi_target_info =
  target_info_byte_count :: "32 word"
  target_ver :: "32 word"
  target_type :: "32 word"

text \<open>Old targets answer with their version only.  The message goes out from a local variable.\<close>

definition HIFRegBasedGetTargetInfo :: "bmi_target_info \<Rightarrow> bmi_dev \<Rightarrow> (A_STATUS \<times> bmi_target_info \<times> bmi_dev) option" where
  "HIFRegBasedGetTargetInfo ti d = do {
     let (st, d) = bmiBufferSend (word_bytes (cid_value BMI_GET_TARGET_INFO)) d;
     if st \<noteq> A_OK then Some (A_ERROR, ti, d)
     else do {
       (st, bs, d) \<leftarrow> bmiBufferReceive 4 True d;
       if st \<noteq> A_OK then Some (A_ERROR, ti, d)
       else do {
         let ti = ti\<lparr>target_ver := bytes_word bs\<rparr>;
         if target_ver ti = 0xFFFFFFFF then do {
           (st, bs, d) \<leftarrow> bmiBufferReceive 4 True d;
           if st \<noteq> A_OK then Some (A_ERROR, ti, d)
           else do {
             let ti = ti\<lparr>target_info_byte_count := bytes_word bs\<rparr>;
             (st, bs, d) \<leftarrow> bmiBufferReceive 8 True d;
             if st \<noteq> A_OK then Some (A_ERROR, ti, d)
             else Some (A_OK, ti\<lparr>target_ver := bytes_word bs, target_type := bytes_word (drop 4 bs)\<rparr>, d)
           }
         }
         else Some (A_OK, ti\<lparr>target_info_byte_count := 12, target_type := 1\<rparr>, d)
       }
     }
   }"

definition BMIGetTargetInfo :: "bmi_target_info \<Rightarrow> bmi_t \<Rightarrow> (A_STATUS \<times> bmi_target_info \<times> bmi_t) option" where
  "BMIGetTargetInfo ti s =
     (if bmiDone s then Some (A_ERROR, ti, s)
      else map_option (\<lambda>(st, ti, d). (st, ti, s\<lparr>bdev := d\<rparr>)) (HIFRegBasedGetTargetInfo ti (bdev s)))"

subsection \<open>Raw access\<close>

definition BMIRawWrite :: "bytes \<Rightarrow> bmi_t \<Rightarrow> A_STATUS \<times> bmi_t" where
  "BMIRawWrite buffer s = (case bmiBufferSend buffer (bdev s) of (st, d) \<Rightarrow> (st, s\<lparr>bdev := d\<rparr>))"

definition BMIRawRead :: "nat \<Rightarrow> bool \<Rightarrow> bmi_t \<Rightarrow> (A_STATUS \<times> bytes \<times> bmi_t) option" where
  "BMIRawRead n want_timeout s = map_option (\<lambda>(st, bs, d). (st, bs, s\<lparr>bdev := d\<rparr>)) (bmiBufferReceive n want_timeout (bdev s))"

end
