(* ===== verification/BmiProps.thy ===== *)
theory BmiProps
  imports Bmi
begin

text \<open>Properties of the boot manager interface: what the messages of a transfer are, and what happens after it is closed.\<close>

subsection \<open>One message\<close>

lemma length_word_bytes [simp]: "length (word_bytes w) = 4"
  by (simp add: word_bytes_def)

lemma length_cmd_msg [simp]: "length (cmd_msg cid ws) = 4 + 4 * length ws"
  by (induction ws) (simp_all add: cmd_msg_def)

text \<open>Commands are allowed and the next \<open>k\<close> of them find a credit; the writes succeed.\<close>

definition ready :: "nat \<Rightarrow> bmi_t \<Rightarrow> bool" where
  "ready k s \<longleftrightarrow> \<not> bmiDone s \<and> (\<exists>b. pBMICmdBuf s = Some b \<and> length b = MAX_BMI_CMDBUF_SZ) \<and>
     (\<exists>rs. credit_reads (bdev s) = replicate k (A_OK, 1) @ rs) \<and> mbox_write_answers (bdev s) = []"

lemma put_cmd_ready:
  assumes "ready k s" "length bs \<le> MAX_BMI_CMDBUF_SZ"
  shows "\<exists>s'. put_cmd bs s = Some s' \<and> ready k s' \<and> bdev s' = bdev s \<and> get_cmd (length bs) s' = Some bs"
  using assms by (auto simp: put_cmd_def ready_def get_cmd_def blk_def)

lemma send_ready:
  assumes "credit_reads d = (A_OK, 1) # rs" "mbox_write_answers d = []"
  shows "bmiBufferSend msg d = (A_OK, d\<lparr>credit_reads := rs, mbox_writes := mbox_writes d @ [msg]\<rparr>)"
proof -
  have "wait_credit (Suc n) d = (A_OK, 1, d\<lparr>credit_reads := rs\<rparr>)" for n
    using assms(1) by (simp add: read_credit_def)
  from this [of 99999] have "wait_credit BMI_COMMUNICATION_TIMEOUT d = (A_OK, 1, d\<lparr>credit_reads := rs\<rparr>)"
    by (simp del: wait_credit.simps)
  then show ?thesis using assms(2) by (simp add: bmiBufferSend_def mbox_write_def Let_def del: wait_credit.simps)
qed

text \<open>A message without an answer is written as it is.\<close>

lemma exchange_ready:
  assumes "ready (Suc k) s" "length msg \<le> MAX_BMI_CMDBUF_SZ"
  shows "\<exists>s'. exchange msg None w s = Some (A_OK, s') \<and> ready k s' \<and> mbox_writes (bdev s') = mbox_writes (bdev s) @ [msg]"
proof -
  from put_cmd_ready [OF assms] obtain s1 where s1: "put_cmd msg s = Some s1" "ready (Suc k) s1" "bdev s1 = bdev s"
    "get_cmd (length msg) s1 = Some msg" by blast
  from s1(2) obtain rs where c: "credit_reads (bdev s1) = (A_OK, 1) # replicate k (A_OK, 1) @ rs" "mbox_write_answers (bdev s1) = []"
    by (auto simp: ready_def)
  have "exchange msg None w s = Some (A_OK, s1\<lparr>bdev := (bdev s1)\<lparr>credit_reads := replicate k (A_OK, 1) @ rs,
      mbox_writes := mbox_writes (bdev s1) @ [msg]\<rparr>\<rparr>)"
    using s1(1,4) send_ready [OF c] by (simp add: exchange_def HIFExchangeBMIMsg_def)
  then show ?thesis using s1(2,3) c(2) by (auto simp: ready_def)
qed

lemma with_cmd_ready:
  assumes "ready k s" "n \<le> MAX_BMI_CMDBUF_SZ"
  shows "\<exists>s1. with_cmd n f s = f s1 \<and> ready k s1 \<and> bdev s1 = bdev s"
proof -
  from put_cmd_ready [OF assms(1), of "replicate n 0"] assms(2)
  obtain s1 where "clear_cmd n s = Some s1" "ready k s1" "bdev s1 = bdev s" by (auto simp: clear_cmd_def)
  then show ?thesis by (intro exI [of _ s1]) (simp add: with_cmd_def ready_def)
qed

subsection \<open>Writing memory\<close>

definition write_msg :: "32 word \<times> bytes \<Rightarrow> bytes" where
  "write_msg = (\<lambda>(a, bs). cmd_msg BMI_WRITE_MEMORY [a, word_of_nat (length bs)] @ bs)"

text \<open>Pieces of contiguous memory from address \<open>a\<close> that fit in a message and are whole words.\<close>

fun write_pieces :: "32 word \<Rightarrow> (32 word \<times> bytes) list \<Rightarrow> bool" where
  "write_pieces a [] \<longleftrightarrow> True"
| "write_pieces a ((a', bs) # ps) \<longleftrightarrow> a' = a \<and> bs \<noteq> [] \<and> length bs \<le> WRITE_MAX \<and> length bs mod 4 = 0 \<and>
     write_pieces (a + word_of_nat (length bs)) ps"

lemma round4_props: "round4 n mod 4 = 0" "n \<le> round4 n" "round4 n < n + 4" "n < 244 \<Longrightarrow> round4 n \<le> 244" "round4 n = 0 \<longleftrightarrow> n = 0"
  by (auto simp: round4_def) presburger+

lemma round4_diff: "244 \<le> n \<Longrightarrow> round4 (n - 244) = round4 n - 244"
proof -
  assume "244 \<le> n"
  then obtain m where n: "n = 244 + m" using le_Suc_ex by blast
  have "(244 + m) mod 4 = m mod 4" by presburger
  then show ?thesis unfolding n by (simp add: round4_def add.commute)
qed

text \<open>One pass of the loop.\<close>

lemma write_step:
  assumes "ready (Suc k) s" "0 < r" "r \<le> n" "t = (if r < WRITE_MAX then round4 r else WRITE_MAX)"
    and "n - r + t \<le> length buffer"
  defines "src \<equiv> take t (drop (n - r) buffer)"
  shows "length src = t \<and> (\<exists>s1. ready k s1 \<and> mbox_writes (bdev s1) = mbox_writes (bdev s) @ [write_msg (address, src)] \<and>
    write_loop buffer n r address s =
      write_loop buffer n (if r < WRITE_MAX then 0 else r - WRITE_MAX) (address + word_of_nat t) s1)"
proof -
  let ?msg = "cmd_msg BMI_WRITE_MEMORY [address, word_of_nat t] @ src"
  have len: "length src = t" using assms(5) by (simp add: src_def)
  have "t \<le> WRITE_MAX" using round4_props(4) [of r] assms(4) by auto
  then obtain s1 where s1: "exchange ?msg None True s = Some (A_OK, s1)" "ready k s1"
    "mbox_writes (bdev s1) = mbox_writes (bdev s) @ [?msg]"
    using exchange_ready [OF assms(1), of ?msg True] len by auto
  have "blk (n - r) t buffer = Some src" using assms(5) by (simp add: src_def)
  then have "write_loop buffer n r address s =
      write_loop buffer n (if r < WRITE_MAX then 0 else r - t) (address + word_of_nat t) s1"
    using assms(2) s1(1) by (subst write_loop.simps) (simp add: Let_def assms(4) [symmetric] del: write_loop.simps)
  moreover have "?msg = write_msg (address, src)" using len by (simp add: write_msg_def)
  ultimately show ?thesis using s1 len assms(4) by (auto split: if_split_asm)
qed

lemma write_loop_run:
  assumes "ready k s" "r div WRITE_MAX < k" "r \<le> n" "n \<le> length buffer"
  shows "if n - r + round4 r \<le> length buffer
    then \<exists>s' ps. write_loop buffer n r address s = Some (A_OK, s') \<and>
      mbox_writes (bdev s') = mbox_writes (bdev s) @ map write_msg ps \<and> write_pieces address ps \<and>
      concat (map snd ps) = take (round4 r) (drop (n - r) buffer)
    else write_loop buffer n r address s = None"
  using assms(1-3)
proof (induction r arbitrary: k s address rule: less_induct)
  case (less r)
  obtain k' where k: "k = Suc k'" using less.prems(2) by (cases k) auto
  consider "r = 0" | "0 < r" "r < WRITE_MAX" | "WRITE_MAX \<le> r" by linarith
  then show ?case
  proof cases
    case 1
    then show ?thesis using assms(4) by (auto simp: round4_def intro!: exI [of _ "[]"])
  next
    case 2
    show ?thesis
    proof (cases "n - r + round4 r \<le> length buffer")
      case False
      then have "write_loop buffer n r address s = None" using 2
        by (subst write_loop.simps) (simp add: blk_def del: write_loop.simps)
      with False show ?thesis by simp
    next
      case True
      let ?src = "take (round4 r) (drop (n - r) buffer)"
      from write_step [OF less.prems(1) [unfolded k] 2(1) less.prems(3) refl, where buffer = buffer and address = address] True 2(2)
      obtain s1 where s: "length ?src = round4 r" "mbox_writes (bdev s1) = mbox_writes (bdev s) @ [write_msg (address, ?src)]"
        "write_loop buffer n r address s = write_loop buffer n 0 (address + word_of_nat (round4 r)) s1" by auto
      have "write_pieces address [(address, ?src)]"
        using s(1) round4_props(1,4,5) [of r] 2 by (auto simp del: length_take)
      with True s show ?thesis by (auto intro!: exI [of _ "[(address, ?src)]"])
    qed
  next
    case 3
    let ?src = "take WRITE_MAX (drop (n - r) buffer)" let ?a = "address + word_of_nat WRITE_MAX"
    have "n - r + WRITE_MAX \<le> length buffer" using 3 less.prems(3) assms(4) by simp
    with write_step [OF less.prems(1) [unfolded k] _ less.prems(3) refl, where buffer = buffer and address = address] 3
    obtain s1 where s: "length ?src = WRITE_MAX" "ready k' s1" "mbox_writes (bdev s1) = mbox_writes (bdev s) @ [write_msg (address, ?src)]"
      "write_loop buffer n r address s = write_loop buffer n (r - WRITE_MAX) ?a s1" by auto
    have lt: "r - WRITE_MAX < r" and d: "(r - WRITE_MAX) div WRITE_MAX < k'" and le: "r - WRITE_MAX \<le> n"
      using 3 less.prems(2,3) by (auto simp: k div_if split: if_split_asm)
    have e: "n - (r - WRITE_MAX) = n - r + WRITE_MAX" "round4 r = WRITE_MAX + round4 (r - WRITE_MAX)"
      "n - (r - WRITE_MAX) + round4 (r - WRITE_MAX) = n - r + round4 r"
      using 3 less.prems(3) round4_diff [OF 3] round4_props(2) [of r] by simp_all
    note IH = less.IH [OF lt s(2) d le, of ?a]
    show ?thesis
    proof (cases "n - r + round4 r \<le> length buffer")
      case False
      with IH s(4) show ?thesis by (simp only: e(3) if_False)
    next
      case True
      with IH obtain s' ps where p: "write_loop buffer n (r - WRITE_MAX) ?a s1 = Some (A_OK, s')"
        "mbox_writes (bdev s') = mbox_writes (bdev s1) @ map write_msg ps" "write_pieces ?a ps"
        "concat (map snd ps) = take (round4 (r - WRITE_MAX)) (drop (n - (r - WRITE_MAX)) buffer)"
        by (auto simp only: e(3) if_True)
      have "concat (map snd ((address, ?src) # ps)) = take (round4 r) (drop (n - r) buffer)"
        by (simp only: list.map concat.simps snd_conv p(4) e(1,2) take_add drop_drop add.commute)
      moreover have "write_pieces address ((address, ?src) # ps)" using p(3) s(1) by (auto simp del: length_take)
      moreover have "mbox_writes (bdev s') = mbox_writes (bdev s) @ map write_msg ((address, ?src) # ps)" using p(2) s(3) by simp
      ultimately show ?thesis using True p(1) s(4) by (simp only: if_True) blast
    qed
  qed
qed

subsection \<open>Compressed downloads\<close>

definition lz_msg :: "bytes \<Rightarrow> bytes" where
  "lz_msg bs = cmd_msg BMI_LZ_DATA [word_of_nat (length bs)] @ bs"

definition lz_piece :: "bytes \<Rightarrow> bool" where
  "lz_piece bs \<longleftrightarrow> bs \<noteq> [] \<and> length bs \<le> LZ_MAX \<and> length bs mod 4 = 0"

lemma lz_step:
  assumes "ready (Suc k) s" "0 < r" "r \<le> n" "n \<le> length buffer"
  defines "src \<equiv> take (min r LZ_MAX) (drop (n - r) buffer)"
  shows "length src = min r LZ_MAX \<and> (\<exists>s1. ready k s1 \<and> mbox_writes (bdev s1) = mbox_writes (bdev s) @ [lz_msg src] \<and>
    lz_loop buffer n r s = lz_loop buffer n (r - min r LZ_MAX) s1)"
proof -
  let ?t = "min r LZ_MAX"
  let ?msg = "cmd_msg BMI_LZ_DATA [word_of_nat ?t] @ src"
  have len: "length src = ?t" using assms(2-4) by (auto simp: src_def)
  then have "length ?msg \<le> MAX_BMI_CMDBUF_SZ" by (simp add: min_def)
  from exchange_ready [OF assms(1) this, of False] obtain s1 where s1: "exchange ?msg None False s = Some (A_OK, s1)" "ready k s1"
    "mbox_writes (bdev s1) = mbox_writes (bdev s) @ [?msg]"
    by blast
  have "blk (n - r) ?t buffer = Some src" using assms(2-4) by (auto simp: src_def)
  then have "lz_loop buffer n r s = lz_loop buffer n (r - ?t) s1"
    using assms(2) s1(1) by (subst lz_loop.simps) (simp add: Let_def del: lz_loop.simps)
  moreover have "?msg = lz_msg src" using len by (simp add: lz_msg_def)
  ultimately show ?thesis using s1 len by auto
qed

lemma lz_loop_run:
  assumes "ready k s" "(r + 247) div LZ_MAX \<le> k" "r \<le> n" "n \<le> length buffer" "r mod 4 = 0"
  shows "\<exists>s' ps. lz_loop buffer n r s = Some (A_OK, s') \<and> ready (k - (r + 247) div LZ_MAX) s' \<and>
      mbox_writes (bdev s') = mbox_writes (bdev s) @ map lz_msg ps \<and> (\<forall>p \<in> set ps. lz_piece p) \<and>
      concat ps = take r (drop (n - r) buffer)"
  using assms(1-3,5)
proof (induction r arbitrary: k s rule: less_induct)
  case (less r)
  show ?case
  proof (cases "r = 0")
    case True
    then show ?thesis using less.prems(1) by (auto intro!: exI [of _ "[]"])
  next
    case False
    let ?t = "min r LZ_MAX" let ?src = "take ?t (drop (n - r) buffer)"
    have q: "(r + 247) div LZ_MAX = Suc ((r - ?t + 247) div LZ_MAX)" using False by (auto simp: min_def div_if)
    obtain k' where k: "k = Suc k'" using less.prems(2) q by (cases k) auto
    from lz_step [OF less.prems(1) [unfolded k] _ less.prems(3) assms(4)] False obtain s1 where
      s: "length ?src = ?t" "ready k' s1" "mbox_writes (bdev s1) = mbox_writes (bdev s) @ [lz_msg ?src]"
      "lz_loop buffer n r s = lz_loop buffer n (r - ?t) s1" by auto
    have "?src \<noteq> []" using s(1) False by (metis length_0_conv min_0R min_def neq0_conv zero_neq_numeral)
    then have p: "lz_piece ?src" using s(1) less.prems(4) by (simp add: lz_piece_def min_def del: length_take)
    have m: "r - ?t < r" "(r - ?t + 247) div LZ_MAX \<le> k'" "r - ?t \<le> n" "(r - ?t) mod 4 = 0"
      using False less.prems(2-4) q k by (auto simp: min_def) presburger?
    from less.IH [OF m(1) s(2) m(2-4)] obtain s' ps where i: "lz_loop buffer n (r - ?t) s1 = Some (A_OK, s')"
      "ready (k' - (r - ?t + 247) div LZ_MAX) s'" "mbox_writes (bdev s') = mbox_writes (bdev s1) @ map lz_msg ps"
      "\<forall>p \<in> set ps. lz_piece p" "concat ps = take (r - ?t) (drop (n - (r - ?t)) buffer)" by blast
    have "n - (r - ?t) = ?t + (n - r)" "r = ?t + (r - ?t)" using less.prems(3) by auto
    then have "concat (?src # ps) = take r (drop (n - r) buffer)"
      by (metis concat.simps(2) drop_drop i(5) take_add)
    moreover have "\<forall>x \<in> set (?src # ps). lz_piece x" using p i(4) by auto
    moreover have "mbox_writes (bdev s') = mbox_writes (bdev s) @ map lz_msg (?src # ps)" using s(3) i(3) by simp
    moreover have "ready (k - (r + 247) div LZ_MAX) s'" using i(2) q k by simp
    moreover have "lz_loop buffer n r s = Some (A_OK, s')" using s(4) i(1) by (rule trans)
    ultimately show ?thesis by blast
  qed
qed

lemma lz_data_run:
  assumes "ready k s" "(r + 247) div LZ_MAX \<le> k" "r \<le> length buffer" "r mod 4 = 0"
  shows "\<exists>s' ps. BMILZData buffer r s = Some (A_OK, s') \<and> ready (k - (r + 247) div LZ_MAX) s' \<and>
      mbox_writes (bdev s') = mbox_writes (bdev s) @ map lz_msg ps \<and> (\<forall>p \<in> set ps. lz_piece p) \<and> concat ps = take r buffer"
proof -
  obtain s1 where s1: "BMILZData buffer r s = lz_loop buffer r r s1" "ready k s1" "bdev s1 = bdev s"
    using with_cmd_ready [OF assms(1), of 264 "lz_loop buffer r r"] by (auto simp: BMILZData_def)
  from lz_loop_run [OF s1(2) assms(2) order.refl assms(3,4)] s1 show ?thesis by simp
qed

lemma stream_start_run:
  assumes "ready (Suc k) s"
  shows "\<exists>s'. BMILZStreamStart a s = Some (A_OK, s') \<and> ready k s' \<and>
    mbox_writes (bdev s') = mbox_writes (bdev s) @ [cmd_msg BMI_LZ_STREAM_START [a]]"
proof -
  let ?m = "cmd_msg BMI_LZ_STREAM_START [a]"
  obtain s1 where s1: "BMILZStreamStart a s = exchange ?m None False s1" "ready (Suc k) s1" "bdev s1 = bdev s"
    using with_cmd_ready [OF assms, of 8 "exchange ?m None False"] by (auto simp: BMILZStreamStart_def)
  from exchange_ready [OF s1(2), of ?m False] s1 show ?thesis by simp
qed

text \<open>The end of a fast download: the last word, if there is one, and the closing start.\<close>

definition close_stream :: "bool \<Rightarrow> bytes \<Rightarrow> bmi_t \<Rightarrow> (A_STATUS \<times> bmi_t) option" where
  "close_stream partial last_word s = do {
     (st, s) \<leftarrow> (if partial then BMILZData last_word 4 s else Some (A_OK, s));
     if A_FAILED st then Some (st, s) else do { (st, s) \<leftarrow> BMILZStreamStart 0 s; Some (if A_FAILED st then A_ERROR else st, s) }
   }"

lemma close_stream_run:
  assumes "ready (Suc (Suc k)) s" "length last_word = 4"
  shows "\<exists>s' qs. close_stream partial last_word s = Some (A_OK, s') \<and>
    mbox_writes (bdev s') = mbox_writes (bdev s) @ map lz_msg qs @ [cmd_msg BMI_LZ_STREAM_START [0]] \<and>
    (\<forall>q \<in> set qs. lz_piece q) \<and> concat qs = (if partial then last_word else [])"
proof (cases partial)
  case False
  from stream_start_run [OF assms(1), of 0] False show ?thesis by (auto simp: close_stream_def intro!: exI [of _ "[]"])
next
  case True
  from lz_data_run [OF assms(1), of 4 last_word] assms(2) obtain s1 qs where 1: "BMILZData last_word 4 s = Some (A_OK, s1)"
    "ready (Suc k) s1" "mbox_writes (bdev s1) = mbox_writes (bdev s) @ map lz_msg qs" "\<forall>q \<in> set qs. lz_piece q" "concat qs = last_word"
    by auto
  from stream_start_run [OF 1(2), of 0] 1 True show ?thesis by (auto simp: close_stream_def)
qed

subsection \<open>After the end\<close>

lemma no_cmd_buffer: "pBMICmdBuf s = None \<Longrightarrow> with_cmd n f s = None"
  by (simp add: with_cmd_def clear_cmd_def put_cmd_def)

text \<open>A message without an answer changes only the device.\<close>

lemma exchange_none:
  assumes "HIFExchangeBMIMsg n None w s = Some (st, s')"
  shows "bmiDone s' = bmiDone s \<and> pBMICmdBuf s' = pBMICmdBuf s"
  using assms by (cases "get_cmd n s") (auto simp: HIFExchangeBMIMsg_def Let_def split: prod.splits if_splits)

subsection \<open>A silent target\<close>

lemma wait_silent:
  assumes "word_reads d = []"
  shows "wait_word False n d = None"
proof -
  have "r = r \<longrightarrow> \<not> (\<not> w \<and> word_reads e = [])" if "wait_word w m e = Some r" for w m e r
  proof (rule wait_word.raw_induct [OF _ that, where P = "\<lambda>w m e r. r = r \<longrightarrow> \<not> (\<not> w \<and> word_reads e = [])"])
    fix f w m e r
    assume IH: "\<And>w m e r. f w m e = Some r \<Longrightarrow> r = r \<longrightarrow> \<not> (\<not> w \<and> word_reads e = [])"
      and eq: "(if w \<and> m = 0 then Some (False, e) else case read_available e of (st, available, d) \<Rightarrow>
        if st \<noteq> A_OK then Some (False, d) else if available then Some (True, d) else f w (m - 1) d) = Some r"
    show "r = r \<longrightarrow> \<not> (\<not> w \<and> word_reads e = [])"
    proof (intro impI notI)
      assume "\<not> w \<and> word_reads e = []"
      then have "f w (m - 1) e = Some r" "\<not> w \<and> word_reads e = []" using eq by (simp_all add: read_available_def)
      with IH show False by blast
    qed
  qed
  with assms show ?thesis by (cases "wait_word False n d") blast+
qed

end
