(* ===== verification/BmiClaims.thy ===== *)
theory BmiClaims
  imports BmiProps
begin

text \<open>The properties of the boot manager interface and states at which they apply.\<close>

text \<open>C24: while credits come, a write to the target's memory sends the bytes in messages of at most 244 bytes and
  whole words, for contiguous addresses, together exactly the buffer rounded up to a multiple of four
  bytes; when the buffer is not that long, the function reads behind it.\<close>

theorem bmi_write_memory_pieces:
  assumes "ready k s" "n div WRITE_MAX < k" "n \<le> length buffer"
  shows "if round4 n \<le> length buffer
    then \<exists>s' ps. BMIWriteMemory address buffer n s = Some (A_OK, s') \<and>
      mbox_writes (bdev s') = mbox_writes (bdev s) @ map write_msg ps \<and> write_pieces address ps \<and>
      concat (map snd ps) = take (round4 n) buffer
    else BMIWriteMemory address buffer n s = None"
proof -
  obtain s1 where s1: "BMIWriteMemory address buffer n s = write_loop buffer n n address s1" "ready k s1" "bdev s1 = bdev s"
    using with_cmd_ready [OF assms(1), of 268 "write_loop buffer n n address"] by (auto simp: BMIWriteMemory_def)
  from write_loop_run [OF s1(2) assms(2) order.refl assms(3), of address] show ?thesis
    by (simp only: s1(1,3) diff_self_eq_0 add_0 drop0)
qed

text \<open>C25: a fast download is a stream to the given address, closed by another start, and the pieces between
  are exactly the image, filled up with zeroes to whole words.\<close>

theorem bmi_fast_download_stream:
  assumes "ready k s" "(n + 247) div LZ_MAX + 3 \<le> k" "n \<le> length buffer"
  shows "\<exists>s' ps. BMIFastDownload address buffer n s = Some (A_OK, s') \<and>
    mbox_writes (bdev s') = mbox_writes (bdev s) @ [cmd_msg BMI_LZ_STREAM_START [address]] @ map lz_msg ps
      @ [cmd_msg BMI_LZ_STREAM_START [0]] \<and>
    (\<forall>p \<in> set ps. lz_piece p) \<and> concat ps = take n buffer @ replicate (round4 n - n) 0"
proof -
  let ?w = "n div 4 * 4" let ?u = "n mod 4"
  let ?q = "(?w + 247) div LZ_MAX"
  have w: "?w \<le> n" "?w + ?u = n" "?w mod 4 = 0" "?q \<le> (n + 247) div LZ_MAX" by (auto intro: div_le_mono)
  obtain k1 where k: "k = Suc k1" and k1: "?q + 2 \<le> k1" using assms(2) w(4) by (cases k) auto
  obtain s1 where 1: "BMILZStreamStart address s = Some (A_OK, s1)" "ready k1 s1"
    "mbox_writes (bdev s1) = mbox_writes (bdev s) @ [cmd_msg BMI_LZ_STREAM_START [address]]"
    using stream_start_run assms(1) unfolding k by blast
  have "?q \<le> k1" "?w \<le> length buffer" using k1 w(1) assms(3) by simp_all
  from lz_data_run [OF 1(2) this w(3)] obtain s2 ps where 2: "BMILZData buffer ?w s1 = Some (A_OK, s2)" "ready (k1 - ?q) s2"
    "mbox_writes (bdev s2) = mbox_writes (bdev s1) @ map lz_msg ps" "\<forall>p \<in> set ps. lz_piece p" "concat ps = take ?w buffer"
    by blast
  let ?rest = "take ?u (drop ?w buffer)" let ?last = "?rest @ replicate (4 - ?u) 0"
  have u: "?u < 4" "?w + ?u \<le> length buffer" using w(2) assms(3) by simp_all
  then have "?u \<le> length buffer - ?w" by linarith
  then have rest_len: "length ?rest = ?u" "length ?last = 4" using u(1) by (simp_all add: min.absorb2)
  have rest: "(if ?u \<noteq> 0 then blk ?w ?u buffer else Some []) = Some ?rest" using u(2) by (simp add: blk_def)
  have join: "take ?w buffer @ ?rest = take n buffer" by (metis take_add w(2))
  have finish: "BMIFastDownload address buffer n s = close_stream (?u \<noteq> 0) ?last s2"
    using 1(1) 2(1) rest by (simp add: BMIFastDownload_def close_stream_def Let_def)
  from k1 obtain d where "k1 = ?q + 2 + d" by (metis le_iff_add)
  with 2(2) have "ready (Suc (Suc d)) s2" by simp
  from close_stream_run [OF this rest_len(2), of "?u \<noteq> 0"] obtain s3 qs where 3: "close_stream (?u \<noteq> 0) ?last s2 = Some (A_OK, s3)"
    "mbox_writes (bdev s3) = mbox_writes (bdev s2) @ map lz_msg qs @ [cmd_msg BMI_LZ_STREAM_START [0]]"
    "\<forall>q \<in> set qs. lz_piece q" "concat qs = (if ?u \<noteq> 0 then ?last else [])" by blast
  have "concat (ps @ qs) = take n buffer @ replicate (round4 n - n) 0"
    using 2(5) 3(4) join w(2) by (auto simp: round4_def)
  with 1(3) 2(3,4) 3(1-3) finish show ?thesis by (intro exI [of _ s3] exI [of _ "ps @ qs"]) auto
qed

text \<open>C40: closing the interface frees the command buffer, and the command functions clear it before they look
  whether they are allowed: after the end each of them writes through a null pointer instead of returning an
  error.  Only the query of the target, the NVRAM command and a second end are refused as meant.\<close>

theorem bmi_use_after_done_faults:
  assumes "BMIDone s = Some (st, s')" "\<not> bmiDone s"
  shows "BMIReadMemory a n s' = None \<and> BMIWriteMemory a buffer n s' = None \<and> BMIExecute a w s' = None \<and> BMISetAppStart a s' = None \<and>
    BMIReadSOCRegister a s' = None \<and> BMIWriteSOCRegister a w s' = None \<and> BMIrompatchInstall a w x y s' = None \<and>
    BMIrompatchUninstall a s' = None \<and> BMIrompatchActivate a buffer s' = None \<and> BMIrompatchDeactivate a buffer s' = None \<and>
    BMILZData buffer n s' = None \<and> BMILZStreamStart a s' = None \<and> BMIFastDownload a buffer n s' = None \<and>
    BMIDone s' = Some (A_OK, s') \<and> BMInvramProcess buffer s' = Some (A_ERROR, None, s') \<and>
    BMIGetTargetInfo ti s' = Some (A_ERROR, ti, s')"
proof -
  have e: "bmiDone s' \<and> pBMICmdBuf s' = None"
    using assms by (auto simp: BMIDone_def bind_eq_Some_conv put_cmd_def dest!: exchange_none split: if_split_asm)
  then have "clear_cmd k s' = None" for k by (simp add: clear_cmd_def put_cmd_def)
  then show ?thesis using e no_cmd_buffer [of s']
    by (simp add: BMIReadMemory_def BMIWriteMemory_def BMIExecute_def BMISetAppStart_def BMIReadSOCRegister_def
        BMIWriteSOCRegister_def BMIrompatchInstall_def BMIrompatchUninstall_def BMIrompatchActivate_def BMIrompatchDeactivate_def
        BMIrompatchChangeActivation_def BMILZData_def BMILZStreamStart_def BMIFastDownload_def Let_def BMIDone_def BMInvramProcess_def
        BMIGetTargetInfo_def result_word_def)
qed

text \<open>Executing code on a target that never answers does not end, because this command waits without a limit.\<close>

lemma bmi_execute_waits_forever:
  assumes "ready (Suc k) s" "word_reads (bdev s) = []"
  shows "BMIExecute address param s = None"
proof -
  let ?m = "cmd_msg BMI_EXECUTE [address, param]"
  obtain s1 where s1: "BMIExecute address param s = result_word (exchange ?m (Some 4) False s1)" "ready (Suc k) s1" "bdev s1 = bdev s"
    using with_cmd_ready [OF assms(1), of 12 "exchange ?m (Some 4) False"] by (auto simp: BMIExecute_def)
  from put_cmd_ready [OF s1(2), of ?m] obtain s2 where s2: "put_cmd ?m s1 = Some s2" "ready (Suc k) s2" "bdev s2 = bdev s1"
    "get_cmd (length ?m) s2 = Some ?m" by auto
  from s2(2) obtain rs where c: "credit_reads (bdev s2) = (A_OK, 1) # replicate k (A_OK, 1) @ rs" "mbox_write_answers (bdev s2) = []"
    by (auto simp: ready_def)
  have "wait_word False BMI_COMMUNICATION_TIMEOUT ((bdev s2)\<lparr>credit_reads := x, mbox_writes := y\<rparr>) = None" for x y
    using assms(2) s1(3) s2(3) by (intro wait_silent) simp
  then have "exchange ?m (Some 4) False s1 = None"
    using s2(1,4) send_ready [OF c, of ?m] by (simp add: exchange_def HIFExchangeBMIMsg_def bmiBufferReceive_def)
  then show ?thesis by (simp add: s1(1) result_word_def)
qed

subsection \<open>Witnesses\<close>

definition ex_bmi :: "nat \<Rightarrow> bmi_t" where
  "ex_bmi k = \<lparr>bmiDone = False, pBMICmdBuf = Some (replicate MAX_BMI_CMDBUF_SZ 0), malloc_ok = True,
     bdev = \<lparr>credit_reads = replicate k (A_OK, 1), has_pending_events = False, word_reads = [], mbox_write_answers = [],
       mbox_read_answers = [], mbox_writes = []\<rparr>\<rparr>"

lemma ex_bmi_ready: "ready k (ex_bmi k)"
  by (simp add: ready_def ex_bmi_def)

lemma bmi_write_memory_pieces_witness:
  "(\<exists>s' ps. BMIWriteMemory 0x1000 [1, 2, 3, 4, 5, 0, 0, 0] 5 (ex_bmi 2) = Some (A_OK, s') \<and> write_pieces 0x1000 ps \<and>
     concat (map snd ps) = [1, 2, 3, 4, 5, 0, 0, 0]) \<and>
   BMIWriteMemory 0x1000 [1, 2, 3, 4, 5] 5 (ex_bmi 2) = None"
proof -
  have r: "round4 5 = 8" by (simp add: round4_def)
  show ?thesis
    using bmi_write_memory_pieces [OF ex_bmi_ready [of 2], where n = 5 and buffer = "[1, 2, 3, 4, 5, 0, 0, 0]" and address = "0x1000"]
      bmi_write_memory_pieces [OF ex_bmi_ready [of 2], where n = 5 and buffer = "[1, 2, 3, 4, 5]" and address = "0x1000"]
    by (auto simp: r)
qed

lemma bmi_fast_download_stream_witness:
  "\<exists>s' ps. BMIFastDownload 0x1000 [1, 2, 3, 4, 5] 5 (ex_bmi 4) = Some (A_OK, s') \<and> concat ps = [1, 2, 3, 4, 5, 0, 0, 0 :: byte]"
proof -
  have "round4 5 - 5 = 3" by (simp add: round4_def)
  then show ?thesis
    using bmi_fast_download_stream [OF ex_bmi_ready [of 4], where n = 5 and buffer = "[1, 2, 3, 4, 5]" and address = "0x1000"]
    by (auto simp: numeral_3_eq_3)
qed

lemma bmi_use_after_done_faults_witness:
  "\<exists>st s'. BMIDone (ex_bmi 1) = Some (st, s') \<and> BMIReadMemory 0 4 s' = None \<and> BMInvramProcess [] s' = Some (A_ERROR, None, s')"
proof -
  let ?s = "(ex_bmi 1)\<lparr>bmiDone := True\<rparr>" let ?m = "word_bytes (cid_value BMI_DONE)"
  obtain s1 where s1: "put_cmd ?m ?s = Some s1" "get_cmd 4 s1 = Some ?m"
    using length_word_bytes [of "cid_value BMI_DONE"] by (auto simp: put_cmd_def get_cmd_def ex_bmi_def blk_def)
  then have "BMIDone (ex_bmi 1) \<noteq> None"
    by (auto simp: BMIDone_def HIFExchangeBMIMsg_def ex_bmi_def Let_def split: prod.split)
  then obtain st s' where d: "BMIDone (ex_bmi 1) = Some (st, s')" by auto
  have "\<not> bmiDone (ex_bmi 1)" by (simp add: ex_bmi_def)
  from bmi_use_after_done_faults [OF d this] d show ?thesis by blast
qed

end
