(* ===== verification/Device.thy ===== *)
theory Device
  imports HtcRecv
begin

text \<open>
  The device layer below HTC, \<open>host/htc2/AR6000/ar6k.c\<close> and \<open>ar6k_events.c\<close>: the interrupt enable registers
  with their copy in the host, the packets for asynchronous register accesses, and the switch of the
  receiver.  \<open>htc\<close> is the state of HTC above; the fields of the device that HTC uses (yielding, asynchronous
  mode, packet count) are in it.  The second mailbox, GMBOX, has its own theory.

  What the bus answers is a list of inputs for each kind of access: the interrupt status table, the pending
  events where the bus driver has a function for them, other short reads, and the status of everything
  else.  When a list is used up, accesses succeed and read zeroes.  Accepted writes are logged in
  \<open>reg_writes\<close>, asynchronous ones when they are submitted, because the bus keeps their order.
\<close>

subsection \<open>State\<close>

record AR6K_IRQ_PROC_REGISTERS =
  host_int_status :: byte
  cpu_int_status :: byte
  error_int_status :: byte
  counter_int_status :: byte
  rx_lookahead_valid :: byte
  host_int_status2 :: byte
  gmbox_rx_avail :: byte
  rx_lookahead :: "32 word"
  rx_gmbox_lookahead_alias :: bytes

record AR6K_IRQ_ENABLE_REGISTERS =
  int_status_enable :: byte
  cpu_int_status_enable :: byte
  error_status_enable :: byte
  counter_int_status_enable :: byte

record HIF_PENDING_EVENTS_INFO =
  OTHER_EVENTS :: bool
  RECV_MSG_AVAIL :: bool
  LookAhead :: "32 word"

datatype dev_reg =
    INT_STATUS_ENABLE_ADDRESS | CPU_INT_STATUS_ADDRESS | ERROR_INT_STATUS_ADDRESS
  | GMBOX_INT_STATUS_ENABLE_REG | GMBOX_LOOKAHEAD_MUX_REG | INT_WLAN_ADDRESS

datatype io_op = OpGetEvents | OpRecvSwitch | OpGmboxAction | OpReadCredits

datatype GMBOX_IRQ_ACTION_TYPE =
    GMBOX_ACTION_NONE | GMBOX_DISABLE_ALL | GMBOX_ERRORS_IRQ_ENABLE | GMBOX_RECV_IRQ_ENABLE
  | GMBOX_RECV_IRQ_DISABLE | GMBOX_CREDIT_IRQ_ENABLE | GMBOX_CREDIT_IRQ_DISABLE

record AR6K_DEVICE =
  IrqProcRegisters :: AR6K_IRQ_PROC_REGISTERS
  IrqEnableRegisters :: AR6K_IRQ_ENABLE_REGISTERS
  GetPendingEventsFunc :: bool
  HifMaskUmaskRecvEvent :: bool
  RecheckIRQStatusCnt :: nat
  RegisterIOList :: "nat list"
  io_busy :: "(nat \<times> io_op) list"
  GMboxEnabled :: bool
  GMboxControl :: byte
  CreditCountIRQEnabled :: bool
  htc :: HTC_RX_TARGET
  hif_irq_masked :: bool
  irq_acks :: nat
  target_failures :: nat
  gmbox_failures :: "A_STATUS list"
  credits_pending :: "(nat \<times> bool) list"
  reg_writes :: "(dev_reg \<times> bytes) list"
  reg_tables :: "(A_STATUS \<times> AR6K_IRQ_PROC_REGISTERS) list"
  pending_ev :: "(A_STATUS \<times> HIF_PENDING_EVENTS_INFO) list"
  byte_reads :: "(A_STATUS \<times> bytes) list"
  io_answers :: "A_STATUS list"
  gmbox_answers :: "(A_STATUS \<times> (GMBOX_IRQ_ACTION_TYPE \<times> bool) list) list"
  recheck_hints :: "bool list"
  htc_async :: nat
  pending_switches :: nat
  io_corrupt :: bool

text \<open>
  The last three are not in the code.  \<open>htc_async\<close> counts the chains of asynchronous fetches that HTC has in hand,
  each of which ends in a call back, \<open>pending_switches\<close> the switches of the receiver that the bus answered
  with \<open>A_PENDING\<close>, and \<open>io_corrupt\<close> tells that a packet was put on the free list twice.  The bits of the registers that are used.\<close>

abbreviation (input) INT_ERROR :: byte where "INT_ERROR \<equiv> 0x80"
abbreviation (input) INT_CPU :: byte where "INT_CPU \<equiv> 0x40"
abbreviation (input) INT_COUNTER :: byte where "INT_COUNTER \<equiv> 0x10"
abbreviation (input) INT_MBOX_DATA :: byte where "INT_MBOX_DATA \<equiv> 0x01"
abbreviation (input) OTHER_INTS_ENABLED :: byte where "OTHER_INTS_ENABLED \<equiv> 0xD0"
abbreviation (input) AR6K_TARGET_DEBUG_INTR_MASK :: byte where "AR6K_TARGET_DEBUG_INTR_MASK \<equiv> 0x01"
abbreviation (input) AR6K_MAX_REG_IO_BUFFERS :: nat where "AR6K_MAX_REG_IO_BUFFERS \<equiv> 8"

definition has_bits :: "byte \<Rightarrow> byte \<Rightarrow> bool" where
  "has_bits m v \<longleftrightarrow> and v m \<noteq> 0"

definition enable_bytes :: "AR6K_IRQ_ENABLE_REGISTERS \<Rightarrow> bytes" where
  "enable_bytes r = [int_status_enable r, cpu_int_status_enable r, error_status_enable r, counter_int_status_enable r]"

definition quiet_table :: AR6K_IRQ_PROC_REGISTERS where
  "quiet_table = \<lparr>host_int_status = 0, cpu_int_status = 0, error_int_status = 0, counter_int_status = 0,
     rx_lookahead_valid = 0, host_int_status2 = 0, gmbox_rx_avail = 0, rx_lookahead = 0,
     rx_gmbox_lookahead_alias = replicate 8 0\<rparr>"

subsection \<open>Accesses\<close>

definition hif_answer :: "AR6K_DEVICE \<Rightarrow> A_STATUS \<times> AR6K_DEVICE" where
  "hif_answer d = (case io_answers d of [] \<Rightarrow> (A_OK, d) | st # sts \<Rightarrow> (st, d\<lparr>io_answers := sts\<rparr>))"

definition hif_write :: "dev_reg \<Rightarrow> bytes \<Rightarrow> AR6K_DEVICE \<Rightarrow> A_STATUS \<times> AR6K_DEVICE" where
  "hif_write r bs d = (case hif_answer d of (st, d) \<Rightarrow>
     (st, if st = A_OK then d\<lparr>reg_writes := reg_writes d @ [(r, bs)]\<rparr> else d))"

text \<open>The table goes to \<open>IrqProcRegisters\<close>.\<close>

definition read_table :: "AR6K_DEVICE \<Rightarrow> A_STATUS \<times> AR6K_DEVICE" where
  "read_table d = (case reg_tables d of
       [] \<Rightarrow> (A_OK, d\<lparr>IrqProcRegisters := quiet_table\<rparr>)
     | (st, r) # rs \<Rightarrow> (st, d\<lparr>reg_tables := rs, IrqProcRegisters := (if st = A_OK then r else IrqProcRegisters d)\<rparr>))"

definition read_events :: "AR6K_DEVICE \<Rightarrow> A_STATUS \<times> HIF_PENDING_EVENTS_INFO \<times> AR6K_DEVICE" where
  "read_events d = (case pending_ev d of
       [] \<Rightarrow> (A_OK, \<lparr>OTHER_EVENTS = False, RECV_MSG_AVAIL = False, LookAhead = 0\<rparr>, d)
     | (st, e) # es \<Rightarrow> (st, e, d\<lparr>pending_ev := es\<rparr>))"

definition read_bytes :: "nat \<Rightarrow> AR6K_DEVICE \<Rightarrow> A_STATUS \<times> bytes \<times> AR6K_DEVICE" where
  "read_bytes n d = (case byte_reads d of
       [] \<Rightarrow> (A_OK, replicate n 0, d)
     | (st, bs) # rs \<Rightarrow> (st, take n (bs @ replicate n 0), d\<lparr>byte_reads := rs\<rparr>))"

text \<open>
  The packets that carry asynchronous accesses.  The free list links the packets themselves, so a packet
  that is put on it a second time corrupts the list; the code does not look.
\<close>

definition AR6KFreeIOPacket :: "nat \<Rightarrow> AR6K_DEVICE \<Rightarrow> AR6K_DEVICE" where
  "AR6KFreeIOPacket p d =
     (if p \<in> set (RegisterIOList d) then d\<lparr>io_corrupt := True\<rparr> else d\<lparr>RegisterIOList := RegisterIOList d @ [p]\<rparr>)"

definition AR6KAllocIOPacket :: "AR6K_DEVICE \<Rightarrow> nat option \<times> AR6K_DEVICE" where
  "AR6KAllocIOPacket d = (case RegisterIOList d of [] \<Rightarrow> (None, d) | p # ps \<Rightarrow> (Some p, d\<lparr>RegisterIOList := ps\<rparr>))"

text \<open>
  Submitting an asynchronous access.  The bus takes it when it answers \<open>A_OK\<close> or \<open>A_PENDING\<close>, and completes
  it later; with any other answer there is no completion.
\<close>

definition hif_submit :: "nat \<Rightarrow> io_op \<Rightarrow> (dev_reg \<times> bytes) list \<Rightarrow> AR6K_DEVICE \<Rightarrow> A_STATUS \<times> AR6K_DEVICE" where
  "hif_submit p op ws d = (case hif_answer d of (st, d) \<Rightarrow>
     (st, if st = A_OK \<or> st = A_PENDING
          then d\<lparr>io_busy := io_busy d @ [(p, op)], reg_writes := reg_writes d @ ws,
                 pending_switches := pending_switches d + (if op = OpRecvSwitch \<and> st = A_PENDING then 1 else 0)\<rparr>
          else d))"

definition HIFAckInterrupt :: "AR6K_DEVICE \<Rightarrow> AR6K_DEVICE" where
  "HIFAckInterrupt d = d\<lparr>irq_acks := irq_acks d + 1\<rparr>"

subsection \<open>Interrupts on and off\<close>

definition DevEnableInterrupts :: "AR6K_DEVICE \<Rightarrow> A_STATUS \<times> AR6K_DEVICE" where
  "DevEnableInterrupts d = (let
     regs = \<lparr>int_status_enable = (if GetPendingEventsFunc d then 0xD0 else 0xD1), cpu_int_status_enable = 0,
       error_status_enable = 0x03, counter_int_status_enable = AR6K_TARGET_DEBUG_INTR_MASK\<rparr>
     in hif_write INT_STATUS_ENABLE_ADDRESS (enable_bytes regs) (d\<lparr>IrqEnableRegisters := regs\<rparr>))"

definition DevDisableInterrupts :: "AR6K_DEVICE \<Rightarrow> A_STATUS \<times> AR6K_DEVICE" where
  "DevDisableInterrupts d = (let
     regs = \<lparr>int_status_enable = 0, cpu_int_status_enable = 0, error_status_enable = 0, counter_int_status_enable = 0\<rparr>
     in hif_write INT_STATUS_ENABLE_ADDRESS (enable_bytes regs) (d\<lparr>IrqEnableRegisters := regs\<rparr>))"

definition DevUnmaskInterrupts :: "AR6K_DEVICE \<Rightarrow> A_STATUS \<times> AR6K_DEVICE" where
  "DevUnmaskInterrupts d = (let (_, d) = DevDisableInterrupts d in DevEnableInterrupts (d\<lparr>hif_irq_masked := False\<rparr>))"

definition DevMaskInterrupts :: "AR6K_DEVICE \<Rightarrow> A_STATUS \<times> AR6K_DEVICE" where
  "DevMaskInterrupts d = DevDisableInterrupts (d\<lparr>hif_irq_masked := True\<rparr>)"

subsection \<open>The receiver on and off\<close>

text \<open>The end of the two functions that follow: after a status that is not success the packet is freed.\<close>

definition free_if_failed :: "A_STATUS \<Rightarrow> nat option \<Rightarrow> AR6K_DEVICE \<Rightarrow> A_STATUS \<times> AR6K_DEVICE" where
  "free_if_failed st io d = (case io of
       Some p \<Rightarrow> (st, if A_FAILED st then AR6KFreeIOPacket p d else d)
     | None \<Rightarrow> (st, d))"

definition DevDoEnableDisableRecvOverride :: "bool \<Rightarrow> bool \<Rightarrow> AR6K_DEVICE \<Rightarrow> A_STATUS \<times> AR6K_DEVICE" where
  "DevDoEnableDisableRecvOverride EnableRecv AsyncMode d =
     (if AsyncMode then (case AR6KAllocIOPacket d of
          (None, d) \<Rightarrow> (A_NO_MEMORY, d)
        | (Some p, d) \<Rightarrow> (case hif_submit p OpRecvSwitch [] d of (st, d) \<Rightarrow> free_if_failed st (Some p) d))
      else hif_answer d)"

definition DevDoEnableDisableRecvNormal :: "bool \<Rightarrow> bool \<Rightarrow> AR6K_DEVICE \<Rightarrow> A_STATUS \<times> AR6K_DEVICE" where
  "DevDoEnableDisableRecvNormal EnableRecv AsyncMode d = (let
     r = IrqEnableRegisters d;
     v = int_status_enable r;
     r = r\<lparr>int_status_enable := (if EnableRecv then or v INT_MBOX_DATA else and v (not INT_MBOX_DATA))\<rparr>;
     d = d\<lparr>IrqEnableRegisters := r\<rparr>
     in if AsyncMode then (case AR6KAllocIOPacket d of
            (None, d) \<Rightarrow> (A_NO_MEMORY, d)
          | (Some p, d) \<Rightarrow> (case hif_submit p OpRecvSwitch [(INT_STATUS_ENABLE_ADDRESS, enable_bytes r)] d of
              (st, d) \<Rightarrow> free_if_failed st (Some p) d))
        else hif_write INT_STATUS_ENABLE_ADDRESS (enable_bytes r) d)"

definition DevStopRecv :: "bool \<Rightarrow> AR6K_DEVICE \<Rightarrow> A_STATUS \<times> AR6K_DEVICE" where
  "DevStopRecv AsyncMode d =
     (if \<not> HifMaskUmaskRecvEvent d then DevDoEnableDisableRecvNormal False AsyncMode d
      else DevDoEnableDisableRecvOverride False AsyncMode d)"

definition DevEnableRecv :: "bool \<Rightarrow> AR6K_DEVICE \<Rightarrow> A_STATUS \<times> AR6K_DEVICE" where
  "DevEnableRecv AsyncMode d =
     (if \<not> HifMaskUmaskRecvEvent d then DevDoEnableDisableRecvNormal True AsyncMode d
      else DevDoEnableDisableRecvOverride True AsyncMode d)"

definition DevDoEnableDisableRecvAsyncHandler :: "nat \<Rightarrow> AR6K_DEVICE \<Rightarrow> AR6K_DEVICE" where
  "DevDoEnableDisableRecvAsyncHandler p d = AR6KFreeIOPacket p d"

subsection \<open>Waiting for messages\<close>

fun wait_pending :: "nat \<Rightarrow> bool option \<Rightarrow> AR6K_DEVICE \<Rightarrow> A_STATUS \<times> bool option \<times> AR6K_DEVICE" where
  "wait_pending 0 pend d = (A_OK, pend, d)"
| "wait_pending (Suc counter) pend d = (case read_bytes 1 d of (st, bs, d) \<Rightarrow>
     if A_FAILED st then (st, pend, d)
     else if \<not> has_bits 1 (hd bs) then (A_OK, Some False, d)
     else wait_pending counter (Some True) d)"

text \<open>The flag of the caller keeps its value when the first read fails.\<close>

definition DevWaitForPendingRecv :: "nat \<Rightarrow> AR6K_DEVICE \<Rightarrow> A_STATUS \<times> bool option \<times> AR6K_DEVICE" where
  "DevWaitForPendingRecv TimeoutInMs d = wait_pending (max TimeoutInMs 100 div 100) None d"

end
