(* ===== verification/Gmbox.thy ===== *)
theory Gmbox
  imports Device
begin

text \<open>
  The second mailbox, \<open>host/htc2/AR6000/ar6k_gmbox.c\<close>, which carries Bluetooth traffic beside HTC.  The protocol
  module above it is another component: what its callbacks answer, and the interrupt actions they
  take, are inputs (\<open>gmbox_answers\<close>); what it is told is recorded.
\<close>

abbreviation (input) GMBOX_RX_DATA :: byte where "GMBOX_RX_DATA \<equiv> 0x01"
abbreviation (input) GMBOX_TX_OVERFLOW :: byte where "GMBOX_TX_OVERFLOW \<equiv> 0x02"
abbreviation (input) GMBOX_RX_OVERFLOW :: byte where "GMBOX_RX_OVERFLOW \<equiv> 0x04"
abbreviation (input) GMBOX_CREDIT_BIT :: byte where "GMBOX_CREDIT_BIT \<equiv> 0x02"
abbreviation (input) AR6K_REG_IO_BUFFER_SIZE :: nat where "AR6K_REG_IO_BUFFER_SIZE \<equiv> 32"

subsection \<open>Interrupt actions\<close>

text \<open>The status of an asynchronous submission is not looked at.\<close>

definition submit_action :: "dev_reg \<Rightarrow> bytes \<Rightarrow> AR6K_DEVICE \<Rightarrow> A_STATUS \<times> AR6K_DEVICE" where
  "submit_action r bs d = (case AR6KAllocIOPacket d of
       (None, d) \<Rightarrow> (A_NO_MEMORY, d)
     | (Some p, d) \<Rightarrow> (A_OK, snd (hif_submit p OpGmboxAction [(r, bs)] d)))"

definition DevGMboxCounterEnableDisable :: "GMBOX_IRQ_ACTION_TYPE \<Rightarrow> bool \<Rightarrow> AR6K_DEVICE \<Rightarrow> A_STATUS \<times> AR6K_DEVICE" where
  "DevGMboxCounterEnableDisable IrqAction AsyncMode d = (let
     on = (IrqAction = GMBOX_CREDIT_IRQ_ENABLE);
     r = IrqEnableRegisters d;
     c = counter_int_status_enable r;
     r = (if on then r\<lparr>counter_int_status_enable := or c GMBOX_CREDIT_BIT,
                       int_status_enable := or (int_status_enable r) INT_COUNTER\<rparr>
          else r\<lparr>counter_int_status_enable := and c (not GMBOX_CREDIT_BIT)\<rparr>);
     d = d\<lparr>CreditCountIRQEnabled := on, IrqEnableRegisters := r\<rparr>
     in if AsyncMode then submit_action INT_STATUS_ENABLE_ADDRESS (enable_bytes r) d
        else hif_write INT_STATUS_ENABLE_ADDRESS (enable_bytes r) d)"

fun gmbox_control :: "GMBOX_IRQ_ACTION_TYPE \<Rightarrow> byte \<Rightarrow> byte" where
  "gmbox_control GMBOX_DISABLE_ALL v = 0"
| "gmbox_control GMBOX_ERRORS_IRQ_ENABLE v = or v (or GMBOX_TX_OVERFLOW GMBOX_RX_OVERFLOW)"
| "gmbox_control GMBOX_RECV_IRQ_ENABLE v = or v GMBOX_RX_DATA"
| "gmbox_control GMBOX_RECV_IRQ_DISABLE v = and v (not GMBOX_RX_DATA)"
| "gmbox_control _ v = v"

definition DevGMboxIRQAction :: "GMBOX_IRQ_ACTION_TYPE \<Rightarrow> bool \<Rightarrow> AR6K_DEVICE \<Rightarrow> A_STATUS \<times> AR6K_DEVICE" where
  "DevGMboxIRQAction IrqAction AsyncMode d =
     (if IrqAction = GMBOX_CREDIT_IRQ_ENABLE \<or> IrqAction = GMBOX_CREDIT_IRQ_DISABLE
      then DevGMboxCounterEnableDisable IrqAction AsyncMode d
      else let
        d = (if IrqAction = GMBOX_DISABLE_ALL
             then snd (DevGMboxCounterEnableDisable GMBOX_CREDIT_IRQ_DISABLE AsyncMode d) else d);
        v = gmbox_control IrqAction (GMboxControl d);
        d = d\<lparr>GMboxControl := v\<rparr>
        in if AsyncMode then submit_action GMBOX_INT_STATUS_ENABLE_REG [v, v, v, v] d
           else hif_write GMBOX_INT_STATUS_ENABLE_REG [v, v, v, v] d)"

definition DevGMboxIRQActionAsyncHandler :: "nat \<Rightarrow> AR6K_DEVICE \<Rightarrow> AR6K_DEVICE" where
  "DevGMboxIRQActionAsyncHandler p d = AR6KFreeIOPacket p d"

text \<open>A callback of the protocol module: its actions, then its status.\<close>

fun run_actions :: "(GMBOX_IRQ_ACTION_TYPE \<times> bool) list \<Rightarrow> AR6K_DEVICE \<Rightarrow> AR6K_DEVICE" where
  "run_actions [] d = d"
| "run_actions ((a, async) # acts) d = run_actions acts (snd (DevGMboxIRQAction a async d))"

definition gmbox_callback :: "AR6K_DEVICE \<Rightarrow> A_STATUS \<times> AR6K_DEVICE" where
  "gmbox_callback d = (case gmbox_answers d of
       [] \<Rightarrow> (A_OK, d)
     | (st, acts) # rest \<Rightarrow> (st, run_actions acts (d\<lparr>gmbox_answers := rest\<rparr>)))"

definition gmbox_failure :: "A_STATUS \<Rightarrow> AR6K_DEVICE \<Rightarrow> AR6K_DEVICE" where
  "gmbox_failure st d = d\<lparr>gmbox_failures := gmbox_failures d @ [st]\<rparr>"

definition DevNotifyGMboxTargetFailure :: "AR6K_DEVICE \<Rightarrow> AR6K_DEVICE" where
  "DevNotifyGMboxTargetFailure d = gmbox_failure A_HARDWARE d"

subsection \<open>Credits\<close>

text \<open>Each byte that is not zero is one credit.\<close>

fun ProcessCreditCounterReadBuffer :: "bytes \<Rightarrow> nat" where
  "ProcessCreditCounterReadBuffer [] = 0"
| "ProcessCreditCounterReadBuffer (b # bs) = (if b \<noteq> 0 then 1 else 0) + ProcessCreditCounterReadBuffer bs"

definition tell_credits :: "nat \<Rightarrow> AR6K_DEVICE \<Rightarrow> A_STATUS \<times> AR6K_DEVICE" where
  "tell_credits n d = gmbox_callback (d\<lparr>credits_pending := credits_pending d @ [(n, CreditCountIRQEnabled d)]\<rparr>)"

definition DevGMboxReadCreditsAsyncHandler :: "nat \<Rightarrow> A_STATUS \<Rightarrow> bytes \<Rightarrow> AR6K_DEVICE \<Rightarrow> AR6K_DEVICE" where
  "DevGMboxReadCreditsAsyncHandler p st bs d = AR6KFreeIOPacket p
     (if A_FAILED st then d else snd (tell_credits (ProcessCreditCounterReadBuffer bs) d))"

text \<open>In asynchronous mode there is no count, and a submission that fails is not noticed.\<close>

definition DevGMboxReadCreditCounter :: "bool \<Rightarrow> AR6K_DEVICE \<Rightarrow> A_STATUS \<times> nat option \<times> AR6K_DEVICE" where
  "DevGMboxReadCreditCounter AsyncMode d = (case AR6KAllocIOPacket d of
       (None, d) \<Rightarrow> (A_NO_MEMORY, None, d)
     | (Some p, d) \<Rightarrow>
         if AsyncMode then (A_OK, None, snd (hif_submit p OpReadCredits [] d))
         else (case read_bytes AR6K_REG_IO_BUFFER_SIZE d of (st, bs, d) \<Rightarrow>
           (st, if \<not> A_FAILED st then Some (ProcessCreditCounterReadBuffer bs) else None, AR6KFreeIOPacket p d)))"

definition DevGMboxReadCreditSize :: "AR6K_DEVICE \<Rightarrow> A_STATUS \<times> nat option \<times> AR6K_DEVICE" where
  "DevGMboxReadCreditSize d = (case read_bytes 4 d of (st, bs, d) \<Rightarrow>
     (st, if \<not> A_FAILED st then Some (if hd bs = 0 then 256 else unat (hd bs)) else None, d))"

subsection \<open>Set-up and interrupts\<close>

text \<open>\<open>address\<close> is the advertised address of the mailbox, \<open>install\<close> the status of the protocol module.\<close>

definition DevSetupGMbox :: "32 word \<Rightarrow> A_STATUS \<Rightarrow> AR6K_DEVICE \<Rightarrow> A_STATUS \<times> AR6K_DEVICE" where
  "DevSetupGMbox address install d =
     (if address = 0 then (A_OK, d)
      else case DevGMboxIRQAction GMBOX_DISABLE_ALL False d of (st, d) \<Rightarrow>
        if A_FAILED st then (st, d)
        else case hif_write GMBOX_LOOKAHEAD_MUX_REG [1, 1, 1, 1] d of (st, d) \<Rightarrow>
          if A_FAILED st then (st, d)
          else if A_FAILED install then (install, d)
          else (install, d\<lparr>GMboxEnabled := True\<rparr>))"

definition DevCleanupGMbox :: "AR6K_DEVICE \<Rightarrow> AR6K_DEVICE" where
  "DevCleanupGMbox d = d\<lparr>GMboxEnabled := False\<rparr>"

definition check_credit_irq :: "AR6K_DEVICE \<Rightarrow> A_STATUS \<times> AR6K_DEVICE" where
  "check_credit_irq d =
     (if has_bits GMBOX_CREDIT_BIT (and (counter_int_status (IrqProcRegisters d))
           (counter_int_status_enable (IrqEnableRegisters d)))
      then (case DevGMboxReadCreditCounter False d of (st, credits, d) \<Rightarrow>
        (case credits of Some n \<Rightarrow> tell_credits n d | None \<Rightarrow> (st, d)))
      else (A_OK, d))"

definition DevCheckGMboxInterrupts :: "AR6K_DEVICE \<Rightarrow> A_STATUS \<times> AR6K_DEVICE" where
  "DevCheckGMboxInterrupts d = (let
     s = and (host_int_status2 (IrqProcRegisters d)) (GMboxControl d)
     in if has_bits GMBOX_TX_OVERFLOW s \<or> has_bits GMBOX_RX_OVERFLOW s
        then (A_ECOMM, gmbox_failure A_ECOMM d)
        else case (if has_bits GMBOX_RX_DATA s \<and> gmbox_rx_avail (IrqProcRegisters d) > 0
                   then gmbox_callback d else (A_OK, d)) of (st, d) \<Rightarrow>
          if A_FAILED st then (st, d) else check_credit_irq d)"

subsection \<open>Mailbox access\<close>

text \<open>The last byte of a message goes to the last address of the mailbox.\<close>

definition DevGMboxWrite :: "32 word \<Rightarrow> 32 word \<Rightarrow> nat \<Rightarrow> AR6K_DEVICE \<Rightarrow> 32 word \<times> nat" where
  "DevGMboxWrite address width n d = (let padded = DEV_CALC_SEND_PADDED_LEN (tx (htc d)) n in
     (address + width - word_of_nat padded, padded))"

text \<open>The length to read, or an error when the buffer is too small for it.\<close>

definition DevGMboxRead :: "nat \<Rightarrow> nat \<Rightarrow> AR6K_DEVICE \<Rightarrow> A_STATUS + nat" where
  "DevGMboxRead buffer_length n d = (let padded = DEV_CALC_RECV_PADDED_LEN (htc d) n in
     if padded > buffer_length then Inl A_EINVAL else Inr padded)"

text \<open>A look at the first bytes; the table goes to a local variable.\<close>

definition DevGMboxRecvLookAheadPeek :: "nat \<Rightarrow> AR6K_DEVICE \<Rightarrow> A_STATUS \<times> bytes \<times> AR6K_DEVICE" where
  "DevGMboxRecvLookAheadPeek maxCopy d =
     (if maxCopy > 8 then (A_EINVAL, [], d)
      else case read_table d of (st, d') \<Rightarrow>
        let r = IrqProcRegisters d'; d' = d'\<lparr>IrqProcRegisters := IrqProcRegisters d\<rparr> in
        if A_FAILED st then (st, [], d')
        else (st, take (min maxCopy (unat (gmbox_rx_avail r))) (rx_gmbox_lookahead_alias r), d'))"

text \<open>Raising an interrupt on the target and waiting until it has taken it.\<close>

fun wait_signal :: "nat \<Rightarrow> nat \<Rightarrow> AR6K_DEVICE \<Rightarrow> A_STATUS \<times> AR6K_DEVICE" where
  "wait_signal Signal 0 d = (A_ERROR, d)"
| "wait_signal Signal (Suc AckTimeoutMS) d = (case read_bytes 4 d of (st, bs, d) \<Rightarrow>
     if A_FAILED st then (st, d)
     else if list_all (\<lambda>b. \<not> bit b Signal) bs then (A_OK, d)
     else wait_signal Signal AckTimeoutMS d)"

definition DevGMboxSetTargetInterrupt :: "nat \<Rightarrow> nat \<Rightarrow> AR6K_DEVICE \<Rightarrow> A_STATUS \<times> AR6K_DEVICE" where
  "DevGMboxSetTargetInterrupt Signal AckTimeoutMS d =
     (if Signal \<ge> 8 then (A_EINVAL, d)
      else case hif_write INT_WLAN_ADDRESS [0, 0, 0, push_bit Signal 1] d of (st, d) \<Rightarrow>
        if A_FAILED st then (st, d) else wait_signal Signal AckTimeoutMS d)"

end
