(* ===== verification/DeviceIrq.thy ===== *)
theory DeviceIrq
  imports Gmbox
begin

text \<open>
  Interrupt processing, \<open>host/htc2/AR6000/ar6k_events.c\<close>: the handler that the bus driver calls, and the chain of
  asynchronous reads that replaces it while HTC fetches messages.  HTC is called through
  \<open>HTCRecvMessagePendingHandler\<close>.
\<close>

subsection \<open>The call of HTC\<close>

definition la_of_word :: "32 word \<Rightarrow> lookahead" where
  "la_of_word w = (ucast w, ucast (drop_bit 8 w), ucast (drop_bit 16 w), ucast (drop_bit 24 w))"

fun stop_times :: "nat \<Rightarrow> bool \<Rightarrow> AR6K_DEVICE \<Rightarrow> AR6K_DEVICE" where
  "stop_times 0 async d = d"
| "stop_times (Suc n) async d = stop_times n async (snd (DevStopRecv async d))"

text \<open>
  HTC asks for a new look at the status registers when it fetched two packets or more, and can ask for one
  when a further announced message found no buffer; the input \<open>recheck_hints\<close> decides the second case.  It
  stops the receiver when it is stopping after an error, and when it waits for buffers.
\<close>

definition MessagePendingCallback :: "dist_fn \<Rightarrow> lookahead list \<Rightarrow> AR6K_DEVICE \<Rightarrow> (A_STATUS \<times> nat \<times> AR6K_DEVICE) option" where
  "MessagePendingCallback D las d = do {
     (st, n, t) \<leftarrow> HTCRecvMessagePendingHandler D las (htc d);
     let again = (n \<ge> 2 \<or> (recheck_hints d \<noteq> [] \<and> hd (recheck_hints d)));
     let d = d\<lparr>htc := t, recheck_hints := tl (recheck_hints d),
               RecheckIRQStatusCnt := (if again then 1 else RecheckIRQStatusCnt d),
               htc_async := htc_async d + (if \<not> A_FAILED st \<and> n > 0 \<and> ASYNC_ALLOWED t then 1 else 0)\<rparr>;
     let d = stop_times ((if A_FAILED st \<and> Stopping (tx t) then 1 else 0) + (if WAIT_BUFFERS t then 1 else 0))
            (ASYNC_ALLOWED t) d;
     Some (st, n, d)
   }"

subsection \<open>Single interrupts\<close>

definition DevServiceCPUInterrupt :: "AR6K_DEVICE \<Rightarrow> A_STATUS \<times> AR6K_DEVICE" where
  "DevServiceCPUInterrupt d = (let
     r = IrqProcRegisters d;
     c = and (cpu_int_status r) (cpu_int_status_enable (IrqEnableRegisters d));
     d = d\<lparr>IrqProcRegisters := r\<lparr>cpu_int_status := and (cpu_int_status r) (not c)\<rparr>\<rparr>
     in hif_write CPU_INT_STATUS_ADDRESS [c, 0, 0, 0] d)"

definition DevServiceErrorInterrupt :: "AR6K_DEVICE \<Rightarrow> A_STATUS \<times> AR6K_DEVICE" where
  "DevServiceErrorInterrupt d = (let
     r = IrqProcRegisters d;
     e = and (error_int_status r) 0x0F;
     d = d\<lparr>IrqProcRegisters := r\<lparr>error_int_status := and (error_int_status r) (not e)\<rparr>\<rparr>
     in hif_write ERROR_INT_STATUS_ADDRESS [e, 0, 0, 0] d)"

definition DevServiceDebugInterrupt :: "AR6K_DEVICE \<Rightarrow> A_STATUS \<times> AR6K_DEVICE" where
  "DevServiceDebugInterrupt d = (let
     d = d\<lparr>target_failures := target_failures d + 1\<rparr>;
     d = (if GMboxEnabled d then DevNotifyGMboxTargetFailure d else d)
     in hif_answer d)"

definition DevServiceCounterInterrupt :: "AR6K_DEVICE \<Rightarrow> A_STATUS \<times> AR6K_DEVICE" where
  "DevServiceCounterInterrupt d =
     (if has_bits AR6K_TARGET_DEBUG_INTR_MASK
           (and (counter_int_status (IrqProcRegisters d)) (counter_int_status_enable (IrqEnableRegisters d)))
      then DevServiceDebugInterrupt d else (A_OK, d))"

subsection \<open>The synchronous handler\<close>

text \<open>The lookahead a table announces, if any; zero is none.\<close>

definition table_lookahead :: "AR6K_IRQ_PROC_REGISTERS \<Rightarrow> 32 word" where
  "table_lookahead r = (if has_bits INT_MBOX_DATA (rx_lookahead_valid r) then rx_lookahead r else 0)"

text \<open>Reading the table, and what is left of the interrupts without the mailbox.\<close>

definition fetch_table :: "32 word \<Rightarrow> AR6K_DEVICE \<Rightarrow> A_STATUS \<times> byte \<times> 32 word \<times> AR6K_DEVICE" where
  "fetch_table la d = (case read_table d of (st, d) \<Rightarrow>
     if A_FAILED st then (st, 0, la, d)
     else let
       host = and (host_int_status (IrqProcRegisters d)) (int_status_enable (IrqEnableRegisters d));
       la = (if \<not> GetPendingEventsFunc d \<and> has_bits INT_MBOX_DATA host then table_lookahead (IrqProcRegisters d) else la);
       host = and host (not INT_MBOX_DATA)
       in if GMboxEnabled d then (case DevCheckGMboxInterrupts d of (st, d) \<Rightarrow> (st, host, la, d))
          else (A_OK, host, la, d))"

definition fetch_status :: "AR6K_DEVICE \<Rightarrow> A_STATUS \<times> byte \<times> 32 word \<times> AR6K_DEVICE" where
  "fetch_status d =
     (if int_status_enable (IrqEnableRegisters d) = 0 then (A_OK, 0, 0, d)
      else if GetPendingEventsFunc d then (case read_events d of (st, ev, d) \<Rightarrow>
        if A_FAILED st then (st, 0, 0, d)
        else let la = (if RECV_MSG_AVAIL ev then LookAhead ev else 0) in
          if \<not> OTHER_EVENTS ev \<or> \<not> has_bits OTHER_INTS_ENABLED (int_status_enable (IrqEnableRegisters d))
          then (A_OK, 0, la, d) else fetch_table la d)
      else fetch_table 0 d)"

text \<open>The interrupts besides the mailbox, in order; the first that fails ends it.\<close>

definition service_others :: "byte \<Rightarrow> AR6K_DEVICE \<Rightarrow> A_STATUS \<times> AR6K_DEVICE" where
  "service_others host d =
     (case (if has_bits INT_CPU host then DevServiceCPUInterrupt d else (A_OK, d)) of (st, d) \<Rightarrow>
        if A_FAILED st then (st, d)
        else case (if has_bits INT_ERROR host then DevServiceErrorInterrupt d else (A_OK, d)) of (st, d) \<Rightarrow>
          if A_FAILED st then (st, d)
          else if has_bits INT_COUNTER host then DevServiceCounterInterrupt d else (A_OK, d))"

text \<open>The mailbox: the status, whether HTC goes on asynchronously, the state.\<close>

definition service_mailbox :: "dist_fn \<Rightarrow> 32 word \<Rightarrow> bool \<Rightarrow> AR6K_DEVICE \<Rightarrow> (A_STATUS \<times> bool \<times> AR6K_DEVICE) option" where
  "service_mailbox D la async d =
     (if la = 0 then Some (A_OK, async, d)
      else do {
        (st, fetched, d) \<leftarrow> MessagePendingCallback D [la_of_word la] d;
        let async = ASYNC_ALLOWED (htc d);
        Some (if \<not> A_FAILED st \<and> fetched = 0 then (st, False, d\<lparr>RecheckIRQStatusCnt := 0\<rparr>) else (st, async, d))
      })"

definition ProcessPendingIRQs :: "dist_fn \<Rightarrow> bool \<Rightarrow> AR6K_DEVICE \<Rightarrow> (A_STATUS \<times> bool \<times> bool \<times> AR6K_DEVICE) option" where
  "ProcessPendingIRQs D async d = do {
     let (st, host, la, d) = fetch_status d;
     (st, none_left, async, d) \<leftarrow>
       (if A_FAILED st then Some (st, False, async, d)
        else if host = 0 \<and> la = 0 then Some (st, True, async, d)
        else do {
          (st, async, d) \<leftarrow> service_mailbox D la async d;
          if A_FAILED st then Some (st, False, async, d)
          else (case service_others host d of (st, d) \<Rightarrow> Some (st, False, async, d))
        });
     Some (st, none_left \<or> (\<not> async \<and> RecheckIRQStatusCnt d = 0 \<and> \<not> GetPendingEventsFunc d), async, d)
   }"

end
