(* ===== verification/HtcMode.thy ===== *)
theory HtcMode
  imports HtcRecvProps
begin

text \<open>The message pending handler does not change how the bus is driven: whether asynchronous fetches are allowed,
  whether the interrupt handler yields and after how many packets.\<close>

definition mode :: "HTC_RX_TARGET \<Rightarrow> bool \<times> bool \<times> nat" where
  "mode t = (ASYNC_ALLOWED t, DSRCanYield t, RecvPacketYieldCount t)"

named_theorems mode_rules

lemma mode_same [mode_rules]:
  "mode (upd_rx e f t) = mode t" "mode (t\<lparr>tx := x\<rparr>) = mode t" "mode (t\<lparr>WAIT_BUFFERS := b, EpWaitingForBuffers := n\<rparr>) = mode t"
  "mode (t\<lparr>WAIT_BUFFERS := b, EpWaitingForBuffers := n, recv_on := c\<rparr>) = mode t" "mode (t\<lparr>recv_on := c\<rparr>) = mode t"
  "mode (t\<lparr>CurrentDSRRecvCount := n\<rparr>) = mode t" "mode (t\<lparr>dev_in := as\<rparr>) = mode t" "mode (t\<lparr>in_flight := r\<rparr>) = mode t"
  "mode (t\<lparr>tx := x, in_flight := r\<rparr>) = mode t" "mode (t\<lparr>rx_indicated := i\<rparr>) = mode t"
  by (simp_all add: mode_def upd_rx_def)

lemma mode_completion [mode_rules]: "mode (DoRecvCompletion e q t) = mode t"
  by (simp add: DoRecvCompletion_def mode_rules)

lemma mode_add: "HTCAddReceivePktMultiple q t = Some (st, t') \<Longrightarrow> mode t' = mode t"
  by (auto simp: HTCAddReceivePktMultiple_def Let_def mode_rules split: list.split_asm if_split_asm)

lemma mode_recycle: "HTC_RECYCLE_RX_PKT p e t = Some t' \<Longrightarrow> mode t' = mode t"
  by (auto simp: HTC_RECYCLE_RX_PKT_def HTCAddReceivePkt_def mode_rules split: if_split_asm dest: mode_add)

lemma mode_recycle_all: "recycle_all q t = Some t' \<Longrightarrow> mode t' = mode t"
  by (induction q arbitrary: t) (auto simp: bind_eq_Some_conv dest!: mode_recycle)

lemma mode_refill: "call_refill e t = Some t' \<Longrightarrow> mode t' = mode t"
  by (auto simp: call_refill_def Let_def mode_rules split: option.split_asm list.split_asm if_split_asm dest!: mode_add)

lemma mode_dequeue: "dequeue_rx e t = (b, t') \<Longrightarrow> mode t' = mode t"
  by (auto simp: dequeue_rx_def mode_rules split: list.split_asm)

lemma mode_take: "take_buffer e full t = Some (b, nr, t') \<Longrightarrow> mode t' = mode t"
  by (erule take_buffer_cases) (auto simp: mode_rules dest!: mode_dequeue mode_refill)

lemma mode_messages: "alloc_messages n first la full e t = Some (st, q, t') \<Longrightarrow> mode t' = mode t"
proof (induction n arbitrary: first t st q t')
  case (Suc n)
  from Suc.prems obtain b nr t1 where tb: "take_buffer e full t = Some (b, nr, t1)"
    by (auto simp: alloc_messages.simps bind_eq_Some_conv)
  note 1 = mode_take [OF tb]
  show ?case
  proof (cases b)
    case None
    then show ?thesis using Suc.prems tb 1 by (auto simp: alloc_messages.simps mode_rules)
  next
    case (Some p)
    show ?thesis
    proof (cases "Stopping (tx t1) \<or> full > BufferLength p")
      case True
      then have "t' = t1" using Suc.prems tb Some by (auto simp: alloc_messages.simps Let_def split: if_splits)
      then show ?thesis using 1 by simp
    next
      case False
      then obtain qs where "alloc_messages n False la full e t1 = Some (st, qs, t')"
        using Suc.prems tb Some by (auto simp: alloc_messages.simps Let_def bind_eq_Some_conv)
      with Suc.IH 1 show ?thesis by simp
    qed
  qed
qed (simp add: alloc_messages.simps)

lemma mode_packets: "alloc_packets las e t = Some (st, q, t') \<Longrightarrow> mode t' = mode t"
  by (induction las arbitrary: t st q) (auto simp: bind_eq_Some_conv Let_def split: if_split_asm dest!: mode_messages)

lemma mode_alloc: "AllocAndPrepareRxPackets las e t = Some (st, q, t') \<Longrightarrow> mode t' = mode t"
  by (auto simp: AllocAndPrepareRxPackets_def bind_eq_Some_conv split: if_split_asm dest!: mode_packets mode_recycle_all)

lemma mode_device: "device_read t = (st, ds, t') \<Longrightarrow> mode t' = mode t"
  by (auto simp: device_read_def mode_rules split: list.split_asm)

lemma mode_bundle: "HTCIssueRecvPacketBundle sync partial q t = (st, fin, rest, n, t') \<Longrightarrow> mode t' = mode t"
  by (auto simp: HTCIssueRecvPacketBundle_def Let_def mode_rules split: if_splits prod.splits dest: mode_device)

lemma mode_issue: "HTCIssueRecv sync p t = (st, p', t') \<Longrightarrow> mode t' = mode t"
  by (auto simp: HTCIssueRecv_def Let_def mode_rules split: if_splits prod.splits dest: mode_device)

lemma mode_fetch: "fetch_packets sync partial q t = (st, fin, left, t') \<Longrightarrow> mode t' = mode t"
proof (induction "length q" arbitrary: sync partial q t st fin left t' rule: less_induct)
  case less
  from less.prems show ?case
  proof (cases rule: fetch_packets_cases)
    case (bundled fin1 rest n t1 fin2)
    have "length rest < length q" using HTCIssueRecvPacketBundle_length [OF bundled(1)] bundled(2) by simp
    from less.hyps [OF this bundled(5)] mode_bundle [OF bundled(1)] show ?thesis by simp
  next
    case (single p ps t1 p1 t2 partial1 fin2)
    have "length ps < length q" using single(1) by simp
    from less.hyps [OF this single(5)] single(3) mode_issue [OF single(4)] show ?thesis by (auto dest: mode_bundle)
  next
    case (single_failed p ps t1 p1)
    from mode_issue [OF single_failed(6)] single_failed(5) show ?thesis by (auto dest: mode_bundle)
  qed (auto dest: mode_bundle)
qed

lemma mode_watermark: "CheckRecvWaterMark e t = Some t' \<Longrightarrow> mode t' = mode t"
  by (auto simp: CheckRecvWaterMark_def Let_def split: if_split_asm dest: mode_refill)

lemma mode_sync: "process_sync D q st las t = Some (st', las', rest, t') \<Longrightarrow> mode t' = mode t"
proof (induction q arbitrary: st las t)
  case (Cons p ps)
  obtain st1 p1 las1 x where h: "HTCProcessRecvHeader D True p (tx t) = Some (st1, p1, las1, x)"
    using Cons.prems by (auto simp: Let_def bind_eq_Some_conv)
  show ?case
  proof (cases "A_FAILED st1")
    case True
    then show ?thesis using Cons.prems h by (auto simp: Let_def mode_rules)
  next
    case False
    then show ?thesis using Cons.prems h Cons.IH by (fastforce simp: Let_def mode_rules)
  qed
qed simp

lemma mode_loop: "recv_loop D las got t = Some (st, left, rest, n, t') \<Longrightarrow> mode t' = mode t"
proof (induction "avail t" arbitrary: las got t rule: less_induct)
  case less
  from less.prems show ?case
  proof (cases rule: recv_loop_cases)
    case (async q t1 fin t2)
    then show ?thesis using mode_alloc mode_fetch by (auto split: if_split_asm dest!: mode_watermark)
  next
    case (pass q t1 st1 fin left1 t2 t3 las1 st2 rest1 t5)
    let ?t4 = "if DSRCanYield t3 then t3\<lparr>CurrentDSRRecvCount := CurrentDSRRecvCount t3 + 1\<rparr> else t3"
    have "mode ?t4 = mode t3" by (simp add: mode_rules)
    moreover have "mode t3 = mode t" using mode_alloc [OF pass(5)] mode_fetch [OF pass(6)] pass(7)
      by (auto split: if_split_asm dest: mode_watermark)
    ultimately have 5: "mode t5 = mode t" using mode_sync [OF pass(8)] by simp
    show ?thesis
    proof (cases "A_FAILED st2 \<or> las1 = [] \<or> (DSRCanYield t5 \<and> CurrentDSRRecvCount t5 \<ge> RecvPacketYieldCount t5)")
      case True
      then show ?thesis using pass(9) 5 by simp
    next
      case False
      have "avail t5 < avail t"
        by (rule recv_loop_uses_up [OF pass(5,1,6,7), where c = "DSRCanYield t3"]) (use pass(8) False in auto)
      moreover have "recv_loop D las1 (got + length q) t5 = Some (st, left, rest, n, t')"
        using pass(9) unfolding if_not_P [OF False] .
      ultimately show ?thesis using less.hyps 5 by simp
    qed
  qed (auto dest: mode_alloc)
qed

lemma mode_handler:
  assumes "HTCRecvMessagePendingHandler D las t = Some (st, n, t')"
  shows "mode t' = mode t"
proof (cases "length las > HTC_HOST_MAX_MSG_PER_BUNDLE")
  case True
  then show ?thesis using assms by (simp add: HTCRecvMessagePendingHandler_def)
next
  case False
  then obtain st1 left rest n1 t1 where l: "recv_loop D las 0 t = Some (st1, left, rest, n1, t1)"
    using assms by (auto simp: HTCRecvMessagePendingHandler_def bind_eq_Some_conv)
  show ?thesis
  proof (cases "A_FAILED st1")
    case True
    then obtain t2 t3 where "recycle_all left t1 = Some t2" "recycle_all rest t2 = Some t3" "mode t' = mode t3"
      using assms False l by (auto simp: HTCRecvMessagePendingHandler_def bind_eq_Some_conv mode_rules split: if_splits)
    with mode_recycle_all mode_loop [OF l] show ?thesis by metis
  next
    case ok: False
    then have "mode t' = mode t1"
      using assms False l by (auto simp: HTCRecvMessagePendingHandler_def mode_rules split: if_splits)
    with mode_loop [OF l] show ?thesis by simp
  qed
qed

end
