(* ===== verification/DeviceFrame.thy ===== *)
theory DeviceFrame
  imports DeviceIrq HtcMode "HOL-Library.Multiset"
begin

text \<open>What the operations of the device layer leave alone: the inputs that drive the loops, the acknowledgements
  and the chains of asynchronous reads; and where the packets for asynchronous accesses are.\<close>

definition kept :: "AR6K_DEVICE \<Rightarrow> AR6K_DEVICE \<Rightarrow> bool" where
  "kept d d' \<longleftrightarrow> reg_tables d' = reg_tables d \<and> pending_ev d' = pending_ev d \<and> irq_acks d' = irq_acks d \<and>
     GetPendingEventsFunc d' = GetPendingEventsFunc d \<and> htc d' = htc d \<and> htc_async d' = htc_async d \<and>
     filter (\<lambda>x. snd x = OpGetEvents) (io_busy d') = filter (\<lambda>x. snd x = OpGetEvents) (io_busy d)"

definition packets :: "AR6K_DEVICE \<Rightarrow> nat multiset" where
  "packets d = mset (RegisterIOList d) + mset (map fst (io_busy d))"

text \<open>No packet is in two places.  An operation keeps it so, loses packets at most and does not corrupt the free list,
  unless the bus answers an asynchronous switch of the receiver with \<open>A_PENDING\<close>.\<close>

definition sound :: "AR6K_DEVICE \<Rightarrow> bool" where
  "sound d \<longleftrightarrow> (\<forall>p. count (packets d) p \<le> 1)"

definition io_kept :: "AR6K_DEVICE \<Rightarrow> AR6K_DEVICE \<Rightarrow> bool" where
  "io_kept d d' \<longleftrightarrow> pending_switches d \<le> pending_switches d' \<and>
     (pending_switches d' = pending_switches d \<and> sound d \<longrightarrow> packets d' \<subseteq># packets d \<and> io_corrupt d' = io_corrupt d)"

lemma sound_sub: "sound d \<Longrightarrow> packets d' \<subseteq># packets d \<Longrightarrow> sound d'"
  unfolding sound_def by (meson le_trans mset_subset_eq_count)

lemma sound_eq: "packets d' = packets d \<Longrightarrow> sound d' = sound d"
  by (simp add: sound_def)

lemma kept_refl [simp]: "kept d d"
  by (simp add: kept_def)

lemma kept_trans: "kept d1 d2 \<Longrightarrow> kept d2 d3 \<Longrightarrow> kept d1 d3"
  by (simp add: kept_def)

lemma io_kept_refl [simp]: "io_kept d d"
  by (simp add: io_kept_def)

lemma io_kept_trans: "io_kept d1 d2 \<Longrightarrow> io_kept d2 d3 \<Longrightarrow> io_kept d1 d3"
  unfolding io_kept_def by (auto dest: sound_sub intro: subset_mset.trans)

text \<open>A change of other fields.\<close>

lemma io_kept_same:
  assumes "pending_switches d' = pending_switches d" "packets d' = packets d" "io_corrupt d' = io_corrupt d"
  shows "io_kept d d'" "io_kept e d' = io_kept e d" "io_kept d' e = io_kept d e"
  using assms sound_eq [OF assms(2)] by (simp_all add: io_kept_def)

text \<open>Both together, for an operation.\<close>

definition spares :: "AR6K_DEVICE \<Rightarrow> AR6K_DEVICE \<Rightarrow> bool" where
  "spares d d' \<longleftrightarrow> kept d d' \<and> io_kept d d'"

lemma spares_refl [simp]: "spares d d"
  by (simp add: spares_def)

lemma spares_trans: "spares d1 d2 \<Longrightarrow> spares d2 d3 \<Longrightarrow> spares d1 d3"
  unfolding spares_def by (blast intro: kept_trans io_kept_trans)

lemma spares_fields:
  "spares d (d\<lparr>IrqEnableRegisters := x1\<rparr>)" "spares d (d\<lparr>IrqProcRegisters := x2\<rparr>)" "spares d (d\<lparr>GMboxControl := x3\<rparr>)"
  "spares d (d\<lparr>CreditCountIRQEnabled := x4\<rparr>)" "spares d (d\<lparr>hif_irq_masked := x5\<rparr>)" "spares d (d\<lparr>gmbox_answers := x6\<rparr>)"
  "spares d (d\<lparr>credits_pending := x7\<rparr>)" "spares d (d\<lparr>gmbox_failures := x8\<rparr>)" "spares d (d\<lparr>target_failures := x9\<rparr>)"
  "spares d (d\<lparr>RecheckIRQStatusCnt := x10\<rparr>)" "spares d (d\<lparr>byte_reads := x11\<rparr>)" "spares d (d\<lparr>reg_writes := x12\<rparr>)"
  by (simp_all add: spares_def kept_def io_kept_def packets_def)

lemma spares_answer: "spares d (snd (hif_answer d))"
  by (auto simp: hif_answer_def spares_def kept_def io_kept_def packets_def split: list.split)

lemma spares_write: "spares d (snd (hif_write r bs d))"
  using spares_answer [of d] by (auto simp: hif_write_def split: prod.split intro: spares_trans [OF _ spares_fields(12)])

text \<open>A packet is freed by who holds it.\<close>

lemma free_packets:
  "kept d (AR6KFreeIOPacket p d)" "pending_switches (AR6KFreeIOPacket p d) = pending_switches d"
  "p \<notin># packets d \<Longrightarrow> packets (AR6KFreeIOPacket p d) = packets d + {#p#} \<and> io_corrupt (AR6KFreeIOPacket p d) = io_corrupt d"
  by (auto simp: AR6KFreeIOPacket_def kept_def packets_def)

lemma alloc_packets:
  assumes "AR6KAllocIOPacket d = (Some p, d1)"
  shows "kept d d1" "packets d = packets d1 + {#p#}" "pending_switches d1 = pending_switches d" "io_corrupt d1 = io_corrupt d"
    "sound d \<Longrightarrow> p \<notin># packets d1" "io_busy d1 = io_busy d"
proof -
  have 1: "RegisterIOList d = p # RegisterIOList d1" "d1 = d\<lparr>RegisterIOList := RegisterIOList d1\<rparr>"
    using assms by (auto simp: AR6KAllocIOPacket_def split: list.split_asm)
  show "kept d d1" "pending_switches d1 = pending_switches d" "io_corrupt d1 = io_corrupt d" "io_busy d1 = io_busy d"
    by (subst 1(2), simp add: kept_def)+
  show e: "packets d = packets d1 + {#p#}" using 1(1) by (subst 1(2)) (simp add: packets_def)
  show "p \<notin># packets d1" if s: "sound d"
  proof -
    have "count (packets d1 + {#p#}) p \<le> 1" using s unfolding sound_def e by blast
    then show ?thesis by (simp flip: count_eq_zero_iff)
  qed
qed

lemma alloc_free:
  assumes "AR6KAllocIOPacket d = (Some p, d1)" "kept d1 d2" "packets d2 = packets d1" "io_corrupt d2 = io_corrupt d1"
    and "pending_switches d2 = pending_switches d1"
  shows "spares d (AR6KFreeIOPacket p d2)"
  using alloc_packets [OF assms(1)] assms(2-5) free_packets [where d = d2 and p = p]
  by (auto simp: spares_def io_kept_def intro: kept_trans)

text \<open>An asynchronous submission gives a packet to the bus, or leaves it with the caller.\<close>

lemma submit_packets:
  assumes "hif_submit p op ws d1 = (st, d2)"
  shows "kept d1 (d2\<lparr>io_busy := io_busy d1\<rparr>)" "io_corrupt d2 = io_corrupt d1"
    "io_busy d2 = io_busy d1 @ (if st = A_OK \<or> st = A_PENDING then [(p, op)] else [])"
    "packets d2 = packets d1 + (if st = A_OK \<or> st = A_PENDING then {#p#} else {#})"
    "pending_switches d2 = pending_switches d1 + (if op = OpRecvSwitch \<and> st = A_PENDING then 1 else 0)"
proof -
  obtain d3 where 3: "hif_answer d1 = (st, d3)" "d3 = d1\<lparr>io_answers := io_answers d3\<rparr>"
    by (cases "hif_answer d1") (use assms in \<open>auto simp: hif_submit_def hif_answer_def split: list.split_asm prod.split_asm\<close>)
  have f: "kept d1 d3" "RegisterIOList d3 = RegisterIOList d1" "io_busy d3 = io_busy d1" "io_corrupt d3 = io_corrupt d1"
    "pending_switches d3 = pending_switches d1"
    by (subst 3(2), simp add: kept_def)+
  have d2: "d2 = (if st = A_OK \<or> st = A_PENDING then d3\<lparr>io_busy := io_busy d3 @ [(p, op)], reg_writes := reg_writes d3 @ ws,
      pending_switches := pending_switches d3 + (if op = OpRecvSwitch \<and> st = A_PENDING then 1 else 0)\<rparr> else d3)"
    using assms 3(1) by (simp add: hif_submit_def)
  show "kept d1 (d2\<lparr>io_busy := io_busy d1\<rparr>)" using f(1) unfolding d2 by (simp add: kept_def)
  show "io_corrupt d2 = io_corrupt d1"
    "io_busy d2 = io_busy d1 @ (if st = A_OK \<or> st = A_PENDING then [(p, op)] else [])"
    "packets d2 = packets d1 + (if st = A_OK \<or> st = A_PENDING then {#p#} else {#})"
    "pending_switches d2 = pending_switches d1 + (if op = OpRecvSwitch \<and> st = A_PENDING then 1 else 0)"
    unfolding d2 using f by (simp_all add: packets_def)
qed

lemma alloc_submit:
  assumes "AR6KAllocIOPacket d = (Some p, d1)" "hif_submit p op ws d1 = (st, d2)"
  shows "io_kept d d2" "op \<noteq> OpGetEvents \<Longrightarrow> kept d d2"
    "op = OpGetEvents \<Longrightarrow> kept d (d2\<lparr>io_busy := io_busy d\<rparr>) \<and>
       io_busy d2 = io_busy d @ (if st = A_OK \<or> st = A_PENDING then [(p, op)] else [])"
proof -
  note a = alloc_packets [OF assms(1)] and s = submit_packets [OF assms(2)]
  show "io_kept d d2" using a s by (simp add: io_kept_def)
  show "op \<noteq> OpGetEvents \<Longrightarrow> kept d d2" using a(1,6) s(1,3) by (auto simp: kept_def)
  show "op = OpGetEvents \<Longrightarrow> kept d (d2\<lparr>io_busy := io_busy d\<rparr>) \<and>
       io_busy d2 = io_busy d @ (if st = A_OK \<or> st = A_PENDING then [(p, op)] else [])"
    using a(1,6) s(1,3) by (auto simp: kept_def)
qed

lemma spares_submit:
  assumes "AR6KAllocIOPacket d = (Some p, d1)" "hif_submit p op ws d1 = (st, d2)" "op \<noteq> OpGetEvents"
  shows "spares d d2"
  using alloc_submit(1,2) [OF assms(1,2)] assms(3) by (simp add: spares_def)

lemma spares_free_if_failed:
  assumes "AR6KAllocIOPacket d = (Some p, d1)" "hif_submit p OpRecvSwitch ws d1 = (st, d2)"
  shows "spares d (snd (free_if_failed st (Some p) d2))"
proof (cases "st = A_OK \<or> st = A_PENDING")
  case False
  note s = submit_packets [OF assms(2)]
  have "io_busy d2 = io_busy d1" using s(3) False by simp
  then have "d2\<lparr>io_busy := io_busy d1\<rparr> = d2" by simp
  then have "kept d1 d2" using s(1) by simp
  from alloc_free [OF assms(1) this] s(2,4,5) False show ?thesis by (simp add: free_if_failed_def)
next
  case True
  have k: "spares d d2" using spares_submit [OF assms] by simp
  show ?thesis
  proof (cases "st = A_OK")
    case False
    with True have "pending_switches (AR6KFreeIOPacket p d2) = pending_switches d + 1"
      using submit_packets(5) [OF assms(2)] alloc_packets(3) [OF assms(1)] free_packets(2) [where d = d2 and p = p] by simp
    moreover have "kept d (AR6KFreeIOPacket p d2)" using k free_packets(1) by (auto simp: spares_def intro: kept_trans)
    ultimately show ?thesis using False by (simp add: free_if_failed_def spares_def io_kept_def)
  qed (use k in \<open>simp add: free_if_failed_def\<close>)
qed

lemma io_alloc_none: "AR6KAllocIOPacket d = (None, d') \<Longrightarrow> d' = d"
  by (simp add: AR6KAllocIOPacket_def split: list.split_asm)

lemma spares_override: "spares d (snd (DevDoEnableDisableRecvOverride on async d))"
  using spares_answer [of d] by (auto simp: DevDoEnableDisableRecvOverride_def split: prod.split option.split
      dest: io_alloc_none spares_free_if_failed)

lemma spares_normal: "spares d (snd (DevDoEnableDisableRecvNormal on async d))"
proof -
  let ?r = "(IrqEnableRegisters d)\<lparr>int_status_enable := (if on then or (int_status_enable (IrqEnableRegisters d)) INT_MBOX_DATA
     else and (int_status_enable (IrqEnableRegisters d)) (not INT_MBOX_DATA))\<rparr>"
  let ?d = "d\<lparr>IrqEnableRegisters := ?r\<rparr>"
  have "spares ?d (snd (DevDoEnableDisableRecvNormal on async d))"
    using spares_write [where r = INT_STATUS_ENABLE_ADDRESS and bs = "enable_bytes ?r" and d = ?d]
    unfolding DevDoEnableDisableRecvNormal_def Let_def
    by (auto split: prod.split option.split dest: io_alloc_none spares_free_if_failed)
  then show ?thesis by (rule spares_trans [OF spares_fields(1)])
qed

lemma spares_stop: "spares d (snd (DevStopRecv async d))"
  by (simp add: DevStopRecv_def spares_normal spares_override)

lemma spares_enable: "spares d (snd (DevEnableRecv async d))"
  by (simp add: DevEnableRecv_def spares_normal spares_override)

lemma spares_stop_times: "spares d (stop_times n async d)"
  by (induction n arbitrary: d) (auto intro: spares_trans [OF spares_stop])

lemma spares_update_write: "spares d e \<Longrightarrow> spares d (snd (hif_write r bs e))"
  by (rule spares_trans [OF _ spares_write])

lemma spares_interrupts:
  "spares d (snd (DevEnableInterrupts d))" "spares d (snd (DevDisableInterrupts d))"
  unfolding DevEnableInterrupts_def DevDisableInterrupts_def Let_def by (rule spares_update_write spares_fields)+

lemma spares_mask: "spares d (snd (DevMaskInterrupts d))"
  unfolding DevMaskInterrupts_def by (rule spares_trans [OF spares_fields(5) spares_interrupts(2)])

lemma spares_unmask: "spares d (snd (DevUnmaskInterrupts d))"
proof -
  let ?d1 = "snd (DevDisableInterrupts d)"
  have "spares d (?d1\<lparr>hif_irq_masked := False\<rparr>)" by (rule spares_trans [OF spares_interrupts(2) spares_fields(5)])
  from spares_trans [OF this spares_interrupts(1)] show ?thesis by (simp add: DevUnmaskInterrupts_def case_prod_unfold)
qed

subsection \<open>The second mailbox\<close>

lemma spares_submit_action: "spares d (snd (submit_action r bs d))"
proof (cases "AR6KAllocIOPacket d")
  case (Pair io d1)
  show ?thesis
  proof (cases io)
    case None
    then show ?thesis using Pair by (auto simp: submit_action_def dest: io_alloc_none)
  next
    case (Some p)
    obtain st d2 where 2: "hif_submit p OpGmboxAction [(r, bs)] d1 = (st, d2)" by fastforce
    from spares_submit [OF _ this] Pair Some show ?thesis by (simp add: submit_action_def 2)
  qed
qed

lemma spares_update_action: "spares d e \<Longrightarrow> spares d (snd (submit_action r bs e))"
  by (rule spares_trans [OF _ spares_submit_action])

lemma spares_counter: "spares d (snd (DevGMboxCounterEnableDisable a async d))"
proof -
  have "spares d (d\<lparr>CreditCountIRQEnabled := x, IrqEnableRegisters := y\<rparr>)" for x y
    by (simp add: spares_def kept_def io_kept_def packets_def)
  then show ?thesis
    by (simp add: DevGMboxCounterEnableDisable_def Let_def spares_update_action spares_update_write del: io_kept_refl)
qed

lemma spares_action: "spares d (snd (DevGMboxIRQAction a async d))"
proof -
  let ?d = "if a = GMBOX_DISABLE_ALL then snd (DevGMboxCounterEnableDisable GMBOX_CREDIT_IRQ_DISABLE async d) else d"
  have "spares d ?d" using spares_counter by simp
  from spares_trans [OF this spares_fields(3)] have k: "spares d (?d\<lparr>GMboxControl := v\<rparr>)" for v .
  show ?thesis
    unfolding DevGMboxIRQAction_def Let_def
    using spares_counter [of d a async] spares_update_action [OF k] spares_update_write [OF k] by (simp only: split: if_split) blast
qed

lemma spares_actions: "spares d (run_actions acts d)"
proof (induction acts arbitrary: d)
  case (Cons x acts)
  obtain a async where "x = (a, async)" by (cases x)
  then show ?case using spares_trans [OF spares_action Cons.IH] by simp
qed simp

lemma spares_callback: "spares d (snd (gmbox_callback d))"
  by (auto simp: gmbox_callback_def split: list.split intro: spares_trans [OF spares_fields(6) spares_actions])

lemma spares_tell: "spares d (snd (tell_credits n d))"
  unfolding tell_credits_def by (rule spares_trans [OF spares_fields(7) spares_callback])

lemma spares_read_bytes: "read_bytes n d = (st, bs, d') \<Longrightarrow> spares d d'"
  by (auto simp: read_bytes_def spares_fields split: list.split_asm)

lemma spares_read_counter: "spares d (snd (snd (DevGMboxReadCreditCounter async d)))"
proof (cases "AR6KAllocIOPacket d")
  case (Pair io d1)
  show ?thesis
  proof (cases io)
    case None
    then show ?thesis using Pair by (auto simp: DevGMboxReadCreditCounter_def dest: io_alloc_none)
  next
    case (Some p)
    note a = Pair [unfolded Some]
    obtain st d2 where 2: "hif_submit p OpReadCredits [] d1 = (st, d2)" by fastforce
    obtain st3 bs d3 where 3: "read_bytes AR6K_REG_IO_BUFFER_SIZE d1 = (st3, bs, d3)" by (cases "read_bytes AR6K_REG_IO_BUFFER_SIZE d1")
    have "kept d1 d3" "packets d3 = packets d1" "io_corrupt d3 = io_corrupt d1" "pending_switches d3 = pending_switches d1"
      using 3 by (auto simp: read_bytes_def packets_def kept_def split: list.split_asm)
    from alloc_free [OF a this] spares_submit [OF a 2] a show ?thesis by (simp add: DevGMboxReadCreditCounter_def 2 3)
  qed
qed

lemma spares_credit_irq: "spares d (snd (check_credit_irq d))"
proof -
  obtain st n e where 1: "DevGMboxReadCreditCounter False d = (st, n, e)" by (cases "DevGMboxReadCreditCounter False d")
  then have "spares d e" using spares_read_counter [of d False] by simp
  then show ?thesis by (simp add: check_credit_irq_def 1 spares_trans [OF _ spares_tell] split: option.split)
qed

lemma spares_gmbox: "spares d (snd (DevCheckGMboxInterrupts d))"
  using spares_callback [of d] spares_credit_irq
  by (auto simp: DevCheckGMboxInterrupts_def Let_def gmbox_failure_def spares_fields split: prod.split intro: spares_trans)

subsection \<open>Single interrupts\<close>

lemma spares_services:
  "spares d (snd (DevServiceCPUInterrupt d))" "spares d (snd (DevServiceErrorInterrupt d))"
  "spares d (snd (DevServiceDebugInterrupt d))" "spares d (snd (DevServiceCounterInterrupt d))"
proof -
  show "spares d (snd (DevServiceCPUInterrupt d))" "spares d (snd (DevServiceErrorInterrupt d))"
    unfolding DevServiceCPUInterrupt_def DevServiceErrorInterrupt_def Let_def by (rule spares_update_write spares_fields)+
  have "spares d (d\<lparr>target_failures := x, gmbox_failures := y\<rparr>)" for x y
    by (simp add: spares_def kept_def io_kept_def packets_def)
  then show "spares d (snd (DevServiceDebugInterrupt d))"
    by (auto simp: DevServiceDebugInterrupt_def DevNotifyGMboxTargetFailure_def gmbox_failure_def Let_def
        intro!: spares_trans [OF _ spares_answer] spares_fields)
  then show "spares d (snd (DevServiceCounterInterrupt d))" by (simp add: DevServiceCounterInterrupt_def)
qed

lemma spares_others: "spares d (snd (service_others host d))"
proof -
  obtain st1 d1 where 1: "(if has_bits INT_CPU host then DevServiceCPUInterrupt d else (A_OK, d)) = (st1, d1)" by fastforce
  obtain st2 d2 where 2: "(if has_bits INT_ERROR host then DevServiceErrorInterrupt d1 else (A_OK, d1)) = (st2, d2)" by fastforce
  obtain st3 d3 where 3: "(if has_bits INT_COUNTER host then DevServiceCounterInterrupt d2 else (A_OK, d2)) = (st3, d3)" by fastforce
  have "spares d d1" using 1 spares_services(1) [of d] by (auto split: if_split_asm)
  moreover have "spares d1 d2" using 2 spares_services(2) [of d1] by (auto split: if_split_asm)
  moreover have "spares d2 d3" using 3 spares_services(4) [of d2] by (auto split: if_split_asm)
  ultimately have "spares d d1" "spares d d2" "spares d d3" by (blast intro: spares_trans)+
  then show ?thesis unfolding service_others_def 1 by (simp add: 2 3)
qed

end
