(* ===== verification/DeviceDsr.thy ===== *)
theory DeviceDsr
  imports DeviceFrame
begin

text \<open>
  The loop of the interrupt handler, the asynchronous chain and the wait for a message while interrupts are
  off, \<open>host/htc2/AR6000/ar6k_events.c\<close>.
\<close>

subsection \<open>One pass\<close>

definition inputs :: "AR6K_DEVICE \<Rightarrow> nat" where
  "inputs d = length (reg_tables d) + length (pending_ev d)"

definition reads_out :: "AR6K_DEVICE \<Rightarrow> nat" where
  "reads_out d = length (filter (\<lambda>x. snd x = OpGetEvents) (io_busy d))"

definition chain_kept :: "AR6K_DEVICE \<Rightarrow> AR6K_DEVICE \<Rightarrow> bool" where
  "chain_kept d d' \<longleftrightarrow> irq_acks d' = irq_acks d \<and> reads_out d' = reads_out d \<and> inputs d' \<le> inputs d \<and>
     mode (htc d') = mode (htc d) \<and> io_kept d d'"

lemma spares_chain: "spares d d' \<Longrightarrow> chain_kept d d' \<and> htc d' = htc d \<and> htc_async d' = htc_async d \<and> inputs d' = inputs d"
  by (simp add: spares_def kept_def chain_kept_def inputs_def reads_out_def)

lemma chain_refl [simp]: "chain_kept d d"
  by (simp add: chain_kept_def)

lemma chain_trans: "chain_kept d1 d2 \<Longrightarrow> chain_kept d2 d3 \<Longrightarrow> chain_kept d1 d3"
  by (auto simp: chain_kept_def intro: io_kept_trans)

lemma message_pending:
  assumes "MessagePendingCallback D las d = Some (st, n, d')"
  shows "chain_kept d d' \<and> inputs d' = inputs d \<and>
    htc_async d' = htc_async d + (if \<not> A_FAILED st \<and> n > 0 \<and> ASYNC_ALLOWED (htc d') then 1 else 0)"
proof -
  obtain t where t: "HTCRecvMessagePendingHandler D las (htc d) = Some (st, n, t)"
    using assms by (auto simp: MessagePendingCallback_def bind_eq_Some_conv)
  define e where "e = d\<lparr>htc := t, recheck_hints := tl (recheck_hints d),
    RecheckIRQStatusCnt := (if n \<ge> 2 \<or> (recheck_hints d \<noteq> [] \<and> hd (recheck_hints d)) then 1 else RecheckIRQStatusCnt d),
    htc_async := htc_async d + (if \<not> A_FAILED st \<and> n > 0 \<and> ASYNC_ALLOWED t then 1 else 0)\<rparr>"
  obtain k where k: "stop_times k (ASYNC_ALLOWED t) e = d'"
    using assms t by (auto simp: MessagePendingCallback_def bind_eq_Some_conv Let_def e_def)
  have e: "htc e = t" "irq_acks e = irq_acks d" "reads_out e = reads_out d" "inputs e = inputs d"
    "io_kept d e"
    "htc_async e = htc_async d + (if \<not> A_FAILED st \<and> n > 0 \<and> ASYNC_ALLOWED t then 1 else 0)"
    by (simp_all add: e_def reads_out_def inputs_def packets_def io_kept_same)
  have "mode (htc e) = mode (htc d)" using mode_handler [OF t] e(1) by simp
  then have "chain_kept d e" using e(2-5) by (simp add: chain_kept_def)
  with spares_chain [OF spares_stop_times [where d = e]] e(1,4,6) k chain_trans show ?thesis by auto
qed

lemma read_table_chain:
  assumes "read_table d = (st, d')"
  shows "chain_kept d d' \<and> htc d' = htc d \<and> htc_async d' = htc_async d \<and>
    (inputs d' < inputs d \<or> (st = A_OK \<and> IrqProcRegisters d' = quiet_table))"
  using assms by (auto simp: read_table_def chain_kept_def io_kept_def packets_def reads_out_def inputs_def split: list.split_asm)

lemma fetch_table_chain:
  assumes "fetch_table la d = (st, host, la', d')"
  shows "chain_kept d d' \<and> htc d' = htc d \<and> htc_async d' = htc_async d \<and>
    (inputs d' < inputs d \<or> A_FAILED st \<or> (host = 0 \<and> la' = la))"
proof -
  obtain st1 d1 where 1: "read_table d = (st1, d1)" by fastforce
  note r = read_table_chain [OF 1]
  show ?thesis
  proof (cases "A_FAILED st1")
    case True
    then show ?thesis using assms r by (auto simp: fetch_table_def 1)
  next
    case False
    define h where "h = and (host_int_status (IrqProcRegisters d1)) (int_status_enable (IrqEnableRegisters d1))"
    have q: "h = 0 \<or> inputs d1 < inputs d" using r by (auto simp: h_def quiet_table_def)
    have e: "host = and h (not INT_MBOX_DATA)" "h = 0 \<Longrightarrow> la' = la" "d1 = d' \<or> d' = snd (DevCheckGMboxInterrupts d1)"
      using assms False by (auto simp: fetch_table_def 1 h_def Let_def has_bits_def split: if_split_asm prod.split_asm)
    have "chain_kept d1 d' \<and> htc d' = htc d1 \<and> htc_async d' = htc_async d1 \<and> inputs d' = inputs d1"
      using e(3) spares_chain [OF spares_gmbox] by auto
    then show ?thesis using r q e(1,2) chain_trans by (auto simp: h_def)
  qed
qed

lemma read_events_chain:
  assumes "read_events d = (st, ev, d')"
  shows "chain_kept d d' \<and> htc d' = htc d \<and> htc_async d' = htc_async d \<and>
    (inputs d' < inputs d \<or> (\<not> RECV_MSG_AVAIL ev \<and> \<not> OTHER_EVENTS ev))"
  using assms by (auto simp: read_events_def chain_kept_def io_kept_def packets_def reads_out_def inputs_def split: list.split_asm)

lemma fetch_chain:
  assumes "fetch_status d = (st, host, la, d')"
  shows "chain_kept d d' \<and> htc d' = htc d \<and> htc_async d' = htc_async d \<and>
    (inputs d' < inputs d \<or> A_FAILED st \<or> (host = 0 \<and> la = 0))"
proof (cases "int_status_enable (IrqEnableRegisters d) = 0 \<or> \<not> GetPendingEventsFunc d")
  case True
  then show ?thesis using assms fetch_table_chain [of 0 d] by (auto simp: fetch_status_def split: if_split_asm)
next
  case False
  obtain st1 ev d1 where 1: "read_events d = (st1, ev, d1)" by (cases "read_events d") auto
  note r = read_events_chain [OF 1]
  let ?la = "if RECV_MSG_AVAIL ev then LookAhead ev else 0"
  have s: "fetch_status d = (if A_FAILED st1 then (st1, 0, 0, d1)
      else if \<not> OTHER_EVENTS ev \<or> \<not> has_bits OTHER_INTS_ENABLED (int_status_enable (IrqEnableRegisters d1))
      then (A_OK, 0, ?la, d1) else fetch_table ?la d1)"
    using False by (simp add: fetch_status_def 1)
  show ?thesis
  proof (cases "A_FAILED st1 \<or> \<not> OTHER_EVENTS ev \<or> \<not> has_bits OTHER_INTS_ENABLED (int_status_enable (IrqEnableRegisters d1))")
    case True
    then have "d' = d1" "A_FAILED st \<or> (host = 0 \<and> la = ?la)" using assms s by (auto split: if_split_asm)
    then show ?thesis using r by (cases "RECV_MSG_AVAIL ev") simp_all
  next
    case False
    then have t: "fetch_table ?la d1 = (st, host, la, d')" and "OTHER_EVENTS ev" using assms s by simp_all
    then have "inputs d1 < inputs d" using r by simp
    moreover note fetch_table_chain [OF t]
    ultimately show ?thesis using r chain_trans [of d d1 d'] by (simp add: chain_kept_def)
  qed
qed

lemma mailbox_chain:
  assumes "service_mailbox D la False d = Some (st, async, d')"
  shows "chain_kept d d' \<and> htc_async d' \<le> htc_async d + 1 \<and>
    (htc_async d' \<noteq> htc_async d \<longrightarrow> ASYNC_ALLOWED (htc d')) \<and>
    (\<not> A_FAILED st \<longrightarrow> htc_async d' = htc_async d + of_bool async)"
proof (cases "la = 0")
  case True
  then show ?thesis using assms by (simp add: service_mailbox_def)
next
  case False
  then obtain n d1 where 1: "MessagePendingCallback D [la_of_word la] d = Some (st, n, d1)"
    "(async, d') = (if \<not> A_FAILED st \<and> n = 0 then (False, d1\<lparr>RecheckIRQStatusCnt := 0\<rparr>) else (ASYNC_ALLOWED (htc d1), d1))"
    using assms by (auto simp: service_mailbox_def bind_eq_Some_conv split: if_split_asm)
  have "chain_kept d1 (d1\<lparr>RecheckIRQStatusCnt := 0\<rparr>)" using spares_chain [OF spares_fields(10)] by blast
  with message_pending [OF 1(1)] 1(2) chain_trans show ?thesis by (auto split: if_split_asm)
qed

lemma pass_chain:
  assumes "ProcessPendingIRQs D False d = Some (st, fin, async, d')"
  shows "chain_kept d d' \<and> htc_async d' \<le> htc_async d + 1 \<and> (inputs d' < inputs d \<or> A_FAILED st \<or> fin) \<and>
    (htc_async d' \<noteq> htc_async d \<longrightarrow> ASYNC_ALLOWED (htc d')) \<and>
    (\<not> A_FAILED st \<longrightarrow> htc_async d' = htc_async d + of_bool async)"
proof -
  obtain st1 host la d1 where 1: "fetch_status d = (st1, host, la, d1)" by (cases "fetch_status d")
  note f = fetch_chain [OF 1]
  consider "st1 \<noteq> A_OK" "st = st1" "d' = d1" "\<not> async"
    | "st1 = A_OK" "st = A_OK" "host = 0" "la = 0" "fin" "d' = d1" "\<not> async"
    | d2 st2 where "st1 = A_OK" "\<not> (host = 0 \<and> la = 0)" "service_mailbox D la False d1 = Some (st2, async, d2)"
        "(st, d') = (if A_FAILED st2 then (st2, d2) else service_others host d2)"
    using assms by (auto simp: ProcessPendingIRQs_def 1 bind_eq_Some_conv split: if_split_asm prod.split_asm)
  then show ?thesis
  proof cases
    case 3
    have o: "chain_kept d2 d' \<and> htc d' = htc d2 \<and> htc_async d' = htc_async d2"
      using 3(4) spares_chain [OF spares_others, of d2 host] by (auto split: if_split_asm dest: arg_cong [where f = snd])
    note m = mailbox_chain [OF 3(3)]
    have i: "inputs d1 < inputs d" using f 3(1,2) by simp
    have "chain_kept d1 d'" using chain_trans m o by blast
    then have "inputs d' \<le> inputs d1" "chain_kept d d'" using chain_trans f by (simp add: chain_kept_def, blast)
    then have c: "chain_kept d d'" "inputs d' < inputs d" using i by simp_all
    have "A_FAILED st2 \<Longrightarrow> A_FAILED st" using 3(4) by simp
    then show ?thesis using c m o f by (cases "A_FAILED st2") simp_all
  qed (use f in auto)
qed

subsection \<open>The handler\<close>

text \<open>The result has the flag whether HTC goes on asynchronously, a local variable in the code.\<close>

function dsr_loop :: "dist_fn \<Rightarrow> AR6K_DEVICE \<Rightarrow> (A_STATUS \<times> bool \<times> AR6K_DEVICE) option" where
  "dsr_loop D d = (case ProcessPendingIRQs D False d of None \<Rightarrow> None
     | Some (st, fin, async, d) \<Rightarrow>
         if A_FAILED st then Some (st, async, d)
         else if \<not> ASYNC_ALLOWED (htc d) \<and> DSRCanYield (htc d) \<and>
                 CurrentDSRRecvCount (htc d) \<ge> RecvPacketYieldCount (htc d) then Some (st, False, d)
         else if (async \<and> ASYNC_ALLOWED (htc d)) \<or> fin then Some (st, async \<and> ASYNC_ALLOWED (htc d), d)
         else dsr_loop D d)"
  by pat_completeness auto
termination
  by (relation "measure (\<lambda>(D, d). inputs d)") (auto dest!: pass_chain)

declare dsr_loop.simps [simp del]

definition DevDsrHandler :: "dist_fn \<Rightarrow> AR6K_DEVICE \<Rightarrow> (A_STATUS \<times> bool \<times> AR6K_DEVICE) option" where
  "DevDsrHandler D d = do {
     (st, async, d) \<leftarrow> dsr_loop D (d\<lparr>htc := (htc d)\<lparr>CurrentDSRRecvCount := 0\<rparr>, RecheckIRQStatusCnt := 0\<rparr>);
     Some (st, async, if \<not> A_FAILED st \<and> \<not> async \<and> \<not> DSRCanYield (htc d) then HIFAckInterrupt d else d)
   }"

subsection \<open>The asynchronous chain\<close>

definition DevAsyncIrqProcessComplete :: "AR6K_DEVICE \<Rightarrow> AR6K_DEVICE" where
  "DevAsyncIrqProcessComplete d = HIFAckInterrupt d"

text \<open>A submission that the bus refuses leaves the packet with nobody.\<close>

definition DevCheckPendingRecvMsgsAsync :: "AR6K_DEVICE \<Rightarrow> A_STATUS \<times> AR6K_DEVICE" where
  "DevCheckPendingRecvMsgsAsync d =
     (if \<not> ASYNC_ALLOWED (htc d) then (A_OK, d)
      else if RecheckIRQStatusCnt d = 0 then (A_OK, HIFAckInterrupt d)
      else case AR6KAllocIOPacket d of
          (None, d) \<Rightarrow> (A_NO_MEMORY, d)
        | (Some p, d) \<Rightarrow> hif_submit p OpGetEvents [] d)"

text \<open>What the completed read announces: the lookahead, and whether there is anything else.\<close>

definition announced :: "AR6K_IRQ_PROC_REGISTERS \<Rightarrow> HIF_PENDING_EVENTS_INFO \<Rightarrow> AR6K_DEVICE \<Rightarrow> 32 word \<times> bool" where
  "announced r ev d =
     (if GetPendingEventsFunc d then (if RECV_MSG_AVAIL ev then LookAhead ev else 0, OTHER_EVENTS ev)
      else let host = and (host_int_status r) (int_status_enable (IrqEnableRegisters d)) in
        (if has_bits INT_MBOX_DATA host then table_lookahead r else 0, and host (not INT_MBOX_DATA) \<noteq> 0))"

text \<open>
  The status in the result is one that the function drops: an error after which it neither acknowledges
  the interrupt nor goes on.
\<close>

definition DevGetEventAsyncHandler :: "dist_fn \<Rightarrow> nat \<Rightarrow> A_STATUS \<Rightarrow> AR6K_IRQ_PROC_REGISTERS \<Rightarrow> HIF_PENDING_EVENTS_INFO \<Rightarrow>
    AR6K_DEVICE \<Rightarrow> (A_STATUS \<times> AR6K_DEVICE) option" where
  "DevGetEventAsyncHandler D p Status r ev d = do {
     (st, d) \<leftarrow> (if A_FAILED Status then Some (Status, d)
       else case announced r ev d of (la, other) \<Rightarrow>
         if other \<or> la = 0 then Some (A_OK, HIFAckInterrupt d)
         else do {
           (st, fetched, d) \<leftarrow> MessagePendingCallback D [la_of_word la] d;
           Some (st, if \<not> A_FAILED st \<and> fetched = 0 then DevAsyncIrqProcessComplete d else d)
         });
     Some (st, AR6KFreeIOPacket p d)
   }"

text \<open>
  HTC has completed an asynchronous fetch: \<open>HTCAsyncRecvCheckMorePackets\<close> of \<open>htc_recv.c\<close>, as far as it concerns the
  device.  Again the status is dropped by the code; a pending request is no error.
\<close>

definition AsyncRecvCheckMorePackets :: "dist_fn \<Rightarrow> lookahead list \<Rightarrow> AR6K_DEVICE \<Rightarrow> (A_STATUS \<times> AR6K_DEVICE) option" where
  "AsyncRecvCheckMorePackets D las d =
     (if las \<noteq> [] then do {
        (st, fetched, d) \<leftarrow> MessagePendingCallback D las (d\<lparr>RecheckIRQStatusCnt := 1\<rparr>);
        Some (st, if \<not> A_FAILED st \<and> fetched = 0 then DevAsyncIrqProcessComplete d else d)
      }
      else (case DevCheckPendingRecvMsgsAsync d of (st, d) \<Rightarrow> Some (if st = A_PENDING then A_OK else st, d)))"

subsection \<open>Waiting for a message while interrupts are off\<close>

definition mbox_message :: "AR6K_IRQ_PROC_REGISTERS \<Rightarrow> bool" where
  "mbox_message r \<longleftrightarrow> has_bits INT_MBOX_DATA (host_int_status r) \<and> has_bits INT_MBOX_DATA (rx_lookahead_valid r)"

text \<open>One attempt: the status, the lookahead if there is one, the state.\<close>

definition poll_once :: "AR6K_DEVICE \<Rightarrow> A_STATUS \<times> 32 word option \<times> AR6K_DEVICE" where
  "poll_once d =
     (if GetPendingEventsFunc d then (case read_events d of (st, ev, d) \<Rightarrow>
        (st, if \<not> A_FAILED st \<and> RECV_MSG_AVAIL ev then Some (LookAhead ev) else None, d))
      else case read_table d of (st, d) \<Rightarrow>
        (st, if \<not> A_FAILED st \<and> mbox_message (IrqProcRegisters d) then Some (rx_lookahead (IrqProcRegisters d)) else None, d))"

fun poll_mbox :: "nat \<Rightarrow> AR6K_DEVICE \<Rightarrow> A_STATUS \<times> 32 word option \<times> AR6K_DEVICE" where
  "poll_mbox 0 d = (A_ERROR, None,
     if has_bits AR6K_TARGET_DEBUG_INTR_MASK (counter_int_status (IrqProcRegisters d)) then snd (DevServiceDebugInterrupt d) else d)"
| "poll_mbox (Suc timeout) d = (case poll_once d of (st, la, d) \<Rightarrow>
     if A_FAILED st \<or> la \<noteq> None then (st, la, d) else poll_mbox timeout d)"

text \<open>A time that is shorter than one interval still gives one attempt.\<close>

definition DevPollMboxMsgRecv :: "nat \<Rightarrow> AR6K_DEVICE \<Rightarrow> A_STATUS \<times> 32 word option \<times> AR6K_DEVICE" where
  "DevPollMboxMsgRecv TimeoutMS d = poll_mbox (max 1 (TimeoutMS div 10)) d"

subsection \<open>Runs\<close>

text \<open>
  The bus delivers an interrupt only after the last one was acknowledged; where the handler yields, the bus
  driver acknowledges itself.  \<open>EvIoDone\<close> completes the oldest asynchronous access, \<open>EvHtcDone\<close> a chain of
  fetches of HTC.  Events that cannot happen change nothing.
\<close>

record dev_sys =
  dev :: AR6K_DEVICE
  irqs_taken :: nat
  irqs_yielded :: nat

datatype dev_event =
    EvIrq
  | EvIoDone A_STATUS AR6K_IRQ_PROC_REGISTERS HIF_PENDING_EVENTS_INFO bytes
  | EvHtcDone "lookahead list"
  | EvRecvSwitch bool bool
  | EvMask bool
  | EvGmboxAction GMBOX_IRQ_ACTION_TYPE bool
  | EvGmboxCredits bool

definition complete_io :: "dist_fn \<Rightarrow> nat \<Rightarrow> io_op \<Rightarrow> A_STATUS \<Rightarrow> AR6K_IRQ_PROC_REGISTERS \<Rightarrow> HIF_PENDING_EVENTS_INFO \<Rightarrow> bytes \<Rightarrow>
    AR6K_DEVICE \<Rightarrow> (A_STATUS \<times> AR6K_DEVICE) option" where
  "complete_io D p op st r ev bs d = (case op of
       OpGetEvents \<Rightarrow> DevGetEventAsyncHandler D p st r ev d
     | OpRecvSwitch \<Rightarrow> Some (A_OK, DevDoEnableDisableRecvAsyncHandler p d)
     | OpGmboxAction \<Rightarrow> Some (A_OK, DevGMboxIRQActionAsyncHandler p d)
     | OpReadCredits \<Rightarrow> Some (A_OK, DevGMboxReadCreditsAsyncHandler p st bs d))"

fun dev_apply :: "dist_fn \<Rightarrow> dev_event \<Rightarrow> dev_sys \<Rightarrow> (A_STATUS \<times> dev_sys) option" where
  "dev_apply D EvIrq s =
     (if irqs_taken s \<noteq> irq_acks (dev s) + irqs_yielded s then Some (A_OK, s)
      else do {
        (st, async, d) \<leftarrow> DevDsrHandler D (dev s);
        Some (st, s\<lparr>dev := d, irqs_taken := irqs_taken s + 1,
          irqs_yielded := irqs_yielded s + (if \<not> A_FAILED st \<and> \<not> async \<and> DSRCanYield (htc d) then 1 else 0)\<rparr>)
      })"
| "dev_apply D (EvIoDone st r ev bs) s = (case io_busy (dev s) of
       [] \<Rightarrow> Some (A_OK, s)
     | (p, op) # busy \<Rightarrow> do {
         (st, d) \<leftarrow> complete_io D p op st r ev bs ((dev s)\<lparr>io_busy := busy\<rparr>);
         Some (st, s\<lparr>dev := d\<rparr>)
       })"
| "dev_apply D (EvHtcDone las) s =
     (if htc_async (dev s) = 0 then Some (A_OK, s)
      else do {
        (st, d) \<leftarrow> AsyncRecvCheckMorePackets D las ((dev s)\<lparr>htc_async := htc_async (dev s) - 1\<rparr>);
        Some (st, s\<lparr>dev := d\<rparr>)
      })"
| "dev_apply D (EvRecvSwitch on async) s =
     Some (A_OK, s\<lparr>dev := snd (if on then DevEnableRecv async (dev s) else DevStopRecv async (dev s))\<rparr>)"
| "dev_apply D (EvMask on) s =
     Some (A_OK, s\<lparr>dev := snd (if on then DevMaskInterrupts (dev s) else DevUnmaskInterrupts (dev s))\<rparr>)"
| "dev_apply D (EvGmboxAction a async) s = Some (A_OK, s\<lparr>dev := snd (DevGMboxIRQAction a async (dev s))\<rparr>)"
| "dev_apply D (EvGmboxCredits async) s = Some (A_OK, s\<lparr>dev := snd (snd (DevGMboxReadCreditCounter async (dev s)))\<rparr>)"

text \<open>The run, and whether no error was reported.\<close>

fun dev_run :: "dist_fn \<Rightarrow> dev_event list \<Rightarrow> dev_sys \<Rightarrow> (bool \<times> dev_sys) option" where
  "dev_run D [] s = Some (True, s)"
| "dev_run D (e # es) s = do {
     (st, s) \<leftarrow> dev_apply D e s;
     (clean, s) \<leftarrow> dev_run D es s;
     Some (\<not> A_FAILED st \<and> clean, s)
   }"

end
