(* ===== verification/DeviceProps.thy ===== *)
theory DeviceProps
  imports DeviceDsr
begin

text \<open>Who is responsible for an interrupt that was taken, and where the packets for asynchronous accesses are.\<close>

subsection \<open>The interrupt handler\<close>

lemma loop_chain:
  "dsr_loop D d = Some (st, async, d') \<Longrightarrow> chain_kept d d' \<and> htc_async d' \<le> htc_async d + 1 \<and>
    (htc_async d' \<noteq> htc_async d \<longrightarrow> ASYNC_ALLOWED (htc d')) \<and>
    (\<not> A_FAILED st \<longrightarrow> htc_async d' = htc_async d + of_bool async)"
proof (induction D d rule: dsr_loop.induct)
  case (1 D d)
  obtain st1 fin async1 d1 where p: "ProcessPendingIRQs D False d = Some (st1, fin, async1, d1)"
    using 1(2) by (subst (asm) dsr_loop.simps) (auto split: option.split_asm)
  note pc = pass_chain [OF p]
  let ?yield = "\<not> ASYNC_ALLOWED (htc d1) \<and> DSRCanYield (htc d1) \<and> CurrentDSRRecvCount (htc d1) \<ge> RecvPacketYieldCount (htc d1)"
  show ?case
  proof (cases "A_FAILED st1 \<or> ?yield \<or> (async1 \<and> ASYNC_ALLOWED (htc d1)) \<or> fin")
    case True
    then have e: "d' = d1 \<and> (A_FAILED st1 \<and> st = st1 \<or> \<not> A_FAILED st1 \<and> st = A_OK \<and> async = (async1 \<and> ASYNC_ALLOWED (htc d1)))"
      using 1(2) p by (subst (asm) dsr_loop.simps) (auto split: if_split_asm)
    then show ?thesis using pc by (cases "A_FAILED st1") auto
  next
    case False
    then have l: "dsr_loop D d1 = Some (st, async, d')" using 1(2) p by (subst (asm) dsr_loop.simps) auto
    have z: "htc_async d1 = htc_async d" using pc False by auto
    from False l have "chain_kept d1 d' \<and> htc_async d' \<le> htc_async d1 + 1 \<and>
      (htc_async d' \<noteq> htc_async d1 \<longrightarrow> ASYNC_ALLOWED (htc d')) \<and>
      (\<not> A_FAILED st \<longrightarrow> htc_async d' = htc_async d1 + of_bool async)"
      by - (rule 1(1) [OF p], auto)
    then show ?thesis using pc z chain_trans by (metis (no_types, lifting))
  qed
qed

text \<open>Without the acknowledgements, what a call back keeps.\<close>

definition ack_kept :: "AR6K_DEVICE \<Rightarrow> AR6K_DEVICE \<Rightarrow> bool" where
  "ack_kept d d' \<longleftrightarrow> mode (htc d') = mode (htc d) \<and> io_kept d d'"

lemma ack_kept_ack [simp]: "io_kept d (HIFAckInterrupt e) = io_kept d e" "ack_kept d (HIFAckInterrupt e) = ack_kept d e"
  proof -
  show k: "io_kept d (HIFAckInterrupt e) = io_kept d e"
    by (rule io_kept_same(2)) (simp_all add: packets_def HIFAckInterrupt_def)
  show "ack_kept d (HIFAckInterrupt e) = ack_kept d e" using k by (simp add: ack_kept_def HIFAckInterrupt_def)
qed

lemma ack_fields [simp]:
  "irq_acks (HIFAckInterrupt d) = irq_acks d + 1" "htc (HIFAckInterrupt d) = htc d" "htc_async (HIFAckInterrupt d) = htc_async d"
  "reads_out (HIFAckInterrupt d) = reads_out d" "RegisterIOList (HIFAckInterrupt d) = RegisterIOList d"
  "io_busy (HIFAckInterrupt d) = io_busy d" "io_answers (HIFAckInterrupt d) = io_answers d" "packets (HIFAckInterrupt d) = packets d"
  by (simp_all add: HIFAckInterrupt_def reads_out_def packets_def)

lemma dsr_chain:
  assumes "DevDsrHandler D d = Some (st, async, d')"
  shows "ack_kept d d' \<and> reads_out d' = reads_out d \<and> (htc_async d' \<noteq> htc_async d \<longrightarrow> ASYNC_ALLOWED (htc d')) \<and>
    (A_FAILED st \<longrightarrow> irq_acks d' = irq_acks d \<and> htc_async d' \<le> htc_async d + 1) \<and>
    (\<not> A_FAILED st \<longrightarrow> htc_async d' = htc_async d + of_bool async \<and>
       irq_acks d' = irq_acks d + of_bool (\<not> async \<and> \<not> DSRCanYield (htc d')))"
proof -
  let ?d = "d\<lparr>htc := (htc d)\<lparr>CurrentDSRRecvCount := 0\<rparr>, RecheckIRQStatusCnt := 0\<rparr>"
  obtain d1 where 1: "dsr_loop D ?d = Some (st, async, d1)"
    "d' = (if \<not> A_FAILED st \<and> \<not> async \<and> \<not> DSRCanYield (htc d1) then HIFAckInterrupt d1 else d1)"
    using assms by (auto simp: DevDsrHandler_def bind_eq_Some_conv)
  have "irq_acks ?d = irq_acks d" "reads_out ?d = reads_out d" "htc_async ?d = htc_async d" "mode (htc ?d) = mode (htc d)"
    "io_kept ?d d1 = io_kept d d1"
    by (simp_all add: reads_out_def mode_def, rule io_kept_same(3), simp_all add: packets_def)
  with loop_chain [OF 1(1)] 1(2) show ?thesis by (auto simp: chain_kept_def ack_kept_def)
qed

subsection \<open>The asynchronous chain\<close>

text \<open>The interrupts that are acknowledged or that somebody still works on.\<close>

definition debt :: "AR6K_DEVICE \<Rightarrow> nat" where
  "debt d = irq_acks d + htc_async d + reads_out d"

text \<open>A function that takes over an interrupt: it acknowledges it or passes it on, unless it reports an error.\<close>

definition takes_over :: "A_STATUS \<Rightarrow> AR6K_DEVICE \<Rightarrow> AR6K_DEVICE \<Rightarrow> bool" where
  "takes_over st d d' \<longleftrightarrow> irq_acks d \<le> irq_acks d' \<and> debt d' \<le> debt d + 1 \<and> mode (htc d') = mode (htc d) \<and>
     (\<not> A_FAILED st \<longrightarrow> debt d' = debt d + 1)"

lemma async_mode: "mode t' = mode t \<Longrightarrow> ASYNC_ALLOWED t' = ASYNC_ALLOWED t"
  by (simp add: mode_def)

lemma call_takes_over:
  assumes "MessagePendingCallback D las d = Some (st, n, d1)" "ASYNC_ALLOWED (htc d)"
    "d' = (if \<not> A_FAILED st \<and> n = 0 then HIFAckInterrupt d1 else d1)"
  shows "takes_over st d d' \<and> io_kept d d'"
proof -
  note m = message_pending [OF assms(1)]
  have "mode (htc d1) = mode (htc d)" using m by (simp add: chain_kept_def)
  from async_mode [OF this] assms(2) have "ASYNC_ALLOWED (htc d1)" by simp
  then have f: "irq_acks d1 = irq_acks d" "reads_out d1 = reads_out d" "mode (htc d1) = mode (htc d)" "io_kept d d1"
    "htc_async d1 = htc_async d + (if \<not> A_FAILED st \<and> n > 0 then 1 else 0)"
    using m by (simp_all add: chain_kept_def)
  show ?thesis
  proof (cases "\<not> A_FAILED st \<and> n = 0")
    case True
    then show ?thesis using f assms(3) by (simp add: takes_over_def debt_def)
  next
    case False
    then show ?thesis using f assms(3) by (simp add: takes_over_def debt_def split: if_splits)
  qed
qed

lemma read_takes_over:
  assumes "DevGetEventAsyncHandler D p Status r ev d = Some (st, d')" "ASYNC_ALLOWED (htc d)"
  shows "takes_over st d d' \<and> (\<exists>d1. io_kept d d1 \<and> d' = AR6KFreeIOPacket p d1)"
proof -
  obtain la other where an: "announced r ev d = (la, other)" by fastforce
  from assms(1) obtain d1 where f: "d' = AR6KFreeIOPacket p d1" and
    c: "(if A_FAILED Status then Some (Status, d) else if other \<or> la = 0 then Some (A_OK, HIFAckInterrupt d)
         else do { (st, fetched, d) \<leftarrow> MessagePendingCallback D [la_of_word la] d;
           Some (st, if \<not> A_FAILED st \<and> fetched = 0 then DevAsyncIrqProcessComplete d else d) }) = Some (st, d1)"
    by (auto simp: DevGetEventAsyncHandler_def an bind_eq_Some_conv cong: if_cong)
  have t: "takes_over st d d1 \<and> io_kept d d1"
  proof (cases "A_FAILED Status \<or> other \<or> la = 0")
    case True
    then show ?thesis using c by (auto simp: takes_over_def debt_def split: if_split_asm)
  next
    case False
    then obtain n d2 where 2: "MessagePendingCallback D [la_of_word la] d = Some (st, n, d2)"
      "d1 = (if \<not> A_FAILED st \<and> n = 0 then HIFAckInterrupt d2 else d2)"
      using c by (auto simp: bind_eq_Some_conv DevAsyncIrqProcessComplete_def)
    show ?thesis by (rule call_takes_over [OF 2(1) assms(2) 2(2)])
  qed
  have "takes_over st d d1 = takes_over st d d'" using free_packets(1) [where d = d1 and p = p]
    by (simp add: f takes_over_def debt_def reads_out_def kept_def)
  then show ?thesis using t f by blast
qed

lemma check_takes_over:
  assumes "DevCheckPendingRecvMsgsAsync d = (st, d')" "ASYNC_ALLOWED (htc d)"
  shows "takes_over (if st = A_PENDING then A_OK else st) d d' \<and> io_kept d d'"
proof (cases "RecheckIRQStatusCnt d = 0")
  case True
  then show ?thesis using assms by (auto simp: DevCheckPendingRecvMsgsAsync_def takes_over_def debt_def)
next
  case False
  obtain io d1 where a: "AR6KAllocIOPacket d = (io, d1)" by fastforce
  show ?thesis
  proof (cases io)
    case None
    then show ?thesis using assms False a
      by (auto simp: DevCheckPendingRecvMsgsAsync_def takes_over_def debt_def dest: io_alloc_none)
  next
    case (Some p)
    then have s: "hif_submit p OpGetEvents [] d1 = (st, d')" using assms False a by (simp add: DevCheckPendingRecvMsgsAsync_def)
    note as = alloc_submit [OF a [unfolded Some] s]
    from as(3) have "irq_acks d' = irq_acks d" "htc_async d' = htc_async d" "htc d' = htc d"
      "reads_out d' = reads_out d + (if accepted st then 1 else 0)"
      by (simp_all add: kept_def reads_out_def)
    then show ?thesis using as(1) by (auto simp: takes_over_def debt_def)
  qed
qed

lemma more_takes_over:
  assumes "AsyncRecvCheckMorePackets D las d = Some (st, d')" "ASYNC_ALLOWED (htc d)"
  shows "takes_over st d d' \<and> io_kept d d'"
proof (cases "las = []")
  case True
  then show ?thesis using assms check_takes_over [of d _ d'] by (auto simp: AsyncRecvCheckMorePackets_def split: prod.split_asm)
next
  case False
  let ?d = "d\<lparr>RecheckIRQStatusCnt := 1\<rparr>"
  obtain n d1 where 1: "MessagePendingCallback D las ?d = Some (st, n, d1)"
    "d' = (if \<not> A_FAILED st \<and> n = 0 then HIFAckInterrupt d1 else d1)"
    using assms(1) False by (auto simp: AsyncRecvCheckMorePackets_def bind_eq_Some_conv DevAsyncIrqProcessComplete_def)
  have "takes_over st ?d d' \<and> io_kept ?d d'" using call_takes_over [OF 1(1) _ 1(2)] assms(2) by simp
  then show ?thesis using io_kept_same(3) [where d' = ?d and d = d and e = d']
    by (simp add: takes_over_def debt_def reads_out_def packets_def)
qed

subsection \<open>Runs\<close>

definition irq_inv :: "dev_sys \<Rightarrow> bool" where
  "irq_inv s \<longleftrightarrow> debt (dev s) + irqs_yielded s \<le> irqs_taken s \<and> irqs_taken s \<le> irq_acks (dev s) + irqs_yielded s + 1 \<and>
     (htc_async (dev s) + reads_out (dev s) > 0 \<longrightarrow> ASYNC_ALLOWED (htc (dev s)))"

definition all_answered :: "dev_sys \<Rightarrow> bool" where
  "all_answered s \<longleftrightarrow> debt (dev s) + irqs_yielded s = irqs_taken s"

definition good_step :: "A_STATUS \<Rightarrow> dev_sys \<Rightarrow> dev_sys \<Rightarrow> bool" where
  "good_step st s s' \<longleftrightarrow> irq_inv s' \<and> (\<not> A_FAILED st \<and> all_answered s \<longrightarrow> all_answered s') \<and> io_kept (dev s) (dev s')"

lemma good_keeps:
  assumes "irq_inv s" "spares (dev s) d'"
  shows "good_step st s (s\<lparr>dev := d'\<rparr>)"
proof -
  have "debt d' = debt (dev s)" "irq_acks d' = irq_acks (dev s)" "htc_async d' = htc_async (dev s)"
    "reads_out d' = reads_out (dev s)" "htc d' = htc (dev s)" "io_kept (dev s) d'"
    using assms(2) by (simp_all add: spares_def kept_def debt_def reads_out_def)
  then show ?thesis using assms(1) by (simp add: good_step_def irq_inv_def all_answered_def)
qed

text \<open>An event that takes over what somebody worked on before.\<close>

lemma good_takes_over:
  assumes "irq_inv s" "takes_over st d d'" "debt (dev s) = debt d + 1" "irq_acks (dev s) = irq_acks d"
    "htc (dev s) = htc d" "ASYNC_ALLOWED (htc d)" "io_kept (dev s) d'"
  shows "good_step st s (s\<lparr>dev := d'\<rparr>)"
proof -
  have "irq_acks d \<le> irq_acks d'" "debt d' \<le> debt d + 1" "mode (htc d') = mode (htc d)" "\<not> A_FAILED st \<longrightarrow> debt d' = debt d + 1"
    using assms(2) by (simp_all add: takes_over_def)
  moreover from this(3) have "ASYNC_ALLOWED (htc d')" using async_mode assms(6) by blast
  ultimately show ?thesis using assms(1,3,4,7) by (auto simp: good_step_def irq_inv_def all_answered_def)
qed

lemma good_irq:
  assumes "irq_inv s" "dev_apply D EvIrq s = Some (st, s')"
  shows "good_step st s s'"
proof (cases "irqs_taken s = irq_acks (dev s) + irqs_yielded s")
  case False
  then show ?thesis using assms by (simp add: good_step_def)
next
  case True
  obtain async d' where 1: "DevDsrHandler D (dev s) = Some (st, async, d')"
    "s' = s\<lparr>dev := d', irqs_taken := irqs_taken s + 1,
       irqs_yielded := irqs_yielded s + (if \<not> A_FAILED st \<and> \<not> async \<and> DSRCanYield (htc d') then 1 else 0)\<rparr>"
    using assms(2) True by (auto simp: bind_eq_Some_conv)
  note c = dsr_chain [OF 1(1)]
  have z: "htc_async (dev s) = 0" "reads_out (dev s) = 0" using assms(1) True by (auto simp: irq_inv_def debt_def)
  have io: "io_kept (dev s) d'" using c by (simp add: ack_kept_def)
  show ?thesis
  proof (cases "A_FAILED st")
    case True
    then show ?thesis using c z io \<open>irqs_taken s = _\<close>
      by (auto simp: good_step_def irq_inv_def all_answered_def debt_def 1(2))
  next
    case False
    then show ?thesis using c z io \<open>irqs_taken s = _\<close>
      by (cases async; cases "DSRCanYield (htc d')") (auto simp: good_step_def irq_inv_def all_answered_def debt_def 1(2))
  qed
qed

text \<open>A completed access gives its packet back.\<close>

lemma done_kept:
  assumes "io_busy d = (p, op) # busy" "io_kept (d\<lparr>io_busy := busy\<rparr>) d1"
  shows "io_kept d (AR6KFreeIOPacket p d1)"
proof -
  let ?d = "d\<lparr>io_busy := busy\<rparr>"
  have pk: "packets d = packets ?d + {#p#}" using assms(1) by (simp add: packets_def)
  have f: "pending_switches ?d = pending_switches d" "io_corrupt ?d = io_corrupt d"
    "pending_switches (AR6KFreeIOPacket p d1) = pending_switches d1" by (simp_all add: free_packets)
  show ?thesis unfolding io_kept_def f(3)
  proof (intro conjI impI)
    show "pending_switches d \<le> pending_switches d1" using assms(2) f(1) by (simp add: io_kept_def)
    assume a: "pending_switches d1 = pending_switches d \<and> sound d"
    then have "count (packets d) x \<le> 1" for x by (simp add: sound_def)
    then have c: "count (packets ?d) x \<le> (if x = p then 0 else 1)" for x by (auto simp: pk split: if_split_asm dest: meta_spec [of _ x])
    then have "sound ?d" unfolding sound_def by (auto intro: le_trans [OF c])
    then have k: "packets d1 \<subseteq># packets ?d" "io_corrupt d1 = io_corrupt d" using assms(2) a f by (simp_all add: io_kept_def)
    have "p \<notin># packets ?d" using c [of p] by (simp flip: count_eq_zero_iff)
    then have "p \<notin># packets d1" using k(1) by (meson mset_subset_eqD)
    from free_packets(3) [OF this] k show "packets (AR6KFreeIOPacket p d1) \<subseteq># packets d"
      "io_corrupt (AR6KFreeIOPacket p d1) = io_corrupt d" unfolding pk by simp_all
  qed
qed

lemma good_io_done:
  assumes "irq_inv s" "dev_apply D (EvIoDone st0 r ev bs) s = Some (st, s')"
  shows "good_step st s s'"
proof (cases "io_busy (dev s)")
  case Nil
  then show ?thesis using assms by (simp add: good_step_def)
next
  case (Cons x busy)
  obtain p op where x: "x = (p, op)" by (cases x)
  let ?d = "(dev s)\<lparr>io_busy := busy\<rparr>"
  obtain d' where c: "complete_io D p op st0 r ev bs ?d = Some (st, d')" "s' = s\<lparr>dev := d'\<rparr>"
    using assms(2) Cons x by (auto simp: bind_eq_Some_conv)
  have busy: "io_busy (dev s) = (p, op) # busy" using Cons x by simp
  show ?thesis
  proof (cases "op = OpGetEvents")
    case True
    have g: "DevGetEventAsyncHandler D p st0 r ev ?d = Some (st, d')" using c(1) True by (simp add: complete_io_def)
    have "reads_out (dev s) = reads_out ?d + 1" using Cons x True by (simp add: reads_out_def)
    moreover from this have "ASYNC_ALLOWED (htc ?d)" using assms(1) by (simp add: irq_inv_def)
    moreover note t = read_takes_over [OF g this]
    moreover have "io_kept (dev s) d'" using t done_kept [OF busy] by blast
    ultimately show ?thesis unfolding c(2) by (intro good_takes_over [OF assms(1), where d = ?d]) (auto simp: debt_def)
  next
    case False
    obtain d1 where d1: "spares ?d d1" "AR6KFreeIOPacket p d1 = d'"
    proof (cases op)
      case OpReadCredits
      let ?e = "if A_FAILED st0 then ?d else snd (tell_credits (ProcessCreditCounterReadBuffer bs) ?d)"
      have "spares ?d ?e" using spares_tell by simp
      moreover have "AR6KFreeIOPacket p ?e = d'"
        using c(1) OpReadCredits by (auto simp: complete_io_def DevGMboxReadCreditsAsyncHandler_def)
      ultimately show thesis by (rule that)
    qed (use False c(1) that [OF spares_refl] in \<open>auto simp: complete_io_def DevDoEnableDisableRecvAsyncHandler_def DevGMboxIRQActionAsyncHandler_def\<close>)
    have "kept (dev s) ?d" using Cons x False by (simp add: kept_def)
    with free_packets(1) d1 have "kept (dev s) d'" unfolding spares_def by (blast intro: kept_trans)
    moreover have "io_kept (dev s) d'" using d1 done_kept [OF busy] by (auto simp: spares_def)
    ultimately show ?thesis unfolding c(2) by (intro good_keeps [OF assms(1)]) (simp add: spares_def)
  qed
qed

lemma good_htc_done:
  assumes "irq_inv s" "dev_apply D (EvHtcDone las) s = Some (st, s')"
  shows "good_step st s s'"
proof (cases "htc_async (dev s) = 0")
  case True
  then show ?thesis using assms by (simp add: good_step_def)
next
  case False
  let ?d = "(dev s)\<lparr>htc_async := htc_async (dev s) - 1\<rparr>"
  obtain d' where c: "AsyncRecvCheckMorePackets D las ?d = Some (st, d')" "s' = s\<lparr>dev := d'\<rparr>"
    using assms(2) False by (auto simp: bind_eq_Some_conv)
  have a: "ASYNC_ALLOWED (htc ?d)" using assms(1) False by (simp add: irq_inv_def)
  note t = more_takes_over [OF c(1) a]
  have "debt (dev s) = debt ?d + 1" using False by (simp add: debt_def reads_out_def)
  moreover have "io_kept (dev s) d'" using t io_kept_same(3) [where d' = ?d and d = "dev s" and e = d'] by (simp add: packets_def)
  ultimately show ?thesis unfolding c(2) using t a by (intro good_takes_over [OF assms(1), where d = ?d]) simp_all
qed

lemma good_apply:
  assumes "irq_inv s" "dev_apply D e s = Some (st, s')"
  shows "good_step st s s'"
proof (cases e)
  case EvIrq
  then show ?thesis using good_irq assms by blast
next
  case (EvIoDone st0 r ev bs)
  then show ?thesis using good_io_done assms by blast
next
  case (EvHtcDone las)
  then show ?thesis using good_htc_done assms by blast
next
  case (EvRecvSwitch on async)
  then show ?thesis using assms spares_enable spares_stop by (auto intro: good_keeps)
next
  case (EvMask on)
  then show ?thesis using assms spares_mask [of "dev s"] spares_unmask [of "dev s"] by (auto intro: good_keeps)
next
  case (EvGmboxAction a async)
  then show ?thesis using assms spares_action [of "dev s" a async] by (auto intro: good_keeps)
next
  case (EvGmboxCredits async)
  then show ?thesis using assms spares_read_counter by (auto intro: good_keeps)
qed

lemma good_run:
  assumes "irq_inv s" "dev_run D es s = Some (clean, s')"
  shows "irq_inv s' \<and> (clean \<and> all_answered s \<longrightarrow> all_answered s') \<and> io_kept (dev s) (dev s')"
  using assms
proof (induction es arbitrary: s clean)
  case (Cons e es)
  then obtain st s1 clean1 where 1: "dev_apply D e s = Some (st, s1)" "dev_run D es s1 = Some (clean1, s')"
    "clean = (\<not> A_FAILED st \<and> clean1)"
    by (auto simp: bind_eq_Some_conv)
  note g = good_apply [OF Cons.prems(1) 1(1)]
  then have "irq_inv s1" by (simp add: good_step_def)
  with Cons.IH [OF this 1(2)] g 1(3) io_kept_trans show ?case by (auto simp: good_step_def)
qed simp

end
