(* ===== verification/DeviceClaims.thy ===== *)
theory DeviceClaims
  imports DeviceProps
begin

text \<open>The properties of the device layer.\<close>

text \<open>The state before the first interrupt: nothing acknowledged, nobody at work.\<close>

definition fresh_dev :: "dev_sys \<Rightarrow> bool" where
  "fresh_dev s \<longleftrightarrow> irqs_taken s = 0 \<and> irqs_yielded s = 0 \<and> irq_acks (dev s) = 0 \<and> htc_async (dev s) = 0 \<and> io_busy (dev s) = []"

lemma fresh_inv: "fresh_dev s \<Longrightarrow> irq_inv s \<and> all_answered s"
  by (simp add: fresh_dev_def irq_inv_def all_answered_def debt_def reads_out_def)

text \<open>C13: over any sequence of interrupts, completions and switches an interrupt is never acknowledged twice: those
  acknowledged, yielded to the bus, in the hands of HTC and waiting for a read of the status registers are
  together at most those taken, at most one of them is not yet acknowledged, and at most one is lost, which is
  never the case as long as no error is reported.\<close>

theorem dev_interrupts_answered:
  assumes "dev_run D es s = Some (clean, s')" "fresh_dev s"
  shows "irq_acks (dev s') + irqs_yielded s' + htc_async (dev s') + reads_out (dev s') \<le> irqs_taken s' \<and>
    htc_async (dev s') + reads_out (dev s') \<le> 1 \<and> irqs_taken s' \<le> irq_acks (dev s') + irqs_yielded s' + 1 \<and>
    (clean \<longrightarrow> irq_acks (dev s') + irqs_yielded s' + htc_async (dev s') + reads_out (dev s') = irqs_taken s')"
  using good_run [OF _ assms(1)] fresh_inv [OF assms(2)] by (auto simp: irq_inv_def all_answered_def debt_def)

lemma distinct_sub_mset:
  assumes "mset l \<subseteq># mset xs" "distinct xs"
  shows "distinct l"
  unfolding distinct_count_atmost_1
proof
  fix x
  have "count (mset l) x \<le> count (mset xs) x" using assms(1) by (rule mset_subset_eq_count)
  also have "\<dots> \<le> 1" using assms(2) by (simp add: distinct_count_atmost_1)
  finally have "count (mset l) x \<le> 1" .
  then have "count (mset l) x = 0 \<or> count (mset l) x = 1" by linarith
  then show "count (mset l) x = (if x \<in> set l then 1 else 0)" by (metis count_mset_0_iff zero_neq_one)
qed

text \<open>C14: whatever the bus answers to synchronous and asynchronous accesses, a pending request included, no packet for
  asynchronous accesses is in two places, on the free list or with the bus, and at most once in each, and none is
  put on the free list while it is there.  The one exception are asynchronous switches of the receiver that
  the bus answers with \<open>A_PENDING\<close>: the run has none of them, as the code mishandles them (below).\<close>

theorem dev_packets_single_owner:
  assumes "dev_run D es s = Some (clean, s')" "fresh_dev s" "distinct (RegisterIOList (dev s))" "\<not> io_corrupt (dev s)"
    and "pending_switches (dev s') = pending_switches (dev s)"
  shows "distinct (RegisterIOList (dev s') @ map fst (io_busy (dev s'))) \<and>
    set (RegisterIOList (dev s') @ map fst (io_busy (dev s'))) \<subseteq> set (RegisterIOList (dev s)) \<and> \<not> io_corrupt (dev s')"
proof -
  let ?l = "RegisterIOList (dev s') @ map fst (io_busy (dev s'))"
  have p: "packets (dev s) = mset (RegisterIOList (dev s))" using assms(2) by (simp add: packets_def fresh_dev_def)
  have "sound (dev s)" using assms(3) by (simp add: sound_def p distinct_count_atmost_1)
  then have "packets (dev s') \<subseteq># packets (dev s)" and c: "\<not> io_corrupt (dev s')"
    using good_run [OF _ assms(1)] fresh_inv [OF assms(2)] assms(4,5) by (auto simp: io_kept_def)
  then have sub: "mset ?l \<subseteq># mset (RegisterIOList (dev s))" by (simp only: p) (simp add: packets_def)
  have "distinct ?l" by (rule distinct_sub_mset [OF sub assms(3)])
  moreover have "set ?l \<subseteq> set (RegisterIOList (dev s))" using set_mset_mono [OF sub] by simp
  ultimately show ?thesis using c by blast
qed

text \<open>C39: a bus that answers an asynchronous request with \<open>A_PENDING\<close>, as the driver for Linux does, makes the functions
  that stop and start the receiver free the packet they have just handed over; the bus still holds it, and
  its completion puts it on the free list a second time, which corrupts the list.\<close>

theorem dev_async_switch_frees_busy_packet:
  assumes "RegisterIOList d = p # ps" "io_answers d = A_PENDING # as" "distinct (RegisterIOList d)"
    and "f = DevStopRecv \<or> f = DevEnableRecv"
  shows "\<exists>d'. f True d = (A_PENDING, d') \<and> p \<in> set (RegisterIOList d') \<and> (p, OpRecvSwitch) \<in> set (io_busy d') \<and>
    io_corrupt (DevDoEnableDisableRecvAsyncHandler p d')"
proof -
  obtain st d' where r: "f True d = (st, d')" by fastforce
  have "st = A_PENDING \<and> p \<in> set (RegisterIOList d') \<and> (p, OpRecvSwitch) \<in> set (io_busy d')"
    using assms r by (auto simp: DevStopRecv_def DevEnableRecv_def DevDoEnableDisableRecvNormal_def
        DevDoEnableDisableRecvOverride_def AR6KAllocIOPacket_def hif_submit_def hif_answer_def free_if_failed_def
        AR6KFreeIOPacket_def Let_def split: if_split_asm)
  then show ?thesis using r by (auto simp: DevDoEnableDisableRecvAsyncHandler_def AR6KFreeIOPacket_def)
qed

text \<open>A request for the status registers that the bus refuses takes its packet out of use for good, and the interrupt is not
  acknowledged.\<close>

lemma dev_check_refused_leaks:
  assumes "ASYNC_ALLOWED (htc d)" "RecheckIRQStatusCnt d \<noteq> 0" "RegisterIOList d = p # ps" "io_answers d = A_ERROR # as"
  shows "\<exists>d'. DevCheckPendingRecvMsgsAsync d = (A_ERROR, d') \<and> RegisterIOList d' = ps \<and> io_busy d' = io_busy d \<and> irq_acks d' = irq_acks d"
  using assms by (simp add: DevCheckPendingRecvMsgsAsync_def AR6KAllocIOPacket_def hif_submit_def hif_answer_def)

subsection \<open>Polling\<close>

text \<open>The status registers as the last of \<open>n\<close> attempts leaves them.\<close>

definition last_table :: "nat \<Rightarrow> AR6K_DEVICE \<Rightarrow> AR6K_IRQ_PROC_REGISTERS" where
  "last_table n d = (if n = 0 then IrqProcRegisters d
     else if n \<le> length (reg_tables d) then snd (reg_tables d ! (n - 1)) else quiet_table)"

lemma quiet_message: "\<not> mbox_message quiet_table"
  by (simp add: mbox_message_def quiet_table_def has_bits_def)

lemma poll_tables:
  assumes "\<not> GetPendingEventsFunc d" "\<forall>x \<in> set (take n (reg_tables d)). fst x = A_OK"
  shows "case find mbox_message (map snd (take n (reg_tables d))) of
      Some r \<Rightarrow> \<exists>d'. poll_mbox n d = (A_OK, Some (rx_lookahead r), d') \<and> target_failures d' = target_failures d
    | None \<Rightarrow> \<exists>d'. poll_mbox n d = (A_ERROR, None, d') \<and> target_failures d' = target_failures d +
        of_bool (has_bits AR6K_TARGET_DEBUG_INTR_MASK (counter_int_status (last_table n d)))"
  using assms
proof (induction n arbitrary: d)
  case 0
  then show ?case
    by (simp add: last_table_def DevServiceDebugInterrupt_def DevNotifyGMboxTargetFailure_def gmbox_failure_def Let_def
        hif_answer_def split: list.split)
next
  case (Suc n)
  show ?case
  proof (cases "reg_tables d")
    case Nil
    let ?d = "d\<lparr>IrqProcRegisters := quiet_table\<rparr>"
    have "poll_mbox (Suc n) d = poll_mbox n ?d"
      using Nil Suc.prems(1) quiet_message by (simp add: poll_once_def read_table_def)
    moreover have "last_table n ?d = last_table (Suc n) d" using Nil by (simp add: last_table_def)
    ultimately show ?thesis using Suc.IH [of ?d] Nil Suc.prems(1) by simp
  next
    case (Cons x rs)
    obtain r where x: "x = (A_OK, r)" using Suc.prems(2) Cons by (cases x) auto
    let ?d = "d\<lparr>reg_tables := rs, IrqProcRegisters := r\<rparr>"
    have o: "poll_once d = (A_OK, if mbox_message r then Some (rx_lookahead r) else None, ?d)"
      using Cons x Suc.prems(1) by (simp add: poll_once_def read_table_def)
    show ?thesis
    proof (cases "mbox_message r")
      case True
      then show ?thesis using o Cons x by simp
    next
      case False
      have "poll_mbox (Suc n) d = poll_mbox n ?d" using o False by simp
      moreover have "last_table n ?d = last_table (Suc n) d" using Cons x by (auto simp: last_table_def nth_Cons')
      ultimately show ?thesis using Suc.IH [of ?d] Suc.prems Cons x False
        by (cases "find mbox_message (map snd (take n rs))") (simp_all del: poll_mbox.simps split del: split_of_bool)
    qed
  qed
qed

text \<open>C37: the wait for a message returns the lookahead of the first of the status tables read in its time that announces
  one, and an error when none does; it makes one attempt at least, and tells that the target has failed
  exactly when the last table shows an assertion.\<close>

theorem dev_poll_finds_message:
  assumes "\<not> GetPendingEventsFunc d" "n = max 1 (TimeoutMS div 10)" "\<forall>x \<in> set (take n (reg_tables d)). fst x = A_OK"
  shows "case find mbox_message (map snd (take n (reg_tables d))) of
      Some r \<Rightarrow> \<exists>d'. DevPollMboxMsgRecv TimeoutMS d = (A_OK, Some (rx_lookahead r), d') \<and> target_failures d' = target_failures d
    | None \<Rightarrow> \<exists>d'. DevPollMboxMsgRecv TimeoutMS d = (A_ERROR, None, d') \<and> target_failures d' = target_failures d +
        of_bool (has_bits AR6K_TARGET_DEBUG_INTR_MASK (counter_int_status (last_table n d)))"
  using poll_tables [OF assms(1,3)] unfolding DevPollMboxMsgRecv_def assms(2) .

end
