(* ===== verification/DeviceWitness.thy ===== *)
theory DeviceWitness
  imports DeviceClaims RecvWitness
begin

text \<open>A device with one interrupt of the target's processor, and a device that is polled.\<close>

definition cpu_table :: AR6K_IRQ_PROC_REGISTERS where
  "cpu_table = quiet_table\<lparr>host_int_status := 0x40\<rparr>"

definition mbox_table :: AR6K_IRQ_PROC_REGISTERS where
  "mbox_table = quiet_table\<lparr>host_int_status := 1, rx_lookahead_valid := 1, rx_lookahead := 0x00080001\<rparr>"

definition demo_dev :: "AR6K_IRQ_PROC_REGISTERS list \<Rightarrow> A_STATUS list \<Rightarrow> AR6K_DEVICE" where
  "demo_dev ts as = \<lparr>IrqProcRegisters = quiet_table,
     IrqEnableRegisters = \<lparr>int_status_enable = 0xD1, cpu_int_status_enable = 0, error_status_enable = 3, counter_int_status_enable = 1\<rparr>,
     GetPendingEventsFunc = False, HifMaskUmaskRecvEvent = False, RecheckIRQStatusCnt = 0, RegisterIOList = [0, 1, 2, 3, 4, 5, 6, 7],
     io_busy = [], GMboxEnabled = False, GMboxControl = 0, CreditCountIRQEnabled = False, htc = demo_rx [] [],
     hif_irq_masked = False, irq_acks = 0, target_failures = 0, gmbox_failures = [], credits_pending = [], reg_writes = [],
     reg_tables = map (Pair A_OK) ts, pending_ev = [], byte_reads = [], io_answers = as, gmbox_answers = [], recheck_hints = [],
     htc_async = 0, pending_switches = 0, io_corrupt = False\<rparr>"

definition demo_sys :: "AR6K_DEVICE \<Rightarrow> dev_sys" where
  "demo_sys d = \<lparr>dev = d, irqs_taken = 0, irqs_yielded = 0\<rparr>"

lemma demo_fresh_dev: "fresh_dev (demo_sys (demo_dev ts as))"
  by (simp add: fresh_dev_def demo_sys_def demo_dev_def)

lemma demo_run: "\<exists>s'. dev_run D [EvIrq, EvRecvSwitch False True] (demo_sys (demo_dev [cpu_table] [])) = Some (True, s') \<and>
    irqs_taken s' = 1 \<and> io_busy (dev s') = [(0, OpRecvSwitch)]"
  by (simp add: demo_sys_def demo_dev_def DevDsrHandler_def dsr_loop.simps ProcessPendingIRQs_def fetch_status_def fetch_table_def
      read_table_def cpu_table_def quiet_table_def has_bits_def service_mailbox_def service_others_def DevServiceCPUInterrupt_def
      hif_write_def hif_answer_def demo_rx_def HIFAckInterrupt_def DevStopRecv_def DevDoEnableDisableRecvNormal_def Let_def
      AR6KAllocIOPacket_def hif_submit_def free_if_failed_def)

lemma dev_interrupts_answered_witness:
  "\<exists>s'. dev_run ar6000_credit_distribute [EvIrq, EvRecvSwitch False True] (demo_sys (demo_dev [cpu_table] [])) = Some (True, s') \<and>
    irq_acks (dev s') + irqs_yielded s' + htc_async (dev s') + reads_out (dev s') = 1"
proof -
  obtain s' where r: "dev_run ar6000_credit_distribute [EvIrq, EvRecvSwitch False True] (demo_sys (demo_dev [cpu_table] [])) = Some (True, s')"
    "irqs_taken s' = 1" using demo_run by blast
  from dev_interrupts_answered [OF r(1) demo_fresh_dev] r show ?thesis by auto
qed

text \<open>A pending request of the second mailbox.\<close>

lemma demo_pending: "\<exists>s'. dev_run D [EvGmboxAction GMBOX_RECV_IRQ_ENABLE True, EvRecvSwitch False True] (demo_sys (demo_dev [] [A_PENDING])) =
    Some (True, s') \<and> io_busy (dev s') = [(0, OpGmboxAction), (1, OpRecvSwitch)] \<and> pending_switches (dev s') = 0"
  by (simp add: demo_sys_def demo_dev_def DevGMboxIRQAction_def submit_action_def DevStopRecv_def DevDoEnableDisableRecvNormal_def Let_def
      AR6KAllocIOPacket_def hif_submit_def hif_answer_def free_if_failed_def)

lemma dev_packets_single_owner_witness:
  "\<exists>s'. dev_run ar6000_credit_distribute [EvGmboxAction GMBOX_RECV_IRQ_ENABLE True, EvRecvSwitch False True]
      (demo_sys (demo_dev [] [A_PENDING])) = Some (True, s') \<and>
    io_busy (dev s') = [(0, OpGmboxAction), (1, OpRecvSwitch)] \<and> set (RegisterIOList (dev s')) \<inter> {0, 1} = {} \<and> \<not> io_corrupt (dev s')"
proof -
  let ?s = "demo_sys (demo_dev [] [A_PENDING])"
  obtain s' where r: "dev_run ar6000_credit_distribute [EvGmboxAction GMBOX_RECV_IRQ_ENABLE True, EvRecvSwitch False True] ?s = Some (True, s')"
    "io_busy (dev s') = [(0, OpGmboxAction), (1, OpRecvSwitch)]" "pending_switches (dev s') = 0" using demo_pending by blast
  have "distinct (RegisterIOList (dev ?s))" "\<not> io_corrupt (dev ?s)" "pending_switches (dev s') = pending_switches (dev ?s)"
    using r(3) by (simp_all add: demo_sys_def demo_dev_def)
  from dev_packets_single_owner [OF r(1) demo_fresh_dev this] r show ?thesis by auto
qed

lemma dev_async_switch_frees_busy_packet_witness:
  "\<exists>d'. DevStopRecv True (demo_dev [] [A_PENDING]) = (A_PENDING, d') \<and> io_corrupt (DevDoEnableDisableRecvAsyncHandler 0 d')"
  using dev_async_switch_frees_busy_packet [of "demo_dev [] [A_PENDING]" 0 "[1, 2, 3, 4, 5, 6, 7]" "[]" DevStopRecv]
  by (auto simp: demo_dev_def)

lemma dev_poll_finds_message_witness:
  "\<exists>d'. DevPollMboxMsgRecv 30 (demo_dev [cpu_table, mbox_table] []) = (A_OK, Some 0x00080001, d')"
proof -
  let ?d = "demo_dev [cpu_table, mbox_table] []"
  have d: "\<not> GetPendingEventsFunc ?d" "(3 :: nat) = max 1 (30 div 10)" "\<forall>x \<in> set (take 3 (reg_tables ?d)). fst x = A_OK"
    by (simp_all add: demo_dev_def)
  have "\<not> mbox_message cpu_table" "mbox_message mbox_table" "rx_lookahead mbox_table = 0x00080001"
    by (simp_all add: mbox_message_def has_bits_def cpu_table_def mbox_table_def quiet_table_def)
  then have f: "find mbox_message (map snd (take 3 (reg_tables ?d))) = Some mbox_table"
    by (simp add: demo_dev_def)
  from dev_poll_finds_message [OF d] \<open>rx_lookahead mbox_table = _\<close> show ?thesis unfolding f by auto
qed

end
