(* ===== verification/Scatter.thy ===== *)
theory Scatter
  imports Device
begin

text \<open>
  Scatter requests over a bus driver that has none, \<open>host/htc2/AR6000/ar6k.c\<close>: the entries of a request are copied to
  or from one bounce buffer, which is transferred as a whole.  An entry is the buffer of the caller.
\<close>

record HIF_SCATTER_REQ =
  is_write :: bool
  is_async :: bool
  Address :: "32 word"
  TotalLength :: nat
  ScatterList :: "(nat \<times> bytes) list"
  DMA_BOUNCE :: bool
  pScatterBounceBuffer :: "bytes option"
  CompletionStatus :: A_STATUS
  req_completed :: nat

text \<open>
  An entry is its length and its buffer.  \<open>req_completed\<close> counts the calls of the completion routine.  Of the
  device, the addresses and sizes of the mailbox.
\<close>

record mbox_info =
  MboxAddress :: "32 word"
  ExtendedAddress :: "32 word"
  ExtendedSize :: nat
  ScatterIsVirtual :: bool

abbreviation (input) AR6K_MAX_TRANSFER_SIZE_PER_SCATTER :: nat where "AR6K_MAX_TRANSFER_SIZE_PER_SCATTER \<equiv> 16384"
abbreviation (input) AR6K_LEGACY_MAX_WRITE_LENGTH :: nat where "AR6K_LEGACY_MAX_WRITE_LENGTH \<equiv> 2048"

subsection \<open>The bounce buffer\<close>

text \<open>Writing \<open>bs\<close> over the bytes of \<open>buf\<close> from \<open>off\<close> on.\<close>

definition put_at :: "nat \<Rightarrow> bytes \<Rightarrow> bytes \<Rightarrow> bytes option" where
  "put_at off bs buf = (if off + length bs \<le> length buf
     then Some (take off buf @ bs @ drop (off + length bs) buf) else None)"

text \<open>The loop over the entries: \<open>off\<close> bytes of the bounce buffer are done, \<open>remaining\<close> are left.\<close>

fun copy_from :: "nat \<Rightarrow> nat \<Rightarrow> (nat \<times> bytes) list \<Rightarrow> bytes \<Rightarrow> (A_STATUS \<times> (nat \<times> bytes) list) option" where
  "copy_from off remaining [] dma = Some (A_OK, [])"
| "copy_from off remaining ((n, buf) # es) dma =
     (if min n remaining \<noteq> n then Some (A_EINVAL, (n, buf) # es)
      else do {
        bs \<leftarrow> blk off n dma;
        buf \<leftarrow> put_at 0 bs buf;
        (st, es) \<leftarrow> copy_from (off + n) (remaining - n) es dma;
        Some (st, (n, buf) # es)
      })"

fun copy_to :: "nat \<Rightarrow> nat \<Rightarrow> (nat \<times> bytes) list \<Rightarrow> bytes \<Rightarrow> (A_STATUS \<times> bytes) option" where
  "copy_to off remaining [] dma = Some (A_OK, dma)"
| "copy_to off remaining ((n, buf) # es) dma =
     (if min n remaining \<noteq> n then Some (A_EINVAL, dma)
      else do {
        bs \<leftarrow> blk 0 n buf;
        dma \<leftarrow> put_at off bs dma;
        copy_to (off + n) (remaining - n) es dma
      })"

definition DevCopyScatterListToFromDMABuffer :: "HIF_SCATTER_REQ \<Rightarrow> bool \<Rightarrow> (A_STATUS \<times> HIF_SCATTER_REQ) option" where
  "DevCopyScatterListToFromDMABuffer r FromDMA = (case pScatterBounceBuffer r of
       None \<Rightarrow> Some (A_EINVAL, r)
     | Some dma \<Rightarrow>
         if FromDMA then map_option (\<lambda>(st, es). (st, r\<lparr>ScatterList := es\<rparr>)) (copy_from 0 (TotalLength r) (ScatterList r) dma)
         else map_option (\<lambda>(st, dma). (st, r\<lparr>pScatterBounceBuffer := Some dma\<rparr>)) (copy_to 0 (TotalLength r) (ScatterList r) dma))"

definition DEV_PREPARE_SCATTER_OPERATION :: "HIF_SCATTER_REQ \<Rightarrow> (A_STATUS \<times> HIF_SCATTER_REQ) option" where
  "DEV_PREPARE_SCATTER_OPERATION r =
     (if is_write r \<and> DMA_BOUNCE r then DevCopyScatterListToFromDMABuffer r False else Some (A_OK, r))"

definition DEV_FINISH_SCATTER_OPERATION :: "HIF_SCATTER_REQ \<Rightarrow> HIF_SCATTER_REQ option" where
  "DEV_FINISH_SCATTER_OPERATION r =
     (if \<not> A_FAILED (CompletionStatus r) \<and> \<not> is_write r \<and> DMA_BOUNCE r
      then map_option (\<lambda>(st, r). r\<lparr>CompletionStatus := st\<rparr>) (DevCopyScatterListToFromDMABuffer r True)
      else Some r)"

subsection \<open>The transfer\<close>

definition complete_req :: "A_STATUS \<Rightarrow> HIF_SCATTER_REQ \<Rightarrow> HIF_SCATTER_REQ" where
  "complete_req st r = r\<lparr>CompletionStatus := st, req_completed := req_completed r + 1\<rparr>"

text \<open>
  What the bus does with one transfer: its answer, and for a read the bytes.  The request of the virtual
  mechanism goes through one transfer of the bounce buffer; in asynchronous mode an I/O packet carries
  it, and \<open>io\<close> says whether there is one.  The last components of the result are the transfers made, with address and
  length, and whether the packet is still in use.
\<close>

definition land_bytes :: "HIF_SCATTER_REQ \<Rightarrow> bool \<Rightarrow> bytes \<Rightarrow> HIF_SCATTER_REQ option" where
  "land_bytes r arrived bs =
     (case pScatterBounceBuffer r of
        None \<Rightarrow> None
      | Some dma \<Rightarrow>
          if TotalLength r > length dma then None
          else if arrived \<and> \<not> is_write r
          then Some (r\<lparr>pScatterBounceBuffer := Some (take (TotalLength r) (bs @ replicate (TotalLength r) 0) @ drop (TotalLength r) dma)\<rparr>)
          else Some r)"

definition DevReadWriteScatter :: "mbox_info \<Rightarrow> bool \<Rightarrow> A_STATUS \<times> bytes \<Rightarrow> HIF_SCATTER_REQ \<Rightarrow>
    (A_STATUS \<times> HIF_SCATTER_REQ \<times> (32 word \<times> nat) list \<times> bool) option" where
  "DevReadWriteScatter m io answer r =
     (if TotalLength r > AR6K_MAX_TRANSFER_SIZE_PER_SCATTER \<or> TotalLength r = 0 then Some (A_OK, r, [], False)
      else if is_async r \<and> \<not> io then Some (A_OK, complete_req A_NO_MEMORY r, [], False)
      else do {
        let r = (if is_write r \<and> Address r = ExtendedAddress m
                 then r\<lparr>Address := Address r + word_of_nat (ExtendedSize m) - word_of_nat (TotalLength r)\<rparr> else r);
        let st = fst answer;
        r \<leftarrow> land_bytes r (\<not> A_FAILED st \<and> \<not> is_async r) (snd answer);
        if st \<noteq> A_PENDING \<and> A_FAILED st \<and> is_async r
        then Some (A_OK, complete_req st r, [(Address r, TotalLength r)], False)
        else Some (st, r, [(Address r, TotalLength r)], is_async r)
      })"

text \<open>The bytes of an asynchronous read are there when it completes.\<close>

definition DevReadWriteScatterAsyncHandler :: "A_STATUS \<Rightarrow> bytes \<Rightarrow> HIF_SCATTER_REQ \<Rightarrow> HIF_SCATTER_REQ option" where
  "DevReadWriteScatterAsyncHandler Status bs r = map_option (complete_req Status) (land_bytes r (\<not> A_FAILED Status) bs)"

text \<open>\<open>S\<close> stands for the function of the bus driver, where it has one.\<close>

definition DevSubmitScatterRequest ::
  "(HIF_SCATTER_REQ \<Rightarrow> (A_STATUS \<times> HIF_SCATTER_REQ \<times> (32 word \<times> nat) list \<times> bool) option) \<Rightarrow> mbox_info \<Rightarrow> bool \<Rightarrow>
     A_STATUS \<times> bytes \<Rightarrow> bool \<Rightarrow> bool \<Rightarrow> HIF_SCATTER_REQ \<Rightarrow> (A_STATUS \<times> HIF_SCATTER_REQ \<times> (32 word \<times> nat) list \<times> bool) option" where
  "DevSubmitScatterRequest S m io answer Read Async r = do {
     let r = r\<lparr>is_write := \<not> Read, is_async := Async\<rparr>;
     let r = (if Read then r\<lparr>Address := MboxAddress m\<rparr>
       else let large = TotalLength r > AR6K_LEGACY_MAX_WRITE_LENGTH;
                a = (if large then ExtendedAddress m else MboxAddress m);
                width = (if large then ExtendedSize m else AR6K_LEGACY_MAX_WRITE_LENGTH)
            in r\<lparr>Address := (if ScatterIsVirtual m then a else a + (word_of_nat width - word_of_nat (TotalLength r)))\<rparr>);
     (st, r) \<leftarrow> DEV_PREPARE_SCATTER_OPERATION r;
     if A_FAILED st then
       (if Async then Some (A_OK, complete_req st r, [], False) else Some (st, r, [], False))
     else do {
       (st, r, xs, busy) \<leftarrow> (if ScatterIsVirtual m then DevReadWriteScatter m io answer r else S r);
       if \<not> Async then do {
         r \<leftarrow> DEV_FINISH_SCATTER_OPERATION (r\<lparr>CompletionStatus := st\<rparr>);
         Some (st, r, xs, busy)
       }
       else Some (if st = A_PENDING then A_OK else st, r, xs, busy)
     }
   }"

subsection \<open>The pool of requests\<close>

text \<open>Requests are numbers; the list links the requests themselves.\<close>

definition DevAllocScatterReq :: "nat list \<Rightarrow> nat option \<times> nat list" where
  "DevAllocScatterReq l = (case l of [] \<Rightarrow> (None, []) | x # xs \<Rightarrow> (Some x, xs))"

definition DevFreeScatterReq :: "nat \<Rightarrow> nat list \<Rightarrow> nat list option" where
  "DevFreeScatterReq x l = (if x \<in> set l then None else Some (l @ [x]))"

end
