(* ===== verification/ScatterProps.thy ===== *)
theory ScatterProps
  imports Scatter
begin

text \<open>What a scatter request moves.\<close>

text \<open>The bytes of the entries, one after the other, and requests whose entries fit their buffers and the bounce buffer.\<close>

definition entry_bytes :: "(nat \<times> bytes) list \<Rightarrow> bytes" where
  "entry_bytes es = concat (map (\<lambda>(n, b). take n b) es)"

definition entries_fit :: "(nat \<times> bytes) list \<Rightarrow> bool" where
  "entries_fit es \<longleftrightarrow> (\<forall>(n, b) \<in> set es. n \<le> length b)"

definition virtual_request :: "HIF_SCATTER_REQ \<Rightarrow> bytes \<Rightarrow> bool" where
  "virtual_request r dma \<longleftrightarrow> DMA_BOUNCE r \<and> pScatterBounceBuffer r = Some dma \<and> TotalLength r = sum_list (map fst (ScatterList r)) \<and>
     TotalLength r \<le> length dma \<and> TotalLength r \<le> AR6K_MAX_TRANSFER_SIZE_PER_SCATTER \<and> entries_fit (ScatterList r)"

lemma entry_bytes_simps [simp]: "entry_bytes [] = []" "entry_bytes ((n, b) # es) = take n b @ entry_bytes es"
  by (simp_all add: entry_bytes_def)

lemma entries_fit_simps [simp]: "entries_fit []" "entries_fit ((n, b) # es) \<longleftrightarrow> n \<le> length b \<and> entries_fit es"
  by (auto simp: entries_fit_def)

lemma put_at_bytes:
  assumes "off + length bs \<le> length buf"
  shows "\<exists>buf'. put_at off bs buf = Some buf' \<and> length buf' = length buf \<and> take (off + length bs) buf' = take off buf @ bs \<and>
    drop (off + length bs) buf' = drop (off + length bs) buf"
  using assms by (simp add: put_at_def)

lemma copy_to_gathers:
  assumes "entries_fit es" "off + sum_list (map fst es) \<le> length dma" "sum_list (map fst es) \<le> remaining"
  shows "\<exists>dma'. copy_to off remaining es dma = Some (A_OK, dma') \<and> length dma' = length dma \<and>
    take (off + sum_list (map fst es)) dma' = take off dma @ entry_bytes es"
  using assms
proof (induction es arbitrary: off remaining dma)
  case (Cons e es)
  obtain n b where e: "e = (n, b)" by (cases e)
  have n: "n \<le> length b" "n \<le> remaining" "length (take n b) = n" using Cons.prems e by simp_all
  obtain dma1 where 1: "put_at off (take n b) dma = Some dma1" "length dma1 = length dma" "take (off + n) dma1 = take off dma @ take n b"
    using put_at_bytes [of off "take n b" dma] Cons.prems e n by auto
  have "entries_fit es" "off + n + sum_list (map fst es) \<le> length dma1" "sum_list (map fst es) \<le> remaining - n"
    using Cons.prems e 1(2) by simp_all
  from Cons.IH [OF this] obtain dma2 where 2: "copy_to (off + n) (remaining - n) es dma1 = Some (A_OK, dma2)"
    "length dma2 = length dma1" "take (off + n + sum_list (map fst es)) dma2 = take (off + n) dma1 @ entry_bytes es" by blast
  have "blk 0 n b = Some (take n b)" using n by (simp add: blk_def)
  then show ?case using e n 1 2 by (simp add: add.assoc)
qed simp

lemma copy_from_scatters:
  assumes "entries_fit es" "off + sum_list (map fst es) \<le> length dma" "sum_list (map fst es) \<le> remaining"
  shows "\<exists>es'. copy_from off remaining es dma = Some (A_OK, es') \<and> map fst es' = map fst es \<and>
    entry_bytes es' = take (sum_list (map fst es)) (drop off dma) \<and>
    map (\<lambda>(n, b). (length b, drop n b)) es' = map (\<lambda>(n, b). (length b, drop n b)) es"
  using assms
proof (induction es arbitrary: off remaining)
  case (Cons e es)
  obtain n b where e: "e = (n, b)" by (cases e)
  let ?bs = "take n (drop off dma)"
  have n: "n \<le> length b" "n \<le> remaining" "length ?bs = n" using Cons.prems e by simp_all
  obtain b1 where 1: "put_at 0 ?bs b = Some b1" "length b1 = length b" "take n b1 = ?bs" "drop n b1 = drop n b"
    using put_at_bytes [of 0 ?bs b] n by auto
  have "entries_fit es" "off + n + sum_list (map fst es) \<le> length dma" "sum_list (map fst es) \<le> remaining - n"
    using Cons.prems e by simp_all
  from Cons.IH [OF this] obtain es1 where 2: "copy_from (off + n) (remaining - n) es dma = Some (A_OK, es1)" "map fst es1 = map fst es"
    "entry_bytes es1 = take (sum_list (map fst es)) (drop (off + n) dma)"
    "map (\<lambda>(n, b). (length b, drop n b)) es1 = map (\<lambda>(n, b). (length b, drop n b)) es" by blast
  have "blk off n dma = Some ?bs" using Cons.prems e by (simp add: blk_def)
  then show ?case using e n 1 2 by (simp add: take_add add.commute)
qed simp

text \<open>C38: over a bus without scatter requests, a synchronous write gathers the entries into one transfer of their total
  length, and a read of the same bytes into entries of the same lengths puts back what was written, leaving the
  rest of the buffers as it was.\<close>

theorem scatter_roundtrip:
  assumes "virtual_request r dma" "0 < TotalLength r" "ScatterIsVirtual m" "virtual_request r2 dma2"
    and "map fst (ScatterList r2) = map fst (ScatterList r)"
  shows "\<exists>r' a dma' r2' a2. DevSubmitScatterRequest S m io (A_OK, x) False False r = Some (A_OK, r', [(a, TotalLength r)], False) \<and>
    pScatterBounceBuffer r' = Some dma' \<and> take (TotalLength r) dma' = entry_bytes (ScatterList r) \<and>
    DevSubmitScatterRequest S m io (A_OK, take (TotalLength r) dma') True False r2 = Some (A_OK, r2', [(a2, TotalLength r)], False) \<and>
    entry_bytes (ScatterList r2') = entry_bytes (ScatterList r) \<and>
    map (\<lambda>(n, b). (length b, drop n b)) (ScatterList r2') = map (\<lambda>(n, b). (length b, drop n b)) (ScatterList r2)"
proof -
  obtain N where N: "sum_list (map fst (ScatterList r)) = N" by simp
  have v: "DMA_BOUNCE r" "pScatterBounceBuffer r = Some dma" "TotalLength r = N" "N \<le> length dma" "N \<le> 16384" "0 < N" "entries_fit (ScatterList r)"
    "DMA_BOUNCE r2" "pScatterBounceBuffer r2 = Some dma2" "TotalLength r2 = N" "N \<le> length dma2" "entries_fit (ScatterList r2)"
    using assms(1,2,4,5) N by (simp_all add: virtual_request_def)
  from copy_to_gathers [OF v(7), of 0 dma N] v(4) N obtain dma' where w: "copy_to 0 N (ScatterList r) dma = Some (A_OK, dma')"
    "length dma' = length dma" "take N dma' = entry_bytes (ScatterList r)" by auto
  have 1: "\<exists>r' a. DevSubmitScatterRequest S m io (A_OK, x) False False r = Some (A_OK, r', [(a, TotalLength r)], False) \<and>
      pScatterBounceBuffer r' = Some dma'"
    using v(1-6) w(1,2) assms(3) by (simp add: DevSubmitScatterRequest_def DEV_PREPARE_SCATTER_OPERATION_def
        DevCopyScatterListToFromDMABuffer_def DevReadWriteScatter_def land_bytes_def DEV_FINISH_SCATTER_OPERATION_def Let_def)
  let ?got = "take N dma' @ drop N dma2"
  have l: "length (take N dma') = N" using w(2) v(4) by simp
  then have "0 + N \<le> length ?got" by simp
  from copy_from_scatters [OF v(12), of 0 ?got N] this assms(5) N l obtain es' where s: "copy_from 0 N (ScatterList r2) ?got = Some (A_OK, es')"
    "entry_bytes es' = take N dma'" "map (\<lambda>(n, b). (length b, drop n b)) es' = map (\<lambda>(n, b). (length b, drop n b)) (ScatterList r2)" by auto
  have "\<exists>r2' a2. DevSubmitScatterRequest S m io (A_OK, take N dma') True False r2 = Some (A_OK, r2', [(a2, N)], False) \<and> ScatterList r2' = es'"
    using v(5,6,8-11) s(1) l assms(3) by (simp add: DevSubmitScatterRequest_def DEV_PREPARE_SCATTER_OPERATION_def
        DevCopyScatterListToFromDMABuffer_def DevReadWriteScatter_def land_bytes_def DEV_FINISH_SCATTER_OPERATION_def Let_def)
  then obtain r2' a2 where 2: "DevSubmitScatterRequest S m io (A_OK, take N dma') True False r2 = Some (A_OK, r2', [(a2, N)], False)"
    "ScatterList r2' = es'" by blast
  from 1 obtain r' a where 3: "DevSubmitScatterRequest S m io (A_OK, x) False False r = Some (A_OK, r', [(a, N)], False)"
    "pScatterBounceBuffer r' = Some dma'" unfolding v(3) by blast
  have "entry_bytes (ScatterList r2') = entry_bytes (ScatterList r)" using 2(2) s(2) w(3) by simp
  with 2 3 w(3) s(3) show ?thesis unfolding v(3) by blast
qed

text \<open>A request that is empty or larger than the bounce buffer is reported as done: no byte moves, and in asynchronous
  mode the completion routine is never called, so that its packets are lost.\<close>

lemma scatter_refused_silently:
  assumes "TotalLength r = 0 \<or> AR6K_MAX_TRANSFER_SIZE_PER_SCATTER < TotalLength r"
  shows "DevReadWriteScatter m io answer r = Some (A_OK, r, [], False)"
  using assms by (auto simp: DevReadWriteScatter_def)

definition demo_req :: "bytes list \<Rightarrow> HIF_SCATTER_REQ" where
  "demo_req bs = \<lparr>is_write = True, is_async = False, Address = 0, TotalLength = sum_list (map length bs), ScatterList = map (\<lambda>b. (length b, b)) bs,
     DMA_BOUNCE = True, pScatterBounceBuffer = Some (replicate 16384 0), CompletionStatus = A_OK, req_completed = 0\<rparr>"

lemma scatter_roundtrip_witness:
  "\<exists>r' r2' dma' a a2. DevSubmitScatterRequest (\<lambda>r. None) \<lparr>MboxAddress = 0x1000, ExtendedAddress = 0, ExtendedSize = 0, ScatterIsVirtual = True\<rparr> True
       (A_OK, []) False False (demo_req [[1, 2, 3], [4, 5]]) = Some (A_OK, r', [(a, 5)], False) \<and>
     pScatterBounceBuffer r' = Some dma' \<and> take 5 dma' = [1, 2, 3, 4, 5] \<and>
     DevSubmitScatterRequest (\<lambda>r. None) \<lparr>MboxAddress = 0x1000, ExtendedAddress = 0, ExtendedSize = 0, ScatterIsVirtual = True\<rparr> True
       (A_OK, take 5 dma') True False (demo_req [[0, 0, 0], [0, 0]]) = Some (A_OK, r2', [(a2, 5)], False) \<and>
     entry_bytes (ScatterList r2') = [1, 2, 3, 4, 5]"
proof -
  let ?r = "demo_req [[1, 2, 3], [4, 5]]" and ?r2 = "demo_req [[0, 0, 0], [0, 0]]"
  have v: "virtual_request ?r (replicate 16384 0)" "virtual_request ?r2 (replicate 16384 0)" "TotalLength ?r = 5"
    "map fst (ScatterList ?r2) = map fst (ScatterList ?r)" "entry_bytes (ScatterList ?r) = [1, 2, 3, 4, 5]"
    by (simp_all add: virtual_request_def demo_req_def)
  have t: "0 < TotalLength ?r" using v(3) by simp
  from scatter_roundtrip [OF v(1) t _ v(2,4),
      where m = "\<lparr>MboxAddress = 0x1000, ExtendedAddress = 0, ExtendedSize = 0, ScatterIsVirtual = True\<rparr>" and S = "\<lambda>r. None" and io = True and x = "[]"]
  show ?thesis unfolding v(3,5) by auto
qed

end
